(* ===== verification/Prelude.thy ===== *)
theory Prelude
  imports Main "HOL-Library.Word"
begin

text \<open>
  Shared vocabulary of the development: the fact collections the component theories
  fill and use, a generic contract for event driven components (a step function that
  keeps an invariant), and small facts on lists and options.
\<close>

section \<open>Fact collections\<close>

named_theorems bounds_simps \<open>byte measures and limits\<close>
named_theorems frame_simps \<open>fields an operation leaves unchanged\<close>
named_theorems wf_intros \<open>preservation of well-formedness, one rule per operation\<close>

section \<open>JavaScript's safe integers\<close>

text \<open>\<open>Number.MAX_SAFE_INTEGER\<close>: every integer of the model that the code checks with
  \<open>Number.isSafeInteger\<close> lies in this range, where double arithmetic is exact.\<close>

definition max_safe_integer :: int where
  "max_safe_integer = 9007199254740991"

definition safe_int :: "int \<Rightarrow> bool" where
  "safe_int n \<longleftrightarrow> - max_safe_integer \<le> n \<and> n \<le> max_safe_integer"

lemma max_safe_integer_pos [simp]: "0 < max_safe_integer" "0 \<le> max_safe_integer"
  by (simp_all add: max_safe_integer_def)

section \<open>Event driven components\<close>

text \<open>
  Every stateful component of the program is a step function from a state and an event to
  a new state and a list of outputs. \<open>run_machine\<close> feeds it a list of events; the locale
  \<open>stateful\<close> is the contract the components fulfil (each step keeps the invariant) and
  what follows for whole runs.
\<close>

fun run_machine :: "('s \<Rightarrow> 'e \<Rightarrow> 's \<times> 'o list) \<Rightarrow> 's \<Rightarrow> 'e list \<Rightarrow> 's \<times> 'o list" where
  "run_machine step s [] = (s, [])"
| "run_machine step s (e # es) =
     (fst (run_machine step (fst (step s e)) es),
      snd (step s e) @ snd (run_machine step (fst (step s e)) es))"

lemma run_machine_append:
  "run_machine step s (es @ es') =
     (fst (run_machine step (fst (run_machine step s es)) es'),
      snd (run_machine step s es) @ snd (run_machine step (fst (run_machine step s es)) es'))"
  by (induction es arbitrary: s) auto

locale stateful =
  fixes step :: "'s \<Rightarrow> 'e \<Rightarrow> 's \<times> 'o list"
    and inv :: "'s \<Rightarrow> bool"
  assumes step_inv: "inv s \<Longrightarrow> inv (fst (step s e))"
begin

lemma run_inv: "inv s \<Longrightarrow> inv (fst (run_machine step s es))"
proof (induction es arbitrary: s)
  case Nil
  then show ?case by simp
next
  case (Cons e es)
  from step_inv [OF Cons.prems] have "inv (fst (step s e))" .
  from Cons.IH [OF this] show ?case by simp
qed

text \<open>The invariant holds at every intermediate state of a run, not only at its end.\<close>

lemma run_inv_prefix:
  "inv s \<Longrightarrow> inv (fst (run_machine step s (take n es)))"
  by (rule run_inv)

end

text \<open>A contract for quantities that only grow: what \<open>stateful\<close> does for predicates,
  this locale does for a preorder between the state before and after a run.\<close>

locale monotone_machine =
  fixes step :: "'s \<Rightarrow> 'e \<Rightarrow> 's \<times> 'o list"
    and rel :: "'s \<Rightarrow> 's \<Rightarrow> bool"
  assumes rel_refl: "rel s s"
    and rel_trans: "rel s t \<Longrightarrow> rel t u \<Longrightarrow> rel s u"
    and step_rel: "rel s (fst (step s e))"
begin

lemma run_rel: "rel s (fst (run_machine step s es))"
proof (induction es arbitrary: s)
  case Nil
  show ?case by (simp add: rel_refl)
next
  case (Cons e es)
  have "rel s (fst (step s e))" by (rule step_rel)
  moreover have "rel (fst (step s e)) (fst (run_machine step (fst (step s e)) es))"
    by (rule Cons.IH)
  ultimately show ?case by (auto intro: rel_trans)
qed

end

section \<open>Lists\<close>

lemma sum_list_map_nonneg: "(\<And>x. 0 \<le> f x) \<Longrightarrow> (0::int) \<le> sum_list (map f xs)"
  by (induction xs) (auto intro: add_nonneg_nonneg)

lemma sum_list_map_filter_le:
  "(\<And>x. 0 \<le> f x) \<Longrightarrow> sum_list (map f (filter P xs)) \<le> (sum_list (map f xs) :: int)"
  by (induction xs) (auto intro: add_increasing)

lemma length_filter_Cons_less: "\<not> P x \<Longrightarrow> x \<in> set xs \<Longrightarrow> length (filter P xs) < length xs"
  by (rule length_filter_less)

end
