(* ===== verification/JsString.thy ===== *)
theory JsString
  imports Prelude
begin

text \<open>
  JavaScript strings: sequences of 16-bit code units. The theory models what the source
  uses of them: iteration by code point, \<open>TextEncoder.encode\<close> (through the byte length
  it yields) and \<open>truncateUtf8\<close> of \<open>src/common/ride-codex-events.ts\<close>.
\<close>

section \<open>Code units and literals\<close>

type_synonym jsstr = "16 word list"
type_synonym byte = "8 word"

definition js :: "string \<Rightarrow> jsstr" where
  "js s = map (\<lambda>c. word_of_nat (of_char c)) s"

lemma unat_js_unit [simp]: "unat (word_of_nat (of_char c) :: 16 word) = of_char c"
proof -
  have "(of_char c :: nat) < 256" by (rule nat_of_char_less_256)
  then have "(of_char c :: nat) < 65536" by linarith
  then show ?thesis by (simp add: unat_of_nat del: of_nat_of_char)
qed

lemma js_unit_eq_iff: "(word_of_nat (of_char c) :: 16 word) = word_of_nat (of_char d) \<longleftrightarrow> c = d"
proof
  assume "(word_of_nat (of_char c) :: 16 word) = word_of_nat (of_char d)"
  then have "unat (word_of_nat (of_char c) :: 16 word) = unat (word_of_nat (of_char d) :: 16 word)"
    by simp
  then show "c = d" by (simp only: unat_js_unit of_char_eq_iff)
qed simp

lemma js_eq_iff [simp]: "js s = js t \<longleftrightarrow> s = t"
proof
  assume "js s = js t"
  then show "s = t"
    by (induction s arbitrary: t) (auto simp: js_def js_unit_eq_iff simp del: of_nat_of_char)
qed simp

lemma length_js [simp]: "length (js s) = length s"
  by (simp add: js_def)

lemma js_Nil_iff [simp]: "js s = [] \<longleftrightarrow> s = []" "[] = js s \<longleftrightarrow> s = []"
  by (auto simp: js_def)

definition is_high :: "16 word \<Rightarrow> bool" where
  "is_high c \<longleftrightarrow> 0xD800 \<le> unat c \<and> unat c < 0xDC00"

definition is_low :: "16 word \<Rightarrow> bool" where
  "is_low c \<longleftrightarrow> 0xDC00 \<le> unat c \<and> unat c < 0xE000"

section \<open>Code points\<close>

text \<open>The iteration \<open>for (const codePoint of value)\<close>: a high surrogate followed by a low
  one is one code point of two units, every other unit is one by itself.\<close>

fun code_points :: "jsstr \<Rightarrow> jsstr list" where
  "code_points [] = []"
| "code_points [c] = [[c]]"
| "code_points (h # l # r) =
     (if is_high h \<and> is_low l then [h, l] # code_points r else [h] # code_points (l # r))"

definition byte_of :: "nat \<Rightarrow> byte" where
  "byte_of n = word_of_nat n"

text \<open>The UTF-8 bytes of one code point. A lone surrogate is encoded as U+FFFD.\<close>

fun utf8_code_point :: "jsstr \<Rightarrow> byte list" where
  "utf8_code_point [] = []"
| "utf8_code_point [c] =
     (let n = unat c in
      if n < 0x80 then [byte_of n]
      else if n < 0x800 then [byte_of (0xC0 + n div 64), byte_of (0x80 + n mod 64)]
      else if is_high c \<or> is_low c then [0xEF, 0xBF, 0xBD]
      else [byte_of (0xE0 + n div 4096), byte_of (0x80 + n div 64 mod 64), byte_of (0x80 + n mod 64)])"
| "utf8_code_point (h # l # _) =
     (let n = 0x10000 + (unat h - 0xD800) * 1024 + (unat l - 0xDC00) in
      [byte_of (0xF0 + n div 262144), byte_of (0x80 + n div 4096 mod 64),
       byte_of (0x80 + n div 64 mod 64), byte_of (0x80 + n mod 64)])"

definition utf8_encode :: "jsstr \<Rightarrow> byte list" where
  "utf8_encode s = concat (map utf8_code_point (code_points s))"

definition utf8_byte_length :: "jsstr \<Rightarrow> int" where
  "utf8_byte_length s = int (length (utf8_encode s))"

fun truncate_loop :: "int \<Rightarrow> jsstr list \<Rightarrow> int \<Rightarrow> jsstr \<Rightarrow> jsstr" where
  "truncate_loop max_bytes [] used result = result"
| "truncate_loop max_bytes (cp # cps) used result =
     (let bytes = utf8_byte_length cp in
      if used + bytes > max_bytes then result
      else truncate_loop max_bytes cps (used + bytes) (result @ cp))"

definition truncate_utf8 :: "jsstr \<Rightarrow> int \<Rightarrow> jsstr" where
  "truncate_utf8 value max_bytes =
     (if utf8_byte_length value \<le> max_bytes then value
      else truncate_loop max_bytes (code_points value) 0 [])"

section \<open>Facts on code points\<close>

lemma concat_code_points [simp]: "concat (code_points s) = s"
  by (induction s rule: code_points.induct) auto

lemma code_points_Nil_iff [simp]: "code_points s = [] \<longleftrightarrow> s = []"
  by (cases s rule: code_points.cases) auto

text \<open>A piece of \<open>code_points\<close> is again one code point when it is iterated by itself.\<close>

definition code_point :: "jsstr \<Rightarrow> bool" where
  "code_point cp \<longleftrightarrow> code_points cp = [cp]"

lemma code_point_single [simp]: "code_point [c]"
  by (simp add: code_point_def)

lemma code_point_pair [simp]: "code_point [h, l] \<longleftrightarrow> is_high h \<and> is_low l"
  by (simp add: code_point_def)

lemma code_points_are_code_points: "cp \<in> set (code_points s) \<Longrightarrow> code_point cp"
  by (induction s rule: code_points.induct) (auto split: if_splits)

lemma is_high_not_low: "is_high c \<Longrightarrow> \<not> is_low c"
  by (simp add: is_high_def is_low_def)

lemma code_points_prefix:
  "code_points (concat (take k (code_points s))) = take k (code_points s)"
proof (induction s arbitrary: k rule: code_points.induct)
  case 1
  show ?case by simp
next
  case (2 c)
  show ?case by (cases k) auto
next
  case (3 h l r)
  show ?case
  proof (cases k)
    case 0
    then show ?thesis by simp
  next
    case (Suc j)
    show ?thesis
    proof (cases "is_high h \<and> is_low l")
      case True
      with "3.IH"(1) [OF True, of j] Suc show ?thesis by simp
    next
      case False
      let ?rest = "concat (take j (code_points (l # r)))"
      have IH: "code_points ?rest = take j (code_points (l # r))"
        using "3.IH"(2) [OF False, of j] .
      have hd_rest: "hd ?rest = l" if "?rest \<noteq> []"
        using that by (cases j; cases r) (auto split: if_splits)
      have "code_points (h # ?rest) = [h] # code_points ?rest"
      proof (cases ?rest)
        case Nil
        then show ?thesis by (simp only: Nil code_points.simps)
      next
        case (Cons x t)
        with hd_rest have "x = l" by simp
        with Cons False show ?thesis by auto
      qed
      with IH False Suc show ?thesis by auto
    qed
  qed
qed

section \<open>Byte lengths\<close>

lemma utf8_code_point_pos: "cp \<noteq> [] \<Longrightarrow> 0 < length (utf8_code_point cp)"
  by (cases cp rule: utf8_code_point.cases) (auto simp: Let_def)

lemma utf8_code_point_max: "length (utf8_code_point cp) \<le> 4"
  by (cases cp rule: utf8_code_point.cases) (auto simp: Let_def)

lemma utf8_byte_length_Nil [simp]: "utf8_byte_length [] = 0"
  by (simp add: utf8_byte_length_def utf8_encode_def)

lemma utf8_byte_length_nonneg [simp]: "0 \<le> utf8_byte_length s"
  by (simp add: utf8_byte_length_def)

lemma utf8_byte_length_code_point:
  "code_point cp \<Longrightarrow> utf8_byte_length cp = int (length (utf8_code_point cp))"
  by (simp add: utf8_byte_length_def utf8_encode_def code_point_def)

lemma utf8_byte_length_sum:
  "utf8_byte_length s = (\<Sum>cp\<leftarrow>code_points s. int (length (utf8_code_point cp)))"
  by (simp add: utf8_byte_length_def utf8_encode_def length_concat o_def flip: sum_list_of_nat)

lemma utf8_byte_length_0_iff [simp]: "utf8_byte_length s = 0 \<longleftrightarrow> s = []"
proof
  assume len: "utf8_byte_length s = 0"
  show "s = []"
  proof (rule ccontr)
    assume "s \<noteq> []"
    then obtain cp cps where cps: "code_points s = cp # cps"
      by (cases "code_points s") auto
    then have "code_point cp" using code_points_are_code_points [of cp s] by simp
    then have "cp \<noteq> []" by (auto simp: code_point_def)
    with len cps show False
      using utf8_code_point_pos [of cp]
      by (auto simp add: utf8_byte_length_def utf8_encode_def simp del: length_greater_0_conv)
  qed
qed simp

lemma utf8_byte_length_pos [simp]: "0 < utf8_byte_length s \<longleftrightarrow> s \<noteq> []"
  using utf8_byte_length_nonneg [of s] utf8_byte_length_0_iff [of s] by linarith

lemma utf8_byte_length_le_0 [simp]: "utf8_byte_length s \<le> 0 \<longleftrightarrow> s = []"
  using utf8_byte_length_nonneg [of s] utf8_byte_length_0_iff [of s] by linarith

text \<open>ASCII text takes one byte per unit.\<close>

definition ascii :: "jsstr \<Rightarrow> bool" where
  "ascii s \<longleftrightarrow> (\<forall>c \<in> set s. unat c < 0x80)"

lemma code_points_ascii: "ascii s \<Longrightarrow> code_points s = map (\<lambda>c. [c]) s"
proof (induction s rule: code_points.induct)
  case (3 h l r)
  then have "\<not> is_high h" by (simp add: ascii_def is_high_def)
  with 3 show ?case by (simp add: ascii_def)
qed simp_all

lemma utf8_byte_length_ascii: "ascii s \<Longrightarrow> utf8_byte_length s = int (length s)"
proof -
  assume s: "ascii s"
  then have "length (concat (map utf8_code_point (map (\<lambda>c. [c]) s))) = length s"
    by (induction s) (auto simp: ascii_def Let_def)
  with s show ?thesis
    by (simp add: utf8_byte_length_def utf8_encode_def code_points_ascii)
qed

section \<open>Truncation\<close>

lemma utf8_byte_length_prefix:
  "utf8_byte_length (concat (take k (code_points s))) =
     (\<Sum>cp\<leftarrow>take k (code_points s). utf8_byte_length cp)"
proof -
  have "(\<Sum>cp\<leftarrow>take k (code_points s). int (length (utf8_code_point cp))) =
        (\<Sum>cp\<leftarrow>take k (code_points s). utf8_byte_length cp)"
    by (rule arg_cong [where f = sum_list], rule map_cong [OF refl])
       (auto dest!: in_set_takeD code_points_are_code_points simp: utf8_byte_length_code_point)
  then show ?thesis
    by (simp add: utf8_byte_length_sum [of "concat (take k (code_points s))"] code_points_prefix)
qed

lemma truncate_loop_spec:
  "\<exists>k \<le> length cps. truncate_loop m cps used res = res @ concat (take k cps)
     \<and> (0 < k \<longrightarrow> used + (\<Sum>cp\<leftarrow>take k cps. utf8_byte_length cp) \<le> m)
     \<and> (k < length cps \<longrightarrow> m < used + (\<Sum>cp\<leftarrow>take (Suc k) cps. utf8_byte_length cp))"
proof (induction cps arbitrary: used res)
  case Nil
  show ?case by simp
next
  case (Cons cp cps)
  show ?case
  proof (cases "used + utf8_byte_length cp > m")
    case True
    then show ?thesis by (intro exI [of _ 0]) simp
  next
    case False
    from Cons.IH [of "used + utf8_byte_length cp" "res @ cp"] obtain k where k:
      "k \<le> length cps"
      "truncate_loop m cps (used + utf8_byte_length cp) (res @ cp) = (res @ cp) @ concat (take k cps)"
      "0 < k \<longrightarrow> used + utf8_byte_length cp + (\<Sum>cp\<leftarrow>take k cps. utf8_byte_length cp) \<le> m"
      "k < length cps \<longrightarrow>
         m < used + utf8_byte_length cp + (\<Sum>cp\<leftarrow>take (Suc k) cps. utf8_byte_length cp)"
      by auto
    with False show ?thesis
      by (intro exI [of _ "Suc k"]) (cases k; simp add: add.assoc)
  qed
qed

text \<open>What \<open>truncateUtf8\<close> computes: the longest run of leading code points that fits.\<close>

lemma truncate_utf8_spec:
  obtains k where "k \<le> length (code_points s)"
    and "truncate_utf8 s m = concat (take k (code_points s))"
    and "k < length (code_points s) \<Longrightarrow>
           m < utf8_byte_length (concat (take (Suc k) (code_points s)))"
    and "0 \<le> m \<Longrightarrow> utf8_byte_length (truncate_utf8 s m) \<le> m"
proof (cases "utf8_byte_length s \<le> m")
  case True
  then show thesis
    using that [of "length (code_points s)"] by (simp add: truncate_utf8_def)
next
  case False
  from truncate_loop_spec [where cps = "code_points s" and m = m and used = 0 and res = "[]"]
  obtain k where k: "k \<le> length (code_points s)"
      "truncate_loop m (code_points s) 0 [] = concat (take k (code_points s))"
      "0 < k \<longrightarrow> (\<Sum>cp\<leftarrow>take k (code_points s). utf8_byte_length cp) \<le> m"
      "k < length (code_points s) \<longrightarrow>
         m < (\<Sum>cp\<leftarrow>take (Suc k) (code_points s). utf8_byte_length cp)"
    by auto
  with False show thesis
    by (intro that [of k]) (cases k; simp add: truncate_utf8_def utf8_byte_length_prefix)+
qed

lemma truncate_utf8_length [bounds_simps]: "0 \<le> m \<Longrightarrow> utf8_byte_length (truncate_utf8 s m) \<le> m"
  by (rule truncate_utf8_spec [of s m]) simp

lemma truncate_utf8_negative: "m < 0 \<Longrightarrow> truncate_utf8 s m = []"
proof -
  assume m: "m < 0"
  then have less: "m < utf8_byte_length t" for t
    using utf8_byte_length_nonneg [of t] by linarith
  then have "\<not> utf8_byte_length s \<le> m" by (simp add: not_le)
  with less show ?thesis
    by (cases "code_points s") (auto simp: truncate_utf8_def Let_def)
qed

lemma truncate_utf8_id: "utf8_byte_length s \<le> m \<Longrightarrow> truncate_utf8 s m = s"
  by (simp add: truncate_utf8_def)

lemma truncate_utf8_prefix: "\<exists>t. s = truncate_utf8 s m @ t"
proof (rule truncate_utf8_spec [of s m])
  fix k
  assume "truncate_utf8 s m = concat (take k (code_points s))"
  then have "truncate_utf8 s m @ concat (drop k (code_points s)) = s"
    by (simp flip: concat_append)
  then show ?thesis by metis
qed

lemma truncate_utf8_Nil [simp]: "truncate_utf8 [] m = []"
  by (simp add: truncate_utf8_def)

lemma truncate_utf8_le: "utf8_byte_length (truncate_utf8 s m) \<le> utf8_byte_length s"
proof (cases "utf8_byte_length s \<le> m")
  case True
  then show ?thesis by (simp add: truncate_utf8_def)
next
  case False
  show ?thesis
  proof (cases "0 \<le> m")
    case True
    from truncate_utf8_length [OF True, of s] False show ?thesis by linarith
  next
    case False
    then show ?thesis by (simp add: truncate_utf8_negative)
  qed
qed

lemma truncate_utf8_changed_iff:
  "0 \<le> m \<Longrightarrow> truncate_utf8 s m = s \<longleftrightarrow> utf8_byte_length s \<le> m"
  using truncate_utf8_length [of m s] by (auto simp: truncate_utf8_def)

end
