(* ===== verification/JsNumber.thy ===== *)
theory JsNumber
  imports Complex_Main JsString
begin

text \<open>
  JavaScript numbers as the source meets them in JSON data: doubles, rounding of decimal
  literals to the nearest double, and \<open>Number::toString\<close> (the shortest decimal that reads
  back). The digit facts serve the JSON round trip of theory \<open>Json\<close>.
\<close>

section \<open>Numbers\<close>

text \<open>
  A Number that JSON text can denote: an integer valued double, a double with a fractional
  part, or an infinity (from a literal beyond the range). Negative zero is not told apart
  from zero: no operation of the modelled code distinguishes them (\<open>===\<close>, \<open>Map\<close> keys,
  comparisons and \<open>JSON.stringify\<close> all identify them).
\<close>

datatype jsnum = NInt int | NFrac rat | NInf bool

definition is_safe_integer :: "jsnum \<Rightarrow> bool" where
  "is_safe_integer n = (case n of NInt i \<Rightarrow> safe_int i | _ \<Rightarrow> False)"

definition is_finite_number :: "jsnum \<Rightarrow> bool" where
  "is_finite_number n = (case n of NInf _ \<Rightarrow> False | _ \<Rightarrow> True)"

fun floor_log :: "nat \<Rightarrow> nat \<Rightarrow> nat" where
  "floor_log b n = (if n < b \<or> b < 2 then 0 else Suc (floor_log b (n div b)))"

declare floor_log.simps [simp del]

definition rat_power :: "nat \<Rightarrow> int \<Rightarrow> rat" where
  "rat_power b k = (if 0 \<le> k then of_nat b ^ nat k else 1 / of_nat b ^ nat (- k))"

text \<open>The largest power of the base below a positive rational.\<close>

definition rat_floor_log :: "nat \<Rightarrow> rat \<Rightarrow> int" where
  "rat_floor_log b q =
     (case quotient_of q of (n, d) \<Rightarrow>
        let k = int (floor_log b (nat n)) - int (floor_log b (nat d))
        in if rat_power b k \<le> q then k else k - 1)"

definition round_half_even :: "rat \<Rightarrow> int" where
  "round_half_even q =
     (let f = \<lfloor>q\<rfloor>; r = q - of_int f in
      if r < 1 / 2 then f else if 1 / 2 < r then f + 1 else if even f then f else f + 1)"

definition number_of_rat :: "rat \<Rightarrow> jsnum" where
  "number_of_rat q = (case quotient_of q of (n, d) \<Rightarrow> if d = 1 then NInt n else NFrac q)"

text \<open>Rounding to the nearest double, ties to even.\<close>

definition round_double :: "rat \<Rightarrow> jsnum" where
  "round_double q =
     (if q = 0 then NInt 0
      else let e = max (rat_floor_log 2 \<bar>q\<bar> - 52) (- 1074);
               r = of_int (round_half_even (\<bar>q\<bar> / rat_power 2 e)) * rat_power 2 e
           in if rat_power 2 1024 \<le> r then NInf (0 < q) else number_of_rat (sgn q * r))"

section \<open>Decimal digits\<close>

definition digit_unit :: "nat \<Rightarrow> 16 word" where
  "digit_unit d = word_of_nat (48 + d)"

fun nat_digits :: "nat \<Rightarrow> jsstr" where
  "nat_digits n = (if n < 10 then [digit_unit n] else nat_digits (n div 10) @ [digit_unit (n mod 10)])"

declare nat_digits.simps [simp del]

definition is_digit :: "16 word \<Rightarrow> bool" where
  "is_digit c \<longleftrightarrow> 48 \<le> unat c \<and> unat c \<le> 57"

definition digits_value :: "jsstr \<Rightarrow> nat" where
  "digits_value ds = foldl (\<lambda>a d. 10 * a + (unat d - 48)) 0 ds"

lemma unat_digit_unit [simp]: "d < 10 \<Longrightarrow> unat (digit_unit d) = 48 + d"
  by (simp add: digit_unit_def unat_of_nat del: of_nat_add of_nat_Suc)

lemma is_digit_unit [simp]: "d < 10 \<Longrightarrow> is_digit (digit_unit d)"
  by (simp add: is_digit_def)

lemma nat_digits_digits: "c \<in> set (nat_digits n) \<Longrightarrow> is_digit c"
proof (induction n rule: nat_digits.induct)
  case (1 n)
  then show ?case by (subst (asm) nat_digits.simps) (auto split: if_splits)
qed

lemma nat_digits_nonempty [simp]: "nat_digits n \<noteq> []" "[] \<noteq> nat_digits n"
  by (subst nat_digits.simps; simp)+

lemma digits_value_nat_digits [simp]: "digits_value (nat_digits n) = n"
proof (induction n rule: nat_digits.induct)
  case (1 n)
  show ?case
  proof (cases "n < 10")
    case True
    then show ?thesis by (subst nat_digits.simps) (simp add: digits_value_def)
  next
    case False
    with "1.IH" have "digits_value (nat_digits (n div 10)) = n div 10" .
    with False show ?thesis
      by (subst nat_digits.simps) (simp add: digits_value_def)
  qed
qed

lemma hd_nat_digits: "hd (nat_digits n) = digit_unit 0 \<longleftrightarrow> n = 0"
proof (induction n rule: nat_digits.induct)
  case (1 n)
  show ?case
  proof (cases "n < 10")
    case True
    then have "digit_unit n = digit_unit 0 \<longleftrightarrow> n = 0"
      by (metis add_left_cancel less_numeral_extra(1) unat_digit_unit zero_less_numeral)
    with True show ?thesis by (subst nat_digits.simps) simp
  next
    case False
    with "1.IH" have "hd (nat_digits (n div 10)) = digit_unit 0 \<longleftrightarrow> n div 10 = 0" .
    with False show ?thesis by (subst nat_digits.simps) (simp add: hd_append)
  qed
qed

lemma length_nat_digits_1: "length (nat_digits n) = 1 \<longleftrightarrow> n < 10"
  by (subst nat_digits.simps) auto

section \<open>Number::toString\<close>

text \<open>
  The shortest decimal that reads back as the same double: \<open>k\<close> digits \<open>s\<close> with decimal
  point position \<open>n\<close>, the least \<open>k\<close> first. Seventeen digits always suffice for a double.
\<close>

definition decimal_candidate :: "rat \<Rightarrow> nat \<Rightarrow> nat \<times> int" where
  "decimal_candidate v k =
     (let n = rat_floor_log 10 v + 1;
          s = nat (round_half_even (v / rat_power 10 (n - int k)))
      in if s = 10 ^ k then (10 ^ (k - 1), n + 1) else (s, n))"

definition reads_back :: "rat \<Rightarrow> nat \<Rightarrow> nat \<times> int \<Rightarrow> bool" where
  "reads_back v k c =
     (case c of (s, n) \<Rightarrow> round_double (of_nat s * rat_power 10 (n - int k)) = number_of_rat v)"

fun shortest_decimal :: "rat \<Rightarrow> nat list \<Rightarrow> nat \<times> int" where
  "shortest_decimal v [] = decimal_candidate v 17"
| "shortest_decimal v (k # ks) =
     (if reads_back v k (decimal_candidate v k) then decimal_candidate v k
      else shortest_decimal v ks)"

definition format_decimal :: "nat \<Rightarrow> int \<Rightarrow> jsstr" where
  "format_decimal s n =
     (let ds = nat_digits s; k = int (length ds); e = n - 1 in
      if k \<le> n \<and> n \<le> 21 then ds @ replicate (nat (n - k)) (digit_unit 0)
      else if 0 < n \<and> n \<le> 21 then take (nat n) ds @ js ''.'' @ drop (nat n) ds
      else if - 6 < n \<and> n \<le> 0 then js ''0.'' @ replicate (nat (- n)) (digit_unit 0) @ ds
      else take 1 ds @ (if k = 1 then [] else js ''.'' @ drop 1 ds) @ js ''e'' @
           (if 0 \<le> e then js ''+'' else js ''-'') @ nat_digits (nat \<bar>e\<bar>))"

definition positive_to_string :: "rat \<Rightarrow> jsstr" where
  "positive_to_string v = (case shortest_decimal v [1..<18] of (s, n) \<Rightarrow> format_decimal s n)"

definition rat_to_string :: "rat \<Rightarrow> jsstr" where
  "rat_to_string v =
     (if v < 0 then js ''-'' @ positive_to_string (- v) else positive_to_string v)"

definition int_to_string :: "int \<Rightarrow> jsstr" where
  "int_to_string i = (if i < 0 then js ''-'' else []) @ nat_digits (nat \<bar>i\<bar>)"

text \<open>Safe integers print as their decimal digits, which is what the general rule gives.\<close>

definition json_number :: "jsnum \<Rightarrow> jsstr" where
  "json_number n =
     (case n of
        NInt i \<Rightarrow> if safe_int i then int_to_string i else rat_to_string (of_int i)
      | NFrac q \<Rightarrow> rat_to_string q
      | NInf _ \<Rightarrow> js ''null'')"

end
