(* ===== verification/Framer.thy ===== *)
theory Framer
  imports JsNumber
begin

text \<open>
  The line framer of the app server transport (\<open>src/node/ride-codex-jsonl-framer.ts\<close>): byte
  chunks in, complete lines out, with a bound on the line length. The abstract view of a
  framer is the text of its unfinished line; \<open>push\<close> refines splitting the whole byte stream
  at its newlines, so the lines do not depend on how the stream was cut into chunks.
\<close>

section \<open>The framer\<close>

record framer =
  max_line_bytes :: int
  buffered :: "byte list list"
  buffered_bytes :: int
  framer_failed :: bool

datatype framer_error =
    Invalid_Maximum
  | Framer_Closed
  | Line_Too_Long int

definition newline :: byte where "newline = 0x0A"
definition carriage_return :: byte where "carriage_return = 0x0D"

definition new_framer :: "jsnum \<Rightarrow> framer_error + framer" where
  "new_framer limit =
     (case limit of
        NInt n \<Rightarrow>
          if \<not> safe_int n \<or> n < 1 then Inl Invalid_Maximum
          else Inr \<lparr>max_line_bytes = n, buffered = [], buffered_bytes = 0, framer_failed = False\<rparr>
      | _ \<Rightarrow> Inl Invalid_Maximum)"

definition ends_with :: "byte \<Rightarrow> byte list \<Rightarrow> bool" where
  "ends_with b bs \<longleftrightarrow> bs \<noteq> [] \<and> last bs = b"

definition append_buffered :: "framer \<Rightarrow> byte list \<Rightarrow> framer_error + framer" where
  "append_buffered f segment =
     (if segment = [] then Inr f
      else
        let next_length = buffered_bytes f + int (length segment);
            checked = next_length - (if ends_with carriage_return segment then 1 else 0)
        in if checked > max_line_bytes f then Inl (Line_Too_Long (max_line_bytes f))
           else Inr (f\<lparr>buffered := buffered f @ [segment], buffered_bytes := next_length\<rparr>))"

definition ends_with_carriage_return :: "framer \<Rightarrow> bool" where
  "ends_with_carriage_return f =
     (buffered f \<noteq> [] \<and> ends_with carriage_return (last (buffered f)))"

text \<open>\<open>Buffer.concat(list, totalLength)\<close> cuts or zero-fills the result to the given length.\<close>

definition buffer_concat :: "byte list list \<Rightarrow> int \<Rightarrow> byte list" where
  "buffer_concat chunks total_length =
     take (nat total_length) (concat chunks) @ replicate (nat total_length - length (concat chunks)) 0"

definition join_buffered :: "framer \<Rightarrow> byte list" where
  "join_buffered f =
     (case buffered f of
        [] \<Rightarrow> []
      | [chunk] \<Rightarrow> chunk
      | chunks \<Rightarrow> buffer_concat chunks (buffered_bytes f))"

definition clear_buffered :: "framer \<Rightarrow> framer" where
  "clear_buffered f = f\<lparr>buffered := [], buffered_bytes := 0\<rparr>"

text \<open>The loop of \<open>push\<close> over the newlines of the chunk; \<open>lines\<close> is what was cut off so far.\<close>

function push_loop :: "framer \<Rightarrow> byte list \<Rightarrow> byte list list \<Rightarrow> framer_error + (byte list list \<times> framer)"
where
  "push_loop f bytes lines =
     (if newline \<in> set bytes then
        (let segment = takeWhile (\<lambda>b. b \<noteq> newline) bytes;
             rest = drop (Suc (length segment)) bytes
         in case append_buffered f segment of
              Inl e \<Rightarrow> Inl e
            | Inr f1 \<Rightarrow>
                (let raw_line = join_buffered f1;
                     line = (if ends_with_carriage_return f1
                             then take (length raw_line - 1) raw_line else raw_line)
                 in push_loop (clear_buffered f1) rest (lines @ [line])))
      else if bytes \<noteq> [] then
        (case append_buffered f bytes of Inl e \<Rightarrow> Inl e | Inr f1 \<Rightarrow> Inr (lines, f1))
      else Inr (lines, f))"
  by pat_completeness auto
termination
  by (relation "measure (\<lambda>(f, bytes, lines). length bytes)") (auto intro!: diff_less dest: length_pos_if_in_set)

declare push_loop.simps [simp del]

definition push :: "framer \<Rightarrow> byte list \<Rightarrow> (framer_error + byte list list) \<times> framer" where
  "push f chunk =
     (if framer_failed f then (Inl Framer_Closed, f)
      else case push_loop f chunk [] of
             Inl e \<Rightarrow> (Inl e, clear_buffered (f\<lparr>framer_failed := True\<rparr>))
           | Inr (lines, f') \<Rightarrow> (Inr lines, f'))"

text \<open>A transport delivers chunks one after the other until one of them throws.\<close>

fun push_all :: "framer \<Rightarrow> byte list list \<Rightarrow> (framer_error + byte list list) \<times> framer" where
  "push_all f [] = (Inr [], f)"
| "push_all f (chunk # chunks) =
     (case push f chunk of
        (Inl e, f') \<Rightarrow> (Inl e, f')
      | (Inr lines, f') \<Rightarrow>
          (case push_all f' chunks of
             (Inl e, f'') \<Rightarrow> (Inl e, f'')
           | (Inr lines', f'') \<Rightarrow> (Inr (lines @ lines'), f'')))"

section \<open>The abstract framing of a byte stream\<close>

fun split_lines :: "byte list \<Rightarrow> byte list \<Rightarrow> byte list list \<times> byte list" where
  "split_lines acc [] = ([], acc)"
| "split_lines acc (b # bs) =
     (if b = newline then (acc # fst (split_lines [] bs), snd (split_lines [] bs))
      else split_lines (acc @ [b]) bs)"

definition strip_cr :: "byte list \<Rightarrow> byte list" where
  "strip_cr line = (if ends_with carriage_return line then butlast line else line)"

definition fits :: "int \<Rightarrow> byte list \<Rightarrow> bool" where
  "fits limit line \<longleftrightarrow> int (length (strip_cr line)) \<le> limit"

definition unfinished :: "framer \<Rightarrow> byte list" where
  "unfinished f = concat (buffered f)"

definition framer_ok :: "framer \<Rightarrow> bool" where
  "framer_ok f \<longleftrightarrow>
     buffered_bytes f = int (length (unfinished f)) \<and> [] \<notin> set (buffered f) \<and>
     newline \<notin> set (unfinished f) \<and> fits (max_line_bytes f) (unfinished f)"

section \<open>Buffer facts\<close>

lemma ends_with_append [simp]: "ends_with b (xs @ ys) = (if ys = [] then ends_with b xs else ends_with b ys)"
  by (simp add: ends_with_def)

lemma strip_cr_length: "int (length (strip_cr l)) = int (length l) - (if ends_with carriage_return l then 1 else 0)"
  by (auto simp: strip_cr_def ends_with_def neq_Nil_conv of_nat_diff)

lemma last_concat: "xss \<noteq> [] \<Longrightarrow> [] \<notin> set xss \<Longrightarrow> concat xss \<noteq> [] \<and> last (concat xss) = last (last xss)"
  by (induction xss rule: rev_induct) auto

lemma ends_with_unfinished:
  "framer_ok f \<Longrightarrow> ends_with_carriage_return f \<longleftrightarrow> ends_with carriage_return (unfinished f)"
proof (cases "buffered f = []")
  case True
  then show ?thesis by (simp add: ends_with_carriage_return_def ends_with_def unfinished_def)
next
  case False
  assume "framer_ok f"
  then have nonempty: "[] \<notin> set (buffered f)" by (simp add: framer_ok_def)
  with False have "last (buffered f) \<noteq> []" using last_in_set by metis
  moreover have "concat (buffered f) \<noteq> []" "last (concat (buffered f)) = last (last (buffered f))"
    using last_concat [OF False nonempty] by simp_all
  moreover note False
  ultimately show ?thesis
    by (simp add: ends_with_carriage_return_def ends_with_def unfinished_def del: concat_eq_Nil_conv)
qed

lemma join_buffered_eq: "framer_ok f \<Longrightarrow> join_buffered f = unfinished f"
  by (auto simp: framer_ok_def join_buffered_def buffer_concat_def unfinished_def split: list.splits)

lemma append_buffered_spec:
  assumes "framer_ok f" "newline \<notin> set segment"
  shows "append_buffered f segment =
     (if fits (max_line_bytes f) (unfinished f @ segment)
      then Inr (f\<lparr>buffered := buffered f @ (if segment = [] then [] else [segment]),
                  buffered_bytes := buffered_bytes f + int (length segment)\<rparr>)
      else Inl (Line_Too_Long (max_line_bytes f)))"
  using assms by (auto simp: append_buffered_def framer_ok_def fits_def strip_cr_length Let_def)

lemma framer_ok_append:
  assumes "framer_ok f" "newline \<notin> set segment" "append_buffered f segment = Inr f'"
  shows "framer_ok f'" "unfinished f' = unfinished f @ segment"
    "max_line_bytes f' = max_line_bytes f" "framer_failed f' = framer_failed f"
  using assms
  by (auto simp: append_buffered_spec framer_ok_def unfinished_def split: if_splits)

section \<open>push refines the abstract framing\<close>

lemma split_lines_newline:
  "newline \<in> set bytes \<Longrightarrow>
     split_lines acc bytes =
       ((acc @ takeWhile (\<lambda>b. b \<noteq> newline) bytes)
          # fst (split_lines [] (drop (Suc (length (takeWhile (\<lambda>b. b \<noteq> newline) bytes))) bytes)),
        snd (split_lines [] (drop (Suc (length (takeWhile (\<lambda>b. b \<noteq> newline) bytes))) bytes)))"
  by (induction bytes arbitrary: acc) (auto simp: split_def)

lemma split_lines_no_newline: "newline \<notin> set bytes \<Longrightarrow> split_lines acc bytes = ([], acc @ bytes)"
  by (induction bytes arbitrary: acc) auto

lemma split_lines_append:
  "split_lines acc (xs @ ys) =
     (fst (split_lines acc xs) @ fst (split_lines (snd (split_lines acc xs)) ys),
      snd (split_lines (snd (split_lines acc xs)) ys))"
  by (induction xs arbitrary: acc) (auto simp: split_def)

lemma framer_ok_clear:
  "framer_ok f \<Longrightarrow> framer_ok (clear_buffered f)" "unfinished (clear_buffered f) = []"
  "max_line_bytes (clear_buffered f) = max_line_bytes f"
  "framer_failed (clear_buffered f) = framer_failed f"
  by (auto simp: framer_ok_def clear_buffered_def unfinished_def fits_def strip_cr_def ends_with_def)

definition all_fit :: "int \<Rightarrow> byte list list \<times> byte list \<Rightarrow> bool" where
  "all_fit limit split \<longleftrightarrow> list_all (fits limit) (fst split) \<and> fits limit (snd split)"

lemma push_loop_spec:
  "framer_ok f \<Longrightarrow>
     (if all_fit (max_line_bytes f) (split_lines (unfinished f) bytes)
      then \<exists>f'. push_loop f bytes lines =
                  Inr (lines @ map strip_cr (fst (split_lines (unfinished f) bytes)), f')
             \<and> framer_ok f' \<and> unfinished f' = snd (split_lines (unfinished f) bytes)
             \<and> max_line_bytes f' = max_line_bytes f \<and> framer_failed f' = framer_failed f
      else push_loop f bytes lines = Inl (Line_Too_Long (max_line_bytes f)))"
proof (induction f bytes lines rule: push_loop.induct)
  case (1 f bytes lines)
  show ?case
  proof (cases "newline \<in> set bytes")
    case True
    let ?seg = "takeWhile (\<lambda>b. b \<noteq> newline) bytes"
    let ?rest = "drop (Suc (length ?seg)) bytes"
    have seg: "newline \<notin> set ?seg" by (auto dest: set_takeWhileD)
    show ?thesis
    proof (cases "fits (max_line_bytes f) (unfinished f @ ?seg)")
      case False
      with "1.prems" seg True show ?thesis
        by (subst push_loop.simps)
          (simp add: append_buffered_spec split_lines_newline all_fit_def)
    next
      case fit: True
      then obtain f1 where f1: "append_buffered f ?seg = Inr f1"
        using append_buffered_spec [OF "1.prems" seg] by simp
      note ok = framer_ok_append [OF "1.prems" seg f1]
      note cleared = framer_ok_clear [of f1]
      have line: "(if ends_with_carriage_return f1
          then take (length (join_buffered f1) - 1) (join_buffered f1) else join_buffered f1)
          = strip_cr (unfinished f @ ?seg)"
        using ok by (simp add: join_buffered_eq ends_with_unfinished strip_cr_def butlast_conv_take)
      let ?lines = "lines @ [strip_cr (unfinished f @ ?seg)]"
      have step: "push_loop f bytes lines = push_loop (clear_buffered f1) ?rest ?lines"
        using True f1 line by (subst push_loop.simps) (simp add: Let_def)
      have "if all_fit (max_line_bytes f) (split_lines [] ?rest)
        then \<exists>f'. push_loop (clear_buffered f1) ?rest ?lines =
                    Inr (?lines @ map strip_cr (fst (split_lines [] ?rest)), f')
               \<and> framer_ok f' \<and> unfinished f' = snd (split_lines [] ?rest)
               \<and> max_line_bytes f' = max_line_bytes f \<and> framer_failed f' = framer_failed f
        else push_loop (clear_buffered f1) ?rest ?lines = Inl (Line_Too_Long (max_line_bytes f))"
        using "1.IH" [OF True refl refl f1 refl refl cleared(1) [OF ok(1)]]
        unfolding line cleared ok(3,4) .
      with step True fit show ?thesis
        by (cases "all_fit (max_line_bytes f) (split_lines [] ?rest)")
          (auto simp: split_lines_newline all_fit_def)
    qed
  next
    case False
    have step: "push_loop f bytes lines =
        (case append_buffered f bytes of Inl e \<Rightarrow> Inl e | Inr f1 \<Rightarrow> Inr (lines, f1))"
      using False by (subst push_loop.simps) (simp add: append_buffered_def)
    show ?thesis
    proof (cases "fits (max_line_bytes f) (unfinished f @ bytes)")
      case True
      then obtain f1 where f1: "append_buffered f bytes = Inr f1"
        using append_buffered_spec [OF "1.prems" False] by simp
      with step True False show ?thesis
        using framer_ok_append [OF "1.prems" False f1]
        by (simp add: split_lines_no_newline all_fit_def)
    next
      case unfit: False
      with step False "1.prems" show ?thesis
        by (simp add: split_lines_no_newline all_fit_def append_buffered_spec)
    qed
  qed
qed

lemma push_spec:
  assumes "framer_ok f" "\<not> framer_failed f"
  shows "if all_fit (max_line_bytes f) (split_lines (unfinished f) chunk)
    then \<exists>f'. push f chunk = (Inr (map strip_cr (fst (split_lines (unfinished f) chunk))), f')
           \<and> framer_ok f' \<and> unfinished f' = snd (split_lines (unfinished f) chunk)
           \<and> max_line_bytes f' = max_line_bytes f \<and> \<not> framer_failed f'
    else push f chunk = (Inl (Line_Too_Long (max_line_bytes f)), clear_buffered (f\<lparr>framer_failed := True\<rparr>))"
  using push_loop_spec [OF assms(1), of chunk "[]"] assms(2)
  by (auto simp: push_def split: if_splits)

section \<open>Whole streams\<close>

lemma fits_prefix: "fits limit (r @ s) \<Longrightarrow> fits limit r"
  by (cases "s = []") (auto simp: fits_def strip_cr_length neq_Nil_conv split: if_splits)

lemma all_fit_accumulator: "all_fit limit (split_lines acc bytes) \<Longrightarrow> fits limit acc"
  by (cases "newline \<in> set bytes")
    (auto simp: split_lines_newline split_lines_no_newline all_fit_def dest: fits_prefix)

lemma all_fit_append:
  "all_fit limit (split_lines acc (xs @ ys)) \<longleftrightarrow>
     all_fit limit (split_lines acc xs) \<and> all_fit limit (split_lines (snd (split_lines acc xs)) ys)"
  using all_fit_accumulator [of limit "snd (split_lines acc xs)" ys]
  by (auto simp: split_lines_append all_fit_def)

lemma push_all_spec:
  "framer_ok f \<Longrightarrow> \<not> framer_failed f \<Longrightarrow>
     fst (push_all f chunks) =
       (if all_fit (max_line_bytes f) (split_lines (unfinished f) (concat chunks))
        then Inr (map strip_cr (fst (split_lines (unfinished f) (concat chunks))))
        else Inl (Line_Too_Long (max_line_bytes f)))"
proof (induction chunks arbitrary: f)
  case Nil
  then show ?case by (simp add: all_fit_def framer_ok_def)
next
  case (Cons chunk chunks)
  show ?case
  proof (cases "all_fit (max_line_bytes f) (split_lines (unfinished f) chunk)")
    case False
    with push_spec [OF Cons.prems, of chunk] show ?thesis by (simp add: all_fit_append)
  next
    case True
    with push_spec [OF Cons.prems, of chunk] obtain f' where f':
      "push f chunk = (Inr (map strip_cr (fst (split_lines (unfinished f) chunk))), f')"
      "framer_ok f'" "unfinished f' = snd (split_lines (unfinished f) chunk)"
      "max_line_bytes f' = max_line_bytes f" "\<not> framer_failed f'"
      by auto
    show ?thesis
      using Cons.IH [OF f'(2,5)] True f' all_fit_append [of "max_line_bytes f" "unfinished f" chunk "concat chunks"]
      by (cases "push_all f' chunks") (simp add: split_lines_append split: sum.splits)
  qed
qed

lemma new_framer_ok:
  "new_framer limit = Inr f \<Longrightarrow>
     framer_ok f \<and> \<not> framer_failed f \<and> unfinished f = [] \<and> limit = NInt (max_line_bytes f) \<and> 0 < max_line_bytes f"
  by (auto simp: new_framer_def framer_ok_def unfinished_def fits_def strip_cr_def ends_with_def
      split: jsnum.splits if_splits)

section \<open>The framer as an event driven component\<close>

definition framer_step :: "framer \<Rightarrow> byte list \<Rightarrow> framer \<times> (framer_error + byte list list) list" where
  "framer_step f chunk = (snd (push f chunk), [fst (push f chunk)])"

definition framer_inv :: "int \<Rightarrow> framer \<Rightarrow> bool" where
  "framer_inv limit f \<longleftrightarrow> framer_ok f \<and> max_line_bytes f = limit"

lemma framer_inv_step: "framer_inv m f \<Longrightarrow> framer_inv m (fst (framer_step f chunk))"
proof (cases "framer_failed f")
  case True
  then show "framer_inv m f \<Longrightarrow> ?thesis" by (simp add: framer_step_def push_def)
next
  case False
  assume inv: "framer_inv m f"
  then have ok: "framer_ok f" by (simp add: framer_inv_def)
  then have "framer_inv m (clear_buffered (f\<lparr>framer_failed := True\<rparr>))"
    using framer_ok_clear(1) [of f] inv
    by (simp add: framer_inv_def framer_ok_def clear_buffered_def unfinished_def)
  with inv show ?thesis
    using push_spec [OF ok False, of chunk]
    by (auto simp: framer_step_def framer_inv_def split: if_splits)
qed

interpretation framer: stateful framer_step "framer_inv limit" for limit
  by unfold_locales (rule framer_inv_step)

text \<open>Once a framer has thrown, it yields no line any more.\<close>

lemma push_failed: "framer_failed f \<Longrightarrow> push f chunk = (Inl Framer_Closed, f)"
  by (simp add: push_def)

lemma push_error_fails: "fst (push f chunk) = Inl e \<Longrightarrow> framer_failed (snd (push f chunk))"
  by (auto simp: push_def clear_buffered_def split: if_splits sum.splits)

section \<open>Properties\<close>

text \<open>C1. Framing does not depend on how the transport cuts the byte stream: a fresh framer fed
  any chunks yields exactly the lines of the concatenated stream, each without its newline and
  one trailing carriage return, provided that every line and the unfinished rest fit the limit;
  otherwise it throws the length error.\<close>

theorem framer_stream:
  assumes "new_framer limit = Inr f"
  shows "fst (push_all f chunks) =
    (if all_fit (max_line_bytes f) (split_lines [] (concat chunks))
     then Inr (map strip_cr (fst (split_lines [] (concat chunks))))
     else Inl (Line_Too_Long (max_line_bytes f)))"
  using new_framer_ok [OF assms] push_all_spec [of f chunks] by simp

theorem framer_stream_witness:
  "\<exists>f. new_framer (NInt 4) = Inr f \<and>
     fst (push_all f [[0x61], [0x62, 0x0D], [0x0A, 0x63]]) = Inr [[0x61, 0x62]]"
proof -
  obtain f where f: "new_framer (NInt 4) = Inr f" "max_line_bytes f = 4"
    by (simp add: new_framer_def safe_int_def max_safe_integer_def)
  have "all_fit 4 (split_lines [] (concat [[0x61], [0x62, 0x0D], [0x0A, 0x63]]))"
    "map strip_cr (fst (split_lines [] (concat [[0x61], [0x62, 0x0D], [0x0A, 0x63]]))) = [[0x61, 0x62]]"
    by (simp_all add: all_fit_def fits_def strip_cr_def ends_with_def newline_def carriage_return_def)
  with f framer_stream [OF f(1), of "[[0x61], [0x62, 0x0D], [0x0A, 0x63]]"]
  show ?thesis by auto
qed

text \<open>The framer never buffers more than the limit and one carriage return: whatever chunks
  arrive, the unfinished line stays within \<open>maxLineBytes + 1\<close> bytes, and the byte counter is the
  number of bytes buffered.\<close>

theorem framer_memory_bound:
  assumes "new_framer limit = Inr f"
  shows "buffered_bytes (fst (run_machine framer_step f chunks)) =
       int (length (concat (buffered (fst (run_machine framer_step f chunks))))) \<and>
     buffered_bytes (fst (run_machine framer_step f chunks)) \<le> max_line_bytes f + 1"
proof -
  have "framer_inv (max_line_bytes f) (fst (run_machine framer_step f chunks))"
    using new_framer_ok [OF assms] by (intro framer.run_inv) (simp add: framer_inv_def)
  then show ?thesis
    by (auto simp: framer_inv_def framer_ok_def fits_def unfinished_def strip_cr_length
        simp del: length_concat split: if_splits)
qed

theorem framer_memory_bound_witness:
  "\<exists>f. new_framer (NInt 2) = Inr f \<and>
     buffered_bytes (fst (run_machine framer_step f [[0x61, 0x62], [0x0D]])) \<le> 3"
proof -
  obtain f where f: "new_framer (NInt 2) = Inr f" "max_line_bytes f = 2"
    by (simp add: new_framer_def safe_int_def max_safe_integer_def)
  with framer_memory_bound [OF f(1), of "[[0x61, 0x62], [0x0D]]"] show ?thesis by auto
qed

text \<open>A framing error is final: after a push that threw, every further push throws the closed
  error and leaves the framer as it is.\<close>

theorem framer_error_final:
  assumes "fst (push f chunk) = Inl e"
  shows "push (snd (push f chunk)) next_chunk = (Inl Framer_Closed, snd (push f chunk))"
  using push_error_fails [OF assms] by (rule push_failed)

theorem framer_error_final_witness:
  "\<exists>f e. new_framer (NInt 1) = Inr f \<and> fst (push f [0x61, 0x62]) = Inl e \<and>
     fst (push (snd (push f [0x61, 0x62])) [0x0A]) = Inl Framer_Closed"
proof -
  obtain f where f: "new_framer (NInt 1) = Inr f" "max_line_bytes f = 1" "\<not> framer_failed f"
      "buffered_bytes f = 0"
    by (simp add: new_framer_def safe_int_def max_safe_integer_def)
  then have "fst (push f [0x61, 0x62]) = Inl (Line_Too_Long 1)"
    by (subst push_def, subst push_loop.simps)
      (simp add: newline_def append_buffered_def ends_with_def carriage_return_def)
  with f framer_error_final [OF this, of "[0x0A]"] show ?thesis by auto
qed

end
