(* ===== verification/Utf8.thy ===== *)
theory Utf8
  imports JsString
begin

text \<open>
  \<open>new TextDecoder('utf-8', { fatal: true }).decode(bytes)\<close>: ill-formed input throws (None),
  and one leading byte order mark is dropped. Decoding inverts \<open>utf8_encode\<close> on well-formed
  strings.
\<close>

definition cont :: "byte \<Rightarrow> bool" where
  "cont b \<longleftrightarrow> 0x80 \<le> unat b \<and> unat b < 0xC0"

definition unit_of :: "nat \<Rightarrow> 16 word" where
  "unit_of n = word_of_nat n"

text \<open>The UTF-16 form of a code point above the basic plane.\<close>

definition surrogates :: "nat \<Rightarrow> jsstr" where
  "surrogates n = [unit_of (0xD800 + (n - 0x10000) div 1024), unit_of (0xDC00 + (n - 0x10000) mod 1024)]"

fun utf8_decode_units :: "byte list \<Rightarrow> jsstr option" where
  "utf8_decode_units [] = Some []"
| "utf8_decode_units (b # bs) =
     (let n = unat b in
      if n < 0x80 then map_option (\<lambda>s. unit_of n # s) (utf8_decode_units bs)
      else if 0xC2 \<le> n \<and> n \<le> 0xDF then
        (case bs of
           c # r \<Rightarrow>
             if cont c
             then map_option (\<lambda>s. unit_of ((n - 0xC0) * 64 + (unat c - 0x80)) # s) (utf8_decode_units r)
             else None
         | _ \<Rightarrow> None)
      else if 0xE0 \<le> n \<and> n \<le> 0xEF then
        (case bs of
           c # d # r \<Rightarrow>
             if cont c \<and> cont d \<and> (n = 0xE0 \<longrightarrow> 0xA0 \<le> unat c) \<and> (n = 0xED \<longrightarrow> unat c < 0xA0)
             then map_option (\<lambda>s. unit_of ((n - 0xE0) * 4096 + (unat c - 0x80) * 64 + (unat d - 0x80)) # s)
                    (utf8_decode_units r)
             else None
         | _ \<Rightarrow> None)
      else if 0xF0 \<le> n \<and> n \<le> 0xF4 then
        (case bs of
           c # d # e # r \<Rightarrow>
             if cont c \<and> cont d \<and> cont e \<and> (n = 0xF0 \<longrightarrow> 0x90 \<le> unat c) \<and> (n = 0xF4 \<longrightarrow> unat c < 0x90)
             then map_option
                    (\<lambda>s. surrogates ((n - 0xF0) * 262144 + (unat c - 0x80) * 4096
                           + (unat d - 0x80) * 64 + (unat e - 0x80)) @ s)
                    (utf8_decode_units r)
             else None
         | _ \<Rightarrow> None)
      else None)"

definition text_decode :: "byte list \<Rightarrow> jsstr option" where
  "text_decode bs = utf8_decode_units (if take 3 bs = [0xEF, 0xBB, 0xBF] then drop 3 bs else bs)"

section \<open>Decoding inverts encoding\<close>

definition well_formed :: "jsstr \<Rightarrow> bool" where
  "well_formed s \<longleftrightarrow> (\<forall>cp \<in> set (code_points s). case cp of [c] \<Rightarrow> \<not> is_high c \<and> \<not> is_low c | _ \<Rightarrow> True)"

lemma unat_byte_of [simp]: "n < 256 \<Longrightarrow> unat (byte_of n) = n"
  by (simp add: byte_of_def unat_of_nat)

lemma unit_of_unat [simp]: "unit_of (unat c) = c"
  by (simp add: unit_of_def)

lemma unat_16: "unat (c :: 16 word) < 65536"
  using unsigned_less [of c] by simp

lemma split_2: "n div 64 * 64 + n mod 64 = (n::nat)"
  by simp

lemma split_3: "n div 4096 * 4096 + n div 64 mod 64 * 64 + n mod 64 = (n::nat)"
proof -
  have "n div 64 = n div 4096 * 64 + n div 64 mod 64"
    using div_mult_mod_eq [of "n div 64" 64] by (simp flip: div_mult2_eq)
  then have "n div 4096 * 4096 + n div 64 mod 64 * 64 = n div 64 * 64" by simp
  then show ?thesis using split_2 [of n] by linarith
qed

lemma split_4: "n div 262144 * 262144 + n div 4096 mod 64 * 4096 + n div 64 mod 64 * 64 + n mod 64 = (n::nat)"
proof -
  have "n div 4096 = n div 262144 * 64 + n div 4096 mod 64"
    using div_mult_mod_eq [of "n div 4096" 64] by (simp flip: div_mult2_eq)
  then have "n div 262144 * 262144 + n div 4096 mod 64 * 4096 = n div 4096 * 4096" by simp
  then show ?thesis using split_3 [of n] by linarith
qed

lemma unat_cont_byte [simp]: "n < 64 \<Longrightarrow> unat (byte_of (0x80 + n)) = 0x80 + n"
  by simp

lemma cont_byte [simp]: "n < 64 \<Longrightarrow> cont (byte_of (0x80 + n))"
  by (simp add: cont_def)

lemma decode_2:
  assumes "0x80 \<le> n" "n < 0x800"
  shows "utf8_decode_units (byte_of (0xC0 + n div 64) # byte_of (0x80 + n mod 64) # r) =
           map_option (\<lambda>s. unit_of n # s) (utf8_decode_units r)"
proof -
  have "2 \<le> n div 64" "n div 64 < 32" using assms by simp_all
  then show ?thesis by (simp add: Let_def)
qed

lemma decode_3:
  assumes "0x800 \<le> n" "n < 65536" "\<not> (0xD800 \<le> n \<and> n < 0xE000)"
  shows "utf8_decode_units
           (byte_of (0xE0 + n div 4096) # byte_of (0x80 + n div 64 mod 64) # byte_of (0x80 + n mod 64) # r) =
           map_option (\<lambda>s. unit_of n # s) (utf8_decode_units r)"
proof -
  have hi: "n div 4096 < 16" using assms by simp
  have low: "n div 4096 = 0 \<Longrightarrow> 0x20 \<le> n div 64 mod 64" using assms(1) split_3 [of n]
    by (cases "n div 64 mod 64 < 32") auto
  have sur: "n div 4096 = 13 \<Longrightarrow> n div 64 mod 64 < 0x20"
    using assms(3) split_3 [of n] mod_less_divisor [of 64 n] mod_less_divisor [of 64 "n div 64"]
    by (cases "n div 64 mod 64 < 32") auto
  from hi low sur split_3 [of n] show ?thesis by (simp add: Let_def)
qed

lemma decode_4:
  assumes "0x10000 \<le> n" "n < 0x110000"
  shows "utf8_decode_units
           (byte_of (0xF0 + n div 262144) # byte_of (0x80 + n div 4096 mod 64)
              # byte_of (0x80 + n div 64 mod 64) # byte_of (0x80 + n mod 64) # r) =
           map_option (\<lambda>s. surrogates n @ s) (utf8_decode_units r)"
proof -
  have hi: "n div 262144 < 5" using assms by simp
  have low: "n div 262144 = 0 \<Longrightarrow> 0x10 \<le> n div 4096 mod 64"
    using assms(1) split_4 [of n] mod_less_divisor [of 64 n] mod_less_divisor [of 64 "n div 64"]
    by (cases "n div 4096 mod 64 < 16") auto
  have top: "n div 262144 = 4 \<Longrightarrow> n div 4096 mod 64 < 0x10"
    using assms(2) split_4 [of n] by (cases "n div 4096 mod 64 < 16") auto
  from hi low top split_4 [of n] show ?thesis by (simp add: Let_def)
qed

lemma surrogates_pair:
  assumes "is_high h" "is_low l"
  shows "surrogates (0x10000 + (unat h - 0xD800) * 1024 + (unat l - 0xDC00)) = [h, l]"
proof -
  have "unat l - 0xDC00 < 1024" using assms(2) by (auto simp: is_low_def)
  then have "((unat h - 0xD800) * 1024 + (unat l - 0xDC00)) div 1024 = unat h - 0xD800"
    "((unat h - 0xD800) * 1024 + (unat l - 0xDC00)) mod 1024 = unat l - 0xDC00"
    by simp_all
  with assms show ?thesis by (simp add: surrogates_def is_high_def is_low_def)
qed

lemma decode_code_point:
  assumes "code_point cp" "case cp of [c] \<Rightarrow> \<not> is_high c \<and> \<not> is_low c | _ \<Rightarrow> True"
  shows "utf8_decode_units (utf8_code_point cp @ r) = map_option (\<lambda>s. cp @ s) (utf8_decode_units r)"
proof (cases cp rule: utf8_code_point.cases)
  case 1
  with assms show ?thesis by (simp add: code_point_def)
next
  case (2 c)
  with assms(2) have "\<not> (0xD800 \<le> unat c \<and> unat c < 0xE000)"
    by (auto simp: is_high_def is_low_def)
  with 2 assms(2) unat_16 [of c] show ?thesis
    by (auto simp: Let_def decode_2 decode_3 simp del: utf8_decode_units.simps)
      (simp add: Let_def)
next
  case (3 h l t)
  with assms(1) have hl: "is_high h" "is_low l" "t = []"
    by (auto simp: code_point_def split: if_splits)
  let ?n = "0x10000 + (unat h - 0xD800) * 1024 + (unat l - 0xDC00)"
  from hl have "unat h - 0xD800 \<le> 1023" "unat l - 0xDC00 \<le> 1023"
    by (auto simp: is_high_def is_low_def)
  then have "?n < 0x110000" by linarith
  with decode_4 [of ?n r] surrogates_pair [OF hl(1,2)] show ?thesis
    unfolding 3 hl(3) by (simp add: Let_def del: utf8_decode_units.simps)
qed

lemma utf8_decode_units_concat:
  "list_all code_point cps \<Longrightarrow> \<forall>cp \<in> set cps. case cp of [c] \<Rightarrow> \<not> is_high c \<and> \<not> is_low c | _ \<Rightarrow> True \<Longrightarrow>
     utf8_decode_units (concat (map utf8_code_point cps)) = Some (concat cps)"
  by (induction cps) (simp_all add: decode_code_point del: utf8_decode_units.simps(2))

lemma utf8_decode_encode: "well_formed s \<Longrightarrow> utf8_decode_units (utf8_encode s) = Some s"
  using utf8_decode_units_concat [of "code_points s"]
  by (auto simp: utf8_encode_def well_formed_def list_all_iff code_points_are_code_points)

text \<open>A byte order mark is only dropped when there is one.\<close>

lemma text_decode_encode:
  "well_formed s \<Longrightarrow> take 3 (utf8_encode s) \<noteq> [0xEF, 0xBB, 0xBF] \<Longrightarrow> text_decode (utf8_encode s) = Some s"
  by (simp add: text_decode_def utf8_decode_encode)

lemma utf8_encode_ascii: "ascii s \<Longrightarrow> utf8_encode s = map (\<lambda>c. byte_of (unat c)) s"
proof -
  assume s: "ascii s"
  then have "concat (map utf8_code_point (map (\<lambda>c. [c]) s)) = map (\<lambda>c. byte_of (unat c)) s"
    by (induction s) (auto simp: ascii_def Let_def)
  with s show ?thesis by (simp add: utf8_encode_def code_points_ascii)
qed

lemma text_decode_ascii: "ascii s \<Longrightarrow> text_decode (map (\<lambda>c. byte_of (unat c)) s) = Some s"
proof -
  assume s: "ascii s"
  have "well_formed s"
    using s by (auto simp: well_formed_def code_points_ascii ascii_def is_high_def is_low_def)
  moreover have "take 3 (map (\<lambda>c. byte_of (unat c)) s) \<noteq> [0xEF, 0xBB, 0xBF]"
  proof
    assume bom: "take 3 (map (\<lambda>c. byte_of (unat c)) s) = [0xEF, 0xBB, 0xBF]"
    then obtain c cs where c: "s = c # cs" "byte_of (unat c) = 0xEF" by (cases s) auto
    with s have "unat c < 0x80" by (simp add: ascii_def)
    with c(2) show False using unat_byte_of [of "unat c"] by simp
  qed
  ultimately show ?thesis using text_decode_encode [of s] s by (simp add: utf8_encode_ascii)
qed

end
