(* ===== verification/Json.thy ===== *)
theory Json
  imports JsNumber
begin

text \<open>
  JSON values, \<open>JSON.stringify\<close> and \<open>JSON.parse\<close>, as far as the source uses them: no
  replacer or reviver, no indentation. The main result is the round trip: parsing what
  \<open>JSON.stringify\<close> printed gives the value back, whatever text follows it.
\<close>

section \<open>Values\<close>

text \<open>An object is the list of its own properties in enumeration order.\<close>

datatype json =
    JNull
  | JBool bool
  | JNum jsnum
  | JStr jsstr
  | JArr "json list"
  | JObj "(jsstr \<times> json) list"

definition own :: "(jsstr \<times> json) list \<Rightarrow> string \<Rightarrow> json option" where
  "own ps key = map_of ps (js key)"

definition has_own :: "(jsstr \<times> json) list \<Rightarrow> string \<Rightarrow> bool" where
  "has_own ps key \<longleftrightarrow> own ps key \<noteq> None"

text \<open>Array index keys ("0", "1", up to 4294967294) come first, in ascending order.\<close>

definition array_index :: "jsstr \<Rightarrow> nat option" where
  "array_index k =
     (if length k \<le> 10 \<and> k = nat_digits (digits_value k) \<and> digits_value k < 4294967295
      then Some (digits_value k) else None)"

fun insert_index_key :: "nat \<Rightarrow> jsstr \<Rightarrow> json \<Rightarrow> (jsstr \<times> json) list \<Rightarrow> (jsstr \<times> json) list" where
  "insert_index_key n k v [] = [(k, v)]"
| "insert_index_key n k v ((k', v') # ps) =
     (case array_index k' of
        Some m \<Rightarrow> if m < n then (k', v') # insert_index_key n k v ps else (k, v) # (k', v') # ps
      | None \<Rightarrow> (k, v) # (k', v') # ps)"

definition put_property :: "(jsstr \<times> json) list \<Rightarrow> jsstr \<times> json \<Rightarrow> (jsstr \<times> json) list" where
  "put_property ps kv =
     (case kv of (k, v) \<Rightarrow>
        if k \<in> fst ` set ps then map (\<lambda>(k', v'). if k' = k then (k', v) else (k', v')) ps
        else case array_index k of
               Some n \<Rightarrow> insert_index_key n k v ps
             | None \<Rightarrow> ps @ [(k, v)])"

definition build_object :: "(jsstr \<times> json) list \<Rightarrow> (jsstr \<times> json) list" where
  "build_object members = foldl put_property [] members"

section \<open>JSON.stringify\<close>

definition hex_unit :: "nat \<Rightarrow> 16 word" where
  "hex_unit d = (if d < 10 then word_of_nat (48 + d) else word_of_nat (87 + d))"

definition unicode_escape :: "16 word \<Rightarrow> jsstr" where
  "unicode_escape c =
     (let n = unat c in
      [0x5C, 0x75, hex_unit (n div 4096), hex_unit (n div 256 mod 16), hex_unit (n div 16 mod 16),
        hex_unit (n mod 16)])"

definition quote_unit :: "16 word \<Rightarrow> jsstr" where
  "quote_unit c =
     (if c = 0x22 then [0x5C, 0x22]
      else if c = 0x5C then [0x5C, 0x5C]
      else if c = 0x08 then [0x5C, 0x62]
      else if c = 0x0C then [0x5C, 0x66]
      else if c = 0x0A then [0x5C, 0x6E]
      else if c = 0x0D then [0x5C, 0x72]
      else if c = 0x09 then [0x5C, 0x74]
      else if unat c < 0x20 \<or> is_high c \<or> is_low c then unicode_escape c
      else [c])"

definition quote_code_point :: "jsstr \<Rightarrow> jsstr" where
  "quote_code_point cp = (case cp of [c] \<Rightarrow> quote_unit c | _ \<Rightarrow> cp)"

definition quote_string :: "jsstr \<Rightarrow> jsstr" where
  "quote_string s = [0x22] @ concat (map quote_code_point (code_points s)) @ [0x22]"

fun comma_separated :: "jsstr list \<Rightarrow> jsstr" where
  "comma_separated [] = []"
| "comma_separated [x] = x"
| "comma_separated (x # xs) = x @ [0x2C] @ comma_separated xs"

fun json_stringify :: "json \<Rightarrow> jsstr" where
  "json_stringify JNull = js ''null''"
| "json_stringify (JBool b) = (if b then js ''true'' else js ''false'')"
| "json_stringify (JNum n) = json_number n"
| "json_stringify (JStr s) = quote_string s"
| "json_stringify (JArr vs) = [0x5B] @ comma_separated (map json_stringify vs) @ [0x5D]"
| "json_stringify (JObj ps) =
     [0x7B] @ comma_separated (map (\<lambda>(k, v). quote_string k @ [0x3A] @ json_stringify v) ps) @ [0x7D]"

section \<open>JSON.parse\<close>

definition is_ws :: "16 word \<Rightarrow> bool" where
  "is_ws c \<longleftrightarrow> c = 0x20 \<or> c = 0x09 \<or> c = 0x0A \<or> c = 0x0D"

definition skip_ws :: "jsstr \<Rightarrow> jsstr" where
  "skip_ws s = dropWhile is_ws s"

definition hex_value :: "16 word \<Rightarrow> nat option" where
  "hex_value c =
     (let n = unat c in
      if 48 \<le> n \<and> n \<le> 57 then Some (n - 48)
      else if 97 \<le> n \<and> n \<le> 102 then Some (n - 87)
      else if 65 \<le> n \<and> n \<le> 70 then Some (n - 55)
      else None)"

definition simple_escape :: "16 word \<Rightarrow> (16 word) option" where
  "simple_escape c =
     (if c = 0x22 \<or> c = 0x5C \<or> c = 0x2F then Some c
      else if c = 0x62 then Some 0x08
      else if c = 0x66 then Some 0x0C
      else if c = 0x6E then Some 0x0A
      else if c = 0x72 then Some 0x0D
      else if c = 0x74 then Some 0x09
      else None)"

definition hex4 :: "16 word \<Rightarrow> 16 word \<Rightarrow> 16 word \<Rightarrow> 16 word \<Rightarrow> (16 word) option" where
  "hex4 a b c d =
     (case (hex_value a, hex_value b, hex_value c, hex_value d) of
        (Some x, Some y, Some z, Some w) \<Rightarrow>
          Some (word_of_nat (x * 4096 + y * 256 + z * 16 + w))
      | _ \<Rightarrow> None)"

text \<open>The characters of a string literal after its opening quote.\<close>

fun parse_string :: "jsstr \<Rightarrow> (jsstr \<times> jsstr) option" where
  "parse_string [] = None"
| "parse_string (c # cs) =
     (if c = 0x22 then Some ([], cs)
      else if c = 0x5C then
        (case cs of
           [] \<Rightarrow> None
         | e # r \<Rightarrow>
             if e = 0x75 then
               (case r of
                  x # y # z # w # r' \<Rightarrow>
                    (case hex4 x y z w of
                       None \<Rightarrow> None
                     | Some u \<Rightarrow> map_option (\<lambda>(t, q). (u # t, q)) (parse_string r'))
                | _ \<Rightarrow> None)
             else
               (case simple_escape e of
                  None \<Rightarrow> None
                | Some u \<Rightarrow> map_option (\<lambda>(t, q). (u # t, q)) (parse_string r)))
      else if unat c < 0x20 then None
      else map_option (\<lambda>(t, q). (c # t, q)) (parse_string cs))"

definition parse_sign :: "jsstr \<Rightarrow> bool \<times> jsstr" where
  "parse_sign s = (case s of c # r \<Rightarrow> if c = 0x2D then (True, r) else (False, s) | [] \<Rightarrow> (False, []))"

definition parse_fraction :: "jsstr \<Rightarrow> (jsstr \<times> jsstr) option" where
  "parse_fraction s =
     (case s of
        c # r \<Rightarrow> if c = 0x2E
                 then (if takeWhile is_digit r = [] then None
                       else Some (takeWhile is_digit r, dropWhile is_digit r))
                 else Some ([], s)
      | [] \<Rightarrow> Some ([], []))"

definition parse_exponent :: "jsstr \<Rightarrow> (int option \<times> jsstr) option" where
  "parse_exponent s =
     (case s of
        c # r \<Rightarrow>
          if c = 0x65 \<or> c = 0x45 then
            (let (neg, r') = (case r of
                 d # q \<Rightarrow> if d = 0x2D then (True, q) else if d = 0x2B then (False, q) else (False, r)
               | [] \<Rightarrow> (False, []));
                 ds = takeWhile is_digit r'
             in if ds = [] then None
                else Some (Some ((if neg then - 1 else 1) * int (digits_value ds)),
                           dropWhile is_digit r'))
          else Some (None, s)
      | [] \<Rightarrow> Some (None, []))"

text \<open>
  The value of a numeric literal: a safe integer without fraction and exponent is itself,
  anything else is rounded to the nearest double.
\<close>

definition literal_value :: "bool \<Rightarrow> jsstr \<Rightarrow> jsstr \<Rightarrow> int option \<Rightarrow> jsnum" where
  "literal_value neg ints fracs ex =
     (let i = (if neg then - 1 else 1) * int (digits_value ints) in
      if fracs = [] \<and> ex = None \<and> safe_int i then NInt i
      else round_double
        ((if neg then - 1 else 1) * of_nat (digits_value (ints @ fracs))
           * rat_power 10 ((case ex of None \<Rightarrow> 0 | Some e \<Rightarrow> e) - int (length fracs))))"

definition parse_number :: "jsstr \<Rightarrow> (jsnum \<times> jsstr) option" where
  "parse_number s =
     (let (neg, s1) = parse_sign s; ints = takeWhile is_digit s1 in
      if ints = [] \<or> (1 < length ints \<and> hd ints = digit_unit 0) then None
      else
        (case parse_fraction (dropWhile is_digit s1) of
           None \<Rightarrow> None
         | Some (fracs, s2) \<Rightarrow>
             (case parse_exponent s2 of
                None \<Rightarrow> None
              | Some (ex, s3) \<Rightarrow> Some (literal_value neg ints fracs ex, s3))))"

definition strip_prefix :: "jsstr \<Rightarrow> jsstr \<Rightarrow> jsstr option" where
  "strip_prefix p s = (if take (length p) s = p then Some (drop (length p) s) else None)"

definition parse_atom :: "jsstr \<Rightarrow> (json \<times> jsstr) option" where
  "parse_atom s =
     (case strip_prefix (js ''null'') s of
        Some r \<Rightarrow> Some (JNull, r)
      | None \<Rightarrow>
     (case strip_prefix (js ''true'') s of
        Some r \<Rightarrow> Some (JBool True, r)
      | None \<Rightarrow>
     (case strip_prefix (js ''false'') s of
        Some r \<Rightarrow> Some (JBool False, r)
      | None \<Rightarrow> map_option (\<lambda>(n, r). (JNum n, r)) (parse_number s))))"

lemma skip_ws_length: "length (skip_ws s) \<le> length s"
  by (simp add: skip_ws_def length_dropWhile_le)

lemma skip_ws_Cons_length: "skip_ws s = c # r \<Longrightarrow> length r < length s"
  using skip_ws_length [of s] by simp

text \<open>
  Values, array elements after \<open>[\<close> and object members after \<open>{\<close>. The comparison of
  lengths before the two loops continue is always true (\<open>parse_value_shorter\<close> below); it
  makes termination visible: every call reads a shorter text.
\<close>

function parse_value :: "jsstr \<Rightarrow> (json \<times> jsstr) option"
  and parse_elements :: "jsstr \<Rightarrow> (json list \<times> jsstr) option"
  and parse_members :: "jsstr \<Rightarrow> ((jsstr \<times> json) list \<times> jsstr) option"
where
  "parse_value s =
     (case skip_ws s of
        [] \<Rightarrow> None
      | c # cs \<Rightarrow>
          if c = 0x5B then
            (case strip_prefix [0x5D] (skip_ws cs) of
               Some r \<Rightarrow> Some (JArr [], r)
             | None \<Rightarrow> map_option (\<lambda>(vs, r). (JArr vs, r)) (parse_elements cs))
          else if c = 0x7B then
            (case strip_prefix [0x7D] (skip_ws cs) of
               Some r \<Rightarrow> Some (JObj [], r)
             | None \<Rightarrow> map_option (\<lambda>(ps, r). (JObj (build_object ps), r)) (parse_members cs))
          else if c = 0x22 then map_option (\<lambda>(t, r). (JStr t, r)) (parse_string cs)
          else parse_atom (c # cs))"
| "parse_elements s =
     (case parse_value s of
        None \<Rightarrow> None
      | Some (v, r) \<Rightarrow>
          (case skip_ws r of
             [] \<Rightarrow> None
           | c # q \<Rightarrow>
               if c = 0x5D then Some ([v], q)
               else if c = 0x2C \<and> length q < length s
                 then map_option (\<lambda>(vs, t). (v # vs, t)) (parse_elements q)
               else None))"
| "parse_members s =
     (case strip_prefix [0x22] (skip_ws s) of
        None \<Rightarrow> None
      | Some r0 \<Rightarrow>
          (case parse_string r0 of
             None \<Rightarrow> None
           | Some (k, r1) \<Rightarrow>
               (case strip_prefix [0x3A] (skip_ws r1) of
                  None \<Rightarrow> None
                | Some r2 \<Rightarrow>
                    if length r2 < length s then
                      (case parse_value r2 of
                         None \<Rightarrow> None
                       | Some (v, r3) \<Rightarrow>
                           (case skip_ws r3 of
                              [] \<Rightarrow> None
                            | c # q \<Rightarrow>
                                if c = 0x7D then Some ([(k, v)], q)
                                else if c = 0x2C \<and> length q < length s
                                  then map_option (\<lambda>(ps, t). ((k, v) # ps, t)) (parse_members q)
                                else None))
                    else None)))"
  by pat_completeness auto
termination
  by (relation "measure (\<lambda>x. case x of
        Inl s \<Rightarrow> 2 * length s
      | Inr (Inl s) \<Rightarrow> 2 * length s + 1
      | Inr (Inr s) \<Rightarrow> 2 * length s + 1)")
    (auto dest!: sym [of "skip_ws _"] dest: skip_ws_Cons_length [OF sym])

declare parse_value.simps [simp del] parse_elements.simps [simp del] parse_members.simps [simp del]

definition json_parse :: "jsstr \<Rightarrow> json option" where
  "json_parse s =
     (case parse_value s of
        None \<Rightarrow> None
      | Some (v, r) \<Rightarrow> if skip_ws r = [] then Some v else None)"

section \<open>Parsing consumes text\<close>

lemma strip_prefix_length: "strip_prefix p s = Some r \<Longrightarrow> length r + length p = length s"
proof -
  assume "strip_prefix p s = Some r"
  then have "take (length p) s = p" "r = drop (length p) s"
    by (auto simp: strip_prefix_def split: if_splits)
  then show ?thesis
    by (metis append_take_drop_id length_append add.commute)
qed

lemma strip_prefix_append [simp]: "strip_prefix p (p @ s) = Some s"
  by (simp add: strip_prefix_def)

lemma strip_prefix_unit [simp]:
  "strip_prefix [c] [] = None"
  "strip_prefix [c] (d # s) = (if d = c then Some s else None)"
  by (simp_all add: strip_prefix_def)

lemma parse_string_shorter: "parse_string s = Some (t, r) \<Longrightarrow> length r < length s"
proof (induction s arbitrary: t rule: parse_string.induct)
  case 1
  then show ?case by simp
next
  case (2 c cs)
  from "2.prems" show ?case
    by (auto split: if_splits list.splits option.splits
        dest: "2.IH"(3) intro: less_SucI
        intro!: "2.IH"(1) [THEN less_SucI, THEN less_SucI, THEN less_SucI, THEN less_SucI,
          THEN less_SucI, THEN less_SucI]
          "2.IH"(2) [THEN less_SucI, THEN less_SucI])
qed

lemma parse_fraction_length: "parse_fraction s = Some (f, r) \<Longrightarrow> length r \<le> length s"
  by (auto simp: parse_fraction_def le_Suc_eq length_dropWhile_le split: list.splits if_splits)

lemma parse_exponent_length: "parse_exponent s = Some (e, r) \<Longrightarrow> length r \<le> length s"
  by (auto simp: parse_exponent_def Let_def le_Suc_eq
      intro: le_SucI length_dropWhile_le le_trans [OF length_dropWhile_le]
      split: list.splits if_splits prod.splits)

lemma parse_sign_length: "parse_sign s = (b, r) \<Longrightarrow> length r \<le> length s"
  by (auto simp: parse_sign_def split: list.splits if_splits)

lemma dropWhile_shorter: "takeWhile P s \<noteq> [] \<Longrightarrow> length (dropWhile P s) < length s"
  by (cases s) (auto simp: le_imp_less_Suc length_dropWhile_le split: if_splits)

lemma parse_number_shorter: "parse_number s = Some (n, r) \<Longrightarrow> length r < length s"
proof -
  assume "parse_number s = Some (n, r)"
  then obtain b s1 f s2 e where *: "parse_sign s = (b, s1)" "takeWhile is_digit s1 \<noteq> []"
      "parse_fraction (dropWhile is_digit s1) = Some (f, s2)" "parse_exponent s2 = Some (e, r)"
    by (auto simp: parse_number_def Let_def split: prod.splits if_splits option.splits)
  have "length r \<le> length s2" using *(4) by (rule parse_exponent_length)
  also have "length s2 \<le> length (dropWhile is_digit s1)" using *(3) by (rule parse_fraction_length)
  also have "length (dropWhile is_digit s1) < length s1" using *(2) by (rule dropWhile_shorter)
  also have "length s1 \<le> length s" using *(1) by (rule parse_sign_length)
  finally show ?thesis .
qed

lemma parse_atom_shorter: "parse_atom s = Some (v, r) \<Longrightarrow> length r < length s"
  by (auto simp: parse_atom_def split: option.splits
      dest!: strip_prefix_length parse_number_shorter)

lemma parse_shorter:
  "parse_value s = Some (v, r) \<Longrightarrow> length r < length s"
  "parse_elements s = Some (vs, r) \<Longrightarrow> length r < length s"
  "parse_members s = Some (ps, r) \<Longrightarrow> length r < length s"
proof (induction s and s and s arbitrary: v r and vs r and ps r
    rule: parse_value_parse_elements_parse_members.induct)
  case (1 s)
  from "1.prems" obtain c cs where s: "skip_ws s = c # cs"
    by (subst (asm) parse_value.simps) (auto split: list.splits)
  then have cs: "length cs < length s" by (rule skip_ws_Cons_length)
  have strip: "length q < length cs" if "strip_prefix [d] (skip_ws cs) = Some q" for d q
    using strip_prefix_length [OF that] skip_ws_length [of cs] by simp
  have members: "length q < length cs"
    if "c = 0x7B" "strip_prefix [0x7D] (skip_ws cs) = None" "parse_members cs = Some (ps, q)" for ps q
    using "1.IH"(2) [OF s] that by simp
  from "1.prems" s members have "length r \<le> length cs"
    by (subst (asm) parse_value.simps)
      (auto simp: less_Suc_eq_le split: if_splits option.splits
        dest!: strip "1.IH"(1) [OF s] parse_string_shorter parse_atom_shorter intro: less_imp_le)
  with cs show ?case by simp
next
  case (2 s)
  from "2.prems" obtain w q where q: "parse_value s = Some (w, q)"
    by (subst (asm) parse_elements.simps) (auto split: option.splits)
  with "2.IH"(1) have q_less: "length q < length s" by simp
  have rest: "length t < length q"
    if "skip_ws q = 0x2C # x" "length x < length s" "parse_elements x = Some (us, t)" for x us t
    using "2.IH"(2) [OF q refl that(1)] that skip_ws_Cons_length [OF that(1)]
    by (simp add: less_trans [of "length t" "length x"])
  from "2.prems" q rest have "length r \<le> length q"
    by (subst (asm) parse_elements.simps)
      (auto split: list.splits if_splits dest: skip_ws_Cons_length intro: less_imp_le)
  with q_less show ?case by simp
next
  case (3 s)
  from "3.prems" obtain r0 k r1 r2 w q where *: "strip_prefix [0x22] (skip_ws s) = Some r0"
      "parse_string r0 = Some (k, r1)" "strip_prefix [0x3A] (skip_ws r1) = Some r2"
      "length r2 < length s" "parse_value r2 = Some (w, q)"
    by (subst (asm) parse_members.simps) (auto split: option.splits if_splits)
  have q_less: "length q < length s" using "3.IH"(1) [OF * (1,2) refl *(3,4,5)] *(4) by simp
  have rest: "length t < length q"
    if "skip_ws q = 0x2C # x" "length x < length s" "parse_members x = Some (us, t)" for x us t
    using "3.IH"(2) [OF *(1,2) refl *(3,4,5) refl that(1)] that skip_ws_Cons_length [OF that(1)]
    by (simp add: less_trans [of "length t" "length x"])
  from "3.prems" * rest have "length r \<le> length q"
    by (subst (asm) parse_members.simps)
      (auto split: list.splits if_splits dest: skip_ws_Cons_length intro: less_imp_le)
  with q_less show ?case by simp
qed

lemmas parse_value_shorter = parse_shorter(1)

section \<open>The round trip\<close>

text \<open>
  The values \<open>JSON.stringify\<close> prints and \<open>JSON.parse\<close> reads back unchanged: safe integers,
  and objects whose properties are in enumeration order (as every JavaScript object's are).
\<close>

fun json_canonical :: "json \<Rightarrow> bool" where
  "json_canonical (JNum n) = is_safe_integer n"
| "json_canonical (JArr vs) = list_all json_canonical vs"
| "json_canonical (JObj ps) = (build_object ps = ps \<and> list_all (\<lambda>p. json_canonical (snd p)) ps)"
| "json_canonical _ = True"

subsection \<open>Strings\<close>

lemma hex_value_hex_unit [simp]: "d < 16 \<Longrightarrow> hex_value (hex_unit d) = Some d"
  by (auto simp: hex_value_def hex_unit_def Let_def unat_of_nat simp del: of_nat_add)

lemma hex4_split:
  "n div 4096 * 4096 + n div 256 mod 16 * 256 + n div 16 mod 16 * 16 + n mod 16 = (n::nat)"
proof -
  have "n = n div 16 * 16 + n mod 16" by simp
  also have "n div 16 = n div 256 * 16 + n div 16 mod 16"
    using div_mult_mod_eq [of "n div 16" 16] by (simp flip: div_mult2_eq)
  also have "n div 256 = n div 4096 * 16 + n div 256 mod 16"
    using div_mult_mod_eq [of "n div 256" 16] by (simp flip: div_mult2_eq)
  finally show ?thesis by (simp add: algebra_simps)
qed

lemma hex4_unit [simp]:
  "hex4 (hex_unit (unat c div 4096)) (hex_unit (unat c div 256 mod 16))
        (hex_unit (unat c div 16 mod 16)) (hex_unit (unat c mod 16)) = Some c"
proof -
  have c: "unat c < 65536" using unsigned_less [of c] by simp
  then have "unat c div 4096 < 16" by simp
  then show ?thesis
    by (simp add: hex4_def hex4_split del: of_nat_add of_nat_mult)
qed

lemma parse_string_quote_unit:
  "parse_string (quote_unit c @ t) = map_option (\<lambda>(u, q). (c # u, q)) (parse_string t)"
  by (auto simp: quote_unit_def unicode_escape_def Let_def simple_escape_def)

lemma high_low_plain:
  "is_high c \<or> is_low c \<Longrightarrow> c \<noteq> 0x22 \<and> c \<noteq> 0x5C \<and> \<not> unat c < 0x20"
  by (auto simp: is_high_def is_low_def)

lemma code_point_cases:
  assumes "code_point cp"
  obtains c where "cp = [c]" | h l where "cp = [h, l]" "is_high h" "is_low l"
  using assms
  by (cases cp rule: code_points.cases) (auto simp: code_point_def split: if_splits)

lemma parse_string_quote_code_point:
  assumes "code_point cp"
  shows "parse_string (quote_code_point cp @ t) = map_option (\<lambda>(u, q). (cp @ u, q)) (parse_string t)"
  using assms
proof (cases rule: code_point_cases)
  case (1 c)
  then show ?thesis by (simp add: quote_code_point_def parse_string_quote_unit)
next
  case (2 h l)
  then show ?thesis
    using high_low_plain [of h] high_low_plain [of l]
    by (auto simp: quote_code_point_def option.map_comp comp_def split_def)
qed

lemma parse_string_quoted:
  "list_all code_point cps \<Longrightarrow>
     parse_string (concat (map quote_code_point cps) @ 0x22 # rest) = Some (concat cps, rest)"
  by (induction cps) (simp_all add: parse_string_quote_code_point)

lemma parse_string_quote_string:
  "parse_string (concat (map quote_code_point (code_points s)) @ 0x22 # rest) = Some (s, rest)"
  using parse_string_quoted [of "code_points s" rest]
  by (simp add: list_all_iff code_points_are_code_points)

subsection \<open>Numbers\<close>

text \<open>Text that cannot continue a numeric literal.\<close>

definition number_stop :: "jsstr \<Rightarrow> bool" where
  "number_stop s \<longleftrightarrow>
     (case s of [] \<Rightarrow> True
      | c # _ \<Rightarrow> \<not> is_digit c \<and> c \<noteq> 0x2E \<and> c \<noteq> 0x65 \<and> c \<noteq> 0x45)"

lemma takeWhile_digits:
  "number_stop rest \<Longrightarrow> takeWhile is_digit (nat_digits n @ rest) = nat_digits n"
  "number_stop rest \<Longrightarrow> dropWhile is_digit (nat_digits n @ rest) = rest"
  using nat_digits_digits [of _ n]
  by (cases rest; simp add: number_stop_def takeWhile_append dropWhile_append)+

lemma nat_digits_no_leading_zero:
  "\<not> (1 < length (nat_digits n) \<and> hd (nat_digits n) = digit_unit 0)"
  using length_nat_digits_1 [of n] by (auto simp: hd_nat_digits)

lemma parse_sign_digits: "parse_sign (nat_digits n @ rest) = (False, nat_digits n @ rest)"
proof -
  obtain c cs where cs: "nat_digits n = c # cs" by (cases "nat_digits n") auto
  then have "is_digit c" using nat_digits_digits [of c n] by simp
  then have "c \<noteq> 0x2D" by (auto simp: is_digit_def)
  with cs show ?thesis by (simp add: parse_sign_def)
qed

lemma parse_tail_stop:
  "number_stop rest \<Longrightarrow> parse_fraction rest = Some ([], rest)"
  "number_stop rest \<Longrightarrow> parse_exponent rest = Some (None, rest)"
  by (auto simp: number_stop_def parse_fraction_def parse_exponent_def split: list.splits)

lemma parse_number_int:
  assumes "safe_int i" "number_stop rest"
  shows "parse_number (int_to_string i @ rest) = Some (NInt i, rest)"
proof (cases "i < 0")
  case True
  have "parse_sign (js ''-'' @ nat_digits (nat \<bar>i\<bar>) @ rest) = (True, nat_digits (nat \<bar>i\<bar>) @ rest)"
    by (simp add: parse_sign_def js_def)
  with True assms show ?thesis
    using nat_digits_no_leading_zero [of "nat \<bar>i\<bar>"]
    by (auto simp: parse_number_def int_to_string_def takeWhile_digits parse_tail_stop literal_value_def)
next
  case False
  with assms show ?thesis
    using nat_digits_no_leading_zero [of "nat \<bar>i\<bar>"]
    by (auto simp: parse_number_def int_to_string_def takeWhile_digits parse_tail_stop
        literal_value_def parse_sign_digits)
qed

subsection \<open>Values\<close>

lemma int_to_string_start:
  obtains c cs where "int_to_string i = c # cs" "is_digit c \<or> c = 0x2D"
proof (cases "i < 0")
  case True
  then show thesis
    using that [of "0x2D" "nat_digits (nat \<bar>i\<bar>)"] by (simp add: int_to_string_def js_def)
next
  case False
  obtain c cs where "nat_digits (nat \<bar>i\<bar>) = c # cs" by (cases "nat_digits (nat \<bar>i\<bar>)") auto
  with False show thesis
    using that [of c cs] nat_digits_digits [of c "nat \<bar>i\<bar>"] by (simp add: int_to_string_def)
qed

lemma json_number_safe: "is_safe_integer n \<Longrightarrow> \<exists>i. n = NInt i \<and> safe_int i \<and> json_number n = int_to_string i"
  by (auto simp: is_safe_integer_def json_number_def split: jsnum.splits)

lemma stringify_start_ex:
  "json_canonical v \<Longrightarrow>
     \<exists>c cs. json_stringify v = c # cs \<and> \<not> is_ws c \<and> c \<noteq> 0x5D \<and> c \<noteq> 0x7D"
proof (cases v)
  case (JNum n)
  assume "json_canonical v"
  with JNum obtain i where "json_stringify v = int_to_string i"
    using json_number_safe by auto
  then show ?thesis
    by (rule_tac i = i in int_to_string_start) (auto simp: is_ws_def is_digit_def)
qed (auto simp: js_def quote_string_def is_ws_def)

lemma stringify_start:
  assumes "json_canonical v"
  obtains c cs where "json_stringify v = c # cs" "\<not> is_ws c" "c \<noteq> 0x5D" "c \<noteq> 0x7D"
  using stringify_start_ex [OF assms] by auto

lemma skip_ws_stringify:
  "json_canonical v \<Longrightarrow> skip_ws (json_stringify v @ t) = json_stringify v @ t"
  by (rule stringify_start [of v]) (simp_all add: skip_ws_def)

lemma skip_ws_unit [simp]: "\<not> is_ws c \<Longrightarrow> skip_ws (c # s) = c # s"
  by (simp add: skip_ws_def)

lemma not_ws [simp]: "\<not> is_ws 0x5B" "\<not> is_ws 0x5D" "\<not> is_ws 0x7B" "\<not> is_ws 0x7D" "\<not> is_ws 0x22"
    "\<not> is_ws 0x2C" "\<not> is_ws 0x3A"
  by (simp_all add: is_ws_def)

lemma number_stop_unit [simp]: "number_stop []" "number_stop (0x2C # s)" "number_stop (0x5D # s)"
    "number_stop (0x7D # s)"
  by (simp_all add: number_stop_def is_digit_def)

definition reads :: "json \<Rightarrow> bool" where
  "reads v \<longleftrightarrow> (\<forall>rest. number_stop rest \<longrightarrow> parse_value (json_stringify v @ rest) = Some (v, rest))"

lemma reads_atoms: "reads JNull" "reads (JBool b)" "reads (JStr s)"
  unfolding reads_def
  by (subst parse_value.simps;
      auto simp: js_def is_ws_def parse_atom_def strip_prefix_def quote_string_def
        parse_string_quote_string)+

lemma reads_number: "is_safe_integer n \<Longrightarrow> reads (JNum n)"
proof -
  assume "is_safe_integer n"
  then obtain i where i: "n = NInt i" "safe_int i" "json_number n = int_to_string i"
    using json_number_safe by blast
  show ?thesis
    unfolding reads_def
  proof (intro allI impI)
    fix rest :: jsstr
    assume "number_stop rest"
    with i have num: "parse_number (int_to_string i @ rest) = Some (NInt i, rest)"
      by (simp add: parse_number_int)
    obtain c cs where c: "int_to_string i = c # cs" "is_digit c \<or> c = 0x2D"
      by (rule int_to_string_start)
    then have "\<not> is_ws c" and plain: "c \<noteq> 0x5B" "c \<noteq> 0x7B" "c \<noteq> 0x22" "c \<noteq> 0x6E" "c \<noteq> 0x74" "c \<noteq> 0x66"
      by (auto simp: is_digit_def is_ws_def)
    moreover from plain num c(1) have "parse_atom (c # cs @ rest) = Some (JNum (NInt i), rest)"
      by (simp add: parse_atom_def strip_prefix_def js_def)
    ultimately show "parse_value (json_stringify (JNum n) @ rest) = Some (JNum n, rest)"
      using i c(1) by (subst parse_value.simps) simp
  qed
qed

lemma reads_elements:
  "vs \<noteq> [] \<Longrightarrow> list_all reads vs \<Longrightarrow>
     parse_elements (comma_separated (map json_stringify vs) @ 0x5D # rest) = Some (vs, rest)"
proof (induction vs rule: induct_list012)
  case 1
  then show ?case by simp
next
  case (2 v)
  then have "parse_value (json_stringify v @ 0x5D # rest) = Some (v, 0x5D # rest)"
    by (simp add: reads_def)
  then show ?case by (subst parse_elements.simps) simp
next
  case (3 v w vs)
  let ?tail = "comma_separated (map json_stringify (w # vs)) @ 0x5D # rest"
  from 3 have "parse_value (json_stringify v @ 0x2C # ?tail) = Some (v, 0x2C # ?tail)"
    by (simp add: reads_def)
  moreover from 3 have "parse_elements ?tail = Some (w # vs, rest)" by simp
  ultimately show ?case by (subst parse_elements.simps) simp
qed

definition print_member :: "jsstr \<times> json \<Rightarrow> jsstr" where
  "print_member p = quote_string (fst p) @ [0x3A] @ json_stringify (snd p)"

lemma reads_members:
  "ps \<noteq> [] \<Longrightarrow> list_all (\<lambda>p. reads (snd p) \<and> json_canonical (snd p)) ps \<Longrightarrow>
     parse_members (comma_separated (map print_member ps) @ 0x7D # rest) = Some (ps, rest)"
proof (induction ps rule: induct_list012)
  case 1
  then show ?case by simp
next
  case (2 p)
  then have "parse_value (json_stringify (snd p) @ 0x7D # rest) = Some (snd p, 0x7D # rest)"
    by (simp add: reads_def)
  then show ?case
    by (subst parse_members.simps)
      (simp add: print_member_def quote_string_def parse_string_quote_string)
next
  case (3 p q ps)
  let ?tail = "comma_separated (map print_member (q # ps)) @ 0x7D # rest"
  from 3 have "parse_value (json_stringify (snd p) @ 0x2C # ?tail) = Some (snd p, 0x2C # ?tail)"
    by (simp add: reads_def)
  moreover from 3 have "parse_members ?tail = Some (q # ps, rest)" by simp
  ultimately show ?case
    by (subst parse_members.simps)
      (simp add: print_member_def quote_string_def parse_string_quote_string)
qed

lemma json_stringify_obj:
  "json_stringify (JObj ps) = 0x7B # comma_separated (map print_member ps) @ [0x7D]"
  by (simp add: print_member_def [abs_def] split_def)

lemma comma_separated_start:
  "xs \<noteq> [] \<Longrightarrow> hd xs = c # cs \<Longrightarrow> \<exists>t. comma_separated xs = c # t"
  by (cases xs rule: comma_separated.cases) auto

lemma reads_array: "list_all json_canonical vs \<Longrightarrow> list_all reads vs \<Longrightarrow> reads (JArr vs)"
proof (cases vs)
  case Nil
  then show ?thesis unfolding reads_def by (subst parse_value.simps) simp
next
  case (Cons v vs')
  assume canon: "list_all json_canonical vs" and reads: "list_all reads vs"
  from canon Cons obtain c cs where c: "json_stringify v = c # cs" "\<not> is_ws c" "c \<noteq> 0x5D"
    by (auto intro: stringify_start [of v])
  then obtain t where t: "comma_separated (map json_stringify vs) = c # t"
    using comma_separated_start [of "map json_stringify vs" c cs] Cons by auto
  show ?thesis
    unfolding reads_def
  proof (intro allI impI)
    fix rest :: jsstr
    have "parse_elements (c # t @ 0x5D # rest) = Some (vs, rest)"
      using reads_elements [OF _ reads, of rest] Cons t by simp
    with c t show "parse_value (json_stringify (JArr vs) @ rest) = Some (JArr vs, rest)"
      by (subst parse_value.simps) simp
  qed
qed

lemma reads_object:
  "build_object ps = ps \<Longrightarrow> list_all (\<lambda>p. reads (snd p) \<and> json_canonical (snd p)) ps \<Longrightarrow>
     reads (JObj ps)"
proof (cases ps)
  case Nil
  then show ?thesis unfolding reads_def by (subst parse_value.simps) simp
next
  case (Cons p ps')
  assume canon: "build_object ps = ps"
    and reads: "list_all (\<lambda>p. reads (snd p) \<and> json_canonical (snd p)) ps"
  obtain t where t: "comma_separated (map print_member ps) = 0x22 # t"
    using comma_separated_start [of "map print_member ps" "0x22" "tl (print_member p)"] Cons
    by (auto simp: print_member_def quote_string_def simp del: comma_separated.simps)
  show ?thesis
    unfolding reads_def
  proof (intro allI impI)
    fix rest :: jsstr
    have "parse_members (0x22 # t @ 0x7D # rest) = Some (ps, rest)"
      using reads_members [OF _ reads, of rest] Cons t by simp
    with t canon show "parse_value (json_stringify (JObj ps) @ rest) = Some (JObj ps, rest)"
      unfolding json_stringify_obj by (subst parse_value.simps) simp
  qed
qed

lemma json_canonical_reads: "json_canonical v \<Longrightarrow> reads v"
proof (induction v)
  case (JArr vs)
  from JArr.prems have "\<And>v. v \<in> set vs \<Longrightarrow> json_canonical v" by (simp add: list_all_iff)
  with JArr.IH have "\<And>v. v \<in> set vs \<Longrightarrow> reads v" by blast
  with JArr.prems show ?case by (intro reads_array) (simp_all add: list_all_iff)
next
  case (JObj ps)
  have "reads (snd p)" if "p \<in> set ps" for p
    using JObj.IH [OF that, of "snd p"] JObj.prems that by (cases p) (auto simp: list_all_iff)
  with JObj.prems show ?case by (intro reads_object) (simp_all add: list_all_iff)
qed (auto intro: reads_atoms reads_number)

lemma json_roundtrip: "json_canonical v \<Longrightarrow> json_parse (json_stringify v) = Some v"
proof -
  assume "json_canonical v"
  then have "reads v" by (rule json_canonical_reads)
  then have "parse_value (json_stringify v @ []) = Some (v, [])"
    unfolding reads_def using number_stop_unit(1) by blast
  then show ?thesis by (simp add: json_parse_def skip_ws_def)
qed

text \<open>Hence printing is injective on canonical values.\<close>

lemma json_stringify_inj:
  "json_canonical v \<Longrightarrow> json_canonical w \<Longrightarrow> json_stringify v = json_stringify w \<Longrightarrow> v = w"
  by (metis json_roundtrip option.inject)

section \<open>Objects with fixed keys\<close>

lemma array_index_digits: "array_index k = Some n \<Longrightarrow> c \<in> set k \<Longrightarrow> is_digit c"
  by (auto simp: array_index_def split: if_splits intro: nat_digits_digits)

lemma array_index_js [simp]:
  "\<not> (48 \<le> (of_char c :: nat) \<and> (of_char c :: nat) \<le> 57) \<Longrightarrow> array_index (js (c # s)) = None"
proof (rule ccontr)
  assume c: "\<not> (48 \<le> (of_char c :: nat) \<and> (of_char c :: nat) \<le> 57)"
  assume "array_index (js (c # s)) \<noteq> None"
  then obtain n where "array_index (js (c # s)) = Some n" by blast
  moreover have "word_of_nat (of_char c) \<in> set (js (c # s))"
    by (simp add: js_def del: of_nat_of_char)
  ultimately have "is_digit (word_of_nat (of_char c))" by (rule array_index_digits)
  with c show False by (simp add: is_digit_def del: of_nat_of_char)
qed

lemma put_property_fresh:
  "k \<notin> fst ` set ps \<Longrightarrow> array_index k = None \<Longrightarrow> put_property ps (k, v) = ps @ [(k, v)]"
  by (simp add: put_property_def)

lemma build_object_append_fresh:
  "distinct (map fst (ps @ qs)) \<Longrightarrow> list_all (\<lambda>p. array_index (fst p) = None) qs \<Longrightarrow>
     foldl put_property ps qs = ps @ qs"
proof (induction qs arbitrary: ps)
  case Nil
  then show ?case by simp
next
  case (Cons q qs)
  obtain k v where q: "q = (k, v)" by (cases q)
  with Cons.prems have "put_property ps q = ps @ [q]"
    by (simp add: put_property_fresh)
  with Cons.IH [of "ps @ [q]"] Cons.prems show ?case by simp
qed

lemma build_object_plain:
  "distinct (map fst ps) \<Longrightarrow> list_all (\<lambda>p. array_index (fst p) = None) ps \<Longrightarrow> build_object ps = ps"
  using build_object_append_fresh [of "[]" ps] by (simp add: build_object_def)

end
