(* ===== verification/Validator.thy ===== *)
theory Validator
  imports Json
begin

text \<open>
  The reviewed protocol surface (\<open>src/common/ride-codex-methods.ts\<close>) and the validation of
  parsed app server messages (\<open>src/node/ride-codex-message-validator.ts\<close>): which JSON values
  are responses, notifications and server requests, and which are refused with which error.
\<close>

section \<open>Reviewed methods\<close>

definition client_methods :: "jsstr list" where
  "client_methods = map js
     [''initialize'', ''account/read'', ''account/login/start'', ''account/login/cancel'',
      ''account/logout'', ''account/rateLimits/read'', ''model/list'',
      ''modelProvider/capabilities/read'', ''thread/list'', ''thread/read'', ''thread/start'',
      ''thread/resume'', ''thread/archive'', ''turn/start'', ''turn/steer'', ''turn/interrupt'']"

definition client_notification_methods :: "jsstr list" where
  "client_notification_methods = map js [''initialized'']"

definition server_notification_methods :: "jsstr list" where
  "server_notification_methods = map js
     [''error'', ''account/updated'', ''account/login/completed'', ''account/rateLimits/updated'',
      ''model/rerouted'', ''model/verification'', ''thread/started'', ''thread/status/changed'',
      ''thread/archived'', ''thread/tokenUsage/updated'', ''turn/started'', ''turn/completed'',
      ''turn/diff/updated'', ''turn/plan/updated'', ''item/started'', ''item/completed'',
      ''item/agentMessage/delta'', ''item/plan/delta'', ''item/reasoning/summaryTextDelta'',
      ''item/reasoning/summaryPartAdded'', ''item/reasoning/textDelta'',
      ''item/commandExecution/outputDelta'', ''item/fileChange/outputDelta'',
      ''item/fileChange/patchUpdated'', ''serverRequest/resolved'', ''warning'',
      ''deprecationNotice'']"

definition server_request_methods :: "jsstr list" where
  "server_request_methods = map js
     [''item/commandExecution/requestApproval'', ''item/fileChange/requestApproval'']"

datatype notification_class = Reviewed | Unknown
datatype request_class = Approved | Unsupported

definition classify_server_notification :: "jsstr \<Rightarrow> notification_class" where
  "classify_server_notification m = (if m \<in> set server_notification_methods then Reviewed else Unknown)"

definition classify_server_request :: "jsstr \<Rightarrow> request_class" where
  "classify_server_request m = (if m \<in> set server_request_methods then Approved else Unsupported)"

definition is_stable_client_method :: "jsstr \<Rightarrow> bool" where
  "is_stable_client_method m \<longleftrightarrow> m \<in> set client_methods"

section \<open>Messages\<close>

datatype request_id = Id_String jsstr | Id_Number int

record rpc_error =
  error_code :: int
  error_message :: jsstr
  error_data :: "json option"

datatype incoming =
    Response request_id "rpc_error + json"
  | Notification jsstr json bool
  | Server_Request request_id jsstr json bool

datatype envelope_error =
    Not_An_Object
  | Method_Not_A_String
  | Request_With_Response_Payload
  | Params_Missing
  | Bad_Server_Request_Id
  | Bad_Response_Id
  | Response_With_Params
  | Not_Exactly_One_Payload
  | Bad_Error_Payload

text \<open>\<open>isRecord\<close>: objects only, neither null nor arrays.\<close>

definition as_record :: "json \<Rightarrow> (jsstr \<times> json) list option" where
  "as_record v = (case v of JObj ps \<Rightarrow> Some ps | _ \<Rightarrow> None)"

definition as_request_id :: "json option \<Rightarrow> request_id option" where
  "as_request_id v =
     (case v of
        Some (JStr s) \<Rightarrow> Some (Id_String s)
      | Some (JNum (NInt i)) \<Rightarrow> if safe_int i then Some (Id_Number i) else None
      | _ \<Rightarrow> None)"

definition as_rpc_error :: "json option \<Rightarrow> rpc_error option" where
  "as_rpc_error v =
     (case v of
        Some (JObj ps) \<Rightarrow>
          (case (own ps ''code'', own ps ''message'') of
             (Some (JNum (NInt c)), Some (JStr m)) \<Rightarrow>
               if safe_int c
               then Some \<lparr>error_code = c, error_message = m, error_data = own ps ''data''\<rparr>
               else None
           | _ \<Rightarrow> None)
      | _ \<Rightarrow> None)"

definition validate_method_message :: "(jsstr \<times> json) list \<Rightarrow> envelope_error + incoming" where
  "validate_method_message ps =
     (case own ps ''method'' of
        Some (JStr m) \<Rightarrow>
          if has_own ps ''result'' \<or> has_own ps ''error'' then Inl Request_With_Response_Payload
          else
            (case own ps ''params'' of
               None \<Rightarrow> Inl Params_Missing
             | Some params \<Rightarrow>
                 if has_own ps ''id'' then
                   (case as_request_id (own ps ''id'') of
                      None \<Rightarrow> Inl Bad_Server_Request_Id
                    | Some i \<Rightarrow> Inr (Server_Request i m params (classify_server_request m = Approved)))
                 else Inr (Notification m params (classify_server_notification m = Reviewed)))
      | _ \<Rightarrow> Inl Method_Not_A_String)"

definition validate_response :: "(jsstr \<times> json) list \<Rightarrow> envelope_error + incoming" where
  "validate_response ps =
     (case as_request_id (own ps ''id'') of
        None \<Rightarrow> Inl Bad_Response_Id
      | Some i \<Rightarrow>
          if has_own ps ''params'' then Inl Response_With_Params
          else if has_own ps ''result'' = has_own ps ''error'' then Inl Not_Exactly_One_Payload
          else if has_own ps ''error'' then
            (case as_rpc_error (own ps ''error'') of
               None \<Rightarrow> Inl Bad_Error_Payload
             | Some e \<Rightarrow> Inr (Response i (Inl e)))
          else
            (case own ps ''result'' of
               None \<Rightarrow> Inl Not_Exactly_One_Payload
             | Some r \<Rightarrow> Inr (Response i (Inr r))))"

definition validate_incoming_message :: "json \<Rightarrow> envelope_error + incoming" where
  "validate_incoming_message v =
     (case as_record v of
        None \<Rightarrow> Inl Not_An_Object
      | Some ps \<Rightarrow> if has_own ps ''method'' then validate_method_message ps else validate_response ps)"

section \<open>The envelopes of valid messages\<close>

definition id_json :: "request_id \<Rightarrow> json" where
  "id_json i = (case i of Id_String s \<Rightarrow> JStr s | Id_Number n \<Rightarrow> JNum (NInt n))"

definition error_json :: "rpc_error \<Rightarrow> json" where
  "error_json e =
     JObj ([(js ''code'', JNum (NInt (error_code e))), (js ''message'', JStr (error_message e))]
       @ (case error_data e of None \<Rightarrow> [] | Some d \<Rightarrow> [(js ''data'', d)]))"

fun envelope :: "incoming \<Rightarrow> json" where
  "envelope (Response i (Inl e)) = JObj [(js ''id'', id_json i), (js ''error'', error_json e)]"
| "envelope (Response i (Inr r)) = JObj [(js ''id'', id_json i), (js ''result'', r)]"
| "envelope (Notification m p _) = JObj [(js ''method'', JStr m), (js ''params'', p)]"
| "envelope (Server_Request i m p _) =
     JObj [(js ''id'', id_json i), (js ''method'', JStr m), (js ''params'', p)]"

fun id_ok :: "request_id \<Rightarrow> bool" where
  "id_ok (Id_String _) = True"
| "id_ok (Id_Number n) = safe_int n"

text \<open>The flags of a message are determined by its method.\<close>

fun message_ok :: "incoming \<Rightarrow> bool" where
  "message_ok (Response i (Inl e)) = (id_ok i \<and> safe_int (error_code e))"
| "message_ok (Response i (Inr r)) = id_ok i"
| "message_ok (Notification m _ reviewed) = (reviewed = (classify_server_notification m = Reviewed))"
| "message_ok (Server_Request i m _ approved) =
     (id_ok i \<and> approved = (classify_server_request m = Approved))"

lemma as_request_id_json [simp]: "id_ok i \<Longrightarrow> as_request_id (Some (id_json i)) = Some i"
  by (cases i) (simp_all add: as_request_id_def id_json_def)

lemma as_rpc_error_json [simp]: "safe_int (error_code e) \<Longrightarrow> as_rpc_error (Some (error_json e)) = Some e"
  by (cases e) (auto simp: as_rpc_error_def error_json_def own_def split: option.splits)

lemma as_request_id_ok: "as_request_id v = Some i \<Longrightarrow> id_ok i \<and> v = Some (id_json i)"
  by (auto simp: as_request_id_def id_json_def split: option.splits json.splits jsnum.splits if_splits)

lemma as_rpc_error_ok: "as_rpc_error v = Some e \<Longrightarrow> safe_int (error_code e)"
  by (auto simp: as_rpc_error_def split: option.splits json.splits jsnum.splits if_splits)

section \<open>Properties\<close>

text \<open>Which own properties an object carries when it stands for a message.\<close>

fun carries :: "(jsstr \<times> json) list \<Rightarrow> incoming \<Rightarrow> bool" where
  "carries ps (Response i payload) =
     (as_request_id (own ps ''id'') = Some i \<and> own ps ''method'' = None \<and> own ps ''params'' = None \<and>
      (case payload of
         Inl e \<Rightarrow> own ps ''result'' = None \<and> as_rpc_error (own ps ''error'') = Some e
       | Inr r \<Rightarrow> own ps ''error'' = None \<and> own ps ''result'' = Some r))"
| "carries ps (Notification m p reviewed) =
     (own ps ''method'' = Some (JStr m) \<and> own ps ''params'' = Some p \<and> own ps ''id'' = None \<and>
      own ps ''result'' = None \<and> own ps ''error'' = None \<and>
      reviewed = (m \<in> set server_notification_methods))"
| "carries ps (Server_Request i m p approved) =
     (own ps ''method'' = Some (JStr m) \<and> own ps ''params'' = Some p \<and>
      as_request_id (own ps ''id'') = Some i \<and> own ps ''result'' = None \<and> own ps ''error'' = None \<and>
      approved = (m \<in> set server_request_methods))"

lemma as_request_id_None [simp]: "as_request_id None = None" "as_rpc_error None = None"
  by (simp_all add: as_request_id_def as_rpc_error_def)

lemma validate_method_message_iff:
  "has_own ps ''method'' \<Longrightarrow> validate_method_message ps = Inr m \<longleftrightarrow> carries ps m"
  by (cases m)
    (auto simp: validate_method_message_def has_own_def classify_server_request_def
      classify_server_notification_def split: option.splits json.splits if_splits)

lemma validate_response_iff:
  "\<not> has_own ps ''method'' \<Longrightarrow> validate_response ps = Inr m \<longleftrightarrow> carries ps m"
  by (cases m)
    (auto simp: validate_response_def has_own_def split: option.splits if_splits sum.splits)

text \<open>C38. The validator accepts a JSON value as a message exactly when it is an object that
  carries the message: its identifier, method and payload in the right combination, with the
  reviewed or approved flag set exactly for the methods of the reviewed lists.\<close>

theorem validate_incoming_iff:
  "validate_incoming_message v = Inr m \<longleftrightarrow> (\<exists>ps. v = JObj ps \<and> carries ps m)"
proof (cases v)
  case (JObj ps)
  then show ?thesis
    by (cases "has_own ps ''method''")
      (simp_all add: validate_incoming_message_def as_record_def validate_method_message_iff
        validate_response_iff)
qed (simp_all add: validate_incoming_message_def as_record_def)

text \<open>The JSON layer of the wire format: printing, parsing and validating an envelope.\<close>

lemma carries_envelope: "message_ok m \<Longrightarrow> \<exists>ps. envelope m = JObj ps \<and> carries ps m"
  by (cases m rule: envelope.cases)
    (auto simp: own_def classify_server_request_def classify_server_notification_def)

definition payload_canonical :: "incoming \<Rightarrow> bool" where
  "payload_canonical m =
     (case m of
        Response _ (Inl e) \<Rightarrow> (case error_data e of None \<Rightarrow> True | Some d \<Rightarrow> json_canonical d)
      | Response _ (Inr r) \<Rightarrow> json_canonical r
      | Notification _ p _ \<Rightarrow> json_canonical p
      | Server_Request _ _ p _ \<Rightarrow> json_canonical p)"

lemma json_canonical_id [simp]: "id_ok i \<Longrightarrow> json_canonical (id_json i)"
  by (cases i) (simp_all add: id_json_def is_safe_integer_def)

lemma json_canonical_error:
  "safe_int (error_code e) \<Longrightarrow> (case error_data e of None \<Rightarrow> True | Some d \<Rightarrow> json_canonical d) \<Longrightarrow>
     json_canonical (error_json e)"
  by (auto simp: error_json_def is_safe_integer_def build_object_plain split: option.splits)

lemma json_canonical_envelope:
  "message_ok m \<Longrightarrow> payload_canonical m \<Longrightarrow> json_canonical (envelope m)"
  by (cases m rule: envelope.cases)
    (auto simp: payload_canonical_def build_object_plain json_canonical_error simp del: json_canonical.simps(2))

lemma message_roundtrip:
  assumes "message_ok m" and "payload_canonical m"
  shows "map_option validate_incoming_message (json_parse (json_stringify (envelope m))) = Some (Inr m)"
proof -
  from assms(1) obtain ps where "envelope m = JObj ps" "carries ps m"
    using carries_envelope by blast
  then have "validate_incoming_message (envelope m) = Inr m"
    by (simp add: validate_incoming_iff)
  with assms show ?thesis by (simp add: json_roundtrip json_canonical_envelope)
qed

end
