(* ===== verification/Wire.thy ===== *)
theory Wire
  imports Framer Utf8 Validator
begin

text \<open>
  The wire format as a whole: JSON text is valid UTF-8 without control characters, so one
  printed message is exactly one line of the framer, and reading that line gives the message
  back. \<open>read_line\<close> is the decode, parse and validate pipeline of \<open>handleData\<close> in
  \<open>src/node/ride-codex-jsonl-client.ts\<close>.
\<close>

section \<open>JSON text is clean\<close>

definition clean :: "jsstr \<Rightarrow> bool" where
  "clean s \<longleftrightarrow> well_formed s \<and> (\<forall>c \<in> set s. 0x20 \<le> unat c)"

lemma code_points_append:
  "well_formed a \<Longrightarrow> code_points (a @ b) = code_points a @ code_points b"
proof (induction a rule: code_points.induct)
  case (2 c)
  then have "\<not> is_high c" by (simp add: well_formed_def)
  then show ?case by (cases b) simp_all
next
  case (3 h l r)
  show ?case
  proof (cases "is_high h \<and> is_low l")
    case True
    with 3 show ?thesis by (simp add: well_formed_def)
  next
    case False
    with "3.prems" have "well_formed (l # r)" by (auto simp: well_formed_def)
    from "3.IH"(2) [OF False this] False show ?thesis by auto
  qed
qed simp

lemma well_formed_append: "well_formed a \<Longrightarrow> well_formed b \<Longrightarrow> well_formed (a @ b)"
  by (auto simp: well_formed_def [of "a @ b"] code_points_append) (auto simp: well_formed_def)

lemma clean_append [simp]: "clean a \<Longrightarrow> clean b \<Longrightarrow> clean (a @ b)"
  by (auto simp: clean_def well_formed_append)

lemma clean_Nil [simp]: "clean []"
  by (simp add: clean_def well_formed_def)

lemma clean_ascii: "(\<And>c. c \<in> set s \<Longrightarrow> 0x20 \<le> unat c \<and> unat c < 0x80) \<Longrightarrow> clean s"
  by (force simp: clean_def well_formed_def code_points_ascii ascii_def is_high_def is_low_def)

lemma clean_concat: "(\<And>s. s \<in> set ss \<Longrightarrow> clean s) \<Longrightarrow> clean (concat ss)"
  by (induction ss) simp_all

lemma clean_digits [simp]: "clean (nat_digits n)" "clean (take k (nat_digits n))" "clean (drop k (nat_digits n))"
  by (rule clean_ascii, force simp: is_digit_def dest: nat_digits_digits in_set_takeD in_set_dropD)+

lemma clean_zeros [simp]: "clean (replicate k (digit_unit 0))"
  by (rule clean_ascii) simp

lemma clean_js: "(\<And>c. c \<in> set s \<Longrightarrow> 0x20 \<le> (of_char c :: nat) \<and> (of_char c :: nat) < 0x80) \<Longrightarrow> clean (js s)"
  by (rule clean_ascii) (auto simp: js_def simp del: of_nat_of_char)

lemma clean_words [simp]:
  "clean (js ''null'')" "clean (js ''true'')" "clean (js ''false'')" "clean (js ''-'')" "clean (js ''+'')"
  "clean (js ''e'')" "clean (js ''.'')" "clean (js ''0.'')"
  by (rule clean_js; auto)+

lemma clean_marks [simp]:
  "clean [0x22]" "clean [0x2C]" "clean [0x3A]" "clean [0x5B]" "clean [0x5D]" "clean [0x7B]" "clean [0x7D]"
  by (rule clean_ascii; simp)+

lemma clean_json_number [simp]: "clean (json_number n)"
  by (auto simp: json_number_def int_to_string_def rat_to_string_def positive_to_string_def
      format_decimal_def Let_def split: jsnum.split prod.split)

lemma unat_hex_unit: "d < 16 \<Longrightarrow> 0x20 \<le> unat (hex_unit d) \<and> unat (hex_unit d) < 0x80"
  by (simp add: hex_unit_def unat_of_nat del: of_nat_add)

lemma clean_unicode_escape: "clean (unicode_escape c)"
proof (rule clean_ascii)
  fix u
  assume "u \<in> set (unicode_escape c)"
  moreover have "unat c div 4096 < 16" using unat_16 [of c] by simp
  ultimately show "0x20 \<le> unat u \<and> unat u < 0x80"
    by (auto simp: unicode_escape_def Let_def intro: unat_hex_unit [THEN conjunct1] unat_hex_unit [THEN conjunct2])
qed

lemma clean_quote_unit: "clean (quote_unit c)"
proof -
  have "clean [c]" if "\<not> (unat c < 0x20 \<or> is_high c \<or> is_low c)"
    using that by (simp add: clean_def well_formed_def)
  moreover have "clean [0x5C, e]" if "e \<in> {0x22, 0x5C, 0x62, 0x66, 0x6E, 0x72, 0x74}" for e
    using that by (intro clean_ascii) auto
  ultimately show ?thesis by (simp add: quote_unit_def clean_unicode_escape)
qed

lemma clean_quote_code_point: "code_point cp \<Longrightarrow> clean (quote_code_point cp)"
proof (cases cp rule: code_points.cases)
  case (3 h l r)
  assume "code_point cp"
  with 3 have "cp = [h, l]" "is_high h" "is_low l" by (auto simp: code_point_def split: if_splits)
  then show ?thesis
    by (simp add: quote_code_point_def clean_def well_formed_def is_high_def is_low_def)
qed (simp_all add: quote_code_point_def clean_quote_unit code_point_def)

lemma clean_quote_string [simp]: "clean (quote_string s)"
  by (auto simp: quote_string_def simp del: append_Cons
      intro!: clean_append clean_concat clean_quote_code_point code_points_are_code_points)

lemma clean_comma_separated: "(\<And>s. s \<in> set ss \<Longrightarrow> clean s) \<Longrightarrow> clean (comma_separated ss)"
  by (induction ss rule: comma_separated.induct) (simp_all del: append_Cons)

lemma clean_json_stringify [simp]: "clean (json_stringify v)"
  by (induction v rule: json_stringify.induct)
    (auto simp del: append_Cons intro!: clean_append clean_comma_separated)

section \<open>One message, one line\<close>

lemma utf8_code_point_printable:
  assumes "code_point cp" "\<And>c. c \<in> set cp \<Longrightarrow> 0x20 \<le> unat c" "b \<in> set (utf8_code_point cp)"
  shows "0x20 \<le> unat b"
proof (cases cp rule: code_points.cases)
  case 1
  with assms(1) show ?thesis by (simp add: code_point_def)
next
  case (2 c)
  have "unat c div 4096 < 16" using unat_16 [of c] by simp
  with 2 assms(2,3) show ?thesis by (auto simp: Let_def split: if_splits)
next
  case (3 h l r)
  with assms(1) have hl: "is_high h" "is_low l" by (auto simp: code_point_def split: if_splits)
  then have "unat h - 0xD800 \<le> 1023" "unat l - 0xDC00 \<le> 1023" by (auto simp: is_high_def is_low_def)
  then have "(0x10000 + (unat h - 0xD800) * 1024 + (unat l - 0xDC00)) div 262144 < 5" by linarith
  with 3 assms(3) show ?thesis by (auto simp: Let_def)
qed

lemma clean_bytes: "clean s \<Longrightarrow> b \<in> set (utf8_encode s) \<Longrightarrow> 0x20 \<le> unat b"
proof -
  assume s: "clean s" and b: "b \<in> set (utf8_encode s)"
  then obtain cp where cp: "cp \<in> set (code_points s)" "b \<in> set (utf8_code_point cp)"
    by (auto simp: utf8_encode_def)
  have "set cp \<subseteq> set (concat (code_points s))" using cp(1) by (auto simp del: concat_code_points)
  then have "set cp \<subseteq> set s" by simp
  with s have "\<And>c. c \<in> set cp \<Longrightarrow> 0x20 \<le> unat c" by (auto simp: clean_def)
  with cp show ?thesis using utf8_code_point_printable code_points_are_code_points by blast
qed

lemma clean_line: "clean s \<Longrightarrow> newline \<notin> set (utf8_encode s) \<and> strip_cr (utf8_encode s) = utf8_encode s"
proof -
  assume s: "clean s"
  have "newline \<notin> set (utf8_encode s)" "carriage_return \<notin> set (utf8_encode s)"
    using clean_bytes [OF s] by (force simp: newline_def carriage_return_def)+
  then show ?thesis using last_in_set by (fastforce simp: strip_cr_def ends_with_def)
qed

lemma push_line:
  assumes "framer_ok f" "\<not> framer_failed f" "unfinished f = []" "newline \<notin> set line"
    "fits (max_line_bytes f) line"
  obtains f' where "push f (line @ [newline]) = (Inr [strip_cr line], f')" "framer_ok f'"
    "unfinished f' = []" "max_line_bytes f' = max_line_bytes f" "\<not> framer_failed f'"
proof -
  have split: "split_lines [] (line @ [newline]) = ([line], [])"
    using assms(4) by (simp add: split_lines_append split_lines_no_newline)
  with assms have "all_fit (max_line_bytes f) (split_lines (unfinished f) (line @ [newline]))"
    by (auto simp: all_fit_def framer_ok_def fits_def)
  with push_spec [OF assms(1,2), of "line @ [newline]"] assms(3) split that show ?thesis by auto
qed

section \<open>Reading a line\<close>

datatype read_error = Invalid_Utf8 | Malformed_Json | Envelope envelope_error

definition read_line :: "byte list \<Rightarrow> read_error + incoming" where
  "read_line line =
     (case text_decode line of
        None \<Rightarrow> Inl Invalid_Utf8
      | Some text \<Rightarrow>
          (case json_parse text of
             None \<Rightarrow> Inl Malformed_Json
           | Some value \<Rightarrow>
               (case validate_incoming_message value of
                  Inl e \<Rightarrow> Inl (Envelope e)
                | Inr m \<Rightarrow> Inr m)))"

text \<open>The line that carries a message.\<close>

definition message_line :: "incoming \<Rightarrow> byte list" where
  "message_line m = utf8_encode (json_stringify (envelope m))"

lemma envelope_text: "\<exists>s. json_stringify (envelope m) = 0x7B # s"
  by (cases m rule: envelope.cases) auto

lemma text_decode_message: "text_decode (message_line m) = Some (json_stringify (envelope m))"
proof -
  obtain s where s: "json_stringify (envelope m) = 0x7B # s" using envelope_text by blast
  have "clean (json_stringify (envelope m))" by simp
  then have wf: "well_formed (json_stringify (envelope m))" by (simp only: clean_def)
  have "code_points (0x7B # s) = [0x7B] # code_points s"
    using code_points_append [of "[0x7B]" s] by (simp add: well_formed_def is_high_def is_low_def)
  then have "hd (message_line m) = 0x7B" by (simp add: message_line_def s utf8_encode_def byte_of_def)
  then have "take 3 (message_line m) \<noteq> [0xEF, 0xBB, 0xBF]" by (cases "message_line m") auto
  with text_decode_encode [OF wf] show ?thesis by (simp add: message_line_def)
qed


lemma read_message_line:
  assumes "message_ok m" "payload_canonical m"
  shows "read_line (message_line m) = Inr m"
  using message_roundtrip [OF assms]
  by (auto simp: read_line_def text_decode_message split: option.splits)

section \<open>Properties\<close>

lemma split_lines_messages:
  "list_all (\<lambda>l. newline \<notin> set l) ls \<Longrightarrow> split_lines [] (concat (map (\<lambda>l. l @ [newline]) ls)) = (ls, [])"
  by (induction ls) (simp_all add: split_lines_append split_lines_no_newline)

text \<open>C25. The wire format is lossless: well-formed messages printed one per line, sent as UTF-8
  and cut into chunks in any way, are framed, decoded, parsed and validated back to the same
  messages in the same order, as long as each line fits the framer's limit.\<close>

theorem wire_roundtrip:
  assumes "new_framer limit = Inr f"
    and "\<forall>m \<in> set ms. message_ok m \<and> payload_canonical m \<and> int (length (message_line m)) \<le> max_line_bytes f"
    and "concat chunks = concat (map (\<lambda>m. message_line m @ [newline]) ms)"
  shows "\<exists>lines. fst (push_all f chunks) = Inr lines \<and> map read_line lines = map Inr ms"
proof -
  have line: "newline \<notin> set (message_line m)" "strip_cr (message_line m) = message_line m" for m
    using clean_line [of "json_stringify (envelope m)"] by (simp_all add: message_line_def)
  then have split: "split_lines [] (concat chunks) = (map message_line ms, [])"
    using split_lines_messages [of "map message_line ms"] assms(3) by (simp add: list_all_iff comp_def)
  have "all_fit (max_line_bytes f) (split_lines [] (concat chunks))"
    using assms(2) new_framer_ok [OF assms(1)]
    by (auto simp: split all_fit_def list_all_iff fits_def line strip_cr_def ends_with_def)
  with push_all_spec [of f chunks] new_framer_ok [OF assms(1)] assms(2) show ?thesis
    by (simp add: split line comp_def read_message_line)
qed

lemma short_response_length: "length (message_line (Response (Id_Number 7) (Inr JNull))) = 22"
proof -
  have printed: "json_stringify (envelope (Response (Id_Number 7) (Inr JNull))) =
      [0x7B, 0x22, 0x69, 0x64, 0x22, 0x3A, 0x37, 0x2C, 0x22, 0x72, 0x65, 0x73,
       0x75, 0x6C, 0x74, 0x22, 0x3A, 0x6E, 0x75, 0x6C, 0x6C, 0x7D]"
    by (simp add: quote_string_def quote_code_point_def quote_unit_def js_def is_high_def is_low_def
        id_json_def json_number_def safe_int_def max_safe_integer_def int_to_string_def nat_digits.simps
        digit_unit_def)
  then show ?thesis
    by (simp add: message_line_def utf8_encode_ascii ascii_def)
qed

theorem wire_roundtrip_witness:
  "\<exists>f lines. new_framer (NInt 30) = Inr f \<and>
     fst (push_all f [message_line (Response (Id_Number 7) (Inr JNull)), [newline]]) = Inr lines \<and>
     map read_line lines = [Inr (Response (Id_Number 7) (Inr JNull))]"
proof -
  obtain f where f: "new_framer (NInt 30) = Inr f" "max_line_bytes f = 30"
    by (simp add: new_framer_def safe_int_def max_safe_integer_def)
  with short_response_length f wire_roundtrip [OF f(1), of "[Response (Id_Number 7) (Inr JNull)]"
      "[message_line (Response (Id_Number 7) (Inr JNull)), [newline]]"]
  show ?thesis by (simp add: payload_canonical_def safe_int_def max_safe_integer_def)
qed

end
