(* ===== verification/JsMap.thy ===== *)
theory JsMap
  imports Prelude
begin

text \<open>
  JavaScript's \<open>Map\<close>: keys in insertion order, a \<open>set\<close> on a present key keeps its place. The
  locale \<open>keyed_store\<close> is the contract the components rely on (request tables, item
  tables); the insertion ordered association list provides it.
\<close>

section \<open>The operations\<close>

type_synonym ('k, 'v) jsmap = "('k \<times> 'v) list"

definition map_get :: "('k, 'v) jsmap \<Rightarrow> 'k \<Rightarrow> 'v option" where
  "map_get m k = map_of m k"

definition map_has :: "('k, 'v) jsmap \<Rightarrow> 'k \<Rightarrow> bool" where
  "map_has m k \<longleftrightarrow> k \<in> fst ` set m"

definition map_set :: "('k, 'v) jsmap \<Rightarrow> 'k \<Rightarrow> 'v \<Rightarrow> ('k, 'v) jsmap" where
  "map_set m k v =
     (if map_has m k then map (\<lambda>p. if fst p = k then (k, v) else p) m else m @ [(k, v)])"

definition map_delete :: "('k, 'v) jsmap \<Rightarrow> 'k \<Rightarrow> ('k, 'v) jsmap" where
  "map_delete m k = filter (\<lambda>p. fst p \<noteq> k) m"

definition map_keys :: "('k, 'v) jsmap \<Rightarrow> 'k list" where
  "map_keys m = map fst m"

definition map_ok :: "('k, 'v) jsmap \<Rightarrow> bool" where
  "map_ok m \<longleftrightarrow> distinct (map_keys m)"

section \<open>The contract\<close>

locale keyed_store =
  fixes empty_store :: 'm
    and get :: "'m \<Rightarrow> 'k \<Rightarrow> 'v option"
    and put :: "'m \<Rightarrow> 'k \<Rightarrow> 'v \<Rightarrow> 'm"
    and remove :: "'m \<Rightarrow> 'k \<Rightarrow> 'm"
    and keys :: "'m \<Rightarrow> 'k list"
    and ok :: "'m \<Rightarrow> bool"
  assumes ok_empty: "ok empty_store"
    and ok_put: "ok m \<Longrightarrow> ok (put m k v)"
    and ok_remove: "ok m \<Longrightarrow> ok (remove m k)"
    and keys_empty: "keys empty_store = []"
    and keys_put: "keys (put m k v) = (if k \<in> set (keys m) then keys m else keys m @ [k])"
    and keys_remove: "keys (remove m k) = filter (\<lambda>k'. k' \<noteq> k) (keys m)"
    and keys_distinct: "ok m \<Longrightarrow> distinct (keys m)"
    and get_put: "get (put m k v) k' = (if k' = k then Some v else get m k')"
    and get_remove: "get (remove m k) k' = (if k' = k then None else get m k')"
    and get_keys: "get m k = None \<longleftrightarrow> k \<notin> set (keys m)"
begin

lemma removed_absent: "k \<notin> set (keys (remove m k))"
  by (simp add: keys_remove)

lemma put_present: "k \<in> set (keys (put m k v))"
  by (simp add: keys_put)

lemma remove_absent_keys: "k \<notin> set (keys m) \<Longrightarrow> keys (remove m k) = keys m"
  by (auto simp: keys_remove intro: filter_True)

lemma put_remove_keys:
  "k \<notin> set (keys m) \<Longrightarrow> keys (remove (put m k v) k) = keys m"
  by (auto simp: keys_put keys_remove intro: filter_True)

lemma size_put: "length (keys (put m k v)) \<le> Suc (length (keys m))"
  by (simp add: keys_put)

lemma size_remove: "length (keys (remove m k)) \<le> length (keys m)"
  by (simp add: keys_remove)

text \<open>Taking a present key out makes room for exactly one entry.\<close>

lemma size_remove_present:
  assumes "ok m" "k \<in> set (keys m)"
  shows "Suc (length (keys (remove m k))) = length (keys m)"
proof -
  have "length (filter (\<lambda>k'. k' \<noteq> k) (keys m)) + length (filter (\<lambda>k'. k' = k) (keys m)) = length (keys m)"
    using sum_length_filter_compl [of "\<lambda>k'. k' \<noteq> k" "keys m"] by simp
  moreover have "length (filter (\<lambda>k'. k' = k) (keys m)) = 1"
    using keys_distinct [OF assms(1)] assms(2)
    by (induction "keys m") (auto simp: distinct_length_filter)
  ultimately show ?thesis by (simp add: keys_remove)
qed

lemma get_present: "k \<in> set (keys m) \<Longrightarrow> \<exists>v. get m k = Some v"
  using get_keys [of m k] by (cases "get m k") auto

end

section \<open>The insertion ordered list provides it\<close>

lemma map_keys_set: "map_keys (map_set m k v) = (if map_has m k then map_keys m else map_keys m @ [k])"
  by (auto simp: map_keys_def map_set_def)

lemma map_has_keys: "map_has m k \<longleftrightarrow> k \<in> set (map_keys m)"
  by (simp add: map_has_def map_keys_def)

lemma map_of_replace:
  "map_of (map (\<lambda>p. if fst p = k then (k, v) else p) m) k' =
     (if k' = k then (if k \<in> fst ` set m then Some v else None) else map_of m k')"
proof (induction m)
  case Nil
  show ?case by simp
next
  case (Cons p m)
  then show ?case by (cases p; cases "k' = k") auto
qed

lemma map_get_set: "map_get (map_set m k v) k' = (if k' = k then Some v else map_get m k')"
proof (cases "map_has m k")
  case True
  then show ?thesis by (simp add: map_get_def map_set_def map_of_replace) (simp add: map_has_def)
next
  case False
  then have "map_of m k = None" by (simp add: map_has_def map_of_eq_None_iff)
  with False show ?thesis by (auto simp: map_get_def map_set_def map_add_def split: option.splits)
qed

lemma map_get_delete: "map_get (map_delete m k) k' = (if k' = k then None else map_get m k')"
  by (induction m) (auto simp: map_get_def map_delete_def)

lemma map_keys_delete: "map_keys (map_delete m k) = filter (\<lambda>k'. k' \<noteq> k) (map_keys m)"
  by (simp add: map_keys_def map_delete_def filter_map comp_def)

interpretation jsmap: keyed_store "[]" map_get map_set map_delete map_keys map_ok
proof
  show "map_ok []" by (simp add: map_ok_def map_keys_def)
  show "map_ok m \<Longrightarrow> map_ok (map_set m k v)" for m :: "('a, 'b) jsmap" and k v
    by (auto simp: map_ok_def map_keys_set map_has_keys)
  show "map_ok m \<Longrightarrow> map_ok (map_delete m k)" for m :: "('a, 'b) jsmap" and k
    by (simp add: map_ok_def map_keys_delete)
  show "map_get m k = None \<longleftrightarrow> k \<notin> set (map_keys m)" for m :: "('a, 'b) jsmap" and k
    by (simp add: map_get_def map_keys_def map_of_eq_None_iff)
qed (simp_all add: map_ok_def map_keys_set map_has_keys map_keys_delete map_get_set map_get_delete,
    simp_all add: map_keys_def)

text \<open>Membership in a map read through \<open>map_set\<close> and \<open>map_delete\<close>.\<close>

lemma map_has_set [simp]: "map_has (map_set m k v) k' \<longleftrightarrow> k' = k \<or> map_has m k'"
  by (auto simp: map_has_keys map_keys_set)

lemma map_has_delete [simp]: "map_has (map_delete m k) k' \<longleftrightarrow> k' \<noteq> k \<and> map_has m k'"
  by (auto simp: map_has_keys map_keys_delete)

lemma map_has_get: "map_has m k \<longleftrightarrow> map_get m k \<noteq> None"
  by (simp add: map_has_keys jsmap.get_keys)

lemma length_map_keys [simp]: "length (map_keys m) = length m"
  by (simp add: map_keys_def)

end
