(* ===== verification/Client.thy ===== *)
theory Client
  imports Wire JsMap "HOL-Library.Multiset"
begin

text \<open>
  The JSON-RPC client over the framed transport (\<open>src/node/ride-codex-jsonl-client.ts\<close>).
  Its state is a record, its operations are functions on it, and what it does to the outside
  (text sent, promises settled, listeners called) is appended to the history \<open>log\<close>. The
  transport and the listeners are parameters (record \<open>env\<close>): whether a write throws, and
  which client operations a listener calls synchronously before it returns or throws.
\<close>

section \<open>State\<close>

datatype reason =
    Disposed
  | Framing framer_error
  | Protocol read_error
  | Unknown_Response request_id
  | Duplicate_Inbound
  | Inbound_Full int
  | Response_Refused call_error
  | Exited
  | Exit_Reason jsstr
  | Write_Failed
and call_error =
    Closed_Error "reason option"
  | Unsupported_Method jsstr
  | Pending_Full int
  | Invalid_Timeout
  | Ids_Exhausted
  | Request_Unserializable
  | Response_Unserializable
  | Notification_Unserializable
  | Envelope_Unserializable
  | Invalid_Response_Id
  | Not_Owned
  | Invalid_Error_Code
  | Invalid_Error_Message
  | Unsupported_Notification jsstr
  | Write_Failure

datatype settlement =
    Resolved json
  | Rejected_Remote rpc_error
  | Rejected_Timeout int
  | Rejected_Closed reason

datatype diagnostic = Unknown_Notification | Notification_Listener_Error | Request_Listener_Error

text \<open>The history. \<open>Issued\<close>, \<open>Owned\<close> and \<open>Answered\<close> record that a request promise was handed
  out, that an inbound request was registered and that its response authority was consumed.\<close>

datatype effect =
    Sent jsstr
  | Issued int
  | Settled int settlement
  | Owned request_id
  | Answered request_id
  | Notified nat jsstr json
  | Requested nat request_id jsstr json
  | Diagnosed nat diagnostic
  | Detached
  | Transport_Closed

record client =
  line_framer :: framer
  pending :: "(int, int) jsmap"
  inbound :: "(request_id, bool) jsmap"
  notification_listeners :: "nat list"
  request_listeners :: "nat list"
  diagnostic_listeners :: "nat list"
  attached :: bool
  max_pending :: int
  max_diagnostics :: int
  next_request_id :: "int option"
  unknown_count :: int
  closed :: bool
  close_reason :: "reason option"
  transport_close_requested :: bool
  log :: "effect list"

text \<open>An argument of an outgoing call as \<open>JSON.stringify\<close> sees it: absent, a value with a JSON
  projection, or one on which it throws.\<close>

datatype outbound = Undefined | Value json | Unserializable

datatype listener_kind = On_Notification | On_Request | On_Diagnostic

datatype api_call =
    Call_Request jsstr outbound jsnum
  | Call_Respond request_id outbound
  | Call_Respond_Confirmed request_id outbound
  | Call_Respond_Error request_id jsnum jsstr
  | Call_Notify jsstr outbound
  | Call_Notify_Confirmed jsstr outbound
  | Call_Dispose
  | Call_Subscribe listener_kind nat
  | Call_Unsubscribe listener_kind nat

datatype listener_end = Returns | Throws

record env =
  write_throws :: "client \<Rightarrow> jsstr \<Rightarrow> bool"
  on_notification :: "client \<Rightarrow> nat \<Rightarrow> jsstr \<Rightarrow> json \<Rightarrow> api_call list \<times> listener_end"
  on_request :: "client \<Rightarrow> nat \<Rightarrow> request_id \<Rightarrow> jsstr \<Rightarrow> json \<Rightarrow> api_call list \<times> listener_end"
  on_diagnostic :: "client \<Rightarrow> nat \<Rightarrow> diagnostic \<Rightarrow> api_call list"

section \<open>Construction\<close>

record client_options =
  opt_max_line_bytes :: "jsnum option"
  opt_max_pending :: "jsnum option"
  opt_max_diagnostics :: "jsnum option"
  opt_initial_request_id :: "jsnum option"

datatype options_error = Invalid_Limit int | Invalid_Initial_Id | Invalid_Framer framer_error

definition default_max_line_bytes :: int where "default_max_line_bytes = 8 * 1024 * 1024"
definition default_max_pending :: int where "default_max_pending = 128"
definition default_max_diagnostics :: int where "default_max_diagnostics = 32"
definition max_timer_ms :: int where "max_timer_ms = 0x7fffffff"
definition max_request_id_length :: nat where "max_request_id_length = 1024"
definition max_error_message_length :: nat where "max_error_message_length = 16 * 1024"

definition or_default :: "jsnum option \<Rightarrow> int \<Rightarrow> jsnum" where
  "or_default v d = (case v of None \<Rightarrow> NInt d | Some n \<Rightarrow> n)"

definition validate_limit :: "jsnum \<Rightarrow> int \<Rightarrow> options_error + int" where
  "validate_limit v minimum =
     (case v of
        NInt n \<Rightarrow> if safe_int n \<and> minimum \<le> n then Inr n else Inl (Invalid_Limit minimum)
      | _ \<Rightarrow> Inl (Invalid_Limit minimum))"

text \<open>The field initialisers of the class, with what the constructor assigns.\<close>

definition fresh_client :: "framer \<Rightarrow> int \<Rightarrow> int \<Rightarrow> int \<Rightarrow> client" where
  "fresh_client f mp md i =
     \<lparr>line_framer = f, pending = [], inbound = [], notification_listeners = [],
      request_listeners = [], diagnostic_listeners = [], attached = True,
      max_pending = mp, max_diagnostics = md, next_request_id = Some i,
      unknown_count = 0, closed = False, close_reason = None,
      transport_close_requested = False, log = []\<rparr>"

definition new_client :: "client_options \<Rightarrow> options_error + client" where
  "new_client opts =
     (case validate_limit (or_default (opt_max_pending opts) default_max_pending) 1 of
        Inl e \<Rightarrow> Inl e
      | Inr mp \<Rightarrow>
     (case validate_limit (or_default (opt_max_diagnostics opts) default_max_diagnostics) 0 of
        Inl e \<Rightarrow> Inl e
      | Inr md \<Rightarrow>
     (case or_default (opt_initial_request_id opts) 1 of
        NInt i \<Rightarrow>
          if \<not> safe_int i \<or> i < 0 then Inl Invalid_Initial_Id
          else
            (case new_framer (or_default (opt_max_line_bytes opts) default_max_line_bytes) of
               Inl e \<Rightarrow> Inl (Invalid_Framer e)
             | Inr f \<Rightarrow> Inr (fresh_client f mp md i))
      | _ \<Rightarrow> Inl Invalid_Initial_Id)))"

section \<open>Serialization\<close>

definition defined_fields :: "(string \<times> outbound) list \<Rightarrow> (jsstr \<times> json) list" where
  "defined_fields parts =
     concat (map (\<lambda>(k, v). case v of Value j \<Rightarrow> [(js k, j)] | _ \<Rightarrow> []) parts)"

definition serialize_envelope :: "(string \<times> outbound) list \<Rightarrow> string list \<Rightarrow> jsstr option" where
  "serialize_envelope parts required =
     (if Unserializable \<in> snd ` set parts then None
      else
        let serialized = json_stringify (JObj (defined_fields parts)) in
        case json_parse serialized of
          Some (JObj ps) \<Rightarrow> if list_all (has_own ps) required then Some serialized else None
        | _ \<Rightarrow> None)"

definition valid_outbound_id :: "request_id \<Rightarrow> bool" where
  "valid_outbound_id i =
     (case i of
        Id_Number n \<Rightarrow> safe_int n
      | Id_String s \<Rightarrow> s \<noteq> [] \<and> length s \<le> max_request_id_length)"

section \<open>Shutdown and writing\<close>

definition append_log :: "client \<Rightarrow> effect list \<Rightarrow> client" where
  "append_log c os = c\<lparr>log := log c @ os\<rparr>"

definition shutdown :: "reason \<Rightarrow> bool \<Rightarrow> client \<Rightarrow> client" where
  "shutdown why close_transport c =
     (if closed c then c
      else
        let rejected = map (\<lambda>i. Settled i (Rejected_Closed why)) (map_keys (pending c));
            close_now = close_transport \<and> \<not> transport_close_requested c
        in c\<lparr>closed := True, close_reason := Some why, attached := False,
             pending := [], inbound := [], notification_listeners := [], request_listeners := [],
             diagnostic_listeners := [], unknown_count := 0,
             transport_close_requested := transport_close_requested c \<or> close_now,
             log := log c @ (if attached c then [Detached] else []) @ rejected
                     @ (if close_now then [Transport_Closed] else [])\<rparr>)"

definition dispose :: "client \<Rightarrow> client" where
  "dispose c = shutdown Disposed True c"

definition write_payload :: "env \<Rightarrow> jsstr \<Rightarrow> client \<Rightarrow> client" where
  "write_payload env payload c =
     (if closed c then c
      else if write_throws env c (payload @ [0x0A]) then shutdown Write_Failed True c
      else append_log c [Sent (payload @ [0x0A])])"

text \<open>The synchronous part of a confirmed write; a rejected confirmation is an event of its own.\<close>

definition write_payload_confirmed :: "env \<Rightarrow> jsstr \<Rightarrow> client \<Rightarrow> call_error option \<times> client" where
  "write_payload_confirmed env payload c =
     (if closed c then (Some (Closed_Error (close_reason c)), c)
      else if write_throws env c (payload @ [0x0A])
        then (Some Write_Failure, shutdown Write_Failed True c)
      else (None, append_log c [Sent (payload @ [0x0A])]))"

section \<open>Outgoing operations\<close>

definition valid_timeout :: "jsnum \<Rightarrow> bool" where
  "valid_timeout t = (case t of NInt n \<Rightarrow> safe_int n \<and> 0 \<le> n \<and> n \<le> max_timer_ms | _ \<Rightarrow> False)"

definition timeout_ms :: "jsnum \<Rightarrow> int" where
  "timeout_ms t = (case t of NInt n \<Rightarrow> n | _ \<Rightarrow> 0)"

definition following_id :: "int \<Rightarrow> int option" where
  "following_id i = (if i = max_safe_integer then None else Some (i + 1))"

definition request :: "env \<Rightarrow> jsstr \<Rightarrow> outbound \<Rightarrow> jsnum \<Rightarrow> client \<Rightarrow> (call_error + int) \<times> client" where
  "request env method params timeout c =
     (if closed c then (Inl (Closed_Error (close_reason c)), c)
      else if \<not> is_stable_client_method method then (Inl (Unsupported_Method method), c)
      else if max_pending c \<le> int (length (pending c)) then (Inl (Pending_Full (max_pending c)), c)
      else if \<not> valid_timeout timeout then (Inl Invalid_Timeout, c)
      else
        (case next_request_id c of
           None \<Rightarrow> (Inl Ids_Exhausted, c)
         | Some i \<Rightarrow>
             (case serialize_envelope
                  [(''id'', Value (JNum (NInt i))), (''method'', Value (JStr method)), (''params'', params)]
                  [''id'', ''method'', ''params''] of
                None \<Rightarrow> (Inl Request_Unserializable, c)
              | Some payload \<Rightarrow>
                  let c1 = c\<lparr>next_request_id := following_id i,
                             pending := map_set (pending c) i (timeout_ms timeout),
                             log := log c @ [Issued i]\<rparr>
                  in (Inr i, write_payload env payload c1))))"

definition consume_server_request :: "request_id \<Rightarrow> client \<Rightarrow> call_error option \<times> client" where
  "consume_server_request i c =
     (if map_has (inbound c) i
      then (None, c\<lparr>inbound := map_delete (inbound c) i, log := log c @ [Answered i]\<rparr>)
      else (Some Not_Owned, c))"

definition result_fields :: "request_id \<Rightarrow> outbound \<Rightarrow> (string \<times> outbound) list" where
  "result_fields i result =
     [(''id'', Value (id_json i)), (''result'', if result = Undefined then Value JNull else result)]"

definition respond :: "env \<Rightarrow> request_id \<Rightarrow> outbound \<Rightarrow> client \<Rightarrow> call_error option \<times> client" where
  "respond env i result c =
     (if closed c then (None, c)
      else if \<not> valid_outbound_id i then (Some Invalid_Response_Id, c)
      else
        (case serialize_envelope (result_fields i result) [''id'', ''result''] of
           None \<Rightarrow> (Some Envelope_Unserializable, c)
         | Some payload \<Rightarrow>
             (case consume_server_request i c of
                (Some e, c1) \<Rightarrow> (Some e, c1)
              | (None, c1) \<Rightarrow> (None, write_payload env payload c1))))"

definition respond_confirmed ::
    "env \<Rightarrow> request_id \<Rightarrow> outbound \<Rightarrow> client \<Rightarrow> call_error option \<times> client" where
  "respond_confirmed env i result c =
     (if closed c then (Some (Closed_Error (close_reason c)), c)
      else if \<not> valid_outbound_id i then (Some Response_Unserializable, c)
      else
        (case serialize_envelope (result_fields i result) [''id'', ''result''] of
           None \<Rightarrow> (Some Response_Unserializable, c)
         | Some payload \<Rightarrow>
             (case consume_server_request i c of
                (Some e, c1) \<Rightarrow> (Some e, c1)
              | (None, c1) \<Rightarrow> write_payload_confirmed env payload c1)))"

definition notify :: "env \<Rightarrow> jsstr \<Rightarrow> outbound \<Rightarrow> client \<Rightarrow> call_error option \<times> client" where
  "notify env method params c =
     (if closed c then (Some (Closed_Error (close_reason c)), c)
      else if method \<notin> set client_notification_methods then (Some (Unsupported_Notification method), c)
      else
        (case serialize_envelope [(''method'', Value (JStr method)), (''params'', params)]
             [''method'', ''params''] of
           None \<Rightarrow> (Some Envelope_Unserializable, c)
         | Some payload \<Rightarrow> (None, write_payload env payload c)))"

definition notify_confirmed :: "env \<Rightarrow> jsstr \<Rightarrow> outbound \<Rightarrow> client \<Rightarrow> call_error option \<times> client" where
  "notify_confirmed env method params c =
     (if closed c then (Some (Closed_Error (close_reason c)), c)
      else if method \<notin> set client_notification_methods then (Some (Unsupported_Notification method), c)
      else
        (case serialize_envelope [(''method'', Value (JStr method)), (''params'', params)]
             [''method'', ''params''] of
           None \<Rightarrow> (Some Notification_Unserializable, c)
         | Some payload \<Rightarrow> write_payload_confirmed env payload c))"

definition respond_error ::
    "env \<Rightarrow> request_id \<Rightarrow> jsnum \<Rightarrow> jsstr \<Rightarrow> client \<Rightarrow> call_error option \<times> client" where
  "respond_error env i code message c =
     (if closed c then (None, c)
      else if \<not> valid_outbound_id i then (Some Invalid_Response_Id, c)
      else if \<not> is_safe_integer code then (Some Invalid_Error_Code, c)
      else if max_error_message_length < length message then (Some Invalid_Error_Message, c)
      else
        (case serialize_envelope
             [(''id'', Value (id_json i)),
              (''error'', Value (JObj [(js ''code'', JNum code), (js ''message'', JStr message)]))]
             [''id'', ''error''] of
           None \<Rightarrow> (Some Envelope_Unserializable, c)
         | Some payload \<Rightarrow>
             (case consume_server_request i c of
                (Some e, c1) \<Rightarrow> (Some e, c1)
              | (None, c1) \<Rightarrow> (None, write_payload env payload c1))))"

definition add_once :: "'a \<Rightarrow> 'a list \<Rightarrow> 'a list" where
  "add_once x xs = (if x \<in> set xs then xs else xs @ [x])"

definition subscribe :: "listener_kind \<Rightarrow> nat \<Rightarrow> client \<Rightarrow> client" where
  "subscribe kind l c =
     (case kind of
        On_Notification \<Rightarrow> c\<lparr>notification_listeners := add_once l (notification_listeners c)\<rparr>
      | On_Request \<Rightarrow> c\<lparr>request_listeners := add_once l (request_listeners c)\<rparr>
      | On_Diagnostic \<Rightarrow> c\<lparr>diagnostic_listeners := add_once l (diagnostic_listeners c)\<rparr>)"

definition unsubscribe :: "listener_kind \<Rightarrow> nat \<Rightarrow> client \<Rightarrow> client" where
  "unsubscribe kind l c =
     (case kind of
        On_Notification \<Rightarrow> c\<lparr>notification_listeners := removeAll l (notification_listeners c)\<rparr>
      | On_Request \<Rightarrow> c\<lparr>request_listeners := removeAll l (request_listeners c)\<rparr>
      | On_Diagnostic \<Rightarrow> c\<lparr>diagnostic_listeners := removeAll l (diagnostic_listeners c)\<rparr>)"

fun run_call :: "env \<Rightarrow> api_call \<Rightarrow> client \<Rightarrow> client" where
  "run_call env (Call_Request m p t) c = snd (request env m p t c)"
| "run_call env (Call_Respond i r) c = snd (respond env i r c)"
| "run_call env (Call_Respond_Confirmed i r) c = snd (respond_confirmed env i r c)"
| "run_call env (Call_Respond_Error i code m) c = snd (respond_error env i code m c)"
| "run_call env (Call_Notify m p) c = snd (notify env m p c)"
| "run_call env (Call_Notify_Confirmed m p) c = snd (notify_confirmed env m p c)"
| "run_call env Call_Dispose c = dispose c"
| "run_call env (Call_Subscribe k l) c = subscribe k l c"
| "run_call env (Call_Unsubscribe k l) c = unsubscribe k l c"

definition run_calls :: "env \<Rightarrow> api_call list \<Rightarrow> client \<Rightarrow> client" where
  "run_calls env calls c = foldl (\<lambda>c call. run_call env call c) c calls"

section \<open>Incoming messages\<close>

text \<open>Listener loops run over a copy of the listener set taken before the first call.\<close>

fun diagnostic_loop :: "env \<Rightarrow> diagnostic \<Rightarrow> nat list \<Rightarrow> client \<Rightarrow> client" where
  "diagnostic_loop env d [] c = c"
| "diagnostic_loop env d (l # ls) c =
     (let c1 = append_log c [Diagnosed l d]
      in diagnostic_loop env d ls (run_calls env (on_diagnostic env c1 l d) c1))"

definition emit_diagnostic :: "env \<Rightarrow> diagnostic \<Rightarrow> client \<Rightarrow> client" where
  "emit_diagnostic env d c = diagnostic_loop env d (diagnostic_listeners c) c"

fun notification_loop :: "env \<Rightarrow> jsstr \<Rightarrow> json \<Rightarrow> nat list \<Rightarrow> client \<Rightarrow> client" where
  "notification_loop env m p [] c = c"
| "notification_loop env m p (l # ls) c =
     (let c1 = append_log c [Notified l m p];
          c2 = run_calls env (fst (on_notification env c1 l m p)) c1;
          c3 = (if snd (on_notification env c1 l m p) = Throws
                then emit_diagnostic env Notification_Listener_Error c2 else c2)
      in notification_loop env m p ls c3)"

definition diagnose_unknown_notification :: "env \<Rightarrow> client \<Rightarrow> client" where
  "diagnose_unknown_notification env c =
     (if max_diagnostics c \<le> unknown_count c then c
      else emit_diagnostic env Unknown_Notification (c\<lparr>unknown_count := unknown_count c + 1\<rparr>))"

definition handle_notification :: "env \<Rightarrow> jsstr \<Rightarrow> json \<Rightarrow> bool \<Rightarrow> client \<Rightarrow> client" where
  "handle_notification env m p reviewed c =
     (if \<not> reviewed then diagnose_unknown_notification env c
      else notification_loop env m p (notification_listeners c) c)"

definition handle_response :: "request_id \<Rightarrow> rpc_error + json \<Rightarrow> client \<Rightarrow> reason option \<times> client" where
  "handle_response i payload c =
     (case i of
        Id_String s \<Rightarrow> (Some (Unknown_Response i), c)
      | Id_Number n \<Rightarrow>
          if \<not> map_has (pending c) n then (Some (Unknown_Response i), c)
          else (None,
            c\<lparr>pending := map_delete (pending c) n,
              log := log c @ [Settled n (case payload of Inl e \<Rightarrow> Rejected_Remote e | Inr r \<Rightarrow> Resolved r)]\<rparr>))"

definition register_server_request :: "request_id \<Rightarrow> client \<Rightarrow> reason option \<times> client" where
  "register_server_request i c =
     (if map_has (inbound c) i then (Some Duplicate_Inbound, c)
      else if max_pending c \<le> int (length (inbound c)) then (Some (Inbound_Full (max_pending c)), c)
      else (None, c\<lparr>inbound := map_set (inbound c) i True, log := log c @ [Owned i]\<rparr>))"

definition settle_listener_failure :: "env \<Rightarrow> request_id \<Rightarrow> client \<Rightarrow> client" where
  "settle_listener_failure env i c =
     (let c1 = emit_diagnostic env Request_Listener_Error c
      in if map_has (inbound c1) i
         then snd (respond_error env i (NInt (- 32603)) (js ''Internal error'') c1)
         else c1)"

fun request_loop ::
    "env \<Rightarrow> request_id \<Rightarrow> jsstr \<Rightarrow> json \<Rightarrow> nat list \<Rightarrow> bool \<Rightarrow> client \<Rightarrow> bool \<times> client" where
  "request_loop env i m p [] delivered c = (delivered, c)"
| "request_loop env i m p (l # ls) delivered c =
     (let c1 = append_log c [Requested l i m p];
          c2 = run_calls env (fst (on_request env c1 l i m p)) c1
      in if snd (on_request env c1 l i m p) = Throws
         then request_loop env i m p ls delivered (settle_listener_failure env i c2)
         else request_loop env i m p ls True c2)"

definition refused :: "call_error option \<times> client \<Rightarrow> reason option \<times> client" where
  "refused r = (map_option Response_Refused (fst r), snd r)"

definition handle_server_request ::
    "env \<Rightarrow> request_id \<Rightarrow> jsstr \<Rightarrow> json \<Rightarrow> bool \<Rightarrow> client \<Rightarrow> reason option \<times> client" where
  "handle_server_request env i m p approved c =
     (case register_server_request i c of
        (Some r, c1) \<Rightarrow> (Some r, c1)
      | (None, c1) \<Rightarrow>
          if \<not> approved
          then refused (respond_error env i (NInt (- 32601)) (js ''Method not found'') c1)
          else
            (case request_loop env i m p (request_listeners c1) False c1 of
               (delivered, c2) \<Rightarrow>
                 if \<not> delivered \<and> map_has (inbound c2) i
                 then refused (respond_error env i (NInt (- 32603)) (js ''Internal error'') c2)
                 else (None, c2)))"

fun handle_message :: "env \<Rightarrow> incoming \<Rightarrow> client \<Rightarrow> reason option \<times> client" where
  "handle_message env (Response i payload) c = handle_response i payload c"
| "handle_message env (Notification m p reviewed) c = (None, handle_notification env m p reviewed c)"
| "handle_message env (Server_Request i m p approved) c = handle_server_request env i m p approved c"

fun line_loop :: "env \<Rightarrow> byte list list \<Rightarrow> client \<Rightarrow> client" where
  "line_loop env [] c = c"
| "line_loop env (line # lines) c =
     (if closed c then c
      else
        (case read_line line of
           Inl r \<Rightarrow> shutdown (Protocol r) True c
         | Inr m \<Rightarrow>
             (case handle_message env m c of
                (Some r, c1) \<Rightarrow> shutdown r True c1
              | (None, c1) \<Rightarrow> line_loop env lines c1)))"

definition handle_data :: "env \<Rightarrow> byte list \<Rightarrow> client \<Rightarrow> client" where
  "handle_data env chunk c =
     (if closed c then c
      else
        let c1 = c\<lparr>line_framer := snd (push (line_framer c) chunk)\<rparr>
        in case fst (push (line_framer c) chunk) of
             Inl e \<Rightarrow> shutdown (Framing e) True c1
           | Inr lines \<Rightarrow> line_loop env lines c1)"

definition handle_exit :: "jsstr option \<Rightarrow> client \<Rightarrow> client" where
  "handle_exit why c = shutdown (case why of None \<Rightarrow> Exited | Some s \<Rightarrow> Exit_Reason s) False c"

definition handle_timeout :: "int \<Rightarrow> client \<Rightarrow> client" where
  "handle_timeout i c =
     (case map_get (pending c) i of
        None \<Rightarrow> c
      | Some ms \<Rightarrow>
          c\<lparr>pending := map_delete (pending c) i, log := log c @ [Settled i (Rejected_Timeout ms)]\<rparr>)"

section \<open>The client as an event driven component\<close>

datatype client_event =
    Data "byte list"
  | Exit "jsstr option"
  | Timer int
  | Listener_Rejected request_id
  | Confirmation_Failed
  | Api api_call

fun client_next :: "env \<Rightarrow> client \<Rightarrow> client_event \<Rightarrow> client" where
  "client_next env c (Data chunk) = handle_data env chunk c"
| "client_next env c (Exit why) = handle_exit why c"
| "client_next env c (Timer i) = handle_timeout i c"
| "client_next env c (Listener_Rejected i) = settle_listener_failure env i c"
| "client_next env c Confirmation_Failed = shutdown Write_Failed True c"
| "client_next env c (Api call) = run_call env call c"

definition client_step :: "env \<Rightarrow> client \<Rightarrow> client_event \<Rightarrow> client \<times> effect list" where
  "client_step env c e = (client_next env c e, drop (length (log c)) (log (client_next env c e)))"

end
