(* ===== verification/ClientSafety.thy ===== *)
theory ClientSafety
  imports Client
begin

text \<open>
  What the JSON-RPC client promises over whole runs. The contract is the step relation
  \<open>micro\<close>: the few elementary changes a client may make (issue a request, settle one, register
  or answer an inbound request, close). Every operation of \<open>Client\<close>, listener callbacks
  included, is shown to be a sequence of such changes, and the invariants are proved once per
  elementary change.
\<close>

section \<open>Reading the history\<close>

fun issued_of :: "effect \<Rightarrow> int list" where
  "issued_of (Issued i) = [i]"
| "issued_of _ = []"

fun settled_of :: "effect \<Rightarrow> int list" where
  "settled_of (Settled i _) = [i]"
| "settled_of _ = []"

fun owned_of :: "effect \<Rightarrow> request_id list" where
  "owned_of (Owned i) = [i]"
| "owned_of _ = []"

fun answered_of :: "effect \<Rightarrow> request_id list" where
  "answered_of (Answered i) = [i]"
| "answered_of _ = []"

definition issued :: "effect list \<Rightarrow> int list" where "issued os = concat (map issued_of os)"
definition settled :: "effect list \<Rightarrow> int list" where "settled os = concat (map settled_of os)"
definition owned :: "effect list \<Rightarrow> request_id list" where "owned os = concat (map owned_of os)"
definition answered :: "effect list \<Rightarrow> request_id list" where "answered os = concat (map answered_of os)"

lemmas history_defs = issued_def settled_def owned_def answered_def

lemma history_simps [simp]:
  "issued [] = []" "settled [] = []" "owned [] = []" "answered [] = []"
  "issued (x # os) = issued_of x @ issued os" "settled (x # os) = settled_of x @ settled os"
  "owned (x # os) = owned_of x @ owned os" "answered (x # os) = answered_of x @ answered os"
  "issued (os @ os') = issued os @ issued os'" "settled (os @ os') = settled os @ settled os'"
  "owned (os @ os') = owned os @ owned os'" "answered (os @ os') = answered os @ answered os'"
  by (simp_all add: history_defs)

lemma history_rejected [simp]:
  "issued (map (\<lambda>i. Settled i (f i)) ks) = []" "settled (map (\<lambda>i. Settled i (f i)) ks) = ks"
  "owned (map (\<lambda>i. Settled i (f i)) ks) = []" "answered (map (\<lambda>i. Settled i (f i)) ks) = []"
  by (induction ks) simp_all

text \<open>Calls into listeners: the effects a client may have in any state, closed or not.\<close>

fun is_call :: "effect \<Rightarrow> bool" where
  "is_call (Notified _ _ _) = True"
| "is_call (Requested _ _ _ _) = True"
| "is_call (Diagnosed _ _) = True"
| "is_call _ = False"

lemma is_call_history [simp]:
  "is_call x \<Longrightarrow> issued_of x = []" "is_call x \<Longrightarrow> settled_of x = []"
  "is_call x \<Longrightarrow> owned_of x = []" "is_call x \<Longrightarrow> answered_of x = []"
  by (cases x; simp)+

section \<open>Elementary changes\<close>

inductive micro :: "client \<Rightarrow> client \<Rightarrow> bool" where
  micro_send: "\<not> closed c \<Longrightarrow> micro c (append_log c [Sent payload])"
| micro_call: "is_call x \<Longrightarrow> micro c (append_log c [x])"
| micro_issue:
    "\<not> closed c \<Longrightarrow> int (length (pending c)) < max_pending c \<Longrightarrow> next_request_id c = Some i \<Longrightarrow>
     micro c (c\<lparr>next_request_id := following_id i,
               pending := map_set (pending c) i ms, log := log c @ [Issued i]\<rparr>)"
| micro_settle:
    "map_has (pending c) i \<Longrightarrow>
     micro c (c\<lparr>pending := map_delete (pending c) i, log := log c @ [Settled i s]\<rparr>)"
| micro_own:
    "\<not> closed c \<Longrightarrow> \<not> map_has (inbound c) r \<Longrightarrow> int (length (inbound c)) < max_pending c \<Longrightarrow>
     micro c (c\<lparr>inbound := map_set (inbound c) r True, log := log c @ [Owned r]\<rparr>)"
| micro_answer:
    "map_has (inbound c) r \<Longrightarrow>
     micro c (c\<lparr>inbound := map_delete (inbound c) r, log := log c @ [Answered r]\<rparr>)"
| micro_close: "\<not> closed c \<Longrightarrow> micro c (shutdown why close_transport c)"
| micro_listen:
    "micro c (c\<lparr>notification_listeners := ns, request_listeners := rs, diagnostic_listeners := ds\<rparr>)"
| micro_count:
    "unknown_count c < max_diagnostics c \<Longrightarrow> micro c (c\<lparr>unknown_count := unknown_count c + 1\<rparr>)"
| micro_frame: "micro c (c\<lparr>line_framer := snd (push (line_framer c) chunk)\<rparr>)"

abbreviation micros :: "client \<Rightarrow> client \<Rightarrow> bool" where "micros \<equiv> micro\<^sup>*\<^sup>*"

lemma micros_trans: "micros a b \<Longrightarrow> micros b c \<Longrightarrow> micros a c"
  by (rule rtranclp_trans)

lemma micro_then: "micro c d \<Longrightarrow> micros d e \<Longrightarrow> micros c e"
  by (rule converse_rtranclp_into_rtranclp)

lemma micros_shutdown [wf_intros]: "micros c (shutdown why b c)"
proof (cases "closed c")
  case True
  then show ?thesis by (simp add: shutdown_def)
next
  case False
  then show ?thesis by (blast intro: micro_close)
qed

lemma micros_call [wf_intros]: "is_call x \<Longrightarrow> micros c (append_log c [x])"
  by (blast intro: micro_call)

lemma micros_write [wf_intros]: "micros c (write_payload env p c)"
  by (auto simp: write_payload_def intro: wf_intros micro_send)

lemma micros_write_confirmed [wf_intros]: "micros c (snd (write_payload_confirmed env p c))"
  by (auto simp: write_payload_confirmed_def intro: wf_intros micro_send)

lemma micros_consume [wf_intros]: "micros c (snd (consume_server_request r c))"
  by (auto simp: consume_server_request_def intro: micro_answer)

lemma micros_request [wf_intros]: "micros c (snd (request env m p t c))"
proof -
  have "micros c (write_payload env q (c\<lparr>next_request_id := following_id i,
               pending := map_set (pending c) i ms, log := log c @ [Issued i]\<rparr>))"
    if "\<not> closed c" "\<not> max_pending c \<le> int (length (pending c))" "next_request_id c = Some i" for q i ms
    using that by (intro micro_then [OF _ micros_write] micro_issue) simp_all
  then show ?thesis by (auto simp: request_def Let_def split: option.split)
qed

lemma micros_consume_then:
  assumes "\<And>d. micros d (snd (f d))"
  shows "micros c (snd (case consume_server_request r c of (Some e, d) \<Rightarrow> (Some e, d) | (None, d) \<Rightarrow> f d))"
  using micros_consume [of c r] assms
  by (auto split: prod.splits option.splits intro: micros_trans)

lemma micros_responses [wf_intros]:
  "micros c (snd (respond env r v c))"
  "micros c (snd (respond_confirmed env r v c))"
  "micros c (snd (respond_error env r code m c))"
  unfolding respond_def respond_confirmed_def respond_error_def
  by (auto split: option.split intro!: micros_consume_then wf_intros)

lemma micros_notify [wf_intros]:
  "micros c (snd (notify env m v c))" "micros c (snd (notify_confirmed env m v c))"
  by (auto simp: notify_def notify_confirmed_def split: option.split intro: wf_intros)

lemma micros_listen:
  "micros c (c\<lparr>notification_listeners := ns\<rparr>)"
  "micros c (c\<lparr>request_listeners := rs\<rparr>)"
  "micros c (c\<lparr>diagnostic_listeners := ds\<rparr>)"
  by (rule r_into_rtranclp,
      use micro_listen [where c = c and ns = ns and rs = "request_listeners c" and ds = "diagnostic_listeners c"]
        micro_listen [where c = c and ns = "notification_listeners c" and rs = rs and ds = "diagnostic_listeners c"]
        micro_listen [where c = c and ns = "notification_listeners c" and rs = "request_listeners c" and ds = ds]
      in simp)+

lemma micros_run_call [wf_intros]: "micros c (run_call env call c)"
  by (cases call)
    (auto simp: dispose_def subscribe_def unsubscribe_def split: listener_kind.split
      intro: wf_intros micros_listen)

lemma micros_run_calls [wf_intros]: "micros c (run_calls env calls c)"
  unfolding run_calls_def
proof (induction calls arbitrary: c)
  case (Cons call calls)
  show ?case using micros_trans [OF micros_run_call Cons.IH] by simp
qed simp

lemma micros_called [wf_intros]: "is_call x \<Longrightarrow> micros c (run_calls env calls (append_log c [x]))"
  by (blast intro: micros_trans wf_intros)

lemma micros_diagnostic_loop [wf_intros]: "micros c (diagnostic_loop env d ls c)"
proof (induction ls arbitrary: c)
  case (Cons l ls)
  show ?case using micros_trans [OF micros_called Cons.IH] by (simp add: Let_def)
qed simp

lemma micros_emit [wf_intros]: "micros c (emit_diagnostic env d c)"
  by (simp add: emit_diagnostic_def wf_intros)

lemma micros_notification_loop [wf_intros]: "micros c (notification_loop env m p ls c)"
proof (induction ls arbitrary: c)
  case (Cons l ls)
  show ?case
    using micros_trans [OF micros_called Cons.IH]
      micros_trans [OF micros_trans [OF micros_called micros_emit] Cons.IH]
    by (simp add: Let_def)
qed simp

lemma micros_settle_listener_failure [wf_intros]: "micros c (settle_listener_failure env i c)"
  by (auto simp: settle_listener_failure_def Let_def intro: micros_trans wf_intros)

lemma micros_request_loop [wf_intros]: "micros c (snd (request_loop env i m p ls dl c))"
proof (induction ls arbitrary: c dl)
  case (Cons l ls)
  show ?case
    using micros_trans [OF micros_called Cons.IH]
      micros_trans [OF micros_trans [OF micros_called micros_settle_listener_failure] Cons.IH]
    by (simp add: Let_def)
qed simp

lemma micros_register [wf_intros]: "\<not> closed c \<Longrightarrow> micros c (snd (register_server_request i c))"
  by (auto simp: register_server_request_def intro!: r_into_rtranclp micro_own)

lemma micros_handle_server_request [wf_intros]:
  assumes "\<not> closed c"
  shows "micros c (snd (handle_server_request env i m p approved c))"
proof -
  obtain r c1 where reg: "register_server_request i c = (r, c1)" by fastforce
  with micros_register [OF assms, of i] have c1: "micros c c1" by simp
  obtain dl c2 where loop: "request_loop env i m p (request_listeners c1) False c1 = (dl, c2)" by fastforce
  with micros_request_loop [of c1 env i m p "request_listeners c1" False]
  have c2: "micros c1 c2" by simp
  show ?thesis
    using micros_trans [OF c1 c2] micros_trans [OF c1 micros_responses(3)] c1
      micros_trans [OF micros_trans [OF c1 c2] micros_responses(3)]
    by (cases r) (simp_all add: handle_server_request_def reg loop refused_def)
qed

lemma micros_handle_message [wf_intros]: "\<not> closed c \<Longrightarrow> micros c (snd (handle_message env m c))"
proof (cases m)
  case (Notification m p reviewed)
  moreover have "micros c (emit_diagnostic env d (c\<lparr>unknown_count := unknown_count c + 1\<rparr>))"
    if "unknown_count c < max_diagnostics c" for d
    using that by (intro micro_then [OF _ micros_emit] micro_count)
  ultimately show ?thesis
    by (auto simp: handle_notification_def diagnose_unknown_notification_def intro: wf_intros)
qed (auto simp: handle_response_def split: request_id.split intro: micro_settle wf_intros)

lemma micros_line_loop [wf_intros]: "micros c (line_loop env lines c)"
proof (induction lines arbitrary: c)
  case (Cons line lines)
  have "micros c (line_loop env lines d)" if "\<not> closed c" "handle_message env m c = (r, d)" for m r d
    using micros_trans [OF micros_handle_message [OF that(1), of env m] Cons.IH] that(2) by simp
  moreover have "micros c (shutdown w True d)" if "\<not> closed c" "handle_message env m c = (r, d)" for m r d w
    using micros_trans [OF micros_handle_message [OF that(1), of env m] micros_shutdown] that(2) by simp
  ultimately show ?case
    by (auto split: sum.split option.split prod.split intro: wf_intros)
qed simp

lemma micros_handle_data [wf_intros]: "micros c (handle_data env chunk c)"
proof -
  have "micros c (shutdown w b (c\<lparr>line_framer := snd (push (line_framer c) chunk)\<rparr>))"
    "micros c (line_loop env ls (c\<lparr>line_framer := snd (push (line_framer c) chunk)\<rparr>))" for w b ls
    by (rule micro_then [OF _ micros_shutdown] micro_then [OF _ micros_line_loop], rule micro_frame)+
  then show ?thesis by (simp add: handle_data_def Let_def split: sum.split)
qed

text \<open>Every reaction of the client is a sequence of elementary changes.\<close>

lemma micros_client_step: "micros c (fst (client_step env c e))"
proof (cases e)
  case (Timer i)
  then show ?thesis
    by (auto simp: client_step_def handle_timeout_def map_has_get split: option.split intro!: micro_settle)
qed (auto simp: client_step_def handle_exit_def intro: wf_intros)

section \<open>The invariant\<close>

text \<open>The identifiers handed out so far are a run of consecutive integers from the initial one;
  each of them is pending or has been settled, and never both. An inbound request that is still
  owned has not been answered.\<close>

definition ids_ok :: "int \<Rightarrow> client \<Rightarrow> bool" where
  "ids_ok start c \<longleftrightarrow>
     (case next_request_id c of
        Some n \<Rightarrow> start \<le> n \<and> n \<le> max_safe_integer \<and> issued (log c) = [start..n - 1]
      | None \<Rightarrow> issued (log c) = [start..max_safe_integer])"

definition tables_ok :: "client \<Rightarrow> bool" where
  "tables_ok c \<longleftrightarrow>
     map_ok (pending c) \<and> map_ok (inbound c) \<and>
     int (length (pending c)) \<le> max_pending c \<and> int (length (inbound c)) \<le> max_pending c \<and>
     0 \<le> unknown_count c \<and> unknown_count c \<le> max_diagnostics c"

definition accounts_ok :: "client \<Rightarrow> bool" where
  "accounts_ok c \<longleftrightarrow>
     mset (issued (log c)) = mset (map_keys (pending c)) + mset (settled (log c)) \<and>
     mset (answered (log c)) + mset (map_keys (inbound c)) \<subseteq># mset (owned (log c))"

definition closing_ok :: "client \<Rightarrow> bool" where
  "closing_ok c \<longleftrightarrow>
     (closed c \<longrightarrow> pending c = [] \<and> inbound c = [] \<and> \<not> attached c \<and> close_reason c \<noteq> None) \<and>
     (\<not> closed c \<longrightarrow> \<not> transport_close_requested c) \<and>
     count (mset (log c)) Transport_Closed = (if transport_close_requested c then 1 else 0)"

definition client_inv :: "int \<Rightarrow> client \<Rightarrow> bool" where
  "client_inv start c \<longleftrightarrow> ids_ok start c \<and> tables_ok c \<and> accounts_ok c \<and> closing_ok c"

lemma mset_keys_delete: "map_ok m \<Longrightarrow> map_has m k \<Longrightarrow> mset (map_keys (map_delete m k)) = mset (map_keys m) - {#k#}"
  by (auto simp: map_keys_delete map_ok_def map_has_keys mset_filter intro!: multiset_eqI)
    (auto simp: count_mset_0_iff distinct_count_atmost_1)

lemma mset_keys_delete_add:
  "map_ok m \<Longrightarrow> map_has m k \<Longrightarrow> mset (map_keys m) = add_mset k (mset (map_keys (map_delete m k)))"
  by (simp add: mset_keys_delete map_has_keys)

lemma mset_keys_set: "\<not> map_has m k \<Longrightarrow> mset (map_keys (map_set m k v)) = add_mset k (mset (map_keys m))"
  by (simp add: map_keys_set)

lemma ids_ok_issued_fresh: "ids_ok start c \<Longrightarrow> next_request_id c = Some i \<Longrightarrow> i \<notin> set (issued (log c))"
  by (simp add: ids_ok_def)

lemma pending_issued: "accounts_ok c \<Longrightarrow> map_has (pending c) i \<Longrightarrow> i \<in> set (issued (log c))"
  by (metis accounts_ok_def map_has_keys mset_subset_eq_add_left set_mset_mset set_mset_mono subsetD)

lemma length_delete_le: "length (map_delete m k) \<le> length m"
  by (simp add: map_delete_def)

lemma mset_subset_eq_addD: "A + B \<subseteq># C \<Longrightarrow> A \<subseteq># C"
  using subset_mset.order_trans mset_subset_eq_add_left by blast

lemma ids_ok_micro:
  assumes "micro c d" "ids_ok start c"
  shows "ids_ok start d"
  using assms
proof (cases rule: micro.cases)
  case (micro_issue i ms)
  with assms(2) show ?thesis
    by (auto simp: ids_ok_def following_id_def upto_rec2)
qed (auto simp: ids_ok_def append_log_def shutdown_def Let_def split: option.splits)

lemma tables_ok_micro:
  assumes "micro c d" "tables_ok c"
  shows "tables_ok d"
  using assms
proof (cases rule: micro.cases)
  case (micro_issue i ms)
  moreover have "length (map_set (pending c) i ms) \<le> Suc (length (pending c))" by (simp add: map_set_def)
  ultimately show ?thesis using assms(2) by (auto simp: tables_ok_def jsmap.ok_put)
next
  case (micro_settle i s)
  with assms(2) length_delete_le [of "pending c" i] show ?thesis by (auto simp: tables_ok_def jsmap.ok_remove)
next
  case (micro_answer r)
  with assms(2) length_delete_le [of "inbound c" r] show ?thesis by (auto simp: tables_ok_def jsmap.ok_remove)
next
  case (micro_own r)
  with assms(2) show ?thesis by (auto simp: tables_ok_def jsmap.ok_put) (simp add: map_set_def)
next
  case (micro_close why b)
  with assms(2) show ?thesis
    by (auto simp: tables_ok_def shutdown_def Let_def map_ok_def map_keys_def intro: order_trans)
qed (auto simp: tables_ok_def append_log_def)

lemma accounts_ok_micro:
  assumes "micro c d" "tables_ok c" "ids_ok start c" "accounts_ok c"
  shows "accounts_ok d"
  using assms(1)
proof (cases rule: micro.cases)
  case (micro_issue i ms)
  have "\<not> map_has (pending c) i"
    using micro_issue assms pending_issued ids_ok_issued_fresh by blast
  with micro_issue assms(4) show ?thesis by (simp add: accounts_ok_def mset_keys_set)
next
  case (micro_settle i s)
  with assms(2,4) show ?thesis
    by (simp add: accounts_ok_def tables_ok_def mset_keys_delete_add)
next
  case (micro_own r)
  with assms(4) show ?thesis by (simp add: accounts_ok_def mset_keys_set)
next
  case (micro_answer r)
  with assms(2,4) show ?thesis
    by (simp add: accounts_ok_def tables_ok_def mset_keys_delete_add)
next
  case (micro_close why b)
  with assms(4) show ?thesis
    by (auto simp: accounts_ok_def shutdown_def Let_def jsmap.keys_empty dest: mset_subset_eq_addD)
qed (use assms(4) in \<open>auto simp: accounts_ok_def append_log_def\<close>)

lemma closing_ok_micro:
  assumes "micro c d" "closing_ok c"
  shows "closing_ok d"
  using assms(1)
proof (cases rule: micro.cases)
  case (micro_call x)
  with assms(2) show ?thesis by (cases x) (auto simp: closing_ok_def append_log_def)
next
  case (micro_close why b)
  have "count (image_mset (\<lambda>i. Settled i r) ks) Transport_Closed = 0" for r ks
    by (auto simp: count_eq_zero_iff)
  with micro_close assms(2) show ?thesis
    by (auto simp: closing_ok_def shutdown_def Let_def)
qed (use assms(2) in \<open>auto simp: closing_ok_def append_log_def map_has_def\<close>)

lemma client_inv_micros: "micros c d \<Longrightarrow> client_inv start c \<Longrightarrow> client_inv start d"
proof (induction rule: rtranclp_induct)
  case (step d e)
  then show ?case
    unfolding client_inv_def
    using ids_ok_micro tables_ok_micro accounts_ok_micro closing_ok_micro by blast
qed

interpretation client: stateful "client_step env" "client_inv start" for env start
  by unfold_locales (rule client_inv_micros [OF micros_client_step])

lemma new_client_fresh:
  "new_client opts = Inr c \<Longrightarrow>
     \<exists>f mp md i. c = fresh_client f mp md i \<and> 1 \<le> mp \<and> 0 \<le> md \<and> 0 \<le> i \<and> i \<le> max_safe_integer"
  by (auto simp: new_client_def validate_limit_def safe_int_def
      split: sum.splits jsnum.splits if_splits) (metis linorder_not_less)

lemma client_inv_new: "new_client opts = Inr c \<Longrightarrow> next_request_id c = Some start \<Longrightarrow> client_inv start c"
  by (auto simp: fresh_client_def client_inv_def ids_ok_def tables_ok_def accounts_ok_def
      closing_ok_def map_ok_def map_keys_def dest!: new_client_fresh)

section \<open>Progress\<close>

text \<open>What never goes back: the history only grows, limits stay, and once closed a client stays
  closed for the same reason and has no further effect except calls of listeners that were
  already being called or were added afterwards.\<close>

definition progress :: "client \<Rightarrow> client \<Rightarrow> bool" where
  "progress c d \<longleftrightarrow>
     (\<exists>os. log d = log c @ os \<and> (closed c \<longrightarrow> list_all is_call os)) \<and>
     max_pending d = max_pending c \<and> max_diagnostics d = max_diagnostics c \<and>
     (closed c \<longrightarrow> closed d \<and> close_reason d = close_reason c)"

lemma progress_refl: "progress c c"
  by (simp add: progress_def)

lemma progress_trans: "progress c d \<Longrightarrow> progress d e \<Longrightarrow> progress c e"
  by (fastforce simp: progress_def)

lemma progress_micro:
  assumes "micro c d" "closing_ok c"
  shows "progress c d"
  using assms(1)
proof (cases rule: micro.cases)
  case (micro_close why b)
  then show ?thesis by (simp add: progress_def shutdown_def Let_def)
qed (use assms(2) in \<open>auto simp: progress_def append_log_def closing_ok_def map_has_def\<close>)

lemma progress_micros: "micros c d \<Longrightarrow> closing_ok c \<Longrightarrow> progress c d \<and> closing_ok d"
proof (induction rule: rtranclp_induct)
  case (step d e)
  then show ?case using progress_micro closing_ok_micro progress_trans by blast
qed (simp add: progress_refl)

definition safe_progress :: "client \<Rightarrow> client \<Rightarrow> bool" where
  "safe_progress c d \<longleftrightarrow> (closing_ok c \<longrightarrow> progress c d \<and> closing_ok d)"

interpretation client: monotone_machine "client_step env" safe_progress for env
proof
  show "safe_progress c (fst (client_step env c e))" for c e
    using progress_micros [OF micros_client_step] by (simp add: safe_progress_def)
qed (auto simp: safe_progress_def progress_refl intro: progress_trans)

section \<open>Properties of whole runs\<close>

abbreviation client_run :: "env \<Rightarrow> client \<Rightarrow> client_event list \<Rightarrow> client" where
  "client_run env c es \<equiv> fst (run_machine (client_step env) c es)"

lemma new_client_start:
  assumes "new_client opts = Inr c"
  obtains start where "next_request_id c = Some start" "client_inv start c"
proof -
  obtain start where "next_request_id c = Some start"
    using new_client_fresh [OF assms] by (auto simp: fresh_client_def)
  with client_inv_new [OF assms this] that show thesis by blast
qed

lemma client_run_inv:
  assumes "new_client opts = Inr c"
  obtains start where "next_request_id c = Some start" "client_inv start (client_run env c es)"
proof -
  from assms obtain start where "next_request_id c = Some start" "client_inv start c"
    by (rule new_client_start)
  from this(1) client.run_inv [OF this(2)] show thesis by (rule that)
qed

lemma ids_ok_distinct: "ids_ok start c \<Longrightarrow> distinct (issued (log c))"
  by (auto simp: ids_ok_def split: option.splits)

definition default_options :: client_options where
  "default_options = \<lparr>opt_max_line_bytes = None, opt_max_pending = None, opt_max_diagnostics = None,
     opt_initial_request_id = None\<rparr>"

lemma default_client: "\<exists>c. new_client default_options = Inr c \<and> next_request_id c = Some 1 \<and> max_pending c = 128
    \<and> pending c = [] \<and> \<not> closed c \<and> log c = [] \<and> max_diagnostics c = 32 \<and> inbound c = [] \<and> attached c
    \<and> \<not> transport_close_requested c \<and> framer_ok (line_framer c) \<and> \<not> framer_failed (line_framer c)
    \<and> unfinished (line_framer c) = [] \<and> max_line_bytes (line_framer c) = 8388608"
  by (simp add: new_client_def fresh_client_def default_options_def or_default_def validate_limit_def safe_int_def
      max_safe_integer_def default_max_pending_def default_max_diagnostics_def new_framer_def
      default_max_line_bytes_def framer_ok_def unfinished_def fits_def strip_cr_def ends_with_def)

text \<open>C2. No request is lost and none is settled twice: in every run of a new client, with any
  transport and any listeners, the requests handed out are exactly the pending ones together with
  the settled ones, each once; and when the client has closed, every request has been settled.\<close>

theorem client_settles_once:
  assumes "new_client opts = Inr c" and "d = client_run env c es"
  shows "distinct (issued (log d)) \<and>
    mset (issued (log d)) = mset (map_keys (pending d)) + mset (settled (log d)) \<and>
    (closed d \<longrightarrow> mset (settled (log d)) = mset (issued (log d)))"
proof -
  obtain start where inv: "client_inv start d"
    using client_run_inv [OF assms(1)] assms(2) by blast
  then show ?thesis
    by (auto simp: client_inv_def ids_ok_distinct accounts_ok_def closing_ok_def jsmap.keys_empty)
qed

theorem client_settles_once_witness:
  "\<exists>c. new_client default_options = Inr c \<and> (\<forall>env es. distinct (issued (log (client_run env c es))))"
  using default_client client_settles_once by blast

text \<open>Request identifiers are never reused: in every run they are the consecutive integers from
  the initial one, none above the largest safe integer.\<close>

theorem client_ids_consecutive:
  assumes "new_client opts = Inr c" and "next_request_id c = Some start"
  shows "issued (log (client_run env c es)) =
      [start..start + int (length (issued (log (client_run env c es)))) - 1] \<and>
    start + int (length (issued (log (client_run env c es)))) - 1 \<le> max_safe_integer"
proof -
  let ?d = "client_run env c es"
  have "client_inv start ?d"
    using client_inv_new [OF assms] by (rule client.run_inv)
  then have ids: "ids_ok start ?d" by (simp add: client_inv_def)
  have start: "start \<le> max_safe_integer" using client_inv_new [OF assms] assms(2)
    by (simp add: client_inv_def ids_ok_def)
  show ?thesis
  proof (cases "next_request_id ?d")
    case None
    with ids start show ?thesis by (simp add: ids_ok_def)
  next
    case (Some n)
    with ids show ?thesis by (simp add: ids_ok_def)
  qed
qed

theorem client_ids_consecutive_witness:
  "\<exists>c. new_client default_options = Inr c \<and>
     (\<forall>env es. hd (issued (log (client_run env c es)) @ [1]) = 1)"
proof -
  obtain c where c: "new_client default_options = Inr c" "next_request_id c = Some 1"
    using default_client by blast
  have "hd (issued (log (client_run env c es)) @ [1]) = 1" for env es
    using client_ids_consecutive [OF c, of env es]
    by (cases "issued (log (client_run env c es))") (auto simp: upto_rec1 dest: arg_cong [where f = hd])
  with c show ?thesis by blast
qed

text \<open>The tables stay within their limits, an inbound request is answered at most once for each
  time it was registered, and the transport is closed at most once.\<close>

theorem client_bounds:
  assumes "new_client opts = Inr c" and "d = client_run env c es"
  shows "int (length (pending d)) \<le> max_pending c \<and> int (length (inbound d)) \<le> max_pending c \<and>
    0 \<le> unknown_count d \<and> unknown_count d \<le> max_diagnostics c \<and>
    mset (answered (log d)) + mset (map_keys (inbound d)) \<subseteq># mset (owned (log d)) \<and>
    count (mset (log d)) Transport_Closed \<le> 1"
proof -
  obtain start where inv: "client_inv start d"
    using client_run_inv [OF assms(1)] assms(2) by blast
  have "closing_ok c" using new_client_start [OF assms(1)] by (auto simp: client_inv_def)
  with assms(2) have "progress c d" using client.run_rel [of c env es] by (simp add: safe_progress_def)
  with inv show ?thesis
    by (auto simp: client_inv_def tables_ok_def accounts_ok_def closing_ok_def progress_def)
qed

theorem client_bounds_witness:
  "\<exists>c. new_client default_options = Inr c \<and>
     (\<forall>env es. int (length (pending (client_run env c es))) \<le> 128)"
proof -
  obtain c where c: "new_client default_options = Inr c" "max_pending c = 128"
    using default_client by blast
  with client_bounds [OF c(1) refl] show ?thesis by auto
qed

text \<open>Closing is final: once a client of any run is closed, whatever happens next it stays closed
  for the same reason, nothing is sent, issued, settled or answered any more, and the only further
  effects are calls of listeners.\<close>

theorem client_closed_final:
  assumes "new_client opts = Inr c0" and "c = client_run env c0 es" and "closed c"
    and "d = client_run env c es'"
  shows "closed d \<and> close_reason d = close_reason c \<and> pending d = [] \<and> inbound d = [] \<and>
    (\<exists>os. log d = log c @ os \<and> list_all is_call os)"
proof -
  obtain start where "client_inv start c"
    using client_run_inv [OF assms(1)] assms(2) by blast
  then have inv: "closing_ok c" by (simp add: client_inv_def)
  with assms(4) have "progress c d" "closing_ok d"
    using client.run_rel [of c env es'] by (simp_all add: safe_progress_def)
  with assms(3) show ?thesis by (auto simp: progress_def closing_ok_def)
qed

theorem client_closed_final_witness:
  "\<exists>c0. new_client default_options = Inr c0 \<and>
     (\<forall>env es'. closed (client_run env (client_run env c0 [Exit None]) es'))"
proof -
  obtain c0 where c0: "new_client default_options = Inr c0" "\<not> closed c0"
    using default_client by blast
  have "closed (client_run env c0 [Exit None])" for env
    using c0(2) by (simp add: client_step_def handle_exit_def shutdown_def Let_def)
  with client_closed_final [OF c0(1) refl _ refl] c0(1) show ?thesis by blast
qed

end
