(* ===== verification/ClientBehaviour.thy ===== *)
theory ClientBehaviour
  imports ClientSafety
begin

text \<open>
  What each client operation does: the text an outgoing call puts on the wire, as the reader of
  the other side understands it, and the effect of an incoming line, down to its bytes.
\<close>

section \<open>Outgoing text\<close>

lemma json_stringify_envelope:
  "json_canonical (JObj (defined_fields parts)) \<Longrightarrow> Unserializable \<notin> snd ` set parts \<Longrightarrow>
     list_all (has_own (defined_fields parts)) required \<Longrightarrow>
     serialize_envelope parts required = Some (json_stringify (JObj (defined_fields parts)))"
  by (simp add: serialize_envelope_def json_roundtrip del: json_stringify.simps json_canonical.simps)

lemma serialize_request:
  assumes "safe_int i" "json_canonical p"
  shows "serialize_envelope [(''id'', Value (JNum (NInt i))), (''method'', Value (JStr m)), (''params'', Value p)]
     [''id'', ''method'', ''params''] = Some (json_stringify (envelope (Server_Request (Id_Number i) m p b)))"
  using assms
  by (subst json_stringify_envelope)
    (simp_all add: defined_fields_def build_object_plain is_safe_integer_def has_own_def own_def id_json_def)

lemma serialize_result:
  assumes "valid_outbound_id i" "json_canonical r"
  shows "serialize_envelope (result_fields i (Value r)) [''id'', ''result''] =
     Some (json_stringify (envelope (Response i (Inr r))))"
proof -
  have "json_canonical (id_json i)" using assms(1)
    by (cases i) (simp_all add: valid_outbound_id_def id_json_def is_safe_integer_def)
  with assms show ?thesis
    by (subst json_stringify_envelope)
      (simp_all add: result_fields_def defined_fields_def build_object_plain has_own_def own_def)
qed

lemma serialize_error:
  assumes "valid_outbound_id i" "safe_int code"
  shows "serialize_envelope
      [(''id'', Value (id_json i)),
       (''error'', Value (JObj [(js ''code'', JNum (NInt code)), (js ''message'', JStr m)]))]
      [''id'', ''error''] =
     Some (json_stringify (envelope (Response i (Inl \<lparr>error_code = code, error_message = m, error_data = None\<rparr>))))"
proof -
  have "json_canonical (id_json i)" using assms(1)
    by (cases i) (simp_all add: valid_outbound_id_def id_json_def is_safe_integer_def)
  with assms show ?thesis
    by (subst json_stringify_envelope)
      (simp_all add: defined_fields_def build_object_plain has_own_def own_def error_json_def is_safe_integer_def)
qed

section \<open>Incoming lines\<close>

text \<open>A client at the start of a line.\<close>

definition at_line_start :: "client \<Rightarrow> bool" where
  "at_line_start c \<longleftrightarrow>
     \<not> closed c \<and> framer_ok (line_framer c) \<and> \<not> framer_failed (line_framer c) \<and> unfinished (line_framer c) = []"

lemma handle_line:
  assumes "at_line_start c" "newline \<notin> set line" "fits (max_line_bytes (line_framer c)) line"
  obtains f where
    "handle_data env (line @ [newline]) c = line_loop env [strip_cr line] (c\<lparr>line_framer := f\<rparr>)"
    "at_line_start (c\<lparr>line_framer := f\<rparr>)" "max_line_bytes f = max_line_bytes (line_framer c)"
proof (rule push_line [of "line_framer c" line])
  fix f
  assume "push (line_framer c) (line @ [newline]) = (Inr [strip_cr line], f)" "framer_ok f"
    "unfinished f = []" "max_line_bytes f = max_line_bytes (line_framer c)" "\<not> framer_failed f"
  with assms(1) show thesis
    by (intro that [of f]) (simp_all add: handle_data_def at_line_start_def Let_def)
qed (use assms in \<open>simp_all add: at_line_start_def\<close>)

lemma message_line_frame:
  "newline \<notin> set (message_line m)" "strip_cr (message_line m) = message_line m"
  "fits n (message_line m) \<longleftrightarrow> int (length (message_line m)) \<le> n"
  using clean_line [of "json_stringify (envelope m)"] by (simp_all add: message_line_def fits_def)

lemma handle_message_line:
  assumes "at_line_start c" "message_ok m" "payload_canonical m"
    "int (length (message_line m)) \<le> max_line_bytes (line_framer c)"
  obtains f where "handle_data env (message_line m @ [newline]) c =
      (case handle_message env m (c\<lparr>line_framer := f\<rparr>) of (Some r, d) \<Rightarrow> shutdown r True d | (None, d) \<Rightarrow> d)"
    "at_line_start (c\<lparr>line_framer := f\<rparr>)"
proof (rule handle_line [OF assms(1) message_line_frame(1)])
  fix f
  assume "handle_data env (message_line m @ [newline]) c =
      line_loop env [strip_cr (message_line m)] (c\<lparr>line_framer := f\<rparr>)"
    and start: "at_line_start (c\<lparr>line_framer := f\<rparr>)"
  then show thesis
    using assms(1)
    by (intro that [of f])
      (simp_all add: message_line_frame read_message_line assms(2,3) at_line_start_def
        split: prod.split option.split)
qed (use assms(4) in \<open>simp add: message_line_frame\<close>)

text \<open>A transport that never throws and listeners that do nothing.\<close>

definition quiet_env :: env where
  "quiet_env = \<lparr>write_throws = \<lambda>_ _. False, on_notification = \<lambda>_ _ _ _. ([], Returns),
     on_request = \<lambda>_ _ _ _ _. ([], Returns), on_diagnostic = \<lambda>_ _ _. []\<rparr>"

section \<open>Properties\<close>

text \<open>An accepted request hands out the next identifier, registers it as pending and writes
  one line, which the other side's reader understands as exactly this request; if the transport
  throws instead, the client shuts down.\<close>

theorem request_on_the_wire:
  assumes "\<not> closed c" "is_stable_client_method m" "int (length (pending c)) < max_pending c"
    and "valid_timeout t" "next_request_id c = Some i" "safe_int i" "json_canonical p"
  shows "fst (request env m (Value p) t c) = Inr i \<and>
    (\<exists>text b. read_line (utf8_encode text) = Inr (Server_Request (Id_Number i) m p b) \<and>
      (let issued_c = c\<lparr>next_request_id := following_id i, pending := map_set (pending c) i (timeout_ms t),
                        log := log c @ [Issued i]\<rparr>
       in snd (request env m (Value p) t c) =
            (if write_throws env issued_c (text @ [0x0A]) then shutdown Write_Failed True issued_c
             else issued_c\<lparr>log := log issued_c @ [Sent (text @ [0x0A])]\<rparr>)))"
proof -
  let ?b = "classify_server_request m = Approved"
  let ?m = "Server_Request (Id_Number i) m p ?b"
  have "read_line (message_line ?m) = Inr ?m"
    using assms(6,7) by (intro read_message_line) (simp_all add: payload_canonical_def)
  then have "read_line (utf8_encode (json_stringify (envelope ?m))) = Inr ?m"
    by (simp only: message_line_def)
  with assms serialize_request [OF assms(6,7), of m ?b] show ?thesis
    by (intro conjI exI [of _ "json_stringify (envelope ?m)"] exI [of _ ?b])
      (simp_all add: request_def Let_def write_payload_def append_log_def del: envelope.simps json_stringify.simps)
qed

theorem request_on_the_wire_witness:
  "\<exists>c. new_client default_options = Inr c \<and>
     (\<forall>env. fst (request env (js ''model/list'') (Value JNull) (NInt 5) c) = Inr 1)"
proof -
  obtain c where c: "new_client default_options = Inr c" "next_request_id c = Some 1" "\<not> closed c"
    "max_pending c = 128" "pending c = []"
    using default_client by blast
  have "is_stable_client_method (js ''model/list'')"
    by (simp add: is_stable_client_method_def client_methods_def)
  moreover have "valid_timeout (NInt 5)"
    by (simp add: valid_timeout_def safe_int_def max_safe_integer_def max_timer_ms_def)
  moreover have "safe_int 1" by (simp add: safe_int_def max_safe_integer_def)
  ultimately show ?thesis
    using c request_on_the_wire [OF c(3), of "js ''model/list''" "NInt 5" 1 JNull] by auto
qed

text \<open>C26. A response line settles exactly its request: the bytes of a valid response to a pending
  request resolve it with the result, or reject it with the remote error, take it out of the
  table and change nothing else.\<close>

theorem response_settles_request:
  assumes "at_line_start c" and "map_has (pending c) i"
    and "message_ok (Response (Id_Number i) payload)" "payload_canonical (Response (Id_Number i) payload)"
    and "int (length (message_line (Response (Id_Number i) payload))) \<le> max_line_bytes (line_framer c)"
  shows "\<exists>f. client_next env c (Data (message_line (Response (Id_Number i) payload) @ [newline])) =
    c\<lparr>line_framer := f, pending := map_delete (pending c) i,
      log := log c @ [Settled i (case payload of Inl e \<Rightarrow> Rejected_Remote e | Inr r \<Rightarrow> Resolved r)]\<rparr>"
  using assms(2) by (rule_tac handle_message_line [OF assms(1,3-5), of env]) (auto simp: handle_response_def)

theorem response_settles_request_witness:
  "\<exists>f. new_framer (NInt 30) = Inr f \<and>
     log (client_next quiet_env ((fresh_client f 8 8 8)\<lparr>pending := [(7, 100)]\<rparr>)
       (Data (message_line (Response (Id_Number 7) (Inr JNull)) @ [newline]))) = [Settled 7 (Resolved JNull)]"
proof -
  obtain f where f: "new_framer (NInt 30) = Inr f" "max_line_bytes f = 30"
    by (simp add: new_framer_def safe_int_def max_safe_integer_def)
  let ?c = "(fresh_client f 8 8 8)\<lparr>pending := [(7, 100)]\<rparr>"
  have "at_line_start ?c"
    using new_framer_ok [OF f(1)] by (simp add: at_line_start_def fresh_client_def)
  moreover have "map_has (pending ?c) 7" by (simp add: map_has_def)
  moreover have "max_line_bytes (line_framer ?c) = 30" using f(2) by (simp add: fresh_client_def)
  ultimately show ?thesis
    using f(1) response_settles_request [of ?c 7 "Inr JNull" quiet_env] short_response_length
    by (auto simp: payload_canonical_def safe_int_def max_safe_integer_def fresh_client_def)
qed

text \<open>C37. Protocol errors are fatal: a complete line that is not valid UTF-8, not JSON or not a valid
  message closes the client with that reason, rejects every pending request with it in the order
  of issue, and closes the transport.\<close>

theorem bad_line_closes:
  assumes "at_line_start c" and "closing_ok c" and "newline \<notin> set line"
    and "fits (max_line_bytes (line_framer c)) line" and "read_line (strip_cr line) = Inl e"
    and "d = client_next env c (Data (line @ [newline]))"
  shows "closed d \<and> close_reason d = Some (Protocol e) \<and> pending d = [] \<and> inbound d = [] \<and>
    log d = log c @ (if attached c then [Detached] else [])
      @ map (\<lambda>i. Settled i (Rejected_Closed (Protocol e))) (map_keys (pending c)) @ [Transport_Closed]"
proof (rule handle_line [OF assms(1,3,4), of env])
  fix f
  assume "handle_data env (line @ [newline]) c = line_loop env [strip_cr line] (c\<lparr>line_framer := f\<rparr>)"
    and "at_line_start (c\<lparr>line_framer := f\<rparr>)"
  with assms show ?thesis
    by (simp add: at_line_start_def closing_ok_def shutdown_def Let_def)
qed

theorem bad_line_closes_witness:
  "\<exists>c. new_client default_options = Inr c \<and> closed (client_next quiet_env c (Data ([0xFF] @ [newline])))"
proof -
  obtain c where c: "new_client default_options = Inr c" "\<not> closed c" "framer_ok (line_framer c)"
    "\<not> framer_failed (line_framer c)" "unfinished (line_framer c) = []"
    "max_line_bytes (line_framer c) = 8388608" "log c = []" "\<not> transport_close_requested c"
    using default_client by blast
  have start: "at_line_start c" "closing_ok c"
    using c by (simp_all add: at_line_start_def closing_ok_def)
  have line: "newline \<notin> set [0xFF]" by (simp add: newline_def)
  have strip: "strip_cr [0xFF] = [0xFF]" by (simp add: strip_cr_def ends_with_def carriage_return_def)
  then have fit: "fits (max_line_bytes (line_framer c)) [0xFF]" using c(6) by (simp add: fits_def)
  have "text_decode [0xFF] = None" by (simp add: text_decode_def)
  then have bad: "read_line (strip_cr [0xFF]) = Inl Invalid_Utf8" by (simp add: read_line_def strip)
  show ?thesis using c(1) bad_line_closes [OF start line fit bad refl] by blast
qed

text \<open>A response authority is used up by its response: an open client accepts a result only for an
  inbound request it still owns, and after that no second response for the identifier is
  written, whatever it contains, until the server asks again.\<close>

theorem respond_single_use:
  assumes "\<not> closed c" and "respond env i r c = (None, d)"
  shows "map_has (inbound c) i \<and> \<not> map_has (inbound d) i \<and>
    snd (respond env' i r' d) = d \<and> snd (respond_confirmed env' i r' d) = d \<and>
    snd (respond_error env' i code message d) = d"
proof -
  have own: "map_has (inbound c) i"
    using assms by (auto simp: respond_def consume_server_request_def split: if_splits option.splits)
  have gone: "\<not> map_has (inbound (write_payload env p (c\<lparr>inbound := map_delete (inbound c) i, log := l\<rparr>))) i" for p l
    by (simp add: write_payload_def shutdown_def append_log_def Let_def map_has_keys jsmap.keys_empty
        map_keys_delete)
  then have "\<not> map_has (inbound d) i"
    using assms own by (auto simp: respond_def consume_server_request_def split: if_splits option.splits)
  with own show ?thesis
    by (auto simp: respond_def respond_confirmed_def respond_error_def consume_server_request_def
        split: option.split)
qed

theorem respond_single_use_witness:
  "\<exists>f. new_framer (NInt 30) = Inr f \<and>
     (let c = (fresh_client f 8 8 8)\<lparr>inbound := [(Id_Number 3, True)]\<rparr>;
          d = snd (respond quiet_env (Id_Number 3) (Value JNull) c)
      in snd (respond quiet_env (Id_Number 3) (Value (JBool True)) d) = d)"
proof -
  obtain f where f: "new_framer (NInt 30) = Inr f"
    by (simp add: new_framer_def safe_int_def max_safe_integer_def)
  let ?c = "(fresh_client f 8 8 8)\<lparr>inbound := [(Id_Number 3, True)]\<rparr>"
  have "serialize_envelope (result_fields (Id_Number 3) (Value JNull)) [''id'', ''result''] \<noteq> None"
    using serialize_result [of "Id_Number 3" JNull] by (simp add: valid_outbound_id_def safe_int_def max_safe_integer_def)
  then have "fst (respond quiet_env (Id_Number 3) (Value JNull) ?c) = None"
    by (auto simp: respond_def fresh_client_def valid_outbound_id_def safe_int_def max_safe_integer_def
        consume_server_request_def map_has_def)
  then have "respond quiet_env (Id_Number 3) (Value JNull) ?c = (None, snd (respond quiet_env (Id_Number 3) (Value JNull) ?c))"
    by (metis prod.collapse)
  moreover have "\<not> closed ?c" by (simp add: fresh_client_def)
  ultimately show ?thesis using f respond_single_use [of ?c quiet_env "Id_Number 3" "Value JNull"] by (auto simp: Let_def)
qed

text \<open>A server request outside the approved list is refused at once: no listener sees it, the
  answer is the JSON-RPC error \<open>method not found\<close> for its identifier, and the client owns no
  authority for it afterwards.\<close>

definition method_not_found :: rpc_error where
  "method_not_found = \<lparr>error_code = - 32601, error_message = js ''Method not found'', error_data = None\<rparr>"

theorem unsupported_request_refused:
  assumes "\<not> closed c" and "m \<notin> set server_request_methods" and "valid_outbound_id i"
    and "\<not> map_has (inbound c) i" "int (length (inbound c)) < max_pending c"
    and "\<forall>d text. \<not> write_throws env d text"
    and "validate_incoming_message v = Inr (Server_Request i m p approved)"
  shows "\<exists>text. handle_message env (Server_Request i m p approved) c =
      (None, c\<lparr>log := log c @ [Owned i, Answered i, Sent (text @ [0x0A])]\<rparr>) \<and>
    read_line (utf8_encode text) = Inr (Response i (Inl method_not_found))"
proof -
  let ?r = "Response i (Inl method_not_found)"
  have "carries ps (Server_Request i m p approved) \<Longrightarrow> \<not> approved" for ps using assms(2) by simp
  then have refused: "\<not> approved" using assms(7) by (auto simp: validate_incoming_iff)
  have code: "safe_int (- 32601)" by (simp add: safe_int_def max_safe_integer_def)
  have "id_ok i" using assms(3) by (cases i) (simp_all add: valid_outbound_id_def)
  then have "read_line (message_line ?r) = Inr ?r"
    using code by (intro read_message_line) (simp_all add: payload_canonical_def method_not_found_def)
  then have read: "read_line (utf8_encode (json_stringify (envelope ?r))) = Inr ?r"
    by (simp only: message_line_def)
  have fresh: "map_delete (map_set (inbound c) i True) i = inbound c"
    using assms(4) by (auto simp: map_delete_def map_set_def map_has_def intro!: filter_True)
  note printed = serialize_error [OF assms(3) code, of "js ''Method not found''", folded method_not_found_def]
  show ?thesis
    using read assms refused
    by (intro exI [of _ "json_stringify (envelope ?r)"])
      (simp add: handle_server_request_def register_server_request_def refused_def respond_error_def printed max_error_message_length_def
        is_safe_integer_def code consume_server_request_def write_payload_def append_log_def fresh
        del: envelope.simps json_stringify.simps)
qed

theorem unsupported_request_refused_witness:
  "\<exists>f text. new_framer (NInt 30) = Inr f \<and>
     log (snd (handle_message quiet_env (Server_Request (Id_Number 3) (js ''x'') JNull False) (fresh_client f 8 8 8)))
       = [Owned (Id_Number 3), Answered (Id_Number 3), Sent text]"
proof -
  obtain f where f: "new_framer (NInt 30) = Inr f"
    by (simp add: new_framer_def safe_int_def max_safe_integer_def)
  have m: "js ''x'' \<notin> set server_request_methods" by (simp add: server_request_methods_def)
  then have "carries [(js ''id'', id_json (Id_Number 3)), (js ''method'', JStr (js ''x'')), (js ''params'', JNull)]
      (Server_Request (Id_Number 3) (js ''x'') JNull False)"
    by (simp add: own_def safe_int_def max_safe_integer_def)
  then have valid: "validate_incoming_message (JObj [(js ''id'', id_json (Id_Number 3)), (js ''method'', JStr (js ''x'')),
      (js ''params'', JNull)]) = Inr (Server_Request (Id_Number 3) (js ''x'') JNull False)"
    by (simp add: validate_incoming_iff del: carries.simps)
  show ?thesis
    using f unsupported_request_refused [OF _ m _ _ _ _ valid, of "fresh_client f 8 8 8" quiet_env]
    by (auto simp: fresh_client_def valid_outbound_id_def safe_int_def max_safe_integer_def map_has_def quiet_env_def)
qed

end
