(* ===== verification/Events.thy ===== *)
theory Events
  imports Json
begin

text \<open>
  The turn events exchanged between the coordinator and the user interface
  (\<open>src/common/ride-codex-events.ts\<close>): the event datatypes, the JSON values that carry them,
  and the serializer of a batch.
\<close>

section \<open>Names\<close>

datatype terminal_status = Completed | Failed | Interrupted | Interrupt_Uncertain
datatype turn_status = Idle | In_Progress | Terminal terminal_status

datatype safe_code =
    Turn_Error | Operation_Failed | Interrupt_Timeout | Recovery_Failed | Unauthorized | Rate_Limit
  | Context_Limit | Sandbox_Denied | Service_Error | Stream_Error | Transport_Error

datatype item_kind =
    User_Message | Agent_Message | Plan_Kind | Reasoning_Kind | Command_Kind | File_Change_Kind | Other_Kind

datatype step_status = Step_Pending | Step_In_Progress | Step_Completed

datatype warning_code = Server_Warning | Events_Dropped | Data_Truncated

fun terminal_name :: "terminal_status \<Rightarrow> string" where
  "terminal_name Completed = ''completed''"
| "terminal_name Failed = ''failed''"
| "terminal_name Interrupted = ''interrupted''"
| "terminal_name Interrupt_Uncertain = ''interrupt-uncertain''"

text \<open>The keys of \<open>RIDE_CODEX_SAFE_ERROR_MESSAGES\<close> and their messages.\<close>

fun code_name :: "safe_code \<Rightarrow> string" where
  "code_name Turn_Error = ''turn-error''"
| "code_name Operation_Failed = ''operation-failed''"
| "code_name Interrupt_Timeout = ''interrupt-timeout''"
| "code_name Recovery_Failed = ''recovery-failed''"
| "code_name Unauthorized = ''unauthorized''"
| "code_name Rate_Limit = ''rate-limit''"
| "code_name Context_Limit = ''context-limit''"
| "code_name Sandbox_Denied = ''sandbox-denied''"
| "code_name Service_Error = ''service-error''"
| "code_name Stream_Error = ''stream-error''"
| "code_name Transport_Error = ''transport-error''"

fun safe_message :: "safe_code \<Rightarrow> string" where
  "safe_message Turn_Error = ''Codex turn failed.''"
| "safe_message Operation_Failed = ''Codex turn operation failed.''"
| "safe_message Interrupt_Timeout = ''Codex turn interrupt could not be confirmed.''"
| "safe_message Recovery_Failed = ''Codex thread recovery failed.''"
| "safe_message Unauthorized = ''Codex authorization is required.''"
| "safe_message Rate_Limit = ''Codex usage limit was reached.''"
| "safe_message Context_Limit = ''Codex context limit was reached.''"
| "safe_message Sandbox_Denied = ''Codex action was denied by the sandbox.''"
| "safe_message Service_Error = ''Codex service is temporarily unavailable.''"
| "safe_message Stream_Error = ''Codex response stream failed.''"
| "safe_message Transport_Error = ''Codex connection failed.''"

definition safe_codes :: "safe_code list" where
  "safe_codes = [Turn_Error, Operation_Failed, Interrupt_Timeout, Recovery_Failed, Unauthorized, Rate_Limit,
     Context_Limit, Sandbox_Denied, Service_Error, Stream_Error, Transport_Error]"

fun kind_name :: "item_kind \<Rightarrow> string" where
  "kind_name User_Message = ''user-message''"
| "kind_name Agent_Message = ''agent-message''"
| "kind_name Plan_Kind = ''plan''"
| "kind_name Reasoning_Kind = ''reasoning''"
| "kind_name Command_Kind = ''command''"
| "kind_name File_Change_Kind = ''file-change''"
| "kind_name Other_Kind = ''other''"

fun step_name :: "step_status \<Rightarrow> string" where
  "step_name Step_Pending = ''pending''"
| "step_name Step_In_Progress = ''in-progress''"
| "step_name Step_Completed = ''completed''"

fun warning_name :: "warning_code \<Rightarrow> string" where
  "warning_name Server_Warning = ''server-warning''"
| "warning_name Events_Dropped = ''events-dropped''"
| "warning_name Data_Truncated = ''data-truncated''"

section \<open>Events and batches\<close>

text \<open>\<open>movePath\<close> may be absent, null or a path.\<close>

datatype move_path = No_Move | Null_Move | Move jsstr

datatype change_kind = Add_File | Delete_File | Update_File move_path

record file_change =
  change_path :: jsstr
  change_kind :: change_kind
  change_diff :: jsstr

record plan_step =
  step_text :: jsstr
  step_state :: step_status

record safe_error =
  safe_error_code :: safe_code
  safe_error_message :: jsstr

record warning =
  warning_code :: warning_code
  warning_message :: jsstr
  dropped_events :: "int option"
  dropped_bytes :: "int option"

record error_report =
  report_code :: safe_code
  report_message :: jsstr
  retryable :: bool

datatype ui_event =
    Turn_Started
  | Turn_Terminal terminal_status "safe_error option"
  | Item_Started jsstr item_kind
  | Item_Completed jsstr item_kind
  | Agent_Delta jsstr jsstr
  | Plan_Delta jsstr jsstr
  | Command_Output jsstr jsstr
  | File_Output jsstr jsstr
  | Summary_Delta jsstr nat jsstr
  | Summary_Part jsstr nat
  | Reasoning_Delta jsstr nat jsstr
  | File_Patch jsstr "file_change list"
  | Turn_Plan "jsstr option" "plan_step list"
  | Turn_Diff jsstr
  | Token_Usage int int int
  | Warning_Event warning
  | Error_Event error_report

record event_batch =
  batch_generation :: int
  batch_sequence :: int
  batch_thread :: jsstr
  batch_turn :: jsstr
  batch_events :: "ui_event list"

definition max_identifier_bytes :: int where "max_identifier_bytes = 512"

section \<open>Their JSON\<close>

abbreviation text_json :: "string \<Rightarrow> json" where "text_json s \<equiv> JStr (js s)"
abbreviation int_json :: "int \<Rightarrow> json" where "int_json i \<equiv> JNum (NInt i)"

definition obj :: "(string \<times> json) list \<Rightarrow> json" where
  "obj ps = JObj (map (\<lambda>(k, v). (js k, v)) ps)"

definition change_name :: "change_kind \<Rightarrow> string" where
  "change_name k = (case k of Add_File \<Rightarrow> ''add'' | Delete_File \<Rightarrow> ''delete'' | Update_File _ \<Rightarrow> ''update'')"

definition move_fields :: "change_kind \<Rightarrow> (string \<times> json) list" where
  "move_fields k =
     (case k of
        Update_File Null_Move \<Rightarrow> [(''movePath'', JNull)]
      | Update_File (Move p) \<Rightarrow> [(''movePath'', JStr p)]
      | _ \<Rightarrow> [])"

definition change_json :: "file_change \<Rightarrow> json" where
  "change_json c =
     obj ([(''path'', JStr (change_path c)), (''kind'', text_json (change_name (change_kind c))),
           (''diff'', JStr (change_diff c))] @ move_fields (change_kind c))"

definition step_json :: "plan_step \<Rightarrow> json" where
  "step_json s = obj [(''step'', JStr (step_text s)), (''status'', text_json (step_name (step_state s)))]"

definition optional_field :: "string \<Rightarrow> ('a \<Rightarrow> json) \<Rightarrow> 'a option \<Rightarrow> (string \<times> json) list" where
  "optional_field k f v = (case v of None \<Rightarrow> [] | Some x \<Rightarrow> [(k, f x)])"

definition safe_error_json :: "safe_error \<Rightarrow> json" where
  "safe_error_json e =
     obj [(''code'', text_json (code_name (safe_error_code e))), (''message'', JStr (safe_error_message e))]"

definition warning_json :: "warning \<Rightarrow> json" where
  "warning_json w =
     obj ([(''type'', text_json ''warning''), (''code'', text_json (warning_name (warning_code w))),
           (''message'', JStr (warning_message w))]
        @ optional_field ''droppedEvents'' int_json (dropped_events w)
        @ optional_field ''droppedBytes'' int_json (dropped_bytes w))"

definition report_json :: "error_report \<Rightarrow> json" where
  "report_json e =
     obj [(''type'', text_json ''error''), (''code'', text_json (code_name (report_code e))),
          (''message'', JStr (report_message e)), (''retryable'', JBool (retryable e))]"

definition delta_json :: "string \<Rightarrow> jsstr \<Rightarrow> jsstr \<Rightarrow> json" where
  "delta_json t i d = obj [(''type'', text_json t), (''itemId'', JStr i), (''delta'', JStr d)]"

fun event_json :: "ui_event \<Rightarrow> json" where
  "event_json Turn_Started = obj [(''type'', text_json ''turn-started'')]"
| "event_json (Turn_Terminal st e) =
     obj ([(''type'', text_json ''turn-terminal''), (''status'', text_json (terminal_name st))]
       @ optional_field ''error'' safe_error_json e)"
| "event_json (Item_Started i k) =
     obj [(''type'', text_json ''item-started''), (''itemId'', JStr i), (''itemKind'', text_json (kind_name k))]"
| "event_json (Item_Completed i k) =
     obj [(''type'', text_json ''item-completed''), (''itemId'', JStr i), (''itemKind'', text_json (kind_name k))]"
| "event_json (Agent_Delta i d) = delta_json ''agent-delta'' i d"
| "event_json (Plan_Delta i d) = delta_json ''plan-delta'' i d"
| "event_json (Command_Output i d) = delta_json ''command-output'' i d"
| "event_json (File_Output i d) = delta_json ''file-output'' i d"
| "event_json (Summary_Delta i n d) =
     obj [(''type'', text_json ''reasoning-summary-delta''), (''itemId'', JStr i),
          (''summaryIndex'', int_json (int n)), (''delta'', JStr d)]"
| "event_json (Summary_Part i n) =
     obj [(''type'', text_json ''reasoning-summary-part''), (''itemId'', JStr i),
          (''summaryIndex'', int_json (int n))]"
| "event_json (Reasoning_Delta i n d) =
     obj [(''type'', text_json ''reasoning-delta''), (''itemId'', JStr i),
          (''contentIndex'', int_json (int n)), (''delta'', JStr d)]"
| "event_json (File_Patch i cs) =
     obj [(''type'', text_json ''file-patch''), (''itemId'', JStr i), (''changes'', JArr (map change_json cs))]"
| "event_json (Turn_Plan ex steps) =
     obj ([(''type'', text_json ''turn-plan'')] @ optional_field ''explanation'' JStr ex
       @ [(''steps'', JArr (map step_json steps))])"
| "event_json (Turn_Diff d) = obj [(''type'', text_json ''turn-diff''), (''diff'', JStr d)]"
| "event_json (Token_Usage t i u) =
     obj [(''type'', text_json ''token-usage''), (''totalTokens'', int_json t),
          (''inputTokens'', int_json i), (''outputTokens'', int_json u)]"
| "event_json (Warning_Event w) = warning_json w"
| "event_json (Error_Event e) = report_json e"

definition batch_json :: "event_batch \<Rightarrow> json" where
  "batch_json b =
     obj [(''generation'', int_json (batch_generation b)), (''turnSequence'', int_json (batch_sequence b)),
          (''threadId'', JStr (batch_thread b)), (''turnId'', JStr (batch_turn b)),
          (''events'', JArr (map event_json (batch_events b)))]"

definition serialize_event_batch :: "event_batch \<Rightarrow> int \<Rightarrow> jsstr option" where
  "serialize_event_batch b max_bytes =
     (if \<not> safe_int max_bytes \<or> max_bytes \<le> 0 then None
      else
        let wire = json_stringify (batch_json b)
        in if utf8_byte_length wire \<le> max_bytes then Some wire else None)"

section \<open>The least queue budget\<close>

definition boundary_identity :: "ui_event list \<Rightarrow> event_batch" where
  "boundary_identity es =
     \<lparr>batch_generation = max_safe_integer, batch_sequence = max_safe_integer,
      batch_thread = replicate (nat max_identifier_bytes) 0, batch_turn = replicate (nat max_identifier_bytes) 0,
      batch_events = es\<rparr>"

definition terminal_boundaries :: "ui_event list" where
  "terminal_boundaries =
     [Turn_Terminal Completed None, Turn_Terminal Interrupted None]
     @ map (\<lambda>c. Turn_Terminal Failed (Some \<lparr>safe_error_code = c, safe_error_message = js (safe_message c)\<rparr>)) safe_codes
     @ [Turn_Terminal Interrupt_Uncertain
          (Some \<lparr>safe_error_code = Interrupt_Timeout,
                 safe_error_message = js ''Codex turn interrupt could not be confirmed.''\<rparr>)]"

definition recovery_failed_diagnostic :: ui_event where
  "recovery_failed_diagnostic =
     Error_Event \<lparr>report_code = Recovery_Failed, report_message = js ''Codex thread recovery failed.'',
                  retryable = False\<rparr>"

definition max_boundary_batch_bytes :: int where
  "max_boundary_batch_bytes =
     Max (set (map (\<lambda>t. utf8_byte_length (json_stringify (batch_json (boundary_identity [Turn_Started, t]))))
       terminal_boundaries))"

definition recovery_batch_bytes :: int where
  "recovery_batch_bytes =
     utf8_byte_length (json_stringify (batch_json (boundary_identity [recovery_failed_diagnostic])))"

definition min_queued_bytes :: int where
  "min_queued_bytes = max_boundary_batch_bytes + recovery_batch_bytes"

section \<open>A sample batch\<close>

definition sample_batch :: event_batch where
  "sample_batch = \<lparr>batch_generation = 0, batch_sequence = 1, batch_thread = [0x61], batch_turn = [0x62],
     batch_events = [Turn_Started]\<rparr>"

lemmas print_simps =
  quote_string_def quote_code_point_def quote_unit_def js_def is_high_def is_low_def json_number_def
  safe_int_def max_safe_integer_def int_to_string_def nat_digits.simps digit_unit_def

lemma sample_batch_text:
  "utf8_byte_length (json_stringify (batch_json sample_batch)) = 96"
proof -
  have "\<exists>t. json_stringify (batch_json sample_batch) = t \<and> ascii t \<and> length t = 96"
    by (simp add: batch_json_def sample_batch_def obj_def print_simps ascii_def)
  then show ?thesis by (auto simp: utf8_byte_length_ascii)
qed

end
