(* ===== verification/EventQueue.thy ===== *)
theory EventQueue
  imports Events
begin

text \<open>
  The pending queue of the event reducer (\<open>#rebuildPendingIdentity\<close> and the pending helpers of
  \<open>src/browser/ride-codex-event-reducer.ts\<close>): incoming batches are merged with the queued batches
  of the same turn, and when the byte budget is exceeded ordinary events are shed first and
  older turns next; turn boundaries and the recovery diagnostic are protected.
\<close>

section \<open>Classes of events\<close>

definition is_turn_boundary :: "ui_event \<Rightarrow> bool" where
  "is_turn_boundary e = (case e of Turn_Started \<Rightarrow> True | Turn_Terminal _ _ \<Rightarrow> True | _ \<Rightarrow> False)"

definition is_turn_started :: "ui_event \<Rightarrow> bool" where
  "is_turn_started e = (case e of Turn_Started \<Rightarrow> True | _ \<Rightarrow> False)"

definition is_turn_terminal :: "ui_event \<Rightarrow> bool" where
  "is_turn_terminal e = (case e of Turn_Terminal _ _ \<Rightarrow> True | _ \<Rightarrow> False)"

definition has_turn_boundary :: "ui_event list \<Rightarrow> bool" where
  "has_turn_boundary es = list_ex is_turn_boundary es"

definition is_diagnostic :: "ui_event \<Rightarrow> bool" where
  "is_diagnostic e = (case e of Warning_Event _ \<Rightarrow> True | Error_Event _ \<Rightarrow> True | _ \<Rightarrow> False)"

definition is_diagnostic_only :: "ui_event list \<Rightarrow> bool" where
  "is_diagnostic_only es = (0 < length es \<and> list_all is_diagnostic es)"

definition is_drop_warning :: "ui_event \<Rightarrow> bool" where
  "is_drop_warning e = (case e of Warning_Event w \<Rightarrow> warning_code w = Events_Dropped | _ \<Rightarrow> False)"

definition is_reserved_recovery_diagnostic :: "ui_event \<Rightarrow> bool" where
  "is_reserved_recovery_diagnostic e = (case e of Error_Event r \<Rightarrow> report_code r = Recovery_Failed | _ \<Rightarrow> False)"

definition is_protected :: "ui_event \<Rightarrow> bool" where
  "is_protected e = (is_turn_boundary e \<or> is_reserved_recovery_diagnostic e)"

section \<open>Batch helpers\<close>

definition saturating_add :: "int \<Rightarrow> int \<Rightarrow> int" where
  "saturating_add left right = min max_safe_integer (left + right)"

definition same_batch_identity :: "event_batch \<Rightarrow> event_batch \<Rightarrow> bool" where
  "same_batch_identity l r \<longleftrightarrow>
     batch_generation l = batch_generation r \<and> batch_sequence l = batch_sequence r \<and>
     batch_thread l = batch_thread r \<and> batch_turn l = batch_turn r"

definition is_older_batch_identity :: "event_batch \<Rightarrow> event_batch \<Rightarrow> bool" where
  "is_older_batch_identity b incoming \<longleftrightarrow>
     batch_generation b < batch_generation incoming \<or>
     (batch_generation b = batch_generation incoming \<and> batch_sequence b < batch_sequence incoming)"

definition freeze_pending_batch :: "event_batch \<Rightarrow> ui_event list \<Rightarrow> event_batch" where
  "freeze_pending_batch identity es =
     \<lparr>batch_generation = batch_generation identity, batch_sequence = batch_sequence identity,
      batch_thread = batch_thread identity, batch_turn = batch_turn identity, batch_events = es\<rparr>"

definition pending_batch_bytes :: "event_batch \<Rightarrow> int" where
  "pending_batch_bytes b = utf8_byte_length (json_stringify (batch_json b))"

definition pending_batches_bytes :: "event_batch list \<Rightarrow> int" where
  "pending_batches_bytes bs = sum_list (map pending_batch_bytes bs)"

text \<open>The constructor only admits batch limits of at least two events.\<close>

function pack_pending_batches :: "event_batch \<Rightarrow> ui_event list \<Rightarrow> nat \<Rightarrow> event_batch list" where
  "pack_pending_batches identity es max_events =
     (if es = [] \<or> max_events = 0 then []
      else freeze_pending_batch identity (take max_events es)
             # pack_pending_batches identity (drop max_events es) max_events)"
  by pat_completeness auto
termination by (relation "measure (\<lambda>(_, es, _). length es)") auto

declare pack_pending_batches.simps [simp del]

definition drop_warning :: "int \<Rightarrow> ui_event" where
  "drop_warning n =
     Warning_Event \<lparr>warning_code = Events_Dropped, warning_message = js ''Codex UI events were dropped.'',
                    dropped_events = Some n, dropped_bytes = None\<rparr>"

text \<open>The filter callback with its three flags.\<close>

fun dedupe_protected :: "bool \<Rightarrow> bool \<Rightarrow> bool \<Rightarrow> ui_event list \<Rightarrow> ui_event list" where
  "dedupe_protected started terminal recovery [] = []"
| "dedupe_protected started terminal recovery (e # es) =
     (if is_turn_started e then
        (if started then dedupe_protected started terminal recovery es
         else e # dedupe_protected True terminal recovery es)
      else if is_turn_terminal e then
        (if terminal then dedupe_protected started terminal recovery es
         else e # dedupe_protected started True recovery es)
      else if is_reserved_recovery_diagnostic e then
        (if recovery then dedupe_protected started terminal recovery es
         else e # dedupe_protected started terminal True es)
      else e # dedupe_protected started terminal recovery es)"

definition dedupe_protected_pending_events :: "ui_event list \<Rightarrow> ui_event list" where
  "dedupe_protected_pending_events es = dedupe_protected False False False es"

section \<open>Rebuilding one identity\<close>

record pending_entry =
  entry_batch :: event_batch
  original_index :: nat

definition pending_entries_bytes :: "pending_entry list \<Rightarrow> int" where
  "pending_entries_bytes es = sum_list (map (\<lambda>e. pending_batch_bytes (entry_batch e)) es)"

definition collect_event :: "int \<times> ui_event list \<Rightarrow> ui_event \<Rightarrow> int \<times> ui_event list" where
  "collect_event acc e =
     (case e of
        Warning_Event w \<Rightarrow>
          if warning_code w = Events_Dropped
          then (saturating_add (fst acc) (case dropped_events w of None \<Rightarrow> 1 | Some n \<Rightarrow> n), snd acc)
          else (fst acc, snd acc @ [e])
      | _ \<Rightarrow> (fst acc, snd acc @ [e]))"

definition compact_entry :: "pending_entry \<Rightarrow> pending_entry" where
  "compact_entry e =
     \<lparr>entry_batch = freeze_pending_batch (entry_batch e) (filter is_protected (batch_events (entry_batch e))),
      original_index = original_index e\<rparr>"

fun compact_loop :: "pending_entry list \<Rightarrow> int \<Rightarrow> pending_entry list \<Rightarrow> pending_entry list \<times> int" where
  "compact_loop [] dropped compacted = (compacted, dropped)"
| "compact_loop (e # es) dropped compacted =
     (let events = filter is_protected (batch_events (entry_batch e)) in
      compact_loop es
        (saturating_add dropped (int (length (batch_events (entry_batch e))) - int (length events)))
        (if events = [] then compacted else compacted @ [compact_entry e]))"

definition compact_ordinary_pending_entries :: "pending_entry list \<Rightarrow> pending_entry list \<times> int" where
  "compact_ordinary_pending_entries es = compact_loop es 0 []"

text \<open>The loop that gives up older turns until the rest fits; None when there is nothing older.\<close>

function removal_loop ::
    "int \<Rightarrow> event_batch \<Rightarrow> int \<Rightarrow> pending_entry list \<Rightarrow> int \<Rightarrow> (pending_entry list \<times> int) option"
where
  "removal_loop max_queued incoming candidate_bytes remaining dropped =
     (if pending_entries_bytes remaining + candidate_bytes \<le> max_queued then Some (remaining, dropped)
      else
        (case List.find (\<lambda>e. is_older_batch_identity (entry_batch e) incoming) remaining of
           None \<Rightarrow> None
         | Some old \<Rightarrow>
             removal_loop max_queued incoming candidate_bytes
               (filter (\<lambda>e. \<not> same_batch_identity (entry_batch e) (entry_batch old)) remaining)
               (saturating_add dropped
                 (int (sum_list (map (\<lambda>e. length (batch_events (entry_batch e)))
                   (filter (\<lambda>e. same_batch_identity (entry_batch e) (entry_batch old)) remaining)))))))"
  by pat_completeness auto
termination
proof (relation "measure (\<lambda>(_, _, _, remaining, _). length remaining)")
  fix max_queued incoming candidate_bytes remaining dropped old
  assume "List.find (\<lambda>e. is_older_batch_identity (entry_batch e) incoming) remaining = Some old"
  then have "old \<in> set remaining" by (auto simp: find_Some_iff)
  then have "length (filter (\<lambda>e. \<not> same_batch_identity (entry_batch e) (entry_batch old)) remaining) < length remaining"
    by (intro length_filter_Cons_less [of _ old]) (simp_all add: same_batch_identity_def)
  then show "((max_queued, incoming, candidate_bytes,
      filter (\<lambda>e. \<not> same_batch_identity (entry_batch e) (entry_batch old)) remaining,
      saturating_add dropped
        (int (sum_list (map (\<lambda>e. length (batch_events (entry_batch e)))
          (filter (\<lambda>e. same_batch_identity (entry_batch e) (entry_batch old)) remaining))))),
      max_queued, incoming, candidate_bytes, remaining, dropped)
      \<in> measure (\<lambda>(_, _, _, remaining, _). length remaining)"
    by simp
qed simp

declare removal_loop.simps [simp del]

text \<open>The queue with its positions, split into the entries of the incoming identity and the rest.\<close>

definition entries_of :: "event_batch list \<Rightarrow> pending_entry list" where
  "entries_of pending =
     map (\<lambda>(i, b). \<lparr>entry_batch = b, original_index = i\<rparr>) (zip [0..<length pending] pending)"

definition same_entries :: "event_batch list \<Rightarrow> event_batch \<Rightarrow> pending_entry list" where
  "same_entries pending incoming =
     filter (\<lambda>e. same_batch_identity (entry_batch e) incoming) (entries_of pending)"

definition other_entries :: "event_batch list \<Rightarrow> event_batch \<Rightarrow> pending_entry list" where
  "other_entries pending incoming =
     filter (\<lambda>e. \<not> same_batch_identity (entry_batch e) incoming) (entries_of pending)"

definition insertion_index :: "event_batch list \<Rightarrow> event_batch \<Rightarrow> nat" where
  "insertion_index pending incoming =
     foldl (\<lambda>i e. min i (original_index e)) (length pending) (same_entries pending incoming)"

definition gathered :: "event_batch list \<Rightarrow> event_batch \<Rightarrow> int \<times> ui_event list" where
  "gathered pending incoming =
     foldl collect_event (0, [])
       (concat (map (\<lambda>e. batch_events (entry_batch e)) (same_entries pending incoming)) @ batch_events incoming)"

text \<open>Shedding in the order of the code: ordinary events of the turn itself, ordinary events of
  the other turns, older turns.\<close>

definition shed_candidate ::
    "nat \<Rightarrow> int \<Rightarrow> event_batch \<Rightarrow> int \<Rightarrow> int \<times> ui_event list \<Rightarrow> int \<times> ui_event list" where
  "shed_candidate max_batch max_queued incoming remaining_bytes g =
     (let candidate = pack_pending_batches incoming (snd g) max_batch in
      if remaining_bytes + pending_batches_bytes candidate > max_queued
      then (let kept = filter is_protected (snd g) in
            (saturating_add (fst g) (int (length (snd g)) - int (length kept)), kept))
      else g)"

definition compact_remaining ::
    "int \<Rightarrow> int \<Rightarrow> pending_entry list \<Rightarrow> int \<Rightarrow> pending_entry list \<times> int" where
  "compact_remaining max_queued candidate_bytes remaining dropped =
     (if pending_entries_bytes remaining + candidate_bytes > max_queued
      then (fst (compact_ordinary_pending_entries remaining),
            saturating_add dropped (snd (compact_ordinary_pending_entries remaining)))
      else (remaining, dropped))"

definition with_drop_warning ::
    "nat \<Rightarrow> int \<Rightarrow> event_batch \<Rightarrow> int \<Rightarrow> int \<Rightarrow> ui_event list \<Rightarrow> ui_event list" where
  "with_drop_warning max_batch max_queued incoming remaining_bytes dropped candidate_events =
     (if 0 < dropped \<and>
         remaining_bytes + pending_batches_bytes
           (pack_pending_batches incoming (candidate_events @ [drop_warning max_safe_integer]) max_batch) \<le> max_queued
      then candidate_events @ [drop_warning dropped] else candidate_events)"

definition splice_candidate :: "pending_entry list \<Rightarrow> nat \<Rightarrow> event_batch list \<Rightarrow> event_batch list" where
  "splice_candidate remaining index candidate =
     map entry_batch (takeWhile (\<lambda>e. \<not> index \<le> original_index e) remaining) @ candidate
       @ map entry_batch (dropWhile (\<lambda>e. \<not> index \<le> original_index e) remaining)"

definition rebuild_pending_identity ::
    "nat \<Rightarrow> int \<Rightarrow> event_batch list \<Rightarrow> event_batch \<Rightarrow> event_batch list" where
  "rebuild_pending_identity max_batch max_queued pending incoming =
     (let others = other_entries pending incoming;
          g0 = gathered pending incoming;
          g = shed_candidate max_batch max_queued incoming (pending_entries_bytes others)
                (fst g0, dedupe_protected_pending_events (snd g0));
          candidate_bytes = pending_batches_bytes (pack_pending_batches incoming (snd g) max_batch);
          c = compact_remaining max_queued candidate_bytes others (fst g)
      in case removal_loop max_queued incoming candidate_bytes (fst c) (snd c) of
           None \<Rightarrow> pending
         | Some (remaining, dropped) \<Rightarrow>
             (let remaining_bytes = pending_entries_bytes remaining;
                  events = with_drop_warning max_batch max_queued incoming remaining_bytes dropped (snd g);
                  candidate = pack_pending_batches incoming events max_batch
              in if candidate = [] \<or> remaining_bytes + pending_batches_bytes candidate > max_queued then pending
                 else splice_candidate remaining (insertion_index pending incoming) candidate))"

section \<open>Facts on the helpers\<close>

lemma same_batch_identity_refl [simp]: "same_batch_identity b b"
  by (simp add: same_batch_identity_def)

lemma same_batch_identity_sym: "same_batch_identity a b \<longleftrightarrow> same_batch_identity b a"
  by (auto simp: same_batch_identity_def)

lemma same_batch_identity_trans: "same_batch_identity a b \<Longrightarrow> same_batch_identity b c \<Longrightarrow> same_batch_identity a c"
  by (simp add: same_batch_identity_def)

lemma freeze_identity [simp]:
  "same_batch_identity (freeze_pending_batch b es) c \<longleftrightarrow> same_batch_identity b c"
  "batch_events (freeze_pending_batch b es) = es"
  by (simp_all add: same_batch_identity_def freeze_pending_batch_def)

lemma pack_concat: "0 < n \<Longrightarrow> concat (map batch_events (pack_pending_batches b es n)) = es"
  by (induction b es n rule: pack_pending_batches.induct) (subst pack_pending_batches.simps, auto)

lemma pack_batches:
  "x \<in> set (pack_pending_batches b es n) \<Longrightarrow>
     batch_events x \<noteq> [] \<and> length (batch_events x) \<le> n \<and> same_batch_identity x b"
  by (induction b es n rule: pack_pending_batches.induct)
    (subst (asm) (2) pack_pending_batches.simps, auto split: if_splits)

lemma pack_Nil_iff: "0 < n \<Longrightarrow> pack_pending_batches b es n = [] \<longleftrightarrow> es = []"
  by (subst pack_pending_batches.simps) simp

lemma is_protected_iff:
  "is_protected e \<longleftrightarrow> is_turn_started e \<or> is_turn_terminal e \<or> is_reserved_recovery_diagnostic e"
  by (cases e) (simp_all add: is_protected_def is_turn_boundary_def is_turn_started_def is_turn_terminal_def)

lemma filter_protected_dedupe:
  "filter is_protected (dedupe_protected a b c es) = dedupe_protected a b c (filter is_protected es)"
  by (induction es arbitrary: a b c) (simp_all add: is_protected_iff)

lemma snd_collect: "snd (foldl collect_event acc es) = snd acc @ filter (\<lambda>e. \<not> is_drop_warning e) es"
proof (induction es arbitrary: acc)
  case (Cons e es)
  have "snd (collect_event acc e) = snd acc @ (if is_drop_warning e then [] else [e])"
    by (cases e) (auto simp: collect_event_def is_drop_warning_def)
  with Cons show ?case by simp
qed simp

lemma drop_warning_not_protected: "is_drop_warning e \<Longrightarrow> \<not> is_protected e"
  by (auto simp: is_drop_warning_def is_protected_def is_turn_boundary_def is_reserved_recovery_diagnostic_def
      split: ui_event.splits)

lemma filter_protected_not_drop [simp]:
  "filter is_protected (filter (\<lambda>e. \<not> is_drop_warning e) es) = filter is_protected es"
  using drop_warning_not_protected by (induction es) auto

lemma filter_not_drop_protected [simp]:
  "filter (\<lambda>e. \<not> is_drop_warning e \<and> is_protected e) es = filter is_protected es"
  by (rule filter_cong) (auto dest: drop_warning_not_protected)

lemma not_protected_drop [simp]: "\<not> is_protected (drop_warning n)"
  by (rule drop_warning_not_protected) (simp add: is_drop_warning_def drop_warning_def)

section \<open>Queue entries\<close>

definition identity_events :: "event_batch list \<Rightarrow> event_batch \<Rightarrow> ui_event list" where
  "identity_events pending b = concat (map batch_events (filter (\<lambda>x. same_batch_identity x b) pending))"

lemma map_entries_of [simp]: "map entry_batch (entries_of pending) = pending"
  by (simp add: entries_of_def comp_def split_def)

lemma map_filter_entries: "map entry_batch (filter (\<lambda>e. P (entry_batch e)) es) = filter P (map entry_batch es)"
  by (induction es) auto

lemma map_other_entries:
  "map entry_batch (other_entries pending incoming) = filter (\<lambda>b. \<not> same_batch_identity b incoming) pending"
  by (simp add: other_entries_def map_filter_entries [where P = "\<lambda>b. \<not> same_batch_identity b incoming"])

lemma map_same_entries:
  "map entry_batch (same_entries pending incoming) = filter (\<lambda>b. same_batch_identity b incoming) pending"
  by (simp add: same_entries_def map_filter_entries [where P = "\<lambda>b. same_batch_identity b incoming"])

lemma snd_gathered:
  "snd (gathered pending incoming) =
     filter (\<lambda>e. \<not> is_drop_warning e) (identity_events pending incoming @ batch_events incoming)"
proof -
  have "map (\<lambda>e. batch_events (entry_batch e)) (same_entries pending incoming) =
      map batch_events (filter (\<lambda>b. same_batch_identity b incoming) pending)"
    by (simp flip: map_same_entries)
  then show ?thesis by (simp add: gathered_def snd_collect identity_events_def)
qed

lemma entries_bytes: "pending_entries_bytes es = pending_batches_bytes (map entry_batch es)"
  by (simp add: pending_entries_bytes_def pending_batches_bytes_def comp_def)

lemma batches_bytes_append [simp]:
  "pending_batches_bytes (xs @ ys) = pending_batches_bytes xs + pending_batches_bytes ys"
  by (simp add: pending_batches_bytes_def)

lemma splice_split:
  "\<exists>us vs. map entry_batch remaining = us @ vs \<and> splice_candidate remaining i candidate = us @ candidate @ vs"
  by (metis map_append splice_candidate_def takeWhile_dropWhile_id)

lemma compact_loop_entries:
  "fst (compact_loop es d c) = c @ filter (\<lambda>e. batch_events (entry_batch e) \<noteq> []) (map compact_entry es)"
  by (induction es arbitrary: d c) (simp_all add: Let_def compact_entry_def)

text \<open>The protected events an entry list holds for an identity.\<close>

definition protected_of :: "pending_entry list \<Rightarrow> event_batch \<Rightarrow> ui_event list" where
  "protected_of es b = filter is_protected (identity_events (map entry_batch es) b)"

lemma protected_of_compact: "protected_of (fst (compact_ordinary_pending_entries es)) b = protected_of es b"
proof -
  have "protected_of (filter (\<lambda>e. batch_events (entry_batch e) \<noteq> []) (map compact_entry es)) b = protected_of es b"
    by (induction es) (auto simp: protected_of_def identity_events_def compact_entry_def)
  then show ?thesis by (simp add: compact_ordinary_pending_entries_def compact_loop_entries)
qed

lemma removal_loop_spec:
  "removal_loop m incoming cb remaining dropped = Some (remaining', dropped') \<Longrightarrow>
     set remaining' \<subseteq> set remaining \<and> pending_entries_bytes remaining' + cb \<le> m \<and>
     (\<forall>b. \<not> is_older_batch_identity b incoming \<longrightarrow> protected_of remaining' b = protected_of remaining b)"
proof (induction m incoming cb remaining dropped rule: removal_loop.induct)
  case (1 m incoming cb remaining dropped)
  show ?case
  proof (cases "pending_entries_bytes remaining + cb \<le> m")
    case True
    with "1.prems" show ?thesis by (subst (asm) removal_loop.simps) auto
  next
    case False
    with "1.prems" obtain old where old:
      "List.find (\<lambda>e. is_older_batch_identity (entry_batch e) incoming) remaining = Some old"
      by (subst (asm) removal_loop.simps) (auto split: option.splits)
    then have older: "is_older_batch_identity (entry_batch old) incoming" by (auto simp: find_Some_iff)
    let ?rest = "filter (\<lambda>e. \<not> same_batch_identity (entry_batch e) (entry_batch old)) remaining"
    have kept: "protected_of ?rest b = protected_of remaining b" if "\<not> is_older_batch_identity b incoming" for b
    proof -
      have "\<not> same_batch_identity (entry_batch e) b" if "same_batch_identity (entry_batch e) (entry_batch old)" for e
        using older \<open>\<not> is_older_batch_identity b incoming\<close> that
        by (auto simp: same_batch_identity_def is_older_batch_identity_def)
      then show ?thesis
        by (induction remaining) (auto simp: protected_of_def identity_events_def)
    qed
    have "removal_loop m incoming cb remaining dropped = removal_loop m incoming cb ?rest
        (saturating_add dropped (int (sum_list (map (\<lambda>e. length (batch_events (entry_batch e)))
          (filter (\<lambda>e. same_batch_identity (entry_batch e) (entry_batch old)) remaining)))))"
      using False old by (subst removal_loop.simps) simp
    with "1.prems" "1.IH" [OF False old] have
      "set remaining' \<subseteq> set ?rest \<and> pending_entries_bytes remaining' + cb \<le> m \<and>
       (\<forall>b. \<not> is_older_batch_identity b incoming \<longrightarrow> protected_of remaining' b = protected_of ?rest b)"
      by simp
    with kept show ?thesis by auto
  qed
qed

section \<open>What rebuilding does\<close>

text \<open>Every way \<open>rebuild_pending_identity\<close> can end, in one rule: it leaves the queue alone, or it
  splices packed events of the incoming identity into what remains of the others.\<close>

definition candidate_events ::
    "nat \<Rightarrow> int \<Rightarrow> event_batch list \<Rightarrow> event_batch \<Rightarrow> int \<times> ui_event list" where
  "candidate_events max_batch max_queued pending incoming =
     shed_candidate max_batch max_queued incoming (pending_entries_bytes (other_entries pending incoming))
       (fst (gathered pending incoming), dedupe_protected_pending_events (snd (gathered pending incoming)))"

text \<open>The incoming batch is refused: giving up all older turns does not make room, or there is nothing to
  queue, or it does not fit with the overflow warning.\<close>

definition refuses :: "nat \<Rightarrow> int \<Rightarrow> event_batch list \<Rightarrow> event_batch \<Rightarrow> bool" where
  "refuses n m pending incoming \<longleftrightarrow>
     (let g = candidate_events n m pending incoming;
          cb = pending_batches_bytes (pack_pending_batches incoming (snd g) n);
          c = compact_remaining m cb (other_entries pending incoming) (fst g)
      in case removal_loop m incoming cb (fst c) (snd c) of
           None \<Rightarrow> True
         | Some (remaining, dropped) \<Rightarrow>
             (let candidate = pack_pending_batches incoming
                    (with_drop_warning n m incoming (pending_entries_bytes remaining) dropped (snd g)) n
              in candidate = [] \<or> pending_entries_bytes remaining + pending_batches_bytes candidate > m))"

lemma rebuild_cases:
  obtains (kept) "rebuild_pending_identity n m pending incoming = pending" "refuses n m pending incoming"
  | (spliced) remaining dropped events i where
      "rebuild_pending_identity n m pending incoming =
         splice_candidate remaining i (pack_pending_batches incoming events n)"
      "set remaining \<subseteq> set (fst (compact_remaining m
         (pending_batches_bytes (pack_pending_batches incoming (snd (candidate_events n m pending incoming)) n))
         (other_entries pending incoming) (fst (candidate_events n m pending incoming))))"
      "\<And>b. \<not> is_older_batch_identity b incoming \<Longrightarrow>
         protected_of remaining b = protected_of (other_entries pending incoming) b"
      "events = snd (candidate_events n m pending incoming) \<or>
       events = snd (candidate_events n m pending incoming) @ [drop_warning dropped]"
      "pending_entries_bytes remaining + pending_batches_bytes (pack_pending_batches incoming events n) \<le> m"
      "pack_pending_batches incoming events n \<noteq> []"
proof -
  let ?g = "candidate_events n m pending incoming"
  let ?cb = "pending_batches_bytes (pack_pending_batches incoming (snd ?g) n)"
  let ?c = "compact_remaining m ?cb (other_entries pending incoming) (fst ?g)"
  have rebuild: "rebuild_pending_identity n m pending incoming =
      (case removal_loop m incoming ?cb (fst ?c) (snd ?c) of
         None \<Rightarrow> pending
       | Some (remaining, dropped) \<Rightarrow>
           (let candidate = pack_pending_batches incoming
                  (with_drop_warning n m incoming (pending_entries_bytes remaining) dropped (snd ?g)) n
            in if candidate = [] \<or> pending_entries_bytes remaining + pending_batches_bytes candidate > m then pending
               else splice_candidate remaining (insertion_index pending incoming) candidate))"
    by (simp only: rebuild_pending_identity_def candidate_events_def Let_def)
  show thesis
  proof (cases "removal_loop m incoming ?cb (fst ?c) (snd ?c)")
    case None
    with rebuild that(1) show thesis by (simp add: refuses_def Let_def)
  next
    case (Some rd)
    obtain remaining dropped where rd: "rd = (remaining, dropped)" by fastforce
    let ?events = "with_drop_warning n m incoming (pending_entries_bytes remaining) dropped (snd ?g)"
    note spec = removal_loop_spec [OF Some [unfolded rd]]
    have "protected_of (fst ?c) b = protected_of (other_entries pending incoming) b" for b
      by (simp add: compact_remaining_def protected_of_compact)
    moreover have "refuses n m pending incoming \<longleftrightarrow>
        (let candidate = pack_pending_batches incoming ?events n
         in candidate = [] \<or> pending_entries_bytes remaining + pending_batches_bytes candidate > m)"
      using Some rd by (simp add: refuses_def Let_def)
    ultimately show thesis
      using spec rebuild Some rd that(1) that(2) [of remaining "insertion_index pending incoming" ?events dropped]
      by (auto simp: Let_def with_drop_warning_def split: if_splits)
  qed
qed

definition queue_ok :: "nat \<Rightarrow> int \<Rightarrow> event_batch list \<Rightarrow> bool" where
  "queue_ok max_batch max_queued pending \<longleftrightarrow>
     pending_batches_bytes pending \<le> max_queued \<and>
     (\<forall>b \<in> set pending. batch_events b \<noteq> [] \<and> length (batch_events b) \<le> max_batch)"

lemma compact_remaining_entries:
  assumes "e \<in> set (fst (compact_remaining m cb es d))" "\<forall>x \<in> set es. P (entry_batch x) \<and> batch_events (entry_batch x) \<noteq> []"
    and "\<And>b. P b \<Longrightarrow> filter is_protected (batch_events b) \<noteq> [] \<Longrightarrow> P (freeze_pending_batch b (filter is_protected (batch_events b)))"
  shows "P (entry_batch e) \<and> batch_events (entry_batch e) \<noteq> []"
proof (cases "pending_entries_bytes es + cb > m")
  case True
  with assms(1) have "e \<in> set (filter (\<lambda>e. batch_events (entry_batch e) \<noteq> []) (map compact_entry es))"
    by (simp add: compact_remaining_def compact_ordinary_pending_entries_def compact_loop_entries)
  then obtain x where "x \<in> set es" "e = compact_entry x" "batch_events (entry_batch e) \<noteq> []" by auto
  with assms(2,3) show ?thesis by (simp add: compact_entry_def)
next
  case False
  with assms(1,2) show ?thesis by (simp add: compact_remaining_def)
qed

lemma other_entries_batches: "x \<in> set (other_entries pending incoming) \<Longrightarrow> entry_batch x \<in> set pending \<and>
    \<not> same_batch_identity (entry_batch x) incoming"
proof -
  assume "x \<in> set (other_entries pending incoming)"
  then have "entry_batch x \<in> set (map entry_batch (other_entries pending incoming))" by simp
  then show ?thesis by (simp only: map_other_entries) simp
qed

lemma rebuild_queue_ok:
  assumes "queue_ok n m pending"
  shows "queue_ok n m (rebuild_pending_identity n m pending incoming)"
proof (cases rule: rebuild_cases [of n m pending incoming])
  case kept
  with assms show ?thesis by simp
next
  case (spliced remaining dropped events i)
  obtain us vs where uv: "map entry_batch remaining = us @ vs"
    "rebuild_pending_identity n m pending incoming = us @ pack_pending_batches incoming events n @ vs"
    using splice_split spliced(1) by metis
  have "batch_events b \<noteq> [] \<and> length (batch_events b) \<le> n" if "b \<in> set us \<union> set vs" for b
  proof -
    from that uv(1) obtain e where e: "e \<in> set remaining" "b = entry_batch e"
      by (metis Un_iff imageE list.set_map set_append)
    have le: "length (filter is_protected es) \<le> k" if "length es \<le> k" for es k
      using that length_filter_le [of is_protected es] by linarith
    have "\<forall>x \<in> set (other_entries pending incoming).
        length (batch_events (entry_batch x)) \<le> n \<and> batch_events (entry_batch x) \<noteq> []"
      using assms other_entries_batches by (auto simp: queue_ok_def)
    with compact_remaining_entries [where P = "\<lambda>b. length (batch_events b) \<le> n", OF subsetD [OF spliced(2) e(1)]] e(2) le
    show ?thesis by simp
  qed
  moreover have "pending_batches_bytes (us @ pack_pending_batches incoming events n @ vs) \<le> m"
    using spliced(5) uv(1) by (simp add: entries_bytes)
  ultimately show ?thesis using pack_batches uv(2) by (fastforce simp: queue_ok_def)
qed

lemma identity_events_append:
  "identity_events (xs @ ys) b = identity_events xs b @ identity_events ys b"
  by (simp add: identity_events_def)

lemma identity_events_same:
  "same_batch_identity incoming b \<Longrightarrow> \<forall>x \<in> set xs. same_batch_identity x incoming \<Longrightarrow>
     identity_events xs b = concat (map batch_events xs)"
proof -
  assume "same_batch_identity incoming b" "\<forall>x \<in> set xs. same_batch_identity x incoming"
  then have "filter (\<lambda>x. same_batch_identity x b) xs = xs"
    by (intro filter_True) (blast intro: same_batch_identity_trans)
  then show ?thesis by (simp add: identity_events_def)
qed

lemma identity_events_different:
  "\<forall>x \<in> set xs. \<not> same_batch_identity x b \<Longrightarrow> identity_events xs b = []"
  by (simp add: identity_events_def)

lemma identity_events_pack:
  "0 < n \<Longrightarrow> identity_events (pack_pending_batches incoming es n) b =
     (if same_batch_identity incoming b then es else [])"
proof (cases "same_batch_identity incoming b")
  case True
  assume "0 < n"
  with True show ?thesis
    using pack_batches [of _ incoming es n] by (simp add: identity_events_same pack_concat)
next
  case False
  then have "\<forall>x \<in> set (pack_pending_batches incoming es n). \<not> same_batch_identity x b"
    by (metis pack_batches same_batch_identity_sym same_batch_identity_trans)
  with False show ?thesis by (simp add: identity_events_different)
qed

lemma identity_events_cong: "same_batch_identity b c \<Longrightarrow> identity_events xs b = identity_events xs c"
  by (simp add: identity_events_def same_batch_identity_def)

lemma protected_candidate:
  "filter is_protected (snd (candidate_events n m pending incoming)) =
     dedupe_protected_pending_events (filter is_protected (identity_events pending incoming @ batch_events incoming))"
  by (simp add: candidate_events_def shed_candidate_def Let_def snd_gathered dedupe_protected_pending_events_def
      filter_protected_dedupe)

section \<open>Properties\<close>

text \<open>C24. The queue never exceeds its budget: rebuilding it for an incoming batch keeps the total
  JSON size within the byte budget and every queued batch non-empty and within the batch limit.\<close>

theorem queue_bounded:
  assumes "queue_ok max_batch max_queued pending"
  shows "queue_ok max_batch max_queued (rebuild_pending_identity max_batch max_queued pending incoming)"
  using assms by (rule rebuild_queue_ok)

theorem queue_bounded_witness:
  "queue_ok 2 1000 (rebuild_pending_identity 2 1000 [] sample_batch)"
  by (rule queue_bounded) (simp add: queue_ok_def pending_batches_bytes_def)

text \<open>What the queue holds after an incoming batch that is not refused: the boundaries and recovery
  diagnostics of the incoming turn, queued and new, each kind once and in order; and those of every other
  turn that is not older, untouched.\<close>

definition boundaries_kept :: "event_batch list \<Rightarrow> event_batch \<Rightarrow> event_batch list \<Rightarrow> bool" where
  "boundaries_kept pending incoming queue \<longleftrightarrow>
     filter is_protected (identity_events queue incoming) =
       dedupe_protected_pending_events
         (filter is_protected (identity_events pending incoming @ batch_events incoming)) \<and>
     (\<forall>b. \<not> is_older_batch_identity b incoming \<and> \<not> same_batch_identity b incoming \<longrightarrow>
        filter is_protected (identity_events queue b) = filter is_protected (identity_events pending b))"

lemma rebuild_boundaries:
  assumes "0 < max_batch" and "queue = rebuild_pending_identity max_batch max_queued pending incoming"
  shows "refuses max_batch max_queued pending incoming \<and> queue = pending \<or> boundaries_kept pending incoming queue"
proof (cases rule: rebuild_cases [of max_batch max_queued pending incoming])
  case kept
  with assms(2) show ?thesis by simp
next
  case (spliced remaining dropped events i)
  obtain us vs where uv: "map entry_batch remaining = us @ vs"
    "queue = us @ pack_pending_batches incoming events max_batch @ vs"
    using splice_split spliced(1) assms(2) by metis
  have prot: "filter is_protected (identity_events queue b) =
      filter is_protected (identity_events us b) @
      (if same_batch_identity incoming b then filter is_protected events else []) @
      filter is_protected (identity_events vs b)" for b
    using assms(1) uv(2) by (simp add: identity_events_append identity_events_pack)
  have rest: "filter is_protected (identity_events us b) @ filter is_protected (identity_events vs b) =
      filter is_protected (identity_events (filter (\<lambda>b. \<not> same_batch_identity b incoming) pending) b)"
    if "\<not> is_older_batch_identity b incoming" for b
    using spliced(3) [OF that] uv(1)
    by (simp add: protected_of_def identity_events_append map_other_entries)
  have own: "\<not> is_older_batch_identity incoming incoming" by (simp add: is_older_batch_identity_def)
  have none: "identity_events (filter (\<lambda>b. \<not> same_batch_identity b incoming) pending) incoming = []"
    by (simp add: identity_events_different)
  have events: "filter is_protected events = filter is_protected (snd (candidate_events max_batch max_queued pending incoming))"
    using spliced(4) by auto
  have "filter is_protected (identity_events us incoming) = []" "filter is_protected (identity_events vs incoming) = []"
    using rest [OF own] none by simp_all
  then have "filter is_protected (identity_events queue incoming) =
      dedupe_protected_pending_events (filter is_protected (identity_events pending incoming @ batch_events incoming))"
    using prot [of incoming] events by (simp add: protected_candidate)
  moreover have "filter is_protected (identity_events queue b) = filter is_protected (identity_events pending b)"
    if b: "\<not> is_older_batch_identity b incoming" "\<not> same_batch_identity b incoming" for b
  proof -
    have "identity_events (filter (\<lambda>b. \<not> same_batch_identity b incoming) pending) b = identity_events pending b"
      using b(2) by (auto simp: identity_events_def same_batch_identity_def intro!: arg_cong [where f = "\<lambda>l. concat (map batch_events l)"] filter_cong)
    moreover have "\<not> same_batch_identity incoming b" using b(2) same_batch_identity_sym by blast
    ultimately show ?thesis using prot [of b] rest [OF b(1)] by simp
  qed
  ultimately show ?thesis unfolding boundaries_kept_def by blast
qed

text \<open>Without pressure nothing is lost: if the merged turn fits the budget beside the other turns,
  the queue holds exactly the events of the turn, queued ones first, in order and without repeated
  boundaries, and all other batches stay as they were.\<close>

lemma fst_collect_none: "list_all (\<lambda>e. \<not> is_drop_warning e) es \<Longrightarrow> fst (foldl collect_event acc es) = fst acc"
proof (induction es arbitrary: acc)
  case (Cons e es)
  moreover have "fst (collect_event acc e) = fst acc" if "\<not> is_drop_warning e"
    using that by (cases e) (auto simp: collect_event_def is_drop_warning_def)
  ultimately show ?case by simp
qed simp

lemma filter_not_same_splice:
  assumes "\<forall>x \<in> set candidate. same_batch_identity x incoming"
    and "\<forall>e \<in> set remaining. \<not> same_batch_identity (entry_batch e) incoming"
  shows "filter (\<lambda>b. \<not> same_batch_identity b incoming) (splice_candidate remaining i candidate) = map entry_batch remaining"
    and "filter (\<lambda>b. same_batch_identity b incoming) (splice_candidate remaining i candidate) = candidate"
proof -
  obtain us vs where uv: "map entry_batch remaining = us @ vs" "splice_candidate remaining i candidate = us @ candidate @ vs"
    using splice_split by metis
  from assms(2) have "\<forall>b \<in> set (us @ vs). \<not> same_batch_identity b incoming"
    by (simp flip: uv(1) del: set_append)
  then have parts: "\<forall>b \<in> set us. \<not> same_batch_identity b incoming" "\<forall>b \<in> set vs. \<not> same_batch_identity b incoming"
    by simp_all
  from parts assms(1) uv show "filter (\<lambda>b. \<not> same_batch_identity b incoming) (splice_candidate remaining i candidate) = map entry_batch remaining"
    by (simp add: filter_id_conv)
  from parts assms(1) uv show "filter (\<lambda>b. same_batch_identity b incoming) (splice_candidate remaining i candidate) = candidate"
    by (simp add: filter_id_conv)
qed

theorem nothing_dropped_without_pressure:
  assumes "0 < max_batch" and "events = identity_events pending incoming @ batch_events incoming"
    and "events \<noteq> []" and "list_all (\<lambda>e. \<not> is_drop_warning e) events"
    and "pending_batches_bytes (filter (\<lambda>b. \<not> same_batch_identity b incoming) pending)
       + pending_batches_bytes (pack_pending_batches incoming (dedupe_protected_pending_events events) max_batch) \<le> max_queued"
    and "queue = rebuild_pending_identity max_batch max_queued pending incoming"
  shows "identity_events queue incoming = dedupe_protected_pending_events events \<and>
    filter (\<lambda>b. \<not> same_batch_identity b incoming) queue = filter (\<lambda>b. \<not> same_batch_identity b incoming) pending"
proof -
  let ?others = "other_entries pending incoming" and ?es = "dedupe_protected_pending_events events"
  let ?cand = "pack_pending_batches incoming ?es max_batch"
  have same: "concat (map (\<lambda>e. batch_events (entry_batch e)) (same_entries pending incoming)) = identity_events pending incoming"
    by (simp add: identity_events_def comp_def flip: map_same_entries)
  have "snd (gathered pending incoming) = events"
    using assms(2,4) by (simp add: snd_gathered filter_id_conv list_all_iff)
  moreover have "fst (gathered pending incoming) = 0"
    using assms(2,4) by (simp add: gathered_def same fst_collect_none)
  moreover have fits: "pending_entries_bytes ?others + pending_batches_bytes ?cand \<le> max_queued"
    using assms(5) by (simp add: entries_bytes map_other_entries)
  moreover have "?es \<noteq> []"
    using assms(3) by (cases events) (auto simp: dedupe_protected_pending_events_def)
  then have "?cand \<noteq> []" using assms(1) by (simp add: pack_Nil_iff)
  ultimately have queue: "queue = splice_candidate ?others (insertion_index pending incoming) ?cand"
    using assms(6)
    by (simp add: rebuild_pending_identity_def shed_candidate_def compact_remaining_def Let_def
        removal_loop.simps with_drop_warning_def)
  have "\<forall>x \<in> set ?cand. same_batch_identity x incoming" using pack_batches by blast
  moreover have "\<forall>e \<in> set ?others. \<not> same_batch_identity (entry_batch e) incoming"
    using other_entries_batches by blast
  ultimately show ?thesis
    using filter_not_same_splice [of ?cand incoming ?others "insertion_index pending incoming"] assms(1)
    by (simp add: queue identity_events_def pack_concat map_other_entries)
qed

theorem nothing_dropped_without_pressure_witness:
  "identity_events (rebuild_pending_identity 2 200 [] sample_batch) sample_batch = [Turn_Started]"
proof -
  have pack: "pack_pending_batches sample_batch [Turn_Started] 2 = [sample_batch]"
    by (simp add: pack_pending_batches.simps freeze_pending_batch_def sample_batch_def)
  have "dedupe_protected_pending_events [Turn_Started] = [Turn_Started]"
    by (simp add: dedupe_protected_pending_events_def)
  then show ?thesis
    using nothing_dropped_without_pressure [OF _ refl _ _ _ refl, of 2 "[]" sample_batch 200] pack
    by (simp add: identity_events_def sample_batch_def [THEN arg_cong [where f = batch_events]] is_drop_warning_def
        pending_batches_bytes_def pending_batch_bytes_def sample_batch_text)
qed

end
