(* ===== verification/EventState.thy ===== *)
theory EventState
  imports EventQueue JsMap
begin

text \<open>
  The retained state of one turn (\<open>#applyEvent\<close> and the item, diagnostic and retention methods
  of \<open>src/browser/ride-codex-event-reducer.ts\<close>). The state record holds the private fields of the
  class that describe the turn; each method is a function on it, and a method that reports
  whether something changed returns that flag with the new state.
\<close>

section \<open>State\<close>

record item =
  item_id :: jsstr
  item_kind :: item_kind
  item_completed :: bool
  item_text :: jsstr
  summaries :: "jsstr list"
  reasoning :: "jsstr list"
  changes :: "file_change list"
  omitted_bytes :: int
  omitted_changes :: int
  omitted_paths :: int

record plan =
  explanation :: "jsstr option"
  steps :: "plan_step list"

record usage =
  total_tokens :: int
  input_tokens :: int
  output_tokens :: int

record limits =
  max_wire :: int
  max_queued :: int
  max_batch :: nat
  max_item :: int
  max_items :: nat
  max_retained :: int
  max_history :: nat

record turn =
  generation :: int
  highest_sequence :: "int option"
  thread_id :: "jsstr option"
  turn_id :: "jsstr option"
  status :: turn_status
  items :: "(jsstr, item) jsmap"
  truncated_items :: "jsstr list"
  plan :: "plan option"
  diff :: "jsstr option"
  usage :: "usage option"
  warnings :: "warning list"
  errors :: "error_report list"
  diagnostic_bytes :: int
  retention_truncated :: bool
  recovery_retained :: bool
  finalized :: "jsstr list"

definition slot_bytes :: int where "slot_bytes = 8"
definition max_plan_steps :: nat where "max_plan_steps = 256"
definition max_diagnostic_bytes :: int where "max_diagnostic_bytes = 64 * 1024"
definition max_finalized :: nat where "max_finalized = 256"

definition empty_turn :: turn where
  "empty_turn =
     \<lparr>generation = 0, highest_sequence = None, thread_id = None, turn_id = None, status = Idle, items = [],
      truncated_items = [], plan = None, diff = None, usage = None, warnings = [], errors = [],
      diagnostic_bytes = 0, retention_truncated = False, recovery_retained = False, finalized = []\<rparr>"

definition is_terminal :: "turn \<Rightarrow> bool" where
  "is_terminal t = (case status t of Terminal _ \<Rightarrow> True | _ \<Rightarrow> False)"

definition reset_for :: "event_batch \<Rightarrow> turn \<Rightarrow> turn" where
  "reset_for b t =
     t\<lparr>generation := batch_generation b, highest_sequence := Some (batch_sequence b),
       recovery_retained := False, thread_id := Some (batch_thread b), turn_id := Some (batch_turn b),
       status := Idle, items := [], truncated_items := [], plan := None, diff := None, usage := None,
       warnings := [], errors := [], diagnostic_bytes := 0, retention_truncated := False\<rparr>"

section \<open>Byte measures\<close>

definition bytes_of :: "jsstr list \<Rightarrow> int" where
  "bytes_of ss = sum_list (map utf8_byte_length ss)"

definition change_bytes :: "file_change \<Rightarrow> int" where
  "change_bytes c =
     utf8_byte_length (change_path c) + utf8_byte_length (change_diff c)
     + (case change_kind c of Update_File (Move p) \<Rightarrow> utf8_byte_length p | _ \<Rightarrow> 0)"

definition file_change_string_bytes :: "file_change list \<Rightarrow> int" where
  "file_change_string_bytes cs = sum_list (map change_bytes cs)"

definition file_change_payload_bytes :: "file_change list \<Rightarrow> int" where
  "file_change_payload_bytes cs = int (length cs) * slot_bytes + file_change_string_bytes cs"

definition item_payload_bytes :: "item \<Rightarrow> int" where
  "item_payload_bytes i =
     utf8_byte_length (item_text i)
     + (int (length (summaries i)) + int (length (reasoning i)) + int (length (changes i))) * slot_bytes
     + bytes_of (summaries i) + bytes_of (reasoning i) + file_change_string_bytes (changes i)"

definition available_item_bytes :: "limits \<Rightarrow> item \<Rightarrow> int \<Rightarrow> int" where
  "available_item_bytes l i replaced = max 0 (max_item l - (item_payload_bytes i - replaced))"

definition warning_bytes :: "warning \<Rightarrow> int" where
  "warning_bytes w =
     slot_bytes + utf8_byte_length (js ''warning'') + utf8_byte_length (js (warning_name (warning_code w)))
     + utf8_byte_length (warning_message w)"

definition report_bytes :: "error_report \<Rightarrow> int" where
  "report_bytes e =
     slot_bytes + utf8_byte_length (js ''error'') + utf8_byte_length (js (code_name (report_code e)))
     + utf8_byte_length (report_message e)"

definition state_name :: "item \<Rightarrow> string" where
  "state_name i = (if item_completed i then ''completed'' else ''started'')"

definition item_retained_bytes :: "item \<Rightarrow> int" where
  "item_retained_bytes i =
     utf8_byte_length (item_id i) + utf8_byte_length (js (kind_name (item_kind i)))
     + utf8_byte_length (js (state_name i)) + utf8_byte_length (item_text i)
     + bytes_of (summaries i) + bytes_of (reasoning i)
     + (int (length (summaries i)) + int (length (reasoning i)) + int (length (changes i))) * slot_bytes
     + sum_list (map (\<lambda>c. change_bytes c + utf8_byte_length (js (change_name (change_kind c)))) (changes i))"

definition step_bytes :: "plan_step \<Rightarrow> int" where
  "step_bytes s = utf8_byte_length (step_text s) + utf8_byte_length (js (step_name (step_state s)))"

definition plan_bytes :: "plan option \<Rightarrow> int" where
  "plan_bytes p =
     (case p of
        None \<Rightarrow> 0
      | Some p \<Rightarrow>
          int (length (steps p)) * slot_bytes
          + (case explanation p of None \<Rightarrow> 0 | Some e \<Rightarrow> utf8_byte_length e)
          + sum_list (map step_bytes (steps p)))"

definition optional_bytes :: "jsstr option \<Rightarrow> int" where
  "optional_bytes s = (case s of None \<Rightarrow> 0 | Some s \<Rightarrow> utf8_byte_length s)"

definition retained_bytes :: "turn \<Rightarrow> int" where
  "retained_bytes t =
     int (length (items t)) * slot_bytes + sum_list (map (\<lambda>p. item_retained_bytes (snd p)) (items t))
     + plan_bytes (plan t) + optional_bytes (diff t) + diagnostic_bytes t"

section \<open>Diagnostics\<close>

definition shift_warning :: "turn \<Rightarrow> turn" where
  "shift_warning t =
     (case warnings t of
        [] \<Rightarrow> t
      | w # ws \<Rightarrow> t\<lparr>warnings := ws, diagnostic_bytes := diagnostic_bytes t - warning_bytes w\<rparr>)"

definition shift_error :: "turn \<Rightarrow> turn" where
  "shift_error t =
     (case errors t of
        [] \<Rightarrow> t
      | e # es \<Rightarrow> t\<lparr>errors := es, diagnostic_bytes := diagnostic_bytes t - report_bytes e\<rparr>)"

function trim_diagnostics :: "limits \<Rightarrow> turn \<Rightarrow> turn" where
  "trim_diagnostics l t =
     (if max_history l < length (warnings t) + length (errors t)
         \<or> min (max_retained l) max_diagnostic_bytes < diagnostic_bytes t
      then
        (if warnings t \<noteq> [] then trim_diagnostics l ((shift_warning t)\<lparr>retention_truncated := True\<rparr>)
         else if errors t \<noteq> [] then trim_diagnostics l ((shift_error t)\<lparr>retention_truncated := True\<rparr>)
         else t)
      else t)"
  by pat_completeness auto
termination
  by (relation "measure (\<lambda>(_, t). length (warnings t) + length (errors t))")
    (auto simp: shift_warning_def shift_error_def neq_Nil_conv)

declare trim_diagnostics.simps [simp del]

definition push_warning :: "limits \<Rightarrow> warning \<Rightarrow> turn \<Rightarrow> turn" where
  "push_warning l w t =
     (if warning_code w = Data_Truncated \<and> list_ex (\<lambda>x. warning_code x = Data_Truncated) (warnings t) then t
      else
        let message = truncate_utf8 (warning_message w) (min (max_item l) max_diagnostic_bytes);
            bounded = w\<lparr>warning_message := message\<rparr>
        in trim_diagnostics l
             (t\<lparr>retention_truncated := (retention_truncated t \<or> message \<noteq> warning_message w),
                warnings := warnings t @ [bounded],
                diagnostic_bytes := diagnostic_bytes t + warning_bytes bounded\<rparr>))"

definition push_error :: "limits \<Rightarrow> error_report \<Rightarrow> turn \<Rightarrow> turn" where
  "push_error l e t =
     (if errors t \<noteq> [] \<and> report_code (last (errors t)) = report_code e
         \<and> report_message (last (errors t)) = report_message e \<and> retryable (last (errors t)) = retryable e
      then t
      else
        let message = truncate_utf8 (report_message e) (min (max_item l) max_diagnostic_bytes);
            bounded = e\<lparr>report_message := message\<rparr>
        in trim_diagnostics l
             (t\<lparr>retention_truncated := (retention_truncated t \<or> message \<noteq> report_message e),
                errors := errors t @ [bounded],
                diagnostic_bytes := diagnostic_bytes t + report_bytes bounded\<rparr>))"

definition push_error_once :: "limits \<Rightarrow> error_report \<Rightarrow> turn \<Rightarrow> bool \<times> turn" where
  "push_error_once l e t =
     (if report_code e = Recovery_Failed then
        (if recovery_retained t then (False, t) else (True, push_error l e (t\<lparr>recovery_retained := True\<rparr>)))
      else (True, push_error l e t))"

definition item_truncated_warning :: warning where
  "item_truncated_warning =
     \<lparr>warning_code = Data_Truncated,
      warning_message = js ''A Codex UI item was truncated to preserve responsiveness.'',
      dropped_events = None, dropped_bytes = None\<rparr>"

definition warn_item_truncated :: "limits \<Rightarrow> jsstr \<Rightarrow> turn \<Rightarrow> bool \<times> turn" where
  "warn_item_truncated l i t =
     (if i \<in> set (truncated_items t) then (False, t)
      else (True, push_warning l item_truncated_warning (t\<lparr>truncated_items := truncated_items t @ [i]\<rparr>)))"

section \<open>Items\<close>

definition new_mutable_item :: "jsstr \<Rightarrow> item_kind \<Rightarrow> item" where
  "new_mutable_item i k =
     \<lparr>item_id = i, item_kind = k, item_completed = False, item_text = [], summaries = [], reasoning = [],
      changes = [], omitted_bytes = 0, omitted_changes = 0, omitted_paths = 0\<rparr>"

definition evict_oldest :: "turn \<Rightarrow> turn" where
  "evict_oldest t =
     (case items t of
        [] \<Rightarrow> t
      | (k, _) # _ \<Rightarrow>
          t\<lparr>items := map_delete (items t) k, truncated_items := removeAll k (truncated_items t)\<rparr>)"

lemma evict_oldest_shorter: "items t \<noteq> [] \<Longrightarrow> length (items (evict_oldest t)) < length (items t)"
proof -
  assume "items t \<noteq> []"
  then obtain k i ps where items: "items t = (k, i) # ps" by (cases "items t") auto
  have "length (filter (\<lambda>p. fst p \<noteq> k) ps) \<le> length ps" by (rule length_filter_le)
  then have "length (filter (\<lambda>p. fst p \<noteq> k) ((k, i) # ps)) < length ((k, i) # ps)"
    by (simp add: le_imp_less_Suc)
  then show ?thesis unfolding evict_oldest_def items by (simp add: map_delete_def)
qed

function trim_items_by_count :: "limits \<Rightarrow> turn \<Rightarrow> turn" where
  "trim_items_by_count l t =
     (if max_items l < length (items t) \<and> items t \<noteq> []
      then trim_items_by_count l ((evict_oldest t)\<lparr>retention_truncated := True\<rparr>)
      else t)"
  by pat_completeness auto
termination
  by (relation "measure (\<lambda>(_, t). length (items t))") (auto simp: evict_oldest_shorter)

declare trim_items_by_count.simps [simp del]

definition touch_item :: "limits \<Rightarrow> jsstr \<Rightarrow> item_kind \<Rightarrow> turn \<Rightarrow> turn" where
  "touch_item l i k t =
     (if map_has (items t) i then t
      else trim_items_by_count l (t\<lparr>items := map_set (items t) i (new_mutable_item i k)\<rparr>))"

text \<open>The object \<open>#item(id, kind)\<close> returns, read from the touched state.\<close>

definition item_of :: "turn \<Rightarrow> jsstr \<Rightarrow> item_kind \<Rightarrow> item" where
  "item_of t i k = (case map_get (items t) i of None \<Rightarrow> new_mutable_item i k | Some x \<Rightarrow> x)"

text \<open>Assignment to a field of the item object: visible in the map while the item is in it.\<close>

definition store_item :: "jsstr \<Rightarrow> item \<Rightarrow> turn \<Rightarrow> turn" where
  "store_item i x t = (if map_has (items t) i then t\<lparr>items := map_set (items t) i x\<rparr> else t)"

definition start_item :: "limits \<Rightarrow> jsstr \<Rightarrow> item_kind \<Rightarrow> turn \<Rightarrow> bool \<times> turn" where
  "start_item l i k t =
     (if map_has (items t) i then (False, t)
      else (True, trim_items_by_count l (t\<lparr>items := map_set (items t) i (new_mutable_item i k)\<rparr>)))"

definition complete_item :: "limits \<Rightarrow> jsstr \<Rightarrow> item_kind \<Rightarrow> turn \<Rightarrow> bool \<times> turn" where
  "complete_item l i k t =
     (let t1 = touch_item l i k t; x = item_of t1 i k in
      if item_completed x then (False, t1) else (True, store_item i (x\<lparr>item_completed := True\<rparr>) t1))"

definition warn_if :: "bool \<Rightarrow> limits \<Rightarrow> jsstr \<Rightarrow> turn \<Rightarrow> bool \<times> turn" where
  "warn_if truncated l i t = (if truncated then warn_item_truncated l i t else (False, t))"

definition append_text :: "limits \<Rightarrow> jsstr \<Rightarrow> item_kind \<Rightarrow> jsstr \<Rightarrow> turn \<Rightarrow> bool \<times> turn" where
  "append_text l i k delta t =
     (let t1 = touch_item l i k t;
          x = item_of t1 i k;
          combined = item_text x @ delta;
          next = truncate_utf8 combined (available_item_bytes l x (utf8_byte_length (item_text x)));
          x1 = (if next \<noteq> combined
                then x\<lparr>omitted_bytes :=
                  saturating_add (omitted_bytes x) (utf8_byte_length combined - utf8_byte_length next)\<rparr>
                else x);
          w = warn_if (next \<noteq> combined) l i (store_item i x1 t1)
      in if next = item_text x then w else (True, store_item i (x1\<lparr>item_text := next\<rparr>) (snd w)))"

definition pad_to :: "nat \<Rightarrow> jsstr list \<Rightarrow> jsstr list" where
  "pad_to n ss = ss @ replicate (n - length ss) []"

definition ensure_summary :: "limits \<Rightarrow> jsstr \<Rightarrow> nat \<Rightarrow> turn \<Rightarrow> bool \<times> turn" where
  "ensure_summary l i index t =
     (let t1 = touch_item l i Reasoning_Kind t; x = item_of t1 i Reasoning_Kind in
      if index < length (summaries x) then (False, t1)
      else if max_item l < item_payload_bytes x + (int index + 1 - int (length (summaries x))) * slot_bytes
        then warn_item_truncated l i t1
      else (True, store_item i (x\<lparr>summaries := pad_to (index + 1) (summaries x)\<rparr>) t1))"

definition append_summary :: "limits \<Rightarrow> jsstr \<Rightarrow> nat \<Rightarrow> jsstr \<Rightarrow> turn \<Rightarrow> bool \<times> turn" where
  "append_summary l i index delta t =
     (let e = ensure_summary l i index (touch_item l i Reasoning_Kind t);
          x = item_of (snd e) i Reasoning_Kind
      in if length (summaries x) \<le> index then e
         else
           let current = summaries x ! index;
               combined = current @ delta;
               next = truncate_utf8 combined (available_item_bytes l x (utf8_byte_length current));
               w = warn_if (next \<noteq> combined) l i (snd e)
           in if next = current then (fst e \<or> fst w, snd w)
              else (True, store_item i (x\<lparr>summaries := (summaries x)[index := next]\<rparr>) (snd w)))"

definition append_reasoning :: "limits \<Rightarrow> jsstr \<Rightarrow> nat \<Rightarrow> jsstr \<Rightarrow> turn \<Rightarrow> bool \<times> turn" where
  "append_reasoning l i index delta t =
     (let t1 = touch_item l i Reasoning_Kind t;
          x0 = item_of t1 i Reasoning_Kind;
          slots = (int index + 1 - int (length (reasoning x0))) * slot_bytes
      in if 0 < slots \<and> max_item l < item_payload_bytes x0 + slots then warn_item_truncated l i t1
         else
           let allocated = length (reasoning x0) \<le> index;
               x = x0\<lparr>reasoning := pad_to (index + 1) (reasoning x0)\<rparr>;
               current = reasoning x ! index;
               combined = current @ delta;
               next = truncate_utf8 combined (available_item_bytes l x (utf8_byte_length current));
               w = warn_if (next \<noteq> combined) l i (store_item i x t1)
           in if next = current then (allocated \<or> fst w, snd w)
              else (True, store_item i (x\<lparr>reasoning := (reasoning x)[index := next]\<rparr>) (snd w)))"

section \<open>File changes\<close>

record bounded_changes =
  bounded :: "file_change list"
  truncated :: bool
  lost_bytes :: int
  lost_changes :: int
  lost_paths :: int

fun bound_loop :: "file_change list \<Rightarrow> int \<Rightarrow> file_change list \<Rightarrow> bool \<Rightarrow> file_change list \<times> bool" where
  "bound_loop [] remaining done_changes cut_any = (done_changes, cut_any)"
| "bound_loop (c # cs) remaining done_changes cut_any =
     (if remaining < slot_bytes then (done_changes, True)
      else
        let path = truncate_utf8 (change_path c) (remaining - slot_bytes) in
        if path = [] \<and> change_path c \<noteq> [] then (done_changes, True)
        else
          let r1 = remaining - slot_bytes - utf8_byte_length path;
              diff = truncate_utf8 (change_diff c) r1;
              r2 = r1 - utf8_byte_length diff;
              cut_here = (cut_any \<or> path \<noteq> change_path c \<or> diff \<noteq> change_diff c)
          in case change_kind c of
               Update_File (Move p) \<Rightarrow>
                 let move = truncate_utf8 p r2;
                     kept = (if move \<noteq> [] \<or> p = [] then Move move else No_Move)
                 in bound_loop cs (r2 - utf8_byte_length move)
                      (done_changes @ [\<lparr>change_path = path, change_kind = Update_File kept, change_diff = diff\<rparr>])
                      (cut_here \<or> move \<noteq> p)
             | k \<Rightarrow>
                 bound_loop cs r2 (done_changes @ [\<lparr>change_path = path, change_kind = k, change_diff = diff\<rparr>])
                   cut_here)"

definition move_of :: "file_change \<Rightarrow> move_path" where
  "move_of c = (case change_kind c of Update_File m \<Rightarrow> m | _ \<Rightarrow> No_Move)"

definition count_omitted_paths :: "file_change list \<Rightarrow> file_change list \<Rightarrow> int" where
  "count_omitted_paths kept source =
     sum_list (map (\<lambda>(b, s).
       (if change_path b \<noteq> change_path s then 1 else 0)
       + (case move_of s of Move p \<Rightarrow> if move_of b \<noteq> move_of s then 1 else 0 | _ \<Rightarrow> 0))
       (zip kept source))"

definition bound_file_changes :: "file_change list \<Rightarrow> int \<Rightarrow> bounded_changes" where
  "bound_file_changes cs max_bytes =
     (let r = bound_loop cs max_bytes [] False in
      \<lparr>bounded = fst r,
       truncated = (snd r \<or> length (fst r) < length cs),
       lost_bytes = max 0 (file_change_string_bytes cs - file_change_string_bytes (fst r)),
       lost_changes = int (length cs) - int (length (fst r)),
       lost_paths = count_omitted_paths (fst r) cs\<rparr>)"

text \<open>\<open>sameFileChanges\<close> compares all fields of both lists, so it is list equality.\<close>

definition same_file_changes :: "file_change list \<Rightarrow> file_change list \<Rightarrow> bool" where
  "same_file_changes left right =
     (length left = length right \<and>
      list_all (\<lambda>(a, b). change_path a = change_path b \<and> change_name (change_kind a) = change_name (change_kind b)
        \<and> change_diff a = change_diff b \<and> move_of a = move_of b) (zip left right))"

definition replace_changes :: "limits \<Rightarrow> jsstr \<Rightarrow> file_change list \<Rightarrow> turn \<Rightarrow> bool \<times> turn" where
  "replace_changes l i cs t =
     (let t1 = touch_item l i File_Change_Kind t;
          x = item_of t1 i File_Change_Kind;
          b = bound_file_changes cs (available_item_bytes l x (file_change_payload_bytes (changes x)));
          changed = (\<not> same_file_changes (changes x) (bounded b));
          x1 = x\<lparr>changes := bounded b, omitted_bytes := lost_bytes b, omitted_changes := lost_changes b,
                 omitted_paths := lost_paths b\<rparr>;
          w = warn_if (truncated b) l i (store_item i x1 t1)
      in (fst w \<or> changed, snd w))"

section \<open>Applying events\<close>

definition bounded_plan :: "limits \<Rightarrow> jsstr option \<Rightarrow> plan_step list \<Rightarrow> plan" where
  "bounded_plan l ex ss =
     \<lparr>explanation = map_option (\<lambda>e. truncate_utf8 e (max_item l)) ex,
      steps = map (\<lambda>s. s\<lparr>step_text := truncate_utf8 (step_text s) (max_item l)\<rparr>) (take max_plan_steps ss)\<rparr>"

definition set_plan :: "limits \<Rightarrow> jsstr option \<Rightarrow> plan_step list \<Rightarrow> turn \<Rightarrow> turn" where
  "set_plan l ex ss t =
     (let p = bounded_plan l ex ss in
      t\<lparr>plan := Some p,
        retention_truncated :=
          (retention_truncated t \<or> max_plan_steps < length ss
           \<or> (ex \<noteq> None \<and> explanation p \<noteq> ex)
           \<or> list_ex (\<lambda>(a, b). step_text a \<noteq> step_text b) (zip (steps p) ss))\<rparr>)"

definition set_diff :: "limits \<Rightarrow> jsstr \<Rightarrow> turn \<Rightarrow> turn" where
  "set_diff l d t =
     (let d' = truncate_utf8 d (max_item l) in
      t\<lparr>diff := Some d', retention_truncated := (retention_truncated t \<or> d' \<noteq> d)\<rparr>)"

fun apply_terminal_event :: "limits \<Rightarrow> ui_event \<Rightarrow> turn \<Rightarrow> bool \<times> turn" where
  "apply_terminal_event l (Warning_Event w) t = (True, push_warning l w t)"
| "apply_terminal_event l (Error_Event e) t = push_error_once l e t"
| "apply_terminal_event l _ t = (False, t)"

definition finish_turn :: "limits \<Rightarrow> terminal_status \<Rightarrow> safe_error option \<Rightarrow> turn \<Rightarrow> turn" where
  "finish_turn l st e t =
     (let t1 = t\<lparr>status := Terminal st\<rparr> in
      case e of
        None \<Rightarrow> t1
      | Some x \<Rightarrow> snd (push_error_once l
          \<lparr>report_code = safe_error_code x, report_message = safe_error_message x, retryable = False\<rparr> t1))"

fun apply_live_event :: "limits \<Rightarrow> ui_event \<Rightarrow> turn \<Rightarrow> bool \<times> turn" where
  "apply_live_event l Turn_Started t =
     (if status t \<noteq> Idle then (False, t) else (True, t\<lparr>status := In_Progress\<rparr>))"
| "apply_live_event l (Turn_Terminal st e) t = (True, finish_turn l st e t)"
| "apply_live_event l (Item_Started i k) t = start_item l i k t"
| "apply_live_event l (Item_Completed i k) t = complete_item l i k t"
| "apply_live_event l (Agent_Delta i d) t = append_text l i Agent_Message d t"
| "apply_live_event l (Plan_Delta i d) t = append_text l i Plan_Kind d t"
| "apply_live_event l (Command_Output i d) t = append_text l i Command_Kind d t"
| "apply_live_event l (File_Output i d) t = append_text l i File_Change_Kind d t"
| "apply_live_event l (Summary_Part i n) t = ensure_summary l i n t"
| "apply_live_event l (Summary_Delta i n d) t = append_summary l i n d t"
| "apply_live_event l (Reasoning_Delta i n d) t = append_reasoning l i n d t"
| "apply_live_event l (File_Patch i cs) t = replace_changes l i cs t"
| "apply_live_event l (Turn_Plan ex ss) t = (True, set_plan l ex ss t)"
| "apply_live_event l (Turn_Diff d) t = (True, set_diff l d t)"
| "apply_live_event l (Token_Usage a b c) t =
     (True, t\<lparr>usage := Some \<lparr>total_tokens = a, input_tokens = b, output_tokens = c\<rparr>\<rparr>)"
| "apply_live_event l (Warning_Event w) t = (True, push_warning l w t)"
| "apply_live_event l (Error_Event e) t = push_error_once l e t"

definition apply_event :: "limits \<Rightarrow> ui_event \<Rightarrow> turn \<Rightarrow> bool \<times> turn" where
  "apply_event l e t = (if is_terminal t then apply_terminal_event l e t else apply_live_event l e t)"

fun apply_events :: "limits \<Rightarrow> ui_event list \<Rightarrow> turn \<Rightarrow> bool \<times> turn" where
  "apply_events l [] t = (False, t)"
| "apply_events l (e # es) t =
     (let r = apply_event l e t; rs = apply_events l es (snd r) in (fst r \<or> fst rs, snd rs))"

section \<open>Applying batches\<close>

definition finalized_identity_key :: "event_batch \<Rightarrow> jsstr" where
  "finalized_identity_key b =
     json_stringify (JArr [int_json (batch_generation b), int_json (batch_sequence b),
       JStr (batch_thread b), JStr (batch_turn b)])"

definition remember_finalized :: "jsstr \<Rightarrow> turn \<Rightarrow> turn" where
  "remember_finalized key t =
     (if key \<in> set (finalized t) then t
      else t\<lparr>finalized := (if max_finalized \<le> length (finalized t) then tl (finalized t) else finalized t) @ [key]\<rparr>)"

definition starts_turn :: "event_batch \<Rightarrow> bool" where
  "starts_turn b = list_ex is_turn_started (batch_events b)"

definition terminates_turn :: "event_batch \<Rightarrow> bool" where
  "terminates_turn b = list_ex is_turn_terminal (batch_events b)"

definition same_turn :: "event_batch \<Rightarrow> turn \<Rightarrow> bool" where
  "same_turn b t = (thread_id t = Some (batch_thread b) \<and> turn_id t = Some (batch_turn b))"

definition current_finalized_diagnostic :: "event_batch \<Rightarrow> turn \<Rightarrow> bool" where
  "current_finalized_diagnostic b t =
     (is_terminal t \<and> is_diagnostic_only (batch_events b) \<and> batch_generation b = generation t
      \<and> highest_sequence t = Some (batch_sequence b) \<and> same_turn b t)"

text \<open>The admission part of \<open>#applyBatch\<close>: None when it returns early, otherwise the state (reset
  when the batch opens a new turn) to which the events are applied.\<close>

definition admit_batch :: "event_batch \<Rightarrow> turn \<Rightarrow> turn option" where
  "admit_batch b t =
     (let boundary = starts_turn b \<or> terminates_turn b in
      if batch_generation b < generation t then None
      else if batch_generation b = generation t \<and> finalized_identity_key b \<in> set (finalized t)
              \<and> \<not> current_finalized_diagnostic b t then None
      else
        Option.bind
          (if generation t < batch_generation b then
             (if \<not> boundary then None else Some (reset_for b (t\<lparr>finalized := []\<rparr>)))
           else if highest_sequence t \<noteq> None \<and> batch_sequence b < the (highest_sequence t) then None
           else if highest_sequence t \<noteq> None \<and> batch_sequence b = the (highest_sequence t) \<and> \<not> same_turn b t then None
           else if highest_sequence t \<noteq> None \<and> the (highest_sequence t) < batch_sequence b then
             (if \<not> boundary then None else Some (reset_for b t))
           else if turn_id t \<noteq> None \<and> \<not> same_turn b t then
             (if status t = In_Progress then None
              else if starts_turn b \<and> is_terminal t then Some (reset_for b t) else None)
           else Some t)
          (\<lambda>t1. if turn_id t1 = None then (if \<not> boundary then None else Some (reset_for b t1)) else Some t1))"

definition apply_batch :: "limits \<Rightarrow> event_batch \<Rightarrow> turn \<Rightarrow> bool \<times> turn" where
  "apply_batch l b t =
     (case admit_batch b t of
        None \<Rightarrow> (False, t)
      | Some t1 \<Rightarrow>
          (let r = apply_events l (batch_events b) t1 in
           (fst r, if is_terminal (snd r) then remember_finalized (finalized_identity_key b) (snd r) else snd r)))"

fun apply_batches :: "limits \<Rightarrow> event_batch list \<Rightarrow> turn \<Rightarrow> bool \<times> turn" where
  "apply_batches l [] t = (False, t)"
| "apply_batches l (b # bs) t =
     (let r = apply_batch l b t; rs = apply_batches l bs (snd r) in (fst r \<or> fst rs, snd rs))"

section \<open>Retention\<close>

text \<open>One \<open>while\<close> loop of \<open>#trimRetained\<close>; that a step removes an entry is part of the guard only
  to make termination evident, every step used here does.\<close>

function drop_while_over :: "limits \<Rightarrow> (turn \<Rightarrow> nat) \<Rightarrow> (turn \<Rightarrow> turn) \<Rightarrow> bool \<times> turn \<Rightarrow> bool \<times> turn" where
  "drop_while_over l count_of step s =
     (if max_retained l < retained_bytes (snd s) \<and> 0 < count_of (snd s) \<and> count_of (step (snd s)) < count_of (snd s)
      then drop_while_over l count_of step (True, step (snd s)) else s)"
  by pat_completeness auto
termination by (relation "measure (\<lambda>(_, count_of, _, s). count_of (snd s))") auto

declare drop_while_over.simps [simp del]

definition plan_steps :: "turn \<Rightarrow> nat" where
  "plan_steps t = (case plan t of None \<Rightarrow> 0 | Some p \<Rightarrow> length (steps p))"

definition shift_plan_step :: "turn \<Rightarrow> turn" where
  "shift_plan_step t = t\<lparr>plan := map_option (\<lambda>p. p\<lparr>steps := tl (steps p)\<rparr>) (plan t)\<rparr>"

definition trim_explanation :: "limits \<Rightarrow> bool \<times> turn \<Rightarrow> bool \<times> turn" where
  "trim_explanation l s =
     (let t = snd s in
      case plan t of
        None \<Rightarrow> s
      | Some p \<Rightarrow>
          (case explanation p of
             None \<Rightarrow> s
           | Some e \<Rightarrow>
               if max_retained l < retained_bytes t then
                 (True, t\<lparr>plan := Some (p\<lparr>explanation :=
                    Some (truncate_utf8 e (max 0 (max_retained l - (retained_bytes t - utf8_byte_length e))))\<rparr>)\<rparr>)
               else s))"

definition trim_diff :: "limits \<Rightarrow> bool \<times> turn \<Rightarrow> bool \<times> turn" where
  "trim_diff l s =
     (let t = snd s in
      case diff t of
        None \<Rightarrow> s
      | Some d \<Rightarrow>
          if max_retained l < retained_bytes t then
            (True, t\<lparr>diff :=
               Some (truncate_utf8 d (max 0 (max_retained l - (retained_bytes t - utf8_byte_length d))))\<rparr>)
          else s)"

definition drop_plan_and_diff :: "limits \<Rightarrow> bool \<times> turn \<Rightarrow> bool \<times> turn" where
  "drop_plan_and_diff l s =
     (if max_retained l < retained_bytes (snd s) then (True, (snd s)\<lparr>plan := None, diff := None\<rparr>) else s)"

function make_room :: "limits \<Rightarrow> turn \<Rightarrow> bool \<times> turn" where
  "make_room l t =
     (if max_history l \<le> length (warnings t) + length (errors t)
      then (if warnings t \<noteq> [] then make_room l (shift_warning t) else (False, t))
      else (True, t))"
  by pat_completeness auto
termination
  by (relation "measure (\<lambda>(_, t). length (warnings t))") (auto simp: shift_warning_def neq_Nil_conv)

declare make_room.simps [simp del]

definition append_retention_diagnostic :: "limits \<Rightarrow> turn \<Rightarrow> turn" where
  "append_retention_diagnostic l t =
     (if list_ex (\<lambda>w. warning_code w = Data_Truncated) (warnings t) then t
      else
        let r = make_room l t; t1 = snd r;
            fixed = slot_bytes + utf8_byte_length (js ''warning'') + utf8_byte_length (js ''data-truncated'');
            available = min (max_retained l - retained_bytes t1 - fixed)
                            (max_diagnostic_bytes - diagnostic_bytes t1 - fixed)
        in if \<not> fst r \<or> available < 0 then t1
           else
             let w = \<lparr>warning_code = Data_Truncated,
                      warning_message = truncate_utf8 (js ''Codex UI data was truncated.'') available,
                      dropped_events = None, dropped_bytes = None\<rparr>
             in t1\<lparr>warnings := warnings t1 @ [w], diagnostic_bytes := diagnostic_bytes t1 + warning_bytes w\<rparr>)"

definition trim_stages :: "limits \<Rightarrow> bool \<times> turn \<Rightarrow> bool \<times> turn" where
  "trim_stages l s =
     drop_plan_and_diff l
       (trim_diff l
         (trim_explanation l
           (drop_while_over l plan_steps shift_plan_step
             (drop_while_over l (\<lambda>t. length (items t)) evict_oldest
               (drop_while_over l (\<lambda>t. length (errors t)) shift_error
                 (drop_while_over l (\<lambda>t. length (warnings t)) shift_warning s))))))"

definition trim_retained :: "limits \<Rightarrow> turn \<Rightarrow> turn" where
  "trim_retained l t =
     (let t0 = trim_items_by_count l t;
          s = trim_stages l (retention_truncated t0, t0);
          t1 = (snd s)\<lparr>retention_truncated := False\<rparr>
      in if fst s then append_retention_diagnostic l t1 else t1)"

end
