(* ===== verification/EventBounds.thy ===== *)
theory EventBounds
  imports EventState
begin

text \<open>
  The bounds the event reducer keeps on the state of a turn: every item stays within the item
  budget, the number of items, diagnostics and finalized identities stays within its limit, the
  diagnostic byte counter is exact, and after \<open>#trimRetained\<close> the retained bytes are within the
  retention budget.
\<close>

section \<open>The invariant\<close>

definition limits_ok :: "limits \<Rightarrow> bool" where
  "limits_ok l \<longleftrightarrow> 0 < max_item l \<and> 0 < max_items l \<and> 0 < max_retained l \<and> 0 < max_history l"

definition item_ok :: "limits \<Rightarrow> item \<Rightarrow> bool" where
  "item_ok l x \<longleftrightarrow> item_payload_bytes x \<le> max_item l"

definition items_ok :: "limits \<Rightarrow> turn \<Rightarrow> bool" where
  "items_ok l t \<longleftrightarrow>
     map_ok (items t) \<and> length (items t) \<le> max_items l \<and>
     list_all (\<lambda>p. item_id (snd p) = fst p \<and> item_ok l (snd p)) (items t)"

definition counter_exact :: "turn \<Rightarrow> bool" where
  "counter_exact t \<longleftrightarrow>
     diagnostic_bytes t = sum_list (map warning_bytes (warnings t)) + sum_list (map report_bytes (errors t))"

definition diagnostics_ok :: "limits \<Rightarrow> turn \<Rightarrow> bool" where
  "diagnostics_ok l t \<longleftrightarrow>
     counter_exact t \<and> length (warnings t) + length (errors t) \<le> max_history l \<and>
     diagnostic_bytes t \<le> min (max_retained l) max_diagnostic_bytes"

definition plan_ok :: "limits \<Rightarrow> turn \<Rightarrow> bool" where
  "plan_ok l t \<longleftrightarrow>
     (case plan t of
        None \<Rightarrow> True
      | Some p \<Rightarrow> length (steps p) \<le> max_plan_steps \<and> list_all (\<lambda>s. utf8_byte_length (step_text s) \<le> max_item l) (steps p)
          \<and> pred_option (\<lambda>e. utf8_byte_length e \<le> max_item l) (explanation p)) \<and>
     pred_option (\<lambda>d. utf8_byte_length d \<le> max_item l) (diff t)"

definition finalized_ok :: "turn \<Rightarrow> bool" where
  "finalized_ok t \<longleftrightarrow> distinct (finalized t) \<and> length (finalized t) \<le> max_finalized"

definition turn_ok :: "limits \<Rightarrow> turn \<Rightarrow> bool" where
  "turn_ok l t \<longleftrightarrow> items_ok l t \<and> diagnostics_ok l t \<and> plan_ok l t \<and> finalized_ok t"

section \<open>Diagnostics\<close>

text \<open>The diagnostic methods touch only the diagnostics.\<close>

definition diagnostics_only :: "turn \<Rightarrow> turn \<Rightarrow> bool" where
  "diagnostics_only t u \<longleftrightarrow>
     items u = items t \<and> plan u = plan t \<and> diff u = diff t \<and> usage u = usage t \<and> status u = status t \<and>
     generation u = generation t \<and> highest_sequence u = highest_sequence t \<and> thread_id u = thread_id t \<and>
     turn_id u = turn_id t \<and> finalized u = finalized t"

lemma diagnostics_only_refl [simp]: "diagnostics_only t t"
  by (simp add: diagnostics_only_def)

lemma diagnostics_only_trans: "diagnostics_only t u \<Longrightarrow> diagnostics_only u v \<Longrightarrow> diagnostics_only t v"
  by (simp add: diagnostics_only_def)

lemma shift_warning_facts:
  "diagnostics_only t (shift_warning t)" "counter_exact t \<Longrightarrow> counter_exact (shift_warning t)"
  "warnings (shift_warning t) = tl (warnings t)" "errors (shift_warning t) = errors t"
  "recovery_retained (shift_warning t) = recovery_retained t"
  by (auto simp: shift_warning_def diagnostics_only_def counter_exact_def split: list.split)

lemma shift_error_facts:
  "diagnostics_only t (shift_error t)" "counter_exact t \<Longrightarrow> counter_exact (shift_error t)"
  "errors (shift_error t) = tl (errors t)" "warnings (shift_error t) = warnings t"
  "recovery_retained (shift_error t) = recovery_retained t"
  by (auto simp: shift_error_def diagnostics_only_def counter_exact_def split: list.split)

lemma counter_exact_update [simp]:
  "counter_exact (t\<lparr>retention_truncated := b\<rparr>) = counter_exact t"
  "counter_exact (t\<lparr>truncated_items := i\<rparr>) = counter_exact t"
  "counter_exact (t\<lparr>recovery_retained := b\<rparr>) = counter_exact t"
  "diagnostics_only u (t\<lparr>retention_truncated := b\<rparr>) = diagnostics_only u t"
  "diagnostics_only u (t\<lparr>truncated_items := i\<rparr>) = diagnostics_only u t"
  "diagnostics_only u (t\<lparr>recovery_retained := b\<rparr>) = diagnostics_only u t"
  "diagnostics_only (t\<lparr>retention_truncated := b\<rparr>) u = diagnostics_only t u"
  "diagnostics_only (t\<lparr>truncated_items := i\<rparr>) u = diagnostics_only t u"
  "diagnostics_only (t\<lparr>recovery_retained := b\<rparr>) u = diagnostics_only t u"
  by (simp_all add: counter_exact_def diagnostics_only_def)

lemma trim_diagnostics_facts:
  "diagnostics_only t (trim_diagnostics l t) \<and> recovery_retained (trim_diagnostics l t) = recovery_retained t \<and>
   (counter_exact t \<and> 0 \<le> max_retained l \<longrightarrow> diagnostics_ok l (trim_diagnostics l t))"
proof (induction l t rule: trim_diagnostics.induct)
  case (1 l t)
  show ?case
  proof (cases "max_history l < length (warnings t) + length (errors t)
         \<or> min (max_retained l) max_diagnostic_bytes < diagnostic_bytes t")
    case False
    then show ?thesis by (subst (1 2 3) trim_diagnostics.simps) (auto simp: diagnostics_ok_def)
  next
    case over: True
    consider "warnings t \<noteq> []" | "warnings t = []" "errors t \<noteq> []" | "warnings t = []" "errors t = []" by blast
    then show ?thesis
    proof cases
      case 1
      then have "trim_diagnostics l t = trim_diagnostics l ((shift_warning t)\<lparr>retention_truncated := True\<rparr>)"
        using over by (subst trim_diagnostics.simps) simp
      then show ?thesis
        using "1.IH"(1) [OF over 1] shift_warning_facts [of t] by (auto intro: diagnostics_only_trans)
    next
      case 2
      then have "trim_diagnostics l t = trim_diagnostics l ((shift_error t)\<lparr>retention_truncated := True\<rparr>)"
        using over by (subst trim_diagnostics.simps) simp
      then show ?thesis
        using "1.IH"(2) [OF over _ 2(2)] 2(1) shift_error_facts [of t] by (auto intro: diagnostics_only_trans)
    next
      case 3
      then have "trim_diagnostics l t = t" by (subst trim_diagnostics.simps) simp
      with 3 over show ?thesis
        by (auto simp: diagnostics_ok_def counter_exact_def max_diagnostic_bytes_def)
    qed
  qed
qed

lemma trim_diagnostics_only: "diagnostics_only u t \<Longrightarrow> diagnostics_only u (trim_diagnostics l t)"
  using trim_diagnostics_facts diagnostics_only_trans by blast

lemma trim_diagnostics_recovery [simp]: "recovery_retained (trim_diagnostics l t) = recovery_retained t"
  using trim_diagnostics_facts by blast

lemma trim_diagnostics_ok: "counter_exact t \<Longrightarrow> 0 < max_retained l \<Longrightarrow> diagnostics_ok l (trim_diagnostics l t)"
  using trim_diagnostics_facts [of t l] by simp

lemma diagnostics_ok_counter: "diagnostics_ok l t \<Longrightarrow> counter_exact t"
  by (simp add: diagnostics_ok_def)

lemma push_warning_facts:
  "diagnostics_only t (push_warning l w t)"
  "recovery_retained (push_warning l w t) = recovery_retained t"
  "diagnostics_ok l t \<Longrightarrow> 0 < max_retained l \<Longrightarrow> diagnostics_ok l (push_warning l w t)"
proof -
  show "diagnostics_only t (push_warning l w t)"
    by (simp add: push_warning_def Let_def, intro impI trim_diagnostics_only) (simp add: diagnostics_only_def)
  show "recovery_retained (push_warning l w t) = recovery_retained t" by (simp add: push_warning_def Let_def)
  assume "diagnostics_ok l t" "0 < max_retained l"
  then show "diagnostics_ok l (push_warning l w t)"
    using diagnostics_ok_counter [of l t]
    by (simp add: push_warning_def Let_def, intro impI trim_diagnostics_ok) (simp_all add: counter_exact_def)
qed

lemma push_error_facts:
  "diagnostics_only t (push_error l e t)"
  "recovery_retained (push_error l e t) = recovery_retained t"
  "diagnostics_ok l t \<Longrightarrow> 0 < max_retained l \<Longrightarrow> diagnostics_ok l (push_error l e t)"
proof -
  show "diagnostics_only t (push_error l e t)"
    by (simp add: push_error_def Let_def, intro impI trim_diagnostics_only) (simp add: diagnostics_only_def)
  show "recovery_retained (push_error l e t) = recovery_retained t" by (simp add: push_error_def Let_def)
  assume "diagnostics_ok l t" "0 < max_retained l"
  then show "diagnostics_ok l (push_error l e t)"
    using diagnostics_ok_counter [of l t]
    by (simp add: push_error_def Let_def, intro impI trim_diagnostics_ok) (simp_all add: counter_exact_def)
qed

lemma diagnostics_ok_update [simp]:
  "diagnostics_ok l (t\<lparr>recovery_retained := b\<rparr>) = diagnostics_ok l t"
  "diagnostics_ok l (t\<lparr>truncated_items := i\<rparr>) = diagnostics_ok l t"
  "diagnostics_ok l (t\<lparr>retention_truncated := b\<rparr>) = diagnostics_ok l t"
  "diagnostics_ok l (t\<lparr>items := m\<rparr>) = diagnostics_ok l t"
  "diagnostics_ok l (t\<lparr>plan := p\<rparr>) = diagnostics_ok l t"
  "diagnostics_ok l (t\<lparr>diff := d\<rparr>) = diagnostics_ok l t"
  "diagnostics_ok l (t\<lparr>usage := u\<rparr>) = diagnostics_ok l t"
  "diagnostics_ok l (t\<lparr>status := s\<rparr>) = diagnostics_ok l t"
  "diagnostics_ok l (t\<lparr>finalized := f\<rparr>) = diagnostics_ok l t"
  by (simp_all add: diagnostics_ok_def counter_exact_def)

lemma push_error_once_facts:
  "diagnostics_only t (snd (push_error_once l e t))"
  "diagnostics_ok l t \<Longrightarrow> 0 < max_retained l \<Longrightarrow> diagnostics_ok l (snd (push_error_once l e t))"
  using push_error_facts(1) [of "t\<lparr>recovery_retained := True\<rparr>" l e]
  by (auto simp add: push_error_once_def push_error_facts(3) intro: push_error_facts(1))

lemma warn_item_facts:
  "diagnostics_only t (snd (warn_item_truncated l i t))"
  "diagnostics_ok l t \<Longrightarrow> 0 < max_retained l \<Longrightarrow> diagnostics_ok l (snd (warn_item_truncated l i t))"
  using push_warning_facts(1) [of "t\<lparr>truncated_items := truncated_items t @ [i]\<rparr>" l item_truncated_warning]
  by (simp_all add: warn_item_truncated_def push_warning_facts(3))

lemma warn_if_facts:
  "diagnostics_only t (snd (warn_if b l i t))"
  "diagnostics_ok l t \<Longrightarrow> 0 < max_retained l \<Longrightarrow> diagnostics_ok l (snd (warn_if b l i t))"
  by (simp_all add: warn_if_def warn_item_facts)

lemma turn_ok_diagnostics:
  "diagnostics_only t u \<Longrightarrow> turn_ok l t \<Longrightarrow> diagnostics_ok l u \<Longrightarrow> turn_ok l u"
  by (simp add: turn_ok_def diagnostics_only_def items_ok_def plan_ok_def finalized_ok_def)

text \<open>Preservation of the whole invariant by the diagnostic methods.\<close>

lemma turn_ok_push [wf_intros]:
  assumes "turn_ok l t" "limits_ok l"
  shows "turn_ok l (push_warning l w t)" "turn_ok l (snd (push_error_once l e t))"
    "turn_ok l (snd (warn_item_truncated l i t))" "turn_ok l (snd (warn_if b l i t))"
proof -
  have ok: "diagnostics_ok l t" "0 < max_retained l"
    using assms by (simp_all add: turn_ok_def limits_ok_def)
  show "turn_ok l (push_warning l w t)"
    by (rule turn_ok_diagnostics [OF push_warning_facts(1) assms(1) push_warning_facts(3) [OF ok]])
  show "turn_ok l (snd (push_error_once l e t))"
    by (rule turn_ok_diagnostics [OF push_error_once_facts(1) assms(1) push_error_once_facts(2) [OF ok]])
  show "turn_ok l (snd (warn_item_truncated l i t))"
    by (rule turn_ok_diagnostics [OF warn_item_facts(1) assms(1) warn_item_facts(2) [OF ok]])
  show "turn_ok l (snd (warn_if b l i t))"
    by (rule turn_ok_diagnostics [OF warn_if_facts(1) assms(1) warn_if_facts(2) [OF ok]])
qed

section \<open>Items\<close>

lemma bytes_of_simps [simp]:
  "bytes_of [] = 0" "bytes_of (s # ss) = utf8_byte_length s + bytes_of ss" "bytes_of (ss @ ts) = bytes_of ss + bytes_of ts"
  "bytes_of (replicate n []) = 0"
  by (simp_all add: bytes_of_def sum_list_replicate)

lemma bytes_of_nonneg [simp]: "0 \<le> bytes_of ss"
  by (simp add: bytes_of_def sum_list_map_nonneg)

lemma bytes_of_update: "i < length ss \<Longrightarrow> bytes_of (ss[i := s]) = bytes_of ss - utf8_byte_length (ss ! i) + utf8_byte_length s"
  by (induction ss arbitrary: i) (auto simp: nth_Cons split: nat.splits)

lemma bytes_of_nth: "i < length ss \<Longrightarrow> utf8_byte_length (ss ! i) \<le> bytes_of ss"
proof (induction ss arbitrary: i)
  case (Cons s ss)
  then show ?case using Cons.IH [of "i - 1"] by (cases i) (auto intro: add_increasing)
qed simp

lemma change_bytes_nonneg [simp]: "0 \<le> change_bytes c"
  by (auto simp: change_bytes_def split: change_kind.split move_path.split)

lemma file_change_nonneg [simp]: "0 \<le> file_change_string_bytes cs" "0 \<le> file_change_payload_bytes cs"
  by (simp_all add: file_change_string_bytes_def file_change_payload_bytes_def sum_list_map_nonneg slot_bytes_def)

lemma file_change_simps [simp]:
  "file_change_string_bytes [] = 0"
  "file_change_string_bytes (c # cs) = change_bytes c + file_change_string_bytes cs"
  "file_change_string_bytes (cs @ ds) = file_change_string_bytes cs + file_change_string_bytes ds"
  by (simp_all add: file_change_string_bytes_def)

lemma new_item_ok: "limits_ok l \<Longrightarrow> item_ok l (new_mutable_item i k)"
  by (simp add: item_ok_def item_payload_bytes_def new_mutable_item_def limits_ok_def)

lemma item_id_new [simp]: "item_id (new_mutable_item i k) = i"
  by (simp add: new_mutable_item_def)

lemma map_delete_subset: "set (map_delete m k) \<subseteq> set m"
  by (auto simp: map_delete_def)

text \<open>The items of a state that may hold one item too many.\<close>

definition items_room :: "limits \<Rightarrow> turn \<Rightarrow> bool" where
  "items_room l t \<longleftrightarrow> map_ok (items t) \<and> list_all (\<lambda>p. item_id (snd p) = fst p \<and> item_ok l (snd p)) (items t)"

lemma items_evict: "items (evict_oldest t) = (if items t = [] then [] else map_delete (items t) (fst (hd (items t))))"
  by (auto simp: evict_oldest_def split: list.split)

lemma items_room_delete: "items_room l t \<Longrightarrow> items u = map_delete (items t) k \<Longrightarrow> items_room l u"
  by (auto simp: items_room_def jsmap.ok_remove list_all_iff dest: subsetD [OF map_delete_subset])

lemma items_room_evict: "items_room l t \<Longrightarrow> items_room l (evict_oldest t)"
proof (cases "items t = []")
  case True
  then show "items_room l t \<Longrightarrow> ?thesis" by (simp add: items_room_def items_evict)
next
  case False
  then show "items_room l t \<Longrightarrow> ?thesis" by (auto simp: items_evict intro: items_room_delete)
qed

lemma items_room_update [simp]: "items_room l (t\<lparr>retention_truncated := b\<rparr>) = items_room l t"
  by (simp add: items_room_def)

lemma items_ok_room: "items_ok l t \<longleftrightarrow> items_room l t \<and> length (items t) \<le> max_items l"
  by (auto simp: items_ok_def items_room_def)

lemma items_ok_evict: "items_ok l t \<Longrightarrow> items_ok l (evict_oldest t)"
  using evict_oldest_shorter [of t]
  by (cases "items t = []") (auto simp: items_ok_room items_room_evict, simp add: items_evict)

lemma items_ok_trim: "items_room l t \<Longrightarrow> items_ok l (trim_items_by_count l t)"
proof (induction l t rule: trim_items_by_count.induct)
  case (1 l t)
  show ?case
  proof (cases "max_items l < length (items t) \<and> items t \<noteq> []")
    case True
    then have "trim_items_by_count l t = trim_items_by_count l ((evict_oldest t)\<lparr>retention_truncated := True\<rparr>)"
      by (subst trim_items_by_count.simps) simp
    with 1 True show ?thesis by (simp add: items_room_evict)
  next
    case False
    then have "trim_items_by_count l t = t" by (subst trim_items_by_count.simps) auto
    with 1 False show ?thesis by (auto simp: items_ok_room)
  qed
qed

text \<open>The item table methods touch only the items and their marks.\<close>

definition items_only :: "turn \<Rightarrow> turn \<Rightarrow> bool" where
  "items_only t u \<longleftrightarrow>
     plan u = plan t \<and> diff u = diff t \<and> usage u = usage t \<and> status u = status t \<and>
     generation u = generation t \<and> highest_sequence u = highest_sequence t \<and> thread_id u = thread_id t \<and>
     turn_id u = turn_id t \<and> finalized u = finalized t \<and> warnings u = warnings t \<and> errors u = errors t \<and>
     diagnostic_bytes u = diagnostic_bytes t \<and> recovery_retained u = recovery_retained t"

lemma items_only_simps [simp]:
  "items_only t t" "items_only t (u\<lparr>retention_truncated := b\<rparr>) = items_only t u"
  "items_only t (u\<lparr>items := m\<rparr>) = items_only t u"
  "items_only (t\<lparr>items := m\<rparr>) u = items_only t u"
  "items_only (t\<lparr>retention_truncated := b\<rparr>) u = items_only t u"
  by (simp_all add: items_only_def)

lemma items_only_trans: "items_only t u \<Longrightarrow> items_only u v \<Longrightarrow> items_only t v"
  by (simp add: items_only_def)

lemma items_only_evict: "items_only t (evict_oldest t)"
  by (auto simp: items_only_def evict_oldest_def split: list.split)

lemma items_only_trim: "items_only t (trim_items_by_count l t)"
proof (induction l t rule: trim_items_by_count.induct)
  case (1 l t)
  show ?case
  proof (cases "max_items l < length (items t) \<and> items t \<noteq> []")
    case True
    then have "trim_items_by_count l t = trim_items_by_count l ((evict_oldest t)\<lparr>retention_truncated := True\<rparr>)"
      by (subst trim_items_by_count.simps) simp
    moreover have "items_only t ((evict_oldest t)\<lparr>retention_truncated := True\<rparr>)" by (simp add: items_only_evict)
    ultimately show ?thesis using 1 True by (auto intro: items_only_trans)
  next
    case False
    then have "trim_items_by_count l t = t" by (subst trim_items_by_count.simps) auto
    then show ?thesis by simp
  qed
qed

lemma turn_ok_items: "items_only t u \<Longrightarrow> turn_ok l t \<Longrightarrow> items_ok l u \<Longrightarrow> turn_ok l u"
  by (simp add: turn_ok_def items_only_def diagnostics_ok_def counter_exact_def plan_ok_def finalized_ok_def)

lemma set_map_set: "p \<in> set (map_set m k v) \<Longrightarrow> p = (k, v) \<or> p \<in> set m"
  by (auto simp: map_set_def split: if_splits)

lemma items_room_set:
  "items_room l t \<Longrightarrow> item_ok l x \<Longrightarrow> item_id x = i \<Longrightarrow> items_room l (t\<lparr>items := map_set (items t) i x\<rparr>)"
  by (auto simp: items_room_def jsmap.ok_put list_all_iff dest!: set_map_set)

lemma turn_ok_touch:
  assumes "turn_ok l t" "limits_ok l"
  shows "turn_ok l (touch_item l i k t)" "turn_ok l (snd (start_item l i k t))"
proof -
  let ?t = "t\<lparr>items := map_set (items t) i (new_mutable_item i k)\<rparr>"
  have "items_room l ?t"
    using assms by (intro items_room_set) (simp_all add: turn_ok_def items_ok_room new_item_ok)
  then have "turn_ok l (trim_items_by_count l ?t)"
    using items_only_trim [of ?t l] by (intro turn_ok_items [OF _ assms(1)] items_ok_trim) simp_all
  then show "turn_ok l (touch_item l i k t)" "turn_ok l (snd (start_item l i k t))"
    using assms(1) by (simp_all add: touch_item_def start_item_def)
qed

lemma item_of_ok:
  assumes "turn_ok l t" "limits_ok l"
  shows "item_ok l (item_of t i k)" "item_id (item_of t i k) = i"
proof -
  have "item_ok l x \<and> item_id x = i" if "map_get (items t) i = Some x" for x
    using that assms(1) by (auto simp: turn_ok_def items_ok_def list_all_iff map_get_def dest!: map_of_SomeD)
  then show "item_ok l (item_of t i k)" "item_id (item_of t i k) = i"
    using new_item_ok [OF assms(2)] by (simp_all add: item_of_def split: option.split)
qed

lemma turn_ok_store:
  assumes "turn_ok l t" "item_ok l x" "item_id x = i"
  shows "turn_ok l (store_item i x t)"
proof (cases "map_has (items t) i")
  case True
  have "length (map_set (items t) i x) = length (items t)" using True by (simp add: map_set_def)
  with assms items_room_set [of l t x i] have "items_ok l (t\<lparr>items := map_set (items t) i x\<rparr>)"
    by (simp add: turn_ok_def items_ok_room)
  then have "turn_ok l (t\<lparr>items := map_set (items t) i x\<rparr>)" by (rule turn_ok_items [OF _ assms(1), rotated]) simp
  then show ?thesis using True by (simp add: store_item_def)
next
  case False
  with assms(1) show ?thesis by (simp add: store_item_def)
qed

section \<open>Item payloads\<close>

lemma payload_update [simp]:
  "item_payload_bytes (x\<lparr>item_completed := b\<rparr>) = item_payload_bytes x"
  "item_payload_bytes (x\<lparr>omitted_bytes := n\<rparr>) = item_payload_bytes x"
  "item_payload_bytes (x\<lparr>omitted_changes := n\<rparr>) = item_payload_bytes x"
  "item_payload_bytes (x\<lparr>omitted_paths := n\<rparr>) = item_payload_bytes x"
  "item_payload_bytes (x\<lparr>item_text := s\<rparr>) = item_payload_bytes x - utf8_byte_length (item_text x) + utf8_byte_length s"
  by (simp_all add: item_payload_bytes_def)

lemma payload_summaries:
  "item_payload_bytes (x\<lparr>summaries := ss\<rparr>) = item_payload_bytes x + (int (length ss) - int (length (summaries x))) * slot_bytes
     + bytes_of ss - bytes_of (summaries x)"
  by (simp add: item_payload_bytes_def slot_bytes_def)

lemma payload_reasoning:
  "item_payload_bytes (x\<lparr>reasoning := ss\<rparr>) = item_payload_bytes x + (int (length ss) - int (length (reasoning x))) * slot_bytes
     + bytes_of ss - bytes_of (reasoning x)"
  by (simp add: item_payload_bytes_def slot_bytes_def)

lemma payload_changes:
  "item_payload_bytes (x\<lparr>changes := cs\<rparr>) =
     item_payload_bytes x - file_change_payload_bytes (changes x) + file_change_payload_bytes cs"
  by (simp add: item_payload_bytes_def file_change_payload_bytes_def slot_bytes_def)

lemma sum_parts:
  "0 \<le> a \<Longrightarrow> 0 \<le> b \<Longrightarrow> 0 \<le> c \<Longrightarrow> 0 \<le> d \<Longrightarrow>
     a \<le> a + (int n + int m + int k) * 8 + b + c + d \<and> b \<le> a + (int n + int m + int k) * 8 + b + c + d \<and>
     c \<le> a + (int n + int m + int k) * 8 + b + c + d \<and> int k * 8 + d \<le> a + (int n + int m + int k) * 8 + b + c + d"
  by simp

lemma payload_parts:
  "utf8_byte_length (item_text x) \<le> item_payload_bytes x"
  "bytes_of (summaries x) \<le> item_payload_bytes x" "bytes_of (reasoning x) \<le> item_payload_bytes x"
  "file_change_payload_bytes (changes x) \<le> item_payload_bytes x"
  using sum_parts [OF utf8_byte_length_nonneg bytes_of_nonneg bytes_of_nonneg file_change_nonneg(1),
      of "item_text x" "length (summaries x)" "length (reasoning x)" "length (changes x)" "summaries x"
      "reasoning x" "changes x"]
  unfolding item_payload_bytes_def file_change_payload_bytes_def slot_bytes_def by blast+

lemma pad_to_facts [simp]:
  "length (pad_to n ss) = max n (length ss)" "bytes_of (pad_to n ss) = bytes_of ss"
  by (auto simp: pad_to_def)

text \<open>A part of the payload may be replaced by anything within the available bytes.\<close>

lemma available_replaces:
  "item_ok l x \<Longrightarrow> replaced \<le> item_payload_bytes x \<Longrightarrow> 0 \<le> replaced \<Longrightarrow> new \<le> available_item_bytes l x replaced \<Longrightarrow>
     item_payload_bytes x - replaced + new \<le> max_item l"
  by (auto simp: available_item_bytes_def item_ok_def)

lemma available_nonneg [simp]: "0 \<le> available_item_bytes l x n"
  by (simp add: available_item_bytes_def)

lemma turn_ok_if:
  "(c \<Longrightarrow> turn_ok l (snd a)) \<Longrightarrow> (\<not> c \<Longrightarrow> turn_ok l (snd b)) \<Longrightarrow> turn_ok l (snd (if c then a else b))"
  by simp

lemma turn_ok_complete [wf_intros]:
  assumes "turn_ok l t" "limits_ok l"
  shows "turn_ok l (snd (complete_item l i k t))"
proof -
  let ?t = "touch_item l i k t"
  have ok: "turn_ok l ?t" using turn_ok_touch assms by blast
  then have "turn_ok l (store_item i ((item_of ?t i k)\<lparr>item_completed := True\<rparr>) ?t)"
    using item_of_ok [OF ok assms(2)] by (intro turn_ok_store) (simp_all add: item_ok_def)
  with ok show ?thesis by (simp add: complete_item_def Let_def)
qed

lemma turn_ok_append_text [wf_intros]:
  assumes "turn_ok l t" "limits_ok l"
  shows "turn_ok l (snd (append_text l i k delta t))"
proof -
  let ?t = "touch_item l i k t"
  let ?x = "item_of ?t i k"
  let ?comb = "item_text ?x @ delta"
  let ?next = "truncate_utf8 ?comb (available_item_bytes l ?x (utf8_byte_length (item_text ?x)))"
  let ?x1 = "if ?next \<noteq> ?comb then ?x\<lparr>omitted_bytes :=
      saturating_add (omitted_bytes ?x) (utf8_byte_length ?comb - utf8_byte_length ?next)\<rparr> else ?x"
  let ?w = "warn_if (?next \<noteq> ?comb) l i (store_item i ?x1 ?t)"
  have ok: "turn_ok l ?t" using turn_ok_touch assms by blast
  note x = item_of_ok [OF ok assms(2), of i k]
  have "turn_ok l (store_item i ?x1 ?t)"
    using x by (intro turn_ok_store [OF ok]) (simp_all add: item_ok_def)
  then have w: "turn_ok l (snd ?w)" using assms(2) by (rule turn_ok_push)
  have "utf8_byte_length ?next \<le> available_item_bytes l ?x (utf8_byte_length (item_text ?x))"
    by (rule truncate_utf8_length) simp
  then have "item_payload_bytes ?x - utf8_byte_length (item_text ?x) + utf8_byte_length ?next \<le> max_item l"
    by (rule available_replaces [OF x(1) payload_parts(1) utf8_byte_length_nonneg])
  moreover have "item_payload_bytes ?x1 = item_payload_bytes ?x" "item_text ?x1 = item_text ?x" by simp_all
  ultimately have "item_ok l (?x1\<lparr>item_text := ?next\<rparr>)" by (simp only: item_ok_def payload_update(5))
  then have "turn_ok l (store_item i (?x1\<lparr>item_text := ?next\<rparr>) (snd ?w))"
    using x(2) by (intro turn_ok_store [OF w]) simp_all
  with w show ?thesis
    unfolding append_text_def Let_def
    by (cases "?next = item_text ?x") (simp_all only: if_True if_False refl snd_conv simp_thms)
qed

lemma turn_ok_ensure_summary [wf_intros]:
  assumes "turn_ok l t" "limits_ok l"
  shows "turn_ok l (snd (ensure_summary l i index t))"
proof -
  let ?t = "touch_item l i Reasoning_Kind t"
  let ?x = "item_of ?t i Reasoning_Kind"
  have ok: "turn_ok l ?t" using turn_ok_touch assms by blast
  note x = item_of_ok [OF ok assms(2), of i Reasoning_Kind]
  have "turn_ok l (store_item i (?x\<lparr>summaries := pad_to (index + 1) (summaries ?x)\<rparr>) ?t)"
    if "\<not> index < length (summaries ?x)"
      "\<not> max_item l < item_payload_bytes ?x + (int index + 1 - int (length (summaries ?x))) * slot_bytes"
    using that x(2) by (intro turn_ok_store [OF ok]) (simp_all add: item_ok_def payload_summaries max_def ac_simps)
  then show ?thesis
    using ok turn_ok_push(3) [OF ok assms(2)] by (simp add: ensure_summary_def Let_def)
qed

lemma turn_ok_append_summary [wf_intros]:
  assumes "turn_ok l t" "limits_ok l"
  shows "turn_ok l (snd (append_summary l i index delta t))"
proof -
  let ?e = "ensure_summary l i index (touch_item l i Reasoning_Kind t)"
  let ?x = "item_of (snd ?e) i Reasoning_Kind"
  let ?cur = "summaries ?x ! index"
  let ?next = "truncate_utf8 (?cur @ delta) (available_item_bytes l ?x (utf8_byte_length ?cur))"
  let ?w = "warn_if (?next \<noteq> ?cur @ delta) l i (snd ?e)"
  have ok: "turn_ok l (snd ?e)" using assms by (intro turn_ok_ensure_summary turn_ok_touch)
  note x = item_of_ok [OF ok assms(2), of i Reasoning_Kind]
  have w: "turn_ok l (snd ?w)" using ok assms(2) by (rule turn_ok_push)
  have st: "turn_ok l (store_item i (?x\<lparr>summaries := (summaries ?x)[index := ?next]\<rparr>) (snd ?w))"
    if "index < length (summaries ?x)"
  proof -
    have "utf8_byte_length ?cur \<le> item_payload_bytes ?x"
      using bytes_of_nth [OF that] payload_parts(2) [of ?x] by linarith
    moreover have "utf8_byte_length ?next \<le> available_item_bytes l ?x (utf8_byte_length ?cur)"
      by (rule truncate_utf8_length) simp
    ultimately have "item_payload_bytes ?x - utf8_byte_length ?cur + utf8_byte_length ?next \<le> max_item l"
      using available_replaces [OF x(1)] by simp
    then have "item_ok l (?x\<lparr>summaries := (summaries ?x)[index := ?next]\<rparr>)"
      unfolding item_ok_def payload_summaries [where x = ?x] bytes_of_update [OF that] by simp
    then show ?thesis using x(2) by (intro turn_ok_store [OF w]) simp_all
  qed
  show ?thesis
    unfolding append_summary_def Let_def
  proof (intro turn_ok_if)
    show "turn_ok l (snd ?e)" by (rule ok)
    show "turn_ok l (snd (fst ?e \<or> fst ?w, snd ?w))" using w by (simp only: snd_conv)
    assume "\<not> length (summaries ?x) \<le> index"
    then show "turn_ok l (snd (True, store_item i (?x\<lparr>summaries := (summaries ?x)[index := ?next]\<rparr>) (snd ?w)))"
      using st by (simp only: snd_conv not_le)
  qed
qed

lemma turn_ok_append_reasoning [wf_intros]:
  assumes "turn_ok l t" "limits_ok l"
  shows "turn_ok l (snd (append_reasoning l i index delta t))"
proof -
  let ?t = "touch_item l i Reasoning_Kind t"
  let ?y = "item_of ?t i Reasoning_Kind"
  let ?slots = "(int index + 1 - int (length (reasoning ?y))) * slot_bytes"
  let ?x = "?y\<lparr>reasoning := pad_to (index + 1) (reasoning ?y)\<rparr>"
  let ?cur = "reasoning ?x ! index"
  let ?next = "truncate_utf8 (?cur @ delta) (available_item_bytes l ?x (utf8_byte_length ?cur))"
  let ?w = "warn_if (?next \<noteq> ?cur @ delta) l i (store_item i ?x ?t)"
  have ok: "turn_ok l ?t" using turn_ok_touch assms by blast
  note y0 = item_of_ok [OF ok assms(2), of i Reasoning_Kind]
  have len: "index < length (reasoning ?x)" by simp
  have fits: "turn_ok l (snd ?w)" "turn_ok l (store_item i (?x\<lparr>reasoning := (reasoning ?x)[index := ?next]\<rparr>) (snd ?w))"
    if "\<not> (0 < ?slots \<and> max_item l < item_payload_bytes ?y + ?slots)"
  proof -
    have "item_ok l ?x"
      using that y0(1) by (auto simp: item_ok_def payload_reasoning slot_bytes_def max_def)
    then have st: "turn_ok l (store_item i ?x ?t)" using y0(2) by (intro turn_ok_store [OF ok]) simp_all
    then show w: "turn_ok l (snd ?w)" using assms(2) by (rule turn_ok_push)
    have "utf8_byte_length ?cur \<le> item_payload_bytes ?x"
      using bytes_of_nth [OF len] payload_parts(3) [of ?x] by linarith
    moreover have "utf8_byte_length ?next \<le> available_item_bytes l ?x (utf8_byte_length ?cur)"
      by (rule truncate_utf8_length) simp
    ultimately have "item_payload_bytes ?x - utf8_byte_length ?cur + utf8_byte_length ?next \<le> max_item l"
      using available_replaces [OF \<open>item_ok l ?x\<close>] by simp
    then have "item_ok l (?x\<lparr>reasoning := (reasoning ?x)[index := ?next]\<rparr>)"
      unfolding item_ok_def payload_reasoning [where x = ?x] bytes_of_update [OF len] by simp
    then show "turn_ok l (store_item i (?x\<lparr>reasoning := (reasoning ?x)[index := ?next]\<rparr>) (snd ?w))"
      using y0(2) by (intro turn_ok_store [OF w]) simp_all
  qed
  then show ?thesis
    unfolding append_reasoning_def Let_def
    by (intro turn_ok_if) (simp_all only: snd_conv turn_ok_push(3) [OF ok assms(2)] not_False_eq_True)
qed

section \<open>File changes\<close>

lemma payload_snoc:
  "file_change_payload_bytes (cs @ [c]) = file_change_payload_bytes cs + slot_bytes + change_bytes c"
  by (simp add: file_change_payload_bytes_def slot_bytes_def)

lemma change_bytes_fields:
  "change_bytes \<lparr>change_path = p, change_kind = k, change_diff = d\<rparr> =
     utf8_byte_length p + utf8_byte_length d
     + (case k of Update_File (Move m) \<Rightarrow> utf8_byte_length m | _ \<Rightarrow> 0)"
  by (simp add: change_bytes_def)

lemma bound_loop_bytes:
  "0 \<le> remaining \<Longrightarrow>
     file_change_payload_bytes (fst (bound_loop cs remaining ds b)) \<le> file_change_payload_bytes ds + remaining"
proof (induction cs arbitrary: remaining ds b)
  case (Cons c cs)
  let ?path = "truncate_utf8 (change_path c) (remaining - slot_bytes)"
  let ?r1 = "remaining - slot_bytes - utf8_byte_length ?path"
  let ?diff = "truncate_utf8 (change_diff c) ?r1"
  let ?r2 = "?r1 - utf8_byte_length ?diff"
  show ?case
  proof (cases "remaining < slot_bytes \<or> (?path = [] \<and> change_path c \<noteq> [])")
    case True
    with Cons.prems show ?thesis by (auto simp: Let_def)
  next
    case False
    then have "utf8_byte_length ?path \<le> remaining - slot_bytes" by (intro truncate_utf8_length) simp
    then have r1: "0 \<le> ?r1" by simp
    then have "utf8_byte_length ?diff \<le> ?r1" by (rule truncate_utf8_length)
    then have r2: "0 \<le> ?r2" by simp
    have step: "file_change_payload_bytes (fst (bound_loop cs r (ds @ [\<lparr>change_path = ?path, change_kind = k,
        change_diff = ?diff\<rparr>]) b')) \<le> file_change_payload_bytes ds + remaining"
      if "0 \<le> r" "r + (case k of Update_File (Move m) \<Rightarrow> utf8_byte_length m | _ \<Rightarrow> 0) \<le> ?r2" for r k b'
      using Cons.IH [OF that(1), of "ds @ [\<lparr>change_path = ?path, change_kind = k, change_diff = ?diff\<rparr>]" b'] that(2)
      unfolding payload_snoc change_bytes_fields by linarith
    have plain: "r2 + (case k of Update_File (Move m) \<Rightarrow> utf8_byte_length m | _ \<Rightarrow> 0) \<le> r2"
      if "\<And>m. k \<noteq> Update_File (Move m)" for r2 :: int and k
      using that by (auto split: change_kind.split move_path.split)
    show ?thesis
    proof (cases "\<exists>p. change_kind c = Update_File (Move p)")
      case True
      then obtain p where p: "change_kind c = Update_File (Move p)" by blast
      let ?move = "truncate_utf8 p ?r2"
      have "utf8_byte_length ?move \<le> ?r2" using r2 by (rule truncate_utf8_length)
      then show ?thesis
        using False p step [of "?r2 - utf8_byte_length ?move"] by (auto simp: Let_def)
    next
      case False': False
      with False step [OF r2 plain] show ?thesis
        by (auto simp: Let_def split: change_kind.split move_path.split)
    qed
  qed
qed simp

lemma bounded_bytes: "0 \<le> n \<Longrightarrow> file_change_payload_bytes (bounded (bound_file_changes cs n)) \<le> n"
  using bound_loop_bytes [of n cs "[]" False]
  by (simp add: bound_file_changes_def Let_def file_change_payload_bytes_def [of "[]"])

lemma turn_ok_replace_changes [wf_intros]:
  assumes "turn_ok l t" "limits_ok l"
  shows "turn_ok l (snd (replace_changes l i cs t))"
proof -
  let ?t = "touch_item l i File_Change_Kind t"
  let ?x = "item_of ?t i File_Change_Kind"
  let ?b = "bound_file_changes cs (available_item_bytes l ?x (file_change_payload_bytes (changes ?x)))"
  have ok: "turn_ok l ?t" using turn_ok_touch assms by blast
  note x = item_of_ok [OF ok assms(2), of i File_Change_Kind]
  have "item_payload_bytes ?x - file_change_payload_bytes (changes ?x) + file_change_payload_bytes (bounded ?b) \<le> max_item l"
    by (rule available_replaces [OF x(1) payload_parts(4) file_change_nonneg(2) bounded_bytes]) simp
  then have "turn_ok l (store_item i (?x\<lparr>changes := bounded ?b, omitted_bytes := lost_bytes ?b,
      omitted_changes := lost_changes ?b, omitted_paths := lost_paths ?b\<rparr>) ?t)"
    using x(2) by (intro turn_ok_store [OF ok]) (simp_all add: item_ok_def payload_changes)
  then show ?thesis using assms(2) by (simp add: replace_changes_def Let_def turn_ok_push(4))
qed

section \<open>Events and batches\<close>

lemma truncated_item [simp]: "limits_ok l \<Longrightarrow> utf8_byte_length (truncate_utf8 s (max_item l)) \<le> max_item l"
  by (simp add: truncate_utf8_length limits_ok_def)

lemma turn_ok_set_plan [wf_intros]: "turn_ok l t \<Longrightarrow> limits_ok l \<Longrightarrow> turn_ok l (set_plan l ex ss t)"
  by (cases ex)
    (auto simp: turn_ok_def set_plan_def Let_def items_ok_def diagnostics_ok_def counter_exact_def plan_ok_def
      finalized_ok_def bounded_plan_def list_all_iff)

lemma turn_ok_set_diff [wf_intros]: "turn_ok l t \<Longrightarrow> limits_ok l \<Longrightarrow> turn_ok l (set_diff l d t)"
  by (auto simp: turn_ok_def set_diff_def Let_def items_ok_def diagnostics_ok_def counter_exact_def plan_ok_def
      finalized_ok_def)

lemma turn_ok_status [simp]:
  "turn_ok l (t\<lparr>status := st\<rparr>) = turn_ok l t" "turn_ok l (t\<lparr>usage := u\<rparr>) = turn_ok l t"
  "turn_ok l (t\<lparr>retention_truncated := b\<rparr>) = turn_ok l t"
  by (simp_all add: turn_ok_def items_ok_def plan_ok_def finalized_ok_def)

lemma turn_ok_finish [wf_intros]: "turn_ok l t \<Longrightarrow> limits_ok l \<Longrightarrow> turn_ok l (finish_turn l st e t)"
  by (simp add: finish_turn_def Let_def turn_ok_push split: option.split)

lemma turn_ok_apply_event: "turn_ok l t \<Longrightarrow> limits_ok l \<Longrightarrow> turn_ok l (snd (apply_event l e t))"
proof -
  assume ok: "turn_ok l t" "limits_ok l"
  have "turn_ok l (snd (apply_terminal_event l e t))"
    by (cases "(l, e, t)" rule: apply_terminal_event.cases) (simp_all add: ok turn_ok_push)
  moreover have "turn_ok l (snd (apply_live_event l e t))"
    by (cases "(l, e, t)" rule: apply_live_event.cases)
      (simp_all add: ok turn_ok_push turn_ok_touch turn_ok_complete turn_ok_append_text turn_ok_ensure_summary
        turn_ok_append_summary turn_ok_append_reasoning turn_ok_replace_changes turn_ok_set_plan turn_ok_set_diff
        turn_ok_finish)
  ultimately show ?thesis by (simp add: apply_event_def)
qed

lemma turn_ok_apply_events: "turn_ok l t \<Longrightarrow> limits_ok l \<Longrightarrow> turn_ok l (snd (apply_events l es t))"
  by (induction es arbitrary: t) (simp_all add: Let_def turn_ok_apply_event)

lemma turn_ok_reset: "turn_ok l t \<Longrightarrow> limits_ok l \<Longrightarrow> turn_ok l (reset_for b t)"
  by (simp add: turn_ok_def reset_for_def items_ok_def map_ok_def map_keys_def diagnostics_ok_def counter_exact_def
      plan_ok_def finalized_ok_def limits_ok_def max_diagnostic_bytes_def)

lemma turn_ok_clear_finalized: "turn_ok l t \<Longrightarrow> turn_ok l (t\<lparr>finalized := []\<rparr>)"
  by (simp add: turn_ok_def items_ok_def plan_ok_def finalized_ok_def)

lemma turn_ok_admit: "turn_ok l t \<Longrightarrow> limits_ok l \<Longrightarrow> admit_batch b t = Some u \<Longrightarrow> turn_ok l u"
  by (auto simp: admit_batch_def Let_def bind_eq_Some_conv turn_ok_reset turn_ok_clear_finalized split: if_splits)

lemma turn_ok_remember: "turn_ok l t \<Longrightarrow> turn_ok l (remember_finalized k t)"
  by (cases "finalized t")
    (auto simp: turn_ok_def remember_finalized_def items_ok_def plan_ok_def finalized_ok_def max_finalized_def)

lemma turn_ok_apply_batch [wf_intros]: "turn_ok l t \<Longrightarrow> limits_ok l \<Longrightarrow> turn_ok l (snd (apply_batch l b t))"
  by (auto simp: apply_batch_def Let_def turn_ok_admit turn_ok_apply_events turn_ok_remember split: option.split)

lemma turn_ok_apply_batches [wf_intros]: "turn_ok l t \<Longrightarrow> limits_ok l \<Longrightarrow> turn_ok l (snd (apply_batches l bs t))"
  by (induction bs arbitrary: t) (simp_all add: Let_def turn_ok_apply_batch)

lemma turn_ok_empty: "limits_ok l \<Longrightarrow> turn_ok l empty_turn"
  by (simp add: turn_ok_def empty_turn_def items_ok_def map_ok_def map_keys_def diagnostics_ok_def counter_exact_def
      plan_ok_def finalized_ok_def limits_ok_def max_diagnostic_bytes_def)

end
