(* ===== verification/EventRetention.thy ===== *)
theory EventRetention
  imports EventBounds
begin

text \<open>
  Retention (\<open>#trimRetained\<close> and \<open>#appendRetentionDiagnostic\<close>): whatever state a frame leaves,
  trimming brings the retained bytes within the budget and keeps the bounds of the turn state.
  The properties of the turn state stand at the end.
\<close>

section \<open>Each stage ends within the budget or with nothing left to drop\<close>

definition fits :: "limits \<Rightarrow> turn \<Rightarrow> bool" where
  "fits l t \<longleftrightarrow> retained_bytes t \<le> max_retained l"

lemma drop_within: "fits l (snd s) \<Longrightarrow> drop_while_over l count_of step s = s"
  by (subst drop_while_over.simps) (simp add: fits_def)

lemma drop_emptied:
  assumes "\<And>t. 0 < count_of t \<Longrightarrow> count_of (step t) < count_of t"
  shows "fits l (snd (drop_while_over l count_of step s)) \<or> count_of (snd (drop_while_over l count_of step s)) = 0"
  using assms
proof (induction l count_of step s rule: drop_while_over.induct)
  case (1 l count_of step s)
  show ?case
  proof (cases "max_retained l < retained_bytes (snd s) \<and> 0 < count_of (snd s) \<and> count_of (step (snd s)) < count_of (snd s)")
    case True
    then have "drop_while_over l count_of step s = drop_while_over l count_of step (True, step (snd s))"
      by (subst drop_while_over.simps) simp
    with 1 True show ?thesis by simp
  next
    case False
    then have "drop_while_over l count_of step s = s" by (subst drop_while_over.simps) (simp only: if_False)
    with False "1.prems" [of "snd s"] show ?thesis by (auto simp: fits_def)
  qed
qed

lemma drop_preserves:
  assumes "\<And>t. P t \<Longrightarrow> P (step t)" "P (snd s)"
  shows "P (snd (drop_while_over l count_of step s))"
  using assms
proof (induction l count_of step s rule: drop_while_over.induct)
  case (1 l count_of step s)
  show ?case
  proof (cases "max_retained l < retained_bytes (snd s) \<and> 0 < count_of (snd s) \<and> count_of (step (snd s)) < count_of (snd s)")
    case True
    then have "drop_while_over l count_of step s = drop_while_over l count_of step (True, step (snd s))"
      by (subst drop_while_over.simps) simp
    with 1 True show ?thesis by simp
  next
    case False
    then have "drop_while_over l count_of step s = s" by (subst drop_while_over.simps) (simp only: if_False)
    with "1.prems" show ?thesis by simp
  qed
qed

lemma shift_warning_less: "0 < length (warnings t) \<Longrightarrow> length (warnings (shift_warning t)) < length (warnings t)"
  by (simp add: shift_warning_facts)

lemma shift_error_less: "0 < length (errors t) \<Longrightarrow> length (errors (shift_error t)) < length (errors t)"
  by (simp add: shift_error_facts)

lemma evict_less: "0 < length (items t) \<Longrightarrow> length (items (evict_oldest t)) < length (items t)"
  by (simp add: evict_oldest_shorter)

text \<open>The state with nothing left but a plan's explanation and a diff.\<close>

definition drained :: "turn \<Rightarrow> bool" where
  "drained t \<longleftrightarrow> warnings t = [] \<and> errors t = [] \<and> items t = [] \<and> counter_exact t"

lemma drained_diagnostics: "drained t \<Longrightarrow> diagnostic_bytes t = 0"
  by (simp add: drained_def counter_exact_def)

abbreviation drop_warnings :: "limits \<Rightarrow> bool \<times> turn \<Rightarrow> bool \<times> turn" where
  "drop_warnings l \<equiv> drop_while_over l (\<lambda>t. length (warnings t)) shift_warning"

abbreviation drop_errors :: "limits \<Rightarrow> bool \<times> turn \<Rightarrow> bool \<times> turn" where
  "drop_errors l \<equiv> drop_while_over l (\<lambda>t. length (errors t)) shift_error"

abbreviation drop_items :: "limits \<Rightarrow> bool \<times> turn \<Rightarrow> bool \<times> turn" where
  "drop_items l \<equiv> drop_while_over l (\<lambda>t. length (items t)) evict_oldest"

abbreviation drop_steps :: "limits \<Rightarrow> bool \<times> turn \<Rightarrow> bool \<times> turn" where
  "drop_steps l \<equiv> drop_while_over l plan_steps shift_plan_step"

lemma evict_frame:
  "warnings (evict_oldest t) = warnings t" "errors (evict_oldest t) = errors t"
  "diagnostic_bytes (evict_oldest t) = diagnostic_bytes t"
  using items_only_evict [of t] by (simp_all add: items_only_def)

lemma shift_plan_frame:
  "warnings (shift_plan_step t) = warnings t" "errors (shift_plan_step t) = errors t"
  "diagnostic_bytes (shift_plan_step t) = diagnostic_bytes t" "items (shift_plan_step t) = items t"
  by (simp_all add: shift_plan_step_def)

lemma drop_items_drained:
  assumes "counter_exact (snd s)"
  shows "fits l (snd (drop_items l (drop_errors l (drop_warnings l s)))) \<or>
         drained (snd (drop_items l (drop_errors l (drop_warnings l s))))"
proof -
  let ?w = "drop_warnings l s" and ?e = "drop_errors l (drop_warnings l s)"
  let ?i = "drop_items l ?e"
  have exact_w: "counter_exact (snd ?w)"
    by (rule drop_preserves) (use assms in \<open>simp_all add: shift_warning_facts\<close>)
  have exact_e: "counter_exact (snd ?e)"
    by (rule drop_preserves) (use exact_w in \<open>simp_all add: shift_error_facts\<close>)
  have exact_i: "counter_exact (snd ?i)"
    by (rule drop_preserves) (use exact_e in \<open>simp_all add: counter_exact_def evict_frame\<close>)
  consider "fits l (snd ?w)" | "fits l (snd ?e)" | "warnings (snd ?w) = []" "errors (snd ?e) = []"
    using drop_emptied [where count_of = "\<lambda>t. length (warnings t)", OF shift_warning_less, of l s]
      drop_emptied [where count_of = "\<lambda>t. length (errors t)", OF shift_error_less, of l ?w] by auto
  then show ?thesis
  proof cases
    case 1
    then show ?thesis by (simp add: drop_within)
  next
    case 2
    then show ?thesis by (simp add: drop_within)
  next
    case 3
    have "warnings (snd ?e) = []" by (rule drop_preserves) (use 3(1) in \<open>simp_all add: shift_error_facts\<close>)
    then have "warnings (snd ?i) = [] \<and> errors (snd ?i) = []"
      using 3(2) by - (rule drop_preserves [where P = "\<lambda>t. warnings t = [] \<and> errors t = []"], simp_all add: evict_frame)
    then show ?thesis
      using drop_emptied [where count_of = "\<lambda>t. length (items t)", OF evict_less, of l ?e] exact_i by (auto simp: drained_def)
  qed
qed

lemma stage_within [simp]:
  "fits l (snd s) \<Longrightarrow> trim_explanation l s = s" "fits l (snd s) \<Longrightarrow> trim_diff l s = s"
  "fits l (snd s) \<Longrightarrow> drop_plan_and_diff l s = s"
  by (simp_all add: trim_explanation_def trim_diff_def drop_plan_and_diff_def fits_def Let_def split: option.split)

lemma drained_trim: "drained (snd s) \<Longrightarrow> drained (snd (trim_explanation l s))"
  "drained (snd s) \<Longrightarrow> drained (snd (trim_diff l s))"
  by (auto simp: drained_def counter_exact_def trim_explanation_def trim_diff_def Let_def split: option.split)

lemma drained_steps: "drained (snd s) \<Longrightarrow> drained (snd (drop_steps l s))"
  by (rule drop_preserves) (simp_all add: drained_def counter_exact_def shift_plan_frame)

lemma drained_last: "drained (snd s) \<Longrightarrow> 0 < max_retained l \<Longrightarrow> fits l (snd (drop_plan_and_diff l s))"
  by (auto simp: drop_plan_and_diff_def fits_def retained_bytes_def drained_def counter_exact_def plan_bytes_def
      optional_bytes_def)

lemma trim_stages_within:
  assumes "counter_exact (snd s)" "0 < max_retained l"
  shows "fits l (snd (trim_stages l s))"
  using drop_items_drained [OF assms(1), of l]
proof
  assume "fits l (snd (drop_items l (drop_errors l (drop_warnings l s))))"
  then show ?thesis by (simp add: trim_stages_def drop_within)
next
  assume "drained (snd (drop_items l (drop_errors l (drop_warnings l s))))"
  then show ?thesis unfolding trim_stages_def by (intro drained_last drained_trim drained_steps assms(2))
qed

section \<open>The stages keep the bounds of the turn state\<close>

lemma diagnostics_ok_shift:
  assumes "diagnostics_ok l t"
  shows "diagnostics_ok l (shift_warning t)" "diagnostics_ok l (shift_error t)"
proof -
  have pos: "0 \<le> warning_bytes w" "0 \<le> report_bytes e" for w e
    by (simp_all add: warning_bytes_def report_bytes_def slot_bytes_def)
  show "diagnostics_ok l (shift_warning t)"
    using assms shift_warning_facts(2) [of t] pos(1) [of "hd (warnings t)"]
    by (cases "warnings t") (auto simp: diagnostics_ok_def shift_warning_def)
  show "diagnostics_ok l (shift_error t)"
    using assms shift_error_facts(2) [of t] pos(2) [of "hd (errors t)"]
    by (cases "errors t") (auto simp: diagnostics_ok_def shift_error_def)
qed

lemma turn_ok_shift:
  assumes "turn_ok l t"
  shows "turn_ok l (shift_warning t)" "turn_ok l (shift_error t)"
  using turn_ok_diagnostics [OF shift_warning_facts(1) assms] turn_ok_diagnostics [OF shift_error_facts(1) assms]
    diagnostics_ok_shift [of l t] assms by (simp_all add: turn_ok_def)

lemma turn_ok_evict: "turn_ok l t \<Longrightarrow> turn_ok l (evict_oldest t)"
  by (rule turn_ok_items [OF items_only_evict]) (simp_all add: items_ok_evict turn_ok_def)

lemma turn_ok_plan_update:
  "turn_ok l t \<Longrightarrow> plan_ok l (t\<lparr>plan := p\<rparr>) \<Longrightarrow> turn_ok l (t\<lparr>plan := p\<rparr>)"
  by (simp add: turn_ok_def items_ok_def finalized_ok_def)

lemma turn_ok_shift_plan:
  assumes "turn_ok l t"
  shows "turn_ok l (shift_plan_step t)"
proof (cases "plan t")
  case None
  then have "shift_plan_step t = t" by (simp add: shift_plan_step_def)
  with assms show ?thesis by simp
next
  case (Some p)
  have "plan_ok l t" using assms by (simp add: turn_ok_def)
  then have "plan_ok l (t\<lparr>plan := Some (p\<lparr>steps := tl (steps p)\<rparr>)\<rparr>)"
    using Some by (cases "steps p") (auto simp: plan_ok_def)
  from turn_ok_plan_update [OF assms this] Some show ?thesis by (simp add: shift_plan_step_def)
qed

lemma turn_ok_truncate:
  assumes "turn_ok l (snd s)"
  shows "turn_ok l (snd (trim_explanation l s))" "turn_ok l (snd (trim_diff l s))"
    "turn_ok l (snd (drop_plan_and_diff l s))"
  using assms
  by (auto simp: trim_explanation_def trim_diff_def drop_plan_and_diff_def Let_def turn_ok_def plan_ok_def
      items_ok_def finalized_ok_def split: option.splits intro: order_trans [OF truncate_utf8_le])

lemma turn_ok_stages: "turn_ok l (snd s) \<Longrightarrow> turn_ok l (snd (trim_stages l s))"
  unfolding trim_stages_def
  by (intro turn_ok_truncate drop_preserves [where P = "turn_ok l"])
    (simp_all add: turn_ok_shift turn_ok_evict turn_ok_shift_plan)

section \<open>The truncation diagnostic\<close>

lemma make_room_facts:
  "turn_ok l t \<Longrightarrow> turn_ok l (snd (make_room l t)) \<and> retained_bytes (snd (make_room l t)) \<le> retained_bytes t \<and>
     (fst (make_room l t) \<longrightarrow>
        length (warnings (snd (make_room l t))) + length (errors (snd (make_room l t))) < max_history l)"
proof (induction l t rule: make_room.induct)
  case (1 l t)
  have "0 \<le> warning_bytes w" for w by (simp add: warning_bytes_def slot_bytes_def)
  then have less: "retained_bytes (shift_warning t) \<le> retained_bytes t"
    by (simp add: shift_warning_def retained_bytes_def split: list.split)
  show ?case
  proof (cases "max_history l \<le> length (warnings t) + length (errors t) \<and> warnings t \<noteq> []")
    case True
    then have "make_room l t = make_room l (shift_warning t)" by (subst make_room.simps) simp
    with 1 True less turn_ok_shift(1) [of l t] show ?thesis by (auto intro: order_trans)
  next
    case False
    then have "make_room l t = (\<not> max_history l \<le> length (warnings t) + length (errors t), t)"
      by (subst make_room.simps) simp
    with 1 show ?thesis by simp
  qed
qed

lemma diagnostics_within_retained: "diagnostic_bytes t \<le> retained_bytes t"
proof -
  have "0 \<le> item_retained_bytes x" for x
    by (auto simp: item_retained_bytes_def slot_bytes_def intro!: add_nonneg_nonneg sum_list_map_nonneg)
  then have "0 \<le> sum_list (map (\<lambda>p. item_retained_bytes (snd p)) (items t))" by (intro sum_list_map_nonneg) simp
  moreover have "0 \<le> plan_bytes (plan t)"
    by (auto simp: plan_bytes_def slot_bytes_def step_bytes_def intro!: add_nonneg_nonneg sum_list_map_nonneg
        split: option.split)
  moreover have "0 \<le> optional_bytes (diff t)" by (simp add: optional_bytes_def split: option.split)
  ultimately show ?thesis by (simp add: retained_bytes_def slot_bytes_def)
qed

lemma append_diagnostic_ok:
  assumes "turn_ok l t" "fits l t" "limits_ok l"
  shows "turn_ok l (append_retention_diagnostic l t) \<and> fits l (append_retention_diagnostic l t)"
proof -
  let ?r = "make_room l t"
  let ?t = "snd ?r"
  let ?fixed = "slot_bytes + utf8_byte_length (js ''warning'') + utf8_byte_length (js ''data-truncated'')"
  let ?room = "min (max_retained l - retained_bytes ?t - ?fixed) (max_diagnostic_bytes - diagnostic_bytes ?t - ?fixed)"
  let ?w = "\<lparr>warning_code = Data_Truncated,
    warning_message = truncate_utf8 (js ''Codex UI data was truncated.'') ?room, dropped_events = None, dropped_bytes = None\<rparr>"
  let ?u = "?t\<lparr>warnings := warnings ?t @ [?w], diagnostic_bytes := diagnostic_bytes ?t + warning_bytes ?w\<rparr>"
  note room = make_room_facts [OF assms(1)]
  have fits: "fits l ?t" using room assms(2) by (simp add: fits_def)
  have "turn_ok l ?u \<and> fits l ?u" if "fst ?r" "0 \<le> ?room"
  proof -
    have "utf8_byte_length (warning_message ?w) \<le> ?room" using truncate_utf8_length [OF that(2)] by simp
    then have bytes: "warning_bytes ?w \<le> max_retained l - retained_bytes ?t"
      "warning_bytes ?w \<le> max_diagnostic_bytes - diagnostic_bytes ?t"
      by (simp_all add: warning_bytes_def)
    have retained: "retained_bytes ?u = retained_bytes ?t + warning_bytes ?w" by (simp add: retained_bytes_def)
    have ok: "diagnostics_ok l ?t" using room by (simp add: turn_ok_def)
    have "diagnostic_bytes ?u \<le> max_retained l"
      using diagnostics_within_retained [of ?u] bytes(1) retained by linarith
    moreover have "diagnostic_bytes ?u \<le> max_diagnostic_bytes" using bytes(2) by simp
    moreover have "length (warnings ?u) + length (errors ?u) \<le> max_history l" using room that(1) by simp
    moreover have "counter_exact ?u" using ok by (simp add: diagnostics_ok_def counter_exact_def)
    ultimately have "diagnostics_ok l ?u" by (simp add: diagnostics_ok_def)
    then have "turn_ok l ?u"
      by (rule turn_ok_diagnostics [of ?t, rotated 2]) (use room in \<open>simp_all add: diagnostics_only_def\<close>)
    then show ?thesis using retained bytes(1) by (simp add: fits_def)
  qed
  then show ?thesis
    using assms room fits
    by (simp only: append_retention_diagnostic_def Let_def split: if_split) (simp add: not_less)
qed

lemma fits_update [simp]: "fits l (t\<lparr>retention_truncated := b\<rparr>) = fits l t"
  by (simp add: fits_def retained_bytes_def)

lemma trim_retained_ok:
  assumes "turn_ok l t" "limits_ok l"
  shows "turn_ok l (trim_retained l t)" "fits l (trim_retained l t)"
proof -
  let ?t0 = "trim_items_by_count l t"
  let ?s = "trim_stages l (retention_truncated ?t0, ?t0)"
  let ?t1 = "(snd ?s)\<lparr>retention_truncated := False\<rparr>"
  have "items_ok l ?t0" using assms(1) by (intro items_ok_trim) (simp add: turn_ok_def items_ok_room)
  then have t0: "turn_ok l ?t0" by (rule turn_ok_items [OF items_only_trim assms(1)])
  then have "turn_ok l (snd ?s)" by (intro turn_ok_stages) simp
  moreover have "fits l (snd ?s)"
    using t0 assms(2) by (intro trim_stages_within) (auto simp: turn_ok_def limits_ok_def diagnostics_ok_def)
  ultimately have "turn_ok l ?t1 \<and> fits l ?t1" by simp
  then show "turn_ok l (trim_retained l t)" "fits l (trim_retained l t)"
    using append_diagnostic_ok [of l ?t1] assms(2) by (simp_all add: trim_retained_def Let_def)
qed

end
