(* ===== verification/TurnFacts.thy ===== *)
theory TurnFacts
  imports EventRetention "HOL-Library.Option_ord"
begin

text \<open>
  How batches move a turn: which events keep which fields, that a turn's position
  (generation, sequence) never goes back, that stale and replayed batches have no effect, and
  that a finished turn keeps its result.
\<close>

section \<open>Positions\<close>

text \<open>The position of a turn in the order of turns. The library's order automation applies to it
  through the instance below.\<close>

datatype position = Position (position_generation: int) (position_sequence: "int option")

instantiation position :: linorder
begin

definition less_eq_position :: "position \<Rightarrow> position \<Rightarrow> bool" where
  "p \<le> q \<longleftrightarrow> position_generation p < position_generation q \<or>
     (position_generation p = position_generation q \<and> position_sequence p \<le> position_sequence q)"

definition less_position :: "position \<Rightarrow> position \<Rightarrow> bool" where
  "p < q \<longleftrightarrow> p \<le> q \<and> \<not> q \<le> (p :: position)"

instance
proof
  fix p q r :: position
  show "p < q \<longleftrightarrow> p \<le> q \<and> \<not> q \<le> p" by (rule less_position_def)
  show "p \<le> p" by (simp add: less_eq_position_def)
  show "p \<le> q \<Longrightarrow> q \<le> r \<Longrightarrow> p \<le> r" by (auto simp: less_eq_position_def)
  show "p \<le> q \<Longrightarrow> q \<le> p \<Longrightarrow> p = q" by (auto simp: less_eq_position_def intro: position.expand)
  show "p \<le> q \<or> q \<le> p" by (auto simp: less_eq_position_def)
qed

end

definition position_of :: "turn \<Rightarrow> position" where
  "position_of t = Position (generation t) (highest_sequence t)"

definition batch_position :: "event_batch \<Rightarrow> position" where
  "batch_position b = Position (batch_generation b) (Some (batch_sequence b))"

lemma position_le [simp]:
  "Position g s \<le> Position h r \<longleftrightarrow> g < h \<or> (g = h \<and> s \<le> r)"
  by (simp add: less_eq_position_def)

lemma position_less [simp]:
  "Position g s < Position h r \<longleftrightarrow> g < h \<or> (g = h \<and> s < r)"
  by (auto simp: less_position_def less_eq_position_def)

section \<open>Events keep the identity of the turn\<close>

definition identity_kept :: "turn \<Rightarrow> turn \<Rightarrow> bool" where
  "identity_kept t u \<longleftrightarrow>
     generation u = generation t \<and> highest_sequence u = highest_sequence t \<and> thread_id u = thread_id t \<and>
     turn_id u = turn_id t \<and> finalized u = finalized t"

lemma identity_refl [simp]: "identity_kept t t"
  by (simp add: identity_kept_def)

lemma identity_trans [trans]: "identity_kept t u \<Longrightarrow> identity_kept u v \<Longrightarrow> identity_kept t v"
  by (simp add: identity_kept_def)

lemma identity_diagnostics: "diagnostics_only t u \<Longrightarrow> identity_kept t u"
  by (simp add: identity_kept_def diagnostics_only_def)

lemma identity_items: "items_only t u \<Longrightarrow> identity_kept t u"
  by (simp add: identity_kept_def items_only_def)

lemma items_only_touch: "items_only t (touch_item l i k t)" "items_only t (snd (start_item l i k t))"
  using items_only_trim [of "t\<lparr>items := map_set (items t) i (new_mutable_item i k)\<rparr>" l]
  by (simp_all add: touch_item_def start_item_def)

lemma items_only_store: "items_only t (store_item i x t)"
  by (simp add: store_item_def)

text \<open>Status and identity survive every item and diagnostic method.\<close>

definition framed :: "turn \<Rightarrow> turn \<Rightarrow> bool" where
  "framed t u \<longleftrightarrow> identity_kept t u \<and> status u = status t"

lemma framed_refl [simp]: "framed t t"
  by (simp add: framed_def)

lemma framed_trans: "framed t u \<Longrightarrow> framed u v \<Longrightarrow> framed t v"
  by (auto simp: framed_def intro: identity_trans)

lemma framed_diagnostics: "diagnostics_only t u \<Longrightarrow> framed t u"
  by (simp add: framed_def identity_diagnostics) (simp add: diagnostics_only_def)

lemma framed_items: "items_only t u \<Longrightarrow> framed t u"
  by (simp add: framed_def identity_items) (simp add: items_only_def)

lemma framed_store: "framed u t \<Longrightarrow> framed u (store_item i x t)"
  by (rule framed_trans [OF _ framed_items [OF items_only_store]])

lemma framed_touch: "framed u t \<Longrightarrow> framed u (touch_item l i k t)"
  by (rule framed_trans [OF _ framed_items [OF items_only_touch(1)]])

lemma framed_warn: "framed u t \<Longrightarrow> framed u (snd (warn_if b l i t))"
  by (rule framed_trans [OF _ framed_diagnostics [OF warn_if_facts(1)]])

lemma framed_warn_item: "framed u t \<Longrightarrow> framed u (snd (warn_item_truncated l i t))"
  by (rule framed_trans [OF _ framed_diagnostics [OF warn_item_facts(1)]])

lemma framed_if: "framed u (snd a) \<Longrightarrow> framed u (snd b) \<Longrightarrow> framed u (snd (if c then a else b))"
  by simp

lemma framed_complete: "framed t (snd (complete_item l i k t))"
  unfolding complete_item_def Let_def
  by (intro framed_if) (simp_all only: snd_conv framed_store framed_touch framed_refl)

lemma framed_append_text: "framed t (snd (append_text l i k d t))"
  unfolding append_text_def Let_def
  by (intro framed_if) (simp_all only: snd_conv framed_store framed_touch framed_refl framed_warn)

lemma framed_ensure_summary: "framed u t \<Longrightarrow> framed u (snd (ensure_summary l i n t))"
  unfolding ensure_summary_def Let_def
  by (intro framed_if) (simp_all only: snd_conv framed_store framed_touch framed_warn_item)

lemma framed_append_summary: "framed t (snd (append_summary l i n d t))"
  unfolding append_summary_def Let_def
  by (intro framed_if)
    (simp_all only: snd_conv framed_store framed_touch framed_refl framed_warn framed_ensure_summary)

lemma framed_append_reasoning: "framed t (snd (append_reasoning l i n d t))"
  unfolding append_reasoning_def Let_def
  by (intro framed_if) (simp_all only: snd_conv framed_store framed_touch framed_refl framed_warn framed_warn_item)

lemma framed_replace_changes: "framed t (snd (replace_changes l i cs t))"
  unfolding replace_changes_def Let_def
  by (simp only: snd_conv framed_store framed_touch framed_refl framed_warn)

lemma finish_turn_facts:
  "identity_kept t (finish_turn l st e t)" "status (finish_turn l st e t) = Terminal st"
proof -
  have "diagnostics_only (t\<lparr>status := Terminal st\<rparr>) (finish_turn l st e t)"
    by (simp add: finish_turn_def push_error_once_facts(1) Let_def split: option.split)
  then show "identity_kept t (finish_turn l st e t)" "status (finish_turn l st e t) = Terminal st"
    by (simp_all add: diagnostics_only_def identity_kept_def)
qed

lemma terminal_event_diagnostics: "diagnostics_only t (snd (apply_terminal_event l e t))"
  by (cases "(l, e, t)" rule: apply_terminal_event.cases) (simp_all add: push_warning_facts(1) push_error_once_facts(1))

lemma live_event_identity: "identity_kept t (snd (apply_live_event l e t))"
proof -
  note framed_identity = framed_def [THEN iffD1, THEN conjunct1]
  show ?thesis
    by (cases "(l, e, t)" rule: apply_live_event.cases)
      (simp_all add: finish_turn_facts identity_diagnostics push_warning_facts(1) push_error_once_facts(1)
        identity_items items_only_touch framed_complete [THEN framed_identity] framed_append_text [THEN framed_identity]
        framed_ensure_summary [OF framed_refl, THEN framed_identity] framed_append_summary [THEN framed_identity]
        framed_append_reasoning [THEN framed_identity] framed_replace_changes [THEN framed_identity],
       simp_all add: identity_kept_def set_plan_def set_diff_def Let_def)
qed

lemma event_identity: "identity_kept t (snd (apply_event l e t))"
  by (simp add: apply_event_def live_event_identity identity_diagnostics terminal_event_diagnostics)

lemma events_identity: "identity_kept t (snd (apply_events l es t))"
  by (induction es arbitrary: t) (auto simp: Let_def intro: identity_trans event_identity)

lemma terminal_diagnostics: "is_terminal t \<Longrightarrow> diagnostics_only t (snd (apply_events l es t))"
proof (induction es arbitrary: t)
  case (Cons e es)
  have one: "diagnostics_only t (snd (apply_event l e t))"
    using Cons.prems by (simp add: apply_event_def terminal_event_diagnostics)
  then have "is_terminal (snd (apply_event l e t))"
    using Cons.prems by (simp add: is_terminal_def diagnostics_only_def)
  from diagnostics_only_trans [OF one Cons.IH [OF this]] show ?case by (simp add: Let_def)
qed simp

lemma terminal_reached:
  "list_ex is_turn_terminal es \<Longrightarrow> is_terminal (snd (apply_events l es t))"
proof (induction es arbitrary: t)
  case (Cons e es)
  show ?case
  proof (cases "is_terminal (snd (apply_event l e t))")
    case True
    from terminal_diagnostics [OF this, of l es] True show ?thesis
      by (simp add: Let_def is_terminal_def diagnostics_only_def)
  next
    case False
    have "\<not> is_turn_terminal e"
    proof
      assume "is_turn_terminal e"
      then obtain st x where e: "e = Turn_Terminal st x" by (cases e) (auto simp: is_turn_terminal_def)
      show False
      proof (cases "is_terminal t")
        case True
        with False e show False by (simp add: apply_event_def)
      next
        case False': False
        with e have "snd (apply_event l e t) = finish_turn l st x t" by (simp add: apply_event_def)
        with False show False by (simp add: is_terminal_def finish_turn_facts)
      qed
    qed
    with Cons show ?thesis by (simp add: Let_def)
  qed
qed simp

section \<open>Admission\<close>

lemma reset_turn_id [simp]: "turn_id (reset_for b t) = Some (batch_turn b)"
  by (simp add: reset_for_def)

text \<open>An admitted batch either opens its turn or belongs to the current one.\<close>

lemma admit_cases:
  assumes "admit_batch b t = Some u"
  obtains (opens) f where "u = reset_for b (t\<lparr>finalized := f\<rparr>)" "position_of t \<le> batch_position b"
  | (continues) "u = t" "generation t = batch_generation b"
      "highest_sequence t = None \<or> highest_sequence t = Some (batch_sequence b)"
proof (cases "generation t < batch_generation b")
  case True
  with assms have "u = reset_for b (t\<lparr>finalized := []\<rparr>)"
    by (simp add: admit_batch_def Let_def split: if_splits)
  with True opens show thesis by (simp add: position_of_def batch_position_def)
next
  case False
  with assms have gen: "generation t = batch_generation b"
    by (simp add: admit_batch_def Let_def split: if_splits)
  have same: "reset_for b t = reset_for b (t\<lparr>finalized := finalized t\<rparr>)" by simp
  show thesis
  proof (cases "highest_sequence t")
    case None
    with assms gen have "u = reset_for b t \<or> u = t"
      by (simp add: admit_batch_def Let_def split: if_splits)
    with None gen opens [of "finalized t"] continues show thesis
      by (auto simp: position_of_def batch_position_def simp del: not_None_eq)
  next
    case (Some s)
    with assms gen have "s \<le> batch_sequence b"
      by (simp add: admit_batch_def Let_def split: if_splits)
    moreover from assms gen Some have "u = reset_for b t \<or> (u = t \<and> s = batch_sequence b)"
      by (simp add: admit_batch_def Let_def split: if_splits)
    ultimately show thesis using Some gen opens [of "finalized t"] continues
      by (auto simp: position_of_def batch_position_def)
  qed
qed

lemma admit_position:
  assumes "admit_batch b t = Some u"
  shows "generation u = batch_generation b \<and> position_of t \<le> position_of u"
  using assms by (cases rule: admit_cases) (simp_all add: position_of_def batch_position_def reset_for_def)

lemma remember_keeps:
  "generation (remember_finalized k t) = generation t" "highest_sequence (remember_finalized k t) = highest_sequence t"
  "thread_id (remember_finalized k t) = thread_id t" "turn_id (remember_finalized k t) = turn_id t"
  "status (remember_finalized k t) = status t" "items (remember_finalized k t) = items t"
  "plan (remember_finalized k t) = plan t" "diff (remember_finalized k t) = diff t"
  "usage (remember_finalized k t) = usage t" "k \<in> set (finalized (remember_finalized k t))"
  by (simp_all add: remember_finalized_def)

lemma apply_batch_position: "position_of t \<le> position_of (snd (apply_batch l b t))"
proof (cases "admit_batch b t")
  case None
  then show ?thesis by (simp add: apply_batch_def)
next
  case (Some u)
  have "position_of (snd (apply_events l (batch_events b) u)) = position_of u"
    using events_identity [of u l "batch_events b"] by (simp add: identity_kept_def position_of_def)
  moreover have "position_of (remember_finalized k x) = position_of x" for k x
    by (simp add: position_of_def remember_keeps)
  ultimately show ?thesis using admit_position [OF Some] Some by (simp add: apply_batch_def Let_def)
qed

lemma apply_batches_position: "position_of t \<le> position_of (snd (apply_batches l bs t))"
  by (induction bs arbitrary: t) (auto simp: Let_def intro: order_trans [OF apply_batch_position])

lemma stale_not_admitted: "batch_position b < position_of t \<Longrightarrow> admit_batch b t = None"
  by (cases "highest_sequence t") (auto simp: admit_batch_def Let_def batch_position_def position_of_def)

section \<open>Properties\<close>

definition sample_limits :: limits where
  "sample_limits = \<lparr>max_wire = 200, max_queued = 1000, max_batch = 2, max_item = 100, max_items = 2,
     max_retained = 300, max_history = 3\<rparr>"

lemma sample_limits_ok: "limits_ok sample_limits"
  by (simp add: limits_ok_def sample_limits_def)

text \<open>C28. Everything the reducer keeps of a turn is bounded, whatever batches arrive: every item
  within the item budget, no more items, diagnostics and finalized identities than the limits
  allow, plan and diff cut to size, and the diagnostic byte counter exact.\<close>

theorem turn_always_bounded:
  assumes "limits_ok l"
  shows "turn_ok l (snd (apply_batches l bs empty_turn))"
  using turn_ok_apply_batches [OF turn_ok_empty [OF assms] assms] .

theorem turn_always_bounded_witness:
  "turn_ok sample_limits (snd (apply_batches sample_limits [sample_batch, sample_batch] empty_turn))"
  by (rule turn_always_bounded [OF sample_limits_ok])

text \<open>C31. Trimming always succeeds: from every state within the bounds it ends with the retained bytes
  within the retention budget, still within all bounds, even when the retention diagnostic is
  added; warnings, errors, items, plan steps, explanation and diff are given up in that order.\<close>

theorem trim_retained_within_budget:
  assumes "turn_ok l t" and "limits_ok l"
  shows "retained_bytes (trim_retained l t) \<le> max_retained l \<and> turn_ok l (trim_retained l t)"
  using trim_retained_ok [OF assms] by (simp add: fits_def)

theorem trim_retained_within_budget_witness:
  "retained_bytes (trim_retained sample_limits empty_turn) \<le> max_retained sample_limits
     \<and> turn_ok sample_limits (trim_retained sample_limits empty_turn)"
  by (rule trim_retained_within_budget [OF turn_ok_empty [OF sample_limits_ok] sample_limits_ok])

text \<open>C29. A batch that finishes a turn takes effect once: applying it again, at once, changes
  nothing and reports no change, because its identity is remembered as finalized.\<close>

theorem terminal_batch_idempotent:
  assumes "terminates_turn b"
  shows "apply_batch l b (snd (apply_batch l b t)) = (False, snd (apply_batch l b t))"
proof (cases "admit_batch b t")
  case None
  then show ?thesis by (simp add: apply_batch_def)
next
  case (Some u)
  let ?v = "snd (apply_events l (batch_events b) u)"
  let ?w = "remember_finalized (finalized_identity_key b) ?v"
  have "is_terminal ?v" using assms by (simp add: terminal_reached terminates_turn_def)
  then have w: "snd (apply_batch l b t) = ?w" using Some by (simp add: apply_batch_def Let_def)
  have "generation ?w = batch_generation b"
    using admit_position [OF Some] events_identity [of u l "batch_events b"]
    by (simp add: remember_keeps identity_kept_def)
  moreover have "\<not> is_diagnostic_only (batch_events b)"
    using assms by (auto simp: terminates_turn_def is_diagnostic_only_def is_diagnostic_def is_turn_terminal_def
        list_ex_iff list_all_iff split: ui_event.splits)
  ultimately have "admit_batch b ?w = None"
    by (simp add: admit_batch_def Let_def current_finalized_diagnostic_def remember_keeps)
  with w show ?thesis by (simp add: apply_batch_def)
qed

theorem terminal_batch_idempotent_witness:
  "let b = boundary_identity [Turn_Terminal Completed None]; t = snd (apply_batch sample_limits b empty_turn)
   in apply_batch sample_limits b t = (False, t)"
  unfolding Let_def
  by (rule terminal_batch_idempotent) (simp add: terminates_turn_def boundary_identity_def is_turn_terminal_def)

text \<open>C30. A finished turn keeps its result: a later batch of the same generation and sequence leaves
  status, items, plan, diff and usage as they are; it can at most add warnings and errors.\<close>

theorem finished_turn_final:
  assumes "is_terminal t" and "batch_position b = position_of t" and "u = snd (apply_batch l b t)"
  shows "status u = status t \<and> items u = items t \<and> plan u = plan t \<and> diff u = diff t \<and> usage u = usage t
     \<and> position_of u = position_of t"
proof (cases "admit_batch b t")
  case None
  with assms(3) show ?thesis by (simp add: apply_batch_def)
next
  case (Some v)
  have pos: "batch_generation b = generation t" "highest_sequence t = Some (batch_sequence b)"
    using assms(2) by (simp_all add: batch_position_def position_of_def)
  have "v = t"
    using Some pos assms(1) by (auto simp: admit_batch_def Let_def same_turn_def split: if_splits)
  then have "diagnostics_only t (snd (apply_events l (batch_events b) v))"
    using terminal_diagnostics [OF assms(1)] by simp
  with assms(3) Some show ?thesis
    by (simp add: apply_batch_def Let_def diagnostics_only_def remember_keeps position_of_def)
qed

theorem finished_turn_final_witness:
  "let t = empty_turn\<lparr>status := Terminal Completed, highest_sequence := Some 1\<rparr>; u = snd (apply_batch sample_limits sample_batch t)
   in status u = Terminal Completed \<and> items u = []"
  using finished_turn_final [OF _ _ refl, of "empty_turn\<lparr>status := Terminal Completed, highest_sequence := Some 1\<rparr>"
      sample_batch sample_limits]
  by (simp add: Let_def is_terminal_def batch_position_def position_of_def sample_batch_def empty_turn_def)

text \<open>Stale batches have no effect: a batch of an earlier generation, or of an earlier turn of
  the same generation, leaves the turn unchanged, and no sequence of batches moves the turn back.\<close>

theorem stale_batch_ignored:
  "(batch_position b < position_of t \<longrightarrow> apply_batch l b t = (False, t)) \<and>
   position_of t \<le> position_of (snd (apply_batches l bs t))"
  by (simp add: apply_batch_def stale_not_admitted apply_batches_position)

theorem stale_batch_ignored_witness:
  "apply_batch sample_limits sample_batch (empty_turn\<lparr>generation := 1\<rparr>) = (False, empty_turn\<lparr>generation := 1\<rparr>)"
  using stale_batch_ignored [of sample_batch "empty_turn\<lparr>generation := 1\<rparr>" sample_limits "[]"]
  by (simp add: batch_position_def position_of_def sample_batch_def)

end
