(* ===== verification/EventWire.thy ===== *)
theory EventWire
  imports Events "HOL-Library.Monad_Syntax"
begin

text \<open>
  The reading side of the event wire (\<open>parseSafeBatch\<close> and the checks below it in
  \<open>src/browser/ride-codex-event-reducer.ts\<close>): a wire text is accepted only if it is within the
  byte limit, is the canonical JSON text of its value, is a graph within the node, depth and byte
  budget, and is a batch of known events with exactly the known keys.
\<close>

section \<open>Limits\<close>

definition max_wire_depth :: nat where "max_wire_depth = 16"
definition max_wire_nodes :: nat where "max_wire_nodes = 8192"
definition max_wire_array_items :: nat where "max_wire_array_items = 8192"
definition max_wire_object_keys :: nat where "max_wire_object_keys = 128"
definition max_file_patch_path_bytes :: int where "max_file_patch_path_bytes = 32 * 1024"
definition max_file_patch_diff_bytes :: int where "max_file_patch_diff_bytes = 64 * 1024"
definition max_reasoning_index :: int where "max_reasoning_index = 1024"

section \<open>The graph budget\<close>

text \<open>\<open>validateJsonGraph\<close> threads the mutable budget (nodes, string bytes); a refusal stops the
  whole walk, so it is None.\<close>

fun validate_graph :: "int \<Rightarrow> nat \<Rightarrow> json \<Rightarrow> nat \<times> int \<Rightarrow> (nat \<times> int) option"
and validate_elements :: "int \<Rightarrow> nat \<Rightarrow> json list \<Rightarrow> nat \<times> int \<Rightarrow> (nat \<times> int) option"
and validate_members :: "int \<Rightarrow> nat \<Rightarrow> (jsstr \<times> json) list \<Rightarrow> nat \<times> int \<Rightarrow> (nat \<times> int) option"
where
  "validate_graph max_bytes depth v (nodes, bytes) =
     (if max_wire_depth < depth \<or> max_wire_nodes < nodes + 1 then None
      else
        (case v of
           JStr s \<Rightarrow>
             if bytes + utf8_byte_length s \<le> max_bytes then Some (nodes + 1, bytes + utf8_byte_length s)
             else None
         | JNull \<Rightarrow> Some (nodes + 1, bytes)
         | JBool _ \<Rightarrow> Some (nodes + 1, bytes)
         | JNum n \<Rightarrow> if is_finite_number n then Some (nodes + 1, bytes) else None
         | JArr vs \<Rightarrow>
             if max_wire_array_items < length vs then None
             else validate_elements max_bytes (depth + 1) vs (nodes + 1, bytes)
         | JObj ps \<Rightarrow>
             if max_wire_object_keys < length ps then None
             else validate_members max_bytes (depth + 1) ps (nodes + 1, bytes)))"
| "validate_elements max_bytes depth [] budget = Some budget"
| "validate_elements max_bytes depth (v # vs) budget =
     (case validate_graph max_bytes depth v budget of
        None \<Rightarrow> None
      | Some budget' \<Rightarrow> validate_elements max_bytes depth vs budget')"
| "validate_members max_bytes depth [] budget = Some budget"
| "validate_members max_bytes depth ((k, v) # ps) (nodes, bytes) =
     (if bytes + utf8_byte_length k > max_bytes then None
      else
        (case validate_graph max_bytes depth v (nodes, bytes + utf8_byte_length k) of
           None \<Rightarrow> None
         | Some budget \<Rightarrow> validate_members max_bytes depth ps budget))"

section \<open>Reading values\<close>

type_synonym members = "(jsstr \<times> json) list"

definition guarded :: "bool \<Rightarrow> 'a option \<Rightarrow> 'a option" where
  "guarded b x = (if b then x else None)"

definition keys_only :: "members \<Rightarrow> string list \<Rightarrow> bool" where
  "keys_only ps allowed \<longleftrightarrow> list_all (\<lambda>p. fst p \<in> set (map js allowed)) ps"

definition keys_exact :: "members \<Rightarrow> string list \<Rightarrow> string list \<Rightarrow> bool" where
  "keys_exact ps required optional \<longleftrightarrow>
     list_all (has_own ps) required \<and> keys_only ps (required @ optional)"

definition as_plain_record :: "json \<Rightarrow> members option" where
  "as_plain_record v = (case v of JObj ps \<Rightarrow> Some ps | _ \<Rightarrow> None)"

definition as_text :: "json option \<Rightarrow> jsstr option" where
  "as_text v = (case v of Some (JStr s) \<Rightarrow> Some s | _ \<Rightarrow> None)"

definition as_identifier :: "json option \<Rightarrow> jsstr option" where
  "as_identifier v =
     Option.bind (as_text v) (\<lambda>s. guarded (utf8_byte_length s \<le> max_identifier_bytes) (Some s))"

definition as_safe_int :: "json option \<Rightarrow> int option" where
  "as_safe_int v = (case v of Some (JNum (NInt i)) \<Rightarrow> guarded (safe_int i) (Some i) | _ \<Rightarrow> None)"

definition as_nonnegative :: "json option \<Rightarrow> int option" where
  "as_nonnegative v = Option.bind (as_safe_int v) (\<lambda>i. guarded (0 \<le> i) (Some i))"

definition as_reasoning_index :: "json option \<Rightarrow> nat option" where
  "as_reasoning_index v =
     Option.bind (as_nonnegative v) (\<lambda>i. guarded (i \<le> max_reasoning_index) (Some (nat i)))"

definition as_bool :: "json option \<Rightarrow> bool option" where
  "as_bool v = (case v of Some (JBool b) \<Rightarrow> Some b | _ \<Rightarrow> None)"

definition as_array :: "json option \<Rightarrow> json list option" where
  "as_array v = (case v of Some (JArr vs) \<Rightarrow> Some vs | _ \<Rightarrow> None)"

definition as_name :: "('a \<Rightarrow> string) \<Rightarrow> 'a list \<Rightarrow> json option \<Rightarrow> 'a option" where
  "as_name name xs v = Option.bind (as_text v) (\<lambda>s. List.find (\<lambda>x. js (name x) = s) xs)"

text \<open>An optional property: absent is fine, present must read.\<close>

definition as_optional :: "(json option \<Rightarrow> 'a option) \<Rightarrow> json option \<Rightarrow> 'a option option" where
  "as_optional f v = (case v of None \<Rightarrow> Some None | Some _ \<Rightarrow> map_option Some (f v))"

definition as_record_with :: "(members \<Rightarrow> 'a option) \<Rightarrow> json option \<Rightarrow> 'a option" where
  "as_record_with f v = Option.bind (Option.bind v as_plain_record) f"

definition as_list_of :: "(members \<Rightarrow> 'a option) \<Rightarrow> json option \<Rightarrow> 'a list option" where
  "as_list_of f v = Option.bind (as_array v) (\<lambda>vs. those (map (\<lambda>j. as_record_with f (Some j)) vs))"

section \<open>Reading events\<close>

definition terminal_statuses :: "terminal_status list" where
  "terminal_statuses = [Completed, Failed, Interrupted, Interrupt_Uncertain]"

definition item_kinds :: "item_kind list" where
  "item_kinds = [User_Message, Agent_Message, Plan_Kind, Reasoning_Kind, Command_Kind, File_Change_Kind, Other_Kind]"

definition step_statuses :: "step_status list" where
  "step_statuses = [Step_Pending, Step_In_Progress, Step_Completed]"

definition warning_codes :: "warning_code list" where
  "warning_codes = [Server_Warning, Events_Dropped, Data_Truncated]"

definition is_display_path :: "jsstr \<Rightarrow> bool" where
  "is_display_path s \<longleftrightarrow>
     utf8_byte_length s \<le> max_file_patch_path_bytes \<and>
     list_all (\<lambda>c. \<not> (unat c \<le> 0x1F \<or> (0x7F \<le> unat c \<and> unat c \<le> 0x9F))) s"

definition as_display_path :: "json option \<Rightarrow> jsstr option" where
  "as_display_path v = Option.bind (as_text v) (\<lambda>s. guarded (is_display_path s) (Some s))"

definition as_move_path :: "json option \<Rightarrow> move_path option" where
  "as_move_path v =
     (case v of
        None \<Rightarrow> Some No_Move
      | Some JNull \<Rightarrow> Some Null_Move
      | Some _ \<Rightarrow> map_option Move (as_display_path v))"

definition read_change_kind :: "members \<Rightarrow> change_kind option" where
  "read_change_kind ps =
     do {
       k \<leftarrow> as_text (own ps ''kind'');
       (if k = js ''add'' then guarded (keys_only ps [''path'', ''kind'', ''diff'']) (Some Add_File)
        else if k = js ''delete'' then guarded (keys_only ps [''path'', ''kind'', ''diff'']) (Some Delete_File)
        else if k = js ''update'' then
          guarded (keys_only ps [''path'', ''kind'', ''diff'', ''movePath''])
            (map_option Update_File (as_move_path (own ps ''movePath'')))
        else None)
     }"

definition read_file_change :: "members \<Rightarrow> file_change option" where
  "read_file_change ps =
     do {
       p \<leftarrow> as_display_path (own ps ''path'');
       d \<leftarrow> as_text (own ps ''diff'');
       guarded (utf8_byte_length d \<le> max_file_patch_diff_bytes) (do {
         k \<leftarrow> read_change_kind ps;
         Some \<lparr>change_path = p, change_kind = k, change_diff = d\<rparr>
       })
     }"

definition read_step :: "members \<Rightarrow> plan_step option" where
  "read_step ps =
     guarded (keys_exact ps [''step'', ''status''] []) (do {
       s \<leftarrow> as_text (own ps ''step'');
       st \<leftarrow> as_name step_name step_statuses (own ps ''status'');
       Some \<lparr>step_text = s, step_state = st\<rparr>
     })"

definition read_safe_error :: "members \<Rightarrow> safe_error option" where
  "read_safe_error ps =
     guarded (keys_exact ps [''code'', ''message''] []) (do {
       c \<leftarrow> as_name code_name safe_codes (own ps ''code'');
       m \<leftarrow> as_text (own ps ''message'');
       Some \<lparr>safe_error_code = c, safe_error_message = m\<rparr>
     })"

definition read_warning :: "members \<Rightarrow> warning option" where
  "read_warning ps =
     guarded (keys_exact ps [''type'', ''code'', ''message''] [''droppedEvents'', ''droppedBytes'']) (do {
       c \<leftarrow> as_name warning_name warning_codes (own ps ''code'');
       m \<leftarrow> as_text (own ps ''message'');
       de \<leftarrow> as_optional as_nonnegative (own ps ''droppedEvents'');
       db \<leftarrow> as_optional as_nonnegative (own ps ''droppedBytes'');
       Some \<lparr>warning_code = c, warning_message = m, dropped_events = de, dropped_bytes = db\<rparr>
     })"

definition read_report :: "members \<Rightarrow> error_report option" where
  "read_report ps =
     guarded (keys_exact ps [''type'', ''code'', ''message'', ''retryable''] []) (do {
       c \<leftarrow> as_name code_name safe_codes (own ps ''code'');
       m \<leftarrow> as_text (own ps ''message'');
       r \<leftarrow> as_bool (own ps ''retryable'');
       Some \<lparr>report_code = c, report_message = m, retryable = r\<rparr>
     })"

definition read_item_event :: "(jsstr \<Rightarrow> item_kind \<Rightarrow> ui_event) \<Rightarrow> members \<Rightarrow> ui_event option" where
  "read_item_event mk ps =
     guarded (keys_exact ps [''type'', ''itemId'', ''itemKind''] []) (do {
       i \<leftarrow> as_identifier (own ps ''itemId'');
       k \<leftarrow> as_name kind_name item_kinds (own ps ''itemKind'');
       Some (mk i k)
     })"

definition read_delta :: "(jsstr \<Rightarrow> jsstr \<Rightarrow> ui_event) \<Rightarrow> members \<Rightarrow> ui_event option" where
  "read_delta mk ps =
     guarded (keys_exact ps [''type'', ''itemId'', ''delta''] []) (do {
       i \<leftarrow> as_identifier (own ps ''itemId'');
       d \<leftarrow> as_text (own ps ''delta'');
       Some (mk i d)
     })"

definition read_indexed_delta ::
    "string \<Rightarrow> (jsstr \<Rightarrow> nat \<Rightarrow> jsstr \<Rightarrow> ui_event) \<Rightarrow> members \<Rightarrow> ui_event option" where
  "read_indexed_delta index mk ps =
     guarded (keys_exact ps [''type'', ''itemId'', index, ''delta''] []) (do {
       i \<leftarrow> as_identifier (own ps ''itemId'');
       n \<leftarrow> as_reasoning_index (own ps index);
       d \<leftarrow> as_text (own ps ''delta'');
       Some (mk i n d)
     })"

definition read_terminal :: "members \<Rightarrow> ui_event option" where
  "read_terminal ps =
     guarded (keys_exact ps [''type'', ''status''] [''error'']) (do {
       st \<leftarrow> as_name terminal_name terminal_statuses (own ps ''status'');
       e \<leftarrow> as_optional (as_record_with read_safe_error) (own ps ''error'');
       Some (Turn_Terminal st e)
     })"

definition read_summary_part :: "members \<Rightarrow> ui_event option" where
  "read_summary_part ps =
     guarded (keys_exact ps [''type'', ''itemId'', ''summaryIndex''] []) (do {
       i \<leftarrow> as_identifier (own ps ''itemId'');
       n \<leftarrow> as_reasoning_index (own ps ''summaryIndex'');
       Some (Summary_Part i n)
     })"

definition read_file_patch :: "members \<Rightarrow> ui_event option" where
  "read_file_patch ps =
     guarded (keys_only ps [''type'', ''itemId'', ''changes'']) (do {
       i \<leftarrow> as_identifier (own ps ''itemId'');
       cs \<leftarrow> as_list_of read_file_change (own ps ''changes'');
       Some (File_Patch i cs)
     })"

definition read_turn_plan :: "members \<Rightarrow> ui_event option" where
  "read_turn_plan ps =
     guarded (keys_exact ps [''type'', ''steps''] [''explanation'']) (do {
       e \<leftarrow> as_optional as_text (own ps ''explanation'');
       ss \<leftarrow> as_list_of read_step (own ps ''steps'');
       Some (Turn_Plan e ss)
     })"

definition read_token_usage :: "members \<Rightarrow> ui_event option" where
  "read_token_usage ps =
     guarded (keys_exact ps [''type'', ''totalTokens'', ''inputTokens'', ''outputTokens''] []) (do {
       t \<leftarrow> as_nonnegative (own ps ''totalTokens'');
       i \<leftarrow> as_nonnegative (own ps ''inputTokens'');
       u \<leftarrow> as_nonnegative (own ps ''outputTokens'');
       Some (Token_Usage t i u)
     })"

definition read_ui_event :: "members \<Rightarrow> ui_event option" where
  "read_ui_event ps =
     do {
       t \<leftarrow> as_text (own ps ''type'');
       (if t = js ''turn-started'' then guarded (keys_exact ps [''type''] []) (Some Turn_Started)
        else if t = js ''turn-terminal'' then read_terminal ps
        else if t = js ''item-started'' then read_item_event Item_Started ps
        else if t = js ''item-completed'' then read_item_event Item_Completed ps
        else if t = js ''agent-delta'' then read_delta Agent_Delta ps
        else if t = js ''plan-delta'' then read_delta Plan_Delta ps
        else if t = js ''command-output'' then read_delta Command_Output ps
        else if t = js ''file-output'' then read_delta File_Output ps
        else if t = js ''reasoning-summary-delta'' then read_indexed_delta ''summaryIndex'' Summary_Delta ps
        else if t = js ''reasoning-delta'' then read_indexed_delta ''contentIndex'' Reasoning_Delta ps
        else if t = js ''reasoning-summary-part'' then read_summary_part ps
        else if t = js ''file-patch'' then read_file_patch ps
        else if t = js ''turn-plan'' then read_turn_plan ps
        else if t = js ''turn-diff'' then
          guarded (keys_exact ps [''type'', ''diff''] []) (map_option Turn_Diff (as_text (own ps ''diff'')))
        else if t = js ''token-usage'' then read_token_usage ps
        else if t = js ''warning'' then map_option Warning_Event (read_warning ps)
        else if t = js ''error'' then map_option Error_Event (read_report ps)
        else None)
     }"

definition read_batch :: "members \<Rightarrow> event_batch option" where
  "read_batch ps =
     guarded (keys_exact ps [''generation'', ''turnSequence'', ''threadId'', ''turnId'', ''events''] []) (do {
       g \<leftarrow> as_nonnegative (own ps ''generation'');
       q \<leftarrow> as_nonnegative (own ps ''turnSequence'');
       t \<leftarrow> as_identifier (own ps ''threadId'');
       u \<leftarrow> as_identifier (own ps ''turnId'');
       vs \<leftarrow> as_array (own ps ''events'');
       guarded (0 < q \<and> vs \<noteq> [] \<and> length vs \<le> 8192) (do {
         es \<leftarrow> as_list_of read_ui_event (own ps ''events'');
         Some \<lparr>batch_generation = g, batch_sequence = q, batch_thread = t, batch_turn = u, batch_events = es\<rparr>
       })
     })"

definition parse_safe_batch :: "jsstr \<Rightarrow> int \<Rightarrow> event_batch option" where
  "parse_safe_batch wire max_wire_bytes =
     (if utf8_byte_length wire > max_wire_bytes then None
      else
        do {
          parsed \<leftarrow> json_parse wire;
          guarded (validate_graph max_wire_bytes 0 parsed (0, 0) \<noteq> None \<and> json_stringify parsed = wire)
            (as_record_with read_batch (Some parsed))
        })"

section \<open>What an accepted batch satisfies\<close>

definition id_fits :: "jsstr \<Rightarrow> bool" where
  "id_fits s \<longleftrightarrow> utf8_byte_length s \<le> max_identifier_bytes"

definition nonnegative_ok :: "int \<Rightarrow> bool" where
  "nonnegative_ok i \<longleftrightarrow> 0 \<le> i \<and> i \<le> max_safe_integer"

definition index_ok :: "nat \<Rightarrow> bool" where
  "index_ok n \<longleftrightarrow> int n \<le> max_reasoning_index"

definition change_ok :: "file_change \<Rightarrow> bool" where
  "change_ok c \<longleftrightarrow>
     is_display_path (change_path c) \<and> utf8_byte_length (change_diff c) \<le> max_file_patch_diff_bytes \<and>
     (case change_kind c of Update_File (Move p) \<Rightarrow> is_display_path p | _ \<Rightarrow> True)"

fun event_ok :: "ui_event \<Rightarrow> bool" where
  "event_ok (Item_Started i _) = id_fits i"
| "event_ok (Item_Completed i _) = id_fits i"
| "event_ok (Agent_Delta i _) = id_fits i"
| "event_ok (Plan_Delta i _) = id_fits i"
| "event_ok (Command_Output i _) = id_fits i"
| "event_ok (File_Output i _) = id_fits i"
| "event_ok (Summary_Delta i n _) = (id_fits i \<and> index_ok n)"
| "event_ok (Summary_Part i n) = (id_fits i \<and> index_ok n)"
| "event_ok (Reasoning_Delta i n _) = (id_fits i \<and> index_ok n)"
| "event_ok (File_Patch i cs) = (id_fits i \<and> list_all change_ok cs)"
| "event_ok (Token_Usage t i u) = (nonnegative_ok t \<and> nonnegative_ok i \<and> nonnegative_ok u)"
| "event_ok (Warning_Event w) =
     (pred_option nonnegative_ok (dropped_events w) \<and> pred_option nonnegative_ok (dropped_bytes w))"
| "event_ok _ = True"

definition batch_ok :: "event_batch \<Rightarrow> bool" where
  "batch_ok b \<longleftrightarrow>
     nonnegative_ok (batch_generation b) \<and> nonnegative_ok (batch_sequence b) \<and> 0 < batch_sequence b \<and>
     id_fits (batch_thread b) \<and> id_fits (batch_turn b) \<and> batch_events b \<noteq> [] \<and>
     length (batch_events b) \<le> 8192 \<and> list_all event_ok (batch_events b)"

lemma guarded_Some [simp]: "guarded b x = Some y \<longleftrightarrow> b \<and> x = Some y"
  by (simp add: guarded_def)

lemma as_text_Some [simp]: "as_text v = Some s \<longleftrightarrow> v = Some (JStr s)"
  by (auto simp: as_text_def split: option.splits json.splits)

lemma as_identifier_Some [simp]: "as_identifier v = Some s \<longleftrightarrow> v = Some (JStr s) \<and> id_fits s"
  by (auto simp: as_identifier_def id_fits_def bind_eq_Some_conv)

lemma as_safe_int_Some [simp]: "as_safe_int v = Some i \<longleftrightarrow> v = Some (int_json i) \<and> safe_int i"
  by (auto simp: as_safe_int_def split: option.splits json.splits jsnum.splits)

lemma as_nonnegative_Some [simp]: "as_nonnegative v = Some i \<longleftrightarrow> v = Some (int_json i) \<and> nonnegative_ok i"
  by (auto simp: as_nonnegative_def nonnegative_ok_def safe_int_def max_safe_integer_def bind_eq_Some_conv)

lemma as_reasoning_index_Some [simp]:
  "as_reasoning_index v = Some n \<longleftrightarrow> v = Some (int_json (int n)) \<and> index_ok n"
  by (auto simp: as_reasoning_index_def index_ok_def nonnegative_ok_def max_reasoning_index_def
      max_safe_integer_def bind_eq_Some_conv)

lemma as_bool_Some [simp]: "as_bool v = Some b \<longleftrightarrow> v = Some (JBool b)"
  by (auto simp: as_bool_def split: option.splits json.splits)

lemma as_array_Some [simp]: "as_array v = Some vs \<longleftrightarrow> v = Some (JArr vs)"
  by (auto simp: as_array_def split: option.splits json.splits)

lemma as_display_path_Some [simp]: "as_display_path v = Some s \<longleftrightarrow> v = Some (JStr s) \<and> is_display_path s"
  by (auto simp: as_display_path_def bind_eq_Some_conv)

lemma as_plain_record_Some [simp]: "as_plain_record v = Some ps \<longleftrightarrow> v = JObj ps"
  by (cases v) (auto simp: as_plain_record_def)

lemma as_record_with_Some [simp]: "as_record_with f v = Some x \<longleftrightarrow> (\<exists>ps. v = Some (JObj ps) \<and> f ps = Some x)"
  by (auto simp: as_record_with_def bind_eq_Some_conv)

lemma those_Some: "those xs = Some ys \<longleftrightarrow> xs = map Some ys"
  by (induction xs arbitrary: ys) (auto split: option.splits)

lemma map_eq_map_Some: "map f vs = map Some xs \<longleftrightarrow> list_all2 (\<lambda>v x. f v = Some x) vs xs"
  by (induction vs arbitrary: xs) (auto simp: Cons_eq_map_conv list_all2_Cons1)

lemma as_list_of_Some:
  "as_list_of f v = Some xs \<longleftrightarrow>
     (\<exists>vs. v = Some (JArr vs) \<and> list_all2 (\<lambda>j x. \<exists>ps. j = JObj ps \<and> f ps = Some x) vs xs)"
  by (auto simp: as_list_of_def bind_eq_Some_conv those_Some map_eq_map_Some)

lemma find_name: "distinct (map name xs) \<Longrightarrow>
    List.find (\<lambda>x. js (name x) = s) xs = Some x \<longleftrightarrow> x \<in> set xs \<and> s = js (name x)"
  by (induction xs) (auto simp: image_iff)

lemma as_name_Some:
  "distinct (map name xs) \<Longrightarrow>
     as_name name xs v = Some x \<longleftrightarrow> x \<in> set xs \<and> v = Some (text_json (name x))"
  by (auto simp: as_name_def bind_eq_Some_conv find_name)

lemma as_terminal_Some [simp]:
  "as_name terminal_name terminal_statuses v = Some x \<longleftrightarrow> v = Some (text_json (terminal_name x))"
  by (subst as_name_Some) (cases x; simp add: terminal_statuses_def)+

lemma as_kind_Some [simp]:
  "as_name kind_name item_kinds v = Some x \<longleftrightarrow> v = Some (text_json (kind_name x))"
  by (subst as_name_Some) (cases x; simp add: item_kinds_def)+

lemma as_step_Some [simp]:
  "as_name step_name step_statuses v = Some x \<longleftrightarrow> v = Some (text_json (step_name x))"
  by (subst as_name_Some) (cases x; simp add: step_statuses_def)+

lemma as_warning_Some [simp]:
  "as_name warning_name warning_codes v = Some x \<longleftrightarrow> v = Some (text_json (warning_name x))"
  by (subst as_name_Some) (cases x; simp add: warning_codes_def)+

lemma as_code_Some [simp]:
  "as_name code_name safe_codes v = Some x \<longleftrightarrow> v = Some (text_json (code_name x))"
  by (subst as_name_Some) (cases x; simp add: safe_codes_def)+

lemma as_optional_Some:
  "as_optional f v = Some x \<longleftrightarrow> (v = None \<and> x = None \<or> (\<exists>y. v \<noteq> None \<and> f v = Some y \<and> x = Some y))"
  by (auto simp: as_optional_def split: option.splits)

lemmas read_defs =
  read_terminal_def read_item_event_def read_delta_def read_indexed_delta_def read_summary_part_def
  read_file_patch_def read_turn_plan_def read_token_usage_def read_warning_def read_report_def
  read_safe_error_def read_step_def read_file_change_def read_change_kind_def

lemma read_file_change_ok: "read_file_change ps = Some c \<Longrightarrow> change_ok c"
  by (auto simp: read_file_change_def read_change_kind_def as_move_path_def change_ok_def bind_eq_Some_conv
      split: if_splits option.splits json.splits)

lemma read_list_ok:
  "list_all2 (\<lambda>j x. \<exists>ps. j = JObj ps \<and> f ps = Some x) vs xs \<Longrightarrow> (\<And>ps x. f ps = Some x \<Longrightarrow> P x) \<Longrightarrow> list_all P xs"
  by (induction rule: list_all2_induct) auto

lemma read_warning_ok: "read_warning ps = Some w \<Longrightarrow> event_ok (Warning_Event w)"
  by (auto simp: read_warning_def as_optional_Some bind_eq_Some_conv)

lemma read_small_ok:
  "read_terminal ps = Some e \<Longrightarrow> event_ok e"
  "read_summary_part ps = Some e \<Longrightarrow> event_ok e"
  "read_turn_plan ps = Some e \<Longrightarrow> event_ok e"
  "read_token_usage ps = Some e \<Longrightarrow> event_ok e"
  "read_file_patch ps = Some e \<Longrightarrow> event_ok e"
  "read_item_event Item_Started ps = Some e \<Longrightarrow> event_ok e"
  "read_item_event Item_Completed ps = Some e \<Longrightarrow> event_ok e"
  "read_delta Agent_Delta ps = Some e \<Longrightarrow> event_ok e"
  "read_delta Plan_Delta ps = Some e \<Longrightarrow> event_ok e"
  "read_delta Command_Output ps = Some e \<Longrightarrow> event_ok e"
  "read_delta File_Output ps = Some e \<Longrightarrow> event_ok e"
  "read_indexed_delta index Summary_Delta ps = Some e \<Longrightarrow> event_ok e"
  "read_indexed_delta index Reasoning_Delta ps = Some e \<Longrightarrow> event_ok e"
  by (auto simp: read_terminal_def read_item_event_def read_delta_def read_indexed_delta_def
      read_summary_part_def read_file_patch_def read_turn_plan_def read_token_usage_def
      as_list_of_Some bind_eq_Some_conv intro: read_list_ok [OF _ read_file_change_ok])

lemma read_ui_event_ok: "read_ui_event ps = Some e \<Longrightarrow> event_ok e"
  unfolding read_ui_event_def
  by (auto simp: bind_eq_Some_conv intro: read_small_ok read_warning_ok split: if_split_asm
      simp del: event_ok.simps(12))

lemma read_batch_ok: "read_batch ps = Some b \<Longrightarrow> batch_ok b"
  by (auto simp: read_batch_def batch_ok_def as_list_of_Some bind_eq_Some_conv
      intro: read_list_ok read_ui_event_ok dest: list_all2_lengthD)

lemma parse_safe_batch_ok: "parse_safe_batch wire n = Some b \<Longrightarrow> batch_ok b \<and> utf8_byte_length wire \<le> n"
  by (auto simp: parse_safe_batch_def bind_eq_Some_conv intro: read_batch_ok split: if_splits)

section \<open>Reading inverts printing\<close>

lemma keys_only_obj [simp]:
  "keys_only (map (\<lambda>(k, v). (js k, v)) ps) allowed \<longleftrightarrow> list_all (\<lambda>p. fst p \<in> set allowed) ps"
  by (auto simp: keys_only_def list_all_iff)

lemma own_obj [simp]: "own (map (\<lambda>(k, v). (js k, v)) ps) k = map_of ps k"
  by (induction ps) (auto simp: own_def)

definition printed :: "(string \<times> json) list \<Rightarrow> members" where
  "printed ps = map (\<lambda>(k, v). (js k, v)) ps"

lemma obj_printed: "obj ps = JObj (printed ps)"
  by (simp add: obj_def printed_def)

lemma printed_simps [simp]:
  "own (printed ps) k = map_of ps k" "has_own (printed ps) k \<longleftrightarrow> map_of ps k \<noteq> None"
  "keys_only (printed ps) allowed \<longleftrightarrow> list_all (\<lambda>p. fst p \<in> set allowed) ps"
  by (simp_all add: printed_def has_own_def)

lemma read_change_json:
  "change_ok c \<Longrightarrow> \<exists>ps. change_json c = JObj ps \<and> read_file_change ps = Some c"
  by (cases c)
    (auto simp: change_json_def obj_printed read_file_change_def read_change_kind_def change_ok_def
      change_name_def move_fields_def as_move_path_def bind_eq_Some_conv
      split: change_kind.splits move_path.splits)

lemma read_step_json: "\<exists>ps. step_json s = JObj ps \<and> read_step ps = Some s"
  by (auto simp: step_json_def obj_printed read_step_def keys_exact_def bind_eq_Some_conv)

lemma read_all_json:
  "(\<And>x. x \<in> set xs \<Longrightarrow> \<exists>ps. g x = JObj ps \<and> f ps = Some x) \<Longrightarrow>
     list_all2 (\<lambda>j x. \<exists>ps. j = JObj ps \<and> f ps = Some x) (map g xs) xs"
  by (simp add: list_all2_map1 list.rel_refl_strong)

lemma map_of_optional [simp]:
  "map_of (optional_field k f v @ ps) k' = (if k' = k \<and> v \<noteq> None then map_option f v else map_of ps k')"
  "map_of (optional_field k f v) k' = (if k' = k then map_option f v else None)"
  "list_all (\<lambda>p. fst p \<in> A) (optional_field k f v) \<longleftrightarrow> (v = None \<or> k \<in> A)"
  by (auto simp: optional_field_def split: option.split)

lemma read_event_json:
  "event_ok e \<Longrightarrow> \<exists>ps. event_json e = JObj ps \<and> read_ui_event ps = Some e"
proof (cases e)
  case (File_Patch i cs)
  moreover assume "event_ok e"
  ultimately show ?thesis
    by (auto simp: obj_printed read_ui_event_def read_file_patch_def as_list_of_Some bind_eq_Some_conv
        list_all_iff intro!: read_all_json read_change_json)
next
  case (Turn_Plan ex ss)
  then show ?thesis
    by (cases ex) (auto simp: obj_printed read_ui_event_def read_turn_plan_def as_list_of_Some bind_eq_Some_conv
        keys_exact_def as_optional_Some optional_field_def intro!: read_all_json read_step_json)
next
  case (Turn_Terminal st x)
  then show ?thesis
    by (cases x) (auto simp: obj_printed read_ui_event_def read_terminal_def bind_eq_Some_conv
        keys_exact_def as_optional_Some optional_field_def safe_error_json_def read_safe_error_def)
next
  case (Warning_Event w)
  moreover assume "event_ok e"
  ultimately show ?thesis
    by (cases w; cases "dropped_events w"; cases "dropped_bytes w")
      (auto simp: obj_printed read_ui_event_def warning_json_def read_warning_def bind_eq_Some_conv
        keys_exact_def as_optional_Some optional_field_def)
qed (auto simp: obj_printed read_ui_event_def delta_json_def report_json_def read_defs keys_exact_def
      bind_eq_Some_conv)

lemma read_batch_json: "batch_ok b \<Longrightarrow> \<exists>ps. batch_json b = JObj ps \<and> read_batch ps = Some b"
  by (cases b)
    (auto simp: batch_json_def batch_ok_def obj_printed read_batch_def keys_exact_def as_list_of_Some
      bind_eq_Some_conv list_all_iff intro!: read_all_json read_event_json)

lemma canonical_printed:
  "json_canonical (JObj (printed ps)) \<longleftrightarrow> list_all (\<lambda>p. json_canonical (snd p)) ps"
  if "distinct (map fst ps)" "list_all (\<lambda>p. array_index (js (fst p)) = None) ps"
proof -
  have fst: "map fst (printed ps) = map (\<lambda>p. js (fst p)) ps" by (auto simp: printed_def)
  have "distinct (map (\<lambda>p. js (fst p)) ps)"
    using that(1) by (induction ps) force+
  with fst have "build_object (printed ps) = printed ps"
    using that(2) by (intro build_object_plain) (simp_all add: printed_def list_all_iff split_def comp_def)
  then show ?thesis by (auto simp: printed_def list_all_iff)
qed

lemma canonical_int [simp]: "nonnegative_ok i \<Longrightarrow> is_safe_integer (NInt i)"
  by (simp add: nonnegative_ok_def is_safe_integer_def safe_int_def max_safe_integer_def)

lemma index_nonnegative: "index_ok n \<Longrightarrow> nonnegative_ok (int n)"
  by (simp add: index_ok_def nonnegative_ok_def max_reasoning_index_def max_safe_integer_def)

lemma canonical_change: "json_canonical (change_json c)"
  by (auto simp: change_json_def obj_printed canonical_printed move_fields_def array_index_js
      simp del: json_canonical.simps(3) split: change_kind.split move_path.split)

lemma canonical_step: "json_canonical (step_json s)"
  by (simp add: step_json_def obj_printed canonical_printed del: json_canonical.simps(3))

lemma canonical_event: "event_ok e \<Longrightarrow> json_canonical (event_json e)"
  by (cases e)
    (auto simp: obj_printed canonical_printed delta_json_def report_json_def warning_json_def
      safe_error_json_def optional_field_def canonical_change canonical_step list_all_iff index_nonnegative
      simp del: json_canonical.simps(3) split: option.split dest: sym [of "Some _"])

lemma canonical_batch: "batch_ok b \<Longrightarrow> json_canonical (batch_json b)"
  by (simp add: batch_json_def batch_ok_def obj_printed canonical_printed canonical_event list_all_iff
      del: json_canonical.simps(3))

lemma sample_batch_ok: "batch_ok sample_batch"
  by (simp add: batch_ok_def sample_batch_def nonnegative_ok_def max_safe_integer_def id_fits_def
      max_identifier_bytes_def utf8_byte_length_ascii ascii_def)

lemma sample_batch_graph: "validate_graph 200 0 (batch_json sample_batch) (0, 0) \<noteq> None"
  by (simp add: batch_json_def sample_batch_def obj_def js_def utf8_byte_length_ascii ascii_def
      max_wire_depth_def max_wire_nodes_def max_wire_array_items_def max_wire_object_keys_def
      is_finite_number_def)

lemma sample_batch_parses: "parse_safe_batch (json_stringify (batch_json sample_batch)) 200 = Some sample_batch"
  using sample_batch_graph sample_batch_text
    json_roundtrip [OF canonical_batch [OF sample_batch_ok]] read_batch_json [OF sample_batch_ok]
  by (auto simp: parse_safe_batch_def guarded_def as_record_with_def as_plain_record_def)

section \<open>Properties\<close>

text \<open>C39. Whatever text arrives on the event wire, a batch that is accepted is well-formed:
  bounded identifiers, safe non-negative counters, bounded indexes and paths, at least one and at
  most 8192 events; and the text was within the byte limit.\<close>

theorem event_wire_sound:
  assumes "parse_safe_batch wire max_wire_bytes = Some b"
  shows "batch_ok b \<and> utf8_byte_length wire \<le> max_wire_bytes"
  using assms by (rule parse_safe_batch_ok)

theorem event_wire_sound_witness:
  "batch_ok sample_batch \<and> utf8_byte_length (json_stringify (batch_json sample_batch)) \<le> 200"
  by (rule event_wire_sound [OF sample_batch_parses])

text \<open>C23. The event wire is lossless: a well-formed batch that the serializer turned into a text
  within the byte limit, and whose value is within the graph budget, is read back as the same
  batch.\<close>

theorem event_wire_roundtrip:
  assumes "batch_ok b" and "serialize_event_batch b max_bytes = Some wire"
    and "validate_graph max_bytes 0 (batch_json b) (0, 0) \<noteq> None"
  shows "parse_safe_batch wire max_bytes = Some b"
proof -
  from assms(2) have wire: "wire = json_stringify (batch_json b)" "utf8_byte_length wire \<le> max_bytes"
    by (auto simp: serialize_event_batch_def Let_def split: if_splits)
  obtain ps where ps: "batch_json b = JObj ps" "read_batch ps = Some b"
    using read_batch_json [OF assms(1)] by blast
  have "json_parse wire = Some (batch_json b)"
    unfolding wire(1) by (rule json_roundtrip [OF canonical_batch [OF assms(1)]])
  with wire assms(3) ps(2) show ?thesis
    by (simp add: parse_safe_batch_def guarded_def) (auto simp: ps(1) as_record_with_def as_plain_record_def)
qed

theorem event_wire_roundtrip_witness:
  "parse_safe_batch (json_stringify (batch_json sample_batch)) 200 = Some sample_batch"
proof (rule event_wire_roundtrip [OF sample_batch_ok])
  show "serialize_event_batch sample_batch 200 = Some (json_stringify (batch_json sample_batch))"
    by (simp add: serialize_event_batch_def sample_batch_text safe_int_def max_safe_integer_def)
qed (rule sample_batch_graph)

end
