(* ===== verification/Reducer.thy ===== *)
theory Reducer
  imports TurnFacts EventWire
begin

text \<open>
  The event reducer as a whole (class \<open>RideCodexEventReducer\<close> of
  \<open>src/browser/ride-codex-event-reducer.ts\<close>): options, admission of incoming batches to the
  queue, the frame that applies the queue to the turn state and publishes a snapshot, listeners
  and disposal. The frame scheduler is outside: the model emits \<open>Schedule_Frame\<close> and
  \<open>Cancel_Frame\<close>, and the scheduler's callback is the event \<open>Frame\<close>. A listener that calls back
  into the reducer while it is notified is an event after the frame.
\<close>

section \<open>Options\<close>

definition default_max_queued_bytes :: int where "default_max_queued_bytes = 256 * 1024"
definition default_max_wire_bytes :: int where "default_max_wire_bytes = 4 * 1024 * 1024"
definition default_max_batch_events :: int where "default_max_batch_events = 4096"
definition default_max_item_bytes :: int where "default_max_item_bytes = 64 * 1024"
definition default_max_retained_items :: int where "default_max_retained_items = 256"
definition default_max_retained_bytes :: int where "default_max_retained_bytes = 2 * 1024 * 1024"
definition default_max_diagnostic_history :: int where "default_max_diagnostic_history = 64"
definition max_diagnostic_history_limit :: int where "max_diagnostic_history_limit = 256"

record reducer_options =
  opt_wire :: "jsnum option"
  opt_queued :: "jsnum option"
  opt_batch :: "jsnum option"
  opt_item :: "jsnum option"
  opt_items :: "jsnum option"
  opt_retained :: "jsnum option"
  opt_history :: "jsnum option"

datatype range_error = Batch_Range | Queue_Range

definition positive_limit :: "jsnum option \<Rightarrow> int \<Rightarrow> int" where
  "positive_limit v fallback =
     (case v of Some (NInt n) \<Rightarrow> if safe_int n \<and> 0 < n then n else fallback | _ \<Rightarrow> fallback)"

definition require_batch_limit :: "jsnum option \<Rightarrow> int \<Rightarrow> range_error + int" where
  "require_batch_limit v fallback =
     (case v of
        None \<Rightarrow> Inr fallback
      | Some (NInt n) \<Rightarrow> if \<not> safe_int n \<or> n < 2 then Inl Batch_Range else Inr n
      | Some _ \<Rightarrow> Inl Batch_Range)"

definition require_queue_limit :: "jsnum option \<Rightarrow> int \<Rightarrow> range_error + int" where
  "require_queue_limit v fallback =
     (case v of
        None \<Rightarrow> Inr fallback
      | Some (NInt n) \<Rightarrow> if \<not> safe_int n \<or> n < min_queued_bytes then Inl Queue_Range else Inr n
      | Some _ \<Rightarrow> Inl Queue_Range)"

section \<open>Snapshots\<close>

record truncation =
  truncated_bytes :: int
  truncated_changes :: int
  truncated_paths :: int

record rendered_item =
  rendered_id :: jsstr
  rendered_kind :: item_kind
  rendered_completed :: bool
  rendered_text :: jsstr
  rendered_summaries :: "jsstr list"
  rendered_reasoning :: "jsstr list"
  rendered_changes :: "file_change list"
  rendered_truncation :: "truncation option"

record snapshot =
  snap_generation :: int
  snap_thread :: "jsstr option"
  snap_turn :: "jsstr option"
  snap_status :: turn_status
  snap_items :: "rendered_item list"
  snap_plan :: "plan option"
  snap_diff :: "jsstr option"
  snap_usage :: "usage option"
  snap_warnings :: "warning list"
  snap_errors :: "error_report list"
  snap_bytes :: int

definition empty_snapshot :: snapshot where
  "empty_snapshot =
     \<lparr>snap_generation = 0, snap_thread = None, snap_turn = None, snap_status = Idle, snap_items = [],
      snap_plan = None, snap_diff = None, snap_usage = None, snap_warnings = [], snap_errors = [], snap_bytes = 0\<rparr>"

definition render_item :: "item \<Rightarrow> rendered_item" where
  "render_item x =
     \<lparr>rendered_id = item_id x, rendered_kind = item_kind x, rendered_completed = item_completed x,
      rendered_text = item_text x, rendered_summaries = summaries x, rendered_reasoning = reasoning x,
      rendered_changes = changes x,
      rendered_truncation =
        (if omitted_bytes x = 0 \<and> omitted_changes x = 0 \<and> omitted_paths x = 0 then None
         else Some \<lparr>truncated_bytes = omitted_bytes x, truncated_changes = omitted_changes x,
                    truncated_paths = omitted_paths x\<rparr>)\<rparr>"

definition build_snapshot :: "turn \<Rightarrow> snapshot" where
  "build_snapshot t =
     \<lparr>snap_generation = generation t, snap_thread = thread_id t, snap_turn = turn_id t, snap_status = status t,
      snap_items = map (\<lambda>p. render_item (snd p)) (items t), snap_plan = plan t, snap_diff = diff t,
      snap_usage = usage t, snap_warnings = warnings t, snap_errors = errors t, snap_bytes = retained_bytes t\<rparr>"

section \<open>State\<close>

text \<open>A listener is identified by a number; a subscription is the closure \<open>onDidChange\<close> returns, with
  its own \<open>disposed\<close> flag.\<close>

record reducer =
  limits :: limits
  turn :: turn
  queue :: "event_batch list"
  frame :: bool
  snapshot :: snapshot
  listeners :: "nat list"
  subscriptions :: "(nat \<times> bool) list"
  disposed :: bool

datatype reducer_output = Schedule_Frame | Cancel_Frame | Changed nat snapshot

definition new_reducer :: "reducer_options \<Rightarrow> range_error + reducer" where
  "new_reducer opts =
     (case require_queue_limit (opt_queued opts) default_max_queued_bytes of
        Inl e \<Rightarrow> Inl e
      | Inr queued \<Rightarrow>
     (case require_batch_limit (opt_batch opts) default_max_batch_events of
        Inl e \<Rightarrow> Inl e
      | Inr batch \<Rightarrow>
          Inr \<lparr>limits =
             \<lparr>max_wire = positive_limit (opt_wire opts) default_max_wire_bytes, max_queued = queued,
              max_batch = nat batch, max_item = positive_limit (opt_item opts) default_max_item_bytes,
              max_items = nat (positive_limit (opt_items opts) default_max_retained_items),
              max_retained = positive_limit (opt_retained opts) default_max_retained_bytes,
              max_history = nat (min (positive_limit (opt_history opts) default_max_diagnostic_history)
                max_diagnostic_history_limit)\<rparr>,
           turn = empty_turn, queue = [], frame = False, snapshot = empty_snapshot, listeners = [],
           subscriptions = [], disposed = False\<rparr>))"

section \<open>Admission to the queue\<close>

record authority =
  auth_generation :: int
  auth_sequence :: int
  auth_thread :: jsstr
  auth_turn :: jsstr
  auth_terminal :: bool

definition state_authority :: "turn \<Rightarrow> authority option" where
  "state_authority t =
     (case (highest_sequence t, thread_id t, turn_id t) of
        (Some s, Some th, Some tu) \<Rightarrow>
          Some \<lparr>auth_generation = generation t, auth_sequence = s, auth_thread = th, auth_turn = tu,
                auth_terminal = is_terminal t\<rparr>
      | _ \<Rightarrow> None)"

definition batch_authority :: "event_batch \<Rightarrow> authority" where
  "batch_authority b =
     \<lparr>auth_generation = batch_generation b, auth_sequence = batch_sequence b, auth_thread = batch_thread b,
      auth_turn = batch_turn b, auth_terminal = list_ex is_turn_terminal (batch_events b)\<rparr>"

definition raise_authority :: "authority option \<Rightarrow> event_batch \<Rightarrow> authority option" where
  "raise_authority a b =
     (if \<not> has_turn_boundary (batch_events b) then a
      else
        case a of
          None \<Rightarrow> Some (batch_authority b)
        | Some x \<Rightarrow>
            if auth_generation x < batch_generation b
               \<or> (batch_generation b = auth_generation x \<and> auth_sequence x < batch_sequence b)
            then Some (batch_authority b)
            else if batch_generation b = auth_generation x \<and> batch_sequence b = auth_sequence x
                    \<and> batch_thread b = auth_thread x \<and> batch_turn b = auth_turn x
                    \<and> list_ex is_turn_terminal (batch_events b) \<and> \<not> auth_terminal x
            then Some (x\<lparr>auth_terminal := True\<rparr>)
            else Some x)"

definition highest_pending_authority :: "turn \<Rightarrow> event_batch list \<Rightarrow> authority option" where
  "highest_pending_authority t bs = foldl raise_authority (state_authority t) bs"

definition is_authorized_for_pending :: "turn \<Rightarrow> event_batch list \<Rightarrow> event_batch \<Rightarrow> bool" where
  "is_authorized_for_pending t bs incoming =
     (let boundary = has_turn_boundary (batch_events incoming) in
      case highest_pending_authority t bs of
        None \<Rightarrow> boundary
      | Some a \<Rightarrow>
          if batch_generation incoming \<noteq> auth_generation a
          then auth_generation a < batch_generation incoming \<and> boundary
          else if batch_sequence incoming \<noteq> auth_sequence a
          then auth_sequence a < batch_sequence incoming \<and> boundary
          else if batch_thread incoming \<noteq> auth_thread a \<or> batch_turn incoming \<noteq> auth_turn a then False
          else \<not> auth_terminal a \<or> is_diagnostic_only (batch_events incoming))"

section \<open>Operations\<close>

definition notify_many :: "reducer \<Rightarrow> jsstr \<Rightarrow> reducer \<times> reducer_output list" where
  "notify_many r wire =
     (if disposed r then (r, [])
      else
        case parse_safe_batch wire (max_wire (limits r)) of
          None \<Rightarrow> (r, [])
        | Some b \<Rightarrow>
            if \<not> is_authorized_for_pending (turn r) (queue r) b then (r, [])
            else
              let q = rebuild_pending_identity (max_batch (limits r)) (max_queued (limits r)) (queue r) b in
              if q \<noteq> [] \<and> \<not> frame r then (r\<lparr>queue := q, frame := True\<rparr>, [Schedule_Frame])
              else (r\<lparr>queue := q\<rparr>, []))"

definition flush_frame :: "reducer \<Rightarrow> reducer \<times> reducer_output list" where
  "flush_frame r =
     (if disposed r \<or> queue r = [] then (r\<lparr>frame := False\<rparr>, [])
      else
        let s = apply_batches (limits r) (queue r) (turn r) in
        if \<not> fst s then (r\<lparr>frame := False, queue := [], turn := snd s\<rparr>, [])
        else
          let t = trim_retained (limits r) (snd s) in
          (r\<lparr>frame := False, queue := [], turn := t, snapshot := build_snapshot t\<rparr>,
           map (\<lambda>i. Changed i (build_snapshot t)) (listeners r)))"

definition on_did_change :: "reducer \<Rightarrow> nat \<Rightarrow> reducer" where
  "on_did_change r i =
     (if disposed r then r
      else r\<lparr>listeners := (if i \<in> set (listeners r) then listeners r else listeners r @ [i]),
             subscriptions := subscriptions r @ [(i, False)]\<rparr>)"

definition dispose_subscription :: "reducer \<Rightarrow> nat \<Rightarrow> reducer" where
  "dispose_subscription r k =
     (if k < length (subscriptions r) \<and> \<not> snd (subscriptions r ! k)
      then r\<lparr>subscriptions := (subscriptions r)[k := (fst (subscriptions r ! k), True)],
             listeners := removeAll (fst (subscriptions r ! k)) (listeners r)\<rparr>
      else r)"

definition dispose_turn :: "turn \<Rightarrow> turn" where
  "dispose_turn t =
     t\<lparr>recovery_retained := False, items := [], truncated_items := [], finalized := [], highest_sequence := None\<rparr>"

definition dispose_reducer :: "reducer \<Rightarrow> reducer \<times> reducer_output list" where
  "dispose_reducer r =
     (if disposed r then (r, [])
      else
        (r\<lparr>disposed := True, frame := False, queue := [], turn := dispose_turn (turn r), listeners := [],
           snapshot := empty_snapshot\<rparr>,
         if frame r then [Cancel_Frame] else []))"

datatype reducer_event =
  Notify_Many jsstr | Frame | On_Did_Change nat | Dispose_Subscription nat | Dispose

fun reducer_step :: "reducer \<Rightarrow> reducer_event \<Rightarrow> reducer \<times> reducer_output list" where
  "reducer_step r (Notify_Many wire) = notify_many r wire"
| "reducer_step r Frame = flush_frame r"
| "reducer_step r (On_Did_Change i) = (on_did_change r i, [])"
| "reducer_step r (Dispose_Subscription k) = (dispose_subscription r k, [])"
| "reducer_step r Dispose = dispose_reducer r"

end
