(* ===== verification/ReducerSafety.thy ===== *)
theory ReducerSafety
  imports Reducer
begin

text \<open>
  What holds in every run of the event reducer: the bounds of its queue, its turn state and its
  published snapshots, that queued work always has a frame coming, that turns only move
  forwards, and that disposal is final.
\<close>

section \<open>The invariant\<close>

definition options_ok :: "limits \<Rightarrow> bool" where
  "options_ok l \<longleftrightarrow> limits_ok l \<and> 2 \<le> max_batch l \<and> 0 \<le> max_queued l"

definition reducer_inv :: "reducer \<Rightarrow> bool" where
  "reducer_inv r \<longleftrightarrow>
     options_ok (limits r) \<and> turn_ok (limits r) (turn r) \<and>
     queue_ok (max_batch (limits r)) (max_queued (limits r)) (queue r) \<and>
     snap_bytes (snapshot r) \<le> max_retained (limits r) \<and>
     length (snap_items (snapshot r)) \<le> max_items (limits r) \<and>
     length (snap_warnings (snapshot r)) + length (snap_errors (snapshot r)) \<le> max_history (limits r) \<and>
     (queue r \<noteq> [] \<longrightarrow> frame r) \<and> distinct (listeners r) \<and>
     (disposed r \<longrightarrow> queue r = [] \<and> \<not> frame r \<and> listeners r = [] \<and> snapshot r = empty_snapshot)"

lemma queue_ok_Nil: "options_ok l \<Longrightarrow> queue_ok (max_batch l) (max_queued l) []"
  by (simp add: queue_ok_def pending_batches_bytes_def options_ok_def)

lemma turn_ok_dispose: "turn_ok l t \<Longrightarrow> turn_ok l (dispose_turn t)"
  by (simp add: turn_ok_def dispose_turn_def items_ok_def map_ok_def map_keys_def diagnostics_ok_def
      counter_exact_def plan_ok_def finalized_ok_def)

lemma inv_notify: "reducer_inv r \<Longrightarrow> reducer_inv (fst (notify_many r wire))"
  using rebuild_queue_ok [of "max_batch (limits r)" "max_queued (limits r)" "queue r"]
  by (auto simp: notify_many_def reducer_inv_def Let_def split: option.split)

lemma inv_flush:
  assumes "reducer_inv r"
  shows "reducer_inv (fst (flush_frame r))"
proof (cases "disposed r \<or> queue r = []")
  case True
  with assms show ?thesis by (auto simp: flush_frame_def reducer_inv_def)
next
  case False
  let ?l = "limits r"
  let ?t = "snd (apply_batches ?l (queue r) (turn r))"
  have l: "limits_ok ?l" "options_ok ?l" "turn_ok ?l (turn r)"
    using assms by (simp_all add: reducer_inv_def options_ok_def)
  have t: "turn_ok ?l ?t" using l by (simp add: turn_ok_apply_batches)
  note trimmed = trim_retained_ok [OF t l(1)]
  from False assms t trimmed queue_ok_Nil [OF l(2)] show ?thesis
    by (simp add: flush_frame_def Let_def reducer_inv_def)
      (simp add: build_snapshot_def fits_def turn_ok_def items_ok_def diagnostics_ok_def)
qed

lemma inv_subscriptions:
  "reducer_inv r \<Longrightarrow> reducer_inv (on_did_change r i)" "reducer_inv r \<Longrightarrow> reducer_inv (dispose_subscription r k)"
  by (auto simp: on_did_change_def dispose_subscription_def reducer_inv_def distinct_removeAll)

lemma inv_dispose: "reducer_inv r \<Longrightarrow> reducer_inv (fst (dispose_reducer r))"
  using queue_ok_Nil [of "limits r"] turn_ok_dispose [of "limits r" "turn r"]
  by (auto simp: dispose_reducer_def reducer_inv_def empty_snapshot_def options_ok_def limits_ok_def)

interpretation reducer: stateful reducer_step reducer_inv
proof
  show "reducer_inv r \<Longrightarrow> reducer_inv (fst (reducer_step r e))" for r e
    by (cases e) (simp_all add: inv_notify inv_flush inv_subscriptions inv_dispose)
qed

lemma positive_limit_pos: "0 < fallback \<Longrightarrow> 0 < positive_limit v fallback"
  by (auto simp: positive_limit_def split: option.split jsnum.split)

lemmas default_defs =
  default_max_queued_bytes_def default_max_wire_bytes_def default_max_batch_events_def
  default_max_item_bytes_def default_max_retained_items_def default_max_retained_bytes_def
  default_max_diagnostic_history_def max_diagnostic_history_limit_def

lemma min_queued_nonneg: "0 \<le> min_queued_bytes"
proof -
  have "max_boundary_batch_bytes \<in> range (\<lambda>t. utf8_byte_length (json_stringify (batch_json (boundary_identity [Turn_Started, t]))))"
    unfolding max_boundary_batch_bytes_def
    by (rule subsetD [OF _ Max_in]) (auto simp: terminal_boundaries_def)
  then obtain e where bytes: "max_boundary_batch_bytes =
      utf8_byte_length (json_stringify (batch_json (boundary_identity [Turn_Started, e])))" by blast
  have "0 \<le> max_boundary_batch_bytes" unfolding bytes by (rule utf8_byte_length_nonneg)
  then show ?thesis by (simp add: min_queued_bytes_def recovery_batch_bytes_def)
qed

lemma require_queue_limit_nonneg: "require_queue_limit v default_max_queued_bytes = Inr n \<Longrightarrow> 0 \<le> n"
  using min_queued_nonneg
  by (auto simp: require_queue_limit_def default_max_queued_bytes_def split: option.splits jsnum.splits if_splits)

lemma require_batch_limit_two: "require_batch_limit v default_max_batch_events = Inr n \<Longrightarrow> 2 \<le> n"
  by (auto simp: require_batch_limit_def default_max_batch_events_def split: option.splits jsnum.splits if_splits)

lemma fresh_reducer_inv:
  "limits_ok l \<Longrightarrow> options_ok l \<Longrightarrow>
     reducer_inv \<lparr>limits = l, turn = empty_turn, queue = [], frame = False, snapshot = empty_snapshot,
       listeners = [], subscriptions = [], disposed = False\<rparr>"
  using turn_ok_empty [of l] queue_ok_Nil [of l]
  by (simp add: reducer_inv_def empty_snapshot_def limits_ok_def)

lemma new_reducer_inv:
  assumes "new_reducer opts = Inr r"
  shows "reducer_inv r"
proof -
  obtain queued batch where limit: "require_queue_limit (opt_queued opts) default_max_queued_bytes = Inr queued"
    "require_batch_limit (opt_batch opts) default_max_batch_events = Inr batch"
    using assms by (auto simp: new_reducer_def split: sum.splits)
  have pos: "0 < positive_limit (opt_item opts) default_max_item_bytes"
    "0 < positive_limit (opt_items opts) default_max_retained_items"
    "0 < positive_limit (opt_retained opts) default_max_retained_bytes"
    "0 < positive_limit (opt_history opts) default_max_diagnostic_history"
    by (rule positive_limit_pos, simp add: default_defs)+
  note r = assms [unfolded new_reducer_def limit sum.case, THEN sum.inject(2) [THEN iffD1], symmetric]
  show ?thesis
    unfolding r
    using pos require_queue_limit_nonneg [OF limit(1)] require_batch_limit_two [OF limit(2)]
    by (intro fresh_reducer_inv) (simp_all add: limits_ok_def options_ok_def max_diagnostic_history_limit_def)
qed

section \<open>Progress\<close>

definition turn_progress :: "reducer \<Rightarrow> reducer \<Rightarrow> bool" where
  "turn_progress r s \<longleftrightarrow>
     (disposed r \<longrightarrow> disposed s) \<and> (disposed s \<or> position_of (turn r) \<le> position_of (turn s))"

lemma trim_position: "position_of (trim_retained l t) = position_of t"
proof -
  have frame: "position_of (shift_warning t) = position_of t" "position_of (shift_error t) = position_of t"
    "position_of (evict_oldest t) = position_of t" "position_of (shift_plan_step t) = position_of t" for t
    by (auto simp: position_of_def shift_warning_def shift_error_def evict_oldest_def shift_plan_step_def
        split: list.split)
  have room: "position_of (snd (make_room l t)) = position_of t" for t
    by (induction l t rule: make_room.induct) (subst make_room.simps, simp add: frame)
  have append: "position_of (append_retention_diagnostic l t) = position_of t" for t
    using room [of t] by (simp add: append_retention_diagnostic_def Let_def) (simp add: position_of_def)
  have stages: "position_of (snd (trim_stages l s)) = position_of (snd s)" for s
  proof -
    let ?s = "drop_steps l (drop_items l (drop_errors l (drop_warnings l s)))"
    have "position_of (snd ?s) = position_of (snd s)"
      by (intro drop_preserves [where P = "\<lambda>u. position_of u = position_of (snd s)"]) (simp_all add: frame)
    moreover have "position_of (snd (drop_plan_and_diff l (trim_diff l (trim_explanation l s)))) = position_of (snd s)" for s
      by (auto simp: drop_plan_and_diff_def trim_diff_def trim_explanation_def Let_def position_of_def split: option.split)
    ultimately show ?thesis by (simp add: trim_stages_def)
  qed
  have "position_of (trim_items_by_count l t) = position_of t"
    using items_only_trim [of t l] by (simp add: position_of_def items_only_def)
  moreover have "position_of (t\<lparr>retention_truncated := b\<rparr>) = position_of t" for t b by (simp add: position_of_def)
  ultimately show ?thesis using append stages by (simp add: trim_retained_def Let_def)
qed

lemma step_progress: "turn_progress r (fst (reducer_step r e))"
  by (cases e)
    (auto simp: turn_progress_def notify_many_def flush_frame_def on_did_change_def dispose_subscription_def
      dispose_reducer_def Let_def trim_position apply_batches_position split: option.split)

interpretation reducer: monotone_machine reducer_step turn_progress
proof
  show "turn_progress r (fst (reducer_step r e))" for r e by (rule step_progress)
qed (auto simp: turn_progress_def)

section \<open>The authority of the queue\<close>

definition authority_position :: "authority \<Rightarrow> position" where
  "authority_position a = Position (auth_generation a) (Some (auth_sequence a))"

lemma raise_authority_grows:
  assumes "raise_authority a b = a'"
  shows "\<forall>x. a = Some x \<longrightarrow> (\<exists>y. a' = Some y \<and> authority_position x \<le> authority_position y)"
    and "has_turn_boundary (batch_events b) \<Longrightarrow> \<exists>y. a' = Some y \<and> batch_position b \<le> authority_position y"
  using assms
  by (auto simp: raise_authority_def authority_position_def batch_position_def batch_authority_def
      split: option.splits if_splits)

lemma foldl_authority_grows:
  "a = Some x \<Longrightarrow> \<exists>y. foldl raise_authority a bs = Some y \<and> authority_position x \<le> authority_position y"
proof (induction bs arbitrary: a x)
  case (Cons b bs)
  then obtain y where y: "raise_authority a b = Some y" "authority_position x \<le> authority_position y"
    using raise_authority_grows(1) [of a b] by blast
  from Cons.IH [OF y(1)] y(2) show ?case by (auto intro: order_trans)
qed simp

lemma foldl_authority_covers:
  "b \<in> set bs \<Longrightarrow> has_turn_boundary (batch_events b) \<Longrightarrow>
     \<exists>y. foldl raise_authority a bs = Some y \<and> batch_position b \<le> authority_position y"
proof (induction bs arbitrary: a)
  case (Cons c bs)
  show ?case
  proof (cases "b = c")
    case True
    then obtain y where y: "raise_authority a c = Some y" "batch_position b \<le> authority_position y"
      using raise_authority_grows(2) [of a c] Cons.prems(2) by blast
    from foldl_authority_grows [OF y(1), of bs] y(2) show ?thesis by (auto intro: order_trans)
  next
    case False
    with Cons show ?thesis by simp
  qed
qed simp

lemma below_authority_refused:
  "highest_pending_authority t bs = Some a \<Longrightarrow> batch_position b < authority_position a \<Longrightarrow>
     \<not> is_authorized_for_pending t bs b"
  by (auto simp: is_authorized_for_pending_def authority_position_def batch_position_def Let_def)

section \<open>Properties\<close>

abbreviation reducer_run :: "reducer \<Rightarrow> reducer_event list \<Rightarrow> reducer" where
  "reducer_run r es \<equiv> fst (run_machine reducer_step r es)"

definition default_options :: reducer_options where
  "default_options = \<lparr>opt_wire = None, opt_queued = None, opt_batch = None, opt_item = None, opt_items = None,
     opt_retained = None, opt_history = None\<rparr>"

definition default_reducer :: reducer where
  "default_reducer =
     \<lparr>limits = \<lparr>max_wire = 4194304, max_queued = 262144, max_batch = 4096, max_item = 65536, max_items = 256,
        max_retained = 2097152, max_history = 64\<rparr>,
      turn = empty_turn, queue = [], frame = False, snapshot = empty_snapshot, listeners = [],
      subscriptions = [], disposed = False\<rparr>"

lemma default_reducer_new: "new_reducer default_options = Inr default_reducer"
  by (simp add: new_reducer_def default_options_def default_reducer_def require_queue_limit_def
      require_batch_limit_def positive_limit_def default_defs)

text \<open>C27. A reducer never holds or publishes more than its limits: whatever wires, frames, subscriptions
  and disposals happen, the queue stays within its byte budget and its batches within theirs,
  and the published snapshot within the retention, item and diagnostic limits.\<close>

theorem reducer_always_bounded:
  assumes "new_reducer opts = Inr r" and "s = reducer_run r es"
  shows "pending_batches_bytes (queue s) \<le> max_queued (limits s)
    \<and> list_all (\<lambda>b. length (batch_events b) \<le> max_batch (limits s)) (queue s)
    \<and> snap_bytes (snapshot s) \<le> max_retained (limits s)
    \<and> length (snap_items (snapshot s)) \<le> max_items (limits s)
    \<and> length (snap_warnings (snapshot s)) + length (snap_errors (snapshot s)) \<le> max_history (limits s)"
  using reducer.run_inv [OF new_reducer_inv [OF assms(1)], of es] assms(2)
  by (auto simp: reducer_inv_def queue_ok_def list_all_iff)

theorem reducer_always_bounded_witness:
  "let s = reducer_run default_reducer [Notify_Many [], Frame, Dispose] in snap_bytes (snapshot s) \<le> max_retained (limits s)"
  using reducer_always_bounded [OF default_reducer_new refl] by (simp only: Let_def)

text \<open>C32. No update is lost for want of a frame: in every run, queued batches have a frame scheduled,
  and the frame, when it comes, empties the queue.\<close>

theorem reducer_no_lost_wakeup:
  assumes "new_reducer opts = Inr r" and "s = reducer_run r es"
  shows "(queue s \<noteq> [] \<longrightarrow> frame s) \<and> queue (fst (reducer_step s Frame)) = [] \<and> \<not> frame (fst (reducer_step s Frame))"
proof -
  have "reducer_inv s" using reducer.run_inv [OF new_reducer_inv [OF assms(1)], of es] assms(2) by simp
  then show ?thesis by (auto simp: reducer_inv_def flush_frame_def Let_def)
qed

theorem reducer_no_lost_wakeup_witness:
  "let s = reducer_run default_reducer [Notify_Many (json_stringify (batch_json sample_batch))] in
   (queue s \<noteq> [] \<longrightarrow> frame s) \<and> queue (fst (reducer_step s Frame)) = []"
  using reducer_no_lost_wakeup [OF default_reducer_new refl] by (simp only: Let_def) blast

text \<open>Disposal is final: after it no event makes the reducer call a listener or the scheduler, and
  its snapshot stays the empty one.\<close>

lemma disposed_step:
  "reducer_inv r \<Longrightarrow> disposed r \<Longrightarrow> snd (reducer_step r e) = [] \<and> disposed (fst (reducer_step r e)) \<and>
     reducer_inv (fst (reducer_step r e))"
  using reducer.step_inv [of r e]
  by (cases e) (auto simp: notify_many_def flush_frame_def on_did_change_def dispose_subscription_def dispose_reducer_def)

lemma disposed_run:
  "reducer_inv r \<Longrightarrow> disposed r \<Longrightarrow> snd (run_machine reducer_step r es) = [] \<and> disposed (reducer_run r es) \<and>
     reducer_inv (reducer_run r es)"
proof (induction es arbitrary: r)
  case (Cons e es)
  have step: "snd (reducer_step r e) = []" "disposed (fst (reducer_step r e))" "reducer_inv (fst (reducer_step r e))"
    using disposed_step [OF Cons.prems, of e] by simp_all
  from Cons.IH [OF step(3,2)] step(1) show ?case by simp
qed simp

theorem reducer_dispose_final:
  assumes "new_reducer opts = Inr r" and "s = fst (reducer_step (reducer_run r es) Dispose)"
  shows "snd (run_machine reducer_step s fs) = [] \<and> snapshot (reducer_run s fs) = empty_snapshot
    \<and> queue (reducer_run s fs) = []"
proof -
  have "reducer_inv (reducer_run r es)" using reducer.run_inv [OF new_reducer_inv [OF assms(1)]] .
  then have "reducer_inv s" "disposed s" using assms(2) by (auto simp: inv_dispose) (auto simp: dispose_reducer_def)
  from disposed_run [OF this, of fs] show ?thesis by (auto simp: reducer_inv_def)
qed

theorem reducer_dispose_final_witness:
  "let s = fst (reducer_step (reducer_run default_reducer [On_Did_Change 0]) Dispose) in
   snd (run_machine reducer_step s [Notify_Many (json_stringify (batch_json sample_batch)), Frame]) = []"
  using reducer_dispose_final [OF default_reducer_new refl] by (simp only: Let_def)

text \<open>Turns only move forwards: over any run of a reducer that is not disposed, the position
  (generation, sequence) of its turn never decreases.\<close>

theorem reducer_turns_forward:
  assumes "\<not> disposed (reducer_run r es)"
  shows "position_of (turn r) \<le> position_of (turn (reducer_run r es))"
  using reducer.run_rel [of r es] assms by (simp add: turn_progress_def)

theorem reducer_turns_forward_witness:
  "position_of empty_turn \<le> position_of (turn (reducer_run default_reducer [On_Did_Change 0, Frame]))"
  using reducer_turns_forward [of default_reducer "[On_Did_Change 0, Frame]"]
  by (simp add: default_reducer_def on_did_change_def flush_frame_def)

text \<open>Events of an overtaken turn are refused at the door: once a boundary of a newer turn is queued
  or applied, a wire that carries a batch of an older position changes nothing.\<close>

theorem overtaken_batch_refused:
  assumes "parse_safe_batch wire (max_wire (limits r)) = Some b"
    and "q \<in> set (queue r)" and "has_turn_boundary (batch_events q)" and "batch_position b < batch_position q"
  shows "reducer_step r (Notify_Many wire) = (r, [])"
proof -
  obtain a where a: "highest_pending_authority (turn r) (queue r) = Some a" "batch_position q \<le> authority_position a"
    using foldl_authority_covers [OF assms(2,3)] by (auto simp: highest_pending_authority_def)
  from assms(4) a(2) have "batch_position b < authority_position a" by (rule less_le_trans)
  from below_authority_refused [OF a(1) this] assms(1) show ?thesis by (simp add: notify_many_def)
qed

theorem overtaken_batch_refused_witness:
  "let r = default_reducer\<lparr>queue := [sample_batch\<lparr>batch_sequence := 2\<rparr>], limits := sample_limits\<rparr> in
   reducer_step r (Notify_Many (json_stringify (batch_json sample_batch))) = (r, [])"
  unfolding Let_def
  by (rule overtaken_batch_refused [of _ _ sample_batch "sample_batch\<lparr>batch_sequence := 2\<rparr>"])
    (simp_all add: sample_limits_def sample_batch_parses, simp_all add: sample_batch_def has_turn_boundary_def
      is_turn_boundary_def batch_position_def)

end
