(* ===== verification/JsValue.thy ===== *)
theory JsValue
  imports Json "HOL-Library.List_Lexorder"
begin

text \<open>
  JavaScript values as they reach code that does not trust their shape: primitives, arrays and
  objects whose properties may be accessors. Errors are values of a sum type; the theory holds
  the few combinators the validating components share.
\<close>

section \<open>Values\<close>

text \<open>An object carries whether its prototype is \<open>Object.prototype\<close> or null, and its own properties in
  the order of \<open>Object.getOwnPropertyNames\<close>. A property is a value, with its enumerable flag, or an
  accessor pair. Functions and symbols are one opaque value: the modelled code only tells them
  apart from everything else.\<close>

datatype jsvalue =
    JsUndefined
  | JsNull
  | JsBool bool
  | JsNumber jsnum
  | JsNaN
  | JsBigint int
  | JsText jsstr
  | JsOpaque
  | JsArray "jsvalue list"
  | JsObject bool "(jsstr \<times> property) list"
and property =
    Data_Property bool jsvalue
  | Accessor_Property bool

type_synonym properties = "(jsstr \<times> property) list"

fun is_enumerable :: "property \<Rightarrow> bool" where
  "is_enumerable (Data_Property e _) = e"
| "is_enumerable (Accessor_Property e) = e"

definition enumerable_keys :: "properties \<Rightarrow> jsstr list" where
  "enumerable_keys ps = map fst (filter (\<lambda>p. is_enumerable (snd p)) ps)"

text \<open>Parsed JSON as such a value.\<close>

fun value_of_json :: "json \<Rightarrow> jsvalue" where
  "value_of_json JNull = JsNull"
| "value_of_json (JBool b) = JsBool b"
| "value_of_json (JNum n) = JsNumber n"
| "value_of_json (JStr s) = JsText s"
| "value_of_json (JArr vs) = JsArray (map value_of_json vs)"
| "value_of_json (JObj ms) = JsObject True (map (\<lambda>(k, v). (k, Data_Property True (value_of_json v))) ms)"

text \<open>An object literal, with its keys as written.\<close>

definition object_of :: "(string \<times> jsvalue) list \<Rightarrow> jsvalue" where
  "object_of fs = JsObject True (map (\<lambda>(k, v). (js k, Data_Property True v)) fs)"

text \<open>The conditional spread \<open>...(x === undefined ? {} : {k: x})\<close>.\<close>

definition present :: "string \<Rightarrow> ('a \<Rightarrow> jsvalue) \<Rightarrow> 'a option \<Rightarrow> (string \<times> jsvalue) list" where
  "present k f x = (case x of None \<Rightarrow> [] | Some y \<Rightarrow> [(k, f y)])"

definition numeric_value :: "jsnum \<Rightarrow> rat option" where
  "numeric_value n = (case n of NInt i \<Rightarrow> Some (of_int i) | NFrac q \<Rightarrow> Some q | NInf _ \<Rightarrow> None)"

section \<open>Results\<close>

definition and_then :: "'e + 'a \<Rightarrow> ('a \<Rightarrow> 'e + 'b) \<Rightarrow> 'e + 'b" where
  "and_then m f = (case m of Inl e \<Rightarrow> Inl e | Inr x \<Rightarrow> f x)"

definition check :: "bool \<Rightarrow> 'e \<Rightarrow> 'e + unit" where
  "check b e = (if b then Inr () else Inl e)"

fun traverse :: "('a \<Rightarrow> 'e + 'b) \<Rightarrow> 'a list \<Rightarrow> 'e + 'b list" where
  "traverse f [] = Inr []"
| "traverse f (x # xs) = and_then (f x) (\<lambda>y. and_then (traverse f xs) (\<lambda>ys. Inr (y # ys)))"

lemma and_then_simps [simp]: "and_then (Inl e) f = Inl e" "and_then (Inr x) f = f x"
  by (simp_all add: and_then_def)

lemma and_then_Inr: "and_then m f = Inr y \<longleftrightarrow> (\<exists>x. m = Inr x \<and> f x = Inr y)"
  by (cases m) simp_all

lemma check_Inr [simp]: "check b e = Inr u \<longleftrightarrow> b"
  by (simp add: check_def)

lemma check_True [simp]: "check True e = Inr ()"
  by (simp add: check_def)

lemma traverse_Inr: "traverse f xs = Inr ys \<longleftrightarrow> list_all2 (\<lambda>x y. f x = Inr y) xs ys"
  by (induction xs arbitrary: ys) (auto simp: and_then_Inr list_all2_Cons1)

lemma traverse_map_Inr: "(\<And>x. x \<in> set xs \<Longrightarrow> f (g x) = Inr x) \<Longrightarrow> traverse f (map g xs) = Inr xs"
  by (induction xs) simp_all

end
