(* ===== verification/Auth.thy ===== *)
theory Auth
  imports JsValue
begin

text \<open>
  The authentication data the extension accepts (\<open>src/common/ride-codex-auth.ts\<close>): every
  normalizer as a function from an untrusted JavaScript value to a typed record or an error. Two
  parameters stand for the platform: \<open>px\<close> is the inspector's \<open>isProxy\<close>, and \<open>url\<close> the URL parser
  (\<open>new URL(text)\<close>), which yields None when it throws.
\<close>

section \<open>Data\<close>

datatype auth_state = Inactive | Disconnected | Unauthenticated | Authenticating | Authenticated | Auth_Failed

datatype plan_type =
  Free | Go | Plus | Pro | Prolite | Team | Self_Serve_Business | Business | Enterprise_Cbp | Enterprise | Edu
  | Unknown_Plan

definition plan_names :: "(plan_type \<times> string) list" where
  "plan_names =
     [(Free, ''free''), (Go, ''go''), (Plus, ''plus''), (Pro, ''pro''), (Prolite, ''prolite''), (Team, ''team''),
      (Self_Serve_Business, ''self_serve_business_usage_based''), (Business, ''business''),
      (Enterprise_Cbp, ''enterprise_cbp_usage_based''), (Enterprise, ''enterprise''), (Edu, ''edu''),
      (Unknown_Plan, ''unknown'')]"

definition state_names :: "(auth_state \<times> string) list" where
  "state_names =
     [(Inactive, ''inactive''), (Disconnected, ''disconnected''), (Unauthenticated, ''unauthenticated''),
      (Authenticating, ''authenticating''), (Authenticated, ''authenticated''), (Auth_Failed, ''error'')]"

datatype auth_account = Api_Key_Account | Chatgpt_Account (account_email: "jsstr option") (account_plan: plan_type)

record rate_window =
  used_percent :: jsnum
  window_mins :: "int option"
  resets_at :: "int option"

record credits =
  has_credits :: bool
  unlimited :: bool
  balance :: "jsstr option"

record bucket =
  limit_id :: "jsstr option"
  limit_name :: "jsstr option"
  primary :: "rate_window option"
  secondary :: "rate_window option"
  bucket_credits :: "credits option"
  bucket_plan :: "plan_type option"

record rate_limits =
  current_bucket :: bucket
  by_limit_id :: "(jsstr \<times> bucket) list option"
  reset_credits :: "jsstr option"

datatype login_type = Api_Key | Chatgpt | Device_Code

datatype login_request = Login_Api_Key jsstr | Login_Chatgpt | Login_Device_Code

datatype login_result = Logged_In | Browser_Login jsstr jsstr | Device_Login jsstr jsstr jsstr

record pending_login =
  pending_type :: login_type
  pending_id :: "jsstr option"

record auth_error =
  auth_error_code :: jsstr
  auth_error_message :: jsstr

record auth_snapshot =
  auth_state :: auth_state
  auth_account :: "auth_account option"
  auth_limits :: "rate_limits option"
  auth_pending :: "pending_login option"
  auth_error :: "auth_error option"

record account_read =
  read_account :: "auth_account option"
  requires_auth :: bool

datatype cancel_status = Canceled | Not_Found

record login_completion =
  completed_id :: "jsstr option"
  completed_success :: bool

text \<open>A thrown \<open>TypeError\<close>, \<open>RangeError\<close> or \<open>RideCodexUnsafeAuthPayloadError\<close>, with what it is about.\<close>

datatype data_error = Type_Error string | Range_Error string | Unsafe_Payload

definition max_email_length :: nat where "max_email_length = 512"
definition max_identifier_length :: nat where "max_identifier_length = 256"
definition max_url_length :: nat where "max_url_length = 2048"
definition max_user_code_length :: nat where "max_user_code_length = 64"
definition max_label_length :: nat where "max_label_length = 256"
definition max_balance_length :: nat where "max_balance_length = 128"
definition max_rate_limit_buckets :: nat where "max_rate_limit_buckets = 16"
definition max_record_properties :: nat where "max_record_properties = 32"
definition max_error_code_length :: nat where "max_error_code_length = 64"
definition max_auth_message_length :: nat where "max_auth_message_length = 160"
definition max_api_key_length :: nat where "max_api_key_length = 8 * 1024"

section \<open>Checks\<close>

definition require_record :: "(jsvalue \<Rightarrow> bool) \<Rightarrow> jsvalue \<Rightarrow> string \<Rightarrow> data_error + properties" where
  "require_record px v label =
     (case v of
        JsArray _ \<Rightarrow> if px v then Inl Unsafe_Payload else Inl (Type_Error label)
      | JsObject plain ps \<Rightarrow>
          if px v then Inl Unsafe_Payload
          else if \<not> plain then Inl (Type_Error label)
          else if max_record_properties < length ps then Inl (Range_Error label)
          else Inr ps
      | _ \<Rightarrow> Inl (Type_Error label))"

definition read_own :: "properties \<Rightarrow> jsstr \<Rightarrow> data_error + jsvalue" where
  "read_own ps k =
     (case map_of ps k of
        None \<Rightarrow> Inr JsUndefined
      | Some (Data_Property _ v) \<Rightarrow> Inr v
      | Some (Accessor_Property _) \<Rightarrow> Inl (Type_Error ''unsafe property''))"

fun only_keys_loop :: "properties \<Rightarrow> properties \<Rightarrow> string list \<Rightarrow> string \<Rightarrow> data_error + unit" where
  "only_keys_loop ps [] allowed label = Inr ()"
| "only_keys_loop ps ((k, _) # rest) allowed label =
     (if k \<notin> set (map js allowed) then Inl (Type_Error label)
      else and_then (read_own ps k) (\<lambda>_. only_keys_loop ps rest allowed label))"

definition require_only_keys :: "properties \<Rightarrow> string list \<Rightarrow> string \<Rightarrow> data_error + unit" where
  "require_only_keys ps allowed label = only_keys_loop ps ps allowed label"

definition is_control :: "16 word \<Rightarrow> bool" where
  "is_control c \<longleftrightarrow> unat c < 0x20 \<or> unat c = 0x7F"

definition require_string :: "jsvalue \<Rightarrow> string \<Rightarrow> nat \<Rightarrow> data_error + jsstr" where
  "require_string v label max_length =
     (case v of
        JsText s \<Rightarrow>
          if s = [] \<or> max_length < length s \<or> list_ex is_control s then Inl (Type_Error label) else Inr s
      | _ \<Rightarrow> Inl (Type_Error label))"

definition is_absent :: "jsvalue \<Rightarrow> bool" where
  "is_absent v \<longleftrightarrow> v = JsNull \<or> v = JsUndefined"

text \<open>\<open>value === null || value === undefined ? undefined : normalize(value)\<close>\<close>

definition unless_absent :: "jsvalue \<Rightarrow> (jsvalue \<Rightarrow> data_error + 'a) \<Rightarrow> data_error + 'a option" where
  "unless_absent v f = (if is_absent v then Inr None else and_then (f v) (\<lambda>x. Inr (Some x)))"

definition unless_undefined :: "jsvalue \<Rightarrow> (jsvalue \<Rightarrow> data_error + 'a) \<Rightarrow> data_error + 'a option" where
  "unless_undefined v f = (if v = JsUndefined then Inr None else and_then (f v) (\<lambda>x. Inr (Some x)))"

definition optional_string :: "jsvalue \<Rightarrow> string \<Rightarrow> nat \<Rightarrow> data_error + jsstr option" where
  "optional_string v label max_length = unless_absent v (\<lambda>v. require_string v label max_length)"

definition require_identifier :: "jsvalue \<Rightarrow> string \<Rightarrow> data_error + jsstr" where
  "require_identifier v label = require_string v label max_identifier_length"

record url =
  url_protocol :: jsstr
  url_username :: jsstr
  url_password :: jsstr
  url_hostname :: jsstr
  url_href :: jsstr

definition require_https_url :: "(jsstr \<Rightarrow> url option) \<Rightarrow> jsvalue \<Rightarrow> string \<Rightarrow> data_error + jsstr" where
  "require_https_url url v label =
     and_then (require_string v label max_url_length) (\<lambda>s.
       case url s of
         None \<Rightarrow> Inl (Type_Error label)
       | Some u \<Rightarrow>
           if url_protocol u \<noteq> js ''https:'' \<or> url_username u \<noteq> [] \<or> url_password u \<noteq> [] \<or> url_hostname u = []
           then Inl (Type_Error label) else Inr (url_href u))"

definition named :: "('a \<times> string) list \<Rightarrow> jsvalue \<Rightarrow> string \<Rightarrow> data_error + 'a" where
  "named table v label =
     (case v of
        JsText s \<Rightarrow>
          (case List.find (\<lambda>p. js (snd p) = s) table of
             None \<Rightarrow> Inl (Type_Error label)
           | Some p \<Rightarrow> Inr (fst p))
      | _ \<Rightarrow> Inl (Type_Error label))"

definition require_plan :: "jsvalue \<Rightarrow> data_error + plan_type" where
  "require_plan v = named plan_names v ''account plan''"

definition require_boolean :: "jsvalue \<Rightarrow> string \<Rightarrow> data_error + bool" where
  "require_boolean v label = (case v of JsBool b \<Rightarrow> Inr b | _ \<Rightarrow> Inl (Type_Error label))"

definition require_finite_number :: "jsvalue \<Rightarrow> string \<Rightarrow> rat \<Rightarrow> rat \<Rightarrow> data_error + jsnum" where
  "require_finite_number v label minimum maximum =
     (case v of
        JsNumber n \<Rightarrow>
          (case numeric_value n of
             None \<Rightarrow> Inl (Type_Error label)
           | Some q \<Rightarrow> if q < minimum \<or> maximum < q then Inl (Type_Error label) else Inr n)
      | _ \<Rightarrow> Inl (Type_Error label))"

definition require_safe_integer :: "jsvalue \<Rightarrow> string \<Rightarrow> int \<Rightarrow> data_error + int" where
  "require_safe_integer v label minimum =
     (case v of
        JsNumber (NInt n) \<Rightarrow> if \<not> safe_int n \<or> n < minimum then Inl (Type_Error label) else Inr n
      | _ \<Rightarrow> Inl (Type_Error label))"

text \<open>\<open>/^\d+$/\<close> and \<open>/^-?\d+(?:\.\d+)?$/\<close>\<close>

definition all_digits :: "jsstr \<Rightarrow> bool" where
  "all_digits s \<longleftrightarrow> s \<noteq> [] \<and> list_all is_digit s"

definition is_decimal :: "jsstr \<Rightarrow> bool" where
  "is_decimal s =
     (let body = (case s of c # cs \<Rightarrow> if c = 0x2D then cs else s | [] \<Rightarrow> []);
          whole = takeWhile is_digit body; rest = dropWhile is_digit body
      in whole \<noteq> [] \<and> (rest = [] \<or> (hd rest = 0x2E \<and> all_digits (tl rest))))"

definition require_decimal_string :: "jsvalue \<Rightarrow> string \<Rightarrow> nat \<Rightarrow> data_error + jsstr" where
  "require_decimal_string v label max_length =
     and_then (require_string v label max_length) (\<lambda>s. if is_decimal s then Inr s else Inl (Type_Error label))"

text \<open>\<open>requireX(readOwn(record, key))\<close>\<close>

definition read_field :: "properties \<Rightarrow> string \<Rightarrow> (jsvalue \<Rightarrow> data_error + 'a) \<Rightarrow> data_error + 'a" where
  "read_field ps k f = and_then (read_own ps (js k)) f"

section \<open>Account data\<close>

definition normalize_account :: "(jsvalue \<Rightarrow> bool) \<Rightarrow> jsvalue \<Rightarrow> data_error + auth_account option" where
  "normalize_account px v =
     unless_absent v (\<lambda>v.
       and_then (require_record px v ''account'') (\<lambda>r.
       and_then (read_field r ''type'' (\<lambda>x. require_string x ''account type'' 32)) (\<lambda>type.
         if type = js ''apiKey'' then
           and_then (require_only_keys r [''type''] ''API key account'') (\<lambda>_. Inr Api_Key_Account)
         else if type \<noteq> js ''chatgpt'' then Inl (Type_Error ''account type'')
         else
           and_then (require_only_keys r [''type'', ''email'', ''planType''] ''ChatGPT account'') (\<lambda>_.
           and_then (read_field r ''email'' (\<lambda>x. optional_string x ''account email'' max_email_length)) (\<lambda>email.
           and_then (read_field r ''planType'' require_plan) (\<lambda>plan.
           Inr (Chatgpt_Account email plan)))))))"

definition normalize_account_read :: "(jsvalue \<Rightarrow> bool) \<Rightarrow> jsvalue \<Rightarrow> data_error + account_read" where
  "normalize_account_read px v =
     and_then (require_record px v ''account response'') (\<lambda>r.
     and_then (require_only_keys r [''account'', ''requiresOpenaiAuth''] ''account response'') (\<lambda>_.
     and_then (read_field r ''account'' (normalize_account px)) (\<lambda>account.
     and_then (read_field r ''requiresOpenaiAuth'' (\<lambda>x. require_boolean x ''OpenAI auth requirement'')) (\<lambda>required.
     Inr \<lparr>read_account = account, requires_auth = required\<rparr>))))"

definition normalize_cancel :: "(jsvalue \<Rightarrow> bool) \<Rightarrow> jsvalue \<Rightarrow> data_error + cancel_status" where
  "normalize_cancel px v =
     and_then (require_record px v ''cancel-login response'') (\<lambda>r.
     and_then (require_only_keys r [''status''] ''cancel-login response'') (\<lambda>_.
     read_field r ''status'' (\<lambda>x. named [(Canceled, ''canceled''), (Not_Found, ''notFound'')] x ''cancel-login status'')))"

definition normalize_completion :: "(jsvalue \<Rightarrow> bool) \<Rightarrow> jsvalue \<Rightarrow> data_error + login_completion" where
  "normalize_completion px v =
     and_then (require_record px v ''login completion'') (\<lambda>r.
     and_then (require_only_keys r [''loginId'', ''success'', ''error''] ''login completion'') (\<lambda>_.
     and_then (read_field r ''loginId'' (\<lambda>x. unless_absent x (\<lambda>x. require_identifier x ''login ID''))) (\<lambda>i.
     and_then (read_field r ''success'' (\<lambda>x. require_boolean x ''login success'')) (\<lambda>success.
     Inr \<lparr>completed_id = i, completed_success = success\<rparr>))))"

definition normalize_account_update :: "(jsvalue \<Rightarrow> bool) \<Rightarrow> jsvalue \<Rightarrow> data_error + auth_account option" where
  "normalize_account_update px v =
     and_then (require_record px v ''account update'') (\<lambda>r.
     and_then (require_only_keys r [''authMode'', ''planType''] ''account update'') (\<lambda>_.
     and_then (read_own r (js ''authMode'')) (\<lambda>mode.
     and_then (read_own r (js ''planType'')) (\<lambda>plan.
       if mode = JsNull then
         (if plan \<noteq> JsNull then Inl (Type_Error ''account update'') else Inr None)
       else if mode = JsText (js ''apikey'') then
         (if plan \<noteq> JsNull then Inl (Type_Error ''API key account update'') else Inr (Some Api_Key_Account))
       else if mode = JsText (js ''chatgpt'') \<or> mode = JsText (js ''chatgptAuthTokens'') then
         and_then (if plan = JsNull then Inr Unknown_Plan else require_plan plan) (\<lambda>p.
           Inr (Some (Chatgpt_Account None p)))
       else Inl (Type_Error ''account auth mode'')))))"

definition normalize_login_result ::
    "(jsvalue \<Rightarrow> bool) \<Rightarrow> (jsstr \<Rightarrow> url option) \<Rightarrow> jsvalue \<Rightarrow> data_error + login_result" where
  "normalize_login_result px url v =
     and_then (require_record px v ''login result'') (\<lambda>r.
     and_then (read_field r ''type'' (\<lambda>x. require_string x ''login type'' 32)) (\<lambda>type.
       if type = js ''apiKey'' then
         and_then (require_only_keys r [''type''] ''API key login result'') (\<lambda>_. Inr Logged_In)
       else if type = js ''chatgpt'' then
         and_then (require_only_keys r [''type'', ''loginId'', ''authUrl''] ''browser login result'') (\<lambda>_.
         and_then (read_field r ''loginId'' (\<lambda>x. require_identifier x ''login ID'')) (\<lambda>i.
         and_then (read_field r ''authUrl'' (\<lambda>x. require_https_url url x ''authentication URL'')) (\<lambda>u.
         Inr (Browser_Login i u))))
       else if type = js ''chatgptDeviceCode'' then
         and_then (require_only_keys r [''type'', ''loginId'', ''verificationUrl'', ''userCode''] ''device-code login result'') (\<lambda>_.
         and_then (read_field r ''loginId'' (\<lambda>x. require_identifier x ''login ID'')) (\<lambda>i.
         and_then (read_field r ''verificationUrl'' (\<lambda>x. require_https_url url x ''verification URL'')) (\<lambda>u.
         and_then (read_field r ''userCode'' (\<lambda>x. require_string x ''device user code'' max_user_code_length)) (\<lambda>c.
         Inr (Device_Login i u c)))))
       else Inl (Type_Error ''login result type'')))"

definition normalize_login_request :: "(jsvalue \<Rightarrow> bool) \<Rightarrow> jsvalue \<Rightarrow> data_error + login_request" where
  "normalize_login_request px v =
     and_then (require_record px v ''login request'') (\<lambda>r.
     and_then (read_field r ''type'' (\<lambda>x. require_string x ''login type'' 32)) (\<lambda>type.
       if type = js ''apiKey'' then
         and_then (require_only_keys r [''type'', ''apiKey''] ''API key login request'') (\<lambda>_.
         and_then (read_field r ''apiKey'' (\<lambda>x. require_string x ''API key'' max_api_key_length)) (\<lambda>key.
         if length key < 8 then Inl (Type_Error ''API key'') else Inr (Login_Api_Key key)))
       else if type = js ''chatgpt'' \<or> type = js ''chatgptDeviceCode'' then
         and_then (require_only_keys r [''type''] ''ChatGPT login request'') (\<lambda>_.
         Inr (if type = js ''chatgpt'' then Login_Chatgpt else Login_Device_Code))
       else Inl (Type_Error ''login type'')))"

section \<open>Rate limits\<close>

definition normalize_window :: "(jsvalue \<Rightarrow> bool) \<Rightarrow> jsvalue \<Rightarrow> data_error + rate_window" where
  "normalize_window px v =
     and_then (require_record px v ''rate-limit window'') (\<lambda>r.
     and_then (require_only_keys r [''usedPercent'', ''windowDurationMins'', ''resetsAt''] ''rate-limit window'') (\<lambda>_.
     and_then (read_field r ''usedPercent'' (\<lambda>x. require_finite_number x ''used percent'' 0 100)) (\<lambda>used.
     and_then (read_field r ''windowDurationMins''
       (\<lambda>x. unless_absent x (\<lambda>x. require_safe_integer x ''window duration'' 0))) (\<lambda>mins.
     and_then (read_field r ''resetsAt'' (\<lambda>x. unless_absent x (\<lambda>x. require_safe_integer x ''reset timestamp'' 0))) (\<lambda>resets.
     Inr \<lparr>used_percent = used, window_mins = mins, resets_at = resets\<rparr>)))))"

definition optional_window :: "(jsvalue \<Rightarrow> bool) \<Rightarrow> jsvalue \<Rightarrow> data_error + rate_window option" where
  "optional_window px v = unless_absent v (normalize_window px)"

definition normalize_credits :: "(jsvalue \<Rightarrow> bool) \<Rightarrow> jsvalue \<Rightarrow> data_error + credits" where
  "normalize_credits px v =
     and_then (require_record px v ''credits'') (\<lambda>r.
     and_then (require_only_keys r [''hasCredits'', ''unlimited'', ''balance''] ''credits'') (\<lambda>_.
     and_then (read_field r ''hasCredits'' (\<lambda>x. require_boolean x ''has credits'')) (\<lambda>has.
     and_then (read_field r ''unlimited'' (\<lambda>x. require_boolean x ''unlimited credits'')) (\<lambda>unl.
     and_then (read_field r ''balance''
       (\<lambda>x. unless_absent x (\<lambda>x. require_decimal_string x ''credit balance'' max_balance_length))) (\<lambda>bal.
     Inr \<lparr>has_credits = has, unlimited = unl, balance = bal\<rparr>)))))"

definition optional_credits :: "(jsvalue \<Rightarrow> bool) \<Rightarrow> jsvalue \<Rightarrow> data_error + credits option" where
  "optional_credits px v = unless_absent v (normalize_credits px)"

text \<open>The part \<open>normalizeRateLimitBucket\<close> and \<open>normalizePublicBucket\<close> share.\<close>

definition bucket_fields ::
    "(jsvalue \<Rightarrow> bool) \<Rightarrow> properties \<Rightarrow> string \<Rightarrow> (jsvalue \<Rightarrow> data_error + plan_type option) \<Rightarrow> data_error + bucket" where
  "bucket_fields px r plan_key plan_of =
     and_then (read_field r ''limitId'' (\<lambda>x. optional_string x ''rate-limit ID'' max_identifier_length)) (\<lambda>i.
     and_then (read_field r ''limitName'' (\<lambda>x. optional_string x ''rate-limit name'' max_label_length)) (\<lambda>n.
     and_then (read_field r ''primary'' (optional_window px)) (\<lambda>p.
     and_then (read_field r ''secondary'' (optional_window px)) (\<lambda>s.
     and_then (read_field r ''credits'' (optional_credits px)) (\<lambda>c.
     and_then (read_field r plan_key plan_of) (\<lambda>pl.
     Inr \<lparr>limit_id = i, limit_name = n, primary = p, secondary = s, bucket_credits = c, bucket_plan = pl\<rparr>))))))"

definition normalize_bucket :: "(jsvalue \<Rightarrow> bool) \<Rightarrow> jsvalue \<Rightarrow> data_error + bucket" where
  "normalize_bucket px v =
     and_then (require_record px v ''rate-limit bucket'') (\<lambda>r.
     and_then (require_only_keys r
       [''limitId'', ''limitName'', ''primary'', ''secondary'', ''credits'', ''individualLimit'',
        ''planType'', ''rateLimitReachedType''] ''rate-limit bucket'') (\<lambda>_.
     bucket_fields px r ''planType'' (\<lambda>x. unless_absent x require_plan)))"

definition normalize_entry :: "(jsvalue \<Rightarrow> data_error + bucket) \<Rightarrow> properties \<Rightarrow> jsstr \<Rightarrow> data_error + jsstr \<times> bucket" where
  "normalize_entry f r k =
     and_then (require_string (JsText k) ''rate-limit bucket ID'' max_identifier_length) (\<lambda>safe.
     and_then (read_own r k) (\<lambda>v.
     and_then (f v) (\<lambda>b. Inr (safe, b))))"

definition normalize_rate_record :: "(jsvalue \<Rightarrow> bool) \<Rightarrow> jsvalue \<Rightarrow> data_error + (jsstr \<times> bucket) list" where
  "normalize_rate_record px v =
     and_then (require_record px v ''rate-limit buckets'') (\<lambda>r.
       if max_rate_limit_buckets < length (enumerable_keys r) then Inl (Range_Error ''rate-limit buckets'')
       else traverse (normalize_entry (normalize_bucket px) r) (sort (enumerable_keys r)))"

definition normalize_reset_credits :: "(jsvalue \<Rightarrow> bool) \<Rightarrow> jsvalue \<Rightarrow> data_error + jsstr" where
  "normalize_reset_credits px v =
     and_then (require_record px v ''reset credits'') (\<lambda>r.
     and_then (require_only_keys r [''availableCount'', ''credits''] ''reset credits'') (\<lambda>_.
     and_then (read_own r (js ''availableCount'')) (\<lambda>raw.
     and_then
       (case raw of
          JsBigint n \<Rightarrow> Inr (int_to_string n)
        | JsNumber (NInt n) \<Rightarrow>
            if safe_int n \<and> 0 \<le> n then Inr (int_to_string n)
            else require_decimal_string raw ''reset credit count'' 64
        | _ \<Rightarrow> require_decimal_string raw ''reset credit count'' 64) (\<lambda>count.
     if all_digits count then Inr count else Inl (Type_Error ''reset credit count'')))))"

definition normalize_rate_limits :: "(jsvalue \<Rightarrow> bool) \<Rightarrow> jsvalue \<Rightarrow> data_error + rate_limits option" where
  "normalize_rate_limits px v =
     unless_absent v (\<lambda>v.
       and_then (require_record px v ''rate-limit response'') (\<lambda>r.
       and_then (require_only_keys r [''rateLimits'', ''rateLimitsByLimitId'', ''rateLimitResetCredits'']
         ''rate-limit response'') (\<lambda>_.
       and_then (read_field r ''rateLimits'' (normalize_bucket px)) (\<lambda>current.
       and_then (read_own r (js ''rateLimitsByLimitId'')) (\<lambda>by_value.
       and_then (read_own r (js ''rateLimitResetCredits'')) (\<lambda>reset_value.
       and_then (unless_absent by_value (normalize_rate_record px)) (\<lambda>by_limit.
       and_then (unless_absent reset_value (normalize_reset_credits px)) (\<lambda>reset.
       Inr \<lparr>current_bucket = current, by_limit_id = by_limit, reset_credits = reset\<rparr>))))))))"

definition normalize_rate_update :: "(jsvalue \<Rightarrow> bool) \<Rightarrow> jsvalue \<Rightarrow> data_error + bucket" where
  "normalize_rate_update px v =
     and_then (require_record px v ''rate-limit notification'') (\<lambda>r.
     and_then (require_only_keys r [''rateLimits''] ''rate-limit notification'') (\<lambda>_.
     read_field r ''rateLimits'' (normalize_bucket px)))"

section \<open>Public snapshots\<close>

definition public_account :: "(jsvalue \<Rightarrow> bool) \<Rightarrow> jsvalue \<Rightarrow> data_error + auth_account" where
  "public_account px v =
     and_then (require_record px v ''public account'') (\<lambda>r.
     and_then (read_own r (js ''type'')) (\<lambda>type.
       if type = JsText (js ''apiKey'') then
         and_then (require_only_keys r [''type''] ''public API key account'') (\<lambda>_. Inr Api_Key_Account)
       else if type = JsText (js ''chatgpt'') then
         and_then (require_only_keys r [''type'', ''email'', ''plan''] ''public ChatGPT account'') (\<lambda>_.
         and_then (read_field r ''email'' (\<lambda>x. optional_string x ''account email'' max_email_length)) (\<lambda>email.
         and_then (read_field r ''plan'' require_plan) (\<lambda>plan.
         Inr (Chatgpt_Account email plan))))
       else Inl (Type_Error ''public account type'')))"

definition public_bucket :: "(jsvalue \<Rightarrow> bool) \<Rightarrow> properties \<Rightarrow> data_error + bucket" where
  "public_bucket px r =
     and_then (require_only_keys r
       [''limitId'', ''limitName'', ''primary'', ''secondary'', ''credits'', ''plan'', ''byLimitId'', ''resetCredits'']
       ''public rate-limit bucket'') (\<lambda>_.
     bucket_fields px r ''plan'' (\<lambda>x. unless_undefined x require_plan))"

definition public_buckets :: "(jsvalue \<Rightarrow> bool) \<Rightarrow> jsvalue \<Rightarrow> data_error + (jsstr \<times> bucket) list" where
  "public_buckets px v =
     and_then (require_record px v ''public rate-limit buckets'') (\<lambda>r.
       if max_rate_limit_buckets < length (enumerable_keys r) then Inl (Range_Error ''public rate-limit buckets'')
       else traverse
         (normalize_entry (\<lambda>v. and_then (require_record px v ''public rate-limit bucket'') (public_bucket px)) r)
         (sort (enumerable_keys r)))"

definition public_reset_credits :: "(jsvalue \<Rightarrow> bool) \<Rightarrow> jsvalue \<Rightarrow> data_error + jsstr" where
  "public_reset_credits px v =
     and_then (require_record px v ''public reset credits'') (\<lambda>r.
     and_then (require_only_keys r [''availableCount''] ''public reset credits'') (\<lambda>_.
     read_field r ''availableCount'' (\<lambda>x. require_decimal_string x ''reset credit count'' 64)))"

definition public_rate_limits :: "(jsvalue \<Rightarrow> bool) \<Rightarrow> jsvalue \<Rightarrow> data_error + rate_limits" where
  "public_rate_limits px v =
     and_then (require_record px v ''public rate limits'') (\<lambda>r.
     and_then (public_bucket px r) (\<lambda>b.
     and_then (read_own r (js ''byLimitId'')) (\<lambda>by_value.
     and_then (read_own r (js ''resetCredits'')) (\<lambda>reset_value.
     and_then (unless_undefined by_value (public_buckets px)) (\<lambda>by_limit.
     and_then (unless_undefined reset_value (public_reset_credits px)) (\<lambda>reset.
     Inr \<lparr>current_bucket = b, by_limit_id = by_limit, reset_credits = reset\<rparr>))))))"

definition public_pending_login :: "(jsvalue \<Rightarrow> bool) \<Rightarrow> jsvalue \<Rightarrow> data_error + pending_login" where
  "public_pending_login px v =
     and_then (require_record px v ''pending login'') (\<lambda>r.
     and_then (require_only_keys r [''type'', ''loginId''] ''pending login'') (\<lambda>_.
     and_then (read_field r ''type'' (\<lambda>x. named
       [(Api_Key, ''apiKey''), (Chatgpt, ''chatgpt''), (Device_Code, ''chatgptDeviceCode'')] x ''pending login type'')) (\<lambda>type.
     and_then (read_field r ''loginId'' (\<lambda>x. unless_undefined x (\<lambda>x. require_identifier x ''login ID''))) (\<lambda>i.
     Inr \<lparr>pending_type = type, pending_id = i\<rparr>))))"

definition public_auth_error :: "(jsvalue \<Rightarrow> bool) \<Rightarrow> jsvalue \<Rightarrow> data_error + auth_error" where
  "public_auth_error px v =
     and_then (require_record px v ''auth error'') (\<lambda>r.
     and_then (require_only_keys r [''code'', ''message''] ''auth error'') (\<lambda>_.
     and_then (read_field r ''code'' (\<lambda>x. require_string x ''auth error code'' max_error_code_length)) (\<lambda>c.
     and_then (read_field r ''message'' (\<lambda>x. require_string x ''auth error message'' max_auth_message_length)) (\<lambda>m.
     Inr \<lparr>auth_error_code = c, auth_error_message = m\<rparr>))))"

definition create_snapshot :: "(jsvalue \<Rightarrow> bool) \<Rightarrow> jsvalue \<Rightarrow> data_error + auth_snapshot" where
  "create_snapshot px v =
     and_then (require_record px v ''auth snapshot'') (\<lambda>r.
     and_then (require_only_keys r [''state'', ''account'', ''rateLimits'', ''pendingLogin'', ''error''] ''auth snapshot'') (\<lambda>_.
     and_then (read_field r ''state'' (\<lambda>x. named state_names x ''auth state'')) (\<lambda>state.
     and_then (read_field r ''account'' (\<lambda>x. unless_undefined x (public_account px))) (\<lambda>account.
     and_then (read_field r ''rateLimits'' (\<lambda>x. unless_undefined x (public_rate_limits px))) (\<lambda>rates.
     and_then (read_field r ''pendingLogin'' (\<lambda>x. unless_undefined x (public_pending_login px))) (\<lambda>pending.
     and_then (read_field r ''error'' (\<lambda>x. unless_undefined x (public_auth_error px))) (\<lambda>err.
       if state = Authenticated \<and> account = None then Inl (Type_Error ''authenticated state'')
       else if state = Auth_Failed \<and> err = None then Inl (Type_Error ''error state'')
       else Inr \<lparr>auth_state = state, auth_account = account, auth_limits = rates, auth_pending = pending,
                 auth_error = err\<rparr>)))))))"

end
