(* ===== verification/AuthFacts.thy ===== *)
theory AuthFacts
  imports Auth
begin

text \<open>
  What the authentication normalizers guarantee: what they accept is bounded, plain data; the
  public snapshot is a fixed point of its own normalizer; rate limits read from the app server
  can always be published.
\<close>

section \<open>Typed data as values\<close>

text \<open>The frozen objects the normalizers build, as values.\<close>

definition name_of :: "('a \<times> string) list \<Rightarrow> 'a \<Rightarrow> string" where
  "name_of table x = the (map_of table x)"

definition login_type_names :: "(login_type \<times> string) list" where
  "login_type_names = [(Api_Key, ''apiKey''), (Chatgpt, ''chatgpt''), (Device_Code, ''chatgptDeviceCode'')]"

definition text_value :: "string \<Rightarrow> jsvalue" where
  "text_value s = JsText (js s)"

definition int_value :: "int \<Rightarrow> jsvalue" where
  "int_value n = JsNumber (NInt n)"

definition account_value :: "auth_account \<Rightarrow> jsvalue" where
  "account_value a =
     (case a of
        Api_Key_Account \<Rightarrow> object_of [(''type'', text_value ''apiKey'')]
      | Chatgpt_Account e p \<Rightarrow>
          object_of ([(''type'', text_value ''chatgpt'')] @ present ''email'' JsText e
            @ [(''plan'', text_value (name_of plan_names p))]))"

definition window_value :: "rate_window \<Rightarrow> jsvalue" where
  "window_value w =
     object_of ([(''usedPercent'', JsNumber (used_percent w))] @ present ''windowDurationMins'' int_value (window_mins w)
       @ present ''resetsAt'' int_value (resets_at w))"

definition credits_value :: "credits \<Rightarrow> jsvalue" where
  "credits_value c =
     object_of ([(''hasCredits'', JsBool (has_credits c)), (''unlimited'', JsBool (unlimited c))]
       @ present ''balance'' JsText (balance c))"

definition bucket_members :: "bucket \<Rightarrow> (string \<times> jsvalue) list" where
  "bucket_members b =
     present ''limitId'' JsText (limit_id b) @ present ''limitName'' JsText (limit_name b)
     @ present ''primary'' window_value (primary b) @ present ''secondary'' window_value (secondary b)
     @ present ''credits'' credits_value (bucket_credits b)
     @ present ''plan'' (\<lambda>p. text_value (name_of plan_names p)) (bucket_plan b)"

definition buckets_value :: "(jsstr \<times> bucket) list \<Rightarrow> jsvalue" where
  "buckets_value bs = JsObject True (map (\<lambda>(k, b). (k, Data_Property True (object_of (bucket_members b)))) bs)"

definition rate_limits_value :: "rate_limits \<Rightarrow> jsvalue" where
  "rate_limits_value r =
     object_of (bucket_members (current_bucket r) @ present ''byLimitId'' buckets_value (by_limit_id r)
       @ present ''resetCredits'' (\<lambda>c. object_of [(''availableCount'', JsText c)]) (reset_credits r))"

definition pending_value :: "pending_login \<Rightarrow> jsvalue" where
  "pending_value p =
     object_of ([(''type'', text_value (name_of login_type_names (pending_type p)))]
       @ present ''loginId'' JsText (pending_id p))"

definition error_value :: "auth_error \<Rightarrow> jsvalue" where
  "error_value e = object_of [(''code'', JsText (auth_error_code e)), (''message'', JsText (auth_error_message e))]"

definition snapshot_value :: "auth_snapshot \<Rightarrow> jsvalue" where
  "snapshot_value s =
     object_of ([(''state'', text_value (name_of state_names (auth_state s)))]
       @ present ''account'' account_value (auth_account s) @ present ''rateLimits'' rate_limits_value (auth_limits s)
       @ present ''pendingLogin'' pending_value (auth_pending s) @ present ''error'' error_value (auth_error s))"

section \<open>Well-formed data\<close>

definition text_ok :: "nat \<Rightarrow> jsstr \<Rightarrow> bool" where
  "text_ok n s \<longleftrightarrow> s \<noteq> [] \<and> length s \<le> n \<and> list_all (\<lambda>c. \<not> is_control c) s"

definition counter_ok :: "int \<Rightarrow> bool" where
  "counter_ok n \<longleftrightarrow> safe_int n \<and> 0 \<le> n"

definition account_ok :: "auth_account \<Rightarrow> bool" where
  "account_ok a = (case a of Api_Key_Account \<Rightarrow> True | Chatgpt_Account e _ \<Rightarrow> pred_option (text_ok max_email_length) e)"

definition window_ok :: "rate_window \<Rightarrow> bool" where
  "window_ok w \<longleftrightarrow>
     (\<exists>q. numeric_value (used_percent w) = Some q \<and> 0 \<le> q \<and> q \<le> 100) \<and>
     pred_option counter_ok (window_mins w) \<and> pred_option counter_ok (resets_at w)"

definition credits_ok :: "credits \<Rightarrow> bool" where
  "credits_ok c \<longleftrightarrow> pred_option (\<lambda>b. text_ok max_balance_length b \<and> is_decimal b) (balance c)"

definition bucket_ok :: "bucket \<Rightarrow> bool" where
  "bucket_ok b \<longleftrightarrow>
     pred_option (text_ok max_identifier_length) (limit_id b) \<and> pred_option (text_ok max_label_length) (limit_name b) \<and>
     pred_option window_ok (primary b) \<and> pred_option window_ok (secondary b) \<and>
     pred_option credits_ok (bucket_credits b)"

definition buckets_ok :: "(jsstr \<times> bucket) list \<Rightarrow> bool" where
  "buckets_ok bs \<longleftrightarrow>
     length bs \<le> max_rate_limit_buckets \<and> sorted (map fst bs) \<and>
     (\<forall>p \<in> set bs. map_of bs (fst p) = Some (snd p)) \<and>
     list_all (\<lambda>p. text_ok max_identifier_length (fst p) \<and> bucket_ok (snd p)) bs"

definition count_ok :: "jsstr \<Rightarrow> bool" where
  "count_ok c \<longleftrightarrow> text_ok 64 c \<and> is_decimal c"

definition rate_limits_ok :: "rate_limits \<Rightarrow> bool" where
  "rate_limits_ok r \<longleftrightarrow>
     bucket_ok (current_bucket r) \<and> pred_option buckets_ok (by_limit_id r) \<and> pred_option count_ok (reset_credits r)"

definition auth_snapshot_ok :: "auth_snapshot \<Rightarrow> bool" where
  "auth_snapshot_ok s \<longleftrightarrow>
     pred_option account_ok (auth_account s) \<and> pred_option rate_limits_ok (auth_limits s) \<and>
     pred_option (\<lambda>p. pred_option (text_ok max_identifier_length) (pending_id p)) (auth_pending s) \<and>
     pred_option (\<lambda>e. text_ok max_error_code_length (auth_error_code e)
       \<and> text_ok max_auth_message_length (auth_error_message e)) (auth_error s) \<and>
     (auth_state s = Authenticated \<longrightarrow> auth_account s \<noteq> None) \<and> (auth_state s = Auth_Failed \<longrightarrow> auth_error s \<noteq> None)"

section \<open>Reading back what was built\<close>

definition trusted_is_proxy :: "jsvalue \<Rightarrow> bool" where
  "trusted_is_proxy v = False"

definition members :: "(string \<times> jsvalue) list \<Rightarrow> properties" where
  "members fs = map (\<lambda>(k, v). (js k, Data_Property True v)) fs"

lemma object_of_members: "object_of fs = JsObject True (members fs)"
  by (simp add: object_of_def members_def)

lemma length_members [simp]: "length (members fs) = length fs"
  by (simp add: members_def)

definition lookup :: "(string \<times> jsvalue) list \<Rightarrow> string \<Rightarrow> jsvalue" where
  "lookup fs k = (case map_of fs k of None \<Rightarrow> JsUndefined | Some v \<Rightarrow> v)"

definition opt_else :: "('a \<Rightarrow> jsvalue) \<Rightarrow> 'a option \<Rightarrow> jsvalue \<Rightarrow> jsvalue" where
  "opt_else f x d = (case x of None \<Rightarrow> d | Some y \<Rightarrow> f y)"

lemma map_of_members: "map_of (members fs) (js k) = map_option (Data_Property True) (map_of fs k)"
  by (induction fs) (auto simp: members_def)

lemma read_own_members: "read_own (members fs) (js k) = Inr (lookup fs k)"
  by (simp add: read_own_def lookup_def map_of_members split: option.split)

lemma lookup_simps [simp]:
  "lookup [] k = JsUndefined" "lookup ((k', v) # fs) k = (if k = k' then v else lookup fs k)"
  "lookup (present k' f x @ fs) k = (if k = k' then opt_else f x (lookup fs k) else lookup fs k)"
  "lookup (present k' f x) k = (if k = k' then opt_else f x JsUndefined else JsUndefined)"
  by (cases x; simp add: lookup_def present_def opt_else_def)+

lemma only_keys_members:
  "require_only_keys (members fs) allowed label = Inr ()"
  if "fst ` set fs \<subseteq> set allowed"
proof -
  have "only_keys_loop (members fs) (members gs) allowed label = Inr ()"
    if "fst ` set gs \<subseteq> set allowed" for gs
    using that by (induction gs) (auto simp: members_def read_own_members [unfolded members_def])
  with that show ?thesis by (simp add: require_only_keys_def)
qed

lemma keys_present [simp]: "fst ` set (present k f x) = (if x = None then {} else {k})"
  by (cases x) (simp_all add: present_def)

lemma require_record_object [simp]:
  "length fs \<le> 32 \<Longrightarrow> require_record trusted_is_proxy (object_of fs) label = Inr (members fs)"
  by (simp add: require_record_def object_of_members trusted_is_proxy_def max_record_properties_def)

lemma require_string_Inr [simp]: "require_string v label n = Inr s \<longleftrightarrow> v = JsText s \<and> text_ok n s"
  by (auto simp: require_string_def text_ok_def list_ex_iff list_all_iff split: jsvalue.splits)

lemma require_string_text: "text_ok n s \<Longrightarrow> require_string (JsText s) label n = Inr s"
  by simp

lemma require_decimal_Inr [simp]:
  "require_decimal_string v label n = Inr s \<longleftrightarrow> v = JsText s \<and> text_ok n s \<and> is_decimal s"
  by (auto simp: require_decimal_string_def and_then_Inr split: if_splits)

lemma require_safe_integer_Inr [simp]:
  "require_safe_integer v label 0 = Inr n \<longleftrightarrow> v = int_value n \<and> counter_ok n"
  by (auto simp: require_safe_integer_def int_value_def counter_ok_def split: jsvalue.splits jsnum.splits)

lemma require_boolean_Inr [simp]: "require_boolean v label = Inr b \<longleftrightarrow> v = JsBool b"
  by (auto simp: require_boolean_def split: jsvalue.splits)

lemma require_finite_Inr [simp]:
  "require_finite_number v label lo hi = Inr n \<longleftrightarrow>
     v = JsNumber n \<and> (\<exists>q. numeric_value n = Some q \<and> lo \<le> q \<and> q \<le> hi)"
  by (auto simp: require_finite_number_def split: jsvalue.splits option.splits)

lemma named_plan [simp]: "require_plan (text_value (name_of plan_names p)) = Inr p"
  by (cases p) (simp_all add: require_plan_def named_def text_value_def name_of_def plan_names_def)

lemma named_state [simp]: "named state_names (text_value (name_of state_names s)) label = Inr s"
  by (cases s) (simp_all add: named_def text_value_def name_of_def state_names_def)

lemma named_login [simp]:
  "named [(Api_Key, ''apiKey''), (Chatgpt, ''chatgpt''), (Device_Code, ''chatgptDeviceCode'')]
     (text_value (name_of login_type_names t)) label = Inr t"
  by (cases t) (simp_all add: named_def text_value_def name_of_def login_type_names_def)

lemma text_value_present [simp]: "text_value s \<noteq> JsNull" "text_value s \<noteq> JsUndefined"
  "int_value n \<noteq> JsNull" "int_value n \<noteq> JsUndefined" "object_of fs \<noteq> JsNull" "object_of fs \<noteq> JsUndefined"
  by (simp_all add: text_value_def int_value_def object_of_def)

text \<open>An optional member that was printed is read back.\<close>

lemma unless_absent_present:
  "(\<And>y. x = Some y \<Longrightarrow> f (g y) = Inr y \<and> g y \<noteq> JsNull \<and> g y \<noteq> JsUndefined) \<Longrightarrow>
     unless_absent (opt_else g x JsUndefined) f = Inr x"
  by (cases x) (simp_all add: unless_absent_def is_absent_def opt_else_def)

lemma unless_undefined_present:
  "(\<And>y. x = Some y \<Longrightarrow> f (g y) = Inr y \<and> g y \<noteq> JsUndefined) \<Longrightarrow>
     unless_undefined (opt_else g x JsUndefined) f = Inr x"
  by (cases x) (simp_all add: unless_undefined_def opt_else_def)

lemma optional_present [simp]:
  "pred_option (text_ok n) x \<Longrightarrow> optional_string (opt_else JsText x JsUndefined) label n = Inr x"
  "pred_option counter_ok m \<Longrightarrow>
     unless_absent (opt_else int_value m JsUndefined) (\<lambda>v. require_safe_integer v label 0) = Inr m"
  "pred_option (\<lambda>s. text_ok n s \<and> is_decimal s) d \<Longrightarrow>
     unless_absent (opt_else JsText d JsUndefined) (\<lambda>v. require_decimal_string v label n) = Inr d"
  "unless_undefined (opt_else (\<lambda>p. text_value (name_of plan_names p)) q JsUndefined) require_plan = Inr q"
  "pred_option (text_ok max_identifier_length) x \<Longrightarrow>
     unless_undefined (opt_else JsText x JsUndefined) (\<lambda>v. require_identifier v label) = Inr x"
  unfolding optional_string_def require_identifier_def
  by (rule unless_absent_present unless_undefined_present; simp)+

lemmas read_members = read_field_def read_own_members

lemma length_present_simp [simp]: "length (present k f x) = (if x = None then 0 else 1)"
  by (simp add: present_def split: option.split)

section \<open>Round trips\<close>

lemma account_roundtrip:
  "account_ok a \<Longrightarrow> public_account trusted_is_proxy (account_value a) = Inr a"
proof (cases a)
  case Api_Key_Account
  then show ?thesis
    by (simp add: public_account_def account_value_def read_members only_keys_members text_value_def)
next
  case (Chatgpt_Account e p)
  moreover have "text_value ''chatgpt'' \<noteq> JsText (js ''apiKey'')" "text_value ''chatgpt'' = JsText (js ''chatgpt'')"
    by (simp_all add: text_value_def)
  ultimately show "account_ok a \<Longrightarrow> ?thesis"
    by (simp add: public_account_def account_value_def read_members only_keys_members image_Un account_ok_def)
qed

lemma window_roundtrip: "window_ok w \<Longrightarrow> normalize_window trusted_is_proxy (window_value w) = Inr w"
  by (cases w)
    (auto simp: normalize_window_def window_value_def read_members only_keys_members image_Un and_then_Inr window_ok_def)

lemma credits_roundtrip: "credits_ok c \<Longrightarrow> normalize_credits trusted_is_proxy (credits_value c) = Inr c"
  by (cases c)
    (auto simp: normalize_credits_def credits_value_def read_members only_keys_members image_Un and_then_Inr
      credits_ok_def)

lemma optional_parts [simp]:
  "pred_option window_ok w \<Longrightarrow> optional_window trusted_is_proxy (opt_else window_value w JsUndefined) = Inr w"
  "pred_option credits_ok c \<Longrightarrow> optional_credits trusted_is_proxy (opt_else credits_value c JsUndefined) = Inr c"
  unfolding optional_window_def optional_credits_def
  by (rule unless_absent_present; simp add: window_roundtrip credits_roundtrip, simp add: window_value_def credits_value_def)+

lemma bucket_fields_roundtrip:
  assumes "bucket_ok b" and "lookup fs ''limitId'' = opt_else JsText (limit_id b) JsUndefined"
    and "lookup fs ''limitName'' = opt_else JsText (limit_name b) JsUndefined"
    and "lookup fs ''primary'' = opt_else window_value (primary b) JsUndefined"
    and "lookup fs ''secondary'' = opt_else window_value (secondary b) JsUndefined"
    and "lookup fs ''credits'' = opt_else credits_value (bucket_credits b) JsUndefined"
    and "lookup fs ''plan'' = opt_else (\<lambda>p. text_value (name_of plan_names p)) (bucket_plan b) JsUndefined"
  shows "bucket_fields trusted_is_proxy (members fs) ''plan'' (\<lambda>x. unless_undefined x require_plan) = Inr b"
  using assms by (cases b) (simp add: bucket_fields_def read_members bucket_ok_def)

lemma bucket_keys:
  "fst ` set (bucket_members b) \<subseteq> {''limitId'', ''limitName'', ''primary'', ''secondary'', ''credits'', ''plan''}"
  by (auto simp: bucket_members_def image_Un)

lemma length_bucket_members: "length (bucket_members b) \<le> 6"
  by (simp add: bucket_members_def)

lemma public_bucket_roundtrip:
  assumes "bucket_ok b" and "fs = bucket_members b @ rest" and "fst ` set rest \<subseteq> {''byLimitId'', ''resetCredits''}"
  shows "public_bucket trusted_is_proxy (members fs) = Inr b"
proof -
  have none: "lookup rest k = JsUndefined" if "k \<notin> {''byLimitId'', ''resetCredits''}" for k
  proof -
    have "k \<notin> fst ` set rest" using that assms(3) by blast
    then have "map_of rest k = None" by (simp add: map_of_eq_None_iff)
    then show ?thesis by (simp add: lookup_def)
  qed
  have "fst ` set fs \<subseteq> set [''limitId'', ''limitName'', ''primary'', ''secondary'', ''credits'', ''plan'', ''byLimitId'', ''resetCredits'']"
    using assms(2,3) bucket_keys [of b] by (auto simp: image_Un)
  then show ?thesis
    unfolding public_bucket_def
    by (subst only_keys_members; simp only: and_then_simps)
      (rule bucket_fields_roundtrip [OF assms(1)]; simp add: assms(2) bucket_members_def none)
qed

lemma sort_keys: "sorted ks \<Longrightarrow> sort ks = ks"
  by (rule sort_key_id_if_sorted) simp

lemma enumerable_buckets [simp]:
  "enumerable_keys (map (\<lambda>(k, b). (k, Data_Property True (f b))) bs) = map fst bs"
  by (induction bs) (auto simp: enumerable_keys_def)

lemma buckets_roundtrip:
  assumes "buckets_ok bs"
  shows "public_buckets trusted_is_proxy (buckets_value bs) = Inr bs"
proof -
  let ?ps = "map (\<lambda>(k, b). (k, Data_Property True (object_of (bucket_members b)))) bs"
  let ?f = "normalize_entry (\<lambda>v. and_then (require_record trusted_is_proxy v ''public rate-limit bucket'')
      (public_bucket trusted_is_proxy)) ?ps"
  have "length bs \<le> 16" using assms by (simp add: buckets_ok_def max_rate_limit_buckets_def)
  then have rec: "require_record trusted_is_proxy (buckets_value bs) label = Inr ?ps" for label
    by (simp add: require_record_def buckets_value_def trusted_is_proxy_def max_record_properties_def)
  have "?f (fst p) = Inr p" if "p \<in> set bs" for p
  proof -
    obtain k b where p: "p = (k, b)" by fastforce
    have ok: "text_ok max_identifier_length k" "bucket_ok b" using assms that p by (auto simp: buckets_ok_def list_all_iff)
    have "map_of bs k = Some b" using assms that p by (auto simp: buckets_ok_def)
    then have "map_of ?ps k = Some (Data_Property True (object_of (bucket_members b)))" by (simp add: map_of_map)
    then have "read_own ?ps k = Inr (object_of (bucket_members b))" by (simp add: read_own_def)
    with ok p length_bucket_members [of b] show ?thesis
      by (simp add: normalize_entry_def require_string_text public_bucket_roundtrip [where rest = "[]"])
  qed
  then have "traverse ?f (map fst bs) = Inr bs" by (rule traverse_map_Inr)
  moreover have "sort (map fst bs) = map fst bs" using assms by (intro sort_keys) (simp add: buckets_ok_def)
  ultimately show ?thesis using assms rec by (simp add: public_buckets_def buckets_ok_def)
qed

lemma buckets_value_present [simp]: "buckets_value bs \<noteq> JsNull" "buckets_value bs \<noteq> JsUndefined"
  by (simp_all add: buckets_value_def)

lemma reset_roundtrip:
  "count_ok c \<Longrightarrow> public_reset_credits trusted_is_proxy (object_of [(''availableCount'', JsText c)]) = Inr c"
  by (simp add: public_reset_credits_def read_members only_keys_members count_ok_def)

lemma rate_limits_roundtrip:
  assumes "rate_limits_ok r"
  shows "public_rate_limits trusted_is_proxy (rate_limits_value r) = Inr r"
proof -
  let ?rest = "present ''byLimitId'' buckets_value (by_limit_id r)
       @ present ''resetCredits'' (\<lambda>c. object_of [(''availableCount'', JsText c)]) (reset_credits r)"
  let ?fs = "bucket_members (current_bucket r) @ ?rest"
  have keys: "k \<notin> fst ` set (bucket_members b) \<Longrightarrow> lookup (bucket_members b @ fs) k = lookup fs k" for k b fs
    by (simp add: lookup_def map_of_append map_add_def map_of_eq_None_iff split: option.split)
      (metis map_of_eq_None_iff option.distinct(1))
  have by_limit: "lookup ?fs ''byLimitId'' = opt_else buckets_value (by_limit_id r) JsUndefined"
    using bucket_keys [of "current_bucket r"] by (subst keys) auto
  have reset: "lookup ?fs ''resetCredits'' =
      opt_else (\<lambda>c. object_of [(''availableCount'', JsText c)]) (reset_credits r) JsUndefined"
    using bucket_keys [of "current_bucket r"] by (subst keys) auto
  have bucket: "public_bucket trusted_is_proxy (members ?fs) = Inr (current_bucket r)"
    using assms by (intro public_bucket_roundtrip [OF _ refl]) (auto simp: rate_limits_ok_def image_Un)
  have "unless_undefined (opt_else buckets_value (by_limit_id r) JsUndefined) (public_buckets trusted_is_proxy) = Inr (by_limit_id r)"
    using assms by (intro unless_undefined_present) (simp add: rate_limits_ok_def buckets_roundtrip)
  moreover have "unless_undefined (opt_else (\<lambda>c. object_of [(''availableCount'', JsText c)]) (reset_credits r) JsUndefined)
      (public_reset_credits trusted_is_proxy) = Inr (reset_credits r)"
    using assms by (intro unless_undefined_present) (simp add: rate_limits_ok_def reset_roundtrip)
  moreover have "length ?fs \<le> 32" using length_bucket_members [of "current_bucket r"] by simp
  ultimately show ?thesis
    by (simp add: public_rate_limits_def rate_limits_value_def bucket read_own_members by_limit reset)
qed

lemma pending_roundtrip:
  "pred_option (text_ok max_identifier_length) (pending_id p) \<Longrightarrow>
     public_pending_login trusted_is_proxy (pending_value p) = Inr p"
  by (cases p) (simp add: public_pending_login_def pending_value_def read_members only_keys_members image_Un)

lemma error_roundtrip:
  "text_ok max_error_code_length (auth_error_code e) \<Longrightarrow> text_ok max_auth_message_length (auth_error_message e) \<Longrightarrow>
     public_auth_error trusted_is_proxy (error_value e) = Inr e"
  by (cases e) (simp add: public_auth_error_def error_value_def read_members only_keys_members require_string_text)

lemma value_present [simp]:
  "account_value a \<noteq> JsUndefined" "rate_limits_value r \<noteq> JsUndefined" "pending_value p \<noteq> JsUndefined"
  "error_value e \<noteq> JsUndefined"
  by (simp_all add: account_value_def rate_limits_value_def pending_value_def error_value_def split: auth_account.split)

lemma snapshot_roundtrip:
  assumes "auth_snapshot_ok s"
  shows "create_snapshot trusted_is_proxy (snapshot_value s) = Inr s"
proof -
  note ok = assms [unfolded auth_snapshot_ok_def]
  have "unless_undefined (opt_else account_value (auth_account s) JsUndefined) (public_account trusted_is_proxy) = Inr (auth_account s)"
    using ok by (intro unless_undefined_present) (simp add: account_roundtrip)
  moreover have "unless_undefined (opt_else rate_limits_value (auth_limits s) JsUndefined) (public_rate_limits trusted_is_proxy) = Inr (auth_limits s)"
    using ok by (intro unless_undefined_present) (simp add: rate_limits_roundtrip)
  moreover have "unless_undefined (opt_else pending_value (auth_pending s) JsUndefined) (public_pending_login trusted_is_proxy) = Inr (auth_pending s)"
    using ok by (intro unless_undefined_present) (simp add: pending_roundtrip)
  moreover have "unless_undefined (opt_else error_value (auth_error s) JsUndefined) (public_auth_error trusted_is_proxy) = Inr (auth_error s)"
    using ok by (intro unless_undefined_present) (simp add: error_roundtrip)
  ultimately show ?thesis
    using ok by (cases s) (simp add: create_snapshot_def snapshot_value_def read_members only_keys_members image_Un)
qed

section \<open>What is accepted is well-formed\<close>

lemma unless_absent_Inr: "unless_absent v f = Inr x \<Longrightarrow> (\<And>y. f v = Inr y \<Longrightarrow> P y) \<Longrightarrow> pred_option P x"
  by (auto simp: unless_absent_def and_then_Inr split: if_splits)

lemma unless_undefined_Inr: "unless_undefined v f = Inr x \<Longrightarrow> (\<And>y. f v = Inr y \<Longrightarrow> P y) \<Longrightarrow> pred_option P x"
  by (auto simp: unless_undefined_def and_then_Inr split: if_splits)

lemma optional_string_ok: "optional_string v label n = Inr x \<Longrightarrow> pred_option (text_ok n) x"
  unfolding optional_string_def by (erule unless_absent_Inr) simp

lemmas read_Inr = read_field_def and_then_Inr

lemma normalize_window_ok: "normalize_window px v = Inr w \<Longrightarrow> window_ok w"
  by (auto simp: normalize_window_def read_Inr window_ok_def elim!: unless_absent_Inr)

lemma normalize_credits_ok: "normalize_credits px v = Inr c \<Longrightarrow> credits_ok c"
  by (auto simp: normalize_credits_def read_Inr credits_ok_def elim!: unless_absent_Inr)

lemma bucket_fields_ok: "bucket_fields px r key f = Inr b \<Longrightarrow> bucket_ok b"
  by (auto simp: bucket_fields_def read_Inr bucket_ok_def optional_window_def optional_credits_def
      intro: normalize_window_ok normalize_credits_ok elim!: unless_absent_Inr optional_string_ok)

lemma normalize_bucket_ok: "normalize_bucket px v = Inr b \<Longrightarrow> bucket_ok b"
  by (auto simp: normalize_bucket_def and_then_Inr intro: bucket_fields_ok)

lemma account_accepted_ok:
  "normalize_account px v = Inr x \<Longrightarrow> pred_option account_ok x" "public_account px v = Inr a \<Longrightarrow> account_ok a"
  by (auto simp: normalize_account_def public_account_def read_Inr account_ok_def Let_def
      elim!: unless_absent_Inr split: if_splits) (erule optional_string_ok)+

text \<open>Values as \<open>JSON.parse\<close> or an object literal make them: property names are distinct, and there
  are no bigints.\<close>

fun plain_value :: "jsvalue \<Rightarrow> bool" and plain_property :: "property \<Rightarrow> bool" where
  "plain_value (JsArray vs) = (\<forall>v \<in> set vs. plain_value v)"
| "plain_value (JsObject _ ps) = (distinct (map fst ps) \<and> (\<forall>p \<in> set ps. plain_property (snd p)))"
| "plain_value (JsBigint _) = False"
| "plain_value _ = True"
| "plain_property (Data_Property _ v) = plain_value v"
| "plain_property (Accessor_Property _) = True"

lemma plain_field:
  "plain_value v \<Longrightarrow> require_record px v label = Inr r \<Longrightarrow> read_own r k = Inr w \<Longrightarrow> plain_value w"
  by (force simp: require_record_def read_own_def dest!: map_of_SomeD
      split: jsvalue.splits if_splits option.splits property.splits)

lemma normalize_entries_ok:
  assumes "traverse (normalize_entry f r) (sort (enumerable_keys r)) = Inr bs"
    and "length (enumerable_keys r) \<le> max_rate_limit_buckets" and "\<And>v b. f v = Inr b \<Longrightarrow> bucket_ok b"
  shows "buckets_ok bs"
proof -
  have entries: "list_all2 (\<lambda>k p. fst p = k \<and> normalize_entry f r (fst p) = Inr p) (sort (enumerable_keys r)) bs"
    using assms(1) unfolding traverse_Inr
    by (rule list_all2_mono) (auto simp: normalize_entry_def and_then_Inr)
  then have keys: "map fst bs = sort (enumerable_keys r)"
    by (induction rule: list_all2_induct) simp_all
  have all: "list_all (\<lambda>p. normalize_entry f r (fst p) = Inr p) bs"
    using entries by (induction rule: list_all2_induct) simp_all
  have "map_of bs (fst p) = Some (snd p)" if "p \<in> set bs" for p
  proof -
    have "map_of bs (fst p) \<noteq> None" using that by (simp add: map_of_eq_None_iff)
    then obtain y where y: "map_of bs (fst p) = Some y" by blast
    then have "(fst p, y) \<in> set bs" by (rule map_of_SomeD)
    with all have "normalize_entry f r (fst (fst p, y)) = Inr (fst p, y)" unfolding list_all_iff by (rule bspec)
    moreover have "normalize_entry f r (fst p) = Inr p" using all that unfolding list_all_iff by (rule bspec)
    ultimately have "p = (fst p, y)" by simp
    then show ?thesis using y by (metis snd_conv)
  qed
  moreover have "sorted (map fst bs)" using keys by simp
  moreover have "length bs \<le> max_rate_limit_buckets"
    using entries assms(2) by (auto dest!: list_all2_lengthD)
  moreover have "list_all (\<lambda>p. text_ok max_identifier_length (fst p) \<and> bucket_ok (snd p)) bs"
    using all by (rule list.pred_mono_strong) (auto simp: normalize_entry_def and_then_Inr assms(3))
  ultimately show ?thesis by (simp add: buckets_ok_def)
qed

lemma rate_record_ok: "normalize_rate_record px v = Inr bs \<Longrightarrow> buckets_ok bs"
  by (auto simp: normalize_rate_record_def and_then_Inr split: if_splits
      intro!: normalize_entries_ok normalize_bucket_ok)

lemma public_buckets_ok: "public_buckets px v = Inr bs \<Longrightarrow> buckets_ok bs"
  by (auto simp: public_buckets_def public_bucket_def and_then_Inr split: if_splits
      intro!: normalize_entries_ok intro: bucket_fields_ok)

lemma digits_not_control: "is_digit c \<Longrightarrow> \<not> is_control c"
  by (auto simp: is_digit_def is_control_def)

lemma all_digits_decimal: "all_digits s \<Longrightarrow> is_decimal s"
proof -
  assume "all_digits s"
  then have s: "s \<noteq> []" "list_all is_digit s" by (simp_all add: all_digits_def)
  then have "takeWhile is_digit s = s" "dropWhile is_digit s = []"
    by (simp_all only: takeWhile_eq_all_conv dropWhile_eq_Nil_conv list_all_iff)
  moreover have "(case s of c # cs \<Rightarrow> if c = 0x2D then cs else s | [] \<Rightarrow> []) = s"
    using s by (cases s) (auto simp: is_digit_def)
  ultimately show ?thesis using s(1) by (simp only: is_decimal_def Let_def) simp
qed

lemma nat_digits_length: "n < 10 ^ k \<Longrightarrow> 0 < k \<Longrightarrow> length (nat_digits n) \<le> k"
proof (induction k arbitrary: n)
  case (Suc k)
  show ?case
  proof (cases "n < 10")
    case True
    then show ?thesis by (subst nat_digits.simps) simp
  next
    case False
    with Suc.prems have "0 < k" by (cases k) simp_all
    moreover have "n div 10 < 10 ^ k" using Suc.prems(1) by (simp add: less_mult_imp_div_less mult.commute)
    ultimately have "length (nat_digits (n div 10)) \<le> k" by (rule Suc.IH [rotated])
    then show ?thesis using False by (subst nat_digits.simps) simp
  qed
qed simp

lemma count_from_digits: "all_digits s \<Longrightarrow> length s \<le> 64 \<Longrightarrow> count_ok s"
  by (auto simp: count_ok_def text_ok_def all_digits_decimal all_digits_def list_all_iff digits_not_control)

lemma safe_count_ok: "counter_ok n \<Longrightarrow> count_ok (int_to_string n)"
proof -
  assume "counter_ok n"
  then have n: "0 \<le> n" "nat n < 10 ^ 16" by (auto simp: counter_ok_def safe_int_def max_safe_integer_def)
  have "length (nat_digits (nat n)) \<le> 64" using nat_digits_length [OF n(2)] by simp
  moreover have "list_all is_digit (nat_digits (nat n))" by (auto simp: list_all_iff nat_digits_digits)
  ultimately show ?thesis using n(1) by (intro count_from_digits) (simp_all add: int_to_string_def all_digits_def)
qed

lemma reset_credits_ok:
  assumes "plain_value v" and "normalize_reset_credits px v = Inr c"
  shows "count_ok c"
proof -
  obtain r raw where r: "require_record px v ''reset credits'' = Inr r" "read_own r (js ''availableCount'') = Inr raw"
    "(case raw of
        JsBigint n \<Rightarrow> Inr (int_to_string n)
      | JsNumber (NInt n) \<Rightarrow>
          if safe_int n \<and> 0 \<le> n then Inr (int_to_string n)
          else require_decimal_string raw ''reset credit count'' 64
      | _ \<Rightarrow> require_decimal_string raw ''reset credit count'' 64) = Inr c"
    using assms(2) by (auto simp: normalize_reset_credits_def and_then_Inr split: if_splits)
  have "plain_value raw" using plain_field [OF assms(1) r(1) r(2)] .
  with r(3) show ?thesis
    by (auto simp: count_ok_def split: jsvalue.splits jsnum.splits if_splits
        intro: safe_count_ok [unfolded count_ok_def counter_ok_def, THEN conjunct1]
          safe_count_ok [unfolded count_ok_def counter_ok_def, THEN conjunct2])
qed

lemma rate_limits_accepted_ok:
  "plain_value v \<Longrightarrow> normalize_rate_limits px v = Inr x \<Longrightarrow> pred_option rate_limits_ok x"
  by (auto simp: normalize_rate_limits_def read_Inr rate_limits_ok_def elim!: unless_absent_Inr)
    (blast intro: normalize_bucket_ok rate_record_ok reset_credits_ok plain_field)+

lemma public_rate_limits_ok: "public_rate_limits px v = Inr r \<Longrightarrow> rate_limits_ok r"
  by (auto simp: public_rate_limits_def public_bucket_def public_reset_credits_def read_Inr rate_limits_ok_def count_ok_def
      elim!: unless_undefined_Inr intro: bucket_fields_ok public_buckets_ok)

lemma create_snapshot_parts:
  assumes "create_snapshot px v = Inr s"
  obtains r a l p e where "require_record px v ''auth snapshot'' = Inr r"
    "read_own r (js ''account'') = Inr a" "unless_undefined a (public_account px) = Inr (auth_account s)"
    "read_own r (js ''rateLimits'') = Inr l" "unless_undefined l (public_rate_limits px) = Inr (auth_limits s)"
    "read_own r (js ''pendingLogin'') = Inr p" "unless_undefined p (public_pending_login px) = Inr (auth_pending s)"
    "read_own r (js ''error'') = Inr e" "unless_undefined e (public_auth_error px) = Inr (auth_error s)"
    "auth_state s = Authenticated \<longrightarrow> auth_account s \<noteq> None" "auth_state s = Auth_Failed \<longrightarrow> auth_error s \<noteq> None"
  using assms by (auto simp: create_snapshot_def read_Inr split: if_splits)

lemma create_snapshot_ok:
  assumes "create_snapshot px v = Inr s"
  shows "auth_snapshot_ok s"
  using assms
proof (cases rule: create_snapshot_parts)
  case (1 r a l p e)
  have "pred_option account_ok (auth_account s)"
    by (rule unless_undefined_Inr [OF 1(3)]) (rule account_accepted_ok(2))
  moreover have "pred_option rate_limits_ok (auth_limits s)"
    by (rule unless_undefined_Inr [OF 1(5)]) (rule public_rate_limits_ok)
  moreover have "pred_option (\<lambda>p. pred_option (text_ok max_identifier_length) (pending_id p)) (auth_pending s)"
    by (rule unless_undefined_Inr [OF 1(7)])
      (auto simp: public_pending_login_def read_Inr require_identifier_def elim!: unless_undefined_Inr)
  moreover have "pred_option (\<lambda>e. text_ok max_error_code_length (auth_error_code e)
       \<and> text_ok max_auth_message_length (auth_error_message e)) (auth_error s)"
    by (rule unless_undefined_Inr [OF 1(9)]) (auto simp: public_auth_error_def read_Inr)
  ultimately show ?thesis using 1(10,11) by (simp add: auth_snapshot_ok_def)
qed

section \<open>Properties\<close>

definition sample_snapshot :: auth_snapshot where
  "sample_snapshot =
     \<lparr>auth_state = Authenticated, auth_account = Some (Chatgpt_Account (Some (js ''a@b'')) Plus), auth_limits = None,
      auth_pending = Some \<lparr>pending_type = Chatgpt, pending_id = None\<rparr>, auth_error = None\<rparr>"

lemma sample_snapshot_ok: "auth_snapshot_ok sample_snapshot"
  by (simp add: sample_snapshot_def auth_snapshot_ok_def account_ok_def text_ok_def max_email_length_def js_def
      is_control_def)

text \<open>C40. Publishing is stable: whatever value the snapshot normalizer accepts, its result is within all
  bounds (lengths, counts, percentages, an account when authenticated, an error when failed), and
  normalizing the result again gives the same snapshot.\<close>

theorem auth_snapshot_idempotent:
  assumes "create_snapshot px v = Inr s"
  shows "auth_snapshot_ok s \<and> create_snapshot trusted_is_proxy (snapshot_value s) = Inr s"
  using create_snapshot_ok [OF assms] snapshot_roundtrip by blast

theorem auth_snapshot_idempotent_witness:
  "auth_snapshot_ok sample_snapshot \<and> create_snapshot trusted_is_proxy (snapshot_value sample_snapshot) = Inr sample_snapshot"
  by (rule auth_snapshot_idempotent [OF snapshot_roundtrip [OF sample_snapshot_ok]])

text \<open>Rate limits read from the app server can always be published: the private normalizer only
  lets through what the public one accepts unchanged, so a snapshot that carries them is not
  refused later.\<close>

theorem rate_limits_publishable:
  assumes "plain_value v" and "normalize_rate_limits px v = Inr (Some r)"
  shows "public_rate_limits trusted_is_proxy (rate_limits_value r) = Inr r"
  using rate_limits_accepted_ok [OF assms] by (simp add: rate_limits_roundtrip)

theorem rate_limits_publishable_witness:
  "let r = \<lparr>current_bucket = \<lparr>limit_id = None, limit_name = None, primary = None, secondary = None,
       bucket_credits = None, bucket_plan = None\<rparr>, by_limit_id = None, reset_credits = Some (js ''3'')\<rparr>
   in public_rate_limits trusted_is_proxy (rate_limits_value r) = Inr r"
  unfolding Let_def
proof (rule rate_limits_publishable [where v = "object_of [(''rateLimits'', object_of []),
      (''rateLimitResetCredits'', object_of [(''availableCount'', int_value 3)])]" and px = trusted_is_proxy])
  have digits: "int_to_string 3 = js ''3''"
    by (simp add: int_to_string_def nat_digits.simps digit_unit_def js_def)
  have "all_digits (js ''3'')" by (simp add: all_digits_def is_digit_def js_def)
  then show "normalize_rate_limits trusted_is_proxy (object_of [(''rateLimits'', object_of []),
      (''rateLimitResetCredits'', object_of [(''availableCount'', int_value 3)])]) =
      Inr (Some \<lparr>current_bucket = \<lparr>limit_id = None, limit_name = None, primary = None, secondary = None,
       bucket_credits = None, bucket_plan = None\<rparr>, by_limit_id = None, reset_credits = Some (js ''3'')\<rparr>)"
    by (simp add: normalize_rate_limits_def unless_absent_def is_absent_def read_members only_keys_members
        normalize_bucket_def bucket_fields_def optional_string_def optional_window_def optional_credits_def
        normalize_reset_credits_def int_value_def digits safe_int_def max_safe_integer_def)
qed (simp add: object_of_def int_value_def)

text \<open>Nothing but plain data is published: a value the snapshot normalizer accepts is a plain object the
  inspector does not flag, with at most 32 properties, all of them among the five known ones and
  none an accessor.\<close>

lemma only_keys_Inr:
  "only_keys_loop ps qs allowed label = Inr u \<Longrightarrow>
     \<forall>p \<in> set qs. fst p \<in> set (map js allowed) \<and> (\<exists>v. read_own ps (fst p) = Inr v)"
  by (induction ps qs allowed label rule: only_keys_loop.induct) (auto simp: and_then_Inr split: if_splits)

theorem auth_snapshot_plain_only:
  assumes "create_snapshot px v = Inr s"
  shows "\<exists>ps. v = JsObject True ps \<and> \<not> px v \<and> length ps \<le> 32 \<and>
    (\<forall>p \<in> set ps. fst p \<in> set (map js [''state'', ''account'', ''rateLimits'', ''pendingLogin'', ''error'']) \<and>
      (\<exists>w. read_own ps (fst p) = Inr w))"
proof -
  obtain r where r: "require_record px v ''auth snapshot'' = Inr r"
    "require_only_keys r [''state'', ''account'', ''rateLimits'', ''pendingLogin'', ''error''] ''auth snapshot'' = Inr ()"
    using assms by (auto simp: create_snapshot_def and_then_Inr)
  have "v = JsObject True r \<and> \<not> px v \<and> length r \<le> 32"
    using r(1) by (auto simp: require_record_def max_record_properties_def not_less split: jsvalue.splits if_splits)
  with only_keys_Inr [OF r(2) [unfolded require_only_keys_def]] show ?thesis by blast
qed

theorem auth_snapshot_plain_only_witness:
  "\<exists>ps. snapshot_value sample_snapshot = JsObject True ps \<and> length ps \<le> 32"
  using auth_snapshot_plain_only [OF snapshot_roundtrip [OF sample_snapshot_ok]] by blast

text \<open>A login page is only ever an HTTPS URL: the address a browser or device login returns is the
  normal form of a parsed URL with the https scheme, a host and no credentials, and the login
  identifier is bounded text.\<close>

theorem login_url_https:
  assumes "normalize_login_result px url v = Inr r" and "r = Browser_Login i u \<or> r = Device_Login i u c"
  shows "text_ok 256 i \<and> (\<exists>t w. url t = Some w \<and> u = url_href w \<and> url_protocol w = js ''https:'' \<and>
    url_username w = [] \<and> url_password w = [] \<and> url_hostname w \<noteq> [])"
  using assms
  by (auto simp: normalize_login_result_def read_Inr require_https_url_def require_identifier_def
      max_identifier_length_def split: if_splits option.splits)

theorem login_url_https_witness:
  "let w = \<lparr>url_protocol = js ''https:'', url_username = [], url_password = [], url_hostname = js ''a'', url_href = js ''https://a/''\<rparr>
   in \<exists>t u. (if t = js ''https://a'' then Some w else None) = Some u \<and> js ''https://a/'' = url_href u"
proof -
  define w where "w = \<lparr>url_protocol = js ''https:'', url_username = [], url_password = [], url_hostname = js ''a'', url_href = js ''https://a/''\<rparr>"
  have texts: "text_ok 32 (js ''chatgpt'')" "text_ok 256 (js ''x'')" "text_ok 2048 (js ''https://a'')"
    by (simp_all add: text_ok_def is_control_def js_def)
  have "normalize_login_result trusted_is_proxy (\<lambda>t. if t = js ''https://a'' then Some w else None)
      (object_of [(''type'', text_value ''chatgpt''), (''loginId'', text_value ''x''), (''authUrl'', text_value ''https://a'')]) =
      Inr (Browser_Login (js ''x'') (js ''https://a/''))"
    using texts
    by (simp add: normalize_login_result_def read_members only_keys_members require_string_text require_identifier_def
        require_https_url_def text_value_def max_identifier_length_def max_url_length_def w_def)
  from login_url_https [OF this, of "js ''x''" "js ''https://a/''"] show ?thesis by (auto simp: w_def)
qed

end
