(* ===== verification/AuthBroker.thy ===== *)
theory AuthBroker
  imports AuthFacts JsMap
begin

text \<open>
  The authentication broker (\<open>src/node/ride-codex-auth-broker.ts\<close>): it owns the published
  authentication snapshot and serves logins, account reads and rate limit reads over one lease on
  the app server. Its methods are asynchronous: each \<open>await\<close> splits a method into steps, and what
  waits is a task in the table \<open>tasks\<close>, so that every interleaving of responses, notifications,
  host state changes and disposal is a sequence of events. What the broker does to the outside is
  appended to \<open>effects\<close>. The app server host is a parameter through its responses; the inspector
  and the URL parser are the parameters of theory \<open>Auth\<close>. Snapshot objects are numbered, because
  the code compares them by identity.
\<close>

section \<open>State\<close>

datatype auth_code = Invalid_Data | Operation_Failed | Operation_Superseded | Unknown_Login | Broker_Disposed

datatype failure = Auth_Failure auth_code | Thrown data_error

text \<open>What a \<open>catch\<close> block can receive.\<close>

datatype caught = Caught_Auth auth_code | Caught_Data data_error | Caught_Other

datatype response = Answered jsvalue | Failed caught

datatype login_status = Active_Login | Canceled_Login | Completed_Login

record known_login =
  login_status :: login_status
  login_operation :: nat

record refresh_context =
  context_refresh :: nat
  context_operation :: nat
  context_revision :: nat
  context_generation :: int

type_synonym snapshot_object = "nat \<times> auth_snapshot"

datatype call = Activate | Read_Account bool | Login login_request | Cancel jsstr | Logout | Read_Rates

datatype reader =
  Caller_Read | Activation_Read | Host_Read | Key_Confirmation "snapshot_object \<times> snapshot_object"

datatype settled = Done | Done_Snapshot auth_snapshot | Done_Login login_result | Refused failure

datatype task =
    Awaiting_Lease call "auth_code option option"
  | Awaiting_Account nat nat reader
  | Awaiting_Login nat login_type "snapshot_object \<times> snapshot_object"
  | Awaiting_Key nat "snapshot_object \<times> snapshot_object"
  | Key_Confirmed nat "snapshot_object \<times> snapshot_object" snapshot_object
  | Awaiting_Cancel nat jsstr
  | Awaiting_Logout nat
  | Awaiting_Rates nat nat
  | Awaiting_Refresh refresh_context
  | Refresh_Finished refresh_context
  | Activation_Finished settled

datatype effect =
    Acquire_Lease
  | Release_Lease
  | Requested nat string jsvalue
  | Published nat auth_snapshot
  | Settled nat settled
  | Joined nat nat
  | Protocol_Error
  | Secret_Registered nat
  | Secret_Released nat
  | Detached

record broker =
  published :: snapshot_object
  next_object :: nat
  lease :: bool
  lease_waiting :: bool
  activation :: "nat option"
  active_generation :: int
  caller_operation :: nat
  refresh_counter :: nat
  refresh_flight :: "refresh_context option"
  refresh_queue :: "refresh_context option"
  account_revision :: nat
  rate_operation :: nat
  rate_version :: nat
  known_logins :: "(jsstr, known_login) jsmap"
  signatures :: "(string, jsstr) jsmap"
  auth_clients :: "nat list"
  broker_disposed :: bool
  tasks :: "(nat, task) jsmap"
  next_task :: nat
  effects :: "effect list"

record auth_env =
  env_is_proxy :: "jsvalue \<Rightarrow> bool"
  env_url :: "jsstr \<Rightarrow> url option"

definition auth_message :: "auth_code \<Rightarrow> string" where
  "auth_message c =
     (case c of
        Invalid_Data \<Rightarrow> ''Codex authentication returned invalid data.''
      | Operation_Failed \<Rightarrow> ''Codex authentication could not be completed.''
      | Operation_Superseded \<Rightarrow> ''Codex authentication operation was superseded.''
      | Unknown_Login \<Rightarrow> ''Codex login is not known or is no longer active.''
      | Broker_Disposed \<Rightarrow> ''Codex authentication broker is disposed.'')"

definition auth_code_name :: "auth_code \<Rightarrow> string" where
  "auth_code_name c =
     (case c of
        Invalid_Data \<Rightarrow> ''invalid-data''
      | Operation_Failed \<Rightarrow> ''operation-failed''
      | Operation_Superseded \<Rightarrow> ''operation-superseded''
      | Unknown_Login \<Rightarrow> ''unknown-login''
      | Broker_Disposed \<Rightarrow> ''disposed'')"

definition max_known_logins :: nat where "max_known_logins = 32"

definition plain_state :: "auth_state \<Rightarrow> auth_snapshot" where
  "plain_state st = \<lparr>auth_state = st, auth_account = None, auth_limits = None, auth_pending = None, auth_error = None\<rparr>"

definition new_broker :: broker where
  "new_broker =
     \<lparr>published = (0, plain_state Inactive), next_object = 1, lease = False, lease_waiting = False, activation = None,
      active_generation = 0, caller_operation = 0, refresh_counter = 0, refresh_flight = None, refresh_queue = None,
      account_revision = 0, rate_operation = 0, rate_version = 0, known_logins = [], signatures = [],
      auth_clients = [], broker_disposed = False, tasks = [], next_task = 0, effects = []\<rparr>"

abbreviation current :: "broker \<Rightarrow> auth_snapshot" where
  "current b \<equiv> snd (published b)"

section \<open>Elementary operations\<close>

definition emit :: "effect list \<Rightarrow> broker \<Rightarrow> broker" where
  "emit es b = b\<lparr>effects := effects b @ es\<rparr>"

definition settle :: "nat \<Rightarrow> settled \<Rightarrow> broker \<Rightarrow> broker" where
  "settle k r b = emit [Settled k r] b"

definition put_task :: "nat \<Rightarrow> task \<Rightarrow> broker \<Rightarrow> broker" where
  "put_task k t b = b\<lparr>tasks := map_set (tasks b) k t\<rparr>"

definition publish :: "snapshot_object \<Rightarrow> broker \<Rightarrow> broker" where
  "publish s b = emit (map (\<lambda>c. Published c (snd s)) (auth_clients b)) (b\<lparr>published := s\<rparr>)"

definition set_snapshot :: "auth_snapshot \<Rightarrow> broker \<Rightarrow> data_error option \<times> broker" where
  "set_snapshot draft b =
     (case create_snapshot trusted_is_proxy (snapshot_value draft) of
        Inl e \<Rightarrow> (Some e, b)
      | Inr s \<Rightarrow> (None, publish (next_object b, s) (b\<lparr>next_object := next_object b + 1\<rparr>)))"

definition set_auth_snapshot :: "auth_snapshot \<Rightarrow> broker \<Rightarrow> data_error option \<times> broker" where
  "set_auth_snapshot draft b = set_snapshot draft (b\<lparr>account_revision := account_revision b + 1\<rparr>)"

definition restore_snapshot :: "snapshot_object \<Rightarrow> broker \<Rightarrow> broker" where
  "restore_snapshot s b = publish s (b\<lparr>account_revision := account_revision b + 1\<rparr>)"

definition set_generic_error :: "auth_code \<Rightarrow> broker \<Rightarrow> data_error option \<times> broker" where
  "set_generic_error c b =
     set_auth_snapshot
       \<lparr>auth_state = Auth_Failed, auth_account = auth_account (current b), auth_limits = auth_limits (current b),
        auth_pending = None,
        auth_error = Some \<lparr>auth_error_code = js (auth_code_name c), auth_error_message = js (auth_message c)\<rparr>\<rparr> b"

definition invalidate_refresh :: "broker \<Rightarrow> broker" where
  "invalidate_refresh b = b\<lparr>refresh_counter := refresh_counter b + 1, refresh_queue := None\<rparr>"

definition begin_operation :: "broker \<Rightarrow> broker" where
  "begin_operation b = invalidate_refresh (b\<lparr>caller_operation := caller_operation b + 1\<rparr>)"

definition invalidate_rate_reads :: "broker \<Rightarrow> broker" where
  "invalidate_rate_reads b = b\<lparr>rate_operation := rate_operation b + 1, rate_version := rate_version b + 1\<rparr>"

function trim_logins :: "(jsstr, known_login) jsmap \<Rightarrow> (jsstr, known_login) jsmap" where
  "trim_logins m =
     (if max_known_logins < length m then trim_logins (map_delete m (fst (hd m))) else m)"
  by pat_completeness auto
termination
proof (relation "measure length")
  fix m :: "(jsstr, known_login) jsmap"
  assume "max_known_logins < length m"
  then obtain p ps where "m = p # ps" by (cases m) auto
  then have "length (map_delete m (fst (hd m))) \<le> length ps" by (simp add: map_delete_def)
  with \<open>m = p # ps\<close> show "(map_delete m (fst (hd m)), m) \<in> measure length" by simp
qed simp

declare trim_logins.simps [simp del]

definition remember_login :: "jsstr \<Rightarrow> login_status \<Rightarrow> nat \<Rightarrow> broker \<Rightarrow> broker" where
  "remember_login i st op b =
     b\<lparr>known_logins := trim_logins (map_set (map_delete (known_logins b) i) i \<lparr>login_status = st, login_operation = op\<rparr>)\<rparr>"

definition fail_operation ::
    "caught \<Rightarrow> nat \<Rightarrow> (snapshot_object \<times> snapshot_object) option \<Rightarrow> broker \<Rightarrow> failure \<times> broker" where
  "fail_operation e token rollback b =
     (case e of
        Caught_Auth c \<Rightarrow> (Auth_Failure c, b)
      | _ \<Rightarrow>
          if token \<noteq> caller_operation b then (Auth_Failure Operation_Superseded, b)
          else if e = Caught_Data Unsafe_Payload then
            (Auth_Failure Invalid_Data,
             (case rollback of
                Some (cur, previous) \<Rightarrow>
                  if fst (published b) = fst cur then restore_snapshot previous (emit [Protocol_Error] b)
                  else emit [Protocol_Error] b
              | None \<Rightarrow> emit [Protocol_Error] b))
          else
            let c = (case e of Caught_Data (Type_Error _) \<Rightarrow> Invalid_Data | _ \<Rightarrow> Operation_Failed);
                r = set_generic_error c b
            in (case fst r of None \<Rightarrow> Auth_Failure c | Some x \<Rightarrow> Thrown x, snd r))"

definition fail_rate_operation :: "caught \<Rightarrow> nat \<Rightarrow> broker \<Rightarrow> failure \<times> broker" where
  "fail_rate_operation e token b =
     (case e of
        Caught_Auth c \<Rightarrow> (Auth_Failure c, b)
      | _ \<Rightarrow>
          if token \<noteq> rate_operation b then (Auth_Failure Operation_Superseded, b)
          else
            case e of
              Caught_Data _ \<Rightarrow> (Auth_Failure Invalid_Data, emit [Protocol_Error] b)
            | _ \<Rightarrow>
                let r = set_generic_error Operation_Failed b
                in (case fst r of None \<Rightarrow> Auth_Failure Operation_Failed | Some x \<Rightarrow> Thrown x, snd r))"

text \<open>\<open>throw this.#failOperation(...)\<close> at the end of a method.\<close>

definition refuse :: "nat \<Rightarrow> failure \<times> broker \<Rightarrow> broker" where
  "refuse k r = settle k (Refused (fst r)) (snd r)"

text \<open>The \<open>TypeError\<close> of calling a method of an undefined lease.\<close>

definition no_lease :: caught where
  "no_lease = Caught_Data (Type_Error ''lease'')"

section \<open>The lease\<close>

text \<open>\<open>await this.#ensureLease()\<close>: the caller's task waits for the lease promise, or continues in a
  later step when there is a lease.\<close>

definition ensure_lease :: "nat \<Rightarrow> call \<Rightarrow> broker \<Rightarrow> broker" where
  "ensure_lease k c b =
     (if lease b then put_task k (Awaiting_Lease c (Some None)) b
      else if lease_waiting b then put_task k (Awaiting_Lease c None) b
      else put_task k (Awaiting_Lease c None) (emit [Acquire_Lease] (b\<lparr>lease_waiting := True\<rparr>)))"

definition wake :: "auth_code option \<Rightarrow> task \<Rightarrow> task" where
  "wake r t = (case t of Awaiting_Lease c None \<Rightarrow> Awaiting_Lease c (Some r) | _ \<Rightarrow> t)"

definition wake_all :: "auth_code option \<Rightarrow> broker \<Rightarrow> broker" where
  "wake_all r b = b\<lparr>lease_waiting := False, tasks := map (\<lambda>p. (fst p, wake r (snd p))) (tasks b)\<rparr>"

text \<open>The two continuations of \<open>host.acquire\<close>. The snapshot of the host is read when the lease arrives; it is
  assumed not to throw there.\<close>

definition lease_acquired :: "int \<Rightarrow> broker \<Rightarrow> broker" where
  "lease_acquired generation b =
     (if \<not> lease_waiting b then b
      else if broker_disposed b then wake_all (Some Broker_Disposed) (emit [Release_Lease] b)
      else wake_all None (b\<lparr>lease := True, active_generation := generation\<rparr>))"

definition lease_refused :: "broker \<Rightarrow> broker" where
  "lease_refused b =
     (if \<not> lease_waiting b then b
      else if broker_disposed b then wake_all (Some Broker_Disposed) b
      else if auth_state (current b) \<noteq> Disconnected
      then wake_all (Some Operation_Failed) (snd (set_generic_error Operation_Failed b))
      else wake_all (Some Operation_Failed) b)"

section \<open>Reading the account\<close>

definition account_draft :: "auth_account option \<Rightarrow> broker \<Rightarrow> auth_snapshot" where
  "account_draft a b =
     \<lparr>auth_state = (if a = None then Unauthenticated else Authenticated), auth_account = a,
      auth_limits = (if a = None then None else auth_limits (current b)), auth_pending = None, auth_error = None\<rparr>"

text \<open>What the code does when \<open>#readAccountForToken\<close> settles, by who awaits it.\<close>

definition finish_read :: "nat \<Rightarrow> nat \<Rightarrow> reader \<Rightarrow> failure + snapshot_object \<Rightarrow> broker \<Rightarrow> broker" where
  "finish_read k token reader result b =
     (let outcome = (case result of Inl f \<Rightarrow> Refused f | Inr s \<Rightarrow> Done_Snapshot (snd s)) in
      case reader of
        Caller_Read \<Rightarrow> settle k outcome b
      | Activation_Read \<Rightarrow> put_task k (Activation_Finished outcome) b
      | Host_Read \<Rightarrow> b
      | Key_Confirmation rollback \<Rightarrow>
          (case result of
             Inl f \<Rightarrow> settle k (Refused f) b
           | Inr s \<Rightarrow> put_task k (Key_Confirmed token rollback s) b))"

definition reader_rollback :: "reader \<Rightarrow> (snapshot_object \<times> snapshot_object) option" where
  "reader_rollback r = (case r of Key_Confirmation rollback \<Rightarrow> Some rollback | _ \<Rightarrow> None)"

text \<open>\<open>requireFreshResponse\<close>\<close>

definition reader_fresh :: "reader \<Rightarrow> bool" where
  "reader_fresh r = (case r of Key_Confirmation _ \<Rightarrow> True | _ \<Rightarrow> False)"

definition account_failed :: "nat \<Rightarrow> nat \<Rightarrow> nat \<Rightarrow> reader \<Rightarrow> caught \<Rightarrow> broker \<Rightarrow> broker" where
  "account_failed k token revision reader e b =
     (if token \<noteq> caller_operation b \<or> (\<not> reader_fresh reader \<and> revision \<noteq> account_revision b)
      then finish_read k token reader (Inr (published b)) b
      else
        let r = fail_operation e token (reader_rollback reader) b
        in finish_read k token reader (Inl (fst r)) (snd r))"

definition account_response :: "auth_env \<Rightarrow> nat \<Rightarrow> nat \<Rightarrow> nat \<Rightarrow> reader \<Rightarrow> response \<Rightarrow> broker \<Rightarrow> broker" where
  "account_response env k token revision reader r b =
     (case r of
        Failed e \<Rightarrow> account_failed k token revision reader e b
      | Answered raw \<Rightarrow>
          if token \<noteq> caller_operation b \<or> (\<not> reader_fresh reader \<and> revision \<noteq> account_revision b)
          then finish_read k token reader (Inr (published b)) b
          else
            case and_then (normalize_account_read (env_is_proxy env) raw)
                   (\<lambda>a. create_snapshot trusted_is_proxy (snapshot_value (account_draft (read_account a) b))) of
              Inl e \<Rightarrow> account_failed k token revision reader (Caught_Data e) b
            | Inr s \<Rightarrow>
                if revision \<noteq> account_revision b
                then finish_read k token reader (Inr (next_object b, s)) (b\<lparr>next_object := next_object b + 1\<rparr>)
                else
                  let p = set_auth_snapshot s b in
                  case fst p of
                    None \<Rightarrow> finish_read k token reader (Inr (published (snd p))) (snd p)
                  | Some e \<Rightarrow> account_failed k token revision reader (Caught_Data e) (snd p))"

definition read_account_for_token :: "nat \<Rightarrow> nat \<Rightarrow> bool \<Rightarrow> reader \<Rightarrow> broker \<Rightarrow> broker" where
  "read_account_for_token k token refresh reader b =
     (if lease b
      then put_task k (Awaiting_Account token (account_revision b) reader)
        (emit [Requested k ''account/read'' (object_of [(''refreshToken'', JsBool refresh)])] b)
      else account_failed k token (account_revision b) reader no_lease b)"

section \<open>Refresh after notifications\<close>

definition is_current_refresh :: "refresh_context \<Rightarrow> broker \<Rightarrow> bool" where
  "is_current_refresh c b \<longleftrightarrow>
     \<not> broker_disposed b \<and> context_generation c = active_generation b \<and> context_operation c = caller_operation b
     \<and> context_refresh c = refresh_counter b \<and> context_revision c = account_revision b"

definition refresh_failed :: "nat \<Rightarrow> refresh_context \<Rightarrow> caught \<Rightarrow> broker \<Rightarrow> broker" where
  "refresh_failed k c e b =
     put_task k (Refresh_Finished c)
       (if is_current_refresh c b then snd (fail_operation e (context_operation c) None b) else b)"

definition refresh_response :: "auth_env \<Rightarrow> nat \<Rightarrow> refresh_context \<Rightarrow> response \<Rightarrow> broker \<Rightarrow> broker" where
  "refresh_response env k c r b =
     (case r of
        Failed e \<Rightarrow> refresh_failed k c e b
      | Answered raw \<Rightarrow>
          if \<not> is_current_refresh c b then put_task k (Refresh_Finished c) b
          else
            case normalize_account_read (env_is_proxy env) raw of
              Inl e \<Rightarrow> refresh_failed k c (Caught_Data e) b
            | Inr a \<Rightarrow>
                let p = set_auth_snapshot (account_draft (read_account a) b) b in
                case fst p of
                  None \<Rightarrow> put_task k (Refresh_Finished c) (snd p)
                | Some e \<Rightarrow> refresh_failed k c (Caught_Data e) (snd p))"

definition fresh_task :: "broker \<Rightarrow> broker" where
  "fresh_task b = b\<lparr>next_task := next_task b + 1\<rparr>"

definition start_refresh :: "refresh_context \<Rightarrow> broker \<Rightarrow> broker" where
  "start_refresh c b =
     (let k = next_task b; b1 = fresh_task (b\<lparr>refresh_flight := Some c\<rparr>) in
      if lease b1
      then put_task k (Awaiting_Refresh c)
        (emit [Requested k ''account/read'' (object_of [(''refreshToken'', JsBool False)])] b1)
      else refresh_failed k c no_lease b1)"

definition schedule_refresh :: "int \<Rightarrow> broker \<Rightarrow> broker" where
  "schedule_refresh generation b =
     (let b1 = b\<lparr>refresh_counter := refresh_counter b + 1\<rparr>;
          c = \<lparr>context_refresh = refresh_counter b1, context_operation = caller_operation b1,
               context_revision = account_revision b1, context_generation = generation\<rparr>
      in if refresh_flight b1 \<noteq> None then b1\<lparr>refresh_queue := Some c\<rparr> else start_refresh c b1)"

definition refresh_finished :: "refresh_context \<Rightarrow> broker \<Rightarrow> broker" where
  "refresh_finished c b =
     (if refresh_flight b \<noteq> Some c then b
      else
        let b1 = b\<lparr>refresh_flight := None, refresh_queue := None\<rparr> in
        case refresh_queue b of
          None \<Rightarrow> b1
        | Some d \<Rightarrow> if is_current_refresh d b1 then start_refresh d b1 else b1)"

section \<open>Logins\<close>

definition login_type_of :: "login_request \<Rightarrow> login_type" where
  "login_type_of r = (case r of Login_Api_Key _ \<Rightarrow> Api_Key | Login_Chatgpt \<Rightarrow> Chatgpt | Login_Device_Code \<Rightarrow> Device_Code)"

definition pending_draft :: "login_type \<Rightarrow> jsstr option \<Rightarrow> broker \<Rightarrow> auth_snapshot" where
  "pending_draft type i b =
     \<lparr>auth_state = Authenticating, auth_account = auth_account (current b), auth_limits = auth_limits (current b),
      auth_pending = Some \<lparr>pending_type = type, pending_id = i\<rparr>, auth_error = None\<rparr>"

definition login_params :: "login_request \<Rightarrow> jsvalue" where
  "login_params r =
     (case r of
        Login_Api_Key key \<Rightarrow> object_of [(''type'', text_value ''apiKey''), (''apiKey'', JsText key)]
      | _ \<Rightarrow> object_of [(''type'', text_value (name_of login_type_names (login_type_of r)))])"

definition key_failed ::
    "nat \<Rightarrow> nat \<Rightarrow> snapshot_object \<times> snapshot_object \<Rightarrow> caught \<Rightarrow> broker \<Rightarrow> broker" where
  "key_failed k token rollback e b =
     (let r = fail_operation e token (Some rollback) b in settle k (Refused (fst r)) (emit [Secret_Released k] (snd r)))"

definition begin_login :: "nat \<Rightarrow> login_request \<Rightarrow> broker \<Rightarrow> broker" where
  "begin_login k request b =
     (let b1 = begin_operation b; token = caller_operation b1; previous = published b1;
          p = set_auth_snapshot (pending_draft (login_type_of request) None b1) b1
      in case fst p of
           Some e \<Rightarrow> settle k (Refused (Thrown e)) (snd p)
         | None \<Rightarrow>
             let b2 = snd p; rollback = (published b2, previous) in
             case request of
               Login_Api_Key key \<Rightarrow>
                 let b3 = emit [Secret_Registered k] b2 in
                 if lease b3
                 then put_task k (Awaiting_Key token rollback)
                   (emit [Requested k ''account/login/start'' (login_params request)] b3)
                 else key_failed k token rollback no_lease b3
             | _ \<Rightarrow>
                 if lease b2
                 then put_task k (Awaiting_Login token (login_type_of request) rollback)
                   (emit [Requested k ''account/login/start'' (login_params request)] b2)
                 else refuse k (fail_operation no_lease token (Some rollback) b2))"

definition result_type :: "login_result \<Rightarrow> login_type" where
  "result_type r = (case r of Logged_In \<Rightarrow> Api_Key | Browser_Login _ _ \<Rightarrow> Chatgpt | Device_Login _ _ _ \<Rightarrow> Device_Code)"

definition result_id :: "login_result \<Rightarrow> jsstr" where
  "result_id r = (case r of Logged_In \<Rightarrow> [] | Browser_Login i _ \<Rightarrow> i | Device_Login i _ _ \<Rightarrow> i)"

definition login_response ::
    "auth_env \<Rightarrow> nat \<Rightarrow> nat \<Rightarrow> login_type \<Rightarrow> snapshot_object \<times> snapshot_object \<Rightarrow> response \<Rightarrow> broker \<Rightarrow> broker" where
  "login_response env k token type rollback r b =
     (case r of
        Failed e \<Rightarrow> refuse k (fail_operation e token (Some rollback) b)
      | Answered raw \<Rightarrow>
          if token \<noteq> caller_operation b then settle k (Refused (Auth_Failure Operation_Superseded)) b
          else
            case normalize_login_result (env_is_proxy env) (env_url env) raw of
              Inl e \<Rightarrow> refuse k (fail_operation (Caught_Data e) token (Some rollback) b)
            | Inr result \<Rightarrow>
                if result_type result \<noteq> type
                then refuse k (fail_operation (Caught_Data (Type_Error ''login response'')) token (Some rollback) b)
                else
                  let b1 = remember_login (result_id result) Active_Login token b;
                      p = set_auth_snapshot (pending_draft type (Some (result_id result)) b1) b1
                  in case fst p of
                       None \<Rightarrow> settle k (Done_Login result) (snd p)
                     | Some e \<Rightarrow> refuse k (fail_operation (Caught_Data e) token (Some rollback) (snd p)))"

definition key_response ::
    "auth_env \<Rightarrow> nat \<Rightarrow> nat \<Rightarrow> snapshot_object \<times> snapshot_object \<Rightarrow> response \<Rightarrow> broker \<Rightarrow> broker" where
  "key_response env k token rollback r b =
     (case r of
        Failed e \<Rightarrow> key_failed k token rollback e b
      | Answered raw \<Rightarrow>
          let b1 = emit [Secret_Released k] b in
          if token \<noteq> caller_operation b1 then settle k (Refused (Auth_Failure Operation_Superseded)) b1
          else
            case normalize_login_result (env_is_proxy env) (env_url env) raw of
              Inl e \<Rightarrow> refuse k (fail_operation (Caught_Data e) token (Some rollback) b1)
            | Inr result \<Rightarrow>
                if result \<noteq> Logged_In
                then refuse k (fail_operation (Caught_Data (Type_Error ''login response'')) token (Some rollback) b1)
                else read_account_for_token k token False (Key_Confirmation rollback) b1)"

definition key_confirmed ::
    "nat \<Rightarrow> nat \<Rightarrow> snapshot_object \<times> snapshot_object \<Rightarrow> snapshot_object \<Rightarrow> broker \<Rightarrow> broker" where
  "key_confirmed k token rollback s b =
     (if token \<noteq> caller_operation b then settle k (Refused (Auth_Failure Operation_Superseded)) b
      else if auth_state (snd s) \<noteq> Authenticated \<or> auth_account (snd s) \<noteq> Some Api_Key_Account
      then refuse k (fail_operation (Caught_Data (Type_Error ''login confirmation'')) token (Some rollback) b)
      else if fst s \<noteq> fst (published b) then
        (let p = set_auth_snapshot (snd s) b in
         case fst p of
           None \<Rightarrow> settle k (Done_Login Logged_In) (snd p)
         | Some e \<Rightarrow> refuse k (fail_operation (Caught_Data e) token (Some rollback) (snd p)))
      else settle k (Done_Login Logged_In) b)"

section \<open>Cancelling, logout and rate limits\<close>

definition begin_cancel :: "nat \<Rightarrow> jsstr \<Rightarrow> broker \<Rightarrow> broker" where
  "begin_cancel k i b =
     (let b1 = begin_operation b; token = caller_operation b1 in
      if lease b1
      then put_task k (Awaiting_Cancel token i)
        (emit [Requested k ''account/login/cancel'' (object_of [(''loginId'', JsText i)])] b1)
      else refuse k (fail_operation no_lease token None b1))"

definition cancel_response :: "auth_env \<Rightarrow> nat \<Rightarrow> nat \<Rightarrow> jsstr \<Rightarrow> response \<Rightarrow> broker \<Rightarrow> broker" where
  "cancel_response env k token i r b =
     (case r of
        Failed e \<Rightarrow> refuse k (fail_operation e token None b)
      | Answered raw \<Rightarrow>
          if token \<noteq> caller_operation b then settle k (Refused (Auth_Failure Operation_Superseded)) b
          else
            case normalize_cancel (env_is_proxy env) raw of
              Inl e \<Rightarrow> refuse k (fail_operation (Caught_Data e) token None b)
            | Inr _ \<Rightarrow>
                let b1 = remember_login i Canceled_Login token b in
                if Option.bind (auth_pending (current b1)) pending_id = Some i then
                  (let p = set_auth_snapshot
                       \<lparr>auth_state = (if auth_account (current b1) = None then Unauthenticated else Authenticated),
                        auth_account = auth_account (current b1), auth_limits = auth_limits (current b1),
                        auth_pending = None, auth_error = None\<rparr> b1
                   in case fst p of
                        None \<Rightarrow> settle k Done (snd p)
                      | Some e \<Rightarrow> refuse k (fail_operation (Caught_Data e) token None (snd p)))
                else settle k Done b1)"

definition begin_logout :: "nat \<Rightarrow> broker \<Rightarrow> broker" where
  "begin_logout k b =
     (let b1 = invalidate_rate_reads (begin_operation b); token = caller_operation b1 in
      if lease b1
      then put_task k (Awaiting_Logout token) (emit [Requested k ''account/logout'' (object_of [])] b1)
      else refuse k (fail_operation no_lease token None b1))"

definition logout_response :: "nat \<Rightarrow> nat \<Rightarrow> response \<Rightarrow> broker \<Rightarrow> broker" where
  "logout_response k token r b =
     (case r of
        Failed e \<Rightarrow> refuse k (fail_operation e token None b)
      | Answered _ \<Rightarrow>
          if token \<noteq> caller_operation b then settle k (Refused (Auth_Failure Operation_Superseded)) b
          else
            let p = set_auth_snapshot (plain_state Unauthenticated) (b\<lparr>known_logins := []\<rparr>) in
            case fst p of
              None \<Rightarrow> settle k (Done_Snapshot (current (snd p))) (snd p)
            | Some e \<Rightarrow> refuse k (fail_operation (Caught_Data e) token None (snd p)))"

definition rates_failed :: "nat \<Rightarrow> nat \<Rightarrow> nat \<Rightarrow> caught \<Rightarrow> broker \<Rightarrow> broker" where
  "rates_failed k token version e b =
     (if token = rate_operation b \<and> version \<noteq> rate_version b then settle k (Done_Snapshot (current b)) b
      else refuse k (fail_rate_operation e token b))"

definition begin_rates :: "nat \<Rightarrow> broker \<Rightarrow> broker" where
  "begin_rates k b =
     (let b1 = b\<lparr>rate_operation := rate_operation b + 1\<rparr> in
      if lease b1
      then put_task k (Awaiting_Rates (rate_operation b1) (rate_version b1))
        (emit [Requested k ''account/rateLimits/read'' (object_of [])] b1)
      else rates_failed k (rate_operation b1) (rate_version b1) no_lease b1)"

definition rates_response :: "auth_env \<Rightarrow> nat \<Rightarrow> nat \<Rightarrow> nat \<Rightarrow> response \<Rightarrow> broker \<Rightarrow> broker" where
  "rates_response env k token version r b =
     (case r of
        Failed e \<Rightarrow> rates_failed k token version e b
      | Answered raw \<Rightarrow>
          if token \<noteq> rate_operation b
          then rates_failed k token version (Caught_Auth Operation_Superseded) b
          else
            case normalize_rate_limits (env_is_proxy env) raw of
              Inl e \<Rightarrow> rates_failed k token version (Caught_Data e) b
            | Inr l \<Rightarrow>
                if version \<noteq> rate_version b then settle k (Done_Snapshot (current b)) b
                else
                  let p = set_snapshot ((current b)\<lparr>auth_limits := l\<rparr>) b in
                  case fst p of
                    None \<Rightarrow> settle k (Done_Snapshot (current (snd p))) (snd p)
                  | Some e \<Rightarrow> rates_failed k token version (Caught_Data e) (snd p))"

section \<open>Calls\<close>

datatype auth_call =
    Call_Activate
  | Call_Read_Account jsvalue
  | Call_Login jsvalue
  | Call_Cancel jsvalue
  | Call_Logout
  | Call_Read_Rates

definition plain_options :: "auth_env \<Rightarrow> jsvalue \<Rightarrow> string list \<Rightarrow> data_error + properties" where
  "plain_options env v allowed =
     (case v of
        JsObject plain ps \<Rightarrow>
          if env_is_proxy env v \<or> \<not> plain then Inl (Type_Error ''options'')
          else and_then (require_only_keys ps allowed ''options'') (\<lambda>_. Inr ps)
      | _ \<Rightarrow> Inl (Type_Error ''options''))"

definition refresh_option :: "auth_env \<Rightarrow> jsvalue \<Rightarrow> data_error + bool" where
  "refresh_option env v =
     and_then (plain_options env (if v = JsUndefined then object_of [] else v) [''refreshToken'']) (\<lambda>ps.
     and_then (read_own ps (js ''refreshToken'')) (\<lambda>r.
       case r of
         JsUndefined \<Rightarrow> Inr False
       | JsBool x \<Rightarrow> Inr x
       | _ \<Rightarrow> Inl (Type_Error ''refresh-token option'')))"

text \<open>\<open>cancelLogin\<close> up to its first \<open>await\<close>: an unknown identifier is refused, one that is no longer
  active needs nothing.\<close>

definition call_cancel :: "nat \<Rightarrow> jsvalue \<Rightarrow> broker \<Rightarrow> broker" where
  "call_cancel k v b =
     (case v of
        JsText i \<Rightarrow>
          if i = [] \<or> 256 < length i then settle k (Refused (Auth_Failure Unknown_Login)) b
          else
            (case map_get (known_logins b) i of
               None \<Rightarrow> settle k (Refused (Auth_Failure Unknown_Login)) b
             | Some l \<Rightarrow>
                 if login_status l \<noteq> Active_Login then settle k Done b else ensure_lease k (Cancel i) b)
      | _ \<Rightarrow> settle k (Refused (Auth_Failure Unknown_Login)) b)"

fun start_call :: "auth_env \<Rightarrow> nat \<Rightarrow> auth_call \<Rightarrow> broker \<Rightarrow> broker" where
  "start_call env k Call_Activate b =
     (case activation b of
        Some j \<Rightarrow> emit [Joined k j] b
      | None \<Rightarrow> ensure_lease k Activate (b\<lparr>activation := Some k\<rparr>))"
| "start_call env k (Call_Read_Account v) b =
     (case refresh_option env v of
        Inl e \<Rightarrow> settle k (Refused (Thrown e)) b
      | Inr x \<Rightarrow> ensure_lease k (Read_Account x) b)"
| "start_call env k (Call_Login v) b =
     (case normalize_login_request (env_is_proxy env) v of
        Inl e \<Rightarrow> settle k (Refused (Thrown e)) b
      | Inr r \<Rightarrow> ensure_lease k (Login r) b)"
| "start_call env k (Call_Cancel v) b = call_cancel k v b"
| "start_call env k Call_Logout b = ensure_lease k Logout b"
| "start_call env k Call_Read_Rates b = ensure_lease k Read_Rates b"

definition run_auth_call :: "auth_env \<Rightarrow> auth_call \<Rightarrow> broker \<Rightarrow> broker" where
  "run_auth_call env c b =
     (let k = next_task b; b1 = fresh_task b in
      if broker_disposed b then settle k (Refused (Auth_Failure Broker_Disposed)) b1 else start_call env k c b1)"

fun begin_call :: "nat \<Rightarrow> call \<Rightarrow> broker \<Rightarrow> broker" where
  "begin_call k Activate b =
     (let b1 = begin_operation b in read_account_for_token k (caller_operation b1) False Activation_Read b1)"
| "begin_call k (Read_Account refresh) b =
     (let b1 = begin_operation b in read_account_for_token k (caller_operation b1) refresh Caller_Read b1)"
| "begin_call k (Login r) b = begin_login k r b"
| "begin_call k (Cancel i) b = begin_cancel k i b"
| "begin_call k Logout b = begin_logout k b"
| "begin_call k Read_Rates b = begin_rates k b"

definition call_refused :: "nat \<Rightarrow> call \<Rightarrow> auth_code \<Rightarrow> broker \<Rightarrow> broker" where
  "call_refused k c code b =
     (if c = Activate then put_task k (Activation_Finished (Refused (Auth_Failure code))) b
      else settle k (Refused (Auth_Failure code)) b)"

section \<open>Notifications and host states\<close>

fun json_of_value :: "jsvalue \<Rightarrow> json" and json_of_property :: "property \<Rightarrow> json" where
  "json_of_value (JsBool x) = JBool x"
| "json_of_value (JsNumber n) = JNum n"
| "json_of_value (JsText s) = JStr s"
| "json_of_value (JsArray vs) = JArr (map json_of_value vs)"
| "json_of_value (JsObject _ ps) = JObj (map (\<lambda>p. (fst p, json_of_property (snd p))) ps)"
| "json_of_value _ = JNull"
| "json_of_property (Data_Property _ v) = json_of_value v"
| "json_of_property (Accessor_Property _) = JNull"

text \<open>\<open>#isDuplicateNotification\<close>: None when the value was the last one of its method.\<close>

definition note_signature :: "string \<Rightarrow> jsvalue \<Rightarrow> broker \<Rightarrow> broker option" where
  "note_signature m v b =
     (let s = json_stringify (json_of_value v) in
      if map_get (signatures b) m = Some s then None else Some (b\<lparr>signatures := map_set (signatures b) m s\<rparr>))"

definition login_completed :: "login_completion \<Rightarrow> broker \<Rightarrow> broker" where
  "login_completed c b =
     (case completed_id c of
        None \<Rightarrow> b
      | Some i \<Rightarrow>
          if i = [] then b
          else
            case map_get (known_logins b) i of
              None \<Rightarrow> b
            | Some l \<Rightarrow>
                if login_status l \<noteq> Active_Login then b
                else
                  let b1 = remember_login i Completed_Login (login_operation l) b in
                  if login_operation l \<noteq> caller_operation b1 then b1
                  else if \<not> completed_success c then snd (set_generic_error Operation_Failed (invalidate_refresh b1))
                  else schedule_refresh (active_generation b1) b1)"

definition completion_value :: "login_completion \<Rightarrow> jsvalue" where
  "completion_value c =
     object_of (present ''loginId'' JsText (completed_id c) @ [(''success'', JsBool (completed_success c))])"

definition or_else :: "'a option \<Rightarrow> 'a option \<Rightarrow> 'a option" where
  "or_else x y = (case x of None \<Rightarrow> y | Some _ \<Rightarrow> x)"

text \<open>\<open>{ ...(rateLimits ?? {}), ...update }\<close>\<close>

definition merge_limits :: "rate_limits option \<Rightarrow> bucket \<Rightarrow> rate_limits" where
  "merge_limits old u =
     (case old of
        None \<Rightarrow> \<lparr>current_bucket = u, by_limit_id = None, reset_credits = None\<rparr>
      | Some r \<Rightarrow>
          let c = current_bucket r in
          r\<lparr>current_bucket :=
            \<lparr>limit_id = or_else (limit_id u) (limit_id c), limit_name = or_else (limit_name u) (limit_name c),
             primary = or_else (primary u) (primary c), secondary = or_else (secondary u) (secondary c),
             bucket_credits = or_else (bucket_credits u) (bucket_credits c),
             bucket_plan = or_else (bucket_plan u) (bucket_plan c)\<rparr>\<rparr>)"

definition invalid_notification :: "data_error \<Rightarrow> broker \<Rightarrow> broker" where
  "invalid_notification e b =
     (if e = Unsafe_Payload then emit [Protocol_Error] b else snd (set_generic_error Invalid_Data b))"

definition account_updated :: "auth_env \<Rightarrow> jsvalue \<Rightarrow> int \<Rightarrow> broker \<Rightarrow> broker" where
  "account_updated env params generation b =
     (case normalize_account_update (env_is_proxy env) params of
        Inl e \<Rightarrow> invalid_notification e b
      | Inr a \<Rightarrow>
          (case note_signature ''account/updated'' (case a of None \<Rightarrow> JsNull | Some x \<Rightarrow> account_value x) b of
             None \<Rightarrow> b
           | Some b1 \<Rightarrow>
               let p = set_auth_snapshot (account_draft a b1) b1 in
               case fst p of
                 Some e \<Rightarrow> invalid_notification e (snd p)
               | None \<Rightarrow> schedule_refresh generation (snd p)))"

definition login_completion_notified :: "auth_env \<Rightarrow> jsvalue \<Rightarrow> broker \<Rightarrow> broker" where
  "login_completion_notified env params b =
     (case normalize_completion (env_is_proxy env) params of
        Inl e \<Rightarrow> invalid_notification e b
      | Inr c \<Rightarrow>
          (case note_signature ''account/login/completed'' (completion_value c) b of
             None \<Rightarrow> b
           | Some b1 \<Rightarrow> login_completed c b1))"

definition rates_updated :: "auth_env \<Rightarrow> jsvalue \<Rightarrow> broker \<Rightarrow> broker" where
  "rates_updated env params b =
     (case normalize_rate_update (env_is_proxy env) params of
        Inl _ \<Rightarrow> emit [Protocol_Error] b
      | Inr u \<Rightarrow>
          let b1 = b\<lparr>rate_version := rate_version b + 1\<rparr> in
          (case note_signature ''account/rateLimits/updated'' (object_of (bucket_members u)) b1 of
             None \<Rightarrow> b1
           | Some b2 \<Rightarrow>
               let p = set_snapshot ((current b2)\<lparr>auth_limits := Some (merge_limits (auth_limits (current b2)) u)\<rparr>) b2 in
               case fst p of
                 Some e \<Rightarrow> invalid_notification e (snd p)
               | None \<Rightarrow> snd p))"

definition on_notification :: "auth_env \<Rightarrow> jsstr \<Rightarrow> jsvalue \<Rightarrow> int \<Rightarrow> broker \<Rightarrow> broker" where
  "on_notification env m params generation b =
     (if broker_disposed b \<or> generation \<noteq> active_generation b then b
      else if m = js ''account/updated'' then account_updated env params generation b
      else if m = js ''account/login/completed'' then login_completion_notified env params b
      else if m = js ''account/rateLimits/updated'' then rates_updated env params b
      else b)"

datatype host_state =
  Host_Stopped | Host_Starting | Host_Ready | Host_Restarting | Host_Stopping | Host_Circuit_Open | Host_Disposed

definition enter_generation :: "int \<Rightarrow> broker \<Rightarrow> broker" where
  "enter_generation generation b =
     (let b1 = begin_operation (b\<lparr>active_generation := generation\<rparr>)
      in invalidate_rate_reads (b1\<lparr>known_logins := [], signatures := []\<rparr>))"

definition on_host_state :: "host_state \<Rightarrow> int \<Rightarrow> broker \<Rightarrow> broker" where
  "on_host_state st generation b =
     (if broker_disposed b \<or> \<not> lease b \<or> generation < active_generation b then b
      else
        let invalidated = (generation \<noteq> active_generation b);
            b1 = (if invalidated then enter_generation generation b else b)
        in if st = Host_Ready then
             (let b2 = (if invalidated then b1 else begin_operation b1); k = next_task b2
              in read_account_for_token k (caller_operation b2) False Host_Read (fresh_task b2))
           else if st \<in> {Host_Restarting, Host_Stopped, Host_Circuit_Open, Host_Disposed} then
             snd (set_auth_snapshot (plain_state Disconnected)
               (if invalidated then b1 else invalidate_rate_reads (begin_operation b1)))
           else b1)"

section \<open>The step function\<close>

definition dispose_broker :: "broker \<Rightarrow> broker" where
  "dispose_broker b =
     (if broker_disposed b then b
      else
        let b1 = invalidate_rate_reads (begin_operation (b\<lparr>broker_disposed := True\<rparr>)) in
        emit (Detached # (if lease b1 then [Release_Lease] else []))
          (b1\<lparr>auth_clients := [], known_logins := [], signatures := [], lease := False\<rparr>))"

definition set_client :: "nat \<Rightarrow> broker \<Rightarrow> broker" where
  "set_client c b =
     (if broker_disposed b then b
      else emit [Published c (current b)]
        (b\<lparr>auth_clients := (if c \<in> set (auth_clients b) then auth_clients b else auth_clients b @ [c])\<rparr>))"

definition drop_task :: "nat \<Rightarrow> broker \<Rightarrow> broker" where
  "drop_task k b = b\<lparr>tasks := map_delete (tasks b) k\<rparr>"

text \<open>A step that continues after an internal promise.\<close>

definition resume :: "nat \<Rightarrow> broker \<Rightarrow> broker" where
  "resume k b =
     (case map_get (tasks b) k of
        Some (Awaiting_Lease c (Some None)) \<Rightarrow> begin_call k c (drop_task k b)
      | Some (Awaiting_Lease c (Some (Some code))) \<Rightarrow> call_refused k c code (drop_task k b)
      | Some (Key_Confirmed token rollback s) \<Rightarrow> key_confirmed k token rollback s (drop_task k b)
      | Some (Refresh_Finished c) \<Rightarrow> refresh_finished c (drop_task k b)
      | Some (Activation_Finished r) \<Rightarrow>
          settle k r ((drop_task k b)\<lparr>activation := (if activation b = Some k then None else activation b)\<rparr>)
      | _ \<Rightarrow> b)"

text \<open>The app server answers, or fails, the request of a task.\<close>

definition respond_task :: "auth_env \<Rightarrow> nat \<Rightarrow> response \<Rightarrow> broker \<Rightarrow> broker" where
  "respond_task env k r b =
     (case map_get (tasks b) k of
        Some (Awaiting_Account token revision reader) \<Rightarrow> account_response env k token revision reader r (drop_task k b)
      | Some (Awaiting_Login token type rollback) \<Rightarrow> login_response env k token type rollback r (drop_task k b)
      | Some (Awaiting_Key token rollback) \<Rightarrow> key_response env k token rollback r (drop_task k b)
      | Some (Awaiting_Cancel token i) \<Rightarrow> cancel_response env k token i r (drop_task k b)
      | Some (Awaiting_Logout token) \<Rightarrow> logout_response k token r (drop_task k b)
      | Some (Awaiting_Rates token version) \<Rightarrow> rates_response env k token version r (drop_task k b)
      | Some (Awaiting_Refresh c) \<Rightarrow> refresh_response env k c r (drop_task k b)
      | _ \<Rightarrow> b)"

datatype broker_event =
    Auth_Call auth_call
  | Set_Client nat
  | Disconnect_Client nat
  | Lease_Acquired int
  | Lease_Refused
  | Resume nat
  | Response nat response
  | Notification jsstr jsvalue int
  | Host_State host_state int
  | Dispose_Broker

fun broker_next :: "auth_env \<Rightarrow> broker \<Rightarrow> broker_event \<Rightarrow> broker" where
  "broker_next env b (Auth_Call c) = run_auth_call env c b"
| "broker_next env b (Set_Client c) = set_client c b"
| "broker_next env b (Disconnect_Client c) = b\<lparr>auth_clients := removeAll c (auth_clients b)\<rparr>"
| "broker_next env b (Lease_Acquired generation) = lease_acquired generation b"
| "broker_next env b Lease_Refused = lease_refused b"
| "broker_next env b (Resume k) = resume k b"
| "broker_next env b (Response k r) = respond_task env k r b"
| "broker_next env b (Notification m params generation) = on_notification env m params generation b"
| "broker_next env b (Host_State st generation) = on_host_state st generation b"
| "broker_next env b Dispose_Broker = dispose_broker b"

definition broker_step :: "auth_env \<Rightarrow> broker \<Rightarrow> broker_event \<Rightarrow> broker \<times> effect list" where
  "broker_step env b e = (broker_next env b e, drop (length (effects b)) (effects (broker_next env b e)))"

end
