(* ===== verification/AuthBrokerFacts.thy ===== *)
theory AuthBrokerFacts
  imports AuthBroker
begin

text \<open>
  What holds of the authentication broker in every interleaving: it only ever publishes valid
  snapshots, keeps a bounded login table, settles every promise at most once, keeps an API key
  registered as a secret exactly while its request is in flight, ignores superseded responses and
  is silent after disposal.
\<close>

section \<open>The invariant\<close>

definition effect_ok :: "effect \<Rightarrow> bool" where
  "effect_ok e = (case e of Published _ s \<Rightarrow> auth_snapshot_ok s | _ \<Rightarrow> True)"

definition object_ok :: "snapshot_object \<Rightarrow> bool" where
  "object_ok s \<longleftrightarrow> auth_snapshot_ok (snd s)"

definition rollback_ok :: "snapshot_object \<times> snapshot_object \<Rightarrow> bool" where
  "rollback_ok r \<longleftrightarrow> object_ok (snd r)"

definition task_ok :: "task \<Rightarrow> bool" where
  "task_ok t =
     (case t of
        Awaiting_Account _ _ r \<Rightarrow> pred_option rollback_ok (reader_rollback r)
      | Awaiting_Login _ _ r \<Rightarrow> rollback_ok r
      | Awaiting_Key _ r \<Rightarrow> rollback_ok r
      | Key_Confirmed _ r _ \<Rightarrow> rollback_ok r
      | _ \<Rightarrow> True)"

definition answers :: "nat \<Rightarrow> effect \<Rightarrow> bool" where
  "answers k e = (case e of Settled j _ \<Rightarrow> j = k | Joined j _ \<Rightarrow> j = k | _ \<Rightarrow> False)"

definition answered :: "nat \<Rightarrow> effect list \<Rightarrow> nat" where
  "answered k es = length (filter (answers k) es)"

definition registered :: "nat \<Rightarrow> effect list \<Rightarrow> nat" where
  "registered k es = length (filter (\<lambda>e. e = Secret_Registered k) es)"

definition released :: "nat \<Rightarrow> effect list \<Rightarrow> nat" where
  "released k es = length (filter (\<lambda>e. e = Secret_Released k) es)"

definition holds_key :: "nat \<Rightarrow> (nat, task) jsmap \<Rightarrow> bool" where
  "holds_key k m \<longleftrightarrow> (\<exists>token r. map_get m k = Some (Awaiting_Key token r))"

definition content_ok :: "broker \<Rightarrow> bool" where
  "content_ok b \<longleftrightarrow>
     auth_snapshot_ok (current b) \<and> length (known_logins b) \<le> max_known_logins \<and> list_all effect_ok (effects b) \<and>
     list_all (\<lambda>p. task_ok (snd p)) (tasks b) \<and> (broker_disposed b \<longrightarrow> \<not> lease b \<and> auth_clients b = [])"

text \<open>\<open>S\<close> holds the identifier of the task a step is working for, taken out of the table and not yet
  settled; \<open>K\<close> holds it while its secret is registered.\<close>

definition ledger_ok :: "nat set \<Rightarrow> (nat, task) jsmap \<Rightarrow> nat \<Rightarrow> effect list \<Rightarrow> bool" where
  "ledger_ok S m n es \<longleftrightarrow>
     (\<forall>k. answered k es \<le> 1) \<and>
     (\<forall>k. map_has m k \<or> k \<in> S \<or> n \<le> k \<longrightarrow> answered k es = 0) \<and>
     (\<forall>k. map_has m k \<longrightarrow> k < n \<and> k \<notin> S) \<and> (\<forall>k \<in> S. k < n)"

definition secrets_ok :: "nat set \<Rightarrow> (nat, task) jsmap \<Rightarrow> effect list \<Rightarrow> bool" where
  "secrets_ok K m es \<longleftrightarrow>
     (\<forall>k. registered k es = released k es + of_bool (holds_key k m \<or> k \<in> K))"

definition broker_ok :: "nat set \<Rightarrow> nat set \<Rightarrow> broker \<Rightarrow> bool" where
  "broker_ok S K b \<longleftrightarrow>
     content_ok b \<and> ledger_ok S (tasks b) (next_task b) (effects b) \<and> secrets_ok K (tasks b) (effects b)"

text \<open>Fields the invariant does not mention.\<close>

lemma broker_ok_frame [simp]:
  "broker_ok S K (b\<lparr>next_object := n\<rparr>) = broker_ok S K b"
  "broker_ok S K (b\<lparr>lease_waiting := x\<rparr>) = broker_ok S K b"
  "broker_ok S K (b\<lparr>activation := a\<rparr>) = broker_ok S K b"
  "broker_ok S K (b\<lparr>active_generation := g\<rparr>) = broker_ok S K b"
  "broker_ok S K (b\<lparr>caller_operation := n\<rparr>) = broker_ok S K b"
  "broker_ok S K (b\<lparr>refresh_counter := n\<rparr>) = broker_ok S K b"
  "broker_ok S K (b\<lparr>refresh_flight := c\<rparr>) = broker_ok S K b"
  "broker_ok S K (b\<lparr>refresh_queue := c\<rparr>) = broker_ok S K b"
  "broker_ok S K (b\<lparr>account_revision := n\<rparr>) = broker_ok S K b"
  "broker_ok S K (b\<lparr>rate_operation := n\<rparr>) = broker_ok S K b"
  "broker_ok S K (b\<lparr>rate_version := n\<rparr>) = broker_ok S K b"
  "broker_ok S K (b\<lparr>signatures := s\<rparr>) = broker_ok S K b"
  by (simp_all add: broker_ok_def content_ok_def)

lemma broker_ok_counters [simp]:
  "broker_ok S K (invalidate_refresh b) = broker_ok S K b"
  "broker_ok S K (begin_operation b) = broker_ok S K b"
  "broker_ok S K (invalidate_rate_reads b) = broker_ok S K b"
  by (simp_all add: invalidate_refresh_def begin_operation_def invalidate_rate_reads_def)

section \<open>Elementary operations\<close>

text \<open>Effects that carry no obligation.\<close>

definition quiet :: "effect \<Rightarrow> bool" where
  "quiet e = (case e of
     Settled _ _ \<Rightarrow> False | Joined _ _ \<Rightarrow> False | Secret_Registered _ \<Rightarrow> False | Secret_Released _ \<Rightarrow> False | _ \<Rightarrow> True)"

lemma count_append [simp]:
  "answered k (es @ fs) = answered k es + answered k fs"
  "registered k (es @ fs) = registered k es + registered k fs"
  "released k (es @ fs) = released k es + released k fs"
  by (simp_all add: answered_def registered_def released_def)

lemma quiet_counts:
  "list_all quiet es \<Longrightarrow> answered k es = 0" "list_all quiet es \<Longrightarrow> registered k es = 0"
  "list_all quiet es \<Longrightarrow> released k es = 0"
  by (auto simp: filter_empty_conv list_all_iff quiet_def answers_def answered_def registered_def released_def
      split: effect.splits)

lemma quiet_simps [simp]:
  "quiet Acquire_Lease" "quiet Release_Lease" "quiet (Requested k m v)" "quiet (Published c s)" "quiet Protocol_Error"
  "quiet Detached" "effect_ok Acquire_Lease" "effect_ok Release_Lease" "effect_ok (Requested k m v)"
  "effect_ok Protocol_Error" "effect_ok Detached" "effect_ok (Settled k r)" "effect_ok (Joined k j)"
  "effect_ok (Secret_Registered k)" "effect_ok (Secret_Released k)" "effect_ok (Published c s) = auth_snapshot_ok s"
  by (simp_all add: quiet_def effect_ok_def)

lemma single_counts [simp]:
  "answered k [Settled j r] = of_bool (j = k)" "answered k [Joined j i] = of_bool (j = k)"
  "answered k [Secret_Registered j] = 0" "answered k [Secret_Released j] = 0"
  "registered k [Settled j r] = 0" "registered k [Joined j i] = 0"
  "registered k [Secret_Registered j] = of_bool (j = k)" "registered k [Secret_Released j] = 0"
  "released k [Settled j r] = 0" "released k [Joined j i] = 0"
  "released k [Secret_Registered j] = 0" "released k [Secret_Released j] = of_bool (j = k)"
  by (simp_all add: answered_def registered_def released_def answers_def)

lemma emit_fields [simp]:
  "effects (emit es b) = effects b @ es" "tasks (emit es b) = tasks b" "next_task (emit es b) = next_task b"
  "content_ok (emit es b) \<longleftrightarrow> content_ok b \<and> list_all effect_ok es"
  by (auto simp: emit_def content_ok_def)

lemma ok_emit: "broker_ok S K b \<Longrightarrow> list_all quiet es \<Longrightarrow> list_all effect_ok es \<Longrightarrow> broker_ok S K (emit es b)"
  by (simp add: broker_ok_def ledger_ok_def secrets_ok_def quiet_counts)

lemma ok_emit_one [wf_intros]:
  "broker_ok S K b \<Longrightarrow> quiet e \<Longrightarrow> effect_ok e \<Longrightarrow> broker_ok S K (emit [e] b)"
  by (rule ok_emit) simp_all

lemma ok_settle [wf_intros]: "broker_ok {k} {} b \<Longrightarrow> broker_ok {} {} (settle k r b)"
  by (auto simp: settle_def broker_ok_def ledger_ok_def secrets_ok_def)

lemma ok_joined [wf_intros]: "broker_ok {k} {} b \<Longrightarrow> broker_ok {} {} (emit [Joined k j] b)"
  by (auto simp: broker_ok_def ledger_ok_def secrets_ok_def)

lemma ok_secret [wf_intros]:
  "broker_ok {k} {} b \<Longrightarrow> broker_ok {k} {k} (emit [Secret_Registered k] b)"
  "broker_ok {k} {k} b \<Longrightarrow> broker_ok {k} {} (emit [Secret_Released k] b)"
proof -
  have none: "\<not> holds_key k m" if "ledger_ok {k} m n es" for m n es
    using that by (auto simp: ledger_ok_def holds_key_def map_has_get)
  show "broker_ok {k} {} b \<Longrightarrow> broker_ok {k} {k} (emit [Secret_Registered k] b)"
    using none by (auto simp: broker_ok_def ledger_ok_def secrets_ok_def)
  show "broker_ok {k} {k} b \<Longrightarrow> broker_ok {k} {} (emit [Secret_Released k] b)"
    using none by (auto simp: broker_ok_def ledger_ok_def secrets_ok_def)
qed

lemma tasks_set: "list_all (\<lambda>p. P (snd p)) m \<Longrightarrow> P v \<Longrightarrow> list_all (\<lambda>p. P (snd p)) (map_set m k v)"
  by (auto simp: map_set_def list_all_iff)

lemma holds_key_set: "holds_key j (map_set m k t) \<longleftrightarrow> (if j = k then \<exists>n r. t = Awaiting_Key n r else holds_key j m)"
  by (simp add: holds_key_def map_get_set)

lemma put_task_fields [simp]:
  "effects (put_task k t b) = effects b" "tasks (put_task k t b) = map_set (tasks b) k t"
  "next_task (put_task k t b) = next_task b" "content_ok b \<Longrightarrow> task_ok t \<Longrightarrow> content_ok (put_task k t b)"
  by (simp_all add: put_task_def content_ok_def tasks_set)

lemma ok_put_task [wf_intros]:
  assumes "broker_ok {k} {} b" and "task_ok t" and "\<And>n r. t \<noteq> Awaiting_Key n r"
  shows "broker_ok {} {} (put_task k t b)"
  using assms by (auto simp: broker_ok_def ledger_ok_def secrets_ok_def holds_key_set)
    (auto simp: holds_key_def map_has_get)

lemma ok_put_key [wf_intros]:
  "broker_ok {k} {k} b \<Longrightarrow> rollback_ok r \<Longrightarrow> broker_ok {} {} (put_task k (Awaiting_Key n r) b)"
  by (cases r) (auto simp: broker_ok_def ledger_ok_def secrets_ok_def holds_key_set task_ok_def)

lemma ok_drop_task:
  assumes "broker_ok {} {} b" and "map_get (tasks b) k = Some t"
  shows "broker_ok {k} (if holds_key k (tasks b) then {k} else {}) (drop_task k b)" "task_ok t"
proof -
  have "(k, t) \<in> set (tasks b)" using assms(2) by (simp add: map_get_def map_of_SomeD)
  with assms(1) show "task_ok t" by (auto simp: broker_ok_def content_ok_def list_all_iff)
  have keys: "holds_key j (map_delete (tasks b) k) \<longleftrightarrow> j \<noteq> k \<and> holds_key j (tasks b)" for j
    by (simp add: holds_key_def map_get_delete)
  have content: "content_ok (drop_task k b)"
    using assms(1) by (auto simp: broker_ok_def content_ok_def drop_task_def list_all_iff map_delete_def)
  have "map_has (tasks b) k" using assms(2) by (simp add: map_has_get)
  with assms(1) content show "broker_ok {k} (if holds_key k (tasks b) then {k} else {}) (drop_task k b)"
    by (auto simp: broker_ok_def ledger_ok_def secrets_ok_def drop_task_def keys)
qed

lemma ok_fresh_task: "broker_ok {} K b \<Longrightarrow> broker_ok {next_task b} K (fresh_task b)"
  by (auto simp: broker_ok_def ledger_ok_def secrets_ok_def fresh_task_def content_ok_def dest: less_SucI)

lemma ok_weaken: "broker_ok {k} {} b \<Longrightarrow> broker_ok {} {} b"
  by (auto simp: broker_ok_def ledger_ok_def)

lemma current_ok: "broker_ok S K b \<Longrightarrow> object_ok (published b)"
  by (simp add: broker_ok_def content_ok_def object_ok_def)

section \<open>Snapshots, logins and failures\<close>

lemma ok_publish [wf_intros]: "broker_ok S K b \<Longrightarrow> object_ok s \<Longrightarrow> broker_ok S K (publish s b)"
proof -
  assume ok: "broker_ok S K b" "object_ok s"
  then have "broker_ok S K (b\<lparr>published := s\<rparr>)" by (simp add: broker_ok_def content_ok_def object_ok_def)
  then show ?thesis unfolding publish_def using ok(2)
    by (intro ok_emit) (auto simp: list_all_iff object_ok_def)
qed

lemma ok_set_snapshot [wf_intros]: "broker_ok S K b \<Longrightarrow> broker_ok S K (snd (set_snapshot d b))"
  by (auto simp: set_snapshot_def object_ok_def intro!: ok_publish create_snapshot_ok split: sum.split)

lemma ok_set_auth_snapshot [wf_intros]: "broker_ok S K b \<Longrightarrow> broker_ok S K (snd (set_auth_snapshot d b))"
  by (simp add: set_auth_snapshot_def ok_set_snapshot)

lemma ok_generic_error [wf_intros]: "broker_ok S K b \<Longrightarrow> broker_ok S K (snd (set_generic_error c b))"
  by (simp add: set_generic_error_def ok_set_auth_snapshot)

lemma ok_restore [wf_intros]: "broker_ok S K b \<Longrightarrow> object_ok s \<Longrightarrow> broker_ok S K (restore_snapshot s b)"
  by (simp add: restore_snapshot_def ok_publish)

lemma length_trim_logins: "length (trim_logins m) \<le> max_known_logins"
proof (induction m rule: trim_logins.induct)
  case (1 m)
  then show ?case by (cases "max_known_logins < length m") (subst trim_logins.simps, simp)+
qed

lemma ok_logins: "broker_ok S K b \<Longrightarrow> length l \<le> max_known_logins \<Longrightarrow> broker_ok S K (b\<lparr>known_logins := l\<rparr>)"
  by (simp add: broker_ok_def content_ok_def)

lemma ok_remember_login [wf_intros]: "broker_ok S K b \<Longrightarrow> broker_ok S K (remember_login i st n b)"
  by (simp add: remember_login_def ok_logins length_trim_logins)

lemma ok_fail_operation [wf_intros]:
  "broker_ok S K b \<Longrightarrow> pred_option rollback_ok r \<Longrightarrow> broker_ok S K (snd (fail_operation e token r b))"
  by (auto simp: fail_operation_def Let_def rollback_ok_def split: caught.split option.split
      intro!: wf_intros)

lemma ok_fail_rate_operation [wf_intros]:
  "broker_ok S K b \<Longrightarrow> broker_ok S K (snd (fail_rate_operation e token b))"
  by (auto simp: fail_rate_operation_def Let_def split: caught.split intro!: wf_intros)

lemma ok_refuse [wf_intros]: "broker_ok {k} {} (snd p) \<Longrightarrow> broker_ok {} {} (refuse k p)"
  by (simp add: refuse_def ok_settle)

lemma task_ok_simps [simp]:
  "task_ok (Awaiting_Lease c x)" "task_ok (Awaiting_Account n m r) = pred_option rollback_ok (reader_rollback r)"
  "task_ok (Awaiting_Login n y q) = rollback_ok q" "task_ok (Awaiting_Key n q) = rollback_ok q"
  "task_ok (Key_Confirmed n q s) = rollback_ok q" "task_ok (Awaiting_Cancel n i)" "task_ok (Awaiting_Logout n)"
  "task_ok (Awaiting_Rates n m)" "task_ok (Awaiting_Refresh d)" "task_ok (Refresh_Finished d)"
  "task_ok (Activation_Finished o')"
  by (simp_all add: task_ok_def)

section \<open>Operations\<close>

lemma ok_ensure_lease [wf_intros]: "broker_ok {k} {} b \<Longrightarrow> broker_ok {} {} (ensure_lease k c b)"
  by (auto simp: ensure_lease_def intro!: wf_intros)

lemma wake_task: "task_ok (wake r t) = task_ok t" "wake r t = Awaiting_Key n q \<longleftrightarrow> t = Awaiting_Key n q"
  by (auto simp: wake_def split: task.split option.split)

lemma ok_wake_all: "broker_ok {} {} b \<Longrightarrow> broker_ok {} {} (wake_all r b)"
proof -
  have get: "map_get (map (\<lambda>p. (fst p, wake r (snd p))) m) k = map_option (wake r) (map_get m k)" for m k
    by (induction m) (auto simp: map_get_def)
  have has: "map_has (map (\<lambda>p. (fst p, wake r (snd p))) m) k = map_has m k" for m k
    by (simp add: map_has_get get)
  have "holds_key k (map (\<lambda>p. (fst p, wake r (snd p))) m) = holds_key k m" for k m
    by (simp add: holds_key_def get wake_task(2))
  then show "broker_ok {} {} b \<Longrightarrow> ?thesis"
    by (auto simp: wake_all_def broker_ok_def content_ok_def ledger_ok_def secrets_ok_def has list_all_iff wake_task)
qed

lemma ok_lease:
  assumes "broker_ok {} {} b"
  shows "broker_ok {} {} (lease_acquired g b)" "broker_ok {} {} (lease_refused b)"
proof -
  have "broker_ok {} {} (b\<lparr>lease := True, active_generation := g\<rparr>)" if "\<not> broker_disposed b"
    using assms that by (simp add: broker_ok_def content_ok_def)
  then show "broker_ok {} {} (lease_acquired g b)"
    using assms by (auto simp: lease_acquired_def intro!: ok_wake_all wf_intros)
  show "broker_ok {} {} (lease_refused b)"
    using assms by (auto simp: lease_refused_def intro!: ok_wake_all wf_intros)
qed

lemma ok_finish_read [wf_intros]:
  "broker_ok {k} {} b \<Longrightarrow> pred_option rollback_ok (reader_rollback reader) \<Longrightarrow>
     broker_ok {} {} (finish_read k token reader result b)"
  by (auto simp: finish_read_def Let_def reader_rollback_def split: reader.split sum.split
      intro!: wf_intros intro: ok_weaken)

lemma ok_account_failed [wf_intros]:
  "broker_ok {k} {} b \<Longrightarrow> pred_option rollback_ok (reader_rollback reader) \<Longrightarrow>
     broker_ok {} {} (account_failed k token revision reader e b)"
  by (auto simp: account_failed_def Let_def intro!: wf_intros)

lemma ok_account_response [wf_intros]:
  "broker_ok {k} {} b \<Longrightarrow> pred_option rollback_ok (reader_rollback reader) \<Longrightarrow>
     broker_ok {} {} (account_response env k token revision reader r b)"
  by (auto simp: account_response_def Let_def split: response.split sum.split option.split intro!: wf_intros)

lemma ok_read_account [wf_intros]:
  "broker_ok {k} {} b \<Longrightarrow> pred_option rollback_ok (reader_rollback reader) \<Longrightarrow>
     broker_ok {} {} (read_account_for_token k token refresh reader b)"
  by (auto simp: read_account_for_token_def intro!: wf_intros)

lemma ok_refresh_failed [wf_intros]: "broker_ok {k} {} b \<Longrightarrow> broker_ok {} {} (refresh_failed k c e b)"
  by (auto simp: refresh_failed_def intro!: wf_intros)

lemma ok_refresh_response [wf_intros]: "broker_ok {k} {} b \<Longrightarrow> broker_ok {} {} (refresh_response env k c r b)"
  by (auto simp: refresh_response_def Let_def split: response.split sum.split option.split intro!: wf_intros)

lemma ok_start_refresh [wf_intros]: "broker_ok {} {} b \<Longrightarrow> broker_ok {} {} (start_refresh c b)"
  using ok_fresh_task [of "{}" "b\<lparr>refresh_flight := Some c\<rparr>"]
  by (auto simp: start_refresh_def Let_def intro!: wf_intros)

lemma ok_schedule_refresh [wf_intros]: "broker_ok {} {} b \<Longrightarrow> broker_ok {} {} (schedule_refresh g b)"
  by (auto simp: schedule_refresh_def Let_def intro!: wf_intros)

lemma ok_refresh_finished [wf_intros]: "broker_ok {} {} b \<Longrightarrow> broker_ok {} {} (refresh_finished c b)"
  by (auto simp: refresh_finished_def Let_def split: option.split intro!: wf_intros)

lemma ok_key_failed [wf_intros]:
  "broker_ok {k} {k} b \<Longrightarrow> rollback_ok r \<Longrightarrow> broker_ok {} {} (key_failed k token r e b)"
  by (auto simp: key_failed_def Let_def intro!: wf_intros)

lemma ok_begin_login [wf_intros]:
  assumes "broker_ok {k} {} b"
  shows "broker_ok {} {} (begin_login k r b)"
proof -
  let ?b1 = "begin_operation b"
  let ?p = "set_auth_snapshot (pending_draft (login_type_of r) None ?b1) ?b1"
  have p: "broker_ok {k} {} (snd ?p)" using assms by (intro wf_intros) simp
  have "rollback_ok (published (snd ?p), published ?b1)"
    using current_ok [of "{k}" "{}" ?b1] assms by (simp add: rollback_ok_def)
  with p show ?thesis
    by (cases r) (auto simp: begin_login_def Let_def split: option.split intro!: wf_intros)
qed

lemma ok_login_response [wf_intros]:
  "broker_ok {k} {} b \<Longrightarrow> rollback_ok q \<Longrightarrow> broker_ok {} {} (login_response env k token type q r b)"
  by (auto simp: login_response_def Let_def split: response.split sum.split option.split intro!: wf_intros)

lemma ok_key_response [wf_intros]:
  "broker_ok {k} {k} b \<Longrightarrow> rollback_ok q \<Longrightarrow> broker_ok {} {} (key_response env k token q r b)"
  by (auto simp: key_response_def Let_def reader_rollback_def split: response.split sum.split
      intro!: wf_intros)

lemma ok_key_confirmed [wf_intros]:
  "broker_ok {k} {} b \<Longrightarrow> rollback_ok q \<Longrightarrow> broker_ok {} {} (key_confirmed k token q s b)"
  by (auto simp: key_confirmed_def Let_def split: option.split intro!: wf_intros)

lemma ok_cancel [wf_intros]:
  "broker_ok {k} {} b \<Longrightarrow> broker_ok {} {} (begin_cancel k i b)"
  "broker_ok {k} {} b \<Longrightarrow> broker_ok {} {} (cancel_response env k token i r b)"
  by (auto simp: begin_cancel_def cancel_response_def Let_def split: response.split sum.split option.split
      intro!: wf_intros)

lemma ok_logout [wf_intros]:
  "broker_ok {k} {} b \<Longrightarrow> broker_ok {} {} (begin_logout k b)"
  "broker_ok {k} {} b \<Longrightarrow> broker_ok {} {} (logout_response k token r b)"
  by (auto simp: begin_logout_def logout_response_def Let_def split: response.split option.split
      intro!: wf_intros ok_logins)

lemma ok_rates_failed [wf_intros]: "broker_ok {k} {} b \<Longrightarrow> broker_ok {} {} (rates_failed k token version e b)"
  by (auto simp: rates_failed_def intro!: wf_intros)

lemma ok_rates [wf_intros]:
  "broker_ok {k} {} b \<Longrightarrow> broker_ok {} {} (begin_rates k b)"
  "broker_ok {k} {} b \<Longrightarrow> broker_ok {} {} (rates_response env k token version r b)"
  by (auto simp: begin_rates_def rates_response_def Let_def split: response.split sum.split option.split
      intro!: wf_intros)

lemma ok_start_call [wf_intros]: "broker_ok {k} {} b \<Longrightarrow> broker_ok {} {} (start_call env k c b)"
  by (cases "(env, k, c, b)" rule: start_call.cases)
    (auto simp: call_cancel_def split: option.split sum.split jsvalue.split intro!: wf_intros)

lemma ok_run_auth_call: "broker_ok {} {} b \<Longrightarrow> broker_ok {} {} (run_auth_call env c b)"
  using ok_fresh_task [of "{}" b] by (auto simp: run_auth_call_def Let_def intro!: wf_intros)

lemma ok_begin_call [wf_intros]: "broker_ok {k} {} b \<Longrightarrow> broker_ok {} {} (begin_call k c b)"
  by (cases "(k, c, b)" rule: begin_call.cases) (auto simp: Let_def reader_rollback_def intro!: wf_intros)

lemma ok_call_refused [wf_intros]: "broker_ok {k} {} b \<Longrightarrow> broker_ok {} {} (call_refused k c code b)"
  by (auto simp: call_refused_def intro!: wf_intros)

lemma ok_signature: "broker_ok S K b \<Longrightarrow> note_signature m v b = Some b' \<Longrightarrow> broker_ok S K b'"
  by (auto simp: note_signature_def Let_def split: if_splits)

lemma ok_invalid_notification [wf_intros]: "broker_ok {} {} b \<Longrightarrow> broker_ok {} {} (invalid_notification e b)"
  by (auto simp: invalid_notification_def intro!: wf_intros)

lemma ok_login_completed [wf_intros]: "broker_ok {} {} b \<Longrightarrow> broker_ok {} {} (login_completed c b)"
  by (auto simp: login_completed_def Let_def split: option.split intro!: wf_intros)

lemma ok_notification: "broker_ok {} {} b \<Longrightarrow> broker_ok {} {} (on_notification env m v g b)"
  by (auto simp: on_notification_def account_updated_def login_completion_notified_def rates_updated_def Let_def
      split: sum.split option.split intro!: wf_intros dest: ok_signature [rotated])

lemma ok_host_state:
  assumes "broker_ok {} {} b"
  shows "broker_ok {} {} (on_host_state st g b)"
proof -
  have enter: "broker_ok {} {} (enter_generation g b)"
    using assms by (simp add: enter_generation_def Let_def ok_logins)
  have ready: "broker_ok {} {} (read_account_for_token (next_task b') t x Host_Read (fresh_task b'))"
    if "broker_ok {} {} b'" for b' t x
    using ok_fresh_task [OF that] by (intro wf_intros) (simp_all add: reader_rollback_def)
  show ?thesis
    using assms enter by (auto simp: on_host_state_def Let_def intro!: ready wf_intros)
qed

lemma ok_dispose_broker: "broker_ok {} {} b \<Longrightarrow> broker_ok {} {} (dispose_broker b)"
proof -
  assume ok: "broker_ok {} {} b"
  let ?b = "invalidate_rate_reads (begin_operation (b\<lparr>broker_disposed := True\<rparr>))"
  have "broker_ok {} {} (?b\<lparr>auth_clients := [], known_logins := [], signatures := [], lease := False\<rparr>)"
    using ok by (simp add: broker_ok_def content_ok_def invalidate_rate_reads_def begin_operation_def
        invalidate_refresh_def)
  with ok show ?thesis
    unfolding dispose_broker_def Let_def by (auto intro!: ok_emit)
qed

lemma ok_set_client: "broker_ok {} {} b \<Longrightarrow> broker_ok {} {} (set_client c b)"
proof -
  assume ok: "broker_ok {} {} b"
  have "broker_ok {} {} (b\<lparr>auth_clients := cs\<rparr>)" if "\<not> broker_disposed b" for cs
    using ok that by (simp add: broker_ok_def content_ok_def)
  with ok current_ok [OF ok] show ?thesis
    by (auto simp: set_client_def object_ok_def intro!: wf_intros)
qed

lemma ok_resume: "broker_ok {} {} b \<Longrightarrow> broker_ok {} {} (resume k b)"
  using ok_drop_task [of b k]
  by (auto simp: resume_def holds_key_def task_ok_def split: option.split task.split intro!: wf_intros
      intro: ok_weaken)

lemma ok_respond_task: "broker_ok {} {} b \<Longrightarrow> broker_ok {} {} (respond_task env k r b)"
  using ok_drop_task [of b k]
  by (auto simp: respond_task_def holds_key_def task_ok_def split: option.split task.split intro!: wf_intros)

lemma ok_broker_next: "broker_ok {} {} b \<Longrightarrow> broker_ok {} {} (broker_next env b e)"
  by (cases "(env, b, e)" rule: broker_next.cases)
    (auto simp: ok_run_auth_call ok_set_client ok_lease ok_resume ok_respond_task ok_notification ok_host_state
      ok_dispose_broker, auto simp: broker_ok_def content_ok_def)

interpretation broker: stateful "broker_step env" "broker_ok {} {}" for env
  by unfold_locales (simp add: broker_step_def ok_broker_next)

lemma ok_new_broker: "broker_ok {} {} new_broker"
  by (auto simp: broker_ok_def content_ok_def ledger_ok_def secrets_ok_def new_broker_def plain_state_def
      auth_snapshot_ok_def answered_def registered_def released_def holds_key_def map_get_def map_has_def)

abbreviation broker_run :: "auth_env \<Rightarrow> broker_event list \<Rightarrow> broker" where
  "broker_run env es \<equiv> fst (run_machine (broker_step env) new_broker es)"

lemma run_ok: "broker_ok {} {} (broker_run env es)"
  by (rule broker.run_inv [OF ok_new_broker])

section \<open>After disposal\<close>

text \<open>Effects that reach a client, the app server or the host.\<close>

definition loud :: "effect \<Rightarrow> bool" where
  "loud e = (case e of Published _ _ \<Rightarrow> True | Requested _ _ _ \<Rightarrow> True | Acquire_Lease \<Rightarrow> True | _ \<Rightarrow> False)"

definition hushed :: "effect list \<Rightarrow> broker \<Rightarrow> bool" where
  "hushed es b \<longleftrightarrow>
     broker_disposed b \<and> \<not> lease b \<and> auth_clients b = [] \<and> filter loud (effects b) = es"

named_theorems hush_intros \<open>operations of a disposed broker emit nothing loud\<close>

lemma loud_simps [simp]:
  "\<not> loud Release_Lease" "\<not> loud (Settled k r)" "\<not> loud (Joined k j)" "\<not> loud Protocol_Error"
  "\<not> loud (Secret_Registered k)" "\<not> loud (Secret_Released k)" "\<not> loud Detached"
  by (simp_all add: loud_def)

lemma hushed_frame [simp]:
  "hushed es (b\<lparr>next_object := n\<rparr>) = hushed es b" "hushed es (b\<lparr>lease_waiting := x\<rparr>) = hushed es b"
  "hushed es (b\<lparr>activation := a\<rparr>) = hushed es b" "hushed es (b\<lparr>refresh_flight := c\<rparr>) = hushed es b"
  "hushed es (b\<lparr>refresh_queue := c\<rparr>) = hushed es b" "hushed es (b\<lparr>account_revision := n\<rparr>) = hushed es b"
  "hushed es (b\<lparr>rate_operation := n\<rparr>) = hushed es b" "hushed es (b\<lparr>known_logins := l\<rparr>) = hushed es b"
  "hushed es (b\<lparr>tasks := m\<rparr>) = hushed es b" "hushed es (b\<lparr>published := s\<rparr>) = hushed es b"
  "hushed es (b\<lparr>refresh_counter := n\<rparr>) = hushed es b"
  "hushed es (invalidate_refresh b) = hushed es b" "hushed es (begin_operation b) = hushed es b"
  "hushed es (invalidate_rate_reads b) = hushed es b" "hushed es (put_task k t b) = hushed es b"
  "hushed es (drop_task k b) = hushed es b" "hushed es (fresh_task b) = hushed es b"
  "hushed es (remember_login i st n b) = hushed es b" "hushed es (wake_all r b) = hushed es b"
  by (simp_all add: hushed_def invalidate_refresh_def begin_operation_def invalidate_rate_reads_def put_task_def
      drop_task_def fresh_task_def remember_login_def wake_all_def)

lemma hush_emit [hush_intros]: "hushed es b \<Longrightarrow> \<not> loud e \<Longrightarrow> hushed es (emit [e] b)"
  by (simp add: hushed_def emit_def)

lemma hush_publish [hush_intros]: "hushed es b \<Longrightarrow> hushed es (publish s b)"
  by (simp add: hushed_def emit_def publish_def)

lemma hush_set [hush_intros]:
  "hushed es b \<Longrightarrow> hushed es (snd (set_snapshot d b))" "hushed es b \<Longrightarrow> hushed es (snd (set_auth_snapshot d b))"
  "hushed es b \<Longrightarrow> hushed es (snd (set_generic_error c b))" "hushed es b \<Longrightarrow> hushed es (restore_snapshot s b)"
  "hushed es b \<Longrightarrow> hushed es (settle k r b)"
  by (auto simp: set_snapshot_def set_auth_snapshot_def set_generic_error_def restore_snapshot_def settle_def
      split: sum.split intro!: hush_publish hush_emit)

lemma hush_fail [hush_intros]:
  "hushed es b \<Longrightarrow> hushed es (snd (fail_operation e token q b))"
  "hushed es b \<Longrightarrow> hushed es (snd (fail_rate_operation e token b))"
  by (auto simp: fail_operation_def fail_rate_operation_def Let_def split: caught.split option.split
      intro!: hush_intros)

lemma hush_refuse [hush_intros]: "hushed es (snd p) \<Longrightarrow> hushed es (refuse k p)"
  by (simp add: refuse_def hush_intros)

lemma hush_no_lease [simp]: "hushed es b \<Longrightarrow> \<not> lease b"
  by (simp add: hushed_def)

lemma hush_reads [hush_intros]:
  "hushed es b \<Longrightarrow> hushed es (finish_read k token reader result b)"
  "hushed es b \<Longrightarrow> hushed es (account_failed k token revision reader e b)"
  "hushed es b \<Longrightarrow> hushed es (account_response env k token revision reader r b)"
  "hushed es b \<Longrightarrow> hushed es (read_account_for_token k token refresh reader b)"
proof -
  show finish: "hushed es b \<Longrightarrow> hushed es (finish_read k token reader result b)" for b result reader token k
    by (auto simp: finish_read_def Let_def split: reader.split sum.split intro!: hush_intros)
  show failed: "hushed es b \<Longrightarrow> hushed es (account_failed k token revision reader e b)" for b revision e token k
    by (auto simp: account_failed_def Let_def intro!: finish hush_intros)
  show "hushed es b \<Longrightarrow> hushed es (account_response env k token revision reader r b)"
    by (auto simp: account_response_def Let_def split: response.split sum.split option.split
        intro!: finish failed hush_intros)
  show "hushed es b \<Longrightarrow> hushed es (read_account_for_token k token refresh reader b)"
    by (simp add: read_account_for_token_def failed)
qed

lemma hush_refresh [hush_intros]:
  "hushed es b \<Longrightarrow> hushed es (refresh_failed k c e b)" "hushed es b \<Longrightarrow> hushed es (refresh_response env k c r b)"
  "hushed es b \<Longrightarrow> hushed es (start_refresh c b)" "hushed es b \<Longrightarrow> hushed es (refresh_finished c b)"
proof -
  show failed: "hushed es b \<Longrightarrow> hushed es (refresh_failed k c e b)" for k c e b
    by (auto simp: refresh_failed_def intro!: hush_intros)
  show "hushed es b \<Longrightarrow> hushed es (refresh_response env k c r b)"
    by (auto simp: refresh_response_def Let_def split: response.split sum.split option.split
        intro!: failed hush_intros)
  show start: "hushed es b \<Longrightarrow> hushed es (start_refresh c b)" for c b
  proof -
    assume h: "hushed es b"
    then have "\<not> lease (fresh_task (b\<lparr>refresh_flight := Some c\<rparr>))" by (simp add: hushed_def fresh_task_def)
    with h show ?thesis by (simp add: start_refresh_def Let_def failed)
  qed
  show "hushed es b \<Longrightarrow> hushed es (refresh_finished c b)"
    by (auto simp: refresh_finished_def Let_def split: option.split intro!: start)
qed

lemma hush_if: "hushed es b \<Longrightarrow> hushed es y \<Longrightarrow> hushed es (if lease b then x else y)"
  by simp

lemma hush_key [hush_intros]: "hushed es b \<Longrightarrow> hushed es (key_failed k token q e b)"
  by (auto simp: key_failed_def Let_def intro!: hush_intros)

lemma hush_login: "hushed es b \<Longrightarrow> hushed es (begin_login k r b)"
proof -
  assume h: "hushed es b"
  let ?b1 = "begin_operation b"
  let ?p = "set_auth_snapshot (pending_draft (login_type_of r) None ?b1) ?b1"
  have p: "hushed es (snd ?p)" using h by (intro hush_intros) simp
  show ?thesis
  proof (cases "fst ?p")
    case None
    show ?thesis
      unfolding begin_login_def Let_def None option.case
      by (cases r; simp only: login_request.case; intro hush_if hush_intros p loud_simps; simp add: h)
  next
    case (Some e)
    show ?thesis unfolding begin_login_def Let_def Some option.case by (intro hush_intros p)
  qed
qed

lemma hush_rates [hush_intros]: "hushed es b \<Longrightarrow> hushed es (rates_failed k token version e b)"
  by (auto simp: rates_failed_def intro!: hush_intros)

lemma hush_begin [hush_intros]: "hushed es b \<Longrightarrow> hushed es (begin_call k c b)"
proof (cases c)
  case (Cancel i)
  show "hushed es b \<Longrightarrow> ?thesis"
    unfolding Cancel begin_call.simps begin_cancel_def Let_def by (intro hush_if hush_intros) simp_all
next
  case Logout
  show "hushed es b \<Longrightarrow> ?thesis"
    unfolding Logout begin_call.simps begin_logout_def Let_def by (intro hush_if hush_intros) simp_all
next
  case Read_Rates
  show "hushed es b \<Longrightarrow> ?thesis"
    unfolding Read_Rates begin_call.simps begin_rates_def Let_def by (intro hush_if hush_intros) simp_all
qed (auto simp: Let_def hush_login intro!: hush_intros)

lemma hush_responses [hush_intros]:
  "hushed es b \<Longrightarrow> hushed es (login_response env k token type q r b)"
  "hushed es b \<Longrightarrow> hushed es (key_response env k token q r b)"
  "hushed es b \<Longrightarrow> hushed es (key_confirmed k token q s b)"
  "hushed es b \<Longrightarrow> hushed es (cancel_response env k token i r b)"
  "hushed es b \<Longrightarrow> hushed es (logout_response k token r b)"
  "hushed es b \<Longrightarrow> hushed es (rates_response env k token version r b)"
  by (auto simp: login_response_def key_response_def key_confirmed_def cancel_response_def logout_response_def
      rates_response_def Let_def split: response.split sum.split option.split intro!: hush_intros)

lemma hush_resume: "hushed es b \<Longrightarrow> hushed es (resume k b)"
  by (auto simp: resume_def call_refused_def split: option.split task.split intro!: hush_intros)

lemma hush_respond: "hushed es b \<Longrightarrow> hushed es (respond_task env k r b)"
  by (auto simp: respond_task_def split: option.split task.split intro!: hush_intros)

lemma hush_next: "hushed es b \<Longrightarrow> hushed es (broker_next env b e)"
proof -
  assume h: "hushed es b"
  then have off: "broker_disposed b" "\<not> lease b" by (simp_all add: hushed_def)
  show ?thesis
  proof (cases e)
    case (Auth_Call c)
    with h off show ?thesis by (simp add: run_auth_call_def Let_def hush_intros)
  next
    case (Disconnect_Client c)
    with h show ?thesis by (simp add: hushed_def)
  qed (use h off in \<open>auto simp: set_client_def lease_acquired_def lease_refused_def on_notification_def
      on_host_state_def dispose_broker_def hush_resume hush_respond intro!: hush_intros\<close>)
qed

lemma hush_run: "hushed es b \<Longrightarrow> hushed es (fst (run_machine (broker_step env) b evs))"
  by (induction evs arbitrary: b) (simp_all add: broker_step_def hush_next)

lemma hush_dispose:
  assumes "broker_ok {} {} b"
  shows "hushed (filter loud (effects b)) (dispose_broker b)"
proof (cases "broker_disposed b")
  case True
  with assms show ?thesis by (simp add: dispose_broker_def hushed_def broker_ok_def content_ok_def)
next
  case False
  have same: "effects (invalidate_rate_reads (begin_operation c)) = effects c"
    "broker_disposed (invalidate_rate_reads (begin_operation c)) = broker_disposed c" for c
    by (simp_all add: invalidate_rate_reads_def begin_operation_def invalidate_refresh_def)
  from False show ?thesis by (simp add: dispose_broker_def hushed_def Let_def emit_def same)
qed

section \<open>Superseded responses\<close>

text \<open>The caller operation a waiting request belongs to.\<close>

definition task_token :: "task \<Rightarrow> nat option" where
  "task_token t =
     (case t of
        Awaiting_Account n _ _ \<Rightarrow> Some n
      | Awaiting_Login n _ _ \<Rightarrow> Some n
      | Awaiting_Key n _ \<Rightarrow> Some n
      | Awaiting_Cancel n _ \<Rightarrow> Some n
      | Awaiting_Logout n \<Rightarrow> Some n
      | _ \<Rightarrow> None)"

definition auth_state_kept :: "broker \<Rightarrow> broker \<Rightarrow> bool" where
  "auth_state_kept b c \<longleftrightarrow>
     published c = published b \<and> known_logins c = known_logins b \<and> account_revision c = account_revision b \<and>
     caller_operation c = caller_operation b \<and> filter loud (effects c) = filter loud (effects b)"

lemma superseded_kept:
  assumes "n \<noteq> caller_operation b"
  shows "snd (fail_operation e n q b) = b"
  using assms by (simp add: fail_operation_def split: caught.split)

lemma kept_simps [simp]:
  "auth_state_kept b (drop_task k b)" "auth_state_kept b (settle k r c) = auth_state_kept b c"
  "auth_state_kept b (put_task k t c) = auth_state_kept b c"
  "auth_state_kept b (emit [Secret_Released k] c) = auth_state_kept b c"
  by (simp_all add: auth_state_kept_def drop_task_def settle_def emit_def put_task_def)

lemma kept_finish: "auth_state_kept b c \<Longrightarrow> auth_state_kept b (finish_read k token reader result c)"
  by (simp add: finish_read_def Let_def split: reader.split sum.split)

section \<open>Properties\<close>

definition quiet_auth_env :: auth_env where
  "quiet_auth_env = \<lparr>env_is_proxy = trusted_is_proxy, env_url = (\<lambda>_. None)\<rparr>"

text \<open>C33. Only valid snapshots are ever published: in every interleaving of calls, responses,
  notifications, host states and disposal, the current snapshot and each one sent to a client are
  within bounds and fixed points of the normalizer, and at most 32 logins are remembered.\<close>

theorem broker_publishes_valid:
  "auth_snapshot_ok (current (broker_run env es)) \<and>
   create_snapshot trusted_is_proxy (snapshot_value (current (broker_run env es))) = Inr (current (broker_run env es)) \<and>
   list_all (\<lambda>e. case e of Published _ s \<Rightarrow> auth_snapshot_ok s | _ \<Rightarrow> True) (effects (broker_run env es)) \<and>
   length (known_logins (broker_run env es)) \<le> 32"
  using run_ok [of env es]
  by (simp add: broker_ok_def content_ok_def snapshot_roundtrip max_known_logins_def effect_ok_def [abs_def])

text \<open>C35. An API key is registered with the diagnostics as a secret exactly while its login request is in
  flight: in every run registrations and releases of each login balance, but for the logins whose
  request waits for an answer.\<close>

theorem api_key_scoped:
  "registered k (effects (broker_run env es)) =
     released k (effects (broker_run env es)) + of_bool (holds_key k (tasks (broker_run env es)))"
  using run_ok [of env es] by (simp add: broker_ok_def secrets_ok_def)

text \<open>C34. Answers to superseded operations change nothing: when a later call, host state or disposal has
  begun a new operation, the response to an account read, login, cancel or logout leaves the
  published snapshot and the known logins alone and reaches no client and no server.\<close>

theorem superseded_response_inert:
  assumes "map_get (tasks b) k = Some t" and "task_token t = Some n" and "n \<noteq> caller_operation b"
  shows "auth_state_kept b (respond_task env k r b)"
proof -
  let ?b = "drop_task k b"
  have n: "n \<noteq> caller_operation ?b" using assms(3) by (simp add: drop_task_def)
  note fail = superseded_kept [OF n]
  have finish: "auth_state_kept b (finish_read k n reader result ?b)" for reader result
    by (rule kept_finish) simp
  show ?thesis
  proof (cases t)
    case (Awaiting_Account m revision reader)
    with assms n finish show ?thesis
      by (simp add: respond_task_def task_token_def account_response_def account_failed_def split: response.split)
  qed (use assms n fail in \<open>auto simp: respond_task_def task_token_def login_response_def key_response_def
      key_failed_def cancel_response_def logout_response_def refuse_def Let_def emit_def [of "[Secret_Released _]"]
      auth_state_kept_def settle_def drop_task_def emit_def split: response.split\<close>)
qed

theorem superseded_response_inert_witness:
  "let b = new_broker\<lparr>tasks := [(0, Awaiting_Logout 3)], next_task := 1\<rparr>
   in auth_state_kept b (respond_task quiet_auth_env 0 (Answered JsNull) b)"
  unfolding Let_def
  by (rule superseded_response_inert [of _ _ "Awaiting_Logout 3" 3])
    (simp_all add: map_get_def task_token_def new_broker_def)

text \<open>A disposed broker is silent: whatever happens afterwards (late leases, answers, notifications,
  calls), it sends nothing to a client, makes no request and acquires no lease.\<close>

theorem broker_silent_after_dispose:
  "let b = broker_run env es; c = broker_next env b Dispose_Broker
   in filter loud (effects (fst (run_machine (broker_step env) c fs))) = filter loud (effects b)"
  using hush_run [OF hush_dispose [OF run_ok [of env es]], of env fs] by (simp add: Let_def hushed_def)

text \<open>The code does not look at \<open>#disposed\<close> again after awaiting the lease: a call that was waiting when the
  broker was disposed goes on, finds no lease and turns the snapshot of the disposed broker into an
  error. No client sees it, by the property above.\<close>

lemma waiting_call_outlives_dispose:
  "auth_state (current (broker_run quiet_auth_env
     [Auth_Call Call_Logout, Lease_Acquired 1, Dispose_Broker, Resume 0])) = Auth_Failed"
proof -
  let ?s = "\<lparr>auth_state = Auth_Failed, auth_account = None, auth_limits = None, auth_pending = None,
    auth_error = Some \<lparr>auth_error_code = js (auth_code_name Invalid_Data), auth_error_message = js (auth_message Invalid_Data)\<rparr>\<rparr>"
  have "auth_snapshot_ok ?s"
    by (simp add: auth_snapshot_ok_def text_ok_def auth_code_name_def auth_message_def max_error_code_length_def
        max_auth_message_length_def is_control_def js_def)
  then have made: "create_snapshot trusted_is_proxy (snapshot_value ?s) = Inr ?s" by (rule snapshot_roundtrip)
  note parts = run_auth_call_def fresh_task_def ensure_lease_def put_task_def emit_def lease_acquired_def wake_all_def
    wake_def dispose_broker_def resume_def drop_task_def begin_logout_def refuse_def settle_def fail_operation_def
    no_lease_def invalidate_rate_reads_def begin_operation_def invalidate_refresh_def map_get_def map_set_def
    map_has_def map_delete_def
  show ?thesis
    by (simp add: broker_step_def new_broker_def parts Let_def plain_state_def set_generic_error_def
        set_auth_snapshot_def set_snapshot_def made publish_def)
qed

end
