(* ===== verification/Paths.thy ===== *)
theory Paths
  imports JsValue
begin

text \<open>
  Node's path functions as the approval broker uses them, and its own path checks
  (\<open>src/node/ride-codex-approval-broker.ts\<close>, \<open>isSafeLocalPath\<close> to \<open>resolveNearestRealPath\<close>). A path
  library is a record of functions: \<open>posix_paths\<close> is \<open>path.posix\<close>, written over the segments between
  slashes; the functions of \<open>path.win32\<close> are a parameter of the same type. The working directory and
  the file system are parameters.
\<close>

record path_library =
  path_sep :: jsstr
  path_normalize :: "jsstr \<Rightarrow> jsstr"
  path_absolute :: "jsstr \<Rightarrow> bool"
  path_resolve :: "jsstr list \<Rightarrow> jsstr"
  path_relative :: "jsstr \<Rightarrow> jsstr \<Rightarrow> jsstr"
  path_dirname :: "jsstr \<Rightarrow> jsstr"
  path_basename :: "jsstr \<Rightarrow> jsstr"

section \<open>Segments\<close>

abbreviation slash :: "16 word" where "slash \<equiv> 0x2F"
abbreviation backslash :: "16 word" where "backslash \<equiv> 0x5C"
abbreviation dot :: "16 word" where "dot \<equiv> 0x2E"
abbreviation colon :: "16 word" where "colon \<equiv> 0x3A"

fun split_at :: "(16 word \<Rightarrow> bool) \<Rightarrow> jsstr \<Rightarrow> jsstr list" where
  "split_at p [] = [[]]"
| "split_at p (c # s) =
     (if p c then [] # split_at p s
      else case split_at p s of [] \<Rightarrow> [[c]] | t # ts \<Rightarrow> (c # t) # ts)"

fun join_with :: "jsstr \<Rightarrow> jsstr list \<Rightarrow> jsstr" where
  "join_with sep [] = []"
| "join_with sep [s] = s"
| "join_with sep (s # t # ts) = s @ sep @ join_with sep (t # ts)"

abbreviation dotdot :: jsstr where "dotdot \<equiv> [dot, dot]"

text \<open>\<open>normalizeString\<close>: the stack \<open>acc\<close> holds the segments kept so far, the last one first.\<close>

fun resolve_segments :: "bool \<Rightarrow> jsstr list \<Rightarrow> jsstr list \<Rightarrow> jsstr list" where
  "resolve_segments up [] acc = rev acc"
| "resolve_segments up (s # ss) acc =
     (if s = [] \<or> s = [dot] then resolve_segments up ss acc
      else if s = dotdot then
        (case acc of
           a # as \<Rightarrow> if a = dotdot then resolve_segments up ss (dotdot # acc) else resolve_segments up ss as
         | [] \<Rightarrow> resolve_segments up ss (if up then [dotdot] else []))
      else resolve_segments up ss (s # acc))"

definition posix_segments :: "bool \<Rightarrow> jsstr \<Rightarrow> jsstr list" where
  "posix_segments up s = resolve_segments up (split_at (\<lambda>c. c = slash) s) []"

definition posix_join :: "jsstr list \<Rightarrow> jsstr" where
  "posix_join ss = join_with [slash] ss"

fun common_prefix :: "'a list \<Rightarrow> 'a list \<Rightarrow> nat" where
  "common_prefix (x # xs) (y # ys) = (if x = y then Suc (common_prefix xs ys) else 0)"
| "common_prefix _ _ = 0"

section \<open>The functions of \<open>path.posix\<close>\<close>

definition posix_absolute :: "jsstr \<Rightarrow> bool" where
  "posix_absolute s \<longleftrightarrow> s \<noteq> [] \<and> hd s = slash"

definition posix_normalize :: "jsstr \<Rightarrow> jsstr" where
  "posix_normalize s =
     (if s = [] then [dot]
      else
        let absolute = posix_absolute s; trailing = (last s = slash);
            body = posix_join (posix_segments (\<not> absolute) s)
        in if body = [] then (if absolute then [slash] else if trailing then [dot, slash] else [dot])
           else (if absolute then [slash] else []) @ body @ (if trailing then [slash] else []))"

text \<open>The arguments are read from the right, then the working directory, until the path is absolute.\<close>

fun gather_absolute :: "jsstr list \<Rightarrow> jsstr \<Rightarrow> jsstr \<times> bool" where
  "gather_absolute [] acc = (acc, False)"
| "gather_absolute (p # ps) acc =
     (if p = [] then gather_absolute ps acc
      else if posix_absolute p then (p @ [slash] @ acc, True)
      else gather_absolute ps (p @ [slash] @ acc))"

definition posix_resolve :: "jsstr \<Rightarrow> jsstr list \<Rightarrow> jsstr" where
  "posix_resolve cwd args =
     (let r = gather_absolute (rev args @ [cwd]) []; body = posix_join (posix_segments (\<not> snd r) (fst r))
      in if snd r then [slash] @ body else if body = [] then [dot] else body)"

definition posix_relative :: "jsstr \<Rightarrow> jsstr \<Rightarrow> jsstr \<Rightarrow> jsstr" where
  "posix_relative cwd from target =
     (if from = target then []
      else
        let fs = posix_segments False (posix_resolve cwd [from]);
            ts = posix_segments False (posix_resolve cwd [target]);
            n = common_prefix fs ts
        in posix_join (replicate (length fs - n) dotdot @ drop n ts))"

text \<open>\<open>dirname\<close> and \<open>basename\<close>: trailing slashes are ignored, and of those before the last segment only
  the last one is dropped.\<close>

definition strip_trailing :: "jsstr \<Rightarrow> jsstr" where
  "strip_trailing s = rev (dropWhile (\<lambda>c. c = slash) (rev s))"

definition posix_basename :: "jsstr \<Rightarrow> jsstr" where
  "posix_basename s = last (split_at (\<lambda>c. c = slash) (strip_trailing s))"

definition posix_dirname :: "jsstr \<Rightarrow> jsstr" where
  "posix_dirname s =
     (if s = [] then [dot]
      else if strip_trailing (tl s) = [] then (if hd s = slash then [slash] else [dot])
      else
        let t = hd s # strip_trailing (tl s); before = dropWhile (\<lambda>c. c \<noteq> slash) (rev t)
        in case before of
             [] \<Rightarrow> [dot]
           | _ # r \<Rightarrow> if r = [] then [slash] else if rev r = [slash] then [slash, slash] else rev r)"

definition posix_paths :: "jsstr \<Rightarrow> path_library" where
  "posix_paths cwd =
     \<lparr>path_sep = [slash], path_normalize = posix_normalize, path_absolute = posix_absolute,
      path_resolve = posix_resolve cwd, path_relative = posix_relative cwd, path_dirname = posix_dirname,
      path_basename = posix_basename\<rparr>"


section \<open>The broker's path checks\<close>

datatype path_style = Posix | Win32

definition path_control :: "16 word \<Rightarrow> bool" where
  "path_control c \<longleftrightarrow> unat c \<le> 0x1F \<or> 0x7F \<le> unat c \<and> unat c \<le> 0x9F"

definition ascii_letter :: "16 word \<Rightarrow> bool" where
  "ascii_letter c \<longleftrightarrow> 0x41 \<le> unat c \<and> unat c \<le> 0x5A \<or> 0x61 \<le> unat c \<and> unat c \<le> 0x7A"

text \<open>\<open>toUpperCase\<close>, as far as the device names need it: no letter outside ASCII has one of the letters
  of a device name as its upper case form.\<close>

definition upper_unit :: "16 word \<Rightarrow> 16 word" where
  "upper_unit c = (if 0x61 \<le> unat c \<and> unat c \<le> 0x7A then c - 0x20 else c)"

text \<open>The digits 1 to 9 and the superscripts one, two and three.\<close>

definition port_digit :: "16 word \<Rightarrow> bool" where
  "port_digit c \<longleftrightarrow> 0x31 \<le> unat c \<and> unat c \<le> 0x39 \<or> c \<in> {0xB9, 0xB2, 0xB3}"

definition is_device_name :: "jsstr \<Rightarrow> bool" where
  "is_device_name s \<longleftrightarrow>
     s \<in> set (map js [''CON'', ''PRN'', ''AUX'', ''NUL''])
     \<or> length s = 4 \<and> take 3 s \<in> set (map js [''COM'', ''LPT'']) \<and> port_digit (last s)"

definition device_stem :: "jsstr \<Rightarrow> jsstr" where
  "device_stem segment = map upper_unit (rev (dropWhile (\<lambda>c. c = 0x20) (rev (takeWhile (\<lambda>c. c \<noteq> dot) segment))))"

definition has_windows_device_segment :: "jsstr \<Rightarrow> bool" where
  "has_windows_device_segment s =
     list_ex (\<lambda>g. g \<noteq> [] \<and> g \<noteq> [dot] \<and> g \<noteq> dotdot \<and> is_device_name (device_stem g))
       (split_at (\<lambda>c. c = slash \<or> c = backslash) s)"

definition has_drive :: "jsstr \<Rightarrow> bool" where
  "has_drive s = (case s of a # b # _ \<Rightarrow> ascii_letter a \<and> b = colon | _ \<Rightarrow> False)"

definition is_safe_local_path :: "path_style \<Rightarrow> jsstr \<Rightarrow> bool" where
  "is_safe_local_path style s =
     (if s = [] \<or> list_ex path_control s then False
      else
        case style of
          Win32 \<Rightarrow>
            if take 2 s = [backslash, backslash] \<or> take 2 s = [slash, slash] then False
            else if has_drive s \<and> (length s = 2 \<or> s ! 2 \<noteq> backslash \<and> s ! 2 \<noteq> slash) then False
            else
              let without_drive = (if has_drive s then drop 2 s else s)
              in colon \<notin> set without_drive \<and> \<not> has_windows_device_segment without_drive
        | Posix \<Rightarrow> take 2 s \<noteq> [slash, slash])"

definition is_within :: "path_library \<Rightarrow> jsstr \<Rightarrow> jsstr \<Rightarrow> bool" where
  "is_within paths base target =
     (let relative = path_relative paths base target; up = dotdot @ path_sep paths in
      relative = []
      \<or> take (length up) relative \<noteq> up \<and> relative \<noteq> dotdot \<and> \<not> path_absolute paths relative)"

definition max_path_bytes :: int where "max_path_bytes = 32 * 1024"

record command_cwd =
  cwd_display :: jsstr
  cwd_normalized :: jsstr

definition validate_command_cwd :: "path_library \<Rightarrow> path_style \<Rightarrow> jsstr \<Rightarrow> command_cwd option" where
  "validate_command_cwd paths style s =
     (if s \<noteq> [] \<and> \<not> is_safe_local_path style s then None
      else
        let normalized = path_normalize paths s
        in if utf8_byte_length normalized \<le> max_path_bytes
           then Some \<lparr>cwd_display = s, cwd_normalized = normalized\<rparr> else None)"

text \<open>The target of a path of a change, and the relative path under which it is shown.\<close>

definition scoped_target :: "path_library \<Rightarrow> jsstr \<Rightarrow> jsstr \<Rightarrow> jsstr" where
  "scoped_target paths workspace raw =
     path_normalize paths (if path_absolute paths raw then raw else path_resolve paths [workspace, raw])"

definition shown_path :: "path_library \<Rightarrow> jsstr \<Rightarrow> jsstr \<Rightarrow> jsstr option" where
  "shown_path paths workspace target =
     (let relative = path_relative paths workspace target
      in if relative \<noteq> [] \<and> utf8_byte_length relative \<le> max_path_bytes then Some relative else None)"

definition canonical_scoped_path :: "path_library \<Rightarrow> path_style \<Rightarrow> jsstr \<Rightarrow> jsstr \<Rightarrow> jsstr option" where
  "canonical_scoped_path paths style raw workspace =
     (if \<not> is_safe_local_path style raw then None
      else
        let target = scoped_target paths workspace raw
        in if \<not> is_within paths workspace target then None else shown_path paths workspace target)"

section \<open>The nearest existing ancestor\<close>

datatype real_answer = Real jsstr | Missing | Unreadable

text \<open>\<open>resolveNearestRealPath\<close>: the loop ends at a path that is its own parent, so it is a partial function
  of an arbitrary path library; \<open>tail\<close> holds the names still missing, the outermost first.\<close>

partial_function (option) nearest_real_path ::
    "path_library \<Rightarrow> (jsstr \<Rightarrow> real_answer) \<Rightarrow> jsstr \<Rightarrow> jsstr list \<Rightarrow> jsstr option option" where
  "nearest_real_path paths realpath candidate tail =
     (case realpath candidate of
        Real r \<Rightarrow> Some (Some (path_resolve paths (r # tail)))
      | Unreadable \<Rightarrow> Some None
      | Missing \<Rightarrow>
          let parent = path_dirname paths candidate in
          if parent = candidate then Some None
          else nearest_real_path paths realpath parent (path_basename paths candidate # tail))"

end
