(* ===== verification/ApprovalData.thy ===== *)
theory ApprovalData
  imports Paths JsMap Validator Events
begin

text \<open>
  What the approval broker accepts (\<open>src/common/ride-codex-approvals.ts\<close> and the validators of
  \<open>src/node/ride-codex-approval-broker.ts\<close>): requests of the app server, contexts and decisions of the
  clients, announced file changes. Values are untrusted; \<open>px\<close> is the platform's \<open>types.isProxy\<close>. An
  object with symbol keys and an array with holes are not values of the model.
\<close>

section \<open>Data\<close>

datatype decision = Accept | Accept_For_Session | Decline | Cancel

definition decision_name :: "decision \<Rightarrow> string" where
  "decision_name d =
     (case d of
        Accept \<Rightarrow> ''accept'' | Accept_For_Session \<Rightarrow> ''acceptForSession'' | Decline \<Rightarrow> ''decline''
      | Cancel \<Rightarrow> ''cancel'')"

datatype approval_kind = Command_Approval | File_Approval

definition approval_kind_name :: "approval_kind \<Rightarrow> string" where
  "approval_kind_name k = (case k of Command_Approval \<Rightarrow> ''command'' | File_Approval \<Rightarrow> ''file-change'')"

record approval_context =
  context_generation :: int
  context_thread :: jsstr
  context_turn :: jsstr

datatype protocol = Http | Https | Socks5_Tcp | Socks5_Udp

definition protocol_name :: "protocol \<Rightarrow> string" where
  "protocol_name p =
     (case p of Http \<Rightarrow> ''http'' | Https \<Rightarrow> ''https'' | Socks5_Tcp \<Rightarrow> ''socks5Tcp'' | Socks5_Udp \<Rightarrow> ''socks5Udp'')"

record network_access =
  network_host :: jsstr
  network_protocol :: protocol

datatype change_type = Add_Change | Delete_Change | Update_Change

definition change_type_name :: "change_type \<Rightarrow> string" where
  "change_type_name k = (case k of Add_Change \<Rightarrow> ''add'' | Delete_Change \<Rightarrow> ''delete'' | Update_Change \<Rightarrow> ''update'')"

record scope_change =
  scope_path :: jsstr
  scope_kind :: change_type
  scope_move :: "jsstr option"

record file_scope =
  scope_workspace :: jsstr
  scope_changes :: "scope_change list"

datatype request_detail =
    Command_Detail "jsstr option" "command_cwd option" "jsstr option" "network_access option"
  | File_Detail "jsstr option"

record approval_request =
  request_id_of :: request_id
  request_thread :: jsstr
  request_turn :: jsstr
  request_item :: jsstr
  request_detail :: request_detail

record envelope =
  envelope_id :: request_id
  envelope_kind :: approval_kind
  envelope_params :: jsvalue

record decision_request =
  decided_token :: jsstr
  decided_fingerprint :: jsstr
  decided :: decision

section \<open>Limits\<close>

definition max_approval_identifier :: int where "max_approval_identifier = 512"
definition max_command_bytes :: int where "max_command_bytes = 64 * 1024"
definition max_reason_bytes :: int where "max_reason_bytes = 8 * 1024"
definition max_environment_bytes :: int where "max_environment_bytes = 512"
definition max_command_actions :: nat where "max_command_actions = 128"
definition max_file_changes :: nat where "max_file_changes = 256"
definition max_diff_bytes :: int where "max_diff_bytes = 64 * 1024"

definition allowed_command_keys :: "string list" where
  "allowed_command_keys =
     [''threadId'', ''turnId'', ''itemId'', ''startedAtMs'', ''approvalId'', ''environmentId'', ''reason'',
      ''networkApprovalContext'', ''command'', ''cwd'', ''commandActions'', ''proposedExecpolicyAmendment'',
      ''proposedNetworkPolicyAmendments'']"

definition required_command_keys :: "string list" where
  "required_command_keys = [''threadId'', ''turnId'', ''itemId'', ''startedAtMs'']"

definition allowed_file_keys :: "string list" where
  "allowed_file_keys = [''threadId'', ''turnId'', ''itemId'', ''startedAtMs'', ''reason'', ''grantRoot'']"

definition required_file_keys :: "string list" where
  "required_file_keys = [''threadId'', ''turnId'', ''itemId'', ''startedAtMs'']"

section \<open>Reading untrusted values\<close>

type_synonym data_items = "(jsstr \<times> jsvalue) list"

fun data_fields :: "properties \<Rightarrow> data_items option" where
  "data_fields [] = Some []"
| "data_fields ((k, Accessor_Property _) # ps) = None"
| "data_fields ((k, Data_Property e v) # ps) =
     (if e then map_option (\<lambda>r. (k, v) # r) (data_fields ps) else None)"

definition data_record :: "(jsvalue \<Rightarrow> bool) \<Rightarrow> jsvalue \<Rightarrow> data_items option" where
  "data_record px v =
     (case v of
        JsObject plain ps \<Rightarrow> if px v \<or> \<not> plain then None else data_fields ps
      | _ \<Rightarrow> None)"

definition exact_data_record ::
    "(jsvalue \<Rightarrow> bool) \<Rightarrow> jsvalue \<Rightarrow> string list \<Rightarrow> string list \<Rightarrow> data_items option" where
  "exact_data_record px v required allowed =
     (case data_record px v of
        None \<Rightarrow> None
      | Some r \<Rightarrow>
          if list_all (\<lambda>k. js k \<in> set (map fst r)) required \<and> list_all (\<lambda>p. fst p \<in> set (map js allowed)) r
          then Some r else None)"

definition field :: "data_items \<Rightarrow> string \<Rightarrow> jsvalue" where
  "field r k = (case map_of r (js k) of None \<Rightarrow> JsUndefined | Some v \<Rightarrow> v)"

definition safe_array :: "(jsvalue \<Rightarrow> bool) \<Rightarrow> jsvalue \<Rightarrow> nat \<Rightarrow> jsvalue list option" where
  "safe_array px v most =
     (case v of JsArray vs \<Rightarrow> if px v \<or> most < length vs then None else Some vs | _ \<Rightarrow> None)"

definition bounded_string :: "jsvalue \<Rightarrow> int \<Rightarrow> jsstr option" where
  "bounded_string v most =
     (case v of JsText s \<Rightarrow> if utf8_byte_length s \<le> most then Some s else None | _ \<Rightarrow> None)"

definition nullable_string :: "jsvalue \<Rightarrow> int \<Rightarrow> bool" where
  "nullable_string v most \<longleftrightarrow> v = JsNull \<or> bounded_string v most \<noteq> None"

definition optional_nullable_string :: "jsvalue \<Rightarrow> int \<Rightarrow> bool" where
  "optional_nullable_string v most \<longleftrightarrow> v = JsUndefined \<or> nullable_string v most"

definition text_of :: "jsvalue \<Rightarrow> jsstr option" where
  "text_of v = (case v of JsText s \<Rightarrow> Some s | _ \<Rightarrow> None)"

definition safe_integer_of :: "jsvalue \<Rightarrow> int option" where
  "safe_integer_of v = (case v of JsNumber (NInt n) \<Rightarrow> if safe_int n then Some n else None | _ \<Rightarrow> None)"

definition one_of :: "('a \<Rightarrow> string) \<Rightarrow> 'a list \<Rightarrow> jsvalue \<Rightarrow> 'a option" where
  "one_of name xs v = List.find (\<lambda>x. v = JsText (js (name x))) xs"

definition approval_request_id :: "jsvalue \<Rightarrow> request_id option" where
  "approval_request_id v =
     (case v of
        JsNumber _ \<Rightarrow> map_option Id_Number (safe_integer_of v)
      | JsText s \<Rightarrow> if s \<noteq> [] \<and> utf8_byte_length s \<le> 1024 then Some (Id_String s) else None
      | _ \<Rightarrow> None)"

section \<open>Requests\<close>

definition approval_method :: "approval_kind \<Rightarrow> string" where
  "approval_method k =
     (case k of
        Command_Approval \<Rightarrow> ''item/commandExecution/requestApproval''
      | File_Approval \<Rightarrow> ''item/fileChange/requestApproval'')"

definition validate_supported_envelope :: "(jsvalue \<Rightarrow> bool) \<Rightarrow> jsvalue \<Rightarrow> envelope option" where
  "validate_supported_envelope px v =
     Option.bind (exact_data_record px v [''id'', ''method'', ''params''] [''id'', ''method'', ''params'']) (\<lambda>r.
     Option.bind (approval_request_id (field r ''id'')) (\<lambda>i.
     Option.bind (one_of approval_method [Command_Approval, File_Approval] (field r ''method'')) (\<lambda>k.
       Some \<lparr>envelope_id = i, envelope_kind = k, envelope_params = field r ''params''\<rparr>)))"

definition validate_network :: "(jsvalue \<Rightarrow> bool) \<Rightarrow> jsvalue \<Rightarrow> network_access option option" where
  "validate_network px v =
     (if v = JsUndefined \<or> v = JsNull then Some None
      else
        Option.bind (exact_data_record px v [''host'', ''protocol''] [''host'', ''protocol'']) (\<lambda>r.
        Option.bind (bounded_string (field r ''host'') 253) (\<lambda>h.
        Option.bind (one_of protocol_name [Http, Https, Socks5_Tcp, Socks5_Udp] (field r ''protocol'')) (\<lambda>p.
          Some (Some \<lparr>network_host = h, network_protocol = p\<rparr>)))))"

definition valid_action :: "(jsvalue \<Rightarrow> bool) \<Rightarrow> jsvalue \<Rightarrow> bool" where
  "valid_action px v =
     (case data_record px v of
        None \<Rightarrow> False
      | Some base \<Rightarrow>
          let has = (\<lambda>required allowed. exact_data_record px v required allowed \<noteq> None);
              type = field base ''type'';
              command = bounded_string (field base ''command'') max_command_bytes \<noteq> None
          in if type = JsText (js ''unknown'') then has [''type'', ''command''] [''type'', ''command''] \<and> command
             else if type = JsText (js ''read'') then
               has [''type'', ''command'', ''name'', ''path''] [''type'', ''command'', ''name'', ''path''] \<and> command
               \<and> bounded_string (field base ''name'') max_reason_bytes \<noteq> None
               \<and> bounded_string (field base ''path'') max_path_bytes \<noteq> None
             else if type = JsText (js ''listFiles'') then
               has [''type'', ''command''] [''type'', ''command'', ''path''] \<and> command
               \<and> optional_nullable_string (field base ''path'') max_path_bytes
             else if type = JsText (js ''search'') then
               has [''type'', ''command''] [''type'', ''command'', ''query'', ''path''] \<and> command
               \<and> optional_nullable_string (field base ''query'') max_reason_bytes
               \<and> optional_nullable_string (field base ''path'') max_path_bytes
             else False)"

definition each_item :: "(jsvalue \<Rightarrow> bool) \<Rightarrow> (jsvalue \<Rightarrow> bool) \<Rightarrow> jsvalue \<Rightarrow> bool" where
  "each_item px ok v \<longleftrightarrow>
     v = JsUndefined \<or> v = JsNull
     \<or> (case safe_array px v max_command_actions of None \<Rightarrow> False | Some vs \<Rightarrow> list_all ok vs)"

definition validate_command_actions :: "(jsvalue \<Rightarrow> bool) \<Rightarrow> jsvalue \<Rightarrow> bool" where
  "validate_command_actions px v = each_item px (valid_action px) v"

definition validate_exec_policy :: "(jsvalue \<Rightarrow> bool) \<Rightarrow> jsvalue \<Rightarrow> bool" where
  "validate_exec_policy px v = each_item px (\<lambda>i. bounded_string i max_command_bytes \<noteq> None) v"

definition validate_network_policy :: "(jsvalue \<Rightarrow> bool) \<Rightarrow> jsvalue \<Rightarrow> bool" where
  "validate_network_policy px v =
     each_item px (\<lambda>i.
       case exact_data_record px i [''host'', ''action''] [''host'', ''action''] of
         None \<Rightarrow> False
       | Some r \<Rightarrow>
           bounded_string (field r ''host'') 253 \<noteq> None
           \<and> field r ''action'' \<in> {JsText (js ''allow''), JsText (js ''deny'')}) v"

text \<open>The identifiers both kinds of request carry, and their start time.\<close>

definition request_identity :: "data_items \<Rightarrow> (jsstr \<times> jsstr \<times> jsstr) option" where
  "request_identity r =
     Option.bind (bounded_string (field r ''threadId'') max_approval_identifier) (\<lambda>thread.
     Option.bind (bounded_string (field r ''turnId'') max_approval_identifier) (\<lambda>turn.
     Option.bind (bounded_string (field r ''itemId'') max_approval_identifier) (\<lambda>item.
     Option.bind (safe_integer_of (field r ''startedAtMs'')) (\<lambda>start.
       if start < 0 then None else Some (thread, turn, item)))))"

definition validate_command_request ::
    "(jsvalue \<Rightarrow> bool) \<Rightarrow> path_library \<Rightarrow> path_style \<Rightarrow> envelope \<Rightarrow> approval_request option" where
  "validate_command_request px paths style e =
     Option.bind (exact_data_record px (envelope_params e) required_command_keys allowed_command_keys) (\<lambda>r.
     Option.bind (request_identity r) (\<lambda>(thread, turn, item).
       if \<not> optional_nullable_string (field r ''environmentId'') max_environment_bytes
          \<or> \<not> optional_nullable_string (field r ''approvalId'') max_approval_identifier
          \<or> \<not> optional_nullable_string (field r ''reason'') max_reason_bytes
          \<or> \<not> optional_nullable_string (field r ''command'') max_command_bytes
          \<or> \<not> optional_nullable_string (field r ''cwd'') max_path_bytes
          \<or> \<not> validate_command_actions px (field r ''commandActions'')
          \<or> \<not> validate_exec_policy px (field r ''proposedExecpolicyAmendment'')
          \<or> \<not> validate_network_policy px (field r ''proposedNetworkPolicyAmendments'')
       then None
       else
         Option.bind (validate_network px (field r ''networkApprovalContext'')) (\<lambda>network.
         let raw = text_of (field r ''cwd''); cwd = Option.bind raw (validate_command_cwd paths style)
         in if raw \<noteq> None \<and> cwd = None then None
            else Some
              \<lparr>request_id_of = envelope_id e, request_thread = thread, request_turn = turn, request_item = item,
               request_detail =
                 Command_Detail (text_of (field r ''command'')) cwd (text_of (field r ''reason'')) network\<rparr>)))"

definition validate_file_request :: "(jsvalue \<Rightarrow> bool) \<Rightarrow> envelope \<Rightarrow> approval_request option" where
  "validate_file_request px e =
     Option.bind (exact_data_record px (envelope_params e) required_file_keys allowed_file_keys) (\<lambda>r.
     Option.bind (request_identity r) (\<lambda>(thread, turn, item).
       if \<not> optional_nullable_string (field r ''reason'') max_reason_bytes
          \<or> \<not> optional_nullable_string (field r ''grantRoot'') max_path_bytes
       then None
       else Some
         \<lparr>request_id_of = envelope_id e, request_thread = thread, request_turn = turn, request_item = item,
          request_detail = File_Detail (text_of (field r ''reason''))\<rparr>))"

definition validate_request ::
    "(jsvalue \<Rightarrow> bool) \<Rightarrow> path_library \<Rightarrow> path_style \<Rightarrow> envelope \<Rightarrow> approval_request option" where
  "validate_request px paths style e =
     (case envelope_kind e of
        Command_Approval \<Rightarrow> validate_command_request px paths style e
      | File_Approval \<Rightarrow> validate_file_request px e)"

section \<open>Contexts and decisions\<close>

definition validate_context :: "(jsvalue \<Rightarrow> bool) \<Rightarrow> jsvalue \<Rightarrow> approval_context option" where
  "validate_context px v =
     Option.bind (exact_data_record px v [''generation'', ''threadId'', ''turnId'']
       [''generation'', ''threadId'', ''turnId'']) (\<lambda>r.
     Option.bind (safe_integer_of (field r ''generation'')) (\<lambda>g.
       if g < 1 then None
       else
         Option.bind (bounded_string (field r ''threadId'') max_approval_identifier) (\<lambda>thread.
         Option.bind (bounded_string (field r ''turnId'') max_approval_identifier) (\<lambda>turn.
           Some \<lparr>context_generation = g, context_thread = thread, context_turn = turn\<rparr>))))"

definition base64url_unit :: "16 word \<Rightarrow> bool" where
  "base64url_unit c \<longleftrightarrow>
     ascii_letter c \<or> 0x30 \<le> unat c \<and> unat c \<le> 0x39 \<or> c = 0x5F \<or> c = 0x2D"

definition is_opaque_sha256 :: "jsstr \<Rightarrow> bool" where
  "is_opaque_sha256 s \<longleftrightarrow> length s = 43 \<and> list_all base64url_unit s"

definition constant_time_equal :: "jsstr \<Rightarrow> jsstr \<Rightarrow> bool" where
  "constant_time_equal a b \<longleftrightarrow> is_opaque_sha256 a \<and> is_opaque_sha256 b \<and> a = b"

definition validate_decision_request :: "(jsvalue \<Rightarrow> bool) \<Rightarrow> jsvalue \<Rightarrow> decision_request option" where
  "validate_decision_request px v =
     Option.bind (exact_data_record px v [''token'', ''fingerprint'', ''decision'']
       [''token'', ''fingerprint'', ''decision'']) (\<lambda>r.
     Option.bind (text_of (field r ''token'')) (\<lambda>token.
     Option.bind (text_of (field r ''fingerprint'')) (\<lambda>fingerprint.
       if \<not> is_opaque_sha256 token \<or> \<not> is_opaque_sha256 fingerprint then None
       else
         Option.bind (one_of decision_name [Accept, Accept_For_Session, Decline, Cancel] (field r ''decision'')) (\<lambda>d.
           Some \<lparr>decided_token = token, decided_fingerprint = fingerprint, decided = d\<rparr>))))"

end
