(* ===== verification/PathFacts.thy ===== *)
theory PathFacts
  imports Paths
begin

text \<open>
  What the path checks guarantee on \<open>path.posix\<close>: a path that passes them lies below the workspace,
  segment by segment, and the search for the nearest existing ancestor ends.
\<close>

section \<open>Segments\<close>

definition proper_segment :: "jsstr \<Rightarrow> bool" where
  "proper_segment s \<longleftrightarrow> s \<noteq> [] \<and> s \<noteq> [dot] \<and> s \<noteq> dotdot \<and> slash \<notin> set s"

lemma split_at_not_Nil [simp]: "split_at p s \<noteq> []"
  by (cases s) (auto split: list.splits)

lemma split_at_no_separator: "t \<in> set (split_at p s) \<Longrightarrow> c \<in> set t \<Longrightarrow> \<not> p c"
  by (induction p s arbitrary: t rule: split_at.induct) (fastforce split: if_splits list.splits)+

lemma split_at_append_separator:
  "(\<And>c. c \<in> set s \<Longrightarrow> \<not> p c) \<Longrightarrow> p d \<Longrightarrow> split_at p (s @ d # r) = s # split_at p r"
  by (induction s) auto

lemma split_at_plain: "(\<And>c. c \<in> set s \<Longrightarrow> \<not> p c) \<Longrightarrow> split_at p s = [s]"
  by (induction s) auto

lemma split_posix_join:
  "ss \<noteq> [] \<Longrightarrow> (\<And>s. s \<in> set ss \<Longrightarrow> slash \<notin> set s) \<Longrightarrow> split_at (\<lambda>c. c = slash) (posix_join ss) = ss"
proof (induction ss)
  case Nil
  then show ?case by simp
next
  case (Cons s ss)
  show ?case
  proof (cases ss)
    case Nil
    with Cons.prems show ?thesis by (auto simp: posix_join_def intro: split_at_plain)
  next
    case (Cons t ts)
    with Cons.prems have "split_at (\<lambda>c. c = slash) (s @ slash # posix_join ss) = s # split_at (\<lambda>c. c = slash) (posix_join ss)"
      by (intro split_at_append_separator) auto
    with Cons Cons.IH Cons.prems show ?thesis by (simp add: posix_join_def)
  qed
qed

lemma resolve_segments_proper:
  "list_all proper_segment acc \<Longrightarrow> (\<And>s. s \<in> set ss \<Longrightarrow> slash \<notin> set s)
   \<Longrightarrow> list_all proper_segment (resolve_segments False ss acc)"
proof (induction ss arbitrary: acc)
  case Nil
  then show ?case by (simp add: list_all_iff)
next
  case (Cons s ss)
  then have "slash \<notin> set s" by simp
  with Cons show ?case by (auto simp: proper_segment_def split: list.splits)
qed

lemma resolve_segments_id:
  "list_all proper_segment ss \<Longrightarrow> resolve_segments up ss acc = rev acc @ ss"
  by (induction ss arbitrary: acc) (simp_all add: proper_segment_def)

lemma posix_segments_proper: "list_all proper_segment (posix_segments False s)"
  unfolding posix_segments_def
  by (rule resolve_segments_proper) (auto dest: split_at_no_separator)

lemma segments_of_join:
  assumes "list_all proper_segment ss"
  shows "posix_segments up (slash # posix_join ss) = ss"
proof (cases "ss = []")
  case True
  then show ?thesis by (simp add: posix_segments_def posix_join_def)
next
  case False
  have "split_at (\<lambda>c. c = slash) (posix_join ss) = ss"
    using assms False by (intro split_posix_join) (auto simp: list_all_iff proper_segment_def)
  with assms show ?thesis by (simp add: posix_segments_def resolve_segments_id)
qed

section \<open>Locations\<close>

text \<open>The location a path names: the segments of its absolute form.\<close>

definition location :: "jsstr \<Rightarrow> jsstr \<Rightarrow> jsstr list" where
  "location cwd p = posix_segments False (posix_resolve cwd [p])"

lemma gather_absolute_cwd: "posix_absolute cwd \<Longrightarrow> snd (gather_absolute (ps @ [cwd]) acc)"
  by (induction ps arbitrary: acc) (auto simp: posix_absolute_def)

lemma posix_resolve_absolute:
  assumes "posix_absolute cwd"
  shows "\<exists>ss. list_all proper_segment ss \<and> posix_resolve cwd args = slash # posix_join ss"
proof -
  let ?r = "gather_absolute (rev args @ [cwd]) []"
  have "snd ?r" using assms by (rule gather_absolute_cwd)
  then have "posix_resolve cwd args = slash # posix_join (posix_segments False (fst ?r))"
    by (simp add: posix_resolve_def Let_def)
  with posix_segments_proper [of "fst ?r"] show ?thesis by blast
qed

lemma location_proper: "list_all proper_segment (location cwd p)"
  by (simp add: location_def posix_segments_proper)

lemma common_prefix_le: "common_prefix xs ys \<le> length xs" "common_prefix xs ys \<le> length ys"
  by (induction xs ys rule: common_prefix.induct) auto

lemma common_prefix_take: "take (common_prefix xs ys) xs = take (common_prefix xs ys) ys"
  by (induction xs ys rule: common_prefix.induct) auto

lemma join_up:
  "0 < k \<Longrightarrow> posix_join (replicate k dotdot @ ts) = dotdot
     \<or> take 3 (posix_join (replicate k dotdot @ ts)) = [dot, dot, slash]"
  by (cases k; cases "replicate (k - 1) dotdot @ ts") (auto simp: posix_join_def)

lemma relative_below:
  assumes rel: "posix_relative cwd base target = r"
    and inside: "r = [] \<or> take 3 r \<noteq> [dot, dot, slash] \<and> r \<noteq> dotdot"
  shows "\<exists>rest. location cwd target = location cwd base @ rest \<and> r = posix_join rest"
proof (cases "base = target")
  case True
  with rel show ?thesis by (intro exI [of _ "[]"]) (simp add: posix_relative_def posix_join_def)
next
  case False
  let ?fs = "location cwd base" and ?ts = "location cwd target"
  let ?n = "common_prefix ?fs ?ts"
  have r: "r = posix_join (replicate (length ?fs - ?n) dotdot @ drop ?n ?ts)"
    using rel False by (simp add: posix_relative_def location_def Let_def)
  have "\<not> 0 < length ?fs - ?n"
    using join_up [of "length ?fs - ?n" "drop ?n ?ts"] inside r by auto
  then have n: "?n = length ?fs" using common_prefix_le(1) [of ?fs ?ts] by simp
  have "?fs = take ?n ?ts" using common_prefix_take [of ?fs ?ts] n by simp
  then have "?ts = ?fs @ drop ?n ?ts" by (metis append_take_drop_id)
  moreover have "r = posix_join (drop ?n ?ts)" using r n by simp
  ultimately show ?thesis by blast
qed

lemma within_posix:
  assumes "is_within (posix_paths cwd) base target"
  shows "\<exists>rest. location cwd target = location cwd base @ rest \<and> posix_relative cwd base target = posix_join rest"
  using assms
  by (intro relative_below) (auto simp: is_within_def posix_paths_def Let_def numeral_3_eq_3)

text \<open>A path of a change that passes the check, with the path that is shown for it.\<close>

lemma canonical_scoped_path_below:
  assumes "canonical_scoped_path (posix_paths cwd) style raw workspace = Some shown"
  shows "\<exists>rest. rest \<noteq> [] \<and> list_all proper_segment rest \<and> shown = posix_join rest
    \<and> location cwd (scoped_target (posix_paths cwd) workspace raw) = location cwd workspace @ rest"
proof -
  let ?t = "scoped_target (posix_paths cwd) workspace raw"
  from assms have w: "is_within (posix_paths cwd) workspace ?t"
    and s: "shown_path (posix_paths cwd) workspace ?t = Some shown"
    by (auto simp: canonical_scoped_path_def Let_def split: if_splits)
  from within_posix [OF w] obtain rest where loc: "location cwd ?t = location cwd workspace @ rest"
    and rel: "posix_relative cwd workspace ?t = posix_join rest" by blast
  have shown: "shown = posix_join rest" "shown \<noteq> []"
    using s rel by (auto simp: shown_path_def posix_paths_def Let_def split: if_splits)
  have "rest \<noteq> []" using shown by (auto simp: posix_join_def)
  moreover have "list_all proper_segment rest"
    using location_proper [of cwd ?t] loc by simp
  ultimately show ?thesis using loc shown by blast
qed

section \<open>The search for an existing ancestor\<close>

lemma strip_trailing_length: "length (strip_trailing s) \<le> length s"
  by (simp add: strip_trailing_def) (metis length_dropWhile_le length_rev)

lemma posix_dirname_shorter:
  "posix_dirname s = s \<or> length (posix_dirname s) < length s \<or> posix_dirname s = [dot]"
proof -
  let ?t = "hd s # strip_trailing (tl s)"
  let ?b = "dropWhile (\<lambda>c. c \<noteq> slash) (rev ?t)"
  consider "s = []" | "s \<noteq> []" "strip_trailing (tl s) = []" | "s \<noteq> []" "strip_trailing (tl s) \<noteq> []" by blast
  then show ?thesis
  proof cases
    case 1
    then show ?thesis by (simp add: posix_dirname_def)
  next
    case 2
    then show ?thesis by (cases s; cases "tl s") (auto simp: posix_dirname_def)
  next
    case 3
    have len: "length ?b \<le> length s"
      using length_dropWhile_le [of "\<lambda>c. c \<noteq> slash" "rev ?t"] strip_trailing_length [of "tl s"] 3(1)
      by (cases s) auto
    have short: "1 < length s" using 3 by (cases s; cases "tl s") (auto simp: strip_trailing_def)
    have eq: "posix_dirname s =
        (case ?b of [] \<Rightarrow> [dot]
         | _ # r \<Rightarrow> if r = [] then [slash] else if rev r = [slash] then [slash, slash] else rev r)"
      using 3 by (simp only: posix_dirname_def if_False Let_def)
    show ?thesis
    proof (cases ?b)
      case Nil
      then have "posix_dirname s = [dot]" by (simp only: eq list.case)
      then show ?thesis by simp
    next
      case (Cons c r)
      consider "r = []" | "rev r = [slash]" | "r \<noteq> []" "rev r \<noteq> [slash]" by blast
      then show ?thesis
      proof cases
        case 1
        then have "posix_dirname s = [slash]" by (simp add: eq Cons del: dropWhile.simps rev.simps)
        with short show ?thesis by simp
      next
        case 2
        then have d: "posix_dirname s = [slash, slash]" by (simp add: eq Cons del: dropWhile.simps rev.simps)
        have "length r = 1" using 2 by (metis length_rev One_nat_def length_Cons list.size(3))
        show ?thesis
        proof (cases "length s = 2")
          case True
          then obtain a b where s: "s = [a, b]" by (auto simp: length_Suc_conv numeral_2_eq_2)
          then have "strip_trailing (tl s) = [b]" "b \<noteq> slash" using 3(2) by (auto simp: strip_trailing_def split: if_splits)
          with Cons s 2 show ?thesis by (auto split: if_splits)
        next
          case False
          with d short show ?thesis by simp
        qed
      next
        case 3
        then have "posix_dirname s = rev r" by (simp add: eq Cons del: dropWhile.simps rev.simps)
        with len Cons show ?thesis by simp
      qed
    qed
  qed
qed

lemma posix_dirname_dot [simp]: "posix_dirname [dot] = [dot]"
  by (simp add: posix_dirname_def strip_trailing_def)

lemma nearest_real_path_dot: "\<exists>r. nearest_real_path (posix_paths cwd) realpath [dot] tail = Some r"
  by (subst nearest_real_path.simps) (simp add: posix_paths_def split: real_answer.splits)

text \<open>C36. With the functions of \<open>path.posix\<close> the search for the nearest existing ancestor of a path ends for
  every file system: each step goes to a shorter path, to the current directory, or stops. Nothing is
  shown for \<open>path.win32\<close>.\<close>

theorem nearest_real_path_ends:
  "\<exists>r. nearest_real_path (posix_paths cwd) realpath candidate tail = Some r"
proof (induction "length candidate" arbitrary: candidate tail rule: less_induct)
  case less
  have d: "path_dirname (posix_paths cwd) = posix_dirname" by (simp add: posix_paths_def)
  from posix_dirname_shorter [of candidate] show ?case
  proof (elim disjE)
    assume "posix_dirname candidate = candidate"
    with d show ?thesis by (subst nearest_real_path.simps) (simp split: real_answer.splits)
  next
    assume "length (posix_dirname candidate) < length candidate"
    from less [OF this] show ?thesis
      by (subst nearest_real_path.simps) (simp add: d Let_def split: real_answer.splits)
  next
    assume "posix_dirname candidate = [dot]"
    with nearest_real_path_dot show ?thesis
      by (subst nearest_real_path.simps) (simp add: d Let_def split: real_answer.splits)
  qed
qed

end
