(* ===== verification/ApprovalScope.thy ===== *)
theory ApprovalScope
  imports ApprovalData PathFacts
begin

text \<open>
  File scopes of the approval broker: announced changes, their canonical form below a workspace,
  the asynchronous resolution of real paths, and the fingerprints that bind a card to what it shows
  (\<open>src/node/ride-codex-approval-broker.ts\<close>, \<open>normalizeTrackedFileChanges\<close> to \<open>normalizeScopedPath\<close>
  and the fingerprint methods). Waiting for the file system or the scope resolver is a node of the
  datatype \<open>'a op\<close>; the keyed digest is a parameter.
\<close>

section \<open>Announced changes\<close>

definition has_control :: "jsstr \<Rightarrow> bool" where
  "has_control s \<longleftrightarrow> list_ex path_control s"

definition tracked_change :: "(jsvalue \<Rightarrow> bool) \<Rightarrow> jsvalue \<Rightarrow> scope_change option" where
  "tracked_change px raw =
     Option.bind (exact_data_record px raw [''path'', ''kind'', ''diff''] [''path'', ''kind'', ''diff'']) (\<lambda>r.
     Option.bind (bounded_string (field r ''path'') max_path_bytes) (\<lambda>path.
     Option.bind (bounded_string (field r ''diff'') max_diff_bytes) (\<lambda>_.
     Option.bind (exact_data_record px (field r ''kind'') [''type''] [''type'', ''move_path'']) (\<lambda>k.
       if has_control path then None
       else
         case one_of change_type_name [Add_Change, Delete_Change, Update_Change] (field k ''type'') of
           None \<Rightarrow> None
         | Some Update_Change \<Rightarrow>
             if js ''move_path'' \<notin> set (map fst k) then None
             else if field k ''move_path'' = JsNull
             then Some \<lparr>scope_path = path, scope_kind = Update_Change, scope_move = None\<rparr>
             else
               Option.bind (bounded_string (field k ''move_path'') max_path_bytes) (\<lambda>move.
                 if has_control move then None
                 else Some \<lparr>scope_path = path, scope_kind = Update_Change, scope_move = Some move\<rparr>)
         | Some type \<Rightarrow>
             if length k \<noteq> 1 then None else Some \<lparr>scope_path = path, scope_kind = type, scope_move = None\<rparr>))))"

fun all_some :: "('a \<Rightarrow> 'b option) \<Rightarrow> 'a list \<Rightarrow> 'b list option" where
  "all_some f [] = Some []"
| "all_some f (x # xs) = Option.bind (f x) (\<lambda>y. map_option (\<lambda>ys. y # ys) (all_some f xs))"

definition normalize_tracked_changes :: "(jsvalue \<Rightarrow> bool) \<Rightarrow> jsvalue \<Rightarrow> scope_change list option" where
  "normalize_tracked_changes px v =
     (case safe_array px v max_file_changes of
        None \<Rightarrow> None
      | Some vs \<Rightarrow> if vs = [] then None else all_some (tracked_change px) vs)"

section \<open>The canonical form\<close>

definition canonical_change ::
    "(jsvalue \<Rightarrow> bool) \<Rightarrow> path_library \<Rightarrow> path_style \<Rightarrow> jsstr \<Rightarrow> jsvalue \<Rightarrow> scope_change option" where
  "canonical_change px paths style workspace raw =
     Option.bind (exact_data_record px raw [''path'', ''kind''] [''path'', ''kind'', ''movePath'', ''diff'']) (\<lambda>c.
     Option.bind (bounded_string (field c ''path'') max_path_bytes) (\<lambda>path.
     Option.bind (one_of change_type_name [Add_Change, Delete_Change, Update_Change] (field c ''kind'')) (\<lambda>kind.
       if field c ''diff'' \<noteq> JsUndefined \<and> bounded_string (field c ''diff'') max_diff_bytes = None
          \<or> \<not> optional_nullable_string (field c ''movePath'') max_path_bytes
       then None
       else
         Option.bind (canonical_scoped_path paths style path workspace) (\<lambda>shown.
           case text_of (field c ''movePath'') of
             None \<Rightarrow> Some \<lparr>scope_path = shown, scope_kind = kind, scope_move = None\<rparr>
           | Some move \<Rightarrow>
               map_option (\<lambda>m. \<lparr>scope_path = shown, scope_kind = kind, scope_move = Some m\<rparr>)
                 (canonical_scoped_path paths style move workspace)))))"

definition canonical_file_scope ::
    "(jsvalue \<Rightarrow> bool) \<Rightarrow> path_library \<Rightarrow> path_style \<Rightarrow> jsvalue \<Rightarrow> file_scope option" where
  "canonical_file_scope px paths style v =
     Option.bind (exact_data_record px v [''workspaceRoot'', ''changes''] [''workspaceRoot'', ''changes'']) (\<lambda>r.
     Option.bind (bounded_string (field r ''workspaceRoot'') max_path_bytes) (\<lambda>root_path.
     Option.bind (safe_array px (field r ''changes'') max_file_changes) (\<lambda>raw.
       if \<not> is_safe_local_path style root_path \<or> \<not> path_absolute paths root_path then None
       else
         let workspace = path_normalize paths root_path in
         Option.bind (all_some (canonical_change px paths style workspace) raw) (\<lambda>changes.
           if changes = [] then None else Some \<lparr>scope_workspace = workspace, scope_changes = changes\<rparr>))))"

section \<open>Asynchronous operations\<close>

text \<open>An asynchronous computation: finished, waiting for the file scope of an item (the answer is the
  resolver's value, None when it threw), waiting for a real path (None when it threw), or waiting for
  its next turn with the answer at hand.\<close>

record scope_identity =
  identity_generation :: int
  identity_thread :: jsstr
  identity_turn :: jsstr
  identity_item :: jsstr

datatype 'a op =
    Finished 'a
  | Ask_Scope scope_identity "jsvalue option \<Rightarrow> 'a op"
  | Ask_Real jsstr "jsstr option \<Rightarrow> 'a op"
  | Later "'a op"

primrec op_bind :: "'a op \<Rightarrow> ('a \<Rightarrow> 'b op) \<Rightarrow> 'b op" where
  "op_bind (Finished x) f = f x"
| "op_bind (Ask_Scope i k) f = Ask_Scope i (\<lambda>v. op_bind (k v) f)"
| "op_bind (Ask_Real p k) f = Ask_Real p (\<lambda>v. op_bind (k v) f)"
| "op_bind (Later m) f = Later (op_bind m f)"

section \<open>Fingerprints\<close>

record approval_options =
  opt_ttl :: int
  opt_response_timeout :: int
  opt_max_pending :: nat
  opt_max_clients :: nat
  opt_style :: path_style
  opt_tracked :: bool

record platform =
  is_proxy :: "jsvalue \<Rightarrow> bool"
  path_functions :: path_library
  lower_case :: "jsstr \<Rightarrow> jsstr"
  digest :: "jsstr \<Rightarrow> jsstr"

definition cased :: "platform \<Rightarrow> path_style \<Rightarrow> jsstr \<Rightarrow> jsstr" where
  "cased pf style s = (case style of Win32 \<Rightarrow> lower_case pf s | Posix \<Rightarrow> s)"

definition scope_change_json :: "(jsstr \<Rightarrow> jsstr) \<Rightarrow> scope_change \<Rightarrow> json" where
  "scope_change_json f c =
     obj ([(''path'', JStr (f (scope_path c))), (''kind'', text_json (change_type_name (scope_kind c)))]
       @ optional_field ''movePath'' (\<lambda>m. JStr (f m)) (scope_move c))"

definition file_scope_json :: "(jsstr \<Rightarrow> jsstr) \<Rightarrow> file_scope \<Rightarrow> json" where
  "file_scope_json f s =
     obj [(''workspace'', JStr (f (scope_workspace s))),
          (''changes'', JArr (map (scope_change_json f) (scope_changes s)))]"

definition identity_fields :: "scope_identity \<Rightarrow> (string \<times> json) list" where
  "identity_fields i =
     [(''generation'', int_json (identity_generation i)), (''threadId'', JStr (identity_thread i)),
      (''turnId'', JStr (identity_turn i)), (''itemId'', JStr (identity_item i))]"

definition fingerprint :: "platform \<Rightarrow> json \<Rightarrow> jsstr" where
  "fingerprint pf v = digest pf (json_stringify v)"

definition file_scope_fingerprint :: "platform \<Rightarrow> path_style \<Rightarrow> scope_identity \<Rightarrow> file_scope \<Rightarrow> jsstr" where
  "file_scope_fingerprint pf style i s =
     fingerprint pf (obj (identity_fields i @ [(''scope'', file_scope_json (cased pf style) s)]))"

definition realpath_fingerprint :: "platform \<Rightarrow> path_style \<Rightarrow> scope_identity \<Rightarrow> file_scope \<Rightarrow> jsstr" where
  "realpath_fingerprint pf style i s =
     fingerprint pf (obj (identity_fields i @ [(''realIdentity'', file_scope_json (cased pf style) s)]))"

section \<open>Capturing a scope\<close>

record captured_scope =
  captured_file_scope :: file_scope
  captured_fingerprint :: jsstr

definition capture_answer ::
    "platform \<Rightarrow> path_style \<Rightarrow> scope_identity \<Rightarrow> jsvalue option \<Rightarrow> captured_scope option" where
  "capture_answer pf style i v =
     Option.bind v (\<lambda>resolved.
     Option.bind (canonical_file_scope (is_proxy pf) (path_functions pf) style resolved) (\<lambda>s.
       Some \<lparr>captured_file_scope = s, captured_fingerprint = file_scope_fingerprint pf style i s\<rparr>))"

definition capture_file_scope :: "platform \<Rightarrow> path_style \<Rightarrow> scope_identity \<Rightarrow> captured_scope option op" where
  "capture_file_scope pf style i = Ask_Scope i (\<lambda>v. Finished (capture_answer pf style i v))"

definition is_file_scope_current :: "platform \<Rightarrow> path_style \<Rightarrow> scope_identity \<Rightarrow> jsstr \<Rightarrow> bool op" where
  "is_file_scope_current pf style i f =
     op_bind (capture_file_scope pf style i) (\<lambda>c.
       Finished (case c of None \<Rightarrow> False | Some c \<Rightarrow> constant_time_equal (captured_fingerprint c) f))"

section \<open>Real paths\<close>

record normalized_scope =
  shown_scope :: file_scope
  real_scope :: file_scope

definition normalize_scoped_path ::
    "path_library \<Rightarrow> path_style \<Rightarrow> bool op \<Rightarrow> jsstr \<Rightarrow> jsstr \<Rightarrow> jsstr \<Rightarrow> (jsstr \<times> jsstr) option op" where
  "normalize_scoped_path paths style is_current workspace real_workspace raw =
     (if \<not> is_safe_local_path style raw then Finished None
      else
        let target = scoped_target paths workspace raw in
        if \<not> is_within paths workspace target then Finished None
        else Ask_Real target (\<lambda>answer.
          case answer of
            None \<Rightarrow> Finished None
          | Some real_path \<Rightarrow>
              let real_target = path_normalize paths real_path in
              op_bind is_current (\<lambda>c.
                Finished
                  (if \<not> c \<or> \<not> is_safe_local_path style real_target \<or> \<not> path_absolute paths real_target
                      \<or> \<not> is_within paths real_workspace real_target
                   then None
                   else map_option (\<lambda>s. (s, real_target)) (shown_path paths workspace target)))))"

primrec normalize_changes ::
    "path_library \<Rightarrow> path_style \<Rightarrow> bool op \<Rightarrow> jsstr \<Rightarrow> jsstr \<Rightarrow> scope_change list
     \<Rightarrow> (scope_change \<times> scope_change) list \<Rightarrow> (scope_change \<times> scope_change) list option op" where
  "normalize_changes paths style is_current workspace real_workspace [] acc = Finished (Some acc)"
| "normalize_changes paths style is_current workspace real_workspace (c # cs) acc =
     op_bind (normalize_scoped_path paths style is_current workspace real_workspace (scope_path c)) (\<lambda>p.
       case p of
         None \<Rightarrow> Finished None
       | Some (shown, real_path) \<Rightarrow>
           (case scope_move c of
              None \<Rightarrow>
                normalize_changes paths style is_current workspace real_workspace cs
                  (acc @ [(c\<lparr>scope_path := shown\<rparr>, c\<lparr>scope_path := real_path\<rparr>)])
            | Some move \<Rightarrow>
                op_bind (normalize_scoped_path paths style is_current workspace real_workspace move) (\<lambda>q.
                  case q of
                    None \<Rightarrow> Finished None
                  | Some (shown_move, real_move) \<Rightarrow>
                      normalize_changes paths style is_current workspace real_workspace cs
                        (acc @ [(c\<lparr>scope_path := shown, scope_move := Some shown_move\<rparr>,
                                 c\<lparr>scope_path := real_path, scope_move := Some real_move\<rparr>)]))))"

definition normalize_file_scope ::
    "path_library \<Rightarrow> path_style \<Rightarrow> bool op \<Rightarrow> file_scope \<Rightarrow> normalized_scope option op" where
  "normalize_file_scope paths style is_current s =
     Ask_Real (scope_workspace s) (\<lambda>answer.
       case answer of
         None \<Rightarrow> Finished None
       | Some real_path \<Rightarrow>
           let real_workspace = path_normalize paths real_path in
           op_bind is_current (\<lambda>c.
             if \<not> c \<or> \<not> is_safe_local_path style real_workspace \<or> \<not> path_absolute paths real_workspace
             then Finished None
             else
               op_bind (normalize_changes paths style is_current (scope_workspace s) real_workspace
                          (scope_changes s) []) (\<lambda>r.
                 Finished (map_option (\<lambda>ps.
                   \<lparr>shown_scope = \<lparr>scope_workspace = scope_workspace s, scope_changes = map fst ps\<rparr>,
                    real_scope = \<lparr>scope_workspace = real_workspace, scope_changes = map snd ps\<rparr>\<rparr>) r))))"

definition is_file_scope_decision_safe ::
    "platform \<Rightarrow> path_style \<Rightarrow> scope_identity \<Rightarrow> jsstr \<Rightarrow> jsstr option \<Rightarrow> bool op" where
  "is_file_scope_decision_safe pf style i f realpath =
     (case realpath of
        None \<Rightarrow> Finished False
      | Some rf \<Rightarrow>
          op_bind (capture_file_scope pf style i) (\<lambda>current.
            case current of
              None \<Rightarrow> Finished False
            | Some c \<Rightarrow>
                if \<not> constant_time_equal (captured_fingerprint c) f then Finished False
                else
                  op_bind (normalize_file_scope (path_functions pf) style (is_file_scope_current pf style i f)
                             (captured_file_scope c)) (\<lambda>n.
                    case n of
                      None \<Rightarrow> Finished False
                    | Some n \<Rightarrow>
                        if constant_time_equal (realpath_fingerprint pf style i (real_scope n)) rf
                        then is_file_scope_current pf style i f else Finished False)))"

end
