(* ===== verification/ApprovalBroker.thy ===== *)
theory ApprovalBroker
  imports ApprovalScope
begin

text \<open>
  The approval broker (\<open>src/node/ride-codex-approval-broker.ts\<close>): it shows the app server's approval
  requests to the client that owns the turn and answers each of them. Every request is numbered; its
  number also names its lease on the host, its place in the tables of the broker (a request is in at
  most one of them) and the task that stands for the suspended handler. Asynchronous methods are cut
  at their awaits. What the outside answers at once (clock, scheduler, host queries, a client that
  throws) is given by functions of the number of questions asked so far, so that any behaviour is
  covered; what it answers later is an event.
\<close>

section \<open>State\<close>

record approval_session =
  session_context :: "approval_context option"
  session_revision :: nat
  session_disposed :: bool

record acquiring =
  acquiring_generation :: int
  acquiring_request :: request_id

record admitting =
  admitting_generation :: int
  admitting_request :: request_id

record authorizing =
  authorizing_generation :: int
  authorizing_request :: request_id
  authorizing_thread :: jsstr
  authorizing_turn :: jsstr
  authorizing_owner :: nat
  authorizing_revision :: nat
  authorizing_issued :: int
  authorizing_expires :: int

datatype card_scope =
    Command_Scope "jsstr option" "jsstr option" "jsstr option" "network_access option"
  | File_Scope "jsstr option" "scope_change list"

record approval_card =
  card_kind :: approval_kind
  card_token :: jsstr
  card_fingerprint :: jsstr
  card_expires :: int
  card_scope :: card_scope
  card_decisions :: "decision list"

record pending_approval =
  pending_key :: nat
  pending_token :: jsstr
  pending_fingerprint :: jsstr
  pending_generation :: int
  pending_request :: request_id
  pending_thread :: jsstr
  pending_turn :: jsstr
  pending_item :: jsstr
  pending_scope_fingerprint :: "jsstr option"
  pending_real_fingerprint :: "jsstr option"
  pending_owner :: nat
  pending_revision :: nat
  pending_issued :: int
  pending_expires :: int
  pending_decisions :: "decision list"
  pending_card :: approval_card

record responding =
  responding_generation :: int
  responding_timer :: "nat option"

record approval_timer =
  timer_stopped :: bool
  timer_version :: nat
  timer_handle :: "nat option"
  timer_ready :: bool
  timer_early :: "nat option"
  timer_issued :: int
  timer_expires :: int

record thread_root =
  root_generation :: int
  root_thread :: jsstr
  root_directory :: jsstr

record tracked_scope =
  tracked_identity :: scope_identity
  tracked_changes :: "scope_change list"

text \<open>The local variables of \<open>handleServerRequest\<close> that outlive its awaits.\<close>

record flow =
  flow_request :: approval_request
  flow_kind :: approval_kind
  flow_generation :: int
  flow_owner :: nat
  flow_revision :: nat
  flow_issued :: int
  flow_expires :: int
  flow_decisions :: "decision list"

datatype scope_value =
    Got_Capture "captured_scope option"
  | Got_Flag bool
  | Got_Normalized "normalized_scope option"

datatype phase =
    Capturing "jsstr option"
  | First_Check captured_scope
  | Normalizing captured_scope
  | Last_Check captured_scope "normalized_scope option"
  | Publishing pending_approval

datatype capacity_wait = For_Admission nat | For_Outcome nat | For_Turn

datatype reject_code = Invalid_Decision | Ownership_Mismatch | Response_Failed | Stale_Approval
datatype decision_result = Was_Responded | Was_Rejected reject_code

datatype approval_task =
    Awaiting_Host_Lease envelope int
  | Lease_Held envelope int
  | Awaiting_Capacity envelope int capacity_wait
  | Admitted envelope int
  | Timer_Checked flow
  | Resolving flow phase "scope_value op"
  | Deciding nat pending_approval decision_request "bool op"
  | Awaiting_Decision nat nat
  | Disposing "nat list"

datatype approval_effect =
    Lease_Requested nat
  | Lease_Released nat
  | Answered_Request nat int request_id decision
  | Generation_Aborted int
  | Cards_Shown nat "approval_card list"
  | Cards_Read nat "approval_card list"
  | Decision_Result nat decision_result
  | Timer_Set nat int
  | Timer_Cleared nat

record approval_broker =
  records :: "(nat, approval_session) jsmap"
  sessions :: "nat list"
  next_session :: nat
  leases :: "(nat, int) jsmap"
  acquirings :: "(nat, acquiring) jsmap"
  admittings :: "(nat, admitting) jsmap"
  authorizings :: "(nat, authorizing) jsmap"
  pendings :: "(jsstr, pending_approval) jsmap"
  respondings :: "(nat, responding) jsmap"
  outcomes :: "(nat, bool) jsmap"
  timers :: "(nat, approval_timer) jsmap"
  thread_roots :: "(jsstr, thread_root) jsmap"
  file_scopes :: "(jsstr, tracked_scope) jsmap"
  approval_tasks :: "(nat, approval_task) jsmap"
  next_key :: nat
  next_token :: nat
  next_handle :: nat
  questions :: nat
  shut_down :: bool
  history :: "approval_effect list"

definition new_approval_broker :: approval_broker where
  "new_approval_broker =
     \<lparr>records = [], sessions = [], next_session = 1, leases = [], acquirings = [], admittings = [], authorizings = [],
      pendings = [], respondings = [], outcomes = [], timers = [], thread_roots = [], file_scopes = [],
      approval_tasks = [], next_key = 0, next_token = 0, next_handle = 0, questions = 0, shut_down = False, history = []\<rparr>"

section \<open>The outside\<close>

datatype schedule_answer = Schedule_Fails | Scheduled bool

record approval_env =
  env_platform :: platform
  env_options :: approval_options
  env_now :: "nat \<Rightarrow> jsvalue option"
  env_schedule :: "nat \<Rightarrow> schedule_answer"
  env_dispose :: "nat \<Rightarrow> bool"
  env_allow_session :: "nat \<Rightarrow> approval_kind \<Rightarrow> bool option"
  env_snapshot :: "nat \<Rightarrow> jsvalue option"
  env_owns :: "nat \<Rightarrow> int \<Rightarrow> request_id \<Rightarrow> bool"
  env_acquire :: "nat \<Rightarrow> bool"
  env_respond :: "nat \<Rightarrow> bool"
  env_client :: "nat \<Rightarrow> bool"
  env_token :: "nat \<Rightarrow> jsstr"

definition max_timer_ms :: int where "max_timer_ms = 0x7fffffff"
definition max_response_timeout_ms :: int where "max_response_timeout_ms = 30000"

definition bounded_integer :: "int \<Rightarrow> int \<Rightarrow> int \<Rightarrow> int option" where
  "bounded_integer v lo hi = (if \<not> safe_int v \<or> v < lo \<or> hi < v then None else Some v)"

text \<open>The options of the constructor, None where it throws a \<open>RangeError\<close>.\<close>

definition approval_options_of ::
    "int option \<Rightarrow> int option \<Rightarrow> int option \<Rightarrow> int option \<Rightarrow> path_style \<Rightarrow> bool \<Rightarrow> approval_options option" where
  "approval_options_of ttl timeout pend clients style tracked =
     Option.bind (bounded_integer (case ttl of None \<Rightarrow> 2 * 60 * 1000 | Some v \<Rightarrow> v) 1 max_timer_ms) (\<lambda>t.
     Option.bind (bounded_integer (case timeout of None \<Rightarrow> 2000 | Some v \<Rightarrow> v) 1 max_response_timeout_ms) (\<lambda>r.
     Option.bind (bounded_integer (case pend of None \<Rightarrow> 32 | Some v \<Rightarrow> v) 1 256) (\<lambda>p.
     Option.bind (bounded_integer (case clients of None \<Rightarrow> 8 | Some v \<Rightarrow> v) 1 64) (\<lambda>c.
       Some \<lparr>opt_ttl = t, opt_response_timeout = r, opt_max_pending = nat p, opt_max_clients = nat c,
             opt_style = style, opt_tracked = tracked\<rparr>))))"

definition asked :: "approval_broker \<Rightarrow> approval_broker" where
  "asked b = b\<lparr>questions := questions b + 1\<rparr>"

definition log_effect :: "approval_effect \<Rightarrow> approval_broker \<Rightarrow> approval_broker" where
  "log_effect e b = b\<lparr>history := history b @ [e]\<rparr>"

abbreviation px_of :: "approval_env \<Rightarrow> jsvalue \<Rightarrow> bool" where
  "px_of env \<equiv> is_proxy (env_platform env)"
abbreviation paths_of :: "approval_env \<Rightarrow> path_library" where
  "paths_of env \<equiv> path_functions (env_platform env)"
abbreviation style_of :: "approval_env \<Rightarrow> path_style" where
  "style_of env \<equiv> opt_style (env_options env)"

text \<open>Is the host ready in this generation, and does it still own the request?\<close>

definition host_owns :: "approval_env \<Rightarrow> int \<Rightarrow> request_id \<Rightarrow> approval_broker \<Rightarrow> bool" where
  "host_owns env g i b =
     (case Option.bind (env_snapshot env (questions b)) (data_record (px_of env)) of
        None \<Rightarrow> False
      | Some r \<Rightarrow>
          field r ''state'' = JsText (js ''ready'') \<and> field r ''generation'' = JsNumber (NInt g)
          \<and> env_owns env (questions b) g i)"

section \<open>Leases, timers and answers\<close>

definition release_lease :: "nat \<Rightarrow> approval_broker \<Rightarrow> approval_broker" where
  "release_lease k b = log_effect (Lease_Released k) b"

definition abort_generation :: "int \<Rightarrow> approval_broker \<Rightarrow> approval_broker" where
  "abort_generation g b = log_effect (Generation_Aborted g) b"

definition clear_handle :: "nat option \<Rightarrow> approval_broker \<Rightarrow> approval_broker" where
  "clear_handle h b = (case h of None \<Rightarrow> b | Some n \<Rightarrow> log_effect (Timer_Cleared n) b)"

definition stop_timer :: "nat \<Rightarrow> approval_broker \<Rightarrow> approval_broker" where
  "stop_timer k b =
     (case map_get (timers b) k of
        None \<Rightarrow> b
      | Some t \<Rightarrow>
          if timer_stopped t then b
          else clear_handle (timer_handle t)
            (b\<lparr>timers := map_set (timers b) k
              (t\<lparr>timer_stopped := True, timer_version := timer_version t + 1, timer_handle := None\<rparr>)\<rparr>))"

definition active_approvals :: "approval_broker \<Rightarrow> nat" where
  "active_approvals b =
     length (acquirings b) + length (admittings b) + length (authorizings b) + length (pendings b)
     + length (respondings b)"

definition finish_acquiring :: "nat \<Rightarrow> approval_broker \<Rightarrow> bool \<times> approval_broker" where
  "finish_acquiring k b =
     (if map_has (acquirings b) k then (True, b\<lparr>acquirings := map_delete (acquirings b) k\<rparr>) else (False, b))"

definition finish_admission :: "nat \<Rightarrow> approval_broker \<Rightarrow> approval_broker" where
  "finish_admission k b =
     (if map_has (admittings b) k then release_lease k (b\<lparr>admittings := map_delete (admittings b) k\<rparr>) else b)"

definition complete_admission :: "nat \<Rightarrow> approval_broker \<Rightarrow> bool \<times> approval_broker" where
  "complete_admission k b =
     (if map_has (admittings b) k then (True, b\<lparr>admittings := map_delete (admittings b) k\<rparr>) else (False, b))"

definition finish_responding :: "nat \<Rightarrow> bool \<Rightarrow> approval_broker \<Rightarrow> bool \<times> approval_broker" where
  "finish_responding k responded b =
     (case map_get (respondings b) k of
        None \<Rightarrow> (False, b)
      | Some r \<Rightarrow>
          (True,
           (release_lease k (clear_handle (responding_timer r)
              (b\<lparr>respondings := map_delete (respondings b) k\<rparr>)))
             \<lparr>outcomes := map_set (outcomes b) k responded\<rparr>))"

definition timeout_responding :: "nat \<Rightarrow> approval_broker \<Rightarrow> approval_broker" where
  "timeout_responding k b =
     (case map_get (respondings b) k of
        None \<Rightarrow> b
      | Some r \<Rightarrow> abort_generation (responding_generation r) (snd (finish_responding k False b)))"

definition respond_and_release ::
    "approval_env \<Rightarrow> nat \<Rightarrow> int \<Rightarrow> request_id \<Rightarrow> decision \<Rightarrow> approval_broker \<Rightarrow> approval_broker" where
  "respond_and_release env k g i d b =
     (let b1 = b\<lparr>respondings := map_set (respondings b) k \<lparr>responding_generation = g, responding_timer = None\<rparr>\<rparr> in
      case env_schedule env (questions b1) of
        Schedule_Fails \<Rightarrow> abort_generation g (snd (finish_responding k False (asked b1)))
      | Scheduled at_once \<Rightarrow>
          let h = next_handle b1;
              b2 = log_effect (Timer_Set h (opt_response_timeout (env_options env))) (asked (b1\<lparr>next_handle := h + 1\<rparr>))
          in if at_once then clear_handle (Some h) (timeout_responding k b2)
             else
               let b3 = b2\<lparr>respondings := map_set (respondings b2) k
                           \<lparr>responding_generation = g, responding_timer = Some h\<rparr>\<rparr>;
                   b4 = asked (log_effect (Answered_Request k g i d) b3)
               in if env_respond env (questions b3) then b4 else snd (finish_responding k False b4))"

definition settle_authorizing ::
    "approval_env \<Rightarrow> nat \<Rightarrow> decision \<Rightarrow> approval_broker \<Rightarrow> bool \<times> approval_broker" where
  "settle_authorizing env k d b =
     (case map_get (authorizings b) k of
        None \<Rightarrow> (False, b)
      | Some a \<Rightarrow>
          let b1 = stop_timer k (b\<lparr>authorizings := map_delete (authorizings b) k\<rparr>) in
          if host_owns env (authorizing_generation a) (authorizing_request a) b1
          then (True, respond_and_release env k (authorizing_generation a) (authorizing_request a) d (asked b1))
          else (False, release_lease k (asked b1)))"

definition abandon_authorizing :: "nat \<Rightarrow> approval_broker \<Rightarrow> approval_broker" where
  "abandon_authorizing k b =
     (if map_has (authorizings b) k
      then release_lease k (stop_timer k (b\<lparr>authorizings := map_delete (authorizings b) k\<rparr>)) else b)"

definition respond_admission ::
    "approval_env \<Rightarrow> nat \<Rightarrow> int \<Rightarrow> request_id \<Rightarrow> decision \<Rightarrow> approval_broker \<Rightarrow> approval_broker" where
  "respond_admission env k g i d b =
     (let r = complete_admission k b in if fst r then respond_and_release env k g i d (snd r) else snd r)"

section \<open>Clients\<close>

definition session_of :: "nat \<Rightarrow> approval_broker \<Rightarrow> approval_session" where
  "session_of s b =
     (case map_get (records b) s of
        None \<Rightarrow> \<lparr>session_context = None, session_revision = 0, session_disposed = True\<rparr>
      | Some r \<Rightarrow> r)"

definition cards_for :: "nat \<Rightarrow> approval_broker \<Rightarrow> approval_card list" where
  "cards_for s b =
     map pending_card
       (filter (\<lambda>p. pending_owner p = s \<and> pending_revision p = session_revision (session_of s b)) (map snd (pendings b)))"

definition is_pending :: "pending_approval \<Rightarrow> approval_broker \<Rightarrow> bool" where
  "is_pending p b =
     (case map_get (pendings b) (pending_token p) of None \<Rightarrow> False | Some q \<Rightarrow> pending_key q = pending_key p)"

text \<open>Settling publishes to the owner, publishing may find that the client throws, which disconnects
  it and settles what it owns. The owner is then no longer among the sessions, so that this inner
  settling publishes to nobody; the recursion of the code is written as these two levels.\<close>

definition settle_with ::
    "approval_env \<Rightarrow> (nat \<Rightarrow> approval_broker \<Rightarrow> approval_broker) \<Rightarrow> pending_approval \<Rightarrow> decision \<Rightarrow> approval_broker
     \<Rightarrow> bool \<times> approval_broker" where
  "settle_with env pub p d b =
     (if \<not> is_pending p b then (False, b)
      else
        let b1 = stop_timer (pending_key p) (b\<lparr>pendings := map_delete (pendings b) (pending_token p)\<rparr>);
            b2 = (if pending_owner p \<in> set (sessions b1) then pub (pending_owner p) b1 else b1)
        in (True, respond_and_release env (pending_key p) (pending_generation p) (pending_request p) d b2))"

definition cancel_all ::
    "approval_env \<Rightarrow> (nat \<Rightarrow> approval_broker \<Rightarrow> approval_broker) \<Rightarrow> pending_approval list \<Rightarrow> nat list \<Rightarrow> approval_broker
     \<Rightarrow> approval_broker" where
  "cancel_all env pub ps ks b =
     fold (\<lambda>k b. snd (settle_authorizing env k Cancel b)) ks (fold (\<lambda>p b. snd (settle_with env pub p Cancel b)) ps b)"

definition cancel_owned ::
    "approval_env \<Rightarrow> (nat \<Rightarrow> approval_broker \<Rightarrow> approval_broker) \<Rightarrow> nat \<Rightarrow> nat \<Rightarrow> approval_broker \<Rightarrow> approval_broker" where
  "cancel_owned env pub s revision b =
     cancel_all env pub
       (filter (\<lambda>p. pending_owner p = s \<and> pending_revision p = revision) (map snd (pendings b)))
       (map fst (filter (\<lambda>(k, a). authorizing_owner a = s \<and> authorizing_revision a = revision) (authorizings b))) b"

definition disconnect :: "approval_env \<Rightarrow> nat \<Rightarrow> approval_broker \<Rightarrow> approval_broker" where
  "disconnect env s b =
     (let r = session_of s b in
      if session_disposed r then b
      else cancel_owned env (\<lambda>_ b. b) s (session_revision r)
        (b\<lparr>records := map_set (records b) s
             \<lparr>session_context = None, session_revision = session_revision r + 1, session_disposed = True\<rparr>,
           sessions := filter (\<lambda>t. t \<noteq> s) (sessions b)\<rparr>))"

definition publish_cards :: "approval_env \<Rightarrow> nat \<Rightarrow> approval_broker \<Rightarrow> approval_broker" where
  "publish_cards env s b =
     (if session_disposed (session_of s b) then b
      else
        let b1 = log_effect (Cards_Shown s (cards_for s b)) b
        in if env_client env (questions b1) then asked b1 else disconnect env s (asked b1))"

definition settle_approval ::
    "approval_env \<Rightarrow> pending_approval \<Rightarrow> decision \<Rightarrow> approval_broker \<Rightarrow> bool \<times> approval_broker" where
  "settle_approval env p d b = settle_with env (publish_cards env) p d b"

definition abandon :: "approval_env \<Rightarrow> pending_approval \<Rightarrow> approval_broker \<Rightarrow> approval_broker" where
  "abandon env p b =
     (if \<not> is_pending p b then b
      else
        let b1 = stop_timer (pending_key p) (b\<lparr>pendings := map_delete (pendings b) (pending_token p)\<rparr>);
            b2 = (if pending_owner p \<in> set (sessions b1) then publish_cards env (pending_owner p) b1 else b1)
        in release_lease (pending_key p) b2)"

definition evict_clients :: "approval_env \<Rightarrow> nat list \<Rightarrow> approval_broker \<Rightarrow> approval_broker" where
  "evict_clients env oldest b =
     fold (\<lambda>s b. if opt_max_clients (env_options env) \<le> length (sessions b) then disconnect env s b else b) oldest b"

definition connect_client :: "approval_env \<Rightarrow> approval_broker \<Rightarrow> approval_broker" where
  "connect_client env b =
     (let b1 = evict_clients env (sessions b) b; s = next_session b1 in
      b1\<lparr>next_session := s + 1,
         records := map_set (records b1) s \<lparr>session_context = None, session_revision = 0, session_disposed = False\<rparr>,
         sessions := sessions b1 @ [s]\<rparr>)"

definition replace_context ::
    "approval_env \<Rightarrow> nat \<Rightarrow> approval_context option \<Rightarrow> approval_broker \<Rightarrow> approval_broker" where
  "replace_context env s c b =
     (let r = session_of s b;
          b1 = b\<lparr>records := map_set (records b) s
                 (r\<lparr>session_context := c, session_revision := session_revision r + 1\<rparr>)\<rparr>
      in cancel_owned env (publish_cards env) s (session_revision r) (publish_cards env s b1))"

definition dispose_context :: "approval_env \<Rightarrow> nat \<Rightarrow> approval_broker \<Rightarrow> approval_broker" where
  "dispose_context env s b = (if session_disposed (session_of s b) then b else replace_context env s None b)"

definition set_context :: "approval_env \<Rightarrow> nat \<Rightarrow> jsvalue \<Rightarrow> approval_broker \<Rightarrow> approval_broker" where
  "set_context env s v b =
     (if session_disposed (session_of s b) \<or> shut_down b then b
      else
        case validate_context (px_of env) v of
          None \<Rightarrow> dispose_context env s b
        | Some c \<Rightarrow> replace_context env s (Some c) b)"

end
