(* ===== verification/ApprovalHandler.thy ===== *)
theory ApprovalHandler
  imports ApprovalBroker
begin

text \<open>
  The life of an approval request (\<open>handleServerRequest\<close> of \<open>src/node/ride-codex-approval-broker.ts\<close>)
  and what drives it once it is admitted: its timer, the authorization of file scopes, publication. Theory \<open>ApprovalMachine\<close>
  collects them as the steps of one machine.
\<close>

section \<open>The timer of a request\<close>

datatype clock_verdict = Clock_Bad | Clock_Late | Clock_Before int

definition read_clock :: "approval_env \<Rightarrow> int \<Rightarrow> int \<Rightarrow> approval_broker \<Rightarrow> clock_verdict" where
  "read_clock env issued expires b =
     (case Option.bind (env_now env (questions b)) safe_integer_of of
        None \<Rightarrow> Clock_Bad
      | Some n \<Rightarrow> if n < issued then Clock_Bad else if expires \<le> n then Clock_Late else Clock_Before n)"

definition settle_timed :: "approval_env \<Rightarrow> nat \<Rightarrow> decision \<Rightarrow> approval_broker \<Rightarrow> approval_broker" where
  "settle_timed env k d b =
     (case List.find (\<lambda>p. pending_key p = k) (map snd (pendings b)) of
        Some p \<Rightarrow> snd (settle_approval env p d b)
      | None \<Rightarrow> snd (settle_authorizing env k d b))"

definition timer_live :: "nat \<Rightarrow> nat \<Rightarrow> approval_broker \<Rightarrow> approval_timer option" where
  "timer_live k version b =
     (case map_get (timers b) k of
        None \<Rightarrow> None
      | Some t \<Rightarrow> if timer_stopped t \<or> version \<noteq> timer_version t then None else Some t)"

text \<open>\<open>onTimer(version, false)\<close>\<close>

definition on_timer_once :: "approval_env \<Rightarrow> nat \<Rightarrow> nat \<Rightarrow> approval_broker \<Rightarrow> approval_broker" where
  "on_timer_once env k version b =
     (case timer_live k version b of
        None \<Rightarrow> b
      | Some t \<Rightarrow>
          settle_timed env k
            (case read_clock env (timer_issued t) (timer_expires t) b of Clock_Late \<Rightarrow> Cancel | _ \<Rightarrow> Decline) (asked b))"

definition put_timer :: "nat \<Rightarrow> approval_timer \<Rightarrow> approval_broker \<Rightarrow> approval_broker" where
  "put_timer k t b = b\<lparr>timers := map_set (timers b) k t\<rparr>"

definition schedule_timer :: "approval_env \<Rightarrow> nat \<Rightarrow> int \<Rightarrow> approval_broker \<Rightarrow> bool \<times> approval_broker" where
  "schedule_timer env k delay b =
     (case map_get (timers b) k of
        None \<Rightarrow> (False, b)
      | Some t \<Rightarrow>
          if timer_stopped t then (False, b)
          else
            let version = timer_version t + 1; b1 = put_timer k (t\<lparr>timer_version := version\<rparr>) b in
            case env_schedule env (questions b1) of
              Schedule_Fails \<Rightarrow> (False, asked b1)
            | Scheduled at_once \<Rightarrow>
                let h = next_handle b1;
                    b2 = log_effect (Timer_Set h delay) (asked (b1\<lparr>next_handle := h + 1\<rparr>));
                    b3 = put_timer k (t\<lparr>timer_version := version, timer_handle := Some h\<rparr>) b2;
                    b4 = (if timer_handle t = None then b3 else asked (clear_handle (timer_handle t) b3))
                in if timer_handle t \<noteq> None \<and> \<not> env_dispose env (questions b3) then (False, b4)
                   else if at_once then
                     (True,
                      if timer_ready t then on_timer_once env k version b4
                      else put_timer k
                        (t\<lparr>timer_version := version, timer_handle := Some h, timer_early := Some version\<rparr>) b4)
                   else (True, b4))"

definition on_timer :: "approval_env \<Rightarrow> nat \<Rightarrow> nat \<Rightarrow> approval_broker \<Rightarrow> approval_broker" where
  "on_timer env k version b =
     (case timer_live k version b of
        None \<Rightarrow> b
      | Some t \<Rightarrow>
          (case read_clock env (timer_issued t) (timer_expires t) b of
             Clock_Bad \<Rightarrow> settle_timed env k Decline (asked b)
           | Clock_Late \<Rightarrow> settle_timed env k Cancel (asked b)
           | Clock_Before n \<Rightarrow>
               let r = schedule_timer env k (timer_expires t - n) (asked b)
               in if fst r then snd r else settle_timed env k Decline (snd r)))"

section \<open>Announced file scopes\<close>

definition thread_key :: "int \<Rightarrow> jsstr \<Rightarrow> jsstr" where
  "thread_key g thread = json_stringify (JArr [int_json g, JStr thread])"

definition file_scope_key :: "scope_identity \<Rightarrow> jsstr" where
  "file_scope_key i =
     json_stringify (JArr [int_json (identity_generation i), JStr (identity_thread i), JStr (identity_turn i),
       JStr (identity_item i)])"

function trim_oldest :: "nat \<Rightarrow> (jsstr, 'v) jsmap \<Rightarrow> (jsstr, 'v) jsmap" where
  "trim_oldest limit m = (if limit \<le> length m \<and> m \<noteq> [] then trim_oldest limit (map_delete m (fst (hd m))) else m)"
  by pat_completeness auto
termination
proof (relation "measure (\<lambda>(_, m). length m)")
  fix limit and m :: "(jsstr, 'v) jsmap"
  assume "limit \<le> length m \<and> m \<noteq> []"
  then obtain p ps where "m = p # ps" by (cases m) auto
  then have "length (map_delete m (fst (hd m))) \<le> length ps" by (simp add: map_delete_def)
  with \<open>m = p # ps\<close> show "((limit, map_delete m (fst (hd m))), limit, m) \<in> measure (\<lambda>(_, m). length m)" by simp
qed simp

declare trim_oldest.simps [simp del]

definition set_bounded :: "(jsstr, 'v) jsmap \<Rightarrow> jsstr \<Rightarrow> 'v \<Rightarrow> nat \<Rightarrow> (jsstr, 'v) jsmap" where
  "set_bounded m k v limit = map_set (trim_oldest limit (map_delete m k)) k v"

definition max_tracked :: nat where "max_tracked = 256"

definition tracked_file_scope :: "scope_identity \<Rightarrow> approval_broker \<Rightarrow> (jsstr \<times> scope_change list) option" where
  "tracked_file_scope i b =
     (case (map_get (thread_roots b) (thread_key (identity_generation i) (identity_thread i)),
            map_get (file_scopes b) (file_scope_key i)) of
        (Some r, Some s) \<Rightarrow> Some (root_directory r, tracked_changes s)
      | _ \<Rightarrow> None)"

definition tracked_value :: "(jsstr \<times> scope_change list) option \<Rightarrow> jsvalue" where
  "tracked_value s =
     (case s of
        None \<Rightarrow> JsUndefined
      | Some (directory, changes) \<Rightarrow>
          object_of [(''workspaceRoot'', JsText directory),
            (''changes'', JsArray (map (\<lambda>c.
               object_of ([(''path'', JsText (scope_path c)), (''kind'', JsText (js (change_type_name (scope_kind c))))]
                 @ present ''movePath'' JsText (scope_move c))) changes))])"

text \<open>\<open>#currentTrackedFileScopeFingerprint\<close>\<close>

definition tracked_fingerprint :: "approval_env \<Rightarrow> scope_identity \<Rightarrow> approval_broker \<Rightarrow> jsstr option" where
  "tracked_fingerprint env i b =
     map_option captured_fingerprint
       (capture_answer (env_platform env) (style_of env) i (Some (tracked_value (tracked_file_scope i b))))"

section \<open>Suspended computations\<close>

definition put_approval_task :: "nat \<Rightarrow> approval_task \<Rightarrow> approval_broker \<Rightarrow> approval_broker" where
  "put_approval_task k t b = b\<lparr>approval_tasks := map_set (approval_tasks b) k t\<rparr>"

definition drop_approval_task :: "nat \<Rightarrow> approval_broker \<Rightarrow> approval_broker" where
  "drop_approval_task k b = b\<lparr>approval_tasks := map_delete (approval_tasks b) k\<rparr>"

text \<open>The broker's own scope resolver reads its tables when it is called and answers in a later turn.\<close>

definition call_resolver :: "approval_env \<Rightarrow> 'a op \<Rightarrow> approval_broker \<Rightarrow> 'a op" where
  "call_resolver env m b =
     (case m of
        Ask_Scope i f \<Rightarrow>
          if opt_tracked (env_options env) then Later (f (Some (tracked_value (tracked_file_scope i b)))) else m
      | _ \<Rightarrow> m)"

definition start_scope ::
    "approval_env \<Rightarrow> nat \<Rightarrow> flow \<Rightarrow> phase \<Rightarrow> scope_value op \<Rightarrow> approval_broker \<Rightarrow> approval_broker" where
  "start_scope env k f ph m b = put_approval_task k (Resolving f ph (call_resolver env m b)) b"

section \<open>Publication\<close>

definition flow_identity :: "flow \<Rightarrow> scope_identity" where
  "flow_identity f =
     \<lparr>identity_generation = flow_generation f, identity_thread = request_thread (flow_request f),
      identity_turn = request_turn (flow_request f), identity_item = request_item (flow_request f)\<rparr>"

definition in_context :: "approval_context option \<Rightarrow> int \<Rightarrow> jsstr \<Rightarrow> jsstr \<Rightarrow> bool" where
  "in_context c g thread turn \<longleftrightarrow>
     c = Some \<lparr>context_generation = g, context_thread = thread, context_turn = turn\<rparr>"

text \<open>\<open>#isStillAuthorized\<close>: the host is only asked when everything else holds.\<close>

definition locally_authorized :: "nat \<Rightarrow> flow \<Rightarrow> approval_broker \<Rightarrow> bool" where
  "locally_authorized k f b \<longleftrightarrow>
     \<not> shut_down b \<and> \<not> session_disposed (session_of (flow_owner f) b) \<and> flow_owner f \<in> set (sessions b)
     \<and> (case map_get (authorizings b) k of None \<Rightarrow> False | Some a \<Rightarrow> authorizing_revision a = flow_revision f)
     \<and> session_revision (session_of (flow_owner f) b) = flow_revision f
     \<and> map_get (leases b) k = Some (flow_generation f)
     \<and> in_context (session_context (session_of (flow_owner f) b)) (flow_generation f)
         (request_thread (flow_request f)) (request_turn (flow_request f))"

definition still_authorized :: "approval_env \<Rightarrow> nat \<Rightarrow> flow \<Rightarrow> approval_broker \<Rightarrow> bool \<times> approval_broker" where
  "still_authorized env k f b =
     (if locally_authorized k f b
      then (host_owns env (flow_generation f) (request_id_of (flow_request f)) b, asked b) else (False, b))"

definition insert_pending :: "approval_env \<Rightarrow> nat \<Rightarrow> pending_approval \<Rightarrow> approval_broker \<Rightarrow> approval_broker" where
  "insert_pending env k p b =
     (if \<not> map_has (authorizings b) k then stop_timer k b
      else
        publish_cards env (pending_owner p)
          (b\<lparr>authorizings := map_delete (authorizings b) k, pendings := map_set (pendings b) (pending_token p) p\<rparr>))"

definition command_scope :: "approval_request \<Rightarrow> card_scope" where
  "command_scope r =
     (case request_detail r of
        Command_Detail command cwd reason network \<Rightarrow> Command_Scope command (map_option cwd_display cwd) reason network
      | File_Detail reason \<Rightarrow> File_Scope reason [])"

definition network_json :: "network_access \<Rightarrow> json" where
  "network_json n =
     obj [(''host'', JStr (network_host n)), (''protocol'', text_json (protocol_name (network_protocol n)))]"

text \<open>What a fingerprint covers: for a command the normalized directory in place of the shown one, for
  file changes the workspace as well.\<close>

definition ownership_json :: "approval_request \<Rightarrow> file_scope option \<Rightarrow> json" where
  "ownership_json r s =
     (case (request_detail r, s) of
        (Command_Detail command cwd reason network, _) \<Rightarrow>
          obj (optional_field ''command'' JStr command @ optional_field ''cwd'' (\<lambda>c. JStr (cwd_normalized c)) cwd
            @ optional_field ''reason'' JStr reason @ optional_field ''network'' network_json network)
      | (File_Detail reason, Some s) \<Rightarrow>
          obj ([(''workspace'', JStr (scope_workspace s))] @ optional_field ''reason'' JStr reason
            @ [(''changes'', JArr (map (scope_change_json (\<lambda>p. p)) (scope_changes s)))])
      | (File_Detail reason, None) \<Rightarrow> obj [])"

definition approval_fingerprint :: "approval_env \<Rightarrow> flow \<Rightarrow> file_scope option \<Rightarrow> jsstr" where
  "approval_fingerprint env f s =
     (let r = flow_request f in
      fingerprint (env_platform env)
        (obj [(''generation'', int_json (flow_generation f)), (''requestId'', id_json (request_id_of r)),
              (''threadId'', JStr (request_thread r)), (''turnId'', JStr (request_turn r)),
              (''itemId'', JStr (request_item r)), (''kind'', text_json (approval_kind_name (flow_kind f))),
              (''scope'', ownership_json r s),
              (''allowedDecisions'', JArr (map (\<lambda>d. text_json (decision_name d)) (flow_decisions f)))]))"

definition make_pending ::
    "approval_env \<Rightarrow> nat \<Rightarrow> flow \<Rightarrow> (captured_scope \<times> normalized_scope) option \<Rightarrow> jsstr \<Rightarrow> pending_approval" where
  "make_pending env k f s token =
     (let r = flow_request f; fp = approval_fingerprint env f (map_option (\<lambda>(c, n). shown_scope n) s) in
      \<lparr>pending_key = k, pending_token = token, pending_fingerprint = fp, pending_generation = flow_generation f,
       pending_request = request_id_of r, pending_thread = request_thread r, pending_turn = request_turn r,
       pending_item = request_item r, pending_scope_fingerprint = map_option (\<lambda>(c, n). captured_fingerprint c) s,
       pending_real_fingerprint =
         map_option (\<lambda>(c, n). realpath_fingerprint (env_platform env) (style_of env) (flow_identity f) (real_scope n)) s,
       pending_owner = flow_owner f, pending_revision = flow_revision f, pending_issued = flow_issued f,
       pending_expires = flow_expires f, pending_decisions = flow_decisions f,
       pending_card =
         \<lparr>card_kind = flow_kind f, card_token = token, card_fingerprint = fp, card_expires = flow_expires f,
          card_scope =
            (case s of
               None \<Rightarrow> command_scope r
             | Some (c, n) \<Rightarrow>
                 File_Scope (case request_detail r of File_Detail reason \<Rightarrow> reason | _ \<Rightarrow> None)
                   (scope_changes (shown_scope n))),
          card_decisions = flow_decisions f\<rparr>\<rparr>)"

definition cancel_flow :: "approval_env \<Rightarrow> nat \<Rightarrow> decision \<Rightarrow> approval_broker \<Rightarrow> approval_broker" where
  "cancel_flow env k d b = snd (settle_authorizing env k d b)"

definition publish_approval ::
    "approval_env \<Rightarrow> nat \<Rightarrow> flow \<Rightarrow> (captured_scope \<times> normalized_scope) option \<Rightarrow> approval_broker \<Rightarrow> approval_broker" where
  "publish_approval env k f s b =
     (let a = still_authorized env k f b; b1 = snd a in
      if \<not> fst a then cancel_flow env k Cancel b1
      else
        case read_clock env (flow_issued f) (flow_expires f) b1 of
          Clock_Bad \<Rightarrow> cancel_flow env k Decline (asked b1)
        | Clock_Late \<Rightarrow> cancel_flow env k Cancel (asked b1)
        | Clock_Before _ \<Rightarrow>
            let b2 = (asked b1)\<lparr>next_token := next_token b1 + 1\<rparr>;
                p = make_pending env k f s (env_token env (next_token b1))
            in case pending_scope_fingerprint p of
                 None \<Rightarrow> insert_pending env k p b2
               | Some fp \<Rightarrow>
                   if fp = [] then cancel_flow env k Cancel b2
                   else start_scope env k f (Publishing p)
                     (map_op Got_Flag (is_file_scope_current (env_platform env) (style_of env) (flow_identity f) fp)) b2)"

section \<open>Authorization\<close>

definition authorize :: "approval_env \<Rightarrow> nat \<Rightarrow> flow \<Rightarrow> approval_broker \<Rightarrow> approval_broker" where
  "authorize env k f b =
     (case flow_kind f of
        Command_Approval \<Rightarrow> publish_approval env k f None b
      | File_Approval \<Rightarrow>
          start_scope env k f
            (Capturing (if opt_tracked (env_options env) then tracked_fingerprint env (flow_identity f) b else None))
            (map_op Got_Capture (capture_file_scope (env_platform env) (style_of env) (flow_identity f))) b)"

definition check_current ::
    "approval_env \<Rightarrow> nat \<Rightarrow> flow \<Rightarrow> phase \<Rightarrow> captured_scope \<Rightarrow> approval_broker \<Rightarrow> approval_broker" where
  "check_current env k f ph c b =
     start_scope env k f ph
       (map_op Got_Flag
          (is_file_scope_current (env_platform env) (style_of env) (flow_identity f) (captured_fingerprint c))) b"

fun awaits_check :: "phase \<Rightarrow> bool" where
  "awaits_check (First_Check _) = True"
| "awaits_check (Last_Check _ _) = True"
| "awaits_check (Publishing _) = True"
| "awaits_check _ = False"

text \<open>The handler after one of its awaits for the file scope.\<close>

definition continue_flow ::
    "approval_env \<Rightarrow> nat \<Rightarrow> flow \<Rightarrow> phase \<Rightarrow> scope_value \<Rightarrow> approval_broker \<Rightarrow> approval_broker" where
  "continue_flow env k f ph v b =
     (if awaits_check ph \<and> v = Got_Flag False then cancel_flow env k Cancel b
      else
        let a = still_authorized env k f b; b1 = snd a in
        if \<not> fst a then cancel_flow env k Cancel b1
        else
          case (ph, v) of
            (Capturing earlier, Got_Capture captured) \<Rightarrow>
              if opt_tracked (env_options env) \<and> earlier \<noteq> map_option captured_fingerprint captured
              then cancel_flow env k Cancel b1
              else (case captured of
                      None \<Rightarrow> cancel_flow env k Decline b1
                    | Some c \<Rightarrow> check_current env k f (First_Check c) c b1)
          | (First_Check c, Got_Flag _) \<Rightarrow>
              start_scope env k f (Normalizing c)
                (map_op Got_Normalized
                   (normalize_file_scope (paths_of env) (style_of env)
                      (is_file_scope_current (env_platform env) (style_of env) (flow_identity f) (captured_fingerprint c))
                      (captured_file_scope c))) b1
          | (Normalizing c, Got_Normalized n) \<Rightarrow> check_current env k f (Last_Check c n) c b1
          | (Last_Check c n, Got_Flag _) \<Rightarrow>
              (case n of
                 None \<Rightarrow> cancel_flow env k Decline b1
               | Some s \<Rightarrow> publish_approval env k f (Some (c, s)) b1)
          | (Publishing p, Got_Flag _) \<Rightarrow> insert_pending env k p b1
          | _ \<Rightarrow> b1)"

end
