(* ===== verification/ApprovalMachine.thy ===== *)
theory ApprovalMachine
  imports ApprovalHandler
begin

text \<open>
  The approval broker as one machine (\<open>src/node/ride-codex-approval-broker.ts\<close>): admission of requests
  under the capacity limit, decisions of the clients, notifications and states of the host, disposal,
  and the step function over all events.
\<close>

section \<open>Abandoning generations\<close>

text \<open>The loops of \<open>#abandonGeneration\<close> and \<open>#onHostStateChange\<close>: the same five tables in the same
  order, for the generations \<open>P\<close> selects. Each loop runs over the table as it is when the loop starts.\<close>

definition abandon_where :: "approval_env \<Rightarrow> (int \<Rightarrow> bool) \<Rightarrow> approval_broker \<Rightarrow> approval_broker" where
  "abandon_where env P b =
     (let b1 = fold (\<lambda>(k, a) b. if P (acquiring_generation a) then snd (finish_acquiring k b) else b) (acquirings b) b;
          b2 = fold (\<lambda>(k, a) b. if P (admitting_generation a) then finish_admission k b else b) (admittings b1) b1;
          b3 = fold (\<lambda>(t, p) b. if P (pending_generation p) then abandon env p b else b) (pendings b2) b2;
          b4 = fold (\<lambda>(k, a) b. if P (authorizing_generation a) then abandon_authorizing k b else b) (authorizings b3) b3
      in fold (\<lambda>(k, r) b. if P (responding_generation r) then snd (finish_responding k False b) else b)
           (respondings b4) b4)"

section \<open>Admission\<close>

definition can_acquire :: "approval_env \<Rightarrow> int \<Rightarrow> request_id \<Rightarrow> approval_broker \<Rightarrow> bool \<times> approval_broker" where
  "can_acquire env g i b = (if shut_down b then (False, b) else (host_owns env g i b, asked b))"

definition reserve_acquisition ::
    "approval_env \<Rightarrow> nat \<Rightarrow> int \<Rightarrow> request_id \<Rightarrow> approval_broker \<Rightarrow> bool \<times> approval_broker" where
  "reserve_acquisition env k g i b =
     (let r = can_acquire env g i b; b1 = snd r in
      if \<not> fst r then (False, b1)
      else if opt_max_pending (env_options env) \<le> active_approvals b1
      then (False, abandon_where env (\<lambda>g'. g' = g) (abort_generation g b1))
      else
        let b2 = b1\<lparr>acquirings := map_set (acquirings b1) k \<lparr>acquiring_generation = g, acquiring_request = i\<rparr>\<rparr>;
            q = can_acquire env g i b2
        in if fst q then (True, snd q) else (False, snd (finish_acquiring k (snd q))))"

definition handle_server_request :: "approval_env \<Rightarrow> jsvalue \<Rightarrow> int \<Rightarrow> approval_broker \<Rightarrow> approval_broker" where
  "handle_server_request env v g b =
     (if shut_down b \<or> \<not> safe_int g \<or> g < 1 then b
      else
        case validate_supported_envelope (px_of env) v of
          None \<Rightarrow> b
        | Some e \<Rightarrow>
            let k = next_key b;
                r = reserve_acquisition env k g (envelope_id e) (b\<lparr>next_key := k + 1\<rparr>); b1 = snd r
            in if \<not> fst r then b1
               else
                 let b2 = asked (log_effect (Lease_Requested k) b1) in
                 if env_acquire env (questions b1) then put_approval_task k (Awaiting_Host_Lease e g) b2
                 else snd (finish_acquiring k b2))"

text \<open>\<open>#canRespondToRequest\<close>\<close>

definition can_respond :: "approval_env \<Rightarrow> nat \<Rightarrow> int \<Rightarrow> request_id \<Rightarrow> approval_broker \<Rightarrow> bool \<times> approval_broker" where
  "can_respond env k g i b =
     (if shut_down b \<or> map_get (leases b) k \<noteq> Some g then (False, b) else (host_owns env g i b, asked b))"

definition admit_request :: "approval_env \<Rightarrow> nat \<Rightarrow> envelope \<Rightarrow> int \<Rightarrow> approval_broker \<Rightarrow> approval_broker" where
  "admit_request env k e g b =
     (let r = can_respond env k g (envelope_id e) b; b1 = snd r in
      if fst r then
        (let b2 = b1\<lparr>admittings :=
               map_set (admittings b1) k \<lparr>admitting_generation = g, admitting_request = envelope_id e\<rparr>\<rparr>;
             q = finish_acquiring k b2
         in if fst q then put_approval_task k (Admitted e g) (snd q)
            else release_lease k ((snd q)\<lparr>admittings := map_delete (admittings (snd q)) k\<rparr>))
      else release_lease k (snd (finish_acquiring k b1)))"

text \<open>\<open>#makeCapacityAvailable\<close>: the turns of its loop that do not wait only end settlements of other
  generations, so that they are finitely many.\<close>

lemma finish_responding_fewer:
  assumes "respondings b = (r, x) # rest"
  shows "length (respondings (snd (finish_responding r ok b))) < Suc (length rest)"
proof -
  have "length (map_delete ((r, x) # rest) r) \<le> length rest" by (simp add: map_delete_def)
  with assms show ?thesis
    by (simp add: finish_responding_def release_lease_def log_effect_def clear_handle_def map_get_def split: option.splits)
qed

function make_capacity :: "approval_env \<Rightarrow> nat \<Rightarrow> envelope \<Rightarrow> int \<Rightarrow> approval_broker \<Rightarrow> approval_broker" where
  "make_capacity env k e g b =
     (if active_approvals b < opt_max_pending (env_options env) then admit_request env k e g b
      else
        case admittings b of
          (a, _) # _ \<Rightarrow> put_approval_task k (Awaiting_Capacity e g (For_Admission a)) b
        | [] \<Rightarrow>
            (case respondings b of
               (r, x) # _ \<Rightarrow>
                 if responding_generation x \<noteq> g then make_capacity env k e g (snd (finish_responding r False b))
                 else release_lease k (abort_generation g b)
             | [] \<Rightarrow>
                 (case pendings b of
                    (t, p) # _ \<Rightarrow>
                      put_approval_task k (Awaiting_Capacity e g (For_Outcome (pending_key p)))
                        (snd (settle_approval env p Cancel b))
                  | [] \<Rightarrow>
                      (case authorizings b of
                         (a, _) # _ \<Rightarrow>
                           (let r = settle_authorizing env a Cancel b in
                            put_approval_task k
                              (Awaiting_Capacity e g (if fst r then For_Outcome a else For_Turn)) (snd r))
                       | [] \<Rightarrow> admit_request env k e g b))))"
  by pat_completeness auto
termination
  by (relation "measure (\<lambda>(env, k, e, g, b). length (respondings b))")
    (auto dest: finish_responding_fewer)

declare make_capacity.simps [simp del]

definition lease_granted :: "nat \<Rightarrow> int \<Rightarrow> approval_broker \<Rightarrow> approval_broker" where
  "lease_granted k g' b =
     (case map_get (approval_tasks b) k of
        Some (Awaiting_Host_Lease e g) \<Rightarrow>
          let b1 = (drop_approval_task k b)\<lparr>leases := map_set (leases b) k g'\<rparr>
          in if map_has (acquirings b1) k then put_approval_task k (Lease_Held e g) b1 else release_lease k b1
      | _ \<Rightarrow> b)"

definition lease_denied :: "nat \<Rightarrow> approval_broker \<Rightarrow> approval_broker" where
  "lease_denied k b =
     (case map_get (approval_tasks b) k of
        Some (Awaiting_Host_Lease e g) \<Rightarrow> snd (finish_acquiring k (drop_approval_task k b))
      | _ \<Rightarrow> b)"

definition lease_held :: "approval_env \<Rightarrow> nat \<Rightarrow> envelope \<Rightarrow> int \<Rightarrow> approval_broker \<Rightarrow> approval_broker" where
  "lease_held env k e g b =
     (if shut_down b \<or> map_get (leases b) k \<noteq> Some g then release_lease k (snd (finish_acquiring k b))
      else make_capacity env k e g b)"

definition capacity_continued :: "approval_env \<Rightarrow> nat \<Rightarrow> envelope \<Rightarrow> int \<Rightarrow> approval_broker \<Rightarrow> approval_broker" where
  "capacity_continued env k e g b =
     (let r = can_respond env k g (envelope_id e) b in
      if fst r then make_capacity env k e g (snd r) else release_lease k (snd r))"

text \<open>The session whose context is that of the request, in the order of connection.\<close>

definition find_owner :: "int \<Rightarrow> approval_request \<Rightarrow> approval_broker \<Rightarrow> nat option" where
  "find_owner g r b =
     List.find (\<lambda>s. \<not> session_disposed (session_of s b)
       \<and> in_context (session_context (session_of s b)) g (request_thread r) (request_turn r)) (sessions b)"

definition decisions_offered :: "bool \<Rightarrow> decision list" where
  "decisions_offered for_session =
     [Accept] @ (if for_session then [Accept_For_Session] else []) @ [Decline, Cancel]"

definition new_timer :: "int \<Rightarrow> int \<Rightarrow> approval_timer" where
  "new_timer issued expires =
     \<lparr>timer_stopped = False, timer_version = 0, timer_handle = None, timer_ready = False, timer_early = None,
      timer_issued = issued, timer_expires = expires\<rparr>"

definition begin_authorizing :: "approval_env \<Rightarrow> nat \<Rightarrow> flow \<Rightarrow> approval_broker \<Rightarrow> approval_broker" where
  "begin_authorizing env k f b =
     (let b1 = put_timer k (new_timer (flow_issued f) (flow_expires f))
            (b\<lparr>authorizings := map_set (authorizings b) k
              \<lparr>authorizing_generation = flow_generation f, authorizing_request = request_id_of (flow_request f),
               authorizing_thread = request_thread (flow_request f), authorizing_turn = request_turn (flow_request f),
               authorizing_owner = flow_owner f, authorizing_revision = flow_revision f,
               authorizing_issued = flow_issued f, authorizing_expires = flow_expires f\<rparr>\<rparr>);
          r = schedule_timer env k (opt_ttl (env_options env)) b1
      in if \<not> fst r then cancel_flow env k Decline (stop_timer k (snd r))
         else
           case map_get (timers (snd r)) k of
             None \<Rightarrow> snd r
           | Some t \<Rightarrow>
               let b2 = put_timer k (t\<lparr>timer_ready := True, timer_early := None\<rparr>) (snd r) in
               case timer_early t of
                 None \<Rightarrow> authorize env k f b2
               | Some version \<Rightarrow> put_approval_task k (Timer_Checked f) (on_timer env k version b2))"

definition admitted :: "approval_env \<Rightarrow> nat \<Rightarrow> envelope \<Rightarrow> int \<Rightarrow> approval_broker \<Rightarrow> approval_broker" where
  "admitted env k e g b =
     (if \<not> map_has (admittings b) k then b
      else
        case validate_request (px_of env) (paths_of env) (style_of env) e of
          None \<Rightarrow> respond_admission env k g (envelope_id e) Decline b
        | Some r \<Rightarrow>
            (case find_owner g r b of
               None \<Rightarrow> respond_admission env k g (envelope_id e) Cancel b
             | Some s \<Rightarrow>
                 (case env_allow_session env (questions b) (envelope_kind e) of
                    None \<Rightarrow> respond_admission env k g (envelope_id e) Decline (asked b)
                  | Some for_session \<Rightarrow>
                      let b1 = asked b; ttl = opt_ttl (env_options env) in
                      (case Option.bind (env_now env (questions b1)) safe_integer_of of
                         None \<Rightarrow> respond_admission env k g (envelope_id e) Decline (asked b1)
                       | Some issued \<Rightarrow>
                           if issued < 0 \<or> max_safe_integer - ttl < issued
                           then respond_admission env k g (envelope_id e) Decline (asked b1)
                           else
                             let f = \<lparr>flow_request = r, flow_kind = envelope_kind e, flow_generation = g,
                                      flow_owner = s, flow_revision = session_revision (session_of s b),
                                      flow_issued = issued, flow_expires = issued + ttl,
                                      flow_decisions = decisions_offered for_session\<rparr>
                             in begin_authorizing env k f (snd (complete_admission k (asked b1)))))))"

section \<open>Decisions\<close>

definition final_decision ::
    "approval_env \<Rightarrow> nat \<Rightarrow> pending_approval \<Rightarrow> decision \<Rightarrow> approval_broker \<Rightarrow> approval_broker" where
  "final_decision env call p d b =
     (let r = settle_approval env p d b in
      if fst r then put_approval_task call (Awaiting_Decision call (pending_key p)) (snd r)
      else log_effect (Decision_Result call (Was_Rejected Stale_Approval)) (snd r))"

definition timed_decision ::
    "approval_env \<Rightarrow> nat \<Rightarrow> pending_approval \<Rightarrow> decision \<Rightarrow> approval_broker \<Rightarrow> approval_broker" where
  "timed_decision env call p d b =
     final_decision env call p
       (case read_clock env (pending_issued p) (pending_expires p) b of
          Clock_Bad \<Rightarrow> Decline | Clock_Late \<Rightarrow> Cancel | Clock_Before _ \<Rightarrow> d) (asked b)"

definition owns_pending :: "nat \<Rightarrow> pending_approval \<Rightarrow> approval_broker \<Rightarrow> bool" where
  "owns_pending s p b \<longleftrightarrow>
     \<not> session_disposed (session_of s b) \<and> pending_owner p = s
     \<and> pending_revision p = session_revision (session_of s b)
     \<and> in_context (session_context (session_of s b)) (pending_generation p) (pending_thread p) (pending_turn p)"

definition pending_identity :: "pending_approval \<Rightarrow> scope_identity" where
  "pending_identity p =
     \<lparr>identity_generation = pending_generation p, identity_thread = pending_thread p,
      identity_turn = pending_turn p, identity_item = pending_item p\<rparr>"

definition decide :: "approval_env \<Rightarrow> nat \<Rightarrow> jsvalue \<Rightarrow> approval_broker \<Rightarrow> approval_broker" where
  "decide env s v b =
     (let call = next_key b; b1 = b\<lparr>next_key := call + 1\<rparr>;
          reject = (\<lambda>c. log_effect (Decision_Result call (Was_Rejected c)) b1)
      in case validate_decision_request (px_of env) v of
           None \<Rightarrow> reject Invalid_Decision
         | Some q \<Rightarrow>
             (case map_get (pendings b1) (decided_token q) of
                None \<Rightarrow> reject Stale_Approval
              | Some p \<Rightarrow>
                  if \<not> owns_pending s p b1 \<or> \<not> constant_time_equal (pending_fingerprint p) (decided_fingerprint q)
                  then reject Ownership_Mismatch
                  else if decided q \<notin> set (pending_decisions p) then reject Invalid_Decision
                  else
                    case pending_scope_fingerprint p of
                      None \<Rightarrow> timed_decision env call p (decided q) b1
                    | Some fp \<Rightarrow>
                        put_approval_task call
                          (Deciding s p q
                             (call_resolver env
                                (is_file_scope_decision_safe (env_platform env) (style_of env) (pending_identity p) fp
                                   (pending_real_fingerprint p)) b1)) b1))"

definition scope_decided ::
    "approval_env \<Rightarrow> nat \<Rightarrow> nat \<Rightarrow> pending_approval \<Rightarrow> decision_request \<Rightarrow> bool \<Rightarrow> approval_broker \<Rightarrow> approval_broker" where
  "scope_decided env call s p q ok b =
     (if \<not> is_pending p b then log_effect (Decision_Result call (Was_Rejected Stale_Approval)) b
      else if \<not> ok \<or> \<not> owns_pending s p b then final_decision env call p Cancel b
      else timed_decision env call p (decided q) b)"

section \<open>Contexts ending, notifications, host states\<close>

definition close_context :: "approval_env \<Rightarrow> jsvalue \<Rightarrow> approval_broker \<Rightarrow> approval_broker" where
  "close_context env v b =
     (case validate_context (px_of env) v of
        None \<Rightarrow> b
      | Some c \<Rightarrow>
          cancel_all env (publish_cards env)
            (filter (\<lambda>p. in_context (Some c) (pending_generation p) (pending_thread p) (pending_turn p)) (map snd (pendings b)))
            (map fst (filter (\<lambda>(k, a). in_context (Some c) (authorizing_generation a) (authorizing_thread a)
                (authorizing_turn a)) (authorizings b))) b)"

definition thread_started :: "approval_env \<Rightarrow> data_items \<Rightarrow> int \<Rightarrow> approval_broker \<Rightarrow> approval_broker" where
  "thread_started env params g b =
     (case data_record (px_of env) (field params ''thread'') of
        None \<Rightarrow> b
      | Some thread \<Rightarrow>
          (case (bounded_string (field thread ''id'') max_approval_identifier,
                 bounded_string (field thread ''cwd'') max_path_bytes) of
             (Some i, Some d) \<Rightarrow>
               b\<lparr>thread_roots := set_bounded (thread_roots b) (thread_key g i)
                   \<lparr>root_generation = g, root_thread = i, root_directory = d\<rparr> max_tracked\<rparr>
           | _ \<Rightarrow> b))"

definition changes_announced ::
    "approval_env \<Rightarrow> data_items \<Rightarrow> int \<Rightarrow> jsvalue \<Rightarrow> jsvalue \<Rightarrow> approval_broker \<Rightarrow> approval_broker" where
  "changes_announced env params g item_id raw b =
     (case (bounded_string (field params ''threadId'') max_approval_identifier,
            bounded_string (field params ''turnId'') max_approval_identifier,
            bounded_string item_id max_approval_identifier, normalize_tracked_changes (px_of env) raw) of
        (Some thread, Some turn, Some item, Some changes) \<Rightarrow>
          let i = \<lparr>identity_generation = g, identity_thread = thread, identity_turn = turn, identity_item = item\<rparr>
          in b\<lparr>file_scopes := set_bounded (file_scopes b) (file_scope_key i)
                 \<lparr>tracked_identity = i, tracked_changes = changes\<rparr> max_tracked\<rparr>
      | _ \<Rightarrow> b)"

definition item_started :: "approval_env \<Rightarrow> data_items \<Rightarrow> int \<Rightarrow> approval_broker \<Rightarrow> approval_broker" where
  "item_started env params g b =
     (case data_record (px_of env) (field params ''item'') of
        None \<Rightarrow> b
      | Some item \<Rightarrow>
          if field item ''type'' \<noteq> JsText (js ''fileChange'') then b
          else changes_announced env params g (field item ''id'') (field item ''changes'') b)"

definition item_completed :: "approval_env \<Rightarrow> data_items \<Rightarrow> int \<Rightarrow> approval_broker \<Rightarrow> approval_broker" where
  "item_completed env params g b =
     (case data_record (px_of env) (field params ''item'') of
        None \<Rightarrow> b
      | Some it \<Rightarrow>
          (case (bounded_string (field params ''threadId'') max_approval_identifier,
                 bounded_string (field params ''turnId'') max_approval_identifier,
                 bounded_string (field it ''id'') max_approval_identifier) of
             (Some thread, Some turn, Some item) \<Rightarrow>
               b\<lparr>file_scopes := map_delete (file_scopes b) (file_scope_key
                   \<lparr>identity_generation = g, identity_thread = thread, identity_turn = turn, identity_item = item\<rparr>)\<rparr>
           | _ \<Rightarrow> b))"

definition turn_completed :: "approval_env \<Rightarrow> data_items \<Rightarrow> int \<Rightarrow> approval_broker \<Rightarrow> approval_broker" where
  "turn_completed env params g b =
     (case data_record (px_of env) (field params ''turn'') of
        None \<Rightarrow> b
      | Some turn \<Rightarrow>
          (case (bounded_string (field params ''threadId'') max_approval_identifier,
                 bounded_string (field turn ''id'') max_approval_identifier) of
             (Some thread, Some i) \<Rightarrow>
               if field turn ''status'' \<notin> set (map (\<lambda>s. JsText (js s)) [''completed'', ''failed'', ''interrupted'']) then b
               else
                 close_context env
                   (object_of [(''generation'', JsNumber (NInt g)), (''threadId'', JsText thread), (''turnId'', JsText i)])
                   (b\<lparr>file_scopes := filter (\<lambda>(key, t).
                        \<not> (identity_generation (tracked_identity t) = g \<and> identity_thread (tracked_identity t) = thread
                           \<and> identity_turn (tracked_identity t) = i)) (file_scopes b)\<rparr>)
           | _ \<Rightarrow> b))"

definition host_notification :: "approval_env \<Rightarrow> jsvalue \<Rightarrow> int \<Rightarrow> approval_broker \<Rightarrow> approval_broker" where
  "host_notification env v g b =
     (if shut_down b \<or> \<not> safe_int g \<or> g < 1 then b
      else
        case exact_data_record (px_of env) v [''method'', ''params''] [''method'', ''params''] of
          None \<Rightarrow> b
        | Some e \<Rightarrow>
            (case data_record (px_of env) (field e ''params'') of
               None \<Rightarrow> b
             | Some params \<Rightarrow>
                 let is = (\<lambda>m. field e ''method'' = JsText (js m)) in
                 if is ''thread/started'' then thread_started env params g b
                 else if is ''item/started'' then item_started env params g b
                 else if is ''item/fileChange/patchUpdated''
                 then changes_announced env params g (field params ''itemId'') (field params ''changes'') b
                 else if is ''item/completed'' then item_completed env params g b
                 else if is ''turn/completed'' then turn_completed env params g b
                 else b))"

definition host_state_changed :: "approval_env \<Rightarrow> bool \<Rightarrow> int \<Rightarrow> approval_broker \<Rightarrow> approval_broker" where
  "host_state_changed env is_ready g b =
     (if shut_down b \<or> \<not> safe_int g then b
      else if is_ready then
        abandon_where env (\<lambda>g'. g' \<noteq> g)
          (b\<lparr>thread_roots := filter (\<lambda>(key, t). root_generation t = g) (thread_roots b),
             file_scopes := filter (\<lambda>(key, t). identity_generation (tracked_identity t) = g) (file_scopes b)\<rparr>)
      else (abandon_where env (\<lambda>_. True) b)\<lparr>thread_roots := [], file_scopes := []\<rparr>)"

section \<open>Disposal\<close>

definition dispose_approvals :: "approval_env \<Rightarrow> approval_broker \<Rightarrow> approval_broker" where
  "dispose_approvals env b =
     (if shut_down b then b
      else
        let gens = map (acquiring_generation \<circ> snd) (acquirings b) @ map (admitting_generation \<circ> snd) (admittings b)
                   @ map (responding_generation \<circ> snd) (respondings b);
            b1 = fold (\<lambda>(k, a) b. snd (finish_acquiring k b)) (acquirings b) (b\<lparr>shut_down := True\<rparr>);
            b2 = fold (\<lambda>(k, a) b. finish_admission k b) (admittings b) b1;
            b3 = fold (\<lambda>(k, r) b. snd (finish_responding k False b)) (respondings b) b2;
            b4 = fold abort_generation (rev (remdups (rev gens))) b3;
            b5 = cancel_all env (publish_cards env) (map snd (pendings b4)) (map fst (authorizings b4)) b4;
            k = next_key b5
        in put_approval_task k (Disposing (map fst (respondings b5))) (b5\<lparr>next_key := k + 1\<rparr>))"

section \<open>The step function\<close>

definition resume_scope :: "approval_env \<Rightarrow> nat \<Rightarrow> flow \<Rightarrow> phase \<Rightarrow> scope_value op \<Rightarrow> approval_broker \<Rightarrow> approval_broker" where
  "resume_scope env k f ph m b =
     (if \<not> map_has (authorizings b) k then drop_approval_task k b
      else
        case m of
          Finished v \<Rightarrow> continue_flow env k f ph v (drop_approval_task k b)
        | Later m' \<Rightarrow> start_scope env k f ph m' b
        | _ \<Rightarrow> b)"

definition resume_decision ::
    "approval_env \<Rightarrow> nat \<Rightarrow> nat \<Rightarrow> pending_approval \<Rightarrow> decision_request \<Rightarrow> bool op \<Rightarrow> approval_broker
     \<Rightarrow> approval_broker" where
  "resume_decision env k s p q m b =
     (case m of
        Finished ok \<Rightarrow> scope_decided env k s p q ok (drop_approval_task k b)
      | Later m' \<Rightarrow> put_approval_task k (Deciding s p q (call_resolver env m' b)) b
      | _ \<Rightarrow> b)"

definition resume_capacity ::
    "approval_env \<Rightarrow> nat \<Rightarrow> envelope \<Rightarrow> int \<Rightarrow> capacity_wait \<Rightarrow> approval_broker \<Rightarrow> approval_broker" where
  "resume_capacity env k e g w b =
     (case w of
        For_Admission a \<Rightarrow>
          if map_has (admittings b) a then b else make_capacity env k e g (drop_approval_task k b)
      | For_Outcome r \<Rightarrow>
          if map_get (outcomes b) r = None then b else capacity_continued env k e g (drop_approval_task k b)
      | For_Turn \<Rightarrow> capacity_continued env k e g (drop_approval_task k b))"

text \<open>A suspended computation takes its next turn, if what it waits for has happened.\<close>

definition resume_approval :: "approval_env \<Rightarrow> nat \<Rightarrow> approval_broker \<Rightarrow> approval_broker" where
  "resume_approval env k b =
     (case map_get (approval_tasks b) k of
        Some (Lease_Held e g) \<Rightarrow> lease_held env k e g (drop_approval_task k b)
      | Some (Awaiting_Capacity e g w) \<Rightarrow> resume_capacity env k e g w b
      | Some (Admitted e g) \<Rightarrow> admitted env k e g (drop_approval_task k b)
      | Some (Timer_Checked f) \<Rightarrow>
          if map_has (authorizings b) k then authorize env k f (drop_approval_task k b) else drop_approval_task k b
      | Some (Resolving f ph m) \<Rightarrow> resume_scope env k f ph m b
      | Some (Deciding s p q m) \<Rightarrow> resume_decision env k s p q m b
      | Some (Awaiting_Decision call r) \<Rightarrow>
          (case map_get (outcomes b) r of
             None \<Rightarrow> b
           | Some ok \<Rightarrow>
               log_effect (Decision_Result call (if ok then Was_Responded else Was_Rejected Response_Failed))
                 (drop_approval_task k b))
      | Some (Disposing ks) \<Rightarrow>
          if list_all (\<lambda>r. map_get (outcomes b) r \<noteq> None) ks
          then (drop_approval_task k b)\<lparr>sessions := [], thread_roots := [], file_scopes := []\<rparr>
          else b
      | _ \<Rightarrow> b)"

text \<open>An answer of the scope resolver or of the file system.\<close>

definition advance_op :: "(scope_identity \<Rightarrow> jsvalue option) \<Rightarrow> (jsstr \<Rightarrow> jsstr option) \<Rightarrow> 'a op \<Rightarrow> 'a op" where
  "advance_op scope_answer path_answer m =
     (case m of Ask_Scope i f \<Rightarrow> f (scope_answer i) | Ask_Real p f \<Rightarrow> f (path_answer p) | _ \<Rightarrow> m)"

definition answer_task ::
    "approval_env \<Rightarrow> nat \<Rightarrow> jsvalue option \<Rightarrow> jsstr option \<Rightarrow> approval_broker \<Rightarrow> approval_broker" where
  "answer_task env k scope path b =
     (case map_get (approval_tasks b) k of
        Some (Resolving f ph m) \<Rightarrow> start_scope env k f ph (advance_op (\<lambda>_. scope) (\<lambda>_. path) m) b
      | Some (Deciding s p q m) \<Rightarrow>
          put_approval_task k (Deciding s p q (call_resolver env (advance_op (\<lambda>_. scope) (\<lambda>_. path) m) b)) b
      | _ \<Rightarrow> b)"

datatype approval_event =
    Connect
  | Set_Context nat jsvalue
  | Dispose_Context nat
  | Read_Approvals nat
  | Decide nat jsvalue
  | Session_Dispose nat
  | Client_Rejected nat
  | Server_Asked jsvalue int
  | Lease_Granted nat int
  | Lease_Denied nat
  | Response_Settled nat bool
  | Response_Timeout nat
  | Timer_Fired nat nat
  | Answer_Arrived nat "jsvalue option" "jsstr option"
  | Resume_Task nat
  | Close_Context jsvalue
  | Host_Notified jsvalue int
  | Host_Changed bool int
  | Dispose_Approvals

fun approval_next :: "approval_env \<Rightarrow> approval_broker \<Rightarrow> approval_event \<Rightarrow> approval_broker" where
  "approval_next env b Connect = connect_client env b"
| "approval_next env b (Set_Context s v) = set_context env s v b"
| "approval_next env b (Dispose_Context s) = dispose_context env s b"
| "approval_next env b (Read_Approvals s) = log_effect (Cards_Read s (cards_for s b)) b"
| "approval_next env b (Decide s v) = decide env s v b"
| "approval_next env b (Session_Dispose s) = disconnect env s b"
| "approval_next env b (Client_Rejected s) = disconnect env s b"
| "approval_next env b (Server_Asked v g) = handle_server_request env v g b"
| "approval_next env b (Lease_Granted k g) = lease_granted k g b"
| "approval_next env b (Lease_Denied k) = lease_denied k b"
| "approval_next env b (Response_Settled k ok) = snd (finish_responding k ok b)"
| "approval_next env b (Response_Timeout k) = timeout_responding k b"
| "approval_next env b (Timer_Fired k version) = on_timer env k version b"
| "approval_next env b (Answer_Arrived k scope path) = answer_task env k scope path b"
| "approval_next env b (Resume_Task k) = resume_approval env k b"
| "approval_next env b (Close_Context v) = close_context env v b"
| "approval_next env b (Host_Notified v g) = host_notification env v g b"
| "approval_next env b (Host_Changed is_ready g) = host_state_changed env is_ready g b"
| "approval_next env b Dispose_Approvals = dispose_approvals env b"

definition approval_step ::
    "approval_env \<Rightarrow> approval_broker \<Rightarrow> approval_event \<Rightarrow> approval_broker \<times> approval_effect list" where
  "approval_step env b e =
     (approval_next env b e, drop (length (history b)) (history (approval_next env b e)))"

end
