(* ===== verification/ApprovalFrames.thy ===== *)
theory ApprovalFrames
  imports ApprovalMachine
begin

text \<open>
  What settling leaves alone. Most operations of the approval broker only take entries out of its
  tables and answer them with a decline or a cancel; \<open>hush\<close> is the relation between the states
  before and after such an operation, and every operation that is not an admission, a publication or
  a client's decision is shown to be in it.
\<close>

section \<open>The relation\<close>

fun mild :: "approval_effect \<Rightarrow> bool" where
  "mild (Answered_Request _ _ _ d) = (d = Decline \<or> d = Cancel)"
| "mild _ = True"

definition hush :: "approval_broker \<Rightarrow> approval_broker \<Rightarrow> bool" where
  "hush b b' \<longleftrightarrow>
     approval_tasks b' = approval_tasks b \<and> leases b' = leases b \<and> next_key b' = next_key b
     \<and> next_token b' = next_token b \<and> shut_down b' = shut_down b
     \<and> set (pendings b') \<subseteq> set (pendings b) \<and> set (authorizings b') \<subseteq> set (authorizings b)
     \<and> set (admittings b') \<subseteq> set (admittings b) \<and> set (acquirings b') \<subseteq> set (acquirings b)
     \<and> (\<exists>es. history b' = history b @ es \<and> list_all mild es)"

named_theorems hush_intros \<open>operations that only settle\<close>

lemma hush_refl [hush_intros]: "hush b b"
  by (auto simp: hush_def)

lemma hush_trans: "hush a b \<Longrightarrow> hush b c \<Longrightarrow> hush a c"
  by (fastforce simp: hush_def)

text \<open>What is kept can be read off.\<close>

lemma hush_keeps:
  assumes "hush b b'"
  shows "approval_tasks b' = approval_tasks b" "leases b' = leases b" "next_key b' = next_key b"
    "next_token b' = next_token b" "shut_down b' = shut_down b"
    "set (pendings b') \<subseteq> set (pendings b)" "set (authorizings b') \<subseteq> set (authorizings b)"
    "set (admittings b') \<subseteq> set (admittings b)" "set (acquirings b') \<subseteq> set (acquirings b)"
  using assms by (simp_all add: hush_def)

lemma hush_history: "hush b b' \<Longrightarrow> \<exists>es. history b' = history b @ es \<and> list_all mild es"
  by (simp add: hush_def)

section \<open>Elementary operations\<close>

lemma hush_asked: "hush b b' \<Longrightarrow> hush b (asked b')"
  by (simp add: hush_def asked_def)

lemma hush_log: "mild e \<Longrightarrow> hush b b' \<Longrightarrow> hush b (log_effect e b')"
  by (fastforce simp: hush_def log_effect_def)

lemma hush_fields:
  "hush b b' \<Longrightarrow> hush b (b'\<lparr>timers := t\<rparr>)"
  "hush b b' \<Longrightarrow> hush b (b'\<lparr>next_handle := n\<rparr>)"
  "hush b b' \<Longrightarrow> hush b (b'\<lparr>respondings := r\<rparr>)"
  "hush b b' \<Longrightarrow> hush b (b'\<lparr>outcomes := o'\<rparr>)"
  "hush b b' \<Longrightarrow> hush b (b'\<lparr>records := rs\<rparr>)"
  "hush b b' \<Longrightarrow> hush b (b'\<lparr>records := rs, sessions := ss\<rparr>)"
  "hush b b' \<Longrightarrow> hush b (b'\<lparr>thread_roots := tr\<rparr>)"
  "hush b b' \<Longrightarrow> hush b (b'\<lparr>file_scopes := fs\<rparr>)"
  "hush b b' \<Longrightarrow> hush b (b'\<lparr>thread_roots := tr, file_scopes := fs\<rparr>)"
  by (simp_all add: hush_def)

lemma set_map_delete: "set (map_delete m k) \<subseteq> set m"
  by (auto simp: map_delete_def)

lemma hush_delete:
  "hush b b' \<Longrightarrow> hush b (b'\<lparr>acquirings := map_delete (acquirings b') k\<rparr>)"
  "hush b b' \<Longrightarrow> hush b (b'\<lparr>admittings := map_delete (admittings b') k\<rparr>)"
  "hush b b' \<Longrightarrow> hush b (b'\<lparr>authorizings := map_delete (authorizings b') k\<rparr>)"
  "hush b b' \<Longrightarrow> hush b (b'\<lparr>pendings := map_delete (pendings b') t\<rparr>)"
  unfolding hush_def using set_map_delete by (fastforce dest: subset_trans)+

lemma hush_clear_handle: "hush b b' \<Longrightarrow> hush b (clear_handle h b')"
  by (simp add: clear_handle_def hush_log split: option.split)

lemma hush_release: "hush b b' \<Longrightarrow> hush b (release_lease k b')"
  by (simp add: release_lease_def hush_log)

lemma hush_abort: "hush b b' \<Longrightarrow> hush b (abort_generation g b')"
  by (simp add: abort_generation_def hush_log)

lemma hush_stop_timer: "hush b b' \<Longrightarrow> hush b (stop_timer k b')"
  by (simp add: stop_timer_def hush_clear_handle hush_fields split: option.split)

lemmas hush_steps = hush_asked hush_log hush_fields hush_delete hush_clear_handle hush_release hush_abort hush_stop_timer

section \<open>Settling\<close>

lemma hush_finish_acquiring: "hush b b' \<Longrightarrow> hush b (snd (finish_acquiring k b'))"
  by (simp add: finish_acquiring_def hush_steps)

lemma hush_finish_admission: "hush b b' \<Longrightarrow> hush b (finish_admission k b')"
  by (simp add: finish_admission_def hush_steps)

lemma hush_complete_admission: "hush b b' \<Longrightarrow> hush b (snd (complete_admission k b'))"
  by (simp add: complete_admission_def hush_steps)

lemma hush_finish_responding: "hush b b' \<Longrightarrow> hush b (snd (finish_responding k ok b'))"
  by (simp add: finish_responding_def hush_steps split: option.split)

lemma hush_timeout_responding: "hush b b' \<Longrightarrow> hush b (timeout_responding k b')"
  by (simp add: timeout_responding_def hush_steps hush_finish_responding split: option.split)

lemma hush_answer:
  "d = Decline \<or> d = Cancel \<Longrightarrow> hush b b' \<Longrightarrow> hush b (respond_and_release env k g i d b')"
  by (simp add: respond_and_release_def Let_def hush_steps hush_finish_responding hush_timeout_responding
      split: schedule_answer.split)

lemma hush_settle_authorizing:
  "d = Decline \<or> d = Cancel \<Longrightarrow> hush b b' \<Longrightarrow> hush b (snd (settle_authorizing env k d b'))"
  by (simp add: settle_authorizing_def Let_def hush_steps hush_answer split: option.split)

lemma hush_abandon_authorizing: "hush b b' \<Longrightarrow> hush b (abandon_authorizing k b')"
  by (simp add: abandon_authorizing_def hush_steps)

lemma hush_respond_admission:
  "d = Decline \<or> d = Cancel \<Longrightarrow> hush b b' \<Longrightarrow> hush b (respond_admission env k g i d b')"
  by (simp add: respond_admission_def Let_def hush_answer hush_complete_admission)

text \<open>Settling publishes; the publication is a parameter that has to be in the relation.\<close>

lemma hush_settle_with:
  assumes "\<And>s c. hush b c \<Longrightarrow> hush b (pub s c)" "d = Decline \<or> d = Cancel" "hush b b'"
  shows "hush b (snd (settle_with env pub p d b'))"
  using assms by (simp add: settle_with_def Let_def hush_steps hush_answer)

lemma hush_fold: "(\<And>x c. hush b c \<Longrightarrow> hush b (f x c)) \<Longrightarrow> hush b b' \<Longrightarrow> hush b (fold f xs b')"
  by (induction xs arbitrary: b') simp_all

lemma hush_cancel_all:
  assumes "\<And>s c. hush b c \<Longrightarrow> hush b (pub s c)" "hush b b'"
  shows "hush b (cancel_all env pub ps ks b')"
  unfolding cancel_all_def
  by (intro hush_fold) (simp_all add: hush_settle_authorizing hush_settle_with assms)

lemma hush_disconnect: "hush b b' \<Longrightarrow> hush b (disconnect env s b')"
  by (simp add: disconnect_def Let_def cancel_owned_def hush_cancel_all hush_fields)

lemma hush_show_cards: "hush b b' \<Longrightarrow> hush b (publish_cards env s b')"
  by (simp add: publish_cards_def Let_def hush_steps hush_disconnect)

lemma hush_settle: "d = Decline \<or> d = Cancel \<Longrightarrow> hush b b' \<Longrightarrow> hush b (snd (settle_approval env p d b'))"
  by (simp add: settle_approval_def hush_settle_with hush_show_cards)

lemma hush_cancel: "hush b b' \<Longrightarrow> hush b (cancel_all env (publish_cards env) ps ks b')"
  by (simp add: hush_cancel_all hush_show_cards)

lemma hush_abandon: "hush b b' \<Longrightarrow> hush b (abandon env p b')"
  by (simp add: abandon_def Let_def hush_steps hush_show_cards)

lemma hush_evict: "hush b b' \<Longrightarrow> hush b (evict_clients env ss b')"
  unfolding evict_clients_def by (intro hush_fold) (simp_all add: hush_disconnect)

lemma hush_replace_context: "hush b b' \<Longrightarrow> hush b (replace_context env s c b')"
  by (simp add: replace_context_def Let_def cancel_owned_def hush_cancel hush_show_cards hush_fields)

lemma hush_dispose_context: "hush b b' \<Longrightarrow> hush b (dispose_context env s b')"
  by (simp add: dispose_context_def hush_replace_context)

lemma hush_set_context: "hush b b' \<Longrightarrow> hush b (set_context env s v b')"
  by (simp add: set_context_def hush_dispose_context hush_replace_context split: option.split)

lemma hush_close_context: "hush b b' \<Longrightarrow> hush b (close_context env v b')"
  by (simp add: close_context_def hush_cancel split: option.split)

lemma hush_cancel_flow: "d = Decline \<or> d = Cancel \<Longrightarrow> hush b b' \<Longrightarrow> hush b (cancel_flow env k d b')"
  by (simp add: cancel_flow_def hush_settle_authorizing)

lemma hush_abandon_where: "hush b b' \<Longrightarrow> hush b (abandon_where env P b')"
  unfolding abandon_where_def Let_def
  by (intro hush_fold)
    (auto simp: hush_finish_responding hush_abandon_authorizing hush_abandon hush_finish_admission hush_finish_acquiring)

section \<open>Timers\<close>

lemma hush_settle_timed: "d = Decline \<or> d = Cancel \<Longrightarrow> hush b b' \<Longrightarrow> hush b (settle_timed env k d b')"
  by (simp add: settle_timed_def hush_settle hush_settle_authorizing split: option.split)

lemma hush_put_timer: "hush b b' \<Longrightarrow> hush b (put_timer k t b')"
  by (simp add: put_timer_def hush_fields)

lemma hush_on_timer_once: "hush b b' \<Longrightarrow> hush b (on_timer_once env k v b')"
  by (simp add: on_timer_once_def hush_settle_timed hush_asked split: option.split clock_verdict.split)

lemma hush_schedule_timer:
  assumes "hush b b'" shows "hush b (snd (schedule_timer env k delay b'))"
  using assms
  by (simp add: schedule_timer_def Let_def hush_steps hush_put_timer hush_on_timer_once
      split: option.split schedule_answer.split)

lemma hush_on_timer: "hush b b' \<Longrightarrow> hush b (on_timer env k v b')"
  by (simp add: on_timer_def Let_def hush_settle_timed hush_asked hush_schedule_timer
      split: option.split clock_verdict.split)

section \<open>Host events\<close>

lemma hush_still_authorized: "hush b b' \<Longrightarrow> hush b (snd (still_authorized env k f b'))"
  by (simp add: still_authorized_def hush_asked)

lemma hush_can_acquire: "hush b b' \<Longrightarrow> hush b (snd (can_acquire env g i b'))"
  by (simp add: can_acquire_def hush_asked)

lemma hush_can_respond: "hush b b' \<Longrightarrow> hush b (snd (can_respond env k g i b'))"
  by (simp add: can_respond_def hush_asked)

lemma hush_thread_started: "hush b b' \<Longrightarrow> hush b (thread_started env params g b')"
  by (simp add: thread_started_def hush_fields split: option.split)

lemma hush_changes_announced: "hush b b' \<Longrightarrow> hush b (changes_announced env params g i raw b')"
  by (simp add: changes_announced_def Let_def hush_fields split: option.split)

lemma hush_item_started: "hush b b' \<Longrightarrow> hush b (item_started env params g b')"
  by (simp add: item_started_def hush_changes_announced split: option.split)

lemma hush_item_completed: "hush b b' \<Longrightarrow> hush b (item_completed env params g b')"
  by (simp add: item_completed_def hush_fields split: option.split)

lemma hush_turn_completed: "hush b b' \<Longrightarrow> hush b (turn_completed env params g b')"
  by (simp add: turn_completed_def hush_fields hush_close_context split: option.split)

lemma hush_notification:
  assumes "hush b b'" shows "hush b (host_notification env v g b')"
  unfolding host_notification_def Let_def
  by (simp only: assms hush_thread_started hush_item_started hush_changes_announced hush_item_completed
      hush_turn_completed split: option.split if_split) simp

lemma hush_host_state: "hush b b' \<Longrightarrow> hush b (host_state_changed env r g b')"
  by (simp add: host_state_changed_def hush_abandon_where hush_fields)

end
