(* ===== verification/ApprovalLeases.thy ===== *)
theory ApprovalLeases
  imports ApprovalFrames "HOL-Library.Multiset"
begin

text \<open>
  The accounts of the approval broker. Every lease the host grants is in exactly one place: held by a
  suspended handler, by an entry of one of the tables, or released; an operation that has taken a
  lease out of its place holds it in the hand \<open>H\<close>, and in the same way \<open>c\<close> slots of the capacity.
  From this follow the capacity bound, that no lease is lost or released twice, and that no request
  is answered twice.
\<close>

section \<open>Tables as multisets\<close>

lemma mset_map_delete:
  "map_ok m \<Longrightarrow> map_get m k = Some v \<Longrightarrow> mset m = add_mset (k, v) (mset (map_delete m k))"
proof (induction m)
  case Nil
  then show ?case by (simp add: map_get_def)
next
  case (Cons p m)
  show ?case
  proof (cases "fst p = k")
    case True
    with Cons.prems have "k \<notin> fst ` set m" "p = (k, v)"
      by (auto simp: map_ok_def map_keys_def map_get_def)
    then have "map_delete m k = m" by (force simp: map_delete_def intro!: filter_True)
    with \<open>p = (k, v)\<close> show ?thesis by (simp add: map_delete_def)
  next
    case False
    with Cons have "mset m = add_mset (k, v) (mset (map_delete m k))"
      by (cases p) (auto simp: map_ok_def map_keys_def map_get_def)
    with False show ?thesis by (simp add: map_delete_def)
  qed
qed

lemma map_delete_absent: "\<not> map_has m k \<Longrightarrow> map_delete m k = m"
  by (force simp: map_delete_def map_has_def intro!: filter_True)

lemma mset_map_set: "map_ok m \<Longrightarrow> mset (map_set m k v) = add_mset (k, v) (mset (map_delete m k))"
proof (cases "map_has m k")
  case False
  then show ?thesis by (simp add: map_set_def map_delete_absent)
next
  case True
  have "map_ok m \<Longrightarrow> map_has m k \<Longrightarrow>
    mset (map (\<lambda>p. if fst p = k then (k, v) else p) m) = add_mset (k, v) (mset (map_delete m k))"
  proof (induction m)
    case Nil
    then show ?case by (simp add: map_has_def)
  next
    case (Cons p m)
    show ?case
    proof (cases "fst p = k")
      case True
      with Cons.prems have "k \<notin> fst ` set m" by (auto simp: map_ok_def map_keys_def)
      then have "map_delete m k = m" "map (\<lambda>p. if fst p = k then (k, v) else p) m = m"
        by (force simp: map_delete_def intro!: filter_True map_idI)+
      with True show ?thesis by (simp add: map_delete_def)
    next
      case False
      with Cons have "mset (map (\<lambda>p. if fst p = k then (k, v) else p) m) = add_mset (k, v) (mset (map_delete m k))"
        by (auto simp: map_ok_def map_keys_def map_has_def)
      with False show ?thesis by (simp add: map_delete_def)
    qed
  qed
  moreover assume "map_ok m"
  ultimately show ?thesis using True by (simp add: map_set_def)
qed

lemma mset_lease_delete:
  "map_ok m \<Longrightarrow> map_has m k \<Longrightarrow> mset (map fst m) = add_mset k (mset (map fst (map_delete m k)))"
  by (drule mset_map_delete [where v = "the (map_get m k)" and k = k]) (auto simp: map_has_get)

lemma length_map_delete: "map_ok m \<Longrightarrow> map_has m k \<Longrightarrow> length m = Suc (length (map_delete m k))"
  by (drule mset_lease_delete, assumption) (metis length_map size_add_mset size_mset)

lemma length_map_delete_le: "length (map_delete m k) \<le> length m"
  by (simp add: map_delete_def)

section \<open>The accounts\<close>

fun holds_lease :: "approval_task \<Rightarrow> bool" where
  "holds_lease (Lease_Held _ _) = True"
| "holds_lease (Awaiting_Capacity _ _ _) = True"
| "holds_lease _ = False"

fun released_lease :: "approval_effect \<Rightarrow> nat option" where
  "released_lease (Lease_Released k) = Some k"
| "released_lease _ = None"

fun answered_request :: "approval_effect \<Rightarrow> nat option" where
  "answered_request (Answered_Request k _ _ _) = Some k"
| "answered_request _ = None"

definition released :: "approval_broker \<Rightarrow> nat list" where
  "released b = List.map_filter released_lease (history b)"

definition answered :: "approval_broker \<Rightarrow> nat list" where
  "answered b = List.map_filter answered_request (history b)"

definition task_leases :: "(nat, approval_task) jsmap \<Rightarrow> nat multiset" where
  "task_leases m = image_mset fst (filter_mset (\<lambda>p. holds_lease (snd p)) (mset m))"

definition held :: "approval_broker \<Rightarrow> nat multiset" where
  "held b =
     task_leases (approval_tasks b) + mset (map fst (admittings b)) + mset (map fst (authorizings b))
     + image_mset (\<lambda>p. pending_key (snd p)) (mset (pendings b)) + mset (map fst (respondings b))"

definition granted :: "approval_broker \<Rightarrow> nat list" where
  "granted b = map fst (leases b)"

definition accounts :: "nat \<Rightarrow> nat multiset \<Rightarrow> nat \<Rightarrow> approval_broker \<Rightarrow> bool" where
  "accounts n H c b \<longleftrightarrow>
     distinct (granted b) \<and> held b + H + mset (released b) = mset (granted b)
     \<and> map_ok (pendings b) \<and> (\<forall>t p. (t, p) \<in> set (pendings b) \<longrightarrow> pending_token p = t)
     \<and> map_ok (acquirings b) \<and> map_ok (approval_tasks b)
     \<and> distinct (answered b) \<and> set (answered b) \<subseteq> fst ` set (respondings b) \<union> set (released b)
     \<and> active_approvals b + c \<le> n"

lemma distinct_submset: "distinct ys \<Longrightarrow> mset xs \<subseteq># mset ys \<Longrightarrow> distinct xs"
proof -
  assume d: "distinct ys" and s: "mset xs \<subseteq># mset ys"
  have "count (mset xs) a = (if a \<in> set xs then 1 else 0)" for a
  proof (cases "a \<in> set xs")
    case True
    then have "0 < count (mset xs) a" by (simp add: count_greater_zero_iff)
    moreover have "count (mset xs) a \<le> count (mset ys) a" using s by (rule mset_subset_eq_count)
    moreover have "count (mset ys) a \<le> 1" using d by (simp add: distinct_count_atmost_1)
    ultimately have "count (mset xs) a = 1" by linarith
    with True show ?thesis by simp
  qed (simp add: count_eq_zero_iff)
  then show ?thesis by (simp add: distinct_count_atmost_1)
qed

text \<open>Nothing is in two places.\<close>

lemma accounts_distinct:
  assumes "accounts n H c b"
  shows "map_ok (admittings b)" "map_ok (authorizings b)" "map_ok (respondings b)"
    "distinct (map (\<lambda>p. pending_key (snd p)) (pendings b))" "distinct (released b)"
proof -
  have eq: "held b + H + mset (released b) = mset (granted b)" and d: "distinct (granted b)"
    using assms by (simp_all add: accounts_def)
  have part: "mset xs \<subseteq># held b + H + mset (released b) \<Longrightarrow> distinct xs" for xs
    using d distinct_submset [of "granted b" xs] by (simp add: eq)
  show "map_ok (admittings b)" "map_ok (authorizings b)" "map_ok (respondings b)"
    "distinct (map (\<lambda>p. pending_key (snd p)) (pendings b))" "distinct (released b)"
    unfolding map_ok_def map_keys_def
    by (rule part, simp add: held_def ac_simps)+
qed

lemma hand_elsewhere:
  assumes "accounts n (add_mset k H) c b"
  shows "k \<notin># held b" "k \<notin># H" "k \<notin> set (released b)" "k \<in> set (granted b)" "k \<notin> set (answered b)"
    "\<not> map_has (admittings b) k" "\<not> map_has (authorizings b) k" "\<not> map_has (respondings b) k"
proof -
  have eq: "held b + add_mset k H + mset (released b) = mset (granted b)" and d: "distinct (granted b)"
    using assms by (simp_all add: accounts_def)
  have "count (mset (granted b)) k \<le> 1" using d by (simp add: distinct_count_atmost_1)
  then have "count (held b) k + count H k + count (mset (released b)) k = 0" by (simp flip: eq)
  then have zero: "count (held b) k = 0" "count H k = 0" "count (mset (released b)) k = 0" by simp_all
  show no: "k \<notin># held b" "k \<notin># H" "k \<notin> set (released b)"
    using zero(1,2) by (simp_all add: not_in_iff) (use zero(3) in \<open>simp add: count_eq_zero_iff\<close>)
  have "k \<in># mset (granted b)" by (simp flip: eq)
  then show "k \<in> set (granted b)" by simp
  show free: "\<not> map_has (admittings b) k" "\<not> map_has (authorizings b) k" "\<not> map_has (respondings b) k"
    using no(1) by (auto simp: held_def map_has_def)
  with no(3) show "k \<notin> set (answered b)" using assms by (auto simp: accounts_def map_has_def)
qed

lemma accounts_weaken: "accounts n H (Suc c) b \<Longrightarrow> accounts n H c b"
  by (simp add: accounts_def)

section \<open>Operations that touch no account\<close>

definition same_accounts :: "approval_broker \<Rightarrow> approval_broker \<Rightarrow> bool" where
  "same_accounts b b' \<longleftrightarrow>
     leases b' = leases b \<and> acquirings b' = acquirings b \<and> admittings b' = admittings b
     \<and> authorizings b' = authorizings b \<and> pendings b' = pendings b \<and> respondings b' = respondings b
     \<and> approval_tasks b' = approval_tasks b \<and> released b' = released b \<and> answered b' = answered b"

lemma accounts_same: "same_accounts b b' \<Longrightarrow> accounts n H c b \<Longrightarrow> accounts n H c b'"
  by (simp add: same_accounts_def accounts_def held_def granted_def active_approvals_def)

lemma same_accounts_trans: "same_accounts a b \<Longrightarrow> same_accounts b c \<Longrightarrow> same_accounts a c"
  by (simp add: same_accounts_def)

lemma released_log [simp]:
  "released (log_effect e b) = released b @ (case released_lease e of None \<Rightarrow> [] | Some k \<Rightarrow> [k])"
  "answered (log_effect e b) = answered b @ (case answered_request e of None \<Rightarrow> [] | Some k \<Rightarrow> [k])"
  by (auto simp: released_def answered_def log_effect_def List.map_filter_def split: option.split)

lemma same_accounts_simps [simp]:
  "same_accounts b b" "same_accounts b (asked b)"
  "released_lease e = None \<Longrightarrow> answered_request e = None \<Longrightarrow> same_accounts b (log_effect e b)"
  "same_accounts b (b\<lparr>timers := t\<rparr>)" "same_accounts b (b\<lparr>next_handle := i\<rparr>)"
  "same_accounts b (b\<lparr>outcomes := q\<rparr>)" "same_accounts b (b\<lparr>next_key := i\<rparr>)" "same_accounts b (b\<lparr>next_token := i\<rparr>)"
  "same_accounts b (b\<lparr>records := rs, sessions := ss\<rparr>)" "same_accounts b (b\<lparr>records := rs\<rparr>)"
  "same_accounts b (b\<lparr>sessions := ss, thread_roots := tr, file_scopes := fs\<rparr>)"
  "same_accounts b (b\<lparr>next_session := ns, records := rs, sessions := ss\<rparr>)"
  "same_accounts b (b\<lparr>thread_roots := tr\<rparr>)" "same_accounts b (b\<lparr>file_scopes := fs\<rparr>)"
  "same_accounts b (b\<lparr>thread_roots := tr, file_scopes := fs\<rparr>)" "same_accounts b (b\<lparr>shut_down := f\<rparr>)"
  by (simp_all add: same_accounts_def asked_def) (simp_all add: log_effect_def released_def answered_def)

lemma same_accounts_ops [simp]:
  "same_accounts b (clear_handle h b)" "same_accounts b (abort_generation g b)" "same_accounts b (put_timer k t b)"
  by (simp_all add: clear_handle_def abort_generation_def put_timer_def split: option.split)

lemma same_accounts_stop_timer [simp]: "same_accounts b (stop_timer k b)"
proof -
  have "same_accounts b (clear_handle h (b\<lparr>timers := t\<rparr>))" for h t
    by (rule same_accounts_trans [of _ "b\<lparr>timers := t\<rparr>"]) simp_all
  then show ?thesis by (simp add: stop_timer_def split: option.split)
qed

named_theorems account_intros \<open>operations keep the accounts\<close>

lemma accounts_simple [account_intros]:
  assumes "accounts n H c b"
  shows "accounts n H c (asked b)" "accounts n H c (clear_handle h b)" "accounts n H c (abort_generation g b)"
    "accounts n H c (put_timer k t b)" "accounts n H c (stop_timer k b)"
    "accounts n H c (b\<lparr>timers := t'\<rparr>)" "accounts n H c (b\<lparr>next_handle := i\<rparr>)"
    "accounts n H c (b\<lparr>outcomes := q\<rparr>)" "accounts n H c (b\<lparr>next_key := i\<rparr>)" "accounts n H c (b\<lparr>next_token := i\<rparr>)"
    "accounts n H c (b\<lparr>records := rs, sessions := ss\<rparr>)" "accounts n H c (b\<lparr>records := rs\<rparr>)"
    "accounts n H c (b\<lparr>sessions := ss, thread_roots := tr, file_scopes := fs\<rparr>)"
    "accounts n H c (b\<lparr>next_session := ns, records := rs, sessions := ss\<rparr>)"
    "accounts n H c (b\<lparr>thread_roots := tr\<rparr>)" "accounts n H c (b\<lparr>file_scopes := fs\<rparr>)"
    "accounts n H c (b\<lparr>thread_roots := tr, file_scopes := fs\<rparr>)" "accounts n H c (b\<lparr>shut_down := f\<rparr>)"
  by (rule accounts_same [OF _ assms], simp)+

lemma accounts_log:
  "released_lease e = None \<Longrightarrow> answered_request e = None \<Longrightarrow> accounts n H c b \<Longrightarrow> accounts n H c (log_effect e b)"
  by (rule accounts_same [of b]) simp_all

section \<open>Taking and placing\<close>

lemmas take_simps = mset_lease_delete length_map_delete

lemma history_fields [simp]:
  "released (b\<lparr>acquirings := x1\<rparr>) = released b" "answered (b\<lparr>acquirings := x1\<rparr>) = answered b"
  "released (b\<lparr>admittings := x2\<rparr>) = released b" "answered (b\<lparr>admittings := x2\<rparr>) = answered b"
  "released (b\<lparr>authorizings := x3\<rparr>) = released b" "answered (b\<lparr>authorizings := x3\<rparr>) = answered b"
  "released (b\<lparr>pendings := x4\<rparr>) = released b" "answered (b\<lparr>pendings := x4\<rparr>) = answered b"
  "released (b\<lparr>respondings := x5\<rparr>) = released b" "answered (b\<lparr>respondings := x5\<rparr>) = answered b"
  "released (b\<lparr>approval_tasks := x6\<rparr>) = released b" "answered (b\<lparr>approval_tasks := x6\<rparr>) = answered b"
  "released (b\<lparr>leases := x7\<rparr>) = released b" "answered (b\<lparr>leases := x7\<rparr>) = answered b"
  "released (b\<lparr>outcomes := x8\<rparr>) = released b" "answered (b\<lparr>outcomes := x8\<rparr>) = answered b"
  by (simp_all add: released_def answered_def)

lemma released_ops [simp]:
  "released (release_lease k b) = released b @ [k]" "answered (release_lease k b) = answered b"
  "released (clear_handle h b) = released b" "answered (clear_handle h b) = answered b"
  by (simp_all add: release_lease_def clear_handle_def split: option.split)

lemma log_fields [simp]:
  "leases (log_effect e b) = leases b" "acquirings (log_effect e b) = acquirings b"
  "admittings (log_effect e b) = admittings b" "authorizings (log_effect e b) = authorizings b"
  "pendings (log_effect e b) = pendings b" "respondings (log_effect e b) = respondings b"
  "approval_tasks (log_effect e b) = approval_tasks b"
  by (simp_all add: log_effect_def)

lemmas account_defs = accounts_def held_def granted_def active_approvals_def

lemma accounts_release: "accounts n (add_mset k H) c b \<Longrightarrow> accounts n H c (release_lease k b)"
proof -
  assume a: "accounts n (add_mset k H) c b"
  have "released (release_lease k b) = released b @ [k]" "answered (release_lease k b) = answered b" by simp_all
  then show ?thesis using a by (auto simp: account_defs release_lease_def)
qed

lemma accounts_take_admission:
  assumes a: "accounts n H c b" and h: "map_has (admittings b) k"
  shows "accounts n (add_mset k H) (Suc c) (b\<lparr>admittings := map_delete (admittings b) k\<rparr>)"
  using a take_simps [OF accounts_distinct(1) [OF a] h]
  by (simp add: account_defs)

lemma accounts_take_authorizing:
  assumes a: "accounts n H c b" and h: "map_has (authorizings b) k"
  shows "accounts n (add_mset k H) (Suc c) (b\<lparr>authorizings := map_delete (authorizings b) k\<rparr>)"
  using a take_simps [OF accounts_distinct(2) [OF a] h]
  by (simp add: account_defs)

lemma accounts_take_acquiring:
  assumes a: "accounts n H c b" and h: "map_has (acquirings b) k"
  shows "accounts n H (Suc c) (b\<lparr>acquirings := map_delete (acquirings b) k\<rparr>)"
proof -
  have ok: "map_ok (acquirings b)" using a by (simp add: accounts_def)
  show ?thesis using a take_simps(2) [OF ok h] jsmap.ok_remove [OF ok, of k]
    by (simp add: account_defs)
qed

lemma accounts_take_pending:
  assumes a: "accounts n H c b" and h: "is_pending p b"
  shows "accounts n (add_mset (pending_key p) H) (Suc c) (b\<lparr>pendings := map_delete (pendings b) (pending_token p)\<rparr>)"
proof -
  have ok: "map_ok (pendings b)" using a by (simp add: accounts_def)
  obtain q where q: "map_get (pendings b) (pending_token p) = Some q" "pending_key q = pending_key p"
    using h by (auto simp: is_pending_def split: option.splits)
  have "map_has (pendings b) (pending_token p)" using q by (simp add: map_has_get)
  note len = length_map_delete [OF ok this]
  show ?thesis
    using a mset_map_delete [OF ok q(1)] q(2) len jsmap.ok_remove [OF ok, of "pending_token p"] set_map_delete [of "pendings b" "pending_token p"]
    by (auto simp: account_defs)
qed

lemma accounts_finish_responding [account_intros]:
  assumes a: "accounts n H c b"
  shows "accounts n H c (snd (finish_responding k ok b))"
proof (cases "map_get (respondings b) k")
  case None
  with a show ?thesis by (simp add: finish_responding_def)
next
  case (Some r)
  then have h: "map_has (respondings b) k" by (simp add: map_has_get)
  note ok = accounts_distinct(3) [OF a]
  let ?b = "release_lease k (b\<lparr>respondings := map_delete (respondings b) k\<rparr>)"
  have "fst ` set (respondings b) \<subseteq> insert k (fst ` set (map_delete (respondings b) k))"
    by (auto simp: map_delete_def)
  then have sub: "set (answered b) \<subseteq> insert k (fst ` set (map_delete (respondings b) k) \<union> set (released b))"
    using a unfolding accounts_def by blast
  with a take_simps [OF ok h] have "accounts n H c ?b"
    by (simp add: account_defs release_lease_def)
  moreover have "same_accounts ?b ((release_lease k (clear_handle (responding_timer r)
      (b\<lparr>respondings := map_delete (respondings b) k\<rparr>)))\<lparr>outcomes := q\<rparr>)" for q
    by (cases "responding_timer r")
      (simp_all add: same_accounts_def clear_handle_def release_lease_def)
  ultimately show ?thesis using Some by (auto simp: finish_responding_def intro: accounts_same)
qed


lemma map_set_fresh: "\<not> map_has m k \<Longrightarrow> map_set m k v = m @ [(k, v)]"
  by (simp add: map_set_def)

lemma accounts_put_responding:
  assumes a: "accounts n (add_mset k H) (Suc c) b"
  shows "accounts n H c (b\<lparr>respondings := map_set (respondings b) k x\<rparr>)"
  using a map_set_fresh [OF hand_elsewhere(8) [OF a]] by (auto simp: account_defs)

lemma accounts_put_authorizing:
  assumes a: "accounts n (add_mset k H) (Suc c) b"
  shows "accounts n H c (b\<lparr>authorizings := map_set (authorizings b) k x\<rparr>)"
  using a map_set_fresh [OF hand_elsewhere(7) [OF a]] by (simp add: account_defs)

lemma accounts_put_admitting:
  assumes a: "accounts n (add_mset k H) (Suc c) b"
  shows "accounts n H c (b\<lparr>admittings := map_set (admittings b) k x\<rparr>)"
  using a map_set_fresh [OF hand_elsewhere(6) [OF a]] by (simp add: account_defs)

lemma accounts_put_acquiring:
  assumes a: "accounts n H (Suc c) b" and h: "\<not> map_has (acquirings b) k"
  shows "accounts n H c (b\<lparr>acquirings := map_set (acquirings b) k x\<rparr>)"
  using a jsmap.ok_put [of "acquirings b" k x] by (simp add: account_defs map_set_fresh [OF h])

lemma accounts_put_pending:
  assumes a: "accounts n (add_mset (pending_key p) H) (Suc c) b" and h: "\<not> map_has (pendings b) (pending_token p)"
  shows "accounts n H c (b\<lparr>pendings := map_set (pendings b) (pending_token p) p\<rparr>)"
  using a jsmap.ok_put [of "pendings b" "pending_token p" p] by (auto simp: account_defs map_set_fresh [OF h])

lemma accounts_change_responding:
  assumes a: "accounts n H c b" and h: "map_has (respondings b) k"
  shows "accounts n H c (b\<lparr>respondings := map_set (respondings b) k x\<rparr>)"
proof -
  have keys: "map fst (map_set (respondings b) k x) = map fst (respondings b)"
    using h jsmap.keys_put [of "respondings b" k x] by (simp add: map_has_keys) (simp add: map_keys_def)
  have "mset (map fst (map_set (respondings b) k x)) = mset (map fst (respondings b))" by (simp only: keys)
  moreover have "length (map_set (respondings b) k x) = length (respondings b)"
    using arg_cong [OF keys, of length] by simp
  moreover have "fst ` set (map_set (respondings b) k x) = fst ` set (respondings b)"
    using arg_cong [OF keys, of set] by simp
  ultimately show ?thesis using a by (simp add: account_defs)
qed

lemma accounts_answer:
  assumes a: "accounts n H c b" and h: "map_has (respondings b) k" "k \<notin> set (answered b)"
  shows "accounts n H c (log_effect (Answered_Request k g i d) b)"
  using a h by (simp add: account_defs map_has_def)

section \<open>Settling\<close>

lemma accounts_finish_acquiring [account_intros]:
  "accounts n H c b \<Longrightarrow> accounts n H c (snd (finish_acquiring k b))"
  by (simp add: finish_acquiring_def accounts_weaken [OF accounts_take_acquiring])

lemma accounts_finish_admission [account_intros]:
  "accounts n H c b \<Longrightarrow> accounts n H c (finish_admission k b)"
  by (simp add: finish_admission_def accounts_weaken [OF accounts_release [OF accounts_take_admission]])

lemma accounts_complete_admission:
  "accounts n H c b \<Longrightarrow> fst (complete_admission k b) \<Longrightarrow>
   accounts n (add_mset k H) (Suc c) (snd (complete_admission k b))"
  by (simp add: complete_admission_def accounts_take_admission split: if_splits)

lemma accounts_timeout_responding [account_intros]:
  "accounts n H c b \<Longrightarrow> accounts n H c (timeout_responding k b)"
  by (simp add: timeout_responding_def account_intros split: option.split)

lemma answered_simps [simp]: "answered (asked b) = answered b" "answered (b\<lparr>next_handle := h\<rparr>) = answered b"
  by (simp_all add: answered_def asked_def)

lemma asked_fields [simp]: "respondings (asked b) = respondings b" "next_handle (asked b) = next_handle b"
  "pendings (asked b) = pendings b" "authorizings (asked b) = authorizings b" "approval_tasks (asked b) = approval_tasks b"
  "acquirings (asked b) = acquirings b" "admittings (asked b) = admittings b" "leases (asked b) = leases b"
  "next_key (asked b) = next_key b" "next_token (asked b) = next_token b"
  by (simp_all add: asked_def)

lemma accounts_respond:
  assumes a: "accounts n (add_mset k H) (Suc c) b"
  shows "accounts n H c (respond_and_release env k g i d b)"
proof -
  let ?x = "\<lparr>responding_generation = g, responding_timer = None\<rparr>"
  let ?b1 = "b\<lparr>respondings := map_set (respondings b) k ?x\<rparr>"
  have b1: "accounts n H c ?b1" using a by (rule accounts_put_responding)
  have new: "k \<notin> set (answered ?b1)" using hand_elsewhere(5) [OF a] by simp
  show ?thesis
  proof (cases "env_schedule env (questions ?b1)")
    case Schedule_Fails
    then show ?thesis using b1 by (simp add: respond_and_release_def account_intros)
  next
    case (Scheduled at_once)
    let ?h = "next_handle ?b1"
    let ?b2 = "log_effect (Timer_Set ?h (opt_response_timeout (env_options env))) (asked (?b1\<lparr>next_handle := ?h + 1\<rparr>))"
    have b2: "accounts n H c ?b2" using b1 by (intro accounts_log account_intros) simp_all
    show ?thesis
    proof (cases at_once)
      case True
      with Scheduled b2 show ?thesis by (simp add: respond_and_release_def Let_def account_intros)
    next
      case False
      let ?b3 = "?b2\<lparr>respondings := map_set (respondings ?b2) k \<lparr>responding_generation = g, responding_timer = Some ?h\<rparr>\<rparr>"
      have b3: "accounts n H c ?b3" using b2 by (rule accounts_change_responding) simp
      have "accounts n H c (log_effect (Answered_Request k g i d) ?b3)"
        using b3 by (rule accounts_answer) (use new in simp_all)
      then have "accounts n H c (asked (log_effect (Answered_Request k g i d) ?b3))" by (rule account_intros)
      with Scheduled False show ?thesis by (simp add: respond_and_release_def Let_def account_intros)
    qed
  qed
qed

lemma accounts_settle_authorizing [account_intros]:
  assumes "accounts n H c b" shows "accounts n H c (snd (settle_authorizing env k d b))"
proof (cases "map_get (authorizings b) k")
  case None
  with assms show ?thesis by (simp add: settle_authorizing_def)
next
  case (Some x)
  let ?b = "asked (stop_timer k (b\<lparr>authorizings := map_delete (authorizings b) k\<rparr>))"
  have "accounts n (add_mset k H) (Suc c) ?b"
    using assms Some by (intro account_intros accounts_take_authorizing) (simp_all add: map_has_get)
  with Some show ?thesis
    by (auto simp: settle_authorizing_def Let_def intro: accounts_respond accounts_weaken [OF accounts_release])
qed

lemma accounts_abandon_authorizing [account_intros]:
  "accounts n H c b \<Longrightarrow> accounts n H c (abandon_authorizing k b)"
  by (simp add: abandon_authorizing_def
      accounts_weaken [OF accounts_release [OF accounts_simple(5) [OF accounts_take_authorizing]]])

lemma accounts_respond_admission [account_intros]:
  assumes "accounts n H c b" shows "accounts n H c (respond_admission env k g i d b)"
  using assms accounts_complete_admission [OF assms, of k]
  by (auto simp: respond_admission_def Let_def intro: accounts_respond) (simp add: complete_admission_def split: if_splits)

lemma accounts_settle_with:
  assumes pub: "\<And>H c s b. accounts n H c b \<Longrightarrow> accounts n H c (pub s b)" and a: "accounts n H c b"
  shows "accounts n H c (snd (settle_with env pub p d b))"
proof (cases "is_pending p b")
  case True
  then have "accounts n (add_mset (pending_key p) H) (Suc c)
      (stop_timer (pending_key p) (b\<lparr>pendings := map_delete (pendings b) (pending_token p)\<rparr>))"
    using a by (intro account_intros accounts_take_pending)
  with True show ?thesis by (simp add: settle_with_def Let_def accounts_respond pub)
qed (use a in \<open>simp add: settle_with_def\<close>)

lemma accounts_fold:
  "(\<And>x b. accounts n H c b \<Longrightarrow> accounts n H c (f x b)) \<Longrightarrow> accounts n H c b \<Longrightarrow> accounts n H c (fold f xs b)"
  by (induction xs arbitrary: b) simp_all

lemma accounts_cancel_all:
  assumes "\<And>H c s b. accounts n H c b \<Longrightarrow> accounts n H c (pub s b)" "accounts n H c b"
  shows "accounts n H c (cancel_all env pub ps ks b)"
  unfolding cancel_all_def
  by (intro accounts_fold account_intros accounts_settle_with assms) assumption+

lemma accounts_disconnect [account_intros]: "accounts n H c b \<Longrightarrow> accounts n H c (disconnect env s b)"
  by (simp add: disconnect_def Let_def cancel_owned_def accounts_cancel_all account_intros)

lemma accounts_publish [account_intros]: "accounts n H c b \<Longrightarrow> accounts n H c (publish_cards env s b)"
  by (simp add: publish_cards_def Let_def account_intros accounts_log)

lemma accounts_settle [account_intros]: "accounts n H c b \<Longrightarrow> accounts n H c (snd (settle_approval env p d b))"
  by (simp add: settle_approval_def accounts_settle_with accounts_publish)

lemma accounts_cancel [account_intros]:
  "accounts n H c b \<Longrightarrow> accounts n H c (cancel_all env (publish_cards env) ps ks b)"
  by (simp add: accounts_cancel_all accounts_publish)

lemma accounts_abandon [account_intros]:
  assumes a: "accounts n H c b" shows "accounts n H c (abandon env p b)"
proof (cases "is_pending p b")
  case True
  let ?b = "stop_timer (pending_key p) (b\<lparr>pendings := map_delete (pendings b) (pending_token p)\<rparr>)"
  have b: "accounts n (add_mset (pending_key p) H) (Suc c) ?b"
    using True a by (intro account_intros accounts_take_pending)
  then have "accounts n (add_mset (pending_key p) H) (Suc c) (publish_cards env s ?b)" for s
    by (rule accounts_publish)
  with True b show ?thesis
    by (simp add: abandon_def Let_def accounts_weaken [OF accounts_release])
qed (use a in \<open>simp add: abandon_def\<close>)

lemma accounts_evict [account_intros]: "accounts n H c b \<Longrightarrow> accounts n H c (evict_clients env ss b)"
  unfolding evict_clients_def by (rule accounts_fold) (simp_all add: account_intros)

lemma accounts_replace_context [account_intros]: "accounts n H c b \<Longrightarrow> accounts n H c (replace_context env s x b)"
  by (simp add: replace_context_def Let_def cancel_owned_def account_intros)

lemma accounts_dispose_context [account_intros]: "accounts n H c b \<Longrightarrow> accounts n H c (dispose_context env s b)"
  by (simp add: dispose_context_def account_intros)

lemma accounts_set_context [account_intros]: "accounts n H c b \<Longrightarrow> accounts n H c (set_context env s v b)"
  by (simp add: set_context_def account_intros split: option.split)

lemma accounts_close_context [account_intros]: "accounts n H c b \<Longrightarrow> accounts n H c (close_context env v b)"
  by (simp add: close_context_def account_intros split: option.split)

lemma accounts_cancel_flow [account_intros]: "accounts n H c b \<Longrightarrow> accounts n H c (cancel_flow env k d b)"
  by (simp add: cancel_flow_def account_intros)

lemma accounts_abandon_where [account_intros]:
  assumes "accounts n H c b" shows "accounts n H c (abandon_where env P b)"
  unfolding abandon_where_def Let_def
  by (intro accounts_fold assms) (auto intro: account_intros)

lemma accounts_settle_timed [account_intros]: "accounts n H c b \<Longrightarrow> accounts n H c (settle_timed env k d b)"
  by (simp add: settle_timed_def account_intros split: option.split)

lemma accounts_on_timer_once [account_intros]: "accounts n H c b \<Longrightarrow> accounts n H c (on_timer_once env k v b)"
  by (simp add: on_timer_once_def account_intros split: option.split)

lemma accounts_schedule_timer [account_intros]:
  assumes "accounts n H c b" shows "accounts n H c (snd (schedule_timer env k delay b))"
  using assms
  by (simp add: schedule_timer_def Let_def account_intros accounts_log split: option.split schedule_answer.split)

lemma accounts_on_timer [account_intros]: "accounts n H c b \<Longrightarrow> accounts n H c (on_timer env k v b)"
  by (simp add: on_timer_def Let_def account_intros split: option.split clock_verdict.split)

lemma accounts_still_authorized [account_intros]: "accounts n H c b \<Longrightarrow> accounts n H c (snd (still_authorized env k f b))"
  by (simp add: still_authorized_def account_intros)

lemma accounts_can [account_intros]:
  "accounts n H c b \<Longrightarrow> accounts n H c (snd (can_acquire env g i b))"
  "accounts n H c b \<Longrightarrow> accounts n H c (snd (can_respond env k g i b))"
  by (simp_all add: can_acquire_def can_respond_def account_intros)

lemma accounts_thread_started: "accounts n H c b \<Longrightarrow> accounts n H c (thread_started env params g b)"
  by (simp add: thread_started_def account_intros split: option.split)

lemma accounts_changes_announced: "accounts n H c b \<Longrightarrow> accounts n H c (changes_announced env params g i raw b)"
  by (simp add: changes_announced_def Let_def account_intros split: option.split)

lemma accounts_item_started: "accounts n H c b \<Longrightarrow> accounts n H c (item_started env params g b)"
  by (simp add: item_started_def accounts_changes_announced split: option.split)

lemma accounts_item_completed: "accounts n H c b \<Longrightarrow> accounts n H c (item_completed env params g b)"
  by (simp add: item_completed_def account_intros split: option.split)

lemma accounts_turn_completed: "accounts n H c b \<Longrightarrow> accounts n H c (turn_completed env params g b)"
  by (simp add: turn_completed_def account_intros split: option.split)

lemma accounts_notification [account_intros]:
  assumes "accounts n H c b" shows "accounts n H c (host_notification env v g b)"
  unfolding host_notification_def Let_def
  by (simp only: assms accounts_thread_started accounts_item_started accounts_changes_announced
      accounts_item_completed accounts_turn_completed split: option.split if_split) simp

lemma accounts_host_state [account_intros]: "accounts n H c b \<Longrightarrow> accounts n H c (host_state_changed env r g b)"
  by (simp add: host_state_changed_def account_intros)

end
