(* ===== verification/ApprovalInvariant.thy ===== *)
theory ApprovalInvariant
  imports ApprovalLeases
begin

text \<open>
  The accounts of theory \<open>ApprovalLeases\<close> in every run of the approval broker: the tasks and the numbers
  handed out are added to the invariant, every step keeps it, and the theorems on whole runs follow
  by the locale \<open>stateful\<close>.
\<close>

section \<open>The invariant\<close>

definition used_keys :: "approval_broker \<Rightarrow> nat set" where
  "used_keys b = fst ` set (approval_tasks b) \<union> fst ` set (leases b) \<union> fst ` set (acquirings b)"

definition lease_waiters :: "approval_broker \<Rightarrow> nat set" where
  "lease_waiters b = {k. \<exists>e g. (k, Awaiting_Host_Lease e g) \<in> set (approval_tasks b)}"

definition keys_ok :: "approval_broker \<Rightarrow> bool" where
  "keys_ok b \<longleftrightarrow> (\<forall>k \<in> used_keys b. k < next_key b) \<and> lease_waiters b \<inter> fst ` set (leases b) = {}"

definition drafts :: "approval_broker \<Rightarrow> (nat \<times> pending_approval) set" where
  "drafts b = {(k, p). \<exists>f m. (k, Resolving f (Publishing p) m) \<in> set (approval_tasks b)}"

definition token_users :: "approval_broker \<Rightarrow> pending_approval set" where
  "token_users b = snd ` set (pendings b) \<union> snd ` drafts b"

definition token_free :: "approval_env \<Rightarrow> pending_approval \<Rightarrow> approval_broker \<Rightarrow> bool" where
  "token_free env p b \<longleftrightarrow>
     (\<exists>n < next_token b. pending_token p = env_token env n)
     \<and> (\<forall>q \<in> token_users b. pending_token q = pending_token p \<longrightarrow> pending_key q = pending_key p)"

definition tokens_ok :: "approval_env \<Rightarrow> approval_broker \<Rightarrow> bool" where
  "tokens_ok env b \<longleftrightarrow>
     (\<forall>p \<in> token_users b. token_free env p b) \<and> (\<forall>k p. (k, p) \<in> drafts b \<longrightarrow> pending_key p = k)"

definition books :: "approval_env \<Rightarrow> nat multiset \<Rightarrow> nat \<Rightarrow> approval_broker \<Rightarrow> bool" where
  "books env H c b \<longleftrightarrow> accounts (opt_max_pending (env_options env)) H c b \<and> keys_ok b \<and> tokens_ok env b"

lemma token_users_less:
  "approval_tasks b' = approval_tasks b \<Longrightarrow> set (pendings b') \<subseteq> set (pendings b) \<Longrightarrow> token_users b' \<subseteq> token_users b"
  by (auto simp: token_users_def drafts_def)

lemma token_free_less:
  assumes "token_free env p b" "token_users b' \<subseteq> token_users b" "next_token b' = next_token b"
  shows "token_free env p b'"
  using assms unfolding token_free_def by auto

lemma tokens_less:
  assumes "tokens_ok env b" "approval_tasks b' = approval_tasks b" "set (pendings b') \<subseteq> set (pendings b)"
    "next_token b' = next_token b"
  shows "tokens_ok env b'"
proof -
  note users = token_users_less [OF assms(2,3)]
  have "drafts b' = drafts b" using assms(2) by (simp add: drafts_def)
  moreover have "token_free env p b'" if "p \<in> token_users b'" for p
    using that users assms(1) token_free_less [OF _ users assms(4)] by (auto simp: tokens_ok_def)
  ultimately show ?thesis using assms(1) by (simp add: tokens_ok_def)
qed

lemma keys_less:
  assumes "keys_ok b" "approval_tasks b' = approval_tasks b" "leases b' = leases b" "next_key b' = next_key b"
    "set (acquirings b') \<subseteq> set (acquirings b)"
  shows "keys_ok b'"
proof -
  have "used_keys b' \<subseteq> used_keys b" using assms(2,3,5) by (auto simp: used_keys_def)
  moreover have "lease_waiters b' = lease_waiters b" using assms(2) by (simp add: lease_waiters_def)
  ultimately show ?thesis using assms(1,3,4) by (auto simp: keys_ok_def)
qed

text \<open>An operation that settles and keeps the accounts keeps the books.\<close>

lemma books_hush:
  assumes "books env H c b" "hush b b'" "accounts (opt_max_pending (env_options env)) H' c' b'"
  shows "books env H' c' b'"
  using assms hush_keeps [OF assms(2)] keys_less [of b b'] tokens_less [of env b b'] by (simp add: books_def)

lemma books_accounts: "books env H c b \<Longrightarrow> accounts (opt_max_pending (env_options env)) H c b"
  by (simp add: books_def)

section \<open>Decisions settle like cancellations\<close>

text \<open>All but the history of an answer is the same for every decision.\<close>

lemma respond_decision:
  "(respond_and_release env k g i d b)\<lparr>history := []\<rparr> = (respond_and_release env k g i Cancel b)\<lparr>history := []\<rparr>"
proof (cases "env_schedule env (questions b)")
  case Schedule_Fails
  then show ?thesis by (simp add: respond_and_release_def)
next
  case (Scheduled at_once)
  then show ?thesis
    by (cases at_once)
      (simp_all add: respond_and_release_def Let_def log_effect_def asked_def finish_responding_def
        release_lease_def clear_handle_def split: option.split)
qed

lemma settle_decision:
  "(snd (settle_approval env p d b))\<lparr>history := []\<rparr> = (snd (settle_approval env p Cancel b))\<lparr>history := []\<rparr>"
  by (simp add: settle_approval_def settle_with_def Let_def respond_decision [of env _ _ _ d])

lemma same_but_history:
  assumes "b\<lparr>history := []\<rparr> = b'\<lparr>history := []\<rparr>"
  shows "approval_tasks b = approval_tasks b'" "leases b = leases b'" "next_key b = next_key b'"
    "next_token b = next_token b'" "pendings b = pendings b'" "acquirings b = acquirings b'"
    "authorizings b = authorizings b'" "admittings b = admittings b'" "shut_down b = shut_down b'"
    "respondings b = respondings b'" "outcomes b = outcomes b'" "sessions b = sessions b'" "records b = records b'"
  using assms by (auto dest: arg_cong [where f = approval_tasks] arg_cong [where f = leases] arg_cong [where f = next_key]
      arg_cong [where f = next_token] arg_cong [where f = pendings] arg_cong [where f = acquirings]
      arg_cong [where f = authorizings] arg_cong [where f = admittings] arg_cong [where f = shut_down]
      arg_cong [where f = respondings] arg_cong [where f = outcomes] arg_cong [where f = sessions]
      arg_cong [where f = records])

lemma books_settle:
  assumes "books env H c b" shows "books env H c (snd (settle_approval env p d b))"
proof -
  have "hush b (snd (settle_approval env p Cancel b))" by (rule hush_settle) (simp_all add: hush_refl)
  note keeps = hush_keeps [OF this]
  note same = same_but_history [OF settle_decision [of env p d b]]
  have "accounts (opt_max_pending (env_options env)) H c (snd (settle_approval env p d b))"
    using assms by (simp add: books_def account_intros)
  with assms keeps same keys_less [of b "snd (settle_approval env p d b)"]
    tokens_less [of env b "snd (settle_approval env p d b)"]
  show ?thesis by (simp add: books_def)
qed

section \<open>Tasks\<close>

lemma put_approval_fields [simp]:
  "leases (put_approval_task k t b) = leases b" "acquirings (put_approval_task k t b) = acquirings b"
  "admittings (put_approval_task k t b) = admittings b" "authorizings (put_approval_task k t b) = authorizings b"
  "pendings (put_approval_task k t b) = pendings b" "respondings (put_approval_task k t b) = respondings b"
  "next_key (put_approval_task k t b) = next_key b" "next_token (put_approval_task k t b) = next_token b"
  "released (put_approval_task k t b) = released b" "answered (put_approval_task k t b) = answered b"
  "approval_tasks (put_approval_task k t b) = map_set (approval_tasks b) k t"
  by (simp_all add: put_approval_task_def)

lemma drop_task_fields [simp]:
  "leases (drop_approval_task k b) = leases b" "acquirings (drop_approval_task k b) = acquirings b"
  "admittings (drop_approval_task k b) = admittings b" "authorizings (drop_approval_task k b) = authorizings b"
  "pendings (drop_approval_task k b) = pendings b" "respondings (drop_approval_task k b) = respondings b"
  "next_key (drop_approval_task k b) = next_key b" "next_token (drop_approval_task k b) = next_token b"
  "released (drop_approval_task k b) = released b" "answered (drop_approval_task k b) = answered b"
  "approval_tasks (drop_approval_task k b) = map_delete (approval_tasks b) k"
  by (simp_all add: drop_approval_task_def)

text \<open>Does the table hold a lease for this number?\<close>

definition task_holds :: "nat \<Rightarrow> approval_broker \<Rightarrow> bool" where
  "task_holds k b \<longleftrightarrow> (case map_get (approval_tasks b) k of None \<Rightarrow> False | Some t \<Rightarrow> holds_lease t)"

lemma task_leases_delete:
  assumes "map_ok m" "map_get m k = Some t"
  shows "task_leases m = (if holds_lease t then {#k#} else {#}) + task_leases (map_delete m k)"
  by (simp add: task_leases_def mset_map_delete [OF assms])

lemma task_leases_set:
  assumes "map_ok m"
  shows "task_leases (map_set m k t) = (if holds_lease t then {#k#} else {#}) + task_leases (map_delete m k)"
  by (simp add: task_leases_def mset_map_set [OF assms])

lemma task_leases_keep:
  assumes "map_ok m" "case map_get m k of None \<Rightarrow> True | Some t \<Rightarrow> \<not> holds_lease t"
  shows "task_leases (map_delete m k) = task_leases m"
proof (cases "map_get m k")
  case None
  then have "\<not> map_has m k" by (simp add: map_has_get)
  then show ?thesis by (simp add: map_delete_absent)
next
  case (Some t)
  with assms task_leases_delete [OF assms(1) Some] show ?thesis by simp
qed

lemma accounts_put_task:
  assumes "accounts n ((if holds_lease t then {#k#} else {#}) + H) c b" "\<not> task_holds k b"
  shows "accounts n H c (put_approval_task k t b)"
proof -
  have ok: "map_ok (approval_tasks b)" using assms(1) by (simp add: accounts_def)
  have keep: "task_leases (map_delete (approval_tasks b) k) = task_leases (approval_tasks b)"
    using assms(2) by (intro task_leases_keep ok) (auto simp: task_holds_def split: option.splits)
  show ?thesis using assms(1) jsmap.ok_put [OF ok, of k t]
    by (auto simp: account_defs task_leases_set [OF ok] keep)
qed

lemma accounts_drop_task:
  assumes "accounts n H c b"
  shows "accounts n ((if task_holds k b then {#k#} else {#}) + H) c (drop_approval_task k b)"
proof -
  have ok: "map_ok (approval_tasks b)" using assms(1) by (simp add: accounts_def)
  have "task_leases (approval_tasks b) =
      (if task_holds k b then {#k#} else {#}) + task_leases (map_delete (approval_tasks b) k)"
  proof (cases "map_get (approval_tasks b) k")
    case None
    then show ?thesis using task_leases_keep [OF ok, of k] by (simp add: task_holds_def)
  next
    case (Some t)
    then show ?thesis using task_leases_delete [OF ok Some] by (simp add: task_holds_def)
  qed
  then show ?thesis using assms jsmap.ok_remove [OF ok, of k] by (auto simp: account_defs ac_simps)
qed

lemma set_task_table: "set (map_set m k v) \<subseteq> insert (k, v) {p \<in> set m. fst p \<noteq> k}"
  by (auto simp: map_set_def map_has_def split: if_splits)

text \<open>Putting and dropping tasks keeps the books; a draft has to be entered with a free token.\<close>

lemma books_put_task:
  assumes b: "books env ((if holds_lease t then {#k#} else {#}) + H) c b" and h: "\<not> task_holds k b"
    and k: "k < next_key b" and lease: "\<And>e g. t = Awaiting_Host_Lease e g \<Longrightarrow> k \<notin> fst ` set (leases b)"
    and draft: "\<And>f p m. t = Resolving f (Publishing p) m \<Longrightarrow> token_free env p b \<and> pending_key p = k"
  shows "books env H c (put_approval_task k t b)"
proof -
  let ?b = "put_approval_task k t b"
  have acc: "accounts (opt_max_pending (env_options env)) H c ?b"
    using b h by (intro accounts_put_task) (simp_all add: books_def)
  have sub: "set (approval_tasks ?b) \<subseteq> insert (k, t) (set (approval_tasks b))"
    using set_task_table [of "approval_tasks b" k t] by auto
  have old: "\<forall>k \<in> used_keys b. k < next_key b" "lease_waiters b \<inter> fst ` set (leases b) = {}"
    using b by (simp_all add: books_def keys_ok_def)
  have "used_keys ?b \<subseteq> insert k (used_keys b)" using sub by (auto simp: used_keys_def)
  then have "\<forall>k \<in> used_keys ?b. k < next_key b" using old(1) k by blast
  moreover have "lease_waiters ?b \<subseteq> lease_waiters b \<union> {k'. k' = k \<and> (\<exists>e g. t = Awaiting_Host_Lease e g)}"
    using sub unfolding lease_waiters_def by blast
  then have "lease_waiters ?b \<inter> fst ` set (leases b) = {}" using old(2) lease by blast
  ultimately have keys: "keys_ok ?b" by (simp add: keys_ok_def)
  have dr: "drafts ?b \<subseteq> drafts b \<union> {(k', p). k' = k \<and> (\<exists>f m. t = Resolving f (Publishing p) m)}"
    using sub unfolding drafts_def by blast
  have free: "token_free env p b" if "p \<in> token_users ?b" for p
  proof -
    have "p \<in> token_users b \<or> (\<exists>f m. t = Resolving f (Publishing p) m)"
      using that dr unfolding token_users_def by auto
    moreover have "\<forall>p \<in> token_users b. token_free env p b" using b by (simp add: books_def tokens_ok_def)
    ultimately show ?thesis using draft by blast
  qed
  have "token_free env p ?b" if p: "p \<in> token_users ?b" for p
    unfolding token_free_def
  proof (intro conjI ballI impI)
    show "\<exists>n<next_token ?b. pending_token p = env_token env n" using free [OF p] by (simp add: token_free_def)
    fix q assume q: "q \<in> token_users ?b" "pending_token q = pending_token p"
    show "pending_key q = pending_key p"
    proof (cases "q \<in> token_users b")
      case True
      with free [OF p] q(2) show ?thesis by (simp add: token_free_def)
    next
      case False
      with q(1) dr have q': "\<exists>f m. t = Resolving f (Publishing q) m" by (force simp: token_users_def)
      show ?thesis
      proof (cases "p \<in> token_users b")
        case True
        with free [OF q(1)] q(2) show ?thesis by (simp add: token_free_def)
      next
        case False
        with p dr have "\<exists>f m. t = Resolving f (Publishing p) m" by (force simp: token_users_def)
        with q' show ?thesis by auto
      qed
    qed
  qed
  moreover have "pending_key p = k'" if "(k', p) \<in> drafts ?b" for k' p
  proof -
    have "(k', p) \<in> drafts b \<or> (\<exists>f m. t = Resolving f (Publishing p) m) \<and> k' = k" using that dr by auto
    moreover have "\<forall>k p. (k, p) \<in> drafts b \<longrightarrow> pending_key p = k" using b by (simp add: books_def tokens_ok_def)
    ultimately show ?thesis using draft by blast
  qed
  ultimately show ?thesis using acc keys by (simp add: books_def tokens_ok_def)
qed

lemma drop_task_less: "set (approval_tasks (drop_approval_task k b)) \<subseteq> set (approval_tasks b)"
  by (simp add: set_map_delete)

lemma books_drop_task:
  assumes b: "books env H c b"
  shows "books env ((if task_holds k b then {#k#} else {#}) + H) c (drop_approval_task k b)"
proof -
  let ?b = "drop_approval_task k b"
  have dr: "drafts ?b \<subseteq> drafts b" using drop_task_less [of k b] unfolding drafts_def by blast
  then have users: "token_users ?b \<subseteq> token_users b" by (auto simp: token_users_def)
  have "fst ` set (approval_tasks ?b) \<subseteq> fst ` set (approval_tasks b)" using drop_task_less by (rule image_mono)
  then have keys: "used_keys ?b \<subseteq> used_keys b" by (auto simp: used_keys_def)
  have waiters: "lease_waiters ?b \<subseteq> lease_waiters b" using drop_task_less [of k b] unfolding lease_waiters_def by blast
  have old: "\<forall>p \<in> token_users b. token_free env p b" "\<forall>k p. (k, p) \<in> drafts b \<longrightarrow> pending_key p = k"
    using b by (simp_all add: books_def tokens_ok_def)
  have "token_free env p ?b" if p: "p \<in> token_users ?b" for p
  proof (rule token_free_less)
    show "token_free env p b" using p users old(1) by blast
  qed (use users in simp_all)
  moreover have "\<forall>k p. (k, p) \<in> drafts ?b \<longrightarrow> pending_key p = k" using old(2) dr by blast
  ultimately have "tokens_ok env ?b" by (simp add: tokens_ok_def)
  moreover have "keys_ok ?b"
  proof -
    have old: "\<forall>k \<in> used_keys b. k < next_key b" "lease_waiters b \<inter> fst ` set (leases b) = {}"
      using b by (simp_all add: books_def keys_ok_def)
    have "\<forall>k \<in> used_keys ?b. k < next_key b" using old(1) keys by blast
    moreover have "lease_waiters ?b \<inter> fst ` set (leases b) = {}" using old(2) waiters by blast
    ultimately show ?thesis by (simp add: keys_ok_def)
  qed
  ultimately show ?thesis using b accounts_drop_task [of _ H c b k] by (simp add: books_def)
qed

lemma task_gone [simp]: "\<not> task_holds k (drop_approval_task k b)" "map_get (approval_tasks (drop_approval_task k b)) k = None"
  by (simp_all add: task_holds_def jsmap.get_remove)

end
