(* ===== verification/ApprovalRuns.thy ===== *)
theory ApprovalRuns
  imports ApprovalInvariant
begin

text \<open>
  Every step of the approval broker keeps its books. The steps that only settle are covered by the
  relation \<open>hush\<close>; the others move a lease from place to place, take up a new request, or enter and
  leave tasks.
\<close>

section \<open>Operations that settle\<close>

lemma books_settling:
  assumes "books env H c b"
  shows "books env H c (asked b)" "books env H c (stop_timer k b)" "books env H c (put_timer k t b)"
    "books env H c (abort_generation g b)"
    "books env H c (snd (finish_acquiring k b))" "books env H c (snd (finish_responding k ok b))"
    "books env H c (timeout_responding k b)" "books env H c (disconnect env s b)"
    "books env H c (set_context env s v b)" "books env H c (dispose_context env s b)"
    "books env H c (close_context env v b)" "books env H c (on_timer env k n b)"
    "books env H c (host_notification env v g b)" "books env H c (host_state_changed env r g b)"
    "books env H c (snd (still_authorized env k f b))" "books env H c (snd (can_respond env k g i b))"
    "books env H c (snd (can_acquire env g i b))" "books env H c (abandon_where env P b)"
    "books env H c (snd (schedule_timer env k delay b))" "books env H c (publish_cards env s b)"
    "books env H c (evict_clients env ss b)" "books env H c (cancel_all env (publish_cards env) ps ks b)"
    "books env H c (finish_admission k b)"
  by (rule books_hush [OF assms],
      simp add: hush_refl hush_steps hush_put_timer hush_finish_acquiring hush_finish_responding hush_timeout_responding
        hush_disconnect hush_set_context hush_dispose_context hush_close_context hush_on_timer hush_notification
        hush_host_state hush_still_authorized hush_can_respond hush_can_acquire hush_abandon_where hush_schedule_timer
        hush_show_cards hush_evict hush_cancel hush_finish_admission,
      rule account_intros, rule books_accounts [OF assms])+

lemma books_answering:
  assumes "books env H c b" "d = Decline \<or> d = Cancel"
  shows "books env H c (cancel_flow env k d b)" "books env H c (snd (settle_authorizing env k d b))"
    "books env H c (respond_admission env k g i d b)"
  by (rule books_hush [OF assms(1)],
      simp add: hush_refl hush_cancel_flow hush_settle_authorizing hush_respond_admission assms(2),
      rule account_intros, rule books_accounts [OF assms(1)])+

lemma books_log:
  "released_lease e = None \<Longrightarrow> answered_request e = None \<Longrightarrow> books env H c b \<Longrightarrow> books env H c (log_effect e b)"
  by (rule books_hush, assumption, cases e)
    (simp_all add: hush_log hush_refl accounts_log books_accounts)

lemma books_release: "books env (add_mset k H) c b \<Longrightarrow> books env H c (release_lease k b)"
  by (rule books_hush, assumption) (simp_all add: hush_release hush_refl accounts_release books_accounts)

lemma books_weaken: "books env H (Suc c) b \<Longrightarrow> books env H c b"
  by (simp add: books_def accounts_weaken)

lemma books_same:
  assumes "books env H c b" "approval_tasks b' = approval_tasks b" "leases b' = leases b" "next_key b \<le> next_key b'"
    "next_token b' = next_token b" "pendings b' = pendings b" "acquirings b' = acquirings b"
    "accounts (opt_max_pending (env_options env)) H' c' b'"
  shows "books env H' c' b'"
proof -
  have "used_keys b' = used_keys b" "lease_waiters b' = lease_waiters b"
    using assms(2,3,7) by (simp_all add: used_keys_def lease_waiters_def)
  moreover have "keys_ok b" using assms(1) by (simp add: books_def)
  ultimately have "keys_ok b'" using assms(3,4) unfolding keys_ok_def by fastforce
  moreover have "tokens_ok env b'"
    by (rule tokens_less [of env b]) (use assms in \<open>simp_all add: books_def\<close>)
  ultimately show ?thesis using assms(8) by (simp add: books_def)
qed

lemma books_tables:
  assumes "books env H c b"
  shows "books env H c (b\<lparr>sessions := ss, thread_roots := tr, file_scopes := fs\<rparr>)"
    "books env H c (b\<lparr>next_session := ns, records := rs, sessions := ss\<rparr>)" "books env H c (b\<lparr>shut_down := f\<rparr>)"
  by (rule books_same [OF assms], simp_all, rule account_intros, rule books_accounts [OF assms])+

lemma books_next_key:
  assumes "books env H c b" "next_key b \<le> i" shows "books env H c (b\<lparr>next_key := i\<rparr>)"
  using assms(2) by (intro books_same [OF assms(1)] account_intros books_accounts [OF assms(1)]) simp_all

lemma books_next_token:
  assumes "books env H c b" shows "books env H c (b\<lparr>next_token := next_token b + 1\<rparr>)"
proof -
  let ?b = "b\<lparr>next_token := next_token b + 1\<rparr>"
  have users: "token_users ?b = token_users b" "drafts ?b = drafts b" by (simp_all add: token_users_def drafts_def)
  have "token_free env p ?b" if "token_free env p b" for p
    using that unfolding token_free_def users by (auto intro: less_SucI)
  moreover have "tokens_ok env b" using assms by (simp add: books_def)
  ultimately have "tokens_ok env ?b" unfolding tokens_ok_def users by blast
  moreover have "keys_ok ?b" by (rule keys_less [of b]) (use assms in \<open>simp_all add: books_def\<close>)
  moreover have "accounts (opt_max_pending (env_options env)) H c ?b"
    by (rule account_intros) (rule books_accounts [OF assms])
  ultimately show ?thesis by (simp only: books_def simp_thms)
qed

text \<open>Settling leaves the tasks and the numbers alone.\<close>

lemma hush_task_holds: "hush b b' \<Longrightarrow> task_holds k b' = task_holds k b"
  by (simp add: hush_def task_holds_def)

lemma settling_tasks [simp]:
  "task_holds k (asked b) = task_holds k b" "next_key (asked b) = next_key b"
  "task_holds k (snd (still_authorized env k' f b)) = task_holds k b" "next_key (snd (still_authorized env k' f b)) = next_key b"
  "task_holds k (snd (can_respond env k' g i b)) = task_holds k b" "next_key (snd (can_respond env k' g i b)) = next_key b"
  "task_holds k (snd (schedule_timer env k' delay b)) = task_holds k b"
  "next_key (snd (schedule_timer env k' delay b)) = next_key b"
  "task_holds k (put_timer k' t b) = task_holds k b" "next_key (put_timer k' t b) = next_key b"
  "task_holds k (on_timer env k' n b) = task_holds k b" "next_key (on_timer env k' n b) = next_key b"
  "task_holds k (snd (complete_admission k' b)) = task_holds k b" "next_key (snd (complete_admission k' b)) = next_key b"
  "task_holds k (snd (finish_responding k' ok b)) = task_holds k b"
  "next_key (snd (finish_responding k' ok b)) = next_key b"
  "task_holds k (abort_generation g b) = task_holds k b" "next_key (abort_generation g b) = next_key b"
  "task_holds k (snd (settle_authorizing env k' Cancel b)) = task_holds k b"
  "next_key (snd (settle_authorizing env k' Cancel b)) = next_key b"
  by (rule hush_task_holds hush_keeps(3),
      simp add: hush_refl hush_steps hush_still_authorized hush_can_respond hush_schedule_timer hush_put_timer
        hush_on_timer hush_complete_admission hush_finish_responding hush_settle_authorizing)+

text \<open>The next token the broker will draw is not one it has drawn.\<close>

definition token_fresh :: "approval_env \<Rightarrow> approval_broker \<Rightarrow> bool" where
  "token_fresh env b \<longleftrightarrow> (\<forall>n < next_token b. env_token env n \<noteq> env_token env (next_token b))"

lemma hush_token_fresh: "hush b b' \<Longrightarrow> token_fresh env b' = token_fresh env b"
  by (simp add: hush_def token_fresh_def)

lemma settling_fresh [simp]:
  "token_fresh env (asked b) = token_fresh env b"
  "token_fresh env (snd (still_authorized env k' f b)) = token_fresh env b"
  "token_fresh env (snd (schedule_timer env k' delay b)) = token_fresh env b"
  "token_fresh env (put_timer k' t b) = token_fresh env b" "token_fresh env (on_timer env k' n b) = token_fresh env b"
  "token_fresh env (snd (complete_admission k' b)) = token_fresh env b"
  by (rule hush_token_fresh,
      simp add: hush_refl hush_steps hush_still_authorized hush_schedule_timer hush_put_timer hush_on_timer
        hush_complete_admission)+

lemma token_fresh_fields [simp]:
  "token_fresh env (b\<lparr>authorizings := x\<rparr>) = token_fresh env b"
  "token_fresh env (drop_approval_task k b) = token_fresh env b"
  by (simp_all add: token_fresh_def)

lemma settle_tasks [simp]:
  "task_holds k (snd (settle_approval env p d b)) = task_holds k b" "next_key (snd (settle_approval env p d b)) = next_key b"
proof -
  have h: "hush b (snd (settle_approval env p Cancel b))" by (rule hush_settle) (simp_all add: hush_refl)
  show "task_holds k (snd (settle_approval env p d b)) = task_holds k b"
    "next_key (snd (settle_approval env p d b)) = next_key b"
    using same_but_history [OF settle_decision [of env p d b]] hush_keeps [OF h] by (simp_all add: task_holds_def)
qed

section \<open>Publication\<close>

lemma books_start_scope:
  assumes "books env H c b" "\<not> task_holds k b" "k < next_key b"
    "\<And>p. ph = Publishing p \<Longrightarrow> token_free env p b \<and> pending_key p = k"
  shows "books env H c (start_scope env k f ph m b)"
  unfolding start_scope_def using assms by (intro books_put_task) auto

lemma books_insert_pending:
  assumes b: "books env H c b" and p: "token_free env p b" "pending_key p = k"
  shows "books env H c (insert_pending env k p b)"
proof (cases "map_has (authorizings b) k")
  case False
  with b show ?thesis by (simp add: insert_pending_def books_settling)
next
  case True
  let ?n = "opt_max_pending (env_options env)"
  let ?b1 = "b\<lparr>authorizings := map_delete (authorizings b) k\<rparr>"
  let ?b2 = "?b1\<lparr>pendings := map_set (pendings ?b1) (pending_token p) p\<rparr>"
  have a1: "accounts ?n (add_mset (pending_key p) H) (Suc c) ?b1"
    using accounts_take_authorizing [OF books_accounts [OF b] True] p(2) by simp
  have "\<not> map_has (pendings ?b1) (pending_token p)"
  proof
    assume "map_has (pendings ?b1) (pending_token p)"
    then obtain q where q: "(pending_token p, q) \<in> set (pendings b)" by (auto simp: map_has_def)
    then have "pending_token q = pending_token p" using books_accounts [OF b] by (simp add: accounts_def)
    moreover have "q \<in> token_users b" using q by (force simp: token_users_def)
    ultimately have "pending_key q = k" using p by (simp add: token_free_def)
    then have "k \<in># held ?b1" using q by (auto simp: held_def intro!: image_eqI [of _ _ "(pending_token p, q)"])
    with hand_elsewhere(1) [OF a1] p(2) show False by simp
  qed
  with a1 have acc: "accounts ?n H c ?b2" by (rule accounts_put_pending)
  have dr: "drafts ?b2 = drafts b" by (simp add: drafts_def)
  have "snd ` set (pendings ?b2) \<subseteq> insert p (snd ` set (pendings b))"
    using set_task_table [of "pendings b" "pending_token p" p] by auto
  then have users: "token_users ?b2 \<subseteq> insert p (token_users b)" unfolding token_users_def dr by auto
  have old: "\<forall>q \<in> token_users b. token_free env q b" "\<forall>k p. (k, p) \<in> drafts b \<longrightarrow> pending_key p = k" "keys_ok b"
    using b by (simp_all add: books_def tokens_ok_def)
  have "token_free env q ?b2" if q: "q \<in> token_users ?b2" for q
    unfolding token_free_def
  proof (intro conjI ballI impI)
    have free: "token_free env q b" using q users old(1) p(1) by blast
    then show "\<exists>n<next_token ?b2. pending_token q = env_token env n" by (simp add: token_free_def)
    fix r assume r: "r \<in> token_users ?b2" "pending_token r = pending_token q"
    show "pending_key r = pending_key q"
    proof (cases "r = p")
      case True
      have "q = p \<or> q \<in> token_users b" using q users by blast
      with True r(2) p(1) show ?thesis by (auto simp: token_free_def)
    next
      case False
      with r(1) users have "r \<in> token_users b" by blast
      with free r(2) show ?thesis by (simp add: token_free_def)
    qed
  qed
  then have "tokens_ok env ?b2" using old(2) unfolding tokens_ok_def dr by blast
  moreover have "keys_ok ?b2" using old(3) by (rule keys_less) simp_all
  ultimately have "books env H c ?b2" using acc by (simp only: books_def simp_thms)
  with True show ?thesis by (simp add: insert_pending_def books_settling)
qed

lemma fresh_token_free:
  assumes "books env H c b" "token_fresh env b" "pending_token p = env_token env (next_token b)"
  shows "token_free env p (b\<lparr>next_token := next_token b + 1\<rparr>)"
proof -
  have "pending_token q \<noteq> pending_token p" if q: "q \<in> token_users b" for q
  proof -
    obtain n where n: "n < next_token b" "pending_token q = env_token env n"
      using q assms(1) by (auto simp: books_def tokens_ok_def token_free_def)
    then have "env_token env n \<noteq> env_token env (next_token b)" using assms(2) by (simp add: token_fresh_def)
    with n(2) assms(3) show ?thesis by simp
  qed
  moreover have "token_users (b\<lparr>next_token := next_token b + 1\<rparr>) = token_users b"
    by (simp add: token_users_def drafts_def)
  ultimately show ?thesis using assms(3) by (auto simp: token_free_def)
qed

lemma task_holds_fields [simp]:
  "task_holds k (b\<lparr>next_token := t\<rparr>) = task_holds k b" "task_holds k (b\<lparr>authorizings := x\<rparr>) = task_holds k b"
  "task_holds k (b\<lparr>next_key := i\<rparr>) = task_holds k b" "task_holds k (b\<lparr>admittings := y, acquirings := z\<rparr>) = task_holds k b"
  by (simp_all add: task_holds_def)

lemma books_publish_approval:
  assumes b: "books env H c b" and fresh: "token_fresh env b" and k: "\<not> task_holds k b" "k < next_key b"
  shows "books env H c (publish_approval env k f s b)"
proof -
  let ?b1 = "snd (still_authorized env k f b)"
  let ?b2 = "(asked ?b1)\<lparr>next_token := next_token ?b1 + 1\<rparr>"
  let ?p = "make_pending env k f s (env_token env (next_token ?b1))"
  have b1: "books env H c ?b1" using b by (rule books_settling)
  then have a1: "books env H c (asked ?b1)" by (rule books_settling)
  then have b2: "books env H c ?b2" using books_next_token [OF a1] by simp
  have p: "pending_key ?p = k" "pending_token ?p = env_token env (next_token ?b1)"
    by (simp_all add: make_pending_def Let_def)
  have free: "token_free env ?p ?b2" using fresh_token_free [OF a1, of ?p] fresh p by simp
  have holds: "\<not> task_holds k ?b2" "k < next_key ?b2" using k by simp_all
  have cancel: "books env H c (cancel_flow env k d b')" if "books env H c b'" "d = Decline \<or> d = Cancel" for d b'
    using that by (rule books_answering(1))
  have "books env H c
      (case pending_scope_fingerprint ?p of
         None \<Rightarrow> insert_pending env k ?p ?b2
       | Some fp \<Rightarrow>
           if fp = [] then cancel_flow env k Cancel ?b2
           else start_scope env k f (Publishing ?p)
             (map_op Got_Flag (is_file_scope_current (env_platform env) (style_of env) (flow_identity f) fp)) ?b2)"
    using b2 free p(1) holds
    by (auto intro: books_insert_pending books_start_scope cancel split: option.split)
  then show ?thesis using b1 a1
    unfolding publish_approval_def Let_def
    by (simp del: One_nat_def add: cancel split: clock_verdict.split)
qed

lemma books_authorize:
  assumes "books env H c b" "token_fresh env b" "\<not> task_holds k b" "k < next_key b"
  shows "books env H c (authorize env k f b)"
  using assms by (auto simp: authorize_def intro: books_publish_approval books_start_scope split: approval_kind.split)

lemma hush_token_free: "token_free env p b \<Longrightarrow> hush b b' \<Longrightarrow> token_free env p b'"
  by (rule token_free_less) (simp_all add: hush_def token_users_less)

lemma books_continue_flow:
  assumes b: "books env H c b" and fresh: "token_fresh env b" and k: "\<not> task_holds k b" "k < next_key b"
    and p: "\<And>p. ph = Publishing p \<Longrightarrow> token_free env p b \<and> pending_key p = k"
  shows "books env H c (continue_flow env k f ph v b)"
proof -
  let ?b1 = "snd (still_authorized env k f b)"
  have b1: "books env H c ?b1" using b by (rule books_settling)
  have k1: "\<not> task_holds k ?b1" "k < next_key ?b1" using k by simp_all
  have cancel: "books env H c (cancel_flow env k d b')" if "books env H c b'" "d = Decline \<or> d = Cancel" for d b'
    using that by (rule books_answering(1))
  have start: "books env H c (start_scope env k f ph' m ?b1)" if "\<And>p. ph' \<noteq> Publishing p" for ph' m
    using b1 k1 that by (intro books_start_scope) auto
  have check: "books env H c (check_current env k f ph' x ?b1)" if "\<And>p. ph' \<noteq> Publishing p" for ph' x
    unfolding check_current_def using that by (rule start)
  have publish: "books env H c (publish_approval env k f s ?b1)" for s
    using b1 k1 fresh by (intro books_publish_approval) simp_all
  have insert: "books env H c (insert_pending env k p ?b1)" if "ph = Publishing p" for p
  proof -
    have "hush b ?b1" by (rule hush_still_authorized) (rule hush_refl)
    then have "token_free env p ?b1" "pending_key p = k" using p [OF that] by (blast intro: hush_token_free)+
    with b1 show ?thesis by (rule books_insert_pending)
  qed
  show ?thesis
    using b b1 cancel [OF b, of Cancel] cancel [OF b1, of Cancel] cancel [OF b1, of Decline] publish insert
      start [of "Normalizing _"] check [of "First_Check _"] check [of "Last_Check _ _"]
    by (cases ph; cases v) (auto simp: continue_flow_def Let_def split: option.split)
qed


section \<open>Admission\<close>

lemma books_complete_admission:
  assumes b: "books env H c b" and h: "map_has (admittings b) k"
  shows "books env (add_mset k H) (Suc c) (snd (complete_admission k b))"
proof (rule books_hush [OF b])
  show "hush b (snd (complete_admission k b))" by (rule hush_complete_admission) (rule hush_refl)
  show "accounts (opt_max_pending (env_options env)) (add_mset k H) (Suc c) (snd (complete_admission k b))"
    using books_accounts [OF b] by (rule accounts_complete_admission) (simp add: complete_admission_def h)
qed

lemma books_begin_authorizing:
  assumes b: "books env (add_mset k H) (Suc c) b" and fresh: "token_fresh env b"
    and k: "\<not> task_holds k b" "k < next_key b"
  shows "books env H c (begin_authorizing env k f b)"
proof -
  let ?n = "opt_max_pending (env_options env)"
  define x where "x = \<lparr>authorizing_generation = flow_generation f, authorizing_request = request_id_of (flow_request f),
     authorizing_thread = request_thread (flow_request f), authorizing_turn = request_turn (flow_request f),
     authorizing_owner = flow_owner f, authorizing_revision = flow_revision f,
     authorizing_issued = flow_issued f, authorizing_expires = flow_expires f\<rparr>"
  let ?b0 = "b\<lparr>authorizings := map_set (authorizings b) k x\<rparr>"
  let ?b1 = "put_timer k (new_timer (flow_issued f) (flow_expires f)) ?b0"
  let ?r = "schedule_timer env k (opt_ttl (env_options env)) ?b1"
  have "books env H c ?b0"
    by (rule books_same [OF b]) (simp_all add: accounts_put_authorizing [OF books_accounts [OF b]])
  then have "books env H c ?b1" by (rule books_settling)
  then have r: "books env H c (snd ?r)" by (rule books_settling)
  have k1: "\<not> task_holds k (snd ?r)" "k < next_key (snd ?r)" using k by simp_all
  have stop: "books env H c (cancel_flow env k Decline (stop_timer k (snd ?r)))"
    by (rule books_answering(1), rule books_settling, rule r) simp
  have ready: "books env H c (put_timer k t (snd ?r))" for t using r by (rule books_settling)
  have go: "books env H c (authorize env k f (put_timer k t (snd ?r)))" for t
    using ready fresh k1 by (intro books_authorize) simp_all
  have "books env H c (on_timer env k v (put_timer k t (snd ?r)))" for t v using ready by (rule books_settling)
  then have late: "books env H c (put_approval_task k (Timer_Checked f) (on_timer env k v (put_timer k t (snd ?r))))" for t v
    using k1 by (intro books_put_task) simp_all
  show ?thesis
    unfolding begin_authorizing_def Let_def x_def [symmetric]
    using r stop go late by (simp split: option.split)
qed

lemma books_admitted:
  assumes b: "books env H c b" and fresh: "token_fresh env b" and k: "\<not> task_holds k b" "k < next_key b"
  shows "books env H c (admitted env k e g b)"
proof (cases "map_has (admittings b) k")
  case False
  with b show ?thesis by (simp add: admitted_def)
next
  case True
  have a: "books env H c (asked b)" "books env H c (asked (asked b))" using b by (blast intro: books_settling(1))+
  have "books env (add_mset k H) (Suc c) (snd (complete_admission k (asked (asked b))))"
    using a(2) by (rule books_complete_admission) (simp add: True)
  then have go: "books env H c (begin_authorizing env k f (snd (complete_admission k (asked (asked b)))))" for f
    using fresh k by (intro books_begin_authorizing) simp_all
  have ans: "books env H c (respond_admission env k g i d b')" if "books env H c b'" "d = Decline \<or> d = Cancel" for i d b'
    using that by (rule books_answering(3))
  show ?thesis using True
    unfolding admitted_def Let_def
    by (simp add: go ans a b split: option.split)
qed

lemma books_admit_request:
  assumes b: "books env (add_mset k H) c b" and k: "\<not> task_holds k b" "k < next_key b"
  shows "books env H c (admit_request env k e g b)"
proof -
  let ?n = "opt_max_pending (env_options env)"
  let ?b1 = "snd (can_respond env k g (envelope_id e) b)"
  let ?x = "\<lparr>admitting_generation = g, admitting_request = envelope_id e\<rparr>"
  have b1: "books env (add_mset k H) c ?b1" using b by (rule books_settling)
  have k1: "\<not> task_holds k ?b1" "k < next_key ?b1" using k by simp_all
  have free: "\<not> map_has (admittings ?b1) k" using hand_elsewhere(6) [OF books_accounts [OF b1]] .
  have no: "books env H c (release_lease k (snd (finish_acquiring k ?b1)))"
    by (rule books_release, rule books_settling, rule b1)
  have yes: "books env H c (put_approval_task k (Admitted e g)
      (?b1\<lparr>admittings := map_set (admittings ?b1) k ?x, acquirings := map_delete (acquirings ?b1) k\<rparr>))"
    (is "books env H c (put_approval_task k _ ?b2)") if has: "map_has (acquirings ?b1) k"
  proof -
    let ?b0 = "?b1\<lparr>acquirings := map_delete (acquirings ?b1) k\<rparr>"
    have "accounts ?n (add_mset k H) (Suc c) ?b0"
      using books_accounts [OF b1] has by (rule accounts_take_acquiring)
    then have "accounts ?n H c (?b0\<lparr>admittings := map_set (admittings ?b0) k ?x\<rparr>)" by (rule accounts_put_admitting)
    then have "accounts ?n H c ?b2" by (rule accounts_same [rotated]) (simp add: same_accounts_def)
    moreover have "keys_ok ?b2"
      by (rule keys_less [of ?b1]) (use b1 set_map_delete [of "acquirings ?b1" k] in \<open>simp_all add: books_def\<close>)
    moreover have "tokens_ok env ?b2"
      by (rule tokens_less [of env ?b1]) (use b1 in \<open>auto simp: books_def\<close>)
    ultimately have "books env H c ?b2" by (simp only: books_def simp_thms)
    then show ?thesis using k1 by (intro books_put_task) (simp_all add: task_holds_def)
  qed
  have restored: "map_delete (map_set (admittings ?b1) k ?x) k = admittings ?b1"
    using free by (simp add: map_set_fresh map_delete_def) (force simp: map_has_def intro!: filter_True)
  have late: "books env H c (release_lease k ?b1)" using b1 by (rule books_release)
  show ?thesis
    unfolding admit_request_def Let_def
    using no yes late by (simp add: finish_acquiring_def restored)
qed

lemma books_make_capacity:
  "books env (add_mset k H) c b \<Longrightarrow> \<not> task_holds k b \<Longrightarrow> k < next_key b \<Longrightarrow> books env H c (make_capacity env k e g b)"
proof (induction env k e g b rule: make_capacity.induct)
  case (1 env k e g b)
  let ?wait = "\<lambda>w b. put_approval_task k (Awaiting_Capacity e g w) b"
  have wait: "books env H c (?wait w b')" if "books env (add_mset k H) c b'" "\<not> task_holds k b'" "k < next_key b'" for w b'
    using that by (intro books_put_task) simp_all
  have admit: "books env H c (admit_request env k e g b)" using 1(2-4) by (rule books_admit_request)
  show ?case
  proof (cases "active_approvals b < opt_max_pending (env_options env)")
    case True
    with admit show ?thesis by (simp add: make_capacity.simps)
  next
    case full: False
    show ?thesis
    proof (cases "admittings b")
      case (Cons a as)
      with full wait [OF 1(2-4)] show ?thesis by (cases a) (simp add: make_capacity.simps)
    next
      case noadm: Nil
      show ?thesis
      proof (cases "respondings b")
        case (Cons q qs)
        obtain r x where q: "q = (r, x)" by (cases q)
        show ?thesis
        proof (cases "responding_generation x = g")
          case True
          have "books env H c (release_lease k (abort_generation g b))"
            using 1(2) by (intro books_release books_settling)
          with True full noadm Cons q show ?thesis by (simp add: make_capacity.simps)
        next
          case False
          have "books env H c (make_capacity env k e g (snd (finish_responding r False b)))"
            using full noadm Cons q False 1(2-4) by (intro 1(1)) (simp_all add: books_settling)
          with full noadm Cons q False show ?thesis by (simp add: make_capacity.simps [of env k e g b])
        qed
      next
        case noresp: Nil
        show ?thesis
        proof (cases "pendings b")
          case (Cons q qs)
          have "books env H c (?wait w (snd (settle_approval env p Cancel b)))" for w p
            using 1(2-4) by (intro wait books_settle) simp_all
          with full noadm noresp Cons show ?thesis by (cases q) (simp add: make_capacity.simps)
        next
          case nopend: Nil
          show ?thesis
          proof (cases "authorizings b")
            case (Cons q qs)
            have "books env H c (?wait w (snd (settle_authorizing env a Cancel b)))" for w a
              using 1(2-4) by (intro wait books_answering) simp_all
            with full noadm noresp nopend Cons show ?thesis by (cases q) (simp add: make_capacity.simps Let_def)
          next
            case Nil
            with full noadm noresp nopend admit show ?thesis by (simp add: make_capacity.simps)
          qed
        qed
      qed
    qed
  qed
qed

lemma books_capacity:
  assumes "books env (add_mset k H) c b" "\<not> task_holds k b" "k < next_key b"
  shows "books env H c (lease_held env k e g b)" "books env H c (capacity_continued env k e g b)"
proof -
  have r: "books env (add_mset k H) c (snd (can_respond env k g i b))" for i using assms(1) by (rule books_settling)
  show "books env H c (lease_held env k e g b)"
    using assms by (auto simp: lease_held_def intro: books_make_capacity books_release books_settling)
  show "books env H c (capacity_continued env k e g b)"
    using assms r by (auto simp: capacity_continued_def Let_def intro: books_make_capacity books_release)
qed

section \<open>New requests and decisions\<close>

lemma books_fresh:
  assumes "books env H c b"
  shows "\<not> task_holds (next_key b) b" "\<not> map_has (acquirings b) (next_key b)" "next_key b \<notin> fst ` set (leases b)"
proof -
  have used: "next_key b \<notin> used_keys b" using assms by (auto simp: books_def keys_ok_def)
  then show "\<not> map_has (acquirings b) (next_key b)" "next_key b \<notin> fst ` set (leases b)"
    by (auto simp: used_keys_def map_has_def)
  from used have "\<not> map_has (approval_tasks b) (next_key b)" by (auto simp: used_keys_def map_has_def)
  then show "\<not> task_holds (next_key b) b" by (simp add: task_holds_def map_has_get)
qed

lemma books_final_decision:
  assumes b: "books env H c b" and k: "\<not> task_holds call b" "call < next_key b"
  shows "books env H c (final_decision env call p d b)"
proof -
  have "books env H c (snd (settle_approval env p d b))" using b by (rule books_settle)
  then show ?thesis using k
    by (auto simp: final_decision_def Let_def intro!: books_put_task books_log)
qed

lemma books_timed_decision:
  assumes b: "books env H c b" and k: "\<not> task_holds call b" "call < next_key b"
  shows "books env H c (timed_decision env call p d b)"
  unfolding timed_decision_def
  by (rule books_final_decision) (use assms in \<open>simp_all add: books_settling\<close>)

lemma books_scope_decided:
  assumes b: "books env H c b" and k: "\<not> task_holds call b" "call < next_key b"
  shows "books env H c (scope_decided env call s p q ok b)"
  using assms by (auto simp: scope_decided_def intro: books_final_decision books_timed_decision books_log)

lemma books_decide:
  assumes b: "books env H c b" shows "books env H c (decide env s v b)"
proof -
  let ?b = "b\<lparr>next_key := next_key b + 1\<rparr>"
  have b1: "books env H c ?b" using b by (rule books_next_key) simp
  have k: "\<not> task_holds (next_key b) ?b" "next_key b < next_key ?b"
    using books_fresh(1) [OF b] by (simp_all add: task_holds_def)
  have reject: "books env H c (log_effect (Decision_Result call r) ?b)" for call r using b1 by (simp add: books_log)
  have timed: "books env H c (timed_decision env (next_key b) p d ?b)" for p d using b1 k by (rule books_timed_decision)
  have put: "books env H c (put_approval_task (next_key b) (Deciding s p q m) ?b)" for p q m
    using b1 k by (intro books_put_task) simp_all
  show ?thesis unfolding decide_def Let_def
    by (simp only: reject timed put split: option.split if_split) simp
qed

lemma books_reserve:
  assumes b: "books env {#} 0 b" and k: "k < next_key b" "\<not> map_has (acquirings b) k"
  shows "books env {#} 0 (snd (reserve_acquisition env k g i b))"
proof -
  let ?n = "opt_max_pending (env_options env)"
  let ?b1 = "snd (can_acquire env g i b)"
  let ?b2 = "?b1\<lparr>acquirings := map_set (acquirings ?b1) k \<lparr>acquiring_generation = g, acquiring_request = i\<rparr>\<rparr>"
  have b1: "books env {#} 0 ?b1" using b by (rule books_settling)
  have keep: "acquirings ?b1 = acquirings b" "next_key ?b1 = next_key b" by (simp_all add: can_acquire_def)
  have full: "books env {#} 0 (abandon_where env P (abort_generation g ?b1))" for P
    by (rule books_settling, rule books_settling, rule b1)
  have b2: "books env {#} 0 ?b2" if room: "active_approvals ?b1 < ?n"
  proof -
    have "accounts ?n {#} (Suc 0) ?b1" using books_accounts [OF b1] room by (simp add: accounts_def)
    then have "accounts ?n {#} 0 ?b2" by (rule accounts_put_acquiring) (simp add: keep k)
    moreover have "used_keys ?b2 \<subseteq> insert k (used_keys ?b1)" "lease_waiters ?b2 = lease_waiters ?b1"
      using set_task_table [of "acquirings ?b1" k] by (force simp: used_keys_def) (simp add: lease_waiters_def)
    then have "keys_ok ?b2" using b1 k(1) keep by (auto simp: books_def keys_ok_def)
    moreover have "tokens_ok env ?b2"
      by (rule tokens_less [of env ?b1]) (use b1 in \<open>auto simp: books_def\<close>)
    ultimately show ?thesis by (simp only: books_def simp_thms)
  qed
  have "books env {#} 0 (snd (can_acquire env g i ?b2))"
    "books env {#} 0 (snd (finish_acquiring k (snd (can_acquire env g i ?b2))))" if "active_approvals ?b1 < ?n"
    using b2 [OF that] by (blast intro: books_settling)+
  then show ?thesis using b1 full by (simp add: reserve_acquisition_def Let_def)
qed

end
