(* ===== verification/ApprovalSteps.thy ===== *)
theory ApprovalSteps
  imports ApprovalRuns
begin

text \<open>
  The steps of the approval broker that take up a request, receive a lease, resume a suspended handler
  or dispose the broker keep the books; with the operations of theory \<open>ApprovalRuns\<close> every step does.
\<close>

section \<open>New requests\<close>

lemma reserve_fields:
  "approval_tasks (snd (reserve_acquisition env k g i b)) = approval_tasks b"
  "leases (snd (reserve_acquisition env k g i b)) = leases b"
  "next_key (snd (reserve_acquisition env k g i b)) = next_key b"
  "shut_down (snd (reserve_acquisition env k g i b)) = shut_down b"
  "\<exists>es. history (snd (reserve_acquisition env k g i b)) = history b @ es \<and> list_all mild es"
proof -
  have h: "hush b (abandon_where env P (abort_generation g (snd (can_acquire env g i b))))" for P
    by (intro hush_abandon_where hush_abort hush_can_acquire hush_refl)
  show "approval_tasks (snd (reserve_acquisition env k g i b)) = approval_tasks b"
    "leases (snd (reserve_acquisition env k g i b)) = leases b"
    "next_key (snd (reserve_acquisition env k g i b)) = next_key b"
    "shut_down (snd (reserve_acquisition env k g i b)) = shut_down b"
    "\<exists>es. history (snd (reserve_acquisition env k g i b)) = history b @ es \<and> list_all mild es"
    using hush_keeps(1,2,3,5) [OF h] hush_history [OF h]
    by (simp_all add: reserve_acquisition_def Let_def) (simp_all add: can_acquire_def finish_acquiring_def asked_def)
qed

lemma books_handle_request:
  assumes b: "books env {#} 0 b" shows "books env {#} 0 (handle_server_request env v g b)"
proof -
  let ?k = "next_key b" and ?b0 = "b\<lparr>next_key := next_key b + 1\<rparr>"
  have b0: "books env {#} 0 ?b0" using b by (rule books_next_key) simp
  note fresh = books_fresh [OF b]
  have r: "books env {#} 0 (snd (reserve_acquisition env ?k g i ?b0))" for i
    using b0 by (rule books_reserve) (simp_all add: fresh)
  have a: "books env {#} 0 (asked (log_effect (Lease_Requested ?k) (snd (reserve_acquisition env ?k g i ?b0))))" for i
    using r by (intro books_settling(1) books_log) simp_all
  have put: "books env {#} 0 (put_approval_task ?k (Awaiting_Host_Lease e g)
      (asked (log_effect (Lease_Requested ?k) (snd (reserve_acquisition env ?k g i ?b0)))))" for e i
    by (rule books_put_task)
      (use a fresh in \<open>simp_all add: task_holds_def reserve_fields log_effect_def\<close>)
  have stop: "books env {#} 0 (snd (finish_acquiring ?k
      (asked (log_effect (Lease_Requested ?k) (snd (reserve_acquisition env ?k g i ?b0))))))" for i
    using a by (rule books_settling)
  show ?thesis
    unfolding handle_server_request_def Let_def
    by (simp only: b r put stop split: option.split if_split) simp
qed

section \<open>Leases\<close>

lemma accounts_grant:
  assumes "accounts n H c b" "k \<notin> fst ` set (leases b)"
  shows "accounts n (add_mset k H) c (b\<lparr>leases := map_set (leases b) k g\<rparr>)"
  using assms by (simp add: account_defs map_set_def map_has_def)

lemma books_grant:
  assumes b: "books env H c b" and t: "map_get (approval_tasks b) k = Some (Awaiting_Host_Lease e g)"
  shows "books env (add_mset k H) c ((drop_approval_task k b)\<lparr>leases := map_set (leases b) k g'\<rparr>)"
    (is "books env _ c ?b2") and "k < next_key b"
proof -
  let ?b1 = "drop_approval_task k b"
  have ks: "keys_ok b" using b by (simp add: books_def)
  have used: "\<And>k. k \<in> used_keys b \<Longrightarrow> k < next_key b"
    and free: "\<And>k. k \<in> lease_waiters b \<Longrightarrow> k \<notin> fst ` set (leases b)"
    using ks unfolding keys_ok_def by blast+
  have m: "(k, Awaiting_Host_Lease e g) \<in> set (approval_tasks b)" using t by (simp add: map_get_def map_of_SomeD)
  then have "k \<in> used_keys b" by (force simp: used_keys_def)
  then show less: "k < next_key b" by (rule used)
  have "k \<in> lease_waiters b" using m unfolding lease_waiters_def by blast
  then have new: "k \<notin> fst ` set (leases b)" by (rule free)
  have b1: "books env H c ?b1" using books_drop_task [OF b, of k] t by (simp add: task_holds_def)
  then have "accounts (opt_max_pending (env_options env)) (add_mset k H) c (?b1\<lparr>leases := map_set (leases ?b1) k g'\<rparr>)"
    using new by (intro accounts_grant books_accounts) simp_all
  then have "accounts (opt_max_pending (env_options env)) (add_mset k H) c ?b2" by simp
  moreover have "keys_ok ?b2"
  proof -
    have sub: "set (map_delete (approval_tasks b) k) \<subseteq> {p \<in> set (approval_tasks b). fst p \<noteq> k}"
      by (auto simp: map_delete_def)
    then have "fst ` set (map_delete (approval_tasks b) k) \<subseteq> fst ` set (approval_tasks b)" by blast
    moreover have l: "fst ` set (map_set (leases b) k g') \<subseteq> insert k (fst ` set (leases b))"
      using set_task_table [of "leases b" k g'] by auto
    ultimately have "used_keys ?b2 \<subseteq> insert k (used_keys b)" by (auto simp: used_keys_def)
    then have u: "\<forall>k \<in> used_keys ?b2. k < next_key b" using used less by blast
    have "lease_waiters ?b2 \<subseteq> lease_waiters b - {k}" using sub unfolding lease_waiters_def by force
    then have "lease_waiters ?b2 \<inter> fst ` set (map_set (leases b) k g') = {}" using l free by blast
    with u show ?thesis by (simp add: keys_ok_def)
  qed
  moreover have "tokens_ok env ?b2"
    by (rule tokens_less [of env ?b1]) (use b1 in \<open>simp_all add: books_def\<close>)
  ultimately show "books env (add_mset k H) c ?b2" by (simp only: books_def simp_thms)
qed

lemma books_lease_granted:
  assumes b: "books env {#} 0 b" shows "books env {#} 0 (lease_granted k g' b)"
proof (cases "\<exists>e g. map_get (approval_tasks b) k = Some (Awaiting_Host_Lease e g)")
  case True
  then obtain e g where t: "map_get (approval_tasks b) k = Some (Awaiting_Host_Lease e g)" by blast
  let ?b2 = "(drop_approval_task k b)\<lparr>leases := map_set (leases b) k g'\<rparr>"
  note b2 = books_grant(1) [OF b t, of g'] books_grant(2) [OF b t]
  have "\<not> task_holds k ?b2" "k < next_key ?b2" using b2(2) by (simp_all add: task_holds_def jsmap.get_remove)
  then have "books env {#} 0 (put_approval_task k (Lease_Held e g) ?b2)"
    using b2(1) by (intro books_put_task) simp_all
  moreover have "books env {#} 0 (release_lease k ?b2)" using b2(1) by (rule books_release)
  ultimately show ?thesis using t by (simp add: lease_granted_def Let_def)
next
  case False
  with b show ?thesis by (auto simp: lease_granted_def split: option.split approval_task.split)
qed

lemma books_drop_other:
  assumes "books env H c b" "\<not> task_holds k b" shows "books env H c (drop_approval_task k b)"
  using books_drop_task [OF assms(1), of k] assms(2) by simp

lemma books_lease_denied:
  assumes b: "books env {#} 0 b" shows "books env {#} 0 (lease_denied k b)"
proof -
  have "books env {#} 0 (snd (finish_acquiring k (drop_approval_task k b)))"
    if "map_get (approval_tasks b) k = Some (Awaiting_Host_Lease e g)" for e g
    using b that by (intro books_settling(5) books_drop_other) (simp_all add: task_holds_def)
  then show ?thesis using b by (simp add: lease_denied_def split: option.split approval_task.split)
qed

section \<open>Clients and disposal\<close>

lemma books_connect:
  assumes "books env H c b" shows "books env H c (connect_client env b)"
  unfolding connect_client_def Let_def by (intro books_tables books_settling(21) assms)

lemma books_fold:
  "(\<And>x b. books env H c b \<Longrightarrow> books env H c (f x b)) \<Longrightarrow> books env H c b \<Longrightarrow> books env H c (fold f xs b)"
  by (induction xs arbitrary: b) simp_all

lemma books_dispose:
  assumes b: "books env {#} 0 b" shows "books env {#} 0 (dispose_approvals env b)"
proof -
  let ?b1 = "fold (\<lambda>(k, a) b. snd (finish_acquiring k b)) (acquirings b) (b\<lparr>shut_down := True\<rparr>)"
  let ?b2 = "fold (\<lambda>(k, a) b. finish_admission k b) (admittings b) ?b1"
  let ?b3 = "fold (\<lambda>(k, r) b. snd (finish_responding k False b)) (respondings b) ?b2"
  have "books env {#} 0 ?b1" using b by (intro books_fold books_tables) (auto intro: books_settling)
  then have "books env {#} 0 ?b2" by (rule books_fold [rotated]) (auto intro: books_settling)
  then have "books env {#} 0 ?b3" by (rule books_fold [rotated]) (auto intro: books_settling)
  then have "books env {#} 0 (fold abort_generation gs ?b3)" for gs
    by (rule books_fold [rotated]) (auto intro: books_settling)
  then have b5: "books env {#} 0 (cancel_all env (publish_cards env) ps ks (fold abort_generation gs ?b3))" for gs ps ks
    by (rule books_settling)
  have put: "books env {#} 0 (put_approval_task (next_key c) (Disposing ds) (c\<lparr>next_key := next_key c + 1\<rparr>))"
    if c: "books env {#} 0 c" for c ds
  proof -
    have "books env {#} 0 (c\<lparr>next_key := next_key c + 1\<rparr>)" using c by (rule books_next_key) simp
    then show ?thesis using books_fresh(1) [OF c] by (intro books_put_task) simp_all
  qed
  show ?thesis using b unfolding dispose_approvals_def Let_def by (simp only: put b5 split: if_split) simp
qed

section \<open>Suspended handlers\<close>

lemma task_present:
  assumes "books env H c b" "map_get (approval_tasks b) k = Some t"
  shows "k < next_key b" "(k, t) \<in> set (approval_tasks b)"
proof -
  show m: "(k, t) \<in> set (approval_tasks b)" using assms(2) by (simp add: map_get_def map_of_SomeD)
  then have "k \<in> used_keys b" by (force simp: used_keys_def)
  then show "k < next_key b" using assms(1) by (auto simp: books_def keys_ok_def)
qed

lemma draft_token:
  assumes "books env H c b" "map_get (approval_tasks b) k = Some (Resolving f (Publishing p) m)"
  shows "token_free env p b" "pending_key p = k"
proof -
  have d: "(k, p) \<in> drafts b" using task_present(2) [OF assms] unfolding drafts_def by blast
  then have "p \<in> token_users b" by (force simp: token_users_def)
  with d assms(1) show "token_free env p b" "pending_key p = k" by (auto simp: books_def tokens_ok_def)
qed

lemma token_free_drop: "token_free env p b \<Longrightarrow> token_free env p (drop_approval_task k b)"
proof (rule token_free_less)
  have "drafts (drop_approval_task k b) \<subseteq> drafts b" using drop_task_less [of k b] unfolding drafts_def by blast
  then show "token_users (drop_approval_task k b) \<subseteq> token_users b" by (auto simp: token_users_def)
qed simp_all

lemma books_answer_task:
  assumes b: "books env {#} 0 b" shows "books env {#} 0 (answer_task env k scope path b)"
proof -
  have resolving: "books env {#} 0 (start_scope env k f ph m' b)"
    if "map_get (approval_tasks b) k = Some (Resolving f ph m)" for f ph m m'
    using b that task_present(1) [OF b that] draft_token [OF b, of k f _ m]
    by (intro books_start_scope) (auto simp: task_holds_def)
  have deciding: "books env {#} 0 (put_approval_task k (Deciding s p q m') b)"
    if "map_get (approval_tasks b) k = Some (Deciding s p q m)" for s p q m m'
    using b that task_present(1) [OF b that] by (intro books_put_task) (auto simp: task_holds_def)
  show ?thesis using b resolving deciding
    by (simp add: answer_task_def split: option.split approval_task.split)
qed

lemma books_resume:
  assumes b: "books env {#} 0 b" and fresh: "token_fresh env b"
  shows "books env {#} 0 (resume_approval env k b)"
proof (cases "map_get (approval_tasks b) k")
  case None
  with b show ?thesis by (simp add: resume_approval_def)
next
  case (Some t)
  note k = task_present(1) [OF b Some]
  let ?d = "drop_approval_task k b"
  have d: "books env (if holds_lease t then {#k#} else {#}) 0 ?d"
    using books_drop_task [OF b, of k] Some by (simp add: task_holds_def)
  have kd: "\<not> task_holds k ?d" "k < next_key ?d" using k by simp_all
  show ?thesis
  proof (cases t)
    case (Lease_Held e g)
    with d have "books env {#k#} 0 ?d" by simp
    then have "books env {#} 0 (lease_held env k e g ?d)" using kd by (intro books_capacity)
    with Some Lease_Held show ?thesis by (simp add: resume_approval_def)
  next
    case (Awaiting_Capacity e g w)
    with d have "books env {#k#} 0 ?d" by simp
    then have "books env {#} 0 (make_capacity env k e g ?d)" "books env {#} 0 (capacity_continued env k e g ?d)"
      using kd by (auto intro: books_make_capacity books_capacity)
    with Some Awaiting_Capacity b show ?thesis
      by (simp add: resume_approval_def resume_capacity_def split: capacity_wait.split)
  next
    case (Admitted e g)
    with d have "books env {#} 0 ?d" by simp
    with fresh kd have "books env {#} 0 (admitted env k e g ?d)" by (intro books_admitted) simp_all
    with Some Admitted show ?thesis by (simp add: resume_approval_def)
  next
    case (Timer_Checked f)
    with d have "books env {#} 0 ?d" by simp
    moreover from this fresh kd have "books env {#} 0 (authorize env k f ?d)" by (intro books_authorize) simp_all
    ultimately show ?thesis using Some Timer_Checked by (simp add: resume_approval_def)
  next
    case (Resolving f ph m)
    with d have d: "books env {#} 0 ?d" by simp
    have p: "token_free env p b \<and> pending_key p = k" if "ph = Publishing p" for p
      using draft_token [OF b] Some that unfolding Resolving by blast
    then have "books env {#} 0 (continue_flow env k f ph v ?d)" for v
      using d fresh kd by (intro books_continue_flow) (auto intro: token_free_drop)
    moreover have "books env {#} 0 (start_scope env k f ph m' b)" for m'
      using b k p Some Resolving by (intro books_start_scope) (auto simp: task_holds_def)
    ultimately show ?thesis using Some Resolving b d
      by (simp add: resume_approval_def resume_scope_def split: op.split)
  next
    case (Deciding s p q m)
    with d have d: "books env {#} 0 ?d" by simp
    have "books env {#} 0 (put_approval_task k (Deciding s p q m') b)" for m'
      using b k Some Deciding by (intro books_put_task) (auto simp: task_holds_def)
    moreover have "books env {#} 0 (scope_decided env k s p q ok ?d)" for ok
      using d kd by (rule books_scope_decided)
    ultimately show ?thesis using Some Deciding b
      by (simp add: resume_approval_def resume_decision_def split: op.split)
  next
    case (Awaiting_Decision call r)
    with d have "books env {#} 0 ?d" by simp
    with Some Awaiting_Decision b show ?thesis
      by (simp add: resume_approval_def books_log split: option.split)
  next
    case (Disposing ks)
    with d have "books env {#} 0 ?d" by simp
    with Some Disposing b show ?thesis by (simp add: resume_approval_def books_tables)
  qed (use Some b in \<open>simp add: resume_approval_def\<close>)
qed

section \<open>All steps\<close>

lemma books_next:
  assumes b: "books env {#} 0 b" and fresh: "token_fresh env b"
  shows "books env {#} 0 (approval_next env b e)"
  using b fresh
  by (cases e)
    (simp_all add: books_connect books_settling books_log books_decide books_handle_request books_lease_granted
      books_lease_denied books_answer_task books_resume books_dispose)

lemma books_new: "books env {#} 0 new_approval_broker"
  by (simp add: books_def account_defs keys_ok_def tokens_ok_def new_approval_broker_def used_keys_def lease_waiters_def
      drafts_def token_users_def task_leases_def released_def answered_def map_ok_def map_keys_def List.map_filter_def)

end
