(* ===== verification/ApprovalConsent.thy ===== *)
theory ApprovalConsent
  imports ApprovalSteps
begin

text \<open>
  Who can accept. A request is answered with an acceptance only in the step of a client's decision,
  or in the step that ends the check of its file scope, and only for the card that client was shown.
  Everything else the broker does tells the host at most declines and cancels: the relation \<open>calm\<close>
  extends \<open>hush\<close> to the operations that also enter requests.
\<close>

section \<open>What a step tells\<close>

definition tells :: "(approval_effect \<Rightarrow> bool) \<Rightarrow> approval_broker \<Rightarrow> approval_broker \<Rightarrow> bool" where
  "tells Q b b' \<longleftrightarrow> (\<exists>es. history b' = history b @ es \<and> list_all Q es)"

lemma tells_same: "history b' = history b \<Longrightarrow> tells Q b b'"
  by (auto simp: tells_def)

lemma tells_trans: "tells Q a b \<Longrightarrow> tells Q b c \<Longrightarrow> tells Q a c"
  by (fastforce simp: tells_def)

lemma tells_mono: "tells Q a b \<Longrightarrow> (\<And>e. Q e \<Longrightarrow> R e) \<Longrightarrow> tells R a b"
  by (auto simp: tells_def list_all_iff)

lemma tells_log: "tells Q a b \<Longrightarrow> Q e \<Longrightarrow> tells Q a (log_effect e b)"
  by (auto simp: tells_def log_effect_def)

lemma hush_tells: "hush b b' \<Longrightarrow> tells mild b b'"
  by (auto simp: tells_def dest: hush_history)

lemma tells_fields:
  "tells Q a b \<Longrightarrow> tells Q a (asked b)" "tells Q a b \<Longrightarrow> tells Q a (put_approval_task k t b)"
  "tells Q a b \<Longrightarrow> tells Q a (drop_approval_task k b)" "tells Q a b \<Longrightarrow> tells Q a (b\<lparr>respondings := r\<rparr>)"
  by (simp_all add: tells_def asked_def put_approval_task_def drop_approval_task_def)

lemma step_tells:
  "tells Q b (approval_next env b e) \<longleftrightarrow>
     list_all Q (snd (approval_step env b e)) \<and> history (approval_next env b e) = history b @ snd (approval_step env b e)"
  by (auto simp: tells_def approval_step_def)

section \<open>Calm operations\<close>

definition decidings :: "approval_broker \<Rightarrow> (nat \<times> pending_approval \<times> decision_request) set" where
  "decidings b = {(s, p, q). \<exists>k m. (k, Deciding s p q m) \<in> set (approval_tasks b)}"

definition calm :: "approval_broker \<Rightarrow> approval_broker \<Rightarrow> bool" where
  "calm b b' \<longleftrightarrow> decidings b' \<subseteq> decidings b \<and> tells mild b b' \<and> next_token b \<le> next_token b'
     \<and> shut_down b' = shut_down b"

lemma calm_refl: "calm b b"
  by (simp add: calm_def tells_same)

lemma calm_trans: "calm a b \<Longrightarrow> calm b c \<Longrightarrow> calm a c"
  by (auto simp: calm_def intro: tells_trans)

lemma hush_calm: "hush b b' \<Longrightarrow> calm b b'"
  by (simp add: calm_def hush_tells) (simp add: hush_def decidings_def)

lemma calm_hush: "hush b b' \<Longrightarrow> calm a b \<Longrightarrow> calm a b'"
  by (blast intro: calm_trans hush_calm)

lemma task_shut [simp]: "shut_down (put_approval_task k t b) = shut_down b" "shut_down (drop_approval_task k b) = shut_down b"
  by (simp_all add: put_approval_task_def drop_approval_task_def)

lemma decidings_put: "decidings (put_approval_task k t b) \<subseteq> decidings b \<union> {(s, p, q). \<exists>m. t = Deciding s p q m}"
  using set_task_table [of "approval_tasks b" k t] unfolding decidings_def by fastforce

lemma decidings_drop: "decidings (drop_approval_task k b) \<subseteq> decidings b"
  using drop_task_less [of k b] unfolding decidings_def by blast

lemma calm_put: "calm a b \<Longrightarrow> (\<And>s p q m. t \<noteq> Deciding s p q m) \<Longrightarrow> calm a (put_approval_task k t b)"
  using decidings_put [of k t b] unfolding calm_def by (auto intro: tells_fields)

lemma calm_drop: "calm a b \<Longrightarrow> calm a (drop_approval_task k b)"
  using decidings_drop [of k b] unfolding calm_def by (auto intro: tells_fields)

lemma calm_log: "calm a b \<Longrightarrow> mild e \<Longrightarrow> calm a (log_effect e b)"
  by (rule calm_hush, rule hush_log) (simp_all add: hush_refl)

lemma calm_fields:
  "calm a b \<Longrightarrow> calm a (b\<lparr>authorizings := x1\<rparr>)" "calm a b \<Longrightarrow> calm a (b\<lparr>admittings := x2\<rparr>)"
  "calm a b \<Longrightarrow> calm a (b\<lparr>acquirings := x3\<rparr>)" "calm a b \<Longrightarrow> calm a (b\<lparr>leases := x4\<rparr>)"
  "calm a b \<Longrightarrow> calm a (b\<lparr>next_key := x5\<rparr>)" "calm a b \<Longrightarrow> next_token b \<le> x6 \<Longrightarrow> calm a (b\<lparr>next_token := x6\<rparr>)"
  "calm a b \<Longrightarrow> calm a (b\<lparr>authorizings := x1, pendings := x8\<rparr>)"
  "calm a b \<Longrightarrow> calm a (b\<lparr>sessions := ss, thread_roots := tr, file_scopes := fs\<rparr>)"
  "calm a b \<Longrightarrow> calm a (b\<lparr>next_session := ns, records := rs, sessions := ss\<rparr>)"
  by (simp_all add: calm_def decidings_def tells_def)

named_theorems calm_intros \<open>calm operations\<close>

lemma calm_settling [calm_intros]:
  assumes "calm a b"
  shows "calm a (asked b)" "calm a (stop_timer k b)" "calm a (put_timer k t b)" "calm a (release_lease k b)"
    "calm a (abort_generation g b)" "calm a (snd (finish_acquiring k b))" "calm a (snd (finish_responding k ok b))"
    "calm a (snd (complete_admission k b))" "calm a (finish_admission k b)" "calm a (publish_cards env s b)"
    "calm a (snd (still_authorized env k f b))" "calm a (snd (can_respond env k g i b))"
    "calm a (snd (can_acquire env g i b))" "calm a (abandon_where env P b)"
    "calm a (snd (schedule_timer env k delay b))" "calm a (on_timer env k n b)"
    "calm a (cancel_all env (publish_cards env) ps ks b)" "calm a (evict_clients env ss b)"
    "calm a (snd (settle_authorizing env k Cancel b))" "calm a (snd (settle_approval env p Cancel b))"
    "calm a (cancel_flow env k Cancel b)" "calm a (cancel_flow env k Decline b)"
    "calm a (respond_admission env k g i Cancel b)" "calm a (respond_admission env k g i Decline b)"
  by (rule calm_hush [OF _ assms],
      simp add: hush_refl hush_steps hush_put_timer hush_finish_acquiring hush_finish_responding hush_complete_admission
        hush_finish_admission hush_show_cards hush_still_authorized hush_can_respond hush_can_acquire hush_abandon_where
        hush_schedule_timer hush_on_timer hush_cancel hush_evict hush_settle_authorizing hush_settle hush_cancel_flow
        hush_respond_admission)+

lemma calm_start_scope [calm_intros]: "calm a b \<Longrightarrow> calm a (start_scope env k f ph m b)"
  by (simp add: start_scope_def calm_put)

lemma calm_insert_pending [calm_intros]: "calm a b \<Longrightarrow> calm a (insert_pending env k p b)"
  by (simp add: insert_pending_def calm_intros calm_fields)

lemma still_authorized_token [simp]: "next_token (snd (still_authorized env k f b)) = next_token b"
  by (rule hush_keeps(4), rule hush_still_authorized, rule hush_refl)

lemma calm_publish_approval [calm_intros]: "calm a b \<Longrightarrow> calm a (publish_approval env k f s b)"
  by (simp add: publish_approval_def Let_def calm_intros calm_fields split: clock_verdict.split option.split)

lemma calm_authorize [calm_intros]: "calm a b \<Longrightarrow> calm a (authorize env k f b)"
  by (simp add: authorize_def calm_intros split: approval_kind.split)

lemma calm_check [calm_intros]: "calm a b \<Longrightarrow> calm a (check_current env k f ph c b)"
  by (simp add: check_current_def calm_intros)

lemma calm_continue_flow [calm_intros]: "calm a b \<Longrightarrow> calm a (continue_flow env k f ph v b)"
  by (cases ph; cases v) (simp_all add: continue_flow_def Let_def calm_intros split: option.split)

lemma calm_begin_authorizing [calm_intros]: "calm a b \<Longrightarrow> calm a (begin_authorizing env k f b)"
  unfolding begin_authorizing_def Let_def
  by (simp add: calm_intros calm_fields calm_put split: option.split)

lemma calm_admitted [calm_intros]: "calm a b \<Longrightarrow> calm a (admitted env k e g b)"
  unfolding admitted_def Let_def by (simp add: calm_intros split: option.split)

lemma calm_admit_request [calm_intros]: "calm a b \<Longrightarrow> calm a (admit_request env k e g b)"
  unfolding admit_request_def Let_def by (simp add: calm_intros calm_fields calm_put)

lemma calm_make_capacity [calm_intros]: "calm a b \<Longrightarrow> calm a (make_capacity env k e g b)"
proof (induction env k e g b rule: make_capacity.induct)
  case (1 env k e g b)
  show ?case
  proof (cases "\<exists>r x rest. admittings b = [] \<and> respondings b = (r, x) # rest \<and> responding_generation x \<noteq> g
      \<and> \<not> active_approvals b < opt_max_pending (env_options env)")
    case True
    then obtain r x rest where "admittings b = []" "respondings b = (r, x) # rest" "responding_generation x \<noteq> g"
      "\<not> active_approvals b < opt_max_pending (env_options env)" by blast
    moreover from this 1(2) have "calm a (make_capacity env k e g (snd (finish_responding r False b)))"
      by (intro 1(1)) (simp_all add: calm_intros)
    ultimately show ?thesis by (simp add: make_capacity.simps [of env k e g b])
  next
    case False
    with 1(2) show ?thesis
      by (subst make_capacity.simps)
        (auto simp: calm_intros calm_put Let_def split: list.split)
  qed
qed

lemma calm_capacity [calm_intros]:
  "calm a b \<Longrightarrow> calm a (lease_held env k e g b)" "calm a b \<Longrightarrow> calm a (capacity_continued env k e g b)"
  by (simp_all add: lease_held_def capacity_continued_def Let_def calm_intros)

lemma calm_reserve [calm_intros]: "calm a b \<Longrightarrow> calm a (snd (reserve_acquisition env k g i b))"
  by (simp add: reserve_acquisition_def Let_def calm_intros calm_fields)

lemma calm_handle_request [calm_intros]: "calm a b \<Longrightarrow> calm a (handle_server_request env v g b)"
  unfolding handle_server_request_def Let_def
  by (simp add: calm_intros calm_fields calm_put calm_log split: option.split)

lemma calm_lease_granted [calm_intros]: "calm a b \<Longrightarrow> calm a (lease_granted k g b)"
  by (simp add: lease_granted_def Let_def calm_intros calm_fields calm_put calm_drop split: option.split approval_task.split)

lemma calm_lease_denied [calm_intros]: "calm a b \<Longrightarrow> calm a (lease_denied k b)"
  by (simp add: lease_denied_def calm_intros calm_drop split: option.split approval_task.split)

lemma calm_connect [calm_intros]: "calm a b \<Longrightarrow> calm a (connect_client env b)"
  unfolding connect_client_def Let_def by (intro calm_fields calm_intros)

text \<open>Disposal settles everything and then waits for the answers that are under way.\<close>

definition dispose_tables :: "approval_env \<Rightarrow> approval_broker \<Rightarrow> approval_broker" where
  "dispose_tables env b =
     (let b1 = fold (\<lambda>(k, a) b. snd (finish_acquiring k b)) (acquirings b) (b\<lparr>shut_down := True\<rparr>);
          b2 = fold (\<lambda>(k, a) b. finish_admission k b) (admittings b) b1;
          b3 = fold (\<lambda>(k, r) b. snd (finish_responding k False b)) (respondings b) b2;
          b4 = fold abort_generation
                 (rev (remdups (rev (map (acquiring_generation \<circ> snd) (acquirings b)
                   @ map (admitting_generation \<circ> snd) (admittings b) @ map (responding_generation \<circ> snd) (respondings b))))) b3
      in cancel_all env (publish_cards env) (map snd (pendings b4)) (map fst (authorizings b4)) b4)"

lemma dispose_alt:
  "dispose_approvals env b =
     (if shut_down b then b
      else let c = dispose_tables env b
           in put_approval_task (next_key c) (Disposing (map fst (respondings c))) (c\<lparr>next_key := next_key c + 1\<rparr>))"
  by (simp only: dispose_approvals_def dispose_tables_def Let_def)

lemma hush_dispose_tables: "hush (b\<lparr>shut_down := True\<rparr>) (dispose_tables env b)"
  unfolding dispose_tables_def Let_def
  by (rule hush_cancel, intro hush_fold hush_abort hush_refl)
    (auto intro: hush_finish_acquiring hush_finish_admission hush_finish_responding)

lemma calm_dispose: "\<not> shut_down b \<Longrightarrow> calm (b\<lparr>shut_down := True\<rparr>) (dispose_approvals env b)"
proof -
  have "calm (b\<lparr>shut_down := True\<rparr>) (dispose_tables env b)" by (rule calm_hush [OF hush_dispose_tables]) (rule calm_refl)
  then show "\<not> shut_down b \<Longrightarrow> ?thesis" by (simp add: dispose_alt Let_def calm_fields calm_put)
qed

section \<open>Decisions\<close>

text \<open>Settling answers with the decision it is given, and otherwise declines and cancels.\<close>

abbreviation answer_of :: "pending_approval \<Rightarrow> decision \<Rightarrow> approval_effect" where
  "answer_of p d \<equiv> Answered_Request (pending_key p) (pending_generation p) (pending_request p) d"

lemma respond_tells: "tells (\<lambda>e. mild e \<or> e = Answered_Request k g i d) b (respond_and_release env k g i d b)"
proof -
  let ?Q = "\<lambda>e. mild e \<or> e = Answered_Request k g i d"
  have quiet: "tells ?Q a (snd (finish_responding k ok c))" "tells ?Q a (timeout_responding k c)"
    "tells ?Q a (clear_handle h c)" "tells ?Q a (abort_generation g' c)" if "tells ?Q a c" for a c ok h g'
    by (rule tells_trans [OF that], rule tells_mono [OF hush_tells],
        simp add: hush_refl hush_finish_responding hush_timeout_responding hush_steps, simp)+
  have "tells ?Q b b'" if "history b' = history b" for b' using that by (rule tells_same)
  then show ?thesis
    unfolding respond_and_release_def Let_def
    by (auto intro!: quiet tells_log tells_fields split: schedule_answer.split)
qed

lemma settle_tells: "tells (\<lambda>e. mild e \<or> e = answer_of p d) b (snd (settle_approval env p d b))"
proof -
  let ?b1 = "stop_timer (pending_key p) (b\<lparr>pendings := map_delete (pendings b) (pending_token p)\<rparr>)"
  let ?b2 = "if pending_owner p \<in> set (sessions ?b1) then publish_cards env (pending_owner p) ?b1 else ?b1"
  have "hush b ?b2" by (simp add: hush_show_cards hush_steps hush_refl)
  then have "tells (\<lambda>e. mild e \<or> e = answer_of p d) b ?b2" by (blast intro: tells_mono hush_tells)
  from tells_trans [OF this respond_tells]
  show ?thesis by (simp add: settle_approval_def settle_with_def Let_def tells_same)
qed

lemma settle_decidings: "decidings (snd (settle_approval env p d b)) = decidings b"
proof -
  have "hush b (snd (settle_approval env p Cancel b))" by (rule hush_settle) (simp_all add: hush_refl)
  then show ?thesis
    using same_but_history(1) [OF settle_decision [of env p d b]] hush_keeps(1) by (simp add: decidings_def)
qed

lemma final_tells:
  "tells (\<lambda>e. mild e \<or> e = answer_of p d) b (final_decision env call p d b)"
  "decidings (final_decision env call p d b) \<subseteq> decidings b"
proof -
  let ?b1 = "snd (settle_approval env p d b)"
  have "tells (\<lambda>e. mild e \<or> e = answer_of p d) b ?b1" by (rule settle_tells)
  then show "tells (\<lambda>e. mild e \<or> e = answer_of p d) b (final_decision env call p d b)"
    by (auto simp: final_decision_def Let_def intro: tells_fields tells_log)
  have "decidings (log_effect x ?b1) = decidings ?b1" for x by (simp add: decidings_def)
  with settle_decidings [of env p d b] decidings_put [of call "Awaiting_Decision call (pending_key p)" ?b1]
  show "decidings (final_decision env call p d b) \<subseteq> decidings b"
    by (auto simp: final_decision_def Let_def)
qed

text \<open>The clock is read before the decision counts.\<close>

lemma timed_tells:
  "tells (\<lambda>e. mild e \<or> e = answer_of p d \<and> (\<exists>n. read_clock env (pending_issued p) (pending_expires p) b = Clock_Before n))
     b (timed_decision env call p d b)" (is "tells ?Q b _")
  "decidings (timed_decision env call p d b) \<subseteq> decidings b"
proof -
  let ?v = "read_clock env (pending_issued p) (pending_expires p) b"
  have ask: "tells ?Q b (asked b)" by (intro tells_fields tells_same) simp
  have "tells (\<lambda>e. mild e \<or> e = answer_of p (case ?v of Clock_Bad \<Rightarrow> Decline | Clock_Late \<Rightarrow> Cancel | Clock_Before _ \<Rightarrow> d))
      (asked b) (timed_decision env call p d b)"
    unfolding timed_decision_def by (rule final_tells)
  then have "tells ?Q (asked b) (timed_decision env call p d b)"
    by (rule tells_mono) (auto split: clock_verdict.splits)
  with ask show "tells ?Q b (timed_decision env call p d b)" by (rule tells_trans)
  have "decidings (asked b) = decidings b" by (simp add: decidings_def)
  with final_tells(2) show "decidings (timed_decision env call p d b) \<subseteq> decidings b"
    unfolding timed_decision_def by blast
qed

text \<open>A decision that waits for its file scope was checked against the card when it arrived.\<close>

definition decision_fits :: "pending_approval \<Rightarrow> decision_request \<Rightarrow> bool" where
  "decision_fits p q \<longleftrightarrow>
     pending_token p = decided_token q \<and> constant_time_equal (pending_fingerprint p) (decided_fingerprint q)
     \<and> decided q \<in> set (pending_decisions p)"

definition decidings_fit :: "approval_broker \<Rightarrow> bool" where
  "decidings_fit b \<longleftrightarrow> (\<forall>(s, p, q) \<in> decidings b. decision_fits p q)"

text \<open>What an acceptance rests on: a pending card, decided by the client that owns it now, unexpired.\<close>

definition consents :: "approval_env \<Rightarrow> approval_broker \<Rightarrow> nat \<Rightarrow> pending_approval \<Rightarrow> decision_request \<Rightarrow> bool" where
  "consents env b s p q \<longleftrightarrow>
     is_pending p b \<and> owns_pending s p b \<and> decision_fits p q
     \<and> (\<exists>n. read_clock env (pending_issued p) (pending_expires p) b = Clock_Before n)"

text \<open>What a client's decision lets the broker say in the same step.\<close>

definition direct_answer :: "approval_env \<Rightarrow> approval_broker \<Rightarrow> nat \<Rightarrow> jsvalue \<Rightarrow> approval_effect \<Rightarrow> bool" where
  "direct_answer env b s v e \<longleftrightarrow> mild e
     \<or> (\<exists>p q. validate_decision_request (px_of env) v = Some q \<and> e = answer_of p (decided q)
          \<and> pending_scope_fingerprint p = None \<and> consents env b s p q)"

lemma pending_at:
  assumes "books env H c b" "map_get (pendings b) t = Some p"
  shows "is_pending p b" "pending_token p = t"
proof -
  have "(t, p) \<in> set (pendings b)" using assms(2) by (simp add: map_get_def map_of_SomeD)
  then show "pending_token p = t" using books_accounts [OF assms(1)] by (simp add: accounts_def)
  with assms(2) show "is_pending p b" by (simp add: is_pending_def)
qed

lemma decide_cases:
  assumes "\<And>r. P (log_effect (Decision_Result (next_key b) r) (b\<lparr>next_key := next_key b + 1\<rparr>))"
    and "\<And>q p m. validate_decision_request (px_of env) v = Some q \<Longrightarrow> map_get (pendings b) (decided_token q) = Some p
      \<Longrightarrow> owns_pending s p b \<Longrightarrow> constant_time_equal (pending_fingerprint p) (decided_fingerprint q)
      \<Longrightarrow> decided q \<in> set (pending_decisions p)
      \<Longrightarrow> P (put_approval_task (next_key b) (Deciding s p q m) (b\<lparr>next_key := next_key b + 1\<rparr>))"
    and "\<And>q p. validate_decision_request (px_of env) v = Some q \<Longrightarrow> map_get (pendings b) (decided_token q) = Some p
      \<Longrightarrow> owns_pending s p b \<Longrightarrow> constant_time_equal (pending_fingerprint p) (decided_fingerprint q)
      \<Longrightarrow> decided q \<in> set (pending_decisions p) \<Longrightarrow> pending_scope_fingerprint p = None
      \<Longrightarrow> P (timed_decision env (next_key b) p (decided q) (b\<lparr>next_key := next_key b + 1\<rparr>))"
  shows "P (decide env s v b)"
proof -
  have owns: "owns_pending s p (b\<lparr>next_key := n\<rparr>) = owns_pending s p b" for p n
    by (simp add: owns_pending_def session_of_def)
  show ?thesis
    using assms unfolding decide_def Let_def
    by (simp del: One_nat_def add: owns split: option.split)
qed

lemma decide_tells:
  assumes ok: "books env H c b"
  shows "tells (direct_answer env b s v) b (decide env s v b)"
proof -
  let ?b = "b\<lparr>next_key := next_key b + 1\<rparr>"
  have same: "tells Q b ?b" for Q by (rule tells_same) simp
  show ?thesis
  proof (rule decide_cases)
    show "tells (direct_answer env b s v) b (log_effect (Decision_Result (next_key b) r) ?b)" for r
      by (rule tells_log [OF same]) (simp add: direct_answer_def)
    show "tells (direct_answer env b s v) b (put_approval_task (next_key b) (Deciding s p q m) ?b)" for p q m
      by (rule tells_fields [OF same])
  next
    fix q :: decision_request and p
    assume a: "validate_decision_request (px_of env) v = Some q" "map_get (pendings b) (decided_token q) = Some p"
      "owns_pending s p b" "constant_time_equal (pending_fingerprint p) (decided_fingerprint q)"
      "decided q \<in> set (pending_decisions p)" "pending_scope_fingerprint p = None"
    have clock: "read_clock env i x ?b = read_clock env i x b" for i x by (simp add: read_clock_def)
    have fits: "decision_fits p q" using a pending_at(2) [OF ok a(2)] by (simp add: decision_fits_def)
    show "tells (direct_answer env b s v) b (timed_decision env (next_key b) p (decided q) ?b)"
      by (rule tells_trans [OF same], rule tells_mono [OF timed_tells(1)])
        (use a(1,3,6) pending_at(1) [OF ok a(2)] fits in \<open>auto simp: direct_answer_def consents_def clock simp del: One_nat_def\<close>)
  qed
qed

lemma decide_decidings:
  assumes ok: "books env H c b"
  shows "decidings (decide env s v b) \<subseteq> decidings b \<union> {(s, p, q). decision_fits p q}"
proof -
  let ?b = "b\<lparr>next_key := next_key b + 1\<rparr>"
  have same: "decidings ?b = decidings b" "decidings (log_effect x ?b) = decidings b" for x by (simp_all add: decidings_def)
  show ?thesis
  proof (rule decide_cases)
    show "decidings (timed_decision env (next_key b) p (decided q) ?b) \<subseteq> decidings b \<union> {(s, p, q). decision_fits p q}" for p q
      using timed_tells(2) [of env "next_key b" p "decided q" ?b] same(1) by blast
  next
    fix q :: decision_request and p m
    assume "map_get (pendings b) (decided_token q) = Some p" "decided q \<in> set (pending_decisions p)"
      "constant_time_equal (pending_fingerprint p) (decided_fingerprint q)"
    then have "decision_fits p q" using pending_at [OF ok] by (simp add: decision_fits_def)
    then show "decidings (put_approval_task (next_key b) (Deciding s p q m) ?b) \<subseteq> decidings b \<union> {(s, p, q). decision_fits p q}"
      using decidings_put [of "next_key b" "Deciding s p q m" ?b] same(1) by auto
  qed (use same(2) in blast)
qed

text \<open>The other steps.\<close>

lemma calm_answer_task: "calm b (answer_task env k scope path b)"
proof -
  have "calm b (put_approval_task k (Deciding s p q m') b)"
    if "map_get (approval_tasks b) k = Some (Deciding s p q m)" for s p q m m'
  proof -
    have "(s, p, q) \<in> decidings b" using that unfolding decidings_def map_get_def by (blast dest: map_of_SomeD)
    then show ?thesis
      using decidings_put [of k "Deciding s p q m'" b] by (auto simp: calm_def intro: tells_fields tells_same)
  qed
  then show ?thesis
    by (simp add: answer_task_def calm_intros calm_refl split: option.split approval_task.split)
qed

lemma calm_resume:
  assumes "\<And>s p q m. map_get (approval_tasks b) k \<noteq> Some (Deciding s p q m)"
  shows "calm b (resume_approval env k b)"
proof -
  have d: "calm b (drop_approval_task k b)" by (intro calm_drop calm_refl)
  show ?thesis
    using assms d
    by (auto simp: resume_approval_def resume_scope_def resume_capacity_def calm_intros calm_refl calm_log calm_fields
        split: option.split approval_task.split op.split capacity_wait.split)
qed

lemma resume_tells:
  assumes "decidings_fit b"
  shows "tells (\<lambda>e. mild e \<or> (\<exists>s p q. map_get (approval_tasks b) k = Some (Deciding s p q (Finished True))
      \<and> e = answer_of p (decided q) \<and> consents env b s p q)) b (resume_approval env k b)" (is "tells ?Q b _")
    and "decidings (resume_approval env k b) \<subseteq> decidings b"
proof -
  have goal: "tells ?Q b (resume_approval env k b) \<and> decidings (resume_approval env k b) \<subseteq> decidings b"
  proof (cases "\<exists>s p q m. map_get (approval_tasks b) k = Some (Deciding s p q m)")
    case False
    then have "calm b (resume_approval env k b)" by (intro calm_resume) blast
    then show ?thesis by (auto simp: calm_def elim: tells_mono)
  next
    case True
    then obtain s p q m where t: "map_get (approval_tasks b) k = Some (Deciding s p q m)" by blast
    then have mem: "(s, p, q) \<in> decidings b" unfolding decidings_def map_get_def by (blast dest: map_of_SomeD)
    then have fits: "decision_fits p q" using assms by (auto simp: decidings_fit_def)
    let ?d = "drop_approval_task k b"
    have d: "tells Q b ?d" for Q by (intro tells_fields tells_same) simp
    have dd: "decidings ?d \<subseteq> decidings b" by (rule decidings_drop)
    have put: "tells ?Q b (put_approval_task k (Deciding s p q m') b)"
      "decidings (put_approval_task k (Deciding s p q m') b) \<subseteq> decidings b" for m'
      using decidings_put [of k "Deciding s p q m'" b] mem by (auto intro: tells_fields tells_same)
    have views: "is_pending p ?d = is_pending p b" "owns_pending s p ?d = owns_pending s p b"
      "read_clock env i x ?d = read_clock env i x b" for i x
      by (simp_all add: is_pending_def owns_pending_def session_of_def read_clock_def drop_approval_task_def)
    have decided: "tells ?Q b (scope_decided env k s p q ok ?d) \<and> decidings (scope_decided env k s p q ok ?d) \<subseteq> decidings b"
      if ok: "m = Finished ok" for ok
    proof -
      consider "\<not> is_pending p b" | "is_pending p b" "\<not> ok \<or> \<not> owns_pending s p b" | "is_pending p b" "ok" "owns_pending s p b"
        by blast
      then show ?thesis
      proof cases
        case 1
        then have "scope_decided env k s p q ok ?d = log_effect (Decision_Result k (Was_Rejected Stale_Approval)) ?d"
          by (simp add: scope_decided_def views)
        moreover have "decidings (log_effect x ?d) = decidings ?d" for x by (simp add: decidings_def)
        ultimately show ?thesis using dd d [of ?Q] by (simp add: tells_log)
      next
        case 2
        then have eq: "scope_decided env k s p q ok ?d = final_decision env k p Cancel ?d"
          by (auto simp: scope_decided_def views)
        have "tells ?Q ?d (final_decision env k p Cancel ?d)"
          by (rule tells_mono [OF final_tells(1)]) auto
        with final_tells(2) [of env k p Cancel ?d] dd d [of ?Q] show ?thesis by (auto simp: eq intro: tells_trans)
      next
        case 3
        then have eq: "scope_decided env k s p q ok ?d = timed_decision env k p (decided q) ?d"
          by (simp add: scope_decided_def views)
        have "tells ?Q ?d (timed_decision env k p (decided q) ?d)"
          by (rule tells_mono [OF timed_tells(1)]) (use 3 t ok fits in \<open>auto simp: consents_def views\<close>)
        with timed_tells(2) [of env k p "decided q" ?d] dd d [of ?Q] show ?thesis by (auto simp: eq intro: tells_trans)
      qed
    qed
    have stay: "tells ?Q b b" by (rule tells_same) simp
    have eq: "resume_approval env k b = resume_decision env k s p q m b" using t by (simp add: resume_approval_def)
    show ?thesis
    proof (cases m)
      case (Finished ok)
      with decided [OF Finished] show ?thesis by (simp only: eq resume_decision_def op.case)
    next
      case (Later m')
      with put show ?thesis by (simp only: eq resume_decision_def op.case)
    qed (use stay in \<open>simp_all only: eq resume_decision_def op.case subset_refl simp_thms\<close>)
  qed
  from goal show "tells ?Q b (resume_approval env k b)" "decidings (resume_approval env k b) \<subseteq> decidings b" by blast+
qed

lemma calm_next:
  assumes "e \<noteq> Dispose_Approvals" "\<And>s v. e \<noteq> Decide s v"
    "\<And>k s p q m. e = Resume_Task k \<Longrightarrow> map_get (approval_tasks b) k \<noteq> Some (Deciding s p q m)"
  shows "calm b (approval_next env b e)"
proof -
  have hush: "calm b (set_context env s v b)" "calm b (dispose_context env s b)" "calm b (disconnect env s b)"
    "calm b (timeout_responding k b)" "calm b (close_context env v b)" "calm b (host_notification env v g b)"
    "calm b (host_state_changed env r g b)" for s v k g r
    by (rule hush_calm, simp add: hush_refl hush_set_context hush_dispose_context hush_disconnect hush_timeout_responding
        hush_close_context hush_notification hush_host_state)+
  show ?thesis
  proof (cases e)
    case (Decide s v)
    with assms(2) show ?thesis by blast
  next
    case (Resume_Task k)
    with assms(3) show ?thesis by (simp add: calm_resume)
  next
    case Dispose_Approvals
    with assms(1) show ?thesis by blast
  qed (simp_all add: hush calm_refl calm_intros calm_log calm_answer_task)
qed

text \<open>Disposal only differs from these in that it shuts the broker down.\<close>

lemma mild_next:
  assumes "\<And>s v. e \<noteq> Decide s v"
    "\<And>k s p q m. e = Resume_Task k \<Longrightarrow> map_get (approval_tasks b) k \<noteq> Some (Deciding s p q m)"
  shows "decidings (approval_next env b e) \<subseteq> decidings b" "tells mild b (approval_next env b e)"
    "next_token b \<le> next_token (approval_next env b e)"
proof -
  have "decidings (approval_next env b e) \<subseteq> decidings b \<and> tells mild b (approval_next env b e)
      \<and> next_token b \<le> next_token (approval_next env b e)"
  proof (cases "e = Dispose_Approvals \<and> \<not> shut_down b")
    case True
    then have "calm (b\<lparr>shut_down := True\<rparr>) (approval_next env b e)" by (simp add: calm_dispose)
    then show ?thesis by (simp add: calm_def decidings_def tells_def)
  next
    case False
    then have "calm b (approval_next env b e)"
      using calm_next [OF _ assms] calm_refl by (cases "e = Dispose_Approvals") (auto simp: dispose_alt)
    then show ?thesis by (simp add: calm_def)
  qed
  then show "decidings (approval_next env b e) \<subseteq> decidings b" "tells mild b (approval_next env b e)"
    "next_token b \<le> next_token (approval_next env b e)" by blast+
qed

section \<open>In every run\<close>

lemma settle_token: "next_token (snd (settle_approval env p d b)) = next_token b"
proof -
  have "hush b (snd (settle_approval env p Cancel b))" by (rule hush_settle) (simp_all add: hush_refl)
  then show ?thesis using same_but_history(4) [OF settle_decision [of env p d b]] hush_keeps(4) by simp
qed

definition extends :: "approval_broker \<Rightarrow> approval_broker \<Rightarrow> bool" where
  "extends b b' \<longleftrightarrow> tells (\<lambda>_. True) b b' \<and> next_token b \<le> next_token b'"

lemma calm_extends: "calm b b' \<Longrightarrow> extends b b'"
  by (auto simp: calm_def extends_def elim: tells_mono)

lemma extends_trans: "extends a b \<Longrightarrow> extends b c \<Longrightarrow> extends a c"
  by (auto simp: extends_def intro: tells_trans)

lemma extends_final: "extends b (final_decision env call p d b)"
proof -
  have "next_token (final_decision env call p d b) = next_token b"
    using settle_token [of env p d b] by (simp add: final_decision_def Let_def log_effect_def)
  with final_tells(1) [of p d b env call] show ?thesis by (auto simp: extends_def elim: tells_mono)
qed

lemma extends_timed: "extends b (timed_decision env call p d b)"
  unfolding timed_decision_def
  by (rule extends_trans [OF _ extends_final]) (auto simp: extends_def intro: tells_fields tells_same)

lemma next_extends: "extends b (approval_next env b e)"
proof -
  have put: "calm b b' \<Longrightarrow> extends b (put_approval_task k t b')" for b' k t
    by (auto simp: calm_def extends_def intro: tells_fields elim: tells_mono)
  consider s v where "e = Decide s v" | k where "e = Resume_Task k" "\<exists>s p q m. map_get (approval_tasks b) k = Some (Deciding s p q m)"
    | "\<And>s v. e \<noteq> Decide s v" "\<And>k. e = Resume_Task k \<Longrightarrow> \<nexists>s p q m. map_get (approval_tasks b) k = Some (Deciding s p q m)" by blast
  then show ?thesis
  proof cases
    case 1
    have same: "calm b (b\<lparr>next_key := next_key b + 1\<rparr>)" by (intro calm_fields calm_refl)
    have "extends b (decide env s v b)"
    proof (rule decide_cases)
      show "extends b (log_effect (Decision_Result (next_key b) r) (b\<lparr>next_key := next_key b + 1\<rparr>))" for r
        by (rule calm_extends, rule calm_log [OF same]) simp
    qed (blast intro: put same calm_extends extends_trans [OF _ extends_timed])+
    with 1 show ?thesis by simp
  next
    case 2
    then obtain s p q m where t: "map_get (approval_tasks b) k = Some (Deciding s p q m)" by blast
    have d: "calm b (drop_approval_task k b)" by (intro calm_drop calm_refl)
    have late: "extends b (log_effect (Decision_Result k r) (drop_approval_task k b))" for r
      by (rule calm_extends, rule calm_log [OF d]) simp
    have "extends b (resume_decision env k s p q m b)"
      by (cases m) (auto simp: resume_decision_def scope_decided_def
          intro: put late calm_refl calm_extends d extends_trans [OF _ extends_timed] extends_trans [OF _ extends_final])
    with 2 t show ?thesis by (simp add: resume_approval_def)
  next
    case 3
    then have "tells mild b (approval_next env b e)" "next_token b \<le> next_token (approval_next env b e)"
      by (intro mild_next; blast)+
    then show ?thesis by (auto simp: extends_def elim: tells_mono)
  qed
qed

text \<open>Only disposal shuts the broker down.\<close>

lemma settle_shut: "shut_down (snd (settle_approval env p d b)) = shut_down b"
proof -
  have "hush b (snd (settle_approval env p Cancel b))" by (rule hush_settle) (simp_all add: hush_refl)
  then show ?thesis using same_but_history(9) [OF settle_decision [of env p d b]] hush_keeps(5) by simp
qed

lemma final_shut: "shut_down (final_decision env call p d b) = shut_down b"
  using settle_shut [of env p d b] by (simp add: final_decision_def Let_def log_effect_def put_approval_task_def)

lemma shut_next: "e \<noteq> Dispose_Approvals \<Longrightarrow> shut_down (approval_next env b e) = shut_down b"
proof -
  have timed: "shut_down (timed_decision env k p d c) = shut_down c" for k p d c
    by (simp add: timed_decision_def final_shut) (simp add: asked_def)
  assume e: "e \<noteq> Dispose_Approvals"
  consider s v where "e = Decide s v" | k s p q m where "e = Resume_Task k" "map_get (approval_tasks b) k = Some (Deciding s p q m)"
    | "\<And>s v. e \<noteq> Decide s v" "\<And>k s p q m. e = Resume_Task k \<Longrightarrow> map_get (approval_tasks b) k \<noteq> Some (Deciding s p q m)" by blast
  then show ?thesis
  proof cases
    case 1
    have "shut_down (decide env s v b) = shut_down b"
      by (rule decide_cases) (simp_all add: timed log_effect_def put_approval_task_def)
    with 1 show ?thesis by simp
  next
    case 2
    have d: "shut_down (drop_approval_task k c) = shut_down c" for c by (simp add: drop_approval_task_def)
    show ?thesis using 2
      by (cases m) (simp_all add: resume_approval_def resume_decision_def scope_decided_def timed final_shut d
          log_effect_def put_approval_task_def)
  next
    case 3
    with e have "calm b (approval_next env b e)" by (intro calm_next) blast+
    then show ?thesis by (simp add: calm_def)
  qed
qed

text \<open>What a run says is its history.\<close>

lemma step_history: "history (approval_next env b e) = history b @ snd (approval_step env b e)"
  using next_extends [of b env e] by (auto simp: extends_def tells_def approval_step_def)

lemma run_history:
  "history (fst (run_machine (approval_step env) b es)) = history b @ snd (run_machine (approval_step env) b es)"
proof (induction es arbitrary: b)
  case (Cons e es)
  have "fst (approval_step env b e) = approval_next env b e" by (simp add: approval_step_def)
  with Cons [of "approval_next env b e"] step_history [of env b e] show ?case by simp
qed simp

interpretation token_count: monotone_machine "approval_step env" "\<lambda>b b'. next_token b \<le> next_token b'" for env
  by unfold_locales (use next_extends in \<open>auto simp: approval_step_def extends_def\<close>)

lemma decidings_fit_next:
  assumes "books env {#} 0 b" "decidings_fit b"
  shows "decidings_fit (approval_next env b e)"
proof -
  have "decidings (approval_next env b e) \<subseteq> decidings b \<union> {(s, p, q). decision_fits p q}"
  proof (cases "(\<exists>s v. e = Decide s v) \<or> (\<exists>k. e = Resume_Task k)")
    case True
    with decide_decidings [OF assms(1)] resume_tells(2) [OF assms(2)] show ?thesis by fastforce
  next
    case False
    then have "decidings (approval_next env b e) \<subseteq> decidings b" by (intro mild_next) blast+
    then show ?thesis by blast
  qed
  with assms(2) show ?thesis unfolding decidings_fit_def by blast
qed

text \<open>The invariant of all runs that draw no token twice; \<open>n\<close> bounds the tokens drawn.\<close>

definition consent_inv :: "nat \<Rightarrow> approval_env \<Rightarrow> approval_broker \<Rightarrow> bool" where
  "consent_inv n env b \<longleftrightarrow>
     (inj_on (env_token env) {..n} \<longrightarrow> next_token b \<le> n \<longrightarrow> books env {#} 0 b \<and> decidings_fit b)"

lemma token_freshI: "inj_on (env_token env) {..n} \<Longrightarrow> next_token b \<le> n \<Longrightarrow> token_fresh env b"
  by (auto simp: token_fresh_def inj_on_def)

interpretation consent: stateful "approval_step env" "consent_inv n env" for n env
proof
  fix b e assume b: "consent_inv n env b"
  show "consent_inv n env (fst (approval_step env b e))"
    unfolding consent_inv_def
  proof (intro impI)
    assume i: "inj_on (env_token env) {..n}" "next_token (fst (approval_step env b e)) \<le> n"
    have "next_token b \<le> n" using i(2) next_extends [of b env e] by (simp add: approval_step_def extends_def)
    with b i(1) have "books env {#} 0 b" "decidings_fit b" "token_fresh env b"
      by (auto simp: consent_inv_def intro: token_freshI)
    then show "books env {#} 0 (fst (approval_step env b e)) \<and> decidings_fit (fst (approval_step env b e))"
      by (simp add: approval_step_def books_next decidings_fit_next)
  qed
qed

abbreviation approvals_after :: "approval_env \<Rightarrow> approval_event list \<Rightarrow> approval_broker" where
  "approvals_after env es \<equiv> fst (run_machine (approval_step env) new_approval_broker es)"

definition tokens_distinct :: "approval_env \<Rightarrow> approval_event list \<Rightarrow> bool" where
  "tokens_distinct env es \<longleftrightarrow> inj_on (env_token env) {..next_token (approvals_after env es)}"

lemma approvals_run:
  assumes "tokens_distinct env es"
  shows "books env {#} 0 (approvals_after env es)" "decidings_fit (approvals_after env es)"
proof -
  let ?n = "next_token (approvals_after env es)"
  have "decidings_fit new_approval_broker" by (simp add: decidings_fit_def decidings_def new_approval_broker_def)
  then have "consent_inv ?n env new_approval_broker" by (simp add: consent_inv_def books_new)
  then have "consent_inv ?n env (approvals_after env es)" by (rule consent.run_inv)
  with assms show "books env {#} 0 (approvals_after env es)" "decidings_fit (approvals_after env es)"
    by (simp_all add: consent_inv_def tokens_distinct_def)
qed

end
