(* ===== verification/ApprovalSample.thy ===== *)
theory ApprovalSample
  imports ApprovalConsent
begin

text \<open>
  A concrete host and client for the witnesses: a command approval that is shown, and can then be
  accepted or run into its expiry. The clock stands at 1000 for the first questions and then passes
  the expiry.
\<close>

definition letters :: "nat \<Rightarrow> jsstr" where
  "letters n = replicate 42 0x41 @ [0x41 + of_nat n]"

definition sample_options :: approval_options where
  "sample_options =
     \<lparr>opt_ttl = 60000, opt_response_timeout = 2000, opt_max_pending = 4, opt_max_clients = 2, opt_style = Posix,
      opt_tracked = True\<rparr>"

definition sample_env :: approval_env where
  "sample_env =
     \<lparr>env_platform = \<lparr>is_proxy = (\<lambda>_. False), path_functions = posix_paths (js ''/''), lower_case = (\<lambda>s. s),
        digest = (\<lambda>s. letters 0)\<rparr>,
      env_options = sample_options, env_now = (\<lambda>n. Some (JsNumber (NInt (if n < 12 then 1000 else 61000)))), env_schedule = (\<lambda>_. Scheduled False),
      env_dispose = (\<lambda>_. True), env_allow_session = (\<lambda>_ _. Some True),
      env_snapshot = (\<lambda>_. Some (object_of [(''state'', JsText (js ''ready'')), (''generation'', JsNumber (NInt 1))])),
      env_owns = (\<lambda>_ _ _. True), env_acquire = (\<lambda>_. True), env_respond = (\<lambda>_. True), env_client = (\<lambda>_. True),
      env_token = letters\<rparr>"

definition sample_context :: jsvalue where
  "sample_context =
     object_of [(''generation'', JsNumber (NInt 1)), (''threadId'', JsText (js ''t'')), (''turnId'', JsText (js ''u''))]"

definition sample_request :: jsvalue where
  "sample_request =
     object_of [(''id'', JsNumber (NInt 7)), (''method'', JsText (js ''item/commandExecution/requestApproval'')),
       (''params'', object_of [(''threadId'', JsText (js ''t'')), (''turnId'', JsText (js ''u'')),
          (''itemId'', JsText (js ''i'')), (''startedAtMs'', JsNumber (NInt 5)), (''command'', JsText (js ''ls''))])]"

definition sample_decision :: "string \<Rightarrow> jsvalue" where
  "sample_decision d =
     object_of [(''token'', JsText (letters 0)), (''fingerprint'', JsText (letters 0)), (''decision'', JsText (js d))]"

definition sample_events :: "approval_event list" where
  "sample_events =
     [Connect, Set_Context 1 sample_context, Server_Asked sample_request 1, Lease_Granted 0 1, Resume_Task 0,
      Resume_Task 0]"

lemma fst_run_approvals: "fst (run_machine (approval_step env) b es) = foldl (approval_next env) b es"
  by (induction es arbitrary: b) (simp_all add: approval_step_def)

lemma letters_distinct: "inj_on letters {..1}"
  by (auto simp: inj_on_def letters_def le_Suc_eq)

lemma sample_tokens: "env_token sample_env = letters"
  by (simp add: sample_env_def)

lemma letters_opaque: "is_opaque_sha256 (letters 0)"
  by (simp add: letters_def is_opaque_sha256_def) code_simp

definition sample_card :: approval_card where
  "sample_card =
     \<lparr>card_kind = Command_Approval, card_token = letters 0, card_fingerprint = letters 0, card_expires = 61000,
      card_scope = Command_Scope (Some (js ''ls'')) None None None,
      card_decisions = [Accept, Accept_For_Session, Decline, Cancel]\<rparr>"

definition sample_pending :: pending_approval where
  "sample_pending =
     \<lparr>pending_key = 0, pending_token = letters 0, pending_fingerprint = letters 0, pending_generation = 1,
      pending_request = Id_Number 7, pending_thread = js ''t'', pending_turn = js ''u'', pending_item = js ''i'',
      pending_scope_fingerprint = None, pending_real_fingerprint = None, pending_owner = 1, pending_revision = 1,
      pending_issued = 1000, pending_expires = 61000,
      pending_decisions = [Accept, Accept_For_Session, Decline, Cancel], pending_card = sample_card\<rparr>"

definition sample_session :: approval_session where
  "sample_session =
     \<lparr>session_context = Some \<lparr>context_generation = 1, context_thread = js ''t'', context_turn = js ''u''\<rparr>,
      session_revision = 1, session_disposed = False\<rparr>"

definition sample_shown :: approval_broker where
  "sample_shown = new_approval_broker
     \<lparr>records := [(1, sample_session)], sessions := [1], next_session := 2, leases := [(0, 1)],
      pendings := [(letters 0, sample_pending)],
      timers := [(0, \<lparr>timer_stopped = False, timer_version = 1, timer_handle = Some 0, timer_ready = True,
        timer_early = None, timer_issued = 1000, timer_expires = 61000\<rparr>)],
      next_key := 1, next_token := 1, next_handle := 1, questions := 11,
      history := [Cards_Shown 1 [], Lease_Requested 0, Timer_Set 0 60000, Cards_Shown 1 [sample_card]]\<rparr>"

definition sample_connected :: approval_broker where
  "sample_connected = new_approval_broker
     \<lparr>records := [(1, sample_session)], sessions := [1], next_session := 2, questions := 1, history := [Cards_Shown 1 []]\<rparr>"

named_theorems sample_simps \<open>the sample host, evaluated\<close>

lemma sample_env_simps [sample_simps]:
  "is_proxy (env_platform sample_env) = (\<lambda>_. False)" "path_functions (env_platform sample_env) = posix_paths (js ''/'')"
  "digest (env_platform sample_env) s = letters 0" "opt_ttl (env_options sample_env) = 60000"
  "opt_response_timeout (env_options sample_env) = 2000" "opt_max_pending (env_options sample_env) = 4"
  "opt_max_clients (env_options sample_env) = 2" "opt_style (env_options sample_env) = Posix"
  "opt_tracked (env_options sample_env) = True" "env_now sample_env n = Some (JsNumber (NInt (if n < 12 then 1000 else 61000)))"
  "env_schedule sample_env n = Scheduled False" "env_dispose sample_env n = True"
  "env_allow_session sample_env n k = Some True" "env_owns sample_env n g i = True" "env_acquire sample_env n = True"
  "env_respond sample_env n = True" "env_client sample_env n = True" "env_token sample_env = letters"
  "env_snapshot sample_env n =
     Some (object_of [(''state'', JsText (js ''ready'')), (''generation'', JsNumber (NInt 1))])"
  by (simp_all add: sample_env_def sample_options_def)

lemma sample_host_owns [sample_simps]: "host_owns sample_env 1 i b"
  by (simp add: host_owns_def sample_simps object_of_def data_record_def field_def)

lemma sample_connect: "approval_next sample_env new_approval_broker Connect = new_approval_broker
    \<lparr>records := [(1, \<lparr>session_context = None, session_revision = 0, session_disposed = False\<rparr>)], sessions := [1], next_session := 2\<rparr>"
  by (simp add: connect_client_def evict_clients_def new_approval_broker_def map_set_def map_has_def)

lemma sample_validate_context: "validate_context (\<lambda>_. False) sample_context =
    Some \<lparr>context_generation = 1, context_thread = js ''t'', context_turn = js ''u''\<rparr>"
  by (simp add: validate_context_def sample_context_def object_of_def exact_data_record_def data_record_def field_def
      bounded_string_def safe_integer_of_def max_approval_identifier_def) code_simp

lemma sample_context_set: "approval_next sample_env (approval_next sample_env new_approval_broker Connect) (Set_Context 1 sample_context) = sample_connected"
  unfolding sample_connect
  by (simp add: set_context_def sample_simps sample_validate_context session_of_def new_approval_broker_def
      replace_context_def map_get_def map_set_def map_has_def publish_cards_def cards_for_def log_effect_def asked_def
      cancel_owned_def cancel_all_def sample_connected_def sample_session_def)

definition sample_envelope :: envelope where
  "sample_envelope =
     \<lparr>envelope_id = Id_Number 7, envelope_kind = Command_Approval,
      envelope_params = object_of [(''threadId'', JsText (js ''t'')), (''turnId'', JsText (js ''u'')),
          (''itemId'', JsText (js ''i'')), (''startedAtMs'', JsNumber (NInt 5)), (''command'', JsText (js ''ls''))]\<rparr>"

definition sample_body :: approval_request where
  "sample_body =
     \<lparr>request_id_of = Id_Number 7, request_thread = js ''t'', request_turn = js ''u'', request_item = js ''i'',
      request_detail = Command_Detail (Some (js ''ls'')) None None None\<rparr>"

lemmas reading_simps = object_of_def exact_data_record_def data_record_def field_def one_of_def safe_integer_of_def

lemma short_text: "utf8_byte_length (js ''t'') = 1" "utf8_byte_length (js ''u'') = 1" "utf8_byte_length (js ''i'') = 1"
  "utf8_byte_length (js ''ls'') = 2" "safe_int 7" "safe_int 5" "safe_int 1" "safe_int 1000"
  by (simp_all add: utf8_byte_length_def utf8_encode_def js_def safe_int_def max_safe_integer_def
      is_high_def is_low_def Let_def)

lemma sample_validate_envelope: "validate_supported_envelope (\<lambda>_. False) sample_request = Some sample_envelope"
  by (simp add: validate_supported_envelope_def sample_request_def sample_envelope_def reading_simps
      approval_request_id_def approval_method_def short_text)

definition sample_params :: data_items where
  "sample_params =
     [(js ''threadId'', JsText (js ''t'')), (js ''turnId'', JsText (js ''u'')), (js ''itemId'', JsText (js ''i'')),
      (js ''startedAtMs'', JsNumber (NInt 5)), (js ''command'', JsText (js ''ls''))]"

lemma sample_fields:
  "field sample_params ''threadId'' = JsText (js ''t'')" "field sample_params ''turnId'' = JsText (js ''u'')"
  "field sample_params ''itemId'' = JsText (js ''i'')" "field sample_params ''startedAtMs'' = JsNumber (NInt 5)"
  "field sample_params ''command'' = JsText (js ''ls'')" "field sample_params ''environmentId'' = JsUndefined"
  "field sample_params ''approvalId'' = JsUndefined" "field sample_params ''reason'' = JsUndefined"
  "field sample_params ''cwd'' = JsUndefined" "field sample_params ''commandActions'' = JsUndefined"
  "field sample_params ''proposedExecpolicyAmendment'' = JsUndefined"
  "field sample_params ''proposedNetworkPolicyAmendments'' = JsUndefined"
  "field sample_params ''networkApprovalContext'' = JsUndefined"
  by (simp_all add: field_def sample_params_def)

lemma sample_record:
  "exact_data_record (\<lambda>_. False) (envelope_params sample_envelope) required_command_keys allowed_command_keys = Some sample_params"
  by (simp add: sample_envelope_def reading_simps required_command_keys_def allowed_command_keys_def sample_params_def)

lemma sample_validate_request:
  "validate_request (\<lambda>_. False) paths Posix sample_envelope = Some sample_body"
proof -
  have kind: "envelope_kind sample_envelope = Command_Approval" "envelope_id sample_envelope = Id_Number 7"
    by (simp_all add: sample_envelope_def)
  have ids: "request_identity sample_params = Some (js ''t'', js ''u'', js ''i'')"
    by (simp add: request_identity_def sample_fields bounded_string_def max_approval_identifier_def short_text
        safe_integer_of_def)
  show ?thesis
    by (simp add: validate_request_def kind validate_command_request_def sample_record ids sample_fields
        optional_nullable_string_def nullable_string_def bounded_string_def short_text max_command_bytes_def
        validate_command_actions_def validate_exec_policy_def validate_network_policy_def validate_network_def
        each_item_def text_of_def sample_body_def)
qed

definition sample_asked :: approval_broker where
  "sample_asked = sample_connected
     \<lparr>acquirings := [(0, \<lparr>acquiring_generation = 1, acquiring_request = Id_Number 7\<rparr>)],
      approval_tasks := [(0, Awaiting_Host_Lease sample_envelope 1)], next_key := 1, questions := 4,
      history := [Cards_Shown 1 [], Lease_Requested 0]\<rparr>"

lemmas table_simps = map_get_def map_set_def map_has_def map_delete_def log_effect_def asked_def

lemma sample_ask: "approval_next sample_env sample_connected (Server_Asked sample_request 1) = sample_asked"
  by (simp add: handle_server_request_def sample_simps sample_validate_envelope short_text sample_connected_def
      reserve_acquisition_def can_acquire_def new_approval_broker_def table_simps active_approvals_def
      put_approval_task_def sample_asked_def sample_envelope_def)

definition sample_admitted :: approval_broker where
  "sample_admitted = sample_connected
     \<lparr>leases := [(0, 1)], admittings := [(0, \<lparr>admitting_generation = 1, admitting_request = Id_Number 7\<rparr>)],
      approval_tasks := [(0, Admitted sample_envelope 1)], next_key := 1, questions := 5,
      history := [Cards_Shown 1 [], Lease_Requested 0]\<rparr>"

lemma sample_grant: "approval_next sample_env sample_asked (Lease_Granted 0 1) =
    sample_asked\<lparr>approval_tasks := [(0, Lease_Held sample_envelope 1)], leases := [(0, 1)]\<rparr>"
  by (simp add: lease_granted_def sample_asked_def sample_connected_def new_approval_broker_def table_simps
      put_approval_task_def drop_approval_task_def)

lemma sample_admit:
  "approval_next sample_env (sample_asked\<lparr>approval_tasks := [(0, Lease_Held sample_envelope 1)], leases := [(0, 1)]\<rparr>)
     (Resume_Task 0) = sample_admitted"
proof -
  have i: "envelope_id sample_envelope = Id_Number 7" by (simp add: sample_envelope_def)
  show ?thesis
    by (simp add: sample_asked_def sample_connected_def new_approval_broker_def table_simps
        put_approval_task_def drop_approval_task_def resume_approval_def lease_held_def make_capacity.simps
        active_approvals_def sample_simps admit_request_def can_respond_def finish_acquiring_def sample_admitted_def i)
qed

definition sample_flow :: flow where
  "sample_flow =
     \<lparr>flow_request = sample_body, flow_kind = Command_Approval, flow_generation = 1, flow_owner = 1, flow_revision = 1,
      flow_issued = 1000, flow_expires = 61000, flow_decisions = [Accept, Accept_For_Session, Decline, Cancel]\<rparr>"

definition sample_authorizing :: authorizing where
  "sample_authorizing =
     \<lparr>authorizing_generation = 1, authorizing_request = Id_Number 7, authorizing_thread = js ''t'',
      authorizing_turn = js ''u'', authorizing_owner = 1, authorizing_revision = 1, authorizing_issued = 1000,
      authorizing_expires = 61000\<rparr>"

definition sample_timed :: approval_broker where
  "sample_timed = sample_connected
     \<lparr>leases := [(0, 1)], authorizings := [(0, sample_authorizing)],
      timers := [(0, \<lparr>timer_stopped = False, timer_version = 1, timer_handle = Some 0, timer_ready = True,
        timer_early = None, timer_issued = 1000, timer_expires = 61000\<rparr>)],
      next_key := 1, next_handle := 1, questions := 8,
      history := [Cards_Shown 1 [], Lease_Requested 0, Timer_Set 0 60000]\<rparr>"

lemma sample_publish: "authorize sample_env 0 sample_flow sample_timed = sample_shown"
proof -
  have a: "still_authorized sample_env 0 sample_flow sample_timed = (True, asked sample_timed)"
    by (simp add: still_authorized_def locally_authorized_def sample_timed_def sample_connected_def sample_session_def
        new_approval_broker_def session_of_def sample_flow_def sample_body_def sample_authorizing_def in_context_def
        map_get_def sample_simps)
  have c: "read_clock sample_env (flow_issued sample_flow) (flow_expires sample_flow) (asked sample_timed) = Clock_Before 1000"
    by (simp add: read_clock_def sample_simps sample_flow_def safe_integer_of_def short_text asked_def sample_timed_def)
  have p: "make_pending sample_env 0 sample_flow None (letters 0) = sample_pending"
    by (simp add: make_pending_def sample_pending_def sample_flow_def sample_body_def sample_card_def
        approval_fingerprint_def fingerprint_def sample_simps command_scope_def Let_def)
  have kind: "flow_kind sample_flow = Command_Approval" by (simp add: sample_flow_def)
  have n: "next_token sample_timed = 0"
    by (simp add: sample_timed_def sample_connected_def new_approval_broker_def)
  have "authorize sample_env 0 sample_flow sample_timed =
      insert_pending sample_env 0 sample_pending ((asked (asked sample_timed))\<lparr>next_token := 1\<rparr>)"
    by (simp add: authorize_def kind publish_approval_def a c n p sample_simps Let_def) (simp add: sample_pending_def)
  also have "\<dots> = sample_shown"
    by (simp add: insert_pending_def sample_timed_def sample_connected_def new_approval_broker_def table_simps
        publish_cards_def session_of_def sample_session_def sample_pending_def cards_for_def sample_simps sample_shown_def)
  finally show ?thesis .
qed

lemma sample_show: "approval_next sample_env sample_admitted (Resume_Task 0) = sample_shown"
proof -
  let ?b = "drop_approval_task 0 sample_admitted"
  have owner: "find_owner 1 sample_body ?b = Some 1"
    by (simp add: find_owner_def drop_approval_task_def sample_admitted_def sample_connected_def new_approval_broker_def
        sample_session_def session_of_def sample_body_def in_context_def map_get_def)
  have body: "validate_request (px_of sample_env) (paths_of sample_env) (style_of sample_env) sample_envelope = Some sample_body"
    by (simp add: sample_simps sample_validate_request)
  have allowed: "env_allow_session sample_env n k = Some True" for n k by (simp add: sample_simps)
  have lim: "((1000::int) < 0 \<or> max_safe_integer - 60000 < 1000) = False" by (simp add: max_safe_integer_def)
  have kind: "envelope_kind sample_envelope = Command_Approval" by (simp add: sample_envelope_def)
  have adm: "map_has (admittings ?b) 0" by (simp add: sample_admitted_def drop_approval_task_def map_has_def)
  have rev: "session_revision (session_of 1 ?b) = 1"
    by (simp add: drop_approval_task_def sample_admitted_def sample_connected_def new_approval_broker_def session_of_def
        sample_session_def map_get_def)
  have clock: "Option.bind (env_now sample_env (questions (asked ?b))) safe_integer_of = Some 1000"
    by (simp add: sample_simps safe_integer_of_def short_text asked_def drop_approval_task_def sample_admitted_def)
  have "approval_next sample_env sample_admitted (Resume_Task 0) = admitted sample_env 0 sample_envelope 1 ?b"
    by (simp add: resume_approval_def) (simp add: sample_admitted_def map_get_def)
  also have "\<dots> = begin_authorizing sample_env 0 sample_flow (snd (complete_admission 0 (asked (asked ?b))))"
    by (simp only: admitted_def adm body owner rev clock Let_def sample_env_simps(4) option.case if_False simp_thms allowed lim if_True not_True_eq_False)
      (simp add: sample_flow_def decisions_offered_def kind)
  also have "\<dots> = authorize sample_env 0 sample_flow sample_timed"
    by (simp add: begin_authorizing_def sample_admitted_def sample_connected_def new_approval_broker_def
        drop_approval_task_def complete_admission_def table_simps put_timer_def new_timer_def schedule_timer_def
        sample_simps sample_flow_def sample_body_def clear_handle_def sample_timed_def sample_authorizing_def)
  also have "\<dots> = sample_shown" by (rule sample_publish)
  finally show ?thesis .
qed

lemma sample_run: "approvals_after sample_env sample_events = sample_shown"
  unfolding fst_run_approvals sample_events_def foldl.simps
    sample_context_set sample_ask sample_grant sample_admit sample_show ..

text \<open>The timer fires early and is set again.\<close>

definition sample_timer :: approval_timer where
  "sample_timer =
     \<lparr>timer_stopped = False, timer_version = 2, timer_handle = Some 1, timer_ready = True, timer_early = None,
      timer_issued = 1000, timer_expires = 61000\<rparr>"

definition sample_late :: approval_broker where
  "sample_late = sample_shown
     \<lparr>timers := [(0, sample_timer)], next_handle := 2, questions := 14,
      history := history sample_shown @ [Timer_Set 1 60000, Timer_Cleared 0]\<rparr>"

lemma sample_early: "approval_next sample_env sample_shown (Timer_Fired 0 1) = sample_late"
  by (simp add: on_timer_def timer_live_def sample_shown_def new_approval_broker_def table_simps read_clock_def sample_simps
      safe_integer_of_def short_text schedule_timer_def put_timer_def clear_handle_def sample_late_def sample_timer_def)

lemma sample_run_late: "approvals_after sample_env (sample_events @ [Timer_Fired 0 1]) = sample_late"
proof -
  have "approvals_after sample_env (sample_events @ [Timer_Fired 0 1])
      = approval_next sample_env (approvals_after sample_env sample_events) (Timer_Fired 0 1)"
    by (simp only: fst_run_approvals foldl_append foldl.simps)
  then show ?thesis unfolding sample_run sample_early .
qed

end
