(* ===== verification/ApprovalOwners.thy ===== *)
theory ApprovalOwners
  imports ApprovalSteps
begin

text \<open>
  Whose cards are shown. Every pending approval belongs to a connected client, in the context and at
  the revision that client has now: disconnecting a client or changing its context settles what it
  owned before. The predicate \<open>roster X\<close> says so up to the sessions and revisions in \<open>X\<close>, which an
  operation under way has already given up.
\<close>

section \<open>The invariant\<close>

definition live :: "approval_broker \<Rightarrow> pending_approval \<Rightarrow> bool" where
  "live b p \<longleftrightarrow> owns_pending (pending_owner p) p b"

definition fits_flow :: "flow \<Rightarrow> pending_approval \<Rightarrow> bool" where
  "fits_flow f p \<longleftrightarrow>
     pending_owner p = flow_owner f \<and> pending_revision p = flow_revision f \<and> pending_generation p = flow_generation f
     \<and> pending_thread p = request_thread (flow_request f) \<and> pending_turn p = request_turn (flow_request f)"

definition draft_flows :: "approval_broker \<Rightarrow> (flow \<times> pending_approval) set" where
  "draft_flows b = {(f, p). \<exists>k m. (k, Resolving f (Publishing p) m) \<in> set (approval_tasks b)}"

definition pend_ok :: "approval_broker \<Rightarrow> bool" where
  "pend_ok b \<longleftrightarrow> map_ok (pendings b) \<and> (\<forall>t p. (t, p) \<in> set (pendings b) \<longrightarrow> pending_token p = t)"

definition roster :: "(nat \<times> nat) set \<Rightarrow> approval_broker \<Rightarrow> bool" where
  "roster X b \<longleftrightarrow>
     pend_ok b \<and> (\<forall>s \<in> fst ` set (records b). s < next_session b)
     \<and> (\<forall>t p. (t, p) \<in> set (pendings b) \<longrightarrow> live b p \<or> (pending_owner p, pending_revision p) \<in> X)
     \<and> (\<forall>(f, p) \<in> draft_flows b. fits_flow f p)"

section \<open>Operations outside the view\<close>

definition view :: "approval_broker \<Rightarrow> (jsstr, pending_approval) jsmap \<times> (nat, approval_session) jsmap \<times> nat \<times> (nat, approval_task) jsmap" where
  "view b = (pendings b, records b, next_session b, approval_tasks b)"

lemma roster_view: "view b' = view b \<Longrightarrow> roster X b' = roster X b"
  by (simp add: view_def roster_def pend_ok_def live_def owns_pending_def session_of_def draft_flows_def)

lemma view_fields [simp]:
  "view (b\<lparr>acquirings := x1\<rparr>) = view b" "view (b\<lparr>admittings := x2\<rparr>) = view b" "view (b\<lparr>authorizings := x3\<rparr>) = view b"
  "view (b\<lparr>respondings := x4\<rparr>) = view b" "view (b\<lparr>outcomes := x5\<rparr>) = view b" "view (b\<lparr>timers := x6\<rparr>) = view b"
  "view (b\<lparr>leases := x7\<rparr>) = view b" "view (b\<lparr>next_key := x8\<rparr>) = view b" "view (b\<lparr>next_token := x9\<rparr>) = view b"
  "view (b\<lparr>next_handle := y1\<rparr>) = view b" "view (b\<lparr>thread_roots := y2\<rparr>) = view b" "view (b\<lparr>file_scopes := y3\<rparr>) = view b"
  "view (b\<lparr>thread_roots := y2, file_scopes := y3\<rparr>) = view b" "view (b\<lparr>shut_down := y4\<rparr>) = view b"
  "view (b\<lparr>sessions := y5\<rparr>) = view b" "view (b\<lparr>sessions := y5, thread_roots := y2, file_scopes := y3\<rparr>) = view b"
  by (simp_all add: view_def)

lemma view_simple [simp]:
  "view (asked b) = view b" "view (log_effect e b) = view b" "view (clear_handle h b) = view b"
  "view (release_lease k b) = view b" "view (abort_generation g b) = view b" "view (put_timer k t b) = view b"
  by (simp_all add: view_def asked_def log_effect_def clear_handle_def release_lease_def abort_generation_def
      put_timer_def split: option.split)

lemma view_stop_timer [simp]: "view (stop_timer k b) = view b"
  by (simp add: stop_timer_def split: option.split)

lemma view_finish [simp]:
  "view (snd (finish_acquiring k b)) = view b" "view (finish_admission k b) = view b"
  "view (snd (complete_admission k b)) = view b" "view (snd (finish_responding k ok b)) = view b"
  by (simp_all add: finish_acquiring_def finish_admission_def complete_admission_def finish_responding_def
      split: option.split)

lemma view_timeout [simp]: "view (timeout_responding k b) = view b"
  by (simp add: timeout_responding_def split: option.split)

lemma view_respond [simp]: "view (respond_and_release env k g i d b) = view b"
  by (simp add: respond_and_release_def Let_def split: schedule_answer.split)

lemma view_settle_authorizing [simp]:
  "view (snd (settle_authorizing env k d b)) = view b" "view (abandon_authorizing k b) = view b"
  "view (respond_admission env k g i d b) = view b" "view (cancel_flow env k d b) = view b"
  by (simp_all add: settle_authorizing_def Let_def abandon_authorizing_def respond_admission_def cancel_flow_def
      split: option.split)

lemma view_ask [simp]:
  "view (snd (still_authorized env k f b)) = view b" "view (snd (can_acquire env g i b)) = view b"
  "view (snd (can_respond env k g i b)) = view b"
  by (simp_all add: still_authorized_def can_acquire_def can_respond_def)

named_theorems roster_intros \<open>operations keep the roster\<close>

lemma roster_same [roster_intros]:
  assumes "roster X b"
  shows "roster X (asked b)" "roster X (log_effect e b)" "roster X (clear_handle h b)" "roster X (release_lease k b)"
    "roster X (abort_generation g b)" "roster X (put_timer k t b)" "roster X (stop_timer k b)"
    "roster X (snd (finish_acquiring k b))" "roster X (finish_admission k b)" "roster X (snd (complete_admission k b))"
    "roster X (snd (finish_responding k ok b))" "roster X (timeout_responding k b)"
    "roster X (respond_and_release env k g i d b)" "roster X (snd (settle_authorizing env k d b))"
    "roster X (abandon_authorizing k b)" "roster X (respond_admission env k g i d b)" "roster X (cancel_flow env k d b)"
    "roster X (snd (still_authorized env k f b))" "roster X (snd (can_acquire env g i b))"
    "roster X (snd (can_respond env k g i b))" "roster X (b\<lparr>acquirings := x1\<rparr>)" "roster X (b\<lparr>admittings := x2\<rparr>)"
    "roster X (b\<lparr>authorizings := x3\<rparr>)" "roster X (b\<lparr>leases := x7\<rparr>)" "roster X (b\<lparr>next_key := x8\<rparr>)"
    "roster X (b\<lparr>next_token := x9\<rparr>)" "roster X (b\<lparr>next_handle := y1\<rparr>)" "roster X (b\<lparr>thread_roots := y2\<rparr>)"
    "roster X (b\<lparr>file_scopes := y3\<rparr>)" "roster X (b\<lparr>thread_roots := y2, file_scopes := y3\<rparr>)"
    "roster X (b\<lparr>shut_down := y4\<rparr>)" "roster X (b\<lparr>sessions := y5, thread_roots := y2, file_scopes := y3\<rparr>)"
  by (rule iffD2 [OF roster_view assms], simp)+

lemma roster_mono: "roster X b \<Longrightarrow> X \<subseteq> Y \<Longrightarrow> roster Y b"
  by (fastforce simp: roster_def)

section \<open>Settling\<close>

lemma map_ok_delete: "map_ok m \<Longrightarrow> map_ok (map_delete m k)"
  by (rule jsmap.ok_remove)

lemma roster_less:
  assumes r: "roster X b" and p: "set (pendings b') \<subseteq> set (pendings b)" "map_ok (pendings b')"
    and same: "records b' = records b" "next_session b' = next_session b"
      "approval_tasks b' = approval_tasks b"
  shows "roster X b'"
proof -
  have "live b' q = live b q" for q using same by (simp add: live_def owns_pending_def session_of_def)
  moreover have "draft_flows b' = draft_flows b" using same by (simp add: draft_flows_def)
  moreover have "\<forall>t q. (t, q) \<in> set (pendings b') \<longrightarrow> pending_token q = t \<and> (live b q \<or> (pending_owner q, pending_revision q) \<in> X)"
    using r p(1) unfolding roster_def pend_ok_def by blast
  ultimately show ?thesis using r p(2) same by (simp add: roster_def pend_ok_def)
qed

lemma roster_delete: "roster X b \<Longrightarrow> roster X (b\<lparr>pendings := map_delete (pendings b) t\<rparr>)"
  by (rule roster_less [of X b]) (auto simp: map_delete_def roster_def pend_ok_def intro: map_ok_delete [unfolded map_delete_def])

lemma roster_settle_with:
  assumes "\<And>s c. roster X c \<Longrightarrow> roster X (pub s c)" "roster X b"
  shows "roster X (snd (settle_with env pub p d b))"
  using assms by (simp add: settle_with_def Let_def roster_intros roster_delete)

lemma roster_fold: "(\<And>x c. roster X c \<Longrightarrow> roster X (f x c)) \<Longrightarrow> roster X b \<Longrightarrow> roster X (fold f xs b)"
  by (induction xs arbitrary: b) simp_all

lemma roster_cancel_all:
  assumes "\<And>s c. roster X c \<Longrightarrow> roster X (pub s c)" "roster X b"
  shows "roster X (cancel_all env pub ps ks b)"
  unfolding cancel_all_def
  by (intro roster_fold) (simp_all add: roster_intros roster_settle_with assms)

text \<open>What is settled is gone.\<close>

lemma settle_with_pendings:
  assumes "\<And>s c. set (pendings (pub s c)) \<subseteq> set (pendings c)"
  shows "set (pendings (snd (settle_with env pub p d b))) \<subseteq> set (pendings b)"
    and "is_pending p b \<Longrightarrow> set (pendings (snd (settle_with env pub p d b))) \<subseteq> set (map_delete (pendings b) (pending_token p))"
proof -
  have v: "pendings (respond_and_release env k g i d c) = pendings c" "pendings (stop_timer k c) = pendings c" for k g i c
    using view_respond [of env k g i d c] view_stop_timer [of k c] by (simp_all add: view_def)
  let ?c = "stop_timer (pending_key p) (b\<lparr>pendings := map_delete (pendings b) (pending_token p)\<rparr>)"
  have c: "pendings ?c = map_delete (pendings b) (pending_token p)" by (simp add: v)
  have sub: "set (map_delete (pendings b) (pending_token p)) \<subseteq> set (pendings b)" by (rule set_map_delete)
  show "is_pending p b \<Longrightarrow> set (pendings (snd (settle_with env pub p d b))) \<subseteq> set (map_delete (pendings b) (pending_token p))"
    using assms [of "pending_owner p" ?c] by (simp add: settle_with_def Let_def v)
  then show "set (pendings (snd (settle_with env pub p d b))) \<subseteq> set (pendings b)"
    using sub by (cases "is_pending p b") (auto simp: settle_with_def)
qed

lemma pendings_gone:
  assumes less: "\<And>p c. set (pendings (f p c)) \<subseteq> set (pendings c)"
    and out: "\<And>p c. is_pending p c \<Longrightarrow> set (pendings (f p c)) \<subseteq> set (map_delete (pendings c) (pending_token p))"
    and keep: "\<And>p c. roster X c \<Longrightarrow> roster X (f p c)"
  shows "roster X b \<Longrightarrow> set (pendings (fold f ps b)) \<subseteq> {x \<in> set (pendings b). snd x \<notin> set ps}"
proof (induction ps arbitrary: b)
  case Nil
  then show ?case by auto
next
  case (Cons p ps)
  note ih = Cons.IH [OF keep [OF Cons.prems]]
  have "x \<notin> set (pendings (f p b))" if x: "snd x = p" for x
  proof
    assume m: "x \<in> set (pendings (f p b))"
    then have "x \<in> set (pendings b)" using less by blast
    then have in_b: "(fst x, p) \<in> set (pendings b)" using x by (simp flip: x)
    then have t: "pending_token p = fst x" using Cons.prems by (auto simp: roster_def pend_ok_def)
    have "map_ok (pendings b)" using Cons.prems by (simp add: roster_def pend_ok_def)
    with in_b t have "is_pending p b" by (simp add: is_pending_def map_get_def map_ok_def map_keys_def)
    with m have "x \<in> set (map_delete (pendings b) (pending_token p))" using out by blast
    with t show False by (simp add: map_delete_def)
  qed
  with ih [of p] less [of p b] show ?case by auto
qed

lemma settled_gone:
  assumes "\<And>s c. set (pendings (pub s c)) \<subseteq> set (pendings c)" "\<And>s c. roster X c \<Longrightarrow> roster X (pub s c)" "roster X b"
  shows "set (pendings (fold (\<lambda>p b. snd (settle_with env pub p Cancel b)) ps b)) \<subseteq> {x \<in> set (pendings b). snd x \<notin> set ps}"
proof (rule pendings_gone [OF _ _ _ assms(3)])
  show "set (pendings (snd (settle_with env pub p Cancel c))) \<subseteq> set (pendings c)" for p c
    by (rule settle_with_pendings(1), rule assms(1))
  show "is_pending p c \<Longrightarrow> set (pendings (snd (settle_with env pub p Cancel c))) \<subseteq> set (map_delete (pendings c) (pending_token p))" for p c
    by (rule settle_with_pendings(2), rule assms(1))
  show "roster X c \<Longrightarrow> roster X (snd (settle_with env pub p Cancel c))" for p c
    by (rule roster_settle_with, rule assms(2))
qed

lemma settle_authorizing_pendings: "pendings (fold (\<lambda>k b. snd (settle_authorizing env k d b)) ks b) = pendings b"
proof (induction ks arbitrary: b)
  case (Cons k ks)
  have "pendings (snd (settle_authorizing env k d b)) = pendings b"
    using view_settle_authorizing(1) [of env k d b] by (simp add: view_def)
  with Cons show ?case by simp
qed simp

lemma cancel_all_gone:
  assumes "\<And>s c. set (pendings (pub s c)) \<subseteq> set (pendings c)" "\<And>s c. roster X c \<Longrightarrow> roster X (pub s c)" "roster X b"
  shows "set (pendings (cancel_all env pub ps ks b)) \<subseteq> {x \<in> set (pendings b). snd x \<notin> set ps}"
  unfolding cancel_all_def settle_authorizing_pendings using assms by (rule settled_gone)

lemma cancel_owned_ends:
  assumes "\<And>s c. set (pendings (pub s c)) \<subseteq> set (pendings c)"
    "\<And>s' c. roster (insert (s, v) X) c \<Longrightarrow> roster (insert (s, v) X) (pub s' c)" "roster (insert (s, v) X) b"
  shows "roster X (cancel_owned env pub s v b)"
proof -
  let ?ps = "filter (\<lambda>p. pending_owner p = s \<and> pending_revision p = v) (map snd (pendings b))"
  let ?b = "cancel_owned env pub s v b"
  have r: "roster (insert (s, v) X) ?b" unfolding cancel_owned_def using assms(2,3) by (rule roster_cancel_all)
  have gone: "set (pendings ?b) \<subseteq> {x \<in> set (pendings b). snd x \<notin> set ?ps}"
    unfolding cancel_owned_def using assms by (rule cancel_all_gone)
  have "(pending_owner p, pending_revision p) \<noteq> (s, v)" if "(t, p) \<in> set (pendings ?b)" for t p
    using gone that by force
  with r show ?thesis unfolding roster_def by blast
qed

section \<open>Clients\<close>

lemma hush_pendings: "hush c (f c) \<Longrightarrow> set (pendings (f c)) \<subseteq> set (pendings c)"
  by (rule hush_keeps(6))

text \<open>A session gives up its revision: what it owned stays in the exception.\<close>

lemma roster_give_up:
  assumes r: "roster X b" and b': "pendings b' = pendings b" "next_session b' = next_session b"
      "approval_tasks b' = approval_tasks b"
    and s: "fst ` set (records b') = fst ` set (records b)" "\<And>t. t \<noteq> s \<Longrightarrow> session_of t b' = session_of t b"
  shows "roster (insert (s, session_revision (session_of s b)) X) b'"
proof -
  have "live b' p \<or> (pending_owner p, pending_revision p) \<in> insert (s, session_revision (session_of s b)) X"
    if p: "(t, p) \<in> set (pendings b)" for t p
  proof -
    consider "(pending_owner p, pending_revision p) \<in> X" | "live b p" using r p by (auto simp: roster_def)
    then show ?thesis
    proof cases
      case 2
      then show ?thesis
        using s by (cases "pending_owner p = s") (simp_all add: live_def owns_pending_def)
    qed blast
  qed
  moreover have "draft_flows b' = draft_flows b" using b' by (simp add: draft_flows_def)
  ultimately show ?thesis using r b' s(1) by (simp add: roster_def pend_ok_def)
qed

lemma keys_map_set: "map_has m k \<Longrightarrow> fst ` set (map_set m k v) = fst ` set m"
  using jsmap.keys_put [of m k v] by (simp add: map_has_keys) (metis map_keys_def set_map)

lemma known_session: "\<not> session_disposed (session_of s b) \<Longrightarrow> map_has (records b) s"
  by (cases "map_get (records b) s") (auto simp: session_of_def map_has_get)

lemma session_of_set: "session_of t (b\<lparr>records := map_set (records b) s r\<rparr>) = (if t = s then r else session_of t b)"
  by (simp add: session_of_def jsmap.get_put)

lemma roster_disconnect [roster_intros]:
  assumes r: "roster X b" shows "roster X (disconnect env s b)"
proof (cases "session_disposed (session_of s b)")
  case True
  with r show ?thesis by (simp add: disconnect_def)
next
  case False
  let ?r = "session_of s b"
  let ?b = "b\<lparr>records := map_set (records b) s
       \<lparr>session_context = None, session_revision = session_revision ?r + 1, session_disposed = True\<rparr>,
     sessions := filter (\<lambda>t. t \<noteq> s) (sessions b)\<rparr>"
  have "roster (insert (s, session_revision ?r) X) ?b"
    by (rule roster_give_up [OF r])
      (simp_all add: keys_map_set known_session [OF False] session_of_def jsmap.get_put)
  then have "roster X (cancel_owned env (\<lambda>_ b. b) s (session_revision ?r) ?b)"
    by (intro cancel_owned_ends) simp_all
  with False show ?thesis by (simp add: disconnect_def Let_def)
qed

lemma roster_publish [roster_intros]: "roster X b \<Longrightarrow> roster X (publish_cards env s b)"
  by (simp add: publish_cards_def Let_def roster_intros)

lemma roster_replace_context [roster_intros]:
  assumes r: "roster X b" and s: "\<not> session_disposed (session_of s b)"
  shows "roster X (replace_context env s c b)"
proof -
  let ?r = "session_of s b"
  let ?b = "b\<lparr>records := map_set (records b) s
       (?r\<lparr>session_context := c, session_revision := session_revision ?r + 1\<rparr>)\<rparr>"
  have "roster (insert (s, session_revision ?r) X) ?b"
    by (rule roster_give_up [OF r]) (simp_all add: keys_map_set known_session [OF s] session_of_set)
  then have "roster (insert (s, session_revision ?r) X) (publish_cards env s ?b)" by (rule roster_publish)
  then have "roster X (cancel_owned env (publish_cards env) s (session_revision ?r) (publish_cards env s ?b))"
    by (rule cancel_owned_ends [rotated 2]) (simp_all add: hush_keeps(6) hush_show_cards hush_refl roster_publish)
  then show ?thesis by (simp add: replace_context_def Let_def)
qed

lemma roster_settle [roster_intros]: "roster X b \<Longrightarrow> roster X (snd (settle_approval env p d b))"
  by (simp add: settle_approval_def roster_settle_with roster_publish)

lemma roster_cancel [roster_intros]: "roster X b \<Longrightarrow> roster X (cancel_all env (publish_cards env) ps ks b)"
  by (simp add: roster_cancel_all roster_publish)

lemma roster_abandon [roster_intros]: "roster X b \<Longrightarrow> roster X (abandon env p b)"
  by (simp add: abandon_def Let_def roster_intros roster_delete)

lemma roster_dispose_context [roster_intros]: "roster X b \<Longrightarrow> roster X (dispose_context env s b)"
  by (simp add: dispose_context_def roster_intros)

lemma roster_set_context [roster_intros]: "roster X b \<Longrightarrow> roster X (set_context env s v b)"
  by (simp add: set_context_def roster_intros split: option.split)

lemma roster_evict: "roster X b \<Longrightarrow> roster X (evict_clients env ss b)"
  unfolding evict_clients_def by (rule roster_fold) (simp_all add: roster_intros)

lemma roster_connect [roster_intros]:
  assumes "roster X b" shows "roster X (connect_client env b)"
proof -
  let ?b = "evict_clients env (sessions b) b"
  let ?s = "next_session ?b"
  let ?new = "\<lparr>session_context = None, session_revision = 0, session_disposed = False\<rparr>"
  let ?c = "?b\<lparr>next_session := ?s + 1, records := map_set (records ?b) ?s ?new, sessions := sessions ?b @ [?s]\<rparr>"
  have r: "roster X ?b" using assms by (rule roster_evict)
  have old: "session_of t ?c = session_of t ?b" if "t \<noteq> ?s" for t using that by (simp add: session_of_def jsmap.get_put)
  have "live ?c p" if l: "live ?b p" for p
  proof -
    have "map_has (records ?b) (pending_owner p)" using l by (intro known_session) (simp add: live_def owns_pending_def)
    then have "pending_owner p < ?s" using r by (auto simp: roster_def map_has_def)
    then have "pending_owner p \<noteq> ?s" by simp
    with l old show ?thesis by (simp add: live_def owns_pending_def)
  qed
  moreover have "\<forall>s \<in> fst ` set (records ?c). s < next_session ?c"
    using r set_task_table [of "records ?b" ?s ?new] unfolding roster_def by fastforce
  moreover have "draft_flows ?c = draft_flows ?b" by (simp add: draft_flows_def)
  moreover have "\<forall>t p. (t, p) \<in> set (pendings ?c) \<longrightarrow> pending_token p = t
      \<and> (live ?b p \<or> (pending_owner p, pending_revision p) \<in> X)"
    using r unfolding roster_def pend_ok_def by simp
  moreover have "map_ok (pendings ?c)" "\<forall>(f, p) \<in> draft_flows ?b. fits_flow f p"
    using r by (simp_all add: roster_def pend_ok_def)
  ultimately have "roster X ?c" unfolding roster_def pend_ok_def by metis
  then show ?thesis by (simp add: connect_client_def Let_def)
qed

lemma roster_close_context [roster_intros]: "roster X b \<Longrightarrow> roster X (close_context env v b)"
  by (simp add: close_context_def roster_intros split: option.split)

lemma roster_abandon_where [roster_intros]:
  assumes "roster X b" shows "roster X (abandon_where env P b)"
  unfolding abandon_where_def Let_def
  by (intro roster_fold assms) (auto intro: roster_intros)

section \<open>Timers and host events\<close>

lemma roster_settle_timed [roster_intros]: "roster X b \<Longrightarrow> roster X (settle_timed env k d b)"
  by (simp add: settle_timed_def roster_intros split: option.split)

lemma roster_on_timer_once [roster_intros]: "roster X b \<Longrightarrow> roster X (on_timer_once env k v b)"
  by (simp add: on_timer_once_def roster_intros split: option.split)

lemma roster_schedule_timer [roster_intros]:
  assumes "roster X b" shows "roster X (snd (schedule_timer env k delay b))"
  using assms by (simp add: schedule_timer_def Let_def roster_intros split: option.split schedule_answer.split)

lemma roster_on_timer [roster_intros]: "roster X b \<Longrightarrow> roster X (on_timer env k v b)"
  by (simp add: on_timer_def Let_def roster_intros split: option.split clock_verdict.split)

lemma roster_thread_started: "roster X b \<Longrightarrow> roster X (thread_started env params g b)"
  by (simp add: thread_started_def roster_intros split: option.split)

lemma roster_changes_announced: "roster X b \<Longrightarrow> roster X (changes_announced env params g i raw b)"
  by (simp add: changes_announced_def Let_def roster_intros split: option.split)

lemma roster_item_started: "roster X b \<Longrightarrow> roster X (item_started env params g b)"
  by (simp add: item_started_def roster_changes_announced split: option.split)

lemma roster_item_completed: "roster X b \<Longrightarrow> roster X (item_completed env params g b)"
  by (simp add: item_completed_def roster_intros split: option.split)

lemma roster_turn_completed: "roster X b \<Longrightarrow> roster X (turn_completed env params g b)"
  by (simp add: turn_completed_def roster_intros split: option.split)

lemma roster_notification [roster_intros]:
  assumes "roster X b" shows "roster X (host_notification env v g b)"
  unfolding host_notification_def Let_def
  by (simp only: assms roster_thread_started roster_item_started roster_changes_announced
      roster_item_completed roster_turn_completed split: option.split if_split) simp

lemma roster_host_state [roster_intros]: "roster X b \<Longrightarrow> roster X (host_state_changed env r g b)"
  by (simp add: host_state_changed_def roster_intros)

section \<open>Tasks\<close>

lemma roster_tasks:
  assumes r: "roster X b" and b': "pendings b' = pendings b" "records b' = records b"
"next_session b' = next_session b"
    and d: "\<And>f p. (f, p) \<in> draft_flows b' \<Longrightarrow> fits_flow f p"
  shows "roster X b'"
proof -
  have "live b' p = live b p" for p using b' by (simp add: live_def owns_pending_def session_of_def)
  with r b' d show ?thesis by (auto simp: roster_def pend_ok_def)
qed

lemma draft_flows_put:
  "draft_flows (put_approval_task k t b) \<subseteq> draft_flows b \<union> {(f, p). \<exists>m. t = Resolving f (Publishing p) m}"
  using set_task_table [of "approval_tasks b" k t] unfolding draft_flows_def by fastforce

lemma roster_put:
  assumes "roster X b" "\<And>f p m. t = Resolving f (Publishing p) m \<Longrightarrow> fits_flow f p"
  shows "roster X (put_approval_task k t b)"
  by (rule roster_tasks [OF assms(1)])
    (use assms draft_flows_put [of k t b] in \<open>auto simp: roster_def put_approval_task_def\<close>)

lemma roster_put_other:
  "roster X b \<Longrightarrow> (\<And>f p m. t \<noteq> Resolving f (Publishing p) m) \<Longrightarrow> roster X (put_approval_task k t b)"
  by (rule roster_put) blast+

lemma roster_drop [roster_intros]: "roster X b \<Longrightarrow> roster X (drop_approval_task k b)"
proof -
  assume r: "roster X b"
  have "draft_flows (drop_approval_task k b) \<subseteq> draft_flows b"
    using drop_task_less [of k b] unfolding draft_flows_def by blast
  with r show ?thesis by (intro roster_tasks [OF r]) (auto simp: roster_def drop_approval_task_def)
qed

section \<open>Publication\<close>

lemma roster_insert_pending:
  assumes r: "roster X b" and l: "live b p" shows "roster X (insert_pending env k p b)"
proof -
  let ?m = "map_set (pendings b) (pending_token p) p"
  let ?b = "b\<lparr>authorizings := map_delete (authorizings b) k, pendings := ?m\<rparr>"
  have same: "live ?b q = live b q" for q by (simp add: live_def owns_pending_def session_of_def)
  have m: "\<forall>t q. (t, q) \<in> set ?m \<longrightarrow> (t, q) \<in> set (pendings b) \<or> t = pending_token p \<and> q = p"
    using set_task_table [of "pendings b" "pending_token p" p] by auto
  have "map_ok ?m" using r by (intro jsmap.ok_put) (simp add: roster_def pend_ok_def)
  moreover have "\<forall>t q. (t, q) \<in> set ?m \<longrightarrow> pending_token q = t \<and> (live b q \<or> (pending_owner q, pending_revision q) \<in> X)"
    using r l m unfolding roster_def pend_ok_def by blast
  moreover have "draft_flows ?b = draft_flows b" by (simp add: draft_flows_def)
  ultimately have "roster X ?b" using r by (simp add: roster_def pend_ok_def same)
  then show ?thesis using r by (simp add: insert_pending_def roster_intros)
qed

lemma roster_start_scope:
  "roster X b \<Longrightarrow> (\<And>p. ph = Publishing p \<Longrightarrow> fits_flow f p) \<Longrightarrow> roster X (start_scope env k f ph m b)"
  by (auto simp: start_scope_def intro: roster_put)

lemma roster_start_other:
  "roster X b \<Longrightarrow> (\<And>p. ph \<noteq> Publishing p) \<Longrightarrow> roster X (start_scope env k f ph m b)"
  by (rule roster_start_scope) blast+

lemma still_authorized_live:
  assumes "fst (still_authorized env k f b)" "fits_flow f p"
  shows "live (snd (still_authorized env k f b)) p"
proof -
  have a: "locally_authorized k f b" using assms(1) by (simp add: still_authorized_def split: if_splits)
  have "live (asked b) p = live b p" by (simp add: live_def owns_pending_def session_of_def asked_def)
  with a assms(2) show ?thesis
    by (auto simp: still_authorized_def locally_authorized_def live_def owns_pending_def fits_flow_def)
qed

lemma make_pending_fits: "fits_flow f (make_pending env k f s token)"
  by (simp add: make_pending_def Let_def fits_flow_def)

lemma live_fields [simp]:
  "live (asked b) p = live b p" "live (b\<lparr>next_token := n\<rparr>) p = live b p"
  by (simp_all add: live_def owns_pending_def session_of_def asked_def)

lemma roster_publish_approval [roster_intros]:
  assumes r: "roster X b" shows "roster X (publish_approval env k f s b)"
proof (cases "fst (still_authorized env k f b)")
  case False
  with r show ?thesis by (simp add: publish_approval_def Let_def roster_intros)
next
  case True
  let ?b1 = "snd (still_authorized env k f b)"
  let ?b2 = "(asked ?b1)\<lparr>next_token := next_token ?b1 + 1\<rparr>"
  let ?p = "make_pending env k f s (env_token env (next_token ?b1))"
  have b2: "roster X ?b2" using r by (simp add: roster_intros)
  have "live ?b1 ?p" using True make_pending_fits by (rule still_authorized_live)
  then have "roster X (insert_pending env k ?p ?b2)" by (intro roster_insert_pending b2) simp
  moreover have "roster X (start_scope env k f (Publishing ?p) m ?b2)" for m
    using b2 make_pending_fits by (intro roster_start_scope) auto
  ultimately show ?thesis using True r b2
    by (simp del: One_nat_def add: publish_approval_def Let_def roster_intros split: clock_verdict.split option.split)
qed

lemma roster_authorize [roster_intros]: "roster X b \<Longrightarrow> roster X (authorize env k f b)"
  by (simp add: authorize_def roster_intros roster_start_other split: approval_kind.split)

lemma roster_continue_flow:
  assumes r: "roster X b" and p: "\<And>p. ph = Publishing p \<Longrightarrow> fits_flow f p"
  shows "roster X (continue_flow env k f ph v b)"
proof -
  let ?b1 = "snd (still_authorized env k f b)"
  have b1: "roster X ?b1" using r by (rule roster_intros)
  have check: "roster X (check_current env k f ph' c ?b1)" if "\<And>p. ph' \<noteq> Publishing p" for ph' c
    unfolding check_current_def using b1 that by (rule roster_start_other)
  have insert: "roster X (insert_pending env k p ?b1)" if "ph = Publishing p" "fst (still_authorized env k f b)" for p
    using b1 still_authorized_live [OF that(2) p [OF that(1)]] by (rule roster_insert_pending)
  show ?thesis
    using b1 r insert check [of "First_Check _"] check [of "Last_Check _ _"]
    by (cases ph; cases v)
      (auto simp: continue_flow_def Let_def roster_intros roster_start_other split: option.split)
qed

section \<open>The other steps\<close>

lemma roster_begin_authorizing [roster_intros]: "roster X b \<Longrightarrow> roster X (begin_authorizing env k f b)"
  unfolding begin_authorizing_def Let_def
  by (simp add: roster_intros roster_put_other split: option.split)

lemma roster_admitted [roster_intros]: "roster X b \<Longrightarrow> roster X (admitted env k e g b)"
  unfolding admitted_def Let_def by (simp add: roster_intros split: option.split)

lemma roster_admit_request [roster_intros]: "roster X b \<Longrightarrow> roster X (admit_request env k e g b)"
  unfolding admit_request_def Let_def by (simp add: roster_intros roster_put_other)

lemma roster_make_capacity [roster_intros]: "roster X b \<Longrightarrow> roster X (make_capacity env k e g b)"
proof (induction env k e g b rule: make_capacity.induct)
  case (1 env k e g b)
  show ?case
  proof (cases "\<exists>r x rest. admittings b = [] \<and> respondings b = (r, x) # rest \<and> responding_generation x \<noteq> g
      \<and> \<not> active_approvals b < opt_max_pending (env_options env)")
    case True
    then obtain r x rest where "admittings b = []" "respondings b = (r, x) # rest" "responding_generation x \<noteq> g"
      "\<not> active_approvals b < opt_max_pending (env_options env)" by blast
    moreover from this 1(2) have "roster X (make_capacity env k e g (snd (finish_responding r False b)))"
      by (intro 1(1)) (simp_all add: roster_intros)
    ultimately show ?thesis by (simp add: make_capacity.simps [of env k e g b])
  next
    case False
    with 1(2) show ?thesis
      by (subst make_capacity.simps)
        (auto simp: roster_intros roster_put_other Let_def split: list.split)
  qed
qed

lemma roster_capacity [roster_intros]:
  "roster X b \<Longrightarrow> roster X (lease_held env k e g b)" "roster X b \<Longrightarrow> roster X (capacity_continued env k e g b)"
  by (simp_all add: lease_held_def capacity_continued_def Let_def roster_intros)

lemma roster_handle_request [roster_intros]: "roster X b \<Longrightarrow> roster X (handle_server_request env v g b)"
proof -
  have "roster X b \<Longrightarrow> roster X (snd (reserve_acquisition env k g i b))" for b k i
    by (simp add: reserve_acquisition_def Let_def roster_intros)
  then show "roster X b \<Longrightarrow> roster X (handle_server_request env v g b)"
    unfolding handle_server_request_def Let_def by (simp add: roster_intros roster_put_other split: option.split)
qed

lemma roster_leases [roster_intros]:
  "roster X b \<Longrightarrow> roster X (lease_granted k g b)" "roster X b \<Longrightarrow> roster X (lease_denied k b)"
  by (simp_all add: lease_granted_def lease_denied_def Let_def roster_intros roster_put_other split: option.split approval_task.split)

lemma roster_final [roster_intros]: "roster X b \<Longrightarrow> roster X (final_decision env call p d b)"
  by (simp add: final_decision_def Let_def roster_intros roster_put_other)

lemma roster_timed [roster_intros]: "roster X b \<Longrightarrow> roster X (timed_decision env call p d b)"
  by (simp add: timed_decision_def roster_intros)

lemma roster_decide [roster_intros]: "roster X b \<Longrightarrow> roster X (decide env s v b)"
  unfolding decide_def Let_def by (simp add: roster_intros roster_put_other split: option.split)

lemma roster_dispose [roster_intros]:
  assumes "roster X b" shows "roster X (dispose_approvals env b)"
proof -
  have f: "roster X c \<Longrightarrow> roster X (fold (\<lambda>(k, a) b. snd (finish_acquiring k b)) as c)"
    "roster X c \<Longrightarrow> roster X (fold (\<lambda>(k, a) b. finish_admission k b) ds c)"
    "roster X c \<Longrightarrow> roster X (fold (\<lambda>(k, r) b. snd (finish_responding k False b)) rs c)"
    "roster X c \<Longrightarrow> roster X (fold abort_generation gs c)" for c as ds rs gs
    by (rule roster_fold, auto intro: roster_intros)+
  have put: "roster X c \<Longrightarrow> roster X (put_approval_task k (Disposing ks) (c\<lparr>next_key := n\<rparr>))" for c k ks n
    by (simp add: roster_put_other roster_intros)
  show ?thesis
    unfolding dispose_approvals_def Let_def using assms
    by (auto simp del: One_nat_def intro!: put f roster_cancel roster_same(31))
qed

lemma draft_fits: "roster X b \<Longrightarrow> map_get (approval_tasks b) k = Some (Resolving f (Publishing p) m) \<Longrightarrow> fits_flow f p"
  unfolding roster_def draft_flows_def map_get_def by (blast dest: map_of_SomeD)

lemma roster_scope_decided [roster_intros]: "roster X b \<Longrightarrow> roster X (scope_decided env k s p q ok b)"
  by (simp add: scope_decided_def roster_intros)

lemma roster_resume [roster_intros]:
  assumes r: "roster X b" shows "roster X (resume_approval env k b)"
proof (cases "\<exists>f ph m. map_get (approval_tasks b) k = Some (Resolving f ph m)")
  case True
  then obtain f ph m where t: "map_get (approval_tasks b) k = Some (Resolving f ph m)" by blast
  have p: "fits_flow f p" if "ph = Publishing p" for p using draft_fits [OF r] t that by blast
  have "roster X (continue_flow env k f ph v (drop_approval_task k b))" for v
    using r p by (intro roster_continue_flow roster_drop) auto
  moreover have "roster X (start_scope env k f ph m' b)" for m' using r p by (intro roster_start_scope) auto
  ultimately show ?thesis using r t
    by (simp add: resume_approval_def resume_scope_def roster_intros split: op.split)
next
  case False
  with r show ?thesis
    by (auto simp: resume_approval_def resume_capacity_def resume_decision_def roster_intros roster_put_other
        split: option.split approval_task.split capacity_wait.split op.split)
qed

lemma roster_answer [roster_intros]:
  assumes r: "roster X b" shows "roster X (answer_task env k scope path b)"
proof -
  have "roster X (start_scope env k f ph m' b)" if "map_get (approval_tasks b) k = Some (Resolving f ph m)" for f ph m m'
    using r draft_fits [OF r] that by (intro roster_start_scope) auto
  then show ?thesis using r
    by (simp add: answer_task_def roster_put_other split: option.split approval_task.split)
qed

lemma roster_next: "roster X b \<Longrightarrow> roster X (approval_next env b e)"
  by (cases e) (simp_all add: roster_intros)

lemma roster_new: "roster {} new_approval_broker"
  by (simp add: roster_def pend_ok_def new_approval_broker_def map_ok_def map_keys_def draft_flows_def)

interpretation owners: stateful "approval_step env" "roster {}" for env
  by unfold_locales (simp add: approval_step_def roster_next)

end
