(* ===== verification/ApprovalEnds.thy ===== *)
theory ApprovalEnds
  imports ApprovalOwners ApprovalConsent
begin

text \<open>
  How approvals end together. Disposal empties the tables, and with the tables empty nothing the
  broker does reaches the host or a client any more, except to give back what it holds; a new
  generation of the host empties the tables of the entries of all others.
\<close>

section \<open>Loops that remove\<close>

lemma fold_removes:
  assumes "\<And>x c. T (f x c) \<subseteq> T c - R x"
  shows "T (fold f xs b) \<subseteq> T b - (\<Union>x \<in> set xs. R x)"
proof (induction xs arbitrary: b)
  case (Cons x xs)
  from Cons [of "f x b"] assms [of x b] show ?case by auto
qed simp

lemma fold_less:
  fixes T :: "approval_broker \<Rightarrow> 'a set"
  assumes "\<And>x c. T (f x c) \<subseteq> T c" shows "T (fold f xs b) \<subseteq> T b"
  using fold_removes [of T f "\<lambda>_. {}"] assms by simp

lemma finish_acquiring_removes: "set (acquirings (snd (finish_acquiring k c))) \<subseteq> set (acquirings c) - {y. fst y = k}"
  by (auto simp: finish_acquiring_def map_delete_def map_has_def)

lemma finish_admission_removes: "set (admittings (finish_admission k c)) \<subseteq> set (admittings c) - {y. fst y = k}"
  by (auto simp: finish_admission_def map_delete_def map_has_def release_lease_def)

lemma authorizings_respond: "authorizings (respond_and_release env k g i d b) = authorizings b"
  by (auto simp: respond_and_release_def Let_def finish_responding_def timeout_responding_def abort_generation_def
      release_lease_def clear_handle_def split: schedule_answer.split option.split)

lemma authorizings_stop_timer: "authorizings (stop_timer k b) = authorizings b"
  by (simp add: stop_timer_def clear_handle_def split: option.split)

lemma settle_authorizing_removes:
  "set (authorizings (snd (settle_authorizing env k d c))) \<subseteq> set (authorizings c) - {y. fst y = k}"
  by (auto simp: settle_authorizing_def Let_def authorizings_respond authorizings_stop_timer release_lease_def
      map_delete_def map_get_def map_of_eq_None_iff image_iff split: option.split)

lemma abandon_authorizing_removes:
  "set (authorizings (abandon_authorizing k c)) \<subseteq> set (authorizings c) - {y. fst y = k}"
  by (auto simp: abandon_authorizing_def authorizings_stop_timer release_lease_def map_delete_def map_has_def)

lemma respondings_finish: "set (respondings (snd (finish_responding k ok c))) \<subseteq> set (respondings c) - {y. fst y = k}"
  by (auto simp: finish_responding_def map_delete_def map_get_def map_of_eq_None_iff image_iff release_lease_def clear_handle_def
      split: option.splits)

lemma abandon_pendings:
  "set (pendings (abandon env p b)) \<subseteq> set (pendings b)"
  "is_pending p b \<Longrightarrow> set (pendings (abandon env p b)) \<subseteq> set (map_delete (pendings b) (pending_token p))"
proof -
  show "set (pendings (abandon env p b)) \<subseteq> set (pendings b)"
    by (rule hush_keeps(6), rule hush_abandon, rule hush_refl)
  let ?c = "stop_timer (pending_key p) (b\<lparr>pendings := map_delete (pendings b) (pending_token p)\<rparr>)"
  have c: "pendings ?c = map_delete (pendings b) (pending_token p)"
    using view_stop_timer [of "pending_key p" "b\<lparr>pendings := map_delete (pendings b) (pending_token p)\<rparr>"] by (simp add: view_def)
  have "set (pendings (publish_cards env s ?c)) \<subseteq> set (pendings ?c)" for s
    by (rule hush_keeps(6), rule hush_show_cards, rule hush_refl)
  with c show "is_pending p b \<Longrightarrow> set (pendings (abandon env p b)) \<subseteq> set (map_delete (pendings b) (pending_token p))"
    by (simp add: abandon_def Let_def release_lease_def)
qed

section \<open>A new generation\<close>

lemma fold_filter_map:
  "fold f (filter (\<lambda>p. P p) (map snd xs)) b = fold (\<lambda>(t, p) b. if P p then f p b else b) xs b"
  by (induction xs arbitrary: b) auto

lemma abandon_where_ends:
  assumes r: "roster X b"
  shows "(k, a) \<in> set (acquirings (abandon_where env P b)) \<Longrightarrow> \<not> P (acquiring_generation a)"
    "(k, m) \<in> set (admittings (abandon_where env P b)) \<Longrightarrow> \<not> P (admitting_generation m)"
    "(t, p) \<in> set (pendings (abandon_where env P b)) \<Longrightarrow> \<not> P (pending_generation p)"
    "(k, u) \<in> set (authorizings (abandon_where env P b)) \<Longrightarrow> \<not> P (authorizing_generation u)"
    "(k, x) \<in> set (respondings (abandon_where env P b)) \<Longrightarrow> \<not> P (responding_generation x)"
proof -
  let ?f1 = "\<lambda>(k, a) b. if P (acquiring_generation a) then snd (finish_acquiring k b) else b"
  let ?f2 = "\<lambda>(k, a) b. if P (admitting_generation a) then finish_admission k b else b"
  let ?f3 = "\<lambda>(t, p) b. if P (pending_generation p) then abandon env p b else b"
  let ?f4 = "\<lambda>(k, a) b. if P (authorizing_generation a) then abandon_authorizing k b else b"
  let ?f5 = "\<lambda>(k, r) b. if P (responding_generation r) then snd (finish_responding k False b) else b"
  define b1 where "b1 = fold ?f1 (acquirings b) b"
  define b2 where "b2 = fold ?f2 (admittings b1) b1"
  define b3 where "b3 = fold ?f3 (pendings b2) b2"
  define b4 where "b4 = fold ?f4 (authorizings b3) b3"
  define b5 where "b5 = fold ?f5 (respondings b4) b4"
  have eq: "abandon_where env P b = b5" by (simp add: abandon_where_def b1_def b2_def b3_def b4_def b5_def Let_def)
  have h: "hush c (fold ?f1 as c)" "hush c (fold ?f2 ms c)" "hush c (fold ?f3 ps c)" "hush c (fold ?f4 us c)"
    "hush c (fold ?f5 rs c)" for c as ms ps us rs
    by (rule hush_fold, auto simp: hush_refl intro: hush_finish_acquiring hush_finish_admission hush_abandon
        hush_abandon_authorizing hush_finish_responding)+
  have h2: "hush b1 b2" "hush b2 b3" "hush b3 b4" "hush b4 b5"
    unfolding b2_def b3_def b4_def b5_def by (rule h)+
  then have later: "hush b1 b5" "hush b2 b5" "hush b3 b5" by (blast intro: hush_trans)+
  have "set (acquirings b1) \<subseteq> set (acquirings b) - (\<Union>x \<in> set (acquirings b). if P (acquiring_generation (snd x)) then {y. fst y = fst x} else {})"
    unfolding b1_def by (rule fold_removes) (use finish_acquiring_removes in \<open>auto split: prod.split\<close>)
  then show "(k, a) \<in> set (acquirings (abandon_where env P b)) \<Longrightarrow> \<not> P (acquiring_generation a)"
    using hush_keeps(9) [OF later(1)] unfolding eq by force
  have "set (admittings b2) \<subseteq> set (admittings b1) - (\<Union>x \<in> set (admittings b1). if P (admitting_generation (snd x)) then {y. fst y = fst x} else {})"
    unfolding b2_def by (rule fold_removes) (use finish_admission_removes in \<open>auto split: prod.split\<close>)
  then show "(k, m) \<in> set (admittings (abandon_where env P b)) \<Longrightarrow> \<not> P (admitting_generation m)"
    using hush_keeps(8) [OF later(2)] unfolding eq by force
  have "set (authorizings b4) \<subseteq> set (authorizings b3) - (\<Union>x \<in> set (authorizings b3). if P (authorizing_generation (snd x)) then {y. fst y = fst x} else {})"
    unfolding b4_def by (rule fold_removes) (use abandon_authorizing_removes in \<open>auto split: prod.split\<close>)
  then show "(k, u) \<in> set (authorizings (abandon_where env P b)) \<Longrightarrow> \<not> P (authorizing_generation u)"
    using hush_keeps(7) [OF h2(4)] unfolding eq by force
  have "set (respondings b5) \<subseteq> set (respondings b4) - (\<Union>x \<in> set (respondings b4). if P (responding_generation (snd x)) then {y. fst y = fst x} else {})"
    unfolding b5_def by (rule fold_removes) (use respondings_finish in \<open>auto split: prod.split\<close>)
  then show "(k, x) \<in> set (respondings (abandon_where env P b)) \<Longrightarrow> \<not> P (responding_generation x)"
    unfolding eq by force
  have "roster X b2"
    unfolding b2_def b1_def by (intro roster_fold r) (auto intro: roster_intros)
  moreover have "b3 = fold (abandon env) (filter (\<lambda>p. P (pending_generation p)) (map snd (pendings b2))) b2"
    unfolding b3_def by (rule sym, rule fold_filter_map)
  ultimately have "set (pendings b3) \<subseteq> {x \<in> set (pendings b2). snd x \<notin> set (filter (\<lambda>p. P (pending_generation p)) (map snd (pendings b2)))}"
    by (simp only:) (rule pendings_gone [OF abandon_pendings roster_abandon])
  then show "(t, p) \<in> set (pendings (abandon_where env P b)) \<Longrightarrow> \<not> P (pending_generation p)"
    using hush_keeps(6) [OF later(3)] unfolding eq by force
qed

section \<open>Disposal\<close>

definition spent :: "approval_broker \<Rightarrow> bool" where
  "spent b \<longleftrightarrow> shut_down b \<and> pendings b = [] \<and> authorizings b = [] \<and> admittings b = [] \<and> acquirings b = []"

lemma settle_authorizing_fold:
  "set (authorizings (fold (\<lambda>k b. snd (settle_authorizing env k d b)) ks b))
     \<subseteq> set (authorizings b) - (\<Union>k \<in> set ks. {y. fst y = k})"
  by (rule fold_removes) (rule settle_authorizing_removes)

lemma all_removed: "A \<subseteq> B - (\<Union>x \<in> B. {y. fst y = fst x}) \<Longrightarrow> A = {}"
  by blast

lemma dispose_empties:
  assumes r: "roster X b" shows "spent (dispose_tables env b)"
proof -
  let ?f1 = "\<lambda>(k :: nat, a :: acquiring) b. snd (finish_acquiring k b)"
  let ?f2 = "\<lambda>(k :: nat, a :: admitting) b. finish_admission k b"
  let ?f3 = "\<lambda>(k :: nat, r :: responding) b. snd (finish_responding k False b)"
  define b1 where "b1 = fold ?f1 (acquirings b) (b\<lparr>shut_down := True\<rparr>)"
  define b2 where "b2 = fold ?f2 (admittings b) b1"
  define b3 where "b3 = fold ?f3 (respondings b) b2"
  define b4 where "b4 = fold abort_generation
    (rev (remdups (rev (map (acquiring_generation \<circ> snd) (acquirings b)
      @ map (admitting_generation \<circ> snd) (admittings b) @ map (responding_generation \<circ> snd) (respondings b))))) b3"
  define b5 where "b5 = fold (\<lambda>p b. snd (settle_with env (publish_cards env) p Cancel b)) (map snd (pendings b4)) b4"
  define b6 where "b6 = fold (\<lambda>k b. snd (settle_authorizing env k Cancel b)) (map fst (authorizings b4)) b5"
  have eq: "dispose_tables env b = b6"
    by (simp add: dispose_tables_def cancel_all_def b1_def b2_def b3_def b4_def b5_def b6_def Let_def)
  have h1: "hush (b\<lparr>shut_down := True\<rparr>) b1" unfolding b1_def
    by (rule hush_fold) (auto simp: hush_refl intro: hush_finish_acquiring)
  have h2: "hush b1 b2" unfolding b2_def by (rule hush_fold) (auto simp: hush_refl intro: hush_finish_admission)
  have h3: "hush b2 b3" unfolding b3_def by (rule hush_fold) (auto simp: hush_refl intro: hush_finish_responding)
  have h4: "hush b3 b4" unfolding b4_def by (rule hush_fold) (auto simp: hush_refl intro: hush_abort)
  have h5: "hush b4 b5" unfolding b5_def
    by (rule hush_fold) (auto simp: hush_refl intro: hush_settle_with hush_show_cards)
  have h6: "hush b5 b6" unfolding b6_def by (rule hush_fold) (auto simp: hush_refl intro: hush_settle_authorizing)
  have "set (acquirings b1) \<subseteq> set (acquirings (b\<lparr>shut_down := True\<rparr>)) - (\<Union>x \<in> set (acquirings b). {y. fst y = fst x})"
    unfolding b1_def by (rule fold_removes) (use finish_acquiring_removes in \<open>auto split: prod.split\<close>)
  then have "set (acquirings b1) = {}" by (intro all_removed) simp
  then have acq: "acquirings b6 = []"
    using h2 h3 h4 h5 h6 by (auto simp: hush_def)
  have "set (admittings b2) \<subseteq> set (admittings b1) - (\<Union>x \<in> set (admittings b). {y. fst y = fst x})"
    unfolding b2_def by (rule fold_removes) (use finish_admission_removes in \<open>auto split: prod.split\<close>)
  moreover have "set (admittings b1) \<subseteq> set (admittings b)" using hush_keeps(8) [OF h1] by simp
  ultimately have "set (admittings b2) = {}" by (intro all_removed) blast
  then have adm: "admittings b6 = []" using h3 h4 h5 h6 by (auto simp: hush_def)
  have "roster X b4"
    unfolding b4_def b3_def b2_def b1_def
    by (rule roster_fold, rule roster_intros, assumption, rule roster_fold, force intro: roster_intros,
        rule roster_fold, force intro: roster_intros, rule roster_fold, force intro: roster_intros)
      (rule roster_same(31) [OF r])
  then have "set (pendings b5) \<subseteq> {x \<in> set (pendings b4). snd x \<notin> set (map snd (pendings b4))}"
    unfolding b5_def by (intro settled_gone roster_publish hush_keeps(6) hush_show_cards hush_refl)
  then have "set (pendings b5) = {}" by (metis (no_types, lifting) image_eqI mem_Collect_eq set_map subset_empty subsetI subsetD)
  then have pend: "pendings b6 = []" using h6 by (auto simp: hush_def)
  have "set (authorizings b6) \<subseteq> set (authorizings b5) - (\<Union>k \<in> set (map fst (authorizings b4)). {y. fst y = k})"
    unfolding b6_def by (rule settle_authorizing_fold)
  moreover have "set (authorizings b5) \<subseteq> set (authorizings b4)" using h5 by (simp add: hush_def)
  ultimately have "set (authorizings b6) = {}" by (intro all_removed) auto
  moreover have "shut_down b6" using h1 h2 h3 h4 h5 h6 by (simp add: hush_def)
  ultimately show ?thesis using acq adm pend by (simp add: spent_def eq)
qed

fun quiet :: "approval_effect \<Rightarrow> bool" where
  "quiet (Answered_Request _ _ _ _) = False"
| "quiet (Lease_Requested _) = False"
| "quiet (Cards_Shown _ cs) = (cs = [])"
| "quiet (Cards_Read _ cs) = (cs = [])"
| "quiet _ = True"

definition rests :: "approval_broker \<Rightarrow> approval_broker \<Rightarrow> bool" where
  "rests b b' \<longleftrightarrow> spent b' \<and> tells quiet b b' \<and> fst ` set (respondings b') \<subseteq> fst ` set (respondings b)"

lemma rests_refl: "spent b \<Longrightarrow> rests b b"
  by (simp add: rests_def tells_same)

lemma rests_spent: "rests a b \<Longrightarrow> spent b"
  by (simp add: rests_def)

named_theorems rest_intros \<open>operations on empty tables\<close>

lemma rests_log [rest_intros]: "rests a b \<Longrightarrow> quiet e \<Longrightarrow> rests a (log_effect e b)"
  by (simp add: rests_def spent_def tells_log) (simp add: log_effect_def)

lemma rests_fields [rest_intros]:
  assumes "rests a b"
  shows "rests a (asked b)" "rests a (put_timer k t b)" "rests a (put_approval_task k t' b)" "rests a (drop_approval_task k b)"
    "rests a (b\<lparr>next_handle := n\<rparr>)" "rests a (b\<lparr>respondings := map_delete (respondings b) k\<rparr>)" "rests a (b\<lparr>outcomes := q\<rparr>)"
    "rests a (b\<lparr>records := rs\<rparr>)" "rests a (b\<lparr>records := rs, sessions := ss\<rparr>)" "rests a (b\<lparr>leases := l\<rparr>)"
    "rests a (b\<lparr>next_key := n\<rparr>)" "rests a (b\<lparr>sessions := ss, thread_roots := tr, file_scopes := fs\<rparr>)"
    "rests a (b\<lparr>next_session := ns, records := rs, sessions := ss\<rparr>)" "rests a (b\<lparr>timers := ts\<rparr>)"
  using assms
  by (auto simp: rests_def spent_def tells_def asked_def put_timer_def put_approval_task_def drop_approval_task_def
      map_delete_def)

lemma rests_simple [rest_intros]:
  assumes "rests a b"
  shows "rests a (clear_handle h b)" "rests a (release_lease k b)" "rests a (abort_generation g b)"
  using assms by (simp_all add: clear_handle_def release_lease_def abort_generation_def rest_intros split: option.split)

lemma spent_nothing:
  assumes "spent b"
  shows "finish_acquiring k b = (False, b)" "finish_admission k b = b" "complete_admission k b = (False, b)"
    "settle_authorizing env k d b = (False, b)" "abandon_authorizing k b = b" "respond_admission env k g i d b = b"
    "settle_with env pub p d b = (False, b)" "settle_approval env p d b = (False, b)" "abandon env p b = b"
    "cancel_flow env k d b = b" "settle_timed env k d b = b" "cards_for s b = []"
    "can_respond env k g i b = (False, b)" "\<not> is_pending p b" "admit_request env k e g b = release_lease k b"
    "map_has (authorizings b) k = False" "map_get (pendings b) tk = None" "map_has (acquirings b) k = False"
    "admitted env k e g b = b"
  using assms
  by (simp_all add: spent_def finish_acquiring_def finish_admission_def complete_admission_def settle_authorizing_def
      abandon_authorizing_def respond_admission_def settle_with_def settle_approval_def abandon_def cancel_flow_def
      settle_timed_def cards_for_def can_respond_def is_pending_def map_has_def map_get_def admit_request_def admitted_def)

lemma spent_cancel: "spent b \<Longrightarrow> cancel_all env pub ps ks b = b"
proof -
  assume s: "spent b"
  have "fold (\<lambda>p b. snd (settle_with env pub p Cancel b)) ps b = b" by (induction ps) (simp_all add: spent_nothing [OF s])
  moreover have "fold (\<lambda>k b. snd (settle_authorizing env k Cancel b)) ks b = b"
    by (induction ks) (simp_all add: spent_nothing [OF s])
  ultimately show "cancel_all env pub ps ks b = b" by (simp add: cancel_all_def)
qed

lemma rests_finish_responding [rest_intros]: "rests a b \<Longrightarrow> rests a (snd (finish_responding k ok b))"
  by (simp add: finish_responding_def rest_intros split: option.split)

lemma rests_timeout [rest_intros]: "rests a b \<Longrightarrow> rests a (timeout_responding k b)"
  by (simp add: timeout_responding_def rest_intros split: option.split)

lemma rests_cancel_owned [rest_intros]: "rests a b \<Longrightarrow> rests a (cancel_owned env pub s v b)"
  by (simp add: cancel_owned_def spent_cancel rests_spent)

lemma rests_disconnect [rest_intros]: "rests a b \<Longrightarrow> rests a (disconnect env s b)"
  by (simp add: disconnect_def Let_def rest_intros)

lemma rests_publish [rest_intros]: "rests a b \<Longrightarrow> rests a (publish_cards env s b)"
  by (simp add: publish_cards_def Let_def rest_intros spent_nothing(12) [OF rests_spent])

lemma rests_replace [rest_intros]: "rests a b \<Longrightarrow> rests a (replace_context env s c b)"
  by (simp add: replace_context_def Let_def rest_intros)

lemma rests_contexts [rest_intros]:
  assumes "rests a b" shows "rests a (dispose_context env s b)" "rests a (set_context env s v b)" "rests a (close_context env v b)"
  using assms
  by (simp_all add: dispose_context_def set_context_def close_context_def rest_intros spent_cancel [OF rests_spent]
      split: option.split)

lemma rests_fold: "(\<And>x b. rests a b \<Longrightarrow> rests a (f x b)) \<Longrightarrow> rests a b \<Longrightarrow> rests a (fold f xs b)"
  by (induction xs arbitrary: b) simp_all

lemma rests_connect [rest_intros]: "rests a b \<Longrightarrow> rests a (connect_client env b)"
proof -
  assume "rests a b"
  then have "rests a (evict_clients env ss b)" for ss
    unfolding evict_clients_def by (rule rests_fold [rotated]) (simp add: rest_intros)
  then show "rests a (connect_client env b)" by (simp add: connect_client_def Let_def rest_intros)
qed

lemma rests_timers [rest_intros]:
  assumes "rests a b"
  shows "rests a (on_timer_once env k v b)" "rests a (snd (schedule_timer env k delay b))" "rests a (on_timer env k v b)"
proof -
  have settle: "rests a (settle_timed env k d c)" if "rests a c" for d c
    using that by (simp add: spent_nothing(11) [OF rests_spent])
  have once: "rests a (on_timer_once env k v c)" if "rests a c" for c v
    using that by (simp add: on_timer_once_def settle rest_intros split: option.split)
  then show "rests a (on_timer_once env k v b)" using assms .
  have schedule: "rests a (snd (schedule_timer env k delay c))" if "rests a c" for c delay
    using that by (auto simp: schedule_timer_def Let_def intro!: once rest_intros split: option.split schedule_answer.split)
  then show "rests a (snd (schedule_timer env k delay b))" using assms .
  show "rests a (on_timer env k v b)"
    using assms by (simp add: on_timer_def Let_def settle schedule rest_intros split: option.split clock_verdict.split)
qed

lemma rests_make_capacity [rest_intros]: "rests a b \<Longrightarrow> rests a (make_capacity env k e g b)"
proof (induction env k e g b rule: make_capacity.induct)
  case (1 env k e g b)
  have s: "spent b" using 1(2) by (rule rests_spent)
  then have t: "admittings b = []" "pendings b = []" "authorizings b = []" by (simp_all add: spent_def)
  show ?case
  proof (cases "\<exists>r x rest. respondings b = (r, x) # rest \<and> responding_generation x \<noteq> g
      \<and> \<not> active_approvals b < opt_max_pending (env_options env)")
    case True
    then obtain r x rest where "respondings b = (r, x) # rest" "responding_generation x \<noteq> g"
      "\<not> active_approvals b < opt_max_pending (env_options env)" by blast
    moreover from this 1(2) t have "rests a (make_capacity env k e g (snd (finish_responding r False b)))"
      by (intro 1(1)) (simp_all add: rest_intros)
    ultimately show ?thesis using t by (simp add: make_capacity.simps [of env k e g b])
  next
    case False
    with 1(2) t show ?thesis
      by (subst make_capacity.simps) (auto simp: rest_intros spent_nothing(15) [OF s] split: list.split)
  qed
qed

lemma rests_resume [rest_intros]:
  assumes r: "rests a b" shows "rests a (resume_approval env k b)"
proof -
  have d: "rests a (drop_approval_task k b)" using r by (rule rest_intros)
  note sd = rests_spent [OF d] and s = rests_spent [OF r]
  have shut: "shut_down (drop_approval_task k b)" using sd by (simp add: spent_def)
  have held: "rests a (lease_held env k e g (drop_approval_task k b))" for e g
    using d by (simp add: lease_held_def shut spent_nothing [OF sd] rest_intros)
  have waits: "rests a (resume_capacity env k e g w b)" for e g w
    using r d by (simp add: resume_capacity_def capacity_continued_def spent_nothing [OF sd] rest_intros
        split: capacity_wait.split)
  show ?thesis
    using r d held waits
    by (simp add: resume_approval_def resume_scope_def resume_decision_def scope_decided_def spent_nothing [OF sd]
        spent_nothing [OF s] rest_intros split: option.split approval_task.split op.split)
qed

lemma rests_next:
  assumes "spent b" shows "rests b (approval_next env b e)"
proof -
  have r: "rests b b" using assms by (rule rests_refl)
  have shut: "shut_down b" using assms by (simp add: spent_def)
  note idle = spent_nothing [OF assms]
  have tasks: "rests b (lease_granted k g b)" "rests b (lease_denied k b)" "rests b (answer_task env k scope path b)" for k g scope path
    using r by (simp_all add: lease_granted_def lease_denied_def answer_task_def start_scope_def Let_def rest_intros
        spent_nothing [OF rests_spent [OF rests_fields(4) [OF r]]] idle split: option.split approval_task.split)
  have decide: "rests b (decide env s v b)" for s v
    using r idle(17) by (simp add: decide_def Let_def rest_intros split: option.split)
  have host: "handle_server_request env v g b = b" "host_notification env v g b = b" "host_state_changed env rd g b = b"
    "dispose_approvals env b = b" for v g rd
    using shut by (simp_all add: handle_server_request_def host_notification_def host_state_changed_def dispose_approvals_def)
  show ?thesis using r
    by (cases e) (simp_all add: rest_intros tasks decide host idle)
qed

lemma spent_run:
  assumes "spent b"
  shows "spent (fst (run_machine (approval_step env) b es)) \<and> list_all quiet (snd (run_machine (approval_step env) b es))
    \<and> fst ` set (respondings (fst (run_machine (approval_step env) b es))) \<subseteq> fst ` set (respondings b)"
  using assms
proof (induction es arbitrary: b)
  case (Cons e es)
  have r: "rests b (approval_next env b e)" using Cons.prems by (rule rests_next)
  then have "list_all quiet (snd (approval_step env b e))" by (simp add: rests_def step_tells)
  moreover have "fst (approval_step env b e) = approval_next env b e" by (simp add: approval_step_def)
  ultimately show ?case using Cons.IH [OF rests_spent [OF r]] r by (auto simp: rests_def)
qed simp

text \<open>The broker is shut down only by disposal, which empties the tables.\<close>

definition ended :: "approval_broker \<Rightarrow> bool" where
  "ended b \<longleftrightarrow> roster {} b \<and> (shut_down b \<longrightarrow> spent b)"

lemma dispose_shut: "shut_down (dispose_approvals env b)"
  using hush_keeps(5) [OF hush_dispose_tables [of b env]] by (simp add: dispose_alt Let_def put_approval_task_def)

lemma spent_dispose:
  assumes "ended b" shows "spent (dispose_approvals env b)"
proof (cases "shut_down b")
  case True
  with assms show ?thesis by (simp add: ended_def dispose_approvals_def)
next
  case False
  have "spent (dispose_tables env b)" using assms dispose_empties by (auto simp: ended_def)
  with False show ?thesis by (simp add: dispose_alt Let_def) (simp add: spent_def put_approval_task_def)
qed

interpretation ending: stateful "approval_step env" ended for env
proof
  fix b e assume b: "ended b"
  have "spent (approval_next env b e)" if "shut_down (approval_next env b e)"
  proof (cases "e = Dispose_Approvals")
    case True
    with spent_dispose [OF b] show ?thesis by simp
  next
    case False
    with that have "shut_down b" by (simp add: shut_next)
    with b show ?thesis using rests_next [of b env e] by (simp add: ended_def rests_def)
  qed
  with b show "ended (fst (approval_step env b e))" by (simp add: ended_def approval_step_def roster_next)
qed

end
