(* ===== verification/ApprovalSafety.thy ===== *)
theory ApprovalSafety
  imports ApprovalSample ApprovalEnds
begin

text \<open>
  What holds in every run of the approval broker, for every host, clock, scheduler and client that
  theory \<open>ApprovalBroker\<close> lets the environment describe. The only hypothesis on the environment is that
  the random tokens drawn in the run differ (\<open>tokens_distinct\<close>).
\<close>

lemma sample_tokens_distinct: "tokens_distinct sample_env sample_events"
proof -
  have "next_token sample_shown = 1" by (simp add: sample_shown_def)
  with letters_distinct show ?thesis by (simp add: tokens_distinct_def sample_run sample_simps)
qed

section \<open>Accounts\<close>

text \<open>C17. The approvals in progress, from the reservation of a slot to the end of their answer, never
  exceed the configured limit.\<close>

theorem approvals_bounded:
  assumes "tokens_distinct env es"
  shows "active_approvals (approvals_after env es) \<le> opt_max_pending (env_options env)"
  using books_accounts [OF approvals_run(1) [OF assms]] by (simp add: accounts_def)

theorem approvals_bounded_witness:
  "active_approvals (approvals_after sample_env sample_events) \<le> 4"
  using approvals_bounded [OF sample_tokens_distinct] by (simp add: sample_simps)

text \<open>C4. Every lease the host has granted is in exactly one place: held by a suspended handler or an
  entry of one table, or released. None is lost, none is released twice.\<close>

theorem approval_leases_conserved:
  assumes "tokens_distinct env es"
  shows "mset (granted (approvals_after env es)) =
      held (approvals_after env es) + mset (released (approvals_after env es))
    \<and> distinct (granted (approvals_after env es))"
  using books_accounts [OF approvals_run(1) [OF assms]] by (simp add: accounts_def)

theorem approval_leases_conserved_witness:
  "mset [0] = held (approvals_after sample_env sample_events) + mset (released (approvals_after sample_env sample_events))"
  using approval_leases_conserved [OF sample_tokens_distinct]
  by (simp add: sample_run) (simp add: sample_shown_def granted_def)

text \<open>C6. No request is answered twice, and only requests whose lease was granted are answered.\<close>

theorem approval_answered_once:
  assumes "tokens_distinct env es"
  shows "distinct (List.map_filter answered_request (snd (run_machine (approval_step env) new_approval_broker es)))
    \<and> set (List.map_filter answered_request (snd (run_machine (approval_step env) new_approval_broker es)))
        \<subseteq> set (granted (approvals_after env es))"
proof -
  let ?b = "approvals_after env es"
  have h: "history ?b = snd (run_machine (approval_step env) new_approval_broker es)"
    using run_history [of env new_approval_broker es] by (simp add: new_approval_broker_def)
  note a = books_accounts [OF approvals_run(1) [OF assms]]
  have "held ?b + mset (released ?b) = mset (granted ?b)" using a by (simp add: accounts_def)
  then have "set_mset (held ?b + mset (released ?b)) = set (granted ?b)" by simp
  then have "fst ` set (respondings ?b) \<union> set (released ?b) \<subseteq> set (granted ?b)" by (auto simp: held_def)
  moreover have "distinct (answered ?b)" "set (answered ?b) \<subseteq> fst ` set (respondings ?b) \<union> set (released ?b)"
    using a by (simp_all add: accounts_def)
  ultimately have "distinct (answered ?b) \<and> set (answered ?b) \<subseteq> set (granted ?b)" by blast
  then show ?thesis by (simp only: answered_def h)
qed

theorem approval_answered_once_witness:
  "set (List.map_filter answered_request (snd (run_machine (approval_step sample_env) new_approval_broker sample_events)))
     \<subseteq> {0}"
  using approval_answered_once [OF sample_tokens_distinct]
  by (simp add: sample_run) (simp add: sample_shown_def granted_def)

section \<open>Consent\<close>

text \<open>C5. A request is accepted only by a client's decision: the card it names is pending, the client is
  connected and owns the card in its present context, the token and the fingerprint are those of the
  card, the decision is one the card offers, and the clock has not reached its expiry. For a file scope
  the decision waited for the check of the scope, and the check has succeeded.\<close>

theorem acceptance_needs_consent:
  assumes run: "tokens_distinct env es"
    and says: "Answered_Request k g i d \<in> set (snd (approval_step env (approvals_after env es) e))"
    and accepts: "d = Accept \<or> d = Accept_For_Session"
  shows "\<exists>s p q. Answered_Request k g i d = answer_of p (decided q)
    \<and> consents env (approvals_after env es) s p q
    \<and> (pending_scope_fingerprint p = None
         \<and> (\<exists>v. e = Decide s v \<and> validate_decision_request (px_of env) v = Some q)
       \<or> (\<exists>t. e = Resume_Task t
            \<and> map_get (approval_tasks (approvals_after env es)) t = Some (Deciding s p q (Finished True))))"
proof -
  let ?b = "approvals_after env es"
  let ?a = "Answered_Request k g i d"
  note ok = approvals_run [OF run]
  have not_mild: "\<not> mild ?a" using accepts by auto
  have in_step: "Q ?a" if "tells Q ?b (approval_next env ?b e)" for Q
    using that says by (simp add: step_tells list_all_iff)
  consider s v where "e = Decide s v" | t where "e = Resume_Task t" | "\<And>s v. e \<noteq> Decide s v" "\<And>t. e \<noteq> Resume_Task t" by blast
  then show ?thesis
  proof cases
    case 1
    then have "tells (direct_answer env ?b s v) ?b (approval_next env ?b e)" using decide_tells [OF ok(1)] by simp
    then have "direct_answer env ?b s v ?a" by (rule in_step)
    with not_mild 1 show ?thesis unfolding direct_answer_def by blast
  next
    case 2
    let ?Q = "\<lambda>e. mild e \<or> (\<exists>s p q. map_get (approval_tasks ?b) t = Some (Deciding s p q (Finished True))
      \<and> e = answer_of p (decided q) \<and> consents env ?b s p q)"
    have "tells ?Q ?b (approval_next env ?b e)" using 2 resume_tells(1) [OF ok(2)] by simp
    then have "?Q ?a" by (rule in_step)
    with not_mild 2 show ?thesis by blast
  next
    case 3
    then have "tells mild ?b (approval_next env ?b e)" by (intro mild_next) blast+
    with in_step not_mild show ?thesis by blast
  qed
qed

lemma sample_accepts:
  "Answered_Request 0 1 (Id_Number 7) Accept
     \<in> set (snd (approval_step sample_env sample_shown (Decide 1 (sample_decision ''accept''))))"
proof -
  have q: "validate_decision_request (\<lambda>_. False) (sample_decision ''accept'') =
      Some \<lparr>decided_token = letters 0, decided_fingerprint = letters 0, decided = Accept\<rparr>"
    by (simp add: validate_decision_request_def sample_decision_def reading_simps text_of_def letters_opaque decision_name_def)
  have eq: "constant_time_equal (letters 0) (letters 0)" by (simp add: constant_time_equal_def letters_opaque)
  show ?thesis
    by (simp add: approval_step_def decide_def sample_simps q sample_shown_def new_approval_broker_def table_simps
        owns_pending_def session_of_def sample_session_def sample_pending_def in_context_def eq timed_decision_def
        read_clock_def safe_integer_of_def short_text final_decision_def settle_approval_def settle_with_def
        is_pending_def stop_timer_def clear_handle_def publish_cards_def cards_for_def respond_and_release_def
        put_approval_task_def)
qed

theorem acceptance_needs_consent_witness:
  "\<exists>s p q. Answered_Request 0 1 (Id_Number 7) Accept = answer_of p (decided q)
    \<and> consents sample_env (approvals_after sample_env sample_events) s p q"
proof -
  have "Answered_Request 0 1 (Id_Number 7) Accept
      \<in> set (snd (approval_step sample_env (approvals_after sample_env sample_events) (Decide 1 (sample_decision ''accept''))))"
    unfolding sample_run by (rule sample_accepts)
  from acceptance_needs_consent [OF sample_tokens_distinct this] show ?thesis by blast
qed

section \<open>Ownership\<close>

text \<open>C19. In every run each pending approval belongs to a client that is connected, at the revision and in
  the context that client has now, so that a client is shown exactly the approvals it owns.\<close>

theorem approvals_owned:
  "list_all (\<lambda>(t, p). owns_pending (pending_owner p) p (approvals_after env es)) (pendings (approvals_after env es))
   \<and> cards_for s (approvals_after env es) =
       map pending_card (filter (\<lambda>p. pending_owner p = s) (map snd (pendings (approvals_after env es))))"
proof -
  let ?b = "approvals_after env es"
  have "roster {} ?b" by (rule owners.run_inv) (rule roster_new)
  then have live: "owns_pending (pending_owner p) p ?b" if "(t, p) \<in> set (pendings ?b)" for t p
    using that by (auto simp: roster_def live_def)
  then have "filter (\<lambda>p. pending_owner p = s \<and> pending_revision p = session_revision (session_of s ?b)) (map snd (pendings ?b))
      = filter (\<lambda>p. pending_owner p = s) (map snd (pendings ?b))"
    by (intro filter_cong) (auto simp: owns_pending_def)
  with live show ?thesis by (auto simp: list_all_iff cards_for_def)
qed

section \<open>Ends\<close>

text \<open>C21. Disposal is final: from the moment the broker is disposed, whatever happens, it answers no
  request, asks for no lease and shows no card; nothing is acquired, admitted, authorized or pending any
  more; and the only answers still under way are those that were when the disposal returned, to which none is
  added.\<close>

theorem approvals_dispose_final:
  "let b = dispose_approvals env (approvals_after env es); r = run_machine (approval_step env) b es'
   in list_all quiet (snd r) \<and> acquirings (fst r) = [] \<and> admittings (fst r) = [] \<and> authorizings (fst r) = []
      \<and> pendings (fst r) = [] \<and> set (map_keys (respondings (fst r))) \<subseteq> set (map_keys (respondings b))"
proof -
  have "ended new_approval_broker" by (simp add: ended_def roster_new) (simp add: new_approval_broker_def)
  then have "ended (approvals_after env es)" by (rule ending.run_inv)
  then have "ended (approval_next env (approvals_after env es) Dispose_Approvals)"
    using ending.step_inv [of "approvals_after env es" env Dispose_Approvals] by (simp add: approval_step_def)
  then have "spent (dispose_approvals env (approvals_after env es))" by (simp add: ended_def dispose_shut)
  from spent_run [OF this, of env es'] show ?thesis by (simp add: Let_def spent_def map_keys_def)
qed

text \<open>C18. When the host reports a generation, no approval of another generation is left in any stage; when
  it reports that it is not ready, none is left at all.\<close>

theorem approvals_generation_scoped:
  assumes "\<not> shut_down (approvals_after env es)" "safe_int g"
  shows "let b = host_state_changed env is_ready g (approvals_after env es) in
     list_all (\<lambda>(k, a). is_ready \<and> acquiring_generation a = g) (acquirings b)
     \<and> list_all (\<lambda>(k, a). is_ready \<and> admitting_generation a = g) (admittings b)
     \<and> list_all (\<lambda>(k, a). is_ready \<and> authorizing_generation a = g) (authorizings b)
     \<and> list_all (\<lambda>(t, p). is_ready \<and> pending_generation p = g) (pendings b)
     \<and> list_all (\<lambda>(k, r). is_ready \<and> responding_generation r = g) (respondings b)"
proof -
  have r: "roster {} (approvals_after env es)" by (rule owners.run_inv) (rule roster_new)
  then have filtered: "roster {} ((approvals_after env es)\<lparr>thread_roots := tr, file_scopes := fs\<rparr>)" for tr fs
    by (rule roster_intros)
  have gone: "list_all (\<lambda>(k, a). \<not> P (acquiring_generation a)) (acquirings (abandon_where env P b))
      \<and> list_all (\<lambda>(k, a). \<not> P (admitting_generation a)) (admittings (abandon_where env P b))
      \<and> list_all (\<lambda>(k, a). \<not> P (authorizing_generation a)) (authorizings (abandon_where env P b))
      \<and> list_all (\<lambda>(t, p). \<not> P (pending_generation p)) (pendings (abandon_where env P b))
      \<and> list_all (\<lambda>(k, r). \<not> P (responding_generation r)) (respondings (abandon_where env P b))"
    if "roster {} b" for P b
    using abandon_where_ends [OF that, of _ _ env P] by (auto simp: list_all_iff)
  show ?thesis
  proof (cases is_ready)
    case True
    with assms gone [OF filtered, of "\<lambda>g'. g' \<noteq> g"] show ?thesis by (simp add: host_state_changed_def Let_def)
  next
    case False
    with assms gone [OF r, of "\<lambda>_. True"] show ?thesis by (simp add: host_state_changed_def Let_def)
  qed
qed

theorem approvals_generation_scoped_witness:
  "list_all (\<lambda>(t, p). pending_generation p = 2)
     (pendings (host_state_changed sample_env True 2 (approvals_after sample_env sample_events)))"
proof -
  have "\<not> shut_down (approvals_after sample_env sample_events)"
    by (simp add: sample_run) (simp add: sample_shown_def new_approval_broker_def)
  moreover have "safe_int 2" by (simp add: safe_int_def max_safe_integer_def)
  ultimately show ?thesis
    using approvals_generation_scoped [of sample_env sample_events 2 True] by (simp add: Let_def)
qed

section \<open>Expiry\<close>

text \<open>What an answer leads to: it is sent, or the generation is aborted.\<close>

lemma respond_says:
  "\<exists>es. history (respond_and_release env k g i d b) = history b @ es
     \<and> (Answered_Request k g i d \<in> set es \<or> Generation_Aborted g \<in> set es)"
  by (auto simp: respond_and_release_def Let_def log_effect_def abort_generation_def asked_def timeout_responding_def
      clear_handle_def map_get_set release_lease_def finish_responding_def split: schedule_answer.split)

text \<open>C22. An approval does not outlive its expiry: when its timer fires and the clock is at or past the
  expiry, the card is taken away and the request is cancelled, or its generation is aborted.\<close>

theorem expired_approval_cancelled:
  assumes run: "tokens_distinct env es"
    and card: "(t, p) \<in> set (pendings (approvals_after env es))"
    and timer: "timer_live (pending_key p) v (approvals_after env es) = Some tm"
    and late: "read_clock env (timer_issued tm) (timer_expires tm) (approvals_after env es) = Clock_Late"
  shows "(\<exists>o' \<in> set (snd (approval_step env (approvals_after env es) (Timer_Fired (pending_key p) v))).
        o' = answer_of p Cancel \<or> o' = Generation_Aborted (pending_generation p))
    \<and> p \<notin> snd ` set (pendings (fst (approval_step env (approvals_after env es) (Timer_Fired (pending_key p) v))))"
proof -
  let ?b = "approvals_after env es"
  let ?c = "snd (settle_approval env p Cancel (asked ?b))"
  note a = books_accounts [OF approvals_run(1) [OF run]]
  have d: "distinct (map (\<lambda>p. pending_key (snd p)) (pendings ?b))" by (rule accounts_distinct(4) [OF a])
  have find: "List.find (\<lambda>q. pending_key q = pending_key p) (map snd ps) = Some p"
    if "(t, p) \<in> set ps" "distinct (map (\<lambda>p. pending_key (snd p)) ps)" for ps :: "(jsstr \<times> pending_approval) list"
    using that by (induction ps) (force simp: image_iff)+
  have f: "List.find (\<lambda>q. pending_key q = pending_key p) (map snd (pendings (asked ?b))) = Some p"
    using find [OF card d] by (simp add: asked_def)
  have next_is: "approval_next env ?b (Timer_Fired (pending_key p) v) = ?c"
    using f by (simp add: on_timer_def timer late settle_timed_def)
  have tok: "pending_token p = t" and "map_ok (pendings ?b)" using a card by (auto simp: accounts_def)
  then have pend: "is_pending p (asked ?b)" using card
    by (simp add: is_pending_def asked_def map_get_def map_ok_def map_keys_def)
  let ?b1 = "stop_timer (pending_key p) ((asked ?b)\<lparr>pendings := map_delete (pendings (asked ?b)) (pending_token p)\<rparr>)"
  define b2 where "b2 = (if pending_owner p \<in> set (sessions ?b1) then publish_cards env (pending_owner p) ?b1 else ?b1)"
  have c: "?c = respond_and_release env (pending_key p) (pending_generation p) (pending_request p) Cancel b2"
    using pend by (simp add: settle_approval_def settle_with_def Let_def b2_def)
  have "hush ?b ?b1" by (intro hush_stop_timer hush_delete(4) hush_asked hush_refl)
  then have "hush ?b b2" by (simp only: b2_def hush_show_cards split: if_split) simp
  then obtain es1 where h1: "history b2 = history ?b @ es1" using hush_history by blast
  obtain es2 where h2: "history ?c = history b2 @ es2"
    "answer_of p Cancel \<in> set es2 \<or> Generation_Aborted (pending_generation p) \<in> set es2"
    using respond_says c by metis
  have says: "snd (approval_step env ?b (Timer_Fired (pending_key p) v)) = es1 @ es2"
    by (simp add: approval_step_def next_is h1 h2(1) del: approval_next.simps)
  have "set (pendings ?c) \<subseteq> set (map_delete (pendings (asked ?b)) (pending_token p))"
    unfolding settle_approval_def
    by (rule settle_with_pendings(2) [OF _ pend]) (rule hush_keeps(6), rule hush_show_cards, rule hush_refl)
  then have "set (pendings ?c) \<subseteq> {x \<in> set (pendings ?b). fst x \<noteq> t}" by (simp add: tok asked_def map_delete_def)
  then have "p \<notin> snd ` set (pendings ?c)" using a tok by (force simp: accounts_def)
  with says h2(2) show ?thesis by (auto simp: approval_step_def next_is simp del: approval_next.simps)
qed

theorem expired_approval_cancelled_witness:
  "\<exists>o' \<in> set (snd (approval_step sample_env sample_late (Timer_Fired 0 2))).
     o' = Answered_Request 0 1 (Id_Number 7) Cancel \<or> o' = Generation_Aborted 1"
proof -
  let ?es = "sample_events @ [Timer_Fired 0 1]"
  have "next_token sample_late = 1" by (simp add: sample_late_def sample_shown_def)
  with letters_distinct have run: "tokens_distinct sample_env ?es"
    unfolding tokens_distinct_def sample_run_late by (simp add: sample_simps)
  have card: "(letters 0, sample_pending) \<in> set (pendings (approvals_after sample_env ?es))"
    unfolding sample_run_late by (simp add: sample_late_def sample_shown_def)
  have key: "pending_key sample_pending = 0" "pending_generation sample_pending = 1" "pending_request sample_pending = Id_Number 7"
    by (simp_all add: sample_pending_def)
  have timer: "timer_live (pending_key sample_pending) 2 (approvals_after sample_env ?es) = Some sample_timer"
    unfolding sample_run_late key by (simp add: timer_live_def sample_late_def sample_timer_def map_get_def)
  have late: "read_clock sample_env (timer_issued sample_timer) (timer_expires sample_timer)
      (approvals_after sample_env ?es) = Clock_Late"
    unfolding sample_run_late
    by (simp add: read_clock_def sample_simps sample_late_def sample_timer_def safe_integer_of_def safe_int_def max_safe_integer_def)
  from expired_approval_cancelled [OF run card timer late] show ?thesis
    unfolding sample_run_late key by blast
qed

end
