(* ===== verification/ScopeFacts.thy ===== *)
theory ScopeFacts
  imports ApprovalScope
begin

text \<open>
  What the file scope of an approval can name on \<open>path.posix\<close>: the paths that are shown are relative
  paths below the workspace, and the real paths lie below the real workspace, whatever the file
  system answers while the scope is resolved.
\<close>

section \<open>Every outcome of an asynchronous computation\<close>

primrec op_all :: "('a \<Rightarrow> bool) \<Rightarrow> 'a op \<Rightarrow> bool" where
  "op_all P (Finished x) = P x"
| "op_all P (Ask_Scope i f) = (\<forall>v. op_all P (f v))"
| "op_all P (Ask_Real p f) = (\<forall>v. op_all P (f v))"
| "op_all P (Later m) = op_all P m"

lemma op_all_bind:
  "op_all P m \<Longrightarrow> (\<And>x. P x \<Longrightarrow> op_all Q (f x)) \<Longrightarrow> op_all Q (op_bind m f)"
  by (induction m) auto

lemma op_all_any: "op_all (\<lambda>_. True) m"
  by (induction m) auto

lemma op_all_mono: "op_all P m \<Longrightarrow> (\<And>x. P x \<Longrightarrow> Q x) \<Longrightarrow> op_all Q m"
  by (induction m) auto

section \<open>Containment\<close>

definition below :: "jsstr \<Rightarrow> jsstr \<Rightarrow> jsstr \<Rightarrow> bool" where
  "below cwd base p \<longleftrightarrow> (\<exists>rest. location cwd p = location cwd base @ rest)"

definition inner_path :: "jsstr \<Rightarrow> bool" where
  "inner_path p \<longleftrightarrow> (\<exists>ss. ss \<noteq> [] \<and> list_all proper_segment ss \<and> p = posix_join ss)"

definition change_paths :: "(jsstr \<Rightarrow> bool) \<Rightarrow> scope_change \<Rightarrow> bool" where
  "change_paths P c \<longleftrightarrow> P (scope_path c) \<and> (case scope_move c of None \<Rightarrow> True | Some m \<Rightarrow> P m)"

lemma shown_path_inner:
  assumes "is_within (posix_paths cwd) workspace target" "shown_path (posix_paths cwd) workspace target = Some shown"
  shows "inner_path shown"
proof -
  obtain rest where loc: "location cwd target = location cwd workspace @ rest"
    and rel: "posix_relative cwd workspace target = posix_join rest"
    using within_posix [OF assms(1)] by blast
  have "shown = posix_join rest" "shown \<noteq> []"
    using assms(2) rel by (auto simp: shown_path_def posix_paths_def Let_def split: if_splits)
  moreover from this have "rest \<noteq> []" by (auto simp: posix_join_def)
  moreover have "list_all proper_segment rest" using location_proper [of cwd target] loc by simp
  ultimately show ?thesis unfolding inner_path_def by blast
qed

text \<open>An outcome for one path: the path that is shown, and the real path.\<close>

lemma scoped_path_contained:
  "op_all (\<lambda>r. case r of None \<Rightarrow> True | Some (shown, real_path) \<Rightarrow> inner_path shown \<and> below cwd real_workspace real_path)
     (normalize_scoped_path (posix_paths cwd) style is_current workspace real_workspace raw)"
proof -
  let ?paths = "posix_paths cwd"
  let ?target = "scoped_target ?paths workspace raw"
  let ?P = "\<lambda>r. case r of None \<Rightarrow> True | Some (shown, real_path) \<Rightarrow> inner_path shown \<and> below cwd real_workspace real_path"
  have "?P (if \<not> c \<or> \<not> is_safe_local_path style t \<or> \<not> path_absolute ?paths t \<or> \<not> is_within ?paths real_workspace t
        then None else map_option (\<lambda>s. (s, t)) (shown_path ?paths workspace ?target))"
    if "is_within ?paths workspace ?target" for c t
    using that within_posix [of cwd real_workspace t] shown_path_inner [OF that]
    by (auto simp: below_def split: option.split)
  then have "op_all ?P (op_bind is_current (\<lambda>c. Finished
      (if \<not> c \<or> \<not> is_safe_local_path style t \<or> \<not> path_absolute ?paths t \<or> \<not> is_within ?paths real_workspace t
       then None else map_option (\<lambda>s. (s, t)) (shown_path ?paths workspace ?target))))"
    if "is_within ?paths workspace ?target" for t
    using that by (intro op_all_bind [OF op_all_any]) simp
  then show ?thesis by (simp add: normalize_scoped_path_def Let_def split: option.split)
qed

section \<open>Whole scopes\<close>

definition contained_change :: "jsstr \<Rightarrow> jsstr \<Rightarrow> scope_change \<Rightarrow> scope_change \<times> scope_change \<Rightarrow> bool" where
  "contained_change cwd real_workspace c p \<longleftrightarrow>
     change_paths inner_path (fst p) \<and> change_paths (below cwd real_workspace) (snd p)
     \<and> scope_kind (fst p) = scope_kind c \<and> scope_kind (snd p) = scope_kind c"

lemma changes_contained:
  assumes "list_all2 (contained_change cwd real_workspace) ds acc"
  shows "op_all (\<lambda>r. case r of None \<Rightarrow> True | Some ps \<Rightarrow> list_all2 (contained_change cwd real_workspace) (ds @ cs) ps)
     (normalize_changes (posix_paths cwd) style is_current workspace real_workspace cs acc)"
  using assms
proof (induction cs arbitrary: ds acc)
  case Nil
  then show ?case by simp
next
  case (Cons c cs)
  let ?n = "normalize_scoped_path (posix_paths cwd) style is_current workspace real_workspace"
  let ?ok = "\<lambda>r. case r of None \<Rightarrow> True | Some (shown, real_path) \<Rightarrow> inner_path shown \<and> below cwd real_workspace real_path"
  let ?Q = "\<lambda>r. case r of None \<Rightarrow> True | Some ps \<Rightarrow> list_all2 (contained_change cwd real_workspace) (ds @ c # cs) ps"
  have rest: "op_all ?Q (normalize_changes (posix_paths cwd) style is_current workspace real_workspace cs (acc @ [p]))"
    if "contained_change cwd real_workspace c p" for p
    using Cons.IH [of "ds @ [c]" "acc @ [p]"] Cons.prems that by (simp add: list_all2_appendI)
  have ok: "op_all ?ok (?n raw)" for raw by (rule scoped_path_contained)
  show ?case
    unfolding normalize_changes.simps
  proof (rule op_all_bind [OF ok])
    fix x assume x: "?ok x"
    show "op_all ?Q (case x of None \<Rightarrow> Finished None
       | Some (shown, real_path) \<Rightarrow>
           (case scope_move c of
              None \<Rightarrow> normalize_changes (posix_paths cwd) style is_current workspace real_workspace cs
                  (acc @ [(c\<lparr>scope_path := shown\<rparr>, c\<lparr>scope_path := real_path\<rparr>)])
            | Some move \<Rightarrow>
                op_bind (?n move) (\<lambda>q.
                  case q of
                    None \<Rightarrow> Finished None
                  | Some (shown_move, real_move) \<Rightarrow>
                      normalize_changes (posix_paths cwd) style is_current workspace real_workspace cs
                        (acc @ [(c\<lparr>scope_path := shown, scope_move := Some shown_move\<rparr>,
                                 c\<lparr>scope_path := real_path, scope_move := Some real_move\<rparr>)]))))"
    proof (cases x)
      case (Some sr)
      obtain shown real_path where sr: "sr = (shown, real_path)" by (cases sr)
      show ?thesis
      proof (cases "scope_move c")
        case None
        with x Some sr show ?thesis by (simp add: rest contained_change_def change_paths_def)
      next
        case move: (Some m)
        have "op_all ?Q (op_bind (?n m) (\<lambda>q. case q of
            None \<Rightarrow> Finished None
          | Some (shown_move, real_move) \<Rightarrow>
              normalize_changes (posix_paths cwd) style is_current workspace real_workspace cs
                (acc @ [(c\<lparr>scope_path := shown, scope_move := Some shown_move\<rparr>,
                         c\<lparr>scope_path := real_path, scope_move := Some real_move\<rparr>)])))"
          by (rule op_all_bind [OF ok])
            (use x Some sr in \<open>auto split: option.splits intro!: rest simp: contained_change_def change_paths_def\<close>)
        with move Some sr show ?thesis by simp
      qed
    qed simp
  qed
qed

text \<open>C20. With the functions of \<open>path.posix\<close>, and for them only: whatever the file system and the resolver
  answer, a file scope that is accepted for a card shows
  only relative paths that stay below the workspace, its real paths lie below the real path of the
  workspace, and the changes are those that were announced, in order and with their kinds.\<close>

theorem file_scope_contained:
  "op_all (\<lambda>r. case r of None \<Rightarrow> True | Some n \<Rightarrow>
      scope_workspace (shown_scope n) = scope_workspace s
      \<and> list_all (change_paths inner_path) (scope_changes (shown_scope n))
      \<and> list_all (change_paths (below cwd (scope_workspace (real_scope n)))) (scope_changes (real_scope n))
      \<and> map scope_kind (scope_changes (shown_scope n)) = map scope_kind (scope_changes s)
      \<and> map scope_kind (scope_changes (real_scope n)) = map scope_kind (scope_changes s))
     (normalize_file_scope (posix_paths cwd) style is_current s)"
  (is "op_all ?P _")
proof -
  let ?paths = "posix_paths cwd"
  have parts: "list_all (change_paths inner_path) (map fst ps)" "list_all (change_paths (below cwd w)) (map snd ps)"
    "map scope_kind (map fst ps) = map scope_kind cs" "map scope_kind (map snd ps) = map scope_kind cs"
    if "list_all2 (contained_change cwd w) cs ps" for cs ps w
    using that by (induction rule: list_all2_induct) (auto simp: contained_change_def)
  have "op_all ?P (op_bind (normalize_changes ?paths style is_current (scope_workspace s) w (scope_changes s) [])
      (\<lambda>r. Finished (map_option (\<lambda>ps.
        \<lparr>shown_scope = \<lparr>scope_workspace = scope_workspace s, scope_changes = map fst ps\<rparr>,
         real_scope = \<lparr>scope_workspace = w, scope_changes = map snd ps\<rparr>\<rparr>) r)))" for w
    by (rule op_all_bind [OF changes_contained [of _ _ "[]" "[]"]])
      (use parts in \<open>auto split: option.splits\<close>)
  then have "op_all ?P (op_bind is_current (\<lambda>c.
      if \<not> c \<or> \<not> is_safe_local_path style w \<or> \<not> path_absolute ?paths w then Finished None
      else op_bind (normalize_changes ?paths style is_current (scope_workspace s) w (scope_changes s) [])
        (\<lambda>r. Finished (map_option (\<lambda>ps.
          \<lparr>shown_scope = \<lparr>scope_workspace = scope_workspace s, scope_changes = map fst ps\<rparr>,
           real_scope = \<lparr>scope_workspace = w, scope_changes = map snd ps\<rparr>\<rparr>) r))))" for w
    by (intro op_all_bind [OF op_all_any]) simp
  then show ?thesis by (simp add: normalize_file_scope_def Let_def split: option.split)
qed

end
