(* ===== verification/TurnInput.thy ===== *)
theory TurnInput
  imports JsValue Events
begin

text \<open>
  What the turn coordinator accepts (\<open>src/node/ride-codex-turn-coordinator.ts\<close>, the functions below
  its class): requests of the clients and notifications and responses of the app server, read from
  values of unknown shape. Every refusal is the same error, \<open>invalid-data\<close>, so that a check is a
  predicate and a reader returns None for it. The parameter \<open>px\<close> is the inspector's \<open>isProxy\<close>.
\<close>

section \<open>Limits\<close>

definition max_input_items :: nat where "max_input_items = 32"
definition max_input_text_bytes :: int where "max_input_text_bytes = 64 * 1024"
definition max_local_path_bytes :: int where "max_local_path_bytes = 32 * 1024"
definition max_raw_depth :: nat where "max_raw_depth = 20"
definition max_raw_nodes :: nat where "max_raw_nodes = 8192"
definition max_raw_bytes :: int where "max_raw_bytes = 512 * 1024"
definition max_raw_keys :: nat where "max_raw_keys = 128"
definition max_raw_array :: nat where "max_raw_array = 1024"

section \<open>The raw budget\<close>

text \<open>\<open>validateRaw\<close> threads the mutable budget (nodes, bytes) and passes falsy values: undefined, null,
  false, zero, NaN and the empty bigint. The bytes of a key count only when the next text is met.\<close>

fun validate_raw :: "(jsvalue \<Rightarrow> bool) \<Rightarrow> nat \<Rightarrow> jsvalue \<Rightarrow> nat \<times> int \<Rightarrow> (nat \<times> int) option"
and validate_raw_items :: "(jsvalue \<Rightarrow> bool) \<Rightarrow> nat \<Rightarrow> jsvalue list \<Rightarrow> nat \<times> int \<Rightarrow> (nat \<times> int) option"
and validate_raw_members :: "(jsvalue \<Rightarrow> bool) \<Rightarrow> nat \<Rightarrow> properties \<Rightarrow> nat \<times> int \<Rightarrow> (nat \<times> int) option"
where
  "validate_raw px depth v (nodes, bytes) =
     (if max_raw_nodes < nodes + 1 \<or> max_raw_depth < depth then None
      else
        (case v of
           JsText s \<Rightarrow>
             if bytes + utf8_byte_length s \<le> max_raw_bytes then Some (nodes + 1, bytes + utf8_byte_length s)
             else None
         | JsUndefined \<Rightarrow> Some (nodes + 1, bytes)
         | JsNull \<Rightarrow> Some (nodes + 1, bytes)
         | JsBool _ \<Rightarrow> Some (nodes + 1, bytes)
         | JsNumber n \<Rightarrow> if is_finite_number n then Some (nodes + 1, bytes) else None
         | JsNaN \<Rightarrow> Some (nodes + 1, bytes)
         | JsBigint i \<Rightarrow> if i = 0 then Some (nodes + 1, bytes) else None
         | JsOpaque \<Rightarrow> None
         | JsArray vs \<Rightarrow>
             if px v \<or> max_raw_array < length vs then None
             else validate_raw_items px (depth + 1) vs (nodes + 1, bytes)
         | JsObject plain ps \<Rightarrow>
             if px v \<or> \<not> plain \<or> max_raw_keys < length ps then None
             else validate_raw_members px (depth + 1) ps (nodes + 1, bytes)))"
| "validate_raw_items px depth [] budget = Some budget"
| "validate_raw_items px depth (v # vs) budget =
     (case validate_raw px depth v budget of
        None \<Rightarrow> None
      | Some budget' \<Rightarrow> validate_raw_items px depth vs budget')"
| "validate_raw_members px depth [] budget = Some budget"
| "validate_raw_members px depth ((k, Accessor_Property _) # ps) budget = None"
| "validate_raw_members px depth ((k, Data_Property _ v) # ps) (nodes, bytes) =
     (case validate_raw px depth v (nodes, bytes + utf8_byte_length k) of
        None \<Rightarrow> None
      | Some budget \<Rightarrow> validate_raw_members px depth ps budget)"

text \<open>\<open>requireRecord\<close>\<close>

definition raw_record :: "(jsvalue \<Rightarrow> bool) \<Rightarrow> jsvalue \<Rightarrow> properties option" where
  "raw_record px v =
     (if validate_raw px 0 v (0, 0) = None then None
      else case v of JsObject True ps \<Rightarrow> if px v then None else Some ps | _ \<Rightarrow> None)"

section \<open>Properties\<close>

definition has_key :: "properties \<Rightarrow> string \<Rightarrow> bool" where
  "has_key ps k \<longleftrightarrow> js k \<in> fst ` set ps"

definition own_value :: "properties \<Rightarrow> string \<Rightarrow> jsvalue" where
  "own_value ps k = (case map_of ps (js k) of Some (Data_Property _ v) \<Rightarrow> v | _ \<Rightarrow> JsUndefined)"

definition require_options :: "(jsvalue \<Rightarrow> bool) \<Rightarrow> jsvalue \<Rightarrow> string list \<Rightarrow> properties option" where
  "require_options px v keys =
     (case raw_record px v of
        None \<Rightarrow> None
      | Some ps \<Rightarrow> if list_all (\<lambda>p. fst p \<in> set (map js keys)) ps then Some ps else None)"

definition require_exact_options :: "(jsvalue \<Rightarrow> bool) \<Rightarrow> jsvalue \<Rightarrow> string list \<Rightarrow> properties option" where
  "require_exact_options px v keys =
     (case require_options px v keys of
        None \<Rightarrow> None
      | Some ps \<Rightarrow> if length ps = length keys \<and> list_all (has_key ps) keys then Some ps else None)"

text \<open>\<open>requireOptions\<close> with \<open>requireRequiredKeys\<close>, as they are used together.\<close>

definition require_keys :: "(jsvalue \<Rightarrow> bool) \<Rightarrow> jsvalue \<Rightarrow> string list \<Rightarrow> string list \<Rightarrow> properties option" where
  "require_keys px v allowed required =
     (case require_options px v allowed of
        None \<Rightarrow> None
      | Some ps \<Rightarrow> if list_all (has_key ps) required then Some ps else None)"

text \<open>\<open>if (hasOwn(record, key)) check(ownValue(record, key))\<close>\<close>

definition if_own :: "properties \<Rightarrow> string \<Rightarrow> (jsvalue \<Rightarrow> bool) \<Rightarrow> bool" where
  "if_own ps k P \<longleftrightarrow> \<not> has_key ps k \<or> P (own_value ps k)"

text \<open>A record of exactly these keys, or of these keys with the required ones among them, that satisfies
  a check.\<close>

definition exactly :: "(jsvalue \<Rightarrow> bool) \<Rightarrow> jsvalue \<Rightarrow> string list \<Rightarrow> (properties \<Rightarrow> bool) \<Rightarrow> bool" where
  "exactly px v keys P \<longleftrightarrow> (case require_exact_options px v keys of None \<Rightarrow> False | Some ps \<Rightarrow> P ps)"

definition keyed ::
    "(jsvalue \<Rightarrow> bool) \<Rightarrow> jsvalue \<Rightarrow> string list \<Rightarrow> string list \<Rightarrow> (properties \<Rightarrow> bool) \<Rightarrow> bool" where
  "keyed px v allowed required P \<longleftrightarrow> (case require_keys px v allowed required of None \<Rightarrow> False | Some ps \<Rightarrow> P ps)"

section \<open>Scalars\<close>

definition bounded_text :: "jsvalue \<Rightarrow> int \<Rightarrow> jsstr option" where
  "bounded_text v n = (case v of JsText s \<Rightarrow> if utf8_byte_length s \<le> n then Some s else None | _ \<Rightarrow> None)"

definition nonempty_text :: "jsvalue \<Rightarrow> int \<Rightarrow> jsstr option" where
  "nonempty_text v n =
     (case v of JsText s \<Rightarrow> if s \<noteq> [] \<and> utf8_byte_length s \<le> n then Some s else None | _ \<Rightarrow> None)"

definition text_within :: "int \<Rightarrow> jsvalue \<Rightarrow> bool" where
  "text_within n v \<longleftrightarrow> bounded_text v n \<noteq> None"

definition require_identifier :: "jsvalue \<Rightarrow> jsstr option" where
  "require_identifier v = nonempty_text v max_identifier_bytes"

definition schema_identifier :: "jsvalue \<Rightarrow> jsstr option" where
  "schema_identifier v = bounded_text v max_identifier_bytes"

definition is_schema_identifier :: "jsvalue \<Rightarrow> bool" where
  "is_schema_identifier v \<longleftrightarrow> schema_identifier v \<noteq> None"

definition json_int64 :: "jsvalue \<Rightarrow> int option" where
  "json_int64 v = (case v of JsNumber (NInt i) \<Rightarrow> if safe_int i then Some i else None | _ \<Rightarrow> None)"

definition int_within :: "int \<Rightarrow> int \<Rightarrow> jsvalue \<Rightarrow> bool" where
  "int_within low high v \<longleftrightarrow> (case json_int64 v of None \<Rightarrow> False | Some i \<Rightarrow> low \<le> i \<and> i \<le> high)"

definition is_json_int64 :: "jsvalue \<Rightarrow> bool" where
  "is_json_int64 v \<longleftrightarrow> json_int64 v \<noteq> None"

definition is_int32 :: "jsvalue \<Rightarrow> bool" where
  "is_int32 = int_within (-2147483648) 2147483647"

definition uint32 :: "jsvalue \<Rightarrow> int option" where
  "uint32 v = (if int_within 0 4294967295 v then json_int64 v else None)"

definition json_uint :: "jsvalue \<Rightarrow> int option" where
  "json_uint v = (if int_within 0 max_safe_integer v then json_int64 v else None)"

definition is_uint16 :: "jsvalue \<Rightarrow> bool" where
  "is_uint16 = int_within 0 65535"

definition require_index :: "jsvalue \<Rightarrow> nat option" where
  "require_index v = (if int_within 0 1024 v then map_option nat (json_int64 v) else None)"

definition is_boolean :: "jsvalue \<Rightarrow> bool" where
  "is_boolean v \<longleftrightarrow> (case v of JsBool _ \<Rightarrow> True | _ \<Rightarrow> False)"

definition is_enum :: "string list \<Rightarrow> jsvalue \<Rightarrow> bool" where
  "is_enum names v \<longleftrightarrow> (case v of JsText s \<Rightarrow> s \<in> set (map js names) | _ \<Rightarrow> False)"

text \<open>The pattern of every \<open>requireNullable...\<close>: null passes, undefined does not.\<close>

definition nullable :: "(jsvalue \<Rightarrow> bool) \<Rightarrow> jsvalue \<Rightarrow> bool" where
  "nullable P v \<longleftrightarrow> (case v of JsUndefined \<Rightarrow> False | JsNull \<Rightarrow> True | _ \<Rightarrow> P v)"

definition nullable_text :: "int \<Rightarrow> jsvalue \<Rightarrow> bool" where
  "nullable_text n = nullable (text_within n)"

definition nullable_identifier :: "jsvalue \<Rightarrow> bool" where
  "nullable_identifier = nullable is_schema_identifier"

definition nullable_nonempty :: "int \<Rightarrow> jsvalue \<Rightarrow> bool" where
  "nullable_nonempty n = nullable (\<lambda>v. nonempty_text v n \<noteq> None)"

definition nullable_int64 :: "jsvalue \<Rightarrow> bool" where
  "nullable_int64 = nullable is_json_int64"

definition nullable_int32 :: "jsvalue \<Rightarrow> bool" where
  "nullable_int32 = nullable is_int32"

definition nullable_uint16 :: "jsvalue \<Rightarrow> bool" where
  "nullable_uint16 = nullable is_uint16"

definition nullable_boolean :: "jsvalue \<Rightarrow> bool" where
  "nullable_boolean = nullable is_boolean"

definition nullable_enum :: "string list \<Rightarrow> jsvalue \<Rightarrow> bool" where
  "nullable_enum names = nullable (is_enum names)"

text \<open>An array within a limit whose entries pass a check; \<open>requireBoundedArray\<close> has the limit
  \<open>max_raw_array\<close>.\<close>

definition array_within :: "(jsvalue \<Rightarrow> bool) \<Rightarrow> nat \<Rightarrow> (jsvalue \<Rightarrow> bool) \<Rightarrow> jsvalue \<Rightarrow> bool" where
  "array_within px limit P v \<longleftrightarrow>
     (case v of JsArray vs \<Rightarrow> \<not> px v \<and> length vs \<le> limit \<and> list_all P vs | _ \<Rightarrow> False)"

definition bounded_array :: "(jsvalue \<Rightarrow> bool) \<Rightarrow> (jsvalue \<Rightarrow> bool) \<Rightarrow> jsvalue \<Rightarrow> bool" where
  "bounded_array px = array_within px max_raw_array"

definition text_array :: "(jsvalue \<Rightarrow> bool) \<Rightarrow> int \<Rightarrow> jsvalue \<Rightarrow> bool" where
  "text_array px n = array_within px max_raw_array (text_within n)"

text \<open>The check of a value by the type of its record.\<close>

definition typed :: "(jsvalue \<Rightarrow> bool) \<Rightarrow> jsvalue \<Rightarrow> (string \<times> bool) list \<Rightarrow> bool" where
  "typed px v cases \<longleftrightarrow>
     (case raw_record px v of
        None \<Rightarrow> False
      | Some ps \<Rightarrow> list_ex (\<lambda>(t, ok). own_value ps ''type'' = JsText (js t) \<and> ok) cases)"

section \<open>JSON values\<close>

fun json_value :: "(jsvalue \<Rightarrow> bool) \<Rightarrow> jsvalue \<Rightarrow> bool"
and json_members :: "(jsvalue \<Rightarrow> bool) \<Rightarrow> properties \<Rightarrow> bool"
where
  "json_value px v =
     (case v of
        JsUndefined \<Rightarrow> False
      | JsNull \<Rightarrow> True
      | JsText _ \<Rightarrow> True
      | JsBool _ \<Rightarrow> True
      | JsNumber n \<Rightarrow> is_finite_number n
      | JsNaN \<Rightarrow> False
      | JsArray vs \<Rightarrow> \<not> px v \<and> length vs \<le> max_raw_array \<and> list_all (json_value px) vs
      | JsObject _ ps \<Rightarrow> raw_record px v \<noteq> None \<and> json_members px ps
      | _ \<Rightarrow> False)"
| "json_members px [] = True"
| "json_members px ((k, Accessor_Property _) # ps) = json_members px ps"
| "json_members px ((k, Data_Property e v) # ps) = ((e \<longrightarrow> json_value px v) \<and> json_members px ps)"

end
