(* ===== verification/TurnSchema.thy ===== *)
theory TurnSchema
  imports TurnInput
begin

text \<open>
  The schemas of \<open>src/node/ride-codex-turn-coordinator.ts\<close>: thread items, turns, errors, resumed
  threads, the notifications about the active turn, and the requests of the clients.
\<close>

section \<open>File changes, plans, token usage\<close>

definition control_unit :: "16 word \<Rightarrow> bool" where
  "control_unit c \<longleftrightarrow> unat c \<le> 0x1F \<or> (0x7F \<le> unat c \<and> unat c \<le> 0x9F)"

definition display_path :: "jsvalue \<Rightarrow> jsstr option" where
  "display_path v =
     (case bounded_text v max_local_path_bytes of
        None \<Rightarrow> None
      | Some s \<Rightarrow> if list_ex control_unit s then None else Some s)"

text \<open>An absent \<open>move_path\<close>, a null one and a path are three cases.\<close>

definition move_path_of :: "properties \<Rightarrow> move_path option" where
  "move_path_of ps =
     (if \<not> has_key ps ''move_path'' then Some No_Move
      else case own_value ps ''move_path'' of
             JsUndefined \<Rightarrow> None
           | JsNull \<Rightarrow> Some Null_Move
           | v \<Rightarrow> map_option Move (display_path v))"

definition change_kind_of :: "(jsvalue \<Rightarrow> bool) \<Rightarrow> jsvalue \<Rightarrow> change_kind option" where
  "change_kind_of px v =
     (case raw_record px v of
        None \<Rightarrow> None
      | Some ps \<Rightarrow>
          if own_value ps ''type'' = JsText (js ''add'') then
            map_option (\<lambda>_. Add_File) (require_options px v [''type''])
          else if own_value ps ''type'' = JsText (js ''delete'') then
            map_option (\<lambda>_. Delete_File) (require_options px v [''type''])
          else if own_value ps ''type'' = JsText (js ''update'') then
            Option.bind (require_options px v [''type'', ''move_path'']) (\<lambda>ps. map_option Update_File (move_path_of ps))
          else None)"

definition normalize_file_change :: "(jsvalue \<Rightarrow> bool) \<Rightarrow> jsvalue \<Rightarrow> file_change option" where
  "normalize_file_change px v =
     (case require_options px v [''path'', ''kind'', ''diff''] of
        None \<Rightarrow> None
      | Some ps \<Rightarrow>
          (case (display_path (own_value ps ''path''), bounded_text (own_value ps ''diff'') max_input_text_bytes,
                 change_kind_of px (own_value ps ''kind'')) of
             (Some p, Some d, Some k) \<Rightarrow> Some \<lparr>change_path = p, change_kind = k, change_diff = d\<rparr>
           | _ \<Rightarrow> None))"

text \<open>A list of at most \<open>limit\<close> entries, each of which reads.\<close>

definition read_array :: "(jsvalue \<Rightarrow> bool) \<Rightarrow> nat \<Rightarrow> (jsvalue \<Rightarrow> 'a option) \<Rightarrow> jsvalue \<Rightarrow> 'a list option" where
  "read_array px limit f v =
     (case v of
        JsArray vs \<Rightarrow> if px v \<or> limit < length vs then None else those (map f vs)
      | _ \<Rightarrow> None)"

definition normalize_file_changes :: "(jsvalue \<Rightarrow> bool) \<Rightarrow> jsvalue \<Rightarrow> nat \<Rightarrow> file_change list option" where
  "normalize_file_changes px v limit = read_array px limit (normalize_file_change px) v"

definition step_status_of :: "jsvalue \<Rightarrow> step_status option" where
  "step_status_of v =
     (if v = JsText (js ''pending'') then Some Step_Pending
      else if v = JsText (js ''inProgress'') then Some Step_In_Progress
      else if v = JsText (js ''completed'') then Some Step_Completed
      else None)"

definition normalize_step :: "(jsvalue \<Rightarrow> bool) \<Rightarrow> jsvalue \<Rightarrow> plan_step option" where
  "normalize_step px v =
     (case require_exact_options px v [''step'', ''status''] of
        None \<Rightarrow> None
      | Some ps \<Rightarrow>
          (case (step_status_of (own_value ps ''status''), bounded_text (own_value ps ''step'') max_input_text_bytes) of
             (Some st, Some s) \<Rightarrow> Some \<lparr>step_text = s, step_state = st\<rparr>
           | _ \<Rightarrow> None))"

definition normalize_plan :: "(jsvalue \<Rightarrow> bool) \<Rightarrow> jsvalue \<Rightarrow> nat \<Rightarrow> plan_step list option" where
  "normalize_plan px v limit = read_array px limit (normalize_step px) v"

text \<open>\<open>normalizeExplanation\<close>: absent, null and undefined give no explanation.\<close>

definition normalize_explanation :: "properties \<Rightarrow> int \<Rightarrow> jsstr option option" where
  "normalize_explanation ps max_bytes =
     (case own_value ps ''explanation'' of
        JsUndefined \<Rightarrow> Some None
      | JsNull \<Rightarrow> Some None
      | v \<Rightarrow> map_option Some (bounded_text v max_bytes))"

definition token_keys :: "string list" where
  "token_keys = [''cachedInputTokens'', ''inputTokens'', ''outputTokens'', ''reasoningOutputTokens'', ''totalTokens'']"

definition usage_breakdown :: "(jsvalue \<Rightarrow> bool) \<Rightarrow> jsvalue \<Rightarrow> properties option" where
  "usage_breakdown px v =
     (case require_exact_options px v token_keys of
        None \<Rightarrow> None
      | Some ps \<Rightarrow> if list_all (\<lambda>k. is_json_int64 (own_value ps k)) token_keys then Some ps else None)"

definition normalize_token_usage :: "(jsvalue \<Rightarrow> bool) \<Rightarrow> jsvalue \<Rightarrow> ui_event option" where
  "normalize_token_usage px v =
     (case require_keys px v [''last'', ''modelContextWindow'', ''total''] [''last'', ''total''] of
        None \<Rightarrow> None
      | Some ps \<Rightarrow>
          (case (usage_breakdown px (own_value ps ''total''), usage_breakdown px (own_value ps ''last'')) of
             (Some whole, Some _) \<Rightarrow>
               if \<not> if_own ps ''modelContextWindow'' nullable_int64 then None
               else (case (json_uint (own_value whole ''totalTokens''), json_uint (own_value whole ''inputTokens''),
                           json_uint (own_value whole ''outputTokens'')) of
                       (Some t, Some i, Some u) \<Rightarrow> Some (Token_Usage t i u)
                     | _ \<Rightarrow> None)
           | _ \<Rightarrow> None))"

section \<open>Errors\<close>

definition plain_error_names :: "(string \<times> safe_code) list" where
  "plain_error_names =
     [(''contextWindowExceeded'', Context_Limit), (''sessionBudgetExceeded'', Rate_Limit),
      (''usageLimitExceeded'', Rate_Limit), (''serverOverloaded'', Service_Error), (''cyberPolicy'', Sandbox_Denied),
      (''internalServerError'', Service_Error), (''unauthorized'', Unauthorized), (''badRequest'', Turn_Error),
      (''threadRollbackFailed'', Turn_Error), (''sandboxError'', Sandbox_Denied), (''other'', Turn_Error)]"

definition connection_error_names :: "string list" where
  "connection_error_names =
     [''httpConnectionFailed'', ''responseStreamConnectionFailed'', ''responseStreamDisconnected'',
      ''responseTooManyFailedAttempts'']"

definition connection_error :: "(jsvalue \<Rightarrow> bool) \<Rightarrow> jsstr \<Rightarrow> jsvalue \<Rightarrow> safe_code option" where
  "connection_error px name payload =
     (case require_options px payload [''httpStatusCode''] of
        None \<Rightarrow> None
      | Some ps \<Rightarrow>
          if \<not> if_own ps ''httpStatusCode'' nullable_uint16 then None
          else if own_value ps ''httpStatusCode'' \<in> {JsNumber (NInt 401), JsNumber (NInt 403)} then Some Unauthorized
          else if name = js ''httpConnectionFailed'' then Some Service_Error
          else Some Stream_Error)"

definition codex_error_info :: "(jsvalue \<Rightarrow> bool) \<Rightarrow> jsvalue \<Rightarrow> safe_code option" where
  "codex_error_info px v =
     (case v of
        JsText s \<Rightarrow> map_of (map (\<lambda>(n, c). (js n, c)) plain_error_names) s
      | _ \<Rightarrow>
          (case raw_record px v of
             None \<Rightarrow> None
           | Some ps \<Rightarrow>
               (case enumerable_keys ps of
                  [name] \<Rightarrow>
                    let payload = (case map_of ps name of Some (Data_Property _ w) \<Rightarrow> w | _ \<Rightarrow> JsUndefined) in
                    if name = js ''activeTurnNotSteerable'' then
                      (if exactly px payload [''turnKind''] (\<lambda>as. is_enum [''review'', ''compact''] (own_value as ''turnKind''))
                       then Some Turn_Error else None)
                    else if name \<in> set (map js connection_error_names) then connection_error px name payload
                    else None
                | _ \<Rightarrow> None)))"

definition safe_server_error :: "safe_code \<Rightarrow> safe_error" where
  "safe_server_error c = \<lparr>safe_error_code = c, safe_error_message = js (safe_message c)\<rparr>"

definition require_turn_error :: "(jsvalue \<Rightarrow> bool) \<Rightarrow> jsvalue \<Rightarrow> safe_error option" where
  "require_turn_error px v =
     (case require_keys px v [''message'', ''codexErrorInfo'', ''additionalDetails''] [''message''] of
        None \<Rightarrow> None
      | Some ps \<Rightarrow>
          if \<not> text_within max_input_text_bytes (own_value ps ''message'')
             \<or> \<not> if_own ps ''additionalDetails'' (nullable_text max_input_text_bytes) then None
          else if \<not> has_key ps ''codexErrorInfo'' then Some (safe_server_error Turn_Error)
          else (case own_value ps ''codexErrorInfo'' of
                  JsUndefined \<Rightarrow> None
                | JsNull \<Rightarrow> Some (safe_server_error Turn_Error)
                | info \<Rightarrow> map_option safe_server_error (codex_error_info px info)))"

text \<open>\<open>requireNullableTurnError\<close>: the outer None is the refusal.\<close>

definition nullable_turn_error :: "(jsvalue \<Rightarrow> bool) \<Rightarrow> jsvalue \<Rightarrow> safe_error option option" where
  "nullable_turn_error px v =
     (case v of JsUndefined \<Rightarrow> None | JsNull \<Rightarrow> Some None | _ \<Rightarrow> map_option Some (require_turn_error px v))"

section \<open>Thread items\<close>

definition status_names :: "string list" where
  "status_names = [''inProgress'', ''completed'', ''failed'']"

definition command_action :: "(jsvalue \<Rightarrow> bool) \<Rightarrow> jsvalue \<Rightarrow> bool" where
  "command_action px v \<longleftrightarrow> typed px v
     [(''read'', exactly px v [''type'', ''command'', ''name'', ''path''] (\<lambda>ps.
         text_within max_input_text_bytes (own_value ps ''command'')
         \<and> text_within max_identifier_bytes (own_value ps ''name'')
         \<and> text_within max_local_path_bytes (own_value ps ''path''))),
      (''listFiles'', keyed px v [''type'', ''command'', ''path''] [''type'', ''command''] (\<lambda>ps.
         text_within max_input_text_bytes (own_value ps ''command'')
         \<and> if_own ps ''path'' (nullable_text max_local_path_bytes))),
      (''search'', keyed px v [''type'', ''command'', ''query'', ''path''] [''type'', ''command''] (\<lambda>ps.
         text_within max_input_text_bytes (own_value ps ''command'')
         \<and> if_own ps ''query'' (nullable_text max_input_text_bytes)
         \<and> if_own ps ''path'' (nullable_text max_local_path_bytes))),
      (''unknown'', exactly px v [''type'', ''command''] (\<lambda>ps.
         text_within max_input_text_bytes (own_value ps ''command'')))]"

definition image_detail :: "properties \<Rightarrow> bool" where
  "image_detail ps \<longleftrightarrow> if_own ps ''detail'' (nullable_enum [''auto'', ''low'', ''high'', ''original''])"

definition text_element :: "(jsvalue \<Rightarrow> bool) \<Rightarrow> jsvalue \<Rightarrow> bool" where
  "text_element px v \<longleftrightarrow> keyed px v [''byteRange'', ''placeholder''] [''byteRange''] (\<lambda>ps.
     exactly px (own_value ps ''byteRange'') [''start'', ''end''] (\<lambda>r.
       case (json_uint (own_value r ''start''), json_uint (own_value r ''end'')) of
         (Some i, Some j) \<Rightarrow> i \<le> j | _ \<Rightarrow> False)
     \<and> if_own ps ''placeholder'' (nullable_text max_input_text_bytes))"

definition named_reference :: "(jsvalue \<Rightarrow> bool) \<Rightarrow> jsvalue \<Rightarrow> bool" where
  "named_reference px v \<longleftrightarrow> exactly px v [''type'', ''name'', ''path''] (\<lambda>ps.
     text_within max_identifier_bytes (own_value ps ''name'') \<and> text_within max_local_path_bytes (own_value ps ''path''))"

definition user_input :: "(jsvalue \<Rightarrow> bool) \<Rightarrow> jsvalue \<Rightarrow> bool" where
  "user_input px v \<longleftrightarrow> typed px v
     [(''text'', keyed px v [''type'', ''text'', ''text_elements''] [''type'', ''text''] (\<lambda>ps.
         text_within max_input_text_bytes (own_value ps ''text'')
         \<and> if_own ps ''text_elements'' (bounded_array px (text_element px)))),
      (''image'', keyed px v [''type'', ''detail'', ''url''] [''type'', ''url''] (\<lambda>ps.
         text_within max_local_path_bytes (own_value ps ''url'') \<and> image_detail ps)),
      (''localImage'', keyed px v [''type'', ''detail'', ''path''] [''type'', ''path''] (\<lambda>ps.
         text_within max_local_path_bytes (own_value ps ''path'') \<and> image_detail ps)),
      (''skill'', named_reference px v),
      (''mention'', named_reference px v)]"

definition memory_citation :: "(jsvalue \<Rightarrow> bool) \<Rightarrow> jsvalue \<Rightarrow> bool" where
  "memory_citation px v \<longleftrightarrow> exactly px v [''entries'', ''threadIds''] (\<lambda>ps.
     bounded_array px (\<lambda>e. exactly px e [''path'', ''lineStart'', ''lineEnd'', ''note''] (\<lambda>es.
       text_within max_local_path_bytes (own_value es ''path'')
       \<and> (case (uint32 (own_value es ''lineStart''), uint32 (own_value es ''lineEnd'')) of
            (Some i, Some j) \<Rightarrow> i \<le> j | _ \<Rightarrow> False)
       \<and> text_within max_input_text_bytes (own_value es ''note''))) (own_value ps ''entries'')
     \<and> text_array px max_identifier_bytes (own_value ps ''threadIds''))"

definition mcp_app_context :: "(jsvalue \<Rightarrow> bool) \<Rightarrow> jsvalue \<Rightarrow> bool" where
  "mcp_app_context px v \<longleftrightarrow>
     keyed px v [''connectorId'', ''linkId'', ''resourceUri'', ''appName'', ''templateId'', ''actionName'']
       [''connectorId''] (\<lambda>ps.
     text_within max_identifier_bytes (own_value ps ''connectorId'')
     \<and> list_all (\<lambda>k. if_own ps k (nullable_text (if k = ''resourceUri'' then max_local_path_bytes else max_identifier_bytes)))
         [''linkId'', ''resourceUri'', ''appName'', ''templateId'', ''actionName''])"

definition mcp_result :: "(jsvalue \<Rightarrow> bool) \<Rightarrow> jsvalue \<Rightarrow> bool" where
  "mcp_result px v \<longleftrightarrow> keyed px v [''content'', ''structuredContent'', ''_meta''] [''content''] (\<lambda>ps.
     bounded_array px (json_value px) (own_value ps ''content'')
     \<and> if_own ps ''structuredContent'' (json_value px) \<and> if_own ps ''_meta'' (json_value px))"

definition mcp_error :: "(jsvalue \<Rightarrow> bool) \<Rightarrow> jsvalue \<Rightarrow> bool" where
  "mcp_error px v \<longleftrightarrow> exactly px v [''message''] (\<lambda>ps. text_within max_input_text_bytes (own_value ps ''message''))"

definition mcp_tool_call :: "(jsvalue \<Rightarrow> bool) \<Rightarrow> jsvalue \<Rightarrow> bool" where
  "mcp_tool_call px v \<longleftrightarrow>
     keyed px v
       [''type'', ''id'', ''server'', ''tool'', ''status'', ''arguments'', ''appContext'', ''mcpAppResourceUri'',
        ''pluginId'', ''result'', ''error'', ''durationMs'']
       [''type'', ''id'', ''server'', ''tool'', ''status'', ''arguments''] (\<lambda>ps.
     is_schema_identifier (own_value ps ''id'') \<and> text_within max_identifier_bytes (own_value ps ''server'')
     \<and> text_within max_identifier_bytes (own_value ps ''tool'') \<and> is_enum status_names (own_value ps ''status'')
     \<and> json_value px (own_value ps ''arguments'')
     \<and> if_own ps ''appContext'' (nullable (mcp_app_context px))
     \<and> if_own ps ''mcpAppResourceUri'' (nullable_text max_local_path_bytes)
     \<and> if_own ps ''pluginId'' (nullable_text max_identifier_bytes)
     \<and> if_own ps ''result'' (nullable (mcp_result px)) \<and> if_own ps ''error'' (nullable (mcp_error px))
     \<and> if_own ps ''durationMs'' nullable_int64)"

definition tool_content :: "(jsvalue \<Rightarrow> bool) \<Rightarrow> jsvalue \<Rightarrow> bool" where
  "tool_content px v \<longleftrightarrow> typed px v
     [(''inputText'', exactly px v [''type'', ''text''] (\<lambda>ps. text_within max_input_text_bytes (own_value ps ''text''))),
      (''inputImage'', exactly px v [''type'', ''imageUrl''] (\<lambda>ps. text_within max_local_path_bytes (own_value ps ''imageUrl'')))]"

definition dynamic_tool_call :: "(jsvalue \<Rightarrow> bool) \<Rightarrow> jsvalue \<Rightarrow> bool" where
  "dynamic_tool_call px v \<longleftrightarrow>
     keyed px v
       [''type'', ''id'', ''namespace'', ''tool'', ''arguments'', ''status'', ''contentItems'', ''success'', ''durationMs'']
       [''type'', ''id'', ''tool'', ''arguments'', ''status''] (\<lambda>ps.
     is_schema_identifier (own_value ps ''id'') \<and> if_own ps ''namespace'' (nullable_text max_identifier_bytes)
     \<and> text_within max_identifier_bytes (own_value ps ''tool'') \<and> json_value px (own_value ps ''arguments'')
     \<and> is_enum status_names (own_value ps ''status'')
     \<and> if_own ps ''contentItems'' (nullable (bounded_array px (tool_content px)))
     \<and> if_own ps ''success'' nullable_boolean \<and> if_own ps ''durationMs'' nullable_int64)"

definition agent_state :: "(jsvalue \<Rightarrow> bool) \<Rightarrow> jsvalue \<Rightarrow> bool" where
  "agent_state px v \<longleftrightarrow> keyed px v [''status'', ''message''] [''status''] (\<lambda>ps.
     is_enum [''pendingInit'', ''running'', ''interrupted'', ''completed'', ''errored'', ''shutdown'', ''notFound'']
       (own_value ps ''status'')
     \<and> if_own ps ''message'' (nullable_text max_input_text_bytes))"

text \<open>\<open>Object.entries\<close> gives the enumerable properties.\<close>

definition agents_states :: "(jsvalue \<Rightarrow> bool) \<Rightarrow> jsvalue \<Rightarrow> bool" where
  "agents_states px v \<longleftrightarrow>
     (case raw_record px v of
        None \<Rightarrow> False
      | Some ps \<Rightarrow>
          list_all (\<lambda>(k, p). case p of
              Data_Property True w \<Rightarrow> is_schema_identifier (JsText k) \<and> agent_state px w
            | _ \<Rightarrow> True) ps)"

definition collab_tool_call :: "(jsvalue \<Rightarrow> bool) \<Rightarrow> jsvalue \<Rightarrow> bool" where
  "collab_tool_call px v \<longleftrightarrow>
     keyed px v
       [''type'', ''id'', ''tool'', ''status'', ''senderThreadId'', ''receiverThreadIds'', ''prompt'', ''model'',
        ''reasoningEffort'', ''agentsStates'']
       [''type'', ''id'', ''tool'', ''status'', ''senderThreadId'', ''receiverThreadIds'', ''agentsStates''] (\<lambda>ps.
     is_schema_identifier (own_value ps ''id'')
     \<and> is_enum [''spawnAgent'', ''sendInput'', ''resumeAgent'', ''wait'', ''closeAgent''] (own_value ps ''tool'')
     \<and> is_enum status_names (own_value ps ''status'') \<and> is_schema_identifier (own_value ps ''senderThreadId'')
     \<and> text_array px max_identifier_bytes (own_value ps ''receiverThreadIds'')
     \<and> if_own ps ''prompt'' (nullable_text max_input_text_bytes)
     \<and> if_own ps ''model'' (nullable_text max_identifier_bytes)
     \<and> if_own ps ''reasoningEffort'' (nullable_nonempty max_identifier_bytes)
     \<and> agents_states px (own_value ps ''agentsStates''))"

definition search_action :: "(jsvalue \<Rightarrow> bool) \<Rightarrow> jsvalue \<Rightarrow> bool" where
  "search_action px v \<longleftrightarrow> typed px v
     [(''search'', keyed px v [''type'', ''query'', ''queries''] [''type''] (\<lambda>ps.
         if_own ps ''query'' (nullable_text max_input_text_bytes)
         \<and> if_own ps ''queries'' (nullable (text_array px max_input_text_bytes)))),
      (''openPage'', keyed px v [''type'', ''url''] [''type''] (\<lambda>ps.
         if_own ps ''url'' (nullable_text max_local_path_bytes))),
      (''findInPage'', keyed px v [''type'', ''url'', ''pattern''] [''type''] (\<lambda>ps.
         if_own ps ''url'' (nullable_text max_local_path_bytes)
         \<and> if_own ps ''pattern'' (nullable_text max_input_text_bytes))),
      (''other'', require_exact_options px v [''type''] \<noteq> None)]"

definition web_search_item :: "(jsvalue \<Rightarrow> bool) \<Rightarrow> jsvalue \<Rightarrow> bool" where
  "web_search_item px v \<longleftrightarrow> keyed px v [''type'', ''id'', ''query'', ''action''] [''type'', ''id'', ''query''] (\<lambda>ps.
     is_schema_identifier (own_value ps ''id'') \<and> text_within max_input_text_bytes (own_value ps ''query'')
     \<and> if_own ps ''action'' (nullable (search_action px)))"

definition image_generation_item :: "(jsvalue \<Rightarrow> bool) \<Rightarrow> jsvalue \<Rightarrow> bool" where
  "image_generation_item px v \<longleftrightarrow>
     keyed px v [''type'', ''id'', ''status'', ''revisedPrompt'', ''result'', ''savedPath'']
       [''type'', ''id'', ''status'', ''result''] (\<lambda>ps.
     is_schema_identifier (own_value ps ''id'') \<and> text_within max_identifier_bytes (own_value ps ''status'')
     \<and> if_own ps ''revisedPrompt'' (nullable_text max_input_text_bytes)
     \<and> text_within max_input_text_bytes (own_value ps ''result'')
     \<and> if_own ps ''savedPath'' (nullable_text max_local_path_bytes))"

definition text_item :: "(jsvalue \<Rightarrow> bool) \<Rightarrow> string \<Rightarrow> int \<Rightarrow> jsvalue \<Rightarrow> bool" where
  "text_item px k n v \<longleftrightarrow> exactly px v [''type'', ''id'', k] (\<lambda>ps.
     is_schema_identifier (own_value ps ''id'') \<and> text_within n (own_value ps k))"

definition agent_message_item :: "(jsvalue \<Rightarrow> bool) \<Rightarrow> jsvalue \<Rightarrow> bool" where
  "agent_message_item px v \<longleftrightarrow>
     keyed px v [''type'', ''id'', ''text'', ''phase'', ''memoryCitation''] [''type'', ''id'', ''text''] (\<lambda>ps.
     is_schema_identifier (own_value ps ''id'') \<and> text_within max_input_text_bytes (own_value ps ''text'')
     \<and> if_own ps ''phase'' (nullable_enum [''commentary'', ''final_answer''])
     \<and> if_own ps ''memoryCitation'' (nullable (memory_citation px)))"

definition reasoning_item :: "(jsvalue \<Rightarrow> bool) \<Rightarrow> jsvalue \<Rightarrow> bool" where
  "reasoning_item px v \<longleftrightarrow> keyed px v [''type'', ''id'', ''summary'', ''content''] [''type'', ''id''] (\<lambda>ps.
     is_schema_identifier (own_value ps ''id'')
     \<and> if_own ps ''summary'' (text_array px max_input_text_bytes)
     \<and> if_own ps ''content'' (text_array px max_input_text_bytes))"

definition outcome_names :: "string list" where
  "outcome_names = [''inProgress'', ''completed'', ''failed'', ''declined'']"

definition command_item :: "(jsvalue \<Rightarrow> bool) \<Rightarrow> jsvalue \<Rightarrow> bool" where
  "command_item px v \<longleftrightarrow>
     keyed px v
       [''type'', ''id'', ''command'', ''cwd'', ''processId'', ''source'', ''status'', ''commandActions'',
        ''aggregatedOutput'', ''exitCode'', ''durationMs'']
       [''type'', ''id'', ''command'', ''cwd'', ''status'', ''commandActions''] (\<lambda>ps.
     is_schema_identifier (own_value ps ''id'') \<and> text_within max_input_text_bytes (own_value ps ''command'')
     \<and> text_within max_local_path_bytes (own_value ps ''cwd'') \<and> if_own ps ''processId'' nullable_identifier
     \<and> if_own ps ''source'' (is_enum [''agent'', ''userShell'', ''unifiedExecStartup'', ''unifiedExecInteraction''])
     \<and> is_enum outcome_names (own_value ps ''status'')
     \<and> bounded_array px (command_action px) (own_value ps ''commandActions'')
     \<and> if_own ps ''aggregatedOutput'' (nullable_text max_input_text_bytes)
     \<and> if_own ps ''exitCode'' nullable_int32 \<and> if_own ps ''durationMs'' nullable_int64)"

definition file_change_item :: "(jsvalue \<Rightarrow> bool) \<Rightarrow> jsvalue \<Rightarrow> bool" where
  "file_change_item px v \<longleftrightarrow> exactly px v [''type'', ''id'', ''changes'', ''status''] (\<lambda>ps.
     is_schema_identifier (own_value ps ''id'')
     \<and> normalize_file_changes px (own_value ps ''changes'') max_raw_array \<noteq> None
     \<and> is_enum outcome_names (own_value ps ''status''))"

definition user_message_item :: "(jsvalue \<Rightarrow> bool) \<Rightarrow> jsvalue \<Rightarrow> bool" where
  "user_message_item px v \<longleftrightarrow> keyed px v [''type'', ''id'', ''clientId'', ''content''] [''type'', ''id'', ''content''] (\<lambda>ps.
     is_schema_identifier (own_value ps ''id'') \<and> if_own ps ''clientId'' nullable_identifier
     \<and> array_within px max_input_items (user_input px) (own_value ps ''content''))"

definition hook_prompt_item :: "(jsvalue \<Rightarrow> bool) \<Rightarrow> jsvalue \<Rightarrow> bool" where
  "hook_prompt_item px v \<longleftrightarrow> exactly px v [''type'', ''id'', ''fragments''] (\<lambda>ps.
     is_schema_identifier (own_value ps ''id'')
     \<and> bounded_array px (\<lambda>f. exactly px f [''text'', ''hookRunId''] (\<lambda>fs.
         text_within max_input_text_bytes (own_value fs ''text'')
         \<and> text_within max_identifier_bytes (own_value fs ''hookRunId''))) (own_value ps ''fragments''))"

definition sub_agent_item :: "(jsvalue \<Rightarrow> bool) \<Rightarrow> jsvalue \<Rightarrow> bool" where
  "sub_agent_item px v \<longleftrightarrow> exactly px v [''type'', ''id'', ''kind'', ''agentThreadId'', ''agentPath''] (\<lambda>ps.
     is_schema_identifier (own_value ps ''id'')
     \<and> is_enum [''started'', ''interacted'', ''interrupted''] (own_value ps ''kind'')
     \<and> is_schema_identifier (own_value ps ''agentThreadId'')
     \<and> text_within max_local_path_bytes (own_value ps ''agentPath''))"

definition stable_thread_item :: "(jsvalue \<Rightarrow> bool) \<Rightarrow> jsvalue \<Rightarrow> bool" where
  "stable_thread_item px v \<longleftrightarrow> typed px v
     [(''contextCompaction'', exactly px v [''type'', ''id''] (\<lambda>ps. is_schema_identifier (own_value ps ''id''))),
      (''agentMessage'', agent_message_item px v),
      (''plan'', text_item px ''text'' max_input_text_bytes v),
      (''reasoning'', reasoning_item px v),
      (''commandExecution'', command_item px v),
      (''fileChange'', file_change_item px v),
      (''userMessage'', user_message_item px v),
      (''hookPrompt'', hook_prompt_item px v),
      (''mcpToolCall'', mcp_tool_call px v),
      (''dynamicToolCall'', dynamic_tool_call px v),
      (''collabAgentToolCall'', collab_tool_call px v),
      (''subAgentActivity'', sub_agent_item px v),
      (''webSearch'', web_search_item px v),
      (''imageView'', text_item px ''path'' max_local_path_bytes v),
      (''sleep'', exactly px v [''type'', ''id'', ''durationMs''] (\<lambda>ps.
          is_schema_identifier (own_value ps ''id'') \<and> json_uint (own_value ps ''durationMs'') \<noteq> None)),
      (''imageGeneration'', image_generation_item px v),
      (''enteredReviewMode'', text_item px ''review'' max_input_text_bytes v),
      (''exitedReviewMode'', text_item px ''review'' max_input_text_bytes v)]"

definition normalize_item_kind :: "jsvalue \<Rightarrow> item_kind" where
  "normalize_item_kind v =
     (if v = JsText (js ''userMessage'') then User_Message
      else if v = JsText (js ''agentMessage'') then Agent_Message
      else if v = JsText (js ''plan'') then Plan_Kind
      else if v = JsText (js ''reasoning'') then Reasoning_Kind
      else if v = JsText (js ''commandExecution'') then Command_Kind
      else if v = JsText (js ''fileChange'') then File_Change_Kind
      else Other_Kind)"

section \<open>Turns\<close>

text \<open>The status of a turn: None while it is in progress; the outer None is the refusal.\<close>

definition server_turn_status :: "jsvalue \<Rightarrow> terminal_status option option" where
  "server_turn_status v =
     (if v = JsText (js ''inProgress'') then Some None
      else if v = JsText (js ''completed'') then Some (Some Completed)
      else if v = JsText (js ''interrupted'') then Some (Some Interrupted)
      else if v = JsText (js ''failed'') then Some (Some Failed)
      else None)"

record server_turn =
  server_turn_id :: jsstr
  server_status :: "terminal_status option"
  server_error :: "safe_error option"

definition require_turn :: "(jsvalue \<Rightarrow> bool) \<Rightarrow> jsvalue \<Rightarrow> server_turn option" where
  "require_turn px v =
     (case require_keys px v
         [''id'', ''items'', ''itemsView'', ''status'', ''error'', ''startedAt'', ''completedAt'', ''durationMs'']
         [''id'', ''items'', ''status''] of
        None \<Rightarrow> None
      | Some ps \<Rightarrow>
          if \<not> bounded_array px (stable_thread_item px) (own_value ps ''items'')
             \<or> \<not> if_own ps ''itemsView'' (is_enum [''notLoaded'', ''summary'', ''full''])
             \<or> \<not> if_own ps ''startedAt'' nullable_int64 \<or> \<not> if_own ps ''completedAt'' nullable_int64
             \<or> \<not> if_own ps ''durationMs'' nullable_int64
          then None
          else
            (case (if has_key ps ''error'' then nullable_turn_error px (own_value ps ''error'') else Some None,
                   schema_identifier (own_value ps ''id''), server_turn_status (own_value ps ''status'')) of
               (Some e, Some i, Some st) \<Rightarrow> Some \<lparr>server_turn_id = i, server_status = st, server_error = e\<rparr>
             | _ \<Rightarrow> None))"

section \<open>Resumed threads\<close>

definition thread_status :: "(jsvalue \<Rightarrow> bool) \<Rightarrow> jsvalue \<Rightarrow> bool" where
  "thread_status px v \<longleftrightarrow> typed px v
     [(''active'', exactly px v [''type'', ''activeFlags''] (\<lambda>ps.
         bounded_array px (is_enum [''waitingOnApproval'', ''waitingOnUserInput'']) (own_value ps ''activeFlags''))),
      (''notLoaded'', require_exact_options px v [''type''] \<noteq> None),
      (''idle'', require_exact_options px v [''type''] \<noteq> None),
      (''systemError'', require_exact_options px v [''type''] \<noteq> None)]"

definition thread_spawn :: "(jsvalue \<Rightarrow> bool) \<Rightarrow> jsvalue \<Rightarrow> bool" where
  "thread_spawn px v \<longleftrightarrow>
     keyed px v [''parent_thread_id'', ''depth'', ''agent_path'', ''agent_nickname'', ''agent_role'']
       [''parent_thread_id'', ''depth''] (\<lambda>ps.
     is_schema_identifier (own_value ps ''parent_thread_id'') \<and> is_int32 (own_value ps ''depth'')
     \<and> if_own ps ''agent_path'' (nullable_text max_local_path_bytes)
     \<and> if_own ps ''agent_nickname'' (nullable_text max_identifier_bytes)
     \<and> if_own ps ''agent_role'' (nullable_text max_identifier_bytes))"

text \<open>A text among the names, or a record with one key among the tags.\<close>

definition tagged :: "(jsvalue \<Rightarrow> bool) \<Rightarrow> jsvalue \<Rightarrow> string list \<Rightarrow> (string \<times> (jsvalue \<Rightarrow> bool)) list \<Rightarrow> bool" where
  "tagged px v names tags \<longleftrightarrow>
     (case v of
        JsText _ \<Rightarrow> is_enum names v
      | _ \<Rightarrow>
          (case raw_record px v of
             None \<Rightarrow> False
           | Some ps \<Rightarrow> list_ex (\<lambda>(t, P). enumerable_keys ps = [js t] \<and> P (own_value ps t)) tags))"

definition sub_agent_source :: "(jsvalue \<Rightarrow> bool) \<Rightarrow> jsvalue \<Rightarrow> bool" where
  "sub_agent_source px v \<longleftrightarrow> tagged px v [''review'', ''compact'', ''memory_consolidation'']
     [(''other'', text_within max_identifier_bytes), (''thread_spawn'', thread_spawn px)]"

definition session_source :: "(jsvalue \<Rightarrow> bool) \<Rightarrow> jsvalue \<Rightarrow> bool" where
  "session_source px v \<longleftrightarrow> tagged px v [''cli'', ''vscode'', ''exec'', ''appServer'', ''unknown'']
     [(''custom'', text_within max_identifier_bytes), (''subAgent'', sub_agent_source px)]"

definition git_info :: "(jsvalue \<Rightarrow> bool) \<Rightarrow> jsvalue \<Rightarrow> bool" where
  "git_info px = nullable (\<lambda>v.
     case require_options px v [''sha'', ''branch'', ''originUrl''] of
       None \<Rightarrow> False
     | Some ps \<Rightarrow>
         if_own ps ''sha'' (nullable_text max_identifier_bytes) \<and> if_own ps ''branch'' (nullable_text max_identifier_bytes)
         \<and> if_own ps ''originUrl'' (nullable_text max_local_path_bytes))"

definition approval_policy :: "(jsvalue \<Rightarrow> bool) \<Rightarrow> jsvalue \<Rightarrow> bool" where
  "approval_policy px v \<longleftrightarrow>
     is_enum [''untrusted'', ''on-request'', ''never''] v
     \<or> exactly px v [''granular''] (\<lambda>ps.
         keyed px (own_value ps ''granular'')
           [''sandbox_approval'', ''rules'', ''skill_approval'', ''request_permissions'', ''mcp_elicitations'']
           [''sandbox_approval'', ''rules'', ''mcp_elicitations''] (\<lambda>gs.
         list_all (\<lambda>p. case snd p of Data_Property True w \<Rightarrow> is_boolean w | _ \<Rightarrow> True) gs))"

definition sandbox_policy :: "(jsvalue \<Rightarrow> bool) \<Rightarrow> jsvalue \<Rightarrow> bool" where
  "sandbox_policy px v \<longleftrightarrow> typed px v
     [(''dangerFullAccess'', require_exact_options px v [''type''] \<noteq> None),
      (''readOnly'', keyed px v [''type'', ''networkAccess''] [''type''] (\<lambda>ps. if_own ps ''networkAccess'' is_boolean)),
      (''externalSandbox'', keyed px v [''type'', ''networkAccess''] [''type''] (\<lambda>ps.
         if_own ps ''networkAccess'' (is_enum [''restricted'', ''enabled'']))),
      (''workspaceWrite'',
         keyed px v [''type'', ''writableRoots'', ''networkAccess'', ''excludeTmpdirEnvVar'', ''excludeSlashTmp''] [''type'']
           (\<lambda>ps. if_own ps ''writableRoots'' (text_array px max_local_path_bytes)
             \<and> list_all (\<lambda>k. if_own ps k is_boolean) [''networkAccess'', ''excludeTmpdirEnvVar'', ''excludeSlashTmp'']))]"

definition require_thread :: "(jsvalue \<Rightarrow> bool) \<Rightarrow> jsvalue \<Rightarrow> jsstr option" where
  "require_thread px v =
     (case require_keys px v
         [''id'', ''sessionId'', ''forkedFromId'', ''parentThreadId'', ''preview'', ''ephemeral'', ''modelProvider'',
          ''createdAt'', ''updatedAt'', ''recencyAt'', ''status'', ''path'', ''cwd'', ''cliVersion'', ''source'',
          ''threadSource'', ''agentNickname'', ''agentRole'', ''gitInfo'', ''name'', ''turns'']
         [''id'', ''sessionId'', ''preview'', ''ephemeral'', ''modelProvider'', ''createdAt'', ''updatedAt'',
          ''status'', ''cwd'', ''cliVersion'', ''source'', ''turns''] of
        None \<Rightarrow> None
      | Some ps \<Rightarrow>
          if is_schema_identifier (own_value ps ''sessionId'')
             \<and> if_own ps ''forkedFromId'' nullable_identifier \<and> if_own ps ''parentThreadId'' nullable_identifier
             \<and> text_within max_input_text_bytes (own_value ps ''preview'') \<and> is_boolean (own_value ps ''ephemeral'')
             \<and> text_within max_identifier_bytes (own_value ps ''modelProvider'')
             \<and> is_json_int64 (own_value ps ''createdAt'') \<and> is_json_int64 (own_value ps ''updatedAt'')
             \<and> if_own ps ''recencyAt'' nullable_int64 \<and> thread_status px (own_value ps ''status'')
             \<and> if_own ps ''path'' (nullable_text max_local_path_bytes)
             \<and> text_within max_local_path_bytes (own_value ps ''cwd'')
             \<and> text_within max_identifier_bytes (own_value ps ''cliVersion'')
             \<and> session_source px (own_value ps ''source'')
             \<and> if_own ps ''threadSource'' (nullable_text max_identifier_bytes)
             \<and> if_own ps ''agentNickname'' (nullable_text max_identifier_bytes)
             \<and> if_own ps ''agentRole'' (nullable_text max_identifier_bytes) \<and> if_own ps ''gitInfo'' (git_info px)
             \<and> if_own ps ''name'' (nullable_text max_input_text_bytes)
             \<and> bounded_array px (\<lambda>t. require_turn px t \<noteq> None) (own_value ps ''turns'')
          then schema_identifier (own_value ps ''id'') else None)"

definition thread_resume_response :: "(jsvalue \<Rightarrow> bool) \<Rightarrow> jsvalue \<Rightarrow> jsstr \<Rightarrow> bool" where
  "thread_resume_response px v expected \<longleftrightarrow>
     keyed px v
       [''thread'', ''model'', ''modelProvider'', ''serviceTier'', ''cwd'', ''instructionSources'', ''approvalPolicy'',
        ''approvalsReviewer'', ''sandbox'', ''reasoningEffort'']
       [''thread'', ''model'', ''modelProvider'', ''cwd'', ''approvalPolicy'', ''approvalsReviewer'', ''sandbox''] (\<lambda>ps.
     require_thread px (own_value ps ''thread'') = Some expected
     \<and> text_within max_identifier_bytes (own_value ps ''model'')
     \<and> text_within max_identifier_bytes (own_value ps ''modelProvider'')
     \<and> if_own ps ''serviceTier'' (nullable_text max_identifier_bytes)
     \<and> text_within max_local_path_bytes (own_value ps ''cwd'')
     \<and> if_own ps ''instructionSources'' (text_array px max_local_path_bytes)
     \<and> approval_policy px (own_value ps ''approvalPolicy'')
     \<and> is_enum [''user'', ''auto_review'', ''guardian_subagent''] (own_value ps ''approvalsReviewer'')
     \<and> sandbox_policy px (own_value ps ''sandbox'')
     \<and> if_own ps ''reasoningEffort'' (nullable_nonempty max_identifier_bytes))"

end
