(* ===== verification/TurnMessages.thy ===== *)
theory TurnMessages
  imports TurnSchema
begin

text \<open>
  The messages of the turn coordinator (\<open>src/node/ride-codex-turn-coordinator.ts\<close>): the requests of
  its clients and what they become for the app server, the notifications about the active turn, and
  the redaction of warnings.
\<close>

section \<open>Requests\<close>

datatype turn_input = Text_Input jsstr | Image_Input jsstr

record start_request =
  start_thread :: jsstr
  start_message :: "jsstr option"
  start_input :: "turn_input list"

record steer_request =
  steer_thread :: jsstr
  steer_turn :: jsstr
  steer_message :: "jsstr option"
  steer_input :: "turn_input list"

record interrupt_request =
  interrupt_thread :: jsstr
  interrupt_turn :: jsstr

text \<open>The inner None is the absent identifier, the outer one the refusal.\<close>

definition client_message_id :: "properties \<Rightarrow> jsstr option option" where
  "client_message_id ps =
     (case own_value ps ''clientMessageId'' of JsUndefined \<Rightarrow> Some None | v \<Rightarrow> map_option Some (require_identifier v))"

definition normalize_input :: "(jsvalue \<Rightarrow> bool) \<Rightarrow> jsvalue \<Rightarrow> turn_input option" where
  "normalize_input px v =
     (case require_options px v [''type'', ''text'', ''path''] of
        None \<Rightarrow> None
      | Some ps \<Rightarrow>
          if own_value ps ''type'' = JsText (js ''text'') then
            map_option Text_Input (nonempty_text (own_value ps ''text'') max_input_text_bytes)
          else if own_value ps ''type'' = JsText (js ''local-image'') then
            map_option Image_Input (nonempty_text (own_value ps ''path'') max_local_path_bytes)
          else None)"

definition normalize_inputs :: "(jsvalue \<Rightarrow> bool) \<Rightarrow> jsvalue \<Rightarrow> turn_input list option" where
  "normalize_inputs px v = (if v = JsArray [] then None else read_array px max_input_items (normalize_input px) v)"

definition normalize_start_request :: "(jsvalue \<Rightarrow> bool) \<Rightarrow> jsvalue \<Rightarrow> start_request option" where
  "normalize_start_request px v =
     (case require_options px v [''threadId'', ''clientMessageId'', ''input''] of
        None \<Rightarrow> None
      | Some ps \<Rightarrow>
          (case (require_identifier (own_value ps ''threadId''), client_message_id ps,
                 normalize_inputs px (own_value ps ''input'')) of
             (Some t, Some m, Some is) \<Rightarrow> Some \<lparr>start_thread = t, start_message = m, start_input = is\<rparr>
           | _ \<Rightarrow> None))"

definition normalize_steer_request :: "(jsvalue \<Rightarrow> bool) \<Rightarrow> jsvalue \<Rightarrow> steer_request option" where
  "normalize_steer_request px v =
     (case require_options px v [''threadId'', ''expectedTurnId'', ''clientMessageId'', ''input''] of
        None \<Rightarrow> None
      | Some ps \<Rightarrow>
          (case (require_identifier (own_value ps ''threadId''), require_identifier (own_value ps ''expectedTurnId''),
                 client_message_id ps, normalize_inputs px (own_value ps ''input'')) of
             (Some t, Some u, Some m, Some is) \<Rightarrow>
               Some \<lparr>steer_thread = t, steer_turn = u, steer_message = m, steer_input = is\<rparr>
           | _ \<Rightarrow> None))"

definition normalize_interrupt_request :: "(jsvalue \<Rightarrow> bool) \<Rightarrow> jsvalue \<Rightarrow> interrupt_request option" where
  "normalize_interrupt_request px v =
     (case require_options px v [''threadId'', ''turnId''] of
        None \<Rightarrow> None
      | Some ps \<Rightarrow>
          (case (require_identifier (own_value ps ''threadId''), require_identifier (own_value ps ''turnId'')) of
             (Some t, Some u) \<Rightarrow> Some \<lparr>interrupt_thread = t, interrupt_turn = u\<rparr>
           | _ \<Rightarrow> None))"

definition to_server_input :: "turn_input \<Rightarrow> json" where
  "to_server_input i =
     (case i of
        Text_Input s \<Rightarrow> obj [(''type'', text_json ''text''), (''text'', JStr s), (''text_elements'', JArr [])]
      | Image_Input p \<Rightarrow> obj [(''type'', text_json ''localImage''), (''path'', JStr p)])"

definition start_params :: "start_request \<Rightarrow> json" where
  "start_params r =
     obj ([(''threadId'', JStr (start_thread r))] @ optional_field ''clientUserMessageId'' JStr (start_message r)
       @ [(''input'', JArr (map to_server_input (start_input r)))])"

definition steer_params :: "steer_request \<Rightarrow> json" where
  "steer_params r =
     obj ([(''threadId'', JStr (steer_thread r))] @ optional_field ''clientUserMessageId'' JStr (steer_message r)
       @ [(''input'', JArr (map to_server_input (steer_input r))), (''expectedTurnId'', JStr (steer_turn r))])"

definition interrupt_params :: "interrupt_request \<Rightarrow> json" where
  "interrupt_params r = obj [(''threadId'', JStr (interrupt_thread r)), (''turnId'', JStr (interrupt_turn r))]"

section \<open>Notifications about the active turn\<close>

datatype turn_method =
    On_Item_Started
  | On_Item_Completed
  | On_Agent_Delta
  | On_Plan_Delta
  | On_Command_Output
  | On_File_Output
  | On_Summary_Delta
  | On_Summary_Part
  | On_Reasoning_Delta
  | On_File_Patch
  | On_Turn_Plan
  | On_Turn_Diff
  | On_Token_Usage
  | On_Error

fun turn_method_name :: "turn_method \<Rightarrow> string" where
  "turn_method_name On_Item_Started = ''item/started''"
| "turn_method_name On_Item_Completed = ''item/completed''"
| "turn_method_name On_Agent_Delta = ''item/agentMessage/delta''"
| "turn_method_name On_Plan_Delta = ''item/plan/delta''"
| "turn_method_name On_Command_Output = ''item/commandExecution/outputDelta''"
| "turn_method_name On_File_Output = ''item/fileChange/outputDelta''"
| "turn_method_name On_Summary_Delta = ''item/reasoning/summaryTextDelta''"
| "turn_method_name On_Summary_Part = ''item/reasoning/summaryPartAdded''"
| "turn_method_name On_Reasoning_Delta = ''item/reasoning/textDelta''"
| "turn_method_name On_File_Patch = ''item/fileChange/patchUpdated''"
| "turn_method_name On_Turn_Plan = ''turn/plan/updated''"
| "turn_method_name On_Turn_Diff = ''turn/diff/updated''"
| "turn_method_name On_Token_Usage = ''thread/tokenUsage/updated''"
| "turn_method_name On_Error = ''error''"

definition turn_methods :: "turn_method list" where
  "turn_methods =
     [On_Item_Started, On_Item_Completed, On_Agent_Delta, On_Plan_Delta, On_Command_Output, On_File_Output,
      On_Summary_Delta, On_Summary_Part, On_Reasoning_Delta, On_File_Patch, On_Turn_Plan, On_Turn_Diff,
      On_Token_Usage, On_Error]"

definition turn_method_of :: "jsstr \<Rightarrow> turn_method option" where
  "turn_method_of s = List.find (\<lambda>m. js (turn_method_name m) = s) turn_methods"

text \<open>The keys and the check of each method; \<open>requireStableActiveNotification\<close> refuses the rest.\<close>

definition delta_keys :: "string list" where
  "delta_keys = [''delta'', ''itemId'', ''threadId'', ''turnId'']"

definition delta_params :: "properties \<Rightarrow> bool" where
  "delta_params ps \<longleftrightarrow>
     is_schema_identifier (own_value ps ''itemId'') \<and> text_within max_input_text_bytes (own_value ps ''delta'')"

fun notification_keys :: "turn_method \<Rightarrow> string list" where
  "notification_keys On_Item_Started = [''item'', ''startedAtMs'', ''threadId'', ''turnId'']"
| "notification_keys On_Item_Completed = [''completedAtMs'', ''item'', ''threadId'', ''turnId'']"
| "notification_keys On_Summary_Delta = [''delta'', ''itemId'', ''summaryIndex'', ''threadId'', ''turnId'']"
| "notification_keys On_Summary_Part = [''itemId'', ''summaryIndex'', ''threadId'', ''turnId'']"
| "notification_keys On_Reasoning_Delta = [''contentIndex'', ''delta'', ''itemId'', ''threadId'', ''turnId'']"
| "notification_keys On_File_Patch = [''changes'', ''itemId'', ''threadId'', ''turnId'']"
| "notification_keys On_Turn_Plan = [''explanation'', ''plan'', ''threadId'', ''turnId'']"
| "notification_keys On_Turn_Diff = [''diff'', ''threadId'', ''turnId'']"
| "notification_keys On_Token_Usage = [''threadId'', ''tokenUsage'', ''turnId'']"
| "notification_keys On_Error = [''error'', ''threadId'', ''turnId'', ''willRetry'']"
| "notification_keys _ = delta_keys"

fun notification_params :: "(jsvalue \<Rightarrow> bool) \<Rightarrow> turn_method \<Rightarrow> properties \<Rightarrow> bool" where
  "notification_params px On_Item_Started ps =
     (stable_thread_item px (own_value ps ''item'') \<and> is_json_int64 (own_value ps ''startedAtMs''))"
| "notification_params px On_Item_Completed ps =
     (stable_thread_item px (own_value ps ''item'') \<and> is_json_int64 (own_value ps ''completedAtMs''))"
| "notification_params px On_Summary_Delta ps = (delta_params ps \<and> is_json_int64 (own_value ps ''summaryIndex''))"
| "notification_params px On_Summary_Part ps =
     (is_schema_identifier (own_value ps ''itemId'') \<and> is_json_int64 (own_value ps ''summaryIndex''))"
| "notification_params px On_Reasoning_Delta ps = (delta_params ps \<and> is_json_int64 (own_value ps ''contentIndex''))"
| "notification_params px On_File_Patch ps =
     (is_schema_identifier (own_value ps ''itemId'')
      \<and> normalize_file_changes px (own_value ps ''changes'') max_raw_array \<noteq> None)"
| "notification_params px On_Turn_Plan ps =
     (if_own ps ''explanation'' (nullable_text max_input_text_bytes)
      \<and> normalize_plan px (own_value ps ''plan'') max_raw_array \<noteq> None)"
| "notification_params px On_Turn_Diff ps = text_within max_input_text_bytes (own_value ps ''diff'')"
| "notification_params px On_Token_Usage ps = (normalize_token_usage px (own_value ps ''tokenUsage'') \<noteq> None)"
| "notification_params px On_Error ps =
     (require_turn_error px (own_value ps ''error'') \<noteq> None \<and> is_boolean (own_value ps ''willRetry''))"
| "notification_params px _ ps = delta_params ps"

definition stable_active_notification :: "(jsvalue \<Rightarrow> bool) \<Rightarrow> turn_method \<Rightarrow> jsvalue \<Rightarrow> properties option" where
  "stable_active_notification px m v =
     (case (if m = On_Turn_Plan then require_keys px v (notification_keys m) [''plan'', ''threadId'', ''turnId'']
            else require_exact_options px v (notification_keys m)) of
        None \<Rightarrow> None
      | Some ps \<Rightarrow>
          if notification_params px m ps \<and> is_schema_identifier (own_value ps ''threadId'')
             \<and> is_schema_identifier (own_value ps ''turnId'')
          then Some ps else None)"

section \<open>Redaction\<close>

text \<open>The class \<open>\s\<close> of a regular expression.\<close>

definition blank_unit :: "16 word \<Rightarrow> bool" where
  "blank_unit c \<longleftrightarrow>
     (let n = unat c in
      9 \<le> n \<and> n \<le> 13 \<or> n = 0x20 \<or> n = 0xA0 \<or> n = 0x1680 \<or> 0x2000 \<le> n \<and> n \<le> 0x200A
      \<or> n \<in> {0x2028, 0x2029, 0x202F, 0x205F, 0x3000, 0xFEFF})"

definition letter_unit :: "16 word \<Rightarrow> bool" where
  "letter_unit c \<longleftrightarrow> (let n = unat c in 0x41 \<le> n \<and> n \<le> 0x5A \<or> 0x61 \<le> n \<and> n \<le> 0x7A)"

definition path_tail_unit :: "16 word \<Rightarrow> bool" where
  "path_tail_unit c \<longleftrightarrow> \<not> blank_unit c \<and> c \<noteq> 0x22 \<and> c \<noteq> 0x27"

text \<open>The alternatives of \<open>(?:[A-Za-z]:\\|\\\\|\/)\<close>, in their order.\<close>

definition path_head :: "jsstr \<Rightarrow> nat list" where
  "path_head s =
     (case s of a # b # c # _ \<Rightarrow> if letter_unit a \<and> b = 0x3A \<and> c = 0x5C then [3] else [] | _ \<Rightarrow> [])
     @ (case s of a # b # _ \<Rightarrow> if a = 0x5C \<and> b = 0x5C then [2] else [] | _ \<Rightarrow> [])
     @ (case s of a # _ \<Rightarrow> if a = 0x2F then [1] else [] | _ \<Rightarrow> [])"

text \<open>What is left behind a path at the head of a text: the first alternative that has a nonempty
  tail matches, and takes all of it.\<close>

definition path_match :: "jsstr \<Rightarrow> jsstr option" where
  "path_match s =
     (case List.find (\<lambda>n. takeWhile path_tail_unit (drop n s) \<noteq> []) (path_head s) of
        None \<Rightarrow> None
      | Some n \<Rightarrow> Some (dropWhile path_tail_unit (drop n s)))"

lemma path_match_shorter: "path_match s = Some r \<Longrightarrow> length r < length s"
proof -
  assume "path_match s = Some r"
  then obtain n where "takeWhile path_tail_unit (drop n s) \<noteq> []" "r = dropWhile path_tail_unit (drop n s)"
    by (auto simp: path_match_def find_Some_iff split: option.splits)
  then have "length r < length (drop n s)"
    using takeWhile_dropWhile_id [of path_tail_unit "drop n s"]
    by (metis length_append length_greater_0_conv less_add_same_cancel2)
  then show ?thesis by simp
qed

function redact_paths :: "jsstr \<Rightarrow> jsstr" where
  "redact_paths [] = []"
| "redact_paths (c # s) =
     (case path_match (c # s) of
        None \<Rightarrow> c # redact_paths s
      | Some r \<Rightarrow> js ''[path]'' @ redact_paths r)"
  by pat_completeness auto
termination by (relation "measure length") (auto dest: path_match_shorter)

definition word_unit :: "16 word \<Rightarrow> bool" where
  "word_unit c \<longleftrightarrow> letter_unit c \<or> 0x30 \<le> unat c \<and> unat c \<le> 0x39 \<or> c = 0x5F"

definition lower_unit :: "16 word \<Rightarrow> 16 word" where
  "lower_unit c = (if 0x41 \<le> unat c \<and> unat c \<le> 0x5A then c + 0x20 else c)"

text \<open>A word at the head of a text, in any case.\<close>

definition strip_word :: "string \<Rightarrow> jsstr \<Rightarrow> jsstr option" where
  "strip_word w s =
     (if map lower_unit (take (length w) s) = js w then Some (drop (length w) s) else None)"

definition strip_key :: "jsstr \<Rightarrow> jsstr option" where
  "strip_key s =
     (case strip_word ''api'' s of
        Some r \<Rightarrow> strip_word ''key'' (case r of c # r' \<Rightarrow> if c = 0x5F \<or> c = 0x2D then r' else r | [] \<Rightarrow> r)
      | None \<Rightarrow>
          (case strip_word ''token'' s of
             Some r \<Rightarrow> Some r
           | None \<Rightarrow> (case strip_word ''secret'' s of Some r \<Rightarrow> Some r | None \<Rightarrow> strip_word ''password'' s)))"

definition secret_tail_unit :: "16 word \<Rightarrow> bool" where
  "secret_tail_unit c \<longleftrightarrow> \<not> blank_unit c \<and> c \<noteq> 0x2C \<and> c \<noteq> 0x3B"

definition secret_match :: "jsstr \<Rightarrow> jsstr option" where
  "secret_match s =
     (case strip_key s of
        None \<Rightarrow> None
      | Some r \<Rightarrow>
          (case dropWhile blank_unit r of
             [] \<Rightarrow> None
           | c # r' \<Rightarrow>
               if c = 0x3A \<or> c = 0x3D then
                 (let v = dropWhile blank_unit r' in
                  if takeWhile secret_tail_unit v = [] then None else Some (dropWhile secret_tail_unit v))
               else None))"

lemma strip_word_length: "strip_word w s = Some r \<Longrightarrow> length r \<le> length s"
  by (auto simp: strip_word_def split: if_splits)

lemma strip_key_length: "strip_key s = Some r \<Longrightarrow> length r \<le> length s"
  by (fastforce simp: strip_key_def dest: strip_word_length split: option.splits list.splits if_splits)

lemma secret_match_shorter: "secret_match s = Some r \<Longrightarrow> length r < length s"
proof -
  assume "secret_match s = Some r"
  then obtain k c r' where k: "strip_key s = Some k" "dropWhile blank_unit k = c # r'"
    and r: "r = dropWhile secret_tail_unit (dropWhile blank_unit r')"
    by (auto simp: secret_match_def Let_def split: option.splits list.splits if_splits)
  have "length r \<le> length r'" unfolding r by (meson le_trans length_dropWhile_le)
  also have "\<dots> < length (dropWhile blank_unit k)" using k by simp
  also have "\<dots> \<le> length k" by (rule length_dropWhile_le)
  finally show ?thesis using strip_key_length [OF k(1)] by simp
qed

text \<open>The flag tells whether the unit before is one of a word, so that \<open>\b\<close> does not hold.\<close>

function redact_secrets :: "bool \<Rightarrow> jsstr \<Rightarrow> jsstr" where
  "redact_secrets inside [] = []"
| "redact_secrets inside (c # s) =
     (case (if inside then None else secret_match (c # s)) of
        None \<Rightarrow> c # redact_secrets (word_unit c) s
      | Some r \<Rightarrow> js ''[secret]'' @ redact_secrets True r)"
  by pat_completeness auto
termination by (relation "measure (length \<circ> snd)") (auto dest: secret_match_shorter split: if_splits)

definition sanitize_message :: "jsstr \<Rightarrow> jsstr" where
  "sanitize_message s =
     (let r = redact_secrets False (redact_paths s) in if r = [] then js ''Codex warning.'' else r)"

end
