(* ===== verification/TurnFeed.thy ===== *)
theory TurnFeed
  imports TurnMessages EventQueue JsMap
begin

text \<open>
  The event queue of the turn coordinator (\<open>src/node/ride-codex-turn-coordinator.ts\<close>, \<open>#enqueue\<close> to
  \<open>#flush\<close> and the helpers below the class): events wait in one queue for the next flush, within a
  byte budget that counts the batches they will be sent in, warnings about losses included. The
  record \<open>feed\<close> holds the fields of the class that belong to the queue. Whether an event is protected
  is as in the reducer (theory \<open>EventQueue\<close>).
\<close>

section \<open>State\<close>

record turn_identity =
  of_generation :: int
  of_sequence :: int
  of_thread :: jsstr
  of_turn :: jsstr

record queued_event =
  queued_identity :: turn_identity
  queued_ui :: ui_event
  queued_size :: int

text \<open>\<open>QueueMetadata\<close>\<close>

record losses =
  lost_identity :: turn_identity
  lost_events :: int
  lost_bytes :: int
  lost_truncated :: bool

type_synonym loss_map = "(jsstr, losses) jsmap"

record feed_limits =
  lim_queued :: int
  lim_batch :: nat
  lim_item :: int
  lim_items :: nat
  lim_history :: nat

record feed =
  feed_queue :: "queued_event list"
  feed_losses :: loss_map
  feed_reserved :: "jsstr list"
  feed_identity :: "turn_identity option"
  feed_history :: "ui_event list"
  flush_pending :: bool

definition empty_feed :: feed where
  "empty_feed =
     \<lparr>feed_queue = [], feed_losses = [], feed_reserved = [], feed_identity = None, feed_history = [],
      flush_pending = False\<rparr>"

definition max_queue_metadata :: nat where "max_queue_metadata = 64"

section \<open>Sizes\<close>

definition identity_key :: "turn_identity \<Rightarrow> jsstr" where
  "identity_key i =
     json_stringify (JArr [int_json (of_generation i), int_json (of_sequence i), JStr (of_thread i), JStr (of_turn i)])"

definition batch_of :: "turn_identity \<Rightarrow> ui_event list \<Rightarrow> event_batch" where
  "batch_of i es =
     \<lparr>batch_generation = of_generation i, batch_sequence = of_sequence i, batch_thread = of_thread i,
      batch_turn = of_turn i, batch_events = es\<rparr>"

definition event_bytes :: "ui_event \<Rightarrow> int" where
  "event_bytes e = utf8_byte_length (json_stringify (event_json e))"

definition event_array_bytes :: "ui_event list \<Rightarrow> int" where
  "event_array_bytes es = (if es = [] then 2 else 2 + sum_list (map event_bytes es) + int (length es) - 1)"

definition batch_bytes :: "event_batch \<Rightarrow> int" where
  "batch_bytes b =
     utf8_byte_length (json_stringify (batch_json (b\<lparr>batch_events := []\<rparr>))) - 2 + event_array_bytes (batch_events b)"

text \<open>The warnings a batch may carry, with the largest counters.\<close>

definition dropped_message :: string where
  "dropped_message = ''Some Codex streaming events were dropped to preserve responsiveness.''"

definition truncated_message :: string where
  "truncated_message = ''A Codex streaming item was truncated to preserve responsiveness.''"

definition dropped_warning :: "int \<Rightarrow> int \<Rightarrow> ui_event" where
  "dropped_warning n bytes =
     Warning_Event \<lparr>warning_code = Events_Dropped, warning_message = js dropped_message,
                    dropped_events = Some n, dropped_bytes = Some bytes\<rparr>"

definition truncated_warning :: ui_event where
  "truncated_warning =
     Warning_Event \<lparr>warning_code = Data_Truncated, warning_message = js truncated_message,
                    dropped_events = None, dropped_bytes = None\<rparr>"

definition budget_events :: "losses \<Rightarrow> ui_event list" where
  "budget_events m =
     (if 0 < lost_events m then [dropped_warning max_safe_integer max_safe_integer] else [])
     @ (if lost_truncated m then [truncated_warning] else [])"

text \<open>A splice before the first terminal event, or at the end.\<close>

definition before_terminal :: "ui_event list \<Rightarrow> ui_event list \<Rightarrow> ui_event list" where
  "before_terminal ws es =
     takeWhile (\<lambda>e. \<not> is_turn_terminal e) es @ ws @ dropWhile (\<lambda>e. \<not> is_turn_terminal e) es"

function chunk_bytes :: "nat \<Rightarrow> turn_identity \<Rightarrow> ui_event list \<Rightarrow> int \<Rightarrow> int" where
  "chunk_bytes n i es bytes =
     (if es = [] \<or> n = 0 then bytes
      else
        let s = bytes + batch_bytes (batch_of i (take n es)) in
        if safe_int s then chunk_bytes n i (drop n es) s else max_safe_integer)"
  by pat_completeness auto
termination by (relation "measure (\<lambda>(_, _, es, _). length es)") auto

declare chunk_bytes.simps [simp del]

text \<open>\<open>queuedEntriesBytes\<close>: its closure \<open>flush\<close> ends a run of events of one identity; the first run of
  an identity also pays for its warnings.\<close>

definition run_bytes ::
    "nat \<Rightarrow> loss_map \<Rightarrow> turn_identity \<times> ui_event list \<Rightarrow> int \<times> jsstr list \<Rightarrow> int \<times> jsstr list" where
  "run_bytes n ls g acc =
     (let key = identity_key (fst g);
          m = (if key \<in> set (snd acc) then None else map_get ls key)
      in case m of
           None \<Rightarrow> (chunk_bytes n (fst g) (snd g) (fst acc), snd acc)
         | Some m \<Rightarrow> (chunk_bytes n (fst g) (before_terminal (budget_events m) (snd g)) (fst acc), key # snd acc))"

fun runs_bytes ::
    "nat \<Rightarrow> loss_map \<Rightarrow> (turn_identity \<times> ui_event list) option \<Rightarrow> queued_event list \<Rightarrow> int \<times> jsstr list
     \<Rightarrow> int \<times> jsstr list" where
  "runs_bytes n ls current [] acc = (case current of None \<Rightarrow> acc | Some g \<Rightarrow> run_bytes n ls g acc)"
| "runs_bytes n ls current (e # es) acc =
     (case current of
        None \<Rightarrow> runs_bytes n ls (Some (queued_identity e, [queued_ui e])) es acc
      | Some g \<Rightarrow>
          if fst g = queued_identity e then runs_bytes n ls (Some (fst g, snd g @ [queued_ui e])) es acc
          else runs_bytes n ls (Some (queued_identity e, [queued_ui e])) es (run_bytes n ls g acc))"

definition queued_bytes :: "feed_limits \<Rightarrow> loss_map \<Rightarrow> queued_event list \<Rightarrow> int" where
  "queued_bytes l ls es = fst (runs_bytes (lim_batch l) ls None es (0, []))"

section \<open>Losses\<close>

definition ordinary :: "queued_event \<Rightarrow> bool" where
  "ordinary e \<longleftrightarrow> \<not> is_protected (queued_ui e)"

definition queued_for :: "turn_identity \<Rightarrow> queued_event list \<Rightarrow> bool" where
  "queued_for i es \<longleftrightarrow> list_ex (\<lambda>e. queued_identity e = i) es"

definition no_losses :: "turn_identity \<Rightarrow> losses" where
  "no_losses i = \<lparr>lost_identity = i, lost_events = 0, lost_bytes = 0, lost_truncated = False\<rparr>"

text \<open>\<open>#metadataFor\<close>, and the counters it is called for.\<close>

definition losses_for :: "turn_identity \<Rightarrow> loss_map \<Rightarrow> losses \<times> loss_map" where
  "losses_for i ls =
     (case map_get ls (identity_key i) of
        Some m \<Rightarrow> (m, ls)
      | None \<Rightarrow>
          let ls1 = (if max_queue_metadata \<le> length ls then drop 1 ls else ls)
          in (no_losses i, map_set ls1 (identity_key i) (no_losses i)))"

definition count_loss :: "int \<Rightarrow> int \<Rightarrow> losses \<Rightarrow> losses" where
  "count_loss max_queued bytes m =
     m\<lparr>lost_events := saturating_add (lost_events m) 1, lost_bytes := saturating_add (lost_bytes m) (min bytes max_queued)\<rparr>"

definition add_drop :: "feed_limits \<Rightarrow> turn_identity \<Rightarrow> int \<Rightarrow> loss_map \<Rightarrow> loss_map" where
  "add_drop l i bytes ls =
     (let r = losses_for i ls in map_set (snd r) (identity_key i) (count_loss (lim_queued l) bytes (fst r)))"

text \<open>The first entry with a property, and the queue without it.\<close>

fun take_first :: "('a \<Rightarrow> bool) \<Rightarrow> 'a list \<Rightarrow> ('a \<times> 'a list) option" where
  "take_first P [] = None"
| "take_first P (x # xs) =
     (if P x then Some (x, xs) else map_option (\<lambda>(y, ys). (y, x # ys)) (take_first P xs))"

lemma take_first_length: "take_first P xs = Some (y, ys) \<Longrightarrow> length xs = Suc (length ys)"
  by (induction xs arbitrary: ys) (auto split: if_splits)

lemma find_loss_present: "List.find P ls = Some (k, m) \<Longrightarrow> length (map_delete ls k) < length ls"
proof -
  assume "List.find P ls = Some (k, m)"
  then have "(k, m) \<in> set ls" by (auto simp: find_Some_iff dest: nth_mem)
  then show ?thesis by (force simp: map_delete_def intro!: length_filter_less)
qed

text \<open>\<open>#trimQueueToBudget\<close>: ordinary events go first, each counted as a loss; then the warnings of
  identities that are still queued. The key of an entry is that of its identity.\<close>

function trim_loop :: "feed_limits \<Rightarrow> queued_event list \<times> loss_map \<Rightarrow> queued_event list \<times> loss_map" where
  "trim_loop l (q, ls) =
     (if queued_bytes l ls q \<le> lim_queued l then (q, ls)
      else
        case take_first ordinary q of
          Some (removed, q') \<Rightarrow> trim_loop l (q', add_drop l (queued_identity removed) (queued_size removed) ls)
        | None \<Rightarrow>
            (case List.find (\<lambda>(k, m). queued_for (lost_identity m) q) ls of
               None \<Rightarrow> (q, ls)
             | Some (k, m) \<Rightarrow> trim_loop l (q, map_delete ls k)))"
  by pat_completeness auto
termination
  by (relation "measures [\<lambda>(l, q, ls). length q, \<lambda>(l, q, ls). length ls]")
    (auto dest: take_first_length find_loss_present)

declare trim_loop.simps [simp del]

definition trim_queue :: "feed_limits \<Rightarrow> queued_event list \<times> loss_map \<Rightarrow> queued_event list \<times> loss_map" where
  "trim_queue l s =
     (let r = trim_loop l s in (fst r, filter (\<lambda>(k, m). queued_for (lost_identity m) (fst r)) (snd r)))"

definition record_drop ::
    "feed_limits \<Rightarrow> turn_identity \<Rightarrow> int \<Rightarrow> queued_event list \<times> loss_map \<Rightarrow> queued_event list \<times> loss_map" where
  "record_drop l i bytes s = trim_queue l (fst s, add_drop l i bytes (snd s))"

definition record_truncation ::
    "feed_limits \<Rightarrow> turn_identity \<Rightarrow> queued_event list \<times> loss_map \<Rightarrow> queued_event list \<times> loss_map" where
  "record_truncation l i s =
     (let r = losses_for i (snd s)
      in trim_queue l (fst s, map_set (snd r) (identity_key i) ((fst r)\<lparr>lost_truncated := True\<rparr>)))"

section \<open>Room for protected events\<close>

text \<open>\<open>#makeRoomForBoundary\<close>. A removed event counts as a loss unless its warning would not fit.\<close>

definition count_removed ::
    "feed_limits \<Rightarrow> queued_event \<Rightarrow> queued_event \<Rightarrow> queued_event list \<Rightarrow> loss_map \<Rightarrow> loss_map" where
  "count_removed l incoming removed q ls =
     (if queued_identity removed = queued_identity incoming \<or> queued_for (queued_identity removed) q
      then
        let ls1 = add_drop l (queued_identity removed) (queued_size removed) ls in
        if lim_queued l < queued_bytes l ls1 (q @ [incoming]) then map_delete ls1 (identity_key (queued_identity removed))
        else ls1
      else ls)"

definition without_identity :: "turn_identity \<Rightarrow> queued_event list \<times> loss_map \<Rightarrow> queued_event list \<times> loss_map" where
  "without_identity i s =
     (filter (\<lambda>e. queued_identity e \<noteq> i) (fst s), map_delete (snd s) (identity_key i))"

lemma without_identity_shorter:
  "List.find P q = Some e \<Longrightarrow> length (fst (without_identity (queued_identity e) (q, ls))) < length q"
  by (auto simp: without_identity_def find_Some_iff in_set_conv_nth intro!: length_filter_less)

lemma map_delete_shorter: "map_has m k \<Longrightarrow> length (map_delete m k) < length m"
  by (auto simp: map_has_def map_delete_def intro!: length_filter_less)

function boundary_room ::
    "feed_limits \<Rightarrow> queued_event \<Rightarrow> queued_event list \<times> loss_map \<Rightarrow> queued_event list \<times> loss_map" where
  "boundary_room l incoming (q, ls) =
     (if queued_bytes l ls (q @ [incoming]) \<le> lim_queued l then (q, ls)
      else if map_has ls (identity_key (queued_identity incoming))
      then boundary_room l incoming (q, map_delete ls (identity_key (queued_identity incoming)))
      else
        case List.find (\<lambda>(k, m). queued_for (lost_identity m) q) ls of
          Some (k, m) \<Rightarrow> boundary_room l incoming (q, map_delete ls k)
        | None \<Rightarrow>
            (case take_first ordinary q of
               Some (removed, q') \<Rightarrow> boundary_room l incoming (q', count_removed l incoming removed q' ls)
             | None \<Rightarrow>
                 (case List.find (\<lambda>e. queued_identity e \<noteq> queued_identity incoming) q of
                    None \<Rightarrow> (q, ls)
                  | Some other \<Rightarrow> boundary_room l incoming (without_identity (queued_identity other) (q, ls)))))"
  by pat_completeness auto
termination
  by (relation "measures [\<lambda>(l, i, q, ls). length q, \<lambda>(l, i, q, ls). length ls]")
    (auto dest: take_first_length find_loss_present map_delete_shorter without_identity_shorter simp: without_identity_def)

declare boundary_room.simps [simp del]

text \<open>\<open>#makeRoomForReservedRecovery\<close>\<close>

function recovery_room ::
    "feed_limits \<Rightarrow> queued_event \<Rightarrow> queued_event list \<times> loss_map \<Rightarrow> queued_event list \<times> loss_map" where
  "recovery_room l incoming (q, ls) =
     (if queued_bytes l ls (q @ [incoming]) \<le> lim_queued l then (q, ls)
      else if 0 < length ls then recovery_room l incoming (q, [])
      else
        case take_first ordinary q of
          Some (removed, q') \<Rightarrow> recovery_room l incoming (q', ls)
        | None \<Rightarrow>
            (case List.find (\<lambda>e. queued_identity e \<noteq> queued_identity incoming) q of
               None \<Rightarrow> (q, ls)
             | Some other \<Rightarrow> recovery_room l incoming (without_identity (queued_identity other) (q, ls))))"
  by pat_completeness auto
termination
  by (relation "measures [\<lambda>(l, i, q, ls). length q, \<lambda>(l, i, q, ls). length ls]")
    (auto dest: take_first_length without_identity_shorter simp: without_identity_def)

declare recovery_room.simps [simp del]

section \<open>Entering the queue\<close>

definition bound_change :: "int \<Rightarrow> file_change \<Rightarrow> file_change" where
  "bound_change n c =
     \<lparr>change_path = truncate_utf8 (change_path c) n,
      change_kind = (case change_kind c of Update_File (Move p) \<Rightarrow> Update_File (Move (truncate_utf8 p n)) | k \<Rightarrow> k),
      change_diff = truncate_utf8 (change_diff c) n\<rparr>"

fun bound_event :: "feed_limits \<Rightarrow> ui_event \<Rightarrow> ui_event" where
  "bound_event l (Agent_Delta i d) = Agent_Delta i (truncate_utf8 d (lim_item l))"
| "bound_event l (Plan_Delta i d) = Plan_Delta i (truncate_utf8 d (lim_item l))"
| "bound_event l (Command_Output i d) = Command_Output i (truncate_utf8 d (lim_item l))"
| "bound_event l (File_Output i d) = File_Output i (truncate_utf8 d (lim_item l))"
| "bound_event l (Summary_Delta i n d) = Summary_Delta i n (truncate_utf8 d (lim_item l))"
| "bound_event l (Reasoning_Delta i n d) = Reasoning_Delta i n (truncate_utf8 d (lim_item l))"
| "bound_event l (Turn_Diff d) = Turn_Diff (truncate_utf8 d (lim_item l))"
| "bound_event l (Turn_Plan e ss) =
     Turn_Plan (map_option (\<lambda>t. truncate_utf8 t (lim_item l)) e)
       (map (\<lambda>s. s\<lparr>step_text := truncate_utf8 (step_text s) (lim_item l)\<rparr>) (take (lim_items l) ss))"
| "bound_event l (File_Patch i cs) = File_Patch i (map (bound_change (lim_item l)) (take (lim_items l) cs))"
| "bound_event l (Warning_Event w) =
     Warning_Event (w\<lparr>warning_message := truncate_utf8 (warning_message w) (lim_item l)\<rparr>)"
| "bound_event l (Error_Event e) =
     Error_Event (e\<lparr>report_message := truncate_utf8 (report_message e) (lim_item l)\<rparr>)"
| "bound_event l e = e"

definition queued_entry :: "turn_identity \<Rightarrow> ui_event \<Rightarrow> queued_event" where
  "queued_entry i e = \<lparr>queued_identity = i, queued_ui = e, queued_size = event_bytes e\<rparr>"

definition make_room ::
    "feed_limits \<Rightarrow> queued_event \<Rightarrow> queued_event list \<times> loss_map \<Rightarrow> queued_event list \<times> loss_map" where
  "make_room l entry s =
     (if is_reserved_recovery_diagnostic (queued_ui entry) then recovery_room l entry s
      else if is_turn_boundary (queued_ui entry) then boundary_room l entry s
      else s)"

text \<open>An event without an identity is not queued; whatever happens to one with an identity, a flush is
  scheduled.\<close>

definition put_queue :: "queued_event list \<times> loss_map \<Rightarrow> feed \<Rightarrow> feed" where
  "put_queue s f = f\<lparr>feed_queue := fst s, feed_losses := snd s\<rparr>"

definition schedule_flush :: "feed \<Rightarrow> feed" where
  "schedule_flush f = (if feed_identity f = None then f else f\<lparr>flush_pending := True\<rparr>)"

definition enqueue_state ::
    "feed_limits \<Rightarrow> queued_event \<Rightarrow> queued_event list \<times> loss_map \<Rightarrow> queued_event list \<times> loss_map" where
  "enqueue_state l entry s =
     (let r = make_room l entry s in
      if queued_bytes l (snd r) (fst r @ [entry]) \<le> lim_queued l then (fst r @ [entry], snd r)
      else if is_reserved_recovery_diagnostic (queued_ui entry) then r
      else record_drop l (queued_identity entry) (queued_size entry) r)"

definition enqueue :: "feed_limits \<Rightarrow> ui_event \<Rightarrow> feed \<Rightarrow> feed" where
  "enqueue l e f =
     (case feed_identity f of
        None \<Rightarrow> f
      | Some i \<Rightarrow>
          schedule_flush (put_queue (enqueue_state l (queued_entry i (bound_event l e)) (feed_queue f, feed_losses f)) f))"

text \<open>\<open>#enqueueDiagnostic\<close>: one recovery diagnostic per identity, and a bounded history.\<close>

definition keep_history :: "feed_limits \<Rightarrow> ui_event \<Rightarrow> feed \<Rightarrow> feed" where
  "keep_history l e f =
     (let h = feed_history f @ [e] in f\<lparr>feed_history := drop (length h - lim_history l) h\<rparr>)"

definition reserve_recovery :: "jsstr \<Rightarrow> feed \<Rightarrow> feed" where
  "reserve_recovery key f =
     f\<lparr>feed_reserved :=
         (if max_queue_metadata \<le> length (feed_reserved f) then drop 1 (feed_reserved f) else feed_reserved f) @ [key]\<rparr>"

definition enqueue_diagnostic :: "feed_limits \<Rightarrow> ui_event \<Rightarrow> feed \<Rightarrow> feed" where
  "enqueue_diagnostic l e f =
     (if \<not> is_reserved_recovery_diagnostic e then enqueue l e (keep_history l e f)
      else
        case feed_identity f of
          None \<Rightarrow> f
        | Some i \<Rightarrow>
            if identity_key i \<in> set (feed_reserved f) then f
            else enqueue l e (keep_history l e (reserve_recovery (identity_key i) f)))"

text \<open>\<open>#enqueueCoalesced\<close>: a delta joins a last event of the same item, stream and turn.\<close>

datatype delta_stream =
    Agent_Stream | Plan_Stream | Command_Stream | File_Stream | Summary_Stream nat | Reasoning_Stream nat

fun delta_of :: "ui_event \<Rightarrow> (delta_stream \<times> jsstr \<times> jsstr) option" where
  "delta_of (Agent_Delta i d) = Some (Agent_Stream, i, d)"
| "delta_of (Plan_Delta i d) = Some (Plan_Stream, i, d)"
| "delta_of (Command_Output i d) = Some (Command_Stream, i, d)"
| "delta_of (File_Output i d) = Some (File_Stream, i, d)"
| "delta_of (Summary_Delta i n d) = Some (Summary_Stream n, i, d)"
| "delta_of (Reasoning_Delta i n d) = Some (Reasoning_Stream n, i, d)"
| "delta_of _ = None"

fun delta_event :: "delta_stream \<Rightarrow> jsstr \<Rightarrow> jsstr \<Rightarrow> ui_event" where
  "delta_event Agent_Stream i d = Agent_Delta i d"
| "delta_event Plan_Stream i d = Plan_Delta i d"
| "delta_event Command_Stream i d = Command_Output i d"
| "delta_event File_Stream i d = File_Output i d"
| "delta_event (Summary_Stream n) i d = Summary_Delta i n d"
| "delta_event (Reasoning_Stream n) i d = Reasoning_Delta i n d"

definition joined :: "ui_event \<Rightarrow> ui_event \<Rightarrow> (jsstr \<times> (jsstr \<Rightarrow> ui_event)) option" where
  "joined previous e =
     (case (delta_of previous, delta_of e) of
        (Some (s, i, d), Some (t, j, d')) \<Rightarrow> if s = t \<and> i = j then Some (d @ d', delta_event s i) else None
      | _ \<Rightarrow> None)"

definition join_last ::
    "feed_limits \<Rightarrow> turn_identity \<Rightarrow> ui_event \<Rightarrow> queued_event list \<times> loss_map \<Rightarrow> (queued_event list \<times> loss_map) option" where
  "join_last l i e s =
     (if fst s = [] \<or> queued_identity (last (fst s)) \<noteq> i then None
      else
        case joined (queued_ui (last (fst s))) e of
          None \<Rightarrow> None
        | Some (combined, event) \<Rightarrow>
            let merged = truncate_utf8 combined (lim_item l);
                q = butlast (fst s) @ [queued_entry i (event merged)]
            in if lim_queued l < queued_bytes l (snd s) q then None
               else Some (if merged = combined then (q, snd s) else record_truncation l i (q, snd s)))"

definition enqueue_coalesced :: "feed_limits \<Rightarrow> ui_event \<Rightarrow> feed \<Rightarrow> feed" where
  "enqueue_coalesced l e f =
     (case Option.bind (feed_identity f) (\<lambda>i. join_last l i e (feed_queue f, feed_losses f)) of
        Some s \<Rightarrow> schedule_flush (put_queue s f)
      | None \<Rightarrow> enqueue l e f)"

section \<open>Leaving the queue\<close>

text \<open>\<open>findLastIndex\<close> with the splice that follows it: the last ordinary event and the others.\<close>

definition drop_last_ordinary :: "ui_event list \<Rightarrow> (ui_event \<times> ui_event list) option" where
  "drop_last_ordinary es = map_option (\<lambda>(e, r). (e, rev r)) (take_first (\<lambda>e. \<not> is_protected e) (rev es))"

lemma drop_last_ordinary_length: "drop_last_ordinary es = Some (e, r) \<Longrightarrow> length es = Suc (length r)"
  by (auto simp: drop_last_ordinary_def dest: take_first_length)

text \<open>Events give way to the warnings of their identity while the batch would hold too many.\<close>

function yield_to_warnings :: "feed_limits \<Rightarrow> ui_event list \<Rightarrow> losses \<Rightarrow> ui_event list \<times> losses" where
  "yield_to_warnings l es m =
     (if length es + length (budget_events m) \<le> lim_batch l then (es, m)
      else
        case drop_last_ordinary es of
          None \<Rightarrow> (es, m)
        | Some (removed, es') \<Rightarrow> yield_to_warnings l es' (count_loss (lim_queued l) (event_bytes removed) m))"
  by pat_completeness auto
termination by (relation "measure (\<lambda>(l, es, m). length es)") (auto dest: drop_last_ordinary_length)

declare yield_to_warnings.simps [simp del]

definition room_for_warning :: "feed_limits \<Rightarrow> turn_identity \<Rightarrow> ui_event list \<Rightarrow> ui_event \<Rightarrow> bool" where
  "room_for_warning l i es w \<longleftrightarrow> batch_bytes (batch_of i (es @ [w])) \<le> lim_queued l"

definition warn_dropped :: "feed_limits \<Rightarrow> turn_identity \<Rightarrow> ui_event list \<times> losses \<Rightarrow> ui_event list \<times> losses" where
  "warn_dropped l i s =
     (let m = snd s; w = dropped_warning (lost_events m) (lost_bytes m) in
      if 0 < lost_events m \<and> length (fst s) < lim_batch l then
        (if room_for_warning l i (fst s) w then (fst s @ [w], m\<lparr>lost_events := 0, lost_bytes := 0\<rparr>)
         else if fst s = [] then (fst s, m\<lparr>lost_events := 0, lost_bytes := 0\<rparr>)
         else s)
      else s)"

definition warn_truncated :: "feed_limits \<Rightarrow> turn_identity \<Rightarrow> ui_event list \<times> losses \<Rightarrow> ui_event list \<times> losses" where
  "warn_truncated l i s =
     (let m = snd s in
      if lost_truncated m \<and> length (fst s) < lim_batch l then
        (if room_for_warning l i (fst s) truncated_warning
         then (fst s @ [truncated_warning], m\<lparr>lost_truncated := False\<rparr>)
         else if fst s = [] then (fst s, m\<lparr>lost_truncated := False\<rparr>)
         else s)
      else s)"

text \<open>The batch is cut to the byte budget at the end; what is cut is recorded for the next one.\<close>

function cut_batch ::
    "feed_limits \<Rightarrow> turn_identity \<Rightarrow> ui_event list \<Rightarrow> queued_event list \<times> loss_map
     \<Rightarrow> ui_event list \<times> queued_event list \<times> loss_map" where
  "cut_batch l i es s =
     (if es = [] \<or> batch_bytes (batch_of i es) \<le> lim_queued l then (es, s)
      else
        case drop_last_ordinary es of
          None \<Rightarrow> (es, s)
        | Some (removed, es') \<Rightarrow> cut_batch l i es' (record_drop l i (event_bytes removed) s))"
  by pat_completeness auto
termination by (relation "measure (\<lambda>(l, i, es, s). length es)") (auto dest: drop_last_ordinary_length)

declare cut_batch.simps [simp del]

text \<open>The run of the first identity, up to the batch limit, and the rest.\<close>

fun take_run :: "nat \<Rightarrow> turn_identity \<Rightarrow> queued_event list \<Rightarrow> ui_event list \<times> queued_event list" where
  "take_run n i [] = ([], [])"
| "take_run n i (e # es) =
     (if n = 0 \<or> queued_identity e \<noteq> i then ([], e # es)
      else let r = take_run (n - 1) i es in (queued_ui e # fst r, snd r))"

definition with_warnings ::
    "feed_limits \<Rightarrow> turn_identity \<Rightarrow> ui_event list \<Rightarrow> loss_map \<Rightarrow> ui_event list \<times> loss_map" where
  "with_warnings l i es ls =
     (case map_get ls (identity_key i) of
        None \<Rightarrow> (es, ls)
      | Some m \<Rightarrow>
          let r = warn_truncated l i (warn_dropped l i (yield_to_warnings l es m)) in
          (fst r, if lost_events (snd r) = 0 \<and> \<not> lost_truncated (snd r) then map_delete ls (identity_key i)
                  else map_set ls (identity_key i) (snd r)))"

definition flush_queue ::
    "feed_limits \<Rightarrow> queued_event list \<times> loss_map
     \<Rightarrow> (turn_identity \<times> ui_event list) option \<times> queued_event list \<times> loss_map" where
  "flush_queue l s =
     (case fst s of
        [] \<Rightarrow> (None, [], [])
      | e # _ \<Rightarrow>
          let i = queued_identity e;
              run = take_run (lim_batch l) i (fst s);
              w = with_warnings l i (fst run) (snd s);
              c = cut_batch l i (fst w) (snd run, snd w)
          in if fst c = [] then (None, fst (snd c), map_delete (snd (snd c)) (identity_key i))
             else (Some (i, fst c), snd c))"

text \<open>\<open>#flush\<close> up to the delivery of its batch, and what follows the delivery.\<close>

definition reschedule_flush :: "feed \<Rightarrow> feed" where
  "reschedule_flush f = (if feed_queue f = [] then f else schedule_flush f)"

definition flush_start :: "feed_limits \<Rightarrow> feed \<Rightarrow> (turn_identity \<times> ui_event list) option \<times> feed" where
  "flush_start l f =
     (let r = flush_queue l (feed_queue f, feed_losses f);
          f1 = put_queue (snd r) (f\<lparr>flush_pending := False\<rparr>)
      in (fst r, if fst r = None then reschedule_flush f1 else f1))"

definition flush_end :: "turn_identity \<Rightarrow> feed \<Rightarrow> feed" where
  "flush_end i f =
     reschedule_flush
       (if queued_for i (feed_queue f) then f
        else f\<lparr>feed_losses := map_delete (feed_losses f) (identity_key i)\<rparr>)"

end
