(* ===== verification/TurnDelivery.thy ===== *)
theory TurnDelivery
  imports TurnFeed
begin

text \<open>
  The delivery of batches to one client of the turn coordinator (\<open>src/node/ride-codex-turn-coordinator.ts\<close>,
  \<open>mergeBatches\<close>, \<open>#queueClientDelivery\<close>, \<open>#withClientDropWarning\<close>,
  \<open>serializeValidatedRideCodexEventBatch\<close>): while a delivery is in flight, batches wait in a short list
  that sheds ordinary events first and whole turns next. The record \<open>turn_client\<close> is
  \<open>ClientRecord\<close>; a client is connected while it is in the table of clients.
\<close>

section \<open>State\<close>

record turn_client =
  tc_in_flight :: bool
  tc_in_flight_identity :: "turn_identity option"
  tc_version :: nat
  tc_pending :: "event_batch list"
  tc_pending_bytes :: int
  tc_dropped_events :: int
  tc_dropped_bytes :: int

definition new_turn_client :: turn_client where
  "new_turn_client =
     \<lparr>tc_in_flight = False, tc_in_flight_identity = None, tc_version = 0, tc_pending = [],
      tc_pending_bytes = 0, tc_dropped_events = 0, tc_dropped_bytes = 0\<rparr>"

definition max_client_pending :: nat where "max_client_pending = 4"

definition identity_of :: "event_batch \<Rightarrow> turn_identity" where
  "identity_of b =
     \<lparr>of_generation = batch_generation b, of_sequence = batch_sequence b, of_thread = batch_thread b,
      of_turn = batch_turn b\<rparr>"

definition has_recovery :: "event_batch \<Rightarrow> bool" where
  "has_recovery b \<longleftrightarrow> list_ex is_reserved_recovery_diagnostic (batch_events b)"

section \<open>The text on the wire\<close>

text \<open>The batches are frozen when they are made, and they are no proxies.\<close>

definition serialize_validated_batch :: "event_batch \<Rightarrow> int \<Rightarrow> jsstr option" where
  "serialize_validated_batch b max_bytes =
     (if validate_raw (\<lambda>_. False) 0 (value_of_json (batch_json b)) (0, 0) = None then None
      else serialize_event_batch b max_bytes)"

section \<open>Merging\<close>

definition delivery_message :: string where
  "delivery_message = ''Some Codex frontend deliveries were dropped to preserve responsiveness.''"

definition merged_warning :: "int \<Rightarrow> ui_event" where
  "merged_warning n =
     Warning_Event \<lparr>warning_code = Events_Dropped, warning_message = js delivery_message,
                    dropped_events = Some n, dropped_bytes = None\<rparr>"

text \<open>What an \<open>events-dropped\<close> warning reports; other events report nothing.\<close>

definition reported_drops :: "ui_event \<Rightarrow> int" where
  "reported_drops e =
     (case e of
        Warning_Event w \<Rightarrow>
          if warning_code w = Events_Dropped then (case dropped_events w of None \<Rightarrow> 1 | Some n \<Rightarrow> n) else 0
      | _ \<Rightarrow> 0)"

text \<open>Events are compared by reference, so that the candidates carry their position.\<close>

type_synonym candidate = "nat \<times> ui_event"

definition fits_merged :: "nat \<Rightarrow> int \<Rightarrow> turn_identity \<Rightarrow> candidate list \<Rightarrow> ui_event \<Rightarrow> bool" where
  "fits_merged max_events max_bytes i cs e \<longleftrightarrow>
     length cs < max_events \<and> batch_bytes (batch_of i (map snd cs @ [e])) \<le> max_bytes"

definition merge_candidate ::
    "nat \<Rightarrow> int \<Rightarrow> turn_identity \<Rightarrow> candidate list \<times> int \<Rightarrow> candidate \<Rightarrow> candidate list \<times> int" where
  "merge_candidate max_events max_bytes i acc c =
     (if fits_merged max_events max_bytes i (fst acc) (snd c) then (fst acc @ [c], snd acc)
      else (fst acc, snd acc + 1))"

definition drop_last_candidate :: "candidate list \<Rightarrow> candidate list option" where
  "drop_last_candidate cs =
     map_option (\<lambda>(_, r). rev r) (take_first (\<lambda>c. \<not> is_protected (snd c)) (rev cs))"

lemma drop_last_candidate_length: "drop_last_candidate cs = Some r \<Longrightarrow> length cs = Suc (length r)"
  by (auto simp: drop_last_candidate_def dest: take_first_length)

text \<open>Ordinary events give way, the last first, until an event fits that may depend on how many went.\<close>

function give_way ::
    "nat \<Rightarrow> int \<Rightarrow> turn_identity \<Rightarrow> (int \<Rightarrow> ui_event) \<Rightarrow> candidate list \<times> int \<Rightarrow> candidate list \<times> int" where
  "give_way max_events max_bytes i e (cs, dropped) =
     (if fits_merged max_events max_bytes i cs (e dropped) then (cs, dropped)
      else
        case drop_last_candidate cs of
          None \<Rightarrow> (cs, dropped)
        | Some cs' \<Rightarrow> give_way max_events max_bytes i e (cs', dropped + 1))"
  by pat_completeness auto
termination by (relation "measure (\<lambda>(_, _, _, _, cs, _). length cs)") (auto dest: drop_last_candidate_length)

declare give_way.simps [simp del]

definition merge_priority ::
    "nat \<Rightarrow> int \<Rightarrow> turn_identity \<Rightarrow> candidate list \<times> int \<Rightarrow> candidate \<Rightarrow> candidate list \<times> int" where
  "merge_priority max_events max_bytes i acc c =
     (if fst c \<in> fst ` set (fst acc) then acc
      else
        let r = give_way max_events max_bytes i (\<lambda>_. snd c) acc in
        if fits_merged max_events max_bytes i (fst r) (snd c) then (fst r @ [c], max 0 (snd r - 1)) else r)"

definition merge_warning :: "nat \<Rightarrow> int \<Rightarrow> turn_identity \<Rightarrow> candidate list \<times> int \<Rightarrow> ui_event list" where
  "merge_warning max_events max_bytes i acc =
     (if 0 < snd acc then
        (let r = give_way max_events max_bytes i merged_warning acc in
         if fits_merged max_events max_bytes i (fst r) (merged_warning (snd r))
         then before_terminal [merged_warning (snd r)] (map snd (fst r)) else map snd (fst r))
      else map snd (fst acc))"

text \<open>\<open>mergeBatches\<close>, for two batches of one identity.\<close>

definition merge_batches :: "event_batch \<Rightarrow> event_batch \<Rightarrow> nat \<Rightarrow> int \<Rightarrow> event_batch" where
  "merge_batches current incoming max_events max_bytes =
     (let combined = batch_events current @ batch_events incoming;
          i = identity_of incoming;
          kept = filter (\<lambda>e. \<not> is_drop_warning e) combined;
          candidates = zip [0..<length kept] kept;
          acc = foldl (merge_candidate max_events max_bytes i) ([], sum_list (map reported_drops combined)) candidates;
          acc' = foldl (merge_priority max_events max_bytes i) acc (filter (\<lambda>c. is_protected (snd c)) candidates)
      in if identity_of current \<noteq> i then incoming else batch_of i (merge_warning max_events max_bytes i acc'))"

section \<open>The list of a client\<close>

definition client_loss :: "feed_limits \<Rightarrow> int \<Rightarrow> int \<Rightarrow> turn_client \<Rightarrow> turn_client" where
  "client_loss l events bytes c =
     c\<lparr>tc_dropped_events := saturating_add (tc_dropped_events c) events,
       tc_dropped_bytes := saturating_add (tc_dropped_bytes c) (min bytes (lim_queued l))\<rparr>"

definition loss_weight :: "ui_event \<Rightarrow> int" where
  "loss_weight e = (if is_drop_warning e then reported_drops e else 1)"

text \<open>The first batch with an ordinary event, the event, and what is left of the batch.\<close>

fun first_ordinary :: "event_batch list \<Rightarrow> (event_batch list \<times> event_batch \<times> ui_event \<times> ui_event list \<times> event_batch list) option" where
  "first_ordinary [] = None"
| "first_ordinary (b # bs) =
     (case take_first (\<lambda>e. \<not> is_protected e) (batch_events b) of
        Some (e, es) \<Rightarrow> Some ([], b, e, es, bs)
      | None \<Rightarrow> map_option (\<lambda>(before, x). (b # before, x)) (first_ordinary bs))"

definition shed_event :: "feed_limits \<Rightarrow> turn_client \<Rightarrow> turn_client option" where
  "shed_event l c =
     (case first_ordinary (tc_pending c) of
        None \<Rightarrow> None
      | Some (before, b, e, es, rest) \<Rightarrow>
          let b' = b\<lparr>batch_events := es\<rparr> in
          Some (client_loss l (loss_weight e) (event_bytes e)
            (if es = [] then c\<lparr>tc_pending := before @ rest, tc_pending_bytes := tc_pending_bytes c - batch_bytes b\<rparr>
             else c\<lparr>tc_pending := before @ b' # rest,
                    tc_pending_bytes := tc_pending_bytes c - (batch_bytes b - batch_bytes b')\<rparr>)))"

text \<open>The batches of one identity go from the last to the first.\<close>

definition shed_batch :: "feed_limits \<Rightarrow> event_batch \<Rightarrow> turn_client \<Rightarrow> turn_client" where
  "shed_batch l b c =
     client_loss l (sum_list (map loss_weight (batch_events b))) (batch_bytes b)
       (c\<lparr>tc_pending_bytes := tc_pending_bytes c - batch_bytes b\<rparr>)"

definition shed_turn :: "feed_limits \<Rightarrow> event_batch \<Rightarrow> turn_client \<Rightarrow> turn_client option" where
  "shed_turn l batch c =
     (case List.find (\<lambda>b. Some (identity_of b) \<noteq> tc_in_flight_identity c \<and> identity_of b \<noteq> identity_of batch)
         (tc_pending c) of
        None \<Rightarrow> None
      | Some old \<Rightarrow>
          let gone = filter (\<lambda>b. identity_of b = identity_of old) (tc_pending c);
              c1 = foldr (shed_batch l) gone c
          in Some (c1\<lparr>tc_pending := filter (\<lambda>b. identity_of b \<noteq> identity_of old) (tc_pending c)\<rparr>))"

definition client_over :: "feed_limits \<Rightarrow> turn_client \<Rightarrow> bool" where
  "client_over l c \<longleftrightarrow> max_client_pending < length (tc_pending c) \<or> lim_queued l < tc_pending_bytes c"

definition pending_weight :: "turn_client \<Rightarrow> nat" where
  "pending_weight c = sum_list (map (\<lambda>b. Suc (length (batch_events b))) (tc_pending c))"

lemma first_ordinary_split:
  "first_ordinary bs = Some (before, b, e, es, rest) \<Longrightarrow>
     bs = before @ b # rest \<and> take_first (\<lambda>e. \<not> is_protected e) (batch_events b) = Some (e, es)"
  by (induction bs arbitrary: before) (auto split: option.splits)

lemma shed_event_less: "shed_event l c = Some c' \<Longrightarrow> pending_weight c' < pending_weight c"
  by (auto simp: shed_event_def client_loss_def pending_weight_def Let_def split: option.splits if_splits
      dest!: first_ordinary_split take_first_length)

lemma sum_list_filter_less:
  "x \<in> set xs \<Longrightarrow> \<not> P x \<Longrightarrow> sum_list (map (\<lambda>b. Suc (f b)) (filter P xs)) < sum_list (map (\<lambda>b. Suc (f b)) xs)"
proof (induction xs)
  case (Cons y ys)
  have le: "sum_list (map (\<lambda>b. Suc (f b)) (filter P zs)) \<le> sum_list (map (\<lambda>b. Suc (f b)) zs)" for zs
    by (induction zs) auto
  show ?case
  proof (cases "x = y")
    case True
    with Cons.prems le [of ys] show ?thesis by simp
  next
    case False
    with Cons show ?thesis by auto
  qed
qed simp

lemma shed_turn_less: "shed_turn l b c = Some c' \<Longrightarrow> pending_weight c' < pending_weight c"
proof -
  assume "shed_turn l b c = Some c'"
  then obtain old where old: "List.find (\<lambda>b'. Some (identity_of b') \<noteq> tc_in_flight_identity c
        \<and> identity_of b' \<noteq> identity_of b) (tc_pending c) = Some old"
    and c': "tc_pending c' = filter (\<lambda>b. identity_of b \<noteq> identity_of old) (tc_pending c)"
    by (auto simp: shed_turn_def Let_def split: option.splits)
  from old have "old \<in> set (tc_pending c)" by (auto simp: find_Some_iff)
  then show ?thesis unfolding pending_weight_def c' by (rule sum_list_filter_less) simp
qed

function shed_client :: "feed_limits \<Rightarrow> event_batch \<Rightarrow> turn_client \<Rightarrow> turn_client" where
  "shed_client l batch c =
     (if \<not> client_over l c then c
      else
        case shed_event l c of
          Some c' \<Rightarrow> shed_client l batch c'
        | None \<Rightarrow> (case shed_turn l batch c of None \<Rightarrow> c | Some c' \<Rightarrow> shed_client l batch c'))"
  by pat_completeness auto
termination
  by (relation "measure (\<lambda>(l, b, c). pending_weight c)") (auto dest: shed_event_less shed_turn_less)

declare shed_client.simps [simp del]

text \<open>\<open>#queueClientDelivery\<close>\<close>

definition append_pending :: "feed_limits \<Rightarrow> event_batch \<Rightarrow> turn_client \<Rightarrow> turn_client" where
  "append_pending l batch c =
     (if tc_pending c \<noteq> [] \<and> identity_of (last (tc_pending c)) = identity_of batch \<and> \<not> has_recovery batch
      then
        let previous = last (tc_pending c); merged = merge_batches previous batch (lim_batch l) (lim_queued l)
        in c\<lparr>tc_pending := butlast (tc_pending c) @ [merged],
             tc_pending_bytes := tc_pending_bytes c - batch_bytes previous + batch_bytes merged\<rparr>
      else c\<lparr>tc_pending := tc_pending c @ [batch], tc_pending_bytes := tc_pending_bytes c + batch_bytes batch\<rparr>)"

definition queue_delivery :: "feed_limits \<Rightarrow> event_batch \<Rightarrow> turn_client \<Rightarrow> turn_client" where
  "queue_delivery l batch c =
     (if has_recovery batch \<and> list_ex (\<lambda>b. identity_of b = identity_of batch \<and> has_recovery b) (tc_pending c) then c
      else shed_client l batch (append_pending l batch c))"

section \<open>Taking a batch out again\<close>

definition client_warning :: "turn_client \<Rightarrow> ui_event" where
  "client_warning c =
     Warning_Event \<lparr>warning_code = Events_Dropped, warning_message = js delivery_message,
                    dropped_events = Some (tc_dropped_events c), dropped_bytes = Some (tc_dropped_bytes c)\<rparr>"

definition fits_warned :: "feed_limits \<Rightarrow> turn_identity \<Rightarrow> ui_event list \<Rightarrow> turn_client \<Rightarrow> bool" where
  "fits_warned l i es c \<longleftrightarrow>
     length es < lim_batch l \<and> batch_bytes (batch_of i (es @ [client_warning c])) \<le> lim_queued l"

function make_way :: "feed_limits \<Rightarrow> turn_identity \<Rightarrow> ui_event list \<Rightarrow> turn_client \<Rightarrow> ui_event list option \<times> turn_client" where
  "make_way l i es c =
     (if fits_warned l i es c then (Some es, c)
      else
        case drop_last_ordinary es of
          None \<Rightarrow> (None, c)
        | Some (removed, es') \<Rightarrow> make_way l i es' (client_loss l 1 (event_bytes removed) c))"
  by pat_completeness auto
termination by (relation "measure (\<lambda>(l, i, es, c). length es)") (auto dest: drop_last_ordinary_length)

declare make_way.simps [simp del]

text \<open>\<open>#withClientDropWarning\<close>: where no ordinary event is left to give way, the batch goes out whole.\<close>

definition with_client_warning :: "feed_limits \<Rightarrow> event_batch \<Rightarrow> turn_client \<Rightarrow> event_batch \<times> turn_client" where
  "with_client_warning l b c =
     (if tc_dropped_events c = 0 then (b, c)
      else
        let r = make_way l (identity_of b) (batch_events b) c in
        case fst r of
          None \<Rightarrow> (b, snd r)
        | Some es \<Rightarrow>
            (b\<lparr>batch_events := before_terminal [client_warning (snd r)] es\<rparr>,
             (snd r)\<lparr>tc_dropped_events := 0, tc_dropped_bytes := 0\<rparr>))"

definition take_pending :: "feed_limits \<Rightarrow> turn_client \<Rightarrow> (event_batch \<times> turn_client) option" where
  "take_pending l c =
     (case tc_pending c of
        [] \<Rightarrow> None
      | b # bs \<Rightarrow>
          Some (with_client_warning l b
            (c\<lparr>tc_pending := bs, tc_pending_bytes := tc_pending_bytes c - batch_bytes b\<rparr>)))"

end
