(* ===== verification/TurnCoordinator.thy ===== *)
theory TurnCoordinator
  imports TurnDelivery
begin

text \<open>
  The state of the turn coordinator and the operations its calls share
  (\<open>src/node/ride-codex-turn-coordinator.ts\<close>): the active turn from its establishment to its end,
  leases, deliveries, and what notifications and states of the host do to the turn. The host, the
  timers and the clients are the record \<open>turn_env\<close>; an answer may depend on the number of questions
  asked before.
\<close>

section \<open>State\<close>

text \<open>\<open>RideCodexTurnErrorCode\<close>\<close>

datatype turn_error =
    Bad_Turn_Data | Turn_Failed | Turn_Superseded | Turn_Busy | Turn_Missing | Turn_Client_Gone | Turns_Disposed

text \<open>A result has no terminal status while the turn is in progress.\<close>

record turn_result =
  result_thread :: jsstr
  result_turn :: jsstr
  result_status :: "terminal_status option"

text \<open>\<open>ActiveTurn\<close>, kept under its sequence number. \<open>turn_invalid\<close> is the rejection of \<open>invalidated\<close>.\<close>

record active_turn =
  turn_owner :: nat
  turn_thread_id :: jsstr
  turn_lease :: "nat option"
  turn_generation :: "int option"
  turn_name :: "jsstr option"
  turn_outcome :: "turn_result option"
  turn_released :: bool
  turn_ended :: bool
  turn_control :: bool
  turn_invalid :: "turn_error option"

record retained_item =
  retained_kind :: item_kind
  retained_done :: bool

record recovery_barrier =
  barrier_thread :: jsstr
  barrier_generation :: int
  barrier_key :: nat

record quarantine =
  quarantine_generation :: int
  quarantine_lifecycle :: nat
  quarantine_key :: nat

datatype recovery_ref = Recovery_Of nat | Recovery_Refused

text \<open>The acknowledgement of an interrupt: awaited, arrived, or taken.\<close>

datatype interrupt_ack = Awaits_Ack | Has_Ack "jsvalue option" | Took_Ack

text \<open>What a suspended call or recovery waits for, or continues with. Refusals by something outside the
  coordinator carry no code.\<close>

datatype turn_task =
    Start_Acquiring start_request int
  | Start_Acquired start_request int nat
  | Start_Refused int "turn_error option"
  | Start_Waiting start_request int
  | Start_Answered start_request int "jsvalue option"
  | Steer_Waiting steer_request int
  | Steer_Answered steer_request int "jsvalue option"
  | Interrupt_Racing interrupt_request int int interrupt_ack "recovery_ref option"
  | Interrupt_Recovering interrupt_request int recovery_ref
  | Recover_Start jsstr int
  | Recover_Restarting jsstr nat int nat
  | Recover_Restarted jsstr nat int "int option"
  | Recover_Acquiring jsstr int nat int
  | Recover_Acquired jsstr int nat int int
  | Recover_Refused "turn_error option"
  | Recover_Resuming jsstr int
  | Recover_Answered jsstr int "jsvalue option"

datatype lease_kind = Active_Turn_Lease | Panel_Lease

datatype turn_effect =
    Turn_Lease_Asked nat lease_kind
  | Turn_Lease_Released nat
  | Turn_Requested nat string json "int option"
  | Restart_Asked nat int
  | Turn_Timer_Set nat int
  | Turn_Timer_Cleared nat
  | Wire_Sent nat jsstr
  | Turn_Call_Settled nat "turn_error + turn_result"

record coordinator =
  co_feed :: feed
  co_clients :: "(nat, turn_client) jsmap"
  co_items :: "(jsstr, retained_item) jsmap"
  co_turns :: "(int, active_turn) jsmap"
  co_active :: "int option"
  co_recovery :: "recovery_barrier option"
  co_quarantine :: "quarantine option"
  co_generation :: int
  co_sequence :: int
  co_lifecycle :: nat
  co_disposed :: bool
  co_next_client :: nat
  co_next_key :: nat
  co_tasks :: "(nat, turn_task) jsmap"
  co_acquiring :: "(nat, int option) jsmap"
  co_timers :: "nat list"
  co_stopped :: "(nat, turn_error option) jsmap"
  co_recovered :: "(nat, turn_error option) jsmap"
  co_released :: "nat list"
  co_questions :: nat
  co_history :: "turn_effect list"

definition new_coordinator :: "int \<Rightarrow> coordinator" where
  "new_coordinator g =
     \<lparr>co_feed = empty_feed, co_clients = [], co_items = [], co_turns = [], co_active = None, co_recovery = None,
      co_quarantine = None, co_generation = g, co_sequence = 0, co_lifecycle = 0, co_disposed = False,
      co_next_client = 1, co_next_key = 0, co_tasks = [], co_acquiring = [], co_timers = [], co_stopped = [],
      co_recovered = [], co_released = [], co_questions = 0, co_history = []\<rparr>"

section \<open>The environment\<close>

text \<open>What a client's \<open>turnEvents\<close> does: it throws or returns something unusable, returns at once, or
  returns a promise.\<close>

datatype delivery_answer = Delivery_Fails | Delivery_Taken | Delivery_Waits

text \<open>\<open>tenv_request\<close> is the code of a request that fails at once. \<open>tenv_now\<close> is the clock in
  milliseconds, zero when it cannot be read.\<close>

record turn_env =
  tenv_px :: "jsvalue \<Rightarrow> bool"
  tenv_limits :: feed_limits
  tenv_interrupt_timeout :: int
  tenv_recovery_timeout :: int
  tenv_acquire :: "nat \<Rightarrow> bool"
  tenv_request :: "nat \<Rightarrow> turn_error option option"
  tenv_restart :: "nat \<Rightarrow> bool"
  tenv_snapshot :: "nat \<Rightarrow> (bool \<times> int) option"
  tenv_set_timer :: "nat \<Rightarrow> bool"
  tenv_now :: "nat \<Rightarrow> int"
  tenv_deliver :: "nat \<Rightarrow> delivery_answer"

text \<open>The options of the constructor: some limits fall back to their default, two are refused.\<close>

definition positive_limit :: "jsvalue \<Rightarrow> int \<Rightarrow> int" where
  "positive_limit v fallback = (case json_int64 v of Some i \<Rightarrow> if 0 < i then i else fallback | None \<Rightarrow> fallback)"

definition require_batch_limit :: "jsvalue \<Rightarrow> int \<Rightarrow> int option" where
  "require_batch_limit v fallback =
     (if v = JsUndefined then Some fallback
      else case json_int64 v of Some i \<Rightarrow> if i < 2 then None else Some i | None \<Rightarrow> None)"

definition require_queue_limit :: "jsvalue \<Rightarrow> int \<Rightarrow> int option" where
  "require_queue_limit v fallback =
     (if v = JsUndefined then Some fallback
      else case json_int64 v of Some i \<Rightarrow> if i < min_queued_bytes then None else Some i | None \<Rightarrow> None)"

definition feed_limits_of :: "jsvalue \<Rightarrow> jsvalue \<Rightarrow> jsvalue \<Rightarrow> jsvalue \<Rightarrow> jsvalue \<Rightarrow> feed_limits option" where
  "feed_limits_of queued batch item items history =
     (case (require_queue_limit queued (256 * 1024), require_batch_limit batch 256) of
        (Some q, Some n) \<Rightarrow>
          Some \<lparr>lim_queued = q, lim_batch = nat n, lim_item = positive_limit item (64 * 1024),
                lim_items = nat (positive_limit items 256), lim_history = nat (positive_limit history 64)\<rparr>
      | _ \<Rightarrow> None)"

section \<open>Small steps\<close>

definition asked_turn :: "coordinator \<Rightarrow> coordinator" where
  "asked_turn b = b\<lparr>co_questions := co_questions b + 1\<rparr>"

definition log_turn :: "turn_effect \<Rightarrow> coordinator \<Rightarrow> coordinator" where
  "log_turn e b = b\<lparr>co_history := co_history b @ [e]\<rparr>"

definition put_turn_task :: "nat \<Rightarrow> turn_task \<Rightarrow> coordinator \<Rightarrow> coordinator" where
  "put_turn_task k t b = b\<lparr>co_tasks := map_set (co_tasks b) k t\<rparr>"

definition drop_turn_task :: "nat \<Rightarrow> coordinator \<Rightarrow> coordinator" where
  "drop_turn_task k b = b\<lparr>co_tasks := map_delete (co_tasks b) k\<rparr>"

definition settle_call :: "nat \<Rightarrow> turn_error + turn_result \<Rightarrow> coordinator \<Rightarrow> coordinator" where
  "settle_call k r b = log_turn (Turn_Call_Settled k r) (drop_turn_task k b)"

definition on_feed :: "(feed \<Rightarrow> feed) \<Rightarrow> coordinator \<Rightarrow> coordinator" where
  "on_feed f b = b\<lparr>co_feed := f (co_feed b)\<rparr>"

definition emit :: "turn_env \<Rightarrow> ui_event \<Rightarrow> coordinator \<Rightarrow> coordinator" where
  "emit env e = on_feed (enqueue (tenv_limits env) e)"

definition emit_diagnostic :: "turn_env \<Rightarrow> ui_event \<Rightarrow> coordinator \<Rightarrow> coordinator" where
  "emit_diagnostic env e = on_feed (enqueue_diagnostic (tenv_limits env) e)"

definition the_turn :: "int \<Rightarrow> coordinator \<Rightarrow> active_turn" where
  "the_turn s b = the (map_get (co_turns b) s)"

definition put_turn :: "int \<Rightarrow> active_turn \<Rightarrow> coordinator \<Rightarrow> coordinator" where
  "put_turn s t b = b\<lparr>co_turns := map_set (co_turns b) s t\<rparr>"

text \<open>\<open>#releaseLease\<close>: a lease is released once.\<close>

definition release_turn_lease :: "nat \<Rightarrow> coordinator \<Rightarrow> coordinator" where
  "release_turn_lease k b =
     (if k \<in> set (co_released b) then b
      else log_turn (Turn_Lease_Released k) (b\<lparr>co_released := co_released b @ [k]\<rparr>))"

section \<open>The end of the active turn\<close>

definition safe_failure :: safe_error where
  "safe_failure = safe_server_error Operation_Failed"

definition turn_identity_of :: "int \<Rightarrow> active_turn \<Rightarrow> jsstr \<Rightarrow> coordinator \<Rightarrow> turn_identity" where
  "turn_identity_of s t name b =
     \<lparr>of_generation = (case turn_generation t of Some g \<Rightarrow> g | None \<Rightarrow> co_generation b), of_sequence = s,
      of_thread = turn_thread_id t, of_turn = name\<rparr>"

definition set_identity :: "turn_identity \<Rightarrow> coordinator \<Rightarrow> coordinator" where
  "set_identity i = on_feed (\<lambda>f. f\<lparr>feed_identity := Some i\<rparr>)"

definition release_active :: "int \<Rightarrow> coordinator \<Rightarrow> coordinator" where
  "release_active s b =
     (let t = the_turn s b in
      if turn_released t then b
      else
        let b1 = put_turn s (t\<lparr>turn_released := True\<rparr>) b
        in case turn_lease t of None \<Rightarrow> b1 | Some k \<Rightarrow> release_turn_lease k b1)"

text \<open>\<open>#finishActive\<close>\<close>

definition finish_active ::
    "turn_env \<Rightarrow> terminal_status \<Rightarrow> safe_error option \<Rightarrow> turn_error \<Rightarrow> bool \<Rightarrow> bool \<Rightarrow> coordinator \<Rightarrow> coordinator" where
  "finish_active env st e invalidation emits linearize b =
     (case co_active b of
        None \<Rightarrow> b
      | Some s \<Rightarrow>
          let t = the_turn s b in
          if turn_ended t then b
          else
            let t1 = t\<lparr>turn_ended := True,
                       turn_outcome := (if linearize
                         then map_option (\<lambda>n. \<lparr>result_thread = turn_thread_id t, result_turn = n, result_status = Some st\<rparr>)
                                (turn_name t)
                         else turn_outcome t)\<rparr>;
                b1 = put_turn s t1 b;
                b2 = (case turn_name t of
                        Some n \<Rightarrow> if emits then emit env (Turn_Terminal st e) (set_identity (turn_identity_of s t n b1) b1) else b1
                      | None \<Rightarrow> b1);
                t2 = the_turn s b2;
                b3 = put_turn s (t2\<lparr>turn_invalid := (case turn_invalid t2 of None \<Rightarrow> Some invalidation | x \<Rightarrow> x)\<rparr>) b2
            in (release_active s b3)\<lparr>co_active := None, co_items := []\<rparr>)"

section \<open>Clients\<close>

definition disconnect_turn_client :: "turn_env \<Rightarrow> nat \<Rightarrow> bool \<Rightarrow> coordinator \<Rightarrow> coordinator" where
  "disconnect_turn_client env c terminate b =
     (if \<not> map_has (co_clients b) c then b
      else
        let b1 = b\<lparr>co_clients := map_delete (co_clients b) c\<rparr>
        in case co_active b1 of
             Some s \<Rightarrow>
               if terminate \<and> turn_owner (the_turn s b1) = c
               then finish_active env Interrupted None Turn_Client_Gone True False b1 else b1
           | None \<Rightarrow> b1)"

definition put_client :: "nat \<Rightarrow> turn_client \<Rightarrow> coordinator \<Rightarrow> coordinator" where
  "put_client c r b = b\<lparr>co_clients := map_set (co_clients b) c r\<rparr>"

text \<open>One delivery to a client that has none in flight.\<close>

definition send_batch :: "turn_env \<Rightarrow> nat \<Rightarrow> event_batch \<Rightarrow> coordinator \<Rightarrow> coordinator" where
  "send_batch env c batch b =
     (case map_get (co_clients b) c of
        None \<Rightarrow> b
      | Some r \<Rightarrow>
          (case serialize_validated_batch batch (lim_queued (tenv_limits env)) of
             None \<Rightarrow> disconnect_turn_client env c True b
           | Some wire \<Rightarrow>
               let b1 = asked_turn (log_turn (Wire_Sent c wire)
                     (put_client c (r\<lparr>tc_in_flight_identity := Some (identity_of batch)\<rparr>) b))
               in case tenv_deliver env (co_questions b) of
                    Delivery_Fails \<Rightarrow> disconnect_turn_client env c True b1
                  | Delivery_Taken \<Rightarrow> put_client c (r\<lparr>tc_in_flight_identity := None\<rparr>) b1
                  | Delivery_Waits \<Rightarrow>
                      put_client c
                        (r\<lparr>tc_in_flight_identity := Some (identity_of batch), tc_in_flight := True,
                           tc_version := tc_version r + 1\<rparr>) b1))"

definition waiting_batches :: "nat \<Rightarrow> coordinator \<Rightarrow> nat" where
  "waiting_batches c b = (case map_get (co_clients b) c of None \<Rightarrow> 0 | Some r \<Rightarrow> length (tc_pending r))"

lemma feed_clients [simp]:
  "co_clients (on_feed f b) = co_clients b" "co_clients (log_turn e b) = co_clients b"
  "co_clients (asked_turn b) = co_clients b" "co_clients (put_turn s t b) = co_clients b"
  "co_clients (release_turn_lease k b) = co_clients b" "co_clients (release_active s b) = co_clients b"
  by (simp_all add: on_feed_def log_turn_def asked_turn_def put_turn_def release_turn_lease_def release_active_def
      Let_def split: option.split)

lemma finish_active_clients [simp]: "co_clients (finish_active env st e i em li b) = co_clients b"
  by (simp add: finish_active_def Let_def emit_def set_identity_def split: option.split)

lemma send_batch_waiting: "waiting_batches c (send_batch env c batch b) \<le> waiting_batches c b"
  by (auto simp: send_batch_def waiting_batches_def disconnect_turn_client_def put_client_def map_get_set map_get_delete
      Let_def split: option.split delivery_answer.split)

text \<open>\<open>#drainClient\<close> with the calls of \<open>#deliver\<close> it makes, each of which drains the client again.\<close>

function drain_client :: "turn_env \<Rightarrow> nat \<Rightarrow> coordinator \<Rightarrow> coordinator" where
  "drain_client env c b =
     (case map_get (co_clients b) c of
        None \<Rightarrow> b
      | Some r \<Rightarrow>
          if tc_in_flight r then b
          else
            case take_pending (tenv_limits env) r of
              None \<Rightarrow> b
            | Some (batch, r') \<Rightarrow> drain_client env c (send_batch env c batch (put_client c r' b)))"
  by pat_completeness auto

termination
proof (relation "measure (\<lambda>(env, c, b). waiting_batches c b)", simp)
  fix env :: turn_env and c and b :: coordinator and r x batch r'
  assume r: "map_get (co_clients b) c = Some r" and t: "take_pending (tenv_limits env) r = Some x" "(batch, r') = x"
  have keep: "tc_pending (snd (make_way l i es d)) = tc_pending d" for l i es d
    by (induction l i es d rule: make_way.induct)
      (subst make_way.simps, simp add: client_loss_def split: option.split)
  have "tc_pending (snd (with_client_warning l bb d)) = tc_pending d" for l bb d
    using keep [of l "identity_of bb" "batch_events bb" d]
    by (simp add: with_client_warning_def Let_def split: option.split)
  from this [of "tenv_limits env"] t have "length (tc_pending r') < length (tc_pending r)"
    by (auto simp: take_pending_def split: list.splits dest!: arg_cong [of _ _ snd])
  with r have "waiting_batches c (put_client c r' b) < waiting_batches c b"
    by (simp add: waiting_batches_def put_client_def map_get_set)
  then show "((env, c, send_batch env c batch (put_client c r' b)), env, c, b)
      \<in> measure (\<lambda>(env, c, b). waiting_batches c b)"
    using send_batch_waiting [of c env batch "put_client c r' b"] by simp
qed

declare drain_client.simps [simp del]

text \<open>\<open>#deliver\<close>\<close>

definition deliver_batch :: "turn_env \<Rightarrow> nat \<Rightarrow> event_batch \<Rightarrow> coordinator \<Rightarrow> coordinator" where
  "deliver_batch env c batch b =
     (case map_get (co_clients b) c of
        None \<Rightarrow> b
      | Some r \<Rightarrow>
          if tc_in_flight r then put_client c (queue_delivery (tenv_limits env) batch r) b
          else drain_client env c (send_batch env c batch b))"

definition finish_delivery :: "turn_env \<Rightarrow> nat \<Rightarrow> nat \<Rightarrow> coordinator \<Rightarrow> coordinator" where
  "finish_delivery env c version b =
     (case map_get (co_clients b) c of
        None \<Rightarrow> b
      | Some r \<Rightarrow>
          if tc_version r \<noteq> version then b
          else drain_client env c (put_client c (r\<lparr>tc_in_flight := False, tc_in_flight_identity := None\<rparr>) b))"

text \<open>\<open>#flush\<close>: the batch goes to every client that is connected when the flush begins.\<close>

definition flush_turn_events :: "turn_env \<Rightarrow> coordinator \<Rightarrow> coordinator" where
  "flush_turn_events env b =
     (if \<not> flush_pending (co_feed b) then b
      else
        let r = flush_start (tenv_limits env) (co_feed b); b1 = b\<lparr>co_feed := snd r\<rparr>
        in case fst r of
             None \<Rightarrow> b1
           | Some (i, es) \<Rightarrow>
               on_feed (flush_end i) (fold (\<lambda>c. deliver_batch env c (batch_of i es)) (map_keys (co_clients b1)) b1))"

section \<open>Notifications about the active turn\<close>

text \<open>\<open>#establishTurn\<close>, with the error it throws.\<close>

definition establish_turn :: "turn_env \<Rightarrow> int \<Rightarrow> jsstr \<Rightarrow> coordinator \<Rightarrow> turn_error option \<times> coordinator" where
  "establish_turn env s n b =
     (let t = the_turn s b in
      if co_active b \<noteq> Some s \<or> turn_ended t \<or> turn_generation t = None then (Some Turn_Superseded, b)
      else
        case turn_name t of
          Some m \<Rightarrow> if m = n then (None, b) else (Some Bad_Turn_Data, b)
        | None \<Rightarrow>
            let t1 = t\<lparr>turn_name := Some n\<rparr>; b1 = put_turn s t1 b
            in (None, emit env Turn_Started (set_identity (turn_identity_of s t1 n b1) b1)))"

definition finish_by_server :: "turn_env \<Rightarrow> server_turn \<Rightarrow> coordinator \<Rightarrow> coordinator" where
  "finish_by_server env t b =
     (case server_status t of
        None \<Rightarrow> b
      | Some st \<Rightarrow>
          finish_active env st
            (if st = Failed then Some (case server_error t of Some e \<Rightarrow> e | None \<Rightarrow> safe_server_error Turn_Error) else None)
            Turn_Superseded True True b)"

text \<open>The turn a notification \<open>turn/started\<close> or \<open>turn/completed\<close> is about, if it is on this thread.\<close>

definition announced_turn :: "turn_env \<Rightarrow> active_turn \<Rightarrow> jsvalue \<Rightarrow> server_turn option" where
  "announced_turn env t v =
     (case require_exact_options (tenv_px env) v [''threadId'', ''turn''] of
        None \<Rightarrow> None
      | Some ps \<Rightarrow>
          if schema_identifier (own_value ps ''threadId'') = Some (turn_thread_id t)
          then require_turn (tenv_px env) (own_value ps ''turn'') else None)"

definition on_turn_started :: "turn_env \<Rightarrow> int \<Rightarrow> jsvalue \<Rightarrow> coordinator \<Rightarrow> coordinator" where
  "on_turn_started env s v b =
     (case announced_turn env (the_turn s b) v of None \<Rightarrow> b | Some t \<Rightarrow> snd (establish_turn env s (server_turn_id t) b))"

definition on_turn_completed :: "turn_env \<Rightarrow> int \<Rightarrow> jsvalue \<Rightarrow> coordinator \<Rightarrow> coordinator" where
  "on_turn_completed env s v b =
     (case announced_turn env (the_turn s b) v of
        None \<Rightarrow> b
      | Some t \<Rightarrow> if turn_name (the_turn s b) = Some (server_turn_id t) then finish_by_server env t b else b)"

definition server_warning :: "jsstr \<Rightarrow> ui_event" where
  "server_warning m =
     Warning_Event \<lparr>warning_code = Server_Warning, warning_message = m, dropped_events = None, dropped_bytes = None\<rparr>"

definition on_warning :: "turn_env \<Rightarrow> int \<Rightarrow> jsvalue \<Rightarrow> coordinator \<Rightarrow> coordinator" where
  "on_warning env s v b =
     (case require_keys (tenv_px env) v [''threadId'', ''message''] [''message''] of
        None \<Rightarrow> b
      | Some ps \<Rightarrow>
          if \<not> if_own ps ''threadId'' nullable_identifier then b
          else if own_value ps ''threadId'' \<notin> {JsUndefined, JsNull, JsText (turn_thread_id (the_turn s b))} then b
          else
            case bounded_text (own_value ps ''message'') (lim_item (tenv_limits env)) of
              None \<Rightarrow> b
            | Some m \<Rightarrow> emit_diagnostic env (server_warning (sanitize_message m)) b)"

definition trim_items :: "nat \<Rightarrow> (jsstr, retained_item) jsmap \<Rightarrow> (jsstr, retained_item) jsmap" where
  "trim_items n m = drop (length m - n) m"

definition item_open :: "coordinator \<Rightarrow> jsstr \<Rightarrow> bool" where
  "item_open b i \<longleftrightarrow> (case map_get (co_items b) i of None \<Rightarrow> False | Some r \<Rightarrow> \<not> retained_done r)"

definition keep_item :: "turn_env \<Rightarrow> jsstr \<Rightarrow> retained_item \<Rightarrow> coordinator \<Rightarrow> coordinator" where
  "keep_item env i r b = b\<lparr>co_items := trim_items (lim_items (tenv_limits env)) (map_set (co_items b) i r)\<rparr>"

definition on_item :: "turn_env \<Rightarrow> bool \<Rightarrow> properties \<Rightarrow> coordinator \<Rightarrow> coordinator" where
  "on_item env completed ps b =
     (case raw_record (tenv_px env) (own_value ps ''item'') of
        None \<Rightarrow> b
      | Some is \<Rightarrow>
          (case schema_identifier (own_value is ''id'') of
             None \<Rightarrow> b
           | Some i \<Rightarrow>
               let k = normalize_item_kind (own_value is ''type'') in
               (case map_get (co_items b) i of
                  None \<Rightarrow>
                    emit env (if completed then Item_Completed i k else Item_Started i k)
                      (keep_item env i \<lparr>retained_kind = k, retained_done = completed\<rparr> b)
                | Some r \<Rightarrow>
                    if \<not> completed \<or> retained_done r then b
                    else emit env (Item_Completed i k)
                           (keep_item env i \<lparr>retained_kind = retained_kind r, retained_done = True\<rparr> b))))"

text \<open>\<open>#boundedStreamText\<close>, then the event on the text.\<close>

definition stream_text :: "turn_env \<Rightarrow> jsvalue \<Rightarrow> (jsstr \<Rightarrow> ui_event) \<Rightarrow> coordinator \<Rightarrow> coordinator" where
  "stream_text env v event b =
     (case bounded_text v max_input_text_bytes of
        None \<Rightarrow> b
      | Some raw \<Rightarrow>
          let l = tenv_limits env; bounded = truncate_utf8 raw (lim_item l);
              b1 = (if bounded = raw then b else emit_diagnostic env truncated_warning b)
          in on_feed (enqueue_coalesced l (event bounded)) b1)"

definition on_stream :: "turn_env \<Rightarrow> (jsstr \<Rightarrow> jsstr \<Rightarrow> ui_event) \<Rightarrow> jsstr \<Rightarrow> properties \<Rightarrow> coordinator \<Rightarrow> coordinator" where
  "on_stream env event i ps b = stream_text env (own_value ps ''delta'') (event i) b"

definition on_indexed_stream ::
    "turn_env \<Rightarrow> (jsstr \<Rightarrow> nat \<Rightarrow> jsstr \<Rightarrow> ui_event) \<Rightarrow> string \<Rightarrow> jsstr \<Rightarrow> properties \<Rightarrow> coordinator \<Rightarrow> coordinator" where
  "on_indexed_stream env event index i ps b =
     (case require_index (own_value ps index) of
        None \<Rightarrow> b
      | Some n \<Rightarrow> stream_text env (own_value ps ''delta'') (event i n) b)"

text \<open>The methods about an item do nothing unless the item is open.\<close>

definition open_item :: "properties \<Rightarrow> coordinator \<Rightarrow> (jsstr \<Rightarrow> coordinator) \<Rightarrow> coordinator" where
  "open_item ps b f =
     (case schema_identifier (own_value ps ''itemId'') of
        None \<Rightarrow> b
      | Some i \<Rightarrow> if item_open b i then f i else b)"

definition turn_plan_event :: "turn_env \<Rightarrow> properties \<Rightarrow> ui_event option" where
  "turn_plan_event env ps =
     (case (normalize_explanation ps (lim_item (tenv_limits env)),
            normalize_plan (tenv_px env) (own_value ps ''plan'') (lim_items (tenv_limits env))) of
        (Some e, Some steps) \<Rightarrow> Some (Turn_Plan e steps)
      | _ \<Rightarrow> None)"

definition error_event :: "turn_env \<Rightarrow> properties \<Rightarrow> ui_event option" where
  "error_event env ps =
     map_option (\<lambda>e. Error_Event
         \<lparr>report_code = safe_error_code e, report_message = safe_error_message e,
          retryable = (own_value ps ''willRetry'' = JsBool True)\<rparr>)
       (require_turn_error (tenv_px env) (own_value ps ''error''))"

definition emit_some :: "(ui_event \<Rightarrow> coordinator \<Rightarrow> coordinator) \<Rightarrow> ui_event option \<Rightarrow> coordinator \<Rightarrow> coordinator" where
  "emit_some f e b = (case e of None \<Rightarrow> b | Some e \<Rightarrow> f e b)"

fun active_update :: "turn_env \<Rightarrow> turn_method \<Rightarrow> properties \<Rightarrow> coordinator \<Rightarrow> coordinator" where
  "active_update env On_Item_Started ps b = on_item env False ps b"
| "active_update env On_Item_Completed ps b = on_item env True ps b"
| "active_update env On_Agent_Delta ps b = open_item ps b (\<lambda>i. on_stream env Agent_Delta i ps b)"
| "active_update env On_Plan_Delta ps b = open_item ps b (\<lambda>i. on_stream env Plan_Delta i ps b)"
| "active_update env On_Command_Output ps b = open_item ps b (\<lambda>i. on_stream env Command_Output i ps b)"
| "active_update env On_File_Output ps b = open_item ps b (\<lambda>i. on_stream env File_Output i ps b)"
| "active_update env On_Summary_Delta ps b =
     open_item ps b (\<lambda>i. on_indexed_stream env Summary_Delta ''summaryIndex'' i ps b)"
| "active_update env On_Summary_Part ps b =
     open_item ps b (\<lambda>i. emit_some (emit env) (map_option (Summary_Part i) (require_index (own_value ps ''summaryIndex''))) b)"
| "active_update env On_Reasoning_Delta ps b =
     open_item ps b (\<lambda>i. on_indexed_stream env Reasoning_Delta ''contentIndex'' i ps b)"
| "active_update env On_File_Patch ps b =
     open_item ps b (\<lambda>i. emit_some (emit env)
       (map_option (File_Patch i) (normalize_file_changes (tenv_px env) (own_value ps ''changes'') (lim_items (tenv_limits env)))) b)"
| "active_update env On_Turn_Plan ps b = emit_some (emit env) (turn_plan_event env ps) b"
| "active_update env On_Turn_Diff ps b =
     emit_some (emit env) (map_option Turn_Diff (bounded_text (own_value ps ''diff'') (lim_item (tenv_limits env)))) b"
| "active_update env On_Token_Usage ps b =
     emit_some (emit env) (normalize_token_usage (tenv_px env) (own_value ps ''tokenUsage'')) b"
| "active_update env On_Error ps b = emit_some (emit_diagnostic env) (error_event env ps) b"

definition on_active_notification :: "turn_env \<Rightarrow> int \<Rightarrow> jsstr \<Rightarrow> jsvalue \<Rightarrow> coordinator \<Rightarrow> coordinator" where
  "on_active_notification env s m v b =
     (case turn_method_of m of
        None \<Rightarrow> b
      | Some method \<Rightarrow>
          (case stable_active_notification (tenv_px env) method v of
             None \<Rightarrow> b
           | Some ps \<Rightarrow>
               let t = the_turn s b in
               if schema_identifier (own_value ps ''threadId'') = Some (turn_thread_id t)
                  \<and> schema_identifier (own_value ps ''turnId'') = turn_name t
               then active_update env method ps b else b))"

text \<open>\<open>#onNotification\<close>; an error of a handler changes nothing.\<close>

definition on_turn_notification :: "turn_env \<Rightarrow> jsstr \<Rightarrow> jsvalue \<Rightarrow> int \<Rightarrow> coordinator \<Rightarrow> coordinator" where
  "on_turn_notification env m v g b =
     (case co_active b of
        None \<Rightarrow> b
      | Some s \<Rightarrow>
          if co_disposed b \<or> turn_ended (the_turn s b) \<or> \<not> safe_int g \<or> turn_generation (the_turn s b) \<noteq> Some g
             \<or> g \<noteq> co_generation b
          then b
          else if m = js ''turn/started'' then on_turn_started env s v b
          else if m = js ''turn/completed'' then on_turn_completed env s v b
          else if m = js ''warning'' then on_warning env s v b
          else on_active_notification env s m v b)"

datatype app_state =
    App_Stopped | App_Starting | App_Ready | App_Restarting | App_Stopping | App_Circuit_Open | App_Disposed

definition on_app_state :: "turn_env \<Rightarrow> app_state \<Rightarrow> int \<Rightarrow> coordinator \<Rightarrow> coordinator" where
  "on_app_state env st g b =
     (if co_disposed b \<or> \<not> safe_int g \<or> g < co_generation b then b
      else
        let b1 = b\<lparr>co_generation := g\<rparr>
        in case co_active b1 of
             None \<Rightarrow> b1
           | Some s \<Rightarrow>
               if st \<in> {App_Stopped, App_Restarting, App_Stopping, App_Circuit_Open, App_Disposed}
                  \<or> (case turn_generation (the_turn s b1) of None \<Rightarrow> False | Some g' \<Rightarrow> g' \<noteq> g)
               then finish_active env Failed (Some safe_failure)
                      (if st = App_Disposed then Turns_Disposed else Turn_Superseded) True False b1
               else b1)"

end
