(* ===== verification/TurnMachine.thy ===== *)
theory TurnMachine
  imports TurnCoordinator
begin

text \<open>
  The calls of the turn coordinator (\<open>src/node/ride-codex-turn-coordinator.ts\<close>): starting, steering and
  interrupting a turn, the recovery of a thread after an interrupt that was not confirmed, connecting,
  disposing, and the step function over all events. An asynchronous method is cut at its awaits: the
  table \<open>co_tasks\<close> holds what waits, and the event \<open>Turn_Resume\<close> lets it continue when the race it
  waits for is decided. A race goes to the promise that settled first, so that an answer that arrives
  after the turn was invalidated is not taken.
\<close>

section \<open>Guards\<close>

definition recovering :: "coordinator \<Rightarrow> bool" where
  "recovering b \<longleftrightarrow> co_recovery b \<noteq> None \<or> co_quarantine b \<noteq> None"

text \<open>\<open>#requireClient\<close> and \<open>#requireNoRecovery\<close>\<close>

definition call_refusal :: "nat \<Rightarrow> coordinator \<Rightarrow> turn_error option" where
  "call_refusal c b =
     (if co_disposed b then Some Turns_Disposed
      else if \<not> map_has (co_clients b) c then Some Turn_Client_Gone
      else if recovering b then Some Turn_Superseded
      else None)"

definition refuse_call :: "nat \<Rightarrow> turn_error \<Rightarrow> coordinator \<Rightarrow> coordinator" where
  "refuse_call k e b = settle_call k (Inl e) b"

text \<open>\<open>stableTurnError\<close>: an error from outside gets the fallback.\<close>

definition stable_error :: "turn_error option \<Rightarrow> turn_error \<Rightarrow> turn_error" where
  "stable_error e fallback = (case e of Some x \<Rightarrow> x | None \<Rightarrow> fallback)"

text \<open>\<open>#requireActive\<close>\<close>

definition own_active :: "nat \<Rightarrow> jsstr \<Rightarrow> jsstr \<Rightarrow> coordinator \<Rightarrow> int option" where
  "own_active c thread turn b =
     (case co_active b of
        None \<Rightarrow> None
      | Some s \<Rightarrow>
          let t = the_turn s b in
          if \<not> turn_ended t \<and> turn_owner t = c \<and> turn_thread_id t = thread \<and> turn_name t = Some turn
          then Some s else None)"

definition set_control :: "bool \<Rightarrow> int \<Rightarrow> coordinator \<Rightarrow> coordinator" where
  "set_control v s b =
     (if co_active b = Some s then put_turn s ((the_turn s b)\<lparr>turn_control := v\<rparr>) b else b)"

definition request_host ::
    "turn_env \<Rightarrow> nat \<Rightarrow> string \<Rightarrow> json \<Rightarrow> int option \<Rightarrow> coordinator \<Rightarrow> turn_error option option \<times> coordinator" where
  "request_host env lease m params timeout b =
     (tenv_request env (co_questions b), asked_turn (log_turn (Turn_Requested lease m params timeout) b))"

definition turn_invalidated :: "int \<Rightarrow> coordinator \<Rightarrow> bool" where
  "turn_invalidated s b \<longleftrightarrow> turn_invalid (the_turn s b) \<noteq> None"

section \<open>Starting a turn\<close>

definition fresh_turn :: "nat \<Rightarrow> jsstr \<Rightarrow> active_turn" where
  "fresh_turn c thread =
     \<lparr>turn_owner = c, turn_thread_id = thread, turn_lease = None, turn_generation = None, turn_name = None,
      turn_outcome = None, turn_released = False, turn_ended = False, turn_control = False, turn_invalid = None\<rparr>"

definition start_call :: "turn_env \<Rightarrow> nat \<Rightarrow> jsvalue \<Rightarrow> coordinator \<Rightarrow> coordinator" where
  "start_call env c v b0 =
     (let k = co_next_key b0; b = b0\<lparr>co_next_key := k + 1\<rparr> in
      case call_refusal c b of
        Some e \<Rightarrow> refuse_call k e b
      | None \<Rightarrow>
          if co_active b \<noteq> None then refuse_call k Turn_Busy b
          else
            case normalize_start_request (tenv_px env) v of
              None \<Rightarrow> refuse_call k Bad_Turn_Data b
            | Some r \<Rightarrow>
                if max_safe_integer \<le> co_sequence b then refuse_call k Turn_Failed b
                else
                  let s = co_sequence b + 1;
                      b1 = put_turn s (fresh_turn c (start_thread r)) (b\<lparr>co_sequence := s, co_active := Some s\<rparr>);
                      b2 = asked_turn (log_turn (Turn_Lease_Asked k Active_Turn_Lease) b1)
                  in if tenv_acquire env (co_questions b1)
                     then put_turn_task k (Start_Acquiring r s) (b2\<lparr>co_acquiring := map_set (co_acquiring b2) k (Some s)\<rparr>)
                     else put_turn_task k (Start_Refused s (Some Turn_Failed)) b2)"

text \<open>The catch block of \<open>#startTurn\<close>.\<close>

definition start_failed :: "turn_env \<Rightarrow> nat \<Rightarrow> int \<Rightarrow> turn_error option \<Rightarrow> coordinator \<Rightarrow> coordinator" where
  "start_failed env k s e b =
     (case turn_outcome (the_turn s b) of
        Some r \<Rightarrow> settle_call k (Inr r) b
      | None \<Rightarrow>
          let b1 = (if co_active b = Some s
                    then finish_active env Failed (Some safe_failure) Turn_Superseded (turn_name (the_turn s b) \<noteq> None) False b
                    else b)
          in refuse_call k (stable_error e (if co_disposed b1 then Turns_Disposed else Turn_Failed)) b1)"

definition start_request_host :: "turn_env \<Rightarrow> nat \<Rightarrow> start_request \<Rightarrow> int \<Rightarrow> nat \<Rightarrow> coordinator \<Rightarrow> coordinator" where
  "start_request_host env k r s lease b =
     (let q = request_host env lease ''turn/start'' (start_params r) None b
      in case fst q of
           Some e \<Rightarrow> start_failed env k s e (snd q)
         | None \<Rightarrow> put_turn_task k (Start_Waiting r s) (snd q))"

definition start_answered ::
    "turn_env \<Rightarrow> nat \<Rightarrow> start_request \<Rightarrow> int \<Rightarrow> jsvalue option \<Rightarrow> coordinator \<Rightarrow> coordinator" where
  "start_answered env k r s raw b =
     (case raw of
        None \<Rightarrow> start_failed env k s None b
      | Some v \<Rightarrow>
          (case Option.bind (require_exact_options (tenv_px env) v [''turn''])
              (\<lambda>ps. require_turn (tenv_px env) (own_value ps ''turn'')) of
             None \<Rightarrow> start_failed env k s (Some Bad_Turn_Data) b
           | Some t \<Rightarrow>
               let e = establish_turn env s (server_turn_id t) b in
               (case fst e of
                  Some x \<Rightarrow> start_failed env k s (Some x) (snd e)
                | None \<Rightarrow>
                    settle_call k
                      (Inr \<lparr>result_thread = start_thread r, result_turn = server_turn_id t, result_status = server_status t\<rparr>)
                      (finish_by_server env t (snd e)))))"

section \<open>Steering\<close>

definition steer_failed :: "nat \<Rightarrow> int \<Rightarrow> turn_error option \<Rightarrow> coordinator \<Rightarrow> coordinator" where
  "steer_failed k s e b =
     set_control False s
       (case turn_outcome (the_turn s b) of
          Some r \<Rightarrow> settle_call k (Inr r) b
        | None \<Rightarrow>
            refuse_call k
              (if co_disposed b then Turns_Disposed
               else if co_active b \<noteq> Some s \<or> turn_ended (the_turn s b) then stable_error e Turn_Failed
               else Turn_Failed) b)"

definition steer_call :: "turn_env \<Rightarrow> nat \<Rightarrow> jsvalue \<Rightarrow> coordinator \<Rightarrow> coordinator" where
  "steer_call env c v b0 =
     (let k = co_next_key b0; b = b0\<lparr>co_next_key := k + 1\<rparr> in
      case call_refusal c b of
        Some e \<Rightarrow> refuse_call k e b
      | None \<Rightarrow>
          (case normalize_steer_request (tenv_px env) v of
             None \<Rightarrow> refuse_call k Bad_Turn_Data b
           | Some r \<Rightarrow>
               (case own_active c (steer_thread r) (steer_turn r) b of
                  None \<Rightarrow> refuse_call k Turn_Missing b
                | Some s \<Rightarrow>
                    if turn_control (the_turn s b) then refuse_call k Turn_Superseded b
                    else
                      let b1 = set_control True s b in
                      (case turn_lease (the_turn s b1) of
                         None \<Rightarrow> steer_failed k s (Some Turn_Missing) b1
                       | Some lease \<Rightarrow>
                           let q = request_host env lease ''turn/steer'' (steer_params r) None b1
                           in case fst q of
                                Some e \<Rightarrow> steer_failed k s e (snd q)
                              | None \<Rightarrow> put_turn_task k (Steer_Waiting r s) (snd q)))))"

definition steer_answered :: "turn_env \<Rightarrow> nat \<Rightarrow> steer_request \<Rightarrow> int \<Rightarrow> jsvalue option \<Rightarrow> coordinator \<Rightarrow> coordinator" where
  "steer_answered env k r s raw b =
     (case raw of
        None \<Rightarrow> steer_failed k s None b
      | Some v \<Rightarrow>
          (case Option.bind (require_exact_options (tenv_px env) v [''turnId''])
              (\<lambda>ps. schema_identifier (own_value ps ''turnId'')) of
             None \<Rightarrow> steer_failed k s (Some Bad_Turn_Data) b
           | Some n \<Rightarrow>
               if n \<noteq> steer_turn r \<or> co_active b \<noteq> Some s \<or> turn_ended (the_turn s b)
               then steer_failed k s (Some Turn_Superseded) b
               else set_control False s
                      (settle_call k
                        (Inr \<lparr>result_thread = turn_thread_id (the_turn s b), result_turn = n, result_status = None\<rparr>) b)))"

section \<open>Recovery\<close>

definition begin_recovery :: "jsstr \<Rightarrow> int \<Rightarrow> coordinator \<Rightarrow> recovery_ref \<times> coordinator" where
  "begin_recovery thread g b =
     (case co_recovery b of
        Some x \<Rightarrow>
          if barrier_thread x = thread \<and> barrier_generation x = g then (Recovery_Of (barrier_key x), b)
          else (Recovery_Refused, b)
      | None \<Rightarrow>
          if co_quarantine b \<noteq> None then (Recovery_Refused, b)
          else
            let k = co_next_key b in
            (Recovery_Of k,
             put_turn_task k (Recover_Start thread g)
               (b\<lparr>co_next_key := k + 1,
                  co_recovery := Some \<lparr>barrier_thread = thread, barrier_generation = g, barrier_key = k\<rparr>\<rparr>)))"

definition set_turn_timer :: "turn_env \<Rightarrow> nat \<Rightarrow> int \<Rightarrow> coordinator \<Rightarrow> coordinator" where
  "set_turn_timer env k ms b =
     (if tenv_set_timer env (co_questions b)
      then asked_turn (log_turn (Turn_Timer_Set k ms) (b\<lparr>co_timers := co_timers b @ [k]\<rparr>)) else asked_turn b)"

definition clear_turn_timer :: "nat \<Rightarrow> coordinator \<Rightarrow> coordinator" where
  "clear_turn_timer k b = log_turn (Turn_Timer_Cleared k) (b\<lparr>co_timers := removeAll k (co_timers b)\<rparr>)"

definition recovery_failed :: ui_event where
  "recovery_failed =
     Error_Event \<lparr>report_code = Recovery_Failed, report_message = js ''Codex thread recovery failed.'', retryable = False\<rparr>"

text \<open>The catch and finally blocks of \<open>#recoverPersistentThread\<close>, and the end of its barrier. The
  outcome None is the fulfilled promise.\<close>

definition recovery_ends :: "nat \<Rightarrow> bool \<Rightarrow> turn_error option \<Rightarrow> coordinator \<Rightarrow> coordinator" where
  "recovery_ends k held result b =
     (let b1 = clear_turn_timer k b;
          b2 = (if held then release_turn_lease k b1 else b1);
          b3 = (case co_recovery b2 of
                  Some x \<Rightarrow> if barrier_key x = k then b2\<lparr>co_recovery := None\<rparr> else b2
                | None \<Rightarrow> b2)
      in drop_turn_task k (b3\<lparr>co_recovered := map_set (co_recovered b3) k result\<rparr>))"

definition recovery_fails :: "turn_env \<Rightarrow> nat \<Rightarrow> bool \<Rightarrow> turn_error option \<Rightarrow> coordinator \<Rightarrow> coordinator" where
  "recovery_fails env k held e b =
     recovery_ends k held (if e = Some Turns_Disposed then e else None)
       (if co_disposed b then b else emit_diagnostic env recovery_failed b)"

text \<open>\<open>remainingRecoveryTimeout\<close>: None when the time is over.\<close>

definition remaining_recovery_timeout :: "turn_env \<Rightarrow> int \<Rightarrow> coordinator \<Rightarrow> int option" where
  "remaining_recovery_timeout env started b =
     (let elapsed = max 0 (tenv_now env (co_questions b) - started); timeout = tenv_recovery_timeout env in
      if timeout \<le> elapsed then None else Some (max 1 (min timeout (timeout - elapsed))))"

definition in_time :: "turn_env \<Rightarrow> nat \<Rightarrow> bool \<Rightarrow> int \<Rightarrow> (int \<Rightarrow> coordinator \<Rightarrow> coordinator) \<Rightarrow> coordinator \<Rightarrow> coordinator" where
  "in_time env k held started f b =
     (case remaining_recovery_timeout env started b of
        None \<Rightarrow> recovery_fails env k held None (asked_turn b)
      | Some ms \<Rightarrow> f ms (asked_turn b))"

definition gone_error :: "coordinator \<Rightarrow> turn_error" where
  "gone_error b = (if co_disposed b then Turns_Disposed else Turn_Superseded)"

text \<open>\<open>#restartForRecovery\<close>, called by the recovery \<open>k\<close>; the quarantine of a restart that fails at once is
  gone before anything can see it.\<close>

definition restart_for_recovery :: "turn_env \<Rightarrow> nat \<Rightarrow> jsstr \<Rightarrow> int \<Rightarrow> nat \<Rightarrow> int \<Rightarrow> coordinator \<Rightarrow> coordinator" where
  "restart_for_recovery env k thread g lifecycle started b =
     (case co_quarantine b of
        Some q \<Rightarrow>
          if quarantine_generation q = g \<and> quarantine_lifecycle q = lifecycle
          then put_turn_task k (Recover_Restarting thread lifecycle started (quarantine_key q)) b
          else put_turn_task k (Recover_Refused (Some Turn_Superseded)) b
      | None \<Rightarrow>
          if co_disposed b \<or> lifecycle \<noteq> co_lifecycle b
          then put_turn_task k (Recover_Refused (Some (gone_error b))) b
          else
            let b1 = asked_turn (log_turn (Restart_Asked k g) b)
            in if tenv_restart env (co_questions b)
               then put_turn_task k (Recover_Restarting thread lifecycle started k)
                      (b1\<lparr>co_quarantine := Some \<lparr>quarantine_generation = g, quarantine_lifecycle = lifecycle,
                                                quarantine_key = k\<rparr>\<rparr>)
               else put_turn_task k (Recover_Restarted thread lifecycle started None) b1)"

definition recovery_starts :: "turn_env \<Rightarrow> nat \<Rightarrow> jsstr \<Rightarrow> int \<Rightarrow> coordinator \<Rightarrow> coordinator" where
  "recovery_starts env k thread g b =
     (let started = tenv_now env (co_questions b);
          b1 = set_turn_timer env k (tenv_recovery_timeout env) (asked_turn b);
          b2 = (if k \<in> set (co_timers b1) then b1 else b1\<lparr>co_stopped := map_set (co_stopped b1) k None\<rparr>);
          b3 = (if co_disposed b2 \<and> \<not> map_has (co_stopped b2) k
                then b2\<lparr>co_stopped := map_set (co_stopped b2) k (Some Turns_Disposed)\<rparr> else b2)
      in restart_for_recovery env k thread g (co_lifecycle b) started b3)"

definition recovery_restarted ::
    "turn_env \<Rightarrow> nat \<Rightarrow> jsstr \<Rightarrow> nat \<Rightarrow> int \<Rightarrow> int option \<Rightarrow> coordinator \<Rightarrow> coordinator" where
  "recovery_restarted env k thread lifecycle started result b =
     (case result of
        None \<Rightarrow> recovery_fails env k False None b
      | Some g \<Rightarrow>
          if \<not> safe_int g \<or> g < 0 then recovery_fails env k False (Some Turn_Failed) b
          else in_time env k False started (\<lambda>_ b.
            if co_disposed b \<or> lifecycle \<noteq> co_lifecycle b then recovery_fails env k False (Some (gone_error b)) b
            else if tenv_snapshot env (co_questions b) \<noteq> Some (True, g)
            then recovery_fails env k False (Some Turn_Superseded) (asked_turn b)
            else in_time env k False started (\<lambda>_ b.
              let b1 = asked_turn (log_turn (Turn_Lease_Asked k Panel_Lease) (b\<lparr>co_generation := g\<rparr>))
              in if tenv_acquire env (co_questions b)
                 then put_turn_task k (Recover_Acquiring thread g lifecycle started)
                        (b1\<lparr>co_acquiring := map_set (co_acquiring b1) k None\<rparr>)
                 else recovery_fails env k False None b1) (asked_turn b)) b)"

definition resume_params :: "jsstr \<Rightarrow> json" where
  "resume_params thread = obj [(''threadId'', JStr thread)]"

definition recovery_acquired ::
    "turn_env \<Rightarrow> nat \<Rightarrow> jsstr \<Rightarrow> int \<Rightarrow> nat \<Rightarrow> int \<Rightarrow> int \<Rightarrow> coordinator \<Rightarrow> coordinator" where
  "recovery_acquired env k thread g lifecycle started g' b =
     (if g' \<noteq> g \<or> co_disposed b \<or> lifecycle \<noteq> co_lifecycle b then recovery_fails env k True (Some Turn_Superseded) b
      else in_time env k True started (\<lambda>ms b.
        let q = request_host env k ''thread/resume'' (resume_params thread) (Some ms) b
        in case fst q of
             Some e \<Rightarrow> recovery_fails env k True e (snd q)
           | None \<Rightarrow> put_turn_task k (Recover_Resuming thread started) (snd q)) b)"

definition recovery_answered ::
    "turn_env \<Rightarrow> nat \<Rightarrow> jsstr \<Rightarrow> int \<Rightarrow> jsvalue option \<Rightarrow> coordinator \<Rightarrow> coordinator" where
  "recovery_answered env k thread started raw b =
     (case raw of
        None \<Rightarrow> recovery_fails env k True None b
      | Some v \<Rightarrow>
          in_time env k True started (\<lambda>_ b.
            if \<not> thread_resume_response (tenv_px env) v thread then recovery_fails env k True (Some Bad_Turn_Data) b
            else in_time env k True started (\<lambda>_ b. recovery_ends k True None b) b) b)"

section \<open>Interrupting\<close>

text \<open>The finally block of \<open>#interruptTurn\<close> around the settlement.\<close>

definition settle_interrupt :: "nat \<Rightarrow> int \<Rightarrow> turn_error + turn_result \<Rightarrow> coordinator \<Rightarrow> coordinator" where
  "settle_interrupt k s r b = settle_call k r (set_control False s (clear_turn_timer k b))"

definition interrupt_failed ::
    "turn_env \<Rightarrow> nat \<Rightarrow> interrupt_request \<Rightarrow> int \<Rightarrow> int \<Rightarrow> recovery_ref option \<Rightarrow> turn_error option \<Rightarrow> coordinator
     \<Rightarrow> coordinator" where
  "interrupt_failed env k r s g timed e b =
     (case timed of
        Some ref \<Rightarrow> put_turn_task k (Interrupt_Recovering r s ref) b
      | None \<Rightarrow>
          (case turn_outcome (the_turn s b) of
             Some x \<Rightarrow> settle_interrupt k s (Inr x) b
           | None \<Rightarrow>
               if co_disposed b then settle_interrupt k s (Inl Turns_Disposed) b
               else if co_active b = Some s
               then let x = begin_recovery (interrupt_thread r) g b
                    in put_turn_task k (Interrupt_Recovering r s (fst x))
                         (finish_active env Interrupt_Uncertain (Some safe_failure) Turn_Superseded True True (snd x))
               else settle_interrupt k s (Inl (stable_error e Turn_Failed)) b))"

definition interrupt_call :: "turn_env \<Rightarrow> nat \<Rightarrow> jsvalue \<Rightarrow> coordinator \<Rightarrow> coordinator" where
  "interrupt_call env c v b0 =
     (let k = co_next_key b0; b = b0\<lparr>co_next_key := k + 1\<rparr> in
      case call_refusal c b of
        Some e \<Rightarrow> refuse_call k e b
      | None \<Rightarrow>
          (case normalize_interrupt_request (tenv_px env) v of
             None \<Rightarrow> refuse_call k Bad_Turn_Data b
           | Some r \<Rightarrow>
               (case own_active c (interrupt_thread r) (interrupt_turn r) b of
                  None \<Rightarrow> refuse_call k Turn_Missing b
                | Some s \<Rightarrow>
                    if turn_control (the_turn s b) then refuse_call k Turn_Superseded b
                    else
                      (case (turn_lease (the_turn s b), turn_generation (the_turn s b)) of
                         (Some lease, Some g) \<Rightarrow>
                           let b1 = set_turn_timer env k (tenv_interrupt_timeout env) (set_control True s b);
                               q = request_host env lease ''turn/interrupt'' (interrupt_params r)
                                     (Some (tenv_interrupt_timeout env)) b1
                           in (case fst q of
                                 Some e \<Rightarrow> interrupt_failed env k r s g None e (snd q)
                               | None \<Rightarrow> put_turn_task k (Interrupt_Racing r s g Awaits_Ack None) (snd q))
                       | _ \<Rightarrow> refuse_call k Turn_Missing b))))"

definition interrupt_resumes ::
    "turn_env \<Rightarrow> nat \<Rightarrow> interrupt_request \<Rightarrow> int \<Rightarrow> int \<Rightarrow> interrupt_ack \<Rightarrow> recovery_ref option \<Rightarrow> coordinator
     \<Rightarrow> coordinator" where
  "interrupt_resumes env k r s g ack timed b =
     (case ack of
        Has_Ack raw \<Rightarrow>
          (case raw of
             None \<Rightarrow> interrupt_failed env k r s g timed None b
           | Some v \<Rightarrow>
               if require_options (tenv_px env) v [] = None
               then interrupt_failed env k r s g timed (Some Bad_Turn_Data) b
               else put_turn_task k (Interrupt_Racing r s g Took_Ack timed) b)
      | _ \<Rightarrow>
          (case turn_invalid (the_turn s b) of
             Some e \<Rightarrow> interrupt_failed env k r s g timed (Some e) b
           | None \<Rightarrow> if k \<in> set (co_timers b) then b else interrupt_failed env k r s g timed None b))"

text \<open>The end of the wait for a recovery: its promise rejects only for a disposed coordinator.\<close>

definition interrupt_recovered :: "nat \<Rightarrow> interrupt_request \<Rightarrow> int \<Rightarrow> recovery_ref \<Rightarrow> coordinator \<Rightarrow> coordinator" where
  "interrupt_recovered k r s ref b =
     (case ref of
        Recovery_Refused \<Rightarrow> settle_interrupt k s (Inl Turn_Superseded) b
      | Recovery_Of j \<Rightarrow>
          (case map_get (co_recovered b) j of
             None \<Rightarrow> b
           | Some (Some e) \<Rightarrow> settle_interrupt k s (Inl e) b
           | Some None \<Rightarrow>
               settle_interrupt k s
                 (Inr (case turn_outcome (the_turn s b) of
                         Some x \<Rightarrow> x
                       | None \<Rightarrow> \<lparr>result_thread = interrupt_thread r, result_turn = interrupt_turn r,
                                  result_status = Some Interrupt_Uncertain\<rparr>)) b))"

definition interrupt_timeout_error :: safe_error where
  "interrupt_timeout_error = safe_server_error Interrupt_Timeout"

definition interrupt_timer ::
    "turn_env \<Rightarrow> nat \<Rightarrow> interrupt_request \<Rightarrow> int \<Rightarrow> int \<Rightarrow> interrupt_ack \<Rightarrow> coordinator \<Rightarrow> coordinator" where
  "interrupt_timer env k r s g ack b =
     (if co_active b = Some s \<and> \<not> turn_ended (the_turn s b)
      then let x = begin_recovery (interrupt_thread r) g b
           in put_turn_task k (Interrupt_Racing r s g ack (Some (fst x)))
                (finish_active env Interrupt_Uncertain (Some interrupt_timeout_error) Turn_Superseded True True (snd x))
      else b)"

section \<open>Answers\<close>

definition lease_for_turn :: "nat \<Rightarrow> int \<Rightarrow> int \<Rightarrow> coordinator \<Rightarrow> coordinator" where
  "lease_for_turn k s g b =
     (let stale = (co_active b \<noteq> Some s \<or> turn_ended (the_turn s b) \<or> co_disposed b);
          failed = (\<lambda>e b. case map_get (co_tasks b) k of
                      Some (Start_Acquiring r s') \<Rightarrow>
                        if turn_invalidated s b then b else put_turn_task k (Start_Refused s (Some e)) b
                    | _ \<Rightarrow> b)
      in if stale then failed (if \<not> safe_int g \<or> g < 0 then Turn_Failed else gone_error b) (release_turn_lease k b)
         else if \<not> safe_int g \<or> g < 0 then failed Turn_Failed b
         else
           let b1 = put_turn s ((the_turn s b)\<lparr>turn_lease := Some k, turn_generation := Some g\<rparr>) b
           in case map_get (co_tasks b1) k of
                Some (Start_Acquiring r s') \<Rightarrow>
                  if turn_invalidated s b1 then b1 else put_turn_task k (Start_Acquired r s k) b1
              | _ \<Rightarrow> b1)"

text \<open>A lease that comes too late for its recovery is released.\<close>

definition lease_for_recovery :: "nat \<Rightarrow> int \<Rightarrow> coordinator \<Rightarrow> coordinator" where
  "lease_for_recovery k g b =
     (case map_get (co_tasks b) k of
        Some (Recover_Acquiring thread g0 lifecycle started) \<Rightarrow>
          if map_has (co_stopped b) k then release_turn_lease k b
          else put_turn_task k (Recover_Acquired thread g0 lifecycle started g) b
      | _ \<Rightarrow> release_turn_lease k b)"

definition turn_lease_granted :: "nat \<Rightarrow> int \<Rightarrow> coordinator \<Rightarrow> coordinator" where
  "turn_lease_granted k g b =
     (case map_get (co_acquiring b) k of
        None \<Rightarrow> b
      | Some target \<Rightarrow>
          let b1 = b\<lparr>co_acquiring := map_delete (co_acquiring b) k\<rparr>
          in case target of Some s \<Rightarrow> lease_for_turn k s g b1 | None \<Rightarrow> lease_for_recovery k g b1)"

definition turn_lease_denied :: "nat \<Rightarrow> coordinator \<Rightarrow> coordinator" where
  "turn_lease_denied k b =
     (case map_get (co_acquiring b) k of
        None \<Rightarrow> b
      | Some target \<Rightarrow>
          let b1 = b\<lparr>co_acquiring := map_delete (co_acquiring b) k\<rparr>
          in case map_get (co_tasks b1) k of
               Some (Start_Acquiring r s) \<Rightarrow>
                 if turn_invalidated s b1 then b1 else put_turn_task k (Start_Refused s None) b1
             | Some (Recover_Acquiring thread g lifecycle started) \<Rightarrow>
                 if map_has (co_stopped b1) k then b1 else put_turn_task k (Recover_Refused None) b1
             | _ \<Rightarrow> b1)"

text \<open>The answer to a request, None for a rejection.\<close>

definition turn_response :: "nat \<Rightarrow> jsvalue option \<Rightarrow> coordinator \<Rightarrow> coordinator" where
  "turn_response k raw b =
     (case map_get (co_tasks b) k of
        Some (Start_Waiting r s) \<Rightarrow>
          if turn_invalidated s b then b else put_turn_task k (Start_Answered r s raw) b
      | Some (Steer_Waiting r s) \<Rightarrow>
          if turn_invalidated s b then b else put_turn_task k (Steer_Answered r s raw) b
      | Some (Interrupt_Racing r s g Awaits_Ack timed) \<Rightarrow>
          if turn_invalidated s b \<or> k \<notin> set (co_timers b) then b
          else put_turn_task k (Interrupt_Racing r s g (Has_Ack raw) timed) b
      | Some (Recover_Resuming thread started) \<Rightarrow>
          if map_has (co_stopped b) k then b else put_turn_task k (Recover_Answered thread started raw) b
      | _ \<Rightarrow> b)"

definition restart_settled :: "nat \<Rightarrow> int option \<Rightarrow> coordinator \<Rightarrow> coordinator" where
  "restart_settled k result b =
     (let b1 = (case co_quarantine b of
                  Some q \<Rightarrow> if quarantine_key q = k then b\<lparr>co_quarantine := None\<rparr> else b
                | None \<Rightarrow> b)
      in case map_get (co_tasks b1) k of
           Some (Recover_Restarting thread lifecycle started j) \<Rightarrow>
             if map_has (co_stopped b1) k then b1
             else put_turn_task k (Recover_Restarted thread lifecycle started result) b1
         | _ \<Rightarrow> b1)"

text \<open>A timer fires once.\<close>

definition turn_timer_fired :: "turn_env \<Rightarrow> nat \<Rightarrow> coordinator \<Rightarrow> coordinator" where
  "turn_timer_fired env k b =
     (if k \<notin> set (co_timers b) then b
      else
        let b1 = b\<lparr>co_timers := removeAll k (co_timers b)\<rparr>
        in case map_get (co_tasks b1) k of
             Some (Interrupt_Racing r s g ack timed) \<Rightarrow> interrupt_timer env k r s g ack b1
           | Some (Interrupt_Recovering r s ref) \<Rightarrow> b1
           | _ \<Rightarrow> if map_has (co_stopped b1) k then b1 else b1\<lparr>co_stopped := map_set (co_stopped b1) k None\<rparr>)"

section \<open>Continuing\<close>

text \<open>A recovery that was stopped while it waited.\<close>

definition unless_stopped :: "turn_env \<Rightarrow> nat \<Rightarrow> bool \<Rightarrow> coordinator \<Rightarrow> coordinator" where
  "unless_stopped env k held b =
     (case map_get (co_stopped b) k of None \<Rightarrow> b | Some e \<Rightarrow> recovery_fails env k held e b)"

definition if_invalid :: "int \<Rightarrow> (turn_error \<Rightarrow> coordinator \<Rightarrow> coordinator) \<Rightarrow> coordinator \<Rightarrow> coordinator" where
  "if_invalid s f b = (case turn_invalid (the_turn s b) of None \<Rightarrow> b | Some e \<Rightarrow> f e b)"

fun turn_task_resumes :: "turn_env \<Rightarrow> nat \<Rightarrow> turn_task \<Rightarrow> coordinator \<Rightarrow> coordinator" where
  "turn_task_resumes env k (Start_Acquiring r s) b = if_invalid s (\<lambda>e. start_failed env k s (Some e)) b"
| "turn_task_resumes env k (Start_Acquired r s lease) b = start_request_host env k r s lease b"
| "turn_task_resumes env k (Start_Refused s e) b = start_failed env k s e b"
| "turn_task_resumes env k (Start_Waiting r s) b = if_invalid s (\<lambda>e. start_failed env k s (Some e)) b"
| "turn_task_resumes env k (Start_Answered r s raw) b = start_answered env k r s raw b"
| "turn_task_resumes env k (Steer_Waiting r s) b = if_invalid s (\<lambda>e. steer_failed k s (Some e)) b"
| "turn_task_resumes env k (Steer_Answered r s raw) b = steer_answered env k r s raw b"
| "turn_task_resumes env k (Interrupt_Racing r s g ack timed) b = interrupt_resumes env k r s g ack timed b"
| "turn_task_resumes env k (Interrupt_Recovering r s ref) b = interrupt_recovered k r s ref b"
| "turn_task_resumes env k (Recover_Start thread g) b = recovery_starts env k thread g b"
| "turn_task_resumes env k (Recover_Restarting thread lifecycle started j) b = unless_stopped env k False b"
| "turn_task_resumes env k (Recover_Restarted thread lifecycle started result) b =
     recovery_restarted env k thread lifecycle started result b"
| "turn_task_resumes env k (Recover_Acquiring thread g lifecycle started) b = unless_stopped env k False b"
| "turn_task_resumes env k (Recover_Acquired thread g lifecycle started g') b =
     recovery_acquired env k thread g lifecycle started g' b"
| "turn_task_resumes env k (Recover_Refused e) b = recovery_fails env k False e b"
| "turn_task_resumes env k (Recover_Resuming thread started) b = unless_stopped env k True b"
| "turn_task_resumes env k (Recover_Answered thread started raw) b = recovery_answered env k thread started raw b"

definition turn_resume :: "turn_env \<Rightarrow> nat \<Rightarrow> coordinator \<Rightarrow> coordinator" where
  "turn_resume env k b = (case map_get (co_tasks b) k of None \<Rightarrow> b | Some t \<Rightarrow> turn_task_resumes env k t b)"

section \<open>Connecting and disposing\<close>

definition max_turn_clients :: nat where "max_turn_clients = 64"

definition connect_turn_client :: "coordinator \<Rightarrow> coordinator" where
  "connect_turn_client b =
     (if co_disposed b \<or> recovering b \<or> max_turn_clients \<le> length (co_clients b) then b
      else b\<lparr>co_clients := map_set (co_clients b) (co_next_client b) new_turn_client,
             co_next_client := co_next_client b + 1\<rparr>)"

text \<open>The keys of the recoveries that are running: the signal of the disposal stops them.\<close>

fun is_recovery :: "turn_task \<Rightarrow> bool" where
  "is_recovery (Recover_Restarting _ _ _ _) = True"
| "is_recovery (Recover_Restarted _ _ _ _) = True"
| "is_recovery (Recover_Acquiring _ _ _ _) = True"
| "is_recovery (Recover_Acquired _ _ _ _ _) = True"
| "is_recovery (Recover_Refused _) = True"
| "is_recovery (Recover_Resuming _ _) = True"
| "is_recovery (Recover_Answered _ _ _) = True"
| "is_recovery _ = False"

definition stop_recoveries :: "coordinator \<Rightarrow> coordinator" where
  "stop_recoveries b =
     b\<lparr>co_stopped := fold (\<lambda>(k, t) m. if is_recovery t \<and> \<not> map_has m k then map_set m k (Some Turns_Disposed) else m)
         (co_tasks b) (co_stopped b)\<rparr>"

definition dispose_turns :: "turn_env \<Rightarrow> coordinator \<Rightarrow> coordinator" where
  "dispose_turns env b =
     (if co_disposed b then b
      else
        let b1 = stop_recoveries (b\<lparr>co_disposed := True, co_lifecycle := co_lifecycle b + 1, co_recovery := None,
                                    co_quarantine := None\<rparr>);
            b2 = finish_active env Failed (Some safe_failure) Turns_Disposed False False b1;
            b3 = on_feed (\<lambda>f. f\<lparr>flush_pending := False, feed_queue := [], feed_identity := None, feed_losses := [],
                                feed_reserved := []\<rparr>) b2
        in (fold (\<lambda>c. disconnect_turn_client env c False) (map_keys (co_clients b3)) b3)\<lparr>co_clients := []\<rparr>)"

section \<open>The step function\<close>

datatype turn_event =
    Turn_Connect
  | Turn_Disconnect nat
  | Start_Call nat jsvalue
  | Steer_Call nat jsvalue
  | Interrupt_Call nat jsvalue
  | Turn_Lease_Granted nat int
  | Turn_Lease_Denied nat
  | Turn_Response nat "jsvalue option"
  | Restart_Settled nat "int option"
  | Turn_Timer nat
  | Turn_Resume nat
  | Turn_Notified jsstr jsvalue int
  | Turn_App_State app_state int
  | Turn_Flush
  | Delivery_Done nat nat
  | Delivery_Failed nat
  | Dispose_Turns

fun turn_next :: "turn_env \<Rightarrow> coordinator \<Rightarrow> turn_event \<Rightarrow> coordinator" where
  "turn_next env b Turn_Connect = connect_turn_client b"
| "turn_next env b (Turn_Disconnect c) = disconnect_turn_client env c True b"
| "turn_next env b (Start_Call c v) = start_call env c v b"
| "turn_next env b (Steer_Call c v) = steer_call env c v b"
| "turn_next env b (Interrupt_Call c v) = interrupt_call env c v b"
| "turn_next env b (Turn_Lease_Granted k g) = turn_lease_granted k g b"
| "turn_next env b (Turn_Lease_Denied k) = turn_lease_denied k b"
| "turn_next env b (Turn_Response k raw) = turn_response k raw b"
| "turn_next env b (Restart_Settled k result) = restart_settled k result b"
| "turn_next env b (Turn_Timer k) = turn_timer_fired env k b"
| "turn_next env b (Turn_Resume k) = turn_resume env k b"
| "turn_next env b (Turn_Notified m v g) = on_turn_notification env m v g b"
| "turn_next env b (Turn_App_State st g) = on_app_state env st g b"
| "turn_next env b Turn_Flush = flush_turn_events env b"
| "turn_next env b (Delivery_Done c version) = finish_delivery env c version b"
| "turn_next env b (Delivery_Failed c) = disconnect_turn_client env c True b"
| "turn_next env b Dispose_Turns = dispose_turns env b"

definition turn_step :: "turn_env \<Rightarrow> coordinator \<Rightarrow> turn_event \<Rightarrow> coordinator \<times> turn_effect list" where
  "turn_step env b e = (turn_next env b e, drop (length (co_history b)) (co_history (turn_next env b e)))"

end
