(* ===== verification/TurnSizes.thy ===== *)
theory TurnSizes
  imports TurnFeed Wire
begin

text \<open>
  Facts on the sizes the turn coordinator computes (\<open>batchBytes\<close>, \<open>eventArrayBytes\<close> and
  \<open>queuedEntriesBytes\<close> of \<open>src/node/ride-codex-turn-coordinator.ts\<close>): they are the sizes of the
  texts that will be sent, and they can only shrink when events leave the queue or warnings are given up.
\<close>

section \<open>The size of a batch text\<close>

lemma bytes_append: "clean a \<Longrightarrow> utf8_byte_length (a @ b) = utf8_byte_length a + utf8_byte_length b"
  by (simp add: utf8_byte_length_sum code_points_append clean_def)

lemma bytes_Cons: "clean [c] \<Longrightarrow> utf8_byte_length (c # s) = utf8_byte_length [c] + utf8_byte_length s"
  using bytes_append [of "[c]" s] by simp

lemma bytes_mark [simp]:
  "utf8_byte_length [0x22] = 1" "utf8_byte_length [0x2C] = 1" "utf8_byte_length [0x3A] = 1"
  "utf8_byte_length [0x5B] = 1" "utf8_byte_length [0x5D] = 1" "utf8_byte_length [0x7B] = 1"
  "utf8_byte_length [0x7D] = 1"
  by (simp_all add: utf8_byte_length_ascii ascii_def)

lemma bytes_comma_separated:
  "(\<And>s. s \<in> set ss \<Longrightarrow> clean s) \<Longrightarrow> ss \<noteq> [] \<Longrightarrow>
     utf8_byte_length (comma_separated ss) = sum_list (map utf8_byte_length ss) + int (length ss) - 1"
  by (induction ss rule: comma_separated.induct) (simp_all add: bytes_append bytes_Cons)

lemma event_array_text:
  "event_array_bytes es = utf8_byte_length (json_stringify (JArr (map event_json es)))"
proof (cases "es = []")
  case True
  then show ?thesis by (simp add: event_array_bytes_def bytes_Cons)
next
  case False
  then have "utf8_byte_length (comma_separated (map json_stringify (map event_json es))) =
      sum_list (map event_bytes es) + int (length es) - 1"
    by (subst bytes_comma_separated) (auto simp: o_def event_bytes_def [abs_def])
  moreover have "clean (comma_separated (map json_stringify (map event_json es)))"
    by (rule clean_comma_separated) auto
  ultimately show ?thesis
    using False by (simp add: event_array_bytes_def bytes_Cons bytes_append)
qed

text \<open>The text of a batch: a head that does not depend on its events, the events and a brace.\<close>

definition batch_head :: "event_batch \<Rightarrow> jsstr" where
  "batch_head b =
     [0x7B] @ comma_separated (map (\<lambda>(k, v). quote_string (js k) @ [0x3A] @ json_stringify v)
       [(''generation'', int_json (batch_generation b)), (''turnSequence'', int_json (batch_sequence b)),
        (''threadId'', JStr (batch_thread b)), (''turnId'', JStr (batch_turn b))])
     @ [0x2C] @ quote_string (js ''events'') @ [0x3A]"

lemma clean_batch_head: "clean (batch_head b)"
  unfolding batch_head_def
  by (intro clean_append clean_comma_separated) (auto simp del: append_Cons intro!: clean_append)

lemma batch_text:
  "json_stringify (batch_json b) =
     batch_head b @ json_stringify (JArr (map event_json (batch_events b))) @ [0x7D]"
  by (simp add: batch_json_def obj_def batch_head_def)

lemma batch_head_events [simp]: "batch_head (b\<lparr>batch_events := es\<rparr>) = batch_head b"
  by (simp add: batch_head_def)

lemma batch_bytes_head: "batch_bytes b = utf8_byte_length (batch_head b) + 1 + event_array_bytes (batch_events b)"
proof -
  have "utf8_byte_length (json_stringify (batch_json (b\<lparr>batch_events := []\<rparr>))) =
      utf8_byte_length (batch_head b) + (event_array_bytes [] + 1)"
    unfolding batch_text [of "b\<lparr>batch_events := []\<rparr>"]
    by (simp add: event_array_text bytes_append bytes_Cons clean_batch_head del: json_stringify.simps)
  then show ?thesis by (simp add: batch_bytes_def event_array_bytes_def)
qed

lemma batch_bytes_text: "batch_bytes b = utf8_byte_length (json_stringify (batch_json b))"
  unfolding batch_bytes_head batch_text
  by (simp add: event_array_text bytes_append clean_batch_head del: json_stringify.simps)

text \<open>C11. The coordinator prices a batch from the sizes of its events, without printing it again; the
  price is the number of UTF-8 bytes of the JSON text that is sent.\<close>

theorem batch_price_exact: "batch_bytes b = utf8_byte_length (json_stringify (batch_json b))"
  by (rule batch_bytes_text)

section \<open>The price of a run of events\<close>

lemma event_bytes_nonneg [simp]: "0 \<le> event_bytes e"
  by (simp add: event_bytes_def)

definition head_price :: "turn_identity \<Rightarrow> int" where
  "head_price i = utf8_byte_length (batch_head (batch_of i [])) + 2"

definition events_price :: "ui_event list \<Rightarrow> int" where
  "events_price es = sum_list (map (\<lambda>e. event_bytes e + 1) es)"

definition run_price :: "nat \<Rightarrow> turn_identity \<Rightarrow> ui_event list \<Rightarrow> int" where
  "run_price n i es = head_price i * int ((length es + n - 1) div n) + events_price es"

lemma head_price_nonneg [simp]: "0 \<le> head_price i"
  by (simp add: head_price_def)

lemma events_price_nonneg [simp]: "0 \<le> events_price es"
  unfolding events_price_def by (rule sum_list_map_nonneg) simp

lemma events_price_append [simp]: "events_price (xs @ ys) = events_price xs + events_price ys"
  by (simp add: events_price_def)

lemma events_price_simps [simp]: "events_price [] = 0" "events_price (e # es) = event_bytes e + 1 + events_price es"
  by (simp_all add: events_price_def)

lemma run_price_nonneg [simp]: "0 \<le> run_price n i es"
  by (simp add: run_price_def)

lemma run_price_Nil [simp]: "0 < n \<Longrightarrow> run_price n i [] = 0"
  by (simp add: run_price_def)

lemma batch_price: "es \<noteq> [] \<Longrightarrow> batch_bytes (batch_of i es) = head_price i + events_price es"
proof -
  assume es: "es \<noteq> []"
  have "sum_list (map (\<lambda>e. event_bytes e + 1) es) = sum_list (map event_bytes es) + int (length es)"
    by (induction es) auto
  moreover have "batch_head (batch_of i es) = batch_head (batch_of i [])"
    by (simp add: batch_head_def batch_of_def)
  ultimately show ?thesis
    using es by (simp add: batch_bytes_head head_price_def events_price_def event_array_bytes_def)
      (simp add: batch_of_def)
qed

lemma run_price_take:
  assumes "es \<noteq> []" "0 < n"
  shows "run_price n i es = batch_bytes (batch_of i (take n es)) + run_price n i (drop n es)"
proof -
  have "(length es + n - 1) div n = Suc ((length (drop n es) + n - 1) div n)"
  proof (cases "n \<le> length es")
    case True
    define m where "m = length es - n"
    from True have "length es + n - 1 = (m + n - 1) + n" using assms(2) unfolding m_def by linarith
    then have "(length es + n - 1) div n = Suc ((m + n - 1) div n)" using assms(2) by (simp only: div_add_self2)
    then show ?thesis by (simp add: m_def)
  next
    case False
    have len: "0 < length es" using assms(1) by simp
    then have eq: "length es + n - 1 = (length es - 1) + n" by linarith
    have "(length es - 1) div n = 0" using False by simp
    then have "(length es + n - 1) div n = 1" unfolding eq using assms(2) by (subst div_add_self2) auto
    with False assms(2) show ?thesis by simp
  qed
  moreover have "events_price es = events_price (take n es) + events_price (drop n es)"
    by (simp flip: events_price_append)
  moreover have "take n es \<noteq> []" using assms by simp
  ultimately show ?thesis by (simp add: run_price_def batch_price algebra_simps)
qed

lemma chunk_bytes_price:
  "0 < n \<Longrightarrow> 0 \<le> a \<Longrightarrow> a \<le> max_safe_integer \<Longrightarrow>
     chunk_bytes n i es a = min max_safe_integer (a + run_price n i es)"
proof (induction n i es a rule: chunk_bytes.induct)
  case (1 n i es a)
  show ?case
  proof (cases "es = []")
    case True
    with 1 show ?thesis by (subst chunk_bytes.simps) simp
  next
    case False
    let ?s = "a + batch_bytes (batch_of i (take n es))"
    have pos: "0 \<le> batch_bytes (batch_of i (take n es))"
      using False 1 by (subst batch_price) auto
    show ?thesis
    proof (cases "safe_int ?s")
      case True
      then have "chunk_bytes n i (drop n es) ?s = min max_safe_integer (?s + run_price n i (drop n es))"
        using "1.IH" [of ?s] False "1.prems" pos by (simp add: safe_int_def)
      with True False "1.prems" show ?thesis
        by (subst chunk_bytes.simps) (simp add: Let_def run_price_take [of es n i] algebra_simps)
    next
      case unsafe: False
      then have over: "max_safe_integer < ?s" using pos "1.prems"
        by (auto simp: safe_int_def)
      have "run_price n i es = batch_bytes (batch_of i (take n es)) + run_price n i (drop n es)"
        by (rule run_price_take) (use False "1.prems" in simp_all)
      then have "max_safe_integer \<le> a + run_price n i es"
        using over run_price_nonneg [of n i "drop n es"] by linarith
      with unsafe False "1.prems" show ?thesis by (subst chunk_bytes.simps) (simp add: Let_def)
    qed
  qed
qed

lemma run_price_mono: "length xs \<le> length ys \<Longrightarrow> events_price xs \<le> events_price ys \<Longrightarrow> run_price n i xs \<le> run_price n i ys"
  unfolding run_price_def by (intro add_mono mult_left_mono) (auto intro!: div_le_mono)

lemma before_terminal_price: "events_price es \<le> events_price (before_terminal ws es)"
proof -
  have "events_price es = events_price (takeWhile (\<lambda>e. \<not> is_turn_terminal e) es)
      + events_price (dropWhile (\<lambda>e. \<not> is_turn_terminal e) es)"
    by (simp flip: events_price_append)
  then show ?thesis by (simp add: before_terminal_def)
qed

lemma before_terminal_length: "length (before_terminal ws es) = length ws + length es"
proof -
  have "length es = length (takeWhile (\<lambda>e. \<not> is_turn_terminal e) es) + length (dropWhile (\<lambda>e. \<not> is_turn_terminal e) es)"
    by (metis length_append takeWhile_dropWhile_id)
  then show ?thesis by (simp add: before_terminal_def)
qed

section \<open>Warnings only add to the price\<close>

definition sane :: "int \<Rightarrow> bool" where
  "sane a \<longleftrightarrow> 0 \<le> a \<and> a \<le> max_safe_integer"

lemma run_bytes_mono:
  assumes "0 < n" "sane a" "sane c" "a \<le> c"
  shows "sane (fst (run_bytes n [] g (a, s)))" "sane (fst (run_bytes n ls g (c, t)))"
    "fst (run_bytes n [] g (a, s)) \<le> fst (run_bytes n ls g (c, t))"
proof -
  have free: "fst (run_bytes n [] g (a, s)) = min max_safe_integer (a + run_price n (fst g) (snd g))"
    using assms by (simp add: run_bytes_def map_get_def Let_def chunk_bytes_price sane_def)
  obtain es where es: "fst (run_bytes n ls g (c, t)) = min max_safe_integer (c + run_price n (fst g) es)"
      "run_price n (fst g) (snd g) \<le> run_price n (fst g) es"
  proof (cases "if identity_key (fst g) \<in> set t then None else map_get ls (identity_key (fst g))")
    case None
    with assms show thesis
      by (intro that [of "snd g"]) (simp_all add: run_bytes_def Let_def chunk_bytes_price sane_def)
  next
    case (Some m)
    with assms show thesis
      by (intro that [of "before_terminal (budget_events m) (snd g)"])
        (simp_all add: run_bytes_def Let_def chunk_bytes_price sane_def run_price_mono before_terminal_price before_terminal_length)
  qed
  show "sane (fst (run_bytes n [] g (a, s)))"
    using assms run_price_nonneg [of n "fst g" "snd g"] max_safe_integer_pos unfolding free sane_def by linarith
  show "sane (fst (run_bytes n ls g (c, t)))"
    using assms run_price_nonneg [of n "fst g" es] max_safe_integer_pos unfolding es(1) sane_def by linarith
  show "fst (run_bytes n [] g (a, s)) \<le> fst (run_bytes n ls g (c, t))"
    using assms(4) es(2) unfolding free es(1) by linarith
qed

lemma runs_bytes_mono:
  "0 < n \<Longrightarrow> sane a \<Longrightarrow> sane c \<Longrightarrow> a \<le> c \<Longrightarrow>
     fst (runs_bytes n [] g es (a, s)) \<le> fst (runs_bytes n ls g es (c, t))"
proof (induction es arbitrary: g a c s t)
  case Nil
  then show ?case by (cases g) (auto intro: run_bytes_mono)
next
  case (Cons e es)
  show ?case
  proof (cases g)
    case None
    with Cons show ?thesis by simp
  next
    case (Some h)
    let ?a = "run_bytes n [] h (a, s)" and ?c = "run_bytes n ls h (c, t)"
    have "fst (runs_bytes n [] g' es (fst ?a, snd ?a)) \<le> fst (runs_bytes n ls g' es (fst ?c, snd ?c))" for g'
      by (rule Cons.IH) (use Cons.prems in \<open>auto intro: run_bytes_mono\<close>)
    with Some Cons show ?thesis by simp
  qed
qed

lemma queued_bytes_free: "0 < lim_batch l \<Longrightarrow> queued_bytes l [] q \<le> queued_bytes l ls q"
  unfolding queued_bytes_def by (rule runs_bytes_mono) (auto simp: sane_def)

end
