(* ===== verification/TurnPrice.thy ===== *)
theory TurnPrice
  imports TurnSizes "HOL-Library.Sublist"
begin

text \<open>
  The price of a queue can only fall when events leave it, wherever they stood. The runs of one
  identity are priced in chunks; the reference is a greedy count that opens a chunk when the
  identity changes or the open chunk is full.
\<close>

section \<open>The greedy price\<close>

text \<open>The state is the open identity and the free places of its chunk.\<close>

type_synonym open_chunk = "(turn_identity \<times> nat) option"

definition has_place :: "open_chunk \<Rightarrow> turn_identity \<Rightarrow> bool" where
  "has_place c i \<longleftrightarrow> (case c of None \<Rightarrow> False | Some (j, r) \<Rightarrow> j = i \<and> 0 < r)"

definition next_chunk :: "nat \<Rightarrow> open_chunk \<Rightarrow> turn_identity \<Rightarrow> open_chunk" where
  "next_chunk n c i = Some (i, if has_place c i then (case c of None \<Rightarrow> 0 | Some (j, r) \<Rightarrow> r - 1) else n - 1)"

fun greedy_price :: "nat \<Rightarrow> open_chunk \<Rightarrow> queued_event list \<Rightarrow> int" where
  "greedy_price n c [] = 0"
| "greedy_price n c (e # es) =
     (if has_place c (queued_identity e) then 0 else head_price (queued_identity e)) + event_bytes (queued_ui e) + 1
     + greedy_price n (next_chunk n c (queued_identity e)) es"

lemma greedy_price_nonneg: "0 \<le> greedy_price n c es"
  by (induction es arbitrary: c) (auto intro!: add_nonneg_nonneg)

text \<open>More free places never cost more, and fewer cost at most one head more.\<close>

lemma greedy_places:
  "r < n \<Longrightarrow> q < n \<Longrightarrow>
     (q \<le> r \<longrightarrow> greedy_price n (Some (i, r)) es \<le> greedy_price n (Some (i, q)) es)
     \<and> greedy_price n (Some (i, q)) es \<le> head_price i + greedy_price n (Some (i, r)) es"
proof (induction es arbitrary: r q)
  case Nil
  then show ?case by simp
next
  case (Cons e es)
  note le = Cons.IH [THEN conjunct1, rule_format] and one = Cons.IH [THEN conjunct2]
  show ?case
  proof (cases "queued_identity e = i")
    case False
    then show ?thesis by (simp add: has_place_def next_chunk_def)
  next
    case True
    with Cons.prems le [of "r - 1" "q - 1"] one [of "r - 1" "q - 1"] one [of "n - 1" "r - 1"] le [of "n - 1" "r - 1"]
      one [of "n - 1" "q - 1"] head_price_nonneg [of i]
    show ?thesis by (cases r; cases q) (simp_all add: has_place_def next_chunk_def)
  qed
qed

lemma greedy_more: "q \<le> r \<Longrightarrow> r < n \<Longrightarrow> greedy_price n (Some (i, r)) es \<le> greedy_price n (Some (i, q)) es"
  using greedy_places [of r n q i es] by simp

lemma greedy_one: "r < n \<Longrightarrow> q < n \<Longrightarrow> greedy_price n (Some (i, q)) es \<le> head_price i + greedy_price n (Some (i, r)) es"
  using greedy_places [of r n q i es] by simp

lemma greedy_full: "0 < n \<Longrightarrow> q < n \<Longrightarrow> greedy_price n (Some (i, q)) es \<le> head_price i + greedy_price n (Some (i, n - 1)) es"
  by (rule greedy_one) auto

definition open_ok :: "nat \<Rightarrow> open_chunk \<Rightarrow> bool" where
  "open_ok n c \<longleftrightarrow> (case c of None \<Rightarrow> True | Some (_, r) \<Rightarrow> r < n)"

lemma open_ok_next: "0 < n \<Longrightarrow> open_ok n c \<Longrightarrow> open_ok n (next_chunk n c i)"
  by (auto simp: open_ok_def next_chunk_def has_place_def split: option.splits)

text \<open>What follows never costs more than with one more event before it.\<close>

lemma greedy_switch:
  assumes "0 < n" "open_ok n c" "\<not> has_place c j"
  shows "greedy_price n c es \<le> head_price j + greedy_price n (Some (j, n - 1)) es"
proof (cases es)
  case Nil
  then show ?thesis by simp
next
  case (Cons e es')
  let ?i = "queued_identity e"
  show ?thesis
  proof (cases "?i = j")
    case True
    have "greedy_price n (Some (j, n - 1)) es' \<le> greedy_price n (Some (j, n - 1 - 1)) es'"
      using assms(1) by (intro greedy_more) auto
    with True assms(3) Cons head_price_nonneg [of j] show ?thesis
      by (cases "n = 1") (simp_all add: has_place_def [of "Some (j, n - Suc 0)"] next_chunk_def)
  next
    case False
    have step: "greedy_price n (next_chunk n c ?i) es' \<le>
        (if has_place c ?i then head_price ?i else 0) + greedy_price n (Some (?i, n - 1)) es'"
      using assms(1,2) greedy_full [of n _ ?i es']
      by (auto simp: next_chunk_def open_ok_def has_place_def split: option.split)
    have "greedy_price n (Some (j, n - 1)) es =
        head_price ?i + event_bytes (queued_ui e) + 1 + greedy_price n (Some (?i, n - 1)) es'"
      using False Cons by (simp add: has_place_def next_chunk_def)
    moreover have "greedy_price n c es = head_price ?i - (if has_place c ?i then head_price ?i else 0) + event_bytes (queued_ui e) + 1
        + greedy_price n (next_chunk n c ?i) es'"
      using Cons by simp
    ultimately show ?thesis using step head_price_nonneg [of j] by linarith
  qed
qed

lemma greedy_drop_hd:
  assumes "0 < n" "open_ok n c"
  shows "greedy_price n c es \<le> greedy_price n c (e # es)"
proof (cases "has_place c (queued_identity e)")
  case True
  then obtain r where c: "c = Some (queued_identity e, r)" "0 < r"
    by (auto simp: has_place_def split: option.splits)
  then have "greedy_price n c es \<le> greedy_price n (Some (queued_identity e, r - 1)) es"
    using assms by (auto simp: open_ok_def intro!: greedy_more)
  then have "greedy_price n c es \<le> event_bytes (queued_ui e) + 1 + greedy_price n (Some (queued_identity e, r - 1)) es"
    using event_bytes_nonneg [of "queued_ui e"] by linarith
  with True c show ?thesis by (simp add: next_chunk_def)
next
  case False
  have "greedy_price n c es \<le> event_bytes (queued_ui e) + 1
      + (head_price (queued_identity e) + greedy_price n (Some (queued_identity e, n - 1)) es)"
    using greedy_switch [OF assms False, of es] event_bytes_nonneg [of "queued_ui e"] by linarith
  with False show ?thesis by (simp add: next_chunk_def algebra_simps)
qed

lemma greedy_subseq:
  "subseq xs ys \<Longrightarrow> 0 < n \<Longrightarrow> open_ok n c \<Longrightarrow> greedy_price n c xs \<le> greedy_price n c ys"
proof (induction arbitrary: c rule: list_emb.induct)
  case (list_emb_Nil ys)
  then show ?case by (simp add: greedy_price_nonneg)
next
  case (list_emb_Cons xs ys y)
  then have "greedy_price n c xs \<le> greedy_price n c ys" by simp
  also have "\<dots> \<le> greedy_price n c (y # ys)" by (rule greedy_drop_hd) (use list_emb_Cons in auto)
  finally show ?case .
next
  case (list_emb_Cons2 x y xs ys)
  then show ?case by (auto intro: open_ok_next)
qed

section \<open>It is the price the program computes\<close>

definition places :: "nat \<Rightarrow> ui_event list \<Rightarrow> nat" where
  "places n es = (if length es mod n = 0 then 0 else n - length es mod n)"

lemma places_less: "0 < n \<Longrightarrow> places n es < n"
  by (simp add: places_def)

lemma places_0: "0 < n \<Longrightarrow> places n es = 0 \<longleftrightarrow> length es mod n = 0"
  using mod_less_divisor [of n "length es"] by (auto simp: places_def simp del: mod_less_divisor)

lemma places_snoc: "0 < n \<Longrightarrow> places n (es @ [e]) = (if places n es = 0 then n - 1 else places n es - 1)"
  using mod_less_divisor [of n "length es"] by (auto simp: places_def mod_Suc simp del: mod_less_divisor)

lemma div_up: "0 < n \<Longrightarrow> (L + n) div n = (L + n - 1) div n + (if L mod n = 0 then 1 else 0)" for L n :: nat
proof -
  assume n: "0 < n"
  have eq: "L = n * (L div n) + L mod n" by simp
  have "(L + n - 1) div n = (L mod n + n - 1) div n + L div n"
  proof -
    have "L + n - 1 = (L mod n + n - 1) + n * (L div n)" using eq n by linarith
    then show ?thesis using n by (simp only: div_mult_self2)
  qed
  moreover have "(L mod n + n - 1) div n = (if L mod n = 0 then 0 else 1)"
    using n mod_less_divisor [OF n, of L] by (auto simp: div_nat_eqI simp del: mod_less_divisor)
  ultimately show ?thesis using n by simp
qed

lemma run_price_snoc:
  "0 < n \<Longrightarrow> run_price n i (es @ [e]) =
     run_price n i es + (if places n es = 0 then head_price i else 0) + event_bytes e + 1"
  using div_up [of n "length es"] by (simp add: run_price_def places_0 algebra_simps)

fun open_run :: "nat \<Rightarrow> (turn_identity \<times> ui_event list) option \<Rightarrow> open_chunk" where
  "open_run n None = None"
| "open_run n (Some (i, es)) = Some (i, places n es)"

fun paid :: "nat \<Rightarrow> (turn_identity \<times> ui_event list) option \<Rightarrow> int" where
  "paid n None = 0"
| "paid n (Some (i, es)) = run_price n i es"

lemma run_bytes_free:
  "0 < n \<Longrightarrow> sane a \<Longrightarrow> run_bytes n [] (i, es) (a, s) = (min max_safe_integer (a + run_price n i es), s)"
  by (simp add: run_bytes_def map_get_def Let_def chunk_bytes_price sane_def)

lemma paid_nonneg: "0 \<le> paid n g"
  by (cases "(n, g)" rule: paid.cases) simp_all

lemma runs_bytes_free:
  "0 < n \<Longrightarrow> sane a \<Longrightarrow>
     runs_bytes n [] g es (a, s) = (min max_safe_integer (a + paid n g + greedy_price n (open_run n g) es), s)"
proof (induction es arbitrary: g a)
  case Nil
  then show ?case by (cases "(n, g)" rule: paid.cases) (auto simp: run_bytes_free sane_def)
next
  case (Cons e es)
  let ?i = "queued_identity e" and ?u = "queued_ui e"
  have new: "greedy_price n (Some (?i, n - 1)) es + run_price n ?i [?u] =
      head_price ?i + event_bytes ?u + 1 + greedy_price n (Some (?i, n - 1)) es"
    using run_price_snoc [of n ?i "[]" ?u] Cons.prems by (simp add: places_def)
  have first: "places n [?u] = n - 1"
    using places_snoc [of n "[]" ?u] Cons.prems by (simp add: places_def)
  show ?case
  proof (cases g)
    case None
    with Cons first new show ?thesis by (simp add: has_place_def next_chunk_def algebra_simps)
  next
    case (Some h)
    obtain j xs where h: "h = (j, xs)" by (cases h)
    show ?thesis
    proof (cases "j = ?i")
      case True
      with Some h Cons show ?thesis
        by (simp add: run_price_snoc places_snoc has_place_def next_chunk_def algebra_simps)
    next
      case False
      let ?a = "min max_safe_integer (a + run_price n j xs)"
      have a: "sane ?a" using Cons.prems run_price_nonneg [of n j xs] max_safe_integer_pos
        unfolding sane_def by linarith
      have pos: "0 \<le> run_price n ?i [?u] + greedy_price n (Some (?i, n - 1)) es"
        using run_price_nonneg [of n ?i "[?u]"] greedy_price_nonneg [of n "Some (?i, n - 1)" es] by linarith
      from False Some h Cons a first have "runs_bytes n [] g (e # es) (a, s) =
          (min max_safe_integer (?a + run_price n ?i [?u] + greedy_price n (Some (?i, n - 1)) es), s)"
        by (simp add: run_bytes_free)
      also have "\<dots> = (min max_safe_integer (a + run_price n j xs + (run_price n ?i [?u] + greedy_price n (Some (?i, n - 1)) es)), s)"
        using pos by auto
      finally show ?thesis using False Some h new by (simp add: has_place_def next_chunk_def algebra_simps)
    qed
  qed
qed

lemma queued_bytes_greedy: "0 < lim_batch l \<Longrightarrow> queued_bytes l [] q = min max_safe_integer (greedy_price (lim_batch l) None q)"
  by (simp add: queued_bytes_def runs_bytes_free sane_def)

text \<open>What is left of a queue fits where the queue fitted.\<close>

lemma queued_bytes_subseq:
  "subseq xs ys \<Longrightarrow> 0 < lim_batch l \<Longrightarrow> queued_bytes l [] xs \<le> queued_bytes l [] ys"
  using greedy_subseq [of xs ys "lim_batch l" None] by (simp add: queued_bytes_greedy open_ok_def min_le_iff_disj)

end
