(* ===== verification/TurnQueue.thy ===== *)
theory TurnQueue
  imports TurnPrice EventWire
begin

text \<open>
  What the event queue of the turn coordinator keeps (\<open>#enqueue\<close> to \<open>#flush\<close> of
  \<open>src/node/ride-codex-turn-coordinator.ts\<close>): its byte budget and the sizes of its tables, and the
  boundaries of the turns, which give way to nothing but boundaries of another turn.
\<close>

section \<open>Removals\<close>

abbreviation protected_of_queue :: "queued_event list \<Rightarrow> queued_event list" where
  "protected_of_queue \<equiv> filter (\<lambda>e. is_protected (queued_ui e))"

text \<open>A queue that lost some of its ordinary events.\<close>

definition trimmed :: "queued_event list \<Rightarrow> queued_event list \<Rightarrow> bool" where
  "trimmed q' q \<longleftrightarrow> subseq q' q \<and> protected_of_queue q' = protected_of_queue q"

lemma trimmed_refl [simp]: "trimmed q q"
  by (simp add: trimmed_def)

lemma trimmed_trans: "trimmed p q \<Longrightarrow> trimmed q r \<Longrightarrow> trimmed p r"
  unfolding trimmed_def by (metis subseq_order.trans)

lemma take_first_split:
  "take_first P xs = Some (y, ys) \<Longrightarrow> \<exists>us vs. xs = us @ y # vs \<and> ys = us @ vs \<and> P y"
proof (induction xs arbitrary: ys)
  case (Cons x xs)
  show ?case
  proof (cases "P x")
    case True
    with Cons.prems show ?thesis by (intro exI [of _ "[]"] exI [of _ xs]) auto
  next
    case False
    with Cons.prems obtain zs where zs: "take_first P xs = Some (y, zs)" "ys = x # zs" by auto
    from Cons.IH [OF zs(1)] obtain us vs where "xs = us @ y # vs" "zs = us @ vs" "P y" by blast
    with zs show ?thesis by (intro exI [of _ "x # us"] exI [of _ vs]) auto
  qed
qed simp

lemma take_first_none: "take_first P xs = None \<longleftrightarrow> list_all (\<lambda>x. \<not> P x) xs"
  by (induction xs) auto

lemma trimmed_take_first: "take_first ordinary q = Some (e, q') \<Longrightarrow> trimmed q' q"
  by (auto simp: trimmed_def ordinary_def subseq_append' intro: list_emb_Cons dest!: take_first_split)

text \<open>The counters of the losses are safe integers, and there are at most 64 of them.\<close>

definition loss_fits :: "losses \<Rightarrow> bool" where
  "loss_fits m \<longleftrightarrow> nonnegative_ok (lost_events m) \<and> nonnegative_ok (lost_bytes m)"

definition losses_fit :: "loss_map \<Rightarrow> bool" where
  "losses_fit ls \<longleftrightarrow> length ls \<le> max_queue_metadata \<and> (\<forall>p \<in> set ls. loss_fits (snd p))"

definition tallied :: "feed_limits \<Rightarrow> queued_event list \<times> loss_map \<Rightarrow> bool" where
  "tallied l s \<longleftrightarrow> 0 \<le> lim_queued l \<and> (\<forall>e \<in> set (fst s). 0 \<le> queued_size e) \<and> losses_fit (snd s)"

lemma losses_fit_subset: "losses_fit ls \<Longrightarrow> set ls' \<subseteq> set ls \<Longrightarrow> length ls' \<le> length ls \<Longrightarrow> losses_fit ls'"
  by (auto simp: losses_fit_def)

lemma losses_fit_Nil [simp]: "losses_fit []"
  by (simp add: losses_fit_def)

lemma losses_fit_filter: "losses_fit ls \<Longrightarrow> losses_fit (filter P ls)"
  by (erule losses_fit_subset) auto

lemma losses_fit_delete: "losses_fit ls \<Longrightarrow> losses_fit (map_delete ls k)"
  by (simp add: map_delete_def losses_fit_filter)

lemma losses_fit_set: "losses_fit ls \<Longrightarrow> loss_fits m \<Longrightarrow> map_has ls k \<Longrightarrow> losses_fit (map_set ls k m)"
  by (auto simp: losses_fit_def map_set_def)

lemma losses_fit_get: "losses_fit ls \<Longrightarrow> map_get ls k = Some m \<Longrightarrow> loss_fits m"
  by (auto simp: losses_fit_def map_get_def dest!: map_of_SomeD)

lemma losses_fit_for:
  "losses_fit ls \<Longrightarrow> losses_fit (snd (losses_for i ls)) \<and> loss_fits (fst (losses_for i ls))"
  by (auto simp: losses_for_def Let_def map_set_def losses_fit_def max_queue_metadata_def loss_fits_def no_losses_def
      nonnegative_ok_def map_get_def dest: in_set_dropD dest!: map_of_SomeD split: option.split)

lemma losses_for_has: "map_has (snd (losses_for i ls)) (identity_key i)"
  by (auto simp: losses_for_def Let_def split: option.split) (simp add: map_has_get)

lemma loss_fits_count: "loss_fits m \<Longrightarrow> 0 \<le> n \<Longrightarrow> 0 \<le> k \<Longrightarrow> loss_fits (count_loss k n m)"
  by (auto simp: loss_fits_def count_loss_def saturating_add_def nonnegative_ok_def)

lemma losses_fit_add_drop: "losses_fit ls \<Longrightarrow> 0 \<le> n \<Longrightarrow> 0 \<le> lim_queued l \<Longrightarrow> losses_fit (add_drop l i n ls)"
  by (auto simp: add_drop_def Let_def intro!: losses_fit_set losses_for_has loss_fits_count losses_fit_for [THEN conjunct1]
      losses_fit_for [THEN conjunct2])

lemma tallied_subseq: "tallied l s \<Longrightarrow> subseq q (fst s) \<Longrightarrow> losses_fit ls \<Longrightarrow> tallied l (q, ls)"
  by (auto simp: tallied_def dest: list_emb_set)

lemma trimmed_subseq: "trimmed p q \<Longrightarrow> subseq p q"
  by (simp add: trimmed_def)

lemma tallied_drop:
  "tallied l (q, ls) \<Longrightarrow> take_first ordinary q = Some (e, q') \<Longrightarrow>
     tallied l (q', add_drop l (queued_identity e) (queued_size e) ls)"
proof -
  assume s: "tallied l (q, ls)" and e: "take_first ordinary q = Some (e, q')"
  from take_first_split [OF e] have "e \<in> set q" by auto
  with s have "losses_fit (add_drop l (queued_identity e) (queued_size e) ls)"
    by (auto simp: tallied_def intro: losses_fit_add_drop)
  with s show ?thesis using trimmed_subseq [OF trimmed_take_first [OF e]] by (intro tallied_subseq) auto
qed

lemma tallied_delete: "tallied l (q, ls) \<Longrightarrow> tallied l (q, map_delete ls k)"
  by (simp add: tallied_def losses_fit_delete)

lemma trim_loop_facts:
  "trimmed (fst (trim_loop l s)) (fst s)
   \<and> (tallied l s \<longrightarrow> tallied l (trim_loop l s))"
proof (induction l s rule: trim_loop.induct)
  case (1 l q ls)
  let ?warning = "List.find (\<lambda>(k, m). queued_for (lost_identity m) q) ls"
  show ?case
  proof (cases "queued_bytes l ls q \<le> lim_queued l")
    case True
    then show ?thesis by (simp add: trim_loop.simps [of l q ls])
  next
    case over: False
    show ?thesis
    proof (cases "take_first ordinary q")
      case (Some p)
      obtain e q' where p: "p = (e, q')" by (cases p)
      with Some have "take_first ordinary q = Some (e, q')" by simp
      note trans = trimmed_trans [OF _ trimmed_take_first [OF this]]
      from "1.IH"(2) [OF over Some p [symmetric]] over Some p show ?thesis
        by (auto simp: trim_loop.simps [of l q ls] intro: trans tallied_drop)
    next
      case stuck: None
      show ?thesis
      proof (cases ?warning)
        case None
        with over stuck show ?thesis by (simp add: trim_loop.simps [of l q ls])
      next
        case (Some p)
        obtain k m where p: "p = (k, m)" by (cases p)
        from "1.IH"(1) [OF over stuck Some p [symmetric]] over stuck Some p show ?thesis
          by (auto simp: trim_loop.simps [of l q ls] intro: tallied_delete)
      qed
    qed
  qed
qed

lemma trim_queue_facts:
  "trimmed (fst (trim_queue l s)) (fst s)"
  "tallied l s \<Longrightarrow> tallied l (trim_queue l s)"
  using trim_loop_facts [of l s]
  by (auto simp: trim_queue_def Let_def tallied_def losses_fit_filter)

lemma record_drop_facts:
  "trimmed (fst (record_drop l i n s)) (fst s)"
  "tallied l s \<Longrightarrow> 0 \<le> n \<Longrightarrow> tallied l (record_drop l i n s)"
  using trim_queue_facts [where l = l and s = "(fst s, add_drop l i n (snd s))"]
  by (auto simp: record_drop_def tallied_def losses_fit_add_drop)

lemma loss_fits_truncated: "loss_fits m \<Longrightarrow> loss_fits (m\<lparr>lost_truncated := b\<rparr>)"
  by (simp add: loss_fits_def)

lemma record_truncation_facts:
  "trimmed (fst (record_truncation l i s)) (fst s)"
  "tallied l s \<Longrightarrow> tallied l (record_truncation l i s)"
proof -
  let ?t = "(fst s, map_set (snd (losses_for i (snd s))) (identity_key i)
      ((fst (losses_for i (snd s)))\<lparr>lost_truncated := True\<rparr>))"
  have eq: "record_truncation l i s = trim_queue l ?t" by (simp add: record_truncation_def Let_def)
  have "tallied l s \<Longrightarrow> tallied l ?t"
    using losses_fit_for [of "snd s" i]
    by (auto simp: tallied_def intro!: losses_fit_set losses_for_has loss_fits_truncated)
  then show "trimmed (fst (record_truncation l i s)) (fst s)" "tallied l s \<Longrightarrow> tallied l (record_truncation l i s)"
    unfolding eq using trim_queue_facts [where l = l and s = ?t] by auto
qed

section \<open>Making room\<close>

text \<open>Events of other turns may go with their turn; the protected events of the incoming one's turn stay.\<close>

definition displaced :: "turn_identity \<Rightarrow> queued_event list \<Rightarrow> queued_event list \<Rightarrow> bool" where
  "displaced i q' q \<longleftrightarrow>
     subseq q' q \<and>
     filter (\<lambda>e. queued_identity e = i) (protected_of_queue q') = filter (\<lambda>e. queued_identity e = i) (protected_of_queue q)"

lemma displaced_refl [simp]: "displaced i q q"
  by (simp add: displaced_def)

lemma displaced_trans: "displaced i p q \<Longrightarrow> displaced i q r \<Longrightarrow> displaced i p r"
  unfolding displaced_def by (metis subseq_order.trans)

lemma trimmed_displaced: "trimmed q' q \<Longrightarrow> displaced i q' q"
  by (simp add: trimmed_def displaced_def)

lemma displaced_take_first: "take_first ordinary q = Some (e, q') \<Longrightarrow> displaced i q' q"
  by (rule trimmed_displaced [OF trimmed_take_first])

lemma displaced_without: "j \<noteq> i \<Longrightarrow> displaced i (fst (without_identity j (q, ls))) q"
  by (auto simp: displaced_def without_identity_def intro: arg_cong [where f = "\<lambda>P. filter P q"])

lemma tallied_without: "tallied l (q, ls) \<Longrightarrow> tallied l (without_identity j (q, ls))"
  by (auto simp: tallied_def without_identity_def losses_fit_delete)

lemma tallied_removed:
  "tallied l (q, ls) \<Longrightarrow> take_first ordinary q = Some (r, q') \<Longrightarrow> tallied l (q', count_removed l e r q' ls)"
  using tallied_drop [of l q ls r q']
  by (auto simp: count_removed_def Let_def tallied_def losses_fit_delete)

lemma tallied_take_first: "tallied l (q, ls) \<Longrightarrow> take_first ordinary q = Some (r, q') \<Longrightarrow> tallied l (q', ls)"
  by (auto simp: tallied_def dest!: take_first_split)

lemma boundary_room_facts:
  "displaced (queued_identity e) (fst (boundary_room l e s)) (fst s)
   \<and> (tallied l s \<longrightarrow> tallied l (boundary_room l e s))"
proof (induction l e s rule: boundary_room.induct)
  case (1 l e q ls)
  let ?key = "identity_key (queued_identity e)"
    and ?warning = "List.find (\<lambda>(k, m). queued_for (lost_identity m) q) ls"
    and ?other = "List.find (\<lambda>e'. queued_identity e' \<noteq> queued_identity e) q"
  show ?case
  proof (cases "queued_bytes l ls (q @ [e]) \<le> lim_queued l")
    case True
    then show ?thesis by (simp add: boundary_room.simps [of l e q ls])
  next
    case over: False
    show ?thesis
    proof (cases "map_has ls ?key")
      case True
      from "1.IH"(1) [OF over True] over True show ?thesis
        by (auto simp: boundary_room.simps [of l e q ls] intro: tallied_delete)
    next
      case own: False
      show ?thesis
      proof (cases ?warning)
        case (Some p)
        obtain k m where p: "p = (k, m)" by (cases p)
        from "1.IH"(4) [OF over own Some p [symmetric]] over own Some p show ?thesis
          by (auto simp: boundary_room.simps [of l e q ls] intro: tallied_delete)
      next
        case None
        show ?thesis
        proof (cases "take_first ordinary q")
          case (Some p)
          obtain r q' where p: "p = (r, q')" by (cases p)
          from "1.IH"(3) [OF over own None Some p [symmetric]] over own None Some p show ?thesis
            by (auto simp: boundary_room.simps [of l e q ls] intro: displaced_trans [OF _ displaced_take_first] tallied_removed)
        next
          case ordinary: None
          show ?thesis
          proof (cases ?other)
            case other: None
            with over own None ordinary show ?thesis by (simp add: boundary_room.simps [of l e q ls])
          next
            case (Some e')
            then have "queued_identity e' \<noteq> queued_identity e" by (auto simp: find_Some_iff)
            with "1.IH"(2) [OF over own None ordinary Some] over own None ordinary Some show ?thesis
              by (auto simp: boundary_room.simps [of l e q ls] intro: displaced_trans [OF _ displaced_without] tallied_without)
          qed
        qed
      qed
    qed
  qed
qed

lemma recovery_room_facts:
  "displaced (queued_identity e) (fst (recovery_room l e s)) (fst s)
   \<and> (tallied l s \<longrightarrow> tallied l (recovery_room l e s))"
proof (induction l e s rule: recovery_room.induct)
  case (1 l e q ls)
  let ?other = "List.find (\<lambda>e'. queued_identity e' \<noteq> queued_identity e) q"
  show ?case
  proof (cases "queued_bytes l ls (q @ [e]) \<le> lim_queued l")
    case True
    then show ?thesis by (simp add: recovery_room.simps [of l e q])
  next
    case over: False
    show ?thesis
    proof (cases "0 < length ls")
      case True
      have step: "recovery_room l e (q, ls) = recovery_room l e (q, [])"
        using over True by (simp add: recovery_room.simps [of l e q ls])
      have "tallied l (q, ls) \<longrightarrow> tallied l (q, [])" by (simp add: tallied_def)
      with "1.IH"(1) [OF over True] show ?thesis unfolding step by simp
    next
      case none: False
      show ?thesis
      proof (cases "take_first ordinary q")
        case (Some p)
        obtain r q' where p: "p = (r, q')" by (cases p)
        from "1.IH"(3) [OF over none Some p [symmetric]] over none Some p show ?thesis
          by (auto simp: recovery_room.simps [of l e q] intro: displaced_trans [OF _ displaced_take_first] tallied_take_first)
      next
        case ordinary: None
        show ?thesis
        proof (cases ?other)
          case None
          with over none ordinary show ?thesis by (simp add: recovery_room.simps [of l e q])
        next
          case (Some e')
          then have "queued_identity e' \<noteq> queued_identity e" by (auto simp: find_Some_iff)
          with "1.IH"(2) [OF over none ordinary Some] over none ordinary Some show ?thesis
            by (auto simp: recovery_room.simps [of l e q] intro: displaced_trans [OF _ displaced_without] tallied_without)
        qed
      qed
    qed
  qed
qed

lemma queue_room_facts:
  "displaced (queued_identity e) (fst (make_room l e s)) (fst s)"
  "tallied l s \<Longrightarrow> tallied l (make_room l e s)"
  using boundary_room_facts [of e l s] recovery_room_facts [of e l s] by (simp_all add: make_room_def)

lemma make_room_ordinary: "ordinary e \<Longrightarrow> make_room l e s = s"
  by (simp add: make_room_def ordinary_def is_protected_def)

section \<open>Entering the queue\<close>

definition limits_fit :: "feed_limits \<Rightarrow> bool" where
  "limits_fit l \<longleftrightarrow> 2 \<le> lim_batch l \<and> 0 \<le> lim_queued l \<and> lim_queued l < max_safe_integer"

lemma limits_fit_pos: "limits_fit l \<Longrightarrow> 0 < lim_batch l"
  by (simp add: limits_fit_def)

text \<open>The queue within its budget: the queued events fit as the batches they will be sent in. Warnings are
  left out of the price, as they are made when there is room for them.\<close>

definition queue_fits :: "feed_limits \<Rightarrow> queued_event list \<times> loss_map \<Rightarrow> bool" where
  "queue_fits l s \<longleftrightarrow> queued_bytes l [] (fst s) \<le> lim_queued l \<and> tallied l s"

lemma queue_fits_subseq:
  "limits_fit l \<Longrightarrow> queue_fits l s \<Longrightarrow> subseq (fst t) (fst s) \<Longrightarrow> tallied l t \<Longrightarrow> queue_fits l t"
  using queued_bytes_subseq [of "fst t" "fst s" l] limits_fit_pos [of l] by (auto simp: queue_fits_def)

lemma displaced_subseq: "displaced i p q \<Longrightarrow> subseq p q"
  by (simp add: displaced_def)

lemma queue_fits_tallied: "queue_fits l s \<Longrightarrow> tallied l s"
  by (simp add: queue_fits_def)

lemma queue_fits_make_room: "limits_fit l \<Longrightarrow> queue_fits l s \<Longrightarrow> queue_fits l (make_room l e s)"
  by (rule queue_fits_subseq)
    (auto intro: displaced_subseq [OF queue_room_facts(1)] queue_room_facts(2) queue_fits_tallied)

lemma queue_fits_record_drop: "limits_fit l \<Longrightarrow> queue_fits l s \<Longrightarrow> 0 \<le> n \<Longrightarrow> queue_fits l (record_drop l i n s)"
  by (rule queue_fits_subseq)
    (auto intro: trimmed_subseq [OF record_drop_facts(1)] record_drop_facts(2) queue_fits_tallied)

lemma queue_fits_priced:
  "limits_fit l \<Longrightarrow> queued_bytes l ls q \<le> lim_queued l \<Longrightarrow> tallied l (q, ls) \<Longrightarrow> queue_fits l (q, ls)"
  using queued_bytes_free [of l q ls] limits_fit_pos [of l] by (simp add: queue_fits_def)

lemma queue_fits_record_truncation: "limits_fit l \<Longrightarrow> queue_fits l s \<Longrightarrow> queue_fits l (record_truncation l i s)"
  by (rule queue_fits_subseq)
    (auto intro: trimmed_subseq [OF record_truncation_facts(1)] record_truncation_facts(2) queue_fits_tallied)

lemma tallied_snoc: "tallied l s \<Longrightarrow> 0 \<le> queued_size e \<Longrightarrow> tallied l (fst s @ [e], snd s)"
  by (auto simp: tallied_def)

lemma queue_fits_enqueue: "limits_fit l \<Longrightarrow> queue_fits l s \<Longrightarrow> 0 \<le> queued_size e \<Longrightarrow> queue_fits l (enqueue_state l e s)"
proof -
  assume l: "limits_fit l" and s: "queue_fits l s" and e: "0 \<le> queued_size e"
  note r = queue_fits_make_room [OF l s, of e]
  from tallied_snoc [OF queue_fits_tallied [OF r] e]
    queue_fits_priced [OF l, of "snd (make_room l e s)" "fst (make_room l e s) @ [e]"] r l e
  show ?thesis by (auto simp: enqueue_state_def Let_def intro: queue_fits_record_drop)
qed

lemma queue_fits_join:
  assumes "limits_fit l" "queue_fits l s" "join_last l i e s = Some s'"
  shows "queue_fits l s'"
proof -
  from assms(3) obtain u where u: "\<not> lim_queued l < queued_bytes l (snd s) (butlast (fst s) @ [queued_entry i u])"
      "s' = (butlast (fst s) @ [queued_entry i u], snd s)
       \<or> s' = record_truncation l i (butlast (fst s) @ [queued_entry i u], snd s)"
    by (auto simp: join_last_def Let_def split: option.splits if_splits)
  have "tallied l (butlast (fst s) @ [queued_entry i u], snd s)"
    using queue_fits_tallied [OF assms(2)] by (auto simp: tallied_def queued_entry_def dest: in_set_butlastD)
  then have "queue_fits l (butlast (fst s) @ [queued_entry i u], snd s)"
    using u(1) assms(1) by (intro queue_fits_priced) auto
  with u(2) assms(1) show ?thesis by (auto intro: queue_fits_record_truncation)
qed

text \<open>The whole record.\<close>

definition feed_fits :: "feed_limits \<Rightarrow> feed \<Rightarrow> bool" where
  "feed_fits l f \<longleftrightarrow>
     queue_fits l (feed_queue f, feed_losses f) \<and> length (feed_reserved f) \<le> max_queue_metadata
     \<and> length (feed_history f) \<le> lim_history l"

lemma feed_fits_schedule [simp]: "feed_fits l (schedule_flush f) = feed_fits l f"
  by (simp add: feed_fits_def schedule_flush_def)

lemma feed_fits_put: "feed_fits l f \<Longrightarrow> queue_fits l s \<Longrightarrow> feed_fits l (put_queue s f)"
  by (simp add: feed_fits_def put_queue_def)

lemma feed_fits_queue: "feed_fits l f \<Longrightarrow> queue_fits l (feed_queue f, feed_losses f)"
  by (simp add: feed_fits_def)

lemma feed_fits_enqueue: "limits_fit l \<Longrightarrow> feed_fits l f \<Longrightarrow> feed_fits l (enqueue l e f)"
  by (auto simp: enqueue_def split: option.split intro!: feed_fits_put queue_fits_enqueue feed_fits_queue) (simp add: queued_entry_def)

lemma feed_fits_history: "feed_fits l f \<Longrightarrow> feed_fits l (keep_history l e f)"
  by (simp add: feed_fits_def keep_history_def Let_def)

lemma feed_fits_reserve: "feed_fits l f \<Longrightarrow> feed_fits l (reserve_recovery k f)"
  by (auto simp: feed_fits_def reserve_recovery_def max_queue_metadata_def)

lemma feed_fits_diagnostic: "limits_fit l \<Longrightarrow> feed_fits l f \<Longrightarrow> feed_fits l (enqueue_diagnostic l e f)"
  by (auto simp: enqueue_diagnostic_def split: option.split
      intro!: feed_fits_enqueue feed_fits_history feed_fits_reserve)

lemma feed_fits_coalesced: "limits_fit l \<Longrightarrow> feed_fits l f \<Longrightarrow> feed_fits l (enqueue_coalesced l e f)"
  by (auto simp: enqueue_coalesced_def bind_eq_Some_conv split: option.split
      intro!: feed_fits_enqueue feed_fits_put elim: queue_fits_join intro: feed_fits_queue)

lemma feed_fits_empty: "limits_fit l \<Longrightarrow> feed_fits l empty_feed"
  by (simp add: feed_fits_def empty_feed_def queue_fits_def tallied_def queued_bytes_def limits_fit_def)

section \<open>Leaving the queue\<close>

lemma take_run_split:
  "\<exists>pre. take_run n i q = (map queued_ui pre, drop (length pre) q) \<and> q = pre @ drop (length pre) q
     \<and> (\<forall>e \<in> set pre. queued_identity e = i) \<and> length pre \<le> n"
proof (induction n i q rule: take_run.induct)
  case (1 n i)
  show ?case by simp
next
  case (2 n i e es)
  show ?case
  proof (cases "n = 0 \<or> queued_identity e \<noteq> i")
    case True
    then show ?thesis by (intro exI [of _ "[]"]) auto
  next
    case False
    with 2 obtain pre where "take_run (n - 1) i es = (map queued_ui pre, drop (length pre) es)"
        "es = pre @ drop (length pre) es" "\<forall>e \<in> set pre. queued_identity e = i" "length pre \<le> n - 1"
      by auto
    with False show ?thesis by (intro exI [of _ "e # pre"]) auto
  qed
qed

lemma greedy_run:
  "(\<forall>e \<in> set pre. queued_identity e = i) \<Longrightarrow> length pre \<le> r \<Longrightarrow>
     greedy_price n (Some (i, r)) pre = events_price (map queued_ui pre)"
  by (induction pre arbitrary: r) (auto simp: has_place_def next_chunk_def)

lemma greedy_first_run:
  "(\<forall>e \<in> set pre. queued_identity e = i) \<Longrightarrow> length pre \<le> n \<Longrightarrow> pre \<noteq> [] \<Longrightarrow>
     greedy_price n None pre = batch_bytes (batch_of i (map queued_ui pre))"
  by (cases pre) (auto simp: has_place_def next_chunk_def greedy_run batch_price)

text \<open>Ordinary events leave a batch from its end; the protected ones stay in order.\<close>

abbreviation protected_events :: "ui_event list \<Rightarrow> ui_event list" where
  "protected_events \<equiv> filter is_protected"

lemma drop_last_split:
  "drop_last_ordinary es = Some (e, r) \<Longrightarrow> \<exists>us vs. es = us @ e # vs \<and> r = us @ vs \<and> \<not> is_protected e"
proof -
  assume "drop_last_ordinary es = Some (e, r)"
  then obtain r' where r': "take_first (\<lambda>e. \<not> is_protected e) (rev es) = Some (e, r')" "r = rev r'"
    by (auto simp: drop_last_ordinary_def)
  from take_first_split [OF r'(1)] obtain us vs where "rev es = us @ e # vs" "r' = us @ vs" "\<not> is_protected e"
    by blast
  with r'(2) have "es = rev vs @ e # rev us" "r = rev vs @ rev us" "\<not> is_protected e"
    by (auto simp: rev_eq_append_conv)
  then show ?thesis by blast
qed

lemma drop_last_none: "drop_last_ordinary es = None \<Longrightarrow> protected_events es = es"
  by (auto simp: drop_last_ordinary_def take_first_none list_all_iff intro: filter_True)

lemma drop_last_protected: "drop_last_ordinary es = Some (e, r) \<Longrightarrow> protected_events r = protected_events es"
  by (auto dest!: drop_last_split)

lemma yield_facts:
  "protected_events (fst (yield_to_warnings l es m)) = protected_events es
   \<and> length (fst (yield_to_warnings l es m)) \<le> length es"
proof (induction l es m rule: yield_to_warnings.induct)
  case (1 l es m)
  show ?case
  proof (cases "length es + length (budget_events m) \<le> lim_batch l")
    case True
    then show ?thesis by (simp add: yield_to_warnings.simps [of l es m])
  next
    case over: False
    show ?thesis
    proof (cases "drop_last_ordinary es")
      case None
      with over show ?thesis by (simp add: yield_to_warnings.simps [of l es m])
    next
      case (Some p)
      obtain e r where p: "p = (e, r)" by (cases p)
      from "1.IH" [OF over Some p [symmetric]] over Some p show ?thesis
        by (auto simp: yield_to_warnings.simps [of l es m] drop_last_protected dest!: drop_last_ordinary_length)
    qed
  qed
qed

lemma loss_fits_yield: "0 \<le> lim_queued l \<Longrightarrow> loss_fits m \<Longrightarrow> loss_fits (snd (yield_to_warnings l es m))"
proof (induction l es m rule: yield_to_warnings.induct)
  case (1 l es m)
  show ?case
  proof (cases "length es + length (budget_events m) \<le> lim_batch l")
    case True
    with 1 show ?thesis by (simp add: yield_to_warnings.simps [of l es m])
  next
    case over: False
    show ?thesis
    proof (cases "drop_last_ordinary es")
      case None
      with over 1 show ?thesis by (simp add: yield_to_warnings.simps [of l es m])
    next
      case (Some p)
      obtain e r where p: "p = (e, r)" by (cases p)
      have "loss_fits (count_loss (lim_queued l) (event_bytes e) m)"
        using "1.prems" by (intro loss_fits_count) simp_all
      from "1.IH" [OF over Some p [symmetric] "1.prems"(1) this] over Some p show ?thesis
        by (simp add: yield_to_warnings.simps [of l es m])
    qed
  qed
qed

lemma warn_facts:
  "protected_events (fst (warn_dropped l i s)) = protected_events (fst s)"
  "length (fst s) \<le> lim_batch l \<Longrightarrow> length (fst (warn_dropped l i s)) \<le> lim_batch l"
  "protected_events (fst (warn_truncated l i s)) = protected_events (fst s)"
  "length (fst s) \<le> lim_batch l \<Longrightarrow> length (fst (warn_truncated l i s)) \<le> lim_batch l"
  "loss_fits (snd s) \<Longrightarrow> loss_fits (snd (warn_dropped l i s))"
  "loss_fits (snd s) \<Longrightarrow> loss_fits (snd (warn_truncated l i s))"
  by (simp_all add: warn_dropped_def warn_truncated_def Let_def dropped_warning_def truncated_warning_def
      is_protected_def is_turn_boundary_def is_reserved_recovery_diagnostic_def loss_fits_def nonnegative_ok_def)

lemma with_warnings_facts:
  "protected_events (fst (with_warnings l i es ls)) = protected_events es"
  "length es \<le> lim_batch l \<Longrightarrow> length (fst (with_warnings l i es ls)) \<le> lim_batch l"
  "losses_fit ls \<Longrightarrow> 0 \<le> lim_queued l \<Longrightarrow> losses_fit (snd (with_warnings l i es ls))"
  using yield_facts [of l es "the (map_get ls (identity_key i))"]
  by (auto simp: with_warnings_def Let_def warn_facts map_has_get
      split: option.split intro!: warn_facts losses_fit_set losses_fit_delete loss_fits_yield dest: losses_fit_get)

lemma cut_batch_facts:
  assumes "limits_fit l"
  shows "protected_events (fst (cut_batch l i es s)) = protected_events es
   \<and> length (fst (cut_batch l i es s)) \<le> length es
   \<and> trimmed (fst (snd (cut_batch l i es s))) (fst s)
   \<and> (tallied l s \<longrightarrow> tallied l (snd (cut_batch l i es s)))
   \<and> (fst (cut_batch l i es s) = [] \<or> batch_bytes (batch_of i (fst (cut_batch l i es s))) \<le> lim_queued l
      \<or> protected_events (fst (cut_batch l i es s)) = fst (cut_batch l i es s))"
proof (induction l i es s rule: cut_batch.induct)
  case (1 l i es s)
  show ?case
  proof (cases "es = [] \<or> batch_bytes (batch_of i es) \<le> lim_queued l")
    case True
    then show ?thesis by (auto simp: cut_batch.simps [of l i es s])
  next
    case over: False
    show ?thesis
    proof (cases "drop_last_ordinary es")
      case None
      with over show ?thesis by (simp add: cut_batch.simps [of l i es s] drop_last_none)
    next
      case (Some p)
      obtain e r where p: "p = (e, r)" by (cases p)
      from Some p have "length r \<le> length es" "protected_events r = protected_events es"
        by (auto simp: drop_last_protected dest!: drop_last_ordinary_length)
      with "1.IH" [OF over Some p [symmetric]] over Some p show ?thesis
        using record_drop_facts [where l = l and i = i and n = "event_bytes e" and s = s]
        by (auto simp: cut_batch.simps [of l i es s] intro: trimmed_trans)
    qed
  qed
qed

definition flushed_events :: "(turn_identity \<times> ui_event list) option \<Rightarrow> ui_event list" where
  "flushed_events r = (case r of None \<Rightarrow> [] | Some (i, es) \<Rightarrow> es)"

definition flush_keeps :: "feed_limits \<Rightarrow> queued_event list \<times> loss_map \<Rightarrow> bool" where
  "flush_keeps l s \<longleftrightarrow>
     protected_events (flushed_events (fst (flush_queue l s)))
       @ map queued_ui (protected_of_queue (fst (snd (flush_queue l s)))) = map queued_ui (protected_of_queue (fst s))"

definition flush_sized :: "feed_limits \<Rightarrow> queued_event list \<times> loss_map \<Rightarrow> bool" where
  "flush_sized l s \<longleftrightarrow>
     (case fst (flush_queue l s) of
        None \<Rightarrow> True
      | Some (i, es) \<Rightarrow>
          es \<noteq> [] \<and> length es \<le> lim_batch l \<and> batch_bytes (batch_of i es) \<le> lim_queued l \<and> queued_for i (fst s))"

lemma flush_queue_facts:
  assumes l: "limits_fit l" and s: "queue_fits l s"
  shows "flush_keeps l s \<and> queue_fits l (snd (flush_queue l s)) \<and> flush_sized l s
   \<and> subseq (fst (snd (flush_queue l s))) (fst s)"
proof (cases "fst s")
  case Nil
  then show ?thesis
    using l by (simp add: flush_queue_def flush_keeps_def flush_sized_def flushed_events_def queue_fits_def queued_bytes_def limits_fit_def tallied_def)
next
  case (Cons e q)
  let ?i = "queued_identity e"
  obtain pre where pre: "take_run (lim_batch l) ?i (fst s) = (map queued_ui pre, drop (length pre) (fst s))"
      "fst s = pre @ drop (length pre) (fst s)" "\<forall>x \<in> set pre. queued_identity x = ?i" "length pre \<le> lim_batch l"
    using take_run_split by blast
  define rest where "rest = drop (length pre) (fst s)"
  note pre = pre [folded rest_def]
  have "take_run (lim_batch l) ?i (fst s) \<noteq> ([], rest)"
    using Cons limits_fit_pos [OF l] by (simp add: Let_def)
  then have nonempty: "pre \<noteq> []" using pre(1) by auto
  define w where "w = with_warnings l ?i (map queued_ui pre) (snd s)"
  define c where "c = cut_batch l ?i (fst w) (rest, snd w)"
  have rest: "subseq rest (fst s)" unfolding pre(2) by (rule list_emb_append2) simp
  have "losses_fit (snd w)"
    using s by (auto simp: w_def queue_fits_def tallied_def intro!: with_warnings_facts)
  then have tally: "tallied l (rest, snd w)"
    using s rest by (auto simp: queue_fits_def intro: tallied_subseq)
  have w: "protected_events (fst w) = protected_events (map queued_ui pre)" "length (fst w) \<le> lim_batch l"
    using pre(4) by (simp_all add: w_def with_warnings_facts)
  note c = cut_batch_facts [OF l, of ?i "fst w" "(rest, snd w)", folded c_def]
  have flush: "flush_queue l s = (if fst c = [] then (None, fst (snd c), map_delete (snd (snd c)) (identity_key ?i))
      else (Some (?i, fst c), snd c))"
    unfolding flush_queue_def Let_def using Cons pre(1) by (simp add: w_def c_def)
  have left: "trimmed (fst (snd c)) rest" using c by simp
  have fits: "queue_fits l (fst (snd c), ls)" if "tallied l (fst (snd c), ls)" for ls
    using that left rest by (auto intro!: queue_fits_subseq [OF l s] dest: trimmed_subseq intro: subseq_order.trans)
  have protected: "protected_events (fst c) @ map queued_ui (protected_of_queue (fst (snd c))) =
      map queued_ui (protected_of_queue (fst s))"
  proof -
    have "protected_events (fst c) = map queued_ui (protected_of_queue pre)"
      using c w by (simp add: filter_map o_def)
    moreover have "protected_of_queue (fst (snd c)) = protected_of_queue rest"
      using left by (simp add: trimmed_def)
    ultimately show ?thesis unfolding pre(2) [symmetric] by (subst pre(2)) simp
  qed
  have size: "batch_bytes (batch_of ?i (fst c)) \<le> lim_queued l" if ne: "fst c \<noteq> []"
  proof (cases "batch_bytes (batch_of ?i (fst c)) \<le> lim_queued l")
    case False
    with c ne have "protected_events (fst c) = fst c" "protected_events (fst c) = protected_events (fst w)" by blast+
    then have all: "fst c = protected_events (map queued_ui pre)" using w(1) by metis
    have "events_price (protected_events xs) \<le> events_price xs" for xs
      unfolding events_price_def by (rule sum_list_map_filter_le) simp
    then have "batch_bytes (batch_of ?i (fst c)) \<le> batch_bytes (batch_of ?i (map queued_ui pre))"
      using ne nonempty by (simp add: batch_price all)
    also have "\<dots> = greedy_price (lim_batch l) None pre"
      using greedy_first_run [OF pre(3,4) nonempty] by simp
    also have "\<dots> \<le> greedy_price (lim_batch l) None (fst s)"
    proof (rule greedy_subseq)
      show "subseq pre (fst s)" unfolding pre(2) using subseq_append [of "[]"] subseq_rev_drop_many [of pre pre rest] by simp
    qed (use limits_fit_pos [OF l] in \<open>simp_all add: open_ok_def\<close>)
    finally show ?thesis
      using s l queued_bytes_greedy [OF limits_fit_pos [OF l], of "fst s"]
      by (auto simp: queue_fits_def limits_fit_def)
  qed simp
  have "flush_sized l s"
    using flush size c w(2) Cons by (auto simp: flush_sized_def queued_for_def)
  moreover have "queue_fits l (snd (flush_queue l s))"
  proof (cases "fst c = []")
    case True
    have "tallied l (fst (snd c), map_delete (snd (snd c)) (identity_key ?i))"
      by (rule tallied_delete) (use c tally in simp)
    with True flush fits show ?thesis by simp
  next
    case False
    with flush fits [of "snd (snd c)"] c tally show ?thesis by simp
  qed
  moreover have "subseq (fst (snd (flush_queue l s))) (fst s)"
    using flush left rest by (auto dest: trimmed_subseq intro: subseq_order.trans)
  moreover have "flush_keeps l s"
    using protected flush by (auto simp: flush_keeps_def flushed_events_def)
  ultimately show ?thesis by blast
qed

end
