(* ===== verification/TurnWire.thy ===== *)
theory TurnWire
  imports TurnDelivery TurnSizes EventWire
begin

text \<open>
  The two ends of the event wire together: a batch that the coordinator serializes
  (\<open>serializeValidatedRideCodexEventBatch\<close> in \<open>src/node/ride-codex-turn-coordinator.ts\<close>, after
  \<open>validateRaw\<close>) passes the graph check of the reader (\<open>validateJsonGraph\<close> in
  \<open>src/browser/ride-codex-event-reducer.ts\<close>), although the two count differently.
\<close>

section \<open>Texts inside a JSON text\<close>

lemma bytes_concat: "(\<And>s. s \<in> set ss \<Longrightarrow> clean s) \<Longrightarrow> utf8_byte_length (concat ss) = sum_list (map utf8_byte_length ss)"
  by (induction ss) (simp_all add: bytes_append)

lemma bytes_unit_max: "utf8_byte_length [c] \<le> 3"
  by (simp add: utf8_byte_length_code_point Let_def)

lemma bytes_unit_ascii: "unat c < 0x80 \<Longrightarrow> utf8_byte_length [c] = 1"
  by (simp add: utf8_byte_length_ascii ascii_def)

lemma bytes_unicode_escape: "utf8_byte_length (unicode_escape c) = 6"
proof -
  have "unat c div 4096 < 16" using unat_16 [of c] by simp
  then have "ascii (unicode_escape c)"
    by (auto simp: ascii_def unicode_escape_def Let_def intro: unat_hex_unit [THEN conjunct2])
  then show ?thesis by (simp add: utf8_byte_length_ascii) (simp add: unicode_escape_def Let_def)
qed

lemma bytes_quote_unit: "utf8_byte_length [c] \<le> utf8_byte_length (quote_unit c)"
proof -
  have two: "utf8_byte_length [0x5C, e] = 2" if "unat e < 0x80" for e :: "16 word"
    using that by (simp add: utf8_byte_length_ascii ascii_def)
  show ?thesis
    using bytes_unit_max [of c] bytes_unit_ascii [of c] bytes_unicode_escape [of c]
    by (auto simp: quote_unit_def two)
qed

lemma bytes_quote_code_point: "utf8_byte_length cp \<le> utf8_byte_length (quote_code_point cp)"
  by (cases cp rule: code_points.cases) (simp_all add: quote_code_point_def bytes_quote_unit)

lemma bytes_quote_string: "utf8_byte_length s + 2 \<le> utf8_byte_length (quote_string s)"
proof -
  let ?q = "map quote_code_point (code_points s)"
  have clean: "\<And>t. t \<in> set ?q \<Longrightarrow> clean t"
    by (auto intro: clean_quote_code_point code_points_are_code_points)
  have "utf8_byte_length s = sum_list (map utf8_byte_length (code_points s))"
    using utf8_byte_length_prefix [of "length (code_points s)" s] by simp
  also have "\<dots> \<le> sum_list (map utf8_byte_length ?q)"
    by (simp add: sum_list_mono o_def bytes_quote_code_point)
  also have "\<dots> = utf8_byte_length (concat ?q)" by (simp only: bytes_concat [OF clean])
  finally have "utf8_byte_length s \<le> utf8_byte_length (concat ?q)" .
  moreover have "clean (concat ?q)" by (rule clean_concat [OF clean])
  ultimately show ?thesis by (simp add: quote_string_def bytes_Cons bytes_append)
qed

text \<open>The bytes of the texts and keys of a value.\<close>

fun payload_bytes :: "json \<Rightarrow> int" where
  "payload_bytes (JStr s) = utf8_byte_length s"
| "payload_bytes (JArr vs) = sum_list (map payload_bytes vs)"
| "payload_bytes (JObj ps) = sum_list (map (\<lambda>(k, v). utf8_byte_length k + payload_bytes v) ps)"
| "payload_bytes _ = 0"

lemma payload_nonneg [simp]: "0 \<le> payload_bytes v"
  by (induction v rule: payload_bytes.induct)
    (auto intro!: sum_list_nonneg add_nonneg_nonneg)

lemma sum_comma_separated:
  "(\<And>s. s \<in> set ss \<Longrightarrow> clean s) \<Longrightarrow> sum_list (map utf8_byte_length ss) \<le> utf8_byte_length (comma_separated ss)"
  using bytes_comma_separated [of ss] by (cases "ss = []") auto

lemma payload_text: "payload_bytes v \<le> utf8_byte_length (json_stringify v)"
proof (induction v rule: payload_bytes.induct)
  case (1 s)
  show ?case using bytes_quote_string [of s] by simp
next
  case (2 vs)
  have "sum_list (map payload_bytes vs) \<le> sum_list (map utf8_byte_length (map json_stringify vs))"
    using 2 by (simp add: sum_list_mono o_def)
  also have "\<dots> \<le> utf8_byte_length (comma_separated (map json_stringify vs))"
    by (rule sum_comma_separated) auto
  finally have "sum_list (map payload_bytes vs) \<le> utf8_byte_length (comma_separated (map json_stringify vs))" .
  moreover have "clean (comma_separated (map json_stringify vs))" by (rule clean_comma_separated) auto
  ultimately show ?case by (simp add: bytes_Cons bytes_append)
next
  case (3 ps)
  let ?texts = "map (\<lambda>(k, v). quote_string k @ [0x3A] @ json_stringify v) ps"
  have clean: "\<And>t. t \<in> set ?texts \<Longrightarrow> clean t"
    by (auto simp del: append_Cons intro!: clean_append)
  have "sum_list (map (\<lambda>(k, v). utf8_byte_length k + payload_bytes v) ps)
      \<le> sum_list (map (\<lambda>p. utf8_byte_length (quote_string (fst p) @ [0x3A] @ json_stringify (snd p))) ps)"
  proof (rule sum_list_mono)
    fix p
    assume p: "p \<in> set ps"
    obtain k v where kv: "(k, v) = p" by (metis surj_pair)
    from 3 [OF p kv] kv [symmetric] show "(case p of (k, v) \<Rightarrow> utf8_byte_length k + payload_bytes v)
        \<le> utf8_byte_length (quote_string (fst p) @ [0x3A] @ json_stringify (snd p))"
      using bytes_quote_string [of k] by (simp add: bytes_append bytes_Cons)
  qed
  also have "\<dots> = sum_list (map utf8_byte_length ?texts)" by (simp add: o_def split_def)
  also have "\<dots> \<le> utf8_byte_length (comma_separated ?texts)" by (rule sum_comma_separated [OF clean])
  finally have "sum_list (map (\<lambda>(k, v). utf8_byte_length k + payload_bytes v) ps)
      \<le> utf8_byte_length (comma_separated ?texts)" .
  moreover have "clean (comma_separated ?texts)" by (rule clean_comma_separated [OF clean])
  ultimately show ?case by (simp add: bytes_Cons bytes_append)
qed simp_all

section \<open>From the raw budget to the graph budget\<close>

fun json_depth :: "json \<Rightarrow> nat" where
  "json_depth (JArr vs) = Suc (fold max (map json_depth vs) 0)"
| "json_depth (JObj ps) = Suc (fold max (map (\<lambda>(k, v). json_depth v) ps) 0)"
| "json_depth _ = 0"

lemma fold_max_le: "fold max xs a \<le> n \<longleftrightarrow> a \<le> n \<and> (\<forall>x \<in> set xs. x \<le> n)" for n :: nat
  by (induction xs arbitrary: a) auto

lemma fold_max_Suc: "Suc (d + fold max xs 0) \<le> n \<longleftrightarrow> Suc d \<le> n \<and> (\<forall>x \<in> set xs. Suc (d + x) \<le> n)"
proof -
  have "Suc (d + fold max xs 0) \<le> n \<longleftrightarrow> Suc d \<le> n \<and> fold max xs 0 \<le> n - Suc d" by linarith
  moreover have "(\<forall>x \<in> set xs. Suc (d + x) \<le> n) \<longleftrightarrow> (\<forall>x \<in> set xs. x \<le> n - Suc d)" if "Suc d \<le> n"
    using that by (intro ball_cong refl) linarith
  ultimately show ?thesis by (auto simp: fold_max_le)
qed

abbreviation not_proxied :: "jsvalue \<Rightarrow> bool" where
  "not_proxied \<equiv> \<lambda>_. False"

lemma raw_to_graph:
  "validate_raw not_proxied d (value_of_json v) (n, b) = Some (n', b') \<Longrightarrow> d + json_depth v \<le> max_wire_depth \<Longrightarrow>
     a + payload_bytes v \<le> m \<Longrightarrow> validate_graph m d v (n, a) = Some (n', a + payload_bytes v)"
  "validate_raw_items not_proxied d (map value_of_json vs) (n, b) = Some (n', b') \<Longrightarrow>
     (\<forall>v \<in> set vs. d + json_depth v \<le> max_wire_depth) \<Longrightarrow> a + sum_list (map payload_bytes vs) \<le> m \<Longrightarrow>
     validate_elements m d vs (n, a) = Some (n', a + sum_list (map payload_bytes vs))"
  "validate_raw_members not_proxied d (map (\<lambda>(k, v). (k, Data_Property True (value_of_json v))) ps) (n, b) = Some (n', b') \<Longrightarrow>
     (\<forall>p \<in> set ps. d + json_depth (snd p) \<le> max_wire_depth) \<Longrightarrow>
     a + sum_list (map (\<lambda>(k, v). utf8_byte_length k + payload_bytes v) ps) \<le> m \<Longrightarrow>
     validate_members m d ps (n, a) = Some (n', a + sum_list (map (\<lambda>(k, v). utf8_byte_length k + payload_bytes v) ps))"
proof (induction m d v "(n, a)" and m d vs "(n, a)" and m d ps "(n, a)"
    arbitrary: n a b n' b' and n a b n' b' and n a b n' b'
    rule: validate_graph_validate_elements_validate_members.induct)
  case (1 m d v n a)
  then show ?case
    by (cases v) (auto simp: max_wire_nodes_def max_raw_nodes_def max_wire_array_items_def max_raw_array_def
        max_wire_object_keys_def max_raw_keys_def fold_max_Suc split_def split: if_splits)
next
  case (2 m d n a)
  then show ?case by simp
next
  case (3 m d v vs n a)
  obtain n1 b1 where one: "validate_raw not_proxied d (value_of_json v) (n, b) = Some (n1, b1)"
      "validate_raw_items not_proxied d (map value_of_json vs) (n1, b1) = Some (n', b')"
    using "3.prems"(1) by (auto split: option.splits)
  have rest: "0 \<le> sum_list (map payload_bytes vs)" by (rule sum_list_map_nonneg) simp
  have "validate_graph m d v (n, a) = Some (n1, a + payload_bytes v)"
    using "3.hyps"(1) [OF one(1)] "3.prems" rest by simp
  with "3.hyps"(2) [OF this one(2)] "3.prems" show ?case by (simp add: add.assoc)
next
  case (4 m d n a)
  then show ?case by simp
next
  case (5 m d k v ps n a)
  obtain n1 b1 where one: "validate_raw not_proxied d (value_of_json v) (n, b + utf8_byte_length k) = Some (n1, b1)"
      "validate_raw_members not_proxied d (map (\<lambda>(k, v). (k, Data_Property True (value_of_json v))) ps) (n1, b1) = Some (n', b')"
    using "5.prems"(1) by (auto split: option.splits)
  have rest: "0 \<le> sum_list (map (\<lambda>(k, v). utf8_byte_length k + payload_bytes v) ps)"
    by (rule sum_list_nonneg) (auto intro: add_nonneg_nonneg)
  have small: "\<not> m < a + utf8_byte_length k" using "5.prems"(3) rest payload_nonneg [of v] unfolding list.map sum_list.Cons split by linarith
  have "validate_graph m d v (n, a + utf8_byte_length k) = Some (n1, a + utf8_byte_length k + payload_bytes v)"
    using "5.hyps"(1) [OF small one(1)] "5.prems" rest by simp
  with "5.hyps"(2) [OF small this one(2)] "5.prems" small show ?case by (simp add: add.assoc)
qed

section \<open>The round trip\<close>

lemma depth_change: "json_depth (change_json c) \<le> 1"
  by (auto simp: change_json_def obj_def move_fields_def split: change_kind.split move_path.split)

lemma depth_step: "json_depth (step_json s) \<le> 1"
  by (simp add: step_json_def obj_def)

lemma depth_event: "json_depth (event_json e) \<le> 3"
proof (cases e)
  case (File_Patch i cs)
  then show ?thesis using depth_change by (force simp: obj_def fold_max_le)
next
  case (Turn_Plan ex ss)
  then show ?thesis using depth_step by (force simp: obj_def fold_max_le optional_field_def split: option.split)
qed (auto simp: obj_def delta_json_def warning_json_def report_json_def optional_field_def safe_error_json_def
      split: option.split)

lemma depth_batch: "json_depth (batch_json b) \<le> 5"
  using depth_event by (force simp: batch_json_def obj_def fold_max_le)

lemma serialized_graph:
  assumes "validate_raw not_proxied 0 (value_of_json (batch_json b)) (0, 0) \<noteq> None"
    and "utf8_byte_length (json_stringify (batch_json b)) \<le> n"
  shows "validate_graph n 0 (batch_json b) (0, 0) \<noteq> None"
proof -
  from assms(1) obtain n' b' where "validate_raw not_proxied 0 (value_of_json (batch_json b)) (0, 0) = Some (n', b')"
    by auto
  from raw_to_graph(1) [OF this, of 0 n] show ?thesis
    using depth_batch [of b] payload_text [of "batch_json b"] assms(2) by (simp add: max_wire_depth_def)
qed

lemma serialized_reads:
  assumes "batch_ok b" and "serialize_validated_batch b n = Some wire"
  shows "parse_safe_batch wire n = Some b"
proof -
  from assms(2) have raw: "validate_raw not_proxied 0 (value_of_json (batch_json b)) (0, 0) \<noteq> None"
    and ser: "serialize_event_batch b n = Some wire"
    by (auto simp: serialize_validated_batch_def split: if_splits)
  from ser have wire: "wire = json_stringify (batch_json b)" "utf8_byte_length wire \<le> n"
    by (auto simp: serialize_event_batch_def Let_def split: if_splits)
  obtain ps where ps: "batch_json b = JObj ps" "read_batch ps = Some b"
    using read_batch_json [OF assms(1)] by blast
  have "json_parse wire = Some (batch_json b)"
    unfolding wire(1) by (rule json_roundtrip [OF canonical_batch [OF assms(1)]])
  with wire serialized_graph [OF raw] ps show ?thesis
    by (simp add: parse_safe_batch_def guarded_def as_record_with_def as_plain_record_def)
qed

end
