(* ===== verification/TurnFeedFacts.thy ===== *)
theory TurnFeedFacts
  imports TurnQueue TurnWire
begin

text \<open>
  What is in the queue of the turn coordinator (\<open>src/node/ride-codex-turn-coordinator.ts\<close>) can be read by the
  frontend: bounding, joining and flushing keep the events and their identities within the limits of
  the reader, and the warnings a flush adds are within them too.
\<close>

section \<open>Events\<close>

definition identity_ok :: "turn_identity \<Rightarrow> bool" where
  "identity_ok i \<longleftrightarrow>
     nonnegative_ok (of_generation i) \<and> nonnegative_ok (of_sequence i) \<and> 0 < of_sequence i \<and>
     id_fits (of_thread i) \<and> id_fits (of_turn i)"

lemma display_path_prefix: "is_display_path s \<Longrightarrow> is_display_path (truncate_utf8 s n)"
proof -
  assume s: "is_display_path s"
  obtain t where "s = truncate_utf8 s n @ t" using truncate_utf8_prefix by blast
  moreover have "list_all (\<lambda>c. \<not> (unat c \<le> 0x1F \<or> (0x7F \<le> unat c \<and> unat c \<le> 0x9F))) s"
    using s by (simp add: is_display_path_def)
  ultimately have "list_all (\<lambda>c. \<not> (unat c \<le> 0x1F \<or> (0x7F \<le> unat c \<and> unat c \<le> 0x9F))) (truncate_utf8 s n @ t)"
    by (simp only:)
  then have "list_all (\<lambda>c. \<not> (unat c \<le> 0x1F \<or> (0x7F \<le> unat c \<and> unat c \<le> 0x9F))) (truncate_utf8 s n)"
    by (simp only: list_all_append)
  moreover have "utf8_byte_length (truncate_utf8 s n) \<le> max_file_patch_path_bytes"
    using s truncate_utf8_le [of s n] by (simp add: is_display_path_def)
  ultimately show ?thesis by (simp add: is_display_path_def)
qed

lemma change_ok_bound: "change_ok c \<Longrightarrow> change_ok (bound_change n c)"
  using truncate_utf8_le [of "change_diff c" n]
  by (auto simp: change_ok_def bound_change_def display_path_prefix split: change_kind.splits move_path.splits)

lemma event_ok_bound: "event_ok e \<Longrightarrow> event_ok (bound_event l e)"
  by (cases "(l, e)" rule: bound_event.cases) (auto simp: list_all_iff intro: change_ok_bound dest: in_set_takeD)

lemma delta_of_event: "delta_of e = Some (s, i, d) \<Longrightarrow> e = delta_event s i d"
  by (cases e) auto

lemma delta_event_ok: "event_ok (delta_event s i d) \<Longrightarrow> event_ok (delta_event s i d')"
  by (cases s) auto

lemma joined_ok: "joined p e = Some (t, mk) \<Longrightarrow> event_ok e \<Longrightarrow> event_ok (mk u)"
  by (auto simp: joined_def split: option.splits if_splits) (metis delta_of_event delta_event_ok)

section \<open>The queue\<close>

definition entry_ok :: "queued_event \<Rightarrow> bool" where
  "entry_ok e \<longleftrightarrow> identity_ok (queued_identity e) \<and> event_ok (queued_ui e)"

definition entries_ok :: "queued_event list \<Rightarrow> bool" where
  "entries_ok q \<longleftrightarrow> (\<forall>e \<in> set q. entry_ok e)"

lemma entries_ok_subseq: "entries_ok q \<Longrightarrow> subseq p q \<Longrightarrow> entries_ok p"
  by (auto simp: entries_ok_def dest: list_emb_set)

lemma entries_ok_snoc [simp]: "entries_ok (q @ [e]) \<longleftrightarrow> entries_ok q \<and> entry_ok e"
  by (auto simp: entries_ok_def)

lemma entries_ok_enqueue: "entries_ok (fst s) \<Longrightarrow> entry_ok e \<Longrightarrow> entries_ok (fst (enqueue_state l e s))"
  using queue_room_facts(1) [of e l s] record_drop_facts(1) [of l "queued_identity e" "queued_size e" "make_room l e s"]
  by (auto simp: enqueue_state_def Let_def intro: entries_ok_subseq dest!: displaced_subseq trimmed_subseq)

lemma entries_ok_join:
  "join_last l i e s = Some s' \<Longrightarrow> entries_ok (fst s) \<Longrightarrow> identity_ok i \<Longrightarrow> event_ok e \<Longrightarrow> entries_ok (fst s')"
proof -
  assume j: "join_last l i e s = Some s'" and s: "entries_ok (fst s)" "identity_ok i" "event_ok e"
  from j obtain t mk where t: "joined (queued_ui (last (fst s))) e = Some (t, mk)"
    by (auto simp: join_last_def split: option.splits if_splits)
  define u where "u = truncate_utf8 t (lim_item l)"
  have s': "s' = (butlast (fst s) @ [queued_entry i (mk u)], snd s)
       \<or> s' = record_truncation l i (butlast (fst s) @ [queued_entry i (mk u)], snd s)"
    using j t by (auto simp: join_last_def Let_def u_def split: if_splits)
  have "entries_ok (butlast (fst s))" using s(1) by (auto simp: entries_ok_def dest: in_set_butlastD)
  then have "entries_ok (butlast (fst s) @ [queued_entry i (mk u)])"
    using joined_ok [OF t s(3)] s(2) by (simp add: entry_ok_def queued_entry_def)
  with s' show ?thesis
    using trimmed_subseq [OF record_truncation_facts(1) [of l i "(butlast (fst s) @ [queued_entry i (mk u)], snd s)"]]
    by (auto elim: entries_ok_subseq simp del: entries_ok_snoc)
qed

section \<open>A flush\<close>

lemma yield_set: "set (fst (yield_to_warnings l es m)) \<subseteq> set es"
proof (induction l es m rule: yield_to_warnings.induct)
  case (1 l es m)
  show ?case
  proof (cases "length es + length (budget_events m) \<le> lim_batch l \<or> drop_last_ordinary es = None")
    case True
    then show ?thesis by (auto simp: yield_to_warnings.simps [of l es m])
  next
    case False
    then obtain e r where p: "drop_last_ordinary es = Some (e, r)"
        "\<not> length es + length (budget_events m) \<le> lim_batch l" by auto
    from "1.IH" [OF p(2,1) refl] p drop_last_split [OF p(1)] show ?thesis
      by (auto simp: yield_to_warnings.simps [of l es m])
  qed
qed

lemma cut_set: "set (fst (cut_batch l i es s)) \<subseteq> set es"
proof (induction l i es s rule: cut_batch.induct)
  case (1 l i es s)
  show ?case
  proof (cases "es = [] \<or> batch_bytes (batch_of i es) \<le> lim_queued l \<or> drop_last_ordinary es = None")
    case True
    then show ?thesis by (auto simp: cut_batch.simps [of l i es s])
  next
    case False
    then obtain e r where p: "drop_last_ordinary es = Some (e, r)"
        "\<not> (es = [] \<or> batch_bytes (batch_of i es) \<le> lim_queued l)" by auto
    from "1.IH" [OF p(2,1) refl] p drop_last_split [OF p(1)] show ?thesis
      by (auto simp: cut_batch.simps [of l i es s])
  qed
qed

lemma warned_ok:
  "loss_fits (snd s) \<Longrightarrow> list_all event_ok (fst s) \<Longrightarrow> list_all event_ok (fst (warn_dropped l i s))"
  "list_all event_ok (fst s) \<Longrightarrow> list_all event_ok (fst (warn_truncated l i s))"
  by (auto simp: warn_dropped_def warn_truncated_def dropped_warning_def truncated_warning_def Let_def loss_fits_def)

lemma with_warnings_ok:
  "losses_fit ls \<Longrightarrow> 0 \<le> lim_queued l \<Longrightarrow> list_all event_ok es \<Longrightarrow> list_all event_ok (fst (with_warnings l i es ls))"
  using yield_set [of l es "the (map_get ls (identity_key i))"]
  by (auto simp: with_warnings_def Let_def subset_iff list_all_iff [of _ es]
      split: option.split intro!: warned_ok loss_fits_yield dest: losses_fit_get)
    (auto simp: list_all_iff)

lemma take_run_ok: "entries_ok q \<Longrightarrow> list_all event_ok (fst (take_run n i q))"
  using take_run_split [of n i q] by (auto simp: entries_ok_def entry_ok_def list_all_iff) (metis Un_iff set_append)

lemma flush_events_ok:
  assumes "tallied l s" "entries_ok (fst s)" "fst (flush_queue l s) = Some (i, es)"
  shows "identity_ok i \<and> list_all event_ok es"
proof (cases "fst s")
  case (Cons e q)
  let ?run = "take_run (lim_batch l) (queued_identity e) (fst s)"
  let ?w = "with_warnings l (queued_identity e) (fst ?run) (snd s)"
  have w: "list_all event_ok (fst ?w)"
    using assms take_run_ok [OF assms(2)] by (intro with_warnings_ok) (auto simp: tallied_def)
  have "es = fst (cut_batch l (queued_identity e) (fst ?w) (snd ?run, snd ?w))" "i = queued_identity e"
    using assms(3) by (simp_all only: flush_queue_def Cons list.case Let_def) (auto split: if_splits)
  then show ?thesis
    using w cut_set [of l "queued_identity e" "fst ?w" "(snd ?run, snd ?w)"] assms(2) Cons
    by (auto simp: list_all_iff entries_ok_def entry_ok_def)
qed (use assms in \<open>simp add: flush_queue_def\<close>)

section \<open>The record\<close>

definition feed_ok :: "feed_limits \<Rightarrow> feed \<Rightarrow> bool" where
  "feed_ok l f \<longleftrightarrow> feed_fits l f \<and> entries_ok (feed_queue f) \<and> pred_option identity_ok (feed_identity f)"

lemma feed_ok_schedule [simp]: "feed_ok l (schedule_flush f) = feed_ok l f"
  by (simp add: feed_ok_def) (simp add: schedule_flush_def)

lemma enqueue_identity [simp]:
  "feed_identity (schedule_flush f) = feed_identity f" "feed_identity (put_queue s f) = feed_identity f"
  "feed_identity (keep_history l e f) = feed_identity f" "feed_identity (reserve_recovery k f) = feed_identity f"
  by (simp_all add: schedule_flush_def put_queue_def keep_history_def reserve_recovery_def Let_def)

lemma kept_queue [simp]:
  "feed_queue (schedule_flush f) = feed_queue f" "feed_queue (put_queue s f) = fst s"
  "feed_queue (keep_history l e f) = feed_queue f" "feed_queue (reserve_recovery k f) = feed_queue f"
  by (simp_all add: schedule_flush_def put_queue_def keep_history_def reserve_recovery_def Let_def)

lemma feed_ok_enqueue: "limits_fit l \<Longrightarrow> event_ok e \<Longrightarrow> feed_ok l f \<Longrightarrow> feed_ok l (enqueue l e f)"
  using feed_fits_enqueue [of l f e]
  by (auto simp: feed_ok_def enqueue_def entry_ok_def queued_entry_def split: option.splits
      intro!: entries_ok_enqueue event_ok_bound)

lemma feed_ok_diagnostic: "limits_fit l \<Longrightarrow> event_ok e \<Longrightarrow> feed_ok l f \<Longrightarrow> feed_ok l (enqueue_diagnostic l e f)"
  by (auto simp: enqueue_diagnostic_def split: option.split intro!: feed_ok_enqueue)
    (auto simp: feed_ok_def feed_fits_history feed_fits_reserve)

lemma feed_ok_coalesced: "limits_fit l \<Longrightarrow> event_ok e \<Longrightarrow> feed_ok l f \<Longrightarrow> feed_ok l (enqueue_coalesced l e f)"
  using feed_fits_coalesced [of l f e] feed_ok_enqueue [of l e f]
  by (auto simp: enqueue_coalesced_def bind_eq_Some_conv split: option.splits)
    (auto simp: feed_ok_def dest: entries_ok_join)

lemma reschedule_ok [simp]: "feed_ok l (reschedule_flush f) = feed_ok l f"
  by (simp add: reschedule_flush_def)

lemma feed_ok_put:
  "feed_ok l f \<Longrightarrow> queue_fits l s \<Longrightarrow> entries_ok (fst s) \<Longrightarrow> feed_ok l (put_queue s f)"
  by (auto simp: feed_ok_def feed_fits_put)

lemma feed_ok_pending [simp]: "feed_ok l (f\<lparr>flush_pending := b\<rparr>) = feed_ok l f"
  by (simp add: feed_ok_def feed_fits_def)

lemma feed_ok_queue:
  "feed_ok l f \<Longrightarrow> queue_fits l (feed_queue f, feed_losses f)" "feed_ok l f \<Longrightarrow> entries_ok (feed_queue f)"
  by (auto simp: feed_ok_def feed_fits_queue)

lemma feed_ok_flush_start: "limits_fit l \<Longrightarrow> feed_ok l f \<Longrightarrow> feed_ok l (snd (flush_start l f))"
proof -
  assume l: "limits_fit l" and f: "feed_ok l f"
  let ?s = "(feed_queue f, feed_losses f)"
  note facts = flush_queue_facts [OF l feed_ok_queue(1) [OF f]]
  have "entries_ok (fst (snd (flush_queue l ?s)))"
    by (rule entries_ok_subseq [OF feed_ok_queue(2) [OF f]]) (use facts in simp)
  with facts f show ?thesis by (auto simp: flush_start_def Let_def intro!: feed_ok_put)
qed

lemma feed_ok_delete: "feed_ok l f \<Longrightarrow> feed_ok l (f\<lparr>feed_losses := map_delete (feed_losses f) k\<rparr>)"
  by (simp add: feed_ok_def feed_fits_def queue_fits_def tallied_def losses_fit_delete)

lemma feed_ok_flush_end: "feed_ok l f \<Longrightarrow> feed_ok l (flush_end i f)"
  by (simp add: flush_end_def feed_ok_delete)

lemma feed_ok_identity: "identity_ok i \<Longrightarrow> feed_ok l f \<Longrightarrow> feed_ok l (f\<lparr>feed_identity := Some i\<rparr>)"
  by (simp add: feed_ok_def feed_fits_def)

definition cleared_feed :: "feed \<Rightarrow> feed" where
  "cleared_feed f =
     f\<lparr>flush_pending := False, feed_queue := [], feed_identity := None, feed_losses := [], feed_reserved := []\<rparr>"

lemma feed_ok_empty: "limits_fit l \<Longrightarrow> feed_ok l empty_feed"
  by (simp add: feed_ok_def feed_fits_empty) (simp add: empty_feed_def entries_ok_def)

lemma feed_ok_cleared: "limits_fit l \<Longrightarrow> feed_ok l f \<Longrightarrow> feed_ok l (cleared_feed f)"
  using feed_fits_empty [of l]
  by (simp add: feed_ok_def cleared_feed_def feed_fits_def entries_ok_def empty_feed_def queue_fits_def)

text \<open>What a flush hands over, and what it leaves.\<close>

lemma flush_start_batch:
  assumes "limits_fit l" "feed_ok l f" "fst (flush_start l f) = Some (i, es)"
  shows "identity_ok i \<and> list_all event_ok es \<and> es \<noteq> [] \<and> length es \<le> lim_batch l
    \<and> batch_bytes (batch_of i es) \<le> lim_queued l
    \<and> protected_events es @ map queued_ui (protected_of_queue (feed_queue (snd (flush_start l f))))
        = map queued_ui (protected_of_queue (feed_queue f))"
proof -
  let ?s = "(feed_queue f, feed_losses f)"
  have q: "fst (flush_queue l ?s) = Some (i, es)" "feed_queue (snd (flush_start l f)) = fst (snd (flush_queue l ?s))"
    using assms(3) by (simp_all add: flush_start_def Let_def)
  note s = feed_ok_queue [OF assms(2)]
  note facts = flush_queue_facts [OF assms(1) s(1)]
  from flush_events_ok [OF queue_fits_tallied [OF s(1)] _ q(1)] s(2) have "identity_ok i \<and> list_all event_ok es"
    by simp
  with facts q show ?thesis by (simp add: flush_sized_def flush_keeps_def flushed_events_def)
qed

end
