(* ===== verification/TurnClientFacts.thy ===== *)
theory TurnClientFacts
  imports TurnFeedFacts
begin

text \<open>
  What waits for a client of the turn coordinator (\<open>mergeBatches\<close>, \<open>#queueClientDelivery\<close> and
  \<open>#withClientDropWarning\<close> of \<open>src/node/ride-codex-turn-coordinator.ts\<close>) can be read by the frontend, up
  to the counters of merged warnings, which grow without saturating.
\<close>

section \<open>Batches\<close>

text \<open>An event within the limits of the reader, except that a counter of a warning may be too large.\<close>

definition event_near :: "ui_event \<Rightarrow> bool" where
  "event_near e \<longleftrightarrow>
     (case e of
        Warning_Event w \<Rightarrow> pred_option (\<lambda>n. 0 \<le> n) (dropped_events w) \<and> pred_option (\<lambda>n. 0 \<le> n) (dropped_bytes w)
      | _ \<Rightarrow> event_ok e)"

definition batch_near :: "event_batch \<Rightarrow> bool" where
  "batch_near b \<longleftrightarrow> identity_ok (identity_of b) \<and> list_all event_near (batch_events b)"

definition counters_safe :: "event_batch \<Rightarrow> bool" where
  "counters_safe b \<longleftrightarrow>
     list_all (\<lambda>e. case e of
         Warning_Event w \<Rightarrow>
           pred_option (\<lambda>n. n \<le> max_safe_integer) (dropped_events w) \<and> pred_option (\<lambda>n. n \<le> max_safe_integer) (dropped_bytes w)
       | _ \<Rightarrow> True) (batch_events b)"

lemma event_ok_near: "event_ok e \<Longrightarrow> event_near e"
  by (cases e) (auto simp: event_near_def nonnegative_ok_def split: option.splits elim!: option.pred_mono_strong)

lemma near_event_ok:
  "event_near e \<Longrightarrow>
     (case e of
        Warning_Event w \<Rightarrow>
          pred_option (\<lambda>n. n \<le> max_safe_integer) (dropped_events w) \<and> pred_option (\<lambda>n. n \<le> max_safe_integer) (dropped_bytes w)
      | _ \<Rightarrow> True) \<Longrightarrow> event_ok e"
  by (cases e) (auto simp: event_near_def nonnegative_ok_def pred_option_def)

lemma identity_of_batch [simp]: "identity_of (batch_of i es) = i" "batch_events (batch_of i es) = es"
  by (simp_all add: identity_of_def batch_of_def)

lemma batch_near_of: "identity_ok i \<Longrightarrow> list_all event_near es \<Longrightarrow> batch_near (batch_of i es)"
  by (simp add: batch_near_def)

lemma batch_near_events: "batch_near b \<Longrightarrow> set es \<subseteq> set (batch_events b) \<Longrightarrow> batch_near (b\<lparr>batch_events := es\<rparr>)"
  by (auto simp: batch_near_def identity_of_def list_all_iff)

lemma near_batch_ok:
  assumes "batch_near b" "counters_safe b" "batch_events b \<noteq> []" "length (batch_events b) \<le> 8192"
  shows "batch_ok b"
proof -
  have "list_all event_ok (batch_events b)"
    using assms(1,2) by (auto simp: batch_near_def counters_safe_def list_all_iff intro: near_event_ok)
  with assms show ?thesis by (simp add: batch_ok_def batch_near_def identity_ok_def identity_of_def)
qed

section \<open>Merging\<close>

lemma reported_nonneg: "event_near e \<Longrightarrow> 0 \<le> reported_drops e"
  by (auto simp: reported_drops_def event_near_def split: ui_event.splits option.splits)

lemma merged_warning_near: "0 \<le> n \<Longrightarrow> event_near (merged_warning n)"
  by (simp add: event_near_def merged_warning_def)

definition candidates_ok :: "candidate list \<times> int \<Rightarrow> bool" where
  "candidates_ok acc \<longleftrightarrow> (\<forall>c \<in> set (fst acc). event_near (snd c)) \<and> 0 \<le> snd acc"

lemma drop_last_candidate_set: "drop_last_candidate cs = Some r \<Longrightarrow> set r \<subseteq> set cs"
  by (auto simp: drop_last_candidate_def dest!: take_first_split) (metis Un_iff insert_iff list.simps(15) set_append set_rev)+

lemma candidates_give_way: "candidates_ok acc \<Longrightarrow> candidates_ok (give_way n m i e acc)"
proof (induction n m i e acc rule: give_way.induct)
  case (1 n m i e cs dropped)
  show ?case
  proof (cases "fits_merged n m i cs (e dropped)")
    case True
    with 1 show ?thesis by (simp add: give_way.simps [of n m i e cs dropped])
  next
    case False
    show ?thesis
    proof (cases "drop_last_candidate cs")
      case None
      with False 1 show ?thesis by (simp add: give_way.simps [of n m i e cs dropped])
    next
      case (Some r)
      have "candidates_ok (r, dropped + 1)"
        using "1.prems" drop_last_candidate_set [OF Some] by (auto simp: candidates_ok_def)
      with False Some "1.IH" show ?thesis by (simp add: give_way.simps [of n m i e cs dropped])
    qed
  qed
qed

lemma candidates_merge: "candidates_ok acc \<Longrightarrow> event_near (snd c) \<Longrightarrow> candidates_ok (merge_candidate n m i acc c)"
  by (auto simp: merge_candidate_def candidates_ok_def)

lemma candidates_priority: "candidates_ok acc \<Longrightarrow> event_near (snd c) \<Longrightarrow> candidates_ok (merge_priority n m i acc c)"
  using candidates_give_way [of acc n m i "\<lambda>_. snd c"]
  by (auto simp: merge_priority_def Let_def candidates_ok_def)

lemma candidates_fold:
  "(\<And>acc c. candidates_ok acc \<Longrightarrow> event_near (snd c) \<Longrightarrow> candidates_ok (f acc c)) \<Longrightarrow>
     candidates_ok acc \<Longrightarrow> \<forall>c \<in> set cs. event_near (snd c) \<Longrightarrow> candidates_ok (foldl f acc cs)"
  by (induction cs arbitrary: acc) auto

lemma before_terminal_set [simp]: "set (before_terminal ws es) = set ws \<union> set es"
proof -
  have "set es = set (takeWhile (\<lambda>e. \<not> is_turn_terminal e) es) \<union> set (dropWhile (\<lambda>e. \<not> is_turn_terminal e) es)"
    by (metis set_append takeWhile_dropWhile_id)
  then show ?thesis by (auto simp: before_terminal_def)
qed

lemma merge_warning_near: "candidates_ok acc \<Longrightarrow> e \<in> set (merge_warning n m i acc) \<Longrightarrow> event_near e"
  using candidates_give_way [of acc n m i merged_warning]
  by (auto simp: merge_warning_def Let_def candidates_ok_def merged_warning_near split: if_splits)

lemma merge_batches_near:
  assumes "batch_near b" "batch_near c"
  shows "batch_near (merge_batches b c n m)"
proof -
  let ?combined = "batch_events b @ batch_events c"
  let ?kept = "filter (\<lambda>e. \<not> is_drop_warning e) ?combined"
  let ?cs = "zip [0..<length ?kept] ?kept"
  have near: "\<forall>e \<in> set ?combined. event_near e" using assms by (auto simp: batch_near_def list_all_iff)
  have cs: "\<forall>x \<in> set ?cs. event_near (snd x)" using near by (auto dest!: set_zip_rightD)
  have sum: "0 \<le> sum_list (map reported_drops ?combined)"
    using near by (intro sum_list_nonneg) (auto intro: reported_nonneg)
  then have "candidates_ok ([], sum_list (map reported_drops ?combined))" by (simp add: candidates_ok_def)
  then have "candidates_ok (foldl (merge_priority n m (identity_of c))
      (foldl (merge_candidate n m (identity_of c)) ([], sum_list (map reported_drops ?combined)) ?cs)
      (filter (\<lambda>c. is_protected (snd c)) ?cs))"
    using cs by (intro candidates_fold candidates_priority candidates_merge) auto
  then show ?thesis
    using assms by (auto simp: merge_batches_def Let_def batch_near_def list_all_iff intro: merge_warning_near)
qed

section \<open>The list of a client\<close>

definition client_ok :: "turn_client \<Rightarrow> bool" where
  "client_ok c \<longleftrightarrow>
     list_all batch_near (tc_pending c) \<and> nonnegative_ok (tc_dropped_events c) \<and> nonnegative_ok (tc_dropped_bytes c)"

lemma client_ok_loss [simp]:
  "0 \<le> n \<Longrightarrow> 0 \<le> k \<Longrightarrow> 0 \<le> lim_queued l \<Longrightarrow> client_ok c \<Longrightarrow> client_ok (client_loss l n k c)"
  by (auto simp: client_ok_def client_loss_def saturating_add_def nonnegative_ok_def)

lemma client_ok_flags [simp]:
  "client_ok (c\<lparr>tc_in_flight := a\<rparr>) = client_ok c" "client_ok (c\<lparr>tc_in_flight_identity := i\<rparr>) = client_ok c"
  "client_ok (c\<lparr>tc_version := n\<rparr>) = client_ok c" "client_ok (c\<lparr>tc_pending_bytes := m\<rparr>) = client_ok c"
  by (simp_all add: client_ok_def)

lemma client_ok_pending: "client_ok c \<Longrightarrow> list_all batch_near bs \<Longrightarrow> client_ok (c\<lparr>tc_pending := bs\<rparr>)"
  by (simp add: client_ok_def)

lemma client_ok_new: "client_ok new_turn_client"
  by (simp add: client_ok_def new_turn_client_def nonnegative_ok_def)

lemma loss_weight_nonneg: "event_near e \<Longrightarrow> 0 \<le> loss_weight e"
  by (simp add: loss_weight_def reported_nonneg)

lemma event_array_bytes_nonneg: "0 \<le> event_array_bytes es"
  by (simp add: event_array_text)

lemma batch_bytes_nonneg: "0 \<le> batch_bytes b"
  by (simp add: batch_bytes_head event_array_bytes_nonneg)

lemma client_ok_shed_event:
  assumes "shed_event l c = Some c'" "client_ok c" "0 \<le> lim_queued l"
  shows "client_ok c'"
proof -
  obtain before b e es rest where f: "first_ordinary (tc_pending c) = Some (before, b, e, es, rest)"
    using assms(1) by (auto simp: shed_event_def split: option.splits)
  note split = first_ordinary_split [OF f]
  have near: "batch_near b" "list_all batch_near (before @ rest)"
    using assms(2) split by (auto simp: client_ok_def)
  obtain us vs where u: "batch_events b = us @ e # vs" "es = us @ vs"
    using take_first_split [of "\<lambda>e. \<not> is_protected e" "batch_events b" e es] split by blast
  have "e \<in> set (batch_events b)" "set es \<subseteq> set (batch_events b)" unfolding u by auto
  then have e: "event_near e" "batch_near (b\<lparr>batch_events := es\<rparr>)"
    using near(1) by (auto intro!: batch_near_events) (auto simp: batch_near_def list_all_iff)
  have "client_ok (c\<lparr>tc_pending := before @ rest\<rparr>)" "client_ok (c\<lparr>tc_pending := before @ b\<lparr>batch_events := es\<rparr> # rest\<rparr>)"
    using assms(2) near(2) e(2) by (auto intro!: client_ok_pending)
  moreover from assms(1) f have "c' = client_loss l (loss_weight e) (event_bytes e)
            (if es = [] then c\<lparr>tc_pending := before @ rest, tc_pending_bytes := tc_pending_bytes c - batch_bytes b\<rparr>
             else c\<lparr>tc_pending := before @ b\<lparr>batch_events := es\<rparr> # rest,
                    tc_pending_bytes := tc_pending_bytes c - (batch_bytes b - batch_bytes (b\<lparr>batch_events := es\<rparr>))\<rparr>)"
    by (simp add: shed_event_def Let_def)
  ultimately show ?thesis using assms(3) loss_weight_nonneg [OF e(1)] by simp
qed

lemma client_ok_shed_batches:
  "client_ok c \<Longrightarrow> list_all batch_near bs \<Longrightarrow> 0 \<le> lim_queued l \<Longrightarrow> client_ok (foldr (shed_batch l) bs c)"
proof (induction bs)
  case (Cons b bs)
  have "0 \<le> sum_list (map loss_weight (batch_events b))"
    using Cons.prems(2) by (intro sum_list_nonneg) (auto simp: batch_near_def list_all_iff intro: loss_weight_nonneg)
  with Cons show ?case by (simp add: shed_batch_def batch_bytes_nonneg)
qed simp

lemma client_ok_shed_turn:
  assumes "shed_turn l b c = Some c'" "client_ok c" "0 \<le> lim_queued l"
  shows "client_ok c'"
proof -
  obtain gone kept where k: "c' = (foldr (shed_batch l) gone c)\<lparr>tc_pending := kept\<rparr>"
      "set gone \<subseteq> set (tc_pending c)" "set kept \<subseteq> set (tc_pending c)"
    using assms(1) by (auto simp: shed_turn_def Let_def split: option.splits)
  moreover have "list_all batch_near gone" "list_all batch_near kept"
    using assms(2) k(2,3) by (auto simp: client_ok_def list_all_iff)
  ultimately show ?thesis using assms by (auto intro!: client_ok_pending client_ok_shed_batches)
qed

lemma client_ok_shed: "client_ok c \<Longrightarrow> 0 \<le> lim_queued l \<Longrightarrow> client_ok (shed_client l b c)"
proof (induction l b c rule: shed_client.induct)
  case (1 l b c)
  show ?case
  proof (cases "\<not> client_over l c")
    case True
    with 1 show ?thesis by (simp add: shed_client.simps [of l b c])
  next
    case over: False
    show ?thesis
    proof (cases "shed_event l c")
      case (Some c')
      with "1.IH"(2) [OF over Some client_ok_shed_event [OF Some "1.prems"] "1.prems"(2)] over
      show ?thesis by (simp add: shed_client.simps [of l b c])
    next
      case none: None
      show ?thesis
      proof (cases "shed_turn l b c")
        case None
        with over none 1 show ?thesis by (simp add: shed_client.simps [of l b c])
      next
        case (Some c')
        with "1.IH"(1) [OF over none Some client_ok_shed_turn [OF Some "1.prems"] "1.prems"(2)] over none
        show ?thesis by (simp add: shed_client.simps [of l b c])
      qed
    qed
  qed
qed

lemma client_ok_append: "client_ok c \<Longrightarrow> batch_near b \<Longrightarrow> client_ok (append_pending l b c)"
  by (auto simp: append_pending_def Let_def client_ok_def list_all_iff dest: in_set_butlastD intro!: merge_batches_near)

lemma client_ok_delivery:
  "client_ok c \<Longrightarrow> batch_near b \<Longrightarrow> 0 \<le> lim_queued l \<Longrightarrow> client_ok (queue_delivery l b c)"
  by (simp add: queue_delivery_def client_ok_shed client_ok_append)

lemma make_way_ok:
  "client_ok c \<Longrightarrow> 0 \<le> lim_queued l \<Longrightarrow>
     client_ok (snd (make_way l i es c)) \<and> (\<forall>r. fst (make_way l i es c) = Some r \<longrightarrow> set r \<subseteq> set es)"
proof (induction l i es c rule: make_way.induct)
  case (1 l i es c)
  show ?case
  proof (cases "fits_warned l i es c \<or> drop_last_ordinary es = None")
    case True
    with 1 show ?thesis by (auto simp: make_way.simps [of l i es c])
  next
    case False
    then obtain e r where p: "drop_last_ordinary es = Some (e, r)" "\<not> fits_warned l i es c" by auto
    have "client_ok (client_loss l 1 (event_bytes e) c)" using "1.prems" by simp
    from "1.IH" [OF p(2,1) refl this "1.prems"(2)] p drop_last_split [OF p(1)] show ?thesis
      by (auto simp: make_way.simps [of l i es c])
  qed
qed

lemma client_warning_near: "client_ok c \<Longrightarrow> event_near (client_warning c)"
  by (simp add: client_ok_def client_warning_def event_near_def nonnegative_ok_def)

lemma with_client_warning_ok:
  assumes "client_ok c" "batch_near b" "0 \<le> lim_queued l"
  shows "batch_near (fst (with_client_warning l b c)) \<and> client_ok (snd (with_client_warning l b c))"
proof -
  note way = make_way_ok [OF assms(1,3), of "identity_of b" "batch_events b"]
  have "client_ok (d\<lparr>tc_dropped_events := 0, tc_dropped_bytes := 0\<rparr>)" if "client_ok d" for d
    using that by (simp add: client_ok_def nonnegative_ok_def)
  moreover have "batch_near (b\<lparr>batch_events := before_terminal [client_warning d] es\<rparr>)"
    if "client_ok d" "set es \<subseteq> set (batch_events b)" for d es
    using that client_warning_near [of d] assms(2) by (auto simp: batch_near_def identity_of_def list_all_iff)
  ultimately show ?thesis
    using way assms by (auto simp: with_client_warning_def Let_def split: option.split)
qed

lemma take_pending_ok:
  "take_pending l c = Some (b, c') \<Longrightarrow> client_ok c \<Longrightarrow> 0 \<le> lim_queued l \<Longrightarrow> batch_near b \<and> client_ok c'"
proof -
  assume t: "take_pending l c = Some (b, c')" and c: "client_ok c" and l: "0 \<le> lim_queued l"
  from t obtain d ds where d: "tc_pending c = d # ds"
      "(b, c') = with_client_warning l d (c\<lparr>tc_pending := ds, tc_pending_bytes := tc_pending_bytes c - batch_bytes d\<rparr>)"
    by (auto simp: take_pending_def split: list.splits)
  have "batch_near d" "client_ok (c\<lparr>tc_pending := ds, tc_pending_bytes := tc_pending_bytes c - batch_bytes d\<rparr>)"
    using c d(1) by (auto simp: client_ok_def)
  from with_client_warning_ok [OF this(2,1) l] show ?thesis unfolding d(2) [symmetric] by simp
qed

section \<open>The texts that are sent\<close>

definition wire_ok :: "feed_limits \<Rightarrow> jsstr \<Rightarrow> bool" where
  "wire_ok l w \<longleftrightarrow>
     (\<exists>b. batch_near b \<and> serialize_validated_batch b (lim_queued l) = Some w)"

lemma validated_array: "validate_raw px d (JsArray vs) s \<noteq> None \<Longrightarrow> length vs \<le> max_raw_array"
  by (cases s) (auto split: if_splits)

lemma members_valid:
  "validate_raw_members px d ps s \<noteq> None \<Longrightarrow> (k, Data_Property a v) \<in> set ps \<Longrightarrow> \<exists>s'. validate_raw px d v s' \<noteq> None"
proof (induction ps arbitrary: s)
  case (Cons p ps)
  obtain n bytes where s: "s = (n, bytes)" by (cases s)
  obtain k' q where p: "p = (k', q)" by (cases p)
  show ?case
  proof (cases q)
    case (Data_Property a' v')
    obtain r where r: "validate_raw px d v' (n, bytes + utf8_byte_length k') = Some r"
        "validate_raw_members px d ps r \<noteq> None"
      using Cons.prems(1) unfolding s p Data_Property
      by (auto simp del: validate_raw.simps split: option.splits)
    show ?thesis
    proof (cases "v = v'")
      case True
      show ?thesis unfolding True using r(1) by (intro exI [of _ "(n, bytes + utf8_byte_length k')"]) (simp del: validate_raw.simps)
    next
      case False
      with Cons.prems(2) p Data_Property have "(k, Data_Property a v) \<in> set ps" by auto
      from Cons.IH [OF r(2) this] show ?thesis .
    qed
  qed (use Cons.prems(1) s p in simp)
qed simp

lemma serialized_length:
  assumes "serialize_validated_batch b n = Some w"
  shows "length (batch_events b) \<le> 8192"
proof -
  obtain ps where ps: "value_of_json (batch_json b) = JsObject True ps"
      "(js ''events'', Data_Property True (JsArray (map value_of_json (map event_json (batch_events b))))) \<in> set ps"
    by (simp add: batch_json_def obj_def)
  have "validate_raw not_proxied 0 (value_of_json (batch_json b)) (0, 0) \<noteq> None"
    using assms by (auto simp: serialize_validated_batch_def split: if_splits)
  then have "validate_raw_members not_proxied 1 ps (1, 0) \<noteq> None"
    unfolding ps(1) by (auto split: if_splits)
  from members_valid [OF this ps(2)] obtain s' where
    "validate_raw not_proxied 1 (JsArray (map value_of_json (map event_json (batch_events b)))) s' \<noteq> None" by blast
  from validated_array [OF this] show ?thesis by (simp add: max_raw_array_def)
qed

lemma wire_ok_reads:
  "wire_ok l w \<Longrightarrow>
     \<exists>b. w = json_stringify (batch_json b) \<and> utf8_byte_length w \<le> lim_queued l \<and>
         (batch_events b \<noteq> [] \<and> counters_safe b \<longrightarrow> parse_safe_batch w (lim_queued l) = Some b)"
proof -
  assume "wire_ok l w"
  then obtain b where b: "batch_near b" "serialize_validated_batch b (lim_queued l) = Some w"
    by (auto simp: wire_ok_def)
  then have "w = json_stringify (batch_json b)" "utf8_byte_length w \<le> lim_queued l"
    by (auto simp: serialize_validated_batch_def serialize_event_batch_def Let_def split: if_splits)
  moreover have "parse_safe_batch w (lim_queued l) = Some b" if "batch_events b \<noteq> []" "counters_safe b"
    using near_batch_ok [OF b(1) that(2,1) serialized_length [OF b(2)]] b(2) by (rule serialized_reads)
  ultimately show ?thesis by blast
qed

end
