(* ===== verification/TurnMoves.thy ===== *)
theory TurnMoves
  imports TurnMachine TurnClientFacts
begin

text \<open>
  The moves of the turn coordinator (\<open>src/node/ride-codex-turn-coordinator.ts\<close>): every event takes it
  from one state to the next by a sequence of small moves, each of which keeps the invariants below for
  its own reason. A move may need the right to settle the call it belongs to, which it uses up.
\<close>

section \<open>The invariant of the state\<close>

definition turn_fits :: "int \<Rightarrow> active_turn \<Rightarrow> bool" where
  "turn_fits s t \<longleftrightarrow>
     0 < s \<and> s \<le> max_safe_integer \<and> id_fits (turn_thread_id t) \<and> pred_option id_fits (turn_name t)
     \<and> pred_option nonnegative_ok (turn_generation t)"

definition open_turn :: "active_turn \<Rightarrow> bool" where
  "open_turn t \<longleftrightarrow> \<not> turn_ended t \<and> \<not> turn_released t"

definition turns_ok :: "coordinator \<Rightarrow> bool" where
  "turns_ok b \<longleftrightarrow>
     nonnegative_ok (co_generation b) \<and> nonnegative_ok (co_sequence b)
     \<and> (\<forall>s t. map_get (co_turns b) s = Some t \<longrightarrow> turn_fits s t)
     \<and> (\<forall>s. co_active b = Some s \<longrightarrow> (\<exists>t. map_get (co_turns b) s = Some t \<and> open_turn t))"

definition clients_ok :: "coordinator \<Rightarrow> bool" where
  "clients_ok b \<longleftrightarrow> (\<forall>c r. map_get (co_clients b) c = Some r \<longrightarrow> client_ok r)"

definition wires_ok :: "feed_limits \<Rightarrow> coordinator \<Rightarrow> bool" where
  "wires_ok l b \<longleftrightarrow> (\<forall>c w. Wire_Sent c w \<in> set (co_history b) \<longrightarrow> wire_ok l w)"

text \<open>A disposed coordinator holds nothing that could be sent.\<close>

definition disposed_quiet :: "coordinator \<Rightarrow> bool" where
  "disposed_quiet b \<longleftrightarrow>
     (co_disposed b \<longrightarrow>
        co_active b = None \<and> co_clients b = [] \<and> feed_queue (co_feed b) = [] \<and> feed_identity (co_feed b) = None)"

definition coordinator_ok :: "turn_env \<Rightarrow> coordinator \<Rightarrow> bool" where
  "coordinator_ok env b \<longleftrightarrow>
     turns_ok b \<and> clients_ok b \<and> wires_ok (tenv_limits env) b \<and> disposed_quiet b \<and> feed_ok (tenv_limits env) (co_feed b)"

section \<open>Moves\<close>

text \<open>What a move that only keeps books leaves alone.\<close>

definition same_books :: "coordinator \<Rightarrow> coordinator \<Rightarrow> bool" where
  "same_books b b' \<longleftrightarrow>
     co_feed b' = co_feed b \<and> co_clients b' = co_clients b \<and> co_turns b' = co_turns b \<and> co_active b' = co_active b
     \<and> co_generation b' = co_generation b \<and> co_sequence b' = co_sequence b \<and> co_disposed b' = co_disposed b
     \<and> co_next_key b' = co_next_key b \<and> co_tasks b' = co_tasks b \<and> co_released b' = co_released b
     \<and> co_history b' = co_history b"

fun plain_effect :: "turn_effect \<Rightarrow> bool" where
  "plain_effect (Wire_Sent _ _) = False"
| "plain_effect (Turn_Lease_Released _) = False"
| "plain_effect (Turn_Call_Settled _ _) = False"
| "plain_effect _ = True"

definition turn_update :: "active_turn \<Rightarrow> active_turn \<Rightarrow> bool" where
  "turn_update t t' \<longleftrightarrow>
     turn_thread_id t' = turn_thread_id t \<and> turn_ended t' = turn_ended t \<and> turn_released t' = turn_released t"

text \<open>The state of the table of clients after one operation on the record of a client.\<close>

definition client_update :: "turn_client \<Rightarrow> turn_client \<Rightarrow> bool" where
  "client_update r r' \<longleftrightarrow> client_ok r \<longrightarrow> client_ok r'"

inductive turn_move :: "turn_env \<Rightarrow> nat \<Rightarrow> coordinator \<times> bool \<Rightarrow> coordinator \<times> bool \<Rightarrow> bool" for env k where
  Books: "same_books b b' \<Longrightarrow> turn_move env k (b, p) (b', p)"
| Logs: "plain_effect e \<Longrightarrow> turn_move env k (b, p) (log_turn e b, p)"
| Waits: "turn_move env k (b, True) (put_turn_task k t b, True)"
| Drops: "turn_move env k (b, p) (drop_turn_task j b, p)"
| Spawns: "turn_move env k (b, p) (put_turn_task (co_next_key b) t (b\<lparr>co_next_key := co_next_key b + 1\<rparr>), p)"
| Settles: "turn_move env k (b, True) (settle_call k r b, False)"
| Releases: "turn_move env k (b, p) (release_turn_lease j b, p)"
| Starts: "co_active b = None \<Longrightarrow> \<not> co_disposed b \<Longrightarrow> id_fits thread \<Longrightarrow> co_sequence b < max_safe_integer \<Longrightarrow>
     turn_move env k (b, p)
       (put_turn (co_sequence b + 1) (fresh_turn c thread)
          (b\<lparr>co_sequence := co_sequence b + 1, co_active := Some (co_sequence b + 1)\<rparr>), p)"
| Updates: "co_active b = Some s \<Longrightarrow> turn_update (the_turn s b) t \<Longrightarrow> turn_fits s t \<Longrightarrow>
     turn_move env k (b, p) (put_turn s t b, p)"
| Names: "co_active b = Some s \<Longrightarrow> identity_ok i \<Longrightarrow> turn_move env k (b, p) (set_identity i b, p)"
| Emits: "event_ok e \<Longrightarrow> turn_move env k (b, p) (emit env e b, p)"
| Diagnoses: "event_ok e \<Longrightarrow> turn_move env k (b, p) (emit_diagnostic env e b, p)"
| Streams: "event_ok e \<Longrightarrow> turn_move env k (b, p) (on_feed (enqueue_coalesced (tenv_limits env) e) b, p)"
| Ends: "co_active b = Some s \<Longrightarrow> turn_released t \<Longrightarrow> turn_fits s t \<Longrightarrow>
     (\<And>j. turn_lease t = Some j \<Longrightarrow> j \<in> set (co_released b)) \<Longrightarrow>
     turn_move env k (b, p) ((put_turn s t b)\<lparr>co_active := None\<rparr>, p)"
| Advances: "nonnegative_ok g \<Longrightarrow> turn_move env k (b, p) (b\<lparr>co_generation := g\<rparr>, p)"
| Leaves: "turn_move env k (b, p) (b\<lparr>co_clients := map_delete (co_clients b) c\<rparr>, p)"
| Connects: "\<not> co_disposed b \<Longrightarrow>
     turn_move env k (b, p) (b\<lparr>co_clients := map_set (co_clients b) c new_turn_client\<rparr>, p)"
| Client: "map_get (co_clients b) c = Some r \<Longrightarrow> client_update r r' \<Longrightarrow> turn_move env k (b, p) (put_client c r' b, p)"
| Sends: "map_has (co_clients b) c \<Longrightarrow> wire_ok (tenv_limits env) w \<Longrightarrow> turn_move env k (b, p) (log_turn (Wire_Sent c w) b, p)"
| Flushes: "turn_move env k (b, p) (b\<lparr>co_feed := snd (flush_start (tenv_limits env) (co_feed b))\<rparr>, p)"
| Flushed: "turn_move env k (b, p) (on_feed (flush_end i) b, p)"
| Disposes: "co_active b = None \<Longrightarrow>
     turn_move env k (b, p) (b\<lparr>co_disposed := True, co_feed := cleared_feed (co_feed b), co_clients := []\<rparr>, p)"

section \<open>Moves keep the invariant\<close>

lemma same_books_ok: "same_books b b' \<Longrightarrow> coordinator_ok env b \<Longrightarrow> coordinator_ok env b'"
  by (simp add: same_books_def coordinator_ok_def turns_ok_def clients_ok_def wires_ok_def disposed_quiet_def)

lemma ok_feed:
  "coordinator_ok env b \<Longrightarrow> feed_ok (tenv_limits env) (f (co_feed b)) \<Longrightarrow>
     (co_disposed b \<Longrightarrow> feed_queue (co_feed b) = [] \<Longrightarrow> feed_identity (co_feed b) = None \<Longrightarrow>
        feed_queue (f (co_feed b)) = [] \<and> feed_identity (f (co_feed b)) = None) \<Longrightarrow>
     coordinator_ok env (on_feed f b)"
  by (auto simp: coordinator_ok_def turns_ok_def clients_ok_def wires_ok_def disposed_quiet_def on_feed_def)

lemma silent_feed:
  "feed_identity f = None \<Longrightarrow> feed_queue f = [] \<Longrightarrow>
     feed_queue (enqueue l e f) = [] \<and> feed_identity (enqueue l e f) = None"
  "feed_identity f = None \<Longrightarrow> feed_queue f = [] \<Longrightarrow>
     feed_queue (enqueue_diagnostic l e f) = [] \<and> feed_identity (enqueue_diagnostic l e f) = None"
  "feed_identity f = None \<Longrightarrow> feed_queue f = [] \<Longrightarrow>
     feed_queue (enqueue_coalesced l e f) = [] \<and> feed_identity (enqueue_coalesced l e f) = None"
  "feed_identity f = None \<Longrightarrow> feed_queue f = [] \<Longrightarrow>
     feed_queue (snd (flush_start l f)) = [] \<and> feed_identity (snd (flush_start l f)) = None"
  "feed_identity f = None \<Longrightarrow> feed_queue f = [] \<Longrightarrow>
     feed_queue (flush_end i f) = [] \<and> feed_identity (flush_end i f) = None"
  by (auto simp: enqueue_def enqueue_diagnostic_def enqueue_coalesced_def flush_start_def flush_queue_def flush_end_def
      Let_def reschedule_flush_def)

lemma ok_parts:
  assumes "coordinator_ok env b"
  shows "feed_ok (tenv_limits env) (co_feed b)" "turns_ok b" "clients_ok b" "wires_ok (tenv_limits env) b" "disposed_quiet b"
  using assms by (simp_all add: coordinator_ok_def)

lemma ok_log:
  "coordinator_ok env b \<Longrightarrow> (\<And>c w. e = Wire_Sent c w \<Longrightarrow> wire_ok (tenv_limits env) w) \<Longrightarrow> coordinator_ok env (log_turn e b)"
  by (auto simp: coordinator_ok_def turns_ok_def clients_ok_def wires_ok_def disposed_quiet_def log_turn_def)

lemma ok_frames [simp]:
  "coordinator_ok env (b\<lparr>co_tasks := x1\<rparr>) = coordinator_ok env b"
  "coordinator_ok env (b\<lparr>co_next_key := x2\<rparr>) = coordinator_ok env b"
  "coordinator_ok env (b\<lparr>co_released := x3\<rparr>) = coordinator_ok env b"
  by (simp_all add: coordinator_ok_def turns_ok_def clients_ok_def wires_ok_def disposed_quiet_def)

lemma ok_turns:
  "coordinator_ok env b \<Longrightarrow> co_active b = Some s \<Longrightarrow> turn_update (the_turn s b) t \<Longrightarrow> turn_fits s t \<Longrightarrow>
     coordinator_ok env (put_turn s t b)"
  by (auto simp: coordinator_ok_def turns_ok_def clients_ok_def wires_ok_def disposed_quiet_def put_turn_def map_get_set
      turn_update_def open_turn_def the_turn_def)

lemma ok_ends:
  "coordinator_ok env b \<Longrightarrow> turn_fits s t \<Longrightarrow> coordinator_ok env ((put_turn s t b)\<lparr>co_active := None\<rparr>)"
  by (auto simp: coordinator_ok_def turns_ok_def clients_ok_def wires_ok_def disposed_quiet_def put_turn_def map_get_set)

lemma ok_starts:
  assumes "coordinator_ok env b" "\<not> co_disposed b" "id_fits thread" "co_sequence b < max_safe_integer"
  shows "coordinator_ok env (put_turn (co_sequence b + 1) (fresh_turn c thread)
          (b\<lparr>co_sequence := co_sequence b + 1, co_active := Some (co_sequence b + 1)\<rparr>))"
  using assms
  by (auto simp: coordinator_ok_def turns_ok_def clients_ok_def wires_ok_def disposed_quiet_def put_turn_def map_get_set
      fresh_turn_def open_turn_def turn_fits_def nonnegative_ok_def)

lemma map_Nil [simp]: "map_get [] k = None" "map_delete [] k = []" "map_keys [] = []"
  by (simp_all add: map_get_def map_delete_def map_keys_def)

lemma ok_clients:
  "coordinator_ok env b \<Longrightarrow> coordinator_ok env (b\<lparr>co_clients := map_delete (co_clients b) c\<rparr>)"
  "coordinator_ok env b \<Longrightarrow> \<not> co_disposed b \<Longrightarrow> coordinator_ok env (b\<lparr>co_clients := map_set (co_clients b) c new_turn_client\<rparr>)"
  "coordinator_ok env b \<Longrightarrow> map_get (co_clients b) c = Some r \<Longrightarrow> client_update r r' \<Longrightarrow> coordinator_ok env (put_client c r' b)"
  by (auto simp: coordinator_ok_def turns_ok_def clients_ok_def wires_ok_def disposed_quiet_def put_client_def map_get_set
      map_get_delete client_ok_new client_update_def split: if_splits)

lemma move_ok:
  assumes "limits_fit (tenv_limits env)"
  shows "turn_move env k x y \<Longrightarrow> coordinator_ok env (fst x) \<Longrightarrow> coordinator_ok env (fst y)"
proof (induction rule: turn_move.induct)
  case (Books b b' p)
  then show ?case by (auto intro: same_books_ok)
next
  case (Logs e b p)
  then show ?case by (auto intro: ok_log)
next
  case (Waits t b)
  then show ?case by (simp add: put_turn_task_def)
next
  case (Drops b p j)
  then show ?case by (simp add: drop_turn_task_def)
next
  case (Spawns b p t)
  then show ?case by (simp add: put_turn_task_def)
next
  case (Settles b r)
  then show ?case by (auto simp: settle_call_def drop_turn_task_def intro: ok_log)
next
  case (Releases b p j)
  then show ?case by (auto simp: release_turn_lease_def intro: ok_log)
next
  case (Starts b thread p c)
  then show ?case by (simp add: ok_starts)
next
  case (Updates b s t p)
  then show ?case by (simp add: ok_turns)
next
  case (Names b s i p)
  then have "\<not> co_disposed b" by (auto simp: coordinator_ok_def disposed_quiet_def)
  with Names show ?case
    by (auto simp: set_identity_def intro!: ok_feed feed_ok_identity ok_parts(1))
next
  case (Emits e b p)
  then show ?case using assms by (auto simp: emit_def silent_feed intro!: ok_feed feed_ok_enqueue ok_parts(1))
next
  case (Diagnoses e b p)
  then show ?case using assms by (auto simp: emit_diagnostic_def silent_feed intro!: ok_feed feed_ok_diagnostic ok_parts(1))
next
  case (Streams e b p)
  then show ?case using assms by (auto simp: silent_feed intro!: ok_feed feed_ok_coalesced ok_parts(1))
next
  case (Ends b s t p)
  then show ?case by (simp add: ok_ends)
next
  case (Advances g b p)
  then show ?case by (simp add: coordinator_ok_def turns_ok_def clients_ok_def wires_ok_def disposed_quiet_def)
next
  case (Leaves b p c)
  then show ?case by (simp add: ok_clients)
next
  case (Connects b p c)
  then show ?case by (simp add: ok_clients)
next
  case (Client b c r r' p)
  then show ?case by (simp add: ok_clients)
next
  case (Sends b c w p)
  then show ?case by (auto intro: ok_log)
next
  case (Flushes b p)
  have "b\<lparr>co_feed := snd (flush_start (tenv_limits env) (co_feed b))\<rparr> =
      on_feed (\<lambda>f. snd (flush_start (tenv_limits env) f)) b" by (simp add: on_feed_def)
  with Flushes show ?case
    using assms by (auto simp: silent_feed intro!: ok_feed feed_ok_flush_start ok_parts(1))
next
  case (Flushed b p i)
  then show ?case by (auto simp: silent_feed intro!: ok_feed feed_ok_flush_end ok_parts(1))
next
  case (Disposes b p)
  then show ?case
    using feed_ok_cleared [OF assms, of "co_feed b"]
    by (auto simp: coordinator_ok_def turns_ok_def clients_ok_def wires_ok_def disposed_quiet_def cleared_feed_def)
qed

section \<open>Leases\<close>

definition releases :: "turn_effect list \<Rightarrow> nat list" where
  "releases h = concat (map (\<lambda>e. case e of Turn_Lease_Released j \<Rightarrow> [j] | _ \<Rightarrow> []) h)"

lemma releases_append [simp]: "releases (h @ h') = releases h @ releases h'"
  by (simp add: releases_def)

lemma releases_plain: "plain_effect e \<Longrightarrow> releases [e] = []"
  by (cases e) (auto simp: releases_def)

lemma releases_single [simp]:
  "releases [Turn_Lease_Released j] = [j]" "releases [Wire_Sent c w] = []" "releases [Turn_Call_Settled j r] = []"
  by (simp_all add: releases_def)

text \<open>The lease of a turn that is over is back, and no lease is given back twice.\<close>

definition leases_ok :: "coordinator \<Rightarrow> bool" where
  "leases_ok b \<longleftrightarrow>
     co_released b = releases (co_history b) \<and> distinct (co_released b)
     \<and> (\<forall>s t j. map_get (co_turns b) s = Some t \<longrightarrow> turn_lease t = Some j \<longrightarrow> co_active b \<noteq> Some s \<longrightarrow> j \<in> set (co_released b))"

lemma leases_move: "turn_move env k x y \<Longrightarrow> leases_ok (fst x) \<Longrightarrow> leases_ok (fst y)"
proof (induction rule: turn_move.induct)
  case (Ends b s t p)
  then show ?case by (auto simp: leases_ok_def put_turn_def map_get_set)
next
  case (Starts b thread p c)
  then show ?case by (auto simp: leases_ok_def put_turn_def map_get_set fresh_turn_def)
next
  case (Updates b s t p)
  then show ?case by (auto simp: leases_ok_def put_turn_def map_get_set)
next
  case (Releases b p j)
  then show ?case by (auto simp: leases_ok_def release_turn_lease_def log_turn_def)
qed (auto simp: leases_ok_def same_books_def log_turn_def releases_plain put_turn_task_def drop_turn_task_def settle_call_def
      set_identity_def emit_def emit_diagnostic_def on_feed_def put_client_def)

section \<open>Calls\<close>

definition settled_calls :: "turn_effect list \<Rightarrow> nat list" where
  "settled_calls h = concat (map (\<lambda>e. case e of Turn_Call_Settled j r \<Rightarrow> [j] | _ \<Rightarrow> []) h)"

lemma settled_append [simp]: "settled_calls (h @ h') = settled_calls h @ settled_calls h'"
  by (simp add: settled_calls_def)

lemma settled_plain: "plain_effect e \<Longrightarrow> settled_calls [e] = []"
  by (cases e) (auto simp: settled_calls_def)

lemma settled_single [simp]:
  "settled_calls [Turn_Lease_Released j] = []" "settled_calls [Wire_Sent c w] = []" "settled_calls [Turn_Call_Settled j r] = [j]"
  by (simp_all add: settled_calls_def)

text \<open>A call that still waits is not settled; the flag is the right to settle call \<open>k\<close>.\<close>

definition calls_ok :: "nat \<Rightarrow> coordinator \<times> bool \<Rightarrow> bool" where
  "calls_ok k x \<longleftrightarrow>
     distinct (settled_calls (co_history (fst x)))
     \<and> (\<forall>j \<in> set (settled_calls (co_history (fst x))). j < co_next_key (fst x) \<and> \<not> map_has (co_tasks (fst x)) j)
     \<and> (\<forall>j. map_has (co_tasks (fst x)) j \<longrightarrow> j < co_next_key (fst x))
     \<and> (snd x \<longrightarrow> k < co_next_key (fst x) \<and> k \<notin> set (settled_calls (co_history (fst x))))"

lemma calls_move: "turn_move env k x y \<Longrightarrow> calls_ok k x \<Longrightarrow> calls_ok k y"
proof (induction rule: turn_move.induct)
  case (Spawns b p t)
  then show ?case by (fastforce simp: calls_ok_def put_turn_task_def)
next
  case (Settles b r)
  then show ?case by (auto simp: calls_ok_def settle_call_def log_turn_def drop_turn_task_def)
next
  case (Waits t b)
  then show ?case by (auto simp: calls_ok_def put_turn_task_def)
next
  case (Drops b p j)
  then show ?case by (auto simp: calls_ok_def drop_turn_task_def)
qed (auto simp: calls_ok_def same_books_def log_turn_def settled_plain release_turn_lease_def put_turn_def
      set_identity_def emit_def emit_diagnostic_def on_feed_def put_client_def)

section \<open>Silence\<close>

definition sent_wires :: "turn_effect list \<Rightarrow> (nat \<times> jsstr) list" where
  "sent_wires h = concat (map (\<lambda>e. case e of Wire_Sent c w \<Rightarrow> [(c, w)] | _ \<Rightarrow> []) h)"

lemma sent_append [simp]: "sent_wires (h @ h') = sent_wires h @ sent_wires h'"
  by (simp add: sent_wires_def)

lemma sent_plain: "plain_effect e \<Longrightarrow> sent_wires [e] = []"
  by (cases e) (auto simp: sent_wires_def)

lemma sent_single [simp]:
  "sent_wires [Turn_Lease_Released j] = []" "sent_wires [Wire_Sent c w] = [(c, w)]" "sent_wires [Turn_Call_Settled j r] = []"
  by (simp_all add: sent_wires_def)

lemma sent_in: "(c, w) \<in> set (sent_wires h) \<longleftrightarrow> Wire_Sent c w \<in> set h"
  by (auto simp: sent_wires_def split: turn_effect.splits)

definition disposed_since :: "coordinator \<Rightarrow> coordinator \<Rightarrow> bool" where
  "disposed_since b b' \<longleftrightarrow>
     (co_disposed b \<longrightarrow> co_disposed b' \<and> sent_wires (co_history b') = sent_wires (co_history b)
        \<and> co_sequence b' = co_sequence b)"

lemma silent_move: "turn_move env k x y \<Longrightarrow> disposed_quiet (fst x) \<Longrightarrow> disposed_since (fst x) (fst y)"
  by (induction rule: turn_move.induct)
    (auto simp: disposed_since_def disposed_quiet_def same_books_def log_turn_def sent_plain release_turn_lease_def
      put_turn_task_def drop_turn_task_def settle_call_def put_turn_def map_has_get
      set_identity_def emit_def emit_diagnostic_def on_feed_def put_client_def)

end
