(* ===== verification/TurnPaths.thy ===== *)
theory TurnPaths
  imports TurnMoves
begin

text \<open>
  The operations of the turn coordinator (\<open>src/node/ride-codex-turn-coordinator.ts\<close>) as sequences of
  moves. Operations that settle no call are free; the others need the right to settle the call they
  belong to.
\<close>

section \<open>Sequences of moves\<close>

abbreviation fit_state :: "turn_env \<Rightarrow> coordinator \<Rightarrow> bool" where
  "fit_state env b \<equiv> limits_fit (tenv_limits env) \<and> coordinator_ok env b"

definition moves :: "turn_env \<Rightarrow> nat \<Rightarrow> coordinator \<Rightarrow> coordinator \<Rightarrow> bool" where
  "moves env k b b' \<longleftrightarrow> (fit_state env b \<longrightarrow> (\<forall>p. (turn_move env k)\<^sup>*\<^sup>* (b, p) (b', p)))"

definition leads :: "turn_env \<Rightarrow> nat \<Rightarrow> coordinator \<times> bool \<Rightarrow> bool \<Rightarrow> coordinator \<Rightarrow> bool" where
  "leads env k x h b \<longleftrightarrow> (fit_state env (fst x) \<longrightarrow> (\<exists>p. (turn_move env k)\<^sup>*\<^sup>* x (b, p) \<and> (h \<longrightarrow> p)))"

lemma moves_ok_all: "(turn_move env k)\<^sup>*\<^sup>* x y \<Longrightarrow> fit_state env (fst x) \<Longrightarrow> fit_state env (fst y)"
  by (induction rule: rtranclp_induct) (auto dest: move_ok)

lemma moves_refl [simp]: "moves env k b b"
  by (simp add: moves_def)

lemma moves_trans: "moves env k b c \<Longrightarrow> moves env k c d \<Longrightarrow> moves env k b d"
  unfolding moves_def by (metis fst_conv moves_ok_all rtranclp_trans)

lemma moves_after: "moves env k c d \<Longrightarrow> moves env k b c \<Longrightarrow> moves env k b d"
  by (rule moves_trans)

lemma moves_one: "(fit_state env b \<Longrightarrow> (\<And>p. turn_move env k (b, p) (b', p))) \<Longrightarrow> moves env k b b'"
  by (auto simp: moves_def)

lemma moves_fit: "(fit_state env b \<Longrightarrow> moves env k b b') \<Longrightarrow> moves env k b b'"
  by (auto simp: moves_def)

lemma leads_here: "(h \<Longrightarrow> p) \<Longrightarrow> leads env k (b, p) h b"
  by (auto simp: leads_def)

lemma leads_free: "moves env k b b' \<Longrightarrow> leads env k x h b \<Longrightarrow> leads env k x h b'"
  unfolding leads_def moves_def by (metis (full_types) fst_conv moves_ok_all rtranclp_trans)

lemma leads_weaken: "leads env k x h b \<Longrightarrow> leads env k x False b"
  by (auto simp: leads_def)

lemma leads_waits: "leads env k x True b \<Longrightarrow> leads env k x True (put_turn_task k t b)"
  unfolding leads_def by (metis (full_types) rtranclp.rtrancl_into_rtrancl turn_move.Waits)

lemma leads_settles: "leads env k x True b \<Longrightarrow> leads env k x False (settle_call k r b)"
  unfolding leads_def by (metis (full_types) rtranclp.rtrancl_into_rtrancl turn_move.Settles)

lemma leads_fit: "leads env k x h b \<Longrightarrow> fit_state env (fst x) \<Longrightarrow> fit_state env b"
  unfolding leads_def by (metis fst_conv moves_ok_all)

lemma leads_if_fit: "leads env k x h b \<Longrightarrow> (fit_state env b \<Longrightarrow> leads env k x h b') \<Longrightarrow> leads env k x h b'"
  using leads_fit [of env k x h b] by (auto simp: leads_def)

section \<open>Free operations\<close>

lemma moves_books: "same_books b b' \<Longrightarrow> moves env k b b'"
  by (rule moves_one) (rule turn_move.Books)

lemma moves_fields [simp]:
  "moves env k b (b\<lparr>co_items := a1\<rparr>)" "moves env k b (b\<lparr>co_recovery := a2\<rparr>)" "moves env k b (b\<lparr>co_quarantine := a3\<rparr>)"
  "moves env k b (b\<lparr>co_lifecycle := a4\<rparr>)" "moves env k b (b\<lparr>co_next_client := a5\<rparr>)" "moves env k b (b\<lparr>co_acquiring := a6\<rparr>)"
  "moves env k b (b\<lparr>co_timers := a7\<rparr>)" "moves env k b (b\<lparr>co_stopped := a8\<rparr>)" "moves env k b (b\<lparr>co_recovered := a9\<rparr>)"
  "moves env k b (b\<lparr>co_questions := a10\<rparr>)" "moves env k b (asked_turn b)"
  by (auto intro!: moves_books simp: same_books_def asked_turn_def)

lemma moves_log: "plain_effect e \<Longrightarrow> moves env k b (log_turn e b)"
  by (auto intro!: moves_one turn_move.Logs)

lemma moves_drop: "moves env k b (drop_turn_task j b)"
  by (auto intro!: moves_one turn_move.Drops)

lemma moves_release: "moves env k b (release_turn_lease j b)"
  by (auto intro!: moves_one turn_move.Releases)

lemma moves_emit: "event_ok e \<Longrightarrow> moves env k b (emit env e b)"
  by (auto intro!: moves_one turn_move.Emits)

lemma moves_diagnostic: "event_ok e \<Longrightarrow> moves env k b (emit_diagnostic env e b)"
  by (auto intro!: moves_one turn_move.Diagnoses)

lemma moves_stream: "event_ok e \<Longrightarrow> moves env k b (on_feed (enqueue_coalesced (tenv_limits env) e) b)"
  by (auto intro!: moves_one turn_move.Streams)

lemma moves_generation: "nonnegative_ok g \<Longrightarrow> moves env k b (b\<lparr>co_generation := g\<rparr>)"
  by (auto intro!: moves_one turn_move.Advances)

lemma active_turn_of: "coordinator_ok env b \<Longrightarrow> co_active b = Some s \<Longrightarrow> turn_fits s (the_turn s b) \<and> open_turn (the_turn s b)"
  by (auto simp: coordinator_ok_def turns_ok_def the_turn_def)

lemma moves_update:
  "co_active b = Some s \<Longrightarrow> turn_update (the_turn s b) t \<Longrightarrow> (turn_fits s (the_turn s b) \<Longrightarrow> turn_fits s t) \<Longrightarrow>
     moves env k b (put_turn s t b)"
  by (rule moves_one, rule turn_move.Updates) (auto dest: active_turn_of)

lemma moves_control: "moves env k b (set_control v s b)"
  by (auto simp: set_control_def turn_update_def turn_fits_def intro!: moves_update)

lemma identity_fits:
  "coordinator_ok env b \<Longrightarrow> turn_fits s t \<Longrightarrow> id_fits n \<Longrightarrow> identity_ok (turn_identity_of s t n b)"
  by (auto simp: identity_ok_def turn_identity_of_def turn_fits_def coordinator_ok_def turns_ok_def nonnegative_ok_def
      split: option.split)

lemma map_set_again: "map_set (map_set m k v) k w = map_set m k w"
proof (cases "map_has m k")
  case True
  have "map_has (map_set m k v) k" by simp
  then have "map_set (map_set m k v) k w = map (\<lambda>p. if fst p = k then (k, w) else p) (map_set m k v)"
    by (subst map_set_def) (simp only: if_True)
  with True show ?thesis by (simp add: map_set_def)
next
  case False
  have "map_has (map_set m k v) k" by simp
  then have "map_set (map_set m k v) k w = map (\<lambda>p. if fst p = k then (k, w) else p) (map_set m k v)"
    by (subst map_set_def) (simp only: if_True)
  with False show ?thesis by (auto simp: map_set_def map_has_def image_iff intro!: map_idI)
qed

lemma the_turn_put [simp]: "the_turn s (put_turn s t b) = t"
  by (simp add: the_turn_def put_turn_def map_get_set)

text \<open>The end of the active turn, its parts in an order that keeps the turn active until the last.\<close>

definition last_words :: "turn_env \<Rightarrow> terminal_status \<Rightarrow> safe_error option \<Rightarrow> bool \<Rightarrow> int \<Rightarrow> coordinator \<Rightarrow> coordinator" where
  "last_words env st e emits s b =
     (case turn_name (the_turn s b) of
        Some n \<Rightarrow>
          if emits then emit env (Turn_Terminal st e) (set_identity (turn_identity_of s (the_turn s b) n b) b) else b
      | None \<Rightarrow> b)"

definition lease_back :: "int \<Rightarrow> coordinator \<Rightarrow> coordinator" where
  "lease_back s b = (case turn_lease (the_turn s b) of None \<Rightarrow> b | Some j \<Rightarrow> release_turn_lease j b)"

lemma moves_last_words: "co_active b = Some s \<Longrightarrow> moves env k b (last_words env st e emits s b)"
proof (rule moves_fit)
  assume s: "co_active b = Some s" and fit: "fit_state env b"
  then have "turn_fits s (the_turn s b)" by (auto dest: active_turn_of)
  then have "identity_ok (turn_identity_of s (the_turn s b) n b)" if "turn_name (the_turn s b) = Some n" for n
    using that fit by (intro identity_fits) (auto simp: turn_fits_def)
  then have "moves env k b (set_identity (turn_identity_of s (the_turn s b) n b) b)" if "turn_name (the_turn s b) = Some n" for n
    using that s by (auto intro!: moves_one turn_move.Names)
  then show ?thesis
    by (auto simp: last_words_def split: option.split intro!: moves_emit [THEN moves_after])
qed

lemma last_words_fields [simp]:
  "co_active (last_words env st e emits s b) = co_active b" "co_turns (last_words env st e emits s b) = co_turns b"
  by (simp_all add: last_words_def emit_def on_feed_def set_identity_def split: option.split)

lemma lease_back_fields [simp]:
  "co_active (lease_back s b) = co_active b" "co_turns (lease_back s b) = co_turns b"
  by (simp_all add: lease_back_def release_turn_lease_def log_turn_def split: option.split)

lemma lease_is_back: "turn_lease (the_turn s b) = Some j \<Longrightarrow> j \<in> set (co_released (lease_back s b))"
  by (simp add: lease_back_def release_turn_lease_def log_turn_def)

lemma moves_lease_back: "moves env k b (lease_back s b)"
  by (auto simp: lease_back_def split: option.split intro: moves_release)

lemma moves_end:
  "co_active b = Some s \<Longrightarrow> turn_released t \<Longrightarrow> turn_fits s t \<Longrightarrow>
     (\<And>j. turn_lease t = Some j \<Longrightarrow> j \<in> set (co_released b)) \<Longrightarrow>
     moves env k b ((put_turn s t b)\<lparr>co_active := None\<rparr>)"
  by (auto intro!: moves_one turn_move.Ends)

definition ended_turn :: "terminal_status \<Rightarrow> turn_error \<Rightarrow> bool \<Rightarrow> active_turn \<Rightarrow> active_turn" where
  "ended_turn st invalidation linearize t =
     t\<lparr>turn_ended := True,
       turn_outcome := (if linearize
         then map_option (\<lambda>n. \<lparr>result_thread = turn_thread_id t, result_turn = n, result_status = Some st\<rparr>) (turn_name t)
         else turn_outcome t),
       turn_invalid := (case turn_invalid t of None \<Rightarrow> Some invalidation | x \<Rightarrow> x),
       turn_released := True\<rparr>"

lemma finish_active_parts:
  assumes "co_active b = Some s" "open_turn (the_turn s b)"
  shows "finish_active env st e why emits lin b =
     ((put_turn s (ended_turn st why lin (the_turn s b)) (lease_back s (last_words env st e emits s b)))
        \<lparr>co_active := None\<rparr>)\<lparr>co_items := []\<rparr>"
  using assms
  by (cases "turn_name (the_turn s b)"; cases "turn_lease (the_turn s b)"; cases "turn_generation (the_turn s b)")
    (simp_all add: finish_active_def Let_def open_turn_def ended_turn_def last_words_def lease_back_def release_active_def
      emit_def set_identity_def on_feed_def put_turn_def the_turn_def map_get_set map_set_again release_turn_lease_def
      log_turn_def turn_identity_of_def)

lemma moves_finish: "moves env k b (finish_active env st e why emits lin b)"
proof (rule moves_fit)
  assume fit: "fit_state env b"
  show "moves env k b (finish_active env st e why emits lin b)"
  proof (cases "co_active b")
    case None
    then show ?thesis by (simp add: finish_active_def)
  next
    case (Some s)
    with fit have t: "turn_fits s (the_turn s b)" "open_turn (the_turn s b)" by (auto dest: active_turn_of)
    let ?b = "lease_back s (last_words env st e emits s b)"
    have same: "the_turn s (last_words env st e emits s b) = the_turn s b" by (simp add: the_turn_def)
    have one: "moves env k b ?b"
      by (rule moves_trans [OF moves_last_words [OF Some] moves_lease_back])
    have two: "moves env k ?b ((put_turn s (ended_turn st why lin (the_turn s b)) ?b)\<lparr>co_active := None\<rparr>)"
      using t(1) Some same by (intro moves_end) (auto simp: ended_turn_def turn_fits_def intro!: lease_is_back)
    show ?thesis
      unfolding finish_active_parts [OF Some t(2)] by (rule moves_trans [OF moves_trans [OF one two] moves_fields(1)])
  qed
qed

section \<open>Deliveries\<close>

lemma client_update_fit:
  "fit_state env b \<Longrightarrow> map_get (co_clients b) c = Some r \<Longrightarrow> client_ok r"
  by (auto simp: coordinator_ok_def clients_ok_def)

lemma moves_client:
  "map_get (co_clients b) c = Some r \<Longrightarrow> (client_ok r \<Longrightarrow> client_ok r') \<Longrightarrow> moves env k b (put_client c r' b)"
  by (auto simp: client_update_def intro!: moves_one turn_move.Client)

lemma moves_leave: "moves env k b (b\<lparr>co_clients := map_delete (co_clients b) c\<rparr>)"
  by (auto intro!: moves_one turn_move.Leaves)

lemma moves_disconnect: "moves env k b (disconnect_turn_client env c terminate b)"
  by (auto simp: disconnect_turn_client_def Let_def split: option.split
      intro!: moves_leave moves_finish [THEN moves_after])

lemma get_put_client [simp]: "map_get (co_clients (put_client c r b)) c' = (if c' = c then Some r else map_get (co_clients b) c')"
  by (simp add: put_client_def map_get_set)

lemma moves_wire:
  "map_has (co_clients b) c \<Longrightarrow> wire_ok (tenv_limits env) w \<Longrightarrow> moves env k b (log_turn (Wire_Sent c w) b)"
  by (auto intro!: moves_one turn_move.Sends)

lemma moves_send:
  assumes "batch_near batch"
  shows "moves env k b (send_batch env c batch b)"
proof (cases "map_get (co_clients b) c")
  case None
  then show ?thesis by (simp add: send_batch_def)
next
  case (Some r)
  show ?thesis
  proof (cases "serialize_validated_batch batch (lim_queued (tenv_limits env))")
    case None
    with Some show ?thesis by (simp add: send_batch_def moves_disconnect)
  next
    case (Some w)
    let ?r = "r\<lparr>tc_in_flight_identity := Some (identity_of batch)\<rparr>"
    let ?b = "log_turn (Wire_Sent c w) (put_client c ?r b)"
    have w: "wire_ok (tenv_limits env) w" using Some assms by (auto simp: wire_ok_def)
    have "moves env k b (put_client c ?r b)"
      by (rule moves_client [OF \<open>map_get (co_clients b) c = Some r\<close>]) simp
    moreover have "moves env k (put_client c ?r b) ?b"
      using w by (intro moves_wire) (simp_all add: map_has_get)
    ultimately have sent: "moves env k b (asked_turn ?b)"
      by (intro moves_after [OF moves_fields(11)] moves_after [of env k "put_client c ?r b" ?b b])
    have get: "map_get (co_clients (asked_turn ?b)) c = Some ?r" by simp
    have again: "moves env k b (put_client c r' (asked_turn ?b))" if "client_ok ?r \<Longrightarrow> client_ok r'" for r'
      by (rule moves_trans [OF sent moves_client [OF get that]])
    show ?thesis
      using sent again [of "r\<lparr>tc_in_flight_identity := None\<rparr>"]
        again [of "r\<lparr>tc_in_flight_identity := Some (identity_of batch), tc_in_flight := True, tc_version := tc_version r + 1\<rparr>"]
        moves_trans [OF sent moves_disconnect]
      by (simp add: send_batch_def \<open>map_get (co_clients b) c = Some r\<close> Some Let_def split: delivery_answer.split)
  qed
qed

lemma moves_drain: "moves env k b (drain_client env c b)"
proof (induction env c b rule: drain_client.induct)
  case (1 env c b)
  show ?case
  proof (rule moves_fit)
    assume fit: "fit_state env b"
    then have l: "0 \<le> lim_queued (tenv_limits env)" by (simp add: limits_fit_def)
    show "moves env k b (drain_client env c b)"
    proof (cases "map_get (co_clients b) c")
      case None
      then show ?thesis by (simp add: drain_client.simps [of env c b])
    next
      case (Some r)
      show ?thesis
      proof (cases "tc_in_flight r \<or> take_pending (tenv_limits env) r = None")
        case True
        with Some show ?thesis by (auto simp: drain_client.simps [of env c b])
      next
        case False
        then obtain batch r' where t: "take_pending (tenv_limits env) r = Some (batch, r')" "\<not> tc_in_flight r" by auto
        from take_pending_ok [OF t(1) client_update_fit [OF fit Some] l] have ok: "batch_near batch" "client_ok r'" by auto
        have "moves env k b (put_client c r' b)" by (rule moves_client [OF Some]) (simp add: ok)
        moreover have "moves env k (put_client c r' b) (send_batch env c batch (put_client c r' b))"
          by (rule moves_send [OF ok(1)])
        ultimately show ?thesis
          using "1.IH" [OF Some t(2,1) refl] Some t
          by (simp add: drain_client.simps [of env c b]) (metis moves_trans)
      qed
    qed
  qed
qed

lemma moves_deliver: "batch_near batch \<Longrightarrow> moves env k b (deliver_batch env c batch b)"
proof (rule moves_fit)
  assume batch: "batch_near batch" and fit: "fit_state env b"
  then have l: "0 \<le> lim_queued (tenv_limits env)" by (simp add: limits_fit_def)
  show "moves env k b (deliver_batch env c batch b)"
    using moves_trans [OF moves_send [OF batch] moves_drain] l batch
    by (auto simp: deliver_batch_def split: option.split intro!: moves_client client_ok_delivery)
qed

lemma moves_delivered: "moves env k b (finish_delivery env c version b)"
proof (cases "map_get (co_clients b) c")
  case None
  then show ?thesis by (simp add: finish_delivery_def)
next
  case (Some r)
  have "moves env k b (put_client c (r\<lparr>tc_in_flight := False, tc_in_flight_identity := None\<rparr>) b)"
    by (rule moves_client [OF Some]) simp
  from moves_trans [OF this moves_drain] Some show ?thesis by (simp add: finish_delivery_def)
qed

lemma moves_deliveries: "batch_near batch \<Longrightarrow> moves env k b (fold (\<lambda>c. deliver_batch env c batch) cs b)"
proof (induction cs arbitrary: b)
  case (Cons c cs)
  from moves_trans [OF moves_deliver [OF Cons.prems] Cons.IH [OF Cons.prems]] show ?case by simp
qed simp

lemma moves_flush: "moves env k b (flush_turn_events env b)"
proof (rule moves_fit)
  assume fit: "fit_state env b"
  let ?r = "flush_start (tenv_limits env) (co_feed b)"
  have start: "moves env k b (b\<lparr>co_feed := snd ?r\<rparr>)" by (auto intro!: moves_one turn_move.Flushes)
  show "moves env k b (flush_turn_events env b)"
  proof (cases "flush_pending (co_feed b) \<and> fst ?r \<noteq> None")
    case False
    then consider "\<not> flush_pending (co_feed b)" | "fst ?r = None" by blast
    then show ?thesis using start by cases (simp_all add: flush_turn_events_def Let_def)
  next
    case True
    then obtain i es where r: "fst ?r = Some (i, es)" by auto
    from flush_start_batch [OF _ _ r] fit have "identity_ok i" "list_all event_ok es"
      by (auto simp: coordinator_ok_def)
    then have near: "batch_near (batch_of i es)"
      by (auto simp: list_all_iff intro!: batch_near_of event_ok_near)
    have flushed: "moves env k c (on_feed (flush_end i) c)" for c by (auto intro!: moves_one turn_move.Flushed)
    from moves_trans [OF moves_trans [OF start moves_deliveries [OF near]] flushed] True r show ?thesis
      by (simp add: flush_turn_events_def Let_def)
  qed
qed

end
