(* ===== verification/TurnNotices.thy ===== *)
theory TurnNotices
  imports TurnPaths
begin

text \<open>
  Notifications and states of the host (\<open>#onNotification\<close>, \<open>#onState\<close> of
  \<open>src/node/ride-codex-turn-coordinator.ts\<close>) as sequences of moves: what the schemas of the server let
  through is within the limits of the reader in the frontend.
\<close>

section \<open>What the schemas let through\<close>

lemma schema_id_fits: "schema_identifier v = Some i \<Longrightarrow> id_fits i"
  by (auto simp: schema_identifier_def bounded_text_def id_fits_def split: jsvalue.splits if_splits)

lemma required_id_fits: "require_identifier v = Some i \<Longrightarrow> id_fits i"
  by (auto simp: require_identifier_def nonempty_text_def id_fits_def split: jsvalue.splits if_splits)

lemma turn_id_fits: "require_turn px v = Some t \<Longrightarrow> id_fits (server_turn_id t)"
  by (auto simp: require_turn_def split: option.splits if_splits dest: schema_id_fits)

lemma index_fits: "require_index v = Some n \<Longrightarrow> index_ok n"
  by (auto simp: require_index_def int_within_def index_ok_def max_reasoning_index_def split: option.splits if_splits)

lemma bounded_text_fits: "bounded_text v n = Some s \<Longrightarrow> utf8_byte_length s \<le> n"
  by (auto simp: bounded_text_def split: jsvalue.splits if_splits)

lemma display_path_fits: "display_path v = Some s \<Longrightarrow> is_display_path s"
  by (auto simp: display_path_def is_display_path_def control_unit_def list_ex_iff list_all_iff
      max_file_patch_path_bytes_def max_local_path_bytes_def dest: bounded_text_fits split: option.splits if_splits)

lemma move_path_fits: "move_path_of ps = Some (Move p) \<Longrightarrow> is_display_path p"
  by (auto simp: move_path_of_def split: if_splits jsvalue.splits dest: display_path_fits)

lemma change_kind_fits: "change_kind_of px v = Some (Update_File (Move p)) \<Longrightarrow> is_display_path p"
  by (auto simp: change_kind_of_def bind_eq_Some_conv split: option.splits if_splits dest: move_path_fits)

lemma file_change_fits: "normalize_file_change px v = Some c \<Longrightarrow> change_ok c"
  by (auto simp: normalize_file_change_def change_ok_def max_file_patch_diff_bytes_def max_input_text_bytes_def
      split: option.splits change_kind.splits move_path.splits dest: display_path_fits bounded_text_fits change_kind_fits)

lemma list_all2_result:
  "list_all2 (\<lambda>v x. f v = Some x) vs xs \<Longrightarrow> (\<And>v x. f v = Some x \<Longrightarrow> P x) \<Longrightarrow> list_all P xs"
  by (induction rule: list_all2_induct) auto

lemma file_changes_fit: "normalize_file_changes px v n = Some cs \<Longrightarrow> list_all change_ok cs"
proof -
  assume "normalize_file_changes px v n = Some cs"
  then obtain vs where "list_all2 (\<lambda>v c. normalize_file_change px v = Some c) vs cs"
    by (auto simp: normalize_file_changes_def read_array_def those_Some map_eq_map_Some split: jsvalue.splits if_splits)
  then show ?thesis by (rule list_all2_result) (rule file_change_fits)
qed

lemma token_usage_fits: "normalize_token_usage px v = Some e \<Longrightarrow> event_ok e"
proof -
  have uint: "json_uint w = Some i \<Longrightarrow> nonnegative_ok i" for w i
    by (auto simp: json_uint_def int_within_def nonnegative_ok_def split: option.splits if_splits)
  show "normalize_token_usage px v = Some e \<Longrightarrow> event_ok e"
    by (auto simp: normalize_token_usage_def split: option.splits if_splits dest: uint)
qed

section \<open>The active turn\<close>

lemma moves_establish: "id_fits n \<Longrightarrow> moves env k b (snd (establish_turn env s n b))"
proof (rule moves_fit)
  assume n: "id_fits n" and fit: "fit_state env b"
  let ?t = "(the_turn s b)\<lparr>turn_name := Some n\<rparr>"
  let ?b = "put_turn s ?t b"
  show "moves env k b (snd (establish_turn env s n b))"
  proof (cases "co_active b = Some s \<and> turn_name (the_turn s b) = None")
    case False
    then show ?thesis by (auto simp: establish_turn_def Let_def split: option.split)
  next
    case True
    with fit have t: "turn_fits s (the_turn s b)" by (auto dest: active_turn_of)
    have put: "moves env k b ?b"
      using True n t by (intro moves_update) (auto simp: turn_update_def turn_fits_def)
    have fits: "turn_fits s ?t" using t n by (simp add: turn_fits_def)
    have active: "co_active ?b = Some s" using True by (simp add: put_turn_def)
    have "moves env k ?b (set_identity (turn_identity_of s ?t n ?b) ?b)"
      by (rule moves_one, rule turn_move.Names [OF active]) (use fits n in \<open>auto intro: identity_fits\<close>)
    from moves_trans [OF moves_trans [OF put this] moves_emit [of Turn_Started]] True put show ?thesis
      by (auto simp: establish_turn_def Let_def)
  qed
qed

lemma moves_by_server: "moves env k b (finish_by_server env t b)"
  by (auto simp: finish_by_server_def split: option.split intro: moves_finish)

lemma moves_started: "moves env k b (on_turn_started env s v b)"
  by (auto simp: on_turn_started_def announced_turn_def split: option.splits if_splits
      intro!: moves_establish dest: turn_id_fits)

lemma moves_completed: "moves env k b (on_turn_completed env s v b)"
  by (auto simp: on_turn_completed_def split: option.split intro: moves_by_server)

lemma moves_warning: "moves env k b (on_warning env s v b)"
  by (auto simp: on_warning_def server_warning_def split: option.split intro!: moves_diagnostic)

lemma moves_keep_item: "moves env k b (keep_item env i r b)"
  by (simp add: keep_item_def)

lemma moves_item: "moves env k b (on_item env completed ps b)"
  by (auto simp: on_item_def Let_def split: option.split
      intro!: moves_emit [THEN moves_after] moves_keep_item dest: schema_id_fits)

lemma moves_stream_text: "(\<And>t. event_ok (event t)) \<Longrightarrow> moves env k b (stream_text env v event b)"
  by (auto simp: stream_text_def Let_def truncated_warning_def split: option.split
      intro!: moves_stream [THEN moves_after] moves_diagnostic)

lemma moves_open_item: "(\<And>i. id_fits i \<Longrightarrow> moves env k b (f i)) \<Longrightarrow> moves env k b (open_item ps b f)"
  by (auto simp: open_item_def split: option.split dest: schema_id_fits)

lemma moves_emit_some: "(\<And>e. x = Some e \<Longrightarrow> moves env k b (f e b)) \<Longrightarrow> moves env k b (emit_some f x b)"
  by (auto simp: emit_some_def split: option.split)

lemma moves_active_update: "moves env k b (active_update env m ps b)"
  by (cases m, auto simp: on_stream_def on_indexed_stream_def turn_plan_event_def error_event_def split: option.split option.splits
      intro!: moves_item moves_open_item moves_emit_some moves_stream_text moves_emit moves_diagnostic
      dest: file_changes_fit token_usage_fits)
    (rule index_fits, assumption)+

lemma moves_active: "moves env k b (on_active_notification env s m v b)"
  by (auto simp: on_active_notification_def Let_def split: option.split intro: moves_active_update)

lemma moves_notified: "moves env k b (on_turn_notification env m v g b)"
  by (auto simp: on_turn_notification_def split: option.split
      intro: moves_started moves_completed moves_warning moves_active)

lemma moves_app_state: "moves env k b (on_app_state env st g b)"
proof (rule moves_fit)
  assume "fit_state env b"
  then have "0 \<le> co_generation b" by (simp add: coordinator_ok_def turns_ok_def nonnegative_ok_def)
  then have "moves env k b (b\<lparr>co_generation := g\<rparr>)" if "safe_int g" "co_generation b \<le> g"
    using that by (intro moves_generation) (auto simp: nonnegative_ok_def safe_int_def)
  then show "moves env k b (on_app_state env st g b)"
    by (auto simp: on_app_state_def Let_def not_less split: option.split intro!: moves_finish [THEN moves_after])
qed

end
