(* ===== verification/TurnCalls.thy ===== *)
theory TurnCalls
  imports TurnNotices
begin

text \<open>
  The calls of the turn coordinator (\<open>src/node/ride-codex-turn-coordinator.ts\<close>) as sequences of moves: a
  call settles at most once in a step, and waits again only if it has not settled.
\<close>

section \<open>Free parts of the calls\<close>

lemma moves_request: "moves env k b (snd (request_host env lease m params timeout b))"
  by (simp add: request_host_def moves_trans [OF moves_log moves_fields(11)])

lemma moves_set_timer: "moves env k b (set_turn_timer env j ms b)"
  by (auto simp: set_turn_timer_def intro: moves_trans [OF moves_trans [OF moves_fields(7) moves_log] moves_fields(11)])

lemma moves_clear_timer: "moves env k b (clear_turn_timer j b)"
  by (simp add: clear_turn_timer_def moves_trans [OF moves_fields(7) moves_log])

lemma moves_spawn:
  "moves env k b (put_turn_task (co_next_key b) t (b\<lparr>co_next_key := co_next_key b + 1\<rparr>))"
  by (rule moves_one) (rule turn_move.Spawns)

lemma moves_begin_recovery: "moves env k b (snd (begin_recovery thread g b))"
proof -
  have "moves env k b (put_turn_task (co_next_key b) t (b\<lparr>co_next_key := co_next_key b + 1, co_recovery := r\<rparr>))" for t r
  proof -
    have "b\<lparr>co_recovery := r, co_next_key := Suc (co_next_key b)\<rparr> = b\<lparr>co_next_key := Suc (co_next_key b), co_recovery := r\<rparr>"
      by (cases b) simp
    with moves_trans [OF moves_fields(2) [of env k b r] moves_spawn [of env k "b\<lparr>co_recovery := r\<rparr>" t]]
    show ?thesis by simp
  qed
  then show ?thesis by (auto simp: begin_recovery_def Let_def split: option.split)
qed

lemma moves_recovery_ends: "moves env k b (recovery_ends j held result b)"
proof -
  let ?b2 = "if held then release_turn_lease j (clear_turn_timer j b) else clear_turn_timer j b"
  have "moves env k b ?b2" by (auto intro: moves_trans [OF moves_clear_timer moves_release] moves_clear_timer)
  moreover have "moves env k ?b2 (case co_recovery ?b2 of
      Some x \<Rightarrow> if barrier_key x = j then ?b2\<lparr>co_recovery := None\<rparr> else ?b2 | None \<Rightarrow> ?b2)"
    by (simp split: option.split)
  ultimately show ?thesis
    unfolding recovery_ends_def Let_def
    by (intro moves_drop [THEN moves_after] moves_fields(9) [THEN moves_after]) (rule moves_trans)
qed

lemma moves_recovery_fails: "moves env k b (recovery_fails env j held e b)"
  by (auto simp: recovery_fails_def recovery_failed_def intro!: moves_recovery_ends [THEN moves_after] moves_diagnostic)

lemma moves_stop: "moves env k b (stop_recoveries b)"
  by (simp add: stop_recoveries_def)

lemma moves_connect: "moves env k b (connect_turn_client b)"
proof (cases "co_disposed b \<or> recovering b \<or> max_turn_clients \<le> length (co_clients b)")
  case False
  then have "moves env k b (b\<lparr>co_clients := map_set (co_clients b) (co_next_client b) new_turn_client\<rparr>)"
    by (auto intro!: moves_one turn_move.Connects)
  from moves_trans [OF this moves_fields(5) [of env k _ "co_next_client b + 1"]] False show ?thesis
    by (simp add: connect_turn_client_def)
qed (auto simp: connect_turn_client_def)

lemma dispose_clients:
  "co_active b = None \<Longrightarrow>
     (fold (\<lambda>c. disconnect_turn_client env c False) cs b)\<lparr>co_clients := []\<rparr> = b\<lparr>co_clients := []\<rparr>"
proof (induction cs arbitrary: b)
  case (Cons c cs)
  have "co_active (disconnect_turn_client env c False b) = None
      \<and> (disconnect_turn_client env c False b)\<lparr>co_clients := []\<rparr> = b\<lparr>co_clients := []\<rparr>"
    using Cons.prems by (simp add: disconnect_turn_client_def Let_def)
  with Cons.IH [of "disconnect_turn_client env c False b"] show ?case by simp
qed simp

lemma finish_active_none: "co_active b = None \<Longrightarrow> finish_active env st e why emits lin b = b"
  by (simp add: finish_active_def)

lemma finish_clears: "coordinator_ok env b \<Longrightarrow> co_active (finish_active env st e why emits lin b) = None"
  using active_turn_of [of env b]
  by (cases "co_active b") (simp_all add: finish_active_none finish_active_parts)

definition closed_books :: "coordinator \<Rightarrow> coordinator \<Rightarrow> coordinator" where
  "closed_books a b =
     b\<lparr>co_stopped := co_stopped a, co_lifecycle := co_lifecycle a, co_recovery := co_recovery a,
       co_quarantine := co_quarantine a\<rparr>"

lemma finish_quietly:
  "finish_active env st e why False lin (closed_books a (b\<lparr>co_disposed := True\<rparr>)) =
     closed_books a ((finish_active env st e why False lin b)\<lparr>co_disposed := True\<rparr>)"
  by (cases "co_active b"; cases "turn_name (the_turn (the (co_active b)) b)"; cases "turn_lease (the_turn (the (co_active b)) b)")
    (simp_all add: finish_active_def closed_books_def the_turn_def put_turn_def release_active_def release_turn_lease_def
      log_turn_def map_get_set Let_def)

lemma moves_dispose: "moves env k b (dispose_turns env b)"
proof (rule moves_fit)
  assume fit: "fit_state env b"
  show "moves env k b (dispose_turns env b)"
  proof (cases "co_disposed b")
    case True
    then show ?thesis by (simp add: dispose_turns_def)
  next
    case False
    define c where "c = finish_active env Failed (Some safe_failure) Turns_Disposed False False b"
    define a where "a = stop_recoveries (b\<lparr>co_disposed := True, co_lifecycle := co_lifecycle b + 1, co_recovery := None,
        co_quarantine := None\<rparr>)"
    have a: "a = closed_books a (b\<lparr>co_disposed := True\<rparr>)"
      by (simp add: a_def closed_books_def stop_recoveries_def)
    have ended: "finish_active env Failed (Some safe_failure) Turns_Disposed False False a =
        closed_books a (c\<lparr>co_disposed := True\<rparr>)"
      by (subst a) (simp add: finish_quietly c_def)
    have none: "co_active c = None" using fit by (simp add: c_def finish_clears)
    have result: "dispose_turns env b =
        closed_books a (c\<lparr>co_disposed := True, co_feed := cleared_feed (co_feed c), co_clients := []\<rparr>)"
    proof -
      let ?d = "on_feed cleared_feed (closed_books a (c\<lparr>co_disposed := True\<rparr>))"
      have "on_feed (\<lambda>f. f\<lparr>flush_pending := False, feed_queue := [], feed_identity := None, feed_losses := [],
          feed_reserved := []\<rparr>) (closed_books a (c\<lparr>co_disposed := True\<rparr>)) = ?d"
        by (simp add: on_feed_def cleared_feed_def)
      with ended False have "dispose_turns env b =
          (fold (\<lambda>c. disconnect_turn_client env c False) (map_keys (co_clients ?d)) ?d)\<lparr>co_clients := []\<rparr>"
        unfolding dispose_turns_def Let_def by (simp only: if_False a_def [symmetric])
      also have "\<dots> = ?d\<lparr>co_clients := []\<rparr>"
        by (rule dispose_clients) (simp add: on_feed_def closed_books_def none)
      finally show ?thesis by (simp add: on_feed_def closed_books_def)
    qed
    have books: "moves env k d (closed_books a d)" for d
      by (rule moves_books) (simp add: closed_books_def same_books_def)
    have "moves env k b c" by (simp add: c_def moves_finish)
    moreover have "moves env k c (c\<lparr>co_disposed := True, co_feed := cleared_feed (co_feed c), co_clients := []\<rparr>)"
      using none by (auto intro!: moves_one turn_move.Disposes)
    ultimately show ?thesis unfolding result by (intro moves_after [OF books]) (rule moves_trans)
  qed
qed

section \<open>Rules for calls\<close>

lemma leads_any: "leads env k x True b \<Longrightarrow> leads env k x h b"
  by (auto simp: leads_def)

lemma leads_again: "leads env k x True b \<Longrightarrow> leads env k x h (put_turn_task k t b)"
  by (rule leads_any) (rule leads_waits)

lemma leads_refused: "leads env k x True b \<Longrightarrow> leads env k x False (refuse_call k e b)"
  by (simp add: refuse_call_def leads_settles)

lemmas leads_frees =
  moves_fields [THEN leads_free] moves_drop [THEN leads_free] moves_release [THEN leads_free]
  moves_control [THEN leads_free] moves_finish [THEN leads_free] moves_request [THEN leads_free]
  moves_set_timer [THEN leads_free] moves_clear_timer [THEN leads_free] moves_begin_recovery [THEN leads_free]
  moves_recovery_ends [THEN leads_free] moves_recovery_fails [THEN leads_free] moves_by_server [THEN leads_free]

lemmas leads_rules = leads_again leads_settles leads_refused leads_frees

lemma leads_start_failed: "leads env k x True b \<Longrightarrow> leads env k x False (start_failed env k s e b)"
  by (auto simp: start_failed_def Let_def split: option.split intro!: leads_rules)

lemma leads_start_request: "leads env k x True b \<Longrightarrow> leads env k x False (start_request_host env k r s lease b)"
  by (auto simp: start_request_host_def Let_def split: option.split intro!: leads_rules leads_start_failed)

lemma leads_start_answered: "leads env k x True b \<Longrightarrow> leads env k x False (start_answered env k r s raw b)"
  by (auto simp: start_answered_def Let_def bind_eq_Some_conv split: option.split
      intro!: leads_rules leads_start_failed moves_establish [THEN leads_free] dest: turn_id_fits)

lemma leads_steer_failed: "leads env k x True b \<Longrightarrow> leads env k x False (steer_failed k s e b)"
  by (auto simp: steer_failed_def split: option.split intro!: leads_rules)

lemma leads_steer_answered: "leads env k x True b \<Longrightarrow> leads env k x False (steer_answered env k r s raw b)"
  by (auto simp: steer_answered_def split: option.split intro!: leads_rules leads_steer_failed)

lemma leads_settle_interrupt: "leads env k x True b \<Longrightarrow> leads env k x False (settle_interrupt k s r b)"
  by (auto simp: settle_interrupt_def intro!: leads_rules)

lemma leads_interrupt_failed: "leads env k x True b \<Longrightarrow> leads env k x False (interrupt_failed env k r s g timed e b)"
  by (auto simp: interrupt_failed_def Let_def split: option.split intro!: leads_rules leads_settle_interrupt)

lemma leads_interrupt_resumes: "leads env k x True b \<Longrightarrow> leads env k x False (interrupt_resumes env k r s g ack timed b)"
  by (auto simp: interrupt_resumes_def split: option.split interrupt_ack.split
      intro!: leads_rules leads_interrupt_failed intro: leads_any)

lemma leads_interrupt_recovered: "leads env k x True b \<Longrightarrow> leads env k x False (interrupt_recovered k r s ref b)"
  by (auto simp: interrupt_recovered_def split: option.split recovery_ref.split
      intro!: leads_settle_interrupt intro: leads_any)

lemma leads_interrupt_timer: "leads env k x True b \<Longrightarrow> leads env k x False (interrupt_timer env k r s g ack b)"
  by (auto simp: interrupt_timer_def Let_def intro!: leads_rules intro: leads_any)

lemma leads_log: "plain_effect e \<Longrightarrow> leads env k x h b \<Longrightarrow> leads env k x h (log_turn e b)"
  by (rule leads_free [OF moves_log])

lemma leads_restart: "leads env k x True b \<Longrightarrow> leads env k x False (restart_for_recovery env k thread g lifecycle started b)"
  by (auto simp: restart_for_recovery_def Let_def split: option.split intro!: leads_rules leads_log)

lemma leads_recovery_starts: "leads env k x True b \<Longrightarrow> leads env k x False (recovery_starts env k thread g b)"
  by (auto simp: recovery_starts_def Let_def intro!: leads_restart leads_rules)

lemma leads_in_time:
  "leads env k x True b \<Longrightarrow> (\<And>ms c. leads env k x True c \<Longrightarrow> leads env k x False (f ms c)) \<Longrightarrow>
     leads env k x False (in_time env k held started f b)"
  by (auto simp: in_time_def split: option.split intro!: moves_recovery_fails [THEN leads_free] moves_fields(11) [THEN leads_free] intro: leads_any)

lemma leads_generation: "nonnegative_ok g \<Longrightarrow> leads env k x h b \<Longrightarrow> leads env k x h (b\<lparr>co_generation := g\<rparr>)"
  by (rule leads_free [OF moves_generation])

lemma leads_recovery_restarted:
  "leads env k x True b \<Longrightarrow> leads env k x False (recovery_restarted env k thread lifecycle started result b)"
  by (auto simp: recovery_restarted_def Let_def nonnegative_ok_def safe_int_def split: option.split
      intro!: leads_in_time leads_rules leads_log leads_generation) (simp_all add: leads_any)

lemma leads_recovery_acquired:
  "leads env k x True b \<Longrightarrow> leads env k x False (recovery_acquired env k thread g lifecycle started g' b)"
  by (auto simp: recovery_acquired_def Let_def split: option.split intro!: leads_in_time leads_rules intro: leads_any)

lemma leads_recovery_answered:
  "leads env k x True b \<Longrightarrow> leads env k x False (recovery_answered env k thread started raw b)"
  by (auto simp: recovery_answered_def split: option.split intro!: leads_in_time leads_rules intro: leads_any)

lemma leads_resumes: "leads env k x True b \<Longrightarrow> leads env k x False (turn_task_resumes env k t b)"
  by (cases t)
    (auto simp: if_invalid_def unless_stopped_def split: option.split
      intro!: leads_start_failed leads_start_request leads_start_answered leads_steer_failed leads_steer_answered
        leads_interrupt_resumes leads_interrupt_recovered leads_recovery_starts leads_recovery_restarted
        leads_recovery_acquired leads_recovery_answered moves_recovery_fails [THEN leads_free] intro: leads_any)

section \<open>New calls\<close>

lemma leads_steer_call:
  "leads env (co_next_key b) (b\<lparr>co_next_key := co_next_key b + 1\<rparr>, True) False (steer_call env c v b)"
proof -
  have "leads env (co_next_key b) (b\<lparr>co_next_key := co_next_key b + 1\<rparr>, True) True (b\<lparr>co_next_key := co_next_key b + 1\<rparr>)"
    by (rule leads_here)
  then show ?thesis
    by (auto simp: steer_call_def Let_def split: option.split intro!: leads_rules leads_steer_failed)
qed

lemma leads_interrupt_call:
  "leads env (co_next_key b) (b\<lparr>co_next_key := co_next_key b + 1\<rparr>, True) False (interrupt_call env c v b)"
proof -
  have "leads env (co_next_key b) (b\<lparr>co_next_key := co_next_key b + 1\<rparr>, True) True (b\<lparr>co_next_key := co_next_key b + 1\<rparr>)"
    by (rule leads_here)
  then show ?thesis
    by (auto simp: interrupt_call_def Let_def split: option.split intro!: leads_rules leads_interrupt_failed)
qed

lemma start_thread_fits: "normalize_start_request px v = Some r \<Longrightarrow> id_fits (start_thread r)"
  by (auto simp: normalize_start_request_def split: option.splits dest: required_id_fits)

lemma leads_start:
  "leads env k x h b \<Longrightarrow> co_active b = None \<Longrightarrow> \<not> co_disposed b \<Longrightarrow> id_fits thread \<Longrightarrow> co_sequence b < max_safe_integer \<Longrightarrow>
     leads env k x h (put_turn (co_sequence b + 1) (fresh_turn c thread)
          (b\<lparr>co_sequence := co_sequence b + 1, co_active := Some (co_sequence b + 1)\<rparr>))"
  by (rule leads_free [rotated]) (auto intro!: moves_one turn_move.Starts)

lemma leads_start_call:
  "leads env (co_next_key b) (b\<lparr>co_next_key := co_next_key b + 1\<rparr>, True) False (start_call env c v b)"
proof -
  let ?b = "b\<lparr>co_next_key := co_next_key b + 1\<rparr>"
  have here: "leads env (co_next_key b) (?b, True) True ?b" by (rule leads_here)
  have start: "leads env (co_next_key b) (?b, True) True (put_turn (co_sequence ?b + 1) (fresh_turn c thread)
      (?b\<lparr>co_sequence := co_sequence ?b + 1, co_active := Some (co_sequence ?b + 1)\<rparr>))"
    if "call_refusal c ?b = None" "co_active ?b = None" "id_fits thread" "co_sequence ?b < max_safe_integer" for thread
    using that by (intro leads_start [OF here]) (auto simp: call_refusal_def split: if_splits)
  show ?thesis
    unfolding start_call_def Let_def
    using here start
    by (auto split: option.split intro!: leads_rules leads_log dest: start_thread_fits)
qed

section \<open>Answers\<close>

lemma leads_acquiring:
  "leads env k x True b \<Longrightarrow>
     leads env k x False
       (case t of Some (Start_Acquiring r s) \<Rightarrow> if p then b else put_turn_task k (u r) b | _ \<Rightarrow> b)"
  by (cases t; (cases "the t")?) (auto intro: leads_any leads_again)

lemma leads_lease_for_turn: "leads env k x True b \<Longrightarrow> leads env k x False (lease_for_turn k s g b)"
proof -
  assume b: "leads env k x True b"
  let ?t = "(the_turn s b)\<lparr>turn_lease := Some k, turn_generation := Some g\<rparr>"
  have "moves env k b (put_turn s ?t b)" if "co_active b = Some s" "safe_int g" "\<not> g < 0"
    using that by (intro moves_update) (auto simp: turn_update_def turn_fits_def nonnegative_ok_def safe_int_def)
  from leads_free [OF this b] b leads_free [OF moves_release b] show ?thesis
    unfolding lease_for_turn_def Let_def by (simp add: leads_acquiring)
qed

lemma leads_lease_for_recovery: "leads env k x True b \<Longrightarrow> leads env k x False (lease_for_recovery k g b)"
  by (auto simp: lease_for_recovery_def split: option.split turn_task.split intro!: leads_rules intro: leads_any)

lemma leads_denied: "leads env k x True b \<Longrightarrow> leads env k x False (turn_lease_denied k b)"
  by (auto simp: turn_lease_denied_def Let_def split: option.split turn_task.split intro!: leads_rules intro: leads_any)

lemma leads_granted: "leads env k x True b \<Longrightarrow> leads env k x False (turn_lease_granted k g b)"
  by (auto simp: turn_lease_granted_def Let_def split: option.split
      intro!: leads_lease_for_turn leads_lease_for_recovery leads_rules intro: leads_any)

lemma leads_response: "leads env k x True b \<Longrightarrow> leads env k x False (turn_response k raw b)"
  by (auto simp: turn_response_def split: option.split turn_task.split interrupt_ack.split
      intro!: leads_rules intro: leads_any)

lemma leads_restart_settled: "leads env k x True b \<Longrightarrow> leads env k x False (restart_settled k result b)"
  by (auto simp: restart_settled_def Let_def split: option.split turn_task.split intro!: leads_rules intro: leads_any)

lemma leads_timer: "leads env k x True b \<Longrightarrow> leads env k x False (turn_timer_fired env k b)"
  by (auto simp: turn_timer_fired_def Let_def split: option.split turn_task.split
      intro!: leads_rules leads_interrupt_timer intro: leads_any)

text \<open>Without a task under their key, the answers change nothing that belongs to a call.\<close>

lemma task_frames: "co_tasks (release_turn_lease j b) = co_tasks b" "co_tasks (put_turn s t b) = co_tasks b"
  by (simp_all add: release_turn_lease_def log_turn_def put_turn_def)

lemma moves_granted_late: "map_get (co_tasks b) k = None \<Longrightarrow> moves env k b (turn_lease_granted k g b)"
proof -
  assume none: "map_get (co_tasks b) k = None"
  show ?thesis
  proof (cases "map_get (co_acquiring b) k")
    case None
    then show ?thesis by (simp add: turn_lease_granted_def)
  next
    case (Some target)
    let ?b = "b\<lparr>co_acquiring := map_delete (co_acquiring b) k\<rparr>"
    have books: "moves env k b ?b" by simp
    have update: "moves env k ?b (put_turn s ((the_turn s ?b)\<lparr>turn_lease := Some k, turn_generation := Some g\<rparr>) ?b)"
      if "co_active ?b = Some s" "safe_int g" "\<not> g < 0" for s
      using that by (intro moves_update) (auto simp: turn_update_def turn_fits_def nonnegative_ok_def safe_int_def)
    have turn: "moves env k ?b (lease_for_turn k s g ?b)" for s
      using none update [of s] by (simp add: lease_for_turn_def Let_def task_frames moves_release del: moves_fields)
    have recovery: "moves env k ?b (lease_for_recovery k g ?b)"
      using none by (simp add: lease_for_recovery_def moves_release)
    show ?thesis
      using Some moves_trans [OF books turn] moves_trans [OF books recovery]
      by (auto simp: turn_lease_granted_def Let_def split: option.split)
  qed
qed

end
