(* ===== verification/TurnSafety.thy ===== *)
theory TurnSafety
  imports TurnCalls
begin

text \<open>
  The turn coordinator (\<open>src/node/ride-codex-turn-coordinator.ts\<close>) over whole runs: every event is a
  sequence of moves, so that the invariants of the moves hold in every state that can be reached. The
  properties speak of the effects of a run from a new coordinator.
\<close>

section \<open>Answers that come too late\<close>

lemma moves_denied_late: "map_get (co_tasks b) k = None \<Longrightarrow> moves env k b (turn_lease_denied k b)"
  by (auto simp: turn_lease_denied_def Let_def split: option.split)

lemma moves_response_late: "map_get (co_tasks b) k = None \<Longrightarrow> moves env k b (turn_response k raw b)"
  by (simp add: turn_response_def)

lemma moves_restart_late: "map_get (co_tasks b) k = None \<Longrightarrow> moves env k b (restart_settled k result b)"
  by (auto simp: restart_settled_def Let_def split: option.split)

lemma moves_timer_late: "map_get (co_tasks b) k = None \<Longrightarrow> moves env k b (turn_timer_fired env k b)"
  using moves_trans [OF moves_fields(7) moves_fields(8)]
  by (auto simp: turn_timer_fired_def Let_def split: option.split)

lemma moves_resume_late: "map_get (co_tasks b) k = None \<Longrightarrow> moves env k b (turn_resume env k b)"
  by (simp add: turn_resume_def)

section \<open>Every event is a sequence of moves\<close>

text \<open>The right to settle a call belongs to a new call, or to the task that waits under its key.\<close>

definition starts_from :: "coordinator \<Rightarrow> nat \<Rightarrow> coordinator \<times> bool \<Rightarrow> bool" where
  "starts_from b k x \<longleftrightarrow>
     x = (b, False) \<or> x = (b, True) \<and> map_get (co_tasks b) k \<noteq> None
     \<or> x = (b\<lparr>co_next_key := co_next_key b + 1\<rparr>, True) \<and> k = co_next_key b"

definition reaches :: "turn_env \<Rightarrow> coordinator \<Rightarrow> coordinator \<Rightarrow> bool" where
  "reaches env b b' \<longleftrightarrow> (\<exists>k x. starts_from b k x \<and> leads env k x False b')"

lemma reachesI: "starts_from b k x \<Longrightarrow> leads env k x False b' \<Longrightarrow> reaches env b b'"
  unfolding reaches_def by blast

lemma reaches_free: "moves env k b b' \<Longrightarrow> reaches env b b'"
  by (rule reachesI [of b k "(b, False)"]) (auto simp: starts_from_def leads_here intro: leads_free)

lemma reaches_call: "leads env (co_next_key b) (b\<lparr>co_next_key := co_next_key b + 1\<rparr>, True) False b' \<Longrightarrow> reaches env b b'"
  by (rule reachesI [rotated]) (auto simp: starts_from_def)

lemma reaches_task:
  "(leads env k (b, True) True b \<Longrightarrow> leads env k (b, True) False (f b)) \<Longrightarrow>
     (map_get (co_tasks b) k = None \<Longrightarrow> moves env k b (f b)) \<Longrightarrow> reaches env b (f b)"
proof (cases "map_get (co_tasks b) k")
  case (Some t)
  assume "leads env k (b, True) True b \<Longrightarrow> leads env k (b, True) False (f b)"
  then have "leads env k (b, True) False (f b)" by (simp add: leads_here)
  with Some show ?thesis by (intro reachesI [of b k "(b, True)"]) (simp_all add: starts_from_def)
qed (auto intro: reaches_free)

lemma leads_resume: "leads env k x True b \<Longrightarrow> leads env k x False (turn_resume env k b)"
  by (auto simp: turn_resume_def split: option.split intro: leads_resumes leads_any leads_weaken)

lemma event_reaches: "reaches env b (turn_next env b e)"
proof (cases e)
  case (Turn_Lease_Granted k g)
  then show ?thesis by (auto intro: reaches_task leads_granted moves_granted_late)
next
  case (Turn_Lease_Denied k)
  then show ?thesis by (auto intro: reaches_task leads_denied moves_denied_late)
next
  case (Turn_Response k raw)
  then show ?thesis by (auto intro: reaches_task leads_response moves_response_late)
next
  case (Restart_Settled k result)
  then show ?thesis by (auto intro: reaches_task leads_restart_settled moves_restart_late)
next
  case (Turn_Timer k)
  then show ?thesis by (auto intro: reaches_task leads_timer moves_timer_late)
next
  case (Turn_Resume k)
  then show ?thesis by (auto intro: reaches_task leads_resume moves_resume_late)
qed (auto intro: reaches_free moves_connect moves_disconnect moves_notified moves_app_state moves_flush moves_delivered
    moves_dispose reaches_call leads_start_call leads_steer_call leads_interrupt_call)

section \<open>The invariant of a run\<close>

definition turn_inv :: "turn_env \<Rightarrow> coordinator \<Rightarrow> bool" where
  "turn_inv env b \<longleftrightarrow> fit_state env b \<and> leases_ok b \<and> calls_ok 0 (b, False)"

text \<open>What an event may do to what can be seen.\<close>

definition succeeds :: "coordinator \<Rightarrow> coordinator \<Rightarrow> bool" where
  "succeeds b b' \<longleftrightarrow> disposed_since b b' \<and> prefix (co_history b) (co_history b')"

lemma succeeds_refl [simp]: "succeeds b b"
  by (simp add: succeeds_def disposed_since_def)

lemma succeeds_trans: "succeeds a b \<Longrightarrow> succeeds b c \<Longrightarrow> succeeds a c"
  by (auto simp: succeeds_def disposed_since_def)

lemma history_move: "turn_move env k x y \<Longrightarrow> prefix (co_history (fst x)) (co_history (fst y))"
  by (induction rule: turn_move.induct)
    (auto simp: same_books_def log_turn_def release_turn_lease_def put_turn_task_def drop_turn_task_def settle_call_def
      put_turn_def set_identity_def emit_def emit_diagnostic_def on_feed_def put_client_def)

lemma succeeds_move: "turn_move env k x y \<Longrightarrow> coordinator_ok env (fst x) \<Longrightarrow> succeeds (fst x) (fst y)"
  by (simp add: succeeds_def history_move silent_move coordinator_ok_def)

lemma path_facts:
  "(turn_move env k)\<^sup>*\<^sup>* x y \<Longrightarrow> fit_state env (fst x) \<Longrightarrow> leases_ok (fst x) \<Longrightarrow> calls_ok k x \<Longrightarrow>
     fit_state env (fst y) \<and> leases_ok (fst y) \<and> calls_ok k y \<and> succeeds (fst x) (fst y)"
  by (induction rule: rtranclp_induct) (auto dest: move_ok leases_move calls_move succeeds_move intro: succeeds_trans)

lemma start_facts:
  assumes "starts_from b k x" "turn_inv env b"
  shows "fit_state env (fst x)" "leases_ok (fst x)" "calls_ok k x" "succeeds b (fst x)"
  using assms
  by (auto simp: starts_from_def turn_inv_def leases_ok_def calls_ok_def succeeds_def disposed_since_def map_has_get
      less_Suc_eq_le less_imp_le)

lemma calls_ok_any: "calls_ok k (b, p) \<Longrightarrow> calls_ok 0 (b, False)"
  by (simp add: calls_ok_def)

lemma turn_event_facts: "turn_inv env b \<Longrightarrow> turn_inv env (turn_next env b e) \<and> succeeds b (turn_next env b e)"
proof -
  assume b: "turn_inv env b"
  from event_reaches obtain k x where x: "starts_from b k x" "leads env k x False (turn_next env b e)"
    unfolding reaches_def by blast
  note s = start_facts [OF x(1) b]
  from x(2) s(1) obtain p where "(turn_move env k)\<^sup>*\<^sup>* x (turn_next env b e, p)" by (auto simp: leads_def)
  from path_facts [OF this s(1-3)] s(4) show ?thesis
    by (auto simp: turn_inv_def intro: calls_ok_any succeeds_trans)
qed

interpretation turns: stateful "turn_step env" "turn_inv env" for env
  by unfold_locales (simp add: turn_step_def turn_event_facts)

text \<open>What lasts through a run from a state of the invariant.\<close>

definition runs_on :: "turn_env \<Rightarrow> coordinator \<Rightarrow> coordinator \<Rightarrow> bool" where
  "runs_on env b b' \<longleftrightarrow> (turn_inv env b \<longrightarrow> turn_inv env b' \<and> succeeds b b')"

interpretation turns: monotone_machine "turn_step env" "runs_on env" for env
  by unfold_locales (auto simp: runs_on_def turn_step_def turn_event_facts intro: succeeds_trans)

lemma run_succeeds: "turn_inv env b \<Longrightarrow> succeeds b (fst (run_machine (turn_step env) b es))"
  using turns.run_rel [of env b es] by (simp add: runs_on_def)

lemma run_effects:
  "turn_inv env b \<Longrightarrow> co_history (fst (run_machine (turn_step env) b es)) = co_history b @ snd (run_machine (turn_step env) b es)"
proof (induction es arbitrary: b)
  case (Cons e es)
  from turn_event_facts [OF Cons.prems] have next_state: "turn_inv env (fst (turn_step env b e))"
    and grows: "prefix (co_history b) (co_history (turn_next env b e))"
    by (simp_all add: succeeds_def turn_step_def)
  from grows obtain h where "co_history (turn_next env b e) = co_history b @ h" by (auto simp: prefix_def)
  then have "co_history (fst (turn_step env b e)) = co_history b @ snd (turn_step env b e)"
    by (simp add: turn_step_def)
  with Cons.IH [OF next_state] show ?case by simp
qed simp

lemma turn_inv_new: "limits_fit (tenv_limits env) \<Longrightarrow> nonnegative_ok g \<Longrightarrow> turn_inv env (new_coordinator g)"
  by (simp add: turn_inv_def coordinator_ok_def turns_ok_def clients_ok_def wires_ok_def disposed_quiet_def feed_ok_empty
      leases_ok_def calls_ok_def new_coordinator_def releases_def settled_calls_def nonnegative_ok_def map_has_get)

text \<open>The state and the effects of a run from a new coordinator.\<close>

definition turn_run :: "turn_env \<Rightarrow> int \<Rightarrow> turn_event list \<Rightarrow> coordinator \<times> turn_effect list" where
  "turn_run env g es = run_machine (turn_step env) (new_coordinator g) es"

lemma turn_run_inv:
  "limits_fit (tenv_limits env) \<Longrightarrow> nonnegative_ok g \<Longrightarrow> turn_inv env (fst (turn_run env g es))"
  unfolding turn_run_def by (rule turns.run_inv [OF turn_inv_new])

lemma turn_run_effects:
  "limits_fit (tenv_limits env) \<Longrightarrow> nonnegative_ok g \<Longrightarrow> co_history (fst (turn_run env g es)) = snd (turn_run env g es)"
  using run_effects [OF turn_inv_new, of env g es] by (simp add: turn_run_def) (simp add: new_coordinator_def)

end
