(* ===== verification/TurnSample.thy ===== *)
theory TurnSample
  imports TurnSafety
begin

text \<open>
  A run of the turn coordinator on small inputs: a client connects, starts a turn, the host grants a
  lease and answers, the turn is flushed to the client, and the coordinator is disposed.
\<close>

definition sample_limits :: feed_limits where
  "sample_limits = \<lparr>lim_queued = 262144, lim_batch = 256, lim_item = 65536, lim_items = 256, lim_history = 64\<rparr>"

definition sample_turns :: turn_env where
  "sample_turns =
     \<lparr>tenv_px = (\<lambda>_. False), tenv_limits = sample_limits, tenv_interrupt_timeout = 10000, tenv_recovery_timeout = 30000,
      tenv_acquire = (\<lambda>_. True), tenv_request = (\<lambda>_. None), tenv_restart = (\<lambda>_. True),
      tenv_snapshot = (\<lambda>_. Some (True, 1)), tenv_set_timer = (\<lambda>_. True), tenv_now = (\<lambda>_. 0),
      tenv_deliver = (\<lambda>_. Delivery_Taken)\<rparr>"

definition plain :: "(string \<times> jsvalue) list \<Rightarrow> jsvalue" where
  "plain ps = JsObject True (map (\<lambda>(k, v). (js k, Data_Property True v)) ps)"

definition sample_call :: jsvalue where
  "sample_call = plain [(''threadId'', JsText (js ''t'')),
     (''input'', JsArray [plain [(''type'', JsText (js ''text'')), (''text'', JsText (js ''hi''))]])]"

definition sample_turn :: jsvalue where
  "sample_turn = plain [(''id'', JsText (js ''u'')), (''items'', JsArray []), (''status'', JsText (js ''inProgress''))]"

definition sample_steps :: "turn_event list" where
  "sample_steps =
     [Turn_Connect, Start_Call 1 sample_call, Turn_Lease_Granted 0 7, Turn_Resume 0,
      Turn_Response 0 (Some (plain [(''turn'', sample_turn)])), Turn_Resume 0]"

lemma short_texts:
  "utf8_byte_length (js ''t'') = 1" "utf8_byte_length (js ''u'') = 1" "utf8_byte_length (js ''hi'') = 2"
  "utf8_byte_length (js ''text'') = 4" "utf8_byte_length (js ''inProgress'') = 10" "utf8_byte_length (js ''threadId'') = 8"
  "utf8_byte_length (js ''input'') = 5" "utf8_byte_length (js ''type'') = 4" "utf8_byte_length (js ''turn'') = 4"
  "utf8_byte_length (js ''id'') = 2" "utf8_byte_length (js ''items'') = 5" "utf8_byte_length (js ''status'') = 6"
  by (simp_all add: utf8_byte_length_def utf8_encode_def js_def is_high_def is_low_def Let_def)

lemmas input_simps =
  require_options_def require_exact_options_def require_keys_def raw_record_def own_value_def has_key_def max_raw_nodes_def
  max_raw_array_def max_raw_bytes_def max_raw_depth_def max_raw_keys_def nonempty_text_def bounded_text_def
  require_identifier_def schema_identifier_def max_identifier_bytes_def max_input_text_bytes_def max_input_items_def
  short_texts plain_def

lemma sample_start_read:
  "normalize_start_request (\<lambda>_. False) sample_call =
     Some \<lparr>start_thread = js ''t'', start_message = None, start_input = [Text_Input (js ''hi'')]\<rparr>"
  by (simp add: normalize_start_request_def sample_call_def input_simps normalize_inputs_def normalize_input_def
      client_message_id_def read_array_def)

lemma sample_start_answer:
  "require_turn (\<lambda>_. False) sample_turn = Some \<lparr>server_turn_id = js ''u'', server_status = None, server_error = None\<rparr>"
  "require_exact_options (\<lambda>_. False) (plain [(''turn'', sample_turn)]) [''turn''] =
     Some [(js ''turn'', Data_Property True sample_turn)]"
  by (simp_all add: require_turn_def sample_turn_def input_simps if_own_def bounded_array_def array_within_def
      server_turn_status_def)

lemmas coordinator_simps =
  turn_step_def sample_turns_def sample_limits_def new_coordinator_def connect_turn_client_def recovering_def
  map_get_def map_set_def map_has_def map_delete_def map_keys_def max_turn_clients_def start_call_def Let_def call_refusal_def
  asked_turn_def log_turn_def put_turn_def put_turn_task_def fresh_turn_def the_turn_def turn_lease_granted_def lease_for_turn_def
  safe_int_def max_safe_integer_def turn_invalidated_def dispose_turns_def stop_recoveries_def finish_active_def
  release_active_def release_turn_lease_def disconnect_turn_client_def on_feed_def new_turn_client_def sample_start_read
  turn_resume_def start_request_host_def request_host_def turn_response_def start_answered_def own_value_def establish_turn_def
  finish_by_server_def settle_call_def drop_turn_task_def set_identity_def sample_start_answer emit_def

section \<open>The state of the sample run\<close>

definition sample_identity :: turn_identity where
  "sample_identity = \<lparr>of_generation = 7, of_sequence = 1, of_thread = js ''t'', of_turn = js ''u''\<rparr>"

definition sample_feed :: feed where
  "sample_feed =
     empty_feed\<lparr>feed_queue := [queued_entry sample_identity Turn_Started], feed_identity := Some sample_identity,
       flush_pending := True\<rparr>"

lemma sample_event_size: "event_bytes Turn_Started = 23"
  by (simp add: event_bytes_def obj_def quote_string_def js_def utf8_byte_length_def utf8_encode_def is_high_def is_low_def
      Let_def quote_unit_def quote_code_point_def)

lemma sample_batch_size: "batch_bytes (batch_of sample_identity [Turn_Started]) = 96"
  by (simp add: batch_bytes_def event_array_bytes_def sample_event_size batch_json_def batch_of_def sample_identity_def
      obj_def quote_string_def js_def utf8_byte_length_def utf8_encode_def is_high_def is_low_def Let_def
      quote_code_point_def quote_unit_def json_number_def safe_int_def max_safe_integer_def int_to_string_def
      nat_digits.simps digit_unit_def)

lemma sample_enqueue:
  "enqueue sample_limits Turn_Started (empty_feed\<lparr>feed_identity := Some sample_identity\<rparr>) = sample_feed"
  by (simp add: enqueue_def empty_feed_def enqueue_state_def make_room_def queued_entry_def boundary_room.simps sample_feed_def
      queued_bytes_def run_bytes_def map_get_def chunk_bytes.simps sample_batch_size sample_limits_def put_queue_def
      schedule_flush_def Let_def is_reserved_recovery_diagnostic_def is_turn_boundary_def safe_int_def max_safe_integer_def)

definition sample_active :: active_turn where
  "sample_active =
     (fresh_turn 1 (js ''t''))\<lparr>turn_lease := Some 0, turn_generation := Some 7, turn_name := Some (js ''u'')\<rparr>"

definition sample_running :: coordinator where
  "sample_running =
     (new_coordinator 7)
       \<lparr>co_feed := sample_feed, co_clients := [(1, new_turn_client)], co_turns := [(1, sample_active)], co_active := Some 1,
        co_sequence := 1, co_next_client := 2, co_next_key := 1, co_questions := 2,
        co_history :=
          [Turn_Lease_Asked 0 Active_Turn_Lease,
           Turn_Requested 0 ''turn/start''
             (start_params \<lparr>start_thread = js ''t'', start_message = None, start_input = [Text_Input (js ''hi'')]\<rparr>) None,
           Turn_Call_Settled 0 (Inr \<lparr>result_thread = js ''t'', result_turn = js ''u'', result_status = None\<rparr>)]\<rparr>"

lemma sample_turn_run: "fst (turn_run sample_turns 7 sample_steps) = sample_running"
  unfolding turn_run_def sample_steps_def
  using sample_enqueue [unfolded sample_identity_def sample_limits_def]
  by (simp add: coordinator_simps turn_identity_of_def sample_running_def sample_active_def)

lemma sample_flushes: "fst (flush_start sample_limits sample_feed) = Some (sample_identity, [Turn_Started])"
  by (simp add: flush_start_def flush_queue_def sample_feed_def empty_feed_def queued_entry_def take_run.simps
      with_warnings_def cut_batch.simps sample_batch_size sample_limits_def Let_def map_get_def)

lemma sample_fits: "limits_fit (tenv_limits sample_turns)" "nonnegative_ok 7"
  by (simp_all add: limits_fit_def sample_turns_def sample_limits_def nonnegative_ok_def max_safe_integer_def)

end
