(* ===== verification/TurnClaims.thy ===== *)
theory TurnClaims
  imports TurnSample
begin

text \<open>
  Properties of the turn coordinator (\<open>src/node/ride-codex-turn-coordinator.ts\<close>) in every run: its queue,
  the texts it sends, its leases, its calls, who may control a turn, and its disposal.
\<close>

section \<open>Parts of the invariant\<close>

lemma run_leases:
  "limits_fit (tenv_limits env) \<Longrightarrow> nonnegative_ok g \<Longrightarrow>
     leases_ok (fst (turn_run env g es)) \<and> co_released (fst (turn_run env g es)) = releases (snd (turn_run env g es))"
  using turn_run_inv [of env g es] turn_run_effects [of env g es] by (auto simp: turn_inv_def leases_ok_def)

lemma run_feed: "limits_fit (tenv_limits env) \<Longrightarrow> nonnegative_ok g \<Longrightarrow> feed_ok (tenv_limits env) (co_feed (fst (turn_run env g es)))"
  using turn_run_inv [of env g es] by (simp add: turn_inv_def coordinator_ok_def)

section \<open>What is queued and sent\<close>

text \<open>C9. In every state of every run the queued events, cut into the batches they will be sent in, stay
  within the byte limit, and the tables around the queue stay within theirs.\<close>

theorem turn_queue_within_budget:
  assumes "limits_fit (tenv_limits env)" "nonnegative_ok g"
  shows "let l = tenv_limits env; f = co_feed (fst (turn_run env g es)) in
    queued_bytes l [] (feed_queue f) \<le> lim_queued l \<and> length (feed_losses f) \<le> max_queue_metadata
    \<and> length (feed_reserved f) \<le> max_queue_metadata \<and> length (feed_history f) \<le> lim_history l"
  using run_feed [OF assms, of es]
  by (simp add: feed_ok_def feed_fits_def queue_fits_def tallied_def losses_fit_def Let_def)

theorem turn_queue_within_budget_witness:
  "queued_bytes sample_limits [] (feed_queue sample_feed) \<le> lim_queued sample_limits"
  using turn_queue_within_budget [OF sample_fits, of sample_steps]
  by (simp add: sample_turn_run sample_running_def Let_def) (simp add: sample_turns_def)

text \<open>C10. In every state of every run a flush hands over a batch that is not empty, is within the limits of
  events and bytes, and holds only events the reader accepts; and no boundary of a turn or recovery
  diagnostic is lost or overtaken by another on the way from the queue to the batch.\<close>

theorem turn_flush_whole:
  assumes "limits_fit (tenv_limits env)" "nonnegative_ok g"
    and "fst (flush_start (tenv_limits env) (co_feed (fst (turn_run env g es)))) = Some (i, events)"
  shows "events \<noteq> [] \<and> length events \<le> lim_batch (tenv_limits env)
    \<and> batch_bytes (batch_of i events) \<le> lim_queued (tenv_limits env) \<and> list_all event_ok events
    \<and> protected_events events
        @ map queued_ui (filter (\<lambda>e. is_protected (queued_ui e))
            (feed_queue (snd (flush_start (tenv_limits env) (co_feed (fst (turn_run env g es)))))))
      = map queued_ui (filter (\<lambda>e. is_protected (queued_ui e)) (feed_queue (co_feed (fst (turn_run env g es)))))"
  using flush_start_batch [OF assms(1) run_feed [OF assms(1,2)] assms(3)]
  by simp

theorem turn_flush_whole_witness:
  "batch_bytes (batch_of sample_identity [Turn_Started]) \<le> lim_queued sample_limits"
proof -
  have "fst (flush_start (tenv_limits sample_turns) (co_feed (fst (turn_run sample_turns 7 sample_steps)))) =
      Some (sample_identity, [Turn_Started])"
    unfolding sample_turn_run using sample_flushes by (simp add: sample_running_def) (simp add: sample_turns_def)
  from turn_flush_whole [OF sample_fits this] show ?thesis by (simp add: sample_turns_def)
qed

text \<open>C8. Every text that is sent to a client in a run is the JSON text of a batch and is within the byte
  limit; and the frontend reads it back as that very batch, provided that the batch has an event and that
  the loss counters of its warnings are safe integers. The proviso on the counters is needed:
  \<open>mergeBatches\<close> adds them without saturation.\<close>

theorem turn_wires_readable:
  assumes "limits_fit (tenv_limits env)" "nonnegative_ok g" "Wire_Sent c w \<in> set (snd (turn_run env g es))"
  shows "\<exists>b. w = json_stringify (batch_json b) \<and> utf8_byte_length w \<le> lim_queued (tenv_limits env)
    \<and> (batch_events b \<noteq> [] \<and> counters_safe b \<longrightarrow> parse_safe_batch w (lim_queued (tenv_limits env)) = Some b)"
  using turn_run_inv [OF assms(1,2), of es] assms(3)
  by (intro wire_ok_reads)
    (auto simp: turn_inv_def coordinator_ok_def wires_ok_def turn_run_effects [OF assms(1,2), symmetric])

lemma sample_wire:
  "serialize_validated_batch (batch_of sample_identity [Turn_Started]) 262144 =
     Some (json_stringify (batch_json (batch_of sample_identity [Turn_Started])))"
proof -
  have keys: "utf8_byte_length (js ''generation'') = 10" "utf8_byte_length (js ''turnSequence'') = 12"
    "utf8_byte_length (js ''turnId'') = 6" "utf8_byte_length (js ''events'') = 6" "utf8_byte_length (js ''turn-started'') = 12"
    by (simp_all add: utf8_byte_length_def utf8_encode_def js_def is_high_def is_low_def Let_def)
  have "utf8_byte_length (json_stringify (batch_json (batch_of sample_identity [Turn_Started]))) = 96"
    using sample_batch_size by (simp add: batch_bytes_text)
  then show ?thesis
    by (simp add: serialize_validated_batch_def serialize_event_batch_def Let_def safe_int_def max_safe_integer_def)
      (simp add: batch_json_def batch_of_def sample_identity_def obj_def input_simps keys is_finite_number_def)
qed

lemma sample_sends:
  "Wire_Sent 1 (json_stringify (batch_json (batch_of sample_identity [Turn_Started])))
     \<in> set (snd (turn_run sample_turns 7 (sample_steps @ [Turn_Flush])))"
proof -
  let ?w = "json_stringify (batch_json (batch_of sample_identity [Turn_Started]))"
  have env: "tenv_limits sample_turns = sample_limits" "lim_queued sample_limits = 262144"
    "tenv_deliver sample_turns = (\<lambda>_. Delivery_Taken)"
    by (simp_all add: sample_turns_def sample_limits_def)
  have s: "flush_pending sample_feed" "co_feed sample_running = sample_feed"
    "map_keys (co_clients sample_running) = [Suc 0]" "map_get (co_clients sample_running) (Suc 0) = Some new_turn_client"
    by (simp_all add: sample_running_def sample_feed_def map_keys_def map_get_def)
  have "Wire_Sent 1 ?w \<in> set (co_history (flush_turn_events sample_turns sample_running))"
    by (simp add: flush_turn_events_def s env sample_flushes Let_def deliver_batch_def send_batch_def sample_wire
        new_turn_client_def on_feed_def drain_client.simps take_pending_def put_client_def map_get_set asked_turn_def log_turn_def)
  moreover have "fst (turn_run sample_turns 7 (sample_steps @ [Turn_Flush])) = flush_turn_events sample_turns sample_running"
    using sample_turn_run by (simp add: turn_run_def run_machine_append turn_step_def)
  ultimately show ?thesis using turn_run_effects [OF sample_fits, of "sample_steps @ [Turn_Flush]"] by simp
qed

theorem turn_wires_readable_witness:
  "\<exists>b. json_stringify (batch_json (batch_of sample_identity [Turn_Started])) = json_stringify (batch_json b)
     \<and> utf8_byte_length (json_stringify (batch_json (batch_of sample_identity [Turn_Started]))) \<le> 262144
     \<and> (batch_events b \<noteq> [] \<and> counters_safe b \<longrightarrow>
          parse_safe_batch (json_stringify (batch_json (batch_of sample_identity [Turn_Started]))) 262144 = Some b)"
  using turn_wires_readable [OF sample_fits sample_sends] by (simp add: sample_turns_def sample_limits_def)

section \<open>Ordinary events\<close>

lemma bound_event_protected: "is_protected (bound_event l e) = is_protected e"
  by (cases "(l, e)" rule: bound_event.cases)
    (simp_all add: is_protected_def is_turn_boundary_def is_reserved_recovery_diagnostic_def)

lemma enqueue_state_ordinary: "ordinary e \<Longrightarrow> protected_of_queue (fst (enqueue_state l e s)) = protected_of_queue (fst s)"
  using record_drop_facts(1) [of l "queued_identity e" "queued_size e" s]
  by (auto simp: enqueue_state_def make_room_ordinary Let_def trimmed_def ordinary_def)

text \<open>Queueing an ordinary event removes no boundary of a turn and no recovery diagnostic from the queue,
  however little room there is.\<close>

theorem ordinary_displaces_no_boundary:
  assumes "\<not> is_protected e"
  shows "filter (\<lambda>e. is_protected (queued_ui e)) (feed_queue (enqueue l e f)) =
    filter (\<lambda>e. is_protected (queued_ui e)) (feed_queue f)"
  using assms enqueue_state_ordinary [of "queued_entry i (bound_event l e)" l "(feed_queue f, feed_losses f)" for i]
  by (auto simp: enqueue_def ordinary_def queued_entry_def bound_event_protected split: option.split)

theorem ordinary_displaces_no_boundary_witness:
  "filter (\<lambda>e. is_protected (queued_ui e)) (feed_queue (enqueue (sample_limits\<lparr>lim_queued := 0\<rparr>) (Agent_Delta (js ''i'') (js ''x'')) sample_feed))
     = [queued_entry sample_identity Turn_Started]"
proof -
  have "\<not> is_protected (Agent_Delta (js ''i'') (js ''x''))"
    by (simp add: is_protected_def is_turn_boundary_def is_reserved_recovery_diagnostic_def)
  from ordinary_displaces_no_boundary [OF this] show ?thesis
    by (simp add: sample_feed_def queued_entry_def is_protected_def is_turn_boundary_def)
qed

section \<open>Leases and calls\<close>

text \<open>C7. In every run no lease is released twice, and a lease that was bound to a turn has been released as
  soon as that turn is no longer the active one. (A lease that is granted with an invalid generation is
  never bound to a turn: see \<open>unbound_lease_kept\<close>.)\<close>

theorem turn_leases_returned:
  assumes "limits_fit (tenv_limits env)" "nonnegative_ok g"
  shows "distinct (releases (snd (turn_run env g es)))
    \<and> (\<forall>s t j. map_get (co_turns (fst (turn_run env g es))) s = Some t \<and> turn_lease t = Some j
         \<and> co_active (fst (turn_run env g es)) \<noteq> Some s \<longrightarrow> j \<in> set (releases (snd (turn_run env g es))))"
  using run_leases [OF assms, of es] by (auto simp: leases_ok_def)

theorem turn_leases_returned_witness:
  "releases (snd (turn_run sample_turns 7 [Turn_Connect, Start_Call 1 sample_call, Turn_Lease_Granted 0 7, Dispose_Turns])) = [0]
   \<and> distinct (releases (snd (turn_run sample_turns 7
        [Turn_Connect, Start_Call 1 sample_call, Turn_Lease_Granted 0 7, Dispose_Turns])))"
proof
  show "releases (snd (turn_run sample_turns 7
      [Turn_Connect, Start_Call 1 sample_call, Turn_Lease_Granted 0 7, Dispose_Turns])) = [0]"
    unfolding turn_run_def by (simp add: coordinator_simps releases_def)
qed (use turn_leases_returned [OF sample_fits] in blast)

text \<open>The lease of the other case: one that is granted with a generation that is no natural number. The start
  fails and the turn is over, but the lease was never bound to it, and nobody gives it back.\<close>

theorem unbound_lease_kept:
  "let r = turn_run sample_turns 7 [Turn_Connect, Start_Call 1 sample_call, Turn_Lease_Granted 0 (- 1), Turn_Resume 0]
   in co_active (fst r) = None \<and> Turn_Lease_Asked 0 Active_Turn_Lease \<in> set (snd r) \<and> releases (snd r) = []"
  unfolding turn_run_def
  by (simp add: coordinator_simps releases_def start_failed_def refuse_call_def)

section \<open>Requests to the host\<close>

text \<open>What an operation asks of the host.\<close>

definition host_requests :: "turn_effect list \<Rightarrow> (nat \<times> string) list" where
  "host_requests h = concat (map (\<lambda>e. case e of Turn_Requested j m p t \<Rightarrow> [(j, m)] | _ \<Rightarrow> []) h)"

lemma host_requests_append [simp]: "host_requests (h @ h') = host_requests h @ host_requests h'"
  by (simp add: host_requests_def)

lemma host_requests_single [simp]:
  "host_requests [Turn_Lease_Asked k x] = []" "host_requests [Turn_Lease_Released k] = []"
  "host_requests [Turn_Requested j m p i] = [(j, m)]" "host_requests [Turn_Timer_Set k n] = []"
  "host_requests [Turn_Timer_Cleared k] = []" "host_requests [Turn_Call_Settled k r] = []"
  by (simp_all add: host_requests_def)

lemma host_requests_in: "Turn_Requested j m p t \<in> set h \<Longrightarrow> (j, m) \<in> set (host_requests h)"
  by (force simp: host_requests_def)

section \<open>Disposal\<close>

lemma sent_kept:
  "co_history (stop_recoveries b) = co_history b" "co_history (on_feed f b) = co_history b"
  "sent_wires (co_history (finish_active env st e why False lin b)) = sent_wires (co_history b)"
  "sent_wires (co_history (fold (\<lambda>c. disconnect_turn_client env c False) cs b)) = sent_wires (co_history b)"
proof -
  show "sent_wires (co_history (finish_active env st e why False lin b)) = sent_wires (co_history b)"
    by (simp add: finish_active_def release_active_def release_turn_lease_def log_turn_def put_turn_def Let_def split: option.split)
  show "sent_wires (co_history (fold (\<lambda>c. disconnect_turn_client env c False) cs b)) = sent_wires (co_history b)"
    by (induction cs arbitrary: b) (simp_all add: disconnect_turn_client_def Let_def split: option.split)
qed (simp_all add: stop_recoveries_def on_feed_def)

lemma small_steps_keep:
  "co_disposed (emit env e b) = co_disposed b" "co_disposed (set_identity i b) = co_disposed b"
  "co_disposed (put_turn s t b) = co_disposed b" "co_disposed (release_turn_lease j b) = co_disposed b"
  "host_requests (co_history (emit env e b)) = host_requests (co_history b)"
  "host_requests (co_history (set_identity i b)) = host_requests (co_history b)"
  "host_requests (co_history (put_turn s t b)) = host_requests (co_history b)"
  "host_requests (co_history (release_turn_lease j b)) = host_requests (co_history b)"
  by (simp_all add: emit_def on_feed_def set_identity_def put_turn_def release_turn_lease_def log_turn_def)

lemma finish_keeps:
  "co_disposed (finish_active env st e why emits lin b) = co_disposed b"
  "host_requests (co_history (finish_active env st e why emits lin b)) = host_requests (co_history b)"
  by (simp_all add: finish_active_def release_active_def small_steps_keep Let_def split: option.split)

lemma disconnects_keep_disposed: "co_disposed (fold (\<lambda>c. disconnect_turn_client env c False) cs b) = co_disposed b"
  by (induction cs arbitrary: b) (simp_all add: disconnect_turn_client_def Let_def finish_keeps split: option.split)

lemma dispose_disposes: "co_disposed (dispose_turns env b)"
  by (simp add: dispose_turns_def Let_def disconnects_keep_disposed) (simp add: on_feed_def finish_keeps stop_recoveries_def)

lemma dispose_sends_nothing: "sent_wires (co_history (dispose_turns env b)) = sent_wires (co_history b)"
  by (simp add: dispose_turns_def Let_def sent_kept)

lemma turn_inv_run: "turn_inv env b \<Longrightarrow> turn_inv env (fst (run_machine (turn_step env) b es))"
  by (rule turns.run_inv)

lemma run_after_dispose:
  assumes "turn_inv env b" "b' = fst (run_machine (turn_step env) (dispose_turns env b) es)"
  shows "co_disposed b' \<and> sent_wires (co_history b') = sent_wires (co_history b) \<and> coordinator_ok env b'"
proof -
  have d: "turn_inv env (dispose_turns env b)" using turn_event_facts [OF assms(1), of Dispose_Turns] by simp
  from dispose_disposes [of env b] run_succeeds [OF d, of es] turn_inv_run [OF d, of es] show ?thesis
    by (simp add: assms(2) succeeds_def disposed_since_def dispose_sends_nothing turn_inv_def)
qed

text \<open>C14. Once disposed, the coordinator sends no client anything, neither by the disposal nor by any later
  event, and it keeps no turn, no client and nothing queued. (The host may still be asked once more: see
  \<open>start_sent_after_disposal\<close>.)\<close>

theorem turn_dispose_final:
  assumes "limits_fit (tenv_limits env)" "nonnegative_ok g"
  shows "let b = fst (turn_run env g (es @ Dispose_Turns # later)) in
    sent_wires (snd (turn_run env g (es @ Dispose_Turns # later))) = sent_wires (snd (turn_run env g es))
    \<and> co_active b = None \<and> co_clients b = [] \<and> feed_queue (co_feed b) = []"
proof -
  let ?b = "fst (turn_run env g es)"
  define b where "b = fst (turn_run env g (es @ Dispose_Turns # later))"
  have b: "b = fst (run_machine (turn_step env) (dispose_turns env ?b) later)"
    by (simp add: b_def turn_run_def run_machine_append turn_step_def)
  from run_after_dispose [OF turn_run_inv [OF assms] b]
  have "co_disposed b" "sent_wires (co_history b) = sent_wires (co_history ?b)" "disposed_quiet b"
    by (simp_all add: coordinator_ok_def)
  then show ?thesis
    by (simp add: disposed_quiet_def turn_run_effects [OF assms, symmetric] Let_def flip: b_def)
qed

theorem turn_dispose_final_witness:
  "sent_wires (snd (turn_run sample_turns 7 (sample_steps @ [Dispose_Turns, Turn_Flush]))) = []"
proof -
  have "sent_wires (snd (turn_run sample_turns 7 sample_steps)) = []"
    unfolding turn_run_effects [OF sample_fits, symmetric] sample_turn_run by (simp add: sample_running_def sent_wires_def)
  with turn_dispose_final [OF sample_fits, of sample_steps "[Turn_Flush]"] show ?thesis by (simp add: Let_def)
qed

text \<open>A start whose lease has just been granted still sends \<open>turn/start\<close> to the host when the coordinator is
  disposed before the call continues, although its lease is back by then.\<close>

theorem start_sent_after_disposal:
  "let early = [Turn_Connect, Start_Call 1 sample_call, Turn_Lease_Granted 0 7, Dispose_Turns]
   in host_requests (snd (turn_run sample_turns 7 early)) = []
      \<and> releases (snd (turn_run sample_turns 7 early)) = [0]
      \<and> host_requests (snd (turn_run sample_turns 7 (early @ [Turn_Resume 0]))) = [(0, ''turn/start'')]"
  unfolding turn_run_def by (simp add: coordinator_simps releases_def host_requests_def)

section \<open>Who controls a turn\<close>

lemma requests_kept:
  "host_requests (co_history (settle_call k r b)) = host_requests (co_history b)"
  "host_requests (co_history (refuse_call k e b)) = host_requests (co_history b)"
  "host_requests (co_history (set_control v s b)) = host_requests (co_history b)"
  "host_requests (co_history (set_turn_timer env k n b)) = host_requests (co_history b)"
  "host_requests (co_history (clear_turn_timer k b)) = host_requests (co_history b)"
  "host_requests (co_history (put_turn_task k w b)) = host_requests (co_history b)"
  "host_requests (co_history (snd (begin_recovery thread g b))) = host_requests (co_history b)"
  "host_requests (co_history (snd (request_host env j m p t b))) = host_requests (co_history b) @ [(j, m)]"
  by (simp_all add: refuse_call_def settle_call_def log_turn_def drop_turn_task_def set_control_def small_steps_keep
      set_turn_timer_def asked_turn_def clear_turn_timer_def put_turn_task_def begin_recovery_def request_host_def
      Let_def split: option.split)

text \<open>When a caller is let through to the active turn.\<close>

definition may_control :: "nat \<Rightarrow> nat \<Rightarrow> coordinator \<Rightarrow> bool" where
  "may_control c j b \<longleftrightarrow>
     \<not> co_disposed b \<and> \<not> recovering b \<and> map_has (co_clients b) c
     \<and> (\<exists>s. co_active b = Some s \<and> turn_owner (the_turn s b) = c \<and> \<not> turn_ended (the_turn s b)
            \<and> turn_lease (the_turn s b) = Some j \<and> \<not> turn_control (the_turn s b))"

lemma steer_requests:
  "host_requests (co_history (steer_call env c v b)) = host_requests (co_history b)
   \<or> (\<exists>j. may_control c j b \<and> host_requests (co_history (steer_call env c v b)) = host_requests (co_history b) @ [(j, ''turn/steer'')])"
  by (auto simp: steer_call_def Let_def requests_kept steer_failed_def call_refusal_def own_active_def may_control_def
      recovering_def the_turn_def set_control_def put_turn_def map_get_set split: option.splits if_splits)

lemma interrupt_requests:
  "host_requests (co_history (interrupt_call env c v b)) = host_requests (co_history b)
   \<or> (\<exists>j. may_control c j b
        \<and> host_requests (co_history (interrupt_call env c v b)) = host_requests (co_history b) @ [(j, ''turn/interrupt'')])"
  by (auto simp: interrupt_call_def Let_def requests_kept finish_keeps interrupt_failed_def settle_interrupt_def call_refusal_def
      own_active_def may_control_def recovering_def the_turn_def split: option.splits if_splits)

text \<open>C12. Only the client that started the active turn steers or interrupts it: such a call reaches the host
  only under the lease of that turn, while the client is connected, nothing is being recovered and no
  other control call on the turn is under way.\<close>

theorem turn_control_needs_owner:
  assumes "limits_fit (tenv_limits env)" "nonnegative_ok g"
    and "e = Steer_Call c v \<or> e = Interrupt_Call c v"
    and "Turn_Requested j m params timeout \<in> set (snd (turn_step env (fst (turn_run env g es)) e))"
  shows "let b = fst (turn_run env g es) in
    \<not> co_disposed b \<and> \<not> recovering b \<and> map_has (co_clients b) c \<and> m \<in> {''turn/steer'', ''turn/interrupt''}
    \<and> (\<exists>s. co_active b = Some s \<and> turn_owner (the_turn s b) = c \<and> turn_lease (the_turn s b) = Some j
          \<and> \<not> turn_ended (the_turn s b) \<and> \<not> turn_control (the_turn s b))"
proof -
  let ?b = "fst (turn_run env g es)"
  have "succeeds ?b (turn_next env ?b e)"
    using turn_event_facts [OF turn_run_inv [OF assms(1,2)]] by simp
  then obtain h where h: "co_history (turn_next env ?b e) = co_history ?b @ h" "snd (turn_step env ?b e) = h"
    by (auto simp: succeeds_def prefix_def turn_step_def)
  with assms(4) have "(j, m) \<in> set (host_requests h)" by (auto intro: host_requests_in)
  with h assms(3) steer_requests [of env c v ?b] interrupt_requests [of env c v ?b]
  have "may_control c j ?b \<and> m \<in> {''turn/steer'', ''turn/interrupt''}" by auto
  then show ?thesis by (auto simp: may_control_def Let_def)
qed

definition sample_interrupt :: jsvalue where
  "sample_interrupt = plain [(''threadId'', JsText (js ''t'')), (''turnId'', JsText (js ''u''))]"

lemma sample_interrupt_read:
  "normalize_interrupt_request (\<lambda>_. False) sample_interrupt = Some \<lparr>interrupt_thread = js ''t'', interrupt_turn = js ''u''\<rparr>"
  by (simp add: normalize_interrupt_request_def sample_interrupt_def input_simps)
   (simp add: utf8_byte_length_def utf8_encode_def js_def is_high_def is_low_def Let_def)

lemma sample_interrupted:
  "turn_next sample_turns sample_running (Interrupt_Call 1 sample_interrupt) =
     put_turn_task 1
       (Interrupt_Racing \<lparr>interrupt_thread = js ''t'', interrupt_turn = js ''u''\<rparr> 1 7 Awaits_Ack None)
       (sample_running
         \<lparr>co_turns := [(1, sample_active\<lparr>turn_control := True\<rparr>)], co_next_key := 2, co_timers := [1], co_questions := 4,
          co_history := co_history sample_running
            @ [Turn_Timer_Set 1 10000,
               Turn_Requested 0 ''turn/interrupt''
                 (interrupt_params \<lparr>interrupt_thread = js ''t'', interrupt_turn = js ''u''\<rparr>) (Some 10000)]\<rparr>)"
  by (simp add: sample_running_def sample_active_def interrupt_call_def coordinator_simps sample_interrupt_read own_active_def
      set_control_def set_turn_timer_def)

theorem turn_control_needs_owner_witness:
  "turn_owner (the_turn 1 sample_running) = 1 \<and> turn_lease (the_turn 1 sample_running) = Some 0"
proof -
  have "Turn_Requested 0 ''turn/interrupt'' (interrupt_params \<lparr>interrupt_thread = js ''t'', interrupt_turn = js ''u''\<rparr>)
      (Some 10000) \<in> set (snd (turn_step sample_turns (fst (turn_run sample_turns 7 sample_steps)) (Interrupt_Call 1 sample_interrupt)))"
    unfolding sample_turn_run turn_step_def sample_interrupted by (simp add: put_turn_task_def)
  from turn_control_needs_owner [OF sample_fits disjI2 [OF refl] this]
  show ?thesis unfolding sample_turn_run Let_def by (auto simp: sample_running_def)
qed

section \<open>An interrupt that is not confirmed\<close>

lemma begin_recovery_keeps:
  "co_active (snd (begin_recovery thread g b)) = co_active b" "co_turns (snd (begin_recovery thread g b)) = co_turns b"
  "recovering (snd (begin_recovery thread g b))"
  by (auto simp: begin_recovery_def recovering_def put_turn_task_def Let_def split: option.split)

lemma small_steps_recovering:
  "recovering (emit env e b) = recovering b" "recovering (set_identity i b) = recovering b"
  "recovering (put_turn s t b) = recovering b" "recovering (release_turn_lease j b) = recovering b"
  "recovering (put_turn_task k w b) = recovering b" "recovering (b\<lparr>co_active := a, co_items := c\<rparr>) = recovering b"
  by (simp_all add: recovering_def emit_def on_feed_def set_identity_def put_turn_def release_turn_lease_def log_turn_def
      put_turn_task_def)

lemma finish_keeps_recovering: "recovering (finish_active env st e why emits lin b) = recovering b"
  by (simp add: finish_active_def release_active_def small_steps_recovering Let_def split: option.split)

text \<open>C13. When the acknowledgement of an interrupt does not come in time, the turn is over with an uncertain
  outcome, its lease is back, and the coordinator is recovering the thread.\<close>

theorem unconfirmed_interrupt_recovers:
  assumes "limits_fit (tenv_limits env)" "nonnegative_ok g"
    and "b = fst (turn_run env g es)" "map_get (co_tasks b) k = Some (Interrupt_Racing r s g' ack timed)"
    and "k \<in> set (co_timers b)" "co_active b = Some s" "turn_name (the_turn s b) = Some n"
  shows "let b' = turn_next env b (Turn_Timer k) in
    co_active b' = None \<and> recovering b' \<and> turn_ended (the_turn s b')
    \<and> turn_outcome (the_turn s b') =
        Some \<lparr>result_thread = turn_thread_id (the_turn s b), result_turn = n, result_status = Some Interrupt_Uncertain\<rparr>
    \<and> (\<forall>j. turn_lease (the_turn s b) = Some j \<longrightarrow> j \<in> set (co_released b'))"
proof -
  have inv: "turn_inv env b" unfolding assms(3) by (rule turn_run_inv [OF assms(1,2)])
  then have open_turn: "open_turn (the_turn s b)"
    using active_turn_of [of env b s] assms(6) by (simp add: turn_inv_def)
  let ?b1 = "snd (begin_recovery (interrupt_thread r) g' (b\<lparr>co_timers := removeAll k (co_timers b)\<rparr>))"
  have same: "the_turn s ?b1 = the_turn s b" "co_active ?b1 = Some s"
    by (simp_all add: the_turn_def begin_recovery_keeps assms(6))
  obtain w where next_state: "turn_next env b (Turn_Timer k) =
      put_turn_task k w (finish_active env Interrupt_Uncertain (Some interrupt_timeout_error) Turn_Superseded True True ?b1)"
    using open_turn assms(4-6)
    by (simp add: turn_timer_fired_def interrupt_timer_def open_turn_def Let_def the_turn_def)
  have fin: "finish_active env Interrupt_Uncertain (Some interrupt_timeout_error) Turn_Superseded True True ?b1 =
      ((put_turn s (ended_turn Interrupt_Uncertain Turn_Superseded True (the_turn s b))
          (lease_back s (last_words env Interrupt_Uncertain (Some interrupt_timeout_error) True s ?b1)))
        \<lparr>co_active := None\<rparr>)\<lparr>co_items := []\<rparr>"
    using finish_active_parts [of ?b1 s env Interrupt_Uncertain] same open_turn by simp
  have "recovering (turn_next env b (Turn_Timer k))"
    unfolding next_state by (simp add: small_steps_recovering finish_keeps_recovering begin_recovery_keeps)
  moreover have "turn_lease (the_turn s b) = Some j \<Longrightarrow> j \<in> set (co_released (turn_next env b (Turn_Timer k)))" for j
    unfolding next_state fin using lease_is_back [of s "last_words env Interrupt_Uncertain (Some interrupt_timeout_error) True s ?b1" j] same
    by (simp add: put_turn_task_def put_turn_def) (simp add: the_turn_def begin_recovery_keeps)
  moreover have "the_turn s (turn_next env b (Turn_Timer k)) = ended_turn Interrupt_Uncertain Turn_Superseded True (the_turn s b)"
    "co_active (turn_next env b (Turn_Timer k)) = None"
    unfolding next_state fin by (simp_all add: put_turn_task_def the_turn_def put_turn_def map_get_set)
  ultimately show ?thesis using assms(7) by (simp add: Let_def ended_turn_def)
qed

theorem unconfirmed_interrupt_recovers_witness:
  "recovering (turn_next sample_turns (fst (turn_run sample_turns 7 (sample_steps @ [Interrupt_Call 1 sample_interrupt]))) (Turn_Timer 1))"
proof -
  let ?es = "sample_steps @ [Interrupt_Call 1 sample_interrupt]"
  have run: "fst (turn_run sample_turns 7 ?es) = turn_next sample_turns sample_running (Interrupt_Call 1 sample_interrupt)"
    using sample_turn_run by (simp add: turn_run_def run_machine_append turn_step_def)
  have "map_get (co_tasks (fst (turn_run sample_turns 7 ?es))) 1 =
      Some (Interrupt_Racing \<lparr>interrupt_thread = js ''t'', interrupt_turn = js ''u''\<rparr> 1 7 Awaits_Ack None)"
    "1 \<in> set (co_timers (fst (turn_run sample_turns 7 ?es)))" "co_active (fst (turn_run sample_turns 7 ?es)) = Some 1"
    "turn_name (the_turn 1 (fst (turn_run sample_turns 7 ?es))) = Some (js ''u'')"
    unfolding run sample_interrupted
    by (simp_all add: put_turn_task_def map_get_set)
      (simp_all add: sample_running_def sample_active_def the_turn_def map_get_def)
  from unconfirmed_interrupt_recovers [OF sample_fits refl this] show ?thesis by (simp only: Let_def)
qed

end
