(* ===== verification/QueueBoundaries.thy ===== *)
theory QueueBoundaries
  imports TurnSizes
begin

text \<open>
  When the pending queue of the event reducer (\<open>#rebuildPendingIdentity\<close> of
  \<open>src/browser/ride-codex-event-reducer.ts\<close>) takes an incoming batch with turn boundaries: always when the
  boundaries it must keep fit its budget, whatever else is queued; and what it then holds.
\<close>

section \<open>The size of the overflow warning\<close>

lemma nat_digits_mono: "m \<le> n \<Longrightarrow> length (nat_digits m) \<le> length (nat_digits n)"
proof (induction n arbitrary: m rule: nat_digits.induct)
  case (1 n)
  show ?case
  proof (cases "m < 10")
    case True
    then have "nat_digits m = [digit_unit m]" by (subst nat_digits.simps) simp
    then show ?thesis by (simp add: Suc_le_eq)
  next
    case False
    with 1 have "length (nat_digits (m div 10)) \<le> length (nat_digits (n div 10))" by (simp add: div_le_mono)
    with False 1(2) show ?thesis by (subst (1 2) nat_digits.simps) simp
  qed
qed

lemma number_bytes: "0 \<le> d \<Longrightarrow> d \<le> max_safe_integer \<Longrightarrow> utf8_byte_length (json_number (NInt d)) = int (length (nat_digits (nat d)))"
proof -
  assume d: "0 \<le> d" "d \<le> max_safe_integer"
  have "c \<in> set (nat_digits n) \<Longrightarrow> ascii [c]" for c n
    using nat_digits_digits [of c n] by (simp add: ascii_def is_digit_def)
  then have "ascii (nat_digits (nat d))" by (simp add: ascii_def)
  with d show ?thesis
    using max_safe_integer_pos by (simp add: json_number_def safe_int_def int_to_string_def utf8_byte_length_ascii)
qed

lemma object_bytes:
  assumes "ps \<noteq> []"
  shows "utf8_byte_length (json_stringify (JObj ps)) =
    sum_list (map (\<lambda>p. utf8_byte_length (quote_string (fst p)) + 1 + utf8_byte_length (json_stringify (snd p))) ps)
    + int (length ps) + 1"
proof -
  let ?f = "\<lambda>(k, v). quote_string k @ [0x3A] @ json_stringify v"
  have c: "clean (?f p)" for p by (cases p) (auto simp del: append_Cons intro!: clean_append)
  have b: "utf8_byte_length (?f p) = utf8_byte_length (quote_string (fst p)) + 1 + utf8_byte_length (json_stringify (snd p))" for p
    by (cases p) (simp add: bytes_append bytes_Cons)
  have "utf8_byte_length (comma_separated (map ?f ps)) = sum_list (map utf8_byte_length (map ?f ps)) + int (length ps) - 1"
    using assms c by (subst bytes_comma_separated) auto
  moreover have "clean (comma_separated (map ?f ps))" using c by (intro clean_comma_separated) auto
  moreover have "sum_list (map utf8_byte_length (map ?f ps)) =
      sum_list (map (\<lambda>p. utf8_byte_length (quote_string (fst p)) + 1 + utf8_byte_length (json_stringify (snd p))) ps)"
    by (simp only: map_map comp_def b)
  ultimately show ?thesis by (simp add: bytes_Cons bytes_append del: map_map)
qed

lemma drop_warning_bytes:
  assumes "0 \<le> d" "d \<le> max_safe_integer"
  shows "event_bytes (drop_warning d) \<le> event_bytes (drop_warning max_safe_integer)"
proof -
  have "\<exists>ps. \<forall>n. event_json (drop_warning n) = JObj (ps @ [(js ''droppedEvents'', int_json n)])"
    by (intro exI [of _ "[(js ''type'', text_json ''warning''), (js ''code'', text_json ''events-dropped''),
         (js ''message'', text_json ''Codex UI events were dropped.'')]"])
      (simp add: drop_warning_def warning_json_def obj_def optional_field_def)
  then obtain ps where "\<And>n. event_json (drop_warning n) = JObj (ps @ [(js ''droppedEvents'', int_json n)])" by blast
  then have "event_bytes (drop_warning n) =
      sum_list (map (\<lambda>p. utf8_byte_length (quote_string (fst p)) + 1 + utf8_byte_length (json_stringify (snd p))) ps)
      + utf8_byte_length (quote_string (js ''droppedEvents'')) + utf8_byte_length (json_number (NInt n))
      + int (length ps) + 3" for n
    unfolding event_bytes_def by (simp only:) (subst object_bytes, simp_all del: json_stringify.simps(1,2,4-))
  then show ?thesis
    using assms nat_digits_mono [of "nat d" "nat max_safe_integer"] by (simp add: number_bytes)
qed

section \<open>The size of packed batches\<close>

definition batch_identity :: "event_batch \<Rightarrow> turn_identity" where
  "batch_identity b =
     \<lparr>of_generation = batch_generation b, of_sequence = batch_sequence b, of_thread = batch_thread b, of_turn = batch_turn b\<rparr>"

lemma packed_bytes: "0 < n \<Longrightarrow> pending_batches_bytes (pack_pending_batches b es n) = run_price n (batch_identity b) es"
proof (induction b es n rule: pack_pending_batches.induct)
  case (1 b es n)
  show ?case
  proof (cases "es = []")
    case True
    with 1 show ?thesis by (subst pack_pending_batches.simps) (simp add: pending_batches_bytes_def)
  next
    case False
    have "freeze_pending_batch b (take n es) = batch_of (batch_identity b) (take n es)"
      by (simp add: freeze_pending_batch_def batch_of_def batch_identity_def)
    then have "pending_batch_bytes (freeze_pending_batch b (take n es)) = batch_bytes (batch_of (batch_identity b) (take n es))"
      by (simp add: pending_batch_bytes_def batch_bytes_text)
    with 1 False run_price_take [OF False 1(2)] show ?thesis
      by (subst pack_pending_batches.simps) (simp add: pending_batches_bytes_def)
  qed
qed

lemma packed_warning_bytes:
  "0 < n \<Longrightarrow> 0 \<le> d \<Longrightarrow> d \<le> max_safe_integer \<Longrightarrow>
     pending_batches_bytes (pack_pending_batches b (es @ [drop_warning d]) n)
       \<le> pending_batches_bytes (pack_pending_batches b (es @ [drop_warning max_safe_integer]) n)"
  using drop_warning_bytes [of d] by (auto simp: packed_bytes intro!: run_price_mono)

section \<open>When an incoming batch is taken\<close>

text \<open>The boundaries of the incoming turn that must be kept, and what is left of the other turns when all
  their ordinary events are shed and the older turns are given up.\<close>

definition boundaries_of :: "event_batch list \<Rightarrow> event_batch \<Rightarrow> ui_event list" where
  "boundaries_of pending incoming =
     dedupe_protected_pending_events (filter is_protected (identity_events pending incoming @ batch_events incoming))"

definition other_boundaries :: "event_batch list \<Rightarrow> event_batch \<Rightarrow> event_batch list" where
  "other_boundaries pending incoming =
     filter (\<lambda>b. batch_events b \<noteq> [])
       (map (\<lambda>b. freeze_pending_batch b (filter is_protected (batch_events b)))
         (filter (\<lambda>b. \<not> same_batch_identity b incoming \<and> \<not> is_older_batch_identity b incoming) pending))"

definition boundaries_fit :: "nat \<Rightarrow> int \<Rightarrow> event_batch list \<Rightarrow> event_batch \<Rightarrow> bool" where
  "boundaries_fit n m pending incoming \<longleftrightarrow>
     pending_batches_bytes (other_boundaries pending incoming)
     + pending_batches_bytes (pack_pending_batches incoming (boundaries_of pending incoming) n) \<le> m"

lemma compact_younger_bytes:
  "pending_entries_bytes (filter (\<lambda>e. \<not> is_older_batch_identity (entry_batch e) incoming)
     (fst (compact_ordinary_pending_entries (other_entries pending incoming)))) =
   pending_batches_bytes (other_boundaries pending incoming)"
proof -
  let ?f = "\<lambda>b. freeze_pending_batch b (filter is_protected (batch_events b))"
  have f: "is_older_batch_identity (?f b) incoming = is_older_batch_identity b incoming" for b
    by (simp add: is_older_batch_identity_def freeze_pending_batch_def)
  have "map entry_batch (filter (\<lambda>e. \<not> is_older_batch_identity (entry_batch e) incoming)
      (fst (compact_ordinary_pending_entries es))) =
    filter (\<lambda>b. batch_events b \<noteq> [])
      (map ?f (filter (\<lambda>b. \<not> is_older_batch_identity b incoming) (map entry_batch es)))" for es
    unfolding compact_ordinary_pending_entries_def compact_loop_entries
    by (induction es) (simp_all add: compact_entry_def f)
  then show ?thesis by (simp add: entries_bytes map_other_entries other_boundaries_def)
qed

lemma removal_loop_succeeds:
  "pending_entries_bytes (filter (\<lambda>e. \<not> is_older_batch_identity (entry_batch e) incoming) remaining) + cb \<le> m \<Longrightarrow>
     removal_loop m incoming cb remaining dropped \<noteq> None"
proof (induction m incoming cb remaining dropped rule: removal_loop.induct)
  case (1 m incoming cb remaining dropped)
  show ?case
  proof (cases "pending_entries_bytes remaining + cb \<le> m")
    case True
    then show ?thesis by (subst removal_loop.simps) simp
  next
    case False
    show ?thesis
    proof (cases "List.find (\<lambda>e. is_older_batch_identity (entry_batch e) incoming) remaining")
      case None
      then have "filter (\<lambda>e. \<not> is_older_batch_identity (entry_batch e) incoming) remaining = remaining"
        by (auto simp: find_None_iff intro: filter_True)
      with "1.prems" False show ?thesis by simp
    next
      case (Some old)
      let ?rest = "filter (\<lambda>e. \<not> same_batch_identity (entry_batch e) (entry_batch old)) remaining"
      from Some have "is_older_batch_identity (entry_batch old) incoming" by (auto simp: find_Some_iff)
      then have "\<not> is_older_batch_identity (entry_batch e) incoming \<Longrightarrow>
          \<not> same_batch_identity (entry_batch e) (entry_batch old)" for e
        by (auto simp: is_older_batch_identity_def same_batch_identity_def)
      then have "filter (\<lambda>e. \<not> is_older_batch_identity (entry_batch e) incoming) ?rest =
          filter (\<lambda>e. \<not> is_older_batch_identity (entry_batch e) incoming) remaining"
        by (auto intro: filter_cong)
      with "1.IH" [OF False Some] "1.prems" False Some show ?thesis by (subst removal_loop.simps) simp
    qed
  qed
qed

text \<open>Counters never exceed the greatest safe integer.\<close>

lemma saturating_add_le: "saturating_add a b \<le> max_safe_integer"
  by (simp add: saturating_add_def)

lemma gathered_le: "fst (gathered pending incoming) \<le> max_safe_integer"
proof -
  have "fst acc \<le> max_safe_integer \<Longrightarrow> fst (foldl collect_event acc es) \<le> max_safe_integer" for acc es
    by (induction es arbitrary: acc) (auto simp: collect_event_def saturating_add_le split: ui_event.split)
  then show ?thesis by (simp add: gathered_def)
qed

lemma removal_loop_le:
  "removal_loop m incoming cb remaining d = Some (remaining', d') \<Longrightarrow> d \<le> max_safe_integer \<Longrightarrow> d' \<le> max_safe_integer"
proof (induction m incoming cb remaining d rule: removal_loop.induct)
  case (1 m incoming cb remaining d)
  then show ?case
    by (subst (asm) removal_loop.simps) (auto simp: saturating_add_le split: if_splits option.splits)
qed

lemma not_refused:
  assumes "0 < n" "boundaries_fit n m pending incoming" "boundaries_of pending incoming \<noteq> []"
  shows "\<not> refuses n m pending incoming"
proof -
  define g where "g = candidate_events n m pending incoming"
  define cb where "cb = pending_batches_bytes (pack_pending_batches incoming (snd g) n)"
  define c where "c = compact_remaining m cb (other_entries pending incoming) (fst g)"
  have le: "fst g \<le> max_safe_integer" "snd c \<le> max_safe_integer"
    by (simp_all add: c_def g_def candidate_events_def shed_candidate_def compact_remaining_def Let_def saturating_add_le gathered_le)
  have some: "snd g \<noteq> []"
    using protected_candidate [of n m pending incoming] assms(3) by (auto simp: g_def boundaries_of_def)
  have shed: "snd g = boundaries_of pending incoming" if "m < pending_entries_bytes (other_entries pending incoming) + cb"
  proof -
    have "snd g = filter is_protected (snd g)"
      using that by (auto simp: g_def cb_def candidate_events_def shed_candidate_def Let_def split: if_splits)
    then show ?thesis using protected_candidate [of n m pending incoming] by (simp add: g_def boundaries_of_def)
  qed
  have "removal_loop m incoming cb (fst c) (snd c) \<noteq> None"
  proof (cases "m < pending_entries_bytes (other_entries pending incoming) + cb")
    case True
    then have "fst c = fst (compact_ordinary_pending_entries (other_entries pending incoming))"
      by (simp add: c_def compact_remaining_def)
    with assms(2) shed [OF True] show ?thesis
      by (intro removal_loop_succeeds) (simp add: compact_younger_bytes boundaries_fit_def cb_def)
  next
    case False
    then show ?thesis by (subst removal_loop.simps) (simp add: c_def compact_remaining_def)
  qed
  then obtain remaining dropped where r: "removal_loop m incoming cb (fst c) (snd c) = Some (remaining, dropped)" by auto
  have d: "dropped \<le> max_safe_integer" by (rule removal_loop_le [OF r le(2)])
  have fit: "pending_entries_bytes remaining + cb \<le> m" using removal_loop_spec [OF r] by simp
  let ?events = "with_drop_warning n m incoming (pending_entries_bytes remaining) dropped (snd g)"
  have "?events \<noteq> []" using some by (simp add: with_drop_warning_def)
  moreover have "pending_entries_bytes remaining + pending_batches_bytes (pack_pending_batches incoming ?events n) \<le> m"
    using fit packed_warning_bytes [OF assms(1) _ d, of incoming "snd g"] by (auto simp: with_drop_warning_def cb_def)
  ultimately show ?thesis
    using r assms(1) by (simp add: refuses_def Let_def pack_Nil_iff flip: g_def cb_def c_def)
qed

lemma dedupe_Nil: "dedupe_protected_pending_events es = [] \<longleftrightarrow> es = []"
  by (cases es) (simp_all add: dedupe_protected_pending_events_def)

text \<open>C3. Overload never loses a turn boundary: when the boundaries and recovery diagnostics that must be kept
  (those of the incoming turn, and those of the turns that are not older) fit the budget without any other
  event, then after the batch has come in, whatever is queued, the queue holds the boundaries of the
  incoming turn, those queued and those of the batch, each kind once and in order, and those of every
  other turn that is not older, untouched. A batch with a boundary is never refused then.\<close>

theorem boundaries_survive:
  assumes "0 < max_batch" "boundaries_fit max_batch max_queued pending incoming"
  shows "let queue = rebuild_pending_identity max_batch max_queued pending incoming in
    filter is_protected (identity_events queue incoming) = boundaries_of pending incoming \<and>
    (\<forall>b. \<not> is_older_batch_identity b incoming \<and> \<not> same_batch_identity b incoming \<longrightarrow>
       filter is_protected (identity_events queue b) = filter is_protected (identity_events pending b))"
proof -
  let ?queue = "rebuild_pending_identity max_batch max_queued pending incoming"
  from rebuild_boundaries [OF assms(1) refl] not_refused [OF assms]
  consider (taken) "boundaries_kept pending incoming ?queue" | (absent) "?queue = pending" "boundaries_of pending incoming = []"
    by blast
  then show ?thesis
  proof cases
    case taken
    then show ?thesis by (simp add: boundaries_kept_def boundaries_of_def Let_def)
  next
    case absent
    then have "filter is_protected (identity_events pending incoming @ batch_events incoming) = []"
      by (simp only: boundaries_of_def dedupe_Nil)
    then have "filter is_protected (identity_events pending incoming) = []" by simp
    then show ?thesis by (simp only: Let_def absent simp_thms)
  qed
qed

text \<open>An older turn fills the queue with a long text; the start of the new turn is taken.\<close>

definition older_turn :: event_batch where
  "older_turn =
     \<lparr>batch_generation = 0, batch_sequence = 1, batch_thread = [], batch_turn = [],
      batch_events = [Agent_Delta [] (replicate 2000 0x61)]\<rparr>"

definition newer_turn :: event_batch where
  "newer_turn =
     \<lparr>batch_generation = 0, batch_sequence = 2, batch_thread = [], batch_turn = [], batch_events = [Turn_Started]\<rparr>"

lemma newer_turn_bytes: "pending_batch_bytes newer_turn = 94"
  by (simp add: pending_batch_bytes_def newer_turn_def batch_json_def obj_def quote_string_def js_def
      utf8_byte_length_def utf8_encode_def is_high_def is_low_def Let_def quote_code_point_def quote_unit_def
      json_number_def safe_int_def max_safe_integer_def int_to_string_def nat_digits.simps digit_unit_def)

theorem boundaries_survive_witness:
  "filter is_protected (identity_events (rebuild_pending_identity 2 100 [older_turn] newer_turn) newer_turn) = [Turn_Started]
   \<and> rebuild_pending_identity 2 100 [older_turn] newer_turn \<noteq> [older_turn]"
proof -
  have p: "is_protected Turn_Started" by (simp add: is_protected_def is_turn_boundary_def)
  have i: "identity_events [older_turn] newer_turn = []"
    by (simp add: identity_events_def same_batch_identity_def older_turn_def newer_turn_def)
  have b: "boundaries_of [older_turn] newer_turn = [Turn_Started]"
    using p by (simp add: boundaries_of_def i) (simp add: newer_turn_def p dedupe_protected_pending_events_def is_turn_started_def)
  have "pack_pending_batches newer_turn [Turn_Started] 2 = [newer_turn]"
    by (simp add: pack_pending_batches.simps freeze_pending_batch_def newer_turn_def)
  moreover have "other_boundaries [older_turn] newer_turn = []"
    by (simp add: other_boundaries_def is_older_batch_identity_def older_turn_def newer_turn_def)
  ultimately have "boundaries_fit 2 100 [older_turn] newer_turn"
    by (simp add: boundaries_fit_def b pending_batches_bytes_def newer_turn_bytes)
  from boundaries_survive [OF _ this] have
    "filter is_protected (identity_events (rebuild_pending_identity 2 100 [older_turn] newer_turn) newer_turn) = [Turn_Started]"
    by (simp add: b Let_def)
  then show ?thesis using i by auto
qed

end
