(* ===== verification/ThreadData.thy ===== *)
theory ThreadData
  imports Paths Events
begin

text \<open>
  The data of the thread coordinator (\<open>src/node/ride-codex-thread-coordinator.ts\<close>, with the types of
  \<open>src/common/ride-codex-conversations.ts\<close>): models, threads and pages read from the answers of the app
  server, the requests of the frontend, and the working directory of a new thread.
\<close>

section \<open>Values\<close>

definition max_page_size :: nat where "max_page_size = 100"
definition max_cursor_length :: nat where "max_cursor_length = 4096"
definition max_id_length :: nat where "max_id_length = 256"
definition max_model_length :: nat where "max_model_length = 256"
definition max_name_length :: nat where "max_name_length = 512"
definition max_preview_length :: nat where "max_preview_length = 4096"
definition max_description_length :: nat where "max_description_length = 8192"
definition max_path_length :: nat where "max_path_length = 32768"
definition max_plain_array :: nat where "max_plain_array = 512"
definition max_plain_keys :: nat where "max_plain_keys = 128"
definition max_plain_depth :: nat where "max_plain_depth = 24"
definition max_plain_nodes :: nat where "max_plain_nodes = 8192"

text \<open>\<open>RideCodexConversationsErrorCode\<close>, with the errors of the language.\<close>

datatype thread_error =
    Bad_Thread_Data | Threads_Failed | Thread_Superseded | Thread_Unavailable | Threads_Disposed
  | Thread_Type_Error | Thread_Range_Error

record reasoning_effort =
  effort_name :: jsstr
  effort_description :: jsstr

record service_tier =
  tier_id :: jsstr
  tier_name :: jsstr
  tier_description :: jsstr

datatype modality = Text_Modality | Image_Modality

record codex_model =
  model_id :: jsstr
  model_model :: jsstr
  model_display_name :: jsstr
  model_description :: jsstr
  model_default :: bool
  model_hidden :: bool
  model_modalities :: "modality list"
  model_efforts :: "reasoning_effort list"
  model_default_effort :: jsstr
  model_personality :: bool
  model_tiers :: "service_tier list"
  model_default_tier :: "jsstr option"

record model_page =
  page_models :: "codex_model list"
  models_next :: "jsstr option"

datatype status_kind = Not_Loaded | Idle_Thread | System_Error | Active_Thread
datatype active_flag = Waiting_On_Approval | Waiting_On_Input

record thread_state =
  state_kind :: status_kind
  state_flags :: "active_flag list"

record thread_summary =
  summary_id :: jsstr
  summary_preview :: jsstr
  summary_name :: "jsstr option"
  summary_provider :: jsstr
  summary_created :: int
  summary_updated :: int
  summary_recency :: "int option"
  summary_cwd :: jsstr
  summary_status :: thread_state

record thread_page =
  page_threads :: "thread_summary list"
  threads_next :: "jsstr option"
  threads_back :: "jsstr option"

section \<open>Plain data\<close>

text \<open>\<open>assertPlainData\<close>: the result is what remains of the budget of nodes.\<close>

fun plain_data :: "(jsvalue \<Rightarrow> bool) \<Rightarrow> nat \<Rightarrow> jsvalue \<Rightarrow> nat \<Rightarrow> nat option"
and plain_items :: "(jsvalue \<Rightarrow> bool) \<Rightarrow> nat \<Rightarrow> jsvalue list \<Rightarrow> nat \<Rightarrow> nat option"
and plain_members :: "(jsvalue \<Rightarrow> bool) \<Rightarrow> nat \<Rightarrow> properties \<Rightarrow> nat \<Rightarrow> nat option"
where
  "plain_data px depth v budget =
     (if budget = 0 \<or> max_plain_depth < depth \<or> px v then None
      else
        (case v of
           JsNull \<Rightarrow> Some (budget - 1)
         | JsBool _ \<Rightarrow> Some (budget - 1)
         | JsNumber n \<Rightarrow> if is_finite_number n then Some (budget - 1) else None
         | JsText s \<Rightarrow> if max_path_length < length s \<or> 0 \<in> set s then None else Some (budget - 1)
         | JsArray vs \<Rightarrow> if max_plain_array < length vs then None else plain_items px (depth + 1) vs (budget - 1)
         | JsObject plain ps \<Rightarrow>
             if \<not> plain \<or> max_plain_keys < length ps then None else plain_members px (depth + 1) ps (budget - 1)
         | _ \<Rightarrow> None))"
| "plain_items px depth [] budget = Some budget"
| "plain_items px depth (v # vs) budget =
     (case plain_data px depth v budget of None \<Rightarrow> None | Some b \<Rightarrow> plain_items px depth vs b)"
| "plain_members px depth [] budget = Some budget"
| "plain_members px depth ((k, Accessor_Property _) # ps) budget = None"
| "plain_members px depth ((k, Data_Property _ v) # ps) budget =
     (case plain_data px depth v budget of None \<Rightarrow> None | Some b \<Rightarrow> plain_members px depth ps b)"

text \<open>\<open>requirePlainRecord\<close>\<close>

definition plain_record :: "(jsvalue \<Rightarrow> bool) \<Rightarrow> jsvalue \<Rightarrow> properties option" where
  "plain_record px v = (case v of JsObject True ps \<Rightarrow> if px v then None else Some ps | _ \<Rightarrow> None)"

definition validated_record :: "(jsvalue \<Rightarrow> bool) \<Rightarrow> jsvalue \<Rightarrow> properties option" where
  "validated_record px v = (if plain_data px 0 v max_plain_nodes = None then None else plain_record px v)"

text \<open>\<open>ownValue\<close>: an absent property and an accessor are refused.\<close>

definition data_value :: "properties \<Rightarrow> string \<Rightarrow> jsvalue option" where
  "data_value ps k = (case map_of ps (js k) of Some (Data_Property _ v) \<Rightarrow> Some v | _ \<Rightarrow> None)"

definition limited_array :: "(jsvalue \<Rightarrow> bool) \<Rightarrow> jsvalue \<Rightarrow> nat \<Rightarrow> jsvalue list option" where
  "limited_array px v n = (case v of JsArray vs \<Rightarrow> if px v \<or> n < length vs then None else Some vs | _ \<Rightarrow> None)"

definition limited_text :: "jsvalue \<Rightarrow> nat \<Rightarrow> bool \<Rightarrow> jsstr option" where
  "limited_text v n allow_empty =
     (case v of
        JsText s \<Rightarrow> if \<not> allow_empty \<and> s = [] \<or> n < length s \<or> 0 \<in> set s then None else Some s
      | _ \<Rightarrow> None)"

definition text_field :: "properties \<Rightarrow> string \<Rightarrow> nat \<Rightarrow> jsstr option" where
  "text_field ps k n = Option.bind (data_value ps k) (\<lambda>v. limited_text v n False)"

definition free_text_field :: "properties \<Rightarrow> string \<Rightarrow> nat \<Rightarrow> jsstr option" where
  "free_text_field ps k n = Option.bind (data_value ps k) (\<lambda>v. limited_text v n True)"

definition word_char :: "16 word \<Rightarrow> bool" where
  "word_char c \<longleftrightarrow> ascii_letter c \<or> 0x30 \<le> unat c \<and> unat c \<le> 0x39"

text \<open>\<open>validateIdentifier\<close>\<close>

definition is_identifier :: "jsstr \<Rightarrow> bool" where
  "is_identifier s \<longleftrightarrow>
     (case s of
        [] \<Rightarrow> False
      | c # cs \<Rightarrow> word_char c \<and> list_all (\<lambda>d. word_char d \<or> d \<in> {0x2E, 0x5F, 0x3A, 0x2D}) cs)"

definition identifier_field :: "properties \<Rightarrow> string \<Rightarrow> nat \<Rightarrow> jsstr option" where
  "identifier_field ps k n =
     (case text_field ps k n of Some s \<Rightarrow> if is_identifier s then Some s else None | None \<Rightarrow> None)"

definition boolean_field :: "properties \<Rightarrow> string \<Rightarrow> bool option" where
  "boolean_field ps k = (case data_value ps k of Some (JsBool b) \<Rightarrow> Some b | _ \<Rightarrow> None)"

text \<open>A field that may be null: the inner None is the null.\<close>

definition nullable_field :: "properties \<Rightarrow> string \<Rightarrow> (jsvalue \<Rightarrow> 'a option) \<Rightarrow> 'a option option" where
  "nullable_field ps k f =
     (case data_value ps k of None \<Rightarrow> None | Some JsNull \<Rightarrow> Some None | Some v \<Rightarrow> map_option Some (f v))"

definition timestamp_of :: "jsvalue \<Rightarrow> int option" where
  "timestamp_of v = (case v of JsNumber (NInt i) \<Rightarrow> if safe_int i \<and> 0 \<le> i then Some i else None | _ \<Rightarrow> None)"

definition timestamp_field :: "properties \<Rightarrow> string \<Rightarrow> int option" where
  "timestamp_field ps k = Option.bind (data_value ps k) timestamp_of"

definition list_field ::
    "(jsvalue \<Rightarrow> bool) \<Rightarrow> properties \<Rightarrow> string \<Rightarrow> nat \<Rightarrow> (jsvalue \<Rightarrow> 'a option) \<Rightarrow> 'a list option" where
  "list_field px ps k n f =
     (case Option.bind (data_value ps k) (\<lambda>v. limited_array px v n) of None \<Rightarrow> None | Some vs \<Rightarrow> those (map f vs))"

section \<open>Models\<close>

definition normalize_effort :: "(jsvalue \<Rightarrow> bool) \<Rightarrow> jsvalue \<Rightarrow> reasoning_effort option" where
  "normalize_effort px v =
     (case plain_record px v of
        None \<Rightarrow> None
      | Some ps \<Rightarrow>
          (case (text_field ps ''reasoningEffort'' max_model_length,
                 free_text_field ps ''description'' max_description_length) of
             (Some e, Some d) \<Rightarrow> Some \<lparr>effort_name = e, effort_description = d\<rparr>
           | _ \<Rightarrow> None))"

definition normalize_tier :: "(jsvalue \<Rightarrow> bool) \<Rightarrow> jsvalue \<Rightarrow> service_tier option" where
  "normalize_tier px v =
     (case plain_record px v of
        None \<Rightarrow> None
      | Some ps \<Rightarrow>
          (case (identifier_field ps ''id'' max_model_length, text_field ps ''name'' max_name_length,
                 free_text_field ps ''description'' max_description_length) of
             (Some i, Some n, Some d) \<Rightarrow> Some \<lparr>tier_id = i, tier_name = n, tier_description = d\<rparr>
           | _ \<Rightarrow> None))"

definition modality_of :: "jsvalue \<Rightarrow> modality option" where
  "modality_of v =
     (if v = JsText (js ''text'') then Some Text_Modality
      else if v = JsText (js ''image'') then Some Image_Modality else None)"

text \<open>The texts and flags of a model, then its lists with the defaults that must occur in them.\<close>

definition model_texts :: "properties \<Rightarrow> (jsstr \<times> jsstr \<times> jsstr \<times> jsstr) option" where
  "model_texts ps =
     (case (identifier_field ps ''id'' max_id_length, identifier_field ps ''model'' max_model_length,
            text_field ps ''displayName'' max_name_length, free_text_field ps ''description'' max_description_length) of
        (Some i, Some m, Some n, Some d) \<Rightarrow> Some (i, m, n, d)
      | _ \<Rightarrow> None)"

definition model_flags :: "properties \<Rightarrow> (bool \<times> bool \<times> bool) option" where
  "model_flags ps =
     (case (boolean_field ps ''isDefault'', boolean_field ps ''hidden'', boolean_field ps ''supportsPersonality'') of
        (Some a, Some b, Some c) \<Rightarrow> Some (a, b, c)
      | _ \<Rightarrow> None)"

definition model_choices ::
    "(jsvalue \<Rightarrow> bool) \<Rightarrow> properties \<Rightarrow>
     (reasoning_effort list \<times> jsstr \<times> modality list \<times> service_tier list \<times> jsstr option) option" where
  "model_choices px ps =
     (case (list_field px ps ''supportedReasoningEfforts'' 32 (normalize_effort px),
            text_field ps ''defaultReasoningEffort'' max_model_length,
            list_field px ps ''inputModalities'' 4 modality_of,
            list_field px ps ''serviceTiers'' 32 (normalize_tier px),
            nullable_field ps ''defaultServiceTier'' (\<lambda>v. limited_text v max_model_length False)) of
        (Some es, Some e, Some ms, Some ts, Some t) \<Rightarrow>
          if list_ex (\<lambda>x. effort_name x = e) es
             \<and> (case t of None \<Rightarrow> True | Some i \<Rightarrow> list_ex (\<lambda>x. tier_id x = i) ts)
          then Some (es, e, ms, ts, t) else None
      | _ \<Rightarrow> None)"

definition normalize_model :: "(jsvalue \<Rightarrow> bool) \<Rightarrow> jsvalue \<Rightarrow> codex_model option" where
  "normalize_model px v =
     (case plain_record px v of
        None \<Rightarrow> None
      | Some ps \<Rightarrow>
          (case (model_texts ps, model_flags ps, model_choices px ps) of
             (Some (i, m, n, d), Some (def, hid, per), Some (es, e, ms, ts, t)) \<Rightarrow>
               Some \<lparr>model_id = i, model_model = m, model_display_name = n, model_description = d, model_default = def,
                     model_hidden = hid, model_modalities = ms, model_efforts = es, model_default_effort = e,
                     model_personality = per, model_tiers = ts, model_default_tier = t\<rparr>
           | _ \<Rightarrow> None))"

definition cursor_field :: "properties \<Rightarrow> string \<Rightarrow> jsstr option option" where
  "cursor_field ps k = nullable_field ps k (\<lambda>v. limited_text v max_cursor_length False)"

definition normalize_model_page :: "(jsvalue \<Rightarrow> bool) \<Rightarrow> jsvalue \<Rightarrow> model_page option" where
  "normalize_model_page px v =
     (case validated_record px v of
        None \<Rightarrow> None
      | Some ps \<Rightarrow>
          (case (list_field px ps ''data'' max_page_size (normalize_model px), cursor_field ps ''nextCursor'') of
             (Some ms, Some n) \<Rightarrow> Some \<lparr>page_models = ms, models_next = n\<rparr>
           | _ \<Rightarrow> None))"

section \<open>Threads\<close>

definition flag_of :: "jsvalue \<Rightarrow> active_flag option" where
  "flag_of v =
     (if v = JsText (js ''waitingOnApproval'') then Some Waiting_On_Approval
      else if v = JsText (js ''waitingOnUserInput'') then Some Waiting_On_Input else None)"

definition normalize_status :: "(jsvalue \<Rightarrow> bool) \<Rightarrow> jsvalue \<Rightarrow> thread_state option" where
  "normalize_status px v =
     (case plain_record px v of
        None \<Rightarrow> None
      | Some ps \<Rightarrow>
          (case text_field ps ''type'' 32 of
             None \<Rightarrow> None
           | Some t \<Rightarrow>
               if t = js ''notLoaded'' then Some \<lparr>state_kind = Not_Loaded, state_flags = []\<rparr>
               else if t = js ''idle'' then Some \<lparr>state_kind = Idle_Thread, state_flags = []\<rparr>
               else if t = js ''systemError'' then Some \<lparr>state_kind = System_Error, state_flags = []\<rparr>
               else if t \<noteq> js ''active'' then None
               else
                 case list_field px ps ''activeFlags'' 2 flag_of of
                   Some fs \<Rightarrow> if distinct fs then Some \<lparr>state_kind = Active_Thread, state_flags = fs\<rparr> else None
                 | None \<Rightarrow> None))"

definition thread_texts :: "properties \<Rightarrow> (jsstr \<times> jsstr \<times> jsstr option \<times> jsstr \<times> jsstr) option" where
  "thread_texts ps =
     (case (identifier_field ps ''id'' max_id_length, free_text_field ps ''preview'' max_preview_length,
            nullable_field ps ''name'' (\<lambda>v. limited_text v max_name_length True),
            identifier_field ps ''modelProvider'' max_model_length, text_field ps ''cwd'' max_path_length) of
        (Some i, Some p, Some n, Some m, Some c) \<Rightarrow> Some (i, p, n, m, c)
      | _ \<Rightarrow> None)"

definition thread_times :: "properties \<Rightarrow> (int \<times> int \<times> int option) option" where
  "thread_times ps =
     (case (timestamp_field ps ''createdAt'', timestamp_field ps ''updatedAt'', nullable_field ps ''recencyAt'' timestamp_of) of
        (Some c, Some u, Some r) \<Rightarrow> Some (c, u, r)
      | _ \<Rightarrow> None)"

definition normalize_thread :: "(jsvalue \<Rightarrow> bool) \<Rightarrow> jsvalue \<Rightarrow> thread_summary option" where
  "normalize_thread px v =
     (case plain_record px v of
        None \<Rightarrow> None
      | Some ps \<Rightarrow>
          if boolean_field ps ''ephemeral'' \<noteq> Some False then None
          else if Option.bind (data_value ps ''turns'') (\<lambda>v. limited_array px v max_plain_array) = None then None
          else
            (case (thread_texts ps, thread_times ps, Option.bind (data_value ps ''status'') (normalize_status px)) of
               (Some (i, p, n, m, c), Some (created, updated, recency), Some st) \<Rightarrow>
                 Some \<lparr>summary_id = i, summary_preview = p, summary_name = n, summary_provider = m,
                       summary_created = created, summary_updated = updated, summary_recency = recency,
                       summary_cwd = c, summary_status = st\<rparr>
             | _ \<Rightarrow> None))"

definition normalize_thread_page :: "(jsvalue \<Rightarrow> bool) \<Rightarrow> jsvalue \<Rightarrow> thread_page option" where
  "normalize_thread_page px v =
     (case validated_record px v of
        None \<Rightarrow> None
      | Some ps \<Rightarrow>
          (case (list_field px ps ''data'' max_page_size (normalize_thread px), cursor_field ps ''nextCursor'',
                 cursor_field ps ''backwardsCursor'') of
             (Some ts, Some n, Some b) \<Rightarrow> Some \<lparr>page_threads = ts, threads_next = n, threads_back = b\<rparr>
           | _ \<Rightarrow> None))"

definition normalize_thread_response :: "(jsvalue \<Rightarrow> bool) \<Rightarrow> jsvalue \<Rightarrow> thread_summary option" where
  "normalize_thread_response px v =
     Option.bind (validated_record px v) (\<lambda>ps. Option.bind (data_value ps ''thread'') (normalize_thread px))"

definition is_empty_response :: "(jsvalue \<Rightarrow> bool) \<Rightarrow> jsvalue \<Rightarrow> bool" where
  "is_empty_response px v \<longleftrightarrow> validated_record px v = Some []"

section \<open>Requests of the frontend\<close>

text \<open>\<open>requirePlainOptions\<close>\<close>

definition plain_thread_options :: "(jsvalue \<Rightarrow> bool) \<Rightarrow> string list \<Rightarrow> jsvalue \<Rightarrow> thread_error + properties" where
  "plain_thread_options px allowed v =
     (case plain_record px v of
        None \<Rightarrow> Inl Bad_Thread_Data
      | Some ps \<Rightarrow>
          if list_all (\<lambda>p. fst p \<in> set (map js allowed)) ps
             \<and> list_all (\<lambda>p. case snd p of Data_Property _ _ \<Rightarrow> True | Accessor_Property _ \<Rightarrow> False) ps
          then Inr ps else Inl Thread_Type_Error)"

text \<open>A property that is present must have a value of its type, also when the value is undefined.\<close>

definition optional_with :: "properties \<Rightarrow> string \<Rightarrow> (jsvalue \<Rightarrow> thread_error + 'a) \<Rightarrow> thread_error + 'a option" where
  "optional_with ps k f =
     (case data_value ps k of None \<Rightarrow> Inr None | Some v \<Rightarrow> and_then (f v) (\<lambda>x. Inr (Some x)))"

definition or_bad :: "'a option \<Rightarrow> thread_error + 'a" where
  "or_bad x = (case x of None \<Rightarrow> Inl Bad_Thread_Data | Some y \<Rightarrow> Inr y)"

definition optional_text :: "properties \<Rightarrow> string \<Rightarrow> nat \<Rightarrow> thread_error + jsstr option" where
  "optional_text ps k n = optional_with ps k (\<lambda>v. or_bad (limited_text v n False))"

definition optional_identifier :: "properties \<Rightarrow> string \<Rightarrow> nat \<Rightarrow> thread_error + jsstr option" where
  "optional_identifier ps k n =
     optional_with ps k (\<lambda>v. and_then (or_bad (limited_text v n False)) (\<lambda>s.
       if is_identifier s then Inr s else Inl Bad_Thread_Data))"

definition optional_page_size :: "properties \<Rightarrow> string \<Rightarrow> thread_error + int option" where
  "optional_page_size ps k =
     optional_with ps k (\<lambda>v.
       case v of
         JsNumber (NInt i) \<Rightarrow>
           if safe_int i \<and> 1 \<le> i \<and> i \<le> int max_page_size then Inr i else Inl Thread_Range_Error
       | _ \<Rightarrow> Inl Thread_Range_Error)"

definition optional_boolean :: "properties \<Rightarrow> string \<Rightarrow> thread_error + bool option" where
  "optional_boolean ps k =
     optional_with ps k (\<lambda>v. case v of JsBool b \<Rightarrow> Inr b | _ \<Rightarrow> Inl Thread_Type_Error)"

text \<open>\<open>requiredStandaloneIdentifier\<close>\<close>

definition standalone_identifier :: "jsvalue \<Rightarrow> thread_error + jsstr" where
  "standalone_identifier v =
     and_then (or_bad (limited_text v max_id_length False)) (\<lambda>s.
       if is_identifier s then Inr s else Inl Thread_Type_Error)"

section \<open>The working directory\<close>

text \<open>The functions of \<open>path.win32\<close> that are not in the library of the environment, \<open>parse(s).root\<close>, are a
  parameter.\<close>

definition path_root :: "path_style \<Rightarrow> (jsstr \<Rightarrow> jsstr) \<Rightarrow> jsstr \<Rightarrow> jsstr" where
  "path_root style win s =
     (case style of Win32 \<Rightarrow> win s | Posix \<Rightarrow> if posix_absolute s then [slash] else [])"

definition back_slashes :: "jsstr \<Rightarrow> jsstr" where
  "back_slashes s = map (\<lambda>c. if c = slash then backslash else c) s"

definition is_network_path :: "path_style \<Rightarrow> jsstr \<Rightarrow> bool" where
  "is_network_path style s \<longleftrightarrow>
     (case style of
        Win32 \<Rightarrow> take 2 (back_slashes s) = [backslash, backslash]
      | Posix \<Rightarrow> take 2 s = [slash, slash])"

definition is_qualified_path :: "path_style \<Rightarrow> (jsstr \<Rightarrow> jsstr) \<Rightarrow> jsstr \<Rightarrow> bool" where
  "is_qualified_path style win s \<longleftrightarrow>
     (case style of
        Posix \<Rightarrow> posix_absolute s
      | Win32 \<Rightarrow> (case win (back_slashes s) of [a, b, c] \<Rightarrow> ascii_letter a \<and> b = colon \<and> c = backslash | _ \<Rightarrow> False))"

definition normalize_workspace_cwd ::
    "path_library \<Rightarrow> path_style \<Rightarrow> (jsstr \<Rightarrow> jsstr) \<Rightarrow> properties \<Rightarrow> thread_error + jsstr" where
  "normalize_workspace_cwd paths style win ps =
     and_then (or_bad (text_field ps ''workspaceRoot'' max_path_length)) (\<lambda>root.
     and_then (optional_text ps ''cwd'' max_path_length) (\<lambda>given.
       let cwd = (case given of None \<Rightarrow> root | Some c \<Rightarrow> c) in
       if is_network_path style root \<or> is_network_path style cwd
          \<or> \<not> is_qualified_path style win root \<or> \<not> is_qualified_path style win cwd
       then Inl Thread_Type_Error
       else
         let normal_root = path_normalize paths root; normal_cwd = path_normalize paths cwd in
         if normal_root = path_root style win normal_root then Inl Thread_Type_Error
         else if \<not> is_within paths normal_root normal_cwd then Inl Thread_Type_Error
         else Inr normal_cwd))"

section \<open>Comparing threads\<close>

text \<open>\<open>threadEquals\<close> compares every field, so that it is equality. \<open>compareThreads\<close> orders by the time of the
  last update, the latest first, then by \<open>localeCompare\<close>, a parameter; the sort is stable.\<close>

definition thread_before :: "(jsstr \<Rightarrow> jsstr \<Rightarrow> int) \<Rightarrow> thread_summary \<Rightarrow> thread_summary \<Rightarrow> bool" where
  "thread_before collate s t \<longleftrightarrow>
     summary_updated t < summary_updated s
     \<or> summary_updated s = summary_updated t \<and> collate (summary_id s) (summary_id t) \<le> 0"

fun insert_thread :: "(jsstr \<Rightarrow> jsstr \<Rightarrow> int) \<Rightarrow> thread_summary \<Rightarrow> thread_summary list \<Rightarrow> thread_summary list" where
  "insert_thread collate s [] = [s]"
| "insert_thread collate s (t # ts) =
     (if thread_before collate s t then s # t # ts else t # insert_thread collate s ts)"

definition sort_threads :: "(jsstr \<Rightarrow> jsstr \<Rightarrow> int) \<Rightarrow> thread_summary list \<Rightarrow> thread_summary list" where
  "sort_threads collate ts = foldr (insert_thread collate) ts []"

end
