(* ===== verification/ThreadCache.thy ===== *)
theory ThreadCache
  imports ThreadData JsMap
begin

text \<open>
  The threads the coordinator knows (\<open>src/node/ride-codex-thread-coordinator.ts\<close>): summaries, the revisions
  at which they changed, statuses that came before their thread, and the tombstones of archived threads.
  Every table is bounded; an eviction raises the floor below which no operation may commit.
\<close>

section \<open>State\<close>

definition max_cached_threads :: nat where "max_cached_threads = 500"
definition max_tombstones :: nat where "max_tombstones = 512"
definition max_pending_statuses :: nat where "max_pending_statuses = 512"

record thread_cache =
  known_threads :: "(jsstr, thread_summary) jsmap"
  thread_revisions :: "(jsstr, nat) jsmap"
  status_revisions :: "(jsstr, nat) jsmap"
  early_statuses :: "(jsstr, thread_state \<times> nat) jsmap"
  archived_at :: "(jsstr, nat) jsmap"
  cache_revision :: nat
  eviction_floor :: nat
  selected_thread :: "jsstr option"
  selection_revision :: nat

definition empty_cache :: thread_cache where
  "empty_cache =
     \<lparr>known_threads = [], thread_revisions = [], status_revisions = [], early_statuses = [], archived_at = [],
      cache_revision = 0, eviction_floor = 0, selected_thread = None, selection_revision = 0\<rparr>"

section \<open>Small steps\<close>

text \<open>\<open>#nextStateRevision\<close>, whose result is the new revision.\<close>

definition next_revision :: "thread_cache \<Rightarrow> thread_cache" where
  "next_revision c = c\<lparr>cache_revision := cache_revision c + 1\<rparr>"

text \<open>\<open>#recordMetadataEviction\<close> for one revision.\<close>

definition evicted :: "nat option \<Rightarrow> thread_cache \<Rightarrow> thread_cache" where
  "evicted r c = (case r of None \<Rightarrow> c | Some n \<Rightarrow> c\<lparr>eviction_floor := max (eviction_floor c) n\<rparr>)"

definition select_in_cache :: "jsstr option \<Rightarrow> thread_cache \<Rightarrow> thread_cache" where
  "select_in_cache i c = c\<lparr>selected_thread := i, selection_revision := selection_revision c + 1\<rparr>"

text \<open>\<open>#trimThreads\<close>: the oldest thread that is not selected goes, with all that is known of it.\<close>

definition forget_thread :: "jsstr \<Rightarrow> thread_cache \<Rightarrow> thread_cache" where
  "forget_thread i c =
     (let r = (case map_get (thread_revisions c) i of None \<Rightarrow> cache_revision c | Some n \<Rightarrow> n);
          c1 = evicted (map_get (archived_at c) i) (evicted (map_option snd (map_get (early_statuses c) i))
                 (evicted (map_get (status_revisions c) i) (evicted (Some r) c)))
      in c1\<lparr>known_threads := map_delete (known_threads c) i, thread_revisions := map_delete (thread_revisions c) i,
            status_revisions := map_delete (status_revisions c) i, early_statuses := map_delete (early_statuses c) i,
            archived_at := map_delete (archived_at c) i\<rparr>)"

lemma evicted_fields [simp]:
  "known_threads (evicted r c) = known_threads c" "thread_revisions (evicted r c) = thread_revisions c"
  "status_revisions (evicted r c) = status_revisions c" "early_statuses (evicted r c) = early_statuses c"
  "archived_at (evicted r c) = archived_at c" "cache_revision (evicted r c) = cache_revision c"
  "selected_thread (evicted r c) = selected_thread c" "selection_revision (evicted r c) = selection_revision c"
  by (simp_all add: evicted_def split: option.split)

lemma forget_thread_less:
  "List.find P (map_keys (known_threads c)) = Some i \<Longrightarrow>
     length (known_threads (forget_thread i c)) < length (known_threads c)"
proof -
  assume "List.find P (map_keys (known_threads c)) = Some i"
  then have "i \<in> fst ` set (known_threads c)" by (auto simp: find_Some_iff map_keys_def dest: nth_mem)
  then show ?thesis
    by (auto simp: forget_thread_def Let_def map_delete_def intro!: length_filter_less)
qed

function trim_threads :: "thread_cache \<Rightarrow> thread_cache" where
  "trim_threads c =
     (if length (known_threads c) \<le> max_cached_threads then c
      else
        case List.find (\<lambda>i. Some i \<noteq> selected_thread c) (map_keys (known_threads c)) of
          None \<Rightarrow> c
        | Some i \<Rightarrow> trim_threads (forget_thread i c))"
  by pat_completeness auto
termination by (relation "measure (\<lambda>c. length (known_threads c))") (auto dest: forget_thread_less)

declare trim_threads.simps [simp del]

text \<open>The flag of the operations below: did anything visible change? A trim changes something exactly
  when there are too many threads.\<close>

definition trims :: "thread_cache \<Rightarrow> bool" where
  "trims c \<longleftrightarrow> max_cached_threads < length (known_threads c)"

section \<open>Operations\<close>

text \<open>\<open>#mergeThread\<close>: the answer of an operation that began at a revision.\<close>

definition later_than :: "nat \<Rightarrow> (jsstr, nat) jsmap \<Rightarrow> jsstr \<Rightarrow> bool" where
  "later_than r m i \<longleftrightarrow> (case map_get m i of None \<Rightarrow> False | Some n \<Rightarrow> r < n)"

definition merge_refused :: "thread_summary \<Rightarrow> nat \<Rightarrow> thread_cache \<Rightarrow> bool" where
  "merge_refused s r c \<longleftrightarrow>
     later_than r (archived_at c) (summary_id s) \<or> later_than r (thread_revisions c) (summary_id s)
     \<or> (case map_get (known_threads c) (summary_id s) of
           None \<Rightarrow> False | Some e \<Rightarrow> summary_updated s < summary_updated e)"

definition put_thread :: "thread_summary \<Rightarrow> thread_cache \<Rightarrow> thread_cache" where
  "put_thread s c =
     (if map_get (known_threads c) (summary_id s) = Some s then c
      else c\<lparr>known_threads := map_set (known_threads c) (summary_id s) s\<rparr>)"

text \<open>The thread is marked with the next revision; a status that came early is used up.\<close>

definition mark_thread :: "jsstr \<Rightarrow> bool \<Rightarrow> thread_cache \<Rightarrow> thread_cache" where
  "mark_thread i uses_status c =
     (let c1 = next_revision c; r = cache_revision c1;
          c2 = c1\<lparr>thread_revisions := map_set (thread_revisions c1) i r\<rparr>
      in if uses_status
         then c2\<lparr>early_statuses := map_delete (early_statuses c2) i, status_revisions := map_set (status_revisions c2) i r\<rparr>
         else c2)"

definition merge_thread :: "thread_summary \<Rightarrow> nat \<Rightarrow> thread_cache \<Rightarrow> bool \<times> thread_cache" where
  "merge_thread s r c =
     (if merge_refused s r c then (False, c)
      else
        let early = (case map_get (early_statuses c) (summary_id s) of
                       Some (st, n) \<Rightarrow> if r < n then Some st else None | None \<Rightarrow> None);
            candidate = (case early of None \<Rightarrow> s | Some st \<Rightarrow> s\<lparr>summary_status := st\<rparr>);
            c1 = mark_thread (summary_id s) (early \<noteq> None) (put_thread candidate c)
        in (trims c1 \<or> map_get (known_threads c) (summary_id s) \<noteq> Some candidate, trim_threads c1))"

text \<open>\<open>#mergeStartedNotification\<close>\<close>

definition merge_started :: "thread_summary \<Rightarrow> thread_cache \<Rightarrow> bool \<times> thread_cache" where
  "merge_started s c =
     (let i = summary_id s; existing = map_get (known_threads c) i; early = map_get (early_statuses c) i;
          newer = (case existing of None \<Rightarrow> False | Some e \<Rightarrow> summary_updated s < summary_updated e)
      in if map_has (archived_at c) i \<or> newer \<and> early = None then (False, c)
         else
           let base = (if newer then the existing else s);
               status = (case early of
                           Some (st, n) \<Rightarrow> st
                         | None \<Rightarrow> if existing \<noteq> None \<and> map_has (status_revisions c) i
                                   then summary_status (the existing) else summary_status base);
               candidate = base\<lparr>summary_status := status\<rparr>;
               c1 = mark_thread i (early \<noteq> None) (put_thread candidate c)
           in (trims c1 \<or> existing \<noteq> Some candidate, trim_threads c1))"

text \<open>\<open>#mergeStatusNotification\<close>: the oldest early statuses give way.\<close>

fun drop_oldest_statuses :: "nat \<Rightarrow> thread_cache \<Rightarrow> thread_cache" where
  "drop_oldest_statuses 0 c = c"
| "drop_oldest_statuses (Suc n) c =
     (case early_statuses c of
        [] \<Rightarrow> c
      | p # ps \<Rightarrow> drop_oldest_statuses n (evicted (Some (snd (snd p))) (c\<lparr>early_statuses := ps\<rparr>)))"

definition trim_statuses :: "thread_cache \<Rightarrow> thread_cache" where
  "trim_statuses c = drop_oldest_statuses (length (early_statuses c) - max_pending_statuses) c"

definition merge_status :: "jsstr \<Rightarrow> thread_state \<Rightarrow> thread_cache \<Rightarrow> bool \<times> thread_cache" where
  "merge_status i st c =
     (if map_has (archived_at c) i then (False, c)
      else
        let c1 = next_revision c; r = cache_revision c1
        in case map_get (known_threads c1) i of
             Some e \<Rightarrow>
               let c2 = c1\<lparr>thread_revisions := map_set (thread_revisions c1) i r,
                           status_revisions := map_set (status_revisions c1) i r\<rparr>
               in if summary_status e = st then (False, c2)
                  else (True, c2\<lparr>known_threads := map_set (known_threads c2) i (e\<lparr>summary_status := st\<rparr>)\<rparr>)
           | None \<Rightarrow>
               (False, trim_statuses
                  (c1\<lparr>early_statuses := map_set (map_delete (early_statuses c1) i) i (st, r)\<rparr>)))"

text \<open>\<open>#archiveThread\<close>\<close>

fun drop_oldest_tombstones :: "nat \<Rightarrow> thread_cache \<Rightarrow> thread_cache" where
  "drop_oldest_tombstones 0 c = c"
| "drop_oldest_tombstones (Suc n) c =
     (case archived_at c of
        [] \<Rightarrow> c
      | p # ps \<Rightarrow> drop_oldest_tombstones n (evicted (Some (snd p)) (c\<lparr>archived_at := ps\<rparr>)))"

definition trim_tombstones :: "thread_cache \<Rightarrow> thread_cache" where
  "trim_tombstones c = drop_oldest_tombstones (length (archived_at c) - max_tombstones) c"

definition archive_in_cache :: "jsstr \<Rightarrow> thread_cache \<Rightarrow> bool \<times> thread_cache" where
  "archive_in_cache i c =
     (let removed = map_has (known_threads c) i; selected = (selected_thread c = Some i);
          c1 = next_revision c;
          c2 = trim_tombstones (c1\<lparr>archived_at := map_set (map_delete (archived_at c1) i) i (cache_revision c1)\<rparr>);
          c3 = c2\<lparr>early_statuses := map_delete (early_statuses c2) i,
                  thread_revisions := map_delete (thread_revisions c2) i,
                  status_revisions := map_delete (status_revisions c2) i,
                  known_threads := map_delete (known_threads c2) i\<rparr>
      in (removed \<or> selected, if selected then select_in_cache None c3 else c3))"

text \<open>A new generation of the host: the revisions of the old one say nothing any more.\<close>

definition new_generation :: "thread_cache \<Rightarrow> thread_cache" where
  "new_generation c =
     (next_revision c)\<lparr>eviction_floor := 0, thread_revisions := [], status_revisions := [], early_statuses := [],
                       archived_at := []\<rparr>"

section \<open>Answers\<close>

record operation_context =
  context_lifecycle :: nat
  context_revision :: nat
  context_selection :: nat

text \<open>\<open>#commitThreadOperation\<close> after its guard on the life cycle.\<close>

definition commit_thread :: "thread_summary \<Rightarrow> operation_context \<Rightarrow> bool \<Rightarrow> thread_cache \<Rightarrow> bool \<times> thread_cache" where
  "commit_thread s ctx select c =
     (let m = merge_thread s (context_revision ctx) c; c1 = snd m;
          selects = (select \<and> context_selection ctx = selection_revision c1
                     \<and> map_has (known_threads c1) (summary_id s) \<and> selected_thread c1 \<noteq> Some (summary_id s));
          c2 = (if selects then select_in_cache (Some (summary_id s)) c1 else c1)
      in (fst m \<or> selects \<or> trims c2, trim_threads c2))"

text \<open>The commit of \<open>listThreads\<close>: a first page replaces the threads, unless something changed meanwhile.\<close>

definition merge_page :: "thread_summary list \<Rightarrow> nat \<Rightarrow> bool \<times> thread_cache \<Rightarrow> bool \<times> thread_cache" where
  "merge_page ts r = fold (\<lambda>s acc. let m = merge_thread s r (snd acc) in (fst m \<or> fst acc, snd m)) ts"

definition commit_page :: "thread_page \<Rightarrow> bool \<Rightarrow> operation_context \<Rightarrow> thread_cache \<Rightarrow> bool \<times> thread_cache" where
  "commit_page page first ctx c =
     (let start = (if first \<and> context_revision ctx = cache_revision c
                   then (known_threads c \<noteq> [], c\<lparr>known_threads := [], thread_revisions := [], status_revisions := []\<rparr>)
                   else (False, c));
          m = merge_page (page_threads page) (context_revision ctx) start;
          c1 = trim_threads (snd m);
          loses = (threads_next page = None \<and> selected_thread c1 \<noteq> None
                   \<and> \<not> map_has (known_threads c1) (the (selected_thread c1)))
      in (fst m \<or> trims (snd m) \<or> loses, if loses then select_in_cache None c1 else c1))"

end
