(* ===== verification/ThreadCoordinator.thy ===== *)
theory ThreadCoordinator
  imports ThreadCache
begin

text \<open>
  The thread coordinator (\<open>src/node/ride-codex-thread-coordinator.ts\<close>). Every asynchronous method is cut
  at its awaits: the table \<open>td_tasks\<close> holds what waits, and the event \<open>Thread_Resume\<close> lets it continue
  when the race it waits for is decided. The host, the path functions and \<open>localeCompare\<close> are the record
  \<open>thread_env\<close>; an answer of the host may depend on the number of questions asked before.
\<close>

section \<open>State\<close>

text \<open>\<open>ActiveThreadRequest\<close> of the call with the same key; its lease has that key, too. The keys in
  \<open>td_acquiring\<close> are those whose lease the host still owes; \<open>Thread_Lease_Given\<close> records that it came.\<close>

record active_request =
  request_generation :: "int option"
  request_released :: bool
  request_invalid :: "thread_error option"

definition new_request :: active_request where
  "new_request = \<lparr>request_generation = None, request_released = False, request_invalid = None\<rparr>"

text \<open>What a call does with the answer to its request. A refresh settles nothing.\<close>

datatype thread_call =
    List_Models
  | List_Threads bool bool nat operation_context
  | Start_Thread operation_context
  | Resume_Thread jsstr operation_context
  | Read_Thread jsstr operation_context
  | Archive_Thread jsstr nat
  | Refresh_Thread jsstr int nat operation_context

datatype request_stage =
    Awaits_Lease
  | Has_Lease int
  | Awaits_Response int
  | Has_Response int "jsvalue option"
  | Failed_Race thread_error
  | Request_Over "thread_error + jsvalue"

record thread_task =
  task_call :: thread_call
  task_method :: string
  task_params :: json
  task_lifecycle :: nat
  task_stage :: request_stage

datatype thread_result =
    Models_Result model_page | Threads_Result thread_page | Thread_Result thread_summary | No_Result

record thread_snapshot =
  snapshot_generation :: int
  snapshot_threads :: "thread_summary list"
  snapshot_selected :: "jsstr option"

datatype thread_effect =
    Thread_Lease_Asked nat
  | Thread_Lease_Given nat
  | Thread_Lease_Released nat
  | Thread_Requested nat string json
  | Conversations_Changed nat thread_snapshot
  | Thread_Call_Settled nat "thread_error + thread_result"

record threads =
  td_cache :: thread_cache
  td_clients :: "nat list"
  td_requests :: "(nat, active_request) jsmap"
  td_tracked :: "nat list"
  td_acquiring :: "nat list"
  td_generation :: int
  td_list_revision :: nat
  td_lifecycle :: nat
  td_refreshed :: int
  td_disposed :: bool
  td_tasks :: "(nat, thread_task) jsmap"
  td_next_key :: nat
  td_questions :: nat
  td_history :: "thread_effect list"

definition new_threads :: "int \<Rightarrow> threads" where
  "new_threads g =
     \<lparr>td_cache = empty_cache, td_clients = [], td_requests = [], td_tracked = [], td_acquiring = [], td_generation = g,
      td_list_revision = 0, td_lifecycle = 0, td_refreshed = 0, td_disposed = False, td_tasks = [], td_next_key = 0,
      td_questions = 0, td_history = []\<rparr>"

text \<open>What \<open>request\<close> of a lease does: it throws, returns a proxy, a value or settled promise, or a promise.
  An error of the host is no \<open>RideCodexConversationsError\<close>.\<close>

datatype host_answer = Host_Throws | Host_Proxy | Host_Value jsvalue | Host_Waits

record thread_env =
  denv_px :: "jsvalue \<Rightarrow> bool"
  denv_style :: path_style
  denv_paths :: path_library
  denv_root :: "jsstr \<Rightarrow> jsstr"
  denv_collate :: "jsstr \<Rightarrow> jsstr \<Rightarrow> int"
  denv_acquire :: "nat \<Rightarrow> bool"
  denv_request :: "nat \<Rightarrow> host_answer"

section \<open>Small steps\<close>

definition asked_thread :: "threads \<Rightarrow> threads" where
  "asked_thread b = b\<lparr>td_questions := td_questions b + 1\<rparr>"

definition log_thread :: "thread_effect \<Rightarrow> threads \<Rightarrow> threads" where
  "log_thread e b = b\<lparr>td_history := td_history b @ [e]\<rparr>"

definition settle_thread :: "nat \<Rightarrow> thread_error + thread_result \<Rightarrow> threads \<Rightarrow> threads" where
  "settle_thread k r b = log_thread (Thread_Call_Settled k r) (b\<lparr>td_tasks := map_delete (td_tasks b) k\<rparr>)"

definition put_thread_task :: "nat \<Rightarrow> thread_task \<Rightarrow> threads \<Rightarrow> threads" where
  "put_thread_task k t b = b\<lparr>td_tasks := map_set (td_tasks b) k t\<rparr>"

definition snapshot_of :: "thread_env \<Rightarrow> threads \<Rightarrow> thread_snapshot" where
  "snapshot_of env b =
     \<lparr>snapshot_generation = td_generation b,
      snapshot_threads = sort_threads (denv_collate env) (map snd (known_threads (td_cache b))),
      snapshot_selected = selected_thread (td_cache b)\<rparr>"

text \<open>\<open>#publish\<close>: a client that throws changes nothing.\<close>

definition publish_threads :: "thread_env \<Rightarrow> threads \<Rightarrow> threads" where
  "publish_threads env b =
     b\<lparr>td_history := td_history b @ map (\<lambda>c. Conversations_Changed c (snapshot_of env b)) (td_clients b)\<rparr>"

definition publish_if :: "thread_env \<Rightarrow> bool \<times> thread_cache \<Rightarrow> threads \<Rightarrow> threads" where
  "publish_if env m b =
     (let b1 = b\<lparr>td_cache := snd m\<rparr> in if fst m then publish_threads env b1 else b1)"

definition context_of :: "threads \<Rightarrow> operation_context" where
  "context_of b =
     \<lparr>context_lifecycle = td_lifecycle b, context_revision = cache_revision (td_cache b),
      context_selection = selection_revision (td_cache b)\<rparr>"

section \<open>Active requests\<close>

definition max_active_requests :: nat where "max_active_requests = 128"

definition request_of :: "nat \<Rightarrow> threads \<Rightarrow> active_request" where
  "request_of k b = (case map_get (td_requests b) k of None \<Rightarrow> new_request | Some r \<Rightarrow> r)"

definition put_request :: "nat \<Rightarrow> active_request \<Rightarrow> threads \<Rightarrow> threads" where
  "put_request k r b = b\<lparr>td_requests := map_set (td_requests b) k r\<rparr>"

text \<open>\<open>active.release\<close>, after which the request is no longer tracked.\<close>

definition release_request :: "nat \<Rightarrow> threads \<Rightarrow> threads" where
  "release_request k b =
     (let r = request_of k b; b1 = b\<lparr>td_tracked := removeAll k (td_tracked b)\<rparr> in
      if request_released r then b1
      else
        let b2 = put_request k (r\<lparr>request_released := True\<rparr>) b1
        in if request_generation r = None then b2 else log_thread (Thread_Lease_Released k) b2)"

text \<open>\<open>active.invalidate\<close>: a race that is not decided yet goes to the invalidation.\<close>

definition invalidate_request :: "nat \<Rightarrow> thread_error \<Rightarrow> threads \<Rightarrow> threads" where
  "invalidate_request k e b =
     (let r = request_of k b in
      if request_invalid r \<noteq> None then b
      else
        let b1 = put_request k (r\<lparr>request_invalid := Some e\<rparr>) b
        in case map_get (td_tasks b1) k of
             Some t \<Rightarrow>
               (case task_stage t of
                  Awaits_Lease \<Rightarrow> put_thread_task k (t\<lparr>task_stage := Failed_Race e\<rparr>) b1
                | Awaits_Response _ \<Rightarrow> put_thread_task k (t\<lparr>task_stage := Failed_Race e\<rparr>) b1
                | _ \<Rightarrow> b1)
           | None \<Rightarrow> b1)"

definition drop_request :: "thread_error \<Rightarrow> nat \<Rightarrow> threads \<Rightarrow> threads" where
  "drop_request e k b = release_request k (invalidate_request k e b)"

text \<open>The finally block of \<open>#request\<close>.\<close>

definition finish_request :: "nat \<Rightarrow> thread_task \<Rightarrow> thread_error + jsvalue \<Rightarrow> threads \<Rightarrow> threads" where
  "finish_request k t result b = put_thread_task k (t\<lparr>task_stage := Request_Over result\<rparr>) (release_request k b)"

text \<open>\<open>#request\<close> up to its first await; the limit is checked before its try block.\<close>

definition begin_request ::
    "thread_env \<Rightarrow> nat \<Rightarrow> thread_call \<Rightarrow> string \<Rightarrow> json \<Rightarrow> nat \<Rightarrow> threads \<Rightarrow> threads" where
  "begin_request env k call m params lifecycle b =
     (let t = \<lparr>task_call = call, task_method = m, task_params = params, task_lifecycle = lifecycle,
               task_stage = Awaits_Lease\<rparr>
      in if max_active_requests \<le> length (td_tracked b)
         then put_thread_task k (t\<lparr>task_stage := Request_Over (Inl Threads_Failed)\<rparr>) b
         else
           let b1 = put_request k new_request (b\<lparr>td_tracked := td_tracked b @ [k]\<rparr>);
               b2 = asked_thread (log_thread (Thread_Lease_Asked k) b1)
           in if denv_acquire env (td_questions b1)
             then put_thread_task k t (b2\<lparr>td_acquiring := td_acquiring b2 @ [k]\<rparr>)
              else finish_request k t (Inl Threads_Failed) b2)"

text \<open>\<open>#requireOperation\<close>\<close>

definition operation_error :: "nat \<Rightarrow> int \<Rightarrow> threads \<Rightarrow> thread_error option" where
  "operation_error lifecycle g b =
     (if td_disposed b then Some Threads_Disposed
      else if lifecycle \<noteq> td_lifecycle b \<or> g \<noteq> td_generation b then Some Thread_Superseded else None)"

text \<open>\<open>#request\<close> after its lease: the request is made, and its race may be decided at once.\<close>

definition request_with_lease :: "thread_env \<Rightarrow> nat \<Rightarrow> thread_task \<Rightarrow> int \<Rightarrow> threads \<Rightarrow> threads" where
  "request_with_lease env k t g b =
     (case operation_error (task_lifecycle t) g b of
        Some e \<Rightarrow> finish_request k t (Inl e) b
      | None \<Rightarrow>
          let b1 = asked_thread (log_thread (Thread_Requested k (task_method t) (task_params t)) b)
          in case denv_request env (td_questions b) of
               Host_Throws \<Rightarrow> finish_request k t (Inl Threads_Failed) b1
             | Host_Proxy \<Rightarrow> finish_request k t (Inl Bad_Thread_Data) b1
             | Host_Value v \<Rightarrow> put_thread_task k (t\<lparr>task_stage := Has_Response g (Some v)\<rparr>) b1
             | Host_Waits \<Rightarrow>
                 (case request_invalid (request_of k b1) of
                    Some e \<Rightarrow> put_thread_task k (t\<lparr>task_stage := Failed_Race e\<rparr>) b1
                  | None \<Rightarrow> put_thread_task k (t\<lparr>task_stage := Awaits_Response g\<rparr>) b1))"

definition request_answered :: "nat \<Rightarrow> thread_task \<Rightarrow> int \<Rightarrow> jsvalue option \<Rightarrow> threads \<Rightarrow> threads" where
  "request_answered k t g raw b =
     (case raw of
        None \<Rightarrow> finish_request k t (Inl Threads_Failed) b
      | Some v \<Rightarrow>
          (case operation_error (task_lifecycle t) g b of
             Some e \<Rightarrow> finish_request k t (Inl e) b
           | None \<Rightarrow> finish_request k t (Inr v) b))"

section \<open>The ends of the calls\<close>

definition commit_allowed :: "operation_context \<Rightarrow> threads \<Rightarrow> bool" where
  "commit_allowed ctx b \<longleftrightarrow>
     \<not> td_disposed b \<and> context_lifecycle ctx = td_lifecycle b
     \<and> eviction_floor (td_cache b) \<le> context_revision ctx"

text \<open>The answer to a call about one thread, with the identifier it must have.\<close>

definition thread_answer ::
    "thread_env \<Rightarrow> jsstr option \<Rightarrow> operation_context \<Rightarrow> bool \<Rightarrow> jsvalue \<Rightarrow> threads
     \<Rightarrow> (thread_error + thread_summary) \<times> threads" where
  "thread_answer env expected ctx select v b =
     (case normalize_thread_response (denv_px env) v of
        None \<Rightarrow> (Inl Bad_Thread_Data, b)
      | Some s \<Rightarrow>
          if expected \<noteq> None \<and> expected \<noteq> Some (summary_id s) then (Inl Bad_Thread_Data, b)
          else if \<not> commit_allowed ctx b then (Inl Thread_Superseded, b)
          else (Inr s, publish_if env (commit_thread s ctx select (td_cache b)) b))"

definition settle_answer :: "nat \<Rightarrow> (thread_error + thread_summary) \<times> threads \<Rightarrow> threads" where
  "settle_answer k a = settle_thread k (case fst a of Inl e \<Rightarrow> Inl e | Inr s \<Rightarrow> Inr (Thread_Result s)) (snd a)"

definition page_answer ::
    "thread_env \<Rightarrow> nat \<Rightarrow> bool \<Rightarrow> bool \<Rightarrow> nat \<Rightarrow> operation_context \<Rightarrow> jsvalue \<Rightarrow> threads \<Rightarrow> threads" where
  "page_answer env k first archived operation ctx v b =
     (case normalize_thread_page (denv_px env) v of
        None \<Rightarrow> settle_thread k (Inl Bad_Thread_Data) b
      | Some page \<Rightarrow>
          settle_thread k (Inr (Threads_Result page))
            (if \<not> archived \<and> operation = td_list_revision b
                \<and> context_selection ctx = selection_revision (td_cache b) \<and> \<not> td_disposed b
                \<and> eviction_floor (td_cache b) \<le> context_revision ctx
             then publish_if env (commit_page page first ctx (td_cache b)) b else b))"

definition archive_answer :: "thread_env \<Rightarrow> nat \<Rightarrow> jsstr \<Rightarrow> nat \<Rightarrow> jsvalue \<Rightarrow> threads \<Rightarrow> threads" where
  "archive_answer env k i lifecycle v b =
     (if \<not> is_empty_response (denv_px env) v then settle_thread k (Inl Bad_Thread_Data) b
      else
        settle_thread k (Inr No_Result)
          (if td_disposed b \<or> lifecycle \<noteq> td_lifecycle b then b
           else publish_if env (archive_in_cache i (td_cache b)) b))"

text \<open>The catch block of \<open>#refreshSelectedThread\<close>.\<close>

definition refresh_thread_failed :: "thread_env \<Rightarrow> jsstr \<Rightarrow> int \<Rightarrow> nat \<Rightarrow> threads \<Rightarrow> threads" where
  "refresh_thread_failed env i g selection b =
     (if \<not> td_disposed b \<and> td_generation b = g \<and> selection_revision (td_cache b) = selection
         \<and> selected_thread (td_cache b) = Some i
      then publish_if env (True, select_in_cache None (td_cache b)) b else b)"

definition drop_thread_task :: "nat \<Rightarrow> threads \<Rightarrow> threads" where
  "drop_thread_task k b = b\<lparr>td_tasks := map_delete (td_tasks b) k\<rparr>"

definition refresh_answer ::
    "thread_env \<Rightarrow> nat \<Rightarrow> jsstr \<Rightarrow> int \<Rightarrow> nat \<Rightarrow> operation_context \<Rightarrow> jsvalue \<Rightarrow> threads \<Rightarrow> threads" where
  "refresh_answer env k i g selection ctx v b =
     (let a = thread_answer env (Some i) ctx False v b
      in drop_thread_task k (case fst a of Inl _ \<Rightarrow> refresh_thread_failed env i g selection (snd a) | Inr _ \<Rightarrow> snd a))"

fun call_continues :: "thread_env \<Rightarrow> nat \<Rightarrow> thread_call \<Rightarrow> thread_error + jsvalue \<Rightarrow> threads \<Rightarrow> threads" where
  "call_continues env k (Refresh_Thread i g selection ctx) (Inl e) b =
     drop_thread_task k (refresh_thread_failed env i g selection b)"
| "call_continues env k call (Inl e) b = settle_thread k (Inl e) b"
| "call_continues env k List_Models (Inr v) b =
     settle_thread k
       (case normalize_model_page (denv_px env) v of None \<Rightarrow> Inl Bad_Thread_Data | Some p \<Rightarrow> Inr (Models_Result p)) b"
| "call_continues env k (List_Threads first archived operation ctx) (Inr v) b =
     page_answer env k first archived operation ctx v b"
| "call_continues env k (Start_Thread ctx) (Inr v) b = settle_answer k (thread_answer env None ctx True v b)"
| "call_continues env k (Resume_Thread i ctx) (Inr v) b = settle_answer k (thread_answer env (Some i) ctx True v b)"
| "call_continues env k (Read_Thread i ctx) (Inr v) b = settle_answer k (thread_answer env (Some i) ctx False v b)"
| "call_continues env k (Archive_Thread i lifecycle) (Inr v) b = archive_answer env k i lifecycle v b"
| "call_continues env k (Refresh_Thread i g selection ctx) (Inr v) b = refresh_answer env k i g selection ctx v b"

definition thread_resume :: "thread_env \<Rightarrow> nat \<Rightarrow> threads \<Rightarrow> threads" where
  "thread_resume env k b =
     (case map_get (td_tasks b) k of
        None \<Rightarrow> b
      | Some t \<Rightarrow>
          (case task_stage t of
             Awaits_Lease \<Rightarrow> b
           | Awaits_Response _ \<Rightarrow> b
           | Has_Lease g \<Rightarrow> request_with_lease env k t g b
           | Has_Response g raw \<Rightarrow> request_answered k t g raw b
           | Failed_Race e \<Rightarrow> finish_request k t (Inl e) b
           | Request_Over r \<Rightarrow> call_continues env k (task_call t) r b))"

end
