(* ===== verification/ThreadMachine.thy ===== *)
theory ThreadMachine
  imports ThreadCoordinator
begin

text \<open>
  The calls of the thread coordinator (\<open>src/node/ride-codex-thread-coordinator.ts\<close>), what the host tells
  it, and the step function over all events. Every call takes the next key; a call that is refused at once
  is settled in the same step.
\<close>

section \<open>Calls\<close>

definition new_call :: "threads \<Rightarrow> threads" where
  "new_call b = b\<lparr>td_next_key := td_next_key b + 1\<rparr>"

text \<open>\<open>requireUsable\<close>, then the check of the arguments; an error settles the call.\<close>

definition begin_thread_call :: "(thread_error + 'a) \<Rightarrow> (nat \<Rightarrow> 'a \<Rightarrow> threads \<Rightarrow> threads) \<Rightarrow> threads \<Rightarrow> threads" where
  "begin_thread_call args f b =
     (let k = td_next_key b; b1 = new_call b in
      if td_disposed b then settle_thread k (Inl Threads_Disposed) b1
      else case args of Inl e \<Rightarrow> settle_thread k (Inl e) b1 | Inr x \<Rightarrow> f k x b1)"

text \<open>The default argument \<open>{}\<close>.\<close>

definition options_or_empty :: "jsvalue \<Rightarrow> jsvalue" where
  "options_or_empty v = (if v = JsUndefined then JsObject True [] else v)"

text \<open>\<open>listModels\<close>\<close>

definition model_list_options :: "thread_env \<Rightarrow> jsvalue \<Rightarrow> thread_error + json" where
  "model_list_options env v =
     and_then (plain_thread_options (denv_px env) [''cursor'', ''limit'', ''includeHidden''] (options_or_empty v)) (\<lambda>ps.
     and_then (optional_text ps ''cursor'' max_cursor_length) (\<lambda>cursor.
     and_then (optional_page_size ps ''limit'') (\<lambda>limit.
     and_then (optional_boolean ps ''includeHidden'') (\<lambda>hidden.
       Inr (obj (optional_field ''cursor'' JStr cursor @ optional_field ''limit'' int_json limit
                 @ optional_field ''includeHidden'' JBool hidden))))))"

definition list_models :: "thread_env \<Rightarrow> jsvalue \<Rightarrow> threads \<Rightarrow> threads" where
  "list_models env v =
     begin_thread_call (model_list_options env v)
       (\<lambda>k params b. begin_request env k List_Models ''model/list'' params (td_lifecycle b) b)"

text \<open>\<open>listThreads\<close>\<close>

definition thread_list_options ::
    "thread_env \<Rightarrow> jsvalue \<Rightarrow> thread_error + jsstr option \<times> int option \<times> bool option" where
  "thread_list_options env v =
     and_then (plain_thread_options (denv_px env) [''cursor'', ''limit'', ''archived''] (options_or_empty v)) (\<lambda>ps.
     and_then (optional_text ps ''cursor'' max_cursor_length) (\<lambda>cursor.
     and_then (optional_page_size ps ''limit'') (\<lambda>limit.
     and_then (optional_boolean ps ''archived'') (\<lambda>archived. Inr (cursor, limit, archived)))))"

definition thread_list_params :: "jsstr option \<Rightarrow> int option \<Rightarrow> bool option \<Rightarrow> json" where
  "thread_list_params cursor limit archived =
     obj (optional_field ''cursor'' JStr cursor @ optional_field ''limit'' int_json limit
          @ optional_field ''archived'' JBool archived)"

definition list_threads :: "thread_env \<Rightarrow> jsvalue \<Rightarrow> threads \<Rightarrow> threads" where
  "list_threads env v =
     begin_thread_call (thread_list_options env v)
       (\<lambda>k (cursor, limit, archived) b.
          let b1 = b\<lparr>td_list_revision := td_list_revision b + 1\<rparr>
          in begin_request env k
               (List_Threads (cursor = None) (archived = Some True) (td_list_revision b1) (context_of b1))
               ''thread/list'' (thread_list_params cursor limit archived) (td_lifecycle b1) b1)"

text \<open>\<open>startThread\<close>\<close>

definition start_keys :: "string list" where
  "start_keys = [''workspaceRoot'', ''cwd'', ''model'', ''serviceTier'']"

definition place_and_model :: "thread_env \<Rightarrow> properties \<Rightarrow> thread_error + jsstr \<times> jsstr option \<times> jsstr option" where
  "place_and_model env ps =
     and_then (normalize_workspace_cwd (denv_paths env) (denv_style env) (denv_root env) ps) (\<lambda>cwd.
     and_then (optional_identifier ps ''model'' max_model_length) (\<lambda>model.
     and_then (optional_identifier ps ''serviceTier'' max_model_length) (\<lambda>tier. Inr (cwd, model, tier))))"

definition place_fields :: "jsstr \<Rightarrow> jsstr option \<Rightarrow> jsstr option \<Rightarrow> (string \<times> json) list" where
  "place_fields cwd model tier =
     [(''cwd'', JStr cwd)] @ optional_field ''model'' JStr model @ optional_field ''serviceTier'' JStr tier
     @ [(''sandbox'', JStr (js ''workspace-write'')), (''approvalPolicy'', JStr (js ''on-request''))]"

definition thread_start_options :: "thread_env \<Rightarrow> jsvalue \<Rightarrow> thread_error + json" where
  "thread_start_options env v =
     and_then (plain_thread_options (denv_px env) start_keys v) (\<lambda>ps.
     and_then (place_and_model env ps) (\<lambda>(cwd, model, tier).
       Inr (obj (place_fields cwd model tier @ [(''ephemeral'', JBool False)]))))"

definition start_thread_call :: "thread_env \<Rightarrow> jsvalue \<Rightarrow> threads \<Rightarrow> threads" where
  "start_thread_call env v =
     begin_thread_call (thread_start_options env v)
       (\<lambda>k params b.
          begin_request env k (Start_Thread (context_of b)) ''thread/start'' params (td_lifecycle b) b)"

text \<open>\<open>resumeThread\<close>\<close>

definition thread_resume_options :: "thread_env \<Rightarrow> jsvalue \<Rightarrow> thread_error + jsstr \<times> json" where
  "thread_resume_options env v =
     and_then (plain_thread_options (denv_px env) (''threadId'' # start_keys) v) (\<lambda>ps.
     and_then (or_bad (identifier_field ps ''threadId'' max_id_length)) (\<lambda>i.
     and_then (place_and_model env ps) (\<lambda>(cwd, model, tier).
       Inr (i, obj ([(''threadId'', JStr i)] @ place_fields cwd model tier)))))"

definition resume_thread_call :: "thread_env \<Rightarrow> jsvalue \<Rightarrow> threads \<Rightarrow> threads" where
  "resume_thread_call env v =
     begin_thread_call (thread_resume_options env v)
       (\<lambda>k (i, params) b.
          begin_request env k (Resume_Thread i (context_of b)) ''thread/resume'' params (td_lifecycle b) b)"

text \<open>\<open>readThread\<close> checks its argument before \<open>requireUsable\<close>.\<close>

definition read_params :: "jsstr \<Rightarrow> json" where
  "read_params i = obj [(''threadId'', JStr i), (''includeTurns'', JBool False)]"

definition read_thread_call :: "thread_env \<Rightarrow> jsvalue \<Rightarrow> threads \<Rightarrow> threads" where
  "read_thread_call env v b =
     (case standalone_identifier v of
        Inl e \<Rightarrow> settle_thread (td_next_key b) (Inl e) (new_call b)
      | Inr i \<Rightarrow>
          begin_thread_call (Inr i)
            (\<lambda>k i b. begin_request env k (Read_Thread i (context_of b)) ''thread/read'' (read_params i) (td_lifecycle b) b)
            b)"

text \<open>\<open>archiveThread\<close>\<close>

definition archive_thread_call :: "thread_env \<Rightarrow> jsvalue \<Rightarrow> threads \<Rightarrow> threads" where
  "archive_thread_call env v =
     begin_thread_call (standalone_identifier v)
       (\<lambda>k i b. begin_request env k (Archive_Thread i (td_lifecycle b)) ''thread/archive''
                  (obj [(''threadId'', JStr i)]) (td_lifecycle b) b)"

text \<open>\<open>selectThread\<close> settles at once. Nothing is selected after a call for an unknown thread.\<close>

definition select_thread :: "thread_env \<Rightarrow> jsstr option \<Rightarrow> threads \<Rightarrow> threads" where
  "select_thread env i b =
     publish_if env (selected_thread (td_cache b) \<noteq> i, select_in_cache i (td_cache b)) b"

definition select_thread_call :: "thread_env \<Rightarrow> jsvalue \<Rightarrow> threads \<Rightarrow> threads" where
  "select_thread_call env v =
     begin_thread_call (if v = JsNull then Inr None else and_then (standalone_identifier v) (\<lambda>i. Inr (Some i)))
       (\<lambda>k i b.
          if i \<noteq> None \<and> \<not> map_has (known_threads (td_cache b)) (the i)
          then settle_thread k (Inl Thread_Unavailable) (select_thread env None b)
          else settle_thread k (Inr No_Result) (select_thread env i b))"

section \<open>Leases and answers\<close>

definition valid_generation :: "int \<Rightarrow> bool" where
  "valid_generation g \<longleftrightarrow> safe_int g \<and> 0 \<le> g"

text \<open>The race for the lease, if it is still open, is decided.\<close>

definition lease_race :: "nat \<Rightarrow> request_stage \<Rightarrow> threads \<Rightarrow> threads" where
  "lease_race k st b =
     (case map_get (td_tasks b) k of
        Some t \<Rightarrow> if task_stage t = Awaits_Lease then put_thread_task k (t\<lparr>task_stage := st\<rparr>) b else b
      | None \<Rightarrow> b)"

text \<open>\<open>active.bind\<close>: a lease that nothing waits for is released.\<close>

definition bindable :: "active_request \<Rightarrow> bool" where
  "bindable r \<longleftrightarrow> request_invalid r = None \<and> \<not> request_released r \<and> request_generation r = None"

definition thread_lease_granted :: "nat \<Rightarrow> int \<Rightarrow> threads \<Rightarrow> threads" where
  "thread_lease_granted k g b =
     (if k \<notin> set (td_acquiring b) then b
      else
        let b1 = log_thread (Thread_Lease_Given k) (b\<lparr>td_acquiring := removeAll k (td_acquiring b)\<rparr>);
            r = request_of k b1
        in if \<not> valid_generation g
           then lease_race k (Failed_Race Threads_Failed) (log_thread (Thread_Lease_Released k) b1)
           else if \<not> bindable r
           then lease_race k (Failed_Race (if td_disposed b then Threads_Disposed else Thread_Superseded))
                  (log_thread (Thread_Lease_Released k) b1)
           else lease_race k (Has_Lease g) (put_request k (r\<lparr>request_generation := Some g\<rparr>) b1))"

definition thread_lease_denied :: "nat \<Rightarrow> threads \<Rightarrow> threads" where
  "thread_lease_denied k b =
     (if k \<notin> set (td_acquiring b) then b
      else lease_race k (Failed_Race Threads_Failed) (b\<lparr>td_acquiring := removeAll k (td_acquiring b)\<rparr>))"

text \<open>The promise of a request settles, with None for a rejection.\<close>

definition thread_response :: "nat \<Rightarrow> jsvalue option \<Rightarrow> threads \<Rightarrow> threads" where
  "thread_response k raw b =
     (case map_get (td_tasks b) k of
        Some t \<Rightarrow>
          (case task_stage t of
             Awaits_Response g \<Rightarrow> put_thread_task k (t\<lparr>task_stage := Has_Response g raw\<rparr>) b
           | _ \<Rightarrow> b)
      | None \<Rightarrow> b)"

section \<open>What the host tells\<close>

text \<open>\<open>#onNotification\<close>: a notification that cannot be read changes nothing.\<close>

definition started_notification :: "thread_env \<Rightarrow> jsvalue \<Rightarrow> thread_summary option" where
  "started_notification env v = normalize_thread_response (denv_px env) v"

definition status_notification :: "thread_env \<Rightarrow> jsvalue \<Rightarrow> (jsstr \<times> thread_state) option" where
  "status_notification env v =
     Option.bind (validated_record (denv_px env) v) (\<lambda>ps.
     Option.bind (identifier_field ps ''threadId'' max_id_length) (\<lambda>i.
     Option.bind (data_value ps ''status'') (\<lambda>s.
       map_option (Pair i) (normalize_status (denv_px env) s))))"

definition archived_notification :: "thread_env \<Rightarrow> jsvalue \<Rightarrow> jsstr option" where
  "archived_notification env v =
     Option.bind (validated_record (denv_px env) v) (\<lambda>ps. identifier_field ps ''threadId'' max_id_length)"

definition on_thread_notification :: "thread_env \<Rightarrow> jsstr \<Rightarrow> jsvalue \<Rightarrow> int \<Rightarrow> threads \<Rightarrow> threads" where
  "on_thread_notification env m v g b =
     (if td_disposed b \<or> \<not> safe_int g \<or> g \<noteq> td_generation b then b
      else if m = js ''thread/started'' then
        (case started_notification env v of None \<Rightarrow> b | Some s \<Rightarrow> publish_if env (merge_started s (td_cache b)) b)
      else if m = js ''thread/status/changed'' then
        (case status_notification env v of
           None \<Rightarrow> b | Some (i, st) \<Rightarrow> publish_if env (merge_status i st (td_cache b)) b)
      else if m = js ''thread/archived'' then
        (case archived_notification env v of
           None \<Rightarrow> b | Some i \<Rightarrow> publish_if env (archive_in_cache i (td_cache b)) b)
      else b)"

datatype thread_host_state =
    Host_Stopped | Host_Starting | Host_Ready | Host_Restarting | Host_Stopping | Host_Circuit_Open | Host_Disposed

definition host_invalid :: "thread_host_state \<Rightarrow> bool" where
  "host_invalid st \<longleftrightarrow> st \<in> {Host_Stopped, Host_Restarting, Host_Stopping, Host_Circuit_Open, Host_Disposed}"

text \<open>The three parts of \<open>#onHostStateChange\<close>: a new generation, the requests it makes useless, and the
  refresh of the selected thread, once for each generation.\<close>

definition advance_generation :: "thread_env \<Rightarrow> int \<Rightarrow> threads \<Rightarrow> threads" where
  "advance_generation env g b =
     (if td_generation b < g
      then publish_if env (True, new_generation (td_cache b)) (b\<lparr>td_generation := g, td_refreshed := 0\<rparr>)
      else b)"

definition useless_request :: "thread_host_state \<Rightarrow> threads \<Rightarrow> nat \<Rightarrow> bool" where
  "useless_request st b k \<longleftrightarrow>
     host_invalid st
     \<or> (case request_generation (request_of k b) of None \<Rightarrow> False | Some g \<Rightarrow> g \<noteq> td_generation b)"

definition drop_requests :: "thread_error \<Rightarrow> nat list \<Rightarrow> threads \<Rightarrow> threads" where
  "drop_requests e ks b = fold (drop_request e) ks b"

definition drop_useless :: "thread_host_state \<Rightarrow> threads \<Rightarrow> threads" where
  "drop_useless st b = drop_requests Thread_Superseded (filter (useless_request st b) (td_tracked b)) b"

definition refresh_selected :: "thread_env \<Rightarrow> thread_host_state \<Rightarrow> int \<Rightarrow> threads \<Rightarrow> threads" where
  "refresh_selected env st g b =
     (case selected_thread (td_cache b) of
        None \<Rightarrow> b
      | Some i \<Rightarrow>
          if st \<noteq> Host_Ready \<or> td_refreshed b = g then b
          else
            let k = td_next_key b; b1 = new_call (b\<lparr>td_refreshed := g\<rparr>)
            in begin_request env k
                 (Refresh_Thread i g (selection_revision (td_cache b1)) (context_of b1)) ''thread/read'' (read_params i)
                 (td_lifecycle b1) b1)"

definition on_thread_host_state :: "thread_env \<Rightarrow> thread_host_state \<Rightarrow> int \<Rightarrow> threads \<Rightarrow> threads" where
  "on_thread_host_state env st g b =
     (if td_disposed b \<or> \<not> safe_int g \<or> g < td_generation b then b
      else refresh_selected env st g (drop_useless st (advance_generation env g b)))"

section \<open>Clients and disposal\<close>

definition connect_thread_client :: "thread_env \<Rightarrow> nat \<Rightarrow> threads \<Rightarrow> threads" where
  "connect_thread_client env c b =
     (if td_disposed b then b
      else
        log_thread (Conversations_Changed c (snapshot_of env b))
          (if c \<in> set (td_clients b) then b else b\<lparr>td_clients := td_clients b @ [c]\<rparr>))"

definition disconnect_thread_client :: "nat \<Rightarrow> threads \<Rightarrow> threads" where
  "disconnect_thread_client c b = b\<lparr>td_clients := removeAll c (td_clients b)\<rparr>"

definition dispose_threads :: "threads \<Rightarrow> threads" where
  "dispose_threads b =
     (if td_disposed b then b
      else
        (drop_requests Threads_Disposed (td_tracked b)
          (b\<lparr>td_disposed := True, td_lifecycle := td_lifecycle b + 1, td_list_revision := td_list_revision b + 1\<rparr>))
          \<lparr>td_clients := []\<rparr>)"

section \<open>The step function\<close>

datatype thread_event =
    List_Models_Call jsvalue
  | List_Threads_Call jsvalue
  | Start_Thread_Call jsvalue
  | Resume_Thread_Call jsvalue
  | Read_Thread_Call jsvalue
  | Archive_Thread_Call jsvalue
  | Select_Thread_Call jsvalue
  | Thread_Lease_Granted nat int
  | Thread_Lease_Denied nat
  | Thread_Response nat "jsvalue option"
  | Thread_Resume nat
  | Thread_Notified jsstr jsvalue int
  | Thread_Host_State thread_host_state int
  | Thread_Connect nat
  | Thread_Disconnect nat
  | Dispose_Threads

fun thread_next :: "thread_env \<Rightarrow> threads \<Rightarrow> thread_event \<Rightarrow> threads" where
  "thread_next env b (List_Models_Call v) = list_models env v b"
| "thread_next env b (List_Threads_Call v) = list_threads env v b"
| "thread_next env b (Start_Thread_Call v) = start_thread_call env v b"
| "thread_next env b (Resume_Thread_Call v) = resume_thread_call env v b"
| "thread_next env b (Read_Thread_Call v) = read_thread_call env v b"
| "thread_next env b (Archive_Thread_Call v) = archive_thread_call env v b"
| "thread_next env b (Select_Thread_Call v) = select_thread_call env v b"
| "thread_next env b (Thread_Lease_Granted k g) = thread_lease_granted k g b"
| "thread_next env b (Thread_Lease_Denied k) = thread_lease_denied k b"
| "thread_next env b (Thread_Response k raw) = thread_response k raw b"
| "thread_next env b (Thread_Resume k) = thread_resume env k b"
| "thread_next env b (Thread_Notified m v g) = on_thread_notification env m v g b"
| "thread_next env b (Thread_Host_State st g) = on_thread_host_state env st g b"
| "thread_next env b (Thread_Connect c) = connect_thread_client env c b"
| "thread_next env b (Thread_Disconnect c) = disconnect_thread_client c b"
| "thread_next env b Dispose_Threads = dispose_threads b"

definition thread_step :: "thread_env \<Rightarrow> threads \<Rightarrow> thread_event \<Rightarrow> threads \<times> thread_effect list" where
  "thread_step env b e = (thread_next env b e, drop (length (td_history b)) (td_history (thread_next env b e)))"

end
