(* ===== verification/ThreadFacts.thy ===== *)
theory ThreadFacts
  imports ThreadMachine
begin

text \<open>
  The table of threads: its well-formedness with the bounds of all five maps, kept by every operation on
  it, the effect of an archive on answers that are older, and of a complete first page.
\<close>

section \<open>Well-formed tables\<close>

definition revisions_below :: "nat \<Rightarrow> (jsstr, nat) jsmap \<Rightarrow> bool" where
  "revisions_below r m \<longleftrightarrow> (\<forall>i n. map_get m i = Some n \<longrightarrow> n \<le> r)"

definition filed_by_id :: "(jsstr, thread_summary) jsmap \<Rightarrow> bool" where
  "filed_by_id m \<longleftrightarrow> (\<forall>i s. map_get m i = Some s \<longrightarrow> summary_id s = i)"

definition keys_within :: "('k, 'a) jsmap \<Rightarrow> ('k, 'b) jsmap \<Rightarrow> bool" where
  "keys_within m m' \<longleftrightarrow> (\<forall>i. map_has m i \<longrightarrow> map_has m' i)"

definition early_below :: "nat \<Rightarrow> (jsstr, thread_state \<times> nat) jsmap \<Rightarrow> bool" where
  "early_below r m \<longleftrightarrow> (\<forall>i st n. map_get m i = Some (st, n) \<longrightarrow> n \<le> r)"

lemma revisions_below_simps [simp]:
  "revisions_below r []"
  "revisions_below r m \<Longrightarrow> revisions_below r (map_delete m i)"
  "revisions_below r m \<Longrightarrow> n \<le> r \<Longrightarrow> revisions_below r (map_set m i n)"
  by (auto simp: revisions_below_def map_get_delete map_get_set) (simp add: map_get_def)

lemma revisions_below_mono: "revisions_below r m \<Longrightarrow> r \<le> r' \<Longrightarrow> revisions_below r' m"
  by (auto simp: revisions_below_def dest: order_trans)

lemma early_below_simps [simp]:
  "early_below r []"
  "early_below r m \<Longrightarrow> early_below r (map_delete m i)"
  "early_below r m \<Longrightarrow> n \<le> r \<Longrightarrow> early_below r (map_set m i (st, n))"
  by (auto simp: early_below_def map_get_delete map_get_set) (simp add: map_get_def)

lemma early_below_mono: "early_below r m \<Longrightarrow> r \<le> r' \<Longrightarrow> early_below r' m"
  unfolding early_below_def by (meson order_trans)

lemma filed_by_id_simps [simp]:
  "filed_by_id []"
  "filed_by_id m \<Longrightarrow> filed_by_id (map_delete m i)"
  "filed_by_id m \<Longrightarrow> summary_id s = i \<Longrightarrow> filed_by_id (map_set m i s)"
  by (auto simp: filed_by_id_def map_get_delete map_get_set) (simp add: map_get_def)

lemma keys_within_simps [simp]:
  "keys_within [] m'"
  "keys_within m m' \<Longrightarrow> keys_within (map_delete m i) (map_delete m' i)"
  "keys_within m m' \<Longrightarrow> keys_within (map_set m i v) (map_set m' i w)"
  "keys_within m m' \<Longrightarrow> keys_within m (map_set m' i w)"
  "keys_within m m' \<Longrightarrow> map_has m' i \<Longrightarrow> keys_within (map_set m i v) m'"
  by (auto simp: keys_within_def) (simp add: map_has_def)

definition tables_ok :: "thread_cache \<Rightarrow> bool" where
  "tables_ok c \<longleftrightarrow>
     map_ok (known_threads c) \<and> map_ok (thread_revisions c) \<and> map_ok (status_revisions c)
     \<and> map_ok (early_statuses c) \<and> map_ok (archived_at c) \<and> filed_by_id (known_threads c)
     \<and> keys_within (thread_revisions c) (known_threads c) \<and> keys_within (status_revisions c) (known_threads c)"

definition revisions_ok :: "thread_cache \<Rightarrow> bool" where
  "revisions_ok c \<longleftrightarrow>
     revisions_below (cache_revision c) (thread_revisions c) \<and> revisions_below (cache_revision c) (status_revisions c)
     \<and> early_below (cache_revision c) (early_statuses c) \<and> revisions_below (cache_revision c) (archived_at c)
     \<and> eviction_floor c \<le> cache_revision c"

definition waiting_bounded :: "thread_cache \<Rightarrow> bool" where
  "waiting_bounded c \<longleftrightarrow>
     length (early_statuses c) \<le> max_pending_statuses \<and> length (archived_at c) \<le> max_tombstones"

text \<open>The part that also holds between an insertion and its trim, and the whole.\<close>

definition cache_sound :: "thread_cache \<Rightarrow> bool" where
  "cache_sound c \<longleftrightarrow> tables_ok c \<and> revisions_ok c \<and> waiting_bounded c"

definition thread_cache_ok :: "thread_cache \<Rightarrow> bool" where
  "thread_cache_ok c \<longleftrightarrow> cache_sound c \<and> length (known_threads c) \<le> max_cached_threads"

lemmas cache_parts = cache_sound_def tables_ok_def revisions_ok_def waiting_bounded_def

lemma empty_cache_ok [simp]: "thread_cache_ok empty_cache"
  by (simp add: thread_cache_ok_def cache_parts empty_cache_def map_ok_def map_keys_def)

section \<open>Small steps\<close>

lemma map_delete_length: "length (map_delete m i) \<le> length m"
  by (simp add: map_delete_def)

lemma length_map_set: "length (map_set m i v) = (if map_has m i then length m else length m + 1)"
  by (simp add: map_set_def)

lemma map_has_Some: "map_get m i = Some v \<Longrightarrow> map_has m i"
  by (simp add: map_has_get)

lemma evicted_floor: "eviction_floor (evicted r c) = (case r of None \<Rightarrow> eviction_floor c | Some n \<Rightarrow> max (eviction_floor c) n)"
  by (simp add: evicted_def split: option.split)

lemma evicted_grows: "eviction_floor c \<le> eviction_floor (evicted r c)"
  by (simp add: evicted_floor split: option.split)

lemma evicted_reaches: "n \<le> eviction_floor (evicted (Some n) c)"
  by (simp add: evicted_floor)

lemma evicted_below:
  "eviction_floor c \<le> k \<Longrightarrow> (\<And>n. r = Some n \<Longrightarrow> n \<le> k) \<Longrightarrow> eviction_floor (evicted r c) \<le> k"
  by (simp add: evicted_floor split: option.split)

lemma forget_thread_floor_is:
  "eviction_floor (forget_thread i c) =
     eviction_floor (evicted (map_get (archived_at c) i) (evicted (map_option snd (map_get (early_statuses c) i))
       (evicted (map_get (status_revisions c) i)
         (evicted (Some (case map_get (thread_revisions c) i of None \<Rightarrow> cache_revision c | Some n \<Rightarrow> n)) c))))"
  by (simp add: forget_thread_def Let_def)

lemma forget_thread_floor:
  "eviction_floor c \<le> eviction_floor (forget_thread i c)"
  "map_get (archived_at c) i = Some n \<Longrightarrow> n \<le> eviction_floor (forget_thread i c)"
  unfolding forget_thread_floor_is
  by (intro order_trans [OF _ evicted_grows] order_refl) (simp add: evicted_reaches)

lemma forget_thread_fields [simp]:
  "known_threads (forget_thread i c) = map_delete (known_threads c) i"
  "archived_at (forget_thread i c) = map_delete (archived_at c) i"
  "thread_revisions (forget_thread i c) = map_delete (thread_revisions c) i"
  "status_revisions (forget_thread i c) = map_delete (status_revisions c) i"
  "early_statuses (forget_thread i c) = map_delete (early_statuses c) i"
  "cache_revision (forget_thread i c) = cache_revision c"
  "selected_thread (forget_thread i c) = selected_thread c"
  "selection_revision (forget_thread i c) = selection_revision c"
  by (simp_all add: forget_thread_def Let_def)

lemma forget_thread_sound:
  assumes "cache_sound c"
  shows "cache_sound (forget_thread i c)"
proof -
  have "eviction_floor (forget_thread i c) \<le> cache_revision c"
    using assms unfolding forget_thread_floor_is
    by (intro evicted_below) (auto simp: cache_parts revisions_below_def early_below_def split: option.splits)
  then show ?thesis
    using assms map_delete_length [of "early_statuses c" i] map_delete_length [of "archived_at c" i]
    by (auto simp: cache_parts intro: jsmap.ok_remove)
qed

lemma trim_threads_rec:
  assumes "\<And>c i. P c \<Longrightarrow> P (forget_thread i c)" "P c"
  shows "P (trim_threads c)"
  using assms(2)
proof (induction c rule: trim_threads.induct)
  case (1 c)
  show ?case
  proof (cases "length (known_threads c) \<le> max_cached_threads")
    case True
    with 1 show ?thesis by (subst trim_threads.simps) simp
  next
    case False
    show ?thesis
    proof (cases "List.find (\<lambda>i. Some i \<noteq> selected_thread c) (map_keys (known_threads c))")
      case None
      with False 1 show ?thesis by (subst trim_threads.simps) simp
    next
      case (Some i)
      from 1(1) [OF False Some assms(1) [OF 1(2)]] False Some show ?thesis
        by (subst trim_threads.simps) simp
    qed
  qed
qed

lemma trim_threads_sound: "cache_sound c \<Longrightarrow> cache_sound (trim_threads c)"
  by (rule trim_threads_rec) (auto intro: forget_thread_sound)

text \<open>Two different keys cannot both be the selected one, so that the trim never gets stuck.\<close>

lemma all_selected:
  assumes "distinct ks" "List.find (\<lambda>i. Some i \<noteq> x) ks = None"
  shows "length ks \<le> 1"
proof (cases ks)
  case (Cons a ls)
  with assms show ?thesis by (cases ls) (auto simp: find_None_iff simp del: find.simps)
qed simp

lemma trim_threads_bounded:
  "map_ok (known_threads c) \<Longrightarrow> length (known_threads (trim_threads c)) \<le> max_cached_threads"
proof (induction c rule: trim_threads.induct)
  case (1 c)
  show ?case
  proof (cases "length (known_threads c) \<le> max_cached_threads")
    case True
    then show ?thesis by (subst trim_threads.simps) simp
  next
    case False
    show ?thesis
    proof (cases "List.find (\<lambda>i. Some i \<noteq> selected_thread c) (map_keys (known_threads c))")
      case None
      with 1(2) have "length (known_threads c) \<le> 1"
        using all_selected [of "map_keys (known_threads c)"] by (simp add: map_ok_def)
      with False show ?thesis by (simp add: max_cached_threads_def)
    next
      case (Some i)
      from 1(2) have "map_ok (known_threads (forget_thread i c))" by (simp add: jsmap.ok_remove)
      from 1(1) [OF False Some this] False Some show ?thesis by (subst trim_threads.simps) simp
    qed
  qed
qed

lemma trim_threads_ok: "cache_sound c \<Longrightarrow> thread_cache_ok (trim_threads c)"
  unfolding thread_cache_ok_def
  by (intro conjI trim_threads_sound trim_threads_bounded) (simp_all add: cache_parts)

lemma trim_threads_id: "length (known_threads c) \<le> max_cached_threads \<Longrightarrow> trim_threads c = c"
  by (subst trim_threads.simps) simp

lemma map_get_tail: "map_ok (p # ps) \<Longrightarrow> map_get ps i = Some x \<Longrightarrow> map_get (p # ps) i = Some x"
  by (cases p) (auto simp: map_ok_def map_keys_def map_get_def dest: map_of_SomeD intro: rev_image_eqI)

lemma map_ok_tail: "map_ok (p # ps) \<Longrightarrow> map_ok ps"
  by (simp add: map_ok_def map_keys_def)

section \<open>Every operation keeps the table well-formed\<close>

lemma next_revision_sound: "cache_sound c \<Longrightarrow> cache_sound (next_revision c)"
  by (auto simp: cache_parts next_revision_def elim!: revisions_below_mono early_below_mono)

lemma put_thread_fields [simp]:
  "map_has (known_threads (put_thread s c)) i \<longleftrightarrow> i = summary_id s \<or> map_has (known_threads c) i"
  "map_get (known_threads (put_thread s c)) i = (if i = summary_id s then Some s else map_get (known_threads c) i)"
  "archived_at (put_thread s c) = archived_at c" "eviction_floor (put_thread s c) = eviction_floor c"
  "cache_revision (put_thread s c) = cache_revision c" "selected_thread (put_thread s c) = selected_thread c"
  "selection_revision (put_thread s c) = selection_revision c"
  by (auto simp: put_thread_def map_get_set dest: map_has_Some)

lemma put_thread_sound: "cache_sound c \<Longrightarrow> cache_sound (put_thread s c)"
  by (auto simp: put_thread_def cache_parts intro: jsmap.ok_put)

lemma mark_thread_fields [simp]:
  "known_threads (mark_thread i u c) = known_threads c" "archived_at (mark_thread i u c) = archived_at c"
  "eviction_floor (mark_thread i u c) = eviction_floor c" "cache_revision (mark_thread i u c) = cache_revision c + 1"
  "selected_thread (mark_thread i u c) = selected_thread c"
  "selection_revision (mark_thread i u c) = selection_revision c"
  by (simp_all add: mark_thread_def next_revision_def Let_def)

lemma mark_thread_sound:
  assumes "cache_sound c" "map_has (known_threads c) i"
  shows "cache_sound (mark_thread i u c)"
proof -
  have n: "cache_sound (next_revision c)" by (rule next_revision_sound [OF assms(1)])
  have k: "known_threads (next_revision c) = known_threads c" by (simp add: next_revision_def)
  show ?thesis
    using n assms(2) map_delete_length [of "early_statuses (next_revision c)" i]
    by (auto simp: mark_thread_def Let_def cache_parts k intro: jsmap.ok_put jsmap.ok_remove)
qed

lemma merge_thread_ok:
  assumes "thread_cache_ok c"
  shows "thread_cache_ok (snd (merge_thread s r c))"
proof -
  have "thread_cache_ok (trim_threads (mark_thread (summary_id s) u (put_thread s' c)))"
    if "summary_id s' = summary_id s" for u s'
    using assms that by (intro trim_threads_ok mark_thread_sound put_thread_sound) (simp_all add: thread_cache_ok_def)
  with assms show ?thesis by (simp add: merge_thread_def Let_def split: option.splits prod.splits)
qed

lemma merge_started_ok:
  assumes "thread_cache_ok c"
  shows "thread_cache_ok (snd (merge_started s c))"
proof -
  have t: "thread_cache_ok (trim_threads (mark_thread (summary_id s) u (put_thread s' c)))"
    if "summary_id s' = summary_id s" for u s'
    using assms that by (intro trim_threads_ok mark_thread_sound put_thread_sound) (simp_all add: thread_cache_ok_def)
  have i: "summary_id x = summary_id s" if "map_get (known_threads c) (summary_id s) = Some x" for x
    using assms that by (auto simp: thread_cache_ok_def cache_parts filed_by_id_def)
  show ?thesis
  proof (cases "map_get (known_threads c) (summary_id s)")
    case None
    with assms t show ?thesis by (simp add: merge_started_def Let_def)
  next
    case (Some x)
    with assms t i [OF Some] show ?thesis by (simp add: merge_started_def Let_def)
  qed
qed

lemma drop_oldest_statuses_facts:
  "cache_sound c \<or> \<not> waiting_bounded c \<and> tables_ok c \<and> revisions_ok c \<Longrightarrow>
     tables_ok (drop_oldest_statuses n c) \<and> revisions_ok (drop_oldest_statuses n c)"
proof (induction n c rule: drop_oldest_statuses.induct)
  case (2 n c)
  show ?case
  proof (cases "early_statuses c")
    case Nil
    with 2 show ?thesis by (auto simp: cache_sound_def)
  next
    case (Cons p ps)
    let ?d = "evicted (Some (snd (snd p))) (c\<lparr>early_statuses := ps\<rparr>)"
    have c: "tables_ok c" "revisions_ok c" using 2 by (auto simp: cache_sound_def)
    have get: "map_get ps i = Some x \<Longrightarrow> map_get (early_statuses c) i = Some x" for i x
      using c Cons map_get_tail [of p ps] by (simp add: tables_ok_def)
    have "map_get (early_statuses c) (fst p) = Some (fst (snd p), snd (snd p))"
      using Cons by (cases p) (simp add: map_get_def)
    then have top: "snd (snd p) \<le> cache_revision c" using c unfolding revisions_ok_def early_below_def by blast
    have "tables_ok ?d" using c Cons map_ok_tail [of p ps] by (simp add: tables_ok_def)
    moreover have "early_below (cache_revision c) ps"
      using c get unfolding revisions_ok_def early_below_def by blast
    then have "revisions_ok ?d" using c top by (simp add: revisions_ok_def evicted_floor)
    ultimately show ?thesis using 2(1) [OF Cons] Cons by (auto simp: cache_sound_def)
  qed
qed (auto simp: cache_sound_def)

lemma drop_oldest_statuses_fields:
  "known_threads (drop_oldest_statuses n c) = known_threads c \<and> archived_at (drop_oldest_statuses n c) = archived_at c
   \<and> early_statuses (drop_oldest_statuses n c) = drop n (early_statuses c)
   \<and> cache_revision (drop_oldest_statuses n c) = cache_revision c
   \<and> eviction_floor c \<le> eviction_floor (drop_oldest_statuses n c)"
proof (induction n c rule: drop_oldest_statuses.induct)
  case (2 n c)
  then show ?case
    using evicted_grows order_trans by (fastforce simp: evicted_floor split: list.splits)
qed simp

lemma drop_oldest_tombstones_facts:
  "tables_ok c \<and> revisions_ok c \<Longrightarrow>
     tables_ok (drop_oldest_tombstones n c) \<and> revisions_ok (drop_oldest_tombstones n c)"
proof (induction n c rule: drop_oldest_tombstones.induct)
  case (2 n c)
  show ?case
  proof (cases "archived_at c")
    case Nil
    with 2 show ?thesis by simp
  next
    case (Cons p ps)
    let ?d = "evicted (Some (snd p)) (c\<lparr>archived_at := ps\<rparr>)"
    have c: "tables_ok c" "revisions_ok c" using 2 by auto
    have get: "map_get ps i = Some x \<Longrightarrow> map_get (archived_at c) i = Some x" for i x
      using c Cons map_get_tail [of p ps] by (simp add: tables_ok_def)
    have "map_get (archived_at c) (fst p) = Some (snd p)" using Cons by (cases p) (simp add: map_get_def)
    then have top: "snd p \<le> cache_revision c" using c unfolding revisions_ok_def revisions_below_def by blast
    have "tables_ok ?d" using c Cons map_ok_tail [of p ps] by (simp add: tables_ok_def)
    moreover have "revisions_below (cache_revision c) ps"
      using c get unfolding revisions_ok_def revisions_below_def by blast
    then have "revisions_ok ?d" using c top by (simp add: revisions_ok_def evicted_floor)
    ultimately show ?thesis using 2(1) [OF Cons] Cons by simp
  qed
qed auto

lemma drop_oldest_tombstones_fields:
  "known_threads (drop_oldest_tombstones n c) = known_threads c
   \<and> early_statuses (drop_oldest_tombstones n c) = early_statuses c
   \<and> thread_revisions (drop_oldest_tombstones n c) = thread_revisions c
   \<and> status_revisions (drop_oldest_tombstones n c) = status_revisions c
   \<and> archived_at (drop_oldest_tombstones n c) = drop n (archived_at c)
   \<and> cache_revision (drop_oldest_tombstones n c) = cache_revision c
   \<and> selected_thread (drop_oldest_tombstones n c) = selected_thread c
   \<and> selection_revision (drop_oldest_tombstones n c) = selection_revision c
   \<and> eviction_floor c \<le> eviction_floor (drop_oldest_tombstones n c)"
proof (induction n c rule: drop_oldest_tombstones.induct)
  case (2 n c)
  then show ?case
    using evicted_grows order_trans by (fastforce simp: evicted_floor split: list.splits)
qed simp

lemma merge_status_ok:
  assumes "thread_cache_ok c"
  shows "thread_cache_ok (snd (merge_status i st c))"
proof -
  let ?c1 = "next_revision c" and ?r = "cache_revision (next_revision c)"
  have n: "cache_sound ?c1" "length (known_threads ?c1) \<le> max_cached_threads"
    using assms next_revision_sound by (auto simp: thread_cache_ok_def) (simp add: next_revision_def)
  show ?thesis
  proof (cases "map_get (known_threads ?c1) i")
    case None
    let ?d = "?c1\<lparr>early_statuses := map_set (map_delete (early_statuses ?c1) i) i (st, ?r)\<rparr>"
    have "tables_ok ?d \<and> revisions_ok ?d"
      using n by (auto simp: cache_parts intro: jsmap.ok_put jsmap.ok_remove)
    then have "tables_ok (trim_statuses ?d) \<and> revisions_ok (trim_statuses ?d)"
      unfolding trim_statuses_def by (intro drop_oldest_statuses_facts) (auto simp: cache_sound_def)
    moreover have "waiting_bounded (trim_statuses ?d)"
      using n drop_oldest_statuses_fields by (simp add: trim_statuses_def cache_parts)
    moreover have "length (known_threads (trim_statuses ?d)) \<le> max_cached_threads"
      using n drop_oldest_statuses_fields by (simp add: trim_statuses_def)
    ultimately show ?thesis
      using None assms by (simp add: merge_status_def Let_def thread_cache_ok_def cache_sound_def)
  next
    case (Some e)
    then have h: "map_has (known_threads ?c1) i" by (rule map_has_Some)
    have i: "summary_id e = i" using n Some by (auto simp: cache_parts filed_by_id_def)
    show ?thesis
      using Some h i n assms
      by (auto simp: merge_status_def Let_def thread_cache_ok_def cache_parts length_map_set intro: jsmap.ok_put)
  qed
qed

lemma archive_in_cache_ok:
  assumes "thread_cache_ok c"
  shows "thread_cache_ok (snd (archive_in_cache i c))"
proof -
  let ?c1 = "next_revision c"
  let ?d = "?c1\<lparr>archived_at := map_set (map_delete (archived_at ?c1) i) i (cache_revision ?c1)\<rparr>"
  have n: "cache_sound ?c1" "length (known_threads ?c1) \<le> max_cached_threads"
    using assms next_revision_sound by (auto simp: thread_cache_ok_def) (simp add: next_revision_def)
  have "tables_ok ?d \<and> revisions_ok ?d"
    using n by (auto simp: cache_parts intro: jsmap.ok_put jsmap.ok_remove)
  then have "tables_ok (trim_tombstones ?d) \<and> revisions_ok (trim_tombstones ?d)"
    unfolding trim_tombstones_def by (rule drop_oldest_tombstones_facts)
  moreover have "waiting_bounded (trim_tombstones ?d)" "length (known_threads (trim_tombstones ?d)) \<le> max_cached_threads"
    using n drop_oldest_tombstones_fields by (simp_all add: trim_tombstones_def cache_parts)
  ultimately have "thread_cache_ok (trim_tombstones ?d)" by (simp add: thread_cache_ok_def cache_sound_def)
  then show ?thesis
    using map_delete_length [of "early_statuses (trim_tombstones ?d)" i]
      map_delete_length [of "known_threads (trim_tombstones ?d)" i]
    by (auto simp: archive_in_cache_def Let_def select_in_cache_def thread_cache_ok_def cache_parts
        intro: jsmap.ok_remove)
qed

lemma select_in_cache_ok: "thread_cache_ok c \<Longrightarrow> thread_cache_ok (select_in_cache i c)"
  by (simp add: thread_cache_ok_def cache_parts select_in_cache_def)

lemma new_generation_ok: "thread_cache_ok c \<Longrightarrow> thread_cache_ok (new_generation c)"
  by (simp add: thread_cache_ok_def cache_parts new_generation_def next_revision_def jsmap.ok_empty)

lemma trim_threads_keeps: "thread_cache_ok c \<Longrightarrow> trim_threads c = c"
  by (simp add: trim_threads_id thread_cache_ok_def)

lemma commit_thread_ok: "thread_cache_ok c \<Longrightarrow> thread_cache_ok (snd (commit_thread s ctx select c))"
  by (simp add: commit_thread_def Let_def trim_threads_keeps merge_thread_ok select_in_cache_ok)

lemma merge_page_ok: "thread_cache_ok (snd acc) \<Longrightarrow> thread_cache_ok (snd (merge_page ts r acc))"
  unfolding merge_page_def
  by (induction ts arbitrary: acc) (simp_all add: merge_thread_ok Let_def)

lemma commit_page_ok:
  assumes "thread_cache_ok c"
  shows "thread_cache_ok (snd (commit_page page first ctx c))"
proof -
  have "thread_cache_ok (c\<lparr>known_threads := [], thread_revisions := [], status_revisions := []\<rparr>)"
    using assms by (simp add: thread_cache_ok_def cache_parts jsmap.ok_empty)
  with assms show ?thesis
    by (simp add: commit_page_def Let_def trim_threads_keeps merge_page_ok select_in_cache_ok)
qed

lemmas cache_operations_ok [wf_intros] =
  merge_thread_ok merge_started_ok merge_status_ok archive_in_cache_ok select_in_cache_ok new_generation_ok
  commit_thread_ok commit_page_ok

end
