(* ===== verification/ThreadLedger.thy ===== *)
theory ThreadLedger
  imports ThreadFacts
begin

text \<open>
  The invariant of the thread coordinator and that every event keeps it: the table of threads is
  well-formed, no call is settled twice, every lease is held by a tracked request or was returned once,
  and every published snapshot is sorted and free of duplicates.
\<close>

section \<open>What the history tells\<close>

fun given_by :: "thread_effect \<Rightarrow> nat list" where
  "given_by (Thread_Lease_Given k) = [k]"
| "given_by _ = []"

fun returned_by :: "thread_effect \<Rightarrow> nat list" where
  "returned_by (Thread_Lease_Released k) = [k]"
| "returned_by _ = []"

fun settled_by :: "thread_effect \<Rightarrow> nat list" where
  "settled_by (Thread_Call_Settled k _) = [k]"
| "settled_by _ = []"

fun published_by :: "thread_effect \<Rightarrow> thread_snapshot list" where
  "published_by (Conversations_Changed _ s) = [s]"
| "published_by _ = []"

definition leases_given :: "threads \<Rightarrow> nat list" where
  "leases_given b = concat (map given_by (td_history b))"

definition leases_returned :: "threads \<Rightarrow> nat list" where
  "leases_returned b = concat (map returned_by (td_history b))"

definition calls_settled :: "threads \<Rightarrow> nat list" where
  "calls_settled b = concat (map settled_by (td_history b))"

definition publications :: "threads \<Rightarrow> thread_snapshot list" where
  "publications b = concat (map published_by (td_history b))"

section \<open>Leases\<close>

definition held :: "(nat, active_request) jsmap \<Rightarrow> nat \<Rightarrow> bool" where
  "held rq k \<longleftrightarrow>
     (case map_get rq k of None \<Rightarrow> False | Some r \<Rightarrow> request_generation r \<noteq> None \<and> \<not> request_released r)"

definition freed :: "(nat, active_request) jsmap \<Rightarrow> nat \<Rightarrow> bool" where
  "freed rq k \<longleftrightarrow> (case map_get rq k of None \<Rightarrow> False | Some r \<Rightarrow> request_released r)"

definition ledger_ok ::
    "(nat, active_request) jsmap \<Rightarrow> nat list \<Rightarrow> nat list \<Rightarrow> nat \<Rightarrow> nat list \<Rightarrow> nat list \<Rightarrow> bool" where
  "ledger_ok rq tr ac n gi re \<longleftrightarrow>
     distinct tr \<and> distinct ac \<and> distinct gi \<and> distinct re \<and> length tr \<le> max_active_requests
     \<and> (\<forall>k. k \<in> set tr \<or> k \<in> set ac \<or> k \<in> set gi \<or> map_has rq k \<longrightarrow> k < n)
     \<and> set re \<subseteq> set gi \<and> set gi \<inter> set ac = {}
     \<and> (\<forall>k. k \<in> set gi \<and> k \<notin> set re \<longleftrightarrow> held rq k) \<and> (\<forall>k. held rq k \<longrightarrow> k \<in> set tr)
     \<and> (\<forall>k\<in>set ac. freed rq k \<or> k \<in> set tr)"

lemma held_set: "held (map_set rq k r) j = (if j = k then request_generation r \<noteq> None \<and> \<not> request_released r else held rq j)"
  by (simp add: held_def map_get_set)

lemma freed_set: "freed (map_set rq k r) j = (if j = k then request_released r else freed rq j)"
  by (simp add: freed_def map_get_set)

lemma ledger_track:
  assumes "ledger_ok rq tr ac n gi re" "k < n" "k \<notin> set tr" "k \<notin> set gi" "length tr < max_active_requests"
  shows "ledger_ok (map_set rq k new_request) (tr @ [k]) ac n gi re"
proof -
  have "\<not> held rq k" using assms by (auto simp: ledger_ok_def)
  then show ?thesis using assms by (auto simp: ledger_ok_def held_set freed_set new_request_def)
qed

lemma ledger_ask:
  "ledger_ok rq tr ac n gi re \<Longrightarrow> k \<in> set tr \<Longrightarrow> k \<notin> set ac \<Longrightarrow> k \<notin> set gi \<Longrightarrow> ledger_ok rq tr (ac @ [k]) n gi re"
  by (auto simp: ledger_ok_def)

lemma removeAll_fits: "length xs \<le> n \<Longrightarrow> length (removeAll k xs) \<le> n"
  by (rule order_trans [OF length_removeAll_less_eq])

lemma ledger_release:
  assumes "ledger_ok rq tr ac n gi re" "k < n" "r = (case map_get rq k of None \<Rightarrow> new_request | Some r \<Rightarrow> r)"
    "\<not> request_released r"
  shows "ledger_ok (map_set rq k (r\<lparr>request_released := True\<rparr>)) (removeAll k tr) ac n gi
           (re @ (if request_generation r = None then [] else [k]))"
proof -
  have h: "held rq k \<longleftrightarrow> request_generation r \<noteq> None"
    using assms(3,4) by (auto simp: held_def new_request_def split: option.splits)
  show ?thesis
    using assms h
    by (auto simp: ledger_ok_def held_set freed_set distinct_removeAll removeAll_fits)
qed

lemma ledger_untrack:
  "ledger_ok rq tr ac n gi re \<Longrightarrow> freed rq k \<Longrightarrow> ledger_ok rq (removeAll k tr) ac n gi re"
  by (auto simp: ledger_ok_def held_def freed_def distinct_removeAll removeAll_fits split: option.splits)

lemma ledger_invalidate:
  assumes "ledger_ok rq tr ac n gi re" "k < n" "r = (case map_get rq k of None \<Rightarrow> new_request | Some r \<Rightarrow> r)"
  shows "ledger_ok (map_set rq k (r\<lparr>request_invalid := e\<rparr>)) tr ac n gi re"
proof -
  have "held (map_set rq k (r\<lparr>request_invalid := e\<rparr>)) j = held rq j"
    "freed (map_set rq k (r\<lparr>request_invalid := e\<rparr>)) j = freed rq j" for j
    unfolding assms(3)
    by (cases "map_get rq k"; simp add: held_def freed_def map_get_set new_request_def)+
  with assms show ?thesis by (auto simp: ledger_ok_def)
qed

lemma ledger_deny: "ledger_ok rq tr ac n gi re \<Longrightarrow> ledger_ok rq tr (removeAll k ac) n gi re"
  by (auto simp: ledger_ok_def distinct_removeAll)

lemma ledger_refuse:
  "ledger_ok rq tr ac n gi re \<Longrightarrow> k \<in> set ac \<Longrightarrow> ledger_ok rq tr (removeAll k ac) n (gi @ [k]) (re @ [k])"
  by (auto simp: ledger_ok_def distinct_removeAll)

lemma ledger_bind:
  assumes "ledger_ok rq tr ac n gi re" "k \<in> set ac" "\<not> request_released r"
    "r = (case map_get rq k of None \<Rightarrow> new_request | Some r \<Rightarrow> r)"
  shows "ledger_ok (map_set rq k (r\<lparr>request_generation := Some g\<rparr>)) tr (removeAll k ac) n (gi @ [k]) re"
proof -
  have "\<not> freed rq k" using assms(3,4) by (auto simp: freed_def split: option.splits)
  with assms show ?thesis by (auto simp: ledger_ok_def held_set freed_set distinct_removeAll)
qed

lemma ledger_later: "ledger_ok rq tr ac n gi re \<Longrightarrow> ledger_ok rq tr ac (n + 1) gi re"
  by (auto simp: ledger_ok_def less_Suc_eq)

section \<open>Sorted snapshots\<close>

definition newest_first :: "thread_summary list \<Rightarrow> bool" where
  "newest_first ts \<longleftrightarrow> sorted_wrt (\<lambda>s t. summary_updated t \<le> summary_updated s) ts"

lemma set_insert_thread [simp]: "set (insert_thread collate s ts) = insert s (set ts)"
  by (induction ts) auto

lemma length_insert_thread [simp]: "length (insert_thread collate s ts) = length ts + 1"
  by (induction ts) auto

lemma insert_thread_sorted: "newest_first ts \<Longrightarrow> newest_first (insert_thread collate s ts)"
  unfolding newest_first_def by (induction ts) (fastforce simp: thread_before_def)+

lemma distinct_insert_thread:
  "distinct (map summary_id ts) \<Longrightarrow> summary_id s \<notin> summary_id ` set ts \<Longrightarrow>
     distinct (map summary_id (insert_thread collate s ts))"
  by (induction ts) auto

lemma set_sort_threads [simp]: "set (sort_threads collate ts) = set ts"
  unfolding sort_threads_def by (induction ts) auto

lemma length_sort_threads [simp]: "length (sort_threads collate ts) = length ts"
  unfolding sort_threads_def by (induction ts) auto

lemma sort_threads_sorted: "newest_first (sort_threads collate ts)"
  unfolding sort_threads_def by (induction ts) (auto simp: newest_first_def [of "[]"] intro: insert_thread_sorted)

lemma distinct_sort_threads: "distinct (map summary_id ts) \<Longrightarrow> distinct (map summary_id (sort_threads collate ts))"
proof (induction ts)
  case (Cons s ts)
  have "set (foldr (insert_thread collate) ts []) = set ts"
    using set_sort_threads [of collate ts] by (simp add: sort_threads_def)
  with Cons show ?case by (auto simp: sort_threads_def intro!: distinct_insert_thread)
qed (simp add: sort_threads_def)

definition snapshot_ok :: "thread_snapshot \<Rightarrow> bool" where
  "snapshot_ok s \<longleftrightarrow>
     length (snapshot_threads s) \<le> max_cached_threads \<and> newest_first (snapshot_threads s)
     \<and> distinct (map summary_id (snapshot_threads s))"

lemma filed_map: "map_ok m \<Longrightarrow> filed_by_id m \<Longrightarrow> map summary_id (map snd m) = map_keys m"
proof -
  assume m: "map_ok m" "filed_by_id m"
  have "summary_id (snd p) = fst p" if "p \<in> set m" for p
  proof -
    have "map_get m (fst p) = Some (snd p)"
      using m(1) that by (cases p) (simp add: map_get_def map_ok_def map_keys_def)
    with m(2) show ?thesis by (simp add: filed_by_id_def)
  qed
  then show ?thesis by (simp add: map_keys_def)
qed

lemma snapshot_of_ok: "thread_cache_ok (td_cache b) \<Longrightarrow> snapshot_ok (snapshot_of env b)"
  unfolding snapshot_ok_def snapshot_of_def
  using filed_map [of "known_threads (td_cache b)"]
  by (auto simp: sort_threads_sorted thread_cache_ok_def cache_parts map_ok_def intro!: distinct_sort_threads)

end
