(* ===== verification/ThreadArchive.thy ===== *)
theory ThreadArchive
  imports ThreadFacts
begin

text \<open>
  What the table of threads remembers of an archived thread: its tombstone, or, once the tombstone had to
  give way, the floor below which no operation commits. Within a generation no operation loses both.
\<close>

section \<open>Buried threads\<close>

definition buried :: "jsstr \<Rightarrow> nat \<Rightarrow> thread_cache \<Rightarrow> bool" where
  "buried i a c \<longleftrightarrow>
     a \<le> eviction_floor c \<or> (case map_get (archived_at c) i of None \<Rightarrow> False | Some n \<Rightarrow> a \<le> n)"

definition entombed :: "jsstr \<Rightarrow> nat \<Rightarrow> thread_cache \<Rightarrow> bool" where
  "entombed i a c \<longleftrightarrow>
     \<not> map_has (known_threads c) i \<and> (case map_get (archived_at c) i of None \<Rightarrow> False | Some n \<Rightarrow> a \<le> n)"

lemma buried_frame:
  "archived_at d = archived_at c \<Longrightarrow> eviction_floor c \<le> eviction_floor d \<Longrightarrow> buried i a c \<Longrightarrow> buried i a d"
  by (auto simp: buried_def)

lemma buried_updates [simp]:
  "buried i a (c\<lparr>cache_revision := r\<rparr>) = buried i a c" "buried i a (c\<lparr>known_threads := k\<rparr>) = buried i a c"
  "buried i a (c\<lparr>thread_revisions := m\<rparr>) = buried i a c" "buried i a (c\<lparr>status_revisions := m\<rparr>) = buried i a c"
  "buried i a (c\<lparr>early_statuses := e\<rparr>) = buried i a c" "buried i a (c\<lparr>selected_thread := x\<rparr>) = buried i a c"
  "buried i a (c\<lparr>selection_revision := n\<rparr>) = buried i a c"
  by (simp_all add: buried_def)

lemma forget_thread_buried: "buried i a c \<Longrightarrow> buried i a (forget_thread j c)"
  using forget_thread_floor [of c j]
  by (auto simp: buried_def map_get_delete split: option.splits dest: order_trans)

lemma trim_threads_buried: "buried i a c \<Longrightarrow> buried i a (trim_threads c)"
  by (rule trim_threads_rec) (rule forget_thread_buried)

lemma forget_thread_entombed: "entombed i a c \<Longrightarrow> map_has (known_threads c) j \<Longrightarrow> entombed i a (forget_thread j c)"
  by (auto simp: entombed_def map_get_delete split: option.splits)

lemma find_is_key: "List.find P (map_keys m) = Some i \<Longrightarrow> map_has m i"
  by (auto simp: find_Some_iff map_has_keys)

lemma trim_threads_entombed: "entombed i a c \<Longrightarrow> entombed i a (trim_threads c)"
proof (induction c rule: trim_threads.induct)
  case (1 c)
  show ?case
  proof (cases "length (known_threads c) \<le> max_cached_threads")
    case True
    with 1 show ?thesis by (subst trim_threads.simps) simp
  next
    case False
    show ?thesis
    proof (cases "List.find (\<lambda>i. Some i \<noteq> selected_thread c) (map_keys (known_threads c))")
      case None
      with False 1 show ?thesis by (subst trim_threads.simps) simp
    next
      case (Some j)
      from 1(1) [OF False Some forget_thread_entombed [OF 1(2) find_is_key [OF Some]]] False Some
      show ?thesis by (subst trim_threads.simps) simp
    qed
  qed
qed

lemma drop_oldest_tombstones_buried: "buried i a c \<Longrightarrow> buried i a (drop_oldest_tombstones n c)"
proof (induction n c rule: drop_oldest_tombstones.induct)
  case (2 n c)
  show ?case
  proof (cases "archived_at c")
    case Nil
    with 2 show ?thesis by simp
  next
    case (Cons p ps)
    have "buried i a (evicted (Some (snd p)) (c\<lparr>archived_at := ps\<rparr>))"
      using 2(2) Cons
      by (cases p) (auto simp: buried_def evicted_floor map_get_def split: option.splits if_splits)
    from 2(1) [OF Cons this] Cons show ?thesis by simp
  qed
qed simp

section \<open>The operations\<close>

lemma merge_thread_buried: "buried i a c \<Longrightarrow> buried i a (snd (merge_thread s r c))"
  by (auto simp: merge_thread_def Let_def intro!: trim_threads_buried elim!: buried_frame [rotated -1])

lemma merge_started_buried: "buried i a c \<Longrightarrow> buried i a (snd (merge_started s c))"
  by (auto simp: merge_started_def Let_def intro!: trim_threads_buried elim!: buried_frame [rotated -1])

lemma drop_oldest_statuses_buried: "buried i a c \<Longrightarrow> buried i a (drop_oldest_statuses n c)"
  using drop_oldest_statuses_fields [of n c] by (auto elim: buried_frame [rotated -1])

lemma trim_statuses_buried: "buried i a c \<Longrightarrow> buried i a (trim_statuses c)"
  unfolding trim_statuses_def by (rule drop_oldest_statuses_buried)

lemma merge_status_buried:
  assumes "buried i a c"
  shows "buried i a (snd (merge_status j st c))"
proof -
  have n: "buried i a (next_revision c)" using assms by (simp add: next_revision_def)
  then have "buried i a (trim_statuses (next_revision c \<lparr>early_statuses := m\<rparr>))" for m
    by (intro trim_statuses_buried) simp
  with n assms show ?thesis unfolding merge_status_def Let_def by (simp split: option.split)
qed

lemma archive_in_cache_buried:
  assumes "thread_cache_ok c" "buried i a c"
  shows "buried i a (snd (archive_in_cache j c))"
proof -
  let ?d = "(next_revision c)\<lparr>archived_at := map_set (map_delete (archived_at c) j) j (cache_revision (next_revision c))\<rparr>"
  have "map_get (archived_at c) j = Some n \<Longrightarrow> n \<le> cache_revision c" for n
    using assms(1) by (auto simp: thread_cache_ok_def cache_parts revisions_below_def)
  then have "buried i a ?d"
    using assms(2)
    by (fastforce simp: buried_def next_revision_def map_get_set map_get_delete split: option.splits)
  then have "buried i a (trim_tombstones ?d)" unfolding trim_tombstones_def by (rule drop_oldest_tombstones_buried)
  then show ?thesis
    by (simp add: archive_in_cache_def Let_def select_in_cache_def next_revision_def buried_def)
qed

lemma merge_page_buried: "buried i a (snd acc) \<Longrightarrow> buried i a (snd (merge_page ts r acc))"
  unfolding merge_page_def by (induction ts arbitrary: acc) (simp_all add: merge_thread_buried Let_def)

lemma select_in_cache_buried: "buried i a c \<Longrightarrow> buried i a (select_in_cache j c)"
  by (simp add: buried_def select_in_cache_def)

lemma commit_thread_buried: "buried i a c \<Longrightarrow> buried i a (snd (commit_thread s ctx select c))"
  by (simp add: commit_thread_def Let_def merge_thread_buried trim_threads_buried select_in_cache_buried)

lemma commit_page_buried:
  assumes "buried i a c"
  shows "buried i a (snd (commit_page page first ctx c))"
proof -
  have "buried i a (c\<lparr>known_threads := [], thread_revisions := [], status_revisions := []\<rparr>)"
    using assms by (simp add: buried_def)
  with assms show ?thesis
    by (simp add: commit_page_def Let_def merge_page_buried trim_threads_buried select_in_cache_buried)
qed

section \<open>An older answer\<close>

lemma merge_thread_entombed:
  assumes "entombed i a c" "r < a"
  shows "entombed i a (snd (merge_thread s r c))"
proof (cases "summary_id s = i")
  case True
  with assms have "merge_refused s r c"
    by (auto simp: merge_refused_def later_than_def entombed_def split: option.splits)
  with assms show ?thesis by (simp add: merge_thread_def)
next
  case False
  then have "entombed i a (mark_thread (summary_id s) u (put_thread s' c))" if "summary_id s' = summary_id s" for u s'
    using assms that by (simp add: entombed_def)
  then have "entombed i a (trim_threads (mark_thread (summary_id s) u (put_thread s' c)))"
    if "summary_id s' = summary_id s" for u s'
    using that by (intro trim_threads_entombed)
  with assms(1) show ?thesis by (simp add: merge_thread_def Let_def split: option.splits prod.splits)
qed

lemma merge_page_entombed:
  "entombed i a (snd acc) \<Longrightarrow> r < a \<Longrightarrow> entombed i a (snd (merge_page ts r acc))"
  unfolding merge_page_def by (induction ts arbitrary: acc) (simp_all add: merge_thread_entombed Let_def)

lemma select_in_cache_entombed: "entombed i a c \<Longrightarrow> entombed i a (select_in_cache j c)"
  by (simp add: entombed_def select_in_cache_def)

lemma commit_thread_entombed:
  "entombed i a c \<Longrightarrow> context_revision ctx < a \<Longrightarrow> entombed i a (snd (commit_thread s ctx select c))"
  by (simp add: commit_thread_def Let_def merge_thread_entombed trim_threads_entombed select_in_cache_entombed)

lemma commit_page_entombed:
  assumes "entombed i a c" "context_revision ctx < a"
  shows "entombed i a (snd (commit_page page first ctx c))"
proof -
  have "entombed i a (c\<lparr>known_threads := [], thread_revisions := [], status_revisions := []\<rparr>)"
    using assms(1) by (simp add: entombed_def map_has_def)
  with assms show ?thesis
    by (simp add: commit_page_def Let_def merge_page_entombed trim_threads_entombed select_in_cache_entombed)
qed

text \<open>An operation that may still commit found the tombstone.\<close>

lemma buried_entombed:
  "buried i a c \<Longrightarrow> eviction_floor c \<le> r \<Longrightarrow> r < a \<Longrightarrow> \<not> map_has (known_threads c) i \<Longrightarrow> entombed i a c"
  by (auto simp: buried_def entombed_def)

lemma archive_buries:
  assumes "thread_cache_ok c"
  shows "buried i (cache_revision c + 1) (snd (archive_in_cache i c))"
    "\<not> map_has (known_threads (snd (archive_in_cache i c))) i"
proof -
  let ?d = "(next_revision c)\<lparr>archived_at := map_set (map_delete (archived_at c) i) i (cache_revision (next_revision c))\<rparr>"
  have "buried i (cache_revision c + 1) ?d" by (simp add: buried_def next_revision_def map_get_set)
  then have "buried i (cache_revision c + 1) (trim_tombstones ?d)"
    unfolding trim_tombstones_def by (rule drop_oldest_tombstones_buried)
  then show "buried i (cache_revision c + 1) (snd (archive_in_cache i c))"
    by (simp add: archive_in_cache_def Let_def select_in_cache_def next_revision_def buried_def)
  show "\<not> map_has (known_threads (snd (archive_in_cache i c))) i"
    by (simp add: archive_in_cache_def Let_def select_in_cache_def)
qed

end
