(* ===== verification/ThreadSafety.thy ===== *)
theory ThreadSafety
  imports ThreadLedger ThreadArchive
begin

text \<open>
  Every event of the thread coordinator keeps its invariant: first the small steps, then the calls, the
  answers and the messages of the host, and last the contract of a stateful machine.
\<close>

section \<open>The invariant\<close>

definition calls_ok :: "(nat, thread_task) jsmap \<Rightarrow> nat list \<Rightarrow> nat \<Rightarrow> bool" where
  "calls_ok ts se n \<longleftrightarrow>
     map_ok ts \<and> distinct se \<and> (\<forall>k\<in>set se. k < n) \<and> (\<forall>k. map_has ts k \<longrightarrow> k < n \<and> k \<notin> set se)"

definition leases_ok :: "threads \<Rightarrow> bool" where
  "leases_ok b \<longleftrightarrow>
     ledger_ok (td_requests b) (td_tracked b) (td_acquiring b) (td_next_key b) (leases_given b) (leases_returned b)"

definition thread_inv :: "threads \<Rightarrow> bool" where
  "thread_inv b \<longleftrightarrow>
     thread_cache_ok (td_cache b) \<and> leases_ok b \<and> calls_ok (td_tasks b) (calls_settled b) (td_next_key b)
     \<and> list_all snapshot_ok (publications b)"

definition open_call :: "nat \<Rightarrow> threads \<Rightarrow> bool" where
  "open_call k b \<longleftrightarrow> k < td_next_key b \<and> k \<notin> set (calls_settled b)"

definition fresh_key :: "nat \<Rightarrow> threads \<Rightarrow> bool" where
  "fresh_key k b \<longleftrightarrow>
     open_call k b \<and> k \<notin> set (td_tracked b) \<and> k \<notin> set (td_acquiring b) \<and> k \<notin> set (leases_given b)"

lemmas history_views = leases_given_def leases_returned_def calls_settled_def publications_def
lemmas inv_parts = thread_inv_def leases_ok_def history_views

lemma new_threads_inv [simp]: "thread_inv (new_threads g)"
  by (simp add: inv_parts calls_ok_def ledger_ok_def new_threads_def map_ok_def map_keys_def held_def map_get_def
      map_has_def)

section \<open>Small steps\<close>

lemma asked_thread_inv [simp]: "thread_inv (asked_thread b) = thread_inv b" "open_call k (asked_thread b) = open_call k b"
  by (simp_all add: inv_parts asked_thread_def open_call_def)

lemma log_plain_inv [simp]:
  assumes "given_by e = []" "returned_by e = []" "settled_by e = []" "published_by e = []"
  shows "thread_inv (log_thread e b) = thread_inv b" "open_call k (log_thread e b) = open_call k b"
  using assms by (simp_all add: inv_parts log_thread_def open_call_def)

lemma settle_thread_inv:
  assumes "thread_inv b" "open_call k b"
  shows "thread_inv (settle_thread k r b)"
  using assms
  by (auto simp: inv_parts settle_thread_def log_thread_def calls_ok_def open_call_def intro: jsmap.ok_remove)

lemma put_thread_task_inv: "thread_inv b \<Longrightarrow> open_call k b \<Longrightarrow> thread_inv (put_thread_task k t b)"
  by (auto simp: inv_parts put_thread_task_def calls_ok_def open_call_def intro: jsmap.ok_put)

lemma drop_thread_task_inv: "thread_inv b \<Longrightarrow> thread_inv (drop_thread_task k b)"
  by (auto simp: inv_parts drop_thread_task_def calls_ok_def intro: jsmap.ok_remove)

lemma concat_map_Nil [simp]: "concat (map (\<lambda>x. []) xs) = []"
  by (induction xs) auto

lemma publish_if_inv:
  assumes "thread_inv b" "thread_cache_ok (snd m)"
  shows "thread_inv (publish_if env m b)"
proof -
  let ?b = "b\<lparr>td_cache := snd m\<rparr>"
  have "snapshot_ok (snapshot_of env ?b)" using assms(2) by (intro snapshot_of_ok) simp
  then show ?thesis using assms
    by (auto simp: publish_if_def publish_threads_def Let_def inv_parts comp_def list_all_iff)
qed

lemma publish_if_open [simp]: "open_call k (publish_if env m b) = open_call k b"
  by (auto simp: open_call_def publish_if_def publish_threads_def history_views Let_def)

lemma open_call_kept [simp]:
  "open_call k (put_thread_task j t b) = open_call k b"
  "open_call k (drop_thread_task j b) = open_call k b" "open_call k (put_request j r b) = open_call k b"
  "open_call k (release_request j b) = open_call k b" "open_call k (invalidate_request j e b) = open_call k b"
  by (simp_all add: open_call_def publish_if_def publish_threads_def put_thread_task_def drop_thread_task_def
      put_request_def release_request_def invalidate_request_def log_thread_def Let_def history_views comp_def
      split: option.split request_stage.split)

lemma release_request_inv:
  assumes "thread_inv b" "k < td_next_key b"
  shows "thread_inv (release_request k b)"
proof (cases "request_released (request_of k b)")
  case True
  then have "freed (td_requests b) k" by (auto simp: request_of_def freed_def new_request_def split: option.splits)
  with assms(1) True show ?thesis
    by (auto simp: release_request_def Let_def inv_parts intro: ledger_untrack)
next
  case False
  have "ledger_ok (map_set (td_requests b) k (request_of k b\<lparr>request_released := True\<rparr>)) (removeAll k (td_tracked b))
      (td_acquiring b) (td_next_key b) (leases_given b)
      (leases_returned b @ (if request_generation (request_of k b) = None then [] else [k]))"
    using assms False
    by (intro ledger_release) (auto simp: thread_inv_def leases_ok_def request_of_def)
  with assms(1) False show ?thesis
    by (auto simp: release_request_def Let_def inv_parts put_request_def log_thread_def request_of_def)
qed

lemma invalidate_request_inv:
  assumes "thread_inv b" "k < td_next_key b"
  shows "thread_inv (invalidate_request k e b)"
proof (cases "request_invalid (request_of k b)")
  case None
  let ?b = "put_request k (request_of k b\<lparr>request_invalid := Some e\<rparr>) b"
  have "ledger_ok (map_set (td_requests b) k (request_of k b\<lparr>request_invalid := Some e\<rparr>)) (td_tracked b)
      (td_acquiring b) (td_next_key b) (leases_given b) (leases_returned b)"
    using assms by (intro ledger_invalidate) (auto simp: thread_inv_def leases_ok_def request_of_def)
  with assms(1) have b: "thread_inv ?b" by (simp add: inv_parts put_request_def)
  have "thread_inv (put_thread_task k t' ?b)" if "map_get (td_tasks ?b) k = Some t" for t t'
  proof -
    from map_has_Some [OF that] b have "open_call k ?b"
      unfolding thread_inv_def calls_ok_def open_call_def by blast
    with b show ?thesis by (rule put_thread_task_inv)
  qed
  with b None show ?thesis
    by (simp add: invalidate_request_def Let_def split: option.split request_stage.split)
qed (simp add: invalidate_request_def assms)

lemma next_key_kept [simp]:
  "td_next_key (release_request k b) = td_next_key b" "td_next_key (invalidate_request k e b) = td_next_key b"
  "td_next_key (drop_request e k b) = td_next_key b" "td_next_key (put_thread_task k t b) = td_next_key b"
  "td_next_key (publish_if env m b) = td_next_key b" "td_next_key (log_thread e' b) = td_next_key b"
  "td_next_key (asked_thread b) = td_next_key b"
  by (simp_all add: drop_request_def release_request_def invalidate_request_def put_request_def put_thread_task_def
      log_thread_def publish_if_def publish_threads_def asked_thread_def Let_def split: option.split request_stage.split)

lemma drop_request_inv: "thread_inv b \<Longrightarrow> k < td_next_key b \<Longrightarrow> thread_inv (drop_request e k b)"
  by (simp add: drop_request_def release_request_inv invalidate_request_inv)

lemma drop_requests_inv:
  "thread_inv b \<Longrightarrow> (\<And>k. k \<in> set ks \<Longrightarrow> k < td_next_key b) \<Longrightarrow> thread_inv (drop_requests e ks b)"
  unfolding drop_requests_def by (induction ks arbitrary: b) (simp_all add: drop_request_inv)

lemma finish_request_inv: "thread_inv b \<Longrightarrow> open_call k b \<Longrightarrow> thread_inv (finish_request k t r b)"
  unfolding finish_request_def
  by (intro put_thread_task_inv release_request_inv) (simp_all add: open_call_def [of k b])

lemma tracked_below: "thread_inv b \<Longrightarrow> k \<in> set (td_tracked b) \<Longrightarrow> k < td_next_key b"
  by (auto simp: thread_inv_def leases_ok_def ledger_ok_def)

lemma begin_request_inv:
  assumes "thread_inv b" "fresh_key k b"
  shows "thread_inv (begin_request env k call m params l b)"
proof (cases "max_active_requests \<le> length (td_tracked b)")
  case True
  with assms show ?thesis by (simp add: begin_request_def Let_def put_thread_task_inv fresh_key_def)
next
  case False
  let ?b1 = "put_request k new_request (b\<lparr>td_tracked := td_tracked b @ [k]\<rparr>)"
  let ?b2 = "asked_thread (log_thread (Thread_Lease_Asked k) ?b1)"
  let ?b3 = "?b2\<lparr>td_acquiring := td_acquiring ?b2 @ [k]\<rparr>"
  have "ledger_ok (map_set (td_requests b) k new_request) (td_tracked b @ [k]) (td_acquiring b) (td_next_key b)
      (leases_given b) (leases_returned b)"
    using assms False by (intro ledger_track) (auto simp: thread_inv_def leases_ok_def fresh_key_def open_call_def)
  with assms(1) have b1: "thread_inv ?b1" by (simp add: inv_parts put_request_def)
  have o: "open_call k ?b1" using assms(2) by (simp add: fresh_key_def open_call_def put_request_def history_views)
  have "ledger_ok (td_requests ?b1) (td_tracked ?b1) (td_acquiring ?b1 @ [k]) (td_next_key ?b1)
      (leases_given ?b1) (leases_returned ?b1)"
    using b1 assms(2)
    by (intro ledger_ask) (auto simp: thread_inv_def leases_ok_def fresh_key_def put_request_def history_views)
  with b1 have b3: "thread_inv ?b3" "open_call k ?b3"
    using o by (simp_all add: inv_parts put_request_def asked_thread_def log_thread_def open_call_def)
  show ?thesis
    using False b1 b3 o
    by (simp add: begin_request_def Let_def put_thread_task_inv finish_request_inv)
qed

section \<open>Calls\<close>

lemma new_call_inv:
  assumes "thread_inv b"
  shows "thread_inv (new_call b)" "fresh_key (td_next_key b) (new_call b)"
proof -
  show "thread_inv (new_call b)"
    using assms ledger_later
    by (auto simp: inv_parts new_call_def calls_ok_def less_Suc_eq)
  show "fresh_key (td_next_key b) (new_call b)"
    using assms
    by (auto simp: thread_inv_def leases_ok_def ledger_ok_def calls_ok_def new_call_def fresh_key_def open_call_def
        history_views)
qed

lemma counters_inv [simp]:
  "thread_inv (b\<lparr>td_list_revision := n\<rparr>) = thread_inv b" "fresh_key k (b\<lparr>td_list_revision := n\<rparr>) = fresh_key k b"
  "thread_inv (b\<lparr>td_refreshed := g\<rparr>) = thread_inv b" "fresh_key k (b\<lparr>td_refreshed := g\<rparr>) = fresh_key k b"
  "thread_inv (b\<lparr>td_generation := g\<rparr>) = thread_inv b" "thread_inv (b\<lparr>td_clients := cs\<rparr>) = thread_inv b"
  "thread_inv (b\<lparr>td_disposed := d\<rparr>) = thread_inv b" "thread_inv (b\<lparr>td_lifecycle := n\<rparr>) = thread_inv b"
  by (simp_all add: inv_parts fresh_key_def open_call_def)

lemma fresh_key_open: "fresh_key k b \<Longrightarrow> open_call k b"
  by (simp add: fresh_key_def)

lemma begin_call_inv:
  assumes "thread_inv b" "\<And>k x b'. thread_inv b' \<Longrightarrow> fresh_key k b' \<Longrightarrow> thread_inv (f k x b')"
  shows "thread_inv (begin_thread_call args f b)"
  using assms new_call_inv [OF assms(1)]
  by (auto simp: begin_thread_call_def Let_def settle_thread_inv fresh_key_open split: sum.split)

lemma select_thread_inv: "thread_inv b \<Longrightarrow> thread_inv (select_thread env i b)"
  unfolding select_thread_def
  by (intro publish_if_inv) (simp_all add: select_in_cache_ok thread_inv_def)

lemma select_thread_open [simp]: "open_call k (select_thread env i b) = open_call k b"
  by (simp add: select_thread_def)

lemma read_thread_call_inv:
  assumes "thread_inv b"
  shows "thread_inv (read_thread_call env v b)"
proof (cases "standalone_identifier v")
  case (Inl e)
  with new_call_inv [OF assms] show ?thesis by (simp add: read_thread_call_def settle_thread_inv fresh_key_open)
next
  case (Inr i)
  with assms show ?thesis
    by (simp add: read_thread_call_def begin_request_inv begin_call_inv)
qed

lemma calls_inv:
  assumes "thread_inv b"
  shows "thread_inv (list_models env v b)" "thread_inv (list_threads env v b)" "thread_inv (start_thread_call env v b)"
    "thread_inv (resume_thread_call env v b)" "thread_inv (archive_thread_call env v b)"
    "thread_inv (select_thread_call env v b)"
  unfolding list_models_def list_threads_def start_thread_call_def resume_thread_call_def archive_thread_call_def
    select_thread_call_def
  by (rule begin_call_inv [OF assms];
      simp add: Let_def begin_request_inv settle_thread_inv select_thread_inv fresh_key_open
        split: prod.split)+

section \<open>Answers\<close>

lemma thread_answer_inv:
  assumes "thread_inv b"
  shows "thread_inv (snd (thread_answer env x ctx select v b))"
  using assms
  by (auto simp: thread_answer_def publish_if_inv commit_thread_ok thread_inv_def [of b] split: option.split)

lemma thread_answer_open [simp]: "open_call k (snd (thread_answer env x ctx select v b)) = open_call k b"
  by (simp add: thread_answer_def split: option.split)

lemma refresh_failed_inv: "thread_inv b \<Longrightarrow> thread_inv (refresh_thread_failed env i g n b)"
  by (auto simp: refresh_thread_failed_def publish_if_inv select_in_cache_ok thread_inv_def [of b])

lemma page_answer_inv:
  assumes "thread_inv b" "open_call k b"
  shows "thread_inv (page_answer env k first archived operation ctx v b)"
  using assms
  by (auto simp: page_answer_def settle_thread_inv publish_if_inv commit_page_ok thread_inv_def [of b]
      intro!: settle_thread_inv split: option.split)

lemma archive_answer_inv:
  assumes "thread_inv b" "open_call k b"
  shows "thread_inv (archive_answer env k i l v b)"
  using assms
  by (auto simp: archive_answer_def settle_thread_inv publish_if_inv archive_in_cache_ok thread_inv_def [of b]
      intro!: settle_thread_inv split: option.split)

lemma call_continues_inv:
  assumes "thread_inv b" "open_call k b"
  shows "thread_inv (call_continues env k call r b)"
  using assms
  by (cases "(env, k, call, r, b)" rule: call_continues.cases)
     (simp_all add: settle_thread_inv drop_thread_task_inv refresh_failed_inv page_answer_inv archive_answer_inv
       settle_answer_def thread_answer_inv refresh_answer_def Let_def split: sum.split option.split)

lemma task_open: "thread_inv b \<Longrightarrow> map_get (td_tasks b) k = Some t \<Longrightarrow> open_call k b"
  using map_has_Some [of "td_tasks b" k t] unfolding thread_inv_def calls_ok_def open_call_def by blast

lemma request_with_lease_inv:
  "thread_inv b \<Longrightarrow> open_call k b \<Longrightarrow> thread_inv (request_with_lease env k t g b)"
  by (simp add: request_with_lease_def Let_def finish_request_inv put_thread_task_inv
      split: option.split host_answer.split)

lemma request_answered_inv: "thread_inv b \<Longrightarrow> open_call k b \<Longrightarrow> thread_inv (request_answered k t g raw b)"
  by (simp add: request_answered_def finish_request_inv split: option.split)

lemma thread_resume_inv: "thread_inv b \<Longrightarrow> thread_inv (thread_resume env k b)"
  by (auto simp: thread_resume_def split: option.split request_stage.split
      intro!: request_with_lease_inv request_answered_inv finish_request_inv call_continues_inv intro: task_open)

lemma lease_race_inv: "thread_inv b \<Longrightarrow> thread_inv (lease_race k st b)"
  by (auto simp: lease_race_def split: option.split intro!: put_thread_task_inv intro: task_open)

lemma thread_lease_denied_inv:
  assumes "thread_inv b"
  shows "thread_inv (thread_lease_denied k b)"
proof -
  have "thread_inv (b\<lparr>td_acquiring := removeAll k (td_acquiring b)\<rparr>)"
    using assms ledger_deny by (auto simp: inv_parts)
  then show ?thesis using assms by (simp add: thread_lease_denied_def lease_race_inv)
qed

lemma thread_lease_granted_inv:
  assumes "thread_inv b"
  shows "thread_inv (thread_lease_granted k g b)"
proof (cases "k \<in> set (td_acquiring b)")
  case True
  let ?b1 = "log_thread (Thread_Lease_Given k) (b\<lparr>td_acquiring := removeAll k (td_acquiring b)\<rparr>)"
  let ?r = "request_of k ?b1"
  have refuse: "thread_inv (log_thread (Thread_Lease_Released k) ?b1)"
    using assms ledger_refuse True by (auto simp: inv_parts log_thread_def)
  have bind: "thread_inv (put_request k (?r\<lparr>request_generation := Some g\<rparr>) ?b1)" if "bindable ?r"
  proof -
    have "ledger_ok (map_set (td_requests b) k (?r\<lparr>request_generation := Some g\<rparr>)) (td_tracked b)
       (removeAll k (td_acquiring b)) (td_next_key b) (leases_given b @ [k]) (leases_returned b)"
      using assms True that
      by (intro ledger_bind) (auto simp: thread_inv_def leases_ok_def bindable_def request_of_def log_thread_def)
    with assms show ?thesis by (simp add: inv_parts put_request_def log_thread_def)
  qed
  show ?thesis
    using True refuse bind unfolding thread_lease_granted_def Let_def by (simp add: lease_race_inv)
qed (simp add: thread_lease_granted_def assms)

lemma thread_response_inv: "thread_inv b \<Longrightarrow> thread_inv (thread_response k raw b)"
  by (auto simp: thread_response_def split: option.split request_stage.split
      intro!: put_thread_task_inv intro: task_open)

section \<open>The host and the clients\<close>

lemma on_thread_notification_inv: "thread_inv b \<Longrightarrow> thread_inv (on_thread_notification env m v g b)"
  by (auto simp: on_thread_notification_def publish_if_inv merge_started_ok merge_status_ok archive_in_cache_ok
      thread_inv_def [of b] split: option.split)

lemma advance_generation_inv: "thread_inv b \<Longrightarrow> thread_inv (advance_generation env g b)"
  by (simp add: advance_generation_def publish_if_inv new_generation_ok thread_inv_def [of b])

lemma drop_useless_inv: "thread_inv b \<Longrightarrow> thread_inv (drop_useless st b)"
  unfolding drop_useless_def by (rule drop_requests_inv) (auto intro: tracked_below)

lemma refresh_selected_inv:
  assumes "thread_inv b"
  shows "thread_inv (refresh_selected env st g b)"
  using assms new_call_inv [of "b\<lparr>td_refreshed := g\<rparr>"]
  by (simp add: refresh_selected_def Let_def begin_request_inv split: option.split)

lemma on_host_state_inv: "thread_inv b \<Longrightarrow> thread_inv (on_thread_host_state env st g b)"
  by (simp add: on_thread_host_state_def refresh_selected_inv drop_useless_inv advance_generation_inv)

lemma connect_thread_client_inv: "thread_inv b \<Longrightarrow> thread_inv (connect_thread_client env c b)"
  using snapshot_of_ok [of b env]
  by (auto simp: connect_thread_client_def inv_parts log_thread_def)

lemma disconnect_thread_client_inv: "thread_inv b \<Longrightarrow> thread_inv (disconnect_thread_client c b)"
  by (simp add: disconnect_thread_client_def)

lemma dispose_threads_inv:
  assumes "thread_inv b"
  shows "thread_inv (dispose_threads b)"
proof -
  let ?b = "b\<lparr>td_disposed := True, td_lifecycle := td_lifecycle b + 1, td_list_revision := td_list_revision b + 1\<rparr>"
  have "thread_inv (drop_requests e (td_tracked b) ?b)" for e
    using assms by (intro drop_requests_inv) (auto intro: tracked_below)
  with assms show ?thesis by (simp add: dispose_threads_def)
qed

lemma thread_next_inv: "thread_inv b \<Longrightarrow> thread_inv (thread_next env b e)"
  by (cases e)
     (simp_all add: calls_inv read_thread_call_inv thread_lease_granted_inv thread_lease_denied_inv
       thread_response_inv thread_resume_inv on_thread_notification_inv on_host_state_inv connect_thread_client_inv
       disconnect_thread_client_inv dispose_threads_inv)

interpretation thread_machine: stateful "thread_step env" thread_inv for env
  by unfold_locales (simp add: thread_step_def thread_next_inv)

end
