(* ===== verification/ThreadRuns.thy ===== *)
theory ThreadRuns
  imports ThreadSafety
begin

text \<open>
  What lasts through a run of the thread coordinator: within a generation an archived thread stays buried,
  and a disposed coordinator neither asks nor tells anything.
\<close>

section \<open>Fields the small steps leave alone\<close>

lemma cache_kept [frame_simps]:
  "td_cache (asked_thread b) = td_cache b" "td_cache (log_thread e b) = td_cache b"
  "td_cache (settle_thread k r b) = td_cache b" "td_cache (put_thread_task k t b) = td_cache b"
  "td_cache (drop_thread_task k b) = td_cache b" "td_cache (put_request k q b) = td_cache b"
  "td_cache (release_request k b) = td_cache b" "td_cache (invalidate_request k x b) = td_cache b"
  "td_cache (drop_request x k b) = td_cache b" "td_cache (finish_request k t s b) = td_cache b"
  "td_cache (new_call b) = td_cache b" "td_cache (publish_if env m b) = snd m"
  by (simp_all add: asked_thread_def log_thread_def settle_thread_def put_thread_task_def drop_thread_task_def
      put_request_def release_request_def invalidate_request_def drop_request_def finish_request_def new_call_def
      publish_if_def publish_threads_def Let_def split: option.split request_stage.split)

lemma generation_kept [frame_simps]:
  "td_generation (asked_thread b) = td_generation b" "td_generation (log_thread e b) = td_generation b"
  "td_generation (settle_thread k r b) = td_generation b" "td_generation (put_thread_task k t b) = td_generation b"
  "td_generation (drop_thread_task k b) = td_generation b" "td_generation (put_request k q b) = td_generation b"
  "td_generation (release_request k b) = td_generation b" "td_generation (invalidate_request k x b) = td_generation b"
  "td_generation (drop_request x k b) = td_generation b" "td_generation (finish_request k t s b) = td_generation b"
  "td_generation (new_call b) = td_generation b" "td_generation (publish_if env m b) = td_generation b"
  by (simp_all add: asked_thread_def log_thread_def settle_thread_def put_thread_task_def drop_thread_task_def
      put_request_def release_request_def invalidate_request_def drop_request_def finish_request_def new_call_def
      publish_if_def publish_threads_def Let_def split: option.split request_stage.split)

lemma drop_requests_kept [frame_simps]:
  "td_cache (drop_requests e ks b) = td_cache b" "td_generation (drop_requests e ks b) = td_generation b"
  unfolding drop_requests_def by (induction ks arbitrary: b) (simp_all add: frame_simps)

lemma begin_request_kept [frame_simps]:
  "td_cache (begin_request env k call m params l b) = td_cache b"
  "td_generation (begin_request env k call m params l b) = td_generation b"
  by (simp_all add: begin_request_def Let_def frame_simps)

section \<open>Buried threads stay buried\<close>

definition keeps_buried :: "thread_cache \<Rightarrow> thread_cache \<Rightarrow> bool" where
  "keeps_buried c d \<longleftrightarrow> (\<forall>i a. buried i a c \<longrightarrow> buried i a d)"

definition ages :: "threads \<Rightarrow> threads \<Rightarrow> bool" where
  "ages b b' \<longleftrightarrow>
     td_generation b \<le> td_generation b'
     \<and> (td_generation b' = td_generation b \<longrightarrow> keeps_buried (td_cache b) (td_cache b'))"

lemma keeps_buried_refl [simp]: "keeps_buried c c"
  by (simp add: keeps_buried_def)

lemma ages_refl [simp]: "ages b b"
  by (simp add: ages_def)

lemma ages_trans: "ages b c \<Longrightarrow> ages c d \<Longrightarrow> ages b d"
  by (auto simp: ages_def keeps_buried_def)

lemma agesI: "td_generation b' = td_generation b \<Longrightarrow> keeps_buried (td_cache b) (td_cache b') \<Longrightarrow> ages b b'"
  by (simp add: ages_def)

lemma same_cache_ages: "td_generation b' = td_generation b \<Longrightarrow> td_cache b' = td_cache b \<Longrightarrow> ages b b'"
  by (simp add: ages_def)

lemma operations_keep_buried:
  "keeps_buried c (snd (merge_thread s r c))" "keeps_buried c (snd (merge_started s c))"
  "keeps_buried c (snd (merge_status i st c))" "thread_cache_ok c \<Longrightarrow> keeps_buried c (snd (archive_in_cache i c))"
  "keeps_buried c (select_in_cache x c)" "keeps_buried c (snd (commit_thread s ctx select c))"
  "keeps_buried c (snd (commit_page page first ctx c))"
  by (simp_all add: keeps_buried_def merge_thread_buried merge_started_buried merge_status_buried
      archive_in_cache_buried select_in_cache_buried commit_thread_buried commit_page_buried)

lemma begin_call_ages:
  assumes "\<And>k x. td_generation (f k x (new_call b)) = td_generation b"
    "\<And>k x. keeps_buried (td_cache b) (td_cache (f k x (new_call b)))"
  shows "ages b (begin_thread_call args f b)"
  using assms by (auto simp: begin_thread_call_def Let_def frame_simps intro!: agesI split: sum.split)

lemma calls_age:
  "ages b (list_models env v b)" "ages b (list_threads env v b)" "ages b (start_thread_call env v b)"
  "ages b (resume_thread_call env v b)" "ages b (archive_thread_call env v b)"
  "ages b (select_thread_call env v b)"
  unfolding list_models_def list_threads_def start_thread_call_def resume_thread_call_def archive_thread_call_def
    select_thread_call_def select_thread_def
  by (rule begin_call_ages; auto simp: frame_simps Let_def operations_keep_buried split: prod.split)+

lemma read_thread_call_ages: "ages b (read_thread_call env v b)"
  by (auto simp: read_thread_call_def frame_simps intro!: same_cache_ages begin_call_ages split: sum.split)

lemma thread_answer_ages: "ages b (snd (thread_answer env x ctx select v b))"
  by (auto simp: thread_answer_def frame_simps operations_keep_buried intro!: agesI split: option.split)

lemma refresh_failed_ages: "ages b (refresh_thread_failed env i g n b)"
  by (auto simp: refresh_thread_failed_def frame_simps operations_keep_buried intro!: agesI)

lemma page_answer_ages: "ages b (page_answer env k first archived operation ctx v b)"
  by (auto simp: page_answer_def frame_simps operations_keep_buried intro!: agesI split: option.split)

lemma archive_answer_ages: "thread_inv b \<Longrightarrow> ages b (archive_answer env k i l v b)"
  by (auto simp: archive_answer_def frame_simps operations_keep_buried thread_inv_def intro!: agesI)

lemma settled_ages: "ages b b' \<Longrightarrow> ages b (settle_thread k r b')" "ages b b' \<Longrightarrow> ages b (drop_thread_task k b')"
  by (simp_all add: ages_def frame_simps)

lemma call_continues_ages: "thread_inv b \<Longrightarrow> ages b (call_continues env k call r b)"
  by (cases "(env, k, call, r, b)" rule: call_continues.cases)
     (auto simp: settle_answer_def refresh_answer_def Let_def
       intro!: settled_ages page_answer_ages archive_answer_ages thread_answer_ages refresh_failed_ages
         ages_trans [OF thread_answer_ages refresh_failed_ages] split: sum.split)

lemma thread_resume_ages: "thread_inv b \<Longrightarrow> ages b (thread_resume env k b)"
  by (auto simp: thread_resume_def request_with_lease_def request_answered_def Let_def frame_simps
      intro!: call_continues_ages same_cache_ages split: option.split request_stage.split host_answer.split)

lemma leases_age:
  "ages b (thread_lease_granted k g b)" "ages b (thread_lease_denied k b)" "ages b (thread_response k raw b)"
  by (auto simp: thread_lease_granted_def thread_lease_denied_def thread_response_def lease_race_def Let_def frame_simps
      intro!: same_cache_ages split: option.split request_stage.split)

lemma on_thread_notification_ages: "thread_inv b \<Longrightarrow> ages b (on_thread_notification env m v g b)"
  by (auto simp: on_thread_notification_def frame_simps operations_keep_buried thread_inv_def intro!: agesI
      split: option.split)

lemma on_host_state_ages: "ages b (on_thread_host_state env st g b)"
proof -
  have "ages b (advance_generation env g b)"
    by (simp add: advance_generation_def frame_simps ages_def)
  moreover have "ages c (drop_useless st c)" for c by (rule same_cache_ages) (simp_all add: drop_useless_def frame_simps)
  moreover have "ages c (refresh_selected env st g c)" for c
    by (rule same_cache_ages) (simp_all add: refresh_selected_def Let_def frame_simps split: option.split)
  ultimately show ?thesis unfolding on_thread_host_state_def by simp (meson ages_trans)
qed

lemma clients_age:
  "ages b (connect_thread_client env c b)" "ages b (disconnect_thread_client c b)" "ages b (dispose_threads b)"
  by (auto simp: connect_thread_client_def disconnect_thread_client_def dispose_threads_def frame_simps
      intro!: same_cache_ages)

lemma thread_next_ages: "thread_inv b \<Longrightarrow> ages b (thread_next env b e)"
  by (cases e)
     (simp_all add: calls_age read_thread_call_ages leases_age thread_resume_ages on_thread_notification_ages
       on_host_state_ages clients_age)

definition runs_to :: "threads \<Rightarrow> threads \<Rightarrow> bool" where
  "runs_to b b' \<longleftrightarrow> (thread_inv b \<longrightarrow> thread_inv b' \<and> ages b b')"

interpretation thread_machine: monotone_machine "thread_step env" runs_to for env
  by unfold_locales (auto simp: runs_to_def thread_step_def thread_next_inv thread_next_ages intro: ages_trans)

lemma run_ages: "thread_inv b \<Longrightarrow> ages b (fst (run_machine (thread_step env) b es))"
  using thread_machine.run_rel [of b env es] by (simp add: runs_to_def)

section \<open>After the disposal\<close>

text \<open>The coordinator asks the host for nothing and tells the clients nothing.\<close>

fun quiet_effect :: "thread_effect \<Rightarrow> bool" where
  "quiet_effect (Thread_Lease_Asked _) = False"
| "quiet_effect (Thread_Requested _ _ _) = False"
| "quiet_effect (Conversations_Changed _ _) = False"
| "quiet_effect _ = True"

definition hushed :: "threads \<Rightarrow> threads \<Rightarrow> bool" where
  "hushed b b' \<longleftrightarrow>
     td_disposed b' = td_disposed b \<and> td_cache b' = td_cache b \<and> set (td_tracked b') \<subseteq> set (td_tracked b)
     \<and> set (td_clients b') \<subseteq> set (td_clients b)
     \<and> (\<exists>es. td_history b' = td_history b @ es \<and> list_all quiet_effect es)"

lemma hushed_refl [simp]: "hushed b b"
  by (simp add: hushed_def)

lemma hushed_trans:
  assumes "hushed b c" "hushed c d"
  shows "hushed b d"
proof -
  obtain xs ys where "td_history c = td_history b @ xs" "list_all quiet_effect xs"
    "td_history d = td_history c @ ys" "list_all quiet_effect ys"
    using assms unfolding hushed_def by blast
  then have "\<exists>es. td_history d = td_history b @ es \<and> list_all quiet_effect es"
    by (intro exI [of _ "xs @ ys"]) simp
  with assms show ?thesis unfolding hushed_def by (metis order_trans)
qed

lemma hushed_log: "quiet_effect e \<Longrightarrow> hushed b c \<Longrightarrow> hushed b (log_thread e c)"
  by (rule hushed_trans) (auto simp: hushed_def log_thread_def)

lemma hushed_plain:
  "hushed b c \<Longrightarrow> hushed b (put_thread_task k t c)" "hushed b c \<Longrightarrow> hushed b (drop_thread_task k c)"
  "hushed b c \<Longrightarrow> hushed b (put_request k q c)" "hushed b c \<Longrightarrow> hushed b (new_call c)"
  "hushed b c \<Longrightarrow> hushed b (c\<lparr>td_acquiring := ks\<rparr>)" "hushed b c \<Longrightarrow> hushed b (c\<lparr>td_tasks := ts\<rparr>)"
  "hushed b c \<Longrightarrow> hushed b (c\<lparr>td_tracked := removeAll k (td_tracked c)\<rparr>)"
  "hushed b c \<Longrightarrow> hushed b (c\<lparr>td_clients := removeAll j (td_clients c)\<rparr>)"
  by (auto simp: hushed_def put_thread_task_def drop_thread_task_def put_request_def new_call_def)

lemma hushed_settle: "hushed b c \<Longrightarrow> hushed b (settle_thread k r c)"
  unfolding settle_thread_def by (intro hushed_log hushed_plain) simp_all

lemma hushed_release: "hushed b c \<Longrightarrow> hushed b (release_request k c)"
  unfolding release_request_def Let_def by (auto intro!: hushed_log hushed_plain)

lemma hushed_invalidate: "hushed b c \<Longrightarrow> hushed b (invalidate_request k e c)"
  unfolding invalidate_request_def Let_def
  by (auto intro!: hushed_plain split: option.split request_stage.split)

lemma hushed_finish: "hushed b c \<Longrightarrow> hushed b (finish_request k t r c)"
  unfolding finish_request_def by (intro hushed_plain hushed_release)

lemmas hushed_rules = hushed_settle hushed_release hushed_invalidate hushed_finish hushed_plain hushed_log hushed_refl

lemma disposed_begin_call: "td_disposed b \<Longrightarrow> hushed b (begin_thread_call args f b)"
  by (simp add: begin_thread_call_def Let_def hushed_rules)

lemma disposed_calls:
  assumes "td_disposed b"
  shows "hushed b (list_models env v b)" "hushed b (list_threads env v b)" "hushed b (start_thread_call env v b)"
    "hushed b (resume_thread_call env v b)" "hushed b (read_thread_call env v b)"
    "hushed b (archive_thread_call env v b)" "hushed b (select_thread_call env v b)"
  using assms
  by (auto simp: list_models_def list_threads_def start_thread_call_def resume_thread_call_def read_thread_call_def
      archive_thread_call_def select_thread_call_def intro!: disposed_begin_call hushed_rules split: sum.split)

lemma disposed_thread_answer: "td_disposed b \<Longrightarrow> snd (thread_answer env x ctx select v b) = b"
  by (simp add: thread_answer_def commit_allowed_def split: option.split)

lemma disposed_continues: "td_disposed b \<Longrightarrow> hushed b (call_continues env k call r b)"
  by (cases "(env, k, call, r, b)" rule: call_continues.cases)
     (auto simp: settle_answer_def refresh_answer_def refresh_thread_failed_def page_answer_def archive_answer_def Let_def
       disposed_thread_answer intro!: hushed_rules split: sum.split option.split)

lemma disposed_resume: "td_disposed b \<Longrightarrow> hushed b (thread_resume env k b)"
  by (auto simp: thread_resume_def request_with_lease_def request_answered_def operation_error_def
      intro!: disposed_continues hushed_rules split: option.split request_stage.split)

lemma disposed_leases:
  "hushed b (thread_lease_granted k g b)" "hushed b (thread_lease_denied k b)" "hushed b (thread_response k raw b)"
  by (auto simp: thread_lease_granted_def thread_lease_denied_def thread_response_def lease_race_def Let_def
      intro!: hushed_rules split: option.split request_stage.split)

lemma disposed_next:
  assumes "td_disposed b"
  shows "hushed b (thread_next env b e)"
  using assms
  by (cases e)
     (auto simp: disposed_calls disposed_leases disposed_resume on_thread_notification_def on_thread_host_state_def
       connect_thread_client_def disconnect_thread_client_def dispose_threads_def intro!: hushed_rules)

lemma drop_requests_tracked: "td_tracked (drop_requests e ks b) = filter (\<lambda>k. k \<notin> set ks) (td_tracked b)"
proof -
  have "td_tracked (drop_request e k c) = removeAll k (td_tracked c)" for k c
    by (simp add: drop_request_def release_request_def invalidate_request_def put_request_def put_thread_task_def
        log_thread_def Let_def split: option.split request_stage.split)
  then show ?thesis
    unfolding drop_requests_def
    by (induction ks arbitrary: b) (auto simp: removeAll_filter_not_eq intro: filter_cong)
qed

lemma hushed_drop_requests: "hushed b (drop_requests e ks b)"
proof -
  have "hushed c (drop_request e k c)" for k c unfolding drop_request_def by (intro hushed_rules)
  then show ?thesis unfolding drop_requests_def
    by (induction ks arbitrary: b) (auto intro: hushed_trans)
qed

text \<open>The table of tracked requests and the clients of a disposed coordinator are empty.\<close>

definition emptied :: "threads \<Rightarrow> bool" where
  "emptied b \<longleftrightarrow> (td_disposed b \<longrightarrow> td_tracked b = [] \<and> td_clients b = [])"

lemma hushed_emptied: "hushed b b' \<Longrightarrow> emptied b \<Longrightarrow> emptied b'"
  by (auto simp: hushed_def emptied_def)

lemma disposed_kept [frame_simps]:
  "td_disposed (asked_thread b) = td_disposed b" "td_disposed (log_thread e b) = td_disposed b"
  "td_disposed (settle_thread k r b) = td_disposed b" "td_disposed (put_thread_task k t b) = td_disposed b"
  "td_disposed (drop_thread_task k b) = td_disposed b" "td_disposed (put_request k q b) = td_disposed b"
  "td_disposed (release_request k b) = td_disposed b" "td_disposed (invalidate_request k x b) = td_disposed b"
  "td_disposed (drop_request x k b) = td_disposed b" "td_disposed (finish_request k t s b) = td_disposed b"
  "td_disposed (new_call b) = td_disposed b" "td_disposed (publish_if env m b) = td_disposed b"
  by (simp_all add: asked_thread_def log_thread_def settle_thread_def put_thread_task_def drop_thread_task_def
      put_request_def release_request_def invalidate_request_def drop_request_def finish_request_def new_call_def
      publish_if_def publish_threads_def Let_def split: option.split request_stage.split)

lemma disposed_kept_more [frame_simps]:
  "td_disposed (drop_requests e ks b) = td_disposed b"
  "td_disposed (begin_request env k call m params l b) = td_disposed b"
  "td_disposed (snd (thread_answer env x ctx select v b)) = td_disposed b"
  "td_disposed (refresh_thread_failed env i g n b) = td_disposed b"
  "td_disposed (lease_race k st b) = td_disposed b"
  "td_disposed (select_thread env x b) = td_disposed b"
proof -
  show "td_disposed (drop_requests e ks b) = td_disposed b"
    unfolding drop_requests_def by (induction ks arbitrary: b) (simp_all add: frame_simps)
qed (simp_all add: begin_request_def thread_answer_def refresh_thread_failed_def lease_race_def select_thread_def Let_def
    frame_simps split: option.split)

lemma begin_call_disposed:
  "(\<And>k x c. td_disposed (f k x c) = td_disposed c) \<Longrightarrow> td_disposed (begin_thread_call args f b) = td_disposed b"
  by (simp add: begin_thread_call_def Let_def frame_simps split: sum.split)

lemma calls_disposed [frame_simps]:
  "td_disposed (list_models env v b) = td_disposed b" "td_disposed (list_threads env v b) = td_disposed b"
  "td_disposed (start_thread_call env v b) = td_disposed b" "td_disposed (resume_thread_call env v b) = td_disposed b"
  "td_disposed (archive_thread_call env v b) = td_disposed b" "td_disposed (select_thread_call env v b) = td_disposed b"
  unfolding list_models_def list_threads_def start_thread_call_def resume_thread_call_def archive_thread_call_def
    select_thread_call_def
  by (rule begin_call_disposed; auto simp: frame_simps Let_def split: prod.split)+

lemma read_thread_call_disposed [frame_simps]: "td_disposed (read_thread_call env v b) = td_disposed b"
  by (auto simp: read_thread_call_def frame_simps intro!: begin_call_disposed split: sum.split)

lemma call_continues_disposed [frame_simps]: "td_disposed (call_continues env k call r b) = td_disposed b"
  by (cases "(env, k, call, r, b)" rule: call_continues.cases)
     (auto simp: settle_answer_def refresh_answer_def page_answer_def archive_answer_def Let_def frame_simps
       split: sum.split option.split)

lemma alive_next: "e \<noteq> Dispose_Threads \<Longrightarrow> td_disposed (thread_next env b e) = td_disposed b"
  by (cases e)
     (auto simp: frame_simps thread_lease_granted_def thread_lease_denied_def thread_response_def thread_resume_def
       request_with_lease_def request_answered_def on_thread_notification_def on_thread_host_state_def advance_generation_def
       drop_useless_def refresh_selected_def connect_thread_client_def disconnect_thread_client_def Let_def
       split: option.split request_stage.split host_answer.split)

lemma dispose_threads_emptied: "emptied b \<Longrightarrow> td_disposed (dispose_threads b) \<and> emptied (dispose_threads b)"
  using hushed_drop_requests
    [of "b\<lparr>td_disposed := True, td_lifecycle := td_lifecycle b + 1, td_list_revision := td_list_revision b + 1\<rparr>"
       Threads_Disposed "td_tracked b"]
  by (auto simp: dispose_threads_def emptied_def hushed_def drop_requests_tracked)

lemma thread_next_emptied: "emptied b \<Longrightarrow> emptied (thread_next env b e)"
proof (cases "e = Dispose_Threads")
  case True
  assume "emptied b"
  with True dispose_threads_emptied [of b] show ?thesis by simp
next
  case False
  assume b: "emptied b"
  show ?thesis
    using alive_next [OF False, of env b] disposed_next [of b env e] b hushed_emptied [of b "thread_next env b e"] by (cases "td_disposed b") (simp_all add: emptied_def)
qed

interpretation disposal: stateful "thread_step env" emptied for env
  by unfold_locales (simp add: thread_step_def thread_next_emptied)

lemma new_threads_emptied [simp]: "emptied (new_threads g)"
  by (simp add: emptied_def new_threads_def)

lemma disposed_run_quiet:
  "td_disposed b \<Longrightarrow>
     list_all quiet_effect (snd (run_machine (thread_step env) b es))
     \<and> td_cache (fst (run_machine (thread_step env) b es)) = td_cache b
     \<and> td_disposed (fst (run_machine (thread_step env) b es))"
proof (induction es arbitrary: b)
  case (Cons e es)
  have h: "hushed b (thread_next env b e)" by (rule disposed_next [OF Cons.prems])
  then obtain xs where "td_history (thread_next env b e) = td_history b @ xs" "list_all quiet_effect xs"
    unfolding hushed_def by blast
  moreover have "td_disposed (thread_next env b e)" "td_cache (thread_next env b e) = td_cache b"
    using h Cons.prems by (simp_all add: hushed_def)
  ultimately show ?case using Cons.IH by (simp add: thread_step_def)
qed simp

end
