(* ===== verification/ThreadPages.thy ===== *)
theory ThreadPages
  imports ThreadRuns PathFacts
begin

text \<open>
  Three facts the properties of the thread coordinator rest on: the answer to a list of all threads replaces
  the table, an answer to an operation older than an archiving keeps the thread out, and the place of a new
  thread lies in its workspace.
\<close>

abbreviation thread_run :: "thread_env \<Rightarrow> int \<Rightarrow> thread_event list \<Rightarrow> threads" where
  "thread_run env g es \<equiv> fst (run_machine (thread_step env) (new_threads g) es)"

lemma thread_run_inv: "thread_inv (thread_run env g es)"
  by (rule thread_machine.run_inv) simp

lemma thread_run_emptied: "emptied (thread_run env g es)"
  by (rule disposal.run_inv) simp

section \<open>A first page\<close>

lemma keys_within_length: "map_ok m \<Longrightarrow> keys_within m m' \<Longrightarrow> length m \<le> length m'"
proof -
  assume m: "map_ok m" "keys_within m m'"
  have "length m = card (set (map_keys m))" using m(1) by (simp add: map_ok_def distinct_card)
  also have "\<dots> \<le> card (set (map_keys m'))"
    using m(2) by (intro card_mono) (auto simp: keys_within_def map_has_keys)
  also have "\<dots> \<le> length m'" using card_length [of "map_keys m'"] by simp
  finally show ?thesis .
qed

definition filed :: "thread_summary list \<Rightarrow> (jsstr, thread_summary) jsmap" where
  "filed ts = map (\<lambda>s. (summary_id s, s)) ts"

lemma filed_has [simp]: "map_has (filed ts) i \<longleftrightarrow> i \<in> summary_id ` set ts"
  by (auto simp: filed_def map_has_def image_comp comp_def)

lemma filed_snoc: "summary_id s \<notin> summary_id ` set ts \<Longrightarrow> map_set (filed ts) (summary_id s) s = filed (ts @ [s])"
  using filed_has [of ts "summary_id s"] by (simp add: map_set_def) (simp add: filed_def)

text \<open>A table built from a page at a revision above all tombstones and early statuses.\<close>

definition page_table :: "nat \<Rightarrow> thread_summary list \<Rightarrow> thread_cache \<Rightarrow> bool" where
  "page_table r ts c \<longleftrightarrow>
     known_threads c = filed ts \<and> revisions_below r (archived_at c) \<and> early_below r (early_statuses c)
     \<and> keys_within (thread_revisions c) (known_threads c)"

lemma merge_fresh:
  assumes "page_table r ts c" "summary_id s \<notin> summary_id ` set ts" "length ts < max_cached_threads"
  shows "page_table r (ts @ [s]) (snd (merge_thread s r c))"
    "selected_thread (snd (merge_thread s r c)) = selected_thread c"
proof -
  have g: "map_get (known_threads c) (summary_id s) = None"
    using assms(1,2) by (auto simp: page_table_def map_has_get [symmetric] dest: map_has_Some)
      (metis filed_has map_has_get not_Some_eq)
  have "map_get (thread_revisions c) (summary_id s) = None"
    using assms(1) g by (auto simp: page_table_def keys_within_def map_has_get)
  moreover have "\<not> later_than r (archived_at c) (summary_id s)"
    using assms(1) unfolding page_table_def later_than_def revisions_below_def
    by (simp add: linorder_not_less split: option.split)
  ultimately have "\<not> merge_refused s r c" using g by (simp add: merge_refused_def later_than_def)
  moreover have "(case map_get (early_statuses c) (summary_id s) of
      Some (st, n) \<Rightarrow> if r < n then Some st else None | None \<Rightarrow> None) = None"
    using assms(1) unfolding page_table_def early_below_def
    by (fastforce simp: linorder_not_less split: option.split prod.split)
  ultimately have m: "snd (merge_thread s r c) = trim_threads (mark_thread (summary_id s) False (put_thread s c))"
    by (simp add: merge_thread_def Let_def)
  have k: "known_threads (mark_thread (summary_id s) False (put_thread s c)) = filed (ts @ [s])"
    using assms(1,2) g by (simp add: put_thread_def page_table_def filed_snoc)
  then have "length (known_threads (mark_thread (summary_id s) False (put_thread s c))) \<le> max_cached_threads"
    using assms(3) by (simp add: filed_def)
  from m trim_threads_id [OF this]
  have e: "snd (merge_thread s r c) = mark_thread (summary_id s) False (put_thread s c)" by simp
  show "page_table r (ts @ [s]) (snd (merge_thread s r c))"
    using assms(1) k unfolding e page_table_def
    by (auto simp: mark_thread_def put_thread_def next_revision_def Let_def keys_within_def)
  show "selected_thread (snd (merge_thread s r c)) = selected_thread c" by (simp add: e)
qed

lemma merge_page_fresh:
  "page_table r ts (snd acc) \<Longrightarrow> distinct (map summary_id (ts @ us)) \<Longrightarrow> length (ts @ us) \<le> max_cached_threads \<Longrightarrow>
     page_table r (ts @ us) (snd (merge_page us r acc))
     \<and> selected_thread (snd (merge_page us r acc)) = selected_thread (snd acc)"
proof (induction us arbitrary: ts acc)
  case (Cons s us)
  let ?acc = "let m = merge_thread s r (snd acc) in (fst m \<or> fst acc, snd m)"
  have "page_table r (ts @ [s]) (snd ?acc)" "selected_thread (snd ?acc) = selected_thread (snd acc)"
    using merge_fresh [of r ts "snd acc" s] Cons.prems by (auto simp: Let_def)
  with Cons.IH [of "ts @ [s]" ?acc] Cons.prems show ?case by (simp add: merge_page_def)
qed (simp add: merge_page_def)

lemma those_length: "those xs = Some ys \<Longrightarrow> length ys = length xs"
  by (induction xs arbitrary: ys) (auto split: option.splits)

lemma thread_page_length: "normalize_thread_page px v = Some page \<Longrightarrow> length (page_threads page) \<le> max_page_size"
  by (auto simp: normalize_thread_page_def list_field_def limited_array_def bind_eq_Some_conv
      dest!: those_length split: option.splits jsvalue.splits if_splits)

lemma commit_page_replaces:
  assumes "thread_cache_ok c" "context_revision ctx = cache_revision c" "distinct (map summary_id (page_threads page))"
    "length (page_threads page) \<le> max_cached_threads"
  shows "known_threads (snd (commit_page page True ctx c)) = filed (page_threads page)"
    "selected_thread (snd (commit_page page True ctx c)) =
       (if threads_next page = None
           \<and> (case selected_thread c of None \<Rightarrow> True | Some i \<Rightarrow> i \<notin> summary_id ` set (page_threads page))
        then None else selected_thread c)"
proof -
  let ?c0 = "c\<lparr>known_threads := [], thread_revisions := [], status_revisions := []\<rparr>"
  let ?m = "merge_page (page_threads page) (context_revision ctx) (known_threads c \<noteq> [], ?c0)"
  have "page_table (context_revision ctx) [] ?c0"
    using assms(1,2) by (simp add: page_table_def filed_def thread_cache_ok_def cache_parts)
  from merge_page_fresh [of _ _ "(known_threads c \<noteq> [], ?c0)" "page_threads page"] this assms(3,4)
  have m: "page_table (context_revision ctx) (page_threads page) (snd ?m)"
    "selected_thread (snd ?m) = selected_thread c" by fastforce+
  then have "trim_threads (snd ?m) = snd ?m"
    using assms(4) by (intro trim_threads_id) (simp add: page_table_def filed_def)
  with m assms(2) show "known_threads (snd (commit_page page True ctx c)) = filed (page_threads page)"
    "selected_thread (snd (commit_page page True ctx c)) =
       (if threads_next page = None
           \<and> (case selected_thread c of None \<Rightarrow> True | Some i \<Rightarrow> i \<notin> summary_id ` set (page_threads page))
        then None else selected_thread c)"
    by (auto simp: commit_page_def Let_def page_table_def select_in_cache_def split: option.splits)
qed

section \<open>Older answers\<close>

fun call_context :: "thread_call \<Rightarrow> operation_context option" where
  "call_context (List_Threads _ _ _ ctx) = Some ctx"
| "call_context (Start_Thread ctx) = Some ctx"
| "call_context (Resume_Thread _ ctx) = Some ctx"
| "call_context (Read_Thread _ ctx) = Some ctx"
| "call_context (Refresh_Thread _ _ _ ctx) = Some ctx"
| "call_context _ = None"

lemma thread_answer_keeps_out:
  assumes "buried i a (td_cache b)" "context_revision ctx < a" "\<not> map_has (known_threads (td_cache b)) i"
  shows "\<not> map_has (known_threads (td_cache (snd (thread_answer env x ctx select v b)))) i"
proof -
  have "entombed i a (snd (commit_thread s ctx select (td_cache b)))" if "commit_allowed ctx b" for s
    using assms that by (intro commit_thread_entombed buried_entombed) (auto simp: commit_allowed_def)
  with assms(3) show ?thesis by (auto simp: thread_answer_def frame_simps entombed_def split: option.split)
qed

lemma page_answer_keeps_out:
  assumes "buried i a (td_cache b)" "context_revision ctx < a" "\<not> map_has (known_threads (td_cache b)) i"
  shows "\<not> map_has (known_threads (td_cache (page_answer env k first archived operation ctx v b))) i"
proof -
  have "entombed i a (snd (commit_page page first ctx (td_cache b)))"
    if "eviction_floor (td_cache b) \<le> context_revision ctx" for page
    using assms that by (intro commit_page_entombed buried_entombed) auto
  with assms(3) show ?thesis by (auto simp: page_answer_def frame_simps entombed_def split: option.split)
qed

lemma refresh_failed_known: "known_threads (td_cache (refresh_thread_failed env i g n b)) = known_threads (td_cache b)"
  by (simp add: refresh_thread_failed_def frame_simps select_in_cache_def)

lemma call_continues_keeps_out:
  assumes "buried i a (td_cache b)" "context_revision ctx < a" "\<not> map_has (known_threads (td_cache b)) i"
    "call_context call = Some ctx"
  shows "\<not> map_has (known_threads (td_cache (call_continues env k call (Inr v) b))) i"
  using assms(4) thread_answer_keeps_out [OF assms(1-3)] page_answer_keeps_out [OF assms(1-3)]
  by (cases call) (simp_all add: settle_answer_def refresh_answer_def Let_def frame_simps refresh_failed_known
      split: sum.split)

section \<open>The place of a thread\<close>

lemma split_at_snoc: "p d \<Longrightarrow> split_at p (s @ [d]) = split_at p s @ [[]]"
  by (induction s) (auto split: list.splits)

lemma resolve_segments_snoc: "resolve_segments up (ss @ [[]]) acc = resolve_segments up ss acc"
  by (induction up ss acc rule: resolve_segments.induct) (auto split: list.splits)

lemma segments_slash: "posix_segments up (s @ [slash]) = posix_segments up s"
  by (simp add: posix_segments_def split_at_snoc resolve_segments_snoc)

lemma location_absolute: "posix_absolute s \<Longrightarrow> location d s = posix_segments False s"
proof -
  assume s: "posix_absolute s"
  then have "posix_resolve d [s] = slash # posix_join (posix_segments False (s @ [slash]))"
    by (simp add: posix_resolve_def posix_absolute_def Let_def)
  then show ?thesis
    by (simp add: location_def segments_slash segments_of_join posix_segments_proper)
qed

lemma posix_normalize_absolute:
  assumes "posix_absolute s"
  shows "posix_absolute (posix_normalize s)" "location d (posix_normalize s) = location d s"
    "location d s = [] \<Longrightarrow> posix_normalize s = [slash]"
proof -
  let ?ss = "posix_segments False s"
  have n: "posix_normalize s =
      (if posix_join ?ss = [] then [slash] else slash # posix_join ?ss @ (if last s = slash then [slash] else []))"
    using assms by (simp add: posix_normalize_def Let_def posix_absolute_def)
  show a: "posix_absolute (posix_normalize s)" by (simp add: n posix_absolute_def)
  have e: "?ss = []" if "posix_join ?ss = []"
    using that posix_segments_proper [of s] segments_of_join [of ?ss False]
    by (simp add: posix_segments_def)
  have "posix_segments False (posix_normalize s) = ?ss"
  proof (cases "posix_join ?ss = []")
    case True
    with n e show ?thesis by (simp add: posix_segments_def)
  next
    case False
    have j: "posix_segments False (slash # posix_join ?ss) = ?ss" by (rule segments_of_join [OF posix_segments_proper])
    with segments_slash [of False "slash # posix_join ?ss"] have "posix_segments False (slash # posix_join ?ss @ [slash]) = ?ss"
      by simp
    with n j False show ?thesis by simp
  qed
  with a assms show "location d (posix_normalize s) = location d s" by (simp add: location_absolute)
  show "location d s = [] \<Longrightarrow> posix_normalize s = [slash]"
    using assms n by (simp add: location_absolute posix_join_def)
qed

lemma workspace_cwd_inside:
  assumes "normalize_workspace_cwd (posix_paths d) Posix win ps = Inr place"
  shows "\<exists>root rest. text_field ps ''workspaceRoot'' max_path_length = Some root \<and> location d root \<noteq> []
           \<and> location d place = location d root @ rest"
proof -
  have normal: "path_normalize (posix_paths d) = posix_normalize" by (simp add: posix_paths_def)
  have "posix_absolute [slash]" by (simp add: posix_absolute_def)
  with assms obtain root where r: "text_field ps ''workspaceRoot'' max_path_length = Some root"
    and q: "posix_absolute root" "posix_normalize root \<noteq> [slash]"
    and w: "is_within (posix_paths d) (posix_normalize root) place"
    by (auto simp: normalize_workspace_cwd_def and_then_Inr or_bad_def Let_def is_qualified_path_def path_root_def
        posix_normalize_absolute(1) normal split: option.splits if_splits)
  from within_posix [OF w] obtain rest where "location d place = location d (posix_normalize root) @ rest" by blast
  with posix_normalize_absolute(2) [OF q(1), of d] posix_normalize_absolute(3) [OF q(1), of d] q(2) r
  show ?thesis by auto
qed

end
