(* ===== verification/ThreadClaims.thy ===== *)
theory ThreadClaims
  imports ThreadPages
begin

text \<open>
  The properties of the thread coordinator (\<open>src/node/ride-codex-thread-coordinator.ts\<close>) in every run:
  archived threads, leases, bounds, published snapshots, first pages and disposal; with a run that shows
  that their hypotheses can hold.
\<close>

section \<open>The properties\<close>

lemma archived_buried: "map_get (archived_at c) i = Some a \<Longrightarrow> buried i a c"
  by (simp add: buried_def)

lemma still_buried:
  assumes "map_get (archived_at (td_cache (thread_run env g es))) i = Some a"
    "td_generation (thread_run env g (es @ es')) = td_generation (thread_run env g es)"
  shows "buried i a (td_cache (thread_run env g (es @ es')))"
proof -
  have "ages (thread_run env g es) (thread_run env g (es @ es'))"
    using run_ages [OF thread_run_inv [of env g es], of env es'] by (simp add: run_machine_append)
  with assms(2) archived_buried [OF assms(1)] show ?thesis by (auto simp: ages_def keeps_buried_def)
qed

lemma thread_resume_keeps_out:
  assumes "buried i a (td_cache b)" "context_revision ctx < a" "\<not> map_has (known_threads (td_cache b)) i"
    "map_get (td_tasks b) k = Some t" "call_context (task_call t) = Some ctx"
  shows "\<not> map_has (known_threads (td_cache (thread_resume env k b))) i"
proof -
  have "\<not> map_has (known_threads (td_cache (call_continues env k (task_call t) r b))) i" for r
  proof (cases r)
    case (Inl e)
    with assms(3) show ?thesis by (cases "task_call t") (simp_all add: frame_simps refresh_failed_known)
  next
    case (Inr v)
    with call_continues_keeps_out [OF assms(1-3,5)] show ?thesis by simp
  qed
  with assms(3,4) show ?thesis
    by (simp add: thread_resume_def request_with_lease_def request_answered_def Let_def frame_simps
        split: request_stage.split option.split host_answer.split)
qed

text \<open>C15. A thread that was archived stays gone: within a generation of the host, the answer to an operation
  that began before the thread was archived does not bring it back (unless something newer has done so already),
  whatever happened since, even when its tombstone had to give way.\<close>

theorem archived_stays_gone:
  assumes "map_get (archived_at (td_cache (thread_run env g es))) i = Some a"
    "td_generation (thread_run env g (es @ es')) = td_generation (thread_run env g es)"
    "map_get (td_tasks (thread_run env g (es @ es'))) k = Some t"
    "call_context (task_call t) = Some ctx" "context_revision ctx < a"
    "\<not> map_has (known_threads (td_cache (thread_run env g (es @ es')))) i"
  shows "\<not> map_has (known_threads (td_cache (thread_run env g (es @ es' @ [Thread_Resume k])))) i"
  using thread_resume_keeps_out [OF still_buried [OF assms(1,2)] assms(5,6,3,4), of env]
  by (simp add: run_machine_append thread_step_def flip: append_assoc)

section \<open>A sample run\<close>

definition thread_sample :: thread_env where
  "thread_sample =
     \<lparr>denv_px = (\<lambda>_. False), denv_style = Posix, denv_paths = posix_paths [slash], denv_root = (\<lambda>s. s),
      denv_collate = (\<lambda>s t. 0), denv_acquire = (\<lambda>_. True), denv_request = (\<lambda>_. Host_Waits)\<rparr>"

definition archived_note :: jsvalue where
  "archived_note = JsObject True [(js ''threadId'', Data_Property True (JsText (js ''t'')))]"

lemma read_sample_id: "standalone_identifier (JsText (js ''t'')) = Inr (js ''t'')"
  by (simp add: standalone_identifier_def limited_text_def or_bad_def and_then_def is_identifier_def js_def word_char_def
      ascii_letter_def max_id_length_def)

lemma read_archived_note: "archived_notification thread_sample archived_note = Some (js ''t'')"
  by (simp add: archived_notification_def archived_note_def validated_record_def plain_record_def identifier_field_def
      text_field_def data_value_def limited_text_def is_identifier_def js_def word_char_def ascii_letter_def
      max_id_length_def thread_sample_def max_plain_nodes_def max_plain_depth_def max_plain_keys_def max_path_length_def)

lemmas thread_simps =
  thread_step_def thread_sample_def new_threads_def read_thread_call_def read_sample_id begin_thread_call_def begin_request_def
  new_call_def context_of_def empty_cache_def log_thread_def asked_thread_def put_request_def put_thread_task_def
  max_active_requests_def map_set_def map_has_def map_get_def map_delete_def map_keys_def Let_def

text \<open>A read of the thread begins, the thread is archived, the lease comes and the request is under way.\<close>

definition read_steps :: "thread_event list" where
  "read_steps = [Read_Thread_Call (JsText (js ''t'')), Thread_Notified (js ''thread/archived'') archived_note 7]"

definition data :: "(string \<times> jsvalue) list \<Rightarrow> jsvalue" where
  "data ps = JsObject True (map (\<lambda>(k, v). (js k, Data_Property True v)) ps)"

definition read_reply :: jsvalue where
  "read_reply = data [(''thread'', data
     [(''id'', JsText (js ''t'')), (''preview'', JsText []), (''name'', JsNull), (''modelProvider'', JsText (js ''m'')),
      (''createdAt'', JsNumber (NInt 1)), (''updatedAt'', JsNumber (NInt 2)), (''recencyAt'', JsNull),
      (''cwd'', JsText (js ''w'')), (''status'', data [(''type'', JsText (js ''idle''))]),
      (''ephemeral'', JsBool False), (''turns'', JsArray [])])]"

lemma read_reply_read:
  "normalize_thread_response (denv_px thread_sample) read_reply =
     Some \<lparr>summary_id = js ''t'', summary_preview = [], summary_name = None, summary_provider = js ''m'',
           summary_created = 1, summary_updated = 2, summary_recency = None, summary_cwd = js ''w'',
           summary_status = \<lparr>state_kind = Idle_Thread, state_flags = []\<rparr>\<rparr>"
proof -
  have w: "word_char 0x74" "word_char 0x6D" by (simp_all add: word_char_def ascii_letter_def)
  have t: "js ''t'' = [0x74]" "js ''m'' = [0x6D]" "js ''w'' = [0x77]" "0 \<notin> set (js ''idle'')"
    by (simp_all add: js_def)
  show ?thesis
    by (simp add: normalize_thread_response_def normalize_thread_def thread_texts_def thread_times_def timestamp_field_def
        timestamp_of_def nullable_field_def normalize_status_def read_reply_def data_def validated_record_def
        plain_record_def identifier_field_def text_field_def free_text_field_def data_value_def limited_text_def
        limited_array_def boolean_field_def is_identifier_def thread_sample_def max_plain_nodes_def max_plain_depth_def
        max_plain_keys_def max_plain_array_def max_path_length_def max_id_length_def max_model_length_def
        max_preview_length_def max_name_length_def is_finite_number_def safe_int_def max_safe_integer_def w t)
qed

definition late_steps :: "thread_event list" where
  "late_steps = [Thread_Lease_Granted 0 7, Thread_Resume 0, Thread_Response 0 (Some read_reply), Thread_Resume 0]"

definition read_begun :: threads where
  "read_begun =
     put_thread_task 0
       \<lparr>task_call = Read_Thread (js ''t'') \<lparr>context_lifecycle = 0, context_revision = 0, context_selection = 0\<rparr>,
        task_method = ''thread/read'', task_params = read_params (js ''t''), task_lifecycle = 0, task_stage = Awaits_Lease\<rparr>
       ((new_threads 7)
         \<lparr>td_requests := [(0, new_request)], td_tracked := [0], td_acquiring := [0], td_next_key := 1,
          td_questions := 1, td_history := [Thread_Lease_Asked 0]\<rparr>)"

lemma read_begins: "read_thread_call thread_sample (JsText (js ''t'')) (new_threads 7) = read_begun"
  by (simp add: thread_simps read_begun_def)

lemma archive_noted:
  "on_thread_notification thread_sample (js ''thread/archived'') archived_note 7 b =
     (if td_disposed b \<or> td_generation b \<noteq> 7 then b
      else publish_if thread_sample (archive_in_cache (js ''t'') (td_cache b)) b)"
  by (simp add: on_thread_notification_def read_archived_note safe_int_def max_safe_integer_def)

lemma sample_archived:
  "archive_in_cache (js ''t'') empty_cache = (False, empty_cache\<lparr>archived_at := [(js ''t'', 1)], cache_revision := 1\<rparr>)"
  by (simp add: archive_in_cache_def empty_cache_def next_revision_def trim_tombstones_def max_tombstones_def map_set_def
      map_delete_def map_has_def Let_def)

lemma read_steps_run:
  "thread_run thread_sample 7 read_steps =
     read_begun\<lparr>td_cache := empty_cache\<lparr>archived_at := [(js ''t'', 1)], cache_revision := 1\<rparr>\<rparr>"
proof -
  have "\<not> td_disposed read_begun" "td_generation read_begun = 7" "td_cache read_begun = empty_cache"
    by (simp_all add: read_begun_def put_thread_task_def new_threads_def)
  then show ?thesis by (simp add: read_steps_def thread_step_def read_begins archive_noted sample_archived publish_if_def)
qed

lemma late_steps_run:
  "thread_run thread_sample 7 (read_steps @ late_steps) =
     put_thread_task 0
       \<lparr>task_call = Read_Thread (js ''t'') \<lparr>context_lifecycle = 0, context_revision = 0, context_selection = 0\<rparr>,
        task_method = ''thread/read'', task_params = read_params (js ''t''), task_lifecycle = 0,
        task_stage = Request_Over (Inr read_reply)\<rparr>
       ((new_threads 7)
         \<lparr>td_cache := empty_cache\<lparr>archived_at := [(js ''t'', 1)], cache_revision := 1\<rparr>,
          td_requests := [(0, \<lparr>request_generation = Some 7, request_released = True, request_invalid = None\<rparr>)],
          td_tracked := [], td_acquiring := [], td_next_key := 1, td_questions := 2,
          td_history := [Thread_Lease_Asked 0, Thread_Lease_Given 0,
            Thread_Requested 0 ''thread/read'' (read_params (js ''t'')), Thread_Lease_Released 0]\<rparr>)"
  using read_steps_run
  by (simp add: run_machine_append read_begun_def late_steps_def thread_simps thread_lease_granted_def valid_generation_def safe_int_def
      max_safe_integer_def request_of_def bindable_def new_request_def lease_race_def thread_resume_def
      request_with_lease_def operation_error_def thread_response_def request_answered_def finish_request_def
      release_request_def)

text \<open>The answer, a good one, comes after the thread was archived.\<close>

theorem archived_stays_gone_witness:
  "normalize_thread_response (denv_px thread_sample) read_reply \<noteq> None
   \<and> \<not> map_has (known_threads (td_cache (thread_run thread_sample 7 (read_steps @ late_steps @ [Thread_Resume 0])))) (js ''t'')"
proof (intro conjI)
  show "normalize_thread_response (denv_px thread_sample) read_reply \<noteq> None" by (simp add: read_reply_read)
  show "\<not> map_has (known_threads (td_cache (thread_run thread_sample 7 (read_steps @ late_steps @ [Thread_Resume 0])))) (js ''t'')"
    by (rule archived_stays_gone [where a = 1 and k = 0
      and t = "\<lparr>task_call = Read_Thread (js ''t'') \<lparr>context_lifecycle = 0, context_revision = 0, context_selection = 0\<rparr>,
        task_method = ''thread/read'', task_params = read_params (js ''t''), task_lifecycle = 0,
        task_stage = Request_Over (Inr read_reply)\<rparr>"
      and ctx = "\<lparr>context_lifecycle = 0, context_revision = 0, context_selection = 0\<rparr>"])
    (simp_all add: read_steps_run late_steps_run, simp_all add: read_begun_def put_thread_task_def new_threads_def
      empty_cache_def map_get_def map_set_def map_has_def)
qed

section \<open>Leases, tables and snapshots\<close>

text \<open>C16. No lease that a request got is lost: in every run none is returned twice, only leases that came are
  returned, one that is not returned yet belongs to a request that is tracked, of which there are at most
  128; and of a disposed coordinator every lease is returned, also one that comes after the disposal.\<close>

theorem thread_leases_returned:
  "let b = thread_run env g es in
     distinct (leases_returned b) \<and> set (leases_returned b) \<subseteq> set (leases_given b)
     \<and> set (leases_given b) - set (leases_returned b) \<subseteq> set (td_tracked b)
     \<and> length (td_tracked b) \<le> max_active_requests
     \<and> (td_disposed b \<longrightarrow> set (leases_returned b) = set (leases_given b))"
proof -
  let ?b = "thread_run env g es"
  have "ledger_ok (td_requests ?b) (td_tracked ?b) (td_acquiring ?b) (td_next_key ?b) (leases_given ?b) (leases_returned ?b)"
    using thread_run_inv [of env g es] by (simp add: thread_inv_def leases_ok_def)
  then have "distinct (leases_returned ?b)" "set (leases_returned ?b) \<subseteq> set (leases_given ?b)"
    "set (leases_given ?b) - set (leases_returned ?b) \<subseteq> set (td_tracked ?b)"
    "length (td_tracked ?b) \<le> max_active_requests"
    by (auto simp: ledger_ok_def)
  with thread_run_emptied [of env g es] show ?thesis by (auto simp: Let_def emptied_def)
qed

lemma distinct_one: "distinct xs \<Longrightarrow> set xs = {x} \<Longrightarrow> xs = [x]"
  by (cases xs; cases "tl xs") auto

text \<open>A lease that comes after the disposal.\<close>

theorem thread_leases_returned_witness:
  "leases_returned (thread_run thread_sample 7
     [Read_Thread_Call (JsText (js ''t'')), Dispose_Threads, Thread_Lease_Granted 0 7]) = [0]"
proof -
  let ?b = "thread_run thread_sample 7 [Read_Thread_Call (JsText (js ''t'')), Dispose_Threads, Thread_Lease_Granted 0 7]"
  have "td_disposed ?b" "leases_given ?b = [0]"
    by (simp_all add: thread_step_def read_begins)
      (simp_all add: read_begun_def dispose_threads_def drop_requests_def drop_request_def invalidate_request_def
        release_request_def request_of_def new_request_def thread_lease_granted_def valid_generation_def safe_int_def
        max_safe_integer_def bindable_def lease_race_def thread_simps leases_given_def)
  with thread_leases_returned [of thread_sample 7
      "[Read_Thread_Call (JsText (js ''t'')), Dispose_Threads, Thread_Lease_Granted 0 7]"]
  have "distinct (leases_returned ?b)" "set (leases_returned ?b) = {0}" by (simp_all add: Let_def)
  then show ?thesis by (rule distinct_one)
qed

text \<open>In every run the tables of the coordinator keep their bounds.\<close>

theorem thread_tables_bounded:
  "let c = td_cache (thread_run env g es) in
     length (known_threads c) \<le> 500 \<and> length (thread_revisions c) \<le> 500 \<and> length (status_revisions c) \<le> 500
     \<and> length (early_statuses c) \<le> 512 \<and> length (archived_at c) \<le> 512 \<and> eviction_floor c \<le> cache_revision c"
proof -
  have c: "thread_cache_ok (td_cache (thread_run env g es))" using thread_run_inv [of env g es] by (simp add: thread_inv_def)
  then have "length (thread_revisions (td_cache (thread_run env g es))) \<le> length (known_threads (td_cache (thread_run env g es)))"
    "length (status_revisions (td_cache (thread_run env g es))) \<le> length (known_threads (td_cache (thread_run env g es)))"
    by (auto simp: thread_cache_ok_def cache_parts intro!: keys_within_length)
  with c show ?thesis
    by (simp add: thread_cache_ok_def cache_parts Let_def max_cached_threads_def max_pending_statuses_def max_tombstones_def)
qed

text \<open>Every snapshot that a client gets lists at most 500 threads, none twice, the last updated first.\<close>

theorem thread_snapshots_sorted:
  assumes "Conversations_Changed c s \<in> set (td_history (thread_run env g es))"
  shows "length (snapshot_threads s) \<le> max_cached_threads \<and> newest_first (snapshot_threads s)
    \<and> distinct (map summary_id (snapshot_threads s))"
proof -
  have "s \<in> set (publications (thread_run env g es))"
    using assms by (force simp: publications_def)
  with thread_run_inv [of env g es] have "snapshot_ok s" by (auto simp: thread_inv_def list_all_iff)
  then show ?thesis by (simp add: snapshot_ok_def)
qed

text \<open>The answer to a list of all threads, when nothing has happened since it was asked for, is the table of
  threads from then on: those of the page, in its order, and no others.\<close>

theorem first_page_replaces:
  assumes "b = thread_run env g es" "\<not> td_disposed b" "normalize_thread_page (denv_px env) v = Some page"
    and "distinct (map summary_id (page_threads page))"
  shows "map snd (known_threads (td_cache (page_answer env k True False (td_list_revision b) (context_of b) v b))) =
    page_threads page"
proof -
  have ok: "thread_cache_ok (td_cache b)" using thread_run_inv [of env g es] assms(1) by (simp add: thread_inv_def)
  have "length (page_threads page) \<le> max_cached_threads"
    using thread_page_length [OF assms(3)] by (simp add: max_page_size_def max_cached_threads_def)
  from commit_page_replaces(1) [OF ok _ assms(4) this, of "context_of b"]
  have "known_threads (snd (commit_page page True (context_of b) (td_cache b))) = filed (page_threads page)"
    by (simp add: context_of_def)
  moreover have "eviction_floor (td_cache b) \<le> cache_revision (td_cache b)"
    using ok by (simp add: thread_cache_ok_def cache_parts)
  ultimately show ?thesis
    using assms(2,3) by (simp add: page_answer_def frame_simps context_of_def filed_def comp_def)
qed

text \<open>A disposed coordinator asks the host for nothing more and tells no client anything, and it keeps no
  request and no client.\<close>

theorem thread_dispose_silent:
  "let b = thread_run env g (es @ [Dispose_Threads]); r = run_machine (thread_step env) b later in
     list_all quiet_effect (snd r) \<and> td_tracked (fst r) = [] \<and> td_clients (fst r) = []"
proof -
  let ?b = "thread_run env g (es @ [Dispose_Threads])"
  have "td_disposed ?b"
    using dispose_threads_emptied [OF thread_run_emptied [of env g es]] by (simp add: run_machine_append thread_step_def)
  moreover have "emptied (fst (run_machine (thread_step env) ?b later))"
    by (rule disposal.run_inv) (rule thread_run_emptied)
  ultimately show ?thesis using disposed_run_quiet [of ?b env later] by (auto simp: Let_def emptied_def)
qed

end
