(* ===== verification/Spec2Isabelle.thy ===== *)
theory Spec2Isabelle
  imports ClientBehaviour ReducerSafety AuthBrokerFacts ApprovalSafety ScopeFacts PathFacts TurnClaims
    QueueBoundaries ThreadClaims
begin

text \<open>
  A verification development for the Codex integration of R-IDE, the TypeScript extension under
  \<open>src/app/theia-extensions/codex/src\<close> (paths below are relative to it). The extension runs an
  external app server as a child process, speaks JSON-RPC with it over lines of JSON, and brings
  conversations, approvals and authentication to the user interface. The development follows
  the data: bytes from the process, lines, messages, the client that pairs requests and responses;
  then the events of a turn, from the serializer in the backend to the reducer in the browser; then
  authentication, from untrusted values to the broker that publishes its state.

  \<^bold>\<open>Shared theories.\<close> \<open>Prelude\<close>: fact collections, safe integers, the locales \<open>stateful\<close> (a step
  function keeps an invariant, hence every run does) and \<open>monotone_machine\<close> (a relation between the
  state before and after a run). \<open>JsString\<close>: strings as 16-bit code units, UTF-8 length, \<open>truncateUtf8\<close>.
  \<open>JsNumber\<close>: numbers as JSON can denote them, rounding to doubles, decimal digits. \<open>Json\<close>: values,
  \<open>JSON.stringify\<close>, \<open>JSON.parse\<close> and their round trip. \<open>Utf8\<close>: the decoder. \<open>JsMap\<close>: insertion ordered
  maps and the locale \<open>keyed_store\<close>, interpreted on them. \<open>JsValue\<close>: JavaScript values of unknown shape,
  with accessors, and the combinators for fallible functions.

  \<^bold>\<open>The app server connection.\<close> \<open>Framer\<close> is \<open>node/ride-codex-jsonl-framer.ts\<close>: chunks to lines, with
  the refinement to splitting the whole stream. \<open>Validator\<close> is \<open>common/ride-codex-methods.ts\<close> and
  \<open>node/ride-codex-message-validator.ts\<close>. \<open>Wire\<close> composes framing, decoding, parsing and validation.
  \<open>Client\<close> is \<open>node/ride-codex-jsonl-client.ts\<close>: the record \<open>client\<close> holds the private fields and a
  history of effects; the transport and the listeners, which may call the client back while they run,
  are the parameter \<open>env\<close>, which gives the finite list of calls each one makes. \<open>ClientSafety\<close> reduces every reaction to
  elementary steps (\<open>micro\<close>) and proves the invariants of all runs; \<open>ClientBehaviour\<close> states what single
  operations do on the wire.

  \<^bold>\<open>Turn events.\<close> \<open>Events\<close> is \<open>common/ride-codex-events.ts\<close>. The other theories are
  \<open>browser/ride-codex-event-reducer.ts\<close>: \<open>EventWire\<close> reads a batch (\<open>parseSafeBatch\<close>), \<open>EventQueue\<close> merges it
  into the bounded queue (\<open>#rebuildPendingIdentity\<close>), \<open>EventState\<close> applies batches to the turn and trims what
  is retained, \<open>QueueBoundaries\<close> proves when the queue takes a batch with all boundaries, \<open>Reducer\<close> is the class: options, admission, frames, snapshots, listeners, disposal.
  \<open>EventBounds\<close> and \<open>EventRetention\<close> prove the bounds of the turn state and that trimming reaches its budget,
  \<open>TurnFacts\<close> that turns only move forwards and finished turns stay finished, \<open>ReducerSafety\<close> what holds
  in every run. The frame scheduler is outside: its callback is the event \<open>Frame\<close>.

  \<^bold>\<open>Authentication.\<close> \<open>Auth\<close> is \<open>common/ride-codex-auth.ts\<close>: each normalizer is a function from a value to
  a typed record or an error, with the proxy inspector and the URL parser as parameters; \<open>AuthFacts\<close> proves
  what they accept and that publishing is a fixed point. \<open>AuthBroker\<close> is \<open>node/ride-codex-auth-broker.ts\<close>:
  every asynchronous method is cut at its awaits, the table \<open>tasks\<close> holds what waits, and responses,
  notifications, host states, continuations and disposal are events, so that a list of events is an
  interleaving. The snapshot of the host is assumed not to throw when a lease arrives (\<open>lease_acquired\<close>).
  \<open>AuthBrokerFacts\<close> proves the invariants of all interleavings: valid snapshots, the bookkeeping of the
  calls, the scope of API keys, inert late answers, silence after disposal.

  \<^bold>\<open>Approvals.\<close> \<open>node/ride-codex-approval-broker.ts\<close> and \<open>common/ride-codex-approvals.ts\<close>. \<open>Paths\<close>: the posix
  path functions the broker uses, the checks of local paths, containment; \<open>ApprovalData\<close>: the validators of
  requests, contexts and decisions; \<open>ApprovalScope\<close>: file scopes, canonical and resolved, as computations
  (\<open>op\<close>) that stop at each question to the resolver or the file system; \<open>ApprovalBroker\<close>: the tables of the
  broker and the operations on one entry; \<open>ApprovalHandler\<close>: timers, tracked scopes and the handler of a
  request from authorization to its card; \<open>ApprovalMachine\<close>: admission under the capacity limit, decisions,
  notifications, host states, disposal, and the step function. A host, clock, scheduler or client is the
  record \<open>approval_env\<close>, whose answers depend on the number of the question (\<open>questions\<close>), so that they may
  differ each time. The facts: \<open>PathFacts\<close> (resolved paths are absolute, the search for an existing
  ancestor ends), \<open>ScopeFacts\<close> (accepted scopes stay in the workspace), both for \<open>path.posix\<close> only, \<open>ApprovalFrames\<close> (what operations
  leave alone), \<open>ApprovalLeases\<close> and \<open>ApprovalInvariant\<close> (the accounts of leases, keys, tokens),
  \<open>ApprovalRuns\<close> and \<open>ApprovalSteps\<close> (every event keeps them), \<open>ApprovalConsent\<close> (where acceptances come
  from), \<open>ApprovalOwners\<close> (who owns a card), \<open>ApprovalEnds\<close> (generations and disposal), \<open>ApprovalSample\<close> (a
  concrete run), \<open>ApprovalSafety\<close> (the properties). The one hypothesis about random tokens is
  \<open>tokens_distinct\<close>: those drawn in a run differ. The win32 path functions, the digest and the proxy
  inspector are parameters, and nothing is proved about paths on win32. After disposal (\<open>ApprovalEnds\<close>) the
  answers that are under way may still end, and none is added. \<open>make_capacity\<close> ends by a measure, \<open>nearest_real_path\<close> is a partial function proved total.

  \<^bold>\<open>Turns.\<close> \<open>node/ride-codex-turn-coordinator.ts\<close>, which starts, steers and interrupts turns and feeds
  the event batches above. \<open>TurnInput\<close>: the budget of raw values and the checks of single values;
  \<open>TurnSchema\<close>: the schemas of turns, items and resumed threads; \<open>TurnMessages\<close>: requests, notifications and
  the redaction of warnings; \<open>TurnFeed\<close>: the queue of events from \<open>#enqueue\<close> to the batch of \<open>#flush\<close>;
  \<open>TurnDelivery\<close>: the list of batches of a client; \<open>TurnCoordinator\<close>: the state (record \<open>coordinator\<close>), the end of
  the active turn, deliveries, notifications; \<open>TurnMachine\<close>: the calls and the recovery, cut at their awaits
  (\<open>co_tasks\<close> holds what waits), and the step function. Host, timers, clock and clients are the record
  \<open>turn_env\<close>, whose answers depend on the number of the question. The facts: \<open>TurnSizes\<close> (the price of a
  batch is the length of its text), \<open>TurnPrice\<close> (a shorter queue is not dearer), \<open>TurnQueue\<close> and
  \<open>TurnFeedFacts\<close> (the queue stays within its budget and loses no boundary to ordinary events), \<open>TurnWire\<close>
  and \<open>TurnClientFacts\<close> (what is sent is read back), \<open>TurnMoves\<close> (the relation \<open>turn_move\<close> of small moves
  and the invariants each keeps), \<open>TurnPaths\<close>, \<open>TurnNotices\<close> and \<open>TurnCalls\<close> (every operation is a sequence
  of moves, a call with the right to settle at most once), \<open>TurnSafety\<close> (the locales \<open>stateful\<close> and
  \<open>monotone_machine\<close> interpreted on the steps), \<open>TurnSample\<close> (a concrete run), \<open>TurnClaims\<close> (the properties).
  The limits are those \<open>feed_limits_of\<close> lets through, below the largest safe integer (\<open>limits_fit\<close>).
  Three things the properties leave out are shown by runs in \<open>TurnClaims\<close> or named at the property: a lease
  of an invalid generation is never given back (\<open>unbound_lease_kept\<close>), a start may reach the host after
  disposal (\<open>start_sent_after_disposal\<close>), and a merged loss counter may be too large for the reader.

  \<^bold>\<open>Threads.\<close> \<open>node/ride-codex-thread-coordinator.ts\<close> and \<open>common/ride-codex-conversations.ts\<close>: which
  conversations there are, which one is selected, and the models. \<open>ThreadData\<close>: the answers of the server and
  the requests of the frontend, and the place of a new thread; \<open>ThreadCache\<close>: the table of threads (record
  \<open>thread_cache\<close>) with its revisions, early statuses, tombstones and the floor that an eviction raises;
  \<open>ThreadCoordinator\<close>: the state (record \<open>threads\<close>), requests with their leases, and what answers do;
  \<open>ThreadMachine\<close>: the calls, the messages of the host, disposal and the step function. Host, path functions
  and \<open>localeCompare\<close> are the record \<open>thread_env\<close>. The facts: \<open>ThreadFacts\<close> (the table stays well-formed and
  bounded), \<open>ThreadArchive\<close> (an archived thread leaves a tombstone or the floor), \<open>ThreadLedger\<close> (the account of
  leases, sorted snapshots), \<open>ThreadSafety\<close> (every event keeps the invariant; \<open>stateful\<close>), \<open>ThreadRuns\<close> (what lasts
  through a run; \<open>monotone_machine\<close>), \<open>ThreadPages\<close> (first pages, older answers, places), \<open>ThreadClaims\<close> (the
  properties and a concrete run).

  \<^bold>\<open>Conventions.\<close> Integers that the code keeps in a safe range are \<open>int\<close>, with the check where the code
  has it; counters that only grow by one (operations, revisions) are \<open>nat\<close>. A thrown error is the left
  of a sum, an absent value is \<open>None\<close>. \<open>Object.freeze\<close> has no counterpart, because values do not
  change. Loops are structural recursion, or recursion with a measure; no definition needs fuel, since
  the calls a listener makes while it runs are a finite list. Sizes are those of the code; the byte measures are exact.

  \<^bold>\<open>Not modelled.\<close> A transport that calls the client back from inside a write; listeners of the reducer
  and clients of the broker that call back while they are notified (their calls are later events);
  the constructor of a broker failing because its host throws; clients of the approval broker that call
  it back while they are notified; symbol keys and array holes as values; the wiping of the instance key;
  a host or client of the turn or thread coordinator that calls back while it is called.
  The app server host, the control model and the managed
  runtime are the next parts; user interface, dependency injection, file system and process
  orchestration, updater and launcher are glue around external systems.
\<close>

end
